(* ===== verification/Prelude.thy ===== *)
theory Prelude
  imports Main "HOL-Library.Word" "HOL-Library.AList" "HOL-Library.Product_Lexorder"
begin

text \<open>
  The ground the component theories stand on: Python's exceptions as values, a
  state-and-exception monad for code that mutates objects and may raise, Python's slicing of
  byte strings, little-endian packing, and the generic lemmas on lists that the components
  share.  Nothing in this theory is specific to one component.
\<close>

section \<open>Collections of rewrite rules\<close>

named_theorems py_simps \<open>equations of the state-and-exception monad\<close>
named_theorems slice_simps \<open>Python slices with in-range bounds\<close>
named_theorems alloc_defs \<open>the definitions of the tensor allocator\<close>

section \<open>Exceptions and results\<close>

text \<open>
  An \<open>AllocatorError\<close> carries its stable error code; the human-readable message of an
  exception is not part of the model.  \<open>UnicodeDecodeError\<close> and
  \<open>JSONDecodeError\<close> are subclasses of \<open>ValueError\<close> in Python, see \<open>is_value_error\<close>.
  \<open>OutOfFuel\<close> is no exception of Python: it marks a loop of the model that has used up its fuel, and
  is proved never to occur.
\<close>

datatype pyerror =
    AllocatorError string
  | ValueError
  | UnicodeDecodeError
  | JSONDecodeError
  | TypeError
  | KeyError
  | IndexError
  | OverflowError
  | AttributeError
  | AssertionError
  | RuntimeError
  | MemoryError
  | StructError
  | FileNotFoundError
  | OSError
  | EOFError
  | ProtocolError
  | RpcRemoteError string
  | CliError
  | ArgumentTypeError
  | OutOfFuel

fun is_value_error :: "pyerror \<Rightarrow> bool" where
  "is_value_error ValueError = True"
| "is_value_error UnicodeDecodeError = True"
| "is_value_error JSONDecodeError = True"
| "is_value_error _ = False"

type_synonym 'a res = "pyerror + 'a"
type_synonym byte = "8 word"

definition bindR :: "'a res \<Rightarrow> ('a \<Rightarrow> 'b res) \<Rightarrow> 'b res" where
  "bindR r f = (case r of Inl e \<Rightarrow> Inl e | Inr x \<Rightarrow> f x)"

lemma bindR_simps [simp]: "bindR (Inl e) f = Inl e" "bindR (Inr x) f = f x"
  by (simp_all add: bindR_def)

lemma bindR_eq_Inr: "bindR r f = Inr y \<longleftrightarrow> (\<exists>x. r = Inr x \<and> f x = Inr y)"
  by (cases r) auto

lemma bindR_split:
  "P (bindR r f) \<longleftrightarrow> (\<forall>e. r = Inl e \<longrightarrow> P (Inl e)) \<and> (\<forall>x. r = Inr x \<longrightarrow> P (f x))"
  by (cases r) auto

text \<open>Mapping a function that may raise over a list, from left to right.\<close>

fun mapR :: "('a \<Rightarrow> 'b res) \<Rightarrow> 'a list \<Rightarrow> 'b list res" where
  "mapR f [] = Inr []"
| "mapR f (x # xs) = bindR (f x) (\<lambda>y. bindR (mapR f xs) (\<lambda>ys. Inr (y # ys)))"

lemma mapR_Inr: "(\<And>x. x \<in> set xs \<Longrightarrow> f x = Inr (g x)) \<Longrightarrow> mapR f xs = Inr (map g xs)"
  by (induction xs) auto

lemma mapR_length: "mapR f xs = Inr ys \<Longrightarrow> length ys = length xs"
  by (induction xs arbitrary: ys) (auto simp: bindR_eq_Inr)

section \<open>State and exceptions\<close>

text \<open>
  A Python procedure that works on a mutable state returns a value or raises, and in both
  cases leaves a state behind: what it mutated before a raise stays mutated.
\<close>

type_synonym ('s, 'a) py = "'s \<Rightarrow> 'a res \<times> 's"

definition py_ret :: "'a \<Rightarrow> ('s, 'a) py" where
  "py_ret x = (\<lambda>s. (Inr x, s))"

definition py_raise :: "pyerror \<Rightarrow> ('s, 'a) py" where
  "py_raise e = (\<lambda>s. (Inl e, s))"

definition py_lift :: "'a res \<Rightarrow> ('s, 'a) py" where
  "py_lift r = (\<lambda>s. (r, s))"

definition py_bind :: "('s, 'a) py \<Rightarrow> ('a \<Rightarrow> ('s, 'b) py) \<Rightarrow> ('s, 'b) py" where
  "py_bind m f = (\<lambda>s. case m s of (Inl e, s') \<Rightarrow> (Inl e, s') | (Inr x, s') \<Rightarrow> f x s')"

definition py_then :: "('s, 'a) py \<Rightarrow> ('s, 'b) py \<Rightarrow> ('s, 'b) py" where
  "py_then m n = py_bind m (\<lambda>_. n)"

definition py_get :: "('s \<Rightarrow> 'a) \<Rightarrow> ('s, 'a) py" where
  "py_get f = (\<lambda>s. (Inr (f s), s))"

definition py_mod :: "('s \<Rightarrow> 's) \<Rightarrow> ('s, unit) py" where
  "py_mod f = (\<lambda>s. (Inr (), f s))"

text \<open>\<open>try: m; except e: h e\<close>; the handler runs in the state the body left.\<close>

definition py_catch :: "('s, 'a) py \<Rightarrow> (pyerror \<Rightarrow> ('s, 'a) py) \<Rightarrow> ('s, 'a) py" where
  "py_catch m h = (\<lambda>s. case m s of (Inl e, s') \<Rightarrow> h e s' | (Inr x, s') \<Rightarrow> (Inr x, s'))"

text \<open>\<open>try: m; finally: f\<close>; an exception of \<open>f\<close> replaces the outcome of \<open>m\<close>.\<close>

definition py_finally :: "('s, 'a) py \<Rightarrow> ('s, unit) py \<Rightarrow> ('s, 'a) py" where
  "py_finally m f = (\<lambda>s. case m s of (r, s') \<Rightarrow>
     (case f s' of (Inl e, s'') \<Rightarrow> (Inl e, s'') | (Inr _, s'') \<Rightarrow> (r, s'')))"

definition py_when :: "bool \<Rightarrow> ('s, unit) py \<Rightarrow> ('s, unit) py" where
  "py_when b m = (if b then m else py_ret ())"

fun py_for :: "'a list \<Rightarrow> ('a \<Rightarrow> ('s, unit) py) \<Rightarrow> ('s, unit) py" where
  "py_for [] f = py_ret ()"
| "py_for (x # xs) f = py_then (f x) (py_for xs f)"

lemma py_run_simps [simp, py_simps]:
  "py_ret x s = (Inr x, s)"
  "py_raise e s = (Inl e, s)"
  "py_lift r s = (r, s)"
  "py_get f s = (Inr (f s), s)"
  "py_mod g s = (Inr (), g s)"
  by (simp_all add: py_ret_def py_raise_def py_lift_def py_get_def py_mod_def)

lemma py_bind_run [py_simps]:
  "py_bind m f s = (case m s of (Inl e, s') \<Rightarrow> (Inl e, s') | (Inr x, s') \<Rightarrow> f x s')"
  by (simp add: py_bind_def)

lemma py_then_run [py_simps]:
  "py_then m n s = (case m s of (Inl e, s') \<Rightarrow> (Inl e, s') | (Inr _, s') \<Rightarrow> n s')"
  by (simp add: py_then_def py_bind_def)

lemma py_catch_run [py_simps]:
  "py_catch m h s = (case m s of (Inl e, s') \<Rightarrow> h e s' | (Inr x, s') \<Rightarrow> (Inr x, s'))"
  by (simp add: py_catch_def)

lemma py_finally_run [py_simps]:
  "py_finally m f s = (case m s of (r, s') \<Rightarrow>
     (case f s' of (Inl e, s'') \<Rightarrow> (Inl e, s'') | (Inr _, s'') \<Rightarrow> (r, s'')))"
  by (simp add: py_finally_def)

lemma py_when_run [py_simps]: "py_when b m s = (if b then m s else (Inr (), s))"
  by (simp add: py_when_def)

lemma py_bind_ret: "py_bind (py_ret x) f = f x"
  by (simp add: py_bind_def py_ret_def)

lemma py_bind_raise: "py_bind (py_raise e) f = py_raise e"
  by (simp add: py_bind_def py_raise_def fun_eq_iff)

lemma py_bind_assoc: "py_bind (py_bind m f) g = py_bind m (\<lambda>x. py_bind (f x) g)"
  by (auto simp: py_bind_def fun_eq_iff split: prod.splits sum.splits)

text \<open>
  \<open>py_keeps R m\<close>: whatever \<open>m\<close> does, returning or raising, it relates its start
  and end states by \<open>R\<close>.  For a reflexive and transitive \<open>R\<close> the combinators keep it.
\<close>

definition py_keeps :: "('s \<Rightarrow> 's \<Rightarrow> bool) \<Rightarrow> ('s, 'a) py \<Rightarrow> bool" where
  "py_keeps R m \<longleftrightarrow> (\<forall>s r s'. m s = (r, s') \<longrightarrow> R s s')"

lemma py_keepsI: "(\<And>s r s'. m s = (r, s') \<Longrightarrow> R s s') \<Longrightarrow> py_keeps R m"
  by (simp add: py_keeps_def)

lemma py_keepsD: "py_keeps R m \<Longrightarrow> m s = (r, s') \<Longrightarrow> R s s'"
  by (simp add: py_keeps_def)

lemma py_keeps_pure:
  assumes "reflp R"
  shows "py_keeps R (py_ret x)" "py_keeps R (py_raise e)" "py_keeps R (py_lift r)"
    "py_keeps R (py_get f)"
  using assms by (auto simp: py_keeps_def reflp_def)

lemma py_keeps_bind:
  assumes "transp R" "py_keeps R m" "\<And>x. py_keeps R (f x)"
  shows "py_keeps R (py_bind m f)"
proof (rule py_keepsI)
  fix s r s' assume run: "py_bind m f s = (r, s')"
  obtain r1 s1 where m: "m s = (r1, s1)" by (cases "m s")
  have R1: "R s s1" using assms(2) m by (rule py_keepsD)
  show "R s s'"
  proof (cases r1)
    case (Inl e)
    with run m R1 show ?thesis by (simp add: py_bind_run)
  next
    case (Inr x)
    with run m have "f x s1 = (r, s')" by (simp add: py_bind_run)
    with assms(3) have "R s1 s'" by (rule py_keepsD)
    with R1 assms(1) show ?thesis by (blast dest: transpD)
  qed
qed

lemma py_keeps_then:
  "transp R \<Longrightarrow> py_keeps R m \<Longrightarrow> py_keeps R n \<Longrightarrow> py_keeps R (py_then m n)"
  unfolding py_then_def by (rule py_keeps_bind)

lemma py_keeps_for:
  "reflp R \<Longrightarrow> transp R \<Longrightarrow> (\<And>x. x \<in> set xs \<Longrightarrow> py_keeps R (f x)) \<Longrightarrow> py_keeps R (py_for xs f)"
  by (induction xs) (auto intro: py_keeps_pure py_keeps_then)

lemma py_keeps_catch:
  assumes "transp R" "py_keeps R m" "\<And>e. py_keeps R (h e)"
  shows "py_keeps R (py_catch m h)"
proof (rule py_keepsI)
  fix s r s' assume run: "py_catch m h s = (r, s')"
  obtain r1 s1 where m: "m s = (r1, s1)" by (cases "m s")
  have R1: "R s s1" using assms(2) m by (rule py_keepsD)
  show "R s s'"
  proof (cases r1)
    case (Inl e)
    with run m have "h e s1 = (r, s')" by (simp add: py_catch_run)
    with assms(3) have "R s1 s'" by (rule py_keepsD)
    with R1 assms(1) show ?thesis by (blast dest: transpD)
  next
    case (Inr x)
    with run m R1 show ?thesis by (simp add: py_catch_run)
  qed
qed

lemma py_keeps_finally:
  assumes "transp R" "py_keeps R m" "py_keeps R f"
  shows "py_keeps R (py_finally m f)"
proof (rule py_keepsI)
  fix s r s' assume run: "py_finally m f s = (r, s')"
  obtain r1 s1 where m: "m s = (r1, s1)" by (cases "m s")
  obtain r2 s2 where f: "f s1 = (r2, s2)" by (cases "f s1")
  have "R s s1" "R s1 s2" using assms(2,3) m f by (auto dest: py_keepsD)
  then have "R s s2" using assms(1) by (blast dest: transpD)
  moreover have "s' = s2" using run m f by (auto simp: py_finally_run split: sum.splits)
  ultimately show "R s s'" by simp
qed

lemma py_keeps_when:
  "reflp R \<Longrightarrow> py_keeps R m \<Longrightarrow> py_keeps R (py_when b m)"
  by (auto simp: py_when_def intro: py_keeps_pure)

section \<open>Python slices\<close>

text \<open>
  Python's \<open>xs[lo:hi]\<close>: a negative bound counts from the end, then both are clamped to
  the length.  Assignment to a slice of a \<open>bytearray\<close> replaces the slice, whatever the
  lengths are; an empty slice (\<open>hi \<le> lo\<close>) inserts at \<open>lo\<close>.
\<close>

definition slice_bound :: "nat \<Rightarrow> int \<Rightarrow> nat" where
  "slice_bound n i = min n (nat (if i < 0 then int n + i else i))"

definition py_slice :: "'a list \<Rightarrow> int \<Rightarrow> int \<Rightarrow> 'a list" where
  "py_slice xs lo hi =
     (let l = slice_bound (length xs) lo; h = slice_bound (length xs) hi
      in take (h - l) (drop l xs))"

definition slice_assign :: "'a list \<Rightarrow> int \<Rightarrow> int \<Rightarrow> 'a list \<Rightarrow> 'a list" where
  "slice_assign xs lo hi ys =
     (let l = slice_bound (length xs) lo; h = max l (slice_bound (length xs) hi)
      in take l xs @ ys @ drop h xs)"

text \<open>
  Indexing: an index from \<open>- len\<close> to \<open>len - 1\<close> is taken modulo the length, any
  other raises \<open>IndexError\<close>.
\<close>

definition py_index :: "'a list \<Rightarrow> int \<Rightarrow> 'a res" where
  "py_index xs i =
     (if i \<ge> int (length xs) \<or> i + int (length xs) < 0 then Inl IndexError
      else Inr (xs ! nat (i mod int (length xs))))"

lemma slice_bound_in [slice_simps]: "0 \<le> i \<Longrightarrow> i \<le> int n \<Longrightarrow> slice_bound n i = nat i"
  by (simp add: slice_bound_def)

lemma slice_bound_le: "slice_bound n i \<le> n"
  by (simp add: slice_bound_def)

lemma py_slice_in [slice_simps]:
  "0 \<le> lo \<Longrightarrow> lo \<le> hi \<Longrightarrow> hi \<le> int (length xs) \<Longrightarrow>
   py_slice xs lo hi = take (nat (hi - lo)) (drop (nat lo) xs)"
  by (simp add: py_slice_def slice_bound_in nat_diff_distrib Let_def)

lemma slice_assign_in [slice_simps]:
  "0 \<le> lo \<Longrightarrow> lo \<le> hi \<Longrightarrow> hi \<le> int (length xs) \<Longrightarrow>
   slice_assign xs lo hi ys = take (nat lo) xs @ ys @ drop (nat hi) xs"
  by (simp add: slice_assign_def slice_bound_in max_def Let_def)

lemma length_py_slice:
  "0 \<le> lo \<Longrightarrow> lo \<le> hi \<Longrightarrow> hi \<le> int (length xs) \<Longrightarrow> int (length (py_slice xs lo hi)) = hi - lo"
  by (simp add: py_slice_in)

lemma length_slice_assign:
  "0 \<le> lo \<Longrightarrow> lo + int (length ys) \<le> int (length xs) \<Longrightarrow>
   length (slice_assign xs lo (lo + int (length ys)) ys) = length xs"
  by (simp add: slice_assign_in)

lemma py_index_in: "0 \<le> i \<Longrightarrow> i < int (length xs) \<Longrightarrow> py_index xs i = Inr (xs ! nat i)"
  by (simp add: py_index_def)

text \<open>The point-wise reading of a slice and of a slice assignment.\<close>

lemma nth_py_slice:
  "0 \<le> lo \<Longrightarrow> hi \<le> int (length xs) \<Longrightarrow> int j < hi - lo \<Longrightarrow>
   py_slice xs lo hi ! j = xs ! (nat lo + j)"
  by (simp add: py_slice_in)

lemma nth_slice_assign:
  assumes "0 \<le> lo" "lo + int (length ys) \<le> int (length xs)" "j < length xs"
  shows "slice_assign xs lo (lo + int (length ys)) ys ! j =
    (if lo \<le> int j \<and> int j < lo + int (length ys) then ys ! (j - nat lo) else xs ! j)"
proof -
  obtain l where l: "lo = int l" using assms(1) by (metis nonneg_int_cases)
  have "l + length ys \<le> length xs" using assms(2) l by simp
  moreover have "nat (int l + int (length ys)) = l + length ys" by simp
  ultimately show ?thesis
    using assms(3) by (auto simp: l slice_assign_in nth_append min_def)
qed

lemma slice_assign_same:
  assumes "0 \<le> lo" "lo + int (length ys) \<le> int (length xs)"
  shows "py_slice (slice_assign xs lo (lo + int (length ys)) ys) lo (lo + int (length ys)) = ys"
  using assms by (simp add: py_slice_in slice_assign_in length_slice_assign)

lemma slice_assign_disjoint:
  assumes "0 \<le> lo" "lo + int (length ys) \<le> int (length xs)"
    and "0 \<le> a" "a \<le> b" "b \<le> int (length xs)"
    and "b \<le> lo \<or> lo + int (length ys) \<le> a"
  shows "py_slice (slice_assign xs lo (lo + int (length ys)) ys) a b = py_slice xs a b"
proof (rule nth_equalityI)
  show "length (py_slice (slice_assign xs lo (lo + int (length ys)) ys) a b) = length (py_slice xs a b)"
    using assms by (simp add: py_slice_in length_slice_assign)
next
  fix j assume "j < length (py_slice (slice_assign xs lo (lo + int (length ys)) ys) a b)"
  with assms have j: "int j < b - a"
    by (simp add: py_slice_in length_slice_assign)
  then have "\<not> (lo \<le> int (nat a + j) \<and> int (nat a + j) < lo + int (length ys))"
    using assms by auto
  with assms j show "py_slice (slice_assign xs lo (lo + int (length ys)) ys) a b ! j = py_slice xs a b ! j"
    by (auto simp: nth_py_slice length_slice_assign nth_slice_assign)
qed

section \<open>Little-endian packing\<close>

text \<open>\<open>struct.pack\<close> of an unsigned integer in \<open>n\<close> bytes, and reading it back.\<close>

definition le_bytes :: "nat \<Rightarrow> int \<Rightarrow> byte list" where
  "le_bytes n v = map (\<lambda>i. word_of_int (v div 2 ^ (8 * i))) [0..<n]"

definition be_bytes :: "nat \<Rightarrow> int \<Rightarrow> byte list" where
  "be_bytes n v = rev (le_bytes n v)"

fun le_value :: "byte list \<Rightarrow> int" where
  "le_value [] = 0"
| "le_value (b # bs) = uint b + 256 * le_value bs"

definition be_value :: "byte list \<Rightarrow> int" where
  "be_value bs = le_value (rev bs)"

text \<open>\<open>int.from_bytes(bs, "little", signed=True)\<close>.\<close>

definition le_signed :: "byte list \<Rightarrow> int" where
  "le_signed bs =
     (let v = le_value bs; w = 2 ^ (8 * length bs)
      in if bs \<noteq> [] \<and> w div 2 \<le> v then v - w else v)"

lemma length_le_bytes [simp]: "length (le_bytes n v) = n"
  by (simp add: le_bytes_def)

lemma length_be_bytes [simp]: "length (be_bytes n v) = n"
  by (simp add: be_bytes_def)

lemma le_bytes_0 [simp]: "le_bytes 0 v = []"
  by (simp add: le_bytes_def)

lemma le_bytes_Suc: "le_bytes (Suc n) v = word_of_int v # le_bytes n (v div 256)"
proof -
  have "map (\<lambda>i. word_of_int (v div 2 ^ (8 * i)) :: byte) [Suc 0..<Suc n]
      = map (\<lambda>i. word_of_int (v div 256 div 2 ^ (8 * i))) [0..<n]"
    by (simp add: map_Suc_upt [symmetric] comp_def power_add
        zdiv_zmult2_eq del: upt_Suc)
  then show ?thesis
    by (simp add: le_bytes_def upt_conv_Cons del: upt_Suc)
qed

lemma le_value_bound: "0 \<le> le_value bs \<and> le_value bs < 256 ^ length bs"
proof (induction bs)
  case Nil
  show ?case by simp
next
  case (Cons b bs)
  have "uint b < 256" using uint_lt2p [of b] by simp
  with Cons show ?case by simp
qed

lemma le_value_le_bytes: "0 \<le> v \<Longrightarrow> v < 256 ^ n \<Longrightarrow> le_value (le_bytes n v) = v"
proof (induction n arbitrary: v)
  case 0
  then show ?case by simp
next
  case (Suc n)
  have "v div 256 < 256 ^ n" using Suc.prems by simp
  moreover have "0 \<le> v div 256" using Suc.prems by simp
  ultimately have "le_value (le_bytes n (v div 256)) = v div 256" by (rule Suc.IH [rotated])
  moreover have "uint (word_of_int v :: byte) = v mod 256"
    by (simp add: uint_word_of_int)
  ultimately show ?case by (simp add: le_bytes_Suc)
qed

lemma le_bytes_le_value: "length bs = n \<Longrightarrow> le_bytes n (le_value bs) = bs"
proof (induction bs arbitrary: n)
  case Nil
  then show ?case by simp
next
  case (Cons b bs)
  then obtain m where n: "n = Suc m" "length bs = m" by auto
  have b: "0 \<le> uint b" "uint b < 256" using uint_lt2p [of b] by simp_all
  then have "(uint b + 256 * le_value bs) div 256 = le_value bs" by simp
  moreover have "(word_of_int (uint b + 256 * le_value bs) :: byte) = b"
  proof -
    have "uint (word_of_int (uint b + 256 * le_value bs) :: byte)
        = (uint b + 256 * le_value bs) mod 2 ^ LENGTH(8)"
      by (rule uint_word_of_int)
    then show ?thesis using b by (simp add: word_uint_eq_iff del: of_int_add of_int_mult)
  qed
  ultimately show ?case using Cons.IH n by (simp add: le_bytes_Suc)
qed

lemma be_value_be_bytes: "0 \<le> v \<Longrightarrow> v < 256 ^ n \<Longrightarrow> be_value (be_bytes n v) = v"
  by (simp add: be_value_def be_bytes_def le_value_le_bytes)

section \<open>Generic list lemmas\<close>

lemma sum_list_map_add:
  fixes f :: "'a \<Rightarrow> int"
  shows "(\<Sum>x\<leftarrow>xs @ ys. f x) = (\<Sum>x\<leftarrow>xs. f x) + (\<Sum>x\<leftarrow>ys. f x)"
  by simp

lemma map_of_delete: "map_of (AList.delete k al) = (map_of al)(k := None)"
  by (simp add: AList.delete_conv')

section \<open>Loops that may raise, ranges, byte buffers\<close>

fun foldR :: "('s \<Rightarrow> 'a \<Rightarrow> 's res) \<Rightarrow> 's \<Rightarrow> 'a list \<Rightarrow> 's res" where
  "foldR f s [] = Inr s"
| "foldR f s (x # xs) = bindR (f s x) (\<lambda>s'. foldR f s' xs)"

lemma foldR_append: "foldR f s (xs @ ys) = bindR (foldR f s xs) (\<lambda>s'. foldR f s' ys)"
  by (induction xs arbitrary: s) (auto split: bindR_split)

definition py_range :: "int \<Rightarrow> int list" where
  "py_range n = map int [0..<nat n]"

lemma length_py_range [simp]: "length (py_range n) = nat n"
  by (simp add: py_range_def)

lemma nth_py_range [simp]: "i < nat n \<Longrightarrow> py_range n ! i = int i"
  by (simp add: py_range_def)

lemma set_py_range [simp]: "set (py_range n) = {0..<n}"
proof -
  have "x \<in> int ` {0..<nat n}" if "0 \<le> x" "x < n" for x
    using that by (intro image_eqI [of _ _ "nat x"]) auto
  then show ?thesis by (auto simp: py_range_def)
qed

text \<open>\<open>bytearray(n)\<close> and \<open>struct.pack_into("<Q", out, offset, v)\<close>.\<close>

definition bytearray :: "int \<Rightarrow> byte list res" where
  "bytearray n = (if n < 0 then Inl ValueError else Inr (replicate (nat n) 0))"

definition pack_into_Q :: "byte list \<Rightarrow> int \<Rightarrow> int \<Rightarrow> byte list res" where
  "pack_into_Q out offset v =
     (let o' = (if offset < 0 then offset + int (length out) else offset) in
      if o' < 0 \<or> int (length out) < o' + 8 \<or> v < 0 \<or> 2 ^ 64 \<le> v then Inl StructError
      else Inr (slice_assign out o' (o' + 8) (le_bytes 8 v)))"

section \<open>Filling a buffer from the left\<close>

text \<open>A zeroed buffer of size \<open>n\<close> whose first bytes are \<open>d\<close>, and the cursor behind them.\<close>

definition filled :: "nat \<Rightarrow> byte list \<Rightarrow> byte list \<times> int" where
  "filled n d = (d @ replicate (n - length d) 0, int (length d))"

lemma filled_start: "bytearray n = Inr out \<Longrightarrow> (out, 0) = filled (nat n) []"
  by (auto simp: bytearray_def filled_def split: if_splits)

lemma filled_full: "length d = n \<Longrightarrow> fst (filled n d) = d"
  by (simp add: filled_def)

lemma filled_assign:
  assumes "length d + length e \<le> n" "filled n d = (out, cursor)"
  shows "(slice_assign out cursor (cursor + int (length e)) e, cursor + int (length e)) = filled n (d @ e)"
  using assms by (auto simp: filled_def slice_assign_in nat_add_distrib)

lemma filled_pack_Q:
  assumes "length d + 8 \<le> n" "filled n d = (out, cursor)" "0 \<le> v" "v < 2 ^ 64"
  shows "bindR (pack_into_Q out cursor v) (\<lambda>out'. Inr (out', cursor + 8)) = Inr (filled n (d @ le_bytes 8 v))"
  using filled_assign [OF _ assms(2), of "le_bytes 8 v"] assms by (auto simp: pack_into_Q_def filled_def)

lemma foldR_emit:
  assumes "\<And>x d. x \<in> set xs \<Longrightarrow> length d + length (f x) \<le> n \<Longrightarrow> step (filled n d) x = Inr (filled n (d @ f x))"
    and "length d + length (concat (map f xs)) \<le> n"
  shows "foldR step (filled n d) xs = Inr (filled n (d @ concat (map f xs)))"
  using assms
proof (induction xs arbitrary: d)
  case (Cons x xs)
  have "step (filled n d) x = Inr (filled n (d @ f x))" using Cons.prems by simp
  then show ?case using Cons.IH [of "d @ f x"] Cons.prems by simp
qed simp

section \<open>Concatenations of blocks of one length\<close>

lemma length_concat_blocks:
  "(\<And>x. x \<in> set xs \<Longrightarrow> length (f x) = m) \<Longrightarrow> length (concat (map f xs)) = length xs * m"
  by (induction xs) auto

lemma nth_block:
  assumes "\<And>x. x \<in> set xs \<Longrightarrow> length (f x) = m" "i < length xs"
  shows "take m (drop (i * m) (concat (map f xs))) = f (xs ! i)"
  using assms
proof (induction xs arbitrary: i)
  case (Cons x xs)
  then show ?case by (cases i) auto
qed simp

lemma take_drop_block:
  assumes "\<And>x. x \<in> set xs \<Longrightarrow> length (f x) = m" "i < length xs" "j + l \<le> m"
  shows "take l (drop (i * m + j) (concat (map f xs))) = take l (drop j (f (xs ! i)))"
proof -
  have "take l (drop j (take m (drop (i * m) (concat (map f xs))))) =
      take l (drop (i * m + j) (concat (map f xs)))"
    using assms(3) by (simp add: drop_take take_take min_def add.commute)
  then show ?thesis using nth_block [OF assms(1,2)] by simp
qed

section \<open>Words built with shifts and or\<close>

lemma or_push_bit:
  fixes a b :: int
  assumes "0 \<le> a" "a < 2 ^ n"
  shows "or a (push_bit n b) = a + 2 ^ n * b"
proof -
  have a: "take_bit n a = a" using assms by (simp add: take_bit_int_eq_self)
  have "and a (push_bit n b) = 0"
  proof (rule bit_eqI)
    fix m
    show "bit (and a (push_bit n b)) m = bit (0 :: int) m"
      using bit_take_bit_iff [of n a m] a by (auto simp: bit_simps)
  qed
  then show ?thesis by (simp add: disjunctive_add_eq_or [symmetric] push_bit_eq_mult mult.commute)
qed

lemma le_value_append: "le_value (xs @ ys) = le_value xs + 256 ^ length xs * le_value ys"
  by (induction xs) (auto simp: algebra_simps)

lemma le_value_or:
  "or (le_value xs) (push_bit (8 * length xs) (le_value ys)) = le_value (xs @ ys)"
  using le_value_bound [of xs] or_push_bit [of "le_value xs" "8 * length xs"]
  by (simp add: le_value_append power_mult)

text \<open>A word assembled lane by lane is the little-endian value of the lanes' bytes.\<close>

lemma foldR_lanes:
  assumes "\<And>i. i < m \<Longrightarrow> bits (int i) = Inr (le_value (g i))" "\<And>i. i < m \<Longrightarrow> length (g i) = n"
  shows "foldR (\<lambda>word i. bindR (bits i) (\<lambda>b. Inr (or word (push_bit (nat (i * int (8 * n))) b)))) 0
      (py_range (int m)) = Inr (le_value (concat (map g [0..<m])))"
  using assms
proof (induction m)
  case (Suc m)
  have rng: "py_range (int (Suc m)) = py_range (int m) @ [int m]" by (simp add: py_range_def nat_add_distrib)
  have "length (concat (map g [0..<m])) = m * n" using Suc.prems by (subst length_concat_blocks) auto
  moreover have "nat (int m * int (8 * n)) = 8 * (m * n)"
    by (metis mult.left_commute nat_int of_nat_mult)
  ultimately show ?case using Suc le_value_or [of "concat (map g [0..<m])" "g m"]
    by (simp add: rng foldR_append del: of_nat_Suc)
qed (simp add: py_range_def)

end
