(* ===== verification/Ops.thy ===== *)
theory Ops
  imports Prelude
begin

text \<open>
  The wire schema of \<^verbatim>\<open>proto/ops.py\<close>: the names of the remote procedures, of the graph
  operations and of the JSON fields, the error codes and the numeric block sizes, each under
  the name it has in the source.
\<close>

abbreviation (input) ABI_VERSION :: "int" where
  "ABI_VERSION \<equiv> 1"

abbreviation (input) GRAPH_VERSION :: "int" where
  "GRAPH_VERSION \<equiv> 1"

abbreviation (input) DEFAULT_PORT :: "int" where
  "DEFAULT_PORT \<equiv> 50055"

abbreviation (input) SERVER_NAME :: "string" where
  "SERVER_NAME \<equiv> ''bonsaid''"

abbreviation (input) OP_HELLO :: "string" where
  "OP_HELLO \<equiv> ''HELLO''"

abbreviation (input) OP_MEMORY :: "string" where
  "OP_MEMORY \<equiv> ''MEMORY''"

abbreviation (input) OP_ALLOC_TENSOR :: "string" where
  "OP_ALLOC_TENSOR \<equiv> ''ALLOC_TENSOR''"

abbreviation (input) OP_UPLOAD_TENSOR :: "string" where
  "OP_UPLOAD_TENSOR \<equiv> ''UPLOAD_TENSOR''"

abbreviation (input) OP_DOWNLOAD_TENSOR :: "string" where
  "OP_DOWNLOAD_TENSOR \<equiv> ''DOWNLOAD_TENSOR''"

abbreviation (input) OP_FREE_TENSOR :: "string" where
  "OP_FREE_TENSOR \<equiv> ''FREE_TENSOR''"

abbreviation (input) OP_RUN_GRAPH :: "string" where
  "OP_RUN_GRAPH \<equiv> ''RUN_GRAPH''"

definition RPC_OPS :: "string list" where
  "RPC_OPS = [OP_HELLO, OP_MEMORY, OP_ALLOC_TENSOR, OP_UPLOAD_TENSOR, OP_DOWNLOAD_TENSOR,
      OP_FREE_TENSOR, OP_RUN_GRAPH]"

abbreviation (input) GOP_COPY :: "string" where
  "GOP_COPY \<equiv> ''COPY''"

abbreviation (input) GOP_MATMUL_Q1A8 :: "string" where
  "GOP_MATMUL_Q1A8 \<equiv> ''MATMUL_Q1A8''"

abbreviation (input) GOP_ADD_F32 :: "string" where
  "GOP_ADD_F32 \<equiv> ''ADD_F32''"

abbreviation (input) GOP_MUL_F32 :: "string" where
  "GOP_MUL_F32 \<equiv> ''MUL_F32''"

abbreviation (input) GOP_SCALE_F32 :: "string" where
  "GOP_SCALE_F32 \<equiv> ''SCALE_F32''"

abbreviation (input) GOP_SILU_F32 :: "string" where
  "GOP_SILU_F32 \<equiv> ''SILU_F32''"

abbreviation (input) GOP_SWIGLU_F32 :: "string" where
  "GOP_SWIGLU_F32 \<equiv> ''SWIGLU_F32''"

abbreviation (input) GOP_RMS_NORM_F32 :: "string" where
  "GOP_RMS_NORM_F32 \<equiv> ''RMS_NORM_F32''"

abbreviation (input) GOP_RMS_NORM_MUL_F32 :: "string" where
  "GOP_RMS_NORM_MUL_F32 \<equiv> ''RMS_NORM_MUL_F32''"

abbreviation (input) GOP_ROPE_F32 :: "string" where
  "GOP_ROPE_F32 \<equiv> ''ROPE_F32''"

abbreviation (input) GOP_FLASH_ATTN_EXT_F32 :: "string" where
  "GOP_FLASH_ATTN_EXT_F32 \<equiv> ''FLASH_ATTN_EXT_F32''"

abbreviation (input) GOP_GET_ROWS :: "string" where
  "GOP_GET_ROWS \<equiv> ''GET_ROWS''"

abbreviation (input) GOP_SET_ROWS :: "string" where
  "GOP_SET_ROWS \<equiv> ''SET_ROWS''"

definition GRAPH_OPS :: "string list" where
  "GRAPH_OPS = [GOP_COPY, GOP_MATMUL_Q1A8, GOP_ADD_F32, GOP_MUL_F32, GOP_SCALE_F32,
      GOP_SILU_F32, GOP_SWIGLU_F32, GOP_RMS_NORM_F32, GOP_RMS_NORM_MUL_F32,
      GOP_ROPE_F32, GOP_FLASH_ATTN_EXT_F32, GOP_GET_ROWS, GOP_SET_ROWS]"

abbreviation (input) F_ID :: "string" where
  "F_ID \<equiv> ''id''"

abbreviation (input) F_OP :: "string" where
  "F_OP \<equiv> ''op''"

abbreviation (input) F_OK :: "string" where
  "F_OK \<equiv> ''ok''"

abbreviation (input) F_RESULT :: "string" where
  "F_RESULT \<equiv> ''result''"

abbreviation (input) F_ERROR :: "string" where
  "F_ERROR \<equiv> ''error''"

abbreviation (input) F_CODE :: "string" where
  "F_CODE \<equiv> ''code''"

abbreviation (input) F_MESSAGE :: "string" where
  "F_MESSAGE \<equiv> ''message''"

abbreviation (input) F_NBYTES :: "string" where
  "F_NBYTES \<equiv> ''nbytes''"

abbreviation (input) F_SHAPE :: "string" where
  "F_SHAPE \<equiv> ''shape''"

abbreviation (input) F_DTYPE :: "string" where
  "F_DTYPE \<equiv> ''dtype''"

abbreviation (input) F_USAGE :: "string" where
  "F_USAGE \<equiv> ''usage''"

abbreviation (input) F_LAYOUT :: "string" where
  "F_LAYOUT \<equiv> ''layout''"

abbreviation (input) F_ALIGNMENT :: "string" where
  "F_ALIGNMENT \<equiv> ''alignment''"

abbreviation (input) F_TENSOR :: "string" where
  "F_TENSOR \<equiv> ''tensor''"

abbreviation (input) F_HANDLE :: "string" where
  "F_HANDLE \<equiv> ''handle''"

abbreviation (input) F_OFFSET :: "string" where
  "F_OFFSET \<equiv> ''offset''"

abbreviation (input) F_SIZE :: "string" where
  "F_SIZE \<equiv> ''size''"

abbreviation (input) F_EXTENT_COUNT :: "string" where
  "F_EXTENT_COUNT \<equiv> ''extent_count''"

abbreviation (input) F_MEMORY :: "string" where
  "F_MEMORY \<equiv> ''memory''"

abbreviation (input) F_TOTAL_BYTES :: "string" where
  "F_TOTAL_BYTES \<equiv> ''total_bytes''"

abbreviation (input) F_FREE_BYTES :: "string" where
  "F_FREE_BYTES \<equiv> ''free_bytes''"

abbreviation (input) F_USED_BYTES :: "string" where
  "F_USED_BYTES \<equiv> ''used_bytes''"

abbreviation (input) F_SLAB_COUNT :: "string" where
  "F_SLAB_COUNT \<equiv> ''slab_count''"

abbreviation (input) F_TENSOR_COUNT :: "string" where
  "F_TENSOR_COUNT \<equiv> ''tensor_count''"

abbreviation (input) F_ABI_VERSION :: "string" where
  "F_ABI_VERSION \<equiv> ''abi_version''"

abbreviation (input) F_SERVER :: "string" where
  "F_SERVER \<equiv> ''server''"

abbreviation (input) F_OVERLAY_ID :: "string" where
  "F_OVERLAY_ID \<equiv> ''overlay_id''"

abbreviation (input) F_CAPABILITIES :: "string" where
  "F_CAPABILITIES \<equiv> ''capabilities''"

abbreviation (input) F_GRAPH_OPS :: "string" where
  "F_GRAPH_OPS \<equiv> ''graph_ops''"

abbreviation (input) F_GRAPH_VERSION :: "string" where
  "F_GRAPH_VERSION \<equiv> ''graph_version''"

abbreviation (input) F_OPS :: "string" where
  "F_OPS \<equiv> ''ops''"

abbreviation (input) F_OUTPUTS :: "string" where
  "F_OUTPUTS \<equiv> ''outputs''"

abbreviation (input) F_OP_COUNT :: "string" where
  "F_OP_COUNT \<equiv> ''op_count''"

abbreviation (input) F_COUNTERS :: "string" where
  "F_COUNTERS \<equiv> ''counters''"

abbreviation (input) F_PS_OPS :: "string" where
  "F_PS_OPS \<equiv> ''ps_ops''"

abbreviation (input) F_PL_OPS :: "string" where
  "F_PL_OPS \<equiv> ''pl_ops''"

abbreviation (input) F_BYTES_READ :: "string" where
  "F_BYTES_READ \<equiv> ''bytes_read''"

abbreviation (input) F_BYTES_WRITTEN :: "string" where
  "F_BYTES_WRITTEN \<equiv> ''bytes_written''"

abbreviation (input) F_ELAPSED_US :: "string" where
  "F_ELAPSED_US \<equiv> ''elapsed_us''"

abbreviation (input) F_SRC :: "string" where
  "F_SRC \<equiv> ''src''"

abbreviation (input) F_DST :: "string" where
  "F_DST \<equiv> ''dst''"

abbreviation (input) F_SRC_OFFSET :: "string" where
  "F_SRC_OFFSET \<equiv> ''src_offset''"

abbreviation (input) F_DST_OFFSET :: "string" where
  "F_DST_OFFSET \<equiv> ''dst_offset''"

abbreviation (input) F_SRC0 :: "string" where
  "F_SRC0 \<equiv> ''src0''"

abbreviation (input) F_SRC1 :: "string" where
  "F_SRC1 \<equiv> ''src1''"

abbreviation (input) F_SRC0_OFFSET :: "string" where
  "F_SRC0_OFFSET \<equiv> ''src0_offset''"

abbreviation (input) F_SRC1_OFFSET :: "string" where
  "F_SRC1_OFFSET \<equiv> ''src1_offset''"

abbreviation (input) F_SRC1_BROADCAST :: "string" where
  "F_SRC1_BROADCAST \<equiv> ''src1_broadcast''"

abbreviation (input) F_WEIGHTS :: "string" where
  "F_WEIGHTS \<equiv> ''weights''"

abbreviation (input) F_ACTS :: "string" where
  "F_ACTS \<equiv> ''acts''"

abbreviation (input) F_WEIGHTS_OFFSET :: "string" where
  "F_WEIGHTS_OFFSET \<equiv> ''weights_offset''"

abbreviation (input) F_ACTS_OFFSET :: "string" where
  "F_ACTS_OFFSET \<equiv> ''acts_offset''"

abbreviation (input) F_ROWS :: "string" where
  "F_ROWS \<equiv> ''rows''"

abbreviation (input) F_COLS :: "string" where
  "F_COLS \<equiv> ''cols''"

abbreviation (input) F_K :: "string" where
  "F_K \<equiv> ''k''"

abbreviation (input) F_ELEMENTS :: "string" where
  "F_ELEMENTS \<equiv> ''elements''"

abbreviation (input) F_SCALE :: "string" where
  "F_SCALE \<equiv> ''scale''"

abbreviation (input) F_BIAS :: "string" where
  "F_BIAS \<equiv> ''bias''"

abbreviation (input) F_EPS :: "string" where
  "F_EPS \<equiv> ''eps''"

abbreviation (input) F_NAME :: "string" where
  "F_NAME \<equiv> ''name''"

abbreviation (input) F_POSITIONS :: "string" where
  "F_POSITIONS \<equiv> ''positions''"

abbreviation (input) F_POSITIONS_OFFSET :: "string" where
  "F_POSITIONS_OFFSET \<equiv> ''positions_offset''"

abbreviation (input) F_HEAD_DIM :: "string" where
  "F_HEAD_DIM \<equiv> ''head_dim''"

abbreviation (input) F_N_HEAD :: "string" where
  "F_N_HEAD \<equiv> ''n_head''"

abbreviation (input) F_N_HEAD_KV :: "string" where
  "F_N_HEAD_KV \<equiv> ''n_head_kv''"

abbreviation (input) F_N_TOKEN :: "string" where
  "F_N_TOKEN \<equiv> ''n_token''"

abbreviation (input) F_N_KV :: "string" where
  "F_N_KV \<equiv> ''n_kv''"

abbreviation (input) F_N_DIMS :: "string" where
  "F_N_DIMS \<equiv> ''n_dims''"

abbreviation (input) F_MODE :: "string" where
  "F_MODE \<equiv> ''mode''"

abbreviation (input) F_FREQ_BASE :: "string" where
  "F_FREQ_BASE \<equiv> ''freq_base''"

abbreviation (input) F_FREQ_SCALE :: "string" where
  "F_FREQ_SCALE \<equiv> ''freq_scale''"

abbreviation (input) F_ATTN_FACTOR :: "string" where
  "F_ATTN_FACTOR \<equiv> ''attn_factor''"

abbreviation (input) F_EXT_FACTOR :: "string" where
  "F_EXT_FACTOR \<equiv> ''ext_factor''"

abbreviation (input) F_BETA_FAST :: "string" where
  "F_BETA_FAST \<equiv> ''beta_fast''"

abbreviation (input) F_BETA_SLOW :: "string" where
  "F_BETA_SLOW \<equiv> ''beta_slow''"

abbreviation (input) F_N_CTX_ORIG :: "string" where
  "F_N_CTX_ORIG \<equiv> ''n_ctx_orig''"

abbreviation (input) F_K_TENSOR :: "string" where
  "F_K_TENSOR \<equiv> ''k_tensor''"

abbreviation (input) F_K_OFFSET :: "string" where
  "F_K_OFFSET \<equiv> ''k_offset''"

abbreviation (input) F_V_TENSOR :: "string" where
  "F_V_TENSOR \<equiv> ''v_tensor''"

abbreviation (input) F_V_OFFSET :: "string" where
  "F_V_OFFSET \<equiv> ''v_offset''"

abbreviation (input) F_MASK :: "string" where
  "F_MASK \<equiv> ''mask''"

abbreviation (input) F_MASK_OFFSET :: "string" where
  "F_MASK_OFFSET \<equiv> ''mask_offset''"

abbreviation (input) F_HAS_MASK :: "string" where
  "F_HAS_MASK \<equiv> ''has_mask''"

abbreviation (input) F_HEAD_DIM_Q :: "string" where
  "F_HEAD_DIM_Q \<equiv> ''head_dim_q''"

abbreviation (input) F_HEAD_DIM_V :: "string" where
  "F_HEAD_DIM_V \<equiv> ''head_dim_v''"

abbreviation (input) F_MAX_BIAS :: "string" where
  "F_MAX_BIAS \<equiv> ''max_bias''"

abbreviation (input) F_LOGIT_SOFTCAP :: "string" where
  "F_LOGIT_SOFTCAP \<equiv> ''logit_softcap''"

abbreviation (input) F_Q_NB1 :: "string" where
  "F_Q_NB1 \<equiv> ''q_nb1''"

abbreviation (input) F_Q_NB2 :: "string" where
  "F_Q_NB2 \<equiv> ''q_nb2''"

abbreviation (input) F_K_NB1 :: "string" where
  "F_K_NB1 \<equiv> ''k_nb1''"

abbreviation (input) F_K_NB2 :: "string" where
  "F_K_NB2 \<equiv> ''k_nb2''"

abbreviation (input) F_V_NB1 :: "string" where
  "F_V_NB1 \<equiv> ''v_nb1''"

abbreviation (input) F_V_NB2 :: "string" where
  "F_V_NB2 \<equiv> ''v_nb2''"

abbreviation (input) F_MASK_NB1 :: "string" where
  "F_MASK_NB1 \<equiv> ''mask_nb1''"

abbreviation (input) F_DST_NB1 :: "string" where
  "F_DST_NB1 \<equiv> ''dst_nb1''"

abbreviation (input) F_DST_NB2 :: "string" where
  "F_DST_NB2 \<equiv> ''dst_nb2''"

abbreviation (input) F_INDICES :: "string" where
  "F_INDICES \<equiv> ''indices''"

abbreviation (input) F_INDICES_OFFSET :: "string" where
  "F_INDICES_OFFSET \<equiv> ''indices_offset''"

abbreviation (input) F_INDICES_TYPE :: "string" where
  "F_INDICES_TYPE \<equiv> ''indices_type''"

abbreviation (input) F_SRC0_TYPE :: "string" where
  "F_SRC0_TYPE \<equiv> ''src0_type''"

abbreviation (input) F_DST_TYPE :: "string" where
  "F_DST_TYPE \<equiv> ''dst_type''"

abbreviation (input) F_N_INDICES :: "string" where
  "F_N_INDICES \<equiv> ''n_indices''"

abbreviation (input) F_SRC0_NB1 :: "string" where
  "F_SRC0_NB1 \<equiv> ''src0_nb1''"

abbreviation (input) F_SRC0_NB2 :: "string" where
  "F_SRC0_NB2 \<equiv> ''src0_nb2''"

abbreviation (input) F_SRC0_NB3 :: "string" where
  "F_SRC0_NB3 \<equiv> ''src0_nb3''"

abbreviation (input) F_INDICES_NB1 :: "string" where
  "F_INDICES_NB1 \<equiv> ''indices_nb1''"

abbreviation (input) F_INDICES_NB2 :: "string" where
  "F_INDICES_NB2 \<equiv> ''indices_nb2''"

abbreviation (input) F_DST_NB3 :: "string" where
  "F_DST_NB3 \<equiv> ''dst_nb3''"

abbreviation (input) F_NE10 :: "string" where
  "F_NE10 \<equiv> ''ne10''"

abbreviation (input) F_NE11 :: "string" where
  "F_NE11 \<equiv> ''ne11''"

abbreviation (input) F_NE12 :: "string" where
  "F_NE12 \<equiv> ''ne12''"

abbreviation (input) F_NE01 :: "string" where
  "F_NE01 \<equiv> ''ne01''"

abbreviation (input) F_NE02 :: "string" where
  "F_NE02 \<equiv> ''ne02''"

abbreviation (input) F_NE03 :: "string" where
  "F_NE03 \<equiv> ''ne03''"

abbreviation (input) ERR_INVALID_REQUEST :: "string" where
  "ERR_INVALID_REQUEST \<equiv> ''invalid_request''"

abbreviation (input) ERR_OUT_OF_MEMORY :: "string" where
  "ERR_OUT_OF_MEMORY \<equiv> ''out_of_memory''"

abbreviation (input) ERR_OUT_OF_BOUNDS :: "string" where
  "ERR_OUT_OF_BOUNDS \<equiv> ''out_of_bounds''"

abbreviation (input) ERR_UNKNOWN_TENSOR :: "string" where
  "ERR_UNKNOWN_TENSOR \<equiv> ''unknown_tensor''"

abbreviation (input) ERR_UNSUPPORTED_OP :: "string" where
  "ERR_UNSUPPORTED_OP \<equiv> ''unsupported_op''"

abbreviation (input) ERR_UNSUPPORTED_GRAPH_VERSION :: "string" where
  "ERR_UNSUPPORTED_GRAPH_VERSION \<equiv> ''unsupported_graph_version''"

abbreviation (input) ERR_PROTOCOL :: "string" where
  "ERR_PROTOCOL \<equiv> ''protocol_error''"

abbreviation (input) ERR_INTERNAL :: "string" where
  "ERR_INTERNAL \<equiv> ''internal_error''"

abbreviation (input) ERR_REMOTE :: "string" where
  "ERR_REMOTE \<equiv> ''remote_error''"

abbreviation (input) Q1_BLOCK :: "int" where
  "Q1_BLOCK \<equiv> 128"

abbreviation (input) Q1_BLOCK_BYTES :: "int" where
  "Q1_BLOCK_BYTES \<equiv> 18"

abbreviation (input) Q8_BLOCK :: "int" where
  "Q8_BLOCK \<equiv> 32"

end
