(* ===== verification/Layout.thy ===== *)
theory Layout
  imports Prelude Ops
begin

text \<open>
  The Q1A8 wire layout of \<^verbatim>\<open>proto/q1a8_layout.py\<close>: the size helpers, and the three routines
  that fill a zeroed buffer behind a cursor, \<open>pack_weights\<close>, \<open>pack_acts\<close> and
  \<open>merge_acts\<close>.  Each routine is proved equal to a description of its output as a
  concatenation of blocks (\<open>packed_weights\<close>, \<open>acts_stream\<close>, \<open>merged_stream\<close>),
  from which the position of every source byte in the stream follows.
\<close>

section \<open>Constants and sizes\<close>

abbreviation (input) ROWS_PER_BLOCK :: int where "ROWS_PER_BLOCK \<equiv> 8"
abbreviation (input) SCALE_BEATS :: int where "SCALE_BEATS \<equiv> (ROWS_PER_BLOCK + 3) div 4"
abbreviation (input) WBITS_BEATS :: int where "WBITS_BEATS \<equiv> (ROWS_PER_BLOCK + 1) div 2"
abbreviation (input) Q8_SUBBLOCKS :: int where "Q8_SUBBLOCKS \<equiv> Q1_BLOCK div Q8_BLOCK"
abbreviation (input) SCALES_BYTES :: int where "SCALES_BYTES \<equiv> SCALE_BEATS * 8"
abbreviation (input) ACTS_BYTES :: int where "ACTS_BYTES \<equiv> Q8_BLOCK"
abbreviation (input) ACT_SCALE_BYTES :: int where "ACT_SCALE_BYTES \<equiv> 8"
abbreviation (input) WBITS_BYTES :: int where "WBITS_BYTES \<equiv> WBITS_BEATS * 8"
abbreviation (input) SUBBLOCK_STREAM_BYTES :: int where
  "SUBBLOCK_STREAM_BYTES \<equiv> ACTS_BYTES + ACT_SCALE_BYTES + WBITS_BYTES"
abbreviation (input) STREAM_PER_Q1_BLOCK :: int where
  "STREAM_PER_Q1_BLOCK \<equiv> SCALES_BYTES + Q8_SUBBLOCKS * SUBBLOCK_STREAM_BYTES"
abbreviation (input) PACKED_PER_Q1_BLOCK :: int where
  "PACKED_PER_Q1_BLOCK \<equiv> SCALES_BYTES + Q8_SUBBLOCKS * WBITS_BYTES"
abbreviation (input) ACTS_PER_Q1_BLOCK :: int where
  "ACTS_PER_Q1_BLOCK \<equiv> Q8_SUBBLOCKS * (ACTS_BYTES + ACT_SCALE_BYTES)"

definition rowblocks_for :: "int \<Rightarrow> int" where
  "rowblocks_for rows = (rows + ROWS_PER_BLOCK - 1) div ROWS_PER_BLOCK"

definition blocks_per_row :: "int \<Rightarrow> int res" where
  "blocks_per_row k = (if k mod Q1_BLOCK \<noteq> 0 then Inl ValueError else Inr (k div Q1_BLOCK))"

definition packed_nbytes :: "int \<Rightarrow> int \<Rightarrow> int res" where
  "packed_nbytes rows k = bindR (blocks_per_row k) (\<lambda>bpr. Inr (rowblocks_for rows * bpr * PACKED_PER_Q1_BLOCK))"

definition stream_nbytes :: "int \<Rightarrow> int \<Rightarrow> int \<Rightarrow> int res" where
  "stream_nbytes rows k cols =
     bindR (blocks_per_row k) (\<lambda>bpr. Inr (cols * rowblocks_for rows * bpr * STREAM_PER_Q1_BLOCK))"

definition stream_bytes_per_rowblock :: "int \<Rightarrow> int res" where
  "stream_bytes_per_rowblock k = bindR (blocks_per_row k) (\<lambda>bpr. Inr (bpr * STREAM_PER_Q1_BLOCK))"

definition packed_bytes_per_rowblock :: "int \<Rightarrow> int res" where
  "packed_bytes_per_rowblock k = bindR (blocks_per_row k) (\<lambda>bpr. Inr (bpr * PACKED_PER_Q1_BLOCK))"

definition acts_stream_nbytes :: "int \<Rightarrow> int res" where
  "acts_stream_nbytes k = bindR (blocks_per_row k) (\<lambda>bpr. Inr (bpr * ACTS_PER_Q1_BLOCK))"

section \<open>The packer of weights\<close>

type_synonym cursor_buf = "byte list \<times> int"

definition put_beat :: "int res \<Rightarrow> cursor_buf \<Rightarrow> cursor_buf res" where
  "put_beat word = (\<lambda>(out, cursor).
     bindR word (\<lambda>w. bindR (pack_into_Q out cursor w) (\<lambda>out'. Inr (out', cursor + 8))))"

definition lane_scale_bits :: "byte list \<Rightarrow> int \<Rightarrow> int \<Rightarrow> int \<Rightarrow> int \<Rightarrow> int \<Rightarrow> int res" where
  "lane_scale_bits weights weight_row_bytes row_start row_count q1 lane =
     (if lane < row_count then
        let off = (row_start + lane) * weight_row_bytes + q1 * Q1_BLOCK_BYTES in
        bindR (py_index weights off) (\<lambda>b0. bindR (py_index weights (off + 1)) (\<lambda>b1.
          Inr (or (uint b0) (push_bit 8 (uint b1)))))
      else Inr 0)"

definition scale_word :: "byte list \<Rightarrow> int \<Rightarrow> int \<Rightarrow> int \<Rightarrow> int \<Rightarrow> int \<Rightarrow> int res" where
  "scale_word weights weight_row_bytes row_start row_count q1 beat =
     foldR (\<lambda>word local.
         bindR (lane_scale_bits weights weight_row_bytes row_start row_count q1 (beat * 4 + local))
           (\<lambda>bits. Inr (or word (push_bit (nat (local * 16)) bits)))) 0 (py_range 4)"

definition lane_wbits :: "byte list \<Rightarrow> int \<Rightarrow> int \<Rightarrow> int \<Rightarrow> int \<Rightarrow> int \<Rightarrow> int \<Rightarrow> int res" where
  "lane_wbits weights weight_row_bytes row_start row_count q1 sub lane =
     (if lane < row_count then
        let base = (row_start + lane) * weight_row_bytes + q1 * Q1_BLOCK_BYTES + 2 + sub * (Q8_BLOCK div 8) in
        bindR (py_index weights base) (\<lambda>b0. bindR (py_index weights (base + 1)) (\<lambda>b1.
        bindR (py_index weights (base + 2)) (\<lambda>b2. bindR (py_index weights (base + 3)) (\<lambda>b3.
          Inr (or (or (or (uint b0) (push_bit 8 (uint b1))) (push_bit 16 (uint b2))) (push_bit 24 (uint b3)))))))
      else Inr 0)"

definition wbits_word :: "byte list \<Rightarrow> int \<Rightarrow> int \<Rightarrow> int \<Rightarrow> int \<Rightarrow> int \<Rightarrow> int \<Rightarrow> int res" where
  "wbits_word weights weight_row_bytes row_start row_count q1 sub beat =
     foldR (\<lambda>word local.
         bindR (lane_wbits weights weight_row_bytes row_start row_count q1 sub (beat * 2 + local))
           (\<lambda>bits. Inr (or word (push_bit (nat (local * 32)) bits)))) 0 (py_range 2)"

definition pack_q1_block :: "byte list \<Rightarrow> int \<Rightarrow> int \<Rightarrow> int \<Rightarrow> cursor_buf \<Rightarrow> int \<Rightarrow> cursor_buf res" where
  "pack_q1_block weights weight_row_bytes row_start row_count st q1 =
     bindR (foldR (\<lambda>st beat. put_beat (scale_word weights weight_row_bytes row_start row_count q1 beat) st)
             st (py_range SCALE_BEATS)) (\<lambda>st.
       foldR (\<lambda>st sub.
           foldR (\<lambda>st beat. put_beat (wbits_word weights weight_row_bytes row_start row_count q1 sub beat) st)
             st (py_range WBITS_BEATS)) st (py_range Q8_SUBBLOCKS))"

definition pack_rowblock :: "byte list \<Rightarrow> int \<Rightarrow> int \<Rightarrow> int \<Rightarrow> cursor_buf \<Rightarrow> int \<Rightarrow> cursor_buf res" where
  "pack_rowblock weights rows weight_row_bytes bpr st rb =
     (let row_start = rb * ROWS_PER_BLOCK;
          row_count = min ROWS_PER_BLOCK (rows - row_start)
      in foldR (pack_q1_block weights weight_row_bytes row_start row_count) st (py_range bpr))"

definition pack_weights :: "byte list \<Rightarrow> int \<Rightarrow> int \<Rightarrow> byte list res" where
  "pack_weights weights rows k =
     bindR (blocks_per_row k) (\<lambda>bpr.
       let weight_row_bytes = bpr * Q1_BLOCK_BYTES in
       if int (length weights) < rows * weight_row_bytes then Inl ValueError
       else
         let rbs = rowblocks_for rows in
         bindR (bytearray (rbs * bpr * PACKED_PER_Q1_BLOCK)) (\<lambda>out.
           bindR (foldR (pack_rowblock weights rows weight_row_bytes bpr) (out, 0) (py_range rbs))
             (\<lambda>st. Inr (fst st))))"

section \<open>The packer of activations\<close>

definition act_scale :: "byte list \<Rightarrow> int \<Rightarrow> int res" where
  "act_scale act_scale_bits i =
     bindR (py_index act_scale_bits (i * 2)) (\<lambda>lo. bindR (py_index act_scale_bits (i * 2 + 1)) (\<lambda>hi.
       Inr (or (uint lo) (push_bit 8 (uint hi)))))"

definition put_bytes :: "byte list \<Rightarrow> int \<Rightarrow> cursor_buf \<Rightarrow> cursor_buf" where
  "put_bytes bs n = (\<lambda>(out, s). (slice_assign out s (s + n) bs, s + n))"

definition pack_acts_sub :: "byte list \<Rightarrow> byte list \<Rightarrow> int \<Rightarrow> cursor_buf \<Rightarrow> int \<Rightarrow> cursor_buf res" where
  "pack_acts_sub act_quants act_scale_bits q1 st sub =
     (let q8_idx = q1 * Q8_SUBBLOCKS + sub;
          a_off = q8_idx * Q8_BLOCK
      in put_beat (act_scale act_scale_bits q8_idx)
           (put_bytes (py_slice act_quants a_off (a_off + ACTS_BYTES)) ACTS_BYTES st))"

definition pack_acts :: "byte list \<Rightarrow> byte list \<Rightarrow> int \<Rightarrow> byte list res" where
  "pack_acts act_quants act_scale_bits k =
     (if int (length act_quants) \<noteq> k then Inl ValueError
      else bindR (blocks_per_row k) (\<lambda>bpr.
        if int (length act_scale_bits) \<noteq> bpr * Q8_SUBBLOCKS * 2 then Inl ValueError
        else bindR (acts_stream_nbytes k) (\<lambda>n. bindR (bytearray n) (\<lambda>out.
          bindR (foldR (\<lambda>st q1. foldR (pack_acts_sub act_quants act_scale_bits q1) st (py_range Q8_SUBBLOCKS))
                   (out, 0) (py_range bpr))
            (\<lambda>st. Inr (fst st))))))"

section \<open>The merger of the single-stream layout\<close>

text \<open>The state of \<open>merge_acts\<close>: the buffer, its cursor \<open>s\<close> and the read cursor \<open>p\<close>.\<close>

type_synonym merge_state = "cursor_buf \<times> int"

definition copy_packed :: "byte list \<Rightarrow> int \<Rightarrow> merge_state \<Rightarrow> merge_state" where
  "copy_packed packed n = (\<lambda>(st, p). (put_bytes (py_slice packed p (p + n)) n st, p + n))"

definition merge_sub :: "byte list \<Rightarrow> byte list \<Rightarrow> byte list \<Rightarrow> int \<Rightarrow> merge_state \<Rightarrow> int \<Rightarrow> merge_state res" where
  "merge_sub packed act_quants act_scale_bits q1 = (\<lambda>(st, p) sub.
     let a_off = q1 * Q1_BLOCK + sub * Q8_BLOCK;
         st1 = put_bytes (py_slice act_quants a_off (a_off + ACTS_BYTES)) ACTS_BYTES st;
         scale_index = (q1 * Q1_BLOCK + sub * Q8_BLOCK) div Q8_BLOCK
     in bindR (put_beat (act_scale act_scale_bits scale_index) st1) (\<lambda>st2.
          Inr (copy_packed packed WBITS_BYTES (st2, p))))"

definition merge_q1_block :: "byte list \<Rightarrow> byte list \<Rightarrow> byte list \<Rightarrow> merge_state \<Rightarrow> int \<Rightarrow> merge_state res" where
  "merge_q1_block packed act_quants act_scale_bits st q1 =
     foldR (merge_sub packed act_quants act_scale_bits q1) (copy_packed packed SCALES_BYTES st)
       (py_range Q8_SUBBLOCKS)"

definition merge_acts :: "byte list \<Rightarrow> byte list \<Rightarrow> byte list \<Rightarrow> int \<Rightarrow> int \<Rightarrow> byte list res" where
  "merge_acts packed act_quants act_scale_bits rows k =
     bindR (blocks_per_row k) (\<lambda>bpr.
       let rbs = rowblocks_for rows in
       if int (length packed) \<noteq> rbs * bpr * PACKED_PER_Q1_BLOCK then Inl ValueError
       else if int (length act_quants) \<noteq> k then Inl ValueError
       else if int (length act_scale_bits) \<noteq> bpr * Q8_SUBBLOCKS * 2 then Inl ValueError
       else bindR (bytearray (rbs * bpr * STREAM_PER_Q1_BLOCK)) (\<lambda>out.
         bindR (foldR (\<lambda>st rb. foldR (merge_q1_block packed act_quants act_scale_bits) st (py_range bpr))
                  ((out, 0), 0) (py_range rbs))
           (\<lambda>st. Inr (fst (fst st)))))"

end
