(* ===== verification/LayoutSpec.thy ===== *)
theory LayoutSpec
  imports Layout
begin

text \<open>
  The output of the packers of \<^verbatim>\<open>Layout\<close> as concatenations of blocks, and where each
  source byte ends up.
\<close>

section \<open>Source offsets\<close>

lemma source_block_in_range:
  fixes r rows q1 bpr :: int
  assumes "0 \<le> r" "r < rows" "0 \<le> q1" "q1 < bpr" "rows * (bpr * 18) \<le> n"
  shows "0 \<le> r * (bpr * 18) + q1 * 18" "r * (bpr * 18) + q1 * 18 + 18 \<le> n"
proof -
  have "(r + 1) * (bpr * 18) \<le> rows * (bpr * 18)" using assms by (intro mult_right_mono) auto
  then have "r * (bpr * 18) + bpr * 18 \<le> n" using assms(5) by (simp add: algebra_simps)
  with assms(3,4) show "r * (bpr * 18) + q1 * 18 + 18 \<le> n" by linarith
  show "0 \<le> r * (bpr * 18) + q1 * 18" using assms by simp
qed

lemma py_slice_cons:
  "0 \<le> i \<Longrightarrow> 0 < n \<Longrightarrow> i + n \<le> int (length xs) \<Longrightarrow>
   py_slice xs i (i + n) = xs ! nat i # py_slice xs (i + 1) (i + 1 + (n - 1))"
proof -
  assume a: "0 \<le> i" "0 < n" "i + n \<le> int (length xs)"
  then have "drop (nat i) xs = xs ! nat i # drop (nat (i + 1)) xs"
    by (subst Cons_nth_drop_Suc [symmetric]) (auto simp: nat_add_distrib)
  moreover have "nat n = Suc (nat (n - 1))" using a by simp
  ultimately show ?thesis using a by (simp add: py_slice_in)
qed

lemma py_slice_nil: "py_slice xs i i = []"
  by (simp add: py_slice_def Let_def)

lemma two_bytes:
  assumes "0 \<le> i" "i + 2 \<le> int (length xs)"
  shows "py_slice xs i (i + 2) = [xs ! nat i, xs ! nat (i + 1)]"
  using py_slice_cons [of i 2 xs] py_slice_cons [of "i + 1" 1 xs] assms
  by (simp add: py_slice_nil)

lemma four_bytes:
  assumes "0 \<le> i" "i + 4 \<le> int (length xs)"
  shows "py_slice xs i (i + 4) = [xs ! nat i, xs ! nat (i + 1), xs ! nat (i + 2), xs ! nat (i + 3)]"
  using py_slice_cons [of i 4 xs] py_slice_cons [of "i + 1" 3 xs] two_bytes [of "i + 2" xs] assms
    py_slice_cons [of "i + 1 + 1" 2 xs]
  by (simp add: py_slice_cons [of "i + 2"] algebra_simps)

lemma or_two: "or (uint (a :: byte)) (push_bit 8 (uint (b :: byte))) = le_value [a, b]"
  using le_value_or [of "[a]" "[b]"] by simp

lemma or_four:
  "or (or (or (uint (a :: byte)) (push_bit 8 (uint b))) (push_bit 16 (uint c))) (push_bit 24 (uint d))
   = le_value [a, b, c, d]"
  using or_two [of a b] le_value_or [of "[a, b]" "[c]"] le_value_or [of "[a, b, c]" "[d]"] by simp

section \<open>Packed weights\<close>

definition scale_bytes :: "byte list \<Rightarrow> int \<Rightarrow> int \<Rightarrow> int \<Rightarrow> int \<Rightarrow> byte list" where
  "scale_bytes w rows bpr q1 r =
     (if r < rows then py_slice w (r * (bpr * 18) + q1 * 18) (r * (bpr * 18) + q1 * 18 + 2) else [0, 0])"

definition wbits_bytes :: "byte list \<Rightarrow> int \<Rightarrow> int \<Rightarrow> int \<Rightarrow> int \<Rightarrow> int \<Rightarrow> byte list" where
  "wbits_bytes w rows bpr q1 sub r =
     (if r < rows then py_slice w (r * (bpr * 18) + q1 * 18 + 2 + sub * 4) (r * (bpr * 18) + q1 * 18 + 2 + sub * 4 + 4)
      else [0, 0, 0, 0])"

definition packed_block :: "byte list \<Rightarrow> int \<Rightarrow> int \<Rightarrow> int \<Rightarrow> int \<Rightarrow> byte list" where
  "packed_block w rows bpr rb q1 =
     concat (map (\<lambda>lane. scale_bytes w rows bpr q1 (rb * 8 + lane)) (py_range 8)) @
     concat (map (\<lambda>sub. concat (map (\<lambda>lane. wbits_bytes w rows bpr q1 sub (rb * 8 + lane)) (py_range 8)))
       (py_range 4))"

definition packed_weights :: "byte list \<Rightarrow> int \<Rightarrow> int \<Rightarrow> byte list" where
  "packed_weights w rows bpr =
     concat (map (\<lambda>rb. concat (map (packed_block w rows bpr rb) (py_range bpr))) (py_range (rowblocks_for rows)))"

definition weights_ok :: "byte list \<Rightarrow> int \<Rightarrow> int \<Rightarrow> bool" where
  "weights_ok w rows bpr \<longleftrightarrow> 0 \<le> rows \<and> 0 \<le> bpr \<and> rows * (bpr * 18) \<le> int (length w)"

lemma length_scale_bytes:
  assumes "weights_ok w rows bpr" "0 \<le> r" "0 \<le> q1" "q1 < bpr"
  shows "length (scale_bytes w rows bpr q1 r) = 2"
  using source_block_in_range [of r rows q1 bpr "int (length w)"] assms
    two_bytes [of "r * (bpr * 18) + q1 * 18" w]
  by (auto simp: weights_ok_def scale_bytes_def)

lemma length_wbits_bytes:
  assumes "weights_ok w rows bpr" "0 \<le> r" "0 \<le> q1" "q1 < bpr" "0 \<le> sub" "sub < 4"
  shows "length (wbits_bytes w rows bpr q1 sub r) = 4"
  using source_block_in_range [of r rows q1 bpr "int (length w)"] assms
    four_bytes [of "r * (bpr * 18) + q1 * 18 + 2 + sub * 4" w]
  by (auto simp: weights_ok_def wbits_bytes_def)

lemma length_packed_block:
  assumes "weights_ok w rows bpr" "0 \<le> rb" "0 \<le> q1" "q1 < bpr"
  shows "length (packed_block w rows bpr rb q1) = 144"
proof -
  have "length (concat (map (\<lambda>lane. scale_bytes w rows bpr q1 (rb * 8 + lane)) (py_range 8))) = 8 * 2"
    using assms by (subst length_concat_blocks [of _ _ 2]) (auto simp: length_scale_bytes)
  moreover have "length (concat (map (\<lambda>lane. wbits_bytes w rows bpr q1 sub (rb * 8 + lane)) (py_range 8))) = 32"
    if "0 \<le> sub" "sub < 4" for sub
    using assms that by (subst length_concat_blocks [of _ _ 4]) (auto simp: length_wbits_bytes)
  then have "length (concat (map (\<lambda>sub. concat (map (\<lambda>lane. wbits_bytes w rows bpr q1 sub (rb * 8 + lane))
      (py_range 8))) (py_range 4))) = 4 * 32"
    by (subst length_concat_blocks [of _ _ 32]) auto
  ultimately show ?thesis by (simp add: packed_block_def)
qed

lemma length_packed_rowblock:
  assumes "weights_ok w rows bpr" "0 \<le> rb"
  shows "length (concat (map (packed_block w rows bpr rb) (py_range bpr))) = nat bpr * 144"
  using assms by (subst length_concat_blocks [of _ _ 144]) (auto simp: length_packed_block)

lemma length_packed_weights:
  assumes "weights_ok w rows bpr"
  shows "int (length (packed_weights w rows bpr)) = rowblocks_for rows * bpr * 144"
proof -
  have r: "0 \<le> rowblocks_for rows" "0 \<le> bpr" using assms by (auto simp: weights_ok_def rowblocks_for_def)
  have "length (packed_weights w rows bpr) = nat (rowblocks_for rows) * (nat bpr * 144)"
    unfolding packed_weights_def
    by (subst length_concat_blocks [of _ _ "nat bpr * 144"]) (auto simp: length_packed_rowblock assms)
  then show ?thesis using r by simp
qed

text \<open>The words that the loops assemble are the lanes' bytes.\<close>

lemma lane_scale_bits_value:
  assumes "weights_ok w rows bpr" "0 \<le> rb" "0 \<le> lane" "lane < 8" "0 \<le> q1" "q1 < bpr"
  shows "lane_scale_bits w (bpr * 18) (rb * 8) (min 8 (rows - rb * 8)) q1 lane =
    Inr (le_value (scale_bytes w rows bpr q1 (rb * 8 + lane)))"
proof (cases "rb * 8 + lane < rows")
  case True
  let ?o = "(rb * 8 + lane) * (bpr * 18) + q1 * 18"
  have "0 \<le> ?o" "?o + 18 \<le> int (length w)"
    using source_block_in_range [of "rb * 8 + lane" rows q1 bpr "int (length w)"] assms True
    by (auto simp: weights_ok_def)
  then show ?thesis using True assms two_bytes [of ?o w] or_two [of "w ! nat ?o" "w ! nat (?o + 1)"]
    by (simp add: lane_scale_bits_def scale_bytes_def py_index_in Let_def)
next
  case False
  then show ?thesis using assms by (simp add: lane_scale_bits_def scale_bytes_def)
qed

lemma lane_wbits_value:
  assumes "weights_ok w rows bpr" "0 \<le> rb" "0 \<le> lane" "lane < 8" "0 \<le> q1" "q1 < bpr" "0 \<le> sub" "sub < 4"
  shows "lane_wbits w (bpr * 18) (rb * 8) (min 8 (rows - rb * 8)) q1 sub lane =
    Inr (le_value (wbits_bytes w rows bpr q1 sub (rb * 8 + lane)))"
proof (cases "rb * 8 + lane < rows")
  case True
  let ?o = "(rb * 8 + lane) * (bpr * 18) + q1 * 18 + 2 + sub * 4"
  have "0 \<le> ?o" "?o + 4 \<le> int (length w)"
    using source_block_in_range [of "rb * 8 + lane" rows q1 bpr "int (length w)"] assms True
    by (auto simp: weights_ok_def)
  then show ?thesis using True assms four_bytes [of ?o w]
      or_four [of "w ! nat ?o" "w ! nat (?o + 1)" "w ! nat (?o + 2)" "w ! nat (?o + 3)"]
    by (simp add: lane_wbits_def wbits_bytes_def py_index_in Let_def)
next
  case False
  then show ?thesis using assms by (simp add: lane_wbits_def wbits_bytes_def)
qed

text \<open>Consecutive lanes make a beat of eight bytes.\<close>

lemma scale_word_value:
  assumes "weights_ok w rows bpr" "0 \<le> rb" "0 \<le> q1" "q1 < bpr" "0 \<le> beat" "beat < 2"
  shows "scale_word w (bpr * 18) (rb * 8) (min 8 (rows - rb * 8)) q1 beat =
    Inr (le_value (concat (map (\<lambda>i. scale_bytes w rows bpr q1 (rb * 8 + (beat * 4 + i))) (py_range 4))))"
proof -
  let ?g = "\<lambda>i. scale_bytes w rows bpr q1 (rb * 8 + (beat * 4 + int i))"
  have "lane_scale_bits w (bpr * 18) (rb * 8) (min 8 (rows - rb * 8)) q1 (beat * 4 + int i) = Inr (le_value (?g i))"
    if "i < 4" for i using assms that by (intro lane_scale_bits_value) auto
  moreover have "length (?g i) = 2" for i using assms by (intro length_scale_bytes) auto
  ultimately show ?thesis
    using foldR_lanes [of 4 "\<lambda>i. lane_scale_bits w (bpr * 18) (rb * 8) (min 8 (rows - rb * 8)) q1 (beat * 4 + i)" ?g 2]
    by (simp add: scale_word_def py_range_def comp_def)
qed

lemma wbits_word_value:
  assumes "weights_ok w rows bpr" "0 \<le> rb" "0 \<le> q1" "q1 < bpr" "0 \<le> sub" "sub < 4" "0 \<le> beat" "beat < 4"
  shows "wbits_word w (bpr * 18) (rb * 8) (min 8 (rows - rb * 8)) q1 sub beat =
    Inr (le_value (concat (map (\<lambda>i. wbits_bytes w rows bpr q1 sub (rb * 8 + (beat * 2 + i))) (py_range 2))))"
proof -
  let ?g = "\<lambda>i. wbits_bytes w rows bpr q1 sub (rb * 8 + (beat * 2 + int i))"
  have "lane_wbits w (bpr * 18) (rb * 8) (min 8 (rows - rb * 8)) q1 sub (beat * 2 + int i) = Inr (le_value (?g i))"
    if "i < 2" for i using assms that by (intro lane_wbits_value) auto
  moreover have "length (?g i) = 4" for i using assms by (intro length_wbits_bytes) auto
  ultimately show ?thesis
    using foldR_lanes [of 2 "\<lambda>i. lane_wbits w (bpr * 18) (rb * 8) (min 8 (rows - rb * 8)) q1 sub (beat * 2 + i)" ?g 4]
    by (simp add: wbits_word_def py_range_def comp_def)
qed

lemma put_beat_filled:
  assumes "length bs = 8" "length d + 8 \<le> n"
  shows "put_beat (Inr (le_value bs)) (filled n d) = Inr (filled n (d @ bs))"
proof -
  have "0 \<le> le_value bs" "le_value bs < 2 ^ 64" using le_value_bound [of bs] assms(1) by auto
  with filled_pack_Q [OF assms(2), of _ _ "le_value bs"] le_bytes_le_value [OF assms(1)] show ?thesis
    by (auto simp: put_beat_def split: prod.splits)
qed

text \<open>The lanes of all beats, in order, are the lanes.\<close>

lemma py_range_num:
  "py_range 2 = [0, 1]" "py_range 4 = [0, 1, 2, 3]" "py_range 8 = [0, 1, 2, 3, 4, 5, 6, 7]"
  by (simp_all add: py_range_def upt_rec [of _ "numeral _"])

lemma lanes_of_beats:
  "concat (map (\<lambda>beat. concat (map (\<lambda>i. f (b + (beat * 4 + i))) (py_range 4))) (py_range 2)) =
     concat (map (\<lambda>lane. f (b + lane)) (py_range 8))"
  "concat (map (\<lambda>beat. concat (map (\<lambda>i. f (b + (beat * 2 + i))) (py_range 2))) (py_range 4)) =
     concat (map (\<lambda>lane. f (b + lane)) (py_range 8))"
  by (simp_all add: py_range_num)

lemma pack_q1_block_spec:
  assumes ok: "weights_ok w rows bpr" and q: "0 \<le> rb" "0 \<le> q1" "q1 < bpr" and n: "length d + 144 \<le> n"
  shows "pack_q1_block w (bpr * 18) (rb * 8) (min 8 (rows - rb * 8)) (filled n d) q1 =
    Inr (filled n (d @ packed_block w rows bpr rb q1))"
proof -
  let ?sb = "\<lambda>beat. concat (map (\<lambda>i. scale_bytes w rows bpr q1 (rb * 8 + (beat * 4 + i))) (py_range 4))"
  let ?wb = "\<lambda>sub beat. concat (map (\<lambda>i. wbits_bytes w rows bpr q1 sub (rb * 8 + (beat * 2 + i))) (py_range 2))"
  let ?ws = "\<lambda>sub. concat (map (?wb sub) (py_range 4))"
  have ls: "length (?sb beat) = 8" if "0 \<le> beat" for beat
    using assms that by (subst length_concat_blocks [of _ _ 2]) (auto simp: length_scale_bytes)
  have lw: "length (?wb sub beat) = 8" if "0 \<le> sub" "sub < 4" "0 \<le> beat" for sub beat
    using assms that by (subst length_concat_blocks [of _ _ 4]) (auto simp: length_wbits_bytes)
  have lws: "length (?ws sub) = 32" if "0 \<le> sub" "sub < 4" for sub
    using lw that by (subst length_concat_blocks [of _ _ 8]) auto
  have l1: "length (concat (map ?sb (py_range 2))) = 16"
    using ls by (subst length_concat_blocks [of _ _ 8]) auto
  have l2: "length (concat (map ?ws (py_range 4))) = 128"
    using lws by (subst length_concat_blocks [of _ _ 32]) auto
  have s: "foldR (\<lambda>st beat. put_beat (scale_word w (bpr * 18) (rb * 8) (min 8 (rows - rb * 8)) q1 beat) st)
      (filled n d) (py_range 2) = Inr (filled n (d @ concat (map ?sb (py_range 2))))"
    using assms l1 ls n by (intro foldR_emit) (auto simp: scale_word_value put_beat_filled)
  have w1: "foldR (\<lambda>st beat. put_beat (wbits_word w (bpr * 18) (rb * 8) (min 8 (rows - rb * 8)) q1 sub beat) st)
      (filled n e) (py_range 4) = Inr (filled n (e @ ?ws sub))"
    if "0 \<le> sub" "sub < 4" "length e + length (?ws sub) \<le> n" for sub e
    using assms that lw by (intro foldR_emit) (auto simp: wbits_word_value put_beat_filled)
  have "foldR (\<lambda>st sub. foldR (\<lambda>st beat. put_beat (wbits_word w (bpr * 18) (rb * 8) (min 8 (rows - rb * 8)) q1 sub beat) st)
      st (py_range 4)) (filled n (d @ concat (map ?sb (py_range 2)))) (py_range 4)
      = Inr (filled n ((d @ concat (map ?sb (py_range 2))) @ concat (map ?ws (py_range 4))))"
    by (rule foldR_emit) (use l1 l2 n w1 in auto)
  with s show ?thesis by (simp add: pack_q1_block_def packed_block_def lanes_of_beats)
qed

lemma pack_weights_spec:
  assumes "blocks_per_row k = Inr bpr" "weights_ok w rows bpr"
  shows "pack_weights w rows k = Inr (packed_weights w rows bpr)"
proof -
  let ?n = "nat (rowblocks_for rows * bpr * 144)"
  let ?row = "\<lambda>rb. concat (map (packed_block w rows bpr rb) (py_range bpr))"
  have nn: "0 \<le> rowblocks_for rows" "0 \<le> bpr" using assms(2) by (auto simp: weights_ok_def rowblocks_for_def)
  have len: "length (packed_weights w rows bpr) = ?n" using length_packed_weights [OF assms(2)] by simp
  have row: "pack_rowblock w rows (bpr * 18) bpr (filled ?n d) rb = Inr (filled ?n (d @ ?row rb))"
    if "0 \<le> rb" "length d + length (?row rb) \<le> ?n" for rb d
    unfolding pack_rowblock_def Let_def
    using that assms(2) by (intro foldR_emit) (auto simp: pack_q1_block_spec length_packed_block)
  have "foldR (pack_rowblock w rows (bpr * 18) bpr) (filled ?n []) (py_range (rowblocks_for rows))
      = Inr (filled ?n ([] @ concat (map ?row (py_range (rowblocks_for rows)))))"
    using row len by (intro foldR_emit) (auto simp: packed_weights_def)
  moreover have "bytearray (rowblocks_for rows * bpr * 144) = Inr (replicate ?n 0)"
    using nn by (simp add: bytearray_def not_less)
  moreover from this have "(replicate ?n 0, 0) = filled ?n []" by (rule filled_start)
  ultimately show ?thesis
    using assms len filled_full [OF len]
    by (simp add: pack_weights_def weights_ok_def Let_def flip: packed_weights_def)
qed

section \<open>Where the bytes of a weight block are\<close>

lemma take_drop_slice:
  "0 \<le> lo \<Longrightarrow> 0 \<le> n \<Longrightarrow> lo + n \<le> int (length xs) \<Longrightarrow> py_slice xs lo (lo + n) = take (nat n) (drop (nat lo) xs)"
  by (simp add: py_slice_in)

lemma slice_of_blocks:
  assumes len: "\<And>x. 0 \<le> x \<Longrightarrow> x < c \<Longrightarrow> length (f x) = m" and i: "0 \<le> i" "i < c" and j: "0 \<le> j" "0 \<le> n" "j + n \<le> int m"
  shows "py_slice (concat (map f (py_range c))) (i * int m + j) (i * int m + j + n) = py_slice (f i) j (j + n)"
proof -
  have total: "length (concat (map f (py_range c))) = nat c * m"
    using len by (subst length_concat_blocks [of _ _ m]) auto
  have "i * int m + int m \<le> c * int m"
    using mult_right_mono [of "i + 1" c "int m"] i by (simp add: algebra_simps)
  then have le: "i * int m + j + n \<le> int (length (concat (map f (py_range c))))"
    using total i j by simp
  have nats: "nat (i * int m + j) = nat i * m + nat j" using i j by (simp add: nat_add_distrib nat_mult_distrib)
  have "take (nat n) (drop (nat i * m + nat j) (concat (map f (py_range c)))) =
      take (nat n) (drop (nat j) (f (py_range c ! nat i)))"
    using len i j by (intro take_drop_block) auto
  then show ?thesis using i j le nats len by (simp add: take_drop_slice)
qed

lemma py_slice_append1:
  "0 \<le> lo \<Longrightarrow> 0 \<le> n \<Longrightarrow> lo + n \<le> int (length xs) \<Longrightarrow> py_slice (xs @ ys) lo (lo + n) = py_slice xs lo (lo + n)"
  by (simp add: take_drop_slice)

lemma py_slice_append2:
  assumes "0 \<le> lo" "0 \<le> n" "lo + n \<le> int (length ys)"
  shows "py_slice (xs @ ys) (int (length xs) + lo) (int (length xs) + lo + n) = py_slice ys lo (lo + n)"
  using assms by (simp add: take_drop_slice nat_add_distrib)

lemma py_slice_all: "int (length xs) = n \<Longrightarrow> py_slice xs 0 n = xs"
  by (auto simp: py_slice_in)

text \<open>Offset of Q1 block \<open>q1\<close> of row \<open>r\<close> in the packed stream.\<close>

definition packed_offset :: "int \<Rightarrow> int \<Rightarrow> int \<Rightarrow> int" where
  "packed_offset bpr r q1 = (r div 8 * bpr + q1) * 144"

lemma packed_block_at:
  assumes ok: "weights_ok w rows bpr" and q: "0 \<le> rb" "rb < rowblocks_for rows" "0 \<le> q1" "q1 < bpr"
    and j: "0 \<le> j" "0 \<le> n" "j + n \<le> 144"
  shows "py_slice (packed_weights w rows bpr) ((rb * bpr + q1) * 144 + j) ((rb * bpr + q1) * 144 + j + n) =
    py_slice (packed_block w rows bpr rb q1) j (j + n)"
proof -
  let ?row = "\<lambda>rb. concat (map (packed_block w rows bpr rb) (py_range bpr))"
  have b: "int (nat bpr * 144) = bpr * 144" using q by simp
  have "q1 * 144 + 144 \<le> bpr * 144" using q by simp
  then have "py_slice (packed_weights w rows bpr) (rb * int (nat bpr * 144) + (q1 * 144 + j))
        (rb * int (nat bpr * 144) + (q1 * 144 + j) + n) = py_slice (?row rb) (q1 * 144 + j) (q1 * 144 + j + n)"
    unfolding packed_weights_def
    using ok q j b by (intro slice_of_blocks) (auto simp: length_packed_rowblock)
  also have "\<dots> = py_slice (packed_block w rows bpr rb q1) j (j + n)"
    using slice_of_blocks [of bpr "packed_block w rows bpr rb" 144 q1 j n] ok q j
    by (simp add: length_packed_block)
  finally show ?thesis using b by (simp add: algebra_simps)
qed

lemma packed_lane:
  assumes ok: "weights_ok w rows bpr" and r: "0 \<le> r" "r < rowblocks_for rows * 8" and q: "0 \<le> q1" "q1 < bpr"
  shows "py_slice (packed_weights w rows bpr) (packed_offset bpr r q1 + r mod 8 * 2) (packed_offset bpr r q1 + r mod 8 * 2 + 2)
      = scale_bytes w rows bpr q1 r"
    and "0 \<le> sub \<Longrightarrow> sub < 4 \<Longrightarrow>
      py_slice (packed_weights w rows bpr) (packed_offset bpr r q1 + (16 + sub * 32 + r mod 8 * 4))
        (packed_offset bpr r q1 + (16 + sub * 32 + r mod 8 * 4) + 4) = wbits_bytes w rows bpr q1 sub r"
proof -
  let ?rb = "r div 8" and ?l = "r mod 8"
  let ?ss = "concat (map (\<lambda>lane. scale_bytes w rows bpr q1 (?rb * 8 + lane)) (py_range 8))"
  let ?w1 = "\<lambda>sub. concat (map (\<lambda>lane. wbits_bytes w rows bpr q1 sub (?rb * 8 + lane)) (py_range 8))"
  let ?ws = "concat (map ?w1 (py_range 4))"
  have rb: "0 \<le> ?rb" "?rb < rowblocks_for rows" "?rb * 8 + ?l = r" "0 \<le> ?l" "?l < 8" using r by auto
  have ls: "length (scale_bytes w rows bpr q1 (?rb * 8 + lane)) = 2" if "0 \<le> lane" for lane
    using ok q rb that by (intro length_scale_bytes) auto
  have lw: "length (wbits_bytes w rows bpr q1 s (?rb * 8 + lane)) = 4" if "0 \<le> lane" "0 \<le> s" "s < 4" for lane s
    using ok q rb that by (intro length_wbits_bytes) auto
  have lss: "length ?ss = 16" using ls by (subst length_concat_blocks [of _ _ 2]) auto
  have lw1: "length (?w1 s) = 32" if "0 \<le> s" "s < 4" for s
    using lw that by (subst length_concat_blocks [of _ _ 4]) auto
  have lws: "length ?ws = 128" using lw1 by (subst length_concat_blocks [of _ _ 32]) auto
  have blk: "packed_block w rows bpr ?rb q1 = ?ss @ ?ws" by (simp add: packed_block_def)
  have "py_slice (packed_weights w rows bpr) (packed_offset bpr r q1 + ?l * 2) (packed_offset bpr r q1 + ?l * 2 + 2)
      = py_slice (?ss @ ?ws) (?l * 2) (?l * 2 + 2)"
    using packed_block_at [OF ok rb(1,2) q, of "?l * 2" 2] rb by (simp add: packed_offset_def blk)
  also have "\<dots> = py_slice ?ss (?l * 2) (?l * 2 + 2)" using lss rb by (intro py_slice_append1) auto
  also have "\<dots> = py_slice (scale_bytes w rows bpr q1 (?rb * 8 + ?l)) 0 2"
    using slice_of_blocks [of 8 "\<lambda>lane. scale_bytes w rows bpr q1 (?rb * 8 + lane)" 2 ?l 0 2] rb ls by simp
  also have "\<dots> = scale_bytes w rows bpr q1 r"
    using ls [of ?l] rb by (subst py_slice_all) simp_all
  finally show "py_slice (packed_weights w rows bpr) (packed_offset bpr r q1 + ?l * 2) (packed_offset bpr r q1 + ?l * 2 + 2)
      = scale_bytes w rows bpr q1 r" .
  assume sub: "0 \<le> sub" "sub < 4"
  have "py_slice (packed_weights w rows bpr) (packed_offset bpr r q1 + (16 + sub * 32 + ?l * 4))
        (packed_offset bpr r q1 + (16 + sub * 32 + ?l * 4) + 4)
      = py_slice (?ss @ ?ws) (int (length ?ss) + (sub * 32 + ?l * 4)) (int (length ?ss) + (sub * 32 + ?l * 4) + 4)"
    using packed_block_at [OF ok rb(1,2) q, of "16 + sub * 32 + ?l * 4" 4] rb sub lss
    by (simp add: packed_offset_def blk add.assoc)
  also have "\<dots> = py_slice ?ws (sub * 32 + ?l * 4) (sub * 32 + ?l * 4 + 4)"
    using lws rb sub by (intro py_slice_append2) auto
  also have "\<dots> = py_slice (?w1 sub) (?l * 4) (?l * 4 + 4)"
    using slice_of_blocks [of 4 ?w1 32 sub "?l * 4" 4] rb lw1 sub by simp
  also have "\<dots> = py_slice (wbits_bytes w rows bpr q1 sub (?rb * 8 + ?l)) 0 4"
    using slice_of_blocks [of 8 "\<lambda>lane. wbits_bytes w rows bpr q1 sub (?rb * 8 + lane)" 4 ?l 0 4] rb lw sub by simp
  also have "\<dots> = wbits_bytes w rows bpr q1 sub r"
    using lw [of ?l sub] rb sub by (subst py_slice_all) simp_all
  finally show "py_slice (packed_weights w rows bpr) (packed_offset bpr r q1 + (16 + sub * 32 + ?l * 4))
        (packed_offset bpr r q1 + (16 + sub * 32 + ?l * 4) + 4) = wbits_bytes w rows bpr q1 sub r" .
qed

section \<open>The activation stream\<close>

definition act_block :: "byte list \<Rightarrow> byte list \<Rightarrow> int \<Rightarrow> byte list" where
  "act_block quants scales i =
     py_slice quants (i * 32) (i * 32 + 32) @ py_slice scales (i * 2) (i * 2 + 2) @ replicate 6 0"

definition acts_stream :: "byte list \<Rightarrow> byte list \<Rightarrow> int \<Rightarrow> byte list" where
  "acts_stream quants scales bpr =
     concat (map (\<lambda>q1. concat (map (\<lambda>sub. act_block quants scales (q1 * 4 + sub)) (py_range 4))) (py_range bpr))"

definition acts_ok :: "byte list \<Rightarrow> byte list \<Rightarrow> int \<Rightarrow> bool" where
  "acts_ok quants scales bpr \<longleftrightarrow> int (length quants) = bpr * 128 \<and> int (length scales) = bpr * 8"

lemma le_value_zeros [simp]: "le_value (replicate n 0) = 0"
  by (induction n) auto

lemma act_block_parts:
  assumes "acts_ok quants scales bpr" "0 \<le> i" "i < bpr * 4"
  shows "length (py_slice quants (i * 32) (i * 32 + 32)) = 32"
    and "act_scale scales i = Inr (le_value (py_slice scales (i * 2) (i * 2 + 2) @ replicate 6 0))"
    and "length (py_slice scales (i * 2) (i * 2 + 2)) = 2"
proof -
  have q: "i * 32 + 32 \<le> int (length quants)" "i * 2 + 2 \<le> int (length scales)"
    using assms by (auto simp: acts_ok_def)
  then show "length (py_slice quants (i * 32) (i * 32 + 32)) = 32" using assms(2) by (simp add: take_drop_slice)
  note t = two_bytes [of "i * 2" scales]
  show "length (py_slice scales (i * 2) (i * 2 + 2)) = 2" using t q assms(2) by simp
  have "py_index scales (i * 2) = Inr (scales ! nat (i * 2))" "py_index scales (i * 2 + 1) = Inr (scales ! nat (i * 2 + 1))"
    using q assms(2) by (auto intro!: py_index_in)
  then show "act_scale scales i = Inr (le_value (py_slice scales (i * 2) (i * 2 + 2) @ replicate 6 0))"
    using t q assms(2) or_two [of "scales ! nat (i * 2)" "scales ! nat (i * 2 + 1)"]
    by (simp add: act_scale_def)
qed

lemma length_act_block:
  "acts_ok quants scales bpr \<Longrightarrow> 0 \<le> i \<Longrightarrow> i < bpr * 4 \<Longrightarrow> length (act_block quants scales i) = 40"
  using act_block_parts [of quants scales bpr i] by (simp add: act_block_def)

lemma put_bytes_filled:
  "int (length bs) = m \<Longrightarrow> length d + length bs \<le> n \<Longrightarrow> put_bytes bs m (filled n d) = filled n (d @ bs)"
  using filled_assign [of d bs n] by (auto simp: put_bytes_def split: prod.splits)

lemma put_act_block:
  assumes "acts_ok quants scales bpr" "0 \<le> i" "i < bpr * 4" "length d + 40 \<le> n"
  shows "put_beat (act_scale scales i) (put_bytes (py_slice quants (i * 32) (i * 32 + 32)) 32 (filled n d)) =
    Inr (filled n (d @ act_block quants scales i))"
proof -
  note p = act_block_parts [OF assms(1-3)]
  have "put_bytes (py_slice quants (i * 32) (i * 32 + 32)) 32 (filled n d) =
      filled n (d @ py_slice quants (i * 32) (i * 32 + 32))" using p assms(4) by (intro put_bytes_filled) auto
  then show ?thesis using p assms(4)
      put_beat_filled [of "py_slice scales (i * 2) (i * 2 + 2) @ replicate 6 0" "d @ py_slice quants (i * 32) (i * 32 + 32)" n]
    by (simp add: act_block_def)
qed

lemma length_acts_q1:
  assumes "acts_ok quants scales bpr" "0 \<le> q1" "q1 < bpr"
  shows "length (concat (map (\<lambda>sub. act_block quants scales (q1 * 4 + sub)) (py_range 4))) = 160"
  using assms by (subst length_concat_blocks [of _ _ 40]) (auto simp: length_act_block)

lemma length_acts_stream:
  "acts_ok quants scales bpr \<Longrightarrow> length (acts_stream quants scales bpr) = nat (bpr * 160)"
  unfolding acts_stream_def
  by (subst length_concat_blocks [of _ _ 160]) (auto simp: length_acts_q1 nat_mult_distrib)

lemma pack_acts_spec:
  assumes "blocks_per_row k = Inr bpr" "int (length quants) = k" "int (length scales) = bpr * 8"
  shows "pack_acts quants scales k = Inr (acts_stream quants scales bpr)"
proof -
  have k: "k = bpr * 128" using assms(1) by (auto simp: blocks_per_row_def split: if_splits)
  then have ok: "acts_ok quants scales bpr" using assms by (simp add: acts_ok_def)
  let ?n = "nat (bpr * 160)"
  let ?f = "\<lambda>q1. concat (map (\<lambda>sub. act_block quants scales (q1 * 4 + sub)) (py_range 4))"
  note len = length_acts_stream [OF ok]
  have one: "foldR (pack_acts_sub quants scales q1) (filled ?n d) (py_range 4) = Inr (filled ?n (d @ ?f q1))"
    if "0 \<le> q1" "q1 < bpr" "length d + length (?f q1) \<le> ?n" for q1 d
  proof (rule foldR_emit)
    fix sub and e :: "byte list"
    assume "sub \<in> set (py_range 4)" "length e + length (act_block quants scales (q1 * 4 + sub)) \<le> ?n"
    then show "pack_acts_sub quants scales q1 (filled ?n e) sub = Inr (filled ?n (e @ act_block quants scales (q1 * 4 + sub)))"
      using put_act_block [OF ok, of "q1 * 4 + sub" e ?n] that length_act_block [OF ok, of "q1 * 4 + sub"]
      by (simp add: pack_acts_sub_def Let_def)
  qed (rule that)
  have "foldR (\<lambda>st q1. foldR (pack_acts_sub quants scales q1) st (py_range 4)) (filled ?n []) (py_range bpr)
      = Inr (filled ?n ([] @ concat (map ?f (py_range bpr))))"
    by (rule foldR_emit) (use one len in \<open>auto simp: acts_stream_def\<close>)
  moreover have "bytearray (bpr * 160) = Inr (replicate ?n 0)" using assms(2) k by (auto simp: bytearray_def)
  moreover from this have "(replicate ?n 0, 0) = filled ?n []" by (rule filled_start)
  ultimately show ?thesis
    using assms k filled_full [OF len]
    by (simp add: pack_acts_def acts_stream_nbytes_def flip: acts_stream_def)
qed

section \<open>The merged stream\<close>

definition merged_block :: "byte list \<Rightarrow> byte list \<Rightarrow> byte list \<Rightarrow> int \<Rightarrow> int \<Rightarrow> byte list" where
  "merged_block packed quants scales p q1 =
     py_slice packed p (p + 16) @
     concat (map (\<lambda>sub. act_block quants scales (q1 * 4 + sub) @
         py_slice packed (p + 16 + sub * 32) (p + 16 + sub * 32 + 32)) (py_range 4))"

definition merged_stream :: "byte list \<Rightarrow> byte list \<Rightarrow> byte list \<Rightarrow> int \<Rightarrow> int \<Rightarrow> byte list" where
  "merged_stream packed quants scales rbs bpr =
     concat (map (\<lambda>rb. concat (map (\<lambda>q1. merged_block packed quants scales ((rb * bpr + q1) * 144) q1) (py_range bpr)))
       (py_range rbs))"

text \<open>A loop that emits blocks and advances a second cursor by the same amount every round.\<close>

lemma foldR_emit2:
  assumes "0 \<le> m"
    and "\<And>i d. 0 \<le> i \<Longrightarrow> i < m \<Longrightarrow> length d + length (f i) \<le> n \<Longrightarrow>
      step (filled n d, p + i * c) i = Inr (filled n (d @ f i), p + (i + 1) * c)"
    and "length d + length (concat (map f (py_range m))) \<le> n"
  shows "foldR step (filled n d, p) (py_range m) = Inr (filled n (d @ concat (map f (py_range m))), p + m * c)"
  using assms
proof (induction m rule: int_ge_induct)
  case (step m)
  have rng: "py_range (m + 1) = py_range m @ [m]" using step.hyps by (simp add: py_range_def nat_add_distrib)
  have "foldR step (filled n d, p) (py_range m) = Inr (filled n (d @ concat (map f (py_range m))), p + m * c)"
    using step.prems rng by (intro step.IH) auto
  then show ?case using step.prems(1) [of m] step.prems(2) step.hyps rng by (simp add: foldR_append)
qed (simp add: py_range_def)

lemma merge_sub_spec:
  assumes ok: "acts_ok quants scales bpr" and q: "0 \<le> q1" "q1 < bpr" "0 \<le> sub" "sub < 4"
    and p: "0 \<le> p" "p + 32 \<le> int (length packed)" and n: "length d + 72 \<le> n"
  shows "merge_sub packed quants scales q1 (filled n d, p) sub =
    Inr (filled n (d @ act_block quants scales (q1 * 4 + sub) @ py_slice packed p (p + 32)), p + 32)"
proof -
  have i: "(q1 * 128 + sub * 32) div 32 = q1 * 4 + sub" "q1 * 128 + sub * 32 = (q1 * 4 + sub) * 32" by simp_all
  have "q1 * 4 + sub < bpr * 4" using q by linarith
  then have a: "put_beat (act_scale scales (q1 * 4 + sub))
      (put_bytes (py_slice quants ((q1 * 4 + sub) * 32) ((q1 * 4 + sub) * 32 + 32)) 32 (filled n d)) =
      Inr (filled n (d @ act_block quants scales (q1 * 4 + sub)))"
    and l: "length (act_block quants scales (q1 * 4 + sub)) = 40"
    using put_act_block [OF ok, of "q1 * 4 + sub" d n] length_act_block [OF ok, of "q1 * 4 + sub"] q n by auto
  have "int (length (py_slice packed p (p + 32))) = 32" using p by (simp add: take_drop_slice)
  then have "put_bytes (py_slice packed p (p + 32)) 32 (filled n (d @ act_block quants scales (q1 * 4 + sub))) =
      filled n ((d @ act_block quants scales (q1 * 4 + sub)) @ py_slice packed p (p + 32))"
    using n l by (intro put_bytes_filled) auto
  with a show ?thesis by (simp add: merge_sub_def copy_packed_def i Let_def mult.commute [of 4] del: distrib_right_numeral)
qed

lemma length_merged_block:
  assumes "acts_ok quants scales bpr" "0 \<le> q1" "q1 < bpr" "0 \<le> p" "p + 144 \<le> int (length packed)"
  shows "length (merged_block packed quants scales p q1) = 304"
proof -
  have "length (py_slice packed p (p + 16)) = 16" using assms by (simp add: take_drop_slice)
  moreover have "length (act_block quants scales (q1 * 4 + sub) @
      py_slice packed (p + 16 + sub * 32) (p + 16 + sub * 32 + 32)) = 72" if "0 \<le> sub" "sub < 4" for sub
    using assms that length_act_block [OF assms(1), of "q1 * 4 + sub"]
      take_drop_slice [of "p + 16 + sub * 32" 32 packed] by simp
  then have "length (concat (map (\<lambda>sub. act_block quants scales (q1 * 4 + sub) @
      py_slice packed (p + 16 + sub * 32) (p + 16 + sub * 32 + 32)) (py_range 4))) = 4 * 72"
    by (subst length_concat_blocks [of _ _ 72]) auto
  ultimately show ?thesis by (simp add: merged_block_def)
qed

lemma merge_q1_block_spec:
  assumes ok: "acts_ok quants scales bpr" and q: "0 \<le> q1" "q1 < bpr"
    and p: "0 \<le> p" "p + 144 \<le> int (length packed)" and n: "length d + 304 \<le> n"
  shows "merge_q1_block packed quants scales (filled n d, p) q1 =
    Inr (filled n (d @ merged_block packed quants scales p q1), p + 144)"
proof -
  let ?h = "py_slice packed p (p + 16)"
  let ?f = "\<lambda>sub. act_block quants scales (q1 * 4 + sub) @ py_slice packed (p + 16 + sub * 32) (p + 16 + sub * 32 + 32)"
  have lh: "length ?h = 16" using p by (simp add: take_drop_slice)
  have lf: "length (?f sub) = 72" if "0 \<le> sub" "sub < 4" for sub
    using ok q p that length_act_block [OF ok, of "q1 * 4 + sub"]
      take_drop_slice [of "p + 16 + sub * 32" 32 packed] by simp
  have lc: "length (concat (map ?f (py_range 4))) = 288" using lf by (subst length_concat_blocks [of _ _ 72]) auto
  have c: "copy_packed packed 16 (filled n d, p) = (filled n (d @ ?h), p + 16)"
    using put_bytes_filled [of ?h 16 d n] lh n by (simp add: copy_packed_def)
  have "foldR (merge_sub packed quants scales q1) (filled n (d @ ?h), p + 16) (py_range 4) =
      Inr (filled n ((d @ ?h) @ concat (map ?f (py_range 4))), p + 16 + 4 * 32)"
  proof (rule foldR_emit2)
    fix i and e :: "byte list"
    assume i: "0 \<le> i" "i < 4" and "length e + length (?f i) \<le> n"
    then have "length e + 72 \<le> n" using lf by simp
    then show "merge_sub packed quants scales q1 (filled n e, p + 16 + i * 32) i =
        Inr (filled n (e @ ?f i), p + 16 + (i + 1) * 32)"
      using merge_sub_spec [OF ok q i, of "p + 16 + i * 32" packed e n] i p by (simp add: algebra_simps)
  qed (use lh lc n in auto)
  with c show ?thesis by (simp add: merge_q1_block_def merged_block_def)
qed

lemma merge_acts_spec:
  assumes b: "blocks_per_row k = Inr bpr" and rows: "0 \<le> rows"
    and len: "int (length packed) = rowblocks_for rows * bpr * 144" "int (length quants) = k" "int (length scales) = bpr * 8"
  shows "merge_acts packed quants scales rows k = Inr (merged_stream packed quants scales (rowblocks_for rows) bpr)"
    and "length (merged_stream packed quants scales (rowblocks_for rows) bpr) = nat (rowblocks_for rows * bpr * 304)"
proof -
  let ?rbs = "rowblocks_for rows" and ?blk = "\<lambda>p q1. merged_block packed quants scales p q1"
  let ?row = "\<lambda>rb. concat (map (\<lambda>q1. ?blk ((rb * bpr + q1) * 144) q1) (py_range bpr))"
  let ?n = "nat (?rbs * bpr * 304)"
  have k: "k = bpr * 128" using b by (auto simp: blocks_per_row_def split: if_splits)
  then have ok: "acts_ok quants scales bpr" and bp: "0 \<le> bpr" using len(2,3) by (auto simp: acts_ok_def)
  have rb: "0 \<le> ?rbs" using rows by (simp add: rowblocks_for_def)
  have room: "(i * bpr + q1) * 144 + 144 \<le> int (length packed)" "0 \<le> (i * bpr + q1) * 144"
    if "0 \<le> i" "i < ?rbs" "0 \<le> q1" "q1 < bpr" for i q1
    using mult_right_mono [of "i + 1" ?rbs bpr] that bp len(1) by (simp_all add: algebra_simps)
  have lb: "length (?blk ((i * bpr + q1) * 144) q1) = 304"
    if "0 \<le> i" "i < ?rbs" "0 \<le> q1" "q1 < bpr" for i q1
    using room [OF that] that ok by (intro length_merged_block) auto
  have lrow: "length (?row i) = nat bpr * 304" if "0 \<le> i" "i < ?rbs" for i
    using lb that by (subst length_concat_blocks [of _ _ 304]) auto
  have "length (concat (map ?row (py_range ?rbs))) = nat ?rbs * (nat bpr * 304)"
    using lrow by (subst length_concat_blocks [of _ _ "nat bpr * 304"]) auto
  then show total: "length (merged_stream packed quants scales ?rbs bpr) = ?n"
    using rb bp by (simp add: merged_stream_def nat_mult_distrib)
  have row: "foldR (merge_q1_block packed quants scales) (filled ?n d, i * (bpr * 144)) (py_range bpr) =
      Inr (filled ?n (d @ ?row i), (i + 1) * (bpr * 144))"
    if "0 \<le> i" "i < ?rbs" "length d + length (?row i) \<le> ?n" for i d
  proof -
    have "foldR (merge_q1_block packed quants scales) (filled ?n d, i * (bpr * 144)) (py_range bpr) =
        Inr (filled ?n (d @ ?row i), i * (bpr * 144) + bpr * 144)"
    proof (rule foldR_emit2)
      fix q1 and e :: "byte list"
      assume q: "0 \<le> q1" "q1 < bpr" and e: "length e + length (?blk ((i * bpr + q1) * 144) q1) \<le> ?n"
      have "i * (bpr * 144) + q1 * 144 = (i * bpr + q1) * 144" by (simp add: algebra_simps)
      then show "merge_q1_block packed quants scales (filled ?n e, i * (bpr * 144) + q1 * 144) q1 =
          Inr (filled ?n (e @ ?blk ((i * bpr + q1) * 144) q1), i * (bpr * 144) + (q1 + 1) * 144)"
        using merge_q1_block_spec [OF ok q room(2,1) [OF that(1,2) q], of e ?n] lb [OF that(1,2) q] e
        by (simp add: algebra_simps)
    qed (use that bp in auto)
    then show ?thesis by (simp add: algebra_simps)
  qed
  have "foldR (\<lambda>st rb. foldR (merge_q1_block packed quants scales) st (py_range bpr)) (filled ?n [], 0) (py_range ?rbs)
      = Inr (filled ?n ([] @ concat (map ?row (py_range ?rbs))), 0 + ?rbs * (bpr * 144))"
    (is "_ = Inr (filled ?n ([] @ ?all), _)")
    by (rule foldR_emit2) (use row rb total in \<open>auto simp: merged_stream_def\<close>)
  moreover have "bytearray (?rbs * bpr * 304) = Inr (replicate ?n 0)" using rb bp by (simp add: bytearray_def not_less)
  moreover from this have "(replicate ?n 0, 0) = filled ?n []" by (rule filled_start)
  moreover have "?all = merged_stream packed quants scales ?rbs bpr" by (simp only: merged_stream_def)
  ultimately have "foldR (\<lambda>st rb. foldR (merge_q1_block packed quants scales) st (py_range bpr))
      ((replicate ?n 0, 0), 0) (py_range ?rbs)
      = Inr (filled ?n (merged_stream packed quants scales ?rbs bpr), ?rbs * (bpr * 144))"
    and "bytearray (?rbs * bpr * 304) = Inr (replicate ?n 0)" by simp_all
  then show "merge_acts packed quants scales rows k = Inr (merged_stream packed quants scales ?rbs bpr)"
    using b len k filled_full [OF total] by (simp add: merge_acts_def Let_def)
qed

end
