(* ===== verification/LayoutProps.thy ===== *)
theory LayoutProps
  imports LayoutSpec
begin

text \<open>
  The properties of the Q1A8 layout: the packers return streams of the sizes that the size
  helpers announce, every source byte sits at its documented place, packing loses nothing,
  and the merged stream interleaves the two others.
\<close>

section \<open>Slices of the streams\<close>

lemma act_block_at:
  assumes ok: "acts_ok quants scales bpr" and i: "0 \<le> q1" "q1 < bpr" "0 \<le> sub" "sub < 4" and j: "0 \<le> j" "0 \<le> n" "j + n \<le> 40"
  shows "py_slice (acts_stream quants scales bpr) ((q1 * 4 + sub) * 40 + j) ((q1 * 4 + sub) * 40 + j + n) =
    py_slice (act_block quants scales (q1 * 4 + sub)) j (j + n)"
proof -
  let ?q = "\<lambda>q1. concat (map (\<lambda>sub. act_block quants scales (q1 * 4 + sub)) (py_range 4))"
  have "py_slice (acts_stream quants scales bpr) (q1 * int 160 + (sub * 40 + j)) (q1 * int 160 + (sub * 40 + j) + n) =
      py_slice (?q q1) (sub * 40 + j) (sub * 40 + j + n)"
    unfolding acts_stream_def using ok i j by (intro slice_of_blocks) (auto simp: length_acts_q1)
  also have "\<dots> = py_slice (act_block quants scales (q1 * 4 + sub)) j (j + n)"
    using slice_of_blocks [of 4 "\<lambda>sub. act_block quants scales (q1 * 4 + sub)" 40 sub j n] i j
    by (simp add: length_act_block [OF ok])
  finally show ?thesis by (simp add: algebra_simps)
qed

lemma merged_block_at:
  assumes ok: "acts_ok quants scales bpr" and i: "0 \<le> rb" "rb < rbs" "0 \<le> q1" "q1 < bpr" and j: "0 \<le> j" "0 \<le> n" "j + n \<le> 304"
    and len: "int (length packed) = rbs * bpr * 144"
  shows "py_slice (merged_stream packed quants scales rbs bpr) ((rb * bpr + q1) * 304 + j) ((rb * bpr + q1) * 304 + j + n) =
    py_slice (merged_block packed quants scales ((rb * bpr + q1) * 144) q1) j (j + n)"
proof -
  let ?b = "\<lambda>rb q1. merged_block packed quants scales ((rb * bpr + q1) * 144) q1"
  let ?row = "\<lambda>rb. concat (map (?b rb) (py_range bpr))"
  have lb: "length (?b r q) = 304" if "0 \<le> r" "r < rbs" "0 \<le> q" "q < bpr" for r q
    using mult_right_mono [of "r + 1" rbs bpr] that ok len
    by (intro length_merged_block [OF ok]) (auto simp: algebra_simps)
  have lrow: "length (?row r) = nat bpr * 304" if "0 \<le> r" "r < rbs" for r
    using lb that by (subst length_concat_blocks [of _ _ 304]) auto
  have b: "int (nat bpr * 304) = bpr * 304" using i by simp
  have "q1 * 304 + 304 \<le> bpr * 304" using i by simp
  then have "py_slice (merged_stream packed quants scales rbs bpr) (rb * int (nat bpr * 304) + (q1 * 304 + j))
        (rb * int (nat bpr * 304) + (q1 * 304 + j) + n) = py_slice (?row rb) (q1 * 304 + j) (q1 * 304 + j + n)"
    unfolding merged_stream_def using i j b lrow by (intro slice_of_blocks) auto
  also have "\<dots> = py_slice (?b rb q1) j (j + n)"
    using slice_of_blocks [of bpr "?b rb" 304 q1 j n] lb i j by simp
  finally show ?thesis using b by (simp add: algebra_simps)
qed

lemma merged_block_slices:
  assumes ok: "acts_ok quants scales bpr" and q: "0 \<le> q1" "q1 < bpr" and p: "0 \<le> p" "p + 144 \<le> int (length packed)"
  shows "py_slice (merged_block packed quants scales p q1) 0 16 = py_slice packed p (p + 16)"
    and "0 \<le> sub \<Longrightarrow> sub < 4 \<Longrightarrow> py_slice (merged_block packed quants scales p q1) (16 + sub * 72) (16 + sub * 72 + 40) =
      act_block quants scales (q1 * 4 + sub)"
    and "0 \<le> sub \<Longrightarrow> sub < 4 \<Longrightarrow> py_slice (merged_block packed quants scales p q1) (56 + sub * 72) (56 + sub * 72 + 32) =
      py_slice packed (p + 16 + sub * 32) (p + 16 + sub * 32 + 32)"
proof -
  let ?h = "py_slice packed p (p + 16)"
  let ?w = "\<lambda>sub. py_slice packed (p + 16 + sub * 32) (p + 16 + sub * 32 + 32)"
  let ?f = "\<lambda>sub. act_block quants scales (q1 * 4 + sub) @ ?w sub"
  let ?c = "concat (map ?f (py_range 4))"
  have lh: "length ?h = 16" using p by (simp add: take_drop_slice)
  have la: "length (act_block quants scales (q1 * 4 + sub)) = 40" and lw: "length (?w sub) = 32"
    if "0 \<le> sub" "sub < 4" for sub
    using p q that length_act_block [OF ok, of "q1 * 4 + sub"] take_drop_slice [of "p + 16 + sub * 32" 32 packed] by auto
  have lf: "length (?f sub) = 72" if "0 \<le> sub" "sub < 4" for sub using la lw that by simp
  have lc: "length ?c = 288" using lf by (subst length_concat_blocks [of _ _ 72]) auto
  have blk: "merged_block packed quants scales p q1 = ?h @ ?c" by (simp add: merged_block_def)
  show "py_slice (merged_block packed quants scales p q1) 0 16 = ?h"
    using py_slice_append1 [of 0 16 ?h ?c] lh py_slice_all [of ?h 16] by (simp add: blk)
  assume s: "0 \<le> sub" "sub < 4"
  have at: "py_slice (?h @ ?c) (16 + (sub * 72 + j)) (16 + (sub * 72 + j) + n) = py_slice (?f sub) j (j + n)"
    if "0 \<le> j" "0 \<le> n" "j + n \<le> 72" for j n
    using py_slice_append2 [of "sub * 72 + j" n ?c ?h] slice_of_blocks [of 4 ?f 72 sub j n] lf lh lc s that by simp
  show "py_slice (merged_block packed quants scales p q1) (16 + sub * 72) (16 + sub * 72 + 40) = act_block quants scales (q1 * 4 + sub)"
    using at [of 0 40] py_slice_append1 [of 0 40 "act_block quants scales (q1 * 4 + sub)" "?w sub"] la [OF s]
      py_slice_all [of "act_block quants scales (q1 * 4 + sub)" 40] by (simp add: blk)
  show "py_slice (merged_block packed quants scales p q1) (56 + sub * 72) (56 + sub * 72 + 32) = ?w sub"
    using at [of 40 32] py_slice_append2 [of 0 32 "?w sub" "act_block quants scales (q1 * 4 + sub)"] la [OF s] lw [OF s]
      py_slice_all [of "?w sub" 32] by (simp add: blk algebra_simps)
qed

section \<open>Properties\<close>

text \<open>C19: \<open>pack_weights\<close> on Q1_0 weights of sufficient length returns a stream of
  \<open>packed_nbytes\<close> bytes in which the scale of row \<open>r\<close> and block \<open>q1\<close> and each of
  its four 32-bit weight words are at lane \<open>r mod 8\<close> of the block's beats; the lanes beyond
  the last row are zero.\<close>

theorem pack_weights_places_every_lane:
  assumes "blocks_per_row k = Inr bpr" "0 \<le> rows" "0 \<le> bpr" "rows * (bpr * 18) \<le> int (length w)"
  shows "\<exists>out. pack_weights w rows k = Inr out \<and> packed_nbytes rows k = Inr (int (length out)) \<and>
    (\<forall>r q1 sub. 0 \<le> r \<and> r < rowblocks_for rows * 8 \<and> 0 \<le> q1 \<and> q1 < bpr \<and> 0 \<le> sub \<and> sub < 4 \<longrightarrow>
      (let src = r * (bpr * 18) + q1 * 18; dst = packed_offset bpr r q1;
           sc = dst + r mod 8 * 2; wb = dst + (16 + sub * 32 + r mod 8 * 4) in
       py_slice out sc (sc + 2) = (if r < rows then py_slice w src (src + 2) else [0, 0]) \<and>
       py_slice out wb (wb + 4) =
         (if r < rows then py_slice w (src + 2 + sub * 4) (src + 2 + sub * 4 + 4) else [0, 0, 0, 0])))"
proof -
  have ok: "weights_ok w rows bpr" using assms by (simp add: weights_ok_def)
  have "packed_nbytes rows k = Inr (int (length (packed_weights w rows bpr)))"
    using length_packed_weights [OF ok] assms(1) by (simp add: packed_nbytes_def)
  then show ?thesis
    using pack_weights_spec [OF assms(1) ok] packed_lane [OF ok]
    by (intro exI [of _ "packed_weights w rows bpr"]) (auto simp: Let_def scale_bytes_def wbits_bytes_def)
qed

theorem pack_weights_places_every_lane_witness:
  "\<exists>out. pack_weights (map word_of_nat [0..<54]) 3 128 = Inr out \<and> length out = 144 \<and>
     py_slice out 4 6 = [36, 37]"
proof -
  have b: "blocks_per_row 128 = Inr 1" by (simp add: blocks_per_row_def)
  from pack_weights_places_every_lane [OF b, of 3 "map word_of_nat [0..<54]"]
  obtain out where o: "pack_weights (map word_of_nat [0..<54]) 3 128 = Inr out"
      "packed_nbytes 3 128 = Inr (int (length out))"
      "\<forall>r q1 sub. 0 \<le> r \<and> r < rowblocks_for 3 * 8 \<and> 0 \<le> q1 \<and> q1 < 1 \<and> 0 \<le> sub \<and> sub < 4 \<longrightarrow>
      (let src = r * (1 * 18) + q1 * 18; dst = packed_offset 1 r q1;
           sc = dst + r mod 8 * 2; wb = dst + (16 + sub * 32 + r mod 8 * 4) in
       py_slice out sc (sc + 2) = (if r < 3 then py_slice (map word_of_nat [0..<54]) src (src + 2) else [0, 0]) \<and>
       py_slice out wb (wb + 4) =
         (if r < 3 then py_slice (map word_of_nat [0..<54]) (src + 2 + sub * 4) (src + 2 + sub * 4 + 4) else [0, 0, 0, 0]))"
    by auto
  have "py_slice out 4 6 = py_slice (map word_of_nat [0..<54]) 36 38"
    using o(3) [rule_format, of 2 0 0] by (simp add: rowblocks_for_def packed_offset_def Let_def)
  moreover have "py_slice (map word_of_nat [0..<54] :: byte list) 36 38 = [36, 37]"
    by (simp add: two_bytes [of 36, simplified])
  ultimately show ?thesis using o(1,2) by (simp add: packed_nbytes_def b rowblocks_for_def)
qed

text \<open>Packing weights loses nothing: two sources with the same packed stream agree on every
  byte of the weights.\<close>

lemma pack_weights_lossless:
  assumes "blocks_per_row k = Inr bpr" "0 \<le> rows" "0 \<le> bpr"
    and "rows * (bpr * 18) \<le> int (length w)" "rows * (bpr * 18) \<le> int (length w')"
    and "pack_weights w rows k = pack_weights w' rows k"
  shows "take (nat (rows * (bpr * 18))) w = take (nat (rows * (bpr * 18))) w'"
proof (rule nth_equalityI)
  show "length (take (nat (rows * (bpr * 18))) w) = length (take (nat (rows * (bpr * 18))) w')"
    using assms(4,5) by simp
next
  fix j assume "j < length (take (nat (rows * (bpr * 18))) w)"
  then have j: "int j < rows * (bpr * 18)" by auto
  have ok: "weights_ok w rows bpr" "weights_ok w' rows bpr" using assms by (auto simp: weights_ok_def)
  have eq: "packed_weights w rows bpr = packed_weights w' rows bpr"
    using assms(6) pack_weights_spec [OF assms(1)] ok by simp
  define r where "r = int j div (bpr * 18)"
  define q1 where "q1 = int j mod (bpr * 18) div 18"
  define b where "b = int j mod 18"
  have bpr: "0 < bpr * 18"
  proof (rule ccontr)
    assume "\<not> 0 < bpr * 18"
    then have "rows * (bpr * 18) \<le> 0" using assms(2) by (simp add: mult_nonneg_nonpos)
    with j show False by simp
  qed
  have m: "int j mod (bpr * 18) < bpr * 18" "0 \<le> int j mod (bpr * 18)" using bpr by auto
  then have "r * (bpr * 18) < rows * (bpr * 18)"
    using div_mult_mod_eq [of "int j" "bpr * 18"] j unfolding r_def by linarith
  then have r: "0 \<le> r" "r < rows" using bpr by (auto simp: r_def pos_imp_zdiv_nonneg_iff)
  have q: "0 \<le> q1" "q1 < bpr" using m by (auto simp: q1_def)
  have bm: "int j mod (bpr * 18) mod 18 = b" by (simp add: b_def mod_mod_cancel)
  have jj: "int j = r * (bpr * 18) + q1 * 18 + b"
    using div_mult_mod_eq [of "int j" "bpr * 18"] div_mult_mod_eq [of "int j mod (bpr * 18)" 18] bm
    by (simp add: r_def q1_def)
  have b: "0 \<le> b" "b < 18" by (simp_all add: b_def)
  have rb: "r < rowblocks_for rows * 8" using r by (simp add: rowblocks_for_def)
  let ?s = "r * (bpr * 18) + q1 * 18"
  have s: "0 \<le> ?s" "?s + 18 \<le> int (length w)" "?s + 18 \<le> int (length w')"
    using source_block_in_range [OF r q assms(4)] source_block_in_range [OF r q assms(5)] by auto
  have in_slice: "w ! j = w' ! j" if e: "py_slice w lo (lo + n) = py_slice w' lo (lo + n)"
      and lo: "?s \<le> lo" "lo \<le> int j" "int j < lo + n" "lo + n \<le> ?s + 18" for lo n
  proof -
    have "py_slice w lo (lo + n) ! nat (int j - lo) = w ! j" "py_slice w' lo (lo + n) ! nat (int j - lo) = w' ! j"
      using s lo by (auto simp: nth_py_slice simp flip: nat_add_distrib)
    with e show ?thesis by simp
  qed
  have "w ! j = w' ! j"
  proof (cases "b < 2")
    case True
    have "py_slice w ?s (?s + 2) = py_slice w' ?s (?s + 2)"
      using packed_lane(1) [OF ok(1) r(1) rb q] packed_lane(1) [OF ok(2) r(1) rb q] eq r by (simp add: scale_bytes_def)
    then show ?thesis using True jj b by (intro in_slice) auto
  next
    case False
    define sub where "sub = (b - 2) div 4"
    have sub: "0 \<le> sub" "sub < 4" "2 + sub * 4 \<le> b" "b < 2 + sub * 4 + 4" using False b by (auto simp: sub_def)
    have "py_slice w (?s + 2 + sub * 4) (?s + 2 + sub * 4 + 4) = py_slice w' (?s + 2 + sub * 4) (?s + 2 + sub * 4 + 4)"
      using packed_lane(2) [OF ok(1) r(1) rb q sub(1,2)] packed_lane(2) [OF ok(2) r(1) rb q sub(1,2)] eq r
      by (simp add: wbits_bytes_def)
    then show ?thesis by (rule in_slice) (use sub jj b in auto)
  qed
  with j show "take (nat (rows * (bpr * 18))) w ! j = take (nat (rows * (bpr * 18))) w' ! j" by simp
qed

lemma pack_weights_lossless_witness:
  "take 36 (replicate 40 1 :: byte list) = take 36 (replicate 36 1)"
proof -
  have b: "blocks_per_row 128 = Inr 1" by (simp add: blocks_per_row_def)
  have ok: "weights_ok (replicate 40 1) 2 1" "weights_ok (replicate 36 1) 2 1" by (simp_all add: weights_ok_def)
  have "py_slice (replicate 40 1 :: byte list) lo hi = py_slice (replicate 36 1) lo hi"
    if "0 \<le> lo" "lo \<le> hi" "hi \<le> 36" for lo hi
    using that by (auto simp: py_slice_in min_def)
  moreover have "py_range 1 = [0]" by (simp add: py_range_def)
  ultimately have "packed_weights (replicate 40 1) 2 1 = packed_weights (replicate 36 1) 2 1"
    by (simp add: packed_weights_def packed_block_def py_range_num scale_bytes_def wbits_bytes_def rowblocks_for_def)
  then have "pack_weights (replicate 40 1) 2 128 = pack_weights (replicate 36 1) 2 128"
    using pack_weights_spec [OF b ok(1)] pack_weights_spec [OF b ok(2)] by simp
  with pack_weights_lossless [OF b, of 2 "replicate 40 1" "replicate 36 1"] show ?thesis by simp
qed

text \<open>\<open>pack_acts\<close> returns a stream of \<open>acts_stream_nbytes\<close> bytes; block \<open>i\<close>
  of the column has its 32 quants, then the two bytes of its scale, then six zero bytes.\<close>

lemma pack_acts_places_every_block:
  assumes "blocks_per_row k = Inr bpr" "int (length quants) = k" "int (length scales) = bpr * 8"
  shows "\<exists>out. pack_acts quants scales k = Inr out \<and> acts_stream_nbytes k = Inr (int (length out)) \<and>
    (\<forall>i. 0 \<le> i \<and> i < bpr * 4 \<longrightarrow>
      py_slice out (i * 40) (i * 40 + 40) =
        py_slice quants (i * 32) (i * 32 + 32) @ py_slice scales (i * 2) (i * 2 + 2) @ replicate 6 0)"
proof -
  have k: "k = bpr * 128" using assms(1) by (auto simp: blocks_per_row_def split: if_splits)
  then have ok: "acts_ok quants scales bpr" using assms by (simp add: acts_ok_def)
  have "py_slice (acts_stream quants scales bpr) (i * 40) (i * 40 + 40) = act_block quants scales i"
    if "0 \<le> i" "i < bpr * 4" for i
  proof -
    have i: "i = i div 4 * 4 + i mod 4" "0 \<le> i div 4" "i div 4 < bpr" "0 \<le> i mod 4" "i mod 4 < 4"
      using that by auto
    have "py_slice (acts_stream quants scales bpr) (i * 40) (i * 40 + 40) = py_slice (act_block quants scales i) 0 40"
      using act_block_at [OF ok i(2-5), of 0 40] i(1) by simp
    then show ?thesis using length_act_block [OF ok that] py_slice_all [of "act_block quants scales i" 40] by simp
  qed
  moreover have "acts_stream_nbytes k = Inr (int (length (acts_stream quants scales bpr)))"
    using assms k length_acts_stream [OF ok] by (simp add: acts_stream_nbytes_def)
  ultimately show ?thesis
    using pack_acts_spec [OF assms] by (intro exI [of _ "acts_stream quants scales bpr"]) (auto simp: act_block_def)
qed

lemma pack_acts_places_every_block_witness:
  "\<exists>out. pack_acts (replicate 128 7) [1, 2, 3, 4, 5, 6, 7, 8] 128 = Inr out \<and> length out = 160 \<and>
     py_slice out 80 120 = replicate 32 7 @ [5, 6, 0, 0, 0, 0, 0, 0]"
proof -
  have b: "blocks_per_row 128 = Inr 1" by (simp add: blocks_per_row_def)
  have "int (length (replicate 128 (7 :: byte))) = 128" "int (length [1, 2, 3, 4, 5, 6, 7, 8 :: byte]) = 1 * 8" by simp_all
  from pack_acts_places_every_block [OF b this]
  obtain out where o: "pack_acts (replicate 128 7) [1, 2, 3, 4, 5, 6, 7, 8] 128 = Inr out"
      "acts_stream_nbytes 128 = Inr (int (length out))"
      "\<forall>i. 0 \<le> i \<and> i < 1 * 4 \<longrightarrow> py_slice out (i * 40) (i * 40 + 40) =
         py_slice (replicate 128 7) (i * 32) (i * 32 + 32) @
         py_slice [1, 2, 3, 4, 5, 6, 7, 8] (i * 2) (i * 2 + 2) @ replicate 6 0" by blast
  have "py_slice (replicate 128 7 :: byte list) 64 96 = replicate 32 7" by (simp add: py_slice_in)
  moreover have "py_slice [1, 2, 3, 4, 5, 6, 7, 8 :: byte] 4 6 = [5, 6]"
    by (simp add: two_bytes [of 4, simplified])
  moreover have "replicate 6 (0 :: byte) = [0, 0, 0, 0, 0, 0]" by (simp add: eval_nat_numeral)
  moreover note o(1,2) o(3) [rule_format, of 2]
  ultimately show ?thesis by (simp add: acts_stream_nbytes_def b)
qed

text \<open>The single-stream layout of \<open>merge_acts\<close> carries the same data as the two streams
  of the dual-stream layout: each Q1 block of each row block is the block's scales from the
  packed weights, then for each sub-block its 40 bytes of the activation stream and its 32 bytes
  of weight bits; its length is \<open>stream_nbytes\<close> for one column.\<close>

lemma merge_interleaves_streams:
  assumes b: "blocks_per_row k = Inr bpr" and rows: "0 \<le> rows"
    and len: "int (length packed) = rowblocks_for rows * bpr * 144" "int (length quants) = k" "int (length scales) = bpr * 8"
  shows "\<exists>out acts. merge_acts packed quants scales rows k = Inr out \<and> pack_acts quants scales k = Inr acts \<and>
    stream_nbytes rows k 1 = Inr (int (length out)) \<and>
    (\<forall>rb q1 sub. 0 \<le> rb \<and> rb < rowblocks_for rows \<and> 0 \<le> q1 \<and> q1 < bpr \<and> 0 \<le> sub \<and> sub < 4 \<longrightarrow>
      (let m = (rb * bpr + q1) * 304; p = (rb * bpr + q1) * 144; a = (q1 * 4 + sub) * 40 in
       py_slice out m (m + 16) = py_slice packed p (p + 16) \<and>
       py_slice out (m + (16 + sub * 72)) (m + (16 + sub * 72) + 40) = py_slice acts a (a + 40) \<and>
       py_slice out (m + (56 + sub * 72)) (m + (56 + sub * 72) + 32) =
         py_slice packed (p + 16 + sub * 32) (p + 16 + sub * 32 + 32)))"
proof -
  let ?rbs = "rowblocks_for rows" and ?out = "merged_stream packed quants scales (rowblocks_for rows) bpr"
  let ?acts = "acts_stream quants scales bpr"
  have k: "k = bpr * 128" using b by (auto simp: blocks_per_row_def split: if_splits)
  then have ok: "acts_ok quants scales bpr" and bp: "0 \<le> bpr" using len(2,3) by (auto simp: acts_ok_def)
  have rbs: "0 \<le> ?rbs" using rows by (simp add: rowblocks_for_def)
  have n: "stream_nbytes rows k 1 = Inr (int (length ?out))"
    using merge_acts_spec(2) [OF b rows len] b rbs bp by (simp add: stream_nbytes_def)
  have "(let m = (rb * bpr + q1) * 304; p = (rb * bpr + q1) * 144; a = (q1 * 4 + sub) * 40 in
       py_slice ?out m (m + 16) = py_slice packed p (p + 16) \<and>
       py_slice ?out (m + (16 + sub * 72)) (m + (16 + sub * 72) + 40) = py_slice ?acts a (a + 40) \<and>
       py_slice ?out (m + (56 + sub * 72)) (m + (56 + sub * 72) + 32) =
         py_slice packed (p + 16 + sub * 32) (p + 16 + sub * 32 + 32))"
    if i: "0 \<le> rb" "rb < ?rbs" "0 \<le> q1" "q1 < bpr" and s: "0 \<le> sub" "sub < 4" for rb q1 sub
  proof -
    note at = merged_block_at [OF ok i _ _ _ len(1)]
    have p: "0 \<le> (rb * bpr + q1) * 144" "(rb * bpr + q1) * 144 + 144 \<le> int (length packed)"
      using mult_right_mono [of "rb + 1" ?rbs bpr] i len(1) by (simp_all add: algebra_simps)
    note sl = merged_block_slices [OF ok i(3,4) p]
    have "py_slice ?acts ((q1 * 4 + sub) * 40) ((q1 * 4 + sub) * 40 + 40) = act_block quants scales (q1 * 4 + sub)"
      using act_block_at [OF ok i(3,4) s, of 0 40] length_act_block [OF ok, of "q1 * 4 + sub"] i s
        py_slice_all [of "act_block quants scales (q1 * 4 + sub)" 40] by simp
    then show ?thesis using at [of 0 16] at [of "16 + sub * 72" 40] at [of "56 + sub * 72" 32] sl s
      unfolding Let_def by simp
  qed
  then show ?thesis
    using n merge_acts_spec(1) [OF b rows len] pack_acts_spec [OF b len(2,3)] by blast
qed

lemma merge_interleaves_streams_witness:
  "\<exists>out. merge_acts (replicate 144 9) (replicate 128 7) (replicate 8 1) 8 128 = Inr out \<and> length out = 304 \<and>
     py_slice out 0 16 = replicate 16 9"
proof -
  have b: "blocks_per_row 128 = Inr 1" by (simp add: blocks_per_row_def)
  have r: "rowblocks_for 8 = 1" by (simp add: rowblocks_for_def)
  obtain out acts where o: "merge_acts (replicate 144 9) (replicate 128 7) (replicate 8 1) 8 128 = Inr out"
      "stream_nbytes 8 128 1 = Inr (int (length out))" "py_slice out 0 16 = py_slice (replicate 144 9) 0 16"
    using merge_interleaves_streams [OF b, of 8 "replicate 144 9" "replicate 128 7" "replicate 8 1"]
    by (simp add: r Let_def) (metis (no_types, lifting) add_0 less_numeral_extra(1) mult_zero_left order_refl zero_less_numeral)
  have "py_slice (replicate 144 9 :: byte list) 0 16 = replicate 16 9" by (simp add: py_slice_in min_def)
  with o show ?thesis by (simp add: stream_nbytes_def b r)
qed

end
