(* ===== verification/Slabs.thy ===== *)
theory Slabs
  imports Prelude
begin

text \<open>
  The DDR slabs of \<^verbatim>\<open>board/memory/slabs.py\<close>: \<open>FakeSlab\<close>, a \<open>bytearray\<close>, and
  \<open>PynqSlab\<close>, a CMA buffer of the PYNQ library seen through numpy's slice assignment.
  Both classes are one record here with a kind.  The cache maintenance that \<open>PynqSlab\<close>
  asks of the PYNQ library (flush, invalidate, release of the buffer) is not executed by
  the model, it is recorded as a trace of calls with the exact bounds the code passes.
  The interface that the allocator relies on is the locale \<open>byte_region\<close>, interpreted
  below for coherent and for incoherent accesses.
\<close>

section \<open>Slabs and cache operations\<close>

datatype slab_kind = FakeSlab | PynqSlab

datatype cache_op = Flush int int | Invalidate int int | FreeBuffer

record slab =
  kind :: slab_kind
  slab_size :: int
  physical_address :: int
  base_va :: "int option"
  buf :: "byte list"
  cache_ops :: "cache_op list"

definition MIB :: int where
  "MIB = 1024 * 1024"

definition CACHELINE :: int where
  "CACHELINE = 32"

text \<open>\<open>FakeSlab(size, physical_address)\<close>; a \<open>bytearray\<close> of negative size raises.\<close>

definition fake_slab :: "int \<Rightarrow> int \<Rightarrow> slab res" where
  "fake_slab sz addr =
     (if sz < 0 then Inl ValueError
      else Inr \<lparr>kind = FakeSlab, slab_size = sz, physical_address = addr, base_va = None,
                buf = replicate (nat sz) 0, cache_ops = []\<rparr>)"

text \<open>
  \<open>PynqSlab(size)\<close>: the buffer comes from \<open>pynq.allocate\<close>, a parameter that gives
  the physical address, the user-space address and the initial contents, or raises.
\<close>

type_synonym pynq_allocate = "nat \<Rightarrow> int \<Rightarrow> (int \<times> int \<times> byte list) res"

definition pynq_slab :: "pynq_allocate \<Rightarrow> nat \<Rightarrow> int \<Rightarrow> slab res" where
  "pynq_slab allocate n sz =
     bindR (allocate n sz) (\<lambda>(pa, va, cells).
       Inr \<lparr>kind = PynqSlab, slab_size = sz, physical_address = pa, base_va = Some va,
            buf = cells, cache_ops = []\<rparr>)"

definition cacheline_bounds :: "int \<Rightarrow> int \<Rightarrow> int \<Rightarrow> (int \<times> int) option" where
  "cacheline_bounds offset nbytes sz =
     (if nbytes \<le> 0 then None
      else let start = offset - offset mod CACHELINE;
               end0 = offset + nbytes;
               end1 = end0 + (- end0) mod CACHELINE;
               end2 = (if end1 > sz then sz else end1)
           in Some (start, end2))"

definition slab_flush :: "int \<Rightarrow> int \<Rightarrow> slab \<Rightarrow> slab" where
  "slab_flush offset nbytes s =
     (case cacheline_bounds offset nbytes (slab_size s) of
        None \<Rightarrow> s
      | Some (lo, hi) \<Rightarrow> s\<lparr>cache_ops := cache_ops s @ [Flush lo hi]\<rparr>)"

definition slab_invalidate :: "int \<Rightarrow> int \<Rightarrow> slab \<Rightarrow> slab" where
  "slab_invalidate offset nbytes s =
     (case cacheline_bounds offset nbytes (slab_size s) of
        None \<Rightarrow> s
      | Some (lo, hi) \<Rightarrow> s\<lparr>cache_ops := cache_ops s @ [Invalidate lo hi]\<rparr>)"

section \<open>The operations of the two classes\<close>

text \<open>
  numpy's \<open>a[lo:hi] = arr\<close> keeps the length of \<open>a\<close>: the shapes must agree, or the
  right-hand side has one element and is broadcast over the slice.
\<close>

definition numpy_assign :: "byte list \<Rightarrow> int \<Rightarrow> int \<Rightarrow> byte list \<Rightarrow> byte list res" where
  "numpy_assign cells lo hi arr =
     (let m = length (py_slice cells lo hi) in
      if m = length arr then Inr (slice_assign cells lo hi arr)
      else if length arr = 1 then Inr (slice_assign cells lo hi (replicate m (arr ! 0)))
      else Inl ValueError)"

definition fake_write :: "slab \<Rightarrow> int \<Rightarrow> byte list \<Rightarrow> slab" where
  "fake_write s offset data =
     s\<lparr>buf := slice_assign (buf s) offset (offset + int (length data)) data\<rparr>"

definition pynq_write :: "slab \<Rightarrow> int \<Rightarrow> byte list \<Rightarrow> bool \<Rightarrow> slab res" where
  "pynq_write s offset data coherent =
     bindR (numpy_assign (buf s) offset (offset + int (length data)) data) (\<lambda>cells.
       let s' = s\<lparr>buf := cells\<rparr>
       in Inr (if coherent then slab_flush offset (int (length data)) s' else s'))"

definition slab_write :: "slab \<Rightarrow> int \<Rightarrow> byte list \<Rightarrow> bool \<Rightarrow> slab res" where
  "slab_write s offset data coherent =
     (case kind s of
        FakeSlab \<Rightarrow> Inr (fake_write s offset data)
      | PynqSlab \<Rightarrow> pynq_write s offset data coherent)"

definition slab_read :: "slab \<Rightarrow> int \<Rightarrow> int \<Rightarrow> bool \<Rightarrow> byte list \<times> slab" where
  "slab_read s offset n coherent =
     (case kind s of
        FakeSlab \<Rightarrow> (py_slice (buf s) offset (offset + n), s)
      | PynqSlab \<Rightarrow>
          (let s' = (if coherent then slab_invalidate offset n s else s)
           in (py_slice (buf s') offset (offset + n), s')))"

definition slab_clear :: "slab \<Rightarrow> int \<Rightarrow> int \<Rightarrow> byte \<Rightarrow> slab" where
  "slab_clear s offset n v =
     (case kind s of
        FakeSlab \<Rightarrow> s\<lparr>buf := slice_assign (buf s) offset (offset + n) (replicate (nat n) v)\<rparr>
      | PynqSlab \<Rightarrow>
          slab_flush offset n
            (s\<lparr>buf := slice_assign (buf s) offset (offset + n)
                 (replicate (length (py_slice (buf s) offset (offset + n))) v)\<rparr>))"

definition slab_flush_range :: "slab \<Rightarrow> int \<Rightarrow> int \<Rightarrow> slab" where
  "slab_flush_range s offset n =
     (case kind s of FakeSlab \<Rightarrow> s | PynqSlab \<Rightarrow> slab_flush offset n s)"

definition slab_invalidate_range :: "slab \<Rightarrow> int \<Rightarrow> int \<Rightarrow> slab" where
  "slab_invalidate_range s offset n =
     (case kind s of FakeSlab \<Rightarrow> s | PynqSlab \<Rightarrow> slab_invalidate offset n s)"

definition slab_close :: "slab \<Rightarrow> slab" where
  "slab_close s =
     (case kind s of
        FakeSlab \<Rightarrow> s
      | PynqSlab \<Rightarrow> s\<lparr>cache_ops := cache_ops s @ [FreeBuffer]\<rparr>)"

section \<open>Slab pools\<close>

text \<open>
  The loops of \<open>fake_slabs\<close> and \<open>pynq_slabs\<close> run while \<open>remaining\<close> is not zero.
  Both functions have checked before that \<open>total_bytes\<close> and \<open>slab_bytes\<close> are
  positive, and then \<open>remaining\<close> never gets below zero; the guard of the model says so.
\<close>

function fake_slabs_loop :: "int \<Rightarrow> int \<Rightarrow> int \<Rightarrow> slab list res" where
  "fake_slabs_loop slab_bytes base_address remaining =
     (if 0 < remaining \<and> 0 < slab_bytes then
        (let sz = min slab_bytes remaining in
         bindR (fake_slab sz base_address) (\<lambda>s.
         bindR (fake_slabs_loop slab_bytes (base_address + (sz + 0x1000)) (remaining - sz))
           (\<lambda>ss. Inr (s # ss))))
      else Inr [])"
  by pat_completeness auto
termination
  by (relation "measure (\<lambda>(b, a, r). nat r)") auto

declare fake_slabs_loop.simps [simp del]

definition fake_slabs :: "int \<Rightarrow> int \<Rightarrow> slab list res" where
  "fake_slabs total_bytes slab_bytes =
     (if total_bytes \<le> 0 \<or> slab_bytes \<le> 0 then Inl ValueError
      else fake_slabs_loop slab_bytes 0x10000000 total_bytes)"

text \<open>
  \<open>pynq_slabs\<close> closes every slab it has made when a later one raises; the result is the
  list or the exception, and the slabs that were closed on the way out.
\<close>

function pynq_slabs_loop :: "pynq_allocate \<Rightarrow> int \<Rightarrow> slab list \<Rightarrow> int \<Rightarrow> slab list res \<times> slab list" where
  "pynq_slabs_loop allocate slab_bytes slabs remaining =
     (if 0 < remaining \<and> 0 < slab_bytes then
        (let sz = min slab_bytes remaining in
         case pynq_slab allocate (length slabs) sz of
           Inl e \<Rightarrow> (Inl e, map slab_close slabs)
         | Inr s \<Rightarrow> pynq_slabs_loop allocate slab_bytes (slabs @ [s]) (remaining - sz))
      else (Inr slabs, []))"
  by pat_completeness auto
termination
  by (relation "measure (\<lambda>(f, b, ss, r). nat r)") auto

declare pynq_slabs_loop.simps [simp del]

definition pynq_slabs :: "pynq_allocate \<Rightarrow> int \<Rightarrow> int \<Rightarrow> slab list res \<times> slab list" where
  "pynq_slabs allocate total_bytes slab_bytes =
     (if total_bytes \<le> 0 \<or> slab_bytes \<le> 0 then (Inl ValueError, [])
      else pynq_slabs_loop allocate slab_bytes [] total_bytes)"

section \<open>The contract of a slab\<close>

locale byte_region =
  fixes swrite :: "'s \<Rightarrow> int \<Rightarrow> byte list \<Rightarrow> 's res"
    and sread :: "'s \<Rightarrow> int \<Rightarrow> int \<Rightarrow> byte list \<times> 's"
    and cells :: "'s \<Rightarrow> byte list"
  assumes write_in: "0 \<le> off \<Longrightarrow> off + int (length d) \<le> int (length (cells s)) \<Longrightarrow>
      \<exists>s'. swrite s off d = Inr s' \<and> cells s' = slice_assign (cells s) off (off + int (length d)) d"
    and read_val: "fst (sread s off n) = py_slice (cells s) off (off + n)"
    and read_keeps: "cells (snd (sread s off n)) = cells s"
begin

lemma write_length:
  assumes "0 \<le> off" "off + int (length d) \<le> int (length (cells s))" "swrite s off d = Inr s'"
  shows "length (cells s') = length (cells s)"
proof -
  from write_in [OF assms(1,2)] assms(3)
  have "cells s' = slice_assign (cells s) off (off + int (length d)) d" by auto
  then show ?thesis using length_slice_assign [OF assms(1,2)] by simp
qed

lemma read_back:
  assumes "0 \<le> off" "off + int (length d) \<le> int (length (cells s))" "swrite s off d = Inr s'"
  shows "fst (sread s' off (int (length d))) = d"
proof -
  from write_in [OF assms(1,2)] assms(3)
  have "cells s' = slice_assign (cells s) off (off + int (length d)) d" by auto
  then show ?thesis using slice_assign_same [OF assms(1,2)] by (simp add: read_val)
qed

lemma read_other:
  assumes "0 \<le> off" "off + int (length d) \<le> int (length (cells s))" "swrite s off d = Inr s'"
    and "0 \<le> a" "0 \<le> n" "a + n \<le> int (length (cells s))"
    and "a + n \<le> off \<or> off + int (length d) \<le> a"
  shows "fst (sread s' a n) = fst (sread s a n)"
proof -
  from write_in [OF assms(1,2)] assms(3)
  have "cells s' = slice_assign (cells s) off (off + int (length d)) d" by auto
  then show ?thesis
    using slice_assign_disjoint [OF assms(1,2,4) _ assms(6,7)] assms(5) by (simp add: read_val)
qed

end

lemma slab_flush_fields [simp]:
  "buf (slab_flush o' n s) = buf s" "kind (slab_flush o' n s) = kind s"
  "slab_size (slab_flush o' n s) = slab_size s"
  "physical_address (slab_flush o' n s) = physical_address s"
  "base_va (slab_flush o' n s) = base_va s"
  by (auto simp: slab_flush_def split: option.splits)

lemma slab_invalidate_fields [simp]:
  "buf (slab_invalidate o' n s) = buf s" "kind (slab_invalidate o' n s) = kind s"
  "slab_size (slab_invalidate o' n s) = slab_size s"
  "physical_address (slab_invalidate o' n s) = physical_address s"
  "base_va (slab_invalidate o' n s) = base_va s"
  by (auto simp: slab_invalidate_def split: option.splits)

lemma numpy_assign_in:
  "0 \<le> off \<Longrightarrow> off + int (length d) \<le> int (length cs) \<Longrightarrow>
   numpy_assign cs off (off + int (length d)) d = Inr (slice_assign cs off (off + int (length d)) d)"
  by (simp add: numpy_assign_def py_slice_in)

lemma slab_write_in:
  assumes "0 \<le> off" "off + int (length d) \<le> int (length (buf s))"
  shows "\<exists>s'. slab_write s off d coherent = Inr s' \<and>
    buf s' = slice_assign (buf s) off (off + int (length d)) d \<and> kind s' = kind s \<and>
    slab_size s' = slab_size s \<and> physical_address s' = physical_address s \<and> base_va s' = base_va s"
  using assms
  by (cases "kind s")
     (simp_all add: slab_write_def fake_write_def pynq_write_def numpy_assign_in Let_def)

lemma slab_read_fields [simp]:
  "buf (snd (slab_read s off n c)) = buf s" "kind (snd (slab_read s off n c)) = kind s"
  "slab_size (snd (slab_read s off n c)) = slab_size s"
  "physical_address (snd (slab_read s off n c)) = physical_address s"
  "base_va (snd (slab_read s off n c)) = base_va s"
  by (auto simp: slab_read_def Let_def split: slab_kind.splits)

lemma slab_read_val: "fst (slab_read s off n c) = py_slice (buf s) off (off + n)"
  by (auto simp: slab_read_def Let_def split: slab_kind.splits)

interpretation coherent: byte_region
  "\<lambda>s off d. slab_write s off d True" "\<lambda>s off n. slab_read s off n True" buf
proof (unfold_locales, goal_cases)
  case (1 off d s)
  then show ?case using slab_write_in [of off d s True] by blast
next
  case (2 s off n)
  show ?case by (rule slab_read_val)
next
  case (3 s off n)
  show ?case by simp
qed

interpretation incoherent: byte_region
  "\<lambda>s off d. slab_write s off d False" "\<lambda>s off n. slab_read s off n False" buf
proof (unfold_locales, goal_cases)
  case (1 off d s)
  then show ?case using slab_write_in [of off d s False] by blast
next
  case (2 s off n)
  show ?case by (rule slab_read_val)
next
  case (3 s off n)
  show ?case by simp
qed

section \<open>Cache-line rounding\<close>

lemma round_up_32: "0 \<le> (- e) mod (32::int) \<and> (- e) mod 32 < 32 \<and> (e + (- e) mod 32) mod 32 = 0"
  by (simp add: mod_add_right_eq)

lemma cacheline_bounds_covers:
  assumes "0 < nbytes" "0 \<le> offset" "offset + nbytes \<le> sz"
  obtains lo hi where "cacheline_bounds offset nbytes sz = Some (lo, hi)"
    "0 \<le> lo" "lo \<le> offset" "offset < lo + CACHELINE" "lo mod CACHELINE = 0"
    "offset + nbytes \<le> hi" "hi \<le> sz" "hi < offset + nbytes + CACHELINE"
    "hi mod CACHELINE = 0 \<or> hi = sz"
proof
  let ?e = "offset + nbytes + (- (offset + nbytes)) mod 32"
  show "cacheline_bounds offset nbytes sz =
      Some (offset - offset mod CACHELINE, if ?e > sz then sz else ?e)"
    using assms(1) by (simp add: cacheline_bounds_def CACHELINE_def Let_def)
  show "0 \<le> offset - offset mod CACHELINE" "offset - offset mod CACHELINE \<le> offset"
    "offset < offset - offset mod CACHELINE + CACHELINE"
    using assms(2) by (simp_all add: CACHELINE_def zmod_le_nonneg_dividend)
  show "(offset - offset mod CACHELINE) mod CACHELINE = 0"
    by (simp add: minus_mod_eq_mult_div)
  show "offset + nbytes \<le> (if ?e > sz then sz else ?e)"
    using assms(3) round_up_32 [of "offset + nbytes"] by simp
  show "(if ?e > sz then sz else ?e) \<le> sz" by simp
  show "(if ?e > sz then sz else ?e) < offset + nbytes + CACHELINE"
    using round_up_32 [of "offset + nbytes"] by (auto simp: CACHELINE_def)
  show "(if ?e > sz then sz else ?e) mod CACHELINE = 0 \<or> (if ?e > sz then sz else ?e) = sz"
    using round_up_32 [of "offset + nbytes"] by (simp add: CACHELINE_def)
qed

section \<open>Pools: sizes and addresses\<close>

text \<open>A pool that starts at \<open>base\<close>: every slab lies past the end of the one before.\<close>

fun pool_from :: "int \<Rightarrow> slab list \<Rightarrow> bool" where
  "pool_from base [] = True"
| "pool_from base (s # ss) =
     (base \<le> physical_address s \<and> 0 < slab_size s \<and> int (length (buf s)) = slab_size s \<and>
      pool_from (physical_address s + slab_size s) ss)"

lemma fake_slabs_loop_spec:
  assumes "0 \<le> remaining" "0 < slab_bytes"
  shows "\<exists>ss. fake_slabs_loop slab_bytes base remaining = Inr ss \<and>
    sum_list (map slab_size ss) = remaining \<and> pool_from base ss \<and>
    (\<forall>s \<in> set ss. kind s = FakeSlab \<and> slab_size s \<le> slab_bytes \<and> base_va s = None)"
  using assms
proof (induction slab_bytes base remaining rule: fake_slabs_loop.induct)
  case (1 sb base r)
  note IH = this
  show ?case
  proof (cases "0 < r \<and> 0 < sb")
    case False
    with IH(2,3) have "r = 0" by simp
    then show ?thesis by (simp add: fake_slabs_loop.simps)
  next
    case True
    define sz where "sz = min sb r"
    from True have sz: "0 < sz" "sz \<le> r" "sz \<le> sb" by (auto simp: sz_def)
    then obtain s where s: "fake_slab sz base = Inr s" "slab_size s = sz"
        "physical_address s = base" "kind s = FakeSlab" "base_va s = None"
        "int (length (buf s)) = sz"
      by (simp add: fake_slab_def)
    have "\<exists>ss. fake_slabs_loop sb (base + (sz + 0x1000)) (r - sz) = Inr ss \<and>
      sum_list (map slab_size ss) = r - sz \<and> pool_from (base + (sz + 0x1000)) ss \<and>
      (\<forall>s \<in> set ss. kind s = FakeSlab \<and> slab_size s \<le> sb \<and> base_va s = None)"
      using IH(1) [OF True sz_def] sz True by simp
    then obtain ss where ss: "fake_slabs_loop sb (base + (sz + 0x1000)) (r - sz) = Inr ss"
        "sum_list (map slab_size ss) = r - sz" "pool_from (base + (sz + 0x1000)) ss"
        "\<forall>s \<in> set ss. kind s = FakeSlab \<and> slab_size s \<le> sb \<and> base_va s = None" by auto
    have "pool_from (base + sz) ss" using ss(3) sz by (cases ss) auto
    with True s ss sz show ?thesis
      by (simp add: fake_slabs_loop.simps [of sb base r] flip: sz_def)
  qed
qed

lemma slab_close_kind [simp]: "kind (slab_close s) = kind s"
  by (auto simp: slab_close_def split: slab_kind.splits)

lemma pynq_slab_kind: "pynq_slab allocate n sz = Inr s \<Longrightarrow> kind s = PynqSlab \<and> slab_size s = sz"
  by (auto simp: pynq_slab_def bindR_eq_Inr)

lemma pynq_slabs_loop_spec:
  assumes "0 \<le> remaining" "0 < slab_bytes" "\<forall>s \<in> set slabs. kind s = PynqSlab"
  shows "case pynq_slabs_loop allocate slab_bytes slabs remaining of
      (Inr ss, closed) \<Rightarrow> closed = [] \<and>
        sum_list (map slab_size ss) = sum_list (map slab_size slabs) + remaining \<and>
        (\<forall>s \<in> set ss. kind s = PynqSlab)
    | (Inl e, closed) \<Rightarrow> length slabs \<le> length closed \<and>
        (\<exists>sz. allocate (length closed) sz = Inl e) \<and>
        (\<forall>s \<in> set closed. kind s = PynqSlab \<and> last (cache_ops s) = FreeBuffer)"
  using assms
proof (induction allocate slab_bytes slabs remaining rule: pynq_slabs_loop.induct)
  case (1 f sb slabs r)
  note IH = this
  show ?case
  proof (cases "0 < r \<and> 0 < sb")
    case False
    with IH(2,3) have "r = 0" by simp
    with IH(4) show ?thesis by (simp add: pynq_slabs_loop.simps)
  next
    case True
    define sz where "sz = min sb r"
    show ?thesis
    proof (cases "pynq_slab f (length slabs) sz")
      case (Inl e)
      then have "f (length slabs) sz = Inl e"
        by (simp add: pynq_slab_def split: prod.splits) (cases "f (length slabs) sz"; auto)
      with True Inl IH(4) show ?thesis
        by (auto simp: pynq_slabs_loop.simps [of f sb slabs r] slab_close_def simp flip: sz_def)
    next
      case (Inr s)
      have "\<forall>s' \<in> set (slabs @ [s]). kind s' = PynqSlab"
        using IH(4) pynq_slab_kind [OF Inr] by auto
      moreover have "0 \<le> r - sz" by (simp add: sz_def)
      ultimately have "case pynq_slabs_loop f sb (slabs @ [s]) (r - sz) of
          (Inr ss, closed) \<Rightarrow> closed = [] \<and>
            sum_list (map slab_size ss) = sum_list (map slab_size (slabs @ [s])) + (r - sz) \<and>
            (\<forall>s \<in> set ss. kind s = PynqSlab)
        | (Inl e, closed) \<Rightarrow> length (slabs @ [s]) \<le> length closed \<and>
            (\<exists>sz. f (length closed) sz = Inl e) \<and>
            (\<forall>s \<in> set closed. kind s = PynqSlab \<and> last (cache_ops s) = FreeBuffer)"
        using IH(1) [OF True sz_def Inr] True by simp
      with True Inr pynq_slab_kind [OF Inr] show ?thesis
        by (auto simp: pynq_slabs_loop.simps [of f sb slabs r] simp flip: sz_def split: sum.splits prod.splits)
    qed
  qed
qed

end
