(* ===== verification/FreeList.thy ===== *)
theory FreeList
  imports Prelude
begin

text \<open>
  The free list of one slab: \<open>align_up\<close> and the list surgery of \<open>TensorAllocator._take\<close>,
  \<open>_take_largest\<close> and \<open>_release\<close> (\<^verbatim>\<open>board/memory/allocator.py\<close>).  A free list is a list
  of blocks (offset, size); the code keeps it sorted by offset and coalesced.  That normal
  form is \<open>canon\<close>, the bytes a list stands for are \<open>covers\<close>; every operation keeps the
  normal form and acts on the bytes as it should, and because normal forms are unique, two
  free lists with the same bytes are equal.
\<close>

type_synonym block = "int \<times> int"

section \<open>Operations\<close>

definition align_up :: "int \<Rightarrow> int \<Rightarrow> int res" where
  "align_up v alignment =
     (if alignment \<le> 0 then Inl ValueError
      else Inr ((v + alignment - 1) div alignment * alignment))"

text \<open>The inner loop of \<open>_place_single\<close>: the aligned start in the first block that fits.\<close>

fun fit_block :: "int \<Rightarrow> int \<Rightarrow> block list \<Rightarrow> int option res" where
  "fit_block nbytes alignment [] = Inr None"
| "fit_block nbytes alignment ((block_offset, block_size) # rest) =
     bindR (align_up block_offset alignment) (\<lambda>aligned.
       if aligned + nbytes \<le> block_offset + block_size then Inr (Some aligned)
       else fit_block nbytes alignment rest)"

text \<open>\<open>_take\<close>: split the first block that covers the range; \<open>None\<close> is the internal error.\<close>

fun take_range :: "int \<Rightarrow> int \<Rightarrow> block list \<Rightarrow> block list option" where
  "take_range offset nbytes [] = None"
| "take_range offset nbytes ((block_offset, block_size) # rest) =
     (let block_end = block_offset + block_size in
      if \<not> (block_offset \<le> offset \<and> offset + nbytes \<le> block_end)
      then map_option (Cons (block_offset, block_size)) (take_range offset nbytes rest)
      else let tail_offset = offset + nbytes in
        Some ((if offset > block_offset then [(block_offset, offset - block_offset)] else []) @
              (if tail_offset < block_end then [(tail_offset, block_end - tail_offset)] else []) @
              rest))"

text \<open>
  \<open>_take_largest\<close>: up to \<open>max_size\<close> bytes from the first block with aligned room.
  \<open>split_block\<close> is the body of its loop once a block has room.
\<close>

definition split_block :: "int \<Rightarrow> int \<Rightarrow> int \<Rightarrow> int \<Rightarrow> (int \<times> int) \<times> block list" where
  "split_block max_size offset sz aligned =
     (let padding = aligned - offset;
          available = sz - padding;
          tk = min max_size available;
          tail_offset = aligned + tk;
          tail_size = sz - padding - tk
      in ((aligned, tk),
          (if padding \<noteq> 0 then [(offset, padding)] else []) @
          (if tail_size \<noteq> 0 then [(tail_offset, tail_size)] else [])))"

fun take_largest :: "int \<Rightarrow> int \<Rightarrow> block list \<Rightarrow> ((int \<times> int) \<times> block list) option res" where
  "take_largest max_size alignment [] = Inr None"
| "take_largest max_size alignment ((offset, sz) # rest) =
     (case align_up offset alignment of
        Inl e \<Rightarrow> Inl e
      | Inr aligned \<Rightarrow>
          if sz - (aligned - offset) \<le> 0
          then (case take_largest max_size alignment rest of
                  Inl e \<Rightarrow> Inl e
                | Inr None \<Rightarrow> Inr None
                | Inr (Some (taken, rest')) \<Rightarrow> Inr (Some (taken, (offset, sz) # rest')))
          else (case split_block max_size offset sz aligned of
                  (taken, replacement) \<Rightarrow> Inr (Some (taken, replacement @ rest))))"

text \<open>
  \<open>_release\<close>: append, sort, coalesce.  The accumulator of the coalescing loop is
  \<open>merged\<close> with its last element first.
\<close>

definition merge_step :: "block list \<Rightarrow> block \<Rightarrow> block list" where
  "merge_step merged b =
     (case merged of
        [] \<Rightarrow> [b]
      | (prev_offset, prev_size) # before \<Rightarrow>
          (let (block_offset, block_size) = b; prev_end = prev_offset + prev_size in
           if block_offset \<le> prev_end
           then (prev_offset, max prev_end (block_offset + block_size) - prev_offset) # before
           else b # merged))"

definition release_range :: "int \<Rightarrow> int \<Rightarrow> block list \<Rightarrow> block list" where
  "release_range offset nbytes fl = rev (foldl merge_step [] (sort (fl @ [(offset, nbytes)])))"

section \<open>Normal form and meaning of a free list\<close>

definition range_of :: "block \<Rightarrow> int set" where
  "range_of b = {fst b..<fst b + snd b}"

definition covers :: "block list \<Rightarrow> int set" where
  "covers fl = (\<Union>b \<in> set fl. range_of b)"

definition block_sum :: "block list \<Rightarrow> int" where
  "block_sum fl = (\<Sum>b\<leftarrow>fl. snd b)"

text \<open>Sorted, with a gap between neighbours, no empty block, inside \<open>[lo, hi]\<close>.\<close>

fun canon :: "int \<Rightarrow> int \<Rightarrow> block list \<Rightarrow> bool" where
  "canon lo hi [] = True"
| "canon lo hi ((off, n) # fl) = (lo \<le> off \<and> 0 < n \<and> off + n \<le> hi \<and> canon (off + n + 1) hi fl)"

lemma covers_simps [simp]:
  "covers [] = {}"
  "covers (b # fl) = range_of b \<union> covers fl"
  "covers (fl @ gl) = covers fl \<union> covers gl"
  by (auto simp: covers_def)

lemma mem_range_of [simp]: "x \<in> range_of (off, n) \<longleftrightarrow> off \<le> x \<and> x < off + n"
  by (auto simp: range_of_def)

lemma canon_mono: "canon lo hi fl \<Longrightarrow> lo' \<le> lo \<Longrightarrow> canon lo' hi fl"
  by (cases fl) auto

lemma canon_covers: "canon lo hi fl \<Longrightarrow> x \<in> covers fl \<Longrightarrow> lo \<le> x \<and> x < hi"
proof (induction lo hi fl rule: canon.induct)
  case (2 lo hi off n fl)
  then show ?case by fastforce
qed simp

lemma canon_covers_subset: "canon lo hi fl \<Longrightarrow> covers fl \<subseteq> {lo..<hi}"
  using canon_covers by auto

lemma canon_member: "canon lo hi fl \<Longrightarrow> (off, n) \<in> set fl \<Longrightarrow> lo \<le> off \<and> 0 < n \<and> off + n \<le> hi"
  by (induction lo hi fl rule: canon.induct) fastforce+

text \<open>The normal form is unique: the first block is determined by the bytes.\<close>

lemma covers_first:
  assumes "canon lo hi ((off, n) # fl)" "covers ((off, n) # fl) = covers ((off', n') # fl')"
    "canon lo hi ((off', n') # fl')"
  shows "off \<le> off' \<and> (off = off' \<longrightarrow> n \<le> n')"
proof -
  have "off' \<in> covers ((off, n) # fl)" using assms(2,3) by auto
  with assms(1) have le: "off \<le> off'" using canon_covers [of "off + n + 1" hi fl off'] by auto
  have "n \<le> n'" if eq: "off = off'"
  proof (rule ccontr)
    assume "\<not> n \<le> n'"
    then have "off' + n' \<in> covers ((off, n) # fl)" using eq assms(3) by auto
    with assms(2) have "off' + n' \<in> covers fl'" by simp
    then show False using assms(3) canon_covers [of "off' + n' + 1" hi fl' "off' + n'"] by auto
  qed
  with le show ?thesis by simp
qed

lemma canon_unique:
  "canon lo hi fl \<Longrightarrow> canon lo hi fl' \<Longrightarrow> covers fl = covers fl' \<Longrightarrow> fl = fl'"
proof (induction lo hi fl arbitrary: fl' rule: canon.induct)
  case (1 lo hi)
  then show ?case by (cases fl') fastforce+
next
  case (2 lo hi off n fl)
  from "2.prems" obtain off' n' gl where fl': "fl' = (off', n') # gl"
    by (cases fl') fastforce+
  have "off \<le> off'" "off' \<le> off" and n: "off = off' \<Longrightarrow> n = n'"
    using covers_first [of lo hi off n fl off' n' gl] covers_first [of lo hi off' n' gl off n fl]
      "2.prems" fl' by auto
  then have eq: "off' = off" "n' = n" by auto
  have c: "canon (off + n + 1) hi fl" "canon (off + n + 1) hi gl" using "2.prems" fl' eq by auto
  have "x \<in> covers fl \<longleftrightarrow> x \<in> covers gl" for x
  proof -
    have "x \<in> covers ((off, n) # fl) \<longleftrightarrow> x \<in> covers ((off, n) # gl)"
      using "2.prems"(3) fl' eq by simp
    then show ?thesis
      using canon_covers [OF c(1), of x] canon_covers [OF c(2), of x] by auto
  qed
  then have "covers fl = covers gl" by blast
  with "2.IH" c have "fl = gl" by blast
  with eq fl' show ?case by simp
qed

text \<open>The sizes of the blocks add up to the number of bytes.\<close>

lemma finite_covers [simp]: "finite (covers fl)"
  by (auto simp: covers_def range_of_def)

lemma canon_card: "canon lo hi fl \<Longrightarrow> int (card (covers fl)) = block_sum fl"
proof (induction lo hi fl rule: canon.induct)
  case (2 lo hi off n fl)
  then have c: "canon (off + n + 1) hi fl" "0 < n" by auto
  have "range_of (off, n) \<inter> covers fl = {}"
    using canon_covers [OF c(1)] by fastforce
  then have "card (covers ((off, n) # fl)) = card (range_of (off, n)) + card (covers fl)"
    by (simp add: card_Un_disjoint range_of_def)
  with 2 c show ?case by (simp add: block_sum_def range_of_def)
qed (simp add: block_sum_def)

section \<open>Alignment\<close>

lemma align_up_Inr:
  assumes "align_up v a = Inr w"
  shows "0 < a" "v \<le> w" "w < v + a" "w mod a = 0"
proof -
  from assms have a: "0 < a" and w: "w = (v + a - 1) div a * a"
    by (auto simp: align_up_def split: if_splits)
  have "(v + a - 1) mod a < a" "0 \<le> (v + a - 1) mod a" using a by auto
  moreover have "v + a - 1 = w + (v + a - 1) mod a" using w by simp
  ultimately show "v \<le> w" "w < v + a" by linarith+
  show "0 < a" "w mod a = 0" using a w by auto
qed

lemma align_up_least:
  assumes "align_up v a = Inr w" "v \<le> u" "u mod a = 0"
  shows "w \<le> u"
proof -
  note w = align_up_Inr [OF assms(1)]
  from w(4) obtain k where k: "w = a * k" by auto
  from assms(3) obtain j where j: "u = a * j" by auto
  have "a * (k - 1) < a * j" using w(3) assms(2) k j by (simp add: algebra_simps)
  with w(1) have "k \<le> j" by simp
  with w(1) k j show ?thesis by simp
qed

lemma align_up_pos: "0 < a \<Longrightarrow> \<exists>w. align_up v a = Inr w"
  by (simp add: align_up_def)

section \<open>Taking\<close>

lemma fit_block_Some:
  assumes "fit_block nbytes alignment fl = Inr (Some aligned)"
  shows "\<exists>(off, n) \<in> set fl. align_up off alignment = Inr aligned \<and> aligned + nbytes \<le> off + n"
  using assms
  by (induction nbytes alignment fl rule: fit_block.induct)
     (auto simp: bindR_eq_Inr split: if_splits)

lemma fit_block_None:
  assumes "fit_block nbytes alignment fl = Inr None" "(off, n) \<in> set fl"
    "align_up off alignment = Inr aligned"
  shows "off + n < aligned + nbytes"
  using assms
  by (induction nbytes alignment fl rule: fit_block.induct)
     (auto simp: bindR_eq_Inr split: if_splits)

lemma take_range_exists:
  assumes "(bo, bs) \<in> set fl" "bo \<le> off" "off + n \<le> bo + bs"
  shows "\<exists>fl'. take_range off n fl = Some fl'"
  using assms by (induction off n fl rule: take_range.induct) (auto simp: Let_def)

lemma take_range_canon:
  assumes "canon lo hi fl" "0 < n" "take_range off n fl = Some fl'"
  shows "canon lo hi fl' \<and> range_of (off, n) \<subseteq> covers fl \<and> covers fl' = covers fl - range_of (off, n)"
  using assms
proof (induction off n fl arbitrary: lo fl' rule: take_range.induct)
  case (1 off n)
  then show ?case by simp
next
  case (2 off n bo bs rest)
  then have c: "lo \<le> bo" "0 < bs" "bo + bs \<le> hi" "canon (bo + bs + 1) hi rest" by auto
  note out = canon_covers [OF c(4)]
  show ?case
  proof (cases "bo \<le> off \<and> off + n \<le> bo + bs")
    case False
    with "2.prems" obtain r where r: "take_range off n rest = Some r" "fl' = (bo, bs) # r"
      by (auto simp: Let_def)
    have IH: "canon (bo + bs + 1) hi r" "range_of (off, n) \<subseteq> covers rest"
        "covers r = covers rest - range_of (off, n)"
      using "2.IH" [OF refl _ c(4) \<open>0 < n\<close> r(1)] False by auto
    have "range_of (bo, bs) \<inter> range_of (off, n) = {}"
      using IH(2) out by fastforce
    with IH c r show ?thesis by auto
  next
    case True
    with "2.prems"(3) have fl': "fl' =
        (if off > bo then [(bo, off - bo)] else []) @
        (if off + n < bo + bs then [(off + n, bo + bs - (off + n))] else []) @ rest"
      by (simp add: Let_def)
    have "canon (off + n) hi ((if off + n < bo + bs then [(off + n, bo + bs - (off + n))] else []) @ rest)"
      using c True by (auto intro: canon_mono)
    then have "canon lo hi fl'"
      unfolding fl' using c True \<open>0 < n\<close> by (auto intro: canon_mono)
    moreover have "covers fl' = covers ((bo, bs) # rest) - range_of (off, n)"
    proof (rule set_eqI)
      fix x show "x \<in> covers fl' \<longleftrightarrow> x \<in> covers ((bo, bs) # rest) - range_of (off, n)"
        using True out [of x] \<open>0 < n\<close> c(2) unfolding fl' by auto
    qed
    moreover have "range_of (off, n) \<subseteq> covers ((bo, bs) # rest)"
      using True by auto
    ultimately show ?thesis by blast
  qed
qed

text \<open>\<open>_take_largest\<close> takes a positive number of aligned bytes that were free.\<close>

lemma split_block_canon:
  assumes "0 < m" "align_up bo a = Inr al" "0 < bs - (al - bo)" "lo \<le> bo" "bo + bs \<le> hi"
    "canon (bo + bs + 1) hi rest" "split_block m bo bs al = ((off, n), repl)"
  shows "canon lo hi (repl @ rest) \<and> 0 < n \<and> n \<le> m \<and> off = al \<and> n \<le> bs - (al - bo) \<and>
    covers (repl @ rest) = covers ((bo, bs) # rest) - range_of (off, n)"
proof -
  note al = align_up_Inr [OF assms(2)] and out = canon_covers [OF assms(6)]
  from assms(7) have off: "off = al" and n: "n = min m (bs - (al - bo))"
    and repl: "repl = (if al - bo \<noteq> 0 then [(bo, al - bo)] else []) @
      (if bs - (al - bo) - n \<noteq> 0 then [(al + n, bs - (al - bo) - n)] else [])"
    by (auto simp: split_block_def Let_def)
  have n': "0 < n" "n \<le> m" "n \<le> bs - (al - bo)" using n assms(1,3) by auto
  have "canon (al + n) hi ((if bs - (al - bo) - n \<noteq> 0 then [(al + n, bs - (al - bo) - n)] else []) @ rest)"
    using assms(5,6) n' by (auto intro: canon_mono)
  then have "canon lo hi (repl @ rest)"
    unfolding repl using assms(4,5) al n' by (auto intro: canon_mono)
  moreover have "x \<in> covers (repl @ rest) \<longleftrightarrow> x \<in> covers ((bo, bs) # rest) - range_of (off, n)" for x
    using al n' out [of x] unfolding repl off by auto
  ultimately show ?thesis using n' off by blast
qed

lemma take_largest_canon:
  assumes "canon lo hi fl" "0 < m" "take_largest m a fl = Inr (Some ((off, n), fl'))"
  shows "canon lo hi fl' \<and> 0 < n \<and> n \<le> m \<and> off mod a = 0 \<and> range_of (off, n) \<subseteq> covers fl \<and>
    covers fl' = covers fl - range_of (off, n)"
  using assms
proof (induction m a fl arbitrary: lo fl' rule: take_largest.induct)
  case (1 m a)
  then show ?case by simp
next
  case (2 m a bo bs rest)
  then have c: "lo \<le> bo" "0 < bs" "bo + bs \<le> hi" "canon (bo + bs + 1) hi rest" by auto
  from "2.prems"(3) obtain al where al: "align_up bo a = Inr al"
    by (auto split: sum.splits)
  note al' = align_up_Inr [OF al]
  show ?case
  proof (cases "bs - (al - bo) \<le> 0")
    case True
    with "2.prems"(3) al obtain r where r: "take_largest m a rest = Inr (Some ((off, n), r))"
        "fl' = (bo, bs) # r"
      by (auto split: sum.splits option.splits)
    have IH: "canon (bo + bs + 1) hi r" "0 < n" "n \<le> m" "off mod a = 0"
        "range_of (off, n) \<subseteq> covers rest" "covers r = covers rest - range_of (off, n)"
      using "2.IH" [OF al True c(4) \<open>0 < m\<close> r(1)] by auto
    have "range_of (bo, bs) \<inter> range_of (off, n) = {}"
      using IH(5) canon_covers [OF c(4)] by fastforce
    with IH c r show ?thesis by auto
  next
    case False
    with "2.prems"(3) al obtain repl where s: "split_block m bo bs al = ((off, n), repl)"
        and fl': "fl' = repl @ rest"
      by (auto split: prod.splits)
    have pos: "0 < bs - (al - bo)" using False by simp
    note sb = split_block_canon [OF \<open>0 < m\<close> al pos c(1,3,4) s]
    have "off = al" "n \<le> bs - (al - bo)" using sb by blast+
    with al'(2) have "range_of (off, n) \<subseteq> range_of (bo, bs)" by auto
    then have "range_of (off, n) \<subseteq> covers ((bo, bs) # rest)" by auto
    moreover have "off mod a = 0" using sb al' by simp
    ultimately show ?thesis using sb fl' by blast
  qed
qed

section \<open>Releasing\<close>

text \<open>The coalescing loop as a recursion on the sorted list.\<close>

fun merge_blocks :: "block \<Rightarrow> block list \<Rightarrow> block list" where
  "merge_blocks p [] = [p]"
| "merge_blocks (po, ps) ((bo, bs) # rest) =
     (if bo \<le> po + ps then merge_blocks (po, max (po + ps) (bo + bs) - po) rest
      else (po, ps) # merge_blocks (bo, bs) rest)"

lemma foldl_merge_step:
  "rev (foldl merge_step (p # before) bs) = rev before @ merge_blocks p bs"
proof (induction p bs arbitrary: before rule: merge_blocks.induct)
  case (1 p)
  then show ?case by simp
next
  case (2 po ps bo bs rest)
  show ?case
  proof (cases "bo \<le> po + ps")
    case True
    then show ?thesis using "2.IH"(1) [OF True] by (simp add: merge_step_def Let_def)
  next
    case False
    then show ?thesis using "2.IH"(2) [OF False] by (simp add: merge_step_def Let_def)
  qed
qed

lemma foldl_merge_step_Nil: "rev (foldl merge_step [] (b # bs)) = merge_blocks b bs"
proof -
  have "merge_step [] b = [b]" by (simp add: merge_step_def)
  then show ?thesis using foldl_merge_step [of b "[]" bs] by simp
qed

lemma merge_blocks_canon:
  assumes "sorted ((po, ps) # bs)" "lo \<le> po" "0 < ps" "po + ps \<le> hi"
    "\<forall>(o', n) \<in> set bs. 0 < n \<and> o' + n \<le> hi"
  shows "canon lo hi (merge_blocks (po, ps) bs) \<and>
    covers (merge_blocks (po, ps) bs) = covers ((po, ps) # bs)"
  using assms
proof (induction "(po, ps)" bs arbitrary: po ps lo rule: merge_blocks.induct)
  case 1
  then show ?case by simp
next
  case (2 po ps bo bs rest)
  from "2.prems" have b: "0 < bs" "bo + bs \<le> hi" "po \<le> bo" by auto
  show ?case
  proof (cases "bo \<le> po + ps")
    case True
    let ?n = "max (po + ps) (bo + bs) - po"
    have "sorted ((po, ?n) # rest)"
      using "2.prems"(1) b by (auto simp: less_eq_prod_def) (fastforce+)?
    moreover have "0 < ?n" "po + ?n \<le> hi" using "2.prems" b by auto
    ultimately have "canon lo hi (merge_blocks (po, ?n) rest) \<and>
        covers (merge_blocks (po, ?n) rest) = covers ((po, ?n) # rest)"
      using "2.hyps"(1) [OF True] "2.prems" by auto
    moreover have "range_of (po, ?n) = range_of (po, ps) \<union> range_of (bo, bs)"
      using True b by auto
    ultimately show ?thesis using True by (auto simp: Un_assoc)
  next
    case False
    have "canon (po + ps + 1) hi (merge_blocks (bo, bs) rest) \<and>
        covers (merge_blocks (bo, bs) rest) = covers ((bo, bs) # rest)"
      using "2.hyps"(2) [OF False, of "po + ps + 1"] "2.prems" b False by auto
    with False "2.prems" show ?thesis by auto
  qed
qed

lemma release_range_canon:
  assumes "canon lo hi fl" "lo \<le> off" "0 < n" "off + n \<le> hi"
  shows "canon lo hi (release_range off n fl) \<and>
    covers (release_range off n fl) = covers fl \<union> range_of (off, n)"
proof -
  let ?l = "fl @ [(off, n)]"
  obtain p ps where s: "sort ?l = p # ps" by (cases "sort ?l") (auto dest: arg_cong [where f = length])
  have set: "set (p # ps) = set ?l" using s by (metis set_sort)
  have all: "\<forall>(o', k) \<in> set (p # ps). lo \<le> o' \<and> 0 < k \<and> o' + k \<le> hi"
    using set assms canon_member [OF assms(1)] by auto
  obtain po pn where p: "p = (po, pn)" by (cases p)
  have "sorted ((po, pn) # ps)" using s p by (metis sorted_sort)
  then have "canon lo hi (merge_blocks (po, pn) ps) \<and>
      covers (merge_blocks (po, pn) ps) = covers ((po, pn) # ps)"
    using all p by (intro merge_blocks_canon) auto
  moreover have "covers ((po, pn) # ps) = covers ?l"
    using set p unfolding covers_def by simp
  moreover have "release_range off n fl = merge_blocks (po, pn) ps"
    unfolding release_range_def s p by (rule foldl_merge_step_Nil)
  ultimately show ?thesis by simp
qed

text \<open>Taking a range and giving it back restores the very same list.\<close>

lemma release_take_range:
  assumes "canon lo hi fl" "0 < n" "take_range off n fl = Some fl'"
  shows "release_range off n fl' = fl"
proof -
  note t = take_range_canon [OF assms]
  have "off \<in> covers fl" "off + n - 1 \<in> covers fl" using t \<open>0 < n\<close> by auto
  then have b: "lo \<le> off" "off + n \<le> hi" using canon_covers [OF assms(1)] by fastforce+
  from t b assms(2) have r: "canon lo hi (release_range off n fl')"
    "covers (release_range off n fl') = covers fl' \<union> range_of (off, n)"
    using release_range_canon [of lo hi fl' off n] by auto
  have "covers (release_range off n fl') = covers fl" using r t by auto
  with r assms(1) show ?thesis by (intro canon_unique)
qed

end
