(* ===== verification/PyJson.thy ===== *)
theory PyJson
  imports Prelude
begin

text \<open>
  JSON values as \<open>json.loads\<close> hands them to the daemon, and the Python conversions the
  source applies to them: \<open>int\<close>, \<open>float\<close>, \<open>bool\<close>, \<open>str\<close>, \<open>dict.get\<close>.
  A float is its IEEE 754 binary64 bit pattern, so that truncation, comparison with zero and
  the conversion from an integer are exact.  Strings are ASCII.  What the model does not
  define of the interpreter is the record \<open>pyenv\<close>, an argument of the definitions that
  use it: the \<open>repr\<close> of floats and containers, the parser of float literals, the text of
  an exception and the two clocks.
\<close>

datatype json =
    JNull
  | JBool bool
  | JInt int
  | JFloat "64 word"
  | JStr string
  | JList "json list"
  | JObj "(string \<times> json) list"

type_synonym dict = "(string \<times> json) list"

record pyenv =
  env_repr :: "json \<Rightarrow> string"
  env_strtod :: "string \<Rightarrow> 64 word option"
  env_exc_text :: "pyerror \<Rightarrow> string"
  env_perf_ns :: "nat \<Rightarrow> int"
  env_time_ns :: "nat \<Rightarrow> int"

section \<open>Integers\<close>

text \<open>\<open>int(x)\<close> of a float: towards zero; infinities and NaN raise.\<close>

definition float_trunc :: "64 word \<Rightarrow> int res" where
  "float_trunc w =
     (let e = uint (take_bit 11 (drop_bit 52 w));
          m = uint (take_bit 52 w);
          mant = (if e = 0 then m else m + 2 ^ 52);
          ex = (if e = 0 then 1 else e) - 1075;
          mag = (if 0 \<le> ex then mant * 2 ^ nat ex else mant div 2 ^ nat (- ex))
      in if e = 2047 then (if m = 0 then Inl OverflowError else Inl ValueError)
         else Inr (if bit w 63 then - mag else mag))"

definition is_space :: "char \<Rightarrow> bool" where
  "is_space c \<longleftrightarrow> (let n = (of_char c :: nat) in n = 32 \<or> 9 \<le> n \<and> n \<le> 13 \<or> 28 \<le> n \<and> n \<le> 31)"

definition digit_of :: "char \<Rightarrow> int option" where
  "digit_of c = (let n = (of_char c :: nat) in if 48 \<le> n \<and> n \<le> 57 then Some (int n - 48) else None)"

text \<open>Digits, with single underscores between them; \<open>after\<close>: the last character was a digit.\<close>

fun parse_digits :: "int \<Rightarrow> bool \<Rightarrow> string \<Rightarrow> int option" where
  "parse_digits acc after [] = (if after then Some acc else None)"
| "parse_digits acc after (c # cs) =
     (case digit_of c of
        Some d \<Rightarrow> parse_digits (acc * 10 + d) True cs
      | None \<Rightarrow> if c = CHR ''_'' \<and> after then parse_digits acc False cs else None)"

definition strip :: "string \<Rightarrow> string" where
  "strip s = rev (dropWhile is_space (rev (dropWhile is_space s)))"

definition parse_int :: "string \<Rightarrow> int res" where
  "parse_int s =
     (case (case strip s of
              [] \<Rightarrow> None
            | c # cs \<Rightarrow> if c = CHR ''-'' then map_option uminus (parse_digits 0 False cs)
                       else if c = CHR ''+'' then parse_digits 0 False cs
                       else parse_digits 0 False (c # cs)) of
        None \<Rightarrow> Inl ValueError
      | Some v \<Rightarrow> Inr v)"

fun py_int :: "json \<Rightarrow> int res" where
  "py_int (JInt i) = Inr i"
| "py_int (JBool b) = Inr (if b then 1 else 0)"
| "py_int (JFloat w) = float_trunc w"
| "py_int (JStr s) = parse_int s"
| "py_int _ = Inl TypeError"

section \<open>Floats\<close>

fun bit_length_nat :: "nat \<Rightarrow> nat" where
  "bit_length_nat n = (if n = 0 then 0 else Suc (bit_length_nat (n div 2)))"

declare bit_length_nat.simps [simp del]

text \<open>\<open>float(n)\<close> of an integer: round to nearest, ties to even; too large raises.\<close>

definition float_of_int :: "int \<Rightarrow> 64 word res" where
  "float_of_int n =
     (let a = nat \<bar>n\<bar>; l = bit_length_nat a in
      if a = 0 then Inr 0
      else
        let (q, ex) =
          (if l \<le> 53 then (a * 2 ^ (53 - l), l - 1)
           else let sh = l - 53; q0 = a div 2 ^ sh; r = a mod 2 ^ sh; half = 2 ^ (sh - 1);
                    q1 = (if half < r \<or> r = half \<and> odd q0 then q0 + 1 else q0)
                in if q1 = 2 ^ 53 then (2 ^ 52, l) else (q1, l - 1))
        in if 1023 < ex then Inl OverflowError
           else Inr (word_of_int ((if n < 0 then 2 ^ 63 else 0) + (int ex + 1023) * 2 ^ 52
                       + (int q - 2 ^ 52))))"

fun py_float :: "pyenv \<Rightarrow> json \<Rightarrow> 64 word res" where
  "py_float env (JFloat w) = Inr w"
| "py_float env (JInt i) = float_of_int i"
| "py_float env (JBool b) = float_of_int (if b then 1 else 0)"
| "py_float env (JStr s) = (case env_strtod env s of None \<Rightarrow> Inl ValueError | Some w \<Rightarrow> Inr w)"
| "py_float env _ = Inl TypeError"

text \<open>\<open>x == 0.0\<close>: all bits but the sign are zero.\<close>

definition float_is_zero :: "64 word \<Rightarrow> bool" where
  "float_is_zero w \<longleftrightarrow> take_bit 63 w = 0"

section \<open>Truth values, strings, dictionaries\<close>

fun py_bool :: "json \<Rightarrow> bool" where
  "py_bool JNull = False"
| "py_bool (JBool b) = b"
| "py_bool (JInt i) = (i \<noteq> 0)"
| "py_bool (JFloat w) = (\<not> float_is_zero w)"
| "py_bool (JStr s) = (s \<noteq> [])"
| "py_bool (JList l) = (l \<noteq> [])"
| "py_bool (JObj d) = (d \<noteq> [])"

fun show_nat :: "nat \<Rightarrow> string" where
  "show_nat n = (if n < 10 then [char_of (48 + n)] else show_nat (n div 10) @ [char_of (48 + n mod 10)])"

declare show_nat.simps [simp del]

definition show_int :: "int \<Rightarrow> string" where
  "show_int i = (if i < 0 then CHR ''-'' # show_nat (nat (- i)) else show_nat (nat i))"

fun py_str :: "pyenv \<Rightarrow> json \<Rightarrow> string" where
  "py_str env (JStr s) = s"
| "py_str env (JInt i) = show_int i"
| "py_str env JNull = ''None''"
| "py_str env (JBool b) = (if b then ''True'' else ''False'')"
| "py_str env j = env_repr env j"

text \<open>\<open>d[k]\<close> raises \<open>KeyError\<close>; \<open>d.get(k, default)\<close> does not.\<close>

definition obj_index :: "dict \<Rightarrow> string \<Rightarrow> json res" where
  "obj_index d k = (case map_of d k of None \<Rightarrow> Inl KeyError | Some v \<Rightarrow> Inr v)"

definition obj_get :: "dict \<Rightarrow> string \<Rightarrow> json \<Rightarrow> json" where
  "obj_get d k v = (case map_of d k of None \<Rightarrow> v | Some w \<Rightarrow> w)"

text \<open>\<open>d[k] = v\<close>, and a dict display with \<open>**rest\<close>: later items replace earlier ones in place.\<close>

definition obj_set :: "string \<Rightarrow> json \<Rightarrow> dict \<Rightarrow> dict" where
  "obj_set k v d = AList.update k v d"

definition obj_merge :: "dict \<Rightarrow> dict \<Rightarrow> dict" where
  "obj_merge d rest = fold (\<lambda>(k, v). obj_set k v) rest d"

lemma map_of_obj_set: "map_of (obj_set k v d) = (map_of d)(k \<mapsto> v)"
  by (simp add: obj_set_def update_conv')

lemma map_of_obj_merge: "map_of (obj_merge d rest) = map_of d ++ map_of (rev rest)"
  by (induction rest arbitrary: d) (auto simp: obj_merge_def map_of_obj_set map_add_def fun_eq_iff split: option.splits)

lemma map_of_rev_None: "map_of (rev l) k = None \<longleftrightarrow> map_of l k = None"
  by (simp add: map_of_eq_None_iff)

text \<open>
  The three readers of an integer field that the daemon's modules define, each of them in
  several copies: a required field, an optional one, a positive one.
\<close>

definition required_int :: "dict \<Rightarrow> string \<Rightarrow> int res" where
  "required_int d k =
     (case map_of d k of
        None \<Rightarrow> Inl (AllocatorError ''invalid_request'')
      | Some v \<Rightarrow> bindR (py_int v) (\<lambda>i.
          if i < 0 then Inl (AllocatorError ''invalid_request'') else Inr i))"

definition optional_int :: "dict \<Rightarrow> string \<Rightarrow> int \<Rightarrow> int res" where
  "optional_int d k dflt =
     (case map_of d k of
        None \<Rightarrow> Inr dflt
      | Some v \<Rightarrow> bindR (py_int v) (\<lambda>i.
          if i < 0 then Inl (AllocatorError ''invalid_request'') else Inr i))"

definition positive_int :: "dict \<Rightarrow> string \<Rightarrow> int res" where
  "positive_int d k =
     bindR (required_int d k) (\<lambda>i.
       if i \<le> 0 then Inl (AllocatorError ''invalid_request'') else Inr i)"

lemma required_int_nonneg: "required_int d k = Inr i \<Longrightarrow> 0 \<le> i"
  by (auto simp: required_int_def bindR_eq_Inr split: option.splits if_splits)

lemma optional_int_nonneg: "optional_int d k v = Inr i \<Longrightarrow> 0 \<le> v \<Longrightarrow> 0 \<le> i"
  by (auto simp: optional_int_def bindR_eq_Inr split: option.splits if_splits)

lemma positive_int_pos: "positive_int d k = Inr i \<Longrightarrow> 0 < i"
  by (auto simp: positive_int_def bindR_eq_Inr split: if_splits)

section \<open>Decimal numerals read back\<close>

lemma digit_of_char: "d < 10 \<Longrightarrow> digit_of (char_of (48 + d :: nat)) = Some (int d)"
  by (simp add: digit_of_def)

lemma parse_digits_append:
  "parse_digits acc after (show_nat n @ cs) = parse_digits (acc * 10 ^ length (show_nat n) + int n) True cs"
proof (induction n arbitrary: acc after cs rule: show_nat.induct)
  case (1 n)
  show ?case
  proof (cases "n < 10")
    case True
    then show ?thesis by (simp add: show_nat.simps [of n] digit_of_char)
  next
    case False
    have "n mod 10 < 10" by simp
    then have d: "digit_of (char_of (48 + n mod 10)) = Some (int (n mod 10))" by (rule digit_of_char)
    have "int n = int (n div 10) * 10 + int (n mod 10)" by presburger
    with False d "1.IH" [OF False] show ?thesis
      by (simp add: show_nat.simps [of n] algebra_simps)
  qed
qed

end
