(* ===== verification/Allocator.thy ===== *)
theory Allocator
  imports Slabs FreeList PyJson
begin

text \<open>
  The tensor allocator of \<^verbatim>\<open>board/memory/allocator.py\<close>: its records, one definition per
  method, and the properties of the free-list surgery lifted to the whole allocator.  A
  method that mutates the allocator returns its result or exception together with the
  allocator it leaves behind.  Handles and byte counts are Python integers; the index of a
  slab, which stands for the slab object, is a natural number.
\<close>

section \<open>State\<close>

record extent =
  ext_slab :: nat
  ext_offset :: int
  ext_nbytes :: int

record tensor_record =
  tr_handle :: int
  tr_nbytes :: int
  tr_shape :: "int list"
  tr_dtype :: string
  tr_usage :: string
  tr_layout :: string
  tr_extents :: "extent list"

record allocator =
  al_slabs :: "slab list"
  al_free :: "block list list"
  al_records :: "(int \<times> tensor_record) list"
  al_next_handle :: int
  al_default_alignment :: int

abbreviation ERR_invalid :: pyerror where
  "ERR_invalid \<equiv> AllocatorError ''invalid_request''"

abbreviation ERR_bounds :: pyerror where
  "ERR_bounds \<equiv> AllocatorError ''out_of_bounds''"

abbreviation ERR_memory :: pyerror where
  "ERR_memory \<equiv> AllocatorError ''out_of_memory''"

abbreviation ERR_unknown :: pyerror where
  "ERR_unknown \<equiv> AllocatorError ''unknown_tensor''"

abbreviation ERR_multi :: pyerror where
  "ERR_multi \<equiv> AllocatorError ''multi_extent''"

abbreviation ERR_intern :: pyerror where
  "ERR_intern \<equiv> AllocatorError ''internal_error''"

definition is_contiguous :: "tensor_record \<Rightarrow> bool" where
  "is_contiguous r \<longleftrightarrow> length (tr_extents r) \<le> 1"

definition new_allocator :: "slab list \<Rightarrow> int \<Rightarrow> allocator res" where
  "new_allocator slabs default_alignment =
     (if slabs = [] then Inl ValueError
      else Inr \<lparr>al_slabs = slabs, al_free = map (\<lambda>s. [(0, slab_size s)]) slabs,
                al_records = [], al_next_handle = 1,
                al_default_alignment = default_alignment\<rparr>)"

section \<open>Accounting\<close>

definition total_bytes :: "allocator \<Rightarrow> int" where
  "total_bytes a = (\<Sum>s\<leftarrow>al_slabs a. slab_size s)"

definition free_bytes :: "allocator \<Rightarrow> int" where
  "free_bytes a = (\<Sum>fl\<leftarrow>al_free a. \<Sum>b\<leftarrow>fl. snd b)"

definition used_bytes :: "allocator \<Rightarrow> int" where
  "used_bytes a = total_bytes a - free_bytes a"

definition memory_info :: "allocator \<Rightarrow> dict" where
  "memory_info a =
     [(''total_bytes'', JInt (total_bytes a)),
      (''free_bytes'', JInt (free_bytes a)),
      (''used_bytes'', JInt (used_bytes a)),
      (''slab_count'', JInt (int (length (al_slabs a)))),
      (''tensor_count'', JInt (int (length (al_records a))))]"

section \<open>Placement\<close>

definition set_free :: "nat \<Rightarrow> block list \<Rightarrow> allocator \<Rightarrow> allocator" where
  "set_free i fl a = a\<lparr>al_free := (al_free a)[i := fl]\<rparr>"

definition alloc_take :: "nat \<Rightarrow> int \<Rightarrow> int \<Rightarrow> (allocator, unit) py" where
  "alloc_take slab_index offset nbytes a =
     (case take_range offset nbytes (al_free a ! slab_index) of
        None \<Rightarrow> (Inl ERR_intern, a)
      | Some fl \<Rightarrow> (Inr (), set_free slab_index fl a))"

fun fit_slab :: "int \<Rightarrow> int \<Rightarrow> nat \<Rightarrow> block list list \<Rightarrow> (nat \<times> int) option res" where
  "fit_slab nbytes alignment i [] = Inr None"
| "fit_slab nbytes alignment i (slab_free # rest) =
     (case fit_block nbytes alignment slab_free of
        Inl e \<Rightarrow> Inl e
      | Inr (Some aligned) \<Rightarrow> Inr (Some (i, aligned))
      | Inr None \<Rightarrow> fit_slab nbytes alignment (Suc i) rest)"

definition place_single :: "int \<Rightarrow> int \<Rightarrow> (allocator, extent list option) py" where
  "place_single nbytes alignment a =
     (case fit_slab nbytes alignment 0 (al_free a) of
        Inl e \<Rightarrow> (Inl e, a)
      | Inr None \<Rightarrow> (Inr None, a)
      | Inr (Some (i, aligned)) \<Rightarrow>
          (case alloc_take i aligned nbytes a of
             (Inl e, a') \<Rightarrow> (Inl e, a')
           | (Inr _, a') \<Rightarrow>
               (Inr (Some [\<lparr>ext_slab = i, ext_offset = aligned, ext_nbytes = nbytes\<rparr>]), a')))"

definition alloc_release :: "nat \<Rightarrow> int \<Rightarrow> int \<Rightarrow> allocator \<Rightarrow> allocator" where
  "alloc_release i offset nbytes a = set_free i (release_range offset nbytes (al_free a ! i)) a"

definition release_all :: "extent list \<Rightarrow> allocator \<Rightarrow> allocator" where
  "release_all es a = fold (\<lambda>e. alloc_release (ext_slab e) (ext_offset e) (ext_nbytes e)) es a"

text \<open>
  The two loops of \<open>_place_multi\<close>.  The inner one stops because every round takes a
  positive number of bytes.
\<close>

lemma take_largest_positive:
  "take_largest m a fl = Inr (Some ((off, n), fl')) \<Longrightarrow> 0 < m \<Longrightarrow> 0 < n"
  by (induction m a fl arbitrary: fl' rule: take_largest.induct)
     (auto simp: split_block_def Let_def split: sum.splits option.splits prod.splits if_splits)

function fill_slab :: "nat \<Rightarrow> int \<Rightarrow> extent list \<Rightarrow> int \<Rightarrow> block list \<Rightarrow> (extent list \<times> int) res \<times> block list" where
  "fill_slab i alignment extents remaining fl =
     (if 0 < remaining then
        (case take_largest remaining alignment fl of
           Inl e \<Rightarrow> (Inl e, fl)
         | Inr None \<Rightarrow> (Inr (extents, remaining), fl)
         | Inr (Some ((offset, count), fl')) \<Rightarrow>
             fill_slab i alignment
               (extents @ [\<lparr>ext_slab = i, ext_offset = offset, ext_nbytes = count\<rparr>])
               (remaining - count) fl')
      else (Inr (extents, remaining), fl))"
  by pat_completeness auto
termination
  by (relation "measure (\<lambda>(i, a, es, r, fl). nat r)") (auto dest: take_largest_positive)

declare fill_slab.simps [simp del]

fun fill_slabs :: "nat \<Rightarrow> int \<Rightarrow> extent list \<Rightarrow> int \<Rightarrow> block list list \<Rightarrow> (extent list \<times> int) res \<times> block list list" where
  "fill_slabs i alignment extents remaining [] = (Inr (extents, remaining), [])"
| "fill_slabs i alignment extents remaining (fl # fls) =
     (case fill_slab i alignment extents remaining fl of
        (Inl e, fl') \<Rightarrow> (Inl e, fl' # fls)
      | (Inr (extents', remaining'), fl') \<Rightarrow>
          if remaining' = 0 then (Inr (extents', 0), fl' # fls)
          else (case fill_slabs (Suc i) alignment extents' remaining' fls of
                  (r, fls') \<Rightarrow> (r, fl' # fls')))"

definition place_multi :: "int \<Rightarrow> int \<Rightarrow> (allocator, extent list option) py" where
  "place_multi nbytes alignment a =
     (case fill_slabs 0 alignment [] nbytes (al_free a) of
        (Inl e, fls) \<Rightarrow> (Inl e, a\<lparr>al_free := fls\<rparr>)
      | (Inr (extents, remaining), fls) \<Rightarrow>
          if remaining \<noteq> 0 then (Inr None, release_all extents (a\<lparr>al_free := fls\<rparr>))
          else (Inr (Some extents), a\<lparr>al_free := fls\<rparr>))"

section \<open>The public methods\<close>

text \<open>
  \<open>_place_single(...) or _place_multi(...)\<close>: the tuple that \<open>_place_single\<close> returns has
  one element and is true; \<open>alignment or default\<close> replaces a missing or zero alignment.
\<close>

definition place :: "int \<Rightarrow> int \<Rightarrow> (allocator, extent list option) py" where
  "place nbytes alignment =
     py_bind (place_single nbytes alignment) (\<lambda>placed.
       case placed of
         Some es \<Rightarrow> if es \<noteq> [] then py_ret (Some es) else place_multi nbytes alignment
       | None \<Rightarrow> place_multi nbytes alignment)"

definition add_record :: "int \<Rightarrow> int list \<Rightarrow> string \<Rightarrow> string \<Rightarrow> string \<Rightarrow> extent list \<Rightarrow> (allocator, tensor_record) py" where
  "add_record nbytes shape dtype usage layout extents a =
     (let h = al_next_handle a;
          r = \<lparr>tr_handle = h, tr_nbytes = nbytes, tr_shape = shape, tr_dtype = dtype,
               tr_usage = usage, tr_layout = layout, tr_extents = extents\<rparr>
      in (Inr r, a\<lparr>al_next_handle := h + 1, al_records := AList.update h r (al_records a)\<rparr>))"

definition allocate :: "int \<Rightarrow> int list \<Rightarrow> string \<Rightarrow> string \<Rightarrow> string \<Rightarrow> int option \<Rightarrow> (allocator, tensor_record) py" where
  "allocate nbytes shape dtype usage layout alignment a =
     (if nbytes < 0 then (Inl ERR_invalid, a)
      else
        let align = (case alignment of None \<Rightarrow> al_default_alignment a
                     | Some v \<Rightarrow> if v = 0 then al_default_alignment a else v) in
        if nbytes = 0 then add_record nbytes shape dtype usage layout [] a
        else (case place nbytes align a of
                (Inl e, a') \<Rightarrow> (Inl e, a')
              | (Inr None, a') \<Rightarrow> (Inl ERR_memory, a')
              | (Inr (Some extents), a') \<Rightarrow> add_record nbytes shape dtype usage layout extents a'))"

definition get_record :: "allocator \<Rightarrow> int \<Rightarrow> tensor_record res" where
  "get_record a h = (case map_of (al_records a) h of None \<Rightarrow> Inl ERR_unknown | Some r \<Rightarrow> Inr r)"

definition free_tensor :: "int \<Rightarrow> (allocator, tensor_record) py" where
  "free_tensor h a =
     (case get_record a h of
        Inl e \<Rightarrow> (Inl e, a)
      | Inr r \<Rightarrow> (Inr r, release_all (tr_extents r) (a\<lparr>al_records := AList.delete h (al_records a)\<rparr>)))"

definition validate_range :: "allocator \<Rightarrow> int \<Rightarrow> int \<Rightarrow> int \<Rightarrow> unit res" where
  "validate_range a h offset n =
     bindR (get_record a h) (\<lambda>r.
       if offset < 0 then Inl ERR_invalid
       else if n < 0 then Inl ERR_invalid
       else if offset + n > tr_nbytes r then Inl ERR_bounds
       else Inr ())"

fun walk_extents :: "int \<Rightarrow> int \<Rightarrow> int \<Rightarrow> extent list \<Rightarrow> (extent \<times> int \<times> int) list" where
  "walk_extents cursor offset remaining [] = []"
| "walk_extents cursor offset remaining (e # es) =
     (if offset \<ge> cursor + ext_nbytes e
      then walk_extents (cursor + ext_nbytes e) offset remaining es
      else
        let local_offset = max 0 (offset - cursor);
            count = min remaining (ext_nbytes e - local_offset)
        in if count \<le> 0
           then walk_extents (cursor + ext_nbytes e) offset remaining es
           else (e, local_offset, count) #
                (if remaining - count = 0 then []
                 else walk_extents (cursor + ext_nbytes e) (offset + count) (remaining - count) es))"

definition set_slab :: "nat \<Rightarrow> slab \<Rightarrow> allocator \<Rightarrow> allocator" where
  "set_slab i s a = a\<lparr>al_slabs := (al_slabs a)[i := s]\<rparr>"

fun write_pieces :: "bool \<Rightarrow> byte list \<Rightarrow> (extent \<times> int \<times> int) list \<Rightarrow> (allocator, unit) py" where
  "write_pieces coherent view [] a = (Inr (), a)"
| "write_pieces coherent view ((e, local_offset, count) # rest) a =
     (case slab_write (al_slabs a ! ext_slab e) (ext_offset e + local_offset)
             (take (nat count) view) coherent of
        Inl err \<Rightarrow> (Inl err, a)
      | Inr s \<Rightarrow> write_pieces coherent (drop (nat count) view) rest (set_slab (ext_slab e) s a))"

definition write_tensor :: "int \<Rightarrow> int \<Rightarrow> byte list \<Rightarrow> bool \<Rightarrow> (allocator, unit) py" where
  "write_tensor h offset data coherent a =
     (case validate_range a h offset (int (length data)) of
        Inl e \<Rightarrow> (Inl e, a)
      | Inr _ \<Rightarrow>
          (case get_record a h of
             Inl e \<Rightarrow> (Inl e, a)
           | Inr r \<Rightarrow> write_pieces coherent data
               (walk_extents 0 offset (int (length data)) (tr_extents r)) a))"

fun read_pieces :: "bool \<Rightarrow> (extent \<times> int \<times> int) list \<Rightarrow> allocator \<Rightarrow> byte list \<times> allocator" where
  "read_pieces coherent [] a = ([], a)"
| "read_pieces coherent ((e, local_offset, count) # rest) a =
     (case slab_read (al_slabs a ! ext_slab e) (ext_offset e + local_offset) count coherent of
        (part, s) \<Rightarrow>
          (case read_pieces coherent rest (set_slab (ext_slab e) s a) of
             (parts, a') \<Rightarrow> (part @ parts, a')))"

definition read_tensor :: "int \<Rightarrow> int \<Rightarrow> int \<Rightarrow> bool \<Rightarrow> (allocator, byte list) py" where
  "read_tensor h offset n coherent a =
     (case validate_range a h offset n of
        Inl e \<Rightarrow> (Inl e, a)
      | Inr _ \<Rightarrow>
          (case get_record a h of
             Inl e \<Rightarrow> (Inl e, a)
           | Inr r \<Rightarrow>
               (case read_pieces coherent (walk_extents 0 offset n (tr_extents r)) a of
                  (bs, a') \<Rightarrow> (Inr bs, a'))))"

definition describe_record :: "tensor_record \<Rightarrow> dict" where
  "describe_record r =
     [(''handle'', JInt (tr_handle r)), (''nbytes'', JInt (tr_nbytes r)),
      (''shape'', JList (map JInt (tr_shape r))), (''dtype'', JStr (tr_dtype r)),
      (''usage'', JStr (tr_usage r)), (''layout'', JStr (tr_layout r)),
      (''extent_count'', JInt (int (length (tr_extents r))))]"

definition describe :: "allocator \<Rightarrow> int \<Rightarrow> dict res" where
  "describe a h = bindR (get_record a h) (\<lambda>r. Inr (describe_record r))"

definition tensor_extents :: "allocator \<Rightarrow> int \<Rightarrow> extent list res" where
  "tensor_extents a h = bindR (get_record a h) (\<lambda>r. Inr (tr_extents r))"

text \<open>The loops of \<open>slab_view\<close> and \<open>physical\<close> over the extents.\<close>

fun view_extents :: "int \<Rightarrow> int \<Rightarrow> int \<Rightarrow> extent list \<Rightarrow> (nat \<times> int \<times> int) res" where
  "view_extents cursor offset n [] = Inl ERR_intern"
| "view_extents cursor offset n (e # es) =
     (if offset \<ge> cursor + ext_nbytes e then view_extents (cursor + ext_nbytes e) offset n es
      else if offset - cursor + n > ext_nbytes e then Inl ERR_multi
      else Inr (ext_slab e, ext_offset e + (offset - cursor), n))"

definition slab_view :: "allocator \<Rightarrow> int \<Rightarrow> int \<Rightarrow> int \<Rightarrow> (nat \<times> int \<times> int) res" where
  "slab_view a h offset n =
     bindR (get_record a h) (\<lambda>r.
       if offset < 0 \<or> n < 0 then Inl ERR_invalid
       else if offset + n > tr_nbytes r then Inl ERR_bounds
       else view_extents 0 offset n (tr_extents r))"

definition slab_pointer :: "allocator \<Rightarrow> int \<Rightarrow> int \<Rightarrow> int \<Rightarrow> int res" where
  "slab_pointer a h offset n =
     bindR (slab_view a h offset n) (\<lambda>(i, abs_offset, _).
       case base_va (al_slabs a ! i) of
         None \<Rightarrow> Inl ERR_invalid
       | Some base \<Rightarrow> Inr (base + abs_offset))"

fun phys_extents :: "slab list \<Rightarrow> int \<Rightarrow> int \<Rightarrow> extent list \<Rightarrow> int" where
  "phys_extents slabs position offset [] = 0"
| "phys_extents slabs position offset (e # es) =
     (if offset < position + ext_nbytes e
      then physical_address (slabs ! ext_slab e) + ext_offset e + (offset - position)
      else phys_extents slabs (position + ext_nbytes e) offset es)"

definition physical :: "allocator \<Rightarrow> int \<Rightarrow> int \<Rightarrow> int res" where
  "physical a h offset =
     bindR (get_record a h) (\<lambda>r.
       if offset < 0 \<or> offset > tr_nbytes r then Inl ERR_bounds
       else Inr (phys_extents (al_slabs a) 0 offset (tr_extents r)))"

definition close_allocator :: "allocator \<Rightarrow> allocator" where
  "close_allocator a = a\<lparr>al_slabs := map slab_close (al_slabs a)\<rparr>"

definition fake_allocator :: "int \<Rightarrow> int \<Rightarrow> allocator res" where
  "fake_allocator heap_bytes slab_bytes = bindR (fake_slabs heap_bytes slab_bytes) (\<lambda>ss. new_allocator ss 64)"

definition pynq_allocator :: "pynq_allocate \<Rightarrow> int \<Rightarrow> int \<Rightarrow> allocator res \<times> slab list" where
  "pynq_allocator alloc heap_bytes slab_bytes =
     (case pynq_slabs alloc heap_bytes slab_bytes of
        (Inl e, closed) \<Rightarrow> (Inl e, closed)
      | (Inr ss, closed) \<Rightarrow> (new_allocator ss 64, closed))"

end
