(* ===== verification/Timer.thy ===== *)
theory Timer
  imports Allocator
begin

text \<open>
  The span recorder and the event log of \<^verbatim>\<open>board/profiling\<close> (\<open>timer.py\<close>, \<open>events.py\<close>),
  and the world in which kernels run: the allocator, the timer of the graph, the clocks, the
  event sink and the state of the device.  A context manager of Python is a function of the
  computation in its \<open>with\<close> block.  Spans are values: the span in progress is the current
  one, and an enclosing span waits in the context manager until the inner one has ended.
\<close>

section \<open>State\<close>

record op_span =
  sp_op :: string
  sp_index :: int
  sp_fields :: "(string \<times> int) list"
  sp_sections :: "(string \<times> int) list"
  sp_total_us :: int

record timer =
  tm_ops :: "op_span list"
  tm_current :: "op_span option"
  tm_graph_us :: int
  tm_req_id :: json
  tm_profile :: bool
  tm_bytes_read :: int
  tm_bytes_written :: int

record 'd world =
  w_alloc :: allocator
  w_timer :: timer
  w_ticks :: nat
  w_sink :: bool
  w_log :: "dict list"
  w_dev :: 'd

definition int_fields :: "(string \<times> int) list \<Rightarrow> dict" where
  "int_fields fs = map (\<lambda>(k, v). (k, JInt v)) fs"

definition span_to_dict :: "op_span \<Rightarrow> dict" where
  "span_to_dict sp =
     obj_merge (obj_merge [(''op'', JStr (sp_op sp)), (''index'', JInt (sp_index sp)), (''total_us'', JInt (sp_total_us sp))]
       (int_fields (sp_sections sp))) (int_fields (sp_fields sp))"

section \<open>Clock and events\<close>

definition perf_counter_ns :: "pyenv \<Rightarrow> ('d world, int) py" where
  "perf_counter_ns env w = (Inr (env_perf_ns env (w_ticks w)), w\<lparr>w_ticks := Suc (w_ticks w)\<rparr>)"

definition us_since :: "pyenv \<Rightarrow> int \<Rightarrow> ('d world, int) py" where
  "us_since env start_ns = py_bind (perf_counter_ns env) (\<lambda>now. py_ret (max 0 ((now - start_ns) div 1000)))"

text \<open>
  \<open>events.emit(kind, **fields)\<close>, with the kind \<open>ev\<close>: a keyword given twice is a \<open>TypeError\<close> of the call.
  The sink receives one JSON line per record; the log is the list of the records.
\<close>

definition emit :: "pyenv \<Rightarrow> string \<Rightarrow> dict \<Rightarrow> ('d world, unit) py" where
  "emit env ev flds w =
     (if \<not> distinct (''kind'' # map fst flds) then (Inl TypeError, w)
      else if \<not> w_sink w then (Inr (), w)
      else (Inr (), w\<lparr>w_log := w_log w @
        [obj_merge [(''t_us'', JInt (env_time_ns env (length (w_log w)) div 1000)), (''side'', JStr ''board''),
                    (''kind'', JStr ev)] flds]\<rparr>))"

section \<open>The timer\<close>

definition new_timer :: "json \<Rightarrow> bool \<Rightarrow> timer" where
  "new_timer req_id profile =
     \<lparr>tm_ops = [], tm_current = None, tm_graph_us = 0, tm_req_id = req_id, tm_profile = profile,
      tm_bytes_read = 0, tm_bytes_written = 0\<rparr>"

definition upd_timer :: "(timer \<Rightarrow> timer) \<Rightarrow> ('d world, unit) py" where
  "upd_timer f = py_mod (\<lambda>w. w\<lparr>w_timer := f (w_timer w)\<rparr>)"

definition op_end :: "pyenv \<Rightarrow> op_span \<Rightarrow> op_span option \<Rightarrow> int \<Rightarrow> ('d world, unit) py" where
  "op_end env span previous start_ns =
     py_bind (us_since env start_ns) (\<lambda>us.
     py_bind (py_get w_timer) (\<lambda>t.
     let sp = (case tm_current t of Some s \<Rightarrow> s | None \<Rightarrow> span)\<lparr>sp_total_us := us\<rparr> in
     py_then (upd_timer (\<lambda>t. t\<lparr>tm_ops := tm_ops t @ [sp], tm_current := previous\<rparr>))
       (emit env ''op_end''
          ([(''req_id'', tm_req_id t), (''op'', JStr (sp_op sp)), (''index'', JInt (sp_index sp)),
            (''total_us'', JInt us)] @ int_fields (sp_sections sp) @ int_fields (sp_fields sp)))))"

definition op_profiled :: "pyenv \<Rightarrow> string \<Rightarrow> (string \<times> int) list \<Rightarrow> ('d world, 'a) py \<Rightarrow> ('d world, 'a) py" where
  "op_profiled env name flds0 body =
     (let flds = AList.delete ''index'' flds0 in
      py_bind (py_get w_timer) (\<lambda>t.
      let span = \<lparr>sp_op = name, sp_index = int (length (tm_ops t)), sp_fields = flds, sp_sections = [], sp_total_us = 0\<rparr>;
          previous = tm_current t in
      py_then (upd_timer (\<lambda>t. t\<lparr>tm_current := Some span\<rparr>))
        (py_then (emit env ''op_begin''
            ([(''req_id'', tm_req_id t), (''op'', JStr name), (''index'', JInt (sp_index span))] @ int_fields flds))
          (py_bind (perf_counter_ns env) (\<lambda>start_ns.
             py_finally body (op_end env span previous start_ns))))))"

definition timer_op :: "pyenv \<Rightarrow> string \<Rightarrow> (string \<times> int) list \<Rightarrow> ('d world, 'a) py \<Rightarrow> ('d world, 'a) py" where
  "timer_op env name flds body =
     py_bind (py_get w_timer) (\<lambda>t. if tm_profile t then op_profiled env name flds body else body)"

definition section_end :: "pyenv \<Rightarrow> string \<Rightarrow> int \<Rightarrow> ('d world, unit) py" where
  "section_end env name start_ns =
     py_bind (us_since env start_ns) (\<lambda>elapsed.
       upd_timer (\<lambda>t. case tm_current t of
           None \<Rightarrow> t\<lparr>tm_graph_us := tm_graph_us t + elapsed\<rparr>
         | Some sp \<Rightarrow>
             (let key = name @ ''_us'';
                  old = (case map_of (sp_sections sp) key of None \<Rightarrow> 0 | Some v \<Rightarrow> v)
              in t\<lparr>tm_current := Some (sp\<lparr>sp_sections := AList.update key (old + elapsed) (sp_sections sp)\<rparr>)\<rparr>)))"

definition section_profiled :: "pyenv \<Rightarrow> string \<Rightarrow> ('d world, 'a) py \<Rightarrow> ('d world, 'a) py" where
  "section_profiled env name body =
     py_bind (perf_counter_ns env) (\<lambda>start_ns. py_finally body (section_end env name start_ns))"

definition timer_section :: "pyenv \<Rightarrow> string \<Rightarrow> ('d world, 'a) py \<Rightarrow> ('d world, 'a) py" where
  "timer_section env name body =
     py_bind (py_get w_timer) (\<lambda>t. if \<not> tm_profile t then body else section_profiled env name body)"

definition add_field :: "string \<Rightarrow> int \<Rightarrow> timer \<Rightarrow> timer" where
  "add_field key v t =
     (let t1 = (if key = ''bytes_read'' then t\<lparr>tm_bytes_read := tm_bytes_read t + v\<rparr>
                else if key = ''bytes_written'' then t\<lparr>tm_bytes_written := tm_bytes_written t + v\<rparr>
                else t)
      in case tm_current t1 of
           None \<Rightarrow> t1
         | Some sp \<Rightarrow>
             (let existing = (case map_of (sp_fields sp) key of None \<Rightarrow> 0 | Some x \<Rightarrow> x)
              in t1\<lparr>tm_current := Some (sp\<lparr>sp_fields := AList.update key (existing + v) (sp_fields sp)\<rparr>)\<rparr>))"

definition timer_add :: "string \<Rightarrow> int \<Rightarrow> ('d world, unit) py" where
  "timer_add key v = upd_timer (add_field key v)"

definition timer_summary :: "timer \<Rightarrow> dict \<Rightarrow> dict" where
  "timer_summary t counters =
     [(''graph_us'', JInt (tm_graph_us t)), (''counters'', JObj counters),
      (''ops'', JList (map (\<lambda>sp. JObj (span_to_dict sp)) (tm_ops t)))]"

section \<open>Configuration of the sink\<close>

text \<open>
  \<open>_Emitter._configure\<close>: the value of \<open>PYNQ_PROFILE\<close> chooses the sink.  Opening a file is a
  parameter; when it fails the sink is standard error.
\<close>

datatype sink = Stderr | Logfile string

definition lower_char :: "char \<Rightarrow> char" where
  "lower_char c = (let n = (of_char c :: nat) in if 65 \<le> n \<and> n \<le> 90 then char_of (n + 32) else c)"

definition configure_sink :: "(string \<Rightarrow> bool) \<Rightarrow> string option \<Rightarrow> sink option \<times> bool" where
  "configure_sink can_open env_value =
     (case env_value of
        None \<Rightarrow> (None, False)
      | Some v \<Rightarrow>
          if v = [] \<or> map lower_char v \<in> set [''0'', ''false'', ''no'', ''off''] then (None, False)
          else if v = ''1'' then (Some Stderr, False)
          else if can_open v then (Some (Logfile v), True)
          else (Some Stderr, False))"

section \<open>Profiling does not change the results\<close>

text \<open>
  Two worlds that agree on everything but the profiling: the flag, the spans, the clock, the
  log.  A computation is agnostic of profiling when it maps related worlds to related worlds
  with the same outcome.  The keywords of the \<open>op_end\<close> event must not clash, which is a
  condition on the names that kernels give to their fields and sections.
\<close>

definition reserved_keys :: "string list" where
  "reserved_keys = [''kind'', ''req_id'', ''op'', ''index'', ''total_us'']"

definition us_suffix :: "string \<Rightarrow> bool" where
  "us_suffix k \<longleftrightarrow> (case rev k of a # b # c # _ \<Rightarrow> a = CHR ''s'' \<and> b = CHR ''u'' \<and> c = CHR ''_'' | _ \<Rightarrow> False)"

definition field_key :: "string \<Rightarrow> bool" where
  "field_key k \<longleftrightarrow> k \<notin> set reserved_keys \<and> \<not> us_suffix k"

definition akeys :: "('k \<times> 'v) list \<Rightarrow> 'k set" where
  "akeys al = fst ` set al"

definition span_ok :: "op_span \<Rightarrow> bool" where
  "span_ok sp \<longleftrightarrow> distinct (map fst (sp_sections sp)) \<and> distinct (map fst (sp_fields sp)) \<and>
     (\<forall>k \<in> akeys (sp_sections sp). us_suffix k \<and> k \<noteq> ''total_us'') \<and>
     (\<forall>k \<in> akeys (sp_fields sp). field_key k)"

definition timer_ok :: "timer \<Rightarrow> bool" where
  "timer_ok t \<longleftrightarrow> (\<forall>sp. tm_current t = Some sp \<longrightarrow> span_ok sp)"

definition prof_sim :: "'d world \<Rightarrow> 'd world \<Rightarrow> bool" where
  "prof_sim w v \<longleftrightarrow> w_alloc w = w_alloc v \<and> w_dev w = w_dev v \<and>
     tm_bytes_read (w_timer w) = tm_bytes_read (w_timer v) \<and>
     tm_bytes_written (w_timer w) = tm_bytes_written (w_timer v) \<and>
     timer_ok (w_timer w) \<and> timer_ok (w_timer v)"

definition prof_agnostic :: "('d world, 'a) py \<Rightarrow> bool" where
  "prof_agnostic m \<longleftrightarrow> (\<forall>w v. prof_sim w v \<longrightarrow> fst (m w) = fst (m v) \<and> prof_sim (snd (m w)) (snd (m v)))"

named_theorems agnostic \<open>computations that are agnostic of profiling\<close>

lemma prof_agnosticD:
  assumes "prof_agnostic m" "prof_sim w v" "m w = (r, w')"
  obtains v' where "m v = (r, v')" "prof_sim w' v'"
  using assms unfolding prof_agnostic_def by (metis fst_conv snd_conv prod.collapse)

lemma prof_agnosticI:
  assumes "\<And>w v r w'. prof_sim w v \<Longrightarrow> m w = (r, w') \<Longrightarrow> \<exists>v'. m v = (r, v') \<and> prof_sim w' v'"
  shows "prof_agnostic m"
  unfolding prof_agnostic_def using assms by (metis fst_conv snd_conv prod.collapse)

lemma agnostic_pure [agnostic]:
  "prof_agnostic (py_ret x)" "prof_agnostic (py_raise e)" "prof_agnostic (py_lift r)"
  by (simp_all add: prof_agnostic_def)

lemma agnostic_bind [agnostic]:
  assumes "prof_agnostic m" "\<And>x. prof_agnostic (f x)"
  shows "prof_agnostic (py_bind m f)"
proof (rule prof_agnosticI)
  fix w v r w' assume sim: "prof_sim w v" and run: "py_bind m f w = (r, w')"
  obtain r1 w1 where m: "m w = (r1, w1)" by (cases "m w")
  from assms(1) sim m obtain v1 where v1: "m v = (r1, v1)" "prof_sim w1 v1" by (rule prof_agnosticD)
  show "\<exists>v'. py_bind m f v = (r, v') \<and> prof_sim w' v'"
  proof (cases r1)
    case (Inl e)
    with run m v1 show ?thesis by (simp add: py_bind_run)
  next
    case (Inr x)
    with run m have "f x w1 = (r, w')" by (simp add: py_bind_run)
    with assms(2) v1(2) obtain v' where "f x v1 = (r, v')" "prof_sim w' v'" by (rule prof_agnosticD)
    with Inr v1(1) show ?thesis by (simp add: py_bind_run)
  qed
qed

lemma agnostic_then [agnostic]: "prof_agnostic m \<Longrightarrow> prof_agnostic n \<Longrightarrow> prof_agnostic (py_then m n)"
  unfolding py_then_def by (rule agnostic_bind)

lemma agnostic_for [agnostic]:
  "(\<And>x. x \<in> set xs \<Longrightarrow> prof_agnostic (f x)) \<Longrightarrow> prof_agnostic (py_for xs f)"
  by (induction xs) (auto intro: agnostic)

lemma agnostic_when [agnostic]: "prof_agnostic m \<Longrightarrow> prof_agnostic (py_when b m)"
  by (auto simp: py_when_def intro: agnostic)

lemma prof_sim_refl: "timer_ok (w_timer w) \<Longrightarrow> prof_sim w w"
  by (simp add: prof_sim_def)

lemma prof_sim_sym: "prof_sim w v \<Longrightarrow> prof_sim v w"
  by (auto simp: prof_sim_def)

lemma prof_sim_trans: "prof_sim u w \<Longrightarrow> prof_sim w v \<Longrightarrow> prof_sim u v"
  by (auto simp: prof_sim_def)

text \<open>Steps of the profiler on one side only keep the worlds related.\<close>

definition prof_silent :: "('d world, 'a) py \<Rightarrow> bool" where
  "prof_silent m \<longleftrightarrow> (\<forall>w. timer_ok (w_timer w) \<longrightarrow> (\<exists>x. fst (m w) = Inr x) \<and> prof_sim (snd (m w)) w)"

lemma prof_silentD:
  assumes "prof_silent m" "timer_ok (w_timer w)"
  obtains x w' where "m w = (Inr x, w')" "prof_sim w' w"
  using assms unfolding prof_silent_def by (metis prod.collapse)

lemma silent_perf: "prof_silent (perf_counter_ns env)"
  by (simp add: prof_silent_def perf_counter_ns_def prof_sim_def)

lemma silent_us_since: "prof_silent (us_since env n)"
  by (simp add: prof_silent_def us_since_def perf_counter_ns_def prof_sim_def py_simps)

lemma silent_emit: "distinct (''kind'' # map fst flds) \<Longrightarrow> prof_silent (emit env ev flds)"
  by (simp add: prof_silent_def emit_def prof_sim_def)

lemma map_fst_int_fields [simp]: "map fst (int_fields fs) = map fst fs"
  by (induction fs) (auto simp: int_fields_def)

lemma span_ok_keys:
  assumes "span_ok sp"
  shows "distinct (reserved_keys @ map fst (sp_sections sp) @ map fst (sp_fields sp))"
proof -
  have r: "k \<notin> set reserved_keys" if "us_suffix k" "k \<noteq> ''total_us''" for k
    using that by (auto simp: reserved_keys_def us_suffix_def)
  have "set reserved_keys \<inter> akeys (sp_sections sp) = {}" using assms r by (auto simp: span_ok_def)
  moreover have "set reserved_keys \<inter> akeys (sp_fields sp) = {}" "akeys (sp_sections sp) \<inter> akeys (sp_fields sp) = {}"
    using assms by (auto simp: span_ok_def field_key_def)
  moreover have "distinct reserved_keys" by (simp add: reserved_keys_def)
  ultimately show ?thesis using assms by (auto simp: span_ok_def akeys_def)
qed

lemma distinct_update: "distinct (map fst al) \<Longrightarrow> distinct (map fst (AList.update k v al))"
  by (rule AList.distinct_update)

lemma akeys_update: "akeys (AList.update k v al) = insert k (akeys al)"
  using AList.dom_update [of k v al] by (simp add: akeys_def)

lemma add_field_ok: "field_key key \<Longrightarrow> timer_ok t \<Longrightarrow> timer_ok (add_field key v t)"
  by (auto simp: timer_ok_def add_field_def Let_def span_ok_def distinct_update akeys_update split: option.splits)

lemma add_field_counters:
  "tm_bytes_read (add_field key v t) = tm_bytes_read t + (if key = ''bytes_read'' then v else 0)"
  "tm_bytes_written (add_field key v t) = tm_bytes_written t + (if key = ''bytes_written'' then v else 0)"
  by (auto simp: add_field_def Let_def split: option.splits)

lemma agnostic_add [agnostic]: "field_key key \<Longrightarrow> prof_agnostic (timer_add key v)"
  by (auto simp: prof_agnostic_def timer_add_def upd_timer_def prof_sim_def add_field_ok add_field_counters)

lemma us_suffix_append: "us_suffix (name @ ''_us'')"
  by (simp add: us_suffix_def)

lemma silent_section_end:
  assumes "name \<noteq> ''total''"
  shows "prof_silent (section_end env name start)"
proof -
  have "name @ ''_us'' \<noteq> ''total_us''"
    using assms append_same_eq [of name "''_us''" "''total''"] by simp
  then show ?thesis
    by (auto simp: prof_silent_def section_end_def us_since_def perf_counter_ns_def upd_timer_def py_simps prof_sim_def
        timer_ok_def span_ok_def Let_def distinct_update akeys_update us_suffix_append split: option.splits)
qed

lemma agnostic_section_body:
  assumes b: "prof_agnostic body" and n: "name \<noteq> ''total''" and sim: "prof_sim w v" and run: "body v = (r, v')"
  shows "\<exists>w'. section_profiled env name body w = (r, w') \<and> prof_sim w' v'"
proof -
  have ok: "timer_ok (w_timer w)" using sim by (simp add: prof_sim_def)
  from prof_silentD [OF silent_perf ok] obtain s w1 where p: "perf_counter_ns env w = (Inr s, w1)" "prof_sim w1 w" .
  have "prof_sim v w1" using p(2) sim prof_sim_sym prof_sim_trans by blast
  from prof_agnosticD [OF b this run] obtain w2 where w2: "body w1 = (r, w2)" "prof_sim v' w2" .
  then have "timer_ok (w_timer w2)" by (simp add: prof_sim_def)
  from prof_silentD [OF silent_section_end [OF n] this] obtain x w3 where
    "section_end env name s w2 = (Inr x, w3)" "prof_sim w3 w2" .
  with p w2 show ?thesis using prof_sim_sym prof_sim_trans
    by (fastforce simp: section_profiled_def py_simps)
qed

lemma agnostic_section [agnostic]:
  assumes "prof_agnostic body" "name \<noteq> ''total''"
  shows "prof_agnostic (timer_section env name body)"
proof (rule prof_agnosticI)
  fix w v r w' assume sim: "prof_sim w v" and run: "timer_section env name body w = (r, w')"
  obtain rv v1 where bv: "body v = (rv, v1)" by (cases "body v")
  from prof_agnosticD [OF assms(1) prof_sim_sym [OF sim] bv] obtain w1 where bw: "body w = (rv, w1)" "prof_sim v1 w1" .
  from agnostic_section_body [OF assms sim bv] obtain w2 where w2: "section_profiled env name body w = (rv, w2)" "prof_sim w2 v1" by blast
  from agnostic_section_body [OF assms prof_sim_refl bv] sim obtain v2 where
    v2: "section_profiled env name body v = (rv, v2)" "prof_sim v2 v1" by (auto simp: prof_sim_def)
  have "r = rv" "prof_sim w' v1"
    using run bw w2 prof_sim_sym by (auto simp: timer_section_def py_simps split: if_splits)
  moreover have "\<exists>v3. timer_section env name body v = (rv, v3) \<and> prof_sim v1 v3"
    using bv v2 prof_sim_sym sim by (auto simp: timer_section_def py_simps prof_sim_def)
  ultimately show "\<exists>v'. timer_section env name body v = (r, v') \<and> prof_sim w' v'" using prof_sim_trans by blast
qed

lemma silent_op_end:
  assumes "span_ok span" "\<forall>sp. previous = Some sp \<longrightarrow> span_ok sp"
  shows "prof_silent (op_end env span previous start)"
  unfolding prof_silent_def
proof (intro allI impI)
  fix w :: "'a world"
  assume ok: "timer_ok (w_timer w)"
  let ?sp = "case tm_current (w_timer w) of Some s \<Rightarrow> s | None \<Rightarrow> span"
  have "span_ok ?sp" using ok assms(1) by (auto simp: timer_ok_def split: option.splits)
  from span_ok_keys [OF this]
  have d: "distinct (''kind'' # ''req_id'' # ''op'' # ''index'' # ''total_us'' # map fst (sp_sections ?sp) @ map fst (sp_fields ?sp))"
    by (simp add: reserved_keys_def)
  then show "(\<exists>x. fst (op_end env span previous start w) = Inr x) \<and> prof_sim (snd (op_end env span previous start w)) w"
    using ok assms(2)
    by (simp add: op_end_def us_since_def perf_counter_ns_def upd_timer_def py_simps Let_def emit_def prof_sim_def timer_ok_def)
qed

lemma agnostic_op_body:
  assumes b: "prof_agnostic body" and sim: "prof_sim w v" and run: "body v = (r, v')"
  shows "\<exists>w'. op_profiled env name [] body w = (r, w') \<and> prof_sim w' v'"
proof -
  let ?t = "w_timer w"
  let ?span = "\<lparr>sp_op = name, sp_index = int (length (tm_ops ?t)), sp_fields = [], sp_sections = [], sp_total_us = 0\<rparr>"
  let ?w0 = "w\<lparr>w_timer := ?t\<lparr>tm_current := Some ?span\<rparr>\<rparr>"
  have span: "span_ok ?span" by (simp add: span_ok_def akeys_def)
  have prev: "\<forall>sp. tm_current ?t = Some sp \<longrightarrow> span_ok sp" using sim by (simp add: prof_sim_def timer_ok_def)
  have s0: "prof_sim ?w0 w" using sim span by (simp add: prof_sim_def timer_ok_def)
  have t0: "timer_ok (w_timer ?w0)" using s0 by (simp add: prof_sim_def)
  have "distinct (''kind'' # map fst [(''req_id'', tm_req_id ?t), (''op'', JStr name), (''index'', JInt (sp_index ?span))])"
    by simp
  from prof_silentD [OF silent_emit [OF this] t0] obtain x w1 where
    e: "emit env ''op_begin'' [(''req_id'', tm_req_id ?t), (''op'', JStr name), (''index'', JInt (sp_index ?span))] ?w0 = (Inr x, w1)"
      "prof_sim w1 ?w0" .
  then have t1: "timer_ok (w_timer w1)" by (simp add: prof_sim_def)
  from prof_silentD [OF silent_perf t1] obtain n w2 where p: "perf_counter_ns env w1 = (Inr n, w2)" "prof_sim w2 w1" .
  have "prof_sim v w2" using s0 e(2) p(2) sim prof_sim_sym prof_sim_trans by metis
  from prof_agnosticD [OF b this run] obtain w3 where w3: "body w2 = (r, w3)" "prof_sim v' w3" .
  then have "timer_ok (w_timer w3)" by (simp add: prof_sim_def)
  from prof_silentD [OF silent_op_end [OF span prev] this] obtain y w4 where
    f: "op_end env ?span (tm_current ?t) n w3 = (Inr y, w4)" "prof_sim w4 w3" .
  have "op_profiled env name [] body w = (r, w4)"
    using e(1) p(1) w3(1) f(1) by (simp add: op_profiled_def upd_timer_def py_simps Let_def int_fields_def)
  with f(2) w3(2) show ?thesis using prof_sim_sym prof_sim_trans by blast
qed

lemma agnostic_op [agnostic]:
  assumes "prof_agnostic body"
  shows "prof_agnostic (timer_op env name [] body)"
proof (rule prof_agnosticI)
  fix w v r w' assume sim: "prof_sim w v" and run: "timer_op env name [] body w = (r, w')"
  obtain rv v1 where bv: "body v = (rv, v1)" by (cases "body v")
  from prof_agnosticD [OF assms prof_sim_sym [OF sim] bv] obtain w1 where bw: "body w = (rv, w1)" "prof_sim v1 w1" .
  from agnostic_op_body [OF assms sim bv] obtain w2 where w2: "op_profiled env name [] body w = (rv, w2)" "prof_sim w2 v1" by blast
  from agnostic_op_body [OF assms prof_sim_refl bv] sim obtain v2 where
    v2: "op_profiled env name [] body v = (rv, v2)" "prof_sim v2 v1" by (auto simp: prof_sim_def)
  have "r = rv" "prof_sim w' v1"
    using run bw w2 prof_sim_sym by (auto simp: timer_op_def py_simps split: if_splits)
  moreover have "\<exists>v3. timer_op env name [] body v = (rv, v3) \<and> prof_sim v1 v3"
    using bv v2 prof_sim_sym sim by (auto simp: timer_op_def py_simps prof_sim_def)
  ultimately show "\<exists>v'. timer_op env name [] body v = (r, v') \<and> prof_sim w' v'" using prof_sim_trans by blast
qed

text \<open>Work on the allocator or on the device does not see the profiler.\<close>

definition on_alloc :: "(allocator, 'a) py \<Rightarrow> ('d world, 'a) py" where
  "on_alloc m w = (case m (w_alloc w) of (r, a) \<Rightarrow> (r, w\<lparr>w_alloc := a\<rparr>))"

definition on_dev :: "('d, 'a) py \<Rightarrow> ('d world, 'a) py" where
  "on_dev m w = (case m (w_dev w) of (r, d) \<Rightarrow> (r, w\<lparr>w_dev := d\<rparr>))"

lemma agnostic_on_alloc [agnostic]: "prof_agnostic (on_alloc m)"
  by (auto simp: prof_agnostic_def on_alloc_def prof_sim_def split: prod.splits)

lemma agnostic_on_dev [agnostic]: "prof_agnostic (on_dev m)"
  by (auto simp: prof_agnostic_def on_dev_def prof_sim_def split: prod.splits)

lemma agnostic_get_alloc [agnostic]: "prof_agnostic (py_get (\<lambda>w. f (w_alloc w)))"
  by (simp add: prof_agnostic_def prof_sim_def)

end
