(* ===== verification/Graph.thy ===== *)
theory Graph
  imports Timer Ops
begin

text \<open>
  The kernel contract and the registry (\<^verbatim>\<open>board/kernels/interface.py\<close>, \<open>registry.py\<close>) and
  the \<open>RUN_GRAPH\<close> handler (\<^verbatim>\<open>board/daemon/graph.py\<close>): the metadata readers, the test
  whether an op references the result in flight, and the single-in-flight scheduler.  A kernel
  is a record of its operations on the world; the optional attributes \<open>backend\<close> and
  \<open>run_async\<close>, which the scheduler asks for with \<open>getattr\<close>, are options.
\<close>

section \<open>Kernels and registry\<close>

record 'p pending =
  p_dst_handle :: int
  p_dst_lo :: int
  p_dst_hi :: int
  p_data :: 'p

record ('d, 'p) kernel =
  k_name :: string
  k_backend :: "string option"
  k_run :: "dict \<Rightarrow> ('d world, unit) py"
  k_run_async :: "(dict \<Rightarrow> ('d world, 'p pending option) py) option"
  k_complete :: "'p pending \<Rightarrow> ('d world, unit) py"

type_synonym ('d, 'p) registry = "(string \<times> ('d, 'p) kernel) list"

text \<open>\<open>register\<close>: an object without the attributes of the protocol is \<open>None\<close>.\<close>

definition register :: "('d, 'p) kernel option \<Rightarrow> ('d, 'p) registry \<Rightarrow> ('d, 'p) registry res" where
  "register k reg = (case k of None \<Rightarrow> Inl TypeError | Some k \<Rightarrow> Inr (AList.update (k_name k) k reg))"

definition registry_get :: "('d, 'p) registry \<Rightarrow> string \<Rightarrow> ('d, 'p) kernel res" where
  "registry_get reg op_name =
     (case map_of reg op_name of None \<Rightarrow> Inl (AllocatorError ''unsupported_op'') | Some k \<Rightarrow> Inr k)"

fun string_le :: "string \<Rightarrow> string \<Rightarrow> bool" where
  "string_le [] t = True"
| "string_le (c # s) [] = False"
| "string_le (c # s) (d # t) =
     ((of_char c :: nat) < of_char d \<or> (of_char c :: nat) = of_char d \<and> string_le s t)"

fun insert_name :: "string \<Rightarrow> string list \<Rightarrow> string list" where
  "insert_name x [] = [x]"
| "insert_name x (y # ys) = (if string_le x y then x # y # ys else y # insert_name x ys)"

definition registry_names :: "('d, 'p) registry \<Rightarrow> string list" where
  "registry_names reg = foldr insert_name (map fst reg) []"

definition registry_contains :: "string \<Rightarrow> ('d, 'p) registry \<Rightarrow> bool" where
  "registry_contains op_name reg \<longleftrightarrow> map_of reg op_name \<noteq> None"

definition backend_of :: "('d, 'p) kernel \<Rightarrow> string" where
  "backend_of k = (case k_backend k of None \<Rightarrow> ''ps'' | Some b \<Rightarrow> b)"

section \<open>Metadata\<close>

definition non_negative_int :: "json \<Rightarrow> int res" where
  "non_negative_int v =
     bindR (py_int v) (\<lambda>i. if i < 0 then Inl (AllocatorError ''invalid_request'') else Inr i)"

definition graph_required_int :: "dict \<Rightarrow> string \<Rightarrow> int res" where
  "graph_required_int metadata key =
     (case map_of metadata key of
        None \<Rightarrow> Inl (AllocatorError ''invalid_request'')
      | Some v \<Rightarrow> non_negative_int v)"

definition optional_int_list :: "dict \<Rightarrow> string \<Rightarrow> int list res" where
  "optional_int_list metadata key =
     (case obj_get metadata key (JList []) of
        JList l \<Rightarrow> mapR non_negative_int l
      | _ \<Rightarrow> Inl (AllocatorError ''invalid_request''))"

fun as_object :: "json \<Rightarrow> dict res" where
  "as_object (JObj d) = Inr d"
| "as_object _ = Inl (AllocatorError ''invalid_request'')"

definition required_ops :: "dict \<Rightarrow> dict list res" where
  "required_ops metadata =
     (case obj_get metadata F_OPS JNull of
        JList l \<Rightarrow> mapR as_object l
      | _ \<Rightarrow> Inl (AllocatorError ''invalid_request''))"

section \<open>References to the result in flight\<close>

definition TENSOR_ROLES :: "(string \<times> string) list" where
  "TENSOR_ROLES =
     [(F_SRC, F_SRC_OFFSET), (F_DST, F_DST_OFFSET), (F_SRC0, F_SRC0_OFFSET), (F_SRC1, F_SRC1_OFFSET),
      (F_WEIGHTS, F_WEIGHTS_OFFSET), (F_ACTS, F_ACTS_OFFSET), (F_POSITIONS, F_POSITIONS_OFFSET),
      (F_K_TENSOR, F_K_OFFSET), (F_V_TENSOR, F_V_OFFSET), (F_MASK, F_MASK_OFFSET),
      (F_INDICES, F_INDICES_OFFSET)]"

fun touches_roles :: "dict \<Rightarrow> int \<Rightarrow> int \<Rightarrow> int \<Rightarrow> (string \<times> string) list \<Rightarrow> bool res" where
  "touches_roles op handle lo hi [] = Inr False"
| "touches_roles op handle lo hi ((handle_field, offset_field) # roles) =
     (case map_of op handle_field of
        None \<Rightarrow> touches_roles op handle lo hi roles
      | Some v \<Rightarrow>
          bindR (py_int v) (\<lambda>h.
            if h = handle then
              bindR (py_int (obj_get op offset_field (JInt 0))) (\<lambda>offset.
                if lo \<le> offset \<and> offset < hi then Inr True
                else touches_roles op handle lo hi roles)
            else touches_roles op handle lo hi roles))"

definition op_touches :: "dict \<Rightarrow> int \<Rightarrow> int \<Rightarrow> int \<Rightarrow> bool res" where
  "op_touches op handle lo hi = touches_roles op handle lo hi TENSOR_ROLES"

section \<open>The scheduler\<close>

text \<open>The pending op with its name and its kernel, which the loop attaches to it.\<close>

type_synonym ('d, 'p) in_flight = "string \<times> ('d, 'p) kernel \<times> 'p pending"

record ('d, 'p) sched =
  sc_in_flight :: "('d, 'p) in_flight option"
  sc_ps :: int
  sc_pl :: int

definition complete_pending :: "pyenv \<Rightarrow> ('d, 'p) in_flight \<Rightarrow> ('d world, unit) py" where
  "complete_pending env = (\<lambda>(op_name, knl, pending). timer_op env op_name [] (k_complete knl pending))"

definition needs_barrier :: "('d, 'p) kernel \<Rightarrow> dict \<Rightarrow> 'p pending \<Rightarrow> bool res" where
  "needs_barrier knl op p =
     (if backend_of knl = ''pl'' then Inr True
      else op_touches op (p_dst_handle p) (p_dst_lo p) (p_dst_hi p))"

definition barrier :: "pyenv \<Rightarrow> ('d, 'p) kernel \<Rightarrow> dict \<Rightarrow> ('d, 'p) sched \<Rightarrow> ('d world, ('d, 'p) sched) py" where
  "barrier env knl op st =
     (case sc_in_flight st of
        None \<Rightarrow> py_ret st
      | Some f \<Rightarrow>
          py_bind (py_lift (needs_barrier knl op (snd (snd f)))) (\<lambda>b.
            if b then py_then (complete_pending env f) (py_ret (st\<lparr>sc_in_flight := None\<rparr>))
            else py_ret st))"

definition count_op :: "('d, 'p) kernel \<Rightarrow> ('d, 'p) sched \<Rightarrow> ('d, 'p) sched" where
  "count_op knl st =
     (if backend_of knl = ''pl'' then st\<lparr>sc_pl := sc_pl st + 1\<rparr> else st\<lparr>sc_ps := sc_ps st + 1\<rparr>)"

definition issue_op :: "pyenv \<Rightarrow> string \<Rightarrow> ('d, 'p) kernel \<Rightarrow> dict \<Rightarrow> ('d, 'p) sched \<Rightarrow> ('d world, ('d, 'p) sched) py" where
  "issue_op env op_name knl op st =
     (case (k_run_async knl, sc_in_flight st) of
        (Some run_async, None) \<Rightarrow>
          py_bind (timer_op env op_name [] (run_async op)) (\<lambda>pending.
            let st1 = count_op knl st in
            py_ret (case pending of None \<Rightarrow> st1 | Some p \<Rightarrow> st1\<lparr>sc_in_flight := Some (op_name, knl, p)\<rparr>))
      | _ \<Rightarrow>
          py_then (timer_op env op_name [] (k_run knl op)) (py_ret (count_op knl st)))"

definition run_op :: "pyenv \<Rightarrow> ('d, 'p) registry \<Rightarrow> dict \<Rightarrow> ('d, 'p) sched \<Rightarrow> ('d world, ('d, 'p) sched) py" where
  "run_op env reg op st =
     (let op_name = py_str env (obj_get op F_OP (JStr '''')) in
      if op_name = '''' then py_raise (AllocatorError ''invalid_request'')
      else py_bind (py_lift (registry_get reg op_name)) (\<lambda>knl.
        py_bind (barrier env knl op st) (issue_op env op_name knl op)))"

fun run_ops :: "pyenv \<Rightarrow> ('d, 'p) registry \<Rightarrow> dict list \<Rightarrow> ('d, 'p) sched \<Rightarrow> ('d world, ('d, 'p) sched) py" where
  "run_ops env reg [] st = py_ret st"
| "run_ops env reg (op # ops) st = py_bind (run_op env reg op st) (run_ops env reg ops)"

definition drain :: "pyenv \<Rightarrow> ('d, 'p) sched \<Rightarrow> ('d world, ('d, 'p) sched) py" where
  "drain env st =
     (case sc_in_flight st of
        None \<Rightarrow> py_ret st
      | Some f \<Rightarrow> py_then (complete_pending env f) (py_ret (st\<lparr>sc_in_flight := None\<rparr>)))"

definition run_schedule :: "pyenv \<Rightarrow> ('d, 'p) registry \<Rightarrow> dict list \<Rightarrow> ('d world, ('d, 'p) sched) py" where
  "run_schedule env reg ops =
     py_bind (run_ops env reg ops \<lparr>sc_in_flight = None, sc_ps = 0, sc_pl = 0\<rparr>) (drain env)"

section \<open>The handler\<close>

definition check_outputs :: "int list \<Rightarrow> ('d world, unit) py" where
  "check_outputs outputs =
     py_for outputs (\<lambda>h. py_bind (py_get w_alloc) (\<lambda>a. py_bind (py_lift (describe a h)) (\<lambda>_. py_ret ())))"

definition graph_counters :: "('d, 'p) sched \<Rightarrow> timer \<Rightarrow> int \<Rightarrow> dict" where
  "graph_counters st t elapsed_us =
     [(''ps_ops'', JInt (sc_ps st)), (''pl_ops'', JInt (sc_pl st)),
      (''bytes_read'', JInt (tm_bytes_read t)), (''bytes_written'', JInt (tm_bytes_written t)),
      (''elapsed_us'', JInt elapsed_us)]"

definition graph_body :: "pyenv \<Rightarrow> ('d, 'p) registry \<Rightarrow> json \<Rightarrow> int \<Rightarrow> dict list \<Rightarrow> int list \<Rightarrow> ('d world, dict) py" where
  "graph_body env reg req_id graph_version ops outputs =
     py_then (py_mod (\<lambda>w. w\<lparr>w_timer := new_timer req_id (w_sink w)\<rparr>))
     (py_then (emit env ''graph_begin'' [(''req_id'', req_id), (''op_count'', JInt (int (length ops)))])
     (py_bind (perf_counter_ns env) (\<lambda>graph_start_ns.
      py_bind (timer_section env ''graph'' (run_schedule env reg ops)) (\<lambda>st.
      py_bind (us_since env graph_start_ns) (\<lambda>elapsed_us.
      py_then (check_outputs outputs)
      (py_bind (py_get w_timer) (\<lambda>t.
       let counters = graph_counters st t elapsed_us in
       py_then (emit env ''graph_end'' ((''req_id'', req_id) # counters))
         (py_ret [(F_GRAPH_VERSION, JInt graph_version), (F_OP_COUNT, JInt (int (length ops))),
                  (F_OUTPUTS, JList (map JInt outputs)), (F_COUNTERS, JObj counters)]))))))))"

definition run_graph :: "pyenv \<Rightarrow> ('d, 'p) registry \<Rightarrow> dict \<Rightarrow> ('d world, dict) py" where
  "run_graph env reg metadata =
     py_bind (py_lift (graph_required_int metadata F_GRAPH_VERSION)) (\<lambda>graph_version.
       if graph_version \<noteq> GRAPH_VERSION then py_raise (AllocatorError ''unsupported_graph_version'')
       else
         py_bind (py_lift (required_ops metadata)) (\<lambda>ops.
         py_bind (py_lift (optional_int_list metadata F_OUTPUTS)) (\<lambda>outputs.
           graph_body env reg (obj_get metadata F_ID JNull) graph_version ops outputs)))"

end
