(* ===== verification/NativeCall.thy ===== *)
theory NativeCall
  imports Graph Layout
begin

text \<open>
  The glue of \<^verbatim>\<open>board/kernels/ps/native.py\<close> between the allocator and the C library
  \<^verbatim>\<open>libbonsai_ps.so\<close>: pointers, the memory a C function sees, calls through ctypes, and the
  helpers that turn a tensor range into a pointer, zero-copy into the slab when the range
  lies in one extent of a CMA slab and through a buffer otherwise.  The library itself is
  a file the build makes; it is a parameter, a function from the name of a symbol, the
  arguments and the memory to a return code and the memory it leaves.
\<close>

section \<open>Memory seen by native code\<close>

text \<open>
  A pointer is an address in the user-space mapping of a slab, or it points into one of the
  ctypes buffers of the running kernel, or into the persistent scratch buffer of a kernel and
  a role.  The addresses of the last two are chosen by the allocators of the C and of the
  PYNQ runtime, so the model keeps the buffer's identity and the offset in it.
\<close>

datatype ptr = PVa int | PBuf nat int | PScratch string string int

fun ptr_add :: "ptr \<Rightarrow> int \<Rightarrow> ptr" where
  "ptr_add (PVa a) n = PVa (a + n)"
| "ptr_add (PBuf i off) n = PBuf i (off + n)"
| "ptr_add (PScratch knl role off) n = PScratch knl role (off + n)"

text \<open>
  Arguments as ctypes passes them: integers wrap to 32 bits without a check (\<open>size_t\<close> has 32
  bits on the Zynq's ARM cores), and a Python float is narrowed by the call.
\<close>

datatype carg = CPtr ptr | CU32 "32 word" | CSize "32 word" | CFloat "64 word"

abbreviation c_uint32 :: "int \<Rightarrow> carg" where "c_uint32 n \<equiv> CU32 (word_of_int n)"
abbreviation c_size_t :: "int \<Rightarrow> carg" where "c_size_t n \<equiv> CSize (word_of_int n)"

type_synonym scratch_key = "string \<times> string"

record cmem =
  cm_slabs :: "slab list"
  cm_bufs :: "byte list list"
  cm_scratch :: "(scratch_key \<times> byte list) list"

record clib =
  cl_has :: "string \<Rightarrow> bool"
  cl_call :: "string \<Rightarrow> carg list \<Rightarrow> cmem \<Rightarrow> int \<times> cmem"

text \<open>\<open>_SLAB_SCRATCH_BUFS\<close> and \<open>_SLAB_SCRATCH_SIZES\<close>, and the number of buffers asked of PYNQ so far.\<close>

record ps_state =
  scratch_bufs :: "(scratch_key \<times> byte list) list"
  scratch_sizes :: "(scratch_key \<times> int) list"
  scratch_count :: nat

type_synonym 'e ps_world = "'e ps_state_scheme world"

definition call_native :: "clib \<Rightarrow> string \<Rightarrow> carg list \<Rightarrow> byte list list \<Rightarrow> ('e ps_world, int \<times> byte list list) py" where
  "call_native lib symb args bufs w =
     (case cl_call lib symb args \<lparr>cm_slabs = al_slabs (w_alloc w), cm_bufs = bufs, cm_scratch = scratch_bufs (w_dev w)\<rparr> of
        (rc, m) \<Rightarrow>
          (Inr (rc, cm_bufs m),
           w\<lparr>w_alloc := (w_alloc w)\<lparr>al_slabs := cm_slabs m\<rparr>,
             w_dev := (w_dev w)\<lparr>scratch_bufs := cm_scratch m\<rparr>\<rparr>))"

text \<open>\<open>self._check(self._fn(...))\<close>.\<close>

definition checked_call :: "clib \<Rightarrow> string \<Rightarrow> carg list \<Rightarrow> byte list list \<Rightarrow> ('e ps_world, byte list list) py" where
  "checked_call lib symb args bufs =
     py_bind (call_native lib symb args bufs) (\<lambda>(rc, bufs').
       if rc \<noteq> 0 then py_raise RuntimeError else py_ret bufs')"

section \<open>Readers of the op's metadata\<close>

abbreviation py_read :: "'a res \<Rightarrow> ('a \<Rightarrow> ('s, 'b) py) \<Rightarrow> ('s, 'b) py" where
  "py_read r f \<equiv> py_bind (py_lift r) f"

abbreviation (input) F32_BYTES :: int where "F32_BYTES \<equiv> 4"

definition obj_int :: "dict \<Rightarrow> string \<Rightarrow> int res" where
  "obj_int op key = bindR (obj_index op key) py_int"

definition obj_int_or :: "dict \<Rightarrow> string \<Rightarrow> int \<Rightarrow> int res" where
  "obj_int_or op key dflt = py_int (obj_get op key (JInt dflt))"

definition obj_float :: "pyenv \<Rightarrow> dict \<Rightarrow> string \<Rightarrow> 64 word res" where
  "obj_float env op key = bindR (obj_index op key) (py_float env)"

abbreviation (input) FLOAT_0 :: "64 word" where "FLOAT_0 \<equiv> 0"
abbreviation (input) FLOAT_1 :: "64 word" where "FLOAT_1 \<equiv> 0x3FF0000000000000"

definition obj_float_or :: "pyenv \<Rightarrow> dict \<Rightarrow> string \<Rightarrow> 64 word \<Rightarrow> 64 word res" where
  "obj_float_or env op key dflt = py_float env (obj_get op key (JFloat dflt))"

section \<open>Copies through Python\<close>

definition ps_read :: "pyenv \<Rightarrow> int \<Rightarrow> int \<Rightarrow> int \<Rightarrow> ('d world, byte list) py" where
  "ps_read env h offset nbytes =
     py_bind (timer_section env ''read'' (on_alloc (read_tensor h offset nbytes False))) (\<lambda>bs.
     py_then (timer_add ''bytes_read'' nbytes) (py_ret bs))"

definition ps_write :: "pyenv \<Rightarrow> int \<Rightarrow> int \<Rightarrow> byte list \<Rightarrow> ('d world, unit) py" where
  "ps_write env h offset bs =
     py_then (timer_section env ''write'' (on_alloc (write_tensor h offset bs False)))
       (timer_add ''bytes_written'' (int (length bs)))"

section \<open>Pointers into tensors\<close>

definition get_slab_pointer :: "int \<Rightarrow> int \<Rightarrow> int \<Rightarrow> ('d world, int) py" where
  "get_slab_pointer h offset nbytes = py_bind (py_get w_alloc) (\<lambda>a. py_lift (slab_pointer a h offset nbytes))"

text \<open>
  \<open>_readable_base\<close>: the slab's address, or a copy of the bytes in a new buffer.  The buffers
  of the running kernel are threaded through as a list; a new one goes to its end.
\<close>

definition readable_base :: "int \<Rightarrow> int \<Rightarrow> int \<Rightarrow> byte list list \<Rightarrow> ('d world, ptr \<times> byte list list) py" where
  "readable_base h offset nbytes bufs =
     py_catch (py_bind (get_slab_pointer h offset nbytes) (\<lambda>a. py_ret (PVa a, bufs)))
       (\<lambda>e. case e of
           AllocatorError code \<Rightarrow>
             py_bind (on_alloc (read_tensor h offset nbytes True)) (\<lambda>bs.
               py_ret (PBuf (length bufs) 0, bufs @ [bs]))
         | _ \<Rightarrow> py_raise e)"

text \<open>A finalizer writes the buffer with the given index back to a tensor range.\<close>

type_synonym finalizer = "int \<times> int \<times> nat"

definition writable_base :: "int \<Rightarrow> int \<Rightarrow> int \<Rightarrow> byte list list \<Rightarrow> ('d world, ptr \<times> byte list list \<times> finalizer option) py" where
  "writable_base h offset nbytes bufs =
     py_catch (py_bind (get_slab_pointer h offset nbytes) (\<lambda>a. py_ret (PVa a, bufs, None)))
       (\<lambda>e. if e = ERR_multi \<or> e = ERR_invalid then
              if nbytes < 0 then py_raise ValueError
              else py_ret (PBuf (length bufs) 0, bufs @ [replicate (nat nbytes) 0], Some (h, offset, length bufs))
            else py_raise e)"

definition in_ptr :: "pyenv \<Rightarrow> int \<Rightarrow> int \<Rightarrow> int \<Rightarrow> byte list list \<Rightarrow> ('d world, ptr \<times> byte list list) py" where
  "in_ptr env h offset nbytes bufs =
     py_bind (timer_section env ''read'' (readable_base h offset nbytes bufs)) (\<lambda>r.
     py_then (timer_add ''bytes_read'' nbytes) (py_ret r))"

definition out_ptr :: "int \<Rightarrow> int \<Rightarrow> int \<Rightarrow> byte list list \<Rightarrow> finalizer list \<Rightarrow> ('d world, ptr \<times> byte list list \<times> finalizer list) py" where
  "out_ptr h offset nbytes bufs finalizers =
     py_bind (writable_base h offset nbytes bufs) (\<lambda>(p, bufs', fin).
       py_ret (p, bufs', finalizers @ (case fin of None \<Rightarrow> [] | Some f \<Rightarrow> [f])))"

definition run_finalizer :: "byte list list \<Rightarrow> finalizer \<Rightarrow> ('d world, unit) py" where
  "run_finalizer bufs = (\<lambda>(h, offset, i). on_alloc (write_tensor h offset (bufs ! i) False))"

definition run_finalizers :: "pyenv \<Rightarrow> byte list list \<Rightarrow> finalizer list \<Rightarrow> ('d world, unit) py" where
  "run_finalizers env bufs finalizers =
     (if finalizers = [] then py_ret ()
      else timer_section env ''write'' (py_for finalizers (run_finalizer bufs)))"

section \<open>The persistent scratch buffers\<close>

text \<open>The owner that \<open>_slab_pointer_or_scratch\<close> returns: the scratch buffer and the range it stands for.\<close>

type_synonym owner = "scratch_key \<times> int \<times> int \<times> int"

definition scratch_ensure :: "pynq_allocate \<Rightarrow> scratch_key \<Rightarrow> int \<Rightarrow> ('e ps_state_scheme, unit) py" where
  "scratch_ensure palloc key nbytes d =
     (let sz = (case map_of (scratch_sizes d) key of None \<Rightarrow> 0 | Some n \<Rightarrow> n) in
      if map_of (scratch_bufs d) key = None \<or> sz < nbytes then
        (case palloc (scratch_count d) nbytes of
           Inl e \<Rightarrow> (Inl e, d)
         | Inr (_, _, cells) \<Rightarrow>
             (Inr (), d\<lparr>scratch_bufs := AList.update key cells (scratch_bufs d),
                        scratch_sizes := AList.update key nbytes (scratch_sizes d),
                        scratch_count := Suc (scratch_count d)\<rparr>))
      else (Inr (), d))"

definition scratch_buf :: "scratch_key \<Rightarrow> 'e ps_state_scheme \<Rightarrow> byte list" where
  "scratch_buf key d = (case map_of (scratch_bufs d) key of None \<Rightarrow> [] | Some b \<Rightarrow> b)"

definition scratch_fill :: "scratch_key \<Rightarrow> byte list \<Rightarrow> ('e ps_state_scheme, unit) py" where
  "scratch_fill key src =
     py_mod (\<lambda>d. d\<lparr>scratch_bufs := AList.update key (src @ drop (length src) (scratch_buf key d)) (scratch_bufs d)\<rparr>)"

definition slab_pointer_or_scratch ::
    "pynq_allocate \<Rightarrow> scratch_key \<Rightarrow> int \<Rightarrow> int \<Rightarrow> int \<Rightarrow> ('e ps_world, ptr \<times> owner option) py" where
  "slab_pointer_or_scratch palloc key h offset nbytes =
     py_catch (py_bind (get_slab_pointer h offset nbytes) (\<lambda>a. py_ret (PVa a, None)))
       (\<lambda>e. if e = ERR_multi then
              py_then (on_dev (scratch_ensure palloc key nbytes))
              (py_bind (on_alloc (read_tensor h offset nbytes True)) (\<lambda>src.
               py_then (on_dev (scratch_fill key src))
                 (py_ret (PScratch (fst key) (snd key) 0, Some (key, h, offset, nbytes)))))
            else py_raise e)"

definition scratch_writeback :: "owner option \<Rightarrow> ('e ps_world, unit) py" where
  "scratch_writeback own =
     (case own of
        None \<Rightarrow> py_ret ()
      | Some (key, h, offset, nbytes) \<Rightarrow>
          py_bind (py_get w_dev) (\<lambda>d.
            on_alloc (write_tensor h offset (py_slice (scratch_buf key d) 0 nbytes) True)))"

end
