(* ===== verification/PsKernels.thy ===== *)
theory PsKernels
  imports NativeCall
begin

text \<open>
  The kernels of \<^verbatim>\<open>board/kernels/ps/native.py\<close>: one \<open>run\<close> method per class, and
  \<open>register_all\<close>.  The classes \<open>ADD\<close>, \<open>MUL\<close>, \<open>SCALE\<close>, \<open>SILU\<close>, \<open>SWIGLU\<close>, \<open>RMS_NORM\<close>,
  \<open>RMS_NORM_MUL\<close>, \<open>ROPE\<close> and the converting \<open>COPY\<close> read their scalars and then do the same
  steps, which are the definition \<open>glue\<close>: input pointers in order, the output pointer, the
  checked call, the writebacks, the byte count.
\<close>

section \<open>The steps the glue kernels share\<close>

definition in_field :: "pyenv \<Rightarrow> dict \<Rightarrow> string \<Rightarrow> string \<Rightarrow> int \<Rightarrow> byte list list \<Rightarrow> ('d world, ptr \<times> byte list list) py" where
  "in_field env op handle_field offset_field nbytes bufs =
     py_read (required_int op handle_field) (\<lambda>h.
     py_read (optional_int op offset_field 0) (\<lambda>offset. in_ptr env h offset nbytes bufs))"

fun in_fields :: "pyenv \<Rightarrow> dict \<Rightarrow> (string \<times> string \<times> int) list \<Rightarrow> byte list list \<Rightarrow> ('d world, ptr list \<times> byte list list) py" where
  "in_fields env op [] bufs = py_ret ([], bufs)"
| "in_fields env op ((handle_field, offset_field, nbytes) # rest) bufs =
     py_bind (in_field env op handle_field offset_field nbytes bufs) (\<lambda>(p, bufs1).
     py_bind (in_fields env op rest bufs1) (\<lambda>(ps, bufs2). py_ret (p # ps, bufs2)))"

definition out_field :: "dict \<Rightarrow> int \<Rightarrow> byte list list \<Rightarrow> ('d world, ptr \<times> byte list list \<times> finalizer list) py" where
  "out_field op nbytes bufs =
     py_read (required_int op F_DST) (\<lambda>h.
     py_read (optional_int op F_DST_OFFSET 0) (\<lambda>offset. out_ptr h offset nbytes bufs []))"

definition glue :: "pyenv \<Rightarrow> clib \<Rightarrow> string \<Rightarrow> dict \<Rightarrow> (string \<times> string \<times> int) list \<Rightarrow> int \<Rightarrow>
    (ptr list \<Rightarrow> ptr \<Rightarrow> carg list) \<Rightarrow> ('e ps_world, unit) py" where
  "glue env lib symb op inputs dst_nbytes args =
     py_bind (in_fields env op inputs []) (\<lambda>(ps, bufs).
     py_bind (out_field op dst_nbytes bufs) (\<lambda>(dst, bufs1, finalizers).
     py_bind (timer_section env ''compute'' (checked_call lib symb (args ps dst) bufs1)) (\<lambda>bufs2.
     py_then (run_finalizers env bufs2 finalizers) (timer_add ''bytes_written'' dst_nbytes))))"

section \<open>COPY and MATMUL\<close>

definition copy_cvt :: "pyenv \<Rightarrow> clib option \<Rightarrow> dict \<Rightarrow> ('e ps_world, unit) py" where
  "copy_cvt env lib op =
     (case lib of
        None \<Rightarrow> py_raise ERR_invalid
      | Some l \<Rightarrow>
          py_read (required_int op F_ELEMENTS) (\<lambda>elements.
            glue env l ''bonsai_set_rows_row_f32_to_f16'' op [(F_SRC, F_SRC_OFFSET, elements * F32_BYTES)] (elements * 2)
              (\<lambda>ps dst. [CPtr dst, CPtr (ps ! 0), c_uint32 elements])))"

definition copy_raw :: "pyenv \<Rightarrow> dict \<Rightarrow> ('d world, unit) py" where
  "copy_raw env op =
     py_read (required_int op F_NBYTES) (\<lambda>nbytes.
     py_read (required_int op F_SRC) (\<lambda>src.
     py_read (optional_int op F_SRC_OFFSET 0) (\<lambda>src_offset.
     py_bind (ps_read env src src_offset nbytes) (\<lambda>bs.
     py_read (required_int op F_DST) (\<lambda>dst.
     py_read (optional_int op F_DST_OFFSET 0) (\<lambda>dst_offset. ps_write env dst dst_offset bs))))))"

definition copy_run :: "pyenv \<Rightarrow> clib option \<Rightarrow> dict \<Rightarrow> ('e ps_world, unit) py" where
  "copy_run env lib op =
     (let src_type = py_str env (obj_get op F_SRC0_TYPE (JStr ''''));
          dst_type = py_str env (obj_get op F_DST_TYPE (JStr ''''))
      in if src_type = ''f32'' \<and> dst_type = ''f16'' then copy_cvt env lib op else copy_raw env op)"

definition matmul_run :: "pyenv \<Rightarrow> clib \<Rightarrow> dict \<Rightarrow> ('e ps_world, unit) py" where
  "matmul_run env lib op =
     py_read (required_int op F_ROWS) (\<lambda>rows.
     py_read (required_int op F_COLS) (\<lambda>cols.
     py_read (required_int op F_K) (\<lambda>k.
     if k = 0 \<or> k mod Q1_BLOCK \<noteq> 0 then py_raise ERR_invalid
     else
       py_read (packed_nbytes rows k) (\<lambda>weight_nbytes.
       py_read (required_int op F_WEIGHTS) (\<lambda>w.
       py_read (optional_int op F_WEIGHTS_OFFSET 0) (\<lambda>w_offset.
       py_bind (ps_read env w w_offset weight_nbytes) (\<lambda>weights.
       py_read (required_int op F_ACTS) (\<lambda>a.
       py_read (optional_int op F_ACTS_OFFSET 0) (\<lambda>a_offset.
       py_bind (ps_read env a a_offset (cols * k * F32_BYTES)) (\<lambda>acts.
       py_bind (timer_section env ''compute''
           (checked_call lib ''bonsai_matmul_q1a8''
              [CPtr (PBuf 0 0), CPtr (PBuf 1 0), CPtr (PBuf 2 0), c_uint32 rows, c_uint32 cols, c_uint32 k]
              [weights, acts, replicate (nat (rows * cols * F32_BYTES)) 0])) (\<lambda>bufs.
       py_read (required_int op F_DST) (\<lambda>dst.
       py_read (optional_int op F_DST_OFFSET 0) (\<lambda>dst_offset.
         ps_write env dst dst_offset (bufs ! 2))))))))))))))"

section \<open>Elementwise kernels, norms and ROPE\<close>

definition binary_run :: "pyenv \<Rightarrow> clib \<Rightarrow> string \<Rightarrow> dict \<Rightarrow> ('e ps_world, unit) py" where
  "binary_run env lib symb op =
     py_read (positive_int op F_ROWS) (\<lambda>rows.
     py_read (positive_int op F_COLS) (\<lambda>cols.
     let broadcast = py_bool (obj_get op F_SRC1_BROADCAST (JBool False));
         elements = rows * cols;
         rhs_elements = (if broadcast then rows else elements)
     in glue env lib symb op
          [(F_SRC0, F_SRC0_OFFSET, elements * F32_BYTES), (F_SRC1, F_SRC1_OFFSET, rhs_elements * F32_BYTES)]
          (elements * F32_BYTES)
          (\<lambda>ps dst. [CPtr (ps ! 0), CPtr (ps ! 1), CPtr dst, c_uint32 rows, c_uint32 cols,
                     c_uint32 (if broadcast then 1 else 0)])))"

definition scale_run :: "pyenv \<Rightarrow> clib \<Rightarrow> dict \<Rightarrow> ('e ps_world, unit) py" where
  "scale_run env lib op =
     py_read (positive_int op F_ELEMENTS) (\<lambda>elements.
     case map_of op F_SCALE of
       None \<Rightarrow> py_raise ERR_invalid
     | Some v \<Rightarrow>
         py_read (py_float env v) (\<lambda>scale.
         py_read (obj_float_or env op F_BIAS FLOAT_0) (\<lambda>bias.
           glue env lib ''bonsai_scale_f32'' op [(F_SRC, F_SRC_OFFSET, elements * F32_BYTES)] (elements * F32_BYTES)
             (\<lambda>ps dst. [CPtr (ps ! 0), CPtr dst, c_uint32 elements, CFloat scale, CFloat bias]))))"

definition unary_run :: "pyenv \<Rightarrow> clib \<Rightarrow> string \<Rightarrow> dict \<Rightarrow> ('e ps_world, unit) py" where
  "unary_run env lib symb op =
     py_read (positive_int op F_ELEMENTS) (\<lambda>elements.
       glue env lib symb op [(F_SRC, F_SRC_OFFSET, elements * F32_BYTES)] (elements * F32_BYTES)
         (\<lambda>ps dst. [CPtr (ps ! 0), CPtr dst, c_uint32 elements]))"

definition swiglu_run :: "pyenv \<Rightarrow> clib \<Rightarrow> dict \<Rightarrow> ('e ps_world, unit) py" where
  "swiglu_run env lib op =
     py_read (positive_int op F_ELEMENTS) (\<lambda>elements.
       glue env lib ''bonsai_swiglu_f32'' op
         [(F_SRC0, F_SRC0_OFFSET, elements * F32_BYTES), (F_SRC1, F_SRC1_OFFSET, elements * F32_BYTES)]
         (elements * F32_BYTES)
         (\<lambda>ps dst. [CPtr (ps ! 0), CPtr (ps ! 1), CPtr dst, c_uint32 elements]))"

definition required_eps :: "pyenv \<Rightarrow> dict \<Rightarrow> 64 word res" where
  "required_eps env op = (case map_of op F_EPS of None \<Rightarrow> Inl ERR_invalid | Some v \<Rightarrow> py_float env v)"

definition rms_norm_run :: "pyenv \<Rightarrow> clib \<Rightarrow> dict \<Rightarrow> ('e ps_world, unit) py" where
  "rms_norm_run env lib op =
     py_read (positive_int op F_ROWS) (\<lambda>rows.
     py_read (positive_int op F_COLS) (\<lambda>cols.
     py_read (required_eps env op) (\<lambda>eps.
     let elements = rows * cols in
     glue env lib ''bonsai_rms_norm_f32'' op [(F_SRC, F_SRC_OFFSET, elements * F32_BYTES)] (elements * F32_BYTES)
       (\<lambda>ps dst. [CPtr (ps ! 0), CPtr dst, c_uint32 rows, c_uint32 cols, CFloat eps]))))"

definition rms_norm_mul_run :: "pyenv \<Rightarrow> clib \<Rightarrow> dict \<Rightarrow> ('e ps_world, unit) py" where
  "rms_norm_mul_run env lib op =
     py_read (positive_int op F_ROWS) (\<lambda>rows.
     py_read (positive_int op F_COLS) (\<lambda>cols.
     py_read (required_eps env op) (\<lambda>eps.
     let elements = rows * cols in
     glue env lib ''bonsai_rms_norm_mul_f32'' op
       [(F_SRC, F_SRC_OFFSET, elements * F32_BYTES), (F_SRC1, F_SRC1_OFFSET, rows * F32_BYTES)]
       (elements * F32_BYTES)
       (\<lambda>ps dst. [CPtr (ps ! 0), CPtr (ps ! 1), CPtr dst, c_uint32 rows, c_uint32 cols, CFloat eps]))))"

record rope_params =
  rp_head_dim :: int
  rp_n_head :: int
  rp_n_token :: int
  rp_ints :: "int list"
  rp_floats :: "64 word list"

definition rope_parse :: "pyenv \<Rightarrow> dict \<Rightarrow> rope_params res" where
  "rope_parse env op =
     bindR (positive_int op F_HEAD_DIM) (\<lambda>head_dim.
     bindR (positive_int op F_N_HEAD) (\<lambda>n_head.
     bindR (positive_int op F_N_TOKEN) (\<lambda>n_token.
     bindR (positive_int op F_N_DIMS) (\<lambda>n_dims.
     bindR (optional_int op F_MODE 0) (\<lambda>md.
     bindR (optional_int op F_N_CTX_ORIG 0) (\<lambda>n_ctx_orig.
     bindR (obj_float env op F_FREQ_BASE) (\<lambda>freq_base.
     bindR (obj_float_or env op F_FREQ_SCALE FLOAT_1) (\<lambda>freq_scale.
     bindR (obj_float_or env op F_EXT_FACTOR FLOAT_0) (\<lambda>ext_factor.
     bindR (obj_float_or env op F_ATTN_FACTOR FLOAT_1) (\<lambda>attn_factor.
     bindR (obj_float_or env op F_BETA_FAST FLOAT_0) (\<lambda>beta_fast.
     bindR (obj_float_or env op F_BETA_SLOW FLOAT_0) (\<lambda>beta_slow.
       Inr \<lparr>rp_head_dim = head_dim, rp_n_head = n_head, rp_n_token = n_token,
            rp_ints = [head_dim, n_head, n_token, n_dims, md, n_ctx_orig],
            rp_floats = [freq_base, freq_scale, ext_factor, attn_factor, beta_fast, beta_slow]\<rparr>))))))))))))"

definition rope_run :: "pyenv \<Rightarrow> clib \<Rightarrow> dict \<Rightarrow> ('e ps_world, unit) py" where
  "rope_run env lib op =
     py_read (rope_parse env op) (\<lambda>p.
     let src_nbytes = rp_head_dim p * rp_n_head p * rp_n_token p * F32_BYTES;
         pos_nbytes = rp_n_token p * 4
     in glue env lib ''bonsai_rope_f32'' op
          [(F_SRC, F_SRC_OFFSET, src_nbytes), (F_POSITIONS, F_POSITIONS_OFFSET, pos_nbytes)] src_nbytes
          (\<lambda>ps dst. [CPtr (ps ! 0), CPtr (ps ! 1), CPtr dst] @ map c_uint32 (rp_ints p) @ map CFloat (rp_floats p)))"

section \<open>FLASH_ATTN_EXT\<close>

definition MAX_FLASH_ATTN_KV :: int where
  "MAX_FLASH_ATTN_KV = 1024"

record flash_params =
  fa_dims :: "int list"
  fa_scale :: "64 word"
  fa_q_nb :: "int \<times> int"
  fa_k_nb :: "int \<times> int"
  fa_v_nb :: "int \<times> int"
  fa_dst_nb :: "int \<times> int"
  fa_has_mask :: bool
  fa_mask_nb1 :: int
  fa_q_nbytes :: int
  fa_k_nbytes :: int
  fa_v_nbytes :: int
  fa_mask_nbytes :: int
  fa_dst_nbytes :: int

definition flash_strides :: "dict \<Rightarrow> string \<Rightarrow> string \<Rightarrow> (int \<times> int) res" where
  "flash_strides op key1 key2 =
     bindR (obj_int op key1) (\<lambda>nb1. bindR (obj_int op key2) (\<lambda>nb2. Inr (nb1, nb2)))"

definition flash_extent :: "int \<times> int \<Rightarrow> int \<Rightarrow> int \<Rightarrow> int" where
  "flash_extent nb n2 n1 = (if snd nb \<noteq> 0 then snd nb * n2 else fst nb * n1)"

definition flash_layout :: "dict \<Rightarrow> int list \<Rightarrow> 64 word \<Rightarrow> int \<Rightarrow> int \<Rightarrow> int \<Rightarrow> int \<Rightarrow> flash_params res" where
  "flash_layout op dims scale n_head n_head_kv n_kv n_token =
     bindR (flash_strides op F_Q_NB1 F_Q_NB2) (\<lambda>q_nb.
     bindR (flash_strides op F_K_NB1 F_K_NB2) (\<lambda>k_nb.
     bindR (flash_strides op F_V_NB1 F_V_NB2) (\<lambda>v_nb.
     bindR (flash_strides op F_DST_NB1 F_DST_NB2) (\<lambda>dst_nb.
     let has_mask = py_bool (obj_get op F_HAS_MASK (JBool False)) in
     bindR (obj_int_or op F_MASK_NB1 0) (\<lambda>mask_nb1.
       Inr \<lparr>fa_dims = dims, fa_scale = scale, fa_q_nb = q_nb, fa_k_nb = k_nb, fa_v_nb = v_nb, fa_dst_nb = dst_nb,
            fa_has_mask = has_mask, fa_mask_nb1 = mask_nb1,
            fa_q_nbytes = flash_extent q_nb n_head n_token,
            fa_k_nbytes = flash_extent k_nb n_head_kv n_kv,
            fa_v_nbytes = flash_extent v_nb n_head_kv n_kv,
            fa_mask_nbytes = (if has_mask then mask_nb1 * n_token else 0),
            fa_dst_nbytes = flash_extent dst_nb n_token n_head\<rparr>)))))"

definition flash_parse :: "pyenv \<Rightarrow> dict \<Rightarrow> flash_params res" where
  "flash_parse env op =
     bindR (positive_int op F_HEAD_DIM_Q) (\<lambda>head_dim_q.
     bindR (positive_int op F_HEAD_DIM_V) (\<lambda>head_dim_v.
     bindR (positive_int op F_N_HEAD) (\<lambda>n_head.
     bindR (positive_int op F_N_HEAD_KV) (\<lambda>n_head_kv.
     bindR (positive_int op F_N_KV) (\<lambda>n_kv.
     bindR (positive_int op F_N_TOKEN) (\<lambda>n_token.
     bindR (obj_float_or env op F_SCALE FLOAT_1) (\<lambda>scale.
     bindR (obj_float_or env op F_MAX_BIAS FLOAT_0) (\<lambda>max_bias.
     bindR (obj_float_or env op F_LOGIT_SOFTCAP FLOAT_0) (\<lambda>softcap.
     if \<not> float_is_zero max_bias \<or> \<not> float_is_zero softcap then Inl ERR_invalid
     else if n_kv > MAX_FLASH_ATTN_KV then Inl ERR_invalid
     else if n_head mod n_head_kv \<noteq> 0 then Inl ERR_invalid
     else flash_layout op [head_dim_q, head_dim_v, n_head, n_head_kv, n_kv, n_token] scale
            n_head n_head_kv n_kv n_token)))))))))"

definition flash_field :: "pynq_allocate \<Rightarrow> dict \<Rightarrow> string \<Rightarrow> string \<Rightarrow> string \<Rightarrow> int \<Rightarrow> ('e ps_world, ptr \<times> owner option) py" where
  "flash_field palloc op role handle_field offset_field nbytes =
     py_read (required_int op handle_field) (\<lambda>h.
     py_read (optional_int op offset_field 0) (\<lambda>offset.
       slab_pointer_or_scratch palloc (''flash_attn'', role) h offset nbytes))"

definition flash_ptrs :: "pynq_allocate \<Rightarrow> dict \<Rightarrow> flash_params \<Rightarrow> ('e ps_world, ptr list \<times> owner option) py" where
  "flash_ptrs palloc op p =
     py_bind (flash_field palloc op ''q'' F_SRC0 F_SRC0_OFFSET (fa_q_nbytes p)) (\<lambda>(q, _).
     py_bind (flash_field palloc op ''k'' F_K_TENSOR F_K_OFFSET (fa_k_nbytes p)) (\<lambda>(k, _).
     py_bind (flash_field palloc op ''v'' F_V_TENSOR F_V_OFFSET (fa_v_nbytes p)) (\<lambda>(v, _).
     py_bind (if fa_has_mask p then flash_field palloc op ''mask'' F_MASK F_MASK_OFFSET (fa_mask_nbytes p)
              else py_ret (PVa 0, None)) (\<lambda>(mask, _).
     py_bind (flash_field palloc op ''dst'' F_DST F_DST_OFFSET (fa_dst_nbytes p)) (\<lambda>(dst, dst_own).
       py_ret ([q, k, v, mask, dst], dst_own))))))"

definition flash_args :: "flash_params \<Rightarrow> ptr list \<Rightarrow> carg list" where
  "flash_args p ps =
     [CPtr (ps ! 0), c_size_t (fst (fa_q_nb p)), c_size_t (snd (fa_q_nb p)),
      CPtr (ps ! 1), c_size_t (fst (fa_k_nb p)), c_size_t (snd (fa_k_nb p)),
      CPtr (ps ! 2), c_size_t (fst (fa_v_nb p)), c_size_t (snd (fa_v_nb p)),
      CPtr (ps ! 3), c_size_t (fa_mask_nb1 p),
      CPtr (ps ! 4), c_size_t (fst (fa_dst_nb p)), c_size_t (snd (fa_dst_nb p))]
     @ map c_uint32 (fa_dims p) @ [CFloat (fa_scale p)]"

definition flash_run :: "pyenv \<Rightarrow> pynq_allocate \<Rightarrow> clib \<Rightarrow> dict \<Rightarrow> ('e ps_world, unit) py" where
  "flash_run env palloc lib op =
     py_read (flash_parse env op) (\<lambda>p.
     py_bind (timer_section env ''read'' (flash_ptrs palloc op p)) (\<lambda>(ps, dst_own).
     py_then (timer_add ''bytes_read'' (fa_q_nbytes p + fa_k_nbytes p + fa_v_nbytes p + fa_mask_nbytes p))
     (py_then (timer_section env ''compute'' (checked_call lib ''bonsai_flash_attn_ext_f32'' (flash_args p ps) []))
     (py_then (timer_section env ''write'' (scratch_writeback dst_own))
       (timer_add ''bytes_written'' (fa_dst_nbytes p))))))"

section \<open>GET_ROWS\<close>

record get_rows_params =
  gr_type :: string
  gr_head_dim :: int
  gr_ne01 :: int
  gr_ne :: "int \<times> int \<times> int"
  gr_src_nb :: "int \<times> int \<times> int"
  gr_idx_nb :: "int \<times> int"
  gr_dst_nb :: "int \<times> int \<times> int"
  gr_src :: "int \<times> int"
  gr_dst :: "int \<times> int"
  gr_idx :: "int \<times> int"
  gr_rowblock_nbytes :: int

definition get_rows_fns :: "(string \<times> string) list" where
  "get_rows_fns = [(''f32'', ''bonsai_get_rows_f32''), (''f16'', ''bonsai_get_rows_f16''), (''q1_0'', ''bonsai_get_rows_q1_0'')]"

definition handle_at :: "dict \<Rightarrow> string \<Rightarrow> string \<Rightarrow> (int \<times> int) res" where
  "handle_at op handle_field offset_field =
     bindR (required_int op handle_field) (\<lambda>h. bindR (optional_int op offset_field 0) (\<lambda>offset. Inr (h, offset)))"

definition get_rows_layout :: "dict \<Rightarrow> string \<Rightarrow> int \<Rightarrow> int \<Rightarrow> int \<Rightarrow> int \<Rightarrow> int \<Rightarrow> get_rows_params res" where
  "get_rows_layout op src0_type head_dim ne01 ne10 ne11 ne12 =
     bindR (obj_int op F_SRC0_NB1) (\<lambda>src0_nb1.
     bindR (obj_int_or op F_SRC0_NB2 (src0_nb1 * ne01)) (\<lambda>src0_nb2.
     bindR (obj_int_or op F_SRC0_NB3 src0_nb2) (\<lambda>src0_nb3.
     bindR (obj_int_or op F_INDICES_NB1 (ne10 * 4)) (\<lambda>indices_nb1.
     bindR (obj_int_or op F_INDICES_NB2 (indices_nb1 * ne11)) (\<lambda>indices_nb2.
     bindR (obj_int op F_DST_NB1) (\<lambda>dst_nb1.
     bindR (obj_int_or op F_DST_NB2 (dst_nb1 * ne10)) (\<lambda>dst_nb2.
     bindR (obj_int_or op F_DST_NB3 dst_nb2) (\<lambda>dst_nb3.
     bindR (handle_at op F_SRC0 F_SRC0_OFFSET) (\<lambda>src.
     bindR (handle_at op F_DST F_DST_OFFSET) (\<lambda>dst.
     bindR (handle_at op F_INDICES F_INDICES_OFFSET) (\<lambda>idx.
     bindR (if src0_type = ''q1_0'' then packed_bytes_per_rowblock head_dim else Inr 0) (\<lambda>rowblock_nbytes.
       Inr \<lparr>gr_type = src0_type, gr_head_dim = head_dim, gr_ne01 = ne01, gr_ne = (ne10, ne11, ne12),
            gr_src_nb = (src0_nb1, src0_nb2, src0_nb3), gr_idx_nb = (indices_nb1, indices_nb2),
            gr_dst_nb = (dst_nb1, dst_nb2, dst_nb3), gr_src = src, gr_dst = dst, gr_idx = idx,
            gr_rowblock_nbytes = rowblock_nbytes\<rparr>))))))))))))"

definition get_rows_parse :: "pyenv \<Rightarrow> dict \<Rightarrow> get_rows_params res" where
  "get_rows_parse env op =
     (let src0_type = py_str env (obj_get op F_SRC0_TYPE (JStr '''')) in
      if map_of get_rows_fns src0_type = None then Inl ERR_invalid
      else if py_str env (obj_get op F_INDICES_TYPE (JStr ''i32'')) \<noteq> ''i32'' then Inl ERR_invalid
      else
        bindR (positive_int op F_HEAD_DIM) (\<lambda>head_dim.
        bindR (positive_int op F_NE01) (\<lambda>ne01.
        bindR (positive_int op F_NE10) (\<lambda>ne10.
        bindR (obj_int_or op F_NE11 1) (\<lambda>ne11.
        bindR (obj_int_or op F_NE12 1) (\<lambda>ne12.
          get_rows_layout op src0_type head_dim ne01 ne10 (max 1 ne11) (max 1 ne12)))))))"

text \<open>The source row of one index: offset and size in the tensor, the row count and the index given to C.\<close>

definition get_rows_source :: "get_rows_params \<Rightarrow> int \<Rightarrow> int \<Rightarrow> int \<Rightarrow> int \<times> int \<times> int \<times> int" where
  "get_rows_source p i12 i11 i01 =
     (case gr_src_nb p of (src0_nb1, src0_nb2, src0_nb3) \<Rightarrow>
      if gr_type p = ''q1_0'' then
        (snd (gr_src p) + i01 div ROWS_PER_BLOCK * gr_rowblock_nbytes p + i11 * src0_nb2 + i12 * src0_nb3,
         gr_rowblock_nbytes p, ROWS_PER_BLOCK, i01 mod ROWS_PER_BLOCK)
      else
        (snd (gr_src p) + i01 * src0_nb1 + i11 * src0_nb2 + i12 * src0_nb3, src0_nb1, 1, 0))"

definition get_rows_src_ptr :: "int \<Rightarrow> int \<Rightarrow> int \<Rightarrow> byte list list \<Rightarrow> ('d world, ptr \<times> byte list list) py" where
  "get_rows_src_ptr h offset nbytes bufs =
     py_catch (py_bind (get_slab_pointer h offset nbytes) (\<lambda>a. py_ret (PVa a, bufs)))
       (\<lambda>e. if e = ERR_invalid then
              if nbytes < 0 then py_raise ValueError
              else py_bind (on_alloc (read_tensor h offset nbytes True)) (\<lambda>bs.
                py_ret (PBuf (length bufs) 0, bufs @ [bs]))
            else py_raise e)"

definition get_rows_dst_ptr :: "int \<Rightarrow> int \<Rightarrow> int \<Rightarrow> byte list list \<Rightarrow> ('d world, ptr \<times> byte list list \<times> nat option) py" where
  "get_rows_dst_ptr h offset nbytes bufs =
     py_catch (py_bind (get_slab_pointer h offset nbytes) (\<lambda>a. py_ret (PVa a, bufs, None)))
       (\<lambda>e. if e = ERR_invalid then
              if nbytes < 0 then py_raise ValueError
              else py_ret (PBuf (length bufs) 0, bufs @ [replicate (nat nbytes) 0], Some (length bufs))
            else py_raise e)"

definition get_rows_args :: "get_rows_params \<Rightarrow> ptr \<Rightarrow> ptr \<Rightarrow> int \<Rightarrow> carg list" where
  "get_rows_args p src dst c_ne01 =
     (let src0_nb1 = fst (gr_src_nb p); dst_nb1 = fst (gr_dst_nb p) in
      [CPtr src, c_size_t src0_nb1, c_size_t src0_nb1, c_size_t src0_nb1, CPtr (PBuf 0 0), c_size_t 4, c_size_t 4,
       CPtr dst, c_size_t dst_nb1, c_size_t dst_nb1, c_size_t dst_nb1,
       c_uint32 (gr_head_dim p), c_uint32 c_ne01, c_uint32 1, c_uint32 1, c_uint32 1])"

text \<open>One output row: buffer 0 holds the index; the result is the number of source bytes.\<close>

definition get_rows_row :: "clib \<Rightarrow> get_rows_params \<Rightarrow> byte list \<Rightarrow> int \<times> int \<times> int \<Rightarrow> ('e ps_world, int) py" where
  "get_rows_row lib p indices = (\<lambda>(i12, i11, i10).
     let idx_byte_off = i10 * 4 + i11 * fst (gr_idx_nb p) + i12 * snd (gr_idx_nb p);
         i01 = le_signed (py_slice indices idx_byte_off (idx_byte_off + 4)) in
     if i01 < 0 \<or> i01 \<ge> gr_ne01 p then py_raise RuntimeError
     else
       case get_rows_source p i12 i11 i01 of (src_row_offset, src_nbytes, c_ne01, lane) \<Rightarrow>
       case gr_dst_nb p of (dst_nb1, dst_nb2, dst_nb3) \<Rightarrow>
       let dst_row_offset = snd (gr_dst p) + i10 * dst_nb1 + i11 * dst_nb2 + i12 * dst_nb3 in
       py_bind (get_rows_src_ptr (fst (gr_src p)) src_row_offset src_nbytes [le_bytes 4 lane]) (\<lambda>(src, bufs).
       py_bind (get_rows_dst_ptr (fst (gr_dst p)) dst_row_offset dst_nb1 bufs) (\<lambda>(dst, bufs1, dst_buf).
       py_bind (checked_call lib (the (map_of get_rows_fns (gr_type p))) (get_rows_args p src dst c_ne01) bufs1) (\<lambda>bufs2.
       py_then (case dst_buf of
                  None \<Rightarrow> py_ret ()
                | Some j \<Rightarrow> on_alloc (write_tensor (fst (gr_dst p)) dst_row_offset (py_slice (bufs2 ! j) 0 dst_nb1) True))
         (py_ret src_nbytes)))))"

definition rows3 :: "int \<Rightarrow> int \<Rightarrow> int \<Rightarrow> (int \<times> int \<times> int) list" where
  "rows3 n3 n2 n1 = concat (map (\<lambda>i3. concat (map (\<lambda>i2. map (\<lambda>i1. (i3, i2, i1)) (py_range n1)) (py_range n2))) (py_range n3))"

fun get_rows_loop :: "clib \<Rightarrow> get_rows_params \<Rightarrow> byte list \<Rightarrow> (int \<times> int \<times> int) list \<Rightarrow> int \<Rightarrow> ('e ps_world, int) py" where
  "get_rows_loop lib p indices [] acc = py_ret acc"
| "get_rows_loop lib p indices (i # rest) acc =
     py_bind (get_rows_row lib p indices i) (\<lambda>n. get_rows_loop lib p indices rest (acc + n))"

definition get_rows_run :: "pyenv \<Rightarrow> clib \<Rightarrow> dict \<Rightarrow> ('e ps_world, unit) py" where
  "get_rows_run env lib op =
     py_read (get_rows_parse env op) (\<lambda>p.
     case gr_ne p of (ne10, ne11, ne12) \<Rightarrow>
     let indices_nbytes = snd (gr_idx_nb p) * ne12 in
     py_bind (timer_section env ''read'' (on_alloc (read_tensor (fst (gr_idx p)) (snd (gr_idx p)) indices_nbytes True))) (\<lambda>indices.
     py_then (timer_add ''bytes_read'' indices_nbytes)
     (py_bind (timer_section env ''compute'' (get_rows_loop lib p indices (rows3 ne12 ne11 ne10) 0)) (\<lambda>compute_bytes_read.
     py_then (timer_add ''bytes_read'' compute_bytes_read)
       (timer_add ''bytes_written'' (ne10 * ne11 * ne12 * fst (gr_dst_nb p)))))))"

section \<open>SET_ROWS\<close>

record set_rows_params =
  sr_head_dim :: int
  sr_idx_elem :: int
  sr_ne :: "int \<times> int \<times> int"
  sr_ne1 :: "int \<times> int"
  sr_src_nb :: "int \<times> int \<times> int"
  sr_idx_nb :: "int \<times> int"
  sr_dst_nb :: "int \<times> int \<times> int"
  sr_src :: "int \<times> int"
  sr_idx :: "int \<times> int"
  sr_dst :: "int \<times> int"

text \<open>\<open>int(op.get(key, 1)) or 1\<close>.\<close>

definition int_or_1 :: "dict \<Rightarrow> string \<Rightarrow> int res" where
  "int_or_1 op key = bindR (obj_int_or op key 1) (\<lambda>n. Inr (if n = 0 then 1 else n))"

definition set_rows_layout :: "dict \<Rightarrow> int \<Rightarrow> int \<Rightarrow> int \<Rightarrow> int \<Rightarrow> int \<Rightarrow> int \<Rightarrow> int \<Rightarrow> set_rows_params res" where
  "set_rows_layout op idx_elem head_dim ne01 ne02 ne03 ne11 ne12 =
     bindR (obj_int op F_SRC0_NB1) (\<lambda>src0_nb1.
     bindR (obj_int_or op F_SRC0_NB2 (src0_nb1 * ne01)) (\<lambda>src0_nb2.
     bindR (obj_int_or op F_SRC0_NB3 (src0_nb2 * ne02)) (\<lambda>src0_nb3.
     bindR (obj_int_or op F_INDICES_NB1 (ne01 * idx_elem)) (\<lambda>indices_nb1.
     bindR (obj_int_or op F_INDICES_NB2 (indices_nb1 * ne11)) (\<lambda>indices_nb2.
     bindR (obj_int op F_DST_NB1) (\<lambda>dst_nb1.
     bindR (obj_int_or op F_DST_NB2 dst_nb1) (\<lambda>dst_nb2.
     bindR (obj_int_or op F_DST_NB3 dst_nb2) (\<lambda>dst_nb3.
     bindR (optional_int op F_SRC0_OFFSET 0) (\<lambda>src0_offset.
     bindR (optional_int op F_INDICES_OFFSET 0) (\<lambda>indices_offset.
     bindR (optional_int op F_DST_OFFSET 0) (\<lambda>dst_offset.
     bindR (required_int op F_SRC0) (\<lambda>src0_handle.
     bindR (required_int op F_INDICES) (\<lambda>indices_handle.
     bindR (required_int op F_DST) (\<lambda>dst_handle.
       Inr \<lparr>sr_head_dim = head_dim, sr_idx_elem = idx_elem, sr_ne = (ne01, ne02, ne03), sr_ne1 = (ne11, ne12),
            sr_src_nb = (src0_nb1, src0_nb2, src0_nb3), sr_idx_nb = (indices_nb1, indices_nb2),
            sr_dst_nb = (dst_nb1, dst_nb2, dst_nb3), sr_src = (src0_handle, src0_offset),
            sr_idx = (indices_handle, indices_offset), sr_dst = (dst_handle, dst_offset)\<rparr>))))))))))))))"

definition set_rows_parse :: "pyenv \<Rightarrow> dict \<Rightarrow> set_rows_params res" where
  "set_rows_parse env op =
     (let idx_type = py_str env (obj_get op F_INDICES_TYPE (JStr ''i32'')) in
      if py_str env (obj_get op F_DST_TYPE (JStr ''f16'')) \<noteq> ''f16'' then Inl ERR_invalid
      else if idx_type \<notin> set [''i32'', ''i64''] then Inl ERR_invalid
      else
        bindR (positive_int op F_HEAD_DIM) (\<lambda>head_dim.
        bindR (positive_int op F_NE01) (\<lambda>ne01.
        bindR (int_or_1 op F_NE02) (\<lambda>ne02.
        bindR (int_or_1 op F_NE03) (\<lambda>ne03.
        bindR (int_or_1 op F_NE11) (\<lambda>ne11.
        bindR (int_or_1 op F_NE12) (\<lambda>ne12.
          set_rows_layout op (if idx_type = ''i32'' then 4 else 8) head_dim ne01 ne02 ne03 ne11 ne12)))))))"

text \<open>The slabs whose mapping was written in place, each with the range to flush.\<close>

type_synonym touched = "(nat \<times> int \<times> int) list"

definition touch :: "nat \<Rightarrow> int \<Rightarrow> int \<Rightarrow> touched \<Rightarrow> touched" where
  "touch i lo hi t =
     (case map_of t i of
        None \<Rightarrow> AList.update i (lo, hi) t
      | Some (lo0, hi0) \<Rightarrow> AList.update i (min lo0 lo, max hi0 hi) t)"

abbreviation (input) ROW_SYMBOL :: string where "ROW_SYMBOL \<equiv> ''bonsai_set_rows_row_f32_to_f16''"

text \<open>\<open>_write_row\<close>: the converter's return code is not looked at; \<open>j\<close> is the index of the scratch row.\<close>

definition slab_write_at :: "nat \<Rightarrow> int \<Rightarrow> byte list \<Rightarrow> (allocator, unit) py" where
  "slab_write_at i offset bs a =
     (case slab_write (al_slabs a ! i) offset bs True of
        Inl e \<Rightarrow> (Inl e, a)
      | Inr s \<Rightarrow> (Inr (), set_slab i s a))"

definition write_row :: "clib \<Rightarrow> int \<Rightarrow> int \<Rightarrow> int \<Rightarrow> ptr \<Rightarrow> int \<Rightarrow> nat \<Rightarrow> byte list list \<times> touched \<Rightarrow>
    ('e ps_world, byte list list \<times> touched) py" where
  "write_row lib dst_handle dst_rel dst_row_bytes src_addr head_dim j = (\<lambda>(bufs, t).
     py_bind (py_get w_alloc) (\<lambda>a.
     case slab_view a dst_handle dst_rel dst_row_bytes of
       Inl e \<Rightarrow>
         if e = ERR_multi then
           py_bind (call_native lib ROW_SYMBOL [CPtr (PBuf j 0), CPtr src_addr, c_uint32 head_dim] bufs) (\<lambda>(rc, bufs1).
           py_then (on_alloc (write_tensor dst_handle dst_rel (bufs1 ! j) True)) (py_ret (bufs1, t)))
         else py_raise e
     | Inr (i, abs_off, _) \<Rightarrow>
         (case base_va (al_slabs a ! i) of
            None \<Rightarrow>
              py_bind (call_native lib ROW_SYMBOL [CPtr (PBuf j 0), CPtr src_addr, c_uint32 head_dim] bufs) (\<lambda>(rc, bufs1).
              py_then (on_alloc (slab_write_at i abs_off (bufs1 ! j))) (py_ret (bufs1, t)))
          | Some base \<Rightarrow>
              py_bind (call_native lib ROW_SYMBOL [CPtr (PVa (base + abs_off)), CPtr src_addr, c_uint32 head_dim] bufs)
                (\<lambda>(rc, bufs1). py_ret (bufs1, touch i abs_off (abs_off + dst_row_bytes) t)))))"

definition set_rows_row :: "clib \<Rightarrow> set_rows_params \<Rightarrow> byte list \<Rightarrow> ptr \<Rightarrow> nat \<Rightarrow> int \<times> int \<times> int \<Rightarrow>
    byte list list \<times> touched \<Rightarrow> ('e ps_world, byte list list \<times> touched) py" where
  "set_rows_row lib p idx_raw src_ptr j = (\<lambda>(i03, i02, i) st.
     case (sr_ne1 p, sr_src_nb p, sr_idx_nb p, sr_dst_nb p) of
       ((ne11, ne12), (src0_nb1, src0_nb2, src0_nb3), (indices_nb1, indices_nb2), (dst_nb1, dst_nb2, dst_nb3)) \<Rightarrow>
     let ioff = i * sr_idx_elem p + i02 mod ne11 * indices_nb1 + i03 mod ne12 * indices_nb2;
         row = le_signed (py_slice idx_raw ioff (ioff + sr_idx_elem p)) in
     if row < 0 then py_raise ERR_invalid
     else
       let src_addr = ptr_add src_ptr (i * src0_nb1 + i02 * src0_nb2 + i03 * src0_nb3);
           dst_rel = snd (sr_dst p) + row * dst_nb1 + i02 * dst_nb2 + i03 * dst_nb3
       in write_row lib (fst (sr_dst p)) dst_rel (sr_head_dim p * 2) src_addr (sr_head_dim p) j st)"

fun set_rows_loop :: "clib \<Rightarrow> set_rows_params \<Rightarrow> byte list \<Rightarrow> ptr \<Rightarrow> nat \<Rightarrow> (int \<times> int \<times> int) list \<Rightarrow>
    byte list list \<times> touched \<Rightarrow> int \<Rightarrow> ('e ps_world, touched \<times> int) py" where
  "set_rows_loop lib p idx_raw src_ptr j [] st n_written = py_ret (snd st, n_written)"
| "set_rows_loop lib p idx_raw src_ptr j (i # rest) st n_written =
     py_bind (set_rows_row lib p idx_raw src_ptr j i st) (\<lambda>st1.
       set_rows_loop lib p idx_raw src_ptr j rest st1 (n_written + 1))"

definition flush_touched :: "nat \<times> int \<times> int \<Rightarrow> ('d world, unit) py" where
  "flush_touched = (\<lambda>(i, lo, hi).
     py_mod (\<lambda>w. w\<lparr>w_alloc := set_slab i (slab_flush_range (al_slabs (w_alloc w) ! i) lo (hi - lo)) (w_alloc w)\<rparr>))"

definition set_rows_run :: "pyenv \<Rightarrow> clib \<Rightarrow> dict \<Rightarrow> ('e ps_world, unit) py" where
  "set_rows_run env lib op =
     py_read (set_rows_parse env op) (\<lambda>p.
     case (sr_ne p, sr_ne1 p) of ((ne01, ne02, ne03), (ne11, ne12)) \<Rightarrow>
     let src0_nbytes = snd (snd (sr_src_nb p)) * ne03;
         indices_nbytes = snd (sr_idx_nb p) * ne12;
         dst_row_bytes = sr_head_dim p * 2 in
     py_bind (timer_section env ''read''
         (py_bind (on_alloc (read_tensor (fst (sr_idx p)) (snd (sr_idx p)) indices_nbytes True)) (\<lambda>idx_raw.
          py_bind (readable_base (fst (sr_src p)) (snd (sr_src p)) src0_nbytes []) (\<lambda>r. py_ret (idx_raw, r)))))
       (\<lambda>(idx_raw, src_ptr, bufs).
     py_then (timer_add ''bytes_read'' (src0_nbytes + indices_nbytes))
     (py_bind (timer_section env ''compute''
         (set_rows_loop lib p idx_raw src_ptr (length bufs) (rows3 ne03 ne02 ne01)
            (bufs @ [replicate (nat dst_row_bytes) 0], []) 0)) (\<lambda>(t, n_written).
     py_then (timer_section env ''write'' (py_for t flush_touched))
       (timer_add ''bytes_written'' (n_written * dst_row_bytes))))))"

section \<open>The registry of the PS kernels\<close>

definition ps_kernel :: "string \<Rightarrow> (dict \<Rightarrow> ('e ps_world, unit) py) \<Rightarrow> ('e ps_state_scheme, 'p) kernel" where
  "ps_kernel nm run =
     \<lparr>k_name = nm, k_backend = None, k_run = run, k_run_async = None, k_complete = (\<lambda>_. py_raise AttributeError)\<rparr>"

text \<open>The kernels in the order of \<open>register_all\<close>, each with the symbols its constructor binds.\<close>

definition ps_kernels :: "pyenv \<Rightarrow> pynq_allocate \<Rightarrow> clib \<Rightarrow> (string list \<times> ('e ps_state_scheme, 'p) kernel) list" where
  "ps_kernels env palloc lib =
     [([ROW_SYMBOL], ps_kernel GOP_COPY (copy_run env (Some lib))),
      ([''bonsai_matmul_q1a8''], ps_kernel GOP_MATMUL_Q1A8 (matmul_run env lib)),
      ([''bonsai_add_f32''], ps_kernel GOP_ADD_F32 (binary_run env lib ''bonsai_add_f32'')),
      ([''bonsai_mul_f32''], ps_kernel GOP_MUL_F32 (binary_run env lib ''bonsai_mul_f32'')),
      ([''bonsai_scale_f32''], ps_kernel GOP_SCALE_F32 (scale_run env lib)),
      ([''bonsai_silu_f32''], ps_kernel GOP_SILU_F32 (unary_run env lib ''bonsai_silu_f32'')),
      ([''bonsai_swiglu_f32''], ps_kernel GOP_SWIGLU_F32 (swiglu_run env lib)),
      ([''bonsai_rms_norm_f32''], ps_kernel GOP_RMS_NORM_F32 (rms_norm_run env lib)),
      ([''bonsai_rms_norm_mul_f32''], ps_kernel GOP_RMS_NORM_MUL_F32 (rms_norm_mul_run env lib)),
      ([''bonsai_rope_f32''], ps_kernel GOP_ROPE_F32 (rope_run env lib)),
      ([''bonsai_flash_attn_ext_f32''], ps_kernel GOP_FLASH_ATTN_EXT_F32 (flash_run env palloc lib)),
      (map snd get_rows_fns, ps_kernel GOP_GET_ROWS (get_rows_run env lib)),
      ([ROW_SYMBOL], ps_kernel GOP_SET_ROWS (set_rows_run env lib))]"

text \<open>\<open>getattr(lib, symbol)\<close> raises for a symbol the library does not export.\<close>

definition register_one :: "clib \<Rightarrow> string list \<times> ('d, 'p) kernel \<Rightarrow> (('d, 'p) registry, unit) py" where
  "register_one lib = (\<lambda>(symbs, knl) reg.
     if \<not> list_all (cl_has lib) symbs then (Inl AttributeError, reg)
     else case register (Some knl) reg of Inl e \<Rightarrow> (Inl e, reg) | Inr reg' \<Rightarrow> (Inr (), reg'))"

text \<open>\<open>load_lib\<close>: the library at the path, if the file is there.\<close>

definition load_lib :: "(string \<Rightarrow> 'l option) \<Rightarrow> string option \<Rightarrow> 'l res" where
  "load_lib files path =
     (case files (case path of Some p \<Rightarrow> (if p = [] then ''libbonsai_ps.so'' else p) | None \<Rightarrow> ''libbonsai_ps.so'') of
        None \<Rightarrow> Inl FileNotFoundError
      | Some lib \<Rightarrow> Inr lib)"

definition register_all :: "pyenv \<Rightarrow> pynq_allocate \<Rightarrow> (string \<Rightarrow> clib option) \<Rightarrow> string option \<Rightarrow>
    (('e ps_state_scheme, 'p) registry, unit) py" where
  "register_all env palloc files lib_path =
     py_read (load_lib files lib_path) (\<lambda>lib. py_for (ps_kernels env palloc lib) (register_one lib))"

end
