(* ===== verification/PlDevice.thy ===== *)
theory PlDevice
  imports PsKernels
begin

text \<open>
  What the drivers of \<^verbatim>\<open>board/kernels/pl\<close> talk to: the overlay object that PYNQ builds from
  the bitstream, the CMA buffers that a driver asks of PYNQ, and the entry points of the C library
  that poke the DMA engines and the kernel.  The state of the hardware is of a type \<open>'h\<close> of
  which the model assumes nothing; PYNQ, the library and the hardware are parameters, collected in the
  record \<open>pl_host\<close>.  The state of the matmul driver, the attributes of the object
  \<open>PLMatmulQ1A8\<close>, extends the state of the PS kernels in the world.
\<close>

section \<open>CMA buffers of the driver\<close>

datatype pl_role = ActsBuf | WeightsDmaBuf | ResultBuf | WeightsScratch | ActsInScratch

record cma =
  cb_phys :: int
  cb_va :: int
  cb_cells :: "byte list"
  cb_ops :: "cache_op list"

record 'h pl_mem =
  pm_slabs :: "slab list"
  pm_bufs :: "byte list list"
  pm_cma :: "(pl_role \<times> cma) list"
  pm_hw :: 'h

record 'h pl_lib = clib +
  cl_pl_call :: "string \<Rightarrow> carg list \<Rightarrow> 'h pl_mem \<Rightarrow> int \<times> 'h pl_mem"

section \<open>The overlay\<close>

text \<open>
  A read of a kernel register gives an integer, or on an overlay that is not real hardware some other
  object with what \<open>int\<close> makes of it.  A DMA channel is driven by starting a transfer of a
  slice of a slab's buffer and by waiting for its end.
\<close>

datatype regval = RegInt int | RegObject "int res"

datatype dma_cmd = SendTransfer nat int int | RecvTransfer nat int int | SendWait | RecvWait

record 'h overlay =
  ov_ip_dict :: "(string \<times> dict) list option"
  ov_attrs :: "string list"
  ov_kernel_mmio :: "int option"
  ov_mmio :: "json \<Rightarrow> json \<Rightarrow> int res"
  ov_read :: "int \<Rightarrow> 'h \<Rightarrow> regval"
  ov_dma :: "dma_cmd \<Rightarrow> slab list \<Rightarrow> 'h \<Rightarrow> unit res \<times> slab list \<times> 'h"

record 'h pl_host =
  ph_palloc :: pynq_allocate
  ph_files :: "string \<Rightarrow> 'h pl_lib option"
  ph_overlay :: "'h overlay"
  ph_uninit :: "nat \<Rightarrow> byte"

text \<open>
  The attributes of a \<open>PLMatmulQ1A8\<close>.  \<open>pl_bound\<close>: the five functions of the library are bound; they
  are those of the file that \<open>load_lib\<close> opens.
\<close>

record 'h pl_state = ps_state +
  pl_cma :: "(pl_role \<times> cma) list"
  pl_sizes :: "(pl_role \<times> int) list"
  pl_bound :: bool
  pl_kernel_regs :: "int option"
  pl_dma_w_regs :: "int option"
  pl_dma_a_regs :: "int option"
  pl_rows_per_block :: int
  pl_hw :: 'h

type_synonym 'h pl_world = "'h pl_state world"

definition call_pl :: "'h pl_lib \<Rightarrow> string \<Rightarrow> carg list \<Rightarrow> byte list list \<Rightarrow> ('h pl_world, int \<times> byte list list) py" where
  "call_pl lib symb args bufs w =
     (case cl_pl_call lib symb args
         \<lparr>pm_slabs = al_slabs (w_alloc w), pm_bufs = bufs, pm_cma = pl_cma (w_dev w), pm_hw = pl_hw (w_dev w)\<rparr> of
        (rc, m) \<Rightarrow>
          (Inr (rc, pm_bufs m),
           w\<lparr>w_alloc := (w_alloc w)\<lparr>al_slabs := pm_slabs m\<rparr>,
             w_dev := (w_dev w)\<lparr>pl_cma := pm_cma m, pl_hw := pm_hw m\<rparr>\<rparr>))"

text \<open>A call of a bound function, an attribute that is \<open>None\<close> before it is bound, and the check of its return code.\<close>

definition bound_lib :: "'h pl_host \<Rightarrow> 'h pl_state \<Rightarrow> 'h pl_lib res" where
  "bound_lib host d = (if pl_bound d then load_lib (ph_files host) None else Inl TypeError)"

definition call_bound :: "'h pl_host \<Rightarrow> string \<Rightarrow> carg list \<Rightarrow> byte list list \<Rightarrow> ('h pl_world, int \<times> byte list list) py" where
  "call_bound host symb args bufs =
     py_bind (py_get w_dev) (\<lambda>d. py_read (bound_lib host d) (\<lambda>lib. call_pl lib symb args bufs))"

definition checked_pl :: "'h pl_host \<Rightarrow> string \<Rightarrow> carg list \<Rightarrow> byte list list \<Rightarrow> ('h pl_world, byte list list) py" where
  "checked_pl host symb args bufs =
     py_bind (call_bound host symb args bufs) (\<lambda>(rc, bufs').
       if rc \<noteq> 0 then py_raise RuntimeError else py_ret bufs')"

section \<open>Buffers\<close>

text \<open>\<open>allocate(shape=(nbytes,), dtype=uint8)\<close>; a negative shape is a \<open>ValueError\<close> of PYNQ, part of the parameter.\<close>

definition cma_alloc :: "pynq_allocate \<Rightarrow> pl_role \<Rightarrow> int \<Rightarrow> ('h pl_state, unit) py" where
  "cma_alloc palloc role nbytes d =
     (case palloc (scratch_count d) nbytes of
        Inl e \<Rightarrow> (Inl e, d)
      | Inr (pa, va, cells) \<Rightarrow>
          (Inr (), d\<lparr>pl_cma := AList.update role \<lparr>cb_phys = pa, cb_va = va, cb_cells = cells, cb_ops = []\<rparr> (pl_cma d),
                     pl_sizes := AList.update role nbytes (pl_sizes d),
                     scratch_count := Suc (scratch_count d)\<rparr>))"

definition cma_size :: "pl_role \<Rightarrow> 'h pl_state \<Rightarrow> int" where
  "cma_size role d = (case map_of (pl_sizes d) role of None \<Rightarrow> 0 | Some n \<Rightarrow> n)"

definition cma_upd :: "pl_role \<Rightarrow> (cma \<Rightarrow> cma) \<Rightarrow> 'h pl_state \<Rightarrow> 'h pl_state" where
  "cma_upd role f d =
     (case map_of (pl_cma d) role of None \<Rightarrow> d | Some b \<Rightarrow> d\<lparr>pl_cma := AList.update role (f b) (pl_cma d)\<rparr>)"

definition cma_cache :: "cache_op \<Rightarrow> cma \<Rightarrow> cma" where
  "cma_cache c b = b\<lparr>cb_ops := cb_ops b @ [c]\<rparr>"

text \<open>\<open>memmove\<close> of the bytes of a tensor to the start of a buffer.\<close>

definition cma_fill :: "byte list \<Rightarrow> cma \<Rightarrow> cma" where
  "cma_fill src b = b\<lparr>cb_cells := src @ drop (length src) (cb_cells b)\<rparr>"

definition get_cma :: "pl_role \<Rightarrow> pyerror \<Rightarrow> ('h pl_world, cma) py" where
  "get_cma role e =
     py_bind (py_get (\<lambda>w. map_of (pl_cma (w_dev w)) role)) (\<lambda>b.
       case b of None \<Rightarrow> py_raise e | Some b \<Rightarrow> py_ret b)"

text \<open>\<open>buffer.flush()\<close>, of the whole buffer.\<close>

definition flush_cma :: "pl_role \<Rightarrow> ('h pl_world, unit) py" where
  "flush_cma role =
     on_dev (py_mod (cma_upd role (\<lambda>b. cma_cache (Flush 0 (int (length (cb_cells b)))) b)))"

text \<open>\<open>numpy.empty\<close>: the contents are whatever the memory held.\<close>

definition np_empty :: "'h pl_host \<Rightarrow> int \<Rightarrow> byte list" where
  "np_empty host n = map (ph_uninit host) [0..<nat n]"

text \<open>A \<open>None\<close> passed as \<open>c_void_p\<close> is the null pointer.\<close>

definition void_p :: "int option \<Rightarrow> carg" where
  "void_p p = CPtr (PVa (case p of None \<Rightarrow> 0 | Some a \<Rightarrow> a))"

definition overlay_has :: "'h overlay \<Rightarrow> string \<Rightarrow> bool" where
  "overlay_has ov name \<longleftrightarrow>
     (case ov_ip_dict ov of None \<Rightarrow> False | Some d \<Rightarrow> map_of d name \<noteq> None) \<or> name \<in> set (ov_attrs ov)"

end
