(* ===== verification/PlMatmul.thy ===== *)
theory PlMatmul
  imports PlDevice
begin

text \<open>
  The driver of the Q1A8 matmul kernel, \<^verbatim>\<open>board/kernels/pl/matmul_q1a8.py\<close>: resolution of
  pointers and physical addresses, the lazily made buffers, the loop over columns and over chunks of
  row blocks, and the asynchronous variant that starts one chunk and leaves the wait to
  \<open>complete\<close>.
\<close>

section \<open>Constants and readers\<close>

definition REG_ID :: int where "REG_ID = 0x00"
definition REG_VERSION :: int where "REG_VERSION = 0x04"
definition REG_ROWS :: int where "REG_ROWS = 0x1C"
definition EXPECTED_ID :: int where "EXPECTED_ID = 0xB05A2000"
definition EXPECTED_VERSION :: int where "EXPECTED_VERSION = 4"
definition POLL_LIMIT :: int where "POLL_LIMIT = 10000000"

abbreviation (input) pl_required :: "dict \<Rightarrow> string \<Rightarrow> int res" where
  "pl_required \<equiv> required_int"

abbreviation (input) pl_optional_int :: "dict \<Rightarrow> string \<Rightarrow> int res" where
  "pl_optional_int op key \<equiv> optional_int op key 0"

definition pl_symbols :: "string list" where
  "pl_symbols = [''bonsai_quantize_q8_0_pl'', ''bonsai_q1a8_pack_acts'', ''bonsai_q1a8_run_matmul_chunk'',
     ''bonsai_q1a8_start_matmul_chunk'', ''bonsai_q1a8_wait_matmul_chunk'']"

section \<open>Lazy initialisation\<close>

definition bind_native :: "'h pl_lib \<Rightarrow> unit res" where
  "bind_native lib = (if list_all (cl_has lib) pl_symbols then Inr () else Inl AttributeError)"

definition ensure_native :: "'h pl_host \<Rightarrow> ('h pl_state, unit) py" where
  "ensure_native host =
     py_bind (py_get pl_bound) (\<lambda>bound.
       if bound then py_ret ()
       else py_read (load_lib (ph_files host) None) (\<lambda>lib.
         py_read (bind_native lib) (\<lambda>_. py_mod (\<lambda>d. d\<lparr>pl_bound := True\<rparr>))))"

definition open_dma_mmio :: "'h overlay \<Rightarrow> string \<Rightarrow> int res" where
  "open_dma_mmio ov name =
     (case ov_ip_dict ov of
        None \<Rightarrow> Inl AttributeError
      | Some ip_dict \<Rightarrow>
          (case map_of ip_dict name of
             None \<Rightarrow> Inl KeyError
           | Some info \<Rightarrow>
               bindR (obj_index info ''phys_addr'') (\<lambda>pa.
               bindR (obj_index info ''addr_range'') (\<lambda>rng. ov_mmio ov pa rng))))"

definition ensure_mmio_pointers :: "'h pl_host \<Rightarrow> ('h pl_state, unit) py" where
  "ensure_mmio_pointers host =
     py_bind (py_get pl_kernel_regs) (\<lambda>regs.
       if regs \<noteq> None then py_ret ()
       else
         (case ov_kernel_mmio (ph_overlay host) of
            None \<Rightarrow> py_raise AttributeError
          | Some base \<Rightarrow>
              py_then (py_mod (\<lambda>d. d\<lparr>pl_kernel_regs := Some base\<rparr>))
              (py_read (open_dma_mmio (ph_overlay host) ''axi_dma_0'') (\<lambda>w.
               py_then (py_mod (\<lambda>d. d\<lparr>pl_dma_w_regs := Some w\<rparr>))
               (py_read (open_dma_mmio (ph_overlay host) ''axi_dma_1'') (\<lambda>a.
                  py_mod (\<lambda>d. d\<lparr>pl_dma_a_regs := Some a\<rparr>)))))))"

definition check_kernel_id :: "'h pl_host \<Rightarrow> ('h pl_state, unit) py" where
  "check_kernel_id host =
     py_bind (py_get pl_hw) (\<lambda>hw.
       case ov_read (ph_overlay host) REG_ID hw of
         RegInt got_id \<Rightarrow>
           if got_id \<noteq> EXPECTED_ID then py_raise RuntimeError
           else (case ov_read (ph_overlay host) REG_VERSION hw of
                   RegInt got_version \<Rightarrow> if got_version \<noteq> EXPECTED_VERSION then py_raise RuntimeError else py_ret ()
                 | RegObject _ \<Rightarrow> py_ret ())
       | RegObject _ \<Rightarrow>
           (case ov_read (ph_overlay host) REG_VERSION hw of
              RegInt got_version \<Rightarrow> if got_version \<noteq> EXPECTED_VERSION then py_raise RuntimeError else py_ret ()
            | RegObject _ \<Rightarrow> py_ret ()))"

definition read_rows_per_block :: "'h pl_host \<Rightarrow> ('h pl_state, int) py" where
  "read_rows_per_block host =
     py_bind (py_get pl_hw) (\<lambda>hw.
     py_read (case ov_read (ph_overlay host) REG_ROWS hw of RegInt n \<Rightarrow> Inr n | RegObject r \<Rightarrow> r) (\<lambda>rows_per_block.
       if rows_per_block \<noteq> ROWS_PER_BLOCK then py_raise RuntimeError
       else py_then (py_mod (\<lambda>d. d\<lparr>pl_rows_per_block := rows_per_block\<rparr>)) (py_ret rows_per_block)))"

section \<open>Buffers and addresses\<close>

text \<open>One of the three DMA buffers: an old buffer that is too small is freed before the new one is made.\<close>

definition ensure_buffer :: "'h pl_host \<Rightarrow> pl_role \<Rightarrow> int \<Rightarrow> ('h pl_state, unit) py" where
  "ensure_buffer host role nbytes =
     py_bind (py_get (\<lambda>d. d)) (\<lambda>d.
       if map_of (pl_cma d) role = None \<or> cma_size role d < nbytes then
         py_then (py_mod (cma_upd role (cma_cache FreeBuffer))) (cma_alloc (ph_palloc host) role nbytes)
       else py_ret ())"

definition ensure_buffers :: "'h pl_host \<Rightarrow> int \<Rightarrow> int \<Rightarrow> int \<Rightarrow> ('h pl_state, unit) py" where
  "ensure_buffers host acts_nbytes weights_dma_nbytes result_nbytes =
     py_then (ensure_buffer host ActsBuf acts_nbytes)
     (py_then (ensure_buffer host WeightsDmaBuf weights_dma_nbytes)
       (ensure_buffer host ResultBuf result_nbytes))"

definition copy_to_cma_scratch :: "'h pl_host \<Rightarrow> int \<Rightarrow> int \<Rightarrow> int \<Rightarrow> string \<Rightarrow> ('h pl_world, int) py" where
  "copy_to_cma_scratch host h offset nbytes kd =
     (let role = (if kd = ''weights'' then WeightsScratch else ActsInScratch) in
      py_bind (py_get w_dev) (\<lambda>d.
      py_then (if map_of (pl_cma d) role = None \<or> cma_size role d < nbytes
               then on_dev (cma_alloc (ph_palloc host) role nbytes) else py_ret ())
      (py_bind (on_alloc (read_tensor h offset nbytes True)) (\<lambda>src.
       py_then (on_dev (py_mod (cma_upd role (cma_fill src))))
       (py_bind (get_cma role AttributeError) (\<lambda>b. py_ret (cb_va b)))))))"

definition resolve_slab_pointer :: "'h pl_host \<Rightarrow> int \<Rightarrow> int \<Rightarrow> int \<Rightarrow> string \<Rightarrow> ('h pl_world, int) py" where
  "resolve_slab_pointer host h offset nbytes kd =
     py_catch (get_slab_pointer h offset nbytes)
       (\<lambda>e. if e = ERR_multi then copy_to_cma_scratch host h offset nbytes kd else py_raise e)"

text \<open>\<open>slab.pynq_buffer.physical_address\<close>; a \<open>FakeSlab\<close> has no such attribute.\<close>

definition buffer_phys :: "slab \<Rightarrow> int res" where
  "buffer_phys s = (case kind s of FakeSlab \<Rightarrow> Inl AttributeError | PynqSlab \<Rightarrow> Inr (physical_address s))"

definition view_phys :: "allocator \<Rightarrow> int \<Rightarrow> int \<Rightarrow> int \<Rightarrow> (nat \<times> int \<times> int) res" where
  "view_phys a h offset nbytes =
     bindR (slab_view a h offset nbytes) (\<lambda>(i, abs_off, _).
     bindR (buffer_phys (al_slabs a ! i)) (\<lambda>pa. Inr (i, abs_off, pa + abs_off)))"

definition resolve_weights_phys :: "int \<Rightarrow> int \<Rightarrow> int \<Rightarrow> ('h pl_world, int) py" where
  "resolve_weights_phys h offset nbytes =
     py_catch (py_bind (py_get w_alloc) (\<lambda>a. py_read (view_phys a h offset nbytes) (\<lambda>(_, _, pa). py_ret pa)))
       (\<lambda>e. if e \<noteq> ERR_multi then py_raise e
            else
              py_bind (get_cma WeightsDmaBuf AssertionError) (\<lambda>b.
              py_bind (py_get (\<lambda>w. cma_size WeightsDmaBuf (w_dev w))) (\<lambda>n.
                if nbytes > n then py_raise RuntimeError
                else
                  py_bind (on_alloc (read_tensor h offset nbytes True)) (\<lambda>src.
                  py_then (on_dev (py_mod (cma_upd WeightsDmaBuf (cma_fill src))))
                  (py_then (flush_cma WeightsDmaBuf)
                  (py_bind (get_cma WeightsDmaBuf AttributeError) (\<lambda>b. py_ret (cb_phys b))))))))"

fun remaining_in :: "int \<Rightarrow> int \<Rightarrow> extent list \<Rightarrow> int" where
  "remaining_in cursor tensor_offset [] = 0"
| "remaining_in cursor tensor_offset (e # es) =
     (if tensor_offset < cursor + ext_nbytes e then cursor + ext_nbytes e - tensor_offset
      else remaining_in (cursor + ext_nbytes e) tensor_offset es)"

definition extent_remaining :: "allocator \<Rightarrow> int \<Rightarrow> int \<Rightarrow> int res" where
  "extent_remaining a h tensor_offset = bindR (tensor_extents a h) (\<lambda>es. Inr (remaining_in 0 tensor_offset es))"

section \<open>One chunk\<close>

text \<open>The wait of \<open>_run_matmul_dual_stream\<close>; \<open>out_cycles\<close> is the \<open>c_uint32\<close> behind the pointer.\<close>

definition call_wait :: "pyenv \<Rightarrow> 'h pl_host \<Rightarrow> byte list \<Rightarrow> ('h pl_world, byte list) py" where
  "call_wait env host out_cycles =
     py_bind (py_get w_dev) (\<lambda>d.
     py_bind (timer_section env ''chunk_wait'' (call_bound host ''bonsai_q1a8_wait_matmul_chunk''
             [void_p (pl_kernel_regs d), void_p (pl_dma_w_regs d), void_p (pl_dma_a_regs d), c_uint32 POLL_LIMIT, CPtr (PBuf 0 0)]
             [out_cycles])) (\<lambda>(rc, bufs).
       if rc \<noteq> 0 then py_raise RuntimeError else py_ret (bufs ! 0)))"

definition call_start :: "pyenv \<Rightarrow> 'h pl_host \<Rightarrow> int \<Rightarrow> int \<Rightarrow> int \<Rightarrow> int \<Rightarrow> int \<Rightarrow> int \<Rightarrow> int \<Rightarrow> ('h pl_world, unit) py" where
  "call_start env host weights_phys weights_nbytes acts_nbytes result_phys result_nbytes num_q1_blocks num_rowblocks =
     py_bind (py_get w_dev) (\<lambda>d.
     py_bind (get_cma ActsBuf AttributeError) (\<lambda>acts_buf.
     py_bind (timer_section env ''chunk_start'' (call_bound host ''bonsai_q1a8_start_matmul_chunk''
             [void_p (pl_kernel_regs d), void_p (pl_dma_w_regs d), void_p (pl_dma_a_regs d),
              c_uint32 weights_phys, c_uint32 weights_nbytes, c_uint32 (cb_phys acts_buf), c_uint32 acts_nbytes,
              c_uint32 result_phys, c_uint32 result_nbytes, c_uint32 num_q1_blocks, c_uint32 num_rowblocks] [])) (\<lambda>(rc, bufs).
       if rc \<noteq> 0 then py_raise RuntimeError else py_ret ())))"

text \<open>The result is the cell of \<open>out_cycles\<close>, still zero when the wait is deferred.\<close>

definition run_matmul_dual_stream ::
    "pyenv \<Rightarrow> 'h pl_host \<Rightarrow> int \<Rightarrow> int \<Rightarrow> int \<Rightarrow> int \<Rightarrow> int \<Rightarrow> int \<Rightarrow> int \<Rightarrow> int \<Rightarrow> bool \<Rightarrow> ('h pl_world, byte list) py" where
  "run_matmul_dual_stream env host weights_handle weights_offset weights_nbytes acts_nbytes result_phys result_nbytes
      num_q1_blocks num_rowblocks defer_wait =
     py_then (get_cma ActsBuf AssertionError)
     (py_bind (timer_section env ''resolve_weights'' (resolve_weights_phys weights_handle weights_offset weights_nbytes)) (\<lambda>weights_phys.
      timer_section env ''run_chunk''
        (py_then (call_start env host weights_phys weights_nbytes acts_nbytes result_phys result_nbytes num_q1_blocks num_rowblocks)
          (if defer_wait then py_ret [0, 0, 0, 0] else call_wait env host [0, 0, 0, 0]))))"

definition wait_chunk_deferred :: "pyenv \<Rightarrow> 'h pl_host \<Rightarrow> byte list \<Rightarrow> ('h pl_world, int) py" where
  "wait_chunk_deferred env host out_cycles =
     py_bind (py_get w_dev) (\<lambda>d.
     py_bind (timer_section env ''run_chunk'' (timer_section env ''chunk_wait'' (call_bound host ''bonsai_q1a8_wait_matmul_chunk''
             [void_p (pl_kernel_regs d), void_p (pl_dma_w_regs d), void_p (pl_dma_a_regs d), c_uint32 POLL_LIMIT, CPtr (PBuf 0 0)]
             [out_cycles]))) (\<lambda>(rc, bufs).
       if rc \<noteq> 0 then py_raise RuntimeError else py_ret (le_value (bufs ! 0))))"

section \<open>Columns and chunks\<close>

text \<open>The local variables of \<open>run\<close> that its loops read.\<close>

record pl_job =
  jb_rows :: int
  jb_cols :: int
  jb_k :: int
  jb_weights :: int
  jb_weights_offset :: int
  jb_dst :: int
  jb_dst_offset :: int
  jb_acts_addr :: int
  jb_acts_nbytes :: int
  jb_packed_bytes :: int
  jb_rows_per_block :: int
  jb_rowblocks :: int
  jb_max_rowblocks :: int

definition quantize_column :: "pyenv \<Rightarrow> 'h pl_host \<Rightarrow> int \<Rightarrow> int \<Rightarrow> byte list list \<Rightarrow> ('h pl_world, byte list list) py" where
  "quantize_column env host acts_addr k bufs =
     timer_section env ''quantize''
       (checked_pl host ''bonsai_quantize_q8_0_pl'' [CPtr (PVa acts_addr), c_uint32 k, CPtr (PBuf 0 0), CPtr (PBuf 1 0)] bufs)"

definition pack_column :: "pyenv \<Rightarrow> 'h pl_host \<Rightarrow> int \<Rightarrow> int \<Rightarrow> byte list list \<Rightarrow> ('h pl_world, byte list list) py" where
  "pack_column env host acts_buf_va k bufs =
     timer_section env ''pack_acts''
       (py_bind (checked_pl host ''bonsai_q1a8_pack_acts'' [CPtr (PBuf 0 0), CPtr (PBuf 1 0), c_uint32 k, CPtr (PVa acts_buf_va)] bufs) (\<lambda>bufs'.
        py_then (flush_cma ActsBuf) (py_ret bufs')))"

text \<open>The number of row blocks of a chunk: as many as fit the cap, the rest and the extent, or one that straddles.\<close>

definition chunk_size :: "int \<Rightarrow> int \<Rightarrow> int \<Rightarrow> int" where
  "chunk_size max_rowblocks remaining_rowblocks rowblocks_to_boundary =
     (let c = min max_rowblocks remaining_rowblocks in
      if rowblocks_to_boundary \<ge> 1 then min c rowblocks_to_boundary else 1)"

text \<open>The destination of a chunk: a slab with the offset in it and the physical address, or none for the scratch buffer.\<close>

definition chunk_dst :: "allocator \<Rightarrow> int \<Rightarrow> int \<Rightarrow> int \<Rightarrow> int \<Rightarrow> (nat \<times> int \<times> int) option res" where
  "chunk_dst a h offset padded actual =
     (if padded = actual then
        (case view_phys a h offset padded of
           Inr v \<Rightarrow> Inr (Some v)
         | Inl e \<Rightarrow> if e = ERR_multi then Inr None else Inl e)
      else Inr None)"

type_synonym dirty = "(nat \<times> int \<times> int) list"

definition mark_dirty :: "nat \<Rightarrow> int \<Rightarrow> int \<Rightarrow> dirty \<Rightarrow> dirty" where
  "mark_dirty i lo hi dst_dirty =
     (case map_of dst_dirty i of
        None \<Rightarrow> AList.update i (lo, hi) dst_dirty
      | Some (l, h) \<Rightarrow> AList.update i (min l lo, max h hi) dst_dirty)"

text \<open>The copy of a chunk's result from the scratch buffer to the destination tensor.\<close>

definition copy_result :: "pyenv \<Rightarrow> int \<Rightarrow> int \<Rightarrow> int \<Rightarrow> int \<Rightarrow> ('h pl_world, unit) py" where
  "copy_result env h offset padded actual =
     py_then (timer_section env ''result_invalidate''
       (on_dev (py_mod (cma_upd ResultBuf (\<lambda>b. cma_cache (Invalidate 0 (min padded (int (length (cb_cells b))))) b)))))
     (py_bind (timer_section env ''result_copy''
       (py_bind (get_cma ResultBuf TypeError) (\<lambda>b.
          if int (length (cb_cells b)) < actual then py_raise ValueError else py_ret (py_slice (cb_cells b) 0 actual)))) (\<lambda>chunk_bytes.
      timer_section env ''write'' (on_alloc (write_tensor h offset chunk_bytes True))))"

text \<open>One round of the loop: the rows and row blocks it took, its cycles, and the dirty ranges.\<close>

definition run_chunk :: "pyenv \<Rightarrow> 'h pl_host \<Rightarrow> pl_job \<Rightarrow> int \<Rightarrow> int \<Rightarrow> int \<Rightarrow> dirty \<Rightarrow> ('h pl_world, int \<times> int \<times> int \<times> dirty) py" where
  "run_chunk env host job col row_chunk_start rowblock_chunk_start dst_dirty =
     (let remaining_rowblocks = jb_rowblocks job - rowblock_chunk_start;
          chunk_weight_offset = jb_weights_offset job + rowblock_chunk_start * jb_packed_bytes job in
      py_bind (py_get w_alloc) (\<lambda>a.
      py_read (extent_remaining a (jb_weights job) chunk_weight_offset) (\<lambda>ext_remaining.
      let chunk_rowblocks = chunk_size (jb_max_rowblocks job) remaining_rowblocks (ext_remaining div jb_packed_bytes job);
          chunk_rows = min (chunk_rowblocks * jb_rows_per_block job) (jb_rows job - row_chunk_start);
          padded = chunk_rowblocks * jb_rows_per_block job * F32_BYTES;
          actual = chunk_rows * F32_BYTES;
          dst_chunk_offset = jb_dst_offset job + (col * jb_rows job + row_chunk_start) * F32_BYTES in
      py_read (chunk_dst a (jb_dst job) dst_chunk_offset padded actual) (\<lambda>dst.
      py_bind (case dst of
           Some (_, _, pa) \<Rightarrow> py_ret pa
         | None \<Rightarrow> py_bind (get_cma ResultBuf AttributeError) (\<lambda>b. py_ret (cb_phys b))) (\<lambda>result_phys.
      py_bind (timer_section env ''compute''
          (run_matmul_dual_stream env host (jb_weights job) chunk_weight_offset (chunk_rowblocks * jb_packed_bytes job)
             (jb_acts_nbytes job) result_phys padded (jb_k job div Q1_BLOCK) chunk_rowblocks False)) (\<lambda>cycles.
      case dst of
        Some (i, dst_abs, _) \<Rightarrow>
          py_ret (chunk_rows, chunk_rowblocks, le_value cycles, mark_dirty i dst_abs (dst_abs + actual) dst_dirty)
      | None \<Rightarrow>
          py_then (copy_result env (jb_dst job) dst_chunk_offset padded actual)
            (py_ret (chunk_rows, chunk_rowblocks, le_value cycles, dst_dirty))))))))"

text \<open>
  The loop over the chunks of a column.  Every round takes at least one row, so that the number
  of rows is fuel enough.
\<close>

fun chunk_loop :: "nat \<Rightarrow> pyenv \<Rightarrow> 'h pl_host \<Rightarrow> pl_job \<Rightarrow> int \<Rightarrow> int \<Rightarrow> int \<Rightarrow> int \<times> dirty \<Rightarrow> ('h pl_world, int \<times> dirty) py" where
  "chunk_loop fuel env host job col row_chunk_start rowblock_chunk_start (total_cycles, dst_dirty) =
     (if row_chunk_start < jb_rows job then
        (case fuel of
           0 \<Rightarrow> py_raise OutOfFuel
         | Suc n \<Rightarrow>
             py_bind (run_chunk env host job col row_chunk_start rowblock_chunk_start dst_dirty)
               (\<lambda>(chunk_rows, chunk_rowblocks, cycles, dirty').
                chunk_loop n env host job col (row_chunk_start + chunk_rows) (rowblock_chunk_start + chunk_rowblocks)
                  (total_cycles + cycles, dirty')))
      else py_ret (total_cycles, dst_dirty))"

declare chunk_loop.simps [simp del]

definition run_column :: "pyenv \<Rightarrow> 'h pl_host \<Rightarrow> pl_job \<Rightarrow> int \<Rightarrow> int \<Rightarrow> byte list list \<Rightarrow> int \<times> dirty \<Rightarrow> ('h pl_world, byte list list \<times> int \<times> dirty) py" where
  "run_column env host job acts_buf_va col bufs st =
     py_bind (quantize_column env host (jb_acts_addr job + col * jb_k job * F32_BYTES) (jb_k job) bufs) (\<lambda>bufs1.
     py_bind (pack_column env host acts_buf_va (jb_k job) bufs1) (\<lambda>bufs2.
     py_bind (chunk_loop (nat (jb_rows job)) env host job col 0 0 st) (\<lambda>st'. py_ret (bufs2, st'))))"

fun run_columns :: "pyenv \<Rightarrow> 'h pl_host \<Rightarrow> pl_job \<Rightarrow> int \<Rightarrow> int list \<Rightarrow> byte list list \<Rightarrow> int \<times> dirty \<Rightarrow> ('h pl_world, int \<times> dirty) py" where
  "run_columns env host job acts_buf_va [] bufs st = py_ret st"
| "run_columns env host job acts_buf_va (col # cols) bufs st =
     py_bind (run_column env host job acts_buf_va col bufs st) (\<lambda>(bufs', st'). run_columns env host job acts_buf_va cols bufs' st')"

definition invalidate_slab :: "nat \<Rightarrow> int \<Rightarrow> int \<Rightarrow> ('d world, unit) py" where
  "invalidate_slab i offset nbytes =
     on_alloc (py_mod (\<lambda>a. set_slab i (slab_invalidate_range (al_slabs a ! i) offset nbytes) a))"

definition invalidate_dirty :: "dirty \<Rightarrow> ('d world, unit) py" where
  "invalidate_dirty dst_dirty = py_for dst_dirty (\<lambda>(i, lo, hi). invalidate_slab i lo (hi - lo))"

definition MAX_WEIGHTS_NBYTES :: int where
  "MAX_WEIGHTS_NBYTES = 8 * 1024 * 1024"

definition max_rowblocks_per_chunk :: "int \<Rightarrow> int \<Rightarrow> int" where
  "max_rowblocks_per_chunk rowblocks_per_col packed_bytes_per_rb =
     min rowblocks_per_col (max 1 (MAX_WEIGHTS_NBYTES div packed_bytes_per_rb))"

definition final_counts :: "int \<Rightarrow> int \<Rightarrow> int \<Rightarrow> int \<Rightarrow> int \<Rightarrow> int \<Rightarrow> int \<Rightarrow> ('d world, unit) py" where
  "final_counts dst_nbytes cols rowblocks weight_nbytes acts_nbytes rows_per_block cycles =
     py_then (timer_add ''bytes_written'' dst_nbytes)
     (py_then (timer_add ''matmul_cols'' cols)
     (py_then (timer_add ''rowblocks'' (cols * rowblocks))
     (py_then (timer_add ''dma_bytes_read'' (cols * (weight_nbytes + acts_nbytes)))
     (py_then (timer_add ''dma_bytes_written'' (cols * rowblocks * rows_per_block * F32_BYTES))
       (timer_add ''kernel_cycles'' cycles)))))"

section \<open>The kernel\<close>

definition add_shape :: "int \<Rightarrow> int \<Rightarrow> int \<Rightarrow> ('d world, unit) py" where
  "add_shape rows cols k =
     py_then (timer_add ''rows'' rows) (py_then (timer_add ''cols'' cols) (timer_add ''k'' k))"

definition read_acts_addr :: "pyenv \<Rightarrow> 'h pl_host \<Rightarrow> dict \<Rightarrow> int \<Rightarrow> ('h pl_world, int) py" where
  "read_acts_addr env host op act_nbytes =
     timer_section env ''read''
       (py_read (pl_required op F_ACTS) (\<lambda>h.
        py_read (pl_optional_int op F_ACTS_OFFSET) (\<lambda>offset. resolve_slab_pointer host h offset act_nbytes ''acts'')))"

text \<open>The loops of \<open>run\<close>, from the two uninitialised arrays to the counters.\<close>

definition run_job :: "pyenv \<Rightarrow> 'h pl_host \<Rightarrow> pl_job \<Rightarrow> int \<Rightarrow> ('h pl_world, unit) py" where
  "run_job env host job weight_nbytes =
     py_bind (get_cma ActsBuf AttributeError) (\<lambda>acts_buf.
     py_bind (run_columns env host job (cb_va acts_buf) (py_range (jb_cols job))
         [np_empty host (jb_k job), np_empty host (2 * (jb_k job div Q8_BLOCK))] (0, [])) (\<lambda>(total_cycles, dst_dirty).
     py_then (timer_section env ''result_invalidate'' (invalidate_dirty dst_dirty))
       (final_counts (jb_rows job * jb_cols job * F32_BYTES) (jb_cols job) (jb_rowblocks job) weight_nbytes (jb_acts_nbytes job)
          (jb_rows_per_block job) total_cycles)))"

definition pl_matmul_run :: "pyenv \<Rightarrow> 'h pl_host \<Rightarrow> dict \<Rightarrow> ('h pl_world, unit) py" where
  "pl_matmul_run env host op =
     py_read (pl_required op F_ROWS) (\<lambda>rows.
     py_read (pl_required op F_COLS) (\<lambda>cols.
     py_read (pl_required op F_K) (\<lambda>k.
     if rows = 0 \<or> cols = 0 then py_raise ERR_invalid
     else if k = 0 \<or> k mod Q1_BLOCK \<noteq> 0 then py_raise ERR_invalid
     else
       py_then (add_shape rows cols k)
       (py_then (on_dev (ensure_native host))
       (py_then (on_dev (ensure_mmio_pointers host))
       (py_read (packed_bytes_per_rowblock k) (\<lambda>packed_bytes.
        py_read (packed_nbytes rows k) (\<lambda>weight_nbytes.
        py_read (acts_stream_nbytes k) (\<lambda>acts_nbytes.
        py_read (pl_required op F_WEIGHTS) (\<lambda>weights_handle.
        py_read (pl_optional_int op F_WEIGHTS_OFFSET) (\<lambda>weights_base_offset.
        py_bind (read_acts_addr env host op (cols * k * F32_BYTES)) (\<lambda>acts_addr.
        py_then (timer_add ''bytes_read'' (weight_nbytes + cols * k * F32_BYTES))
        (py_then (on_dev (check_kernel_id host))
        (py_bind (on_dev (read_rows_per_block host)) (\<lambda>rows_per_block.
         let rowblocks_per_col = (rows + rows_per_block - 1) div rows_per_block;
             max_rowblocks = max_rowblocks_per_chunk rowblocks_per_col packed_bytes in
         py_then (on_dev (ensure_buffers host acts_nbytes (max_rowblocks * packed_bytes) (max_rowblocks * rows_per_block * F32_BYTES)))
         (py_read (pl_required op F_DST) (\<lambda>dst_handle.
          py_read (pl_optional_int op F_DST_OFFSET) (\<lambda>dst_base_offset.
          run_job env host
            \<lparr>jb_rows = rows, jb_cols = cols, jb_k = k, jb_weights = weights_handle, jb_weights_offset = weights_base_offset,
             jb_dst = dst_handle, jb_dst_offset = dst_base_offset, jb_acts_addr = acts_addr, jb_acts_nbytes = acts_nbytes,
             jb_packed_bytes = packed_bytes, jb_rows_per_block = rows_per_block, jb_rowblocks = rowblocks_per_col,
             jb_max_rowblocks = max_rowblocks\<rparr> weight_nbytes))))))))))))))))))"

section \<open>The asynchronous variant\<close>

text \<open>What a \<open>_PendingMatmul\<close> carries for \<open>complete\<close>; its range is in the record \<open>pending\<close>.\<close>

record pl_pending =
  pp_out_cycles :: "byte list"
  pp_dst_slab :: nat
  pp_dst_abs :: int
  pp_dst_nbytes :: int
  pp_weight_nbytes :: int
  pp_acts_nbytes :: int
  pp_rowblocks :: int
  pp_rows_per_block :: int

definition fall_back :: "pyenv \<Rightarrow> 'h pl_host \<Rightarrow> dict \<Rightarrow> ('h pl_world, pl_pending pending option) py" where
  "fall_back env host op = py_then (pl_matmul_run env host op) (py_ret None)"

text \<open>The shape is the simple one: quantize, pack, start, and leave the wait to \<open>complete\<close>.\<close>

definition issue_matmul :: "pyenv \<Rightarrow> 'h pl_host \<Rightarrow> dict \<Rightarrow> int \<Rightarrow> int \<Rightarrow> int \<Rightarrow> int \<Rightarrow> int \<Rightarrow> int \<Rightarrow> int \<Rightarrow> int \<Rightarrow> int \<Rightarrow> nat \<times> int \<times> int \<Rightarrow>
    ('h pl_world, pl_pending pending option) py" where
  "issue_matmul env host op rows k packed_bytes rows_per_block rowblocks weights_handle weights_base_offset dst_handle dst_base_offset =
     (\<lambda>(dst_slab, dst_abs, result_phys).
     let dst_nbytes = rows * 1 * F32_BYTES in
     py_then (add_shape rows 1 k)
     (py_read (packed_nbytes rows k) (\<lambda>weight_nbytes.
      py_read (acts_stream_nbytes k) (\<lambda>acts_nbytes.
      py_bind (read_acts_addr env host op (k * F32_BYTES)) (\<lambda>acts_addr.
      py_then (timer_add ''bytes_read'' (weight_nbytes + k * F32_BYTES))
      (py_then (on_dev (ensure_buffers host acts_nbytes (rowblocks * packed_bytes) (rowblocks * rows_per_block * F32_BYTES)))
      (py_bind (get_cma ActsBuf AttributeError) (\<lambda>acts_buf.
       py_bind (quantize_column env host acts_addr k [np_empty host k, np_empty host (2 * (k div Q8_BLOCK))]) (\<lambda>bufs.
       py_bind (pack_column env host (cb_va acts_buf) k bufs) (\<lambda>_.
       py_bind (timer_section env ''compute''
           (run_matmul_dual_stream env host weights_handle weights_base_offset (rowblocks * packed_bytes) acts_nbytes result_phys dst_nbytes
              (k div Q1_BLOCK) rowblocks True)) (\<lambda>out_cycles.
       py_ret (Some \<lparr>p_dst_handle = dst_handle, p_dst_lo = dst_base_offset, p_dst_hi = dst_base_offset + dst_nbytes,
         p_data = \<lparr>pp_out_cycles = out_cycles, pp_dst_slab = dst_slab, pp_dst_abs = dst_abs, pp_dst_nbytes = dst_nbytes,
           pp_weight_nbytes = weight_nbytes, pp_acts_nbytes = acts_nbytes, pp_rowblocks = rowblocks,
           pp_rows_per_block = rows_per_block\<rparr>\<rparr>))))))))))))"

text \<open>\<open>slab_view\<close> of the destination and the test for \<open>pynq_buffer\<close>; \<open>None\<close> asks for the synchronous path.\<close>

definition async_dst :: "allocator \<Rightarrow> int \<Rightarrow> int \<Rightarrow> int \<Rightarrow> (nat \<times> int \<times> int) option res" where
  "async_dst a h offset nbytes =
     (case slab_view a h offset nbytes of
        Inl e \<Rightarrow> if e \<noteq> ERR_multi then Inl e else Inr None
      | Inr (i, dst_abs, _) \<Rightarrow>
          Inr (case buffer_phys (al_slabs a ! i) of Inl _ \<Rightarrow> None | Inr pa \<Rightarrow> Some (i, dst_abs, pa + dst_abs)))"

definition pl_matmul_run_async :: "pyenv \<Rightarrow> 'h pl_host \<Rightarrow> dict \<Rightarrow> ('h pl_world, pl_pending pending option) py" where
  "pl_matmul_run_async env host op =
     py_read (pl_required op F_ROWS) (\<lambda>rows.
     py_read (pl_required op F_COLS) (\<lambda>cols.
     py_read (pl_required op F_K) (\<lambda>k.
     if cols \<noteq> 1 \<or> rows = 0 \<or> k = 0 \<or> k mod Q1_BLOCK \<noteq> 0 then fall_back env host op
     else
       py_then (on_dev (ensure_native host))
       (py_then (on_dev (ensure_mmio_pointers host))
       (py_then (on_dev (check_kernel_id host))
       (py_bind (on_dev (read_rows_per_block host)) (\<lambda>rows_per_block.
        py_read (packed_bytes_per_rowblock k) (\<lambda>packed_bytes.
        let rowblocks_per_col = (rows + rows_per_block - 1) div rows_per_block;
            max_rowblocks = max_rowblocks_per_chunk rowblocks_per_col packed_bytes in
        py_read (pl_required op F_WEIGHTS) (\<lambda>weights_handle.
        py_read (pl_optional_int op F_WEIGHTS_OFFSET) (\<lambda>weights_base_offset.
        py_read (pl_required op F_DST) (\<lambda>dst_handle.
        py_read (pl_optional_int op F_DST_OFFSET) (\<lambda>dst_base_offset.
        py_bind (py_get w_alloc) (\<lambda>a.
        py_read (extent_remaining a weights_handle weights_base_offset) (\<lambda>ext_remaining.
        if \<not> (max_rowblocks \<ge> rowblocks_per_col \<and> ext_remaining div packed_bytes \<ge> rowblocks_per_col \<and>
              rows mod rows_per_block = 0)
        then fall_back env host op
        else
          py_read (async_dst a dst_handle dst_base_offset (rows * cols * F32_BYTES)) (\<lambda>dst.
          case dst of
            None \<Rightarrow> fall_back env host op
          | Some d \<Rightarrow> issue_matmul env host op rows k packed_bytes rows_per_block rowblocks_per_col weights_handle weights_base_offset
              dst_handle dst_base_offset d)))))))))))))))"

definition pl_matmul_complete :: "pyenv \<Rightarrow> 'h pl_host \<Rightarrow> pl_pending pending \<Rightarrow> ('h pl_world, unit) py" where
  "pl_matmul_complete env host p =
     (let d = p_data p in
      py_bind (wait_chunk_deferred env host (pp_out_cycles d)) (\<lambda>cycles.
      py_then (timer_section env ''result_invalidate'' (invalidate_slab (pp_dst_slab d) (pp_dst_abs d) (pp_dst_nbytes d)))
        (final_counts (pp_dst_nbytes d) 1 (pp_rowblocks d) (pp_weight_nbytes d) (pp_acts_nbytes d) (pp_rows_per_block d) cycles)))"

text \<open>\<open>PLMatmulQ1A8(overlay)\<close> reads three attributes of the overlay.\<close>

definition pl_matmul_kernel :: "pyenv \<Rightarrow> 'h pl_host \<Rightarrow> ('h pl_state, pl_pending) kernel res" where
  "pl_matmul_kernel env host =
     (if list_all (\<lambda>n. n \<in> set (ov_attrs (ph_overlay host))) [''axi_dma_0'', ''axi_dma_1'', ''q1a8_kernel_top_0''] then
        Inr \<lparr>k_name = GOP_MATMUL_Q1A8, k_backend = Some ''pl'', k_run = pl_matmul_run env host,
             k_run_async = Some (pl_matmul_run_async env host), k_complete = pl_matmul_complete env host\<rparr>
      else Inl AttributeError)"

end
