(* ===== verification/GraphSpec.thy ===== *)
theory GraphSpec
  imports Graph
begin

text \<open>
  Facts about the scheduler: it is agnostic of profiling, it counts every op once, and with kernels that commute
  with the completion of a pending op it computes what the flat walk computes.  The locale \<open>footprints\<close> says which byte
  ranges the ops of a graph access and what the arena promises of them; \<open>async_kernels\<close> adds the laws of the kernels.
\<close>

section \<open>Profiling\<close>

definition kernel_agnostic :: "('d, 'p) kernel \<Rightarrow> bool" where
  "kernel_agnostic k \<longleftrightarrow> (\<forall>op. prof_agnostic (k_run k op)) \<and> (\<forall>p. prof_agnostic (k_complete k p)) \<and>
     (\<forall>f op. k_run_async k = Some f \<longrightarrow> prof_agnostic (f op))"

definition registry_agnostic :: "('d, 'p) registry \<Rightarrow> bool" where
  "registry_agnostic reg \<longleftrightarrow> (\<forall>k \<in> snd ` set reg. kernel_agnostic k)"

definition sched_agnostic :: "('d, 'p) sched \<Rightarrow> bool" where
  "sched_agnostic st \<longleftrightarrow> (\<forall>n k p. sc_in_flight st = Some (n, k, p) \<longrightarrow> kernel_agnostic k)"

text \<open>Binding with a condition that the first computation establishes of its result.\<close>

lemma agnostic_bind_if:
  assumes "prof_agnostic m" "\<And>x. P x \<Longrightarrow> prof_agnostic (f x)" "\<And>w x w'. m w = (Inr x, w') \<Longrightarrow> P x"
  shows "prof_agnostic (py_bind m f)"
proof (rule prof_agnosticI)
  fix w v r w' assume sim: "prof_sim w v" and run: "py_bind m f w = (r, w')"
  obtain r1 w1 where m: "m w = (r1, w1)" by (cases "m w")
  from assms(1) sim m obtain v1 where v1: "m v = (r1, v1)" "prof_sim w1 v1" by (rule prof_agnosticD)
  show "\<exists>v'. py_bind m f v = (r, v') \<and> prof_sim w' v'"
  proof (cases r1)
    case (Inl e)
    with run m v1 show ?thesis by (simp add: py_bind_run)
  next
    case (Inr x)
    with m assms(2,3) have "prof_agnostic (f x)" by blast
    moreover from Inr run m have "f x w1 = (r, w')" by (simp add: py_bind_run)
    ultimately obtain v' where "f x v1 = (r, v')" "prof_sim w' v'" using v1(2) by (blast elim: prof_agnosticD)
    with Inr v1(1) show ?thesis by (simp add: py_bind_run)
  qed
qed

lemma registry_get_agnostic:
  "registry_agnostic reg \<Longrightarrow> registry_get reg n = Inr k \<Longrightarrow> kernel_agnostic k"
  by (auto simp: registry_get_def registry_agnostic_def split: option.splits dest!: map_of_SomeD)

lemma complete_agnostic:
  "sched_agnostic st \<Longrightarrow> sc_in_flight st = Some f \<Longrightarrow> prof_agnostic (complete_pending env f)"
  by (cases f) (auto simp: complete_pending_def sched_agnostic_def kernel_agnostic_def intro: agnostic)

lemma barrier_agnostic: "sched_agnostic st \<Longrightarrow> prof_agnostic (barrier env k op st)"
  by (auto simp: barrier_def split: option.splits intro!: agnostic complete_agnostic)

lemma barrier_keeps: "sched_agnostic st \<Longrightarrow> barrier env k op st w = (Inr st', w') \<Longrightarrow> sched_agnostic st'"
  by (auto simp: barrier_def sched_agnostic_def py_simps split: option.splits sum.splits prod.splits if_splits)

lemma count_op_in_flight [simp]: "sc_in_flight (count_op k st) = sc_in_flight st"
  by (simp add: count_op_def)

lemma issue_agnostic: "kernel_agnostic k \<Longrightarrow> prof_agnostic (issue_op env n k op st)"
  by (auto simp: issue_op_def kernel_agnostic_def Let_def split: option.splits intro!: agnostic)

lemma issue_keeps:
  assumes "kernel_agnostic k" "sched_agnostic st" "issue_op env n k op st w = (Inr st', w')"
  shows "sched_agnostic st'"
  using assms
  by (auto simp: issue_op_def sched_agnostic_def py_simps Let_def split: option.splits sum.splits prod.splits)

lemma run_op_agnostic:
  assumes "registry_agnostic reg" "sched_agnostic st"
  shows "prof_agnostic (run_op env reg op st)"
proof -
  let ?n = "py_str env (obj_get op F_OP (JStr ''''))"
  have "prof_agnostic (py_bind (barrier env k op st) (issue_op env ?n k op))" if "kernel_agnostic k" for k
    using assms(2) that by (intro agnostic_bind barrier_agnostic issue_agnostic)
  then have "prof_agnostic (py_bind (py_lift (registry_get reg ?n)) (\<lambda>knl. py_bind (barrier env knl op st) (issue_op env ?n knl op)))"
    using registry_get_agnostic [OF assms(1)]
    by (intro agnostic_bind_if [where P = kernel_agnostic, OF agnostic_pure(3)]) auto
  then show ?thesis by (auto simp: run_op_def Let_def intro: agnostic)
qed

lemma run_op_keeps:
  assumes "registry_agnostic reg" "sched_agnostic st" "run_op env reg op st w = (Inr st', w')"
  shows "sched_agnostic st'"
proof -
  let ?n = "py_str env (obj_get op F_OP (JStr ''''))"
  from assms(3) obtain k st1 w1 where "registry_get reg ?n = Inr k" "barrier env k op st w = (Inr st1, w1)"
      "issue_op env ?n k op st1 w1 = (Inr st', w')"
    by (auto simp: run_op_def Let_def py_simps split: if_splits sum.splits prod.splits)
  then show ?thesis using assms(1,2) registry_get_agnostic barrier_keeps issue_keeps by metis
qed

lemma run_ops_agnostic:
  "registry_agnostic reg \<Longrightarrow> sched_agnostic st \<Longrightarrow> prof_agnostic (run_ops env reg ops st)"
proof (induction ops arbitrary: st)
  case Nil
  show ?case unfolding run_ops.simps by (rule agnostic_pure)
next
  case (Cons op ops)
  then show ?case
    by (auto intro!: agnostic_bind_if [where P = sched_agnostic] run_op_agnostic intro: run_op_keeps)
qed

lemma run_ops_keeps:
  "registry_agnostic reg \<Longrightarrow> sched_agnostic st \<Longrightarrow> run_ops env reg ops st w = (Inr st', w') \<Longrightarrow> sched_agnostic st'"
proof (induction ops arbitrary: st w)
  case (Cons op ops)
  from Cons.prems(3) obtain st1 w1 where "run_op env reg op st w = (Inr st1, w1)" "run_ops env reg ops st1 w1 = (Inr st', w')"
    by (auto simp: py_simps split: sum.splits prod.splits)
  with Cons run_op_keeps show ?case by metis
qed simp

lemma run_schedule_agnostic: "registry_agnostic reg \<Longrightarrow> prof_agnostic (run_schedule env reg ops)"
  unfolding run_schedule_def
proof (rule agnostic_bind_if [where P = sched_agnostic])
  assume reg: "registry_agnostic reg"
  have s0: "sched_agnostic \<lparr>sc_in_flight = None, sc_ps = 0, sc_pl = 0\<rparr>" by (simp add: sched_agnostic_def)
  show "prof_agnostic (run_ops env reg ops \<lparr>sc_in_flight = None, sc_ps = 0, sc_pl = 0\<rparr>)"
    using reg s0 by (rule run_ops_agnostic)
  show "\<And>st. sched_agnostic st \<Longrightarrow> prof_agnostic (drain env st)"
    by (auto simp: drain_def split: option.splits intro!: agnostic complete_agnostic)
  show "\<And>w st w'. run_ops env reg ops \<lparr>sc_in_flight = None, sc_ps = 0, sc_pl = 0\<rparr> w = (Inr st, w') \<Longrightarrow> sched_agnostic st"
    using reg s0 by (rule run_ops_keeps)
qed

section \<open>Every op is counted once\<close>

lemma run_op_counts:
  "run_op env reg op st w = (Inr st', w') \<Longrightarrow> sc_ps st' + sc_pl st' = sc_ps st + sc_pl st + 1"
  by (auto simp: run_op_def barrier_def issue_op_def count_op_def Let_def py_simps
      split: if_splits sum.splits prod.splits option.splits)

lemma run_ops_counts:
  "run_ops env reg ops st w = (Inr st', w') \<Longrightarrow> sc_ps st' + sc_pl st' = sc_ps st + sc_pl st + int (length ops)"
proof (induction ops arbitrary: st w)
  case (Cons op ops)
  from Cons.prems obtain st1 w1 where r: "run_op env reg op st w = (Inr st1, w1)" "run_ops env reg ops st1 w1 = (Inr st', w')"
    by (auto simp: py_simps split: sum.splits prod.splits)
  with Cons.IH [OF r(2)] run_op_counts [OF r(1)] show ?case by simp
qed simp

lemma run_schedule_counts:
  assumes "run_schedule env reg ops w = (Inr st, w')"
  shows "sc_ps st + sc_pl st = int (length ops)" "sc_in_flight st = None"
proof -
  from assms obtain st1 w1 where r: "run_ops env reg ops \<lparr>sc_in_flight = None, sc_ps = 0, sc_pl = 0\<rparr> w = (Inr st1, w1)"
      "drain env st1 w1 = (Inr st, w')"
    by (auto simp: run_schedule_def py_simps split: sum.splits prod.splits)
  from run_ops_counts [OF r(1)] r(2) show "sc_ps st + sc_pl st = int (length ops)"
    by (auto simp: drain_def py_simps split: option.splits sum.splits prod.splits)
  from r(2) show "sc_in_flight st = None"
    by (auto simp: drain_def py_simps split: option.splits sum.splits prod.splits)
qed

section \<open>References of an op and the bytes it reaches\<close>

text \<open>
  A range is a handle with the bounds of a byte interval.  \<open>op_starts op h a\<close>: a tensor role of the op
  names the handle \<open>h\<close> at the offset \<open>a\<close>, a missing offset counting as zero.
\<close>

type_synonym range = "int \<times> int \<times> int"

definition op_starts :: "dict \<Rightarrow> int \<Rightarrow> int \<Rightarrow> bool" where
  "op_starts op h a \<longleftrightarrow> (\<exists>(hf, ofs) \<in> set TENSOR_ROLES. \<exists>v. map_of op hf = Some v \<and> py_int v = Inr h \<and>
     py_int (obj_get op ofs (JInt 0)) = Inr a)"

definition starts_in :: "dict \<Rightarrow> range \<Rightarrow> bool" where
  "starts_in op r \<longleftrightarrow> (case r of (h, lo, hi) \<Rightarrow> \<exists>a. op_starts op h a \<and> lo \<le> a \<and> a < hi)"

definition ranges_meet :: "range \<Rightarrow> range \<Rightarrow> bool" where
  "ranges_meet r s \<longleftrightarrow> (case (r, s) of ((h, a, b), (h', lo, hi)) \<Rightarrow> h = h' \<and> max a lo < min b hi)"

definition interval :: "'p pending \<Rightarrow> range" where
  "interval p = (p_dst_handle p, p_dst_lo p, p_dst_hi p)"

lemma touches_roles_starts:
  "touches_roles op h lo hi roles = Inr b \<Longrightarrow>
   b \<longleftrightarrow> (\<exists>(hf, ofs) \<in> set roles. \<exists>v a. map_of op hf = Some v \<and> py_int v = Inr h \<and>
      py_int (obj_get op ofs (JInt 0)) = Inr a \<and> lo \<le> a \<and> a < hi)"
proof (induction roles)
  case (Cons r roles)
  obtain hf ofs where r: "r = (hf, ofs)" by (cases r)
  with Cons show ?case by (fastforce simp: bindR_def split: option.splits sum.splits if_splits)
qed simp

text \<open>When \<open>_op_touches\<close> answers, it answers whether a role of the op starts in the interval.\<close>

lemma op_touches_starts: "op_touches op h lo hi = Inr b \<Longrightarrow> b = starts_in op (h, lo, hi)"
  unfolding op_touches_def starts_in_def op_starts_def by (fastforce dest: touches_roles_starts)

text \<open>The in-flight range as a ghost of the scheduler, and when an op may run beside it.\<close>

type_synonym ghost = "range option"

definition sched_ghost :: "('d, 'p) sched \<Rightarrow> ghost" where
  "sched_ghost st = map_option (\<lambda>(n, k, p). interval p) (sc_in_flight st)"

definition may_run :: "(dict \<Rightarrow> range set) \<Rightarrow> ('d, 'p) kernel \<Rightarrow> dict \<Rightarrow> ghost \<Rightarrow> bool" where
  "may_run acc k op g =
     (case g of None \<Rightarrow> True | Some r \<Rightarrow> backend_of k \<noteq> ''pl'' \<and> (\<forall>s \<in> acc op. \<not> ranges_meet s r))"

text \<open>The kernel that the registry holds for an op.\<close>

definition serves :: "pyenv \<Rightarrow> ('d, 'p) registry \<Rightarrow> dict \<Rightarrow> ('d, 'p) kernel \<Rightarrow> bool" where
  "serves env reg op k \<longleftrightarrow> registry_get reg (py_str env (obj_get op F_OP (JStr ''''))) = Inr k"

lemma registry_get_in: "registry_get reg n = Inr k \<Longrightarrow> k \<in> snd ` set reg"
  by (force simp: registry_get_def split: option.splits dest!: map_of_SomeD)

lemma serves_in: "serves env reg op k \<Longrightarrow> k \<in> snd ` set reg"
  unfolding serves_def by (rule registry_get_in)

lemma timer_op_result: "timer_op env n [] m w = (Inr x, w') \<Longrightarrow> \<exists>v v'. m v = (Inr x, v')"
  by (auto simp: timer_op_def op_profiled_def py_simps Let_def split: if_splits prod.splits sum.splits)

lemma issue_new:
  assumes "issue_op env nm k op st w = (Inr st', w')" "sc_in_flight st' = Some (n, k', p)" "sc_in_flight st \<noteq> Some (n, k', p)"
  obtains f v v' where "k_run_async k = Some f" "f op v = (Inr (Some p), v')"
proof -
  from assms obtain f where f: "k_run_async k = Some f" and t: "\<exists>w'. timer_op env nm [] (f op) w = (Inr (Some p), w')"
    by (auto simp: issue_op_def py_simps Let_def split: option.splits prod.splits sum.splits)
  from t obtain u where "timer_op env nm [] (f op) w = (Inr (Some p), u)" ..
  from timer_op_result [OF this] that [OF f] show ?thesis by auto
qed

text \<open>
  What the docstring of \<open>_op_touches\<close> relies on, for a graph \<open>ops\<close>: \<open>acc op\<close> are the ranges that the op
  reads or writes, \<open>dst op\<close> the range of its result.  An op that is the first one after \<open>op'\<close> to reach
  into the result of \<open>op'\<close> names a tensor that starts inside it, because in ggml's arena no other live
  tensor occupies those bytes; and an asynchronous kernel reports the result of its op.
\<close>

locale footprints =
  fixes env :: pyenv and reg :: "('d, 'p) registry" and ops :: "dict list" and acc dst :: "dict \<Rightarrow> range set"
  assumes arena: "ops = xs @ op' # ys @ op # zs \<Longrightarrow> r \<in> dst op' \<Longrightarrow> \<forall>oq \<in> set ys. \<not> starts_in oq r \<Longrightarrow>
      s \<in> acc op \<Longrightarrow> ranges_meet s r \<Longrightarrow> starts_in op r"
    and reports: "serves env reg op k \<Longrightarrow> k_run_async k = Some f \<Longrightarrow> op \<in> set ops \<Longrightarrow> f op w = (Inr (Some p), w') \<Longrightarrow>
      interval p \<in> dst op"
begin

text \<open>The op in flight was issued by an op of the graph, and none since has a role that starts in its result.\<close>

definition sched_flying :: "dict list \<Rightarrow> ('d, 'p) sched \<Rightarrow> bool" where
  "sched_flying pre st \<longleftrightarrow> (\<forall>n k p. sc_in_flight st = Some (n, k, p) \<longrightarrow>
     (\<exists>xs op ys. pre = xs @ op # ys \<and> interval p \<in> dst op \<and> (\<forall>oq \<in> set ys. \<not> starts_in oq (interval p))))"

text \<open>After the barrier, the op may run with whatever is still in flight.\<close>

lemma barrier_flying:
  assumes "sched_flying pre st" "ops = pre @ op # post" "barrier env k op st w = (Inr st', w')"
  shows "sched_flying pre st' \<and> may_run acc k op (sched_ghost st') \<and>
    (\<forall>n k' p. sc_in_flight st' = Some (n, k', p) \<longrightarrow> \<not> starts_in op (interval p))"
proof (cases "sc_in_flight st")
  case None
  with assms show ?thesis by (simp add: barrier_def may_run_def sched_ghost_def)
next
  case (Some f)
  obtain n k' p where f: "f = (n, k', p)" by (cases f)
  from assms(3) Some obtain b where b: "needs_barrier k op p = Inr b"
    by (auto simp: barrier_def f py_simps split: sum.splits)
  show ?thesis
  proof (cases b)
    case True
    with assms Some b f show ?thesis
      by (auto simp: barrier_def sched_flying_def may_run_def sched_ghost_def py_simps split: sum.splits prod.splits)
  next
    case False
    with assms(3) Some b f have st': "st' = st" "backend_of k \<noteq> ''pl''" "op_touches op (p_dst_handle p) (p_dst_lo p) (p_dst_hi p) = Inr False"
      by (auto simp: barrier_def needs_barrier_def py_simps split: if_splits)
    then have n: "\<not> starts_in op (interval p)" using op_touches_starts unfolding interval_def by blast
    from assms(1) Some f obtain xs op' ys where x: "pre = xs @ op' # ys" "interval p \<in> dst op'" "\<forall>oq \<in> set ys. \<not> starts_in oq (interval p)"
      by (auto simp: sched_flying_def)
    have "ops = xs @ op' # ys @ op # post" using assms(2) x(1) by simp
    from arena [OF this x(2,3)] n have "\<forall>s \<in> acc op. \<not> ranges_meet s (interval p)" by blast
    with st' assms(1) Some f n show ?thesis by (simp add: may_run_def sched_ghost_def)
  qed
qed

lemma run_op_flying:
  assumes fly: "sched_flying pre st" and ops: "ops = pre @ op # post" and run: "run_op env reg op st w = (Inr st', w')"
  shows "sched_flying (pre @ [op]) st'"
proof -
  let ?n = "py_str env (obj_get op F_OP (JStr ''''))"
  from run obtain k st1 w1 where k: "registry_get reg ?n = Inr k" and b: "barrier env k op st w = (Inr st1, w1)"
      and i: "issue_op env ?n k op st1 w1 = (Inr st', w')"
    by (auto simp: run_op_def Let_def py_simps split: if_splits sum.splits prod.splits)
  from barrier_flying [OF fly ops b] have f1: "sched_flying pre st1"
    and n1: "\<And>n k' p. sc_in_flight st1 = Some (n, k', p) \<Longrightarrow> \<not> starts_in op (interval p)" by auto
  show ?thesis unfolding sched_flying_def
  proof (intro allI impI)
    fix n k' p assume p: "sc_in_flight st' = Some (n, k', p)"
    show "\<exists>xs op'' ys. pre @ [op] = xs @ op'' # ys \<and> interval p \<in> dst op'' \<and> (\<forall>oq \<in> set ys. \<not> starts_in oq (interval p))"
    proof (cases "sc_in_flight st1 = Some (n, k', p)")
      case True
      with f1 obtain xs op' ys where "pre = xs @ op' # ys" "interval p \<in> dst op'" "\<forall>oq \<in> set ys. \<not> starts_in oq (interval p)"
        by (auto simp: sched_flying_def)
      with n1 [OF True] show ?thesis by (intro exI [of _ xs] exI [of _ op'] exI [of _ "ys @ [op]"]) auto
    next
      case False
      with i p obtain f w2 w3 where "k_run_async k = Some f" "f op w2 = (Inr (Some p), w3)"
        by (elim issue_new) auto
      with reports [OF k [folded serves_def]] ops have "interval p \<in> dst op" by simp
      then show ?thesis by (intro exI [of _ pre] exI [of _ op] exI [of _ "[]"]) simp
    qed
  qed
qed

end

section \<open>Pipelining computes what the flat walk computes\<close>

text \<open>The walk that the scheduler replaces: every op runs to its end before the next one starts.\<close>

definition flat_op :: "pyenv \<Rightarrow> ('d, 'p) registry \<Rightarrow> dict \<Rightarrow> ('d world, unit) py" where
  "flat_op env reg op =
     (let op_name = py_str env (obj_get op F_OP (JStr '''')) in
      if op_name = '''' then py_raise (AllocatorError ''invalid_request'')
      else py_bind (py_lift (registry_get reg op_name)) (\<lambda>knl. timer_op env op_name [] (k_run knl op)))"

definition flat_walk :: "pyenv \<Rightarrow> ('d, 'p) registry \<Rightarrow> dict list \<Rightarrow> ('d world, unit) py" where
  "flat_walk env reg ops = py_for ops (flat_op env reg)"

definition quiet :: "'d world \<Rightarrow> bool" where
  "quiet w \<longleftrightarrow> \<not> tm_profile (w_timer w)"

lemma timer_op_quiet: "quiet w \<Longrightarrow> timer_op env n [] body w = body w"
  by (simp add: timer_op_def quiet_def py_simps)

text \<open>
  Two outcomes agree when both are exceptions, or both are results in worlds that are the \<open>same\<close>.
\<close>

definition agree :: "('w \<Rightarrow> 'w \<Rightarrow> bool) \<Rightarrow> 'a res \<times> 'w \<Rightarrow> 'b res \<times> 'w \<Rightarrow> bool" where
  "agree same x y \<longleftrightarrow> (case (fst x, fst y) of (Inr _, Inr _) \<Rightarrow> same (snd x) (snd y) | (Inl _, Inl _) \<Rightarrow> True | _ \<Rightarrow> False)"

lemma agree_simps [simp]:
  "agree same (Inr a, w) (Inr b, v) = same w v" "agree same (Inl d, w) (Inl e, v)"
  "\<not> agree same (Inr a, w) (Inl e, v)" "\<not> agree same (Inl e, w) (Inr b, v)"
  by (simp_all add: agree_def)

lemma agree_Inl: "agree same (Inl e, w) y \<Longrightarrow> \<exists>d v. y = (Inl d, v)"
  by (cases y; cases "fst y") (auto simp: agree_def)

lemma agree_Inr: "agree same (Inr a, w) y \<Longrightarrow> \<exists>b v. y = (Inr b, v) \<and> same w v"
  by (cases y; cases "fst y") (auto simp: agree_def)

lemma agree_trans: "transp same \<Longrightarrow> agree same x y \<Longrightarrow> agree same y z \<Longrightarrow> agree same x z"
  by (auto simp: agree_def transp_def split: sum.splits)

lemma agree_then:
  assumes "agree same (m w) (m' w')"
    and "\<And>a b u u'. m w = (Inr a, u) \<Longrightarrow> m' w' = (Inr b, u') \<Longrightarrow> same u u' \<Longrightarrow> agree same (f u) (f' u')"
  shows "agree same (py_then m f w) (py_then m' f' w')"
proof (cases "m w")
  case (Pair r u)
  show ?thesis
  proof (cases r)
    case (Inl e)
    with Pair assms(1) show ?thesis by (auto simp: py_then_run dest!: agree_Inl)
  next
    case (Inr a)
    with Pair assms(1) obtain b u' where "m' w' = (Inr b, u')" "same u u'" by (auto dest!: agree_Inr)
    with Pair Inr assms(2) show ?thesis by (simp add: py_then_run)
  qed
qed

text \<open>
  What the scheduler relies on.  The kernels keep the profiler off and whatever else \<open>ok\<close> says, and a
  run does not tell worlds apart that are the same.  Issuing an op and completing it at once is running
  it; \<open>fly k p w\<close> says what holds of the world while \<open>p\<close> is in flight.  A PS op that reaches into no
  byte of the result in flight may be exchanged with its completion.
\<close>

locale async_kernels = footprints env reg ops acc dst
  for env :: pyenv and reg :: "('d, 'p) registry" and ops :: "dict list" and acc dst :: "dict \<Rightarrow> range set" +
  fixes same :: "'d world \<Rightarrow> 'd world \<Rightarrow> bool"
    and ok :: "'d world \<Rightarrow> bool"
    and fly :: "('d, 'p) kernel \<Rightarrow> 'p pending \<Rightarrow> 'd world \<Rightarrow> bool"
  assumes same_refl: "reflp same" and same_trans: "transp same"
    and ok_quiet: "ok w \<Longrightarrow> quiet w"
    and numbers: "fly k p w \<Longrightarrow> op \<in> set ops \<Longrightarrow> op_touches op (p_dst_handle p) (p_dst_lo p) (p_dst_hi p) \<noteq> Inl e"
    and run_ok: "serves env reg op k \<Longrightarrow> op \<in> set ops \<Longrightarrow> ok w \<Longrightarrow> k_run k op w = (Inr (), w') \<Longrightarrow> ok w'"
    and run_same: "serves env reg op k \<Longrightarrow> op \<in> set ops \<Longrightarrow> ok w \<Longrightarrow> ok v \<Longrightarrow> same w v \<Longrightarrow>
      agree same (k_run k op w) (k_run k op v)"
    and issue_fails: "serves env reg op k \<Longrightarrow> k_run_async k = Some f \<Longrightarrow> op \<in> set ops \<Longrightarrow> ok w \<Longrightarrow>
      f op w = (Inl e, w') \<Longrightarrow> \<exists>d v. k_run k op w = (Inl d, v)"
    and issue_runs: "serves env reg op k \<Longrightarrow> k_run_async k = Some f \<Longrightarrow> op \<in> set ops \<Longrightarrow> ok w \<Longrightarrow>
      f op w = (Inr None, w') \<Longrightarrow> ok w' \<and> agree same (Inr (), w') (k_run k op w)"
    and issue_starts: "serves env reg op k \<Longrightarrow> k_run_async k = Some f \<Longrightarrow> op \<in> set ops \<Longrightarrow> ok w \<Longrightarrow>
      f op w = (Inr (Some p), w') \<Longrightarrow> ok w' \<and> fly k p w' \<and> agree same (k_complete k p w') (k_run k op w)"
    and complete_ok: "fly k p w \<Longrightarrow> ok w \<Longrightarrow> k_complete k p w = (Inr (), w') \<Longrightarrow> ok w'"
    and overlap_fly: "fly k p w \<Longrightarrow> ok w \<Longrightarrow> serves env reg op k' \<Longrightarrow> op \<in> set ops \<Longrightarrow> may_run acc k' op (Some (interval p)) \<Longrightarrow>
      k_run k' op w = (Inr (), w') \<Longrightarrow> fly k p w'"
    and commute: "fly k p w \<Longrightarrow> ok w \<Longrightarrow> serves env reg op k' \<Longrightarrow> op \<in> set ops \<Longrightarrow> may_run acc k' op (Some (interval p)) \<Longrightarrow>
      agree same (py_then (k_run k' op) (k_complete k p) w) (py_then (k_complete k p) (k_run k' op) w)"
begin

lemma flat_op_run:
  assumes "py_str env (obj_get op F_OP (JStr '''')) = n" "n \<noteq> ''''" "registry_get reg n = Inr k" "ok w"
  shows "flat_op env reg op w = k_run k op w"
  using assms by (simp add: flat_op_def py_simps timer_op_quiet ok_quiet)

lemma flat_op_ok:
  assumes "op \<in> set ops" "ok w" "flat_op env reg op w = (Inr a, w')"
  shows "ok w'"
proof -
  let ?n = "py_str env (obj_get op F_OP (JStr ''''))"
  from assms(3) obtain k where k: "?n \<noteq> ''''" "registry_get reg ?n = Inr k"
    by (auto simp: flat_op_def Let_def py_simps split: if_splits sum.splits)
  with assms(3) flat_op_run [OF refl k assms(2)] run_ok [OF k(2) [folded serves_def] assms(1,2)] show ?thesis by simp
qed

lemma flat_op_same:
  assumes "op \<in> set ops" "ok w" "ok v" "same w v"
  shows "agree same (flat_op env reg op w) (flat_op env reg op v)"
proof (cases "py_str env (obj_get op F_OP (JStr '''')) = '''' \<or> isl (registry_get reg (py_str env (obj_get op F_OP (JStr ''''))))")
  case True
  then show ?thesis by (auto simp: flat_op_def Let_def py_simps isl_def)
next
  case False
  then obtain k where k: "registry_get reg (py_str env (obj_get op F_OP (JStr ''''))) = Inr k"
    by (cases "registry_get reg (py_str env (obj_get op F_OP (JStr '''')))") auto
  with False flat_op_run [OF refl _ k] run_same [OF k [folded serves_def] assms] assms(2,3) show ?thesis by simp
qed

lemma flat_walk_same:
  assumes "set todo \<subseteq> set ops" "ok w" "ok v" "same w v"
  shows "agree same (flat_walk env reg todo w) (flat_walk env reg todo v)"
  using assms
proof (induction todo arbitrary: w v)
  case (Cons op todo)
  then have op: "op \<in> set ops" by simp
  show ?case unfolding flat_walk_def py_for.simps
  proof (rule agree_then)
    show "agree same (flat_op env reg op w) (flat_op env reg op v)" using op Cons.prems(2-4) by (rule flat_op_same)
  next
    fix a b u u' assume "flat_op env reg op w = (Inr a, u)" "flat_op env reg op v = (Inr b, u')" "same u u'"
    with Cons.IH [unfolded flat_walk_def, of u u'] Cons.prems flat_op_ok [OF op]
    show "agree same (py_for todo (flat_op env reg) u) (py_for todo (flat_op env reg) u')" by auto
  qed
qed (simp add: flat_walk_def)

text \<open>The rest of a pipelined run, and the rest of the flat walk once the op in flight is completed.\<close>

definition rest :: "dict list \<Rightarrow> ('d, 'p) sched \<Rightarrow> ('d world, ('d, 'p) sched) py" where
  "rest todo st = py_bind (run_ops env reg todo st) (drain env)"

definition catch_up :: "('d, 'p) sched \<Rightarrow> ('d world, unit) py" where
  "catch_up st = (case sc_in_flight st of None \<Rightarrow> py_ret () | Some (n, k, p) \<Rightarrow> k_complete k p)"

definition flies :: "('d, 'p) sched \<Rightarrow> 'd world \<Rightarrow> bool" where
  "flies st w \<longleftrightarrow> ok w \<and> (\<forall>n k p. sc_in_flight st = Some (n, k, p) \<longrightarrow> fly k p w)"

lemma catch_up_ok: "flies st w \<Longrightarrow> catch_up st w = (Inr a, w') \<Longrightarrow> ok w'"
  by (auto simp: flies_def catch_up_def complete_ok split: option.splits prod.splits)

text \<open>One op, issued with nothing in flight or overlapped with what is in flight.\<close>

lemma issue_step:
  assumes k: "serves env reg op k" and op: "op \<in> set ops" and f: "flies st w" and may: "may_run acc k op (sched_ghost st)"
  shows "case issue_op env n k op st w of
      (Inl e, w1) \<Rightarrow> (\<exists>d v. py_then (catch_up st) (k_run k op) w = (Inl d, v))
    | (Inr st', w1) \<Rightarrow> flies st' w1 \<and> agree same (catch_up st' w1) (py_then (catch_up st) (k_run k op) w)"
proof -
  have ok: "ok w" using f by (simp add: flies_def)
  note q = ok_quiet [OF ok]
  have refl: "same u u" for u using same_refl by (simp add: reflpD)
  show ?thesis
  proof (cases "sc_in_flight st")
    case None
    then have c: "py_then (catch_up st) (k_run k op) w = k_run k op w" by (simp add: catch_up_def py_then_run)
    show ?thesis
    proof (cases "k_run_async k")
      case n: None
      then have "issue_op env n k op st w = py_then (k_run k op) (py_ret (count_op k st)) w"
        using None q by (simp add: issue_op_def timer_op_quiet py_simps)
      with None c refl run_ok [OF k op ok] show ?thesis
        by (auto simp: py_then_run flies_def catch_up_def split: prod.splits sum.splits)
    next
      case (Some g)
      then have i: "issue_op env n k op st w = py_bind (g op) (\<lambda>pending. py_ret (case pending of None \<Rightarrow> count_op k st
          | Some p \<Rightarrow> (count_op k st)\<lparr>sc_in_flight := Some (n, k, p)\<rparr>)) w"
        using None q by (simp add: issue_op_def timer_op_quiet py_simps Let_def)
      show ?thesis
        using issue_fails [OF k Some op ok] issue_runs [OF k Some op ok] issue_starts [OF k Some op ok] None unfolding i c
        by (auto simp: py_bind_run flies_def catch_up_def split: prod.splits sum.splits option.splits)
    qed
  next
    case (Some h)
    then obtain nm k' p where h: "sc_in_flight st = Some (nm, k', p)" by (cases h) auto
    have may': "may_run acc k op (Some (interval p))" using may h by (simp add: sched_ghost_def)
    have fly: "fly k' p w" using f h by (simp add: flies_def)
    have c: "agree same (py_then (k_run k op) (k_complete k' p) w) (py_then (catch_up st) (k_run k op) w)"
      using commute [OF fly ok k op may'] h by (simp add: catch_up_def)
    have i: "issue_op env n k op st w = py_then (k_run k op) (py_ret (count_op k st)) w"
      using h q by (simp add: issue_op_def timer_op_quiet py_simps split: option.split)
    show ?thesis
    proof (cases "k_run k op w")
      case (Pair r w1)
      show ?thesis
      proof (cases r)
        case (Inl e)
        with Pair i c show ?thesis by (auto simp: py_then_run dest!: agree_Inl)
      next
        case (Inr u)
        with Pair i c h overlap_fly [OF fly ok k op may'] run_ok [OF k op ok] show ?thesis
          by (auto simp: py_then_run flies_def catch_up_def)
      qed
    qed
  qed
qed

lemma barrier_step:
  assumes "op \<in> set ops" "flies st w"
  shows "case barrier env k op st w of
      (Inl e, w1) \<Rightarrow> (\<exists>d v. catch_up st w = (Inl d, v))
    | (Inr st', w1) \<Rightarrow> flies st' w1 \<and> catch_up st' w1 = catch_up st w"
proof (cases "sc_in_flight st")
  case None
  with assms show ?thesis by (simp add: barrier_def)
next
  case (Some f)
  obtain n k' p where f: "f = (n, k', p)" by (cases f)
  have q: "quiet w" and ok: "ok w" using assms(2) ok_quiet by (simp_all add: flies_def)
  obtain b where b: "needs_barrier k op p = Inr b"
    using numbers [OF _ assms(1), of k' p w] assms(2) Some f by (cases "needs_barrier k op p") (auto simp: needs_barrier_def flies_def split: if_splits)
  have cu: "catch_up st = k_complete k' p" using Some f by (simp add: catch_up_def)
  show ?thesis
  proof (cases b)
    case True
    with Some f b q have "barrier env k op st w = py_then (k_complete k' p) (py_ret (st\<lparr>sc_in_flight := None\<rparr>)) w"
      by (simp add: barrier_def py_simps complete_pending_def timer_op_quiet)
    with cu catch_up_ok [OF assms(2)] show ?thesis
      by (auto simp: py_then_run flies_def catch_up_def split: prod.splits sum.splits)
  next
    case False
    with Some f b assms(2) show ?thesis by (simp add: barrier_def py_simps)
  qed
qed

lemma rest_is_flat:
  assumes "ops = pre @ todo" "sched_flying pre st" "flies st w"
  shows "agree same (rest todo st w) (py_then (catch_up st) (flat_walk env reg todo) w)"
  using assms
proof (induction todo arbitrary: pre st w)
  case Nil
  have "quiet w" using Nil(3) ok_quiet by (simp add: flies_def)
  then show ?case using same_refl
    by (auto simp: rest_def flat_walk_def py_simps drain_def catch_up_def complete_pending_def timer_op_quiet reflpD
        split: option.split prod.split sum.split)
next
  case (Cons op todo)
  let ?n = "py_str env (obj_get op F_OP (JStr ''''))"
  have op: "op \<in> set ops" using Cons.prems(1) by simp
  have step: "rest (op # todo) st w = py_bind (run_op env reg op st) (rest todo) w"
    by (simp add: rest_def py_bind_run split: prod.split sum.split)
  show ?case
  proof (cases "?n = '''' \<or> isl (registry_get reg ?n)")
    case True
    then have f: "\<exists>e. run_op env reg op st w = (Inl e, w)" "\<exists>e. flat_op env reg op u = (Inl e, u)" for u
      by (auto simp: run_op_def flat_op_def Let_def py_simps isl_def)
    obtain r u where c: "catch_up st w = (r, u)" by (cases "catch_up st w")
    show ?thesis unfolding step using f(1) f(2) [of u] c by (cases r) (auto simp: flat_walk_def py_simps)
  next
    case False
    then obtain k where k: "?n \<noteq> ''''" "registry_get reg ?n = Inr k" by (cases "registry_get reg ?n") auto
    note kin = k(2) [folded serves_def]
    have step': "rest (op # todo) st w = py_bind (barrier env k op st) (\<lambda>st1. py_bind (issue_op env ?n k op st1) (rest todo)) w"
      unfolding step using k by (simp add: run_op_def Let_def py_simps split: prod.split sum.split)
    have flat: "flat_walk env reg (op # todo) u = py_then (k_run k op) (flat_walk env reg todo) u" if "ok u" for u
      using flat_op_run [OF refl k that] by (simp add: flat_walk_def py_simps)
    have goal': "py_then (catch_up st) (flat_walk env reg (op # todo)) w =
        py_then (py_then (catch_up st) (k_run k op)) (flat_walk env reg todo) w"
      using flat catch_up_ok [OF Cons.prems(3)] by (auto simp: py_then_run split: prod.split sum.split)
    obtain rb w1 where b: "barrier env k op st w = (rb, w1)" by (cases "barrier env k op st w")
    show ?thesis
    proof (cases rb)
      case (Inl e)
      with b barrier_step [OF op Cons.prems(3), of k] show ?thesis unfolding step' goal' by (auto simp: py_simps)
    next
      case (Inr st1)
      with b barrier_step [OF op Cons.prems(3), of k] have
        s1: "flies st1 w1" "catch_up st1 w1 = catch_up st w" by simp_all
      have fl1: "sched_flying pre st1" and may: "may_run acc k op (sched_ghost st1)"
        using barrier_flying [OF Cons.prems(2,1)] b Inr by auto
      have cu: "py_then (catch_up st) (k_run k op) w = py_then (catch_up st1) (k_run k op) w1"
        using s1(2) by (simp add: py_then_run)
      obtain ri w2 where i: "issue_op env ?n k op st1 w1 = (ri, w2)" by (cases "issue_op env ?n k op st1 w1")
      note iss = issue_step [OF kin op s1(1) may, of ?n]
      show ?thesis
      proof (cases ri)
        case ie: (Inl e)
        with i iss cu b Inr show ?thesis unfolding step' goal' by (auto simp: py_simps)
      next
        case ir: (Inr st2)
        with i iss have s2: "flies st2 w2" "agree same (catch_up st2 w2) (py_then (catch_up st1) (k_run k op) w1)" by simp_all
        have "sched_flying (pre @ [op]) st2"
          using run_op_flying [OF Cons.prems(2,1), of w st2 w2] b Inr i ir k by (simp add: run_op_def Let_def py_simps)
        from Cons.IH [OF _ this s2(1)] Cons.prems(1)
        have IH: "agree same (rest todo st2 w2) (py_then (catch_up st2) (flat_walk env reg todo) w2)" by simp
        have "agree same (py_then (catch_up st2) (flat_walk env reg todo) w2)
            (py_then (py_then (catch_up st) (k_run k op)) (flat_walk env reg todo) w)"
        proof (rule agree_then)
          show "agree same (catch_up st2 w2) (py_then (catch_up st) (k_run k op) w)" using s2(2) cu by simp
        next
          fix a b u u' assume "catch_up st2 w2 = (Inr a, u)" "py_then (catch_up st) (k_run k op) w = (Inr b, u')" "same u u'"
          moreover from this have "ok u" "ok u'" using catch_up_ok [OF s2(1)] catch_up_ok [OF Cons.prems(3)] run_ok [OF kin op]
            by (auto simp: py_then_run split: prod.splits sum.splits)
          ultimately show "agree same (flat_walk env reg todo u) (flat_walk env reg todo u')"
            using Cons.prems(1) by (intro flat_walk_same) auto
        qed
        with IH have "agree same (rest todo st2 w2) (py_then (py_then (catch_up st) (k_run k op)) (flat_walk env reg todo) w)"
          using agree_trans [OF same_trans] by blast
        then show ?thesis unfolding step' goal' using b Inr i ir by (simp add: py_simps)
      qed
    qed
  qed
qed

lemma pipelined_is_flat:
  assumes "ok w"
  shows "agree same (run_schedule env reg ops w) (flat_walk env reg ops w)"
  using rest_is_flat [of "[]" ops "\<lparr>sc_in_flight = None, sc_ps = 0, sc_pl = 0\<rparr>" w] assms
  by (simp add: rest_def run_schedule_def sched_flying_def flies_def catch_up_def py_then_run)

end

end
