(* ===== verification/AllocInv.thy ===== *)
theory AllocInv
  imports Allocator
begin

text \<open>
  The invariant of the allocator and its preservation.  \<open>partitioned\<close> says that in every
  slab the free blocks, in normal form, and the extents of the live tensors divide the slab's
  bytes among them without overlap.  Because normal forms are unique, the free lists are a
  function of the live extents (\<open>partitioned_unique\<close>); that a failed allocation and a
  free after an allocation restore the free lists exactly are consequences.
\<close>

section \<open>The invariant\<close>

definition ext_range :: "extent \<Rightarrow> int set" where
  "ext_range e = range_of (ext_offset e, ext_nbytes e)"

definition ext_ok :: "slab list \<Rightarrow> extent \<Rightarrow> bool" where
  "ext_ok slabs e \<longleftrightarrow> ext_slab e < length slabs \<and> 0 \<le> ext_offset e \<and> 0 < ext_nbytes e \<and>
     ext_offset e + ext_nbytes e \<le> slab_size (slabs ! ext_slab e)"

definition ext_sep :: "extent \<Rightarrow> extent \<Rightarrow> bool" where
  "ext_sep e f \<longleftrightarrow> ext_slab e \<noteq> ext_slab f \<or> ext_range e \<inter> ext_range f = {}"

definition used_in :: "nat \<Rightarrow> extent list \<Rightarrow> int set" where
  "used_in i es = (\<Union>e \<in> {e \<in> set es. ext_slab e = i}. ext_range e)"

definition slab_divided :: "int \<Rightarrow> block list \<Rightarrow> int set \<Rightarrow> bool" where
  "slab_divided n fl used \<longleftrightarrow>
     canon 0 n fl \<and> covers fl \<union> used = {0..<n} \<and> covers fl \<inter> used = {}"

definition partitioned :: "slab list \<Rightarrow> block list list \<Rightarrow> extent list \<Rightarrow> bool" where
  "partitioned slabs free es \<longleftrightarrow>
     length free = length slabs \<and>
     (\<forall>i < length slabs. slab_divided (slab_size (slabs ! i)) (free ! i) (used_in i es)) \<and>
     (\<forall>e \<in> set es. ext_ok slabs e) \<and> sorted_wrt ext_sep es"

definition ext_sum :: "extent list \<Rightarrow> int" where
  "ext_sum es = (\<Sum>e\<leftarrow>es. ext_nbytes e)"

definition all_extents :: "allocator \<Rightarrow> extent list" where
  "all_extents a = concat (map (\<lambda>(h, r). tr_extents r) (al_records a))"

definition record_ok :: "int \<Rightarrow> int \<times> tensor_record \<Rightarrow> bool" where
  "record_ok next_handle = (\<lambda>(h, r).
     tr_handle r = h \<and> 0 < h \<and> h < next_handle \<and> tr_nbytes r = ext_sum (tr_extents r))"

definition slabs_ok :: "slab list \<Rightarrow> bool" where
  "slabs_ok slabs \<longleftrightarrow> slabs \<noteq> [] \<and>
     (\<forall>s \<in> set slabs. 0 < slab_size s \<and> int (length (buf s)) = slab_size s)"

definition alloc_inv :: "allocator \<Rightarrow> bool" where
  "alloc_inv a \<longleftrightarrow> slabs_ok (al_slabs a) \<and> 0 < al_next_handle a \<and>
     partitioned (al_slabs a) (al_free a) (all_extents a) \<and>
     distinct (map fst (al_records a)) \<and>
     (\<forall>p \<in> set (al_records a). record_ok (al_next_handle a) p)"

lemma used_in_simps [simp]:
  "used_in i [] = {}"
  "used_in i (e # es) = (if ext_slab e = i then ext_range e else {}) \<union> used_in i es"
  "used_in i (es @ fs) = used_in i es \<union> used_in i fs"
  by (auto simp: used_in_def)

lemma ext_sep_sym: "ext_sep e f \<Longrightarrow> ext_sep f e"
  by (auto simp: ext_sep_def)

lemma ext_sum_simps [simp]:
  "ext_sum [] = 0" "ext_sum (e # es) = ext_nbytes e + ext_sum es"
  "ext_sum (es @ fs) = ext_sum es + ext_sum fs"
  by (simp_all add: ext_sum_def)

lemma ext_sep_used:
  "(\<forall>f \<in> set es. ext_sep f e) \<longleftrightarrow> ext_range e \<inter> used_in (ext_slab e) es = {}"
  by (auto simp: ext_sep_def used_in_def)

section \<open>Uniqueness of the free lists\<close>

lemma slab_divided_unique: "slab_divided n fl u \<Longrightarrow> slab_divided n fl' u \<Longrightarrow> fl = fl'"
  unfolding slab_divided_def by (rule canon_unique [of 0 n]) blast+

lemma partitioned_unique:
  assumes "partitioned slabs free es" "partitioned slabs free' es"
  shows "free = free'"
proof (rule nth_equalityI)
  show "length free = length free'" using assms by (simp add: partitioned_def)
next
  fix i assume "i < length free"
  with assms have "slab_divided (slab_size (slabs ! i)) (free ! i) (used_in i es)"
      "slab_divided (slab_size (slabs ! i)) (free' ! i) (used_in i es)"
    by (auto simp: partitioned_def)
  then show "free ! i = free' ! i" by (rule slab_divided_unique)
qed

section \<open>Taking and releasing keep the partition\<close>

lemma partitioned_take:
  assumes P: "partitioned slabs free es" and i: "i < length slabs" and n: "0 < n"
    and c: "canon 0 (slab_size (slabs ! i)) fl'" "range_of (off, n) \<subseteq> covers (free ! i)"
    "covers fl' = covers (free ! i) - range_of (off, n)"
  shows "partitioned slabs (free[i := fl'])
    (es @ [\<lparr>ext_slab = i, ext_offset = off, ext_nbytes = n\<rparr>])" (is "partitioned _ _ (es @ [?e])")
proof -
  from P i have d: "slab_divided (slab_size (slabs ! i)) (free ! i) (used_in i es)"
    and len: "length free = length slabs" by (auto simp: partitioned_def)
  have re: "ext_range ?e = range_of (off, n)" by (simp add: ext_range_def)
  have sub: "range_of (off, n) \<subseteq> {0..<slab_size (slabs ! i)}" using d c(2) by (auto simp: slab_divided_def)
  then have "off \<in> {0..<slab_size (slabs ! i)}" "off + n - 1 \<in> {0..<slab_size (slabs ! i)}"
    using n by (auto simp: subset_iff)
  then have ok: "ext_ok slabs ?e" using i n by (auto simp: ext_ok_def)
  have "ext_range ?e \<inter> used_in (ext_slab ?e) es = {}"
    using d c(2) re by (auto simp: slab_divided_def)
  then have "\<forall>f \<in> set es. ext_sep f ?e" by (subst ext_sep_used)
  then have sep: "sorted_wrt ext_sep (es @ [?e])"
    using P by (simp add: partitioned_def sorted_wrt_append)
  have "slab_divided (slab_size (slabs ! j)) (free[i := fl'] ! j) (used_in j (es @ [?e]))"
    if j: "j < length slabs" for j
  proof (cases "j = i")
    case True
    with d c len i re show ?thesis by (auto simp: slab_divided_def)
  next
    case False
    then show ?thesis using P j by (simp add: partitioned_def)
  qed
  with P ok sep len show ?thesis by (auto simp: partitioned_def)
qed

lemma partitioned_release:
  assumes P: "partitioned slabs free (es @ e # fs)"
  shows "partitioned slabs (free[ext_slab e :=
      release_range (ext_offset e) (ext_nbytes e) (free ! ext_slab e)]) (es @ fs)"
proof -
  let ?i = "ext_slab e" and ?b = "(ext_offset e, ext_nbytes e)"
  let ?n = "slab_size (slabs ! ?i)"
  let ?fl = "release_range (ext_offset e) (ext_nbytes e) (free ! ?i)"
  from P have ok: "ext_ok slabs e" and len: "length free = length slabs"
    and sep: "sorted_wrt ext_sep (es @ e # fs)" by (auto simp: partitioned_def)
  then have i: "?i < length slabs" by (simp add: ext_ok_def)
  with P have d: "slab_divided ?n (free ! ?i) (used_in ?i (es @ e # fs))" by (auto simp: partitioned_def)
  have c: "canon 0 ?n ?fl" "covers ?fl = covers (free ! ?i) \<union> range_of ?b"
    using release_range_canon [of 0 ?n "free ! ?i" "ext_offset e" "ext_nbytes e"] d ok
    by (auto simp: slab_divided_def ext_ok_def)
  have "\<forall>f \<in> set (es @ fs). ext_sep f e"
    using sep ext_sep_sym by (auto simp: sorted_wrt_append)
  then have dis: "range_of ?b \<inter> used_in ?i (es @ fs) = {}"
    by (subst (asm) ext_sep_used) (simp add: ext_range_def)
  have "slab_divided ?n ?fl (used_in ?i (es @ fs))"
    using d c dis by (auto simp: slab_divided_def ext_range_def)
  moreover have "slab_divided (slab_size (slabs ! j)) (free ! j) (used_in j (es @ fs))"
    if "j < length slabs" "j \<noteq> ?i" for j
    using P that by (auto simp: partitioned_def)
  moreover have "sorted_wrt ext_sep (es @ fs)" using sep by (auto simp: sorted_wrt_append)
  ultimately show ?thesis using P i len by (auto simp: partitioned_def nth_list_update)
qed

lemma release_all_fields [simp]:
  "al_slabs (release_all es a) = al_slabs a" "al_records (release_all es a) = al_records a"
  "al_next_handle (release_all es a) = al_next_handle a"
  "al_default_alignment (release_all es a) = al_default_alignment a"
  unfolding release_all_def
  by (induction es arbitrary: a) (auto simp: alloc_release_def set_free_def)

lemma release_all_Cons:
  "release_all (e # es) a = release_all es (alloc_release (ext_slab e) (ext_offset e) (ext_nbytes e) a)"
  by (simp add: release_all_def)

lemma partitioned_release_all:
  "partitioned (al_slabs a) (al_free a) (es @ rs @ fs) \<Longrightarrow>
   partitioned (al_slabs a) (al_free (release_all rs a)) (es @ fs)"
proof (induction rs arbitrary: a)
  case Nil
  then show ?case by (simp add: release_all_def)
next
  case (Cons r rs)
  let ?a = "alloc_release (ext_slab r) (ext_offset r) (ext_nbytes r) a"
  have "partitioned (al_slabs ?a) (al_free ?a) (es @ rs @ fs)"
    using partitioned_release [of "al_slabs a" "al_free a" es r "rs @ fs"] Cons.prems
    by (simp add: alloc_release_def set_free_def)
  from Cons.IH [OF this] show ?case
    by (simp add: release_all_Cons) (simp add: alloc_release_def set_free_def)
qed

section \<open>Placement\<close>

lemma fit_slab_Some:
  assumes "fit_slab nbytes alignment k fls = Inr (Some (i, aligned))"
  shows "k \<le> i \<and> i < k + length fls \<and> fit_block nbytes alignment (fls ! (i - k)) = Inr (Some aligned)"
  using assms
proof (induction nbytes alignment k fls rule: fit_slab.induct)
  case (2 nbytes alignment k fl rest)
  then show ?case
    by (auto split: sum.splits option.splits simp: nth_Cons' Suc_diff_Suc)
qed simp

definition extent_aligned :: "int \<Rightarrow> extent \<Rightarrow> bool" where
  "extent_aligned alignment e \<longleftrightarrow> ext_offset e mod alignment = 0"

text \<open>What a placement leaves behind: the free lists with the new extents taken out.\<close>

definition placed_ok :: "int \<Rightarrow> int \<Rightarrow> extent list \<Rightarrow> allocator \<Rightarrow> allocator \<Rightarrow> bool" where
  "placed_ok nbytes alignment es a a' \<longleftrightarrow>
     (\<exists>fls. a' = a\<lparr>al_free := fls\<rparr> \<and> partitioned (al_slabs a) fls (all_extents a @ es)) \<and>
     ext_sum es = nbytes \<and> (\<forall>e \<in> set es. extent_aligned alignment e)"

lemma place_single_Some:
  assumes inv: "partitioned (al_slabs a) (al_free a) (all_extents a)" and n: "0 < nbytes"
    and run: "place_single nbytes alignment a = (Inr (Some es), a')"
  shows "es \<noteq> [] \<and> placed_ok nbytes alignment es a a'"
proof -
  from run obtain i al fl where f: "fit_slab nbytes alignment 0 (al_free a) = Inr (Some (i, al))"
      and t: "take_range al nbytes (al_free a ! i) = Some fl" and a': "a' = set_free i fl a"
      and es: "es = [\<lparr>ext_slab = i, ext_offset = al, ext_nbytes = nbytes\<rparr>]"
    by (auto simp: place_single_def alloc_take_def split: sum.splits option.splits prod.splits)
  from fit_slab_Some [OF f] have i: "i < length (al_slabs a)"
      and fb: "fit_block nbytes alignment (al_free a ! i) = Inr (Some al)"
    using inv by (auto simp: partitioned_def)
  from fit_block_Some [OF fb] have "al mod alignment = 0" by (auto dest: align_up_Inr)
  moreover have "canon 0 (slab_size (al_slabs a ! i)) (al_free a ! i)"
    using inv i by (auto simp: partitioned_def slab_divided_def)
  note take_range_canon [OF this n t]
  ultimately show ?thesis
    using partitioned_take [OF inv i n, of fl al] es a'
    by (auto simp: placed_ok_def set_free_def extent_aligned_def)
qed

lemma place_single_finds:
  assumes inv: "partitioned (al_slabs a) (al_free a) (all_extents a)" and n: "0 < nbytes"
    and run: "place_single nbytes alignment a = (r, a')"
  shows "(\<exists>es. r = Inr (Some es)) \<or> (a' = a \<and> (r = Inr None \<or> r = Inl ValueError))"
proof (cases "fit_slab nbytes alignment 0 (al_free a)")
  case (Inl e)
  have al: "align_up v w = Inl e' \<Longrightarrow> e' = ValueError" for v w e' by (auto simp: align_up_def split: if_splits)
  have fb: "fit_block m w fl = Inl e' \<Longrightarrow> e' = ValueError" for m w fl e'
    by (induction m w fl rule: fit_block.induct) (auto simp: bindR_def split: sum.splits if_splits dest: al)
  have "fit_slab m w k fls = Inl e' \<Longrightarrow> e' = ValueError" for m w k fls e'
    by (induction m w k fls rule: fit_slab.induct) (auto split: sum.splits option.splits dest: fb)
  with Inl run show ?thesis by (auto simp: place_single_def)
next
  case (Inr o')
  show ?thesis
  proof (cases o')
    case None
    with Inr run show ?thesis by (auto simp: place_single_def)
  next
    case (Some p)
    obtain i al where p: "p = (i, al)" by (cases p)
    note f = Inr [unfolded Some p]
    from fit_slab_Some [OF f] have i: "i < length (al_slabs a)"
        and fb: "fit_block nbytes alignment (al_free a ! i) = Inr (Some al)"
      using inv by (auto simp: partitioned_def)
    from fit_block_Some [OF fb] obtain bo bs where "(bo, bs) \<in> set (al_free a ! i)" "bo \<le> al"
        "al + nbytes \<le> bo + bs" by (auto dest: align_up_Inr)
    then obtain fl where "take_range al nbytes (al_free a ! i) = Some fl"
      using take_range_exists by blast
    with f run show ?thesis by (auto simp: place_single_def alloc_take_def)
  qed
qed

text \<open>The greedy fill over several slabs.\<close>

lemma fill_slab_partitioned:
  assumes "partitioned slabs (pre @ fl # post) (es0 @ extents)" "0 \<le> remaining"
    "fill_slab (length pre) alignment extents remaining fl = (Inr (extents', remaining'), fl')"
  shows "partitioned slabs (pre @ fl' # post) (es0 @ extents') \<and> 0 \<le> remaining' \<and>
    (\<exists>new. extents' = extents @ new \<and> ext_sum new = remaining - remaining' \<and>
       (\<forall>e \<in> set new. extent_aligned alignment e))"
  using assms
proof (induction "length pre" alignment extents remaining fl arbitrary: extents' remaining' fl'
    rule: fill_slab.induct)
  case (1 alignment extents remaining fl)
  note P = "1.prems"(1) and run = "1.prems"(3)
  show ?case
  proof (cases "0 < remaining")
    case False
    with run have "extents' = extents" "remaining' = remaining" "fl' = fl"
      by (auto simp: fill_slab.simps [of "length pre" alignment extents remaining fl])
    with P "1.prems"(2) show ?thesis by auto
  next
    case True
    show ?thesis
    proof (cases "take_largest remaining alignment fl")
      case (Inl e)
      with True run show ?thesis
        by (simp add: fill_slab.simps [of "length pre" alignment extents remaining fl])
    next
      case tk: (Inr t)
      show ?thesis
      proof (cases t)
        case None
        with tk True run have "extents' = extents" "remaining' = remaining" "fl' = fl"
          by (auto simp: fill_slab.simps [of "length pre" alignment extents remaining fl])
        with P "1.prems"(2) show ?thesis by auto
      next
        case (Some p)
        obtain off n gl where p: "p = ((off, n), gl)" by (cases p) auto
        let ?e = "\<lparr>ext_slab = length pre, ext_offset = off, ext_nbytes = n\<rparr>"
        note tk' = tk [unfolded Some p]
        from P have i: "length pre < length slabs" by (auto simp: partitioned_def)
        with P have "slab_divided (slab_size (slabs ! length pre)) ((pre @ fl # post) ! length pre)
            (used_in (length pre) (es0 @ extents))"
          unfolding partitioned_def by blast
        then have "canon 0 (slab_size (slabs ! length pre)) fl" by (simp add: slab_divided_def)
        note c = take_largest_canon [OF this True tk']
        have "partitioned slabs ((pre @ fl # post)[length pre := gl]) ((es0 @ extents) @ [?e])"
          using c P i by (intro partitioned_take) (auto simp: nth_append)
        then have P': "partitioned slabs (pre @ gl # post) (es0 @ extents @ [?e])" by simp
        have "fill_slab (length pre) alignment (extents @ [?e]) (remaining - n) gl =
            (Inr (extents', remaining'), fl')"
          using run True tk' by (simp add: fill_slab.simps [of "length pre" alignment extents remaining fl])
        from "1.hyps" [OF True tk' refl refl refl P' _ this] c
        obtain new where "partitioned slabs (pre @ fl' # post) (es0 @ extents')" "0 \<le> remaining'"
            "extents' = (extents @ [?e]) @ new" "ext_sum new = remaining - n - remaining'"
            "\<forall>e \<in> set new. extent_aligned alignment e"
          by auto
        moreover have "extent_aligned alignment ?e" using c by (simp add: extent_aligned_def)
        ultimately show ?thesis by (intro conjI exI [of _ "?e # new"]) auto
      qed
    qed
  qed
qed

lemma fill_slabs_partitioned:
  assumes "partitioned slabs (pre @ fls) (es0 @ extents)" "0 \<le> remaining"
    "fill_slabs (length pre) alignment extents remaining fls = (Inr (extents', remaining'), fls')"
  shows "partitioned slabs (pre @ fls') (es0 @ extents') \<and> 0 \<le> remaining' \<and>
    (\<exists>new. extents' = extents @ new \<and> ext_sum new = remaining - remaining' \<and>
       (\<forall>e \<in> set new. extent_aligned alignment e))"
  using assms
proof (induction fls arbitrary: pre extents remaining fls')
  case Nil
  then show ?case by auto
next
  case (Cons fl fls)
  obtain r fl' where f: "fill_slab (length pre) alignment extents remaining fl = (r, fl')"
    by (cases "fill_slab (length pre) alignment extents remaining fl")
  with Cons.prems(3) obtain es1 rem1 where r: "r = Inr (es1, rem1)" by (cases r) auto
  note step = fill_slab_partitioned [OF Cons.prems(1,2) f [unfolded r]]
  then obtain new1 where n1: "es1 = extents @ new1" "ext_sum new1 = remaining - rem1"
      "\<forall>e \<in> set new1. extent_aligned alignment e" by auto
  show ?case
  proof (cases "rem1 = 0")
    case True
    with Cons.prems(3) f r have "extents' = es1" "remaining' = 0" "fls' = fl' # fls" by auto
    with step True n1 show ?thesis by auto
  next
    case False
    with Cons.prems(3) f r obtain gls where g: "fls' = fl' # gls"
        "fill_slabs (length (pre @ [fl'])) alignment es1 rem1 fls = (Inr (extents', remaining'), gls)"
      by (auto split: prod.splits)
    have "partitioned slabs ((pre @ [fl']) @ fls) (es0 @ es1)" using step by simp
    from Cons.IH [OF this _ g(2)] step obtain new where
        "partitioned slabs ((pre @ [fl']) @ gls) (es0 @ extents')" "0 \<le> remaining'"
        "extents' = es1 @ new" "ext_sum new = rem1 - remaining'"
        "\<forall>e \<in> set new. extent_aligned alignment e" by auto
    with n1 g(1) show ?thesis by (intro conjI exI [of _ "new1 @ new"]) auto
  qed
qed

lemma take_largest_error: "take_largest m w fl = Inl e \<Longrightarrow> e = ValueError \<and> w \<le> 0"
  by (induction m w fl rule: take_largest.induct)
     (auto simp: align_up_def split: sum.splits option.splits prod.splits if_splits)

lemma fill_slab_error:
  "fill_slab i w es r fl = (Inl e, fl') \<Longrightarrow> e = ValueError \<and> w \<le> 0 \<and> fl' = fl"
proof (induction i w es r fl rule: fill_slab.induct)
  case (1 i w es r fl)
  have noerr: "take_largest m w gl \<noteq> Inr (Some x)" if "w \<le> 0" for m gl x
    using that by (cases gl) (auto simp: align_up_def)
  from "1.prems" obtain "0 < r" by (auto simp: fill_slab.simps [of i w es r fl] split: if_splits)
  then show ?case
    using "1.prems" "1.IH" noerr
    by (auto simp: fill_slab.simps [of i w es r fl] dest: take_largest_error
        split: sum.splits option.splits prod.splits)
qed

lemma fill_slab_stuck: "w \<le> 0 \<Longrightarrow> fill_slab i w es r fl = (Inr (es', r'), fl') \<Longrightarrow> fl' = fl"
  by (cases fl)
     (auto simp: fill_slab.simps [of i w es r] align_up_def split: if_splits)

lemma fill_slabs_error:
  "fill_slabs i w es r fls = (Inl e, fls') \<Longrightarrow> e = ValueError \<and> fls' = fls"
proof (induction i w es r fls arbitrary: fls' rule: fill_slabs.induct)
  case (2 i w es r fl fls)
  obtain x gl where f: "fill_slab i w es r fl = (x, gl)" by (cases "fill_slab i w es r fl")
  show ?case
  proof (cases x)
    case (Inl e')
    with f "2.prems" fill_slab_error [of i w es r fl e' gl] show ?thesis by auto
  next
    case (Inr p)
    obtain es1 r1 where p: "p = (es1, r1)" by (cases p)
    from "2.prems" f Inr p obtain gls where g: "r1 \<noteq> 0" "fls' = gl # gls"
        "fill_slabs (Suc i) w es1 r1 fls = (Inl e, gls)"
      by (auto split: if_splits prod.splits)
    with "2.IH" [OF f [symmetric] Inr p [symmetric]] have "e = ValueError" "gls = fls" by auto
    moreover have "w \<le> 0"
      using g(3)
    proof (induction "Suc i" w es1 r1 fls arbitrary: i gls rule: fill_slabs.induct)
      case (2 w' es' r' fl' fls')
      then show ?case
        by (auto split: prod.splits sum.splits if_splits dest: fill_slab_error)
    qed simp
    then have "gl = fl" using fill_slab_stuck f Inr p by blast
    ultimately show ?thesis using g by simp
  qed
qed simp

lemma place_multi_cases:
  assumes inv: "partitioned (al_slabs a) (al_free a) (all_extents a)" and n: "0 < nbytes"
    and run: "place_multi nbytes alignment a = (r, a')"
  shows "(\<exists>es. r = Inr (Some es) \<and> es \<noteq> [] \<and> placed_ok nbytes alignment es a a') \<or>
    (a' = a \<and> (r = Inr None \<or> r = Inl ValueError))"
proof (cases "fill_slabs 0 alignment [] nbytes (al_free a)")
  case (Pair x fls)
  show ?thesis
  proof (cases x)
    case (Inl e)
    with fill_slabs_error Pair have "e = ValueError" "fls = al_free a" by blast+
    with Inl Pair run show ?thesis by (simp add: place_multi_def)
  next
    case (Inr p)
    obtain es rem where p: "p = (es, rem)" by (cases p)
    note f = Pair [unfolded Inr p]
    have P: "partitioned (al_slabs a) fls (all_extents a @ es)" "0 \<le> rem"
        "ext_sum es = nbytes - rem" "\<forall>e \<in> set es. extent_aligned alignment e"
      using fill_slabs_partitioned [of "al_slabs a" "[]" "al_free a" "all_extents a" "[]" nbytes
          alignment es rem fls] inv n f by auto
    show ?thesis
    proof (cases "rem = 0")
      case True
      with f run have "r = Inr (Some es)" "a' = a\<lparr>al_free := fls\<rparr>" by (auto simp: place_multi_def)
      moreover have "es \<noteq> []" using P(3) True n by auto
      ultimately show ?thesis using P True by (auto simp: placed_ok_def)
    next
      case False
      with f run have r: "r = Inr None" and a': "a' = release_all es (a\<lparr>al_free := fls\<rparr>)"
        by (auto simp: place_multi_def)
      have "partitioned (al_slabs a) (al_free a') (all_extents a)"
        using partitioned_release_all [of "a\<lparr>al_free := fls\<rparr>" "all_extents a" es "[]"] P(1) a'
        by simp
      then have "al_free a' = al_free a" using inv by (rule partitioned_unique)
      then have "a' = a" using a' by (intro allocator.equality) auto
      with r show ?thesis by simp
    qed
  qed
qed

end
