(* ===== verification/AllocOps.thy ===== *)
theory AllocOps
  imports AllocInv
begin

text \<open>
  The public methods of the allocator against its invariant: what \<open>allocate\<close> and
  \<open>free\<close> do on every branch, exactly when an allocation runs out of memory, that the byte
  counts add up, and that every allocator the daemon can reach satisfies the invariant.
\<close>

section \<open>Placement, once more\<close>

lemma place_cases:
  assumes inv: "partitioned (al_slabs a) (al_free a) (all_extents a)" and n: "0 < nbytes"
    and run: "place nbytes alignment a = (r, a')"
  shows "(\<exists>es. r = Inr (Some es) \<and> es \<noteq> [] \<and> placed_ok nbytes alignment es a a') \<or>
    (a' = a \<and> (r = Inr None \<or> r = Inl ValueError))"
proof -
  obtain r1 a1 where s: "place_single nbytes alignment a = (r1, a1)"
    by (cases "place_single nbytes alignment a")
  from place_single_finds [OF inv n s] consider
      (found) es where "r1 = Inr (Some es)" | (none) "a1 = a" "r1 = Inr None"
    | (err) "a1 = a" "r1 = Inl ValueError" by blast
  then show ?thesis
  proof cases
    case found
    with place_single_Some [OF inv n] s run show ?thesis
      by (auto simp: place_def py_bind_run)
  next
    case none
    with s run have "place_multi nbytes alignment a = (r, a')" by (simp add: place_def py_bind_run)
    from place_multi_cases [OF inv n this] show ?thesis .
  next
    case err
    with s run show ?thesis by (simp add: place_def py_bind_run)
  qed
qed

section \<open>How much aligned room there is\<close>

text \<open>The bytes of a block from its first aligned offset on.\<close>

definition block_room :: "int \<Rightarrow> block \<Rightarrow> int" where
  "block_room w = (\<lambda>(off, n). case align_up off w of Inl _ \<Rightarrow> 0 | Inr al \<Rightarrow> max 0 (n - (al - off)))"

definition room :: "int \<Rightarrow> block list \<Rightarrow> int" where
  "room w fl = (\<Sum>b\<leftarrow>fl. block_room w b)"

definition total_room :: "int \<Rightarrow> block list list \<Rightarrow> int" where
  "total_room w fls = (\<Sum>fl\<leftarrow>fls. room w fl)"

lemma room_simps [simp]:
  "room w [] = 0" "room w (b # fl) = block_room w b + room w fl"
  "room w (fl @ gl) = room w fl + room w gl"
  by (simp_all add: room_def)

lemma block_room_nonneg: "0 \<le> block_room w b"
  by (auto simp: block_room_def split: prod.splits sum.splits)

lemma room_nonneg: "0 \<le> room w fl"
  unfolding room_def by (rule sum_list_nonneg) (auto simp: block_room_nonneg)

lemma total_room_nonneg: "0 \<le> total_room w fls"
  unfolding total_room_def by (rule sum_list_nonneg) (auto simp: room_nonneg)

lemma block_room_padding: "align_up off w = Inr al \<Longrightarrow> block_room w (off, al - off) = 0"
  by (simp add: block_room_def)

lemma take_largest_room:
  assumes "0 < w" "0 < m"
  shows "case take_largest m w fl of
      Inl e \<Rightarrow> False
    | Inr None \<Rightarrow> room w fl = 0
    | Inr (Some ((off, n), fl')) \<Rightarrow> 0 < n \<and> n \<le> room w fl \<and>
        (n = m \<or> n < m \<and> room w fl' = room w fl - n)"
  using assms
proof (induction m w fl rule: take_largest.induct)
  case (1 m w)
  then show ?case by simp
next
  case (2 m w bo bs rest)
  from "2.prems" obtain al where al: "align_up bo w = Inr al" using align_up_pos by blast
  note nn = room_nonneg [of w rest]
  show ?case
  proof (cases "bs - (al - bo) \<le> 0")
    case True
    then have z: "block_room w (bo, bs) = 0" using al by (simp add: block_room_def)
    show ?thesis using "2.IH" [OF al True "2.prems"] True al z
      by (auto split: sum.splits option.splits prod.splits)
  next
    case False
    then have br: "block_room w (bo, bs) = bs - (al - bo)" using al by (simp add: block_room_def)
    show ?thesis
    proof (cases "m < bs - (al - bo)")
      case True
      then show ?thesis using al False br nn \<open>0 < m\<close> by (simp add: split_block_def Let_def)
    next
      case False
      with \<open>\<not> bs - (al - bo) \<le> 0\<close> show ?thesis
        using al br nn block_room_padding [OF al] by (auto simp: split_block_def Let_def)
    qed
  qed
qed

lemma fill_slab_room:
  assumes "0 < w" "0 \<le> r"
  shows "\<exists>es' fl'. fill_slab i w es r fl = (Inr (es', max 0 (r - room w fl)), fl')"
  using assms
proof (induction i w es r fl rule: fill_slab.induct)
  case (1 i w es r fl)
  note unf = fill_slab.simps [of i w es r fl]
  show ?case
  proof (cases "0 < r")
    case False
    then show ?thesis using "1.prems" room_nonneg [of w fl] unf by (simp add: max_def)
  next
    case True
    note tr = take_largest_room [OF "1.prems"(1) True, of fl]
    show ?thesis
    proof (cases "take_largest r w fl")
      case (Inl e)
      with tr show ?thesis by simp
    next
      case tk: (Inr t)
      show ?thesis
      proof (cases t)
        case None
        with tk tr True unf show ?thesis by (simp add: max_def)
      next
        case (Some p)
        obtain off n gl where p: "p = ((off, n), gl)" by (cases p) auto
        note tk' = tk [unfolded Some p]
        from tr tk' have n: "0 < n" "n \<le> room w fl" "n = r \<or> n < r \<and> room w gl = room w fl - n"
          by auto
        from "1.IH" [OF True tk' refl refl refl "1.prems"(1)] n(3)
        obtain es' fl' where rec: "fill_slab i w
            (es @ [\<lparr>ext_slab = i, ext_offset = off, ext_nbytes = n\<rparr>]) (r - n) gl =
            (Inr (es', max 0 (r - n - room w gl)), fl')" by fastforce
        have "max 0 (r - n - room w gl) = max 0 (r - room w fl)"
          using n room_nonneg [of w gl] by auto
        with rec True tk' unf show ?thesis by simp
      qed
    qed
  qed
qed

lemma fill_slabs_room:
  assumes "0 < w" "0 \<le> r"
  shows "\<exists>es' fls'. fill_slabs i w es r fls = (Inr (es', max 0 (r - total_room w fls)), fls')"
  using assms
proof (induction fls arbitrary: i es r)
  case Nil
  then show ?case by (simp add: total_room_def max_def)
next
  case (Cons fl fls)
  from fill_slab_room [OF Cons.prems] obtain es1 fl1
    where f: "fill_slab i w es r fl = (Inr (es1, max 0 (r - room w fl)), fl1)" by blast
  have nn: "0 \<le> total_room w fls" "0 \<le> room w fl"
    by (simp_all add: total_room_nonneg room_nonneg)
  show ?case
  proof (cases "r - room w fl \<le> 0")
    case True
    with f nn show ?thesis by (simp add: total_room_def max_def)
  next
    case False
    obtain es2 fls2 where g: "fill_slabs (Suc i) w es1 (r - room w fl) fls =
        (Inr (es2, max 0 (r - room w fl - total_room w fls)), fls2)"
      using Cons.IH [OF Cons.prems(1), of "r - room w fl"] False by fastforce
    with f False show ?thesis by (simp add: total_room_def max_def algebra_simps)
  qed
qed

lemma room_member: "b \<in> set fl \<Longrightarrow> block_room w b \<le> room w fl"
proof (induction fl)
  case (Cons c fl)
  then show ?case using room_nonneg [of w fl] block_room_nonneg [of w c] by fastforce
qed simp

lemma total_room_member: "fl \<in> set fls \<Longrightarrow> room w fl \<le> total_room w fls"
proof (induction fls)
  case (Cons gl fls)
  then show ?case
    using total_room_nonneg [of w fls] room_nonneg [of w gl] by (fastforce simp: total_room_def)
qed simp

lemma fit_block_no_error: "0 < w \<Longrightarrow> fit_block m w fl \<noteq> Inl e"
  by (induction m w fl rule: fit_block.induct) (auto simp: align_up_def)

lemma fit_slab_no_error: "0 < w \<Longrightarrow> fit_slab m w k fls \<noteq> Inl e"
  by (induction m w k fls rule: fit_slab.induct)
     (auto simp: fit_block_no_error split: sum.splits option.splits)

text \<open>A single block is used only where there is room, and the greedy fill uses all of it.\<close>

lemma place_None_iff:
  assumes inv: "partitioned (al_slabs a) (al_free a) (all_extents a)" and n: "0 < nbytes"
    and w: "0 < w" and run: "place nbytes w a = (r, a')"
  shows "r = Inr None \<longleftrightarrow> total_room w (al_free a) < nbytes" and "r \<noteq> Inl e"
proof -
  obtain r1 a1 where s: "place_single nbytes w a = (r1, a1)" by (cases "place_single nbytes w a")
  have multi: "r = (if nbytes \<le> total_room w (al_free a) then r else Inr None)"
    "nbytes \<le> total_room w (al_free a) \<Longrightarrow> \<exists>es. r = Inr (Some es)"
    if "place_multi nbytes w a = (r, a')"
    using fill_slabs_room [OF w, of nbytes 0 "[]" "al_free a"] n that
    by (auto simp: place_multi_def max_def split: if_splits)
  have ns: "fit_slab m w k fls \<noteq> Inl e'" for m k fls e' using w by (rule fit_slab_no_error)
  from place_single_finds [OF inv n s] have cases: "(\<exists>es. r1 = Inr (Some es)) \<or> (a1 = a \<and> r1 = Inr None)"
    using s ns by (auto simp: place_single_def alloc_take_def split: sum.splits option.splits)
  have goal: "(r = Inr None \<longleftrightarrow> total_room w (al_free a) < nbytes) \<and> r \<noteq> Inl e"
  proof (cases "\<exists>es. r1 = Inr (Some es)")
    case True
    then obtain es where es: "r1 = Inr (Some es)" by blast
    from s es obtain i al where f: "fit_slab nbytes w 0 (al_free a) = Inr (Some (i, al))"
      by (auto simp: place_single_def alloc_take_def split: sum.splits option.splits prod.splits)
    from fit_slab_Some [OF f] have i: "i < length (al_free a)"
        and fb: "fit_block nbytes w (al_free a ! i) = Inr (Some al)" by auto
    from fit_block_Some [OF fb] obtain off k where b: "(off, k) \<in> set (al_free a ! i)"
        "align_up off w = Inr al" "al + nbytes \<le> off + k" by auto
    then have "nbytes \<le> block_room w (off, k)" using n by (simp add: block_room_def)
    also have "\<dots> \<le> room w (al_free a ! i)" using b(1) by (rule room_member)
    also have "\<dots> \<le> total_room w (al_free a)" using i by (intro total_room_member) simp
    finally have "nbytes \<le> total_room w (al_free a)" .
    moreover have "r = Inr (Some es)"
      using run s es place_single_Some [OF inv n] by (auto simp: place_def py_bind_run)
    ultimately show ?thesis by auto
  next
    case False
    with cases s run have "place_multi nbytes w a = (r, a')" by (auto simp: place_def py_bind_run)
    from multi [OF this] show ?thesis by (cases "nbytes \<le> total_room w (al_free a)") auto
  qed
  then show "r = Inr None \<longleftrightarrow> total_room w (al_free a) < nbytes" "r \<noteq> Inl e" by blast+
qed

section \<open>Allocation\<close>

definition effective_alignment :: "allocator \<Rightarrow> int option \<Rightarrow> int" where
  "effective_alignment a alignment =
     (case alignment of None \<Rightarrow> al_default_alignment a
      | Some v \<Rightarrow> if v = 0 then al_default_alignment a else v)"

lemma allocate_unfold:
  "allocate nbytes shape dtype usage layout alignment a =
     (if nbytes < 0 then (Inl ERR_invalid, a)
      else if nbytes = 0 then add_record nbytes shape dtype usage layout [] a
      else case place nbytes (effective_alignment a alignment) a of
             (Inl e, a') \<Rightarrow> (Inl e, a')
           | (Inr None, a') \<Rightarrow> (Inl ERR_memory, a')
           | (Inr (Some es), a') \<Rightarrow> add_record nbytes shape dtype usage layout es a')"
  unfolding allocate_def effective_alignment_def Let_def ..

lemma alloc_inv_partitioned:
  "alloc_inv a \<Longrightarrow> partitioned (al_slabs a) (al_free a) (all_extents a)"
  by (simp add: alloc_inv_def)

lemma fresh_handle: "alloc_inv a \<Longrightarrow> al_next_handle a \<notin> fst ` set (al_records a)"
  by (auto simp: alloc_inv_def record_ok_def split: prod.splits)

lemma alist_update_fresh: "k \<notin> fst ` set al \<Longrightarrow> AList.update k v al = al @ [(k, v)]"
  by (induction al) auto

text \<open>The record that a successful allocation adds, and the allocator it leaves.\<close>

definition allocated :: "int \<Rightarrow> int \<Rightarrow> extent list \<Rightarrow> tensor_record \<Rightarrow> allocator \<Rightarrow> allocator \<Rightarrow> bool" where
  "allocated nbytes w es r a a' \<longleftrightarrow>
     (\<exists>fls. partitioned (al_slabs a) fls (all_extents a @ es) \<and>
        a' = a\<lparr>al_free := fls, al_next_handle := al_next_handle a + 1,
               al_records := al_records a @ [(al_next_handle a, r)]\<rparr>) \<and>
     tr_handle r = al_next_handle a \<and> tr_nbytes r = nbytes \<and> tr_extents r = es \<and>
     ext_sum es = nbytes \<and> (\<forall>e \<in> set es. extent_aligned w e)"

lemma allocate_cases:
  assumes inv: "alloc_inv a" and run: "allocate nbytes shape dtype usage layout alignment a = (res, a')"
  obtains
    (ok) r es where "res = Inr r" "0 \<le> nbytes" "allocated nbytes (effective_alignment a alignment) es r a a'"
      "tr_shape r = shape" "tr_dtype r = dtype" "tr_usage r = usage" "tr_layout r = layout"
  | (negative) "res = Inl ERR_invalid" "nbytes < 0" "a' = a"
  | (memory) "res = Inl ERR_memory" "0 < nbytes" "a' = a"
  | (alignment) "res = Inl ValueError" "0 < nbytes" "a' = a"
proof -
  note P = alloc_inv_partitioned [OF inv] and fr = alist_update_fresh [OF fresh_handle [OF inv]]
  let ?w = "effective_alignment a alignment"
  consider "nbytes < 0" | "nbytes = 0" | "0 < nbytes" by linarith
  then show ?thesis
  proof cases
    case 1
    with run negative show ?thesis by (simp add: allocate_unfold)
  next
    case 2
    let ?r = "\<lparr>tr_handle = al_next_handle a, tr_nbytes = nbytes, tr_shape = shape, tr_dtype = dtype,
      tr_usage = usage, tr_layout = layout, tr_extents = []\<rparr>"
    from run 2 have res: "res = Inr ?r" and
        a': "a' = a\<lparr>al_next_handle := al_next_handle a + 1,
               al_records := al_records a @ [(al_next_handle a, ?r)]\<rparr>"
      by (simp_all add: allocate_unfold add_record_def Let_def fr)
    have "allocated nbytes ?w [] ?r a a'"
      unfolding allocated_def using P 2 a' by (auto intro: exI [of _ "al_free a"])
    with ok res 2 show ?thesis by simp
  next
    case 3
    obtain x a1 where p: "place nbytes ?w a = (x, a1)" by (cases "place nbytes ?w a")
    from place_cases [OF P 3 p] consider
        (got) es where "x = Inr (Some es)" "placed_ok nbytes ?w es a a1"
      | (no) "a1 = a" "x = Inr None" | (bad) "a1 = a" "x = Inl ValueError" by blast
    then show ?thesis
    proof cases
      case got
      let ?r = "\<lparr>tr_handle = al_next_handle a, tr_nbytes = nbytes, tr_shape = shape, tr_dtype = dtype,
        tr_usage = usage, tr_layout = layout, tr_extents = es\<rparr>"
      from got obtain fls where a1: "a1 = a\<lparr>al_free := fls\<rparr>" by (auto simp: placed_ok_def)
      from run 3 p got(1) a1 have res: "res = Inr ?r" and
          a': "a' = a\<lparr>al_free := fls, al_next_handle := al_next_handle a + 1,
               al_records := al_records a @ [(al_next_handle a, ?r)]\<rparr>"
        by (simp_all add: allocate_unfold add_record_def Let_def fr)
      have "allocated nbytes ?w es ?r a a'"
        using got(2) a1 a' by (auto simp: allocated_def placed_ok_def)
      with ok res 3 show ?thesis by simp
    next
      case no
      with p run 3 memory show ?thesis by (simp add: allocate_unfold)
    next
      case bad
      with p run 3 alignment show ?thesis by (simp add: allocate_unfold)
    qed
  qed
qed

lemma allocated_inv:
  assumes inv: "alloc_inv a" and al: "allocated nbytes w es r a a'"
  shows "alloc_inv a'"
proof -
  from al obtain fls where P: "partitioned (al_slabs a) fls (all_extents a @ es)"
      and a': "a' = a\<lparr>al_free := fls, al_next_handle := al_next_handle a + 1,
               al_records := al_records a @ [(al_next_handle a, r)]\<rparr>"
      and r: "tr_handle r = al_next_handle a" "tr_nbytes r = nbytes" "tr_extents r = es" "ext_sum es = nbytes"
    by (auto simp: allocated_def)
  have "all_extents a' = all_extents a @ es" by (simp add: all_extents_def a' r)
  moreover have "record_ok (al_next_handle a + 1) p" if "p \<in> set (al_records a)" for p
    using inv that by (auto simp: alloc_inv_def record_ok_def split: prod.splits)
  moreover have "record_ok (al_next_handle a + 1) (al_next_handle a, r)"
    using inv r by (simp add: alloc_inv_def record_ok_def)
  ultimately show ?thesis
    using inv P fresh_handle [OF inv] unfolding alloc_inv_def a' by auto
qed

lemma allocate_inv:
  assumes "alloc_inv a" "allocate nbytes shape dtype usage layout alignment a = (res, a')"
  shows "alloc_inv a'"
  using assms(2) by (cases rule: allocate_cases [OF assms]) (auto intro: allocated_inv assms(1))

lemma allocate_error_unchanged:
  assumes "alloc_inv a" "allocate nbytes shape dtype usage layout alignment a = (Inl e, a')"
  shows "a' = a"
  using assms by (cases rule: allocate_cases) auto

section \<open>Freeing\<close>

lemma get_record_Inr: "get_record a h = Inr r \<longleftrightarrow> map_of (al_records a) h = Some r"
  by (auto simp: get_record_def split: option.splits)

lemma records_split:
  assumes "map_of (al_records a) h = Some r" "distinct (map fst (al_records a))"
  obtains xs ys where "al_records a = xs @ (h, r) # ys" "AList.delete h (al_records a) = xs @ ys"
proof -
  from assms(1) have "(h, r) \<in> set (al_records a)" by (rule map_of_SomeD)
  then obtain xs ys where s: "al_records a = xs @ (h, r) # ys" by (auto simp: in_set_conv_decomp)
  with assms(2) have "h \<notin> fst ` set xs" "h \<notin> fst ` set ys" by auto
  moreover have "filter (\<lambda>(k, _). h \<noteq> k) zs = zs" if "h \<notin> fst ` set zs"
    for zs :: "(int \<times> tensor_record) list" using that by (induction zs) auto
  ultimately have "AList.delete h (xs @ (h, r) # ys) = xs @ ys"
    by (simp add: AList.delete_eq)
  with s that show ?thesis by simp
qed

lemma free_tensor_spec:
  assumes inv: "alloc_inv a" and rec: "get_record a h = Inr r"
    and run: "free_tensor h a = (res, a')"
  shows "res = Inr r" "alloc_inv a'" "al_slabs a' = al_slabs a"
    "al_records a' = AList.delete h (al_records a)" "al_next_handle a' = al_next_handle a"
    "al_default_alignment a' = al_default_alignment a"
proof -
  let ?a1 = "a\<lparr>al_records := AList.delete h (al_records a)\<rparr>"
  from run rec have res: "res = Inr r" and a': "a' = release_all (tr_extents r) ?a1"
    by (simp_all add: free_tensor_def)
  show "res = Inr r" "al_slabs a' = al_slabs a" "al_records a' = AList.delete h (al_records a)"
    "al_next_handle a' = al_next_handle a" "al_default_alignment a' = al_default_alignment a"
    using res a' by simp_all
  from inv have d: "distinct (map fst (al_records a))" by (simp add: alloc_inv_def)
  from rec obtain xs ys where s: "al_records a = xs @ (h, r) # ys"
      "AList.delete h (al_records a) = xs @ ys"
    using records_split [OF _ d, of h r] by (auto simp: get_record_Inr)
  let ?ext = "\<lambda>zs. concat (map (\<lambda>(h, r). tr_extents r) zs)"
  have "partitioned (al_slabs ?a1) (al_free ?a1) (?ext xs @ tr_extents r @ ?ext ys)"
    using alloc_inv_partitioned [OF inv] by (simp add: all_extents_def s(1))
  from partitioned_release_all [OF this]
  have "partitioned (al_slabs a') (al_free a') (all_extents a')"
    by (simp add: a' all_extents_def s(2))
  then show "alloc_inv a'" using inv s a' by (auto simp: alloc_inv_def)
qed

lemma free_tensor_inv:
  assumes "alloc_inv a" "free_tensor h a = (res, a')"
  shows "alloc_inv a'"
proof (cases "get_record a h")
  case (Inl e)
  with assms show ?thesis by (simp add: free_tensor_def)
next
  case (Inr r)
  with free_tensor_spec [OF assms(1) Inr assms(2)] show ?thesis by simp
qed

text \<open>
  The free lists are determined by the live extents: any two ways to reach the same records
  over the same slabs have the same free lists.
\<close>

lemma free_lists_determined:
  assumes "alloc_inv a" "alloc_inv b" "al_slabs a = al_slabs b" "al_records a = al_records b"
  shows "al_free a = al_free b"
  using assms partitioned_unique [of "al_slabs a" "al_free a" "all_extents a" "al_free b"]
  by (simp add: alloc_inv_def all_extents_def)

section \<open>Byte counts\<close>

lemma finite_ext_range [simp]: "finite (ext_range e)"
  by (simp add: ext_range_def range_of_def)

lemma finite_used_in [simp]: "finite (used_in i es)"
  by (simp add: used_in_def)

lemma card_ext_range: "0 < ext_nbytes e \<Longrightarrow> int (card (ext_range e)) = ext_nbytes e"
  by (simp add: ext_range_def range_of_def)

lemma card_used_in:
  assumes "sorted_wrt ext_sep es" "\<forall>e \<in> set es. 0 < ext_nbytes e"
  shows "int (card (used_in i es)) = (\<Sum>e\<leftarrow>es. if ext_slab e = i then ext_nbytes e else 0)"
  using assms
proof (induction es)
  case (Cons e es)
  show ?case
  proof (cases "ext_slab e = i")
    case True
    have "\<forall>f \<in> set es. ext_sep f e" using Cons.prems ext_sep_sym by auto
    then have "ext_range e \<inter> used_in i es = {}" using True by (subst (asm) ext_sep_used) simp
    then have "card (used_in i (e # es)) = card (ext_range e) + card (used_in i es)"
      using True by (simp add: card_Un_disjoint)
    with Cons True show ?thesis by (simp add: card_ext_range)
  next
    case False
    with Cons show ?thesis by simp
  qed
qed simp

lemma slab_divided_sum:
  assumes "slab_divided n fl u" "0 \<le> n" "finite u"
  shows "block_sum fl + int (card u) = n"
proof -
  have "card (covers fl \<union> u) = card (covers fl) + card u"
    using assms by (intro card_Un_disjoint) (auto simp: slab_divided_def)
  moreover have "int (card (covers fl \<union> u)) = n" using assms by (simp add: slab_divided_def)
  moreover have "int (card (covers fl)) = block_sum fl"
    using assms by (intro canon_card [of 0 n]) (simp add: slab_divided_def)
  ultimately show ?thesis by simp
qed

lemma ext_sum_by_slab:
  assumes "\<forall>e \<in> set es. ext_slab e < n"
  shows "(\<Sum>i < n. \<Sum>e\<leftarrow>es. if ext_slab e = i then ext_nbytes e else 0) = ext_sum es"
  using assms
proof (induction es)
  case (Cons e es)
  have "(\<Sum>i < n. if ext_slab e = i then ext_nbytes e else 0) = ext_nbytes e"
    using Cons.prems by (simp add: sum.delta' flip: sum.delta)
  with Cons show ?case by (simp add: sum.distrib)
qed simp

lemma alloc_inv_sizes:
  assumes "alloc_inv a"
  shows "free_bytes a + ext_sum (all_extents a) = total_bytes a"
proof -
  let ?n = "length (al_slabs a)"
  from assms have P: "partitioned (al_slabs a) (al_free a) (all_extents a)"
    and S: "slabs_ok (al_slabs a)" by (simp_all add: alloc_inv_def)
  from P have len: "length (al_free a) = ?n" by (simp add: partitioned_def)
  have pos: "\<forall>e \<in> set (all_extents a). 0 < ext_nbytes e \<and> ext_slab e < ?n"
    and sep: "sorted_wrt ext_sep (all_extents a)"
    using P by (auto simp: partitioned_def ext_ok_def)
  have slab: "block_sum (al_free a ! i) + (\<Sum>e\<leftarrow>all_extents a. if ext_slab e = i then ext_nbytes e else 0)
      = slab_size (al_slabs a ! i)" if "i < ?n" for i
  proof -
    have "slab_divided (slab_size (al_slabs a ! i)) (al_free a ! i) (used_in i (all_extents a))"
      using P that by (auto simp: partitioned_def)
    moreover have "0 \<le> slab_size (al_slabs a ! i)"
      using S nth_mem [OF that] by (auto simp: slabs_ok_def)
    ultimately show ?thesis
      using slab_divided_sum card_used_in [OF sep, of i] pos by fastforce
  qed
  have "free_bytes a = (\<Sum>i < ?n. block_sum (al_free a ! i))"
    by (simp add: free_bytes_def block_sum_def sum_list_sum_nth len atLeast0LessThan)
  moreover have "total_bytes a = (\<Sum>i < ?n. slab_size (al_slabs a ! i))"
    by (simp add: total_bytes_def sum_list_sum_nth atLeast0LessThan)
  moreover have "(\<Sum>i < ?n. block_sum (al_free a ! i)) + ext_sum (all_extents a)
      = (\<Sum>i < ?n. slab_size (al_slabs a ! i))"
  proof -
    let ?u = "\<lambda>i. \<Sum>e\<leftarrow>all_extents a. if ext_slab e = i then ext_nbytes e else 0"
    have "(\<Sum>i < ?n. block_sum (al_free a ! i)) + (\<Sum>i < ?n. ?u i) = (\<Sum>i < ?n. slab_size (al_slabs a ! i))"
      using slab by (simp flip: sum.distrib)
    then show ?thesis using ext_sum_by_slab [of "all_extents a" ?n] pos by simp
  qed
  ultimately show ?thesis by simp
qed

lemma ext_sum_records:
  "(\<forall>p \<in> set rs. record_ok n p) \<Longrightarrow>
   ext_sum (concat (map (\<lambda>(h, r). tr_extents r) rs)) = (\<Sum>(h, r)\<leftarrow>rs. tr_nbytes r)"
  by (induction rs) (auto simp: record_ok_def split: prod.splits)

section \<open>Reachable allocators\<close>

lemma new_allocator_inv:
  assumes "\<forall>s \<in> set slabs. 0 < slab_size s \<and> int (length (buf s)) = slab_size s"
    and "new_allocator slabs w = Inr a"
  shows "alloc_inv a"
proof -
  from assms(2) have ne: "slabs \<noteq> []" and a: "a = \<lparr>al_slabs = slabs,
      al_free = map (\<lambda>s. [(0, slab_size s)]) slabs, al_records = [], al_next_handle = 1,
      al_default_alignment = w\<rparr>"
    by (auto simp: new_allocator_def split: if_splits)
  have "slab_divided (slab_size s) [(0, slab_size s)] {}" if "s \<in> set slabs" for s
    using assms(1) that by (auto simp: slab_divided_def range_of_def)
  with ne assms(1) show ?thesis
    by (auto simp: alloc_inv_def a slabs_ok_def partitioned_def all_extents_def)
qed

text \<open>Writes and reads change the bytes of slabs and their cache traces, nothing else.\<close>

definition slab_similar :: "slab \<Rightarrow> slab \<Rightarrow> bool" where
  "slab_similar s t \<longleftrightarrow> kind t = kind s \<and> slab_size t = slab_size s \<and>
     physical_address t = physical_address s \<and> base_va t = base_va s \<and>
     length (buf t) = length (buf s)"

definition same_shape :: "allocator \<Rightarrow> allocator \<Rightarrow> bool" where
  "same_shape a b \<longleftrightarrow> al_free b = al_free a \<and> al_records b = al_records a \<and>
     al_next_handle b = al_next_handle a \<and> al_default_alignment b = al_default_alignment a \<and>
     list_all2 slab_similar (al_slabs a) (al_slabs b)"

lemma slab_similar_refl [simp]: "slab_similar s s"
  by (simp add: slab_similar_def)

lemma slab_similar_trans: "slab_similar s t \<Longrightarrow> slab_similar t u \<Longrightarrow> slab_similar s u"
  by (simp add: slab_similar_def)

lemma same_shape_reflp: "reflp same_shape"
  by (auto simp: reflp_def same_shape_def list_all2_refl)

lemma same_shape_transp: "transp same_shape"
proof (rule transpI)
  fix a b c assume ab: "same_shape a b" and bc: "same_shape b c"
  have "list_all2 slab_similar (al_slabs a) (al_slabs c)"
    using ab bc by (auto simp: same_shape_def list_all2_conv_all_nth slab_similar_def)
  with ab bc show "same_shape a c" by (simp add: same_shape_def)
qed

lemma same_shape_refl [simp]: "same_shape a a"
  using same_shape_reflp by (simp add: reflp_def)

lemma same_shape_trans: "same_shape a b \<Longrightarrow> same_shape b c \<Longrightarrow> same_shape a c"
  using same_shape_transp by (blast dest: transpD)

lemma same_shape_inv:
  assumes "same_shape a b" "alloc_inv a"
  shows "alloc_inv b"
proof -
  from assms(1) have sl: "list_all2 slab_similar (al_slabs a) (al_slabs b)"
    and eq: "al_free b = al_free a" "al_records b = al_records a" "al_next_handle b = al_next_handle a"
    by (auto simp: same_shape_def)
  have len: "length (al_slabs b) = length (al_slabs a)" using sl by (simp add: list_all2_lengthD)
  have sz: "slab_size (al_slabs b ! i) = slab_size (al_slabs a ! i)"
      "length (buf (al_slabs b ! i)) = length (buf (al_slabs a ! i))" if "i < length (al_slabs a)" for i
    using list_all2_nthD [OF sl that] by (auto simp: slab_similar_def)
  have "slabs_ok (al_slabs b)"
    using assms(2) len sz by (auto simp: alloc_inv_def slabs_ok_def all_set_conv_all_nth)
  moreover have "partitioned (al_slabs b) (al_free b) (all_extents b)"
  proof -
    have "ext_ok (al_slabs b) e" if "ext_ok (al_slabs a) e" for e
      using that len sz by (simp add: ext_ok_def)
    with assms(2) len sz eq show ?thesis
      by (auto simp: alloc_inv_def partitioned_def all_extents_def)
  qed
  ultimately show ?thesis using assms(2) eq by (simp add: alloc_inv_def)
qed

lemma set_slab_same_shape:
  "i < length (al_slabs a) \<Longrightarrow> slab_similar (al_slabs a ! i) s \<Longrightarrow> same_shape a (set_slab i s a)"
  by (auto simp: same_shape_def set_slab_def list_all2_conv_all_nth nth_list_update)

lemma slab_read_similar: "slab_similar s (snd (slab_read s off n c))"
  by (simp add: slab_similar_def)

text \<open>A piece of a walk that lies inside its extent and its slab.\<close>

definition piece_ok :: "slab list \<Rightarrow> extent \<times> int \<times> int \<Rightarrow> bool" where
  "piece_ok slabs = (\<lambda>(e, lo, n). ext_ok slabs e \<and> 0 \<le> lo \<and> 0 < n \<and> lo + n \<le> ext_nbytes e)"

lemma walk_pieces_ok:
  assumes "\<forall>e \<in> set es. ext_ok slabs e" "p \<in> set (walk_extents cursor offset remaining es)"
  shows "piece_ok slabs p"
  using assms
proof (induction cursor offset remaining es rule: walk_extents.induct)
  case (2 cursor offset remaining e es)
  then show ?case
    by (auto simp: Let_def piece_ok_def split: if_splits)
qed simp

lemma similar_pieces_ok:
  assumes "same_shape a b" "piece_ok (al_slabs a) p"
  shows "piece_ok (al_slabs b) p"
proof -
  from assms(1) have sl: "list_all2 slab_similar (al_slabs a) (al_slabs b)" by (simp add: same_shape_def)
  then have "length (al_slabs b) = length (al_slabs a)" by (simp add: list_all2_lengthD)
  moreover have "slab_size (al_slabs b ! i) = slab_size (al_slabs a ! i)" if "i < length (al_slabs a)" for i
    using list_all2_nthD [OF sl that] by (simp add: slab_similar_def)
  ultimately show ?thesis using assms(2) by (auto simp: piece_ok_def ext_ok_def split: prod.splits)
qed

lemma read_pieces_same_shape:
  assumes "\<forall>p \<in> set ps. piece_ok (al_slabs a) p" "read_pieces c ps a = (bs, a')"
  shows "same_shape a a'"
  using assms
proof (induction c ps a arbitrary: bs rule: read_pieces.induct)
  case (2 c e lo n rest a)
  obtain part s where r: "slab_read (al_slabs a ! ext_slab e) (ext_offset e + lo) n c = (part, s)"
    by (cases "slab_read (al_slabs a ! ext_slab e) (ext_offset e + lo) n c")
  have "ext_slab e < length (al_slabs a)" using "2.prems"(1) by (auto simp: piece_ok_def ext_ok_def)
  then have s: "same_shape a (set_slab (ext_slab e) s a)"
    using slab_read_similar [of "al_slabs a ! ext_slab e" "ext_offset e + lo" n c] r
    by (intro set_slab_same_shape) auto
  from "2.prems"(2) r obtain ps' where "read_pieces c rest (set_slab (ext_slab e) s a) = (ps', a')"
    by (auto split: prod.splits)
  with "2.IH" [OF r [symmetric]] "2.prems"(1) similar_pieces_ok [OF s] have
    "same_shape (set_slab (ext_slab e) s a) a'" by auto
  with s show ?case by (rule same_shape_trans)
qed simp

text \<open>Under the invariant no piece of a write raises.\<close>

lemma write_piece_in:
  assumes "slabs_ok slabs" "piece_ok slabs (e, lo, n)" "length d = nat n"
  shows "\<exists>s. slab_write (slabs ! ext_slab e) (ext_offset e + lo) d c = Inr s \<and>
    slab_similar (slabs ! ext_slab e) s \<and>
    buf s = slice_assign (buf (slabs ! ext_slab e)) (ext_offset e + lo) (ext_offset e + lo + n) d"
proof -
  let ?s = "slabs ! ext_slab e"
  have in': "ext_slab e < length slabs" "0 \<le> ext_offset e + lo" "0 < n"
      "ext_offset e + lo + n \<le> slab_size ?s"
    using assms(2) by (auto simp: piece_ok_def ext_ok_def)
  then have sz: "int (length (buf ?s)) = slab_size ?s"
    using assms(1) by (simp add: slabs_ok_def)
  with in' assms(3) have d: "ext_offset e + lo + int (length d) \<le> int (length (buf ?s))"
      "int (length d) = n" by auto
  from slab_write_in [OF in'(2) d(1), of c] obtain s where
      "slab_write ?s (ext_offset e + lo) d c = Inr s"
      "buf s = slice_assign (buf ?s) (ext_offset e + lo) (ext_offset e + lo + int (length d)) d"
      "kind s = kind ?s" "slab_size s = slab_size ?s"
      "physical_address s = physical_address ?s" "base_va s = base_va ?s" by blast
  moreover from this have "length (buf s) = length (buf ?s)"
    using length_slice_assign [OF in'(2) d(1)] by simp
  ultimately show ?thesis using d(2) by (auto simp: slab_similar_def)
qed

end
