(* ===== verification/TensorStore.thy ===== *)
theory TensorStore
  imports AllocOps
begin

text \<open>
  The allocator as a store of tensors.  The abstract state is a map from handles to byte
  strings (\<open>contents\<close>); \<open>read\<close> and \<open>write\<close> of the allocator, which walk the
  extents of a tensor across slabs, refine slicing and slice assignment on that map, and
  neither touches another tensor.  The contract is the locale \<open>tensor_store\<close>, which is
  what the daemon and the kernels rely on.
\<close>

section \<open>Byte addresses\<close>

text \<open>A byte of memory is addressed by the index of its slab and its offset there.\<close>

type_synonym addr = "nat \<times> int"

definition mem :: "slab list \<Rightarrow> addr \<Rightarrow> byte" where
  "mem slabs = (\<lambda>(i, x).
     if i < length slabs \<and> 0 \<le> x \<and> x < int (length (buf (slabs ! i))) then buf (slabs ! i) ! nat x else 0)"

definition run_addrs :: "nat \<Rightarrow> int \<Rightarrow> nat \<Rightarrow> addr list" where
  "run_addrs i off n = map (\<lambda>k. (i, off + int k)) [0..<n]"

definition ext_addrs :: "extent \<Rightarrow> addr list" where
  "ext_addrs e = run_addrs (ext_slab e) (ext_offset e) (nat (ext_nbytes e))"

definition piece_addrs :: "extent \<times> int \<times> int \<Rightarrow> addr list" where
  "piece_addrs = (\<lambda>(e, lo, n). run_addrs (ext_slab e) (ext_offset e + lo) (nat n))"

definition addrs :: "extent list \<Rightarrow> addr list" where
  "addrs es = concat (map ext_addrs es)"

definition contents :: "allocator \<Rightarrow> int \<Rightarrow> byte list option" where
  "contents a h = map_option (\<lambda>r. map (mem (al_slabs a)) (addrs (tr_extents r))) (map_of (al_records a) h)"

text \<open>Simultaneous update of a memory at a list of distinct addresses.\<close>

definition upd :: "(addr \<Rightarrow> byte) \<Rightarrow> addr list \<Rightarrow> byte list \<Rightarrow> addr \<Rightarrow> byte" where
  "upd m as ds = (\<lambda>x. case map_of (zip as ds) x of None \<Rightarrow> m x | Some d \<Rightarrow> d)"

lemma length_run_addrs [simp]: "length (run_addrs i off n) = n"
  by (simp add: run_addrs_def)

lemma set_run_addrs: "set (run_addrs i off n) = {i} \<times> {off..<off + int n}"
proof -
  have "(i, x) \<in> (\<lambda>k. (i, off + int k)) ` {0..<n}" if "off \<le> x" "x < off + int n" for x
    using that by (intro image_eqI [of _ _ "nat (x - off)"]) auto
  then show ?thesis by (auto simp: run_addrs_def)
qed

lemma distinct_run_addrs: "distinct (run_addrs i off n)"
  by (simp add: run_addrs_def distinct_map inj_on_def)

lemma drop_run_addrs: "drop k (run_addrs i off n) = run_addrs i (off + int k) (n - k)"
  by (rule nth_equalityI) (auto simp: run_addrs_def)

lemma take_run_addrs: "take k (run_addrs i off n) = run_addrs i off (min k n)"
  by (rule nth_equalityI) (auto simp: run_addrs_def)

lemma run_addrs_0 [simp]: "run_addrs i off 0 = []"
  by (simp add: run_addrs_def)

lemma addrs_simps [simp]:
  "addrs [] = []" "addrs (e # es) = ext_addrs e @ addrs es" "addrs (es @ fs) = addrs es @ addrs fs"
  by (simp_all add: addrs_def)

lemma length_ext_addrs [simp]: "length (ext_addrs e) = nat (ext_nbytes e)"
  by (simp add: ext_addrs_def)

lemma length_addrs:
  "\<forall>e \<in> set es. 0 \<le> ext_nbytes e \<Longrightarrow> int (length (addrs es)) = ext_sum es"
  by (induction es) auto

section \<open>The walk visits the addressed slice\<close>

lemma piece_of_run:
  assumes "0 \<le> k" "k \<le> ext_nbytes e" "0 \<le> r"
  shows "piece_addrs (e, k, min r (ext_nbytes e - k)) = take (nat r) (drop (nat k) (ext_addrs e))"
  using assms
  by (simp add: piece_addrs_def ext_addrs_def drop_run_addrs take_run_addrs nat_diff_distrib min_def
      nat_le_eq_zle flip: nat_diff_distrib)

lemma walk_zero: "walk_extents cursor offset 0 es = []"
  by (induction cursor offset "0::int" es rule: walk_extents.induct) (auto simp: Let_def)

lemma walk_addrs:
  assumes "\<forall>e \<in> set es. 0 < ext_nbytes e" "cursor \<le> offset" "0 \<le> remaining"
  shows "concat (map piece_addrs (walk_extents cursor offset remaining es)) =
    take (nat remaining) (drop (nat (offset - cursor)) (addrs es))"
  using assms
proof (induction cursor offset remaining es rule: walk_extents.induct)
  case (1 cursor offset remaining)
  then show ?case by simp
next
  case (2 cursor offset remaining e es)
  let ?n = "ext_nbytes e" and ?k = "offset - cursor"
  have n: "0 < ?n" "\<forall>e \<in> set es. 0 < ext_nbytes e" using "2.prems"(1) by auto
  show ?case
  proof (cases "offset \<ge> cursor + ?n")
    case True
    have "nat ?k - nat ?n = nat (offset - (cursor + ?n))" using True n by simp
    with "2.IH"(1) [OF True n(2)] True "2.prems" n show ?thesis by simp
  next
    case False
    show ?thesis
    proof (cases "remaining = 0")
      case True
      then show ?thesis by (simp add: walk_zero del: walk_extents.simps)
    next
      case rem: False
      let ?c = "min remaining (?n - ?k)"
      have k: "max 0 ?k = ?k" "0 < ?c" using False rem "2.prems" by auto
      have nle: "\<not> ?c \<le> 0" using k by linarith
      have p: "piece_addrs (e, ?k, ?c) = take (nat remaining) (drop (nat ?k) (ext_addrs e))"
        using False "2.prems" by (intro piece_of_run) auto
      have rest: "concat (map piece_addrs
          (if remaining - ?c = 0 then [] else walk_extents (cursor + ?n) (offset + ?c) (remaining - ?c) es))
          = take (nat (remaining - ?c)) (addrs es)"
      proof (cases "remaining - ?c = 0")
        case True
        then show ?thesis by simp
      next
        case more: False
        then have c: "?c = ?n - ?k" "offset + ?c = cursor + ?n" by auto
        from "2.IH"(3) [OF False _ _ nle more n(2)] k more "2.prems" c
        have "concat (map piece_addrs (walk_extents (cursor + ?n) (offset + ?c) (remaining - ?c) es)) =
            take (nat (remaining - ?c)) (drop (nat (offset + ?c - (cursor + ?n))) (addrs es))" by simp
        with more c show ?thesis by simp
      qed
      have d: "nat remaining - (nat ?n - nat ?k) = nat (remaining - ?c)"
        using False "2.prems" n by (auto simp: min_def)
      have "walk_extents cursor offset remaining (e # es) = (e, ?k, ?c) #
          (if remaining - ?c = 0 then [] else walk_extents (cursor + ?n) (offset + ?c) (remaining - ?c) es)"
        using False k(1) nle by (simp add: Let_def)
      then have "concat (map piece_addrs (walk_extents cursor offset remaining (e # es))) =
          piece_addrs (e, ?k, ?c) @ take (nat (remaining - ?c)) (addrs es)"
        using rest by (simp del: walk_extents.simps)
      also have "\<dots> = take (nat remaining) (drop (nat ?k) (ext_addrs e)) @
          take (nat remaining - (nat ?n - nat ?k)) (addrs es)" by (simp only: p d)
      also have "\<dots> = take (nat remaining) (drop (nat ?k) (addrs (e # es)))"
        using False "2.prems"(2) by simp
      finally show ?thesis .
    qed
  qed
qed

section \<open>Reading\<close>

lemma mem_set_slab_same_buf:
  "buf s = buf (slabs ! i) \<Longrightarrow> mem (slabs[i := s]) = mem slabs"
proof -
  assume b: "buf s = buf (slabs ! i)"
  have "buf (slabs[i := s] ! a) = buf (slabs ! a)" if "a < length slabs" for a
    using that b by (cases "a = i") auto
  then show ?thesis by (auto simp: mem_def fun_eq_iff)
qed

lemma slice_as_addrs:
  assumes "i < length slabs" "0 \<le> off" "0 \<le> n" "off + n \<le> int (length (buf (slabs ! i)))"
  shows "py_slice (buf (slabs ! i)) off (off + n) = map (mem slabs) (run_addrs i off (nat n))"
proof (rule nth_equalityI)
  show "length (py_slice (buf (slabs ! i)) off (off + n)) = length (map (mem slabs) (run_addrs i off (nat n)))"
    using assms by (simp add: py_slice_in)
next
  fix j assume "j < length (py_slice (buf (slabs ! i)) off (off + n))"
  then have j: "int j < n" using assms by (simp add: py_slice_in)
  then show "py_slice (buf (slabs ! i)) off (off + n) ! j = map (mem slabs) (run_addrs i off (nat n)) ! j"
    using assms by (simp add: nth_py_slice run_addrs_def mem_def nat_add_distrib)
qed

lemma read_pieces_mem:
  assumes "slabs_ok (al_slabs a)" "\<forall>p \<in> set ps. piece_ok (al_slabs a) p"
    and "read_pieces c ps a = (bs, a')"
  shows "bs = map (mem (al_slabs a)) (concat (map piece_addrs ps)) \<and> mem (al_slabs a') = mem (al_slabs a)"
  using assms
proof (induction c ps a arbitrary: bs rule: read_pieces.induct)
  case (2 c e lo n rest a)
  let ?i = "ext_slab e" and ?off = "ext_offset e + lo"
  obtain part s where r: "slab_read (al_slabs a ! ?i) ?off n c = (part, s)"
    by (cases "slab_read (al_slabs a ! ?i) ?off n c")
  have in': "?i < length (al_slabs a)" "0 \<le> ?off" "0 \<le> n" "?off + n \<le> slab_size (al_slabs a ! ?i)"
    using "2.prems"(2) by (auto simp: piece_ok_def ext_ok_def)
  then have sz: "slab_size (al_slabs a ! ?i) = int (length (buf (al_slabs a ! ?i)))"
    using "2.prems"(1) by (simp add: slabs_ok_def)
  have part: "part = map (mem (al_slabs a)) (piece_addrs (e, lo, n))"
    using slab_read_val [of "al_slabs a ! ?i" ?off n c] slice_as_addrs [OF in'(1,2,3)] in' sz r
    by (simp add: piece_addrs_def)
  let ?a = "set_slab ?i s a"
  have bs: "buf s = buf (al_slabs a ! ?i)" and sim: "slab_similar (al_slabs a ! ?i) s"
    using slab_read_fields [of "al_slabs a ! ?i" ?off n c] slab_read_similar [of "al_slabs a ! ?i" ?off n c] r
    by auto
  then have m: "mem (al_slabs ?a) = mem (al_slabs a)" by (simp add: set_slab_def mem_set_slab_same_buf)
  have sh: "same_shape a ?a" using in'(1) sim by (rule set_slab_same_shape)
  have "slabs_ok (al_slabs ?a)"
    using "2.prems"(1) bs sim in'(1)
    by (auto simp: slabs_ok_def set_slab_def all_set_conv_all_nth nth_list_update slab_similar_def)
  moreover have "\<forall>p \<in> set rest. piece_ok (al_slabs ?a) p"
    using "2.prems"(2) similar_pieces_ok [OF sh] by auto
  moreover from "2.prems"(3) r obtain bs' where rec: "read_pieces c rest ?a = (bs', a')" "bs = part @ bs'"
    by (auto split: prod.splits)
  ultimately show ?case using "2.IH" [OF r [symmetric]] part m by auto
qed simp

section \<open>Writing\<close>

lemma map_of_zip_distinct:
  "distinct as \<Longrightarrow> length as = length ds \<Longrightarrow> k < length as \<Longrightarrow> map_of (zip as ds) (as ! k) = Some (ds ! k)"
  by (metis map_of_zip_nth)

lemma upd_nth: "distinct as \<Longrightarrow> length as = length ds \<Longrightarrow> k < length as \<Longrightarrow> upd m as ds (as ! k) = ds ! k"
  by (simp add: upd_def map_of_zip_distinct)

lemma upd_other: "x \<notin> set as \<Longrightarrow> upd m as ds x = m x"
  by (auto simp: upd_def split: option.splits dest!: map_of_SomeD in_set_zipE)

lemma upd_append:
  "length as = length ds \<Longrightarrow> set as \<inter> set bs = {} \<Longrightarrow> length bs = length es \<Longrightarrow>
   upd (upd m as ds) bs es = upd m (as @ bs) (ds @ es)"
proof (rule ext)
  fix x
  assume l: "length as = length ds" and d: "set as \<inter> set bs = {}" and "length bs = length es"
  have none: "y \<notin> set ys \<Longrightarrow> map_of (zip ys zs) y = None" for y ys and zs :: "byte list"
    by (auto simp: map_of_eq_None_iff dest: set_zip_leftD)
  show "upd (upd m as ds) bs es x = upd m (as @ bs) (ds @ es) x"
  proof (cases "x \<in> set as")
    case True
    with d have "x \<notin> set bs" by auto
    then show ?thesis using l by (simp add: upd_def none map_add_def split: option.splits)
  next
    case False
    then show ?thesis using l by (simp add: upd_def none map_add_def split: option.splits)
  qed
qed

lemma upd_Nil [simp]: "upd m [] ds = m"
  by (simp add: upd_def)

lemma run_addrs_nth: "k < n \<Longrightarrow> run_addrs i off n ! k = (i, off + int k)"
  by (simp add: run_addrs_def)

lemma mem_write_piece:
  assumes "i < length slabs" "0 \<le> off" "off + int (length d) \<le> int (length (buf (slabs ! i)))"
    "buf s = slice_assign (buf (slabs ! i)) off (off + int (length d)) d"
  shows "mem (slabs[i := s]) = upd (mem slabs) (run_addrs i off (length d)) d"
proof (rule ext)
  fix x :: addr
  obtain j y where x: "x = (j, y)" by (cases x)
  have len: "length (buf s) = length (buf (slabs ! i))"
    using assms by (simp add: length_slice_assign)
  show "mem (slabs[i := s]) x = upd (mem slabs) (run_addrs i off (length d)) d x"
  proof (cases "x \<in> set (run_addrs i off (length d))")
    case True
    then have j: "j = i" "off \<le> y" "y < off + int (length d)" using x by (auto simp: set_run_addrs)
    define k where "k = nat (y - off)"
    have k: "k < length d" "x = run_addrs i off (length d) ! k" "nat y = nat off + k" "y = off + int k"
      using j x assms(2) by (auto simp: k_def run_addrs_def)
    have "mem (slabs[i := s]) x = buf s ! (nat off + k)"
      using assms(1) j k(3) len assms(2,3) by (simp add: mem_def x)
    also have "\<dots> = d ! k"
      using assms k nth_slice_assign [of off d "buf (slabs ! i)" "nat off + k"]
      by (simp add: nat_add_distrib)
    also have "\<dots> = upd (mem slabs) (run_addrs i off (length d)) d x"
      using upd_nth [OF distinct_run_addrs, of i off "length d" d k "mem slabs"] k by simp
    finally show ?thesis .
  next
    case False
    then have out: "j = i \<Longrightarrow> y < off \<or> off + int (length d) \<le> y" using x by (auto simp: set_run_addrs)
    have "mem (slabs[i := s]) x = mem slabs x"
    proof (cases "j = i")
      case True
      with out assms len show ?thesis
        by (auto simp: mem_def x nth_slice_assign)
    next
      case False
      then show ?thesis by (simp add: mem_def x)
    qed
    with False show ?thesis by (simp add: upd_other)
  qed
qed

lemma write_pieces_mem:
  assumes "slabs_ok (al_slabs a)" "\<forall>p \<in> set ps. piece_ok (al_slabs a) p"
    and "length data = length (concat (map piece_addrs ps))" "distinct (concat (map piece_addrs ps))"
  shows "\<exists>a'. write_pieces c data ps a = (Inr (), a') \<and> same_shape a a' \<and>
    mem (al_slabs a') = upd (mem (al_slabs a)) (concat (map piece_addrs ps)) data"
  using assms
proof (induction c data ps a rule: write_pieces.induct)
  case (1 c data a)
  then show ?case by simp
next
  case (2 c data e lo n rest a)
  let ?i = "ext_slab e" and ?off = "ext_offset e + lo"
  let ?d = "take (nat n) data" and ?data = "drop (nat n) data"
  have ok: "piece_ok (al_slabs a) (e, lo, n)" using "2.prems"(2) by simp
  have ld: "length ?d = nat n" using "2.prems"(3) by (simp add: piece_addrs_def)
  from write_piece_in [OF "2.prems"(1) ok ld, of c] obtain s where
      s: "slab_write (al_slabs a ! ?i) ?off ?d c = Inr s" "slab_similar (al_slabs a ! ?i) s"
        "buf s = slice_assign (buf (al_slabs a ! ?i)) ?off (?off + n) ?d" by blast
  have in': "?i < length (al_slabs a)" "0 \<le> ?off" "0 < n" "?off + n \<le> slab_size (al_slabs a ! ?i)"
    using ok by (auto simp: piece_ok_def ext_ok_def)
  then have sz: "slab_size (al_slabs a ! ?i) = int (length (buf (al_slabs a ! ?i)))"
    using "2.prems"(1) by (simp add: slabs_ok_def)
  let ?a = "set_slab ?i s a"
  have n': "int (length ?d) = n" using ld in'(3) by simp
  have m: "mem (al_slabs ?a) = upd (mem (al_slabs a)) (piece_addrs (e, lo, n)) ?d"
    using mem_write_piece [of ?i "al_slabs a" ?off ?d s] in' sz s(3) ld n'
    by (simp add: set_slab_def piece_addrs_def)
  have sh: "same_shape a ?a" using in'(1) s(2) by (rule set_slab_same_shape)
  have "slabs_ok (al_slabs ?a)"
    using "2.prems"(1) s(2) in'(1)
    by (auto simp: slabs_ok_def set_slab_def all_set_conv_all_nth nth_list_update slab_similar_def)
  moreover have "\<forall>p \<in> set rest. piece_ok (al_slabs ?a) p"
    using "2.prems"(2) similar_pieces_ok [OF sh] by auto
  moreover have "length ?data = length (concat (map piece_addrs rest))"
    using "2.prems"(3) by (simp add: piece_addrs_def)
  moreover have "distinct (concat (map piece_addrs rest))" using "2.prems"(4) by simp
  ultimately obtain a' where rec: "write_pieces c ?data rest ?a = (Inr (), a')" "same_shape ?a a'"
      "mem (al_slabs a') = upd (mem (al_slabs ?a)) (concat (map piece_addrs rest)) ?data"
    using "2.IH" [OF s(1)] by auto
  have "upd (upd (mem (al_slabs a)) (piece_addrs (e, lo, n)) ?d) (concat (map piece_addrs rest)) ?data
      = upd (mem (al_slabs a)) (piece_addrs (e, lo, n) @ concat (map piece_addrs rest)) (?d @ ?data)"
  proof (rule upd_append)
    show "length (piece_addrs (e, lo, n)) = length ?d" using ld by (simp add: piece_addrs_def)
    show "set (piece_addrs (e, lo, n)) \<inter> set (concat (map piece_addrs rest)) = {}"
      using "2.prems"(4) by simp
    show "length (concat (map piece_addrs rest)) = length ?data"
      using "2.prems"(3) by (simp add: piece_addrs_def)
  qed
  then have "mem (al_slabs a') = upd (mem (al_slabs a)) (concat (map piece_addrs ((e, lo, n) # rest))) data"
    using rec(3) m by simp
  with s(1) rec sh show ?case by (auto intro: same_shape_trans)
qed


section \<open>Tensors occupy distinct addresses\<close>

lemma set_ext_addrs:
  "0 \<le> ext_nbytes e \<Longrightarrow> set (ext_addrs e) = {ext_slab e} \<times> ext_range e"
  by (simp add: ext_addrs_def set_run_addrs ext_range_def range_of_def)

lemma distinct_addrs:
  assumes "sorted_wrt ext_sep es" "\<forall>e \<in> set es. 0 < ext_nbytes e"
  shows "distinct (addrs es)"
  using assms
proof (induction es)
  case (Cons e es)
  have "set (ext_addrs e) \<inter> set (ext_addrs f) = {}" if "f \<in> set es" for f
  proof -
    have "ext_sep e f" "0 < ext_nbytes e" "0 < ext_nbytes f" using Cons.prems that by auto
    then show ?thesis by (auto simp: set_ext_addrs ext_sep_def)
  qed
  then have "set (ext_addrs e) \<inter> set (addrs es) = {}" by (auto simp: addrs_def)
  with Cons show ?case by (simp add: ext_addrs_def distinct_run_addrs)
qed simp

lemma all_addrs_distinct:
  assumes "alloc_inv a"
  shows "distinct (addrs (all_extents a))"
  using assms by (intro distinct_addrs) (auto simp: alloc_inv_def partitioned_def ext_ok_def)

lemma record_extents_ok:
  assumes "alloc_inv a" "map_of (al_records a) h = Some r"
  shows "\<forall>e \<in> set (tr_extents r). ext_ok (al_slabs a) e" "ext_sum (tr_extents r) = tr_nbytes r"
    "\<forall>e \<in> set (tr_extents r). 0 < ext_nbytes e"
proof -
  from assms(2) have m: "(h, r) \<in> set (al_records a)" by (rule map_of_SomeD)
  then have "set (tr_extents r) \<subseteq> set (all_extents a)" by (auto simp: all_extents_def)
  then show ok: "\<forall>e \<in> set (tr_extents r). ext_ok (al_slabs a) e"
    using assms(1) by (auto simp: alloc_inv_def partitioned_def)
  then show "\<forall>e \<in> set (tr_extents r). 0 < ext_nbytes e" by (auto simp: ext_ok_def)
  show "ext_sum (tr_extents r) = tr_nbytes r"
    using assms(1) m by (auto simp: alloc_inv_def record_ok_def)
qed

text \<open>The addresses of one record are distinct, and two records have no address in common.\<close>

lemma record_addrs_distinct:
  assumes "alloc_inv a" "map_of (al_records a) h = Some r"
  shows "distinct (addrs (tr_extents r))"
    and "map_of (al_records a) h' = Some r' \<Longrightarrow> h' \<noteq> h \<Longrightarrow>
      set (addrs (tr_extents r)) \<inter> set (addrs (tr_extents r')) = {}"
proof -
  from assms(1) have keys: "distinct (map fst (al_records a))" by (simp add: alloc_inv_def)
  from records_split [OF assms(2) this] obtain xs ys where s: "al_records a = xs @ (h, r) # ys" by blast
  let ?ex = "\<lambda>rs. addrs (concat (map (\<lambda>(h, r). tr_extents r) rs))"
  have D: "distinct (?ex xs @ addrs (tr_extents r) @ ?ex ys)"
    using all_addrs_distinct [OF assms(1)] by (simp add: all_extents_def s)
  then show "distinct (addrs (tr_extents r))" by simp
  assume "map_of (al_records a) h' = Some r'" "h' \<noteq> h"
  then have "(h', r') \<in> set xs \<union> set ys" using s by (auto dest!: map_of_SomeD)
  then have "set (addrs (tr_extents r')) \<subseteq> set (?ex xs) \<union> set (?ex ys)"
    by (fastforce simp: addrs_def)
  with D show "set (addrs (tr_extents r)) \<inter> set (addrs (tr_extents r')) = {}" by auto
qed

lemma contents_length:
  assumes "alloc_inv a" "map_of (al_records a) h = Some r"
  shows "int (length (addrs (tr_extents r))) = tr_nbytes r"
  using record_extents_ok [OF assms] by (subst length_addrs) (auto simp: less_imp_le)

lemma contents_Some:
  "contents a h = Some d \<longleftrightarrow>
     (\<exists>r. map_of (al_records a) h = Some r \<and> d = map (mem (al_slabs a)) (addrs (tr_extents r)))"
  by (auto simp: contents_def)

lemma contents_None: "contents a h = None \<longleftrightarrow> map_of (al_records a) h = None"
  by (simp add: contents_def)

lemma contents_cong:
  "al_records b = al_records a \<Longrightarrow> mem (al_slabs b) = mem (al_slabs a) \<Longrightarrow> contents b = contents a"
  by (rule ext) (simp add: contents_def)

section \<open>The refinement of read and write\<close>

lemma read_tensor_ok:
  assumes inv: "alloc_inv a" and d: "contents a h = Some d"
    and rng: "0 \<le> off" "0 \<le> n" "off + n \<le> int (length d)"
  shows "\<exists>a'. read_tensor h off n c a = (Inr (py_slice d off (off + n)), a') \<and>
    same_shape a a' \<and> contents a' = contents a"
proof -
  from d obtain r where r: "map_of (al_records a) h = Some r"
    and dd: "d = map (mem (al_slabs a)) (addrs (tr_extents r))" by (auto simp: contents_Some)
  note ex = record_extents_ok [OF inv r]
  have nb: "tr_nbytes r = int (length d)" using contents_length [OF inv r] dd by simp
  let ?ps = "walk_extents 0 off n (tr_extents r)"
  have ok: "\<forall>p \<in> set ?ps. piece_ok (al_slabs a) p" using ex(1) by (blast intro: walk_pieces_ok)
  obtain bs a' where run: "read_pieces c ?ps a = (bs, a')" by (cases "read_pieces c ?ps a")
  have so: "slabs_ok (al_slabs a)" using inv by (simp add: alloc_inv_def)
  note m = read_pieces_mem [OF so ok run]
  have sh: "same_shape a a'" using ok run by (rule read_pieces_same_shape)
  have "bs = py_slice d off (off + n)"
    using m walk_addrs [OF ex(3) rng(1,2)] rng dd
    by (simp add: py_slice_in take_map drop_map)
  moreover have "read_tensor h off n c a = (Inr bs, a')"
    using r rng nb run by (simp add: read_tensor_def validate_range_def get_record_def)
  moreover have "contents a' = contents a"
    using m sh by (intro contents_cong) (auto simp: same_shape_def)
  ultimately show ?thesis using sh by auto
qed

definition in_range :: "(int \<Rightarrow> byte list option) \<Rightarrow> int \<Rightarrow> int \<Rightarrow> int \<Rightarrow> bool" where
  "in_range c h off n \<longleftrightarrow> (\<exists>d. c h = Some d \<and> 0 \<le> off \<and> 0 \<le> n \<and> off + n \<le> int (length d))"

definition range_error :: "(int \<Rightarrow> byte list option) \<Rightarrow> int \<Rightarrow> int \<Rightarrow> int \<Rightarrow> pyerror" where
  "range_error c h off n =
     (if c h = None then ERR_unknown else if off < 0 \<or> n < 0 then ERR_invalid else ERR_bounds)"

lemma validate_range_contents:
  assumes inv: "alloc_inv a"
  shows "validate_range a h off n =
    (if in_range (contents a) h off n then Inr () else Inl (range_error (contents a) h off n))"
proof (cases "map_of (al_records a) h")
  case None
  then show ?thesis by (simp add: validate_range_def get_record_def contents_def in_range_def range_error_def)
next
  case (Some r)
  then show ?thesis using contents_length [OF inv Some]
    by (auto simp: validate_range_def get_record_def contents_def in_range_def range_error_def)
qed

lemma upd_own:
  assumes "distinct as" "k + length ds \<le> length as"
  shows "map (upd m (take (length ds) (drop k as)) ds) as = slice_assign (map m as) (int k) (int k + int (length ds)) ds"
proof (rule nth_equalityI)
  show "length (map (upd m (take (length ds) (drop k as)) ds) as) =
      length (slice_assign (map m as) (int k) (int k + int (length ds)) ds)"
    using assms by (simp add: length_slice_assign)
next
  let ?as = "take (length ds) (drop k as)"
  have d: "distinct ?as" "length ?as = length ds" using assms by simp_all
  fix j assume "j < length (map (upd m ?as ds) as)"
  then have j: "j < length as" by simp
  have "upd m ?as ds (as ! j) = (if k \<le> j \<and> j < k + length ds then ds ! (j - k) else m (as ! j))"
  proof (cases "k \<le> j \<and> j < k + length ds")
    case True
    then have "as ! j = ?as ! (j - k)" "j - k < length ?as" using assms by auto
    with True show ?thesis using upd_nth [OF d, of "j - k" m] by simp
  next
    case False
    have "as ! j \<notin> set ?as"
    proof
      assume "as ! j \<in> set ?as"
      then obtain i where "i < length ds" "as ! j = as ! (k + i)" using assms
        by (auto simp: in_set_conv_nth)
      with assms j have "j = k + i" using nth_eq_iff_index_eq [of as j "k + i"] by simp
      with False \<open>i < length ds\<close> show False by simp
    qed
    with False show ?thesis by (auto simp: upd_other)
  qed
  with j assms show "map (upd m ?as ds) as ! j = slice_assign (map m as) (int k) (int k + int (length ds)) ds ! j"
    by (simp add: nth_slice_assign)
qed

text \<open>A memory update at the addresses of a tensor range is a slice assignment to that tensor alone.\<close>

lemma contents_upd:
  assumes inv: "alloc_inv a" and r: "map_of (al_records a) h = Some r" and rec: "al_records a' = al_records a"
    and rng: "0 \<le> off" "off + int (length bs) \<le> tr_nbytes r"
    and m: "mem (al_slabs a') = upd (mem (al_slabs a)) (take (length bs) (drop (nat off) (addrs (tr_extents r)))) bs"
    and d: "contents a h = Some d"
  shows "contents a' = (contents a)(h \<mapsto> slice_assign d off (off + int (length bs)) bs)"
proof (rule ext)
  fix h'
  let ?as = "addrs (tr_extents r)"
  have dd: "d = map (mem (al_slabs a)) ?as" using d r by (simp add: contents_Some)
  have da: "distinct ?as" using inv r by (rule record_addrs_distinct(1))
  have len: "nat off + length bs \<le> length ?as" using contents_length [OF inv r] rng by linarith
  show "contents a' h' = ((contents a)(h \<mapsto> slice_assign d off (off + int (length bs)) bs)) h'"
  proof (cases "h' = h")
    case True
    then show ?thesis using upd_own [OF da len, of "mem (al_slabs a)"] rng(1) r rec m dd
      by (simp add: contents_def)
  next
    case False
    show ?thesis
    proof (cases "map_of (al_records a) h'")
      case None
      then show ?thesis using False rec by (simp add: contents_def)
    next
      case (Some r')
      have "set ?as \<inter> set (addrs (tr_extents r')) = {}"
        using record_addrs_distinct(2) [OF inv r Some False] .
      then have "mem (al_slabs a') x = mem (al_slabs a) x" if "x \<in> set (addrs (tr_extents r'))" for x
        using that m by (auto intro!: upd_other dest!: in_set_takeD in_set_dropD)
      then show ?thesis using False rec Some by (simp add: contents_def)
    qed
  qed
qed

lemma write_tensor_ok:
  assumes inv: "alloc_inv a" and d: "contents a h = Some d"
    and rng: "0 \<le> off" "off + int (length bs) \<le> int (length d)"
  shows "\<exists>a'. write_tensor h off bs c a = (Inr (), a') \<and> same_shape a a' \<and>
    contents a' = (contents a)(h \<mapsto> slice_assign d off (off + int (length bs)) bs)"
proof -
  from d obtain r where r: "map_of (al_records a) h = Some r"
    and dd: "d = map (mem (al_slabs a)) (addrs (tr_extents r))" by (auto simp: contents_Some)
  note ex = record_extents_ok [OF inv r]
  have nb: "tr_nbytes r = int (length d)" using contents_length [OF inv r] dd by simp
  let ?as = "addrs (tr_extents r)"
  let ?ps = "walk_extents 0 off (int (length bs)) (tr_extents r)"
  let ?pa = "take (length bs) (drop (nat off) ?as)"
  have pa: "concat (map piece_addrs ?ps) = ?pa"
    using walk_addrs [OF ex(3) rng(1), of "int (length bs)"] by simp
  have ok: "\<forall>p \<in> set ?ps. piece_ok (al_slabs a) p" using ex(1) by (blast intro: walk_pieces_ok)
  have so: "slabs_ok (al_slabs a)" using inv by (simp add: alloc_inv_def)
  have len: "nat off + length bs \<le> length ?as" using rng dd by simp
  have "length bs = length ?pa" "distinct ?pa" using len record_addrs_distinct(1) [OF inv r] by simp_all
  with write_pieces_mem [OF so ok, of bs c] pa obtain a' where
      run: "write_pieces c bs ?ps a = (Inr (), a')" and sh: "same_shape a a'"
      and m: "mem (al_slabs a') = upd (mem (al_slabs a)) ?pa bs" by auto
  have "write_tensor h off bs c a = (Inr (), a')"
    using r rng nb run by (simp add: write_tensor_def validate_range_def get_record_def)
  moreover have "contents a' = (contents a)(h \<mapsto> slice_assign d off (off + int (length bs)) bs)"
    using sh rng nb by (intro contents_upd [OF inv r _ _ _ m d]) (auto simp: same_shape_def)
  ultimately show ?thesis using sh by blast
qed

lemma read_tensor_rejected:
  "validate_range a h off n = Inl e \<Longrightarrow> read_tensor h off n c a = (Inl e, a)"
  by (simp add: read_tensor_def)

lemma write_tensor_rejected:
  "validate_range a h off (int (length bs)) = Inl e \<Longrightarrow> write_tensor h off bs c a = (Inl e, a)"
  by (simp add: write_tensor_def)

section \<open>The contract\<close>

text \<open>
  What a client of the store relies on: a read inside the bounds returns the slice and
  changes nothing, a write inside the bounds assigns the slice of that tensor alone, and a
  rejected access leaves the store as it was.
\<close>

locale tensor_store =
  fixes invar :: "'s \<Rightarrow> bool"
    and bytes_of :: "'s \<Rightarrow> int \<Rightarrow> byte list option"
    and sread :: "int \<Rightarrow> int \<Rightarrow> int \<Rightarrow> 's \<Rightarrow> byte list res \<times> 's"
    and swrite :: "int \<Rightarrow> int \<Rightarrow> byte list \<Rightarrow> 's \<Rightarrow> unit res \<times> 's"
  assumes sread_in: "invar s \<Longrightarrow> bytes_of s h = Some d \<Longrightarrow> 0 \<le> off \<Longrightarrow> 0 \<le> n \<Longrightarrow> off + n \<le> int (length d) \<Longrightarrow>
      \<exists>s'. sread h off n s = (Inr (py_slice d off (off + n)), s') \<and> invar s' \<and> bytes_of s' = bytes_of s"
    and sread_out: "invar s \<Longrightarrow> \<not> in_range (bytes_of s) h off n \<Longrightarrow>
      sread h off n s = (Inl (range_error (bytes_of s) h off n), s)"
    and swrite_in: "invar s \<Longrightarrow> bytes_of s h = Some d \<Longrightarrow> 0 \<le> off \<Longrightarrow> off + int (length bs) \<le> int (length d) \<Longrightarrow>
      \<exists>s'. swrite h off bs s = (Inr (), s') \<and> invar s' \<and>
        bytes_of s' = (bytes_of s)(h \<mapsto> slice_assign d off (off + int (length bs)) bs)"
    and swrite_out: "invar s \<Longrightarrow> \<not> in_range (bytes_of s) h off (int (length bs)) \<Longrightarrow>
      swrite h off bs s = (Inl (range_error (bytes_of s) h off (int (length bs))), s)"
begin

lemma sread_invar: "invar s \<Longrightarrow> invar (snd (sread h off n s))"
  using sread_in sread_out unfolding in_range_def by (metis snd_conv)

lemma swrite_invar: "invar s \<Longrightarrow> invar (snd (swrite h off bs s))"
  using swrite_in swrite_out [of s h off bs] unfolding in_range_def by (metis snd_conv)

lemma sread_keeps: "invar s \<Longrightarrow> bytes_of (snd (sread h off n s)) = bytes_of s"
  using sread_in sread_out unfolding in_range_def by (metis snd_conv)

lemma swrite_Inr:
  assumes "invar s" "swrite h off bs s = (Inr (), s')"
  obtains d where "bytes_of s h = Some d" "0 \<le> off" "off + int (length bs) \<le> int (length d)" "invar s'"
    "bytes_of s' = (bytes_of s)(h \<mapsto> slice_assign d off (off + int (length bs)) bs)"
proof -
  have "in_range (bytes_of s) h off (int (length bs))" using swrite_out [OF assms(1), of h off bs] assms(2) by auto
  then obtain d where d: "bytes_of s h = Some d" "0 \<le> off" "off + int (length bs) \<le> int (length d)"
    by (auto simp: in_range_def)
  with swrite_in [OF assms(1) d] assms(2) show ?thesis by (intro that [OF d]) auto
qed

lemma sread_Inr:
  assumes "invar s" "sread h off n s = (Inr bs, s')"
  obtains d where "bytes_of s h = Some d" "0 \<le> off" "0 \<le> n" "off + n \<le> int (length d)"
    "bs = py_slice d off (off + n)" "invar s'" "bytes_of s' = bytes_of s"
proof -
  have "in_range (bytes_of s) h off n" using sread_out [OF assms(1), of h off n] assms(2) by auto
  then obtain d where d: "bytes_of s h = Some d" "0 \<le> off" "0 \<le> n" "off + n \<le> int (length d)"
    by (auto simp: in_range_def)
  with sread_in [OF assms(1) d] assms(2) show ?thesis by (intro that [OF d]) auto
qed

lemma read_after_write:
  assumes "invar s" "swrite h off bs s = (Inr (), s')"
  shows "fst (sread h off (int (length bs)) s') = Inr bs"
proof -
  from swrite_Inr [OF assms] obtain d where d: "bytes_of s h = Some d" "0 \<le> off"
      "off + int (length bs) \<le> int (length d)" "invar s'"
      "bytes_of s' = (bytes_of s)(h \<mapsto> slice_assign d off (off + int (length bs)) bs)" by blast
  with sread_in [of s' h _ off "int (length bs)"]
  show ?thesis by (auto simp: length_slice_assign slice_assign_same)
qed

lemma read_other_write:
  assumes "invar s" "swrite h off bs s = (Inr (), s')"
    and apart: "h' \<noteq> h \<or> off' + n \<le> off \<or> off + int (length bs) \<le> off'"
  shows "fst (sread h' off' n s') = fst (sread h' off' n s)"
proof -
  from swrite_Inr [OF assms(1,2)] obtain d where d: "bytes_of s h = Some d" "0 \<le> off"
      "off + int (length bs) \<le> int (length d)" "invar s'"
      "bytes_of s' = (bytes_of s)(h \<mapsto> slice_assign d off (off + int (length bs)) bs)" by blast
  let ?d = "slice_assign d off (off + int (length bs)) bs"
  have len: "length ?d = length d" using d by (simp add: length_slice_assign)
  have ir: "in_range (bytes_of s') h' off' n = in_range (bytes_of s) h' off' n"
    using d len by (auto simp: in_range_def)
  show ?thesis
  proof (cases "in_range (bytes_of s) h' off' n")
    case True
    then obtain x where x: "bytes_of s h' = Some x" "0 \<le> off'" "0 \<le> n" "off' + n \<le> int (length x)"
      by (auto simp: in_range_def)
    have "fst (sread h' off' n s) = Inr (py_slice x off' (off' + n))"
      using sread_in [OF assms(1) x] by auto
    moreover have "fst (sread h' off' n s') = Inr (py_slice x off' (off' + n))"
    proof (cases "h' = h")
      case True
      then have xd: "x = d" using x d by simp
      have "py_slice ?d off' (off' + n) = py_slice d off' (off' + n)"
        using apart True x xd d by (intro slice_assign_disjoint) auto
      then show ?thesis using sread_in [of s' h' ?d off' n] d(4,5) True x len xd by auto
    next
      case False
      then show ?thesis using sread_in [of s' h' x off' n] d(4,5) x by auto
    qed
    ultimately show ?thesis by simp
  next
    case False
    with ir sread_out [OF assms(1) False] sread_out [OF d(4), of h' off' n] show ?thesis
      using d(1,5) by (auto simp: range_error_def)
  qed
qed

end

text \<open>The allocator's two access paths, with and without cache maintenance, both provide the store.\<close>

lemma allocator_store:
  "tensor_store alloc_inv contents (\<lambda>h off n. read_tensor h off n c) (\<lambda>h off bs. write_tensor h off bs c)"
proof
  fix a h d off n
  assume "alloc_inv a" "contents a h = Some d" "0 \<le> off" "0 \<le> n" "off + n \<le> int (length d)"
  then show "\<exists>a'. read_tensor h off n c a = (Inr (py_slice d off (off + n)), a') \<and> alloc_inv a' \<and>
      contents a' = contents a"
    using read_tensor_ok [of a h d off n c] by (auto dest: same_shape_inv)
next
  fix a h off n assume "alloc_inv a" "\<not> in_range (contents a) h off n"
  then show "read_tensor h off n c a = (Inl (range_error (contents a) h off n), a)"
    by (simp add: read_tensor_rejected validate_range_contents)
next
  fix a h d off and bs :: "byte list"
  assume "alloc_inv a" "contents a h = Some d" "0 \<le> off" "off + int (length bs) \<le> int (length d)"
  then show "\<exists>a'. write_tensor h off bs c a = (Inr (), a') \<and> alloc_inv a' \<and>
      contents a' = (contents a)(h \<mapsto> slice_assign d off (off + int (length bs)) bs)"
    using write_tensor_ok [of a h d off bs c] by (auto dest: same_shape_inv)
next
  fix a h off and bs :: "byte list"
  assume "alloc_inv a" "\<not> in_range (contents a) h off (int (length bs))"
  then show "write_tensor h off bs c a = (Inl (range_error (contents a) h off (int (length bs))), a)"
    by (simp add: write_tensor_rejected validate_range_contents)
qed

interpretation coherent_store: tensor_store alloc_inv contents
  "\<lambda>h off n. read_tensor h off n True" "\<lambda>h off bs. write_tensor h off bs True"
  by (rule allocator_store)

interpretation raw_store: tensor_store alloc_inv contents
  "\<lambda>h off n. read_tensor h off n False" "\<lambda>h off bs. write_tensor h off bs False"
  by (rule allocator_store)

end
