(* ===== verification/AllocSpec.thy ===== *)
theory AllocSpec
  imports TensorStore
begin

text \<open>
  What the allocator does to the abstract store, how \<open>slab_view\<close>, \<open>slab_pointer\<close>
  and \<open>physical\<close> name the bytes of a tensor for native code and for the DMA engine, and
  the reachable states of an allocator under any sequence of its methods.
\<close>

section \<open>Allocation and release on the abstract store\<close>

lemma allocate_contents:
  assumes inv: "alloc_inv a"
    and run: "allocate nbytes shape dtype usage layout alignment a = (Inr r, a')"
  shows "contents a (tr_handle r) = None"
    and "\<exists>d. int (length d) = nbytes \<and> contents a' = (contents a)(tr_handle r \<mapsto> d)"
proof -
  from allocate_cases [OF inv run] obtain es where nb: "0 \<le> nbytes"
    and al: "allocated nbytes (effective_alignment a alignment) es r a a'" by auto
  then have h: "tr_handle r = al_next_handle a" and ex: "tr_extents r = es" "tr_nbytes r = nbytes"
    and rec: "al_records a' = al_records a @ [(al_next_handle a, r)]" and sl: "al_slabs a' = al_slabs a"
    by (auto simp: allocated_def)
  have fresh: "map_of (al_records a) (al_next_handle a) = None"
    using fresh_handle [OF inv] by (simp add: map_of_eq_None_iff)
  then show "contents a (tr_handle r) = None" by (simp add: contents_def h)
  have inv': "alloc_inv a'" using inv al by (rule allocated_inv)
  have here: "map_of (al_records a') (al_next_handle a) = Some r"
    using fresh by (simp add: rec map_add_def)
  let ?d = "map (mem (al_slabs a)) (addrs es)"
  have "contents a' = (contents a)(tr_handle r \<mapsto> ?d)"
    using fresh by (auto simp: fun_eq_iff contents_def rec sl h ex map_add_def split: option.splits)
  moreover have "int (length ?d) = nbytes" using contents_length [OF inv' here] ex by simp
  ultimately show "\<exists>d. int (length d) = nbytes \<and> contents a' = (contents a)(tr_handle r \<mapsto> d)" by blast
qed

lemma free_tensor_contents:
  assumes inv: "alloc_inv a" and run: "free_tensor h a = (Inr r, a')"
  shows "contents a' = (contents a)(h := None)" "contents a h \<noteq> None"
proof -
  from run have rec: "get_record a h = Inr r" by (auto simp: free_tensor_def split: sum.splits)
  note sp = free_tensor_spec [OF inv rec run]
  show "contents a' = (contents a)(h := None)"
    using sp by (auto simp: fun_eq_iff contents_def delete_conv)
  show "contents a h \<noteq> None" using rec by (simp add: contents_def get_record_Inr)
qed

section \<open>Addresses handed to native code and to the DMA engine\<close>

text \<open>The loop of \<open>slab_view\<close> stops in the extent that holds the range.\<close>

lemma view_extents_addrs:
  assumes "view_extents cursor off n es = Inr (i, x, k)" "\<forall>e \<in> set es. ext_ok slabs e"
    and "cursor \<le> off" "0 \<le> n"
  shows "k = n \<and> i < length slabs \<and> 0 \<le> x \<and> x + n \<le> slab_size (slabs ! i) \<and>
    take (nat n) (drop (nat (off - cursor)) (addrs es)) = run_addrs i x (nat n)"
  using assms
proof (induction cursor off n es rule: view_extents.induct)
  case (2 cursor off n e es)
  let ?m = "ext_nbytes e" and ?l = "off - cursor"
  have ok: "ext_ok slabs e" "\<forall>e \<in> set es. ext_ok slabs e" using "2.prems"(2) by auto
  then have m: "0 < ?m" by (simp add: ext_ok_def)
  show ?case
  proof (cases "cursor + ?m \<le> off")
    case True
    have "nat ?l - nat ?m = nat (off - (cursor + ?m))" using True m by simp
    then show ?thesis using "2.IH" [OF True _ ok(2)] "2.prems" True m by simp
  next
    case False
    then have v: "i = ext_slab e" "x = ext_offset e + ?l" "k = n" "?l + n \<le> ?m"
      using "2.prems"(1) by (auto split: if_splits)
    have "take (nat n) (drop (nat ?l) (ext_addrs e)) = run_addrs i x (nat n)"
      using v "2.prems"(3,4) by (simp add: ext_addrs_def drop_run_addrs take_run_addrs min_def)
    moreover have "nat n - (nat ?m - nat ?l) = 0" "nat ?l - nat ?m = 0" using v False "2.prems"(3) by auto
    ultimately show ?thesis using v ok(1) "2.prems"(3) by (simp add: ext_ok_def)
  qed
qed simp

lemma slab_view_spec:
  assumes inv: "alloc_inv a" and v: "slab_view a h off n = Inr (i, x, k)"
  obtains d where "contents a h = Some d" "0 \<le> off" "0 \<le> n" "off + n \<le> int (length d)"
    "k = n" "i < length (al_slabs a)" "0 \<le> x" "x + n \<le> slab_size (al_slabs a ! i)"
    "py_slice (buf (al_slabs a ! i)) x (x + n) = py_slice d off (off + n)"
proof -
  from v obtain r where r: "map_of (al_records a) h = Some r" and o: "0 \<le> off" "0 \<le> n"
    and nb: "off + n \<le> tr_nbytes r" and ve: "view_extents 0 off n (tr_extents r) = Inr (i, x, k)"
    by (auto simp: slab_view_def get_record_def bindR_def not_less split: option.splits if_splits)
  note w = view_extents_addrs [OF ve record_extents_ok(1) [OF inv r] o]
  define d where "d = map (mem (al_slabs a)) (addrs (tr_extents r))"
  have len: "int (length d) = tr_nbytes r" using contents_length [OF inv r] by (simp add: d_def)
  have "slab_size (al_slabs a ! i) = int (length (buf (al_slabs a ! i)))"
    using inv w by (simp add: alloc_inv_def slabs_ok_def)
  then have "py_slice (buf (al_slabs a ! i)) x (x + n) = map (mem (al_slabs a)) (run_addrs i x (nat n))"
    using w o by (intro slice_as_addrs) auto
  also have "\<dots> = py_slice d off (off + n)"
    using w o nb len by (simp add: d_def py_slice_in take_map drop_map)
  finally show ?thesis using w o nb len r by (intro that [of d]) (auto simp: contents_def d_def)
qed

text \<open>\<open>slab_view\<close> answers every range that starts and ends in one extent.\<close>

lemma view_extents_single:
  "0 < n \<Longrightarrow> 0 \<le> off \<Longrightarrow> off + n \<le> ext_nbytes e \<Longrightarrow>
   view_extents 0 off n [e] = Inr (ext_slab e, ext_offset e + off, n)"
  by simp

text \<open>The address that \<open>physical\<close> returns is that of the tensor's byte.\<close>

lemma phys_extents_addrs:
  assumes "\<forall>e \<in> set es. 0 < ext_nbytes e" "pos \<le> off" "off < pos + ext_sum es"
    and "addrs es ! nat (off - pos) = (i, x)"
  shows "phys_extents slabs pos off es = physical_address (slabs ! i) + x"
  using assms
proof (induction slabs pos off es rule: phys_extents.induct)
  case (2 slabs pos off e es)
  let ?m = "ext_nbytes e" and ?l = "nat (off - pos)"
  have m: "0 < ?m" using "2.prems"(1) by simp
  show ?case
  proof (cases "off < pos + ?m")
    case True
    then have "?l < nat ?m" using "2.prems"(2) by simp
    then have "addrs (e # es) ! ?l = (ext_slab e, ext_offset e + int ?l)"
      by (simp add: nth_append ext_addrs_def run_addrs_nth)
    then show ?thesis using True "2.prems" by simp
  next
    case False
    then have l: "\<not> ?l < nat ?m" "?l - nat ?m = nat (off - (pos + ?m))" using m by auto
    then have "addrs es ! nat (off - (pos + ?m)) = (i, x)" using "2.prems"(4) by (auto simp: nth_append)
    then show ?thesis using "2.IH" [OF False] False "2.prems" by simp
  qed
qed simp

lemma phys_extents_end:
  "\<forall>e \<in> set es. 0 < ext_nbytes e \<Longrightarrow> pos + ext_sum es \<le> off \<Longrightarrow> phys_extents slabs pos off es = 0"
proof (induction slabs pos off es rule: phys_extents.induct)
  case (2 slabs pos off e es)
  have "0 \<le> ext_sum es" using "2.prems"(1) by (auto simp: ext_sum_def less_imp_le intro!: sum_list_nonneg)
  with 2 show ?case by auto
qed simp

lemma physical_spec:
  assumes inv: "alloc_inv a" and c: "contents a h = Some d" and o: "0 \<le> off" "off \<le> int (length d)"
  shows "off < int (length d) \<Longrightarrow> \<exists>r i x. map_of (al_records a) h = Some r \<and>
      addrs (tr_extents r) ! nat off = (i, x) \<and> i < length (al_slabs a) \<and> 0 \<le> x \<and>
      x < slab_size (al_slabs a ! i) \<and> buf (al_slabs a ! i) ! nat x = d ! nat off \<and>
      physical a h off = Inr (physical_address (al_slabs a ! i) + x)"
    and "off = int (length d) \<Longrightarrow> physical a h off = Inr 0"
proof -
  from c obtain r where r: "map_of (al_records a) h = Some r"
    and d: "d = map (mem (al_slabs a)) (addrs (tr_extents r))" by (auto simp: contents_Some)
  note ex = record_extents_ok [OF inv r]
  have nb: "tr_nbytes r = int (length d)" using contents_length [OF inv r] d by simp
  have ph: "physical a h off = Inr (phys_extents (al_slabs a) 0 off (tr_extents r))"
    using r o nb by (simp add: physical_def get_record_def)
  show "off = int (length d) \<Longrightarrow> physical a h off = Inr 0"
    using ph phys_extents_end [OF ex(3), of 0 off] ex(2) nb by simp
  assume lt: "off < int (length d)"
  obtain i x where ix: "addrs (tr_extents r) ! nat off = (i, x)" by (cases "addrs (tr_extents r) ! nat off")
  have mem: "(i, x) \<in> set (addrs (tr_extents r))" using ix lt o d by (metis length_map nat_less_iff nth_mem)
  then obtain e where e: "e \<in> set (tr_extents r)" "(i, x) \<in> set (ext_addrs e)" by (auto simp: addrs_def)
  then have "ext_ok (al_slabs a) e" using ex(1) by blast
  with e have b: "i < length (al_slabs a)" "0 \<le> x" "x < slab_size (al_slabs a ! i)"
    by (auto simp: ext_ok_def set_ext_addrs ext_range_def range_of_def)
  have "int (length (buf (al_slabs a ! i))) = slab_size (al_slabs a ! i)"
    using inv b(1) by (simp add: alloc_inv_def slabs_ok_def)
  then have "buf (al_slabs a ! i) ! nat x = mem (al_slabs a) (i, x)" using b by (simp add: mem_def)
  also have "\<dots> = d ! nat off" using ix lt o d by (simp add: nat_less_iff)
  finally show "\<exists>r i x. map_of (al_records a) h = Some r \<and>
      addrs (tr_extents r) ! nat off = (i, x) \<and> i < length (al_slabs a) \<and> 0 \<le> x \<and>
      x < slab_size (al_slabs a ! i) \<and> buf (al_slabs a ! i) ! nat x = d ! nat off \<and>
      physical a h off = Inr (physical_address (al_slabs a ! i) + x)"
    using r ix b ph phys_extents_addrs [OF ex(3), of 0 off i x "al_slabs a"] o lt ex(2) nb by auto
qed

section \<open>Reachable allocators\<close>

inductive alloc_step :: "allocator \<Rightarrow> allocator \<Rightarrow> bool" where
  step_allocate: "allocate nbytes shape dtype usage layout alignment a = (res, a') \<Longrightarrow> alloc_step a a'"
| step_free: "free_tensor h a = (res, a') \<Longrightarrow> alloc_step a a'"
| step_write: "write_tensor h offset data coherent a = (res, a') \<Longrightarrow> alloc_step a a'"
| step_read: "read_tensor h offset n coherent a = (res', a') \<Longrightarrow> alloc_step a a'"

inductive alloc_reachable :: "slab list \<Rightarrow> int \<Rightarrow> allocator \<Rightarrow> bool" for slabs w where
  reach_new: "new_allocator slabs w = Inr a \<Longrightarrow> alloc_reachable slabs w a"
| reach_step: "alloc_reachable slabs w a \<Longrightarrow> alloc_step a a' \<Longrightarrow> alloc_reachable slabs w a'"

lemma read_tensor_shape:
  assumes "alloc_inv a" "read_tensor h off n c a = (res, a')"
  shows "same_shape a a'"
proof (cases "in_range (contents a) h off n")
  case True
  then obtain d where "contents a h = Some d" "0 \<le> off" "0 \<le> n" "off + n \<le> int (length d)"
    by (auto simp: in_range_def)
  from read_tensor_ok [OF assms(1) this, of c] assms(2) show ?thesis by auto
next
  case False
  with assms show ?thesis by (simp add: read_tensor_rejected validate_range_contents)
qed

lemma write_tensor_shape:
  assumes "alloc_inv a" "write_tensor h off bs c a = (res, a')"
  shows "same_shape a a'"
proof (cases "in_range (contents a) h off (int (length bs))")
  case True
  then obtain d where "contents a h = Some d" "0 \<le> off" "off + int (length bs) \<le> int (length d)"
    by (auto simp: in_range_def)
  from write_tensor_ok [OF assms(1) this, of c] assms(2) show ?thesis by auto
next
  case False
  with assms show ?thesis by (simp add: write_tensor_rejected validate_range_contents)
qed

lemma alloc_step_inv: "alloc_step a a' \<Longrightarrow> alloc_inv a \<Longrightarrow> alloc_inv a'"
  by (induction rule: alloc_step.induct)
     (auto intro: allocate_inv free_tensor_inv dest: read_tensor_shape write_tensor_shape same_shape_inv)

lemma alloc_reachable_inv:
  assumes "alloc_reachable slabs w a"
    and "\<forall>s \<in> set slabs. 0 < slab_size s \<and> int (length (buf s)) = slab_size s"
  shows "alloc_inv a"
  using assms by (induction rule: alloc_reachable.induct) (auto intro: new_allocator_inv alloc_step_inv)

text \<open>The capacity of the device never changes.\<close>

lemma same_shape_total: "same_shape a b \<Longrightarrow> total_bytes b = total_bytes a"
  unfolding same_shape_def total_bytes_def
  by (intro arg_cong [of _ _ sum_list] nth_equalityI)
     (auto simp: list_all2_conv_all_nth slab_similar_def)

lemma alloc_step_total: "alloc_step a a' \<Longrightarrow> alloc_inv a \<Longrightarrow> total_bytes a' = total_bytes a"
proof (induction rule: alloc_step.induct)
  case (step_allocate nbytes shape dtype usage layout alignment a res a')
  show ?case
    by (rule allocate_cases [OF step_allocate(2,1)]) (auto simp: allocated_def total_bytes_def)
next
  case (step_free h a res a')
  show ?case
  proof (cases "get_record a h")
    case (Inl e)
    with step_free show ?thesis by (simp add: free_tensor_def)
  next
    case (Inr r)
    with free_tensor_spec(3) [OF step_free(2) Inr step_free(1)] show ?thesis by (simp add: total_bytes_def)
  qed
qed (auto dest: read_tensor_shape write_tensor_shape same_shape_total)

lemma alloc_reachable_total:
  assumes "alloc_reachable slabs w a"
    and "\<forall>s \<in> set slabs. 0 < slab_size s \<and> int (length (buf s)) = slab_size s"
  shows "total_bytes a = (\<Sum>s\<leftarrow>slabs. slab_size s)"
  using assms
proof (induction rule: alloc_reachable.induct)
  case (reach_new a)
  then show ?case by (auto simp: new_allocator_def total_bytes_def split: if_splits)
next
  case (reach_step a a')
  then show ?case using alloc_step_total alloc_reachable_inv by metis
qed

lemma free_bytes_nonneg:
  assumes "alloc_inv a"
  shows "0 \<le> free_bytes a"
  unfolding free_bytes_def
proof (intro sum_list_nonneg, clarsimp)
  fix fl assume "fl \<in> set (al_free a)"
  then obtain i where "i < length (al_slabs a)" "fl = al_free a ! i"
    using assms by (auto simp: in_set_conv_nth alloc_inv_def partitioned_def)
  then have "canon 0 (slab_size (al_slabs a ! i)) fl"
    using assms by (auto simp: alloc_inv_def partitioned_def slab_divided_def)
  then show "0 \<le> (\<Sum>b\<leftarrow>fl. snd b)"
    by (intro sum_list_nonneg) (auto dest!: canon_member)
qed

end
