(* ===== verification/Runtime.thy ===== *)
theory Runtime
  imports GraphSpec AllocSpec
begin

text \<open>
  The request handlers of \<^verbatim>\<open>board/daemon/runtime.py\<close>.  The state of the runtime is the world;
  the registry and the overlay id are fixed when the daemon starts.  \<open>dispatch\<close> holds the
  runtime's lock around one handler, so the handlers of concurrent connections are serialised
  and each is one step on the world.
\<close>

definition optional_list :: "dict \<Rightarrow> string \<Rightarrow> int list res" where
  "optional_list metadata key =
     (case obj_get metadata key (JList []) of
        JList l \<Rightarrow> mapR py_int l
      | _ \<Rightarrow> Inl (AllocatorError ''invalid_request''))"

definition hello :: "('d, 'p) registry \<Rightarrow> string \<Rightarrow> allocator \<Rightarrow> dict" where
  "hello reg overlay_id a =
     [(F_ABI_VERSION, JInt ABI_VERSION), (F_SERVER, JStr SERVER_NAME), (F_OVERLAY_ID, JStr overlay_id),
      (F_MEMORY, JObj (memory_info a)), (F_CAPABILITIES, JList (map JStr RPC_OPS)),
      (F_GRAPH_OPS, JList (map JStr (registry_names reg)))]"

definition get_describe :: "int \<Rightarrow> ('d world, dict) py" where
  "get_describe h = py_bind (py_get w_alloc) (\<lambda>a. py_lift (describe a h))"

definition handle_alloc :: "pyenv \<Rightarrow> dict \<Rightarrow> ('d world, dict \<times> byte list) py" where
  "handle_alloc env metadata =
     py_bind (py_lift (required_int metadata F_NBYTES)) (\<lambda>nbytes.
     py_bind (py_lift (optional_list metadata F_SHAPE)) (\<lambda>shape.
     py_bind (py_lift (py_int (obj_get metadata F_ALIGNMENT (JInt 64)))) (\<lambda>alignment.
     py_bind (on_alloc (allocate nbytes shape
        (py_str env (obj_get metadata F_DTYPE (JStr ''u8'')))
        (py_str env (obj_get metadata F_USAGE (JStr ''tensor'')))
        (py_str env (obj_get metadata F_LAYOUT (JStr ''raw''))) (Some alignment))) (\<lambda>r.
     py_bind (get_describe (tr_handle r)) (\<lambda>d. py_ret ([(F_TENSOR, JObj d)], []))))))"

definition handle_upload :: "dict \<Rightarrow> byte list \<Rightarrow> ('d world, dict \<times> byte list) py" where
  "handle_upload metadata payload =
     py_bind (py_lift (required_int metadata F_HANDLE)) (\<lambda>h.
     py_bind (py_lift (py_int (obj_get metadata F_OFFSET (JInt 0)))) (\<lambda>offset.
     py_then (on_alloc (write_tensor h offset payload True))
       (py_bind (get_describe h) (\<lambda>d.
          py_ret ([(F_TENSOR, JObj d), (''written'', JInt (int (length payload)))], [])))))"

definition handle_download :: "dict \<Rightarrow> ('d world, dict \<times> byte list) py" where
  "handle_download metadata =
     py_bind (py_lift (required_int metadata F_HANDLE)) (\<lambda>h.
     py_bind (py_lift (py_int (obj_get metadata F_OFFSET (JInt 0)))) (\<lambda>offset.
     py_bind (py_lift (required_int metadata F_SIZE)) (\<lambda>n.
     py_bind (on_alloc (read_tensor h offset n True)) (\<lambda>bs.
     py_bind (get_describe h) (\<lambda>d.
       py_ret ([(F_TENSOR, JObj d), (''read'', JInt (int (length bs)))], bs))))))"

definition handle_free :: "dict \<Rightarrow> ('d world, dict \<times> byte list) py" where
  "handle_free metadata =
     py_bind (py_lift (required_int metadata F_HANDLE)) (\<lambda>h.
     py_bind (on_alloc (free_tensor h)) (\<lambda>r.
     py_bind (py_get w_alloc) (\<lambda>a.
       py_ret ([(''freed'', JObj [(''handle'', JInt (tr_handle r)), (F_NBYTES, JInt (tr_nbytes r))]),
                (F_MEMORY, JObj (memory_info a))], []))))"

definition handle_op :: "pyenv \<Rightarrow> ('d, 'p) registry \<Rightarrow> string \<Rightarrow> string \<Rightarrow> dict \<Rightarrow> byte list \<Rightarrow> ('d world, dict \<times> byte list) py" where
  "handle_op env reg overlay_id op metadata payload =
     (if op = OP_HELLO then py_bind (py_get w_alloc) (\<lambda>a. py_ret (hello reg overlay_id a, []))
      else if op = OP_MEMORY then py_bind (py_get w_alloc) (\<lambda>a. py_ret ([(F_MEMORY, JObj (memory_info a))], []))
      else if op = OP_ALLOC_TENSOR then handle_alloc env metadata
      else if op = OP_UPLOAD_TENSOR then handle_upload metadata payload
      else if op = OP_DOWNLOAD_TENSOR then handle_download metadata
      else if op = OP_FREE_TENSOR then handle_free metadata
      else if op = OP_RUN_GRAPH then py_bind (run_graph env reg metadata) (\<lambda>d. py_ret (d, []))
      else py_raise (AllocatorError ''unsupported_op''))"

definition dispatch :: "pyenv \<Rightarrow> ('d, 'p) registry \<Rightarrow> string \<Rightarrow> dict \<Rightarrow> byte list \<Rightarrow> ('d world, dict \<times> byte list) py" where
  "dispatch env reg overlay_id metadata payload =
     (let op = py_str env (obj_get metadata F_OP (JStr '''')) in
      if op = '''' then py_raise (AllocatorError ''invalid_request'')
      else handle_op env reg overlay_id op metadata payload)"

definition close_runtime :: "('d world, unit) py" where
  "close_runtime = py_mod (\<lambda>w. w\<lparr>w_alloc := close_allocator (w_alloc w)\<rparr>)"

section \<open>The allocator's invariant across requests\<close>

definition inv_kept :: "'d world \<Rightarrow> 'd world \<Rightarrow> bool" where
  "inv_kept w w' \<longleftrightarrow> (alloc_inv (w_alloc w) \<longrightarrow> alloc_inv (w_alloc w'))"

lemma inv_kept_reflp: "reflp inv_kept"
  by (simp add: reflp_def inv_kept_def)

lemma inv_kept_transp: "transp inv_kept"
  by (auto simp: transp_def inv_kept_def)

lemmas keeps_inv = py_keeps_pure [OF inv_kept_reflp] py_keeps_bind [OF inv_kept_transp]
  py_keeps_then [OF inv_kept_transp] py_keeps_for [OF inv_kept_reflp inv_kept_transp]
  py_keeps_finally [OF inv_kept_transp] py_keeps_when [OF inv_kept_reflp]

lemma on_alloc_keeps:
  assumes "\<And>a r a'. m a = (r, a') \<Longrightarrow> alloc_inv a \<Longrightarrow> alloc_inv a'"
  shows "py_keeps inv_kept (on_alloc m)"
  by (rule py_keepsI) (auto simp: on_alloc_def inv_kept_def split: prod.splits dest: assms)

lemma same_alloc_keeps:
  assumes "\<And>w r w'. m w = (r, w') \<Longrightarrow> w_alloc w' = w_alloc w"
  shows "py_keeps inv_kept m"
  by (rule py_keepsI) (auto simp: inv_kept_def dest: assms)

lemma emit_alloc: "emit env ev kws w = (r, w') \<Longrightarrow> w_alloc w' = w_alloc w"
  by (auto simp: emit_def split: if_splits)

lemma us_since_alloc: "us_since env n w = (r, w') \<Longrightarrow> w_alloc w' = w_alloc w"
  by (auto simp: us_since_def perf_counter_ns_def py_simps)

lemma profiler_keeps:
  "py_keeps inv_kept (perf_counter_ns env)" "py_keeps inv_kept (us_since env n)"
  "py_keeps inv_kept (emit env ev kws)" "py_keeps inv_kept (upd_timer f)"
  by (rule same_alloc_keeps; auto simp: perf_counter_ns_def upd_timer_def dest: emit_alloc us_since_alloc)+

lemma op_end_keeps: "py_keeps inv_kept (op_end env sp prev n)"
  unfolding op_end_def Let_def by (intro keeps_inv profiler_keeps)

lemma timer_op_keeps: "py_keeps inv_kept body \<Longrightarrow> py_keeps inv_kept (timer_op env n kws body)"
  unfolding timer_op_def op_profiled_def Let_def
  by (auto intro!: keeps_inv profiler_keeps op_end_keeps)

lemma timer_section_keeps: "py_keeps inv_kept body \<Longrightarrow> py_keeps inv_kept (timer_section env n body)"
  unfolding timer_section_def section_profiled_def section_end_def
  by (auto intro!: keeps_inv profiler_keeps)

text \<open>A registry whose kernels keep the invariant, as every kernel that goes through the allocator does.\<close>

definition kernel_keeps :: "('d, 'p) kernel \<Rightarrow> bool" where
  "kernel_keeps k \<longleftrightarrow> (\<forall>op. py_keeps inv_kept (k_run k op)) \<and> (\<forall>p. py_keeps inv_kept (k_complete k p)) \<and>
     (\<forall>f op. k_run_async k = Some f \<longrightarrow> py_keeps inv_kept (f op))"

definition registry_keeps :: "('d, 'p) registry \<Rightarrow> bool" where
  "registry_keeps reg \<longleftrightarrow> (\<forall>k \<in> snd ` set reg. kernel_keeps k)"

definition sched_keeps :: "('d, 'p) sched \<Rightarrow> bool" where
  "sched_keeps st \<longleftrightarrow> (\<forall>n k p. sc_in_flight st = Some (n, k, p) \<longrightarrow> kernel_keeps k)"

lemma registry_get_keeps: "registry_keeps reg \<Longrightarrow> registry_get reg n = Inr k \<Longrightarrow> kernel_keeps k"
  by (auto simp: registry_get_def registry_keeps_def split: option.splits dest!: map_of_SomeD)

lemma complete_keeps: "sched_keeps st \<Longrightarrow> sc_in_flight st = Some f \<Longrightarrow> py_keeps inv_kept (complete_pending env f)"
  by (cases f) (auto simp: complete_pending_def sched_keeps_def kernel_keeps_def intro: timer_op_keeps)

lemma barrier_inv: "sched_keeps st \<Longrightarrow> py_keeps inv_kept (barrier env k op st)"
  by (auto simp: barrier_def split: option.splits intro!: keeps_inv complete_keeps)

lemma issue_inv: "kernel_keeps k \<Longrightarrow> py_keeps inv_kept (issue_op env n k op st)"
  by (auto simp: issue_op_def kernel_keeps_def Let_def split: option.splits intro!: keeps_inv timer_op_keeps)

lemma barrier_sched_keeps: "sched_keeps st \<Longrightarrow> barrier env k op st w = (Inr st', w') \<Longrightarrow> sched_keeps st'"
  by (auto simp: barrier_def sched_keeps_def py_simps split: option.splits sum.splits prod.splits if_splits)

lemma issue_sched_keeps:
  "kernel_keeps k \<Longrightarrow> sched_keeps st \<Longrightarrow> issue_op env n k op st w = (Inr st', w') \<Longrightarrow> sched_keeps st'"
  by (auto simp: issue_op_def sched_keeps_def py_simps Let_def split: option.splits sum.splits prod.splits)

lemma run_op_inv:
  assumes "registry_keeps reg" "sched_keeps st" "run_op env reg op st w = (r, w')"
  shows "inv_kept w w' \<and> (\<forall>st'. r = Inr st' \<longrightarrow> sched_keeps st')"
proof -
  let ?n = "py_str env (obj_get op F_OP (JStr ''''))"
  show ?thesis
  proof (cases "?n = '''' \<or> (\<exists>e. registry_get reg ?n = Inl e)")
    case True
    with assms(3) show ?thesis by (auto simp: run_op_def Let_def py_simps inv_kept_def split: if_splits)
  next
    case False
    then obtain k where k: "registry_get reg ?n = Inr k" by (cases "registry_get reg ?n") auto
    with False assms(3) have run: "py_bind (barrier env k op st) (issue_op env ?n k op) w = (r, w')"
      by (auto simp: run_op_def Let_def py_simps split: if_splits)
    have kk: "kernel_keeps k" using registry_get_keeps [OF assms(1) k] .
    have "py_keeps inv_kept (py_bind (barrier env k op st) (issue_op env ?n k op))"
      using assms(2) kk by (intro keeps_inv barrier_inv issue_inv)
    then have "inv_kept w w'" using run by (rule py_keepsD)
    moreover have "sched_keeps st'" if "r = Inr st'" for st'
    proof -
      from run that obtain st1 w1 where "barrier env k op st w = (Inr st1, w1)" "issue_op env ?n k op st1 w1 = (Inr st', w')"
        by (auto simp: py_simps split: sum.splits prod.splits)
      with barrier_sched_keeps [OF assms(2)] issue_sched_keeps [OF kk] show ?thesis by blast
    qed
    ultimately show ?thesis by blast
  qed
qed

lemma run_ops_inv:
  "registry_keeps reg \<Longrightarrow> sched_keeps st \<Longrightarrow> run_ops env reg ops st w = (r, w') \<Longrightarrow>
   inv_kept w w' \<and> (\<forall>st'. r = Inr st' \<longrightarrow> sched_keeps st')"
proof (induction ops arbitrary: st w)
  case Nil
  then show ?case by (auto simp: inv_kept_def)
next
  case (Cons op ops)
  obtain r1 w1 where op: "run_op env reg op st w = (r1, w1)" by (cases "run_op env reg op st w")
  note h = run_op_inv [OF Cons.prems(1,2) op]
  show ?case
  proof (cases r1)
    case (Inl e)
    with Cons.prems(3) op h show ?thesis by (simp add: py_simps)
  next
    case (Inr st1)
    with Cons.prems(3) op have "run_ops env reg ops st1 w1 = (r, w')" by (simp add: py_simps)
    with Cons.IH [OF Cons.prems(1), of st1 w1] h Inr show ?thesis by (auto simp: inv_kept_def)
  qed
qed

lemma run_schedule_inv:
  assumes "registry_keeps reg"
  shows "py_keeps inv_kept (run_schedule env reg ops)"
proof (rule py_keepsI)
  fix w r w' assume run: "run_schedule env reg ops w = (r, w')"
  let ?s0 = "\<lparr>sc_in_flight = None, sc_ps = 0, sc_pl = 0\<rparr>"
  have s0: "sched_keeps ?s0" by (simp add: sched_keeps_def)
  obtain r1 w1 where o: "run_ops env reg ops ?s0 w = (r1, w1)" by (cases "run_ops env reg ops ?s0 w")
  note h = run_ops_inv [OF assms s0 o]
  show "inv_kept w w'"
  proof (cases r1)
    case (Inl e)
    with run o h show ?thesis by (simp add: run_schedule_def py_simps)
  next
    case (Inr st)
    then have "py_keeps inv_kept (drain env st)"
      using h by (auto simp: drain_def split: option.splits intro!: keeps_inv complete_keeps)
    moreover from Inr run o have "drain env st w1 = (r, w')" by (simp add: run_schedule_def py_simps)
    ultimately have "inv_kept w1 w'" by (rule py_keepsD)
    with h show ?thesis by (auto simp: inv_kept_def)
  qed
qed

lemma run_graph_keeps:
  assumes "registry_keeps reg"
  shows "py_keeps inv_kept (run_graph env reg metadata)"
proof -
  have "py_keeps inv_kept (py_mod (\<lambda>w. w\<lparr>w_timer := new_timer q (w_sink w)\<rparr>))" for q
    by (rule same_alloc_keeps) auto
  then have "py_keeps inv_kept (graph_body env reg q v ops outs)" for q v ops outs
    unfolding graph_body_def check_outputs_def Let_def
    by (intro keeps_inv profiler_keeps timer_section_keeps run_schedule_inv assms)
  then show ?thesis unfolding run_graph_def by (auto intro!: keeps_inv)
qed

lemma handle_op_keeps:
  assumes "registry_keeps reg"
  shows "py_keeps inv_kept (handle_op env reg ov op md pl)"
proof -
  have al: "py_keeps inv_kept (on_alloc (allocate n sh dt us ly al))" for n sh dt us ly al
    by (rule on_alloc_keeps) (rule allocate_inv)
  have fr: "py_keeps inv_kept (on_alloc (free_tensor h))" for h
    by (rule on_alloc_keeps) (rule free_tensor_inv)
  have wr: "py_keeps inv_kept (on_alloc (write_tensor h off bs c))" for h off bs c
    by (rule on_alloc_keeps) (blast dest: write_tensor_shape same_shape_inv)
  have rd: "py_keeps inv_kept (on_alloc (read_tensor h off n c))" for h off n c
    by (rule on_alloc_keeps) (blast dest: read_tensor_shape same_shape_inv)
  show ?thesis
    unfolding handle_op_def handle_alloc_def handle_upload_def handle_download_def handle_free_def get_describe_def
    by (auto intro!: keeps_inv al fr wr rd run_graph_keeps assms)
qed

lemma dispatch_keeps:
  "registry_keeps reg \<Longrightarrow> py_keeps inv_kept (dispatch env reg ov md pl)"
  unfolding dispatch_def Let_def by (auto intro!: keeps_inv handle_op_keeps)

end
