(* ===== verification/PlKernels.thy ===== *)
theory PlKernels
  imports PlMatmul Runtime
begin

text \<open>
  The loopback driver (\<^verbatim>\<open>board/kernels/pl/loopback.py\<close>), the registration of the PL kernels
  (\<^verbatim>\<open>pl/__init__.py\<close>), and the construction of the runtime by the daemon's entry point
  (\<^verbatim>\<open>board/daemon/__main__.py\<close>).
\<close>

section \<open>COPY over the DMA loopback\<close>

definition dma_do :: "'h pl_host \<Rightarrow> dma_cmd \<Rightarrow> ('h pl_world, unit) py" where
  "dma_do host cmd w =
     (case ov_dma (ph_overlay host) cmd (al_slabs (w_alloc w)) (pl_hw (w_dev w)) of
        (r, slabs, hw) \<Rightarrow>
          (r, w\<lparr>w_alloc := (w_alloc w)\<lparr>al_slabs := slabs\<rparr>, w_dev := (w_dev w)\<lparr>pl_hw := hw\<rparr>\<rparr>))"

text \<open>\<open>slab.pynq_buffer\<close>.\<close>

definition need_pynq :: "nat \<Rightarrow> ('d world, unit) py" where
  "need_pynq i = py_bind (py_get w_alloc) (\<lambda>a. py_read (buffer_phys (al_slabs a ! i)) (\<lambda>_. py_ret ()))"

definition flush_slab :: "nat \<Rightarrow> int \<Rightarrow> int \<Rightarrow> ('d world, unit) py" where
  "flush_slab i offset nbytes =
     on_alloc (py_mod (\<lambda>a. set_slab i (slab_flush_range (al_slabs a ! i) offset nbytes) a))"

definition get_slab_view :: "int \<Rightarrow> int \<Rightarrow> int \<Rightarrow> ('d world, nat \<times> int \<times> int) py" where
  "get_slab_view h offset nbytes = py_bind (py_get w_alloc) (\<lambda>a. py_lift (slab_view a h offset nbytes))"

definition loopback_transfer :: "'h pl_host \<Rightarrow> nat \<Rightarrow> int \<Rightarrow> nat \<Rightarrow> int \<Rightarrow> int \<Rightarrow> ('h pl_world, unit) py" where
  "loopback_transfer host src_slab src_abs dst_slab dst_abs nbytes =
     py_then (need_pynq src_slab)
     (py_then (need_pynq dst_slab)
     (py_then (dma_do host (SendTransfer src_slab src_abs (src_abs + nbytes)))
     (py_then (dma_do host (RecvTransfer dst_slab dst_abs (dst_abs + nbytes)))
     (py_then (dma_do host SendWait) (dma_do host RecvWait)))))"

definition pl_loopback_run :: "pyenv \<Rightarrow> 'h pl_host \<Rightarrow> dict \<Rightarrow> ('h pl_world, unit) py" where
  "pl_loopback_run env host op =
     py_read (obj_int op F_NBYTES) (\<lambda>nbytes.
     py_read (obj_int_or op F_SRC_OFFSET 0) (\<lambda>src_off.
     py_read (obj_int_or op F_DST_OFFSET 0) (\<lambda>dst_off.
     py_read (obj_int op F_SRC) (\<lambda>src.
     py_bind (get_slab_view src src_off nbytes) (\<lambda>(src_slab, src_abs, _).
     py_read (obj_int op F_DST) (\<lambda>dst.
     py_bind (get_slab_view dst dst_off nbytes) (\<lambda>(dst_slab, dst_abs, _).
     py_then (timer_section env ''flush'' (flush_slab src_slab src_abs nbytes))
     (py_then (timer_section env ''compute'' (loopback_transfer host src_slab src_abs dst_slab dst_abs nbytes))
     (py_then (timer_section env ''invalidate'' (invalidate_slab dst_slab dst_abs nbytes))
     (py_then (timer_add ''bytes_read'' nbytes) (timer_add ''bytes_written'' nbytes)))))))))))"

definition pl_loopback_kernel :: "pyenv \<Rightarrow> 'h pl_host \<Rightarrow> ('h pl_state, pl_pending) kernel res" where
  "pl_loopback_kernel env host =
     (if ''axi_dma_0'' \<in> set (ov_attrs (ph_overlay host)) then
        Inr \<lparr>k_name = GOP_COPY, k_backend = Some ''pl'', k_run = pl_loopback_run env host, k_run_async = None,
             k_complete = (\<lambda>_. py_raise AttributeError)\<rparr>
      else Inl AttributeError)"

section \<open>Registration\<close>

definition register_kernel :: "('d, 'p) kernel res \<Rightarrow> (('d, 'p) registry, unit) py" where
  "register_kernel k = py_read k (\<lambda>knl reg. case register (Some knl) reg of Inl e \<Rightarrow> (Inl e, reg) | Inr reg' \<Rightarrow> (Inr (), reg'))"

definition pl_register_all :: "pyenv \<Rightarrow> 'h pl_host \<Rightarrow> (('h pl_state, pl_pending) registry, unit) py" where
  "pl_register_all env host =
     py_then (py_when (overlay_has (ph_overlay host) ''axis_loopback_0'') (register_kernel (pl_loopback_kernel env host)))
       (py_when (overlay_has (ph_overlay host) ''q1a8_kernel_top_0'') (register_kernel (pl_matmul_kernel env host)))"

text \<open>The attributes of a new driver object.\<close>

definition new_pl_state :: "'h \<Rightarrow> 'h pl_state" where
  "new_pl_state hw =
     \<lparr>scratch_bufs = [], scratch_sizes = [], scratch_count = 0, pl_cma = [], pl_sizes = [], pl_bound = False,
      pl_kernel_regs = None, pl_dma_w_regs = None, pl_dma_a_regs = None, pl_rows_per_block = ROWS_PER_BLOCK, pl_hw = hw\<rparr>"

section \<open>The daemon's entry point\<close>

datatype allocator_kind = FakeAllocator | PynqAllocator

record daemon_args =
  ar_allocator :: allocator_kind
  ar_heap_mib :: int
  ar_slab_mib :: int
  ar_overlay :: string
  ar_overlay_id :: string
  ar_bitfile :: "string option"

text \<open>\<open>BaseOverlay("base.bit")\<close> and \<open>Overlay(path)\<close> are the parameter \<open>loader\<close>.\<close>

definition load_overlay :: "(string \<Rightarrow> 'h overlay res) \<Rightarrow> string \<Rightarrow> 'h overlay option res" where
  "load_overlay loader path =
     (if path = ''none'' then Inr None
      else bindR (loader (if path = ''base'' then ''base.bit'' else path)) (\<lambda>ov. Inr (Some ov)))"

definition make_allocator :: "pynq_allocate \<Rightarrow> (string \<Rightarrow> 'h overlay res) \<Rightarrow> daemon_args \<Rightarrow> (allocator \<times> 'h overlay option) res" where
  "make_allocator palloc loader args =
     (let total_bytes = ar_heap_mib args * MIB; slab_bytes = ar_slab_mib args * MIB in
      case ar_allocator args of
        FakeAllocator \<Rightarrow>
          bindR (fake_slabs total_bytes slab_bytes) (\<lambda>ss. bindR (new_allocator ss 64) (\<lambda>a. Inr (a, None)))
      | PynqAllocator \<Rightarrow>
          bindR (load_overlay loader (case ar_bitfile args of Some b \<Rightarrow> if b = [] then ar_overlay args else b | None \<Rightarrow> ar_overlay args))
            (\<lambda>ov. bindR (fst (pynq_slabs palloc total_bytes slab_bytes)) (\<lambda>ss.
               bindR (new_allocator ss 64) (\<lambda>a. Inr (a, ov)))))"

text \<open>The runtime that \<open>make_runtime\<close> returns: allocator, registry, overlay id and overlay.\<close>

definition make_runtime :: "pyenv \<Rightarrow> 'h pl_host \<Rightarrow> (string \<Rightarrow> 'h overlay res) \<Rightarrow> daemon_args \<Rightarrow>
    (allocator \<times> ('h pl_state, pl_pending) registry \<times> string \<times> 'h overlay option) res" where
  "make_runtime env host loader args =
     bindR (make_allocator (ph_palloc host) loader args) (\<lambda>(a, ov).
       case register_all env (ph_palloc host) (\<lambda>p. map_option clib.truncate (ph_files host p)) None [] of
         (Inl e, _) \<Rightarrow> Inl e
       | (Inr _, reg) \<Rightarrow>
           (case (ar_bitfile args, ov) of
              (Some _, Some o') \<Rightarrow>
                (case pl_register_all env (host\<lparr>ph_overlay := o'\<rparr>) reg of
                   (Inl e, _) \<Rightarrow> Inl e
                 | (Inr _, reg') \<Rightarrow> Inr (a, reg', ar_overlay_id args, ov))
            | _ \<Rightarrow> Inr (a, reg, ar_overlay_id args, ov)))"

end
