(* ===== verification/PsSpec.thy ===== *)
theory PsSpec
  imports PsKernels Runtime
begin

text \<open>
  What the PS kernels keep: every one of them is agnostic of profiling and keeps the
  allocator's invariant, so the scheduler's and the daemon's theorems apply to the registry
  that \<open>register_all\<close> builds.
\<close>

section \<open>Profiling\<close>

lemma agnostic_catch [agnostic]:
  assumes "prof_agnostic m" "\<And>e. prof_agnostic (h e)"
  shows "prof_agnostic (py_catch m h)"
proof (rule prof_agnosticI)
  fix w v r w' assume sim: "prof_sim w v" and run: "py_catch m h w = (r, w')"
  obtain r1 w1 where m: "m w = (r1, w1)" by (cases "m w")
  from assms(1) sim m obtain v1 where v1: "m v = (r1, v1)" "prof_sim w1 v1" by (rule prof_agnosticD)
  show "\<exists>v'. py_catch m h v = (r, v') \<and> prof_sim w' v'"
  proof (cases r1)
    case (Inl e)
    with run m have "h e w1 = (r, w')" by (simp add: py_catch_run)
    with assms(2) v1(2) obtain v' where "h e v1 = (r, v')" "prof_sim w' v'" by (rule prof_agnosticD)
    with Inl v1(1) show ?thesis by (simp add: py_catch_run)
  next
    case (Inr x)
    with run m v1 show ?thesis by (auto simp: py_catch_run)
  qed
qed

lemma agnostic_get_world [agnostic]: "prof_agnostic (py_get w_alloc)" "prof_agnostic (py_get w_dev)"
  by (simp_all add: prof_agnostic_def prof_sim_def)

lemma agnostic_flush [agnostic]: "prof_agnostic (flush_touched t)"
  by (cases t) (auto simp: prof_agnostic_def flush_touched_def prof_sim_def)

lemma agnostic_call [agnostic]: "prof_agnostic (call_native lib symb args bufs)"
  by (auto simp: prof_agnostic_def call_native_def prof_sim_def split: prod.splits)

lemma field_keys [simp]: "field_key ''bytes_read''" "field_key ''bytes_written''"
  by (simp_all add: field_key_def reserved_keys_def us_suffix_def)

lemma agnostic_counts [agnostic]:
  "prof_agnostic (timer_add ''bytes_read'' n)" "prof_agnostic (timer_add ''bytes_written'' n)"
  by (simp_all add: agnostic_add)

lemma agnostic_sections [agnostic]:
  "prof_agnostic m \<Longrightarrow> prof_agnostic (timer_section env ''read'' m)"
  "prof_agnostic m \<Longrightarrow> prof_agnostic (timer_section env ''compute'' m)"
  "prof_agnostic m \<Longrightarrow> prof_agnostic (timer_section env ''write'' m)"
  by (simp_all add: agnostic_section)

lemma agnostic_split [agnostic]: "(\<And>a b. prof_agnostic (f a b)) \<Longrightarrow> prof_agnostic (case p of (a, b) \<Rightarrow> f a b)"
  by (cases p) simp

lemma agnostic_split_fun: "(\<And>a b. prof_agnostic (f a b w)) \<Longrightarrow> prof_agnostic ((case p of (a, b) \<Rightarrow> f a b) w)"
  by (cases p) simp

lemma agnostic_if [agnostic]: "prof_agnostic m \<Longrightarrow> prof_agnostic n \<Longrightarrow> prof_agnostic (if b then m else n)"
  by simp

lemma agnostic_case_option [agnostic]:
  "prof_agnostic m \<Longrightarrow> (\<And>x. prof_agnostic (f x)) \<Longrightarrow> prof_agnostic (case p of None \<Rightarrow> m | Some x \<Rightarrow> f x)"
  by (cases p) auto

lemma agnostic_case_sum [agnostic]:
  "(\<And>x. prof_agnostic (f x)) \<Longrightarrow> (\<And>x. prof_agnostic (g x)) \<Longrightarrow> prof_agnostic (case p of Inl x \<Rightarrow> f x | Inr x \<Rightarrow> g x)"
  by (cases p) auto

lemma agnostic_in_ptr [agnostic]: "prof_agnostic (readable_base h off n bufs)" "prof_agnostic (in_ptr env h off n bufs)"
proof -
  show b: "prof_agnostic (readable_base h off n bufs)"
    unfolding readable_base_def get_slab_pointer_def
    by (intro agnostic) (auto split: pyerror.splits intro!: agnostic)
  show "prof_agnostic (in_ptr env h off n bufs)"
    unfolding in_ptr_def by (intro agnostic b)
qed

lemma agnostic_out_ptr [agnostic]: "prof_agnostic (out_ptr h off n bufs fs)"
  unfolding out_ptr_def writable_base_def get_slab_pointer_def by (intro agnostic)

lemma agnostic_in_fields [agnostic]: "prof_agnostic (in_fields env op fs bufs)"
proof (induction fs arbitrary: bufs)
  case Nil
  show ?case unfolding in_fields.simps by (rule agnostic_pure)
next
  case (Cons f fs)
  obtain a b c where f: "f = (a, b, c)" by (cases f)
  show ?case unfolding f in_fields.simps in_field_def by (intro agnostic Cons.IH)
qed

lemma agnostic_finalizers [agnostic]: "prof_agnostic (run_finalizers env bufs fs)"
  unfolding run_finalizers_def run_finalizer_def by (intro agnostic)

lemma agnostic_glue [agnostic]: "prof_agnostic (glue env lib symb op ins n args)"
  unfolding glue_def out_field_def checked_call_def by (intro agnostic)

lemma agnostic_copies [agnostic]:
  "prof_agnostic (ps_read env h off n)" "prof_agnostic (ps_write env h off bs)"
  unfolding ps_read_def ps_write_def by (intro agnostic)+

lemma agnostic_scratch [agnostic]:
  "prof_agnostic (slab_pointer_or_scratch palloc key h off n)" "prof_agnostic (scratch_writeback own)"
  unfolding slab_pointer_or_scratch_def scratch_writeback_def get_slab_pointer_def by (intro agnostic)+

lemma agnostic_get_rows_loop [agnostic]: "prof_agnostic (get_rows_loop lib p idx is acc)"
proof (induction "is" arbitrary: acc)
  case Nil
  show ?case unfolding get_rows_loop.simps by (rule agnostic_pure)
next
  case (Cons i "is")
  show ?case unfolding get_rows_loop.simps get_rows_row_def get_rows_src_ptr_def get_rows_dst_ptr_def get_slab_pointer_def
      checked_call_def Let_def
    by (intro agnostic Cons.IH)
qed

lemma agnostic_set_rows_loop [agnostic]: "prof_agnostic (set_rows_loop lib p idx src j is st n)"
proof (induction "is" arbitrary: st n)
  case Nil
  show ?case unfolding set_rows_loop.simps by (rule agnostic_pure)
next
  case (Cons i "is")
  have "prof_agnostic (write_row lib h off m a d k st)" for h off m a d k st
    unfolding write_row_def by (intro agnostic)
  then have "prof_agnostic (set_rows_row lib p idx src j i st)"
    unfolding set_rows_row_def Let_def by (intro agnostic agnostic_split_fun)
  then show ?case unfolding set_rows_loop.simps by (intro agnostic Cons.IH)
qed

lemma agnostic_kernels [agnostic]:
  "prof_agnostic (copy_run env ol op)" "prof_agnostic (matmul_run env lib op)" "prof_agnostic (binary_run env lib symb op)"
  "prof_agnostic (scale_run env lib op)" "prof_agnostic (unary_run env lib symb op)" "prof_agnostic (swiglu_run env lib op)"
  "prof_agnostic (rms_norm_run env lib op)" "prof_agnostic (rms_norm_mul_run env lib op)" "prof_agnostic (rope_run env lib op)"
  "prof_agnostic (flash_run env palloc lib op)" "prof_agnostic (get_rows_run env lib op)" "prof_agnostic (set_rows_run env lib op)"
  unfolding copy_run_def copy_cvt_def copy_raw_def matmul_run_def binary_run_def scale_run_def unary_run_def swiglu_run_def
    rms_norm_run_def rms_norm_mul_run_def rope_run_def flash_run_def flash_ptrs_def flash_field_def checked_call_def
    get_rows_run_def set_rows_run_def Let_def
  by (intro agnostic)+

section \<open>Kernels change bytes, never the shape of the heap\<close>

text \<open>
  The contract of native code: it changes bytes of slabs and of buffers, not their number,
  sizes or addresses.
\<close>

definition clib_shape :: "clib \<Rightarrow> bool" where
  "clib_shape lib \<longleftrightarrow> (\<forall>symb args m. let m' = snd (cl_call lib symb args m) in
     list_all2 slab_similar (cm_slabs m) (cm_slabs m') \<and> map length (cm_bufs m') = map length (cm_bufs m))"

definition shape_kept :: "'d world \<Rightarrow> 'd world \<Rightarrow> bool" where
  "shape_kept w w' \<longleftrightarrow> (alloc_inv (w_alloc w) \<longrightarrow> same_shape (w_alloc w) (w_alloc w')) \<and>
     tm_profile (w_timer w') = tm_profile (w_timer w)"

lemma shape_kept_reflp: "reflp shape_kept"
  by (simp add: reflp_def shape_kept_def)

lemma shape_kept_transp: "transp shape_kept"
  by (rule transpI) (auto simp: shape_kept_def dest: same_shape_inv intro: same_shape_trans)

lemma shape_kept_inv: "py_keeps shape_kept m \<Longrightarrow> py_keeps inv_kept m"
  by (auto simp: py_keeps_def shape_kept_def inv_kept_def dest: same_shape_inv)

named_theorems shape \<open>computations that keep the shape of the heap\<close>

lemmas shape_basic [shape] = py_keeps_pure [OF shape_kept_reflp] py_keeps_bind [OF shape_kept_transp]
  py_keeps_then [OF shape_kept_transp] py_keeps_for [OF shape_kept_reflp shape_kept_transp]
  py_keeps_finally [OF shape_kept_transp] py_keeps_when [OF shape_kept_reflp] py_keeps_catch [OF shape_kept_transp]

lemma shape_cases [shape]:
  "(\<And>a b. py_keeps shape_kept (f a b)) \<Longrightarrow> py_keeps shape_kept (case p of (a, b) \<Rightarrow> f a b)"
  "py_keeps shape_kept m \<Longrightarrow> py_keeps shape_kept n \<Longrightarrow> py_keeps shape_kept (if b then m else n)"
  "py_keeps shape_kept m \<Longrightarrow> (\<And>x. py_keeps shape_kept (g x)) \<Longrightarrow> py_keeps shape_kept (case q of None \<Rightarrow> m | Some x \<Rightarrow> g x)"
  by (auto split: prod.split option.split)

lemma shape_same_alloc:
  "(\<And>w r w'. m w = (r, w') \<Longrightarrow> w_alloc w' = w_alloc w \<and> tm_profile (w_timer w') = tm_profile (w_timer w)) \<Longrightarrow>
   py_keeps shape_kept m"
  by (rule py_keepsI) (simp add: shape_kept_def)

lemma shape_upd_timer [shape]:
  "(\<And>t. tm_profile (f t) = tm_profile t) \<Longrightarrow> py_keeps shape_kept (upd_timer f)"
  by (rule shape_same_alloc) (auto simp: upd_timer_def)

lemma add_field_profile [simp]: "tm_profile (add_field key v t) = tm_profile t"
  by (simp add: add_field_def Let_def split: option.splits)

lemma shape_profiler [shape]:
  "py_keeps shape_kept (perf_counter_ns env)" "py_keeps shape_kept (emit env ev kws)" "py_keeps shape_kept (timer_add key v)"
  "py_keeps shape_kept (on_dev d)"
  by (rule shape_same_alloc; auto simp: perf_counter_ns_def upd_timer_def timer_add_def on_dev_def emit_def
      split: prod.splits if_splits)+

lemma shape_section [shape]: "py_keeps shape_kept body \<Longrightarrow> py_keeps shape_kept (timer_section env n body)"
  unfolding timer_section_def section_profiled_def section_end_def us_since_def
  by (intro shape) (auto simp: Let_def split: option.splits)

lemma shape_alloc_ops [shape]:
  "py_keeps shape_kept (on_alloc (read_tensor h off n c))" "py_keeps shape_kept (on_alloc (write_tensor h off bs c))"
  by (rule py_keepsI; auto simp: on_alloc_def shape_kept_def split: prod.splits dest: read_tensor_shape write_tensor_shape)+

lemma call_native_run:
  assumes "clib_shape lib" "call_native lib symb args bufs w = (r, w')"
  obtains rc bufs' where "r = Inr (rc, bufs')" "map length bufs' = map length bufs" "same_shape (w_alloc w) (w_alloc w')"
    "w_timer w' = w_timer w"
proof -
  let ?m = "\<lparr>cm_slabs = al_slabs (w_alloc w), cm_bufs = bufs, cm_scratch = scratch_bufs (w_dev w)\<rparr>"
  obtain rc m' where c: "cl_call lib symb args ?m = (rc, m')" by (cases "cl_call lib symb args ?m")
  have "list_all2 slab_similar (al_slabs (w_alloc w)) (cm_slabs m')" "map length (cm_bufs m') = map length bufs"
    using assms(1) c unfolding clib_shape_def by (metis cmem.select_convs(1,2) snd_conv)+
  with assms(2) c show ?thesis by (intro that [of rc "cm_bufs m'"]) (auto simp: call_native_def same_shape_def)
qed

lemma shape_call [shape]: "clib_shape lib \<Longrightarrow> py_keeps shape_kept (call_native lib symb args bufs)"
  by (rule py_keepsI) (auto simp: shape_kept_def elim: call_native_run)

lemma shape_checked [shape]: "clib_shape lib \<Longrightarrow> py_keeps shape_kept (checked_call lib symb args bufs)"
  unfolding checked_call_def by (intro shape)

lemma shape_pointers [shape]:
  "py_keeps shape_kept (get_slab_pointer h off n)" "py_keeps shape_kept (readable_base h off n bufs)"
  "py_keeps shape_kept (writable_base h off n bufs)" "py_keeps shape_kept (out_ptr h off n bufs fs)"
  "py_keeps shape_kept (slab_pointer_or_scratch palloc key h off n)" "py_keeps shape_kept (scratch_writeback own)"
  "py_keeps shape_kept (get_rows_src_ptr h off n bufs)" "py_keeps shape_kept (get_rows_dst_ptr h off n bufs)"
proof -
  show "py_keeps shape_kept (readable_base h off n bufs)"
    unfolding readable_base_def get_slab_pointer_def by (intro shape) (auto split: pyerror.splits intro!: shape)
qed (unfold writable_base_def out_ptr_def get_slab_pointer_def slab_pointer_or_scratch_def scratch_writeback_def
      get_rows_src_ptr_def get_rows_dst_ptr_def, (intro shape)+)

lemma shape_in_fields [shape]: "py_keeps shape_kept (in_fields env op fs bufs)"
proof (induction fs arbitrary: bufs)
  case (Cons f fs)
  obtain a b c where f: "f = (a, b, c)" by (cases f)
  show ?case unfolding f in_fields.simps in_field_def in_ptr_def by (intro shape Cons.IH)
qed (unfold in_fields.simps, intro shape)

lemma shape_glue [shape]: "clib_shape lib \<Longrightarrow> py_keeps shape_kept (glue env lib symb op ins n args)"
  unfolding glue_def out_field_def run_finalizers_def run_finalizer_def by (intro shape)

lemma shape_copies [shape]:
  "py_keeps shape_kept (ps_read env h off n)" "py_keeps shape_kept (ps_write env h off bs)"
  unfolding ps_read_def ps_write_def by (intro shape)+

lemma shape_get_rows_loop [shape]:
  "clib_shape lib \<Longrightarrow> py_keeps shape_kept (get_rows_loop lib p idx is acc)"
proof (induction "is" arbitrary: acc)
  case (Cons i "is")
  show ?case unfolding get_rows_loop.simps get_rows_row_def Let_def by (intro shape Cons)
qed (unfold get_rows_loop.simps, intro shape)

text \<open>The rows of \<open>SET_ROWS\<close>: the scratch row keeps its length, so no write changes the size of a slab.\<close>

lemma slab_write_at_shape:
  assumes inv: "alloc_inv a" and i: "i < length (al_slabs a)" and off: "0 \<le> off"
    and fits: "off + int (length bs) \<le> slab_size (al_slabs a ! i)" and run: "slab_write_at i off bs a = (r, a')"
  shows "same_shape a a'"
proof -
  let ?s = "al_slabs a ! i"
  have "int (length (buf ?s)) = slab_size ?s" using inv i by (simp add: alloc_inv_def slabs_ok_def)
  with fits have fits': "off + int (length bs) \<le> int (length (buf ?s))" by simp
  from slab_write_in [OF off fits', of True] length_slice_assign [OF off fits'] obtain s where
    "slab_write ?s off bs True = Inr s" "slab_similar ?s s" by (auto simp: slab_similar_def)
  with run i show ?thesis by (auto simp: slab_write_at_def intro: set_slab_same_shape)
qed

lemma write_row_shape:
  assumes lib: "clib_shape lib" and j: "j < length bufs" "int (length (bufs ! j)) = n"
    and run: "write_row lib h off n src d j (bufs, t) w = (r, w')"
  shows "shape_kept w w' \<and> (\<forall>bufs' t'. r = Inr (bufs', t') \<longrightarrow> map length bufs' = map length bufs)"
proof (cases "alloc_inv (w_alloc w)")
  case inv: True
  let ?a = "w_alloc w"
  have len: "int (length (bufs' ! j)) = n" if "map length bufs' = map length bufs" for bufs' :: "byte list list"
    using j arg_cong [OF that, of "\<lambda>xs. xs ! j"] arg_cong [OF that, of length] by simp
  show ?thesis
  proof (cases "slab_view ?a h off n")
    case (Inl e)
    have k: "py_keeps shape_kept (py_bind (call_native lib ROW_SYMBOL [CPtr (PBuf j 0), CPtr src, c_uint32 d] bufs) (\<lambda>(rc, bufs1).
        py_then (on_alloc (write_tensor h off (bufs1 ! j) True)) (py_ret (bufs1, t))))"
      using lib by (intro shape)
    from run Inl show ?thesis
      by (auto simp: write_row_def py_bind_run [of "py_get w_alloc"] split: if_splits dest: py_keepsD [OF k])
         (auto simp: py_simps shape_kept_def split: sum.splits prod.splits elim!: call_native_run [OF lib])
  next
    case (Inr v)
    obtain i x k where v: "v = (i, x, k)" by (cases v)
    from slab_view_spec [OF inv] Inr v have
      view: "i < length (al_slabs ?a)" "0 \<le> x" "x + n \<le> slab_size (al_slabs ?a ! i)" by blast+
    show ?thesis
    proof (cases "base_va (al_slabs ?a ! i)")
      case (Some b)
      with run Inr v show ?thesis
        by (auto simp: write_row_def py_simps shape_kept_def split: sum.splits prod.splits elim!: call_native_run [OF lib])
    next
      case None
      obtain r1 w1 where c: "call_native lib ROW_SYMBOL [CPtr (PBuf j 0), CPtr src, c_uint32 d] bufs w = (r1, w1)"
        by (cases "call_native lib ROW_SYMBOL [CPtr (PBuf j 0), CPtr src, c_uint32 d] bufs w")
      from call_native_run [OF lib c] obtain rc bufs' where
        b: "r1 = Inr (rc, bufs')" "map length bufs' = map length bufs" "same_shape ?a (w_alloc w1)" "w_timer w1 = w_timer w" .
      have sim: "slab_similar (al_slabs ?a ! i) (al_slabs (w_alloc w1) ! i)" "length (al_slabs (w_alloc w1)) = length (al_slabs ?a)"
        using b(3) view(1) by (auto simp: same_shape_def list_all2_conv_all_nth)
      have "same_shape (w_alloc w1) a'" if "slab_write_at i x (bufs' ! j) (w_alloc w1) = (r', a')" for r' a'
        using that b(2) len view sim
        by (intro slab_write_at_shape [OF same_shape_inv [OF b(3) inv]]) (auto simp: slab_similar_def)
      with run Inr v None c b show ?thesis
        by (auto simp: write_row_def py_simps on_alloc_def shape_kept_def split: sum.splits prod.splits dest: same_shape_trans)
    qed
  qed
next
  case False
  have "tm_profile (w_timer w') = tm_profile (w_timer w)"
    using run
    by (auto simp: write_row_def py_simps on_alloc_def split: sum.splits prod.splits if_splits option.splits elim!: call_native_run [OF lib])
  with False have "shape_kept w w'" by (simp add: shape_kept_def)
  moreover have "map length bufs' = map length bufs" if "r = Inr (bufs', t')" for bufs' t'
    using run that
    by (auto simp: write_row_def py_simps split: sum.splits prod.splits if_splits option.splits elim!: call_native_run [OF lib])
  ultimately show ?thesis by blast
qed

lemma set_rows_loop_shape:
  assumes "clib_shape lib"
  shows "j < length bufs \<Longrightarrow> int (length (bufs ! j)) = sr_head_dim p * 2 \<Longrightarrow>
    set_rows_loop lib p idx src j is (bufs, t) n w = (r, w') \<Longrightarrow> shape_kept w w'"
proof (induction "is" arbitrary: bufs t n w)
  case Nil
  then show ?case by (auto simp: shape_kept_def)
next
  case (Cons i "is")
  obtain r1 w1 where row: "set_rows_row lib p idx src j i (bufs, t) w = (r1, w1)"
    by (cases "set_rows_row lib p idx src j i (bufs, t) w")
  have R: "shape_kept w w1 \<and> (\<forall>bufs' t'. r1 = Inr (bufs', t') \<longrightarrow> map length bufs' = map length bufs)"
  proof (cases "\<exists>off a. write_row lib (fst (sr_dst p)) off (sr_head_dim p * 2) a (sr_head_dim p) j (bufs, t) w = (r1, w1)")
    case True
    with write_row_shape [OF assms Cons.prems(1,2)] show ?thesis by blast
  next
    case False
    with row show ?thesis by (auto simp: set_rows_row_def Let_def shape_kept_def split: prod.splits if_splits)
  qed
  show ?case
  proof (cases r1)
    case (Inl e)
    with R row Cons.prems(3) show ?thesis by (simp add: py_simps)
  next
    case (Inr st)
    obtain bufs' t' where st: "st = (bufs', t')" by (cases st)
    then have m: "map length bufs' = map length bufs" using R Inr by blast
    have "j < length bufs'" "length (bufs' ! j) = length (bufs ! j)"
      using arg_cong [OF m, of length] arg_cong [OF m, of "\<lambda>xs. xs ! j"] Cons.prems(1) by auto
    then have "shape_kept w1 w'"
      using Cons.prems row Inr st by (intro Cons.IH [of bufs' t' "n + 1" w1]) (auto simp: py_simps)
    with R shape_kept_transp show ?thesis by (blast dest: transpD)
  qed
qed

lemma shape_flush [shape]: "py_keeps shape_kept (flush_touched t)"
proof -
  obtain i lo hi where t: "t = (i, lo, hi)" by (cases t)
  have "same_shape a (set_slab i (slab_flush_range (al_slabs a ! i) lo (hi - lo)) a)" for a
  proof (cases "i < length (al_slabs a)")
    case True
    moreover have "slab_similar s (slab_flush_range s lo (hi - lo))" for s
      by (cases "kind s") (simp_all add: slab_flush_range_def slab_similar_def)
    ultimately show ?thesis by (rule set_slab_same_shape)
  qed (simp add: set_slab_def not_less list_update_beyond)
  then show ?thesis unfolding t by (intro py_keepsI) (auto simp: flush_touched_def shape_kept_def)
qed

lemma py_bind_lift_Inr: "py_bind (py_lift (Inr x)) f = f x"
  by (simp add: fun_eq_iff py_bind_run)

lemma positive_head_dim: "set_rows_parse env op = Inr p \<Longrightarrow> 0 < sr_head_dim p"
  by (auto simp: set_rows_parse_def set_rows_layout_def Let_def bindR_eq_Inr dest!: positive_int_pos split: if_splits)

lemma shape_set_rows [shape]:
  assumes "clib_shape lib"
  shows "py_keeps shape_kept (set_rows_run env lib op)"
proof (cases "set_rows_parse env op")
  case (Inl e)
  then show ?thesis by (intro py_keepsI) (simp add: set_rows_run_def py_simps shape_kept_def)
next
  case (Inr p)
  have hd: "0 < sr_head_dim p" using Inr by (rule positive_head_dim)
  have "py_keeps shape_kept (set_rows_loop lib p idx src (length bufs) is (bufs @ [replicate (nat (sr_head_dim p * 2)) 0], []) 0)"
    for idx src "is" bufs
    using hd by (intro py_keepsI) (rule set_rows_loop_shape [OF assms, rotated 2], auto simp: nth_append)
  then show ?thesis
    unfolding set_rows_run_def Let_def Inr py_bind_lift_Inr by (intro shape)
qed

lemma shape_kernels [shape]:
  assumes "clib_shape lib"
  shows "py_keeps shape_kept (copy_run env (Some lib) op)" "py_keeps shape_kept (matmul_run env lib op)"
  "py_keeps shape_kept (binary_run env lib symb op)"
  "py_keeps shape_kept (scale_run env lib op)" "py_keeps shape_kept (unary_run env lib symb op)" "py_keeps shape_kept (swiglu_run env lib op)"
  "py_keeps shape_kept (rms_norm_run env lib op)" "py_keeps shape_kept (rms_norm_mul_run env lib op)" "py_keeps shape_kept (rope_run env lib op)"
  "py_keeps shape_kept (flash_run env palloc lib op)" "py_keeps shape_kept (get_rows_run env lib op)"
  unfolding copy_run_def copy_cvt_def copy_raw_def matmul_run_def binary_run_def scale_run_def unary_run_def swiglu_run_def
    rms_norm_run_def rms_norm_mul_run_def rope_run_def flash_run_def flash_ptrs_def flash_field_def get_rows_run_def Let_def
    option.case
  by (intro shape assms)+

section \<open>The registry\<close>

lemma update_values: "snd ` set (AList.update k v al) \<subseteq> insert v (snd ` set al)"
  by (induction al) auto

lemma register_one_set:
  "register_one lib k reg = (r, reg') \<Longrightarrow> snd ` set reg' \<subseteq> insert (snd k) (snd ` set reg)"
  using update_values [of "k_name (snd k)" "snd k" reg]
  by (cases k) (auto simp: register_one_def register_def split: if_splits)

lemma register_for_set:
  "py_for ks (register_one lib) reg = (r, reg') \<Longrightarrow> snd ` set reg' \<subseteq> snd ` set ks \<union> snd ` set reg"
proof (induction ks arbitrary: reg)
  case (Cons k ks)
  obtain r1 reg1 where k: "register_one lib k reg = (r1, reg1)" by (cases "register_one lib k reg")
  note s = register_one_set [OF k]
  show ?case
  proof (cases r1)
    case (Inl e)
    with Cons.prems k s show ?thesis by (auto simp: py_simps)
  next
    case (Inr u)
    with Cons.prems k have "py_for ks (register_one lib) reg1 = (r, reg')" by (simp add: py_simps)
    from Cons.IH [OF this] s show ?thesis by auto
  qed
qed simp

lemma list_all_values: "list_all (\<lambda>p. P (snd p)) xs \<Longrightarrow> k \<in> snd ` set xs \<Longrightarrow> P k"
  by (auto simp: list_all_iff)

lemma ps_kernels_sync:
  assumes "k \<in> snd ` set (ps_kernels env palloc lib)"
  shows "k_run_async k = None" "k_backend k = None" "k_complete k = (\<lambda>_. py_raise AttributeError)"
  using assms
  by (rule list_all_values [rotated], simp add: ps_kernels_def ps_kernel_def)+

lemma ps_kernels_agnostic:
  assumes "k \<in> snd ` set (ps_kernels env palloc lib)"
  shows "\<forall>op. prof_agnostic (k_run k op)"
  by (rule list_all_values [OF _ assms])
     (unfold ps_kernels_def list.pred_inject snd_conv ps_kernel_def kernel.select_convs, intro conjI allI list.pred_inject(1) agnostic)

lemma ps_kernels_shape:
  assumes "clib_shape lib" "k \<in> snd ` set (ps_kernels env palloc lib)"
  shows "\<forall>op. py_keeps shape_kept (k_run k op)"
  by (rule list_all_values [OF _ assms(2)])
     (unfold ps_kernels_def list.pred_inject snd_conv ps_kernel_def kernel.select_convs, intro conjI allI list.pred_inject(1) shape assms(1))

lemma ps_kernel_agnostic:
  assumes "k \<in> snd ` set (ps_kernels env palloc lib)"
  shows "kernel_agnostic k"
  using ps_kernels_agnostic [OF assms] ps_kernels_sync [OF assms] by (simp add: kernel_agnostic_def agnostic)

lemma ps_kernel_keeps:
  assumes "clib_shape lib" "k \<in> snd ` set (ps_kernels env palloc lib)"
  shows "kernel_keeps k"
  using ps_kernels_shape [OF assms] ps_kernels_sync [OF assms(2)] keeps_inv(2)
  by (auto simp: kernel_keeps_def shape_kept_inv)

lemma register_all_set:
  assumes "register_all env palloc files path reg = (Inr u, reg')"
  obtains lib where "load_lib files path = Inr lib"
    "snd ` set reg' \<subseteq> snd ` set (ps_kernels env palloc lib) \<union> snd ` set reg"
proof (cases "load_lib files path")
  case (Inl e)
  with assms show ?thesis by (simp add: register_all_def py_simps)
next
  case (Inr lib)
  with assms have "py_for (ps_kernels env palloc lib) (register_one lib) reg = (Inr u, reg')"
    by (simp add: register_all_def py_simps)
  from register_for_set [OF this] show ?thesis by (rule that [OF Inr])
qed

definition ps_registry :: "pyenv \<Rightarrow> pynq_allocate \<Rightarrow> clib \<Rightarrow> ('e ps_state_scheme, 'p) registry" where
  "ps_registry env palloc lib = map (\<lambda>(symbs, knl). (k_name knl, knl)) (ps_kernels env palloc lib)"

lemma update_new: "k \<notin> fst ` set al \<Longrightarrow> AList.update k v al = al @ [(k, v)]"
  by (induction al) auto

lemma register_for_new:
  assumes "list_all (cl_has lib) (concat (map fst ks))" "distinct (map fst reg @ map (\<lambda>(symbs, knl). k_name knl) ks)"
  shows "py_for ks (register_one lib) reg = (Inr (), reg @ map (\<lambda>(symbs, knl). (k_name knl, knl)) ks)"
  using assms
proof (induction ks arbitrary: reg)
  case (Cons k ks)
  obtain symbs knl where k: "k = (symbs, knl)" by (cases k)
  have "register_one lib k reg = (Inr (), reg @ [(k_name knl, knl)])"
    using Cons.prems by (auto simp: k register_one_def register_def update_new)
  with Cons.IH [of "reg @ [(k_name knl, knl)]"] Cons.prems show ?case by (auto simp: k py_simps)
qed simp

lemma register_for_missing:
  assumes "\<not> list_all (cl_has lib) (concat (map fst ks))"
  shows "fst (py_for ks (register_one lib) reg) = Inl AttributeError"
  using assms
proof (induction ks arbitrary: reg)
  case (Cons k ks)
  obtain symbs knl where k: "k = (symbs, knl)" by (cases k)
  show ?case
  proof (cases "list_all (cl_has lib) symbs")
    case True
    then have "register_one lib k reg = (Inr (), AList.update (k_name knl) knl reg)"
      by (simp add: k register_one_def register_def)
    with True Cons show ?thesis by (simp add: k py_simps)
  next
    case False
    then have "register_one lib k reg = (Inl AttributeError, reg)" by (simp add: k register_one_def)
    then show ?thesis by (simp add: py_simps)
  qed
qed simp

lemma ps_names_distinct: "distinct (map (\<lambda>(symbs, knl). k_name knl) (ps_kernels env palloc lib))"
  by (simp add: ps_kernels_def ps_kernel_def)

definition ps_symbols :: "string list" where
  "ps_symbols = [ROW_SYMBOL, ''bonsai_matmul_q1a8'', ''bonsai_add_f32'', ''bonsai_mul_f32'', ''bonsai_scale_f32'',
     ''bonsai_silu_f32'', ''bonsai_swiglu_f32'', ''bonsai_rms_norm_f32'', ''bonsai_rms_norm_mul_f32'', ''bonsai_rope_f32'',
     ''bonsai_flash_attn_ext_f32'', ''bonsai_get_rows_f32'', ''bonsai_get_rows_f16'', ''bonsai_get_rows_q1_0'', ROW_SYMBOL]"

lemma ps_kernels_symbols: "concat (map fst (ps_kernels env palloc lib)) = ps_symbols"
  by (simp add: ps_kernels_def ps_symbols_def get_rows_fns_def)

lemma register_all_ok:
  assumes "load_lib files path = Inr lib" "list_all (cl_has lib) ps_symbols"
  shows "register_all env palloc files path [] = (Inr (), ps_registry env palloc lib)"
  using register_for_new [of lib "ps_kernels env palloc lib" "[]"] assms
  by (simp add: register_all_def ps_registry_def py_simps ps_names_distinct ps_kernels_symbols)

lemma register_all_missing:
  assumes "load_lib files path = Inr lib" "\<not> list_all (cl_has lib) ps_symbols"
  shows "fst (register_all env palloc files path reg) = Inl AttributeError"
  using register_for_missing [of lib "ps_kernels env palloc lib" reg] assms
  by (simp add: register_all_def py_simps ps_kernels_symbols)

lemma register_all_registry:
  assumes "register_all env palloc files path [] = (Inr (), reg)"
  obtains lib where "load_lib files path = Inr lib" "reg = ps_registry env palloc lib"
proof (cases "load_lib files path")
  case (Inl e)
  with assms show ?thesis by (simp add: register_all_def py_simps)
next
  case (Inr lib)
  have all: "list_all (cl_has lib) ps_symbols"
  proof (rule ccontr)
    assume missing: "\<not> ?thesis"
    show False using arg_cong [OF assms, of fst] by (simp add: register_all_missing [OF Inr missing])
  qed
  have "reg = ps_registry env palloc lib" using assms by (simp add: register_all_ok [OF Inr all])
  then show ?thesis by (rule that [OF Inr])
qed

lemma ps_registry_kernels: "snd ` set (ps_registry env palloc lib) = snd ` set (ps_kernels env palloc lib)"
  by (force simp: ps_registry_def)

lemma ps_registry_agnostic: "registry_agnostic (ps_registry env palloc lib)"
  unfolding registry_agnostic_def ps_registry_kernels using ps_kernel_agnostic by blast

lemma ps_registry_keeps: "clib_shape lib \<Longrightarrow> registry_keeps (ps_registry env palloc lib)"
  unfolding registry_keeps_def ps_registry_kernels using ps_kernel_keeps by blast

section \<open>The scheduler on the PS registry\<close>

text \<open>No PS kernel is asynchronous, so nothing is ever in flight and the worlds of the two walks are equal.\<close>

interpretation ps_sched: async_kernels env "ps_registry env palloc lib" ops "\<lambda>_. {}" "\<lambda>_. {}" "(=)"
  "\<lambda>w. quiet w \<and> clib_shape lib" "\<lambda>_ _ _. False" for env palloc lib ops
proof -
  have sync: "k_run_async k \<noteq> Some f" if "serves env (ps_registry env palloc lib) op k" for op k f
    using serves_in [OF that] unfolding ps_registry_kernels by (simp add: ps_kernels_sync)
  have keeps: "quiet w'" if "serves env (ps_registry env palloc lib) op k" "clib_shape lib" "quiet w" "k_run k op w = (r, w')" for k op w r w'
  proof -
    have "py_keeps shape_kept (k_run k op)" using serves_in [OF that(1)] ps_kernels_shape [OF that(2)] unfolding ps_registry_kernels by blast
    from py_keepsD [OF this that(4)] that(3) show ?thesis by (auto simp: shape_kept_def quiet_def)
  qed
  show "async_kernels env (ps_registry env palloc lib) ops (\<lambda>_. {}) (\<lambda>_. {}) (=) (\<lambda>w. quiet w \<and> clib_shape lib) (\<lambda>_ _ _. False)"
    by unfold_locales (use sync keeps in \<open>simp_all add: agree_def reflp_def transp_def split: sum.split\<close>; blast?)+
qed

end
