(* ===== verification/PlSpec.thy ===== *)
theory PlSpec
  imports PlKernels PsSpec
begin

text \<open>
  What the PL drivers keep: they are agnostic of profiling, they change bytes and never the shape of the
  heap, the loop over the chunks ends, and so the registry that \<open>make_runtime\<close> builds, with or
  without a bitstream, satisfies what the scheduler and the daemon ask of it.
\<close>

section \<open>Profiling\<close>

lemma agnostic_get_dev [agnostic]: "prof_agnostic (py_get (\<lambda>w. f (w_dev w)))"
  by (simp add: prof_agnostic_def prof_sim_def)

lemma agnostic_call_pl [agnostic]: "prof_agnostic (call_pl lib symb args bufs)"
  by (auto simp: prof_agnostic_def call_pl_def prof_sim_def split: prod.splits)

lemma pl_field_keys [simp]:
  "field_key ''rows''" "field_key ''cols''" "field_key ''k''" "field_key ''matmul_cols''" "field_key ''rowblocks''"
  "field_key ''dma_bytes_read''" "field_key ''dma_bytes_written''" "field_key ''kernel_cycles''"
  by (simp_all add: field_key_def reserved_keys_def us_suffix_def)

lemma agnostic_pl_counts [agnostic]:
  "prof_agnostic (add_shape rows cols k)" "prof_agnostic (final_counts b c rb wn an rpb cy)"
  unfolding add_shape_def final_counts_def by (intro agnostic agnostic_add pl_field_keys)+

lemma agnostic_pl_sections [agnostic]:
  "prof_agnostic m \<Longrightarrow> prof_agnostic (timer_section env ''quantize'' m)"
  "prof_agnostic m \<Longrightarrow> prof_agnostic (timer_section env ''pack_acts'' m)"
  "prof_agnostic m \<Longrightarrow> prof_agnostic (timer_section env ''resolve_weights'' m)"
  "prof_agnostic m \<Longrightarrow> prof_agnostic (timer_section env ''run_chunk'' m)"
  "prof_agnostic m \<Longrightarrow> prof_agnostic (timer_section env ''chunk_start'' m)"
  "prof_agnostic m \<Longrightarrow> prof_agnostic (timer_section env ''chunk_wait'' m)"
  "prof_agnostic m \<Longrightarrow> prof_agnostic (timer_section env ''result_invalidate'' m)"
  "prof_agnostic m \<Longrightarrow> prof_agnostic (timer_section env ''result_copy'' m)"
  "prof_agnostic m \<Longrightarrow> prof_agnostic (timer_section env ''flush'' m)"
  "prof_agnostic m \<Longrightarrow> prof_agnostic (timer_section env ''invalidate'' m)"
  by (simp_all add: agnostic_section)

lemma agnostic_buffers [agnostic]:
  "prof_agnostic (get_cma role e)" "prof_agnostic (flush_cma role)" "prof_agnostic (call_bound host symb args bufs)"
  "prof_agnostic (checked_pl host symb args bufs)" "prof_agnostic (invalidate_slab i off n)" "prof_agnostic (flush_slab i off n)"
  "prof_agnostic (resolve_slab_pointer host h off n kd)" "prof_agnostic (resolve_weights_phys h off n)"
  unfolding get_cma_def flush_cma_def call_bound_def checked_pl_def invalidate_slab_def flush_slab_def resolve_slab_pointer_def
    copy_to_cma_scratch_def get_slab_pointer_def resolve_weights_phys_def Let_def
  by (intro agnostic)+

lemma agnostic_dual_stream [agnostic]:
  "prof_agnostic (run_matmul_dual_stream env host h off n an pa rn q rb df)" "prof_agnostic (wait_chunk_deferred env host cells)"
  "prof_agnostic (quantize_column env host addr k bufs)" "prof_agnostic (pack_column env host va k bufs)"
  "prof_agnostic (read_acts_addr env host op n)"
  unfolding run_matmul_dual_stream_def wait_chunk_deferred_def call_wait_def call_start_def quantize_column_def pack_column_def
    read_acts_addr_def
  by (intro agnostic)+

lemma agnostic_run_chunk [agnostic]: "prof_agnostic (run_chunk env host job col rs rbs dirty)"
  unfolding run_chunk_def copy_result_def Let_def by (intro agnostic)

lemma agnostic_chunk_loop [agnostic]: "prof_agnostic (chunk_loop fuel env host job col rs rbs st)"
proof (induction fuel arbitrary: rs rbs st)
  case 0
  show ?case by (cases st) (auto simp: chunk_loop.simps [of 0] intro: agnostic)
next
  case (Suc n)
  obtain c d where st: "st = (c, d)" by (cases st)
  show ?case unfolding st chunk_loop.simps [of "Suc n"] nat.case by (intro agnostic Suc.IH)
qed

lemma agnostic_run_columns [agnostic]: "prof_agnostic (run_columns env host job va cols bufs st)"
proof (induction cols arbitrary: bufs st)
  case (Cons c cols)
  show ?case unfolding run_columns.simps run_column_def by (intro agnostic Cons.IH)
qed (unfold run_columns.simps, rule agnostic_pure)

lemma agnostic_pl_kernels [agnostic]:
  "prof_agnostic (pl_matmul_run env host op)" "prof_agnostic (pl_matmul_complete env host p)" "prof_agnostic (pl_loopback_run env host op)"
proof -
  have "prof_agnostic (dma_do host cmd)" for cmd
    by (auto simp: prof_agnostic_def dma_do_def prof_sim_def split: prod.splits)
  then show "prof_agnostic (pl_loopback_run env host op)"
    unfolding pl_loopback_run_def get_slab_view_def loopback_transfer_def need_pynq_def by (intro agnostic)
qed (unfold pl_matmul_run_def run_job_def invalidate_dirty_def pl_matmul_complete_def Let_def, (intro agnostic)+)

lemma agnostic_pl_async [agnostic]: "prof_agnostic (pl_matmul_run_async env host op)"
  unfolding pl_matmul_run_async_def fall_back_def issue_matmul_def Let_def by (intro agnostic)

section \<open>The shape of the heap\<close>

text \<open>The contract of the PL entry points and of a DMA: they change bytes of slabs, not their number, sizes or addresses.\<close>

definition pl_files_shape :: "'h pl_host \<Rightarrow> bool" where
  "pl_files_shape host \<longleftrightarrow> (\<forall>p lib. ph_files host p = Some lib \<longrightarrow> clib_shape (clib.truncate lib) \<and>
     (\<forall>symb args m. list_all2 slab_similar (pm_slabs m) (pm_slabs (snd (cl_pl_call lib symb args m)))))"

definition overlay_shape :: "'h overlay \<Rightarrow> bool" where
  "overlay_shape ov \<longleftrightarrow> (\<forall>cmd slabs hw. list_all2 slab_similar slabs (fst (snd (ov_dma ov cmd slabs hw))))"

lemma bound_lib_shape:
  assumes "pl_files_shape host" "bound_lib host d = Inr lib"
  shows "list_all2 slab_similar (pm_slabs m) (pm_slabs (snd (cl_pl_call lib symb args m)))"
  using assms unfolding pl_files_shape_def
  by (auto simp: bound_lib_def load_lib_def split: if_splits option.splits)

lemma shape_call_bound [shape]:
  assumes "pl_files_shape host"
  shows "py_keeps shape_kept (call_bound host symb args bufs)"
proof (rule py_keepsI)
  fix w r w' assume run: "call_bound host symb args bufs w = (r, w')"
  show "shape_kept w w'"
  proof (cases "bound_lib host (w_dev w)")
    case (Inl e)
    with run show ?thesis by (simp add: call_bound_def py_simps shape_kept_def)
  next
    case (Inr lib)
    let ?m = "\<lparr>pm_slabs = al_slabs (w_alloc w), pm_bufs = bufs, pm_cma = pl_cma (w_dev w), pm_hw = pl_hw (w_dev w)\<rparr>"
    have "list_all2 slab_similar (al_slabs (w_alloc w)) (pm_slabs (snd (cl_pl_call lib symb args ?m)))"
      using bound_lib_shape [OF assms Inr, of ?m symb args] by simp
    with run Inr show ?thesis
      by (auto simp: call_bound_def call_pl_def py_simps shape_kept_def same_shape_def split: prod.splits)
  qed
qed

lemma shape_set_slab:
  assumes "\<And>s. slab_similar s (f s)"
  shows "py_keeps shape_kept (on_alloc (py_mod (\<lambda>a. set_slab i (f (al_slabs a ! i)) a)))"
proof -
  have "same_shape a (set_slab i (f (al_slabs a ! i)) a)" for a
  proof (cases "i < length (al_slabs a)")
    case True
    then show ?thesis using assms by (rule set_slab_same_shape)
  qed (simp add: set_slab_def not_less list_update_beyond)
  then show ?thesis by (intro py_keepsI) (auto simp: on_alloc_def shape_kept_def)
qed

lemma shape_slab_cache [shape]:
  "py_keeps shape_kept (invalidate_slab i off n)" "py_keeps shape_kept (flush_slab i off n)"
  unfolding invalidate_slab_def flush_slab_def
  by (rule shape_set_slab, simp add: slab_invalidate_range_def slab_flush_range_def slab_similar_def split: slab_kind.splits)+

lemma shape_pl_buffers [shape]:
  "py_keeps shape_kept (get_cma role e)" "py_keeps shape_kept (flush_cma role)"
  "py_keeps shape_kept (resolve_slab_pointer host h off n kd)" "py_keeps shape_kept (resolve_weights_phys h off n)"
  "py_keeps shape_kept (add_shape rows cols k)" "py_keeps shape_kept (final_counts b c rb wn an rpb cy)"
  unfolding get_cma_def flush_cma_def resolve_slab_pointer_def copy_to_cma_scratch_def resolve_weights_phys_def
    add_shape_def final_counts_def Let_def
  by (intro shape)+

lemma shape_dual_stream [shape]:
  assumes "pl_files_shape host"
  shows "py_keeps shape_kept (run_matmul_dual_stream env host h off n an pa rn q rb df)"
    "py_keeps shape_kept (wait_chunk_deferred env host cells)" "py_keeps shape_kept (quantize_column env host addr k bufs)"
    "py_keeps shape_kept (pack_column env host va k bufs)" "py_keeps shape_kept (read_acts_addr env host op n)"
  unfolding run_matmul_dual_stream_def wait_chunk_deferred_def call_wait_def call_start_def quantize_column_def pack_column_def
    read_acts_addr_def checked_pl_def
  by (intro shape assms)+

lemma shape_run_chunk [shape]: "pl_files_shape host \<Longrightarrow> py_keeps shape_kept (run_chunk env host job col rs rbs dirty)"
  unfolding run_chunk_def copy_result_def Let_def by (intro shape)

lemma shape_chunk_loop [shape]: "pl_files_shape host \<Longrightarrow> py_keeps shape_kept (chunk_loop fuel env host job col rs rbs st)"
proof (induction fuel arbitrary: rs rbs st)
  case 0
  show ?case by (cases st) (auto simp: chunk_loop.simps [of 0] intro: shape)
next
  case (Suc n)
  obtain c d where st: "st = (c, d)" by (cases st)
  show ?case unfolding st chunk_loop.simps [of "Suc n"] nat.case by (intro shape Suc)
qed

lemma shape_run_columns [shape]: "pl_files_shape host \<Longrightarrow> py_keeps shape_kept (run_columns env host job va cols bufs st)"
proof (induction cols arbitrary: bufs st)
  case (Cons c cols)
  show ?case unfolding run_columns.simps run_column_def by (intro shape Cons)
qed (unfold run_columns.simps, intro shape)

lemma shape_pl_kernels [shape]:
  assumes "pl_files_shape host"
  shows "py_keeps shape_kept (pl_matmul_run env host op)" "py_keeps shape_kept (pl_matmul_complete env host p)"
  unfolding pl_matmul_run_def run_job_def invalidate_dirty_def pl_matmul_complete_def Let_def
  by (intro shape assms)+

lemma shape_pl_async [shape]: "pl_files_shape host \<Longrightarrow> py_keeps shape_kept (pl_matmul_run_async env host op)"
  unfolding pl_matmul_run_async_def fall_back_def issue_matmul_def Let_def by (intro shape)

lemma shape_loopback [shape]:
  assumes "overlay_shape (ph_overlay host)"
  shows "py_keeps shape_kept (pl_loopback_run env host op)"
proof -
  have "list_all2 slab_similar slabs slabs'" if "ov_dma (ph_overlay host) cmd slabs hw = (r, slabs', hw')" for cmd slabs hw r slabs' hw'
    using assms that unfolding overlay_shape_def by (metis fst_conv snd_conv)
  then have "py_keeps shape_kept (dma_do host cmd)" for cmd
    by (intro py_keepsI) (auto simp: dma_do_def shape_kept_def same_shape_def split: prod.splits)
  then show ?thesis
    unfolding pl_loopback_run_def get_slab_view_def loopback_transfer_def need_pynq_def by (intro shape)
qed

section \<open>The registry of the daemon\<close>

lemma register_kernel_set:
  "register_kernel k reg = (Inr u, reg') \<Longrightarrow> snd ` set reg' \<subseteq> snd ` set reg \<union> {knl. k = Inr knl}"
proof (cases k)
  case (Inr knl)
  assume "register_kernel k reg = (Inr u, reg')"
  with Inr have "reg' = AList.update (k_name knl) knl reg" by (simp add: register_kernel_def register_def py_simps)
  with Inr update_values [of "k_name knl" knl reg] show ?thesis by auto
qed (simp add: register_kernel_def py_simps)

lemma pl_register_all_set:
  assumes "pl_register_all env host reg = (Inr u, reg')"
  shows "snd ` set reg' \<subseteq> snd ` set reg \<union> {knl. pl_loopback_kernel env host = Inr knl \<or> pl_matmul_kernel env host = Inr knl}"
proof -
  from assms obtain reg1 where
    1: "py_when (overlay_has (ph_overlay host) ''axis_loopback_0'') (register_kernel (pl_loopback_kernel env host)) reg = (Inr (), reg1)"
    and 2: "py_when (overlay_has (ph_overlay host) ''q1a8_kernel_top_0'') (register_kernel (pl_matmul_kernel env host)) reg1 = (Inr (), reg')"
    by (auto simp: pl_register_all_def py_simps split: sum.splits prod.splits)
  from 1 have "snd ` set reg1 \<subseteq> snd ` set reg \<union> {knl. pl_loopback_kernel env host = Inr knl}"
    by (auto simp: py_when_def split: if_splits dest: register_kernel_set)
  moreover from 2 have "snd ` set reg' \<subseteq> snd ` set reg1 \<union> {knl. pl_matmul_kernel env host = Inr knl}"
    by (auto simp: py_when_def split: if_splits dest: register_kernel_set)
  ultimately show ?thesis by blast
qed

lemma pl_kernels_ok:
  assumes "pl_loopback_kernel env host = Inr knl \<or> pl_matmul_kernel env host = Inr knl"
  shows "kernel_agnostic knl" "pl_files_shape host \<Longrightarrow> overlay_shape (ph_overlay host) \<Longrightarrow> kernel_keeps knl"
  using assms keeps_inv(2)
  by (auto simp: pl_loopback_kernel_def pl_matmul_kernel_def kernel_agnostic_def kernel_keeps_def agnostic shape shape_kept_inv
      split: if_splits)

lemma make_runtime_cases:
  assumes "make_runtime env host loader args = Inr (a, reg, oid, ov)"
  obtains lib reg0 where "ph_files host ''libbonsai_ps.so'' = Some lib" "reg0 = ps_registry env (ph_palloc host) (clib.truncate lib)"
    "make_allocator (ph_palloc host) loader args = Inr (a, ov)"
    "(ar_bitfile args = None \<or> ov = None) \<and> reg = reg0 \<or>
     (\<exists>o'. ov = Some o' \<and> pl_register_all env (host\<lparr>ph_overlay := o'\<rparr>) reg0 = (Inr (), reg))"
proof -
  let ?files = "\<lambda>p. map_option clib.truncate (ph_files host p)"
  obtain r reg0 where r: "register_all env (ph_palloc host) ?files None [] = (r, reg0 :: ('a pl_state, pl_pending) registry)"
    by (cases "register_all env (ph_palloc host) ?files None [] :: _ \<times> ('a pl_state, pl_pending) registry")
  have "r \<noteq> Inl e" for e using assms r by (auto simp: make_runtime_def bindR_eq_Inr)
  then have "r = Inr ()" by (cases r) auto
  with r have ok: "register_all env (ph_palloc host) ?files None [] = (Inr (), reg0)" by simp
  from assms ok have ma: "make_allocator (ph_palloc host) loader args = Inr (a, ov)"
    and reg: "(ar_bitfile args = None \<or> ov = None) \<and> reg = reg0 \<or>
     (\<exists>o'. ov = Some o' \<and> pl_register_all env (host\<lparr>ph_overlay := o'\<rparr>) reg0 = (Inr (), reg))"
    by (auto simp: make_runtime_def bindR_eq_Inr split: sum.splits option.splits prod.splits)
  from register_all_registry [OF ok] obtain lib0 where
    l: "load_lib ?files None = Inr lib0" "reg0 = ps_registry env (ph_palloc host) lib0" .
  from l(1) obtain lib where "ph_files host ''libbonsai_ps.so'' = Some lib" "lib0 = clib.truncate lib"
    by (auto simp: load_lib_def split: option.splits)
  with l(2) ma reg show ?thesis by (intro that) auto
qed

lemma make_allocator_overlay: "make_allocator palloc loader args = Inr (a, Some o') \<Longrightarrow> \<exists>p. loader p = Inr o'"
  by (auto simp: make_allocator_def load_overlay_def bindR_eq_Inr Let_def split: allocator_kind.splits if_splits)

lemma make_runtime_registry:
  assumes "make_runtime env host loader args = Inr (a, reg, oid, ov)"
  shows "registry_agnostic reg"
    and "pl_files_shape host \<Longrightarrow> (\<And>p o'. loader p = Inr o' \<Longrightarrow> overlay_shape o') \<Longrightarrow> registry_keeps reg"
proof -
  from make_runtime_cases [OF assms] obtain lib reg0 where
    l: "ph_files host ''libbonsai_ps.so'' = Some lib" "reg0 = ps_registry env (ph_palloc host) (clib.truncate lib)"
    and ma: "make_allocator (ph_palloc host) loader args = Inr (a, ov)"
    and reg: "(ar_bitfile args = None \<or> ov = None) \<and> reg = reg0 \<or>
     (\<exists>o'. ov = Some o' \<and> pl_register_all env (host\<lparr>ph_overlay := o'\<rparr>) reg0 = (Inr (), reg))" .
  have ps: "registry_agnostic reg0" unfolding l(2) by (rule ps_registry_agnostic)
  from reg ps show "registry_agnostic reg"
    using pl_kernels_ok(1) by (fastforce simp: registry_agnostic_def dest!: pl_register_all_set)
  assume fs: "pl_files_shape host" and ld: "\<And>p o'. loader p = Inr o' \<Longrightarrow> overlay_shape o'"
  have k0: "registry_keeps reg0"
    unfolding l(2) using fs l(1) by (intro ps_registry_keeps) (auto simp: pl_files_shape_def)
  have fs': "pl_files_shape (host\<lparr>ph_overlay := o'\<rparr>)" for o' using fs by (simp add: pl_files_shape_def)
  have "overlay_shape o'" if "ov = Some o'" for o' using ma make_allocator_overlay ld that by blast
  with reg k0 show "registry_keeps reg"
    using pl_kernels_ok(2) [OF _ fs'] by (fastforce simp: registry_keeps_def dest!: pl_register_all_set)
qed

section \<open>The result that the scheduler is told of\<close>

text \<open>The only asynchronous kernel of the runtime is the matmul, and its pending object carries the range of its destination.\<close>

definition matmul_dst :: "dict \<Rightarrow> range set" where
  "matmul_dst op = {(h, lo, lo + rows * F32_BYTES) | h lo rows.
     pl_required op F_DST = Inr h \<and> pl_optional_int op F_DST_OFFSET = Inr lo \<and> pl_required op F_ROWS = Inr rows}"

definition returns :: "('a \<Rightarrow> bool) \<Rightarrow> ('w, 'a) py \<Rightarrow> bool" where
  "returns P m \<longleftrightarrow> (\<forall>w x w'. m w = (Inr x, w') \<longrightarrow> P x)"

lemma returns_intro:
  "P x \<Longrightarrow> returns P (py_ret x)" "(\<And>x. returns P (f x)) \<Longrightarrow> returns P (py_bind m f)" "returns P n \<Longrightarrow> returns P (py_then m' n)"
  "(\<And>x. r = Inr x \<Longrightarrow> returns P (g x)) \<Longrightarrow> returns P (py_read r g)"
  by (fastforce simp: returns_def py_simps split: prod.splits sum.splits)+

lemma returns_fall_back: "returns (\<lambda>r. r \<noteq> Some p) (fall_back env host op)"
  unfolding fall_back_def by (intro returns_intro) simp

lemma run_async_reports: "returns (\<lambda>r. \<forall>p. r = Some p \<longrightarrow> interval p \<in> matmul_dst op) (pl_matmul_run_async env host op)"
proof -
  have fb: "returns (\<lambda>r. \<forall>p. r = Some p \<longrightarrow> interval p \<in> matmul_dst op) (fall_back env host op)"
    using returns_fall_back by (fastforce simp: returns_def)
  have issue: "returns (\<lambda>r. \<forall>p. r = Some p \<longrightarrow> interval p \<in> matmul_dst op)
      (issue_matmul env host op rows k pb rpb rb wh wo dh lo d)"
    if "pl_required op F_DST = Inr dh" "pl_optional_int op F_DST_OFFSET = Inr lo" "pl_required op F_ROWS = Inr rows"
    for rows k pb rpb rb wh wo dh lo d
    using that by (cases d) (auto simp: issue_matmul_def Let_def matmul_dst_def interval_def intro!: returns_intro)
  show ?thesis unfolding pl_matmul_run_async_def Let_def
    using fb issue by (auto intro!: returns_intro split: option.split)
qed

text \<open>So with the registry of \<open>make_runtime\<close> the arena's rule is all that the scheduler asks for.\<close>

lemma runtime_async:
  assumes "make_runtime env host loader args = Inr (a, reg, oid, ov)" "k \<in> snd ` set reg" "k_run_async k = Some f"
  shows "\<exists>h. f = pl_matmul_run_async env h"
proof -
  from make_runtime_cases [OF assms(1)] obtain lib reg0 where
    "ph_files host ''libbonsai_ps.so'' = Some lib" and l: "reg0 = ps_registry env (ph_palloc host) (clib.truncate lib)"
    and "make_allocator (ph_palloc host) loader args = Inr (a, ov)"
    and reg: "(ar_bitfile args = None \<or> ov = None) \<and> reg = reg0 \<or>
     (\<exists>o'. ov = Some o' \<and> pl_register_all env (host\<lparr>ph_overlay := o'\<rparr>) reg0 = (Inr (), reg))" .
  have ps: "k \<notin> snd ` set reg0"
    using assms(3) ps_kernels_sync(1) [of k env "ph_palloc host" "clib.truncate lib"] unfolding l ps_registry_kernels by (metis option.distinct(1))
  with assms(2) reg obtain o' where "pl_register_all env (host\<lparr>ph_overlay := o'\<rparr>) reg0 = (Inr (), reg)" by auto
  from pl_register_all_set [OF this] ps assms(2) have
    "pl_loopback_kernel env (host\<lparr>ph_overlay := o'\<rparr>) = Inr k \<or> pl_matmul_kernel env (host\<lparr>ph_overlay := o'\<rparr>) = Inr k" by blast
  with assms(3) show ?thesis
    by (auto simp: pl_loopback_kernel_def pl_matmul_kernel_def split: if_splits)
qed

lemma runtime_footprints:
  assumes "make_runtime env host loader args = Inr (a, reg, oid, ov)"
    and "\<And>xs op' ys op zs r s. ops = xs @ op' # ys @ op # zs \<Longrightarrow> r \<in> matmul_dst op' \<Longrightarrow> \<forall>oq \<in> set ys. \<not> starts_in oq r \<Longrightarrow>
      s \<in> acc op \<Longrightarrow> ranges_meet s r \<Longrightarrow> starts_in op r"
  shows "footprints env reg ops acc matmul_dst"
proof
  fix op k f w p w' assume "serves env reg op k" "k_run_async k = Some f" "f op w = (Inr (Some p), w')"
  then show "interval p \<in> matmul_dst op"
    using runtime_async [OF assms(1) serves_in] run_async_reports [of op env] unfolding returns_def by blast
qed (rule assms(2))

section \<open>The loop over the chunks ends\<close>

lemma chunk_size_bounds:
  assumes "1 \<le> max_rb" "1 \<le> remaining"
  shows "1 \<le> chunk_size max_rb remaining b" "chunk_size max_rb remaining b \<le> remaining" "chunk_size max_rb remaining b \<le> max_rb"
  using assms by (auto simp: chunk_size_def Let_def)

text \<open>The variables of the loop: \<open>row_chunk_start\<close> follows \<open>rowblock_chunk_start\<close>.\<close>

definition job_ok :: "pl_job \<Rightarrow> bool" where
  "job_ok job \<longleftrightarrow> 0 < jb_rows job \<and> 0 < jb_rows_per_block job \<and> 1 \<le> jb_max_rowblocks job \<and>
     jb_rowblocks job = (jb_rows job + jb_rows_per_block job - 1) div jb_rows_per_block job"

definition at_chunk :: "pl_job \<Rightarrow> int \<Rightarrow> int \<Rightarrow> bool" where
  "at_chunk job rs rbs \<longleftrightarrow> 0 \<le> rbs \<and> rbs \<le> jb_rowblocks job \<and> rs = min (rbs * jb_rows_per_block job) (jb_rows job)"

lemma rowblocks_cover:
  assumes "job_ok job"
  shows "jb_rows job \<le> jb_rowblocks job * jb_rows_per_block job"
    and "rbs < jb_rowblocks job \<Longrightarrow> rbs * jb_rows_per_block job < jb_rows job"
proof -
  let ?n = "jb_rows job" and ?p = "jb_rows_per_block job"
  have p: "0 < ?p" and rb: "jb_rowblocks job = (?n + ?p - 1) div ?p" using assms by (auto simp: job_ok_def)
  have "(?n + ?p - 1) div ?p * ?p + (?n + ?p - 1) mod ?p = ?n + ?p - 1" by simp
  moreover have "(?n + ?p - 1) mod ?p < ?p" "0 \<le> (?n + ?p - 1) mod ?p" using p by simp_all
  ultimately have b: "?n \<le> jb_rowblocks job * ?p" "jb_rowblocks job * ?p < ?n + ?p" unfolding rb by linarith+
  show "?n \<le> jb_rowblocks job * ?p" by (rule b(1))
  assume "rbs < jb_rowblocks job"
  then have "rbs * ?p + ?p \<le> jb_rowblocks job * ?p" using p by (metis add1_zle_eq distrib_right mult.left_neutral mult_le_cancel_right_pos)
  with b(2) show "rbs * ?p < ?n" by linarith
qed

lemma at_chunk_start: "job_ok job \<Longrightarrow> at_chunk job 0 0"
  by (auto simp: at_chunk_def job_ok_def intro!: pos_imp_zdiv_nonneg_iff [THEN iffD2])

lemma at_chunk_more:
  assumes "job_ok job" "at_chunk job rs rbs" "rs < jb_rows job"
  shows "rbs < jb_rowblocks job" "rs = rbs * jb_rows_per_block job"
proof -
  show "rs = rbs * jb_rows_per_block job" using assms(2,3) by (auto simp: at_chunk_def)
  with rowblocks_cover(1) [OF assms(1)] assms show "rbs < jb_rowblocks job"
    by (cases "rbs = jb_rowblocks job") (auto simp: at_chunk_def)
qed

lemma at_chunk_next:
  assumes job: "job_ok job" and at: "at_chunk job rs rbs" and "rs < jb_rows job"
    and c_def: "c = chunk_size (jb_max_rowblocks job) (jb_rowblocks job - rbs) b"
    and n_def: "n = min (c * jb_rows_per_block job) (jb_rows job - rs)"
  shows "at_chunk job (rs + n) (rbs + c)" "0 < n"
proof -
  note m = at_chunk_more [OF job at assms(3)]
  have c: "1 \<le> c" "c \<le> jb_rowblocks job - rbs"
    unfolding c_def using job m(1) by (auto intro!: chunk_size_bounds simp: job_ok_def)
  have p: "0 < jb_rows_per_block job" using job by (simp add: job_ok_def)
  with c have "0 < c * jb_rows_per_block job" by simp
  then show "0 < n" using assms(3) by (simp add: n_def)
  have "rs + n = min ((rbs + c) * jb_rows_per_block job) (jb_rows job)"
    using m(2) by (simp add: n_def distrib_right min_def)
  then show "at_chunk job (rs + n) (rbs + c)" using at c by (simp add: at_chunk_def)
qed

lemma run_chunk_result:
  assumes "run_chunk env host job col rs rbs dirty w = (Inr (n, c, cy, dirty'), w')"
  shows "\<exists>b. c = chunk_size (jb_max_rowblocks job) (jb_rowblocks job - rbs) b \<and> n = min (c * jb_rows_per_block job) (jb_rows job - rs)"
  using assms
  by (auto simp: run_chunk_def Let_def py_simps split: sum.splits prod.splits option.splits)

lemma chunk_loop_fuel:
  assumes "job_ok job"
  shows "at_chunk job rs rbs \<Longrightarrow> nat (jb_rows job - rs) \<le> f \<Longrightarrow> nat (jb_rows job - rs) \<le> g \<Longrightarrow>
    chunk_loop f env host job col rs rbs st w = chunk_loop g env host job col rs rbs st w"
proof (induction f arbitrary: g rs rbs st w)
  case 0
  then show ?case by (cases st) (simp add: chunk_loop.simps)
next
  case (Suc f)
  obtain cy d where st: "st = (cy, d)" by (cases st)
  show ?case
  proof (cases "rs < jb_rows job")
    case False
    then show ?thesis by (simp add: st chunk_loop.simps)
  next
    case True
    with Suc.prems(3) obtain g' where g: "g = Suc g'" by (cases g) auto
    have step: "chunk_loop f env host job col (rs + n) (rbs + c) st' w' = chunk_loop g' env host job col (rs + n) (rbs + c) st' w'"
      if run: "run_chunk env host job col rs rbs d w = (Inr (n, c, cy', d'), w')" for n c cy' d' st' w'
    proof -
      from run_chunk_result [OF run] obtain b where
        b: "c = chunk_size (jb_max_rowblocks job) (jb_rowblocks job - rbs) b" "n = min (c * jb_rows_per_block job) (jb_rows job - rs)" by blast
      note nx = at_chunk_next [OF assms Suc.prems(1) True b]
      show ?thesis using nx Suc.prems(2,3) g by (intro Suc.IH) auto
    qed
    show ?thesis
      using step by (cases "run_chunk env host job col rs rbs d w") (auto simp: st g True chunk_loop.simps [of "Suc f"] chunk_loop.simps [of "Suc g'"] py_simps split: sum.splits)
  qed
qed

text \<open>A computation that never runs out of fuel.\<close>

definition ends :: "('s, 'a) py \<Rightarrow> bool" where
  "ends m \<longleftrightarrow> (\<forall>s. fst (m s) \<noteq> Inl OutOfFuel)"

lemma endsI: "(\<And>s e s'. m s = (Inl e, s') \<Longrightarrow> e \<noteq> OutOfFuel) \<Longrightarrow> ends m"
  by (auto simp: ends_def) (metis prod.collapse)

lemma endsD: "ends m \<Longrightarrow> m s = (Inl e, s') \<Longrightarrow> e \<noteq> OutOfFuel"
  by (auto simp: ends_def dest: spec [of _ s])

named_theorems ends_intro \<open>computations that do not run out of fuel\<close>

lemma ends_basic [ends_intro]:
  "ends (py_ret x)" "e \<noteq> OutOfFuel \<Longrightarrow> ends (py_raise e)" "r \<noteq> Inl OutOfFuel \<Longrightarrow> ends (py_lift r)" "ends (py_get f)" "ends (py_mod g)"
  by (auto simp: ends_def)

lemma ends_bind [ends_intro]: "ends m \<Longrightarrow> (\<And>x. ends (f x)) \<Longrightarrow> ends (py_bind m f)"
  by (rule endsI) (auto simp: py_bind_run split: prod.splits sum.splits dest: endsD)

lemma ends_then [ends_intro]: "ends m \<Longrightarrow> ends n \<Longrightarrow> ends (py_then m n)"
  by (simp add: py_then_def ends_bind)

lemma ends_catch [ends_intro]: "ends m \<Longrightarrow> (\<And>e. e \<noteq> OutOfFuel \<Longrightarrow> ends (h e)) \<Longrightarrow> ends (py_catch m h)"
  by (rule endsI) (auto simp: py_catch_run split: prod.splits sum.splits dest: endsD)

lemma ends_finally: "ends m \<Longrightarrow> ends f \<Longrightarrow> ends (py_finally m f)"
  by (rule endsI) (auto simp: py_finally_run split: prod.splits sum.splits dest: endsD)

lemma ends_cases [ends_intro]:
  "(\<And>a b. ends (f a b)) \<Longrightarrow> ends (case p of (a, b) \<Rightarrow> f a b)" "ends m \<Longrightarrow> ends n \<Longrightarrow> ends (if b then m else n)"
  "ends m \<Longrightarrow> (\<And>x. ends (g x)) \<Longrightarrow> ends (case q of None \<Rightarrow> m | Some x \<Rightarrow> g x)"
  by (auto split: prod.split option.split)

lemma ends_section [ends_intro]: "ends m \<Longrightarrow> ends (timer_section env nm m)"
  unfolding timer_section_def section_profiled_def section_end_def us_since_def perf_counter_ns_def upd_timer_def
  by (intro ends_intro ends_finally) (auto simp: ends_def)

lemma ends_on [ends_intro]: "ends m \<Longrightarrow> ends (on_dev m)" "ends m' \<Longrightarrow> ends (on_alloc m')"
  by (rule endsI, auto simp: on_dev_def on_alloc_def split: prod.splits dest: endsD)+

lemma slab_view_no_fuel: "slab_view a h off n \<noteq> Inl OutOfFuel"
proof -
  have "view_extents c off n es \<noteq> Inl OutOfFuel" for c es
    by (induction es arbitrary: c) auto
  then show ?thesis by (auto simp: slab_view_def get_record_def bindR_def split: option.splits)
qed

lemma ends_tensor [ends_intro]: "ends (read_tensor h off n c)" "ends (write_tensor h off bs c)"
proof -
  have v: "validate_range a h off n \<noteq> Inl OutOfFuel" for a n
    by (auto simp: validate_range_def get_record_def bindR_def split: option.splits)
  have r: "get_record a h \<noteq> Inl OutOfFuel" for a by (auto simp: get_record_def split: option.splits)
  have w: "fst (write_pieces c bs ps a) \<noteq> Inl OutOfFuel" for ps a
    by (induction c bs ps a rule: write_pieces.induct)
       (auto simp: slab_write_def pynq_write_def numpy_assign_def bindR_def Let_def split: sum.splits slab_kind.splits if_splits)
  show "ends (read_tensor h off n c)" "ends (write_tensor h off bs c)"
    using v r w by (auto simp: ends_def read_tensor_def write_tensor_def split: sum.splits prod.splits)
qed

lemma ends_buffers [ends_intro]:
  "e \<noteq> OutOfFuel \<Longrightarrow> ends (get_cma role e)" "ends (flush_cma role)" "ends (call_pl lib symb args bufs)"
  "ends (call_bound host symb args bufs)"
proof -
  show call: "ends (call_pl lib symb args bufs)" for lib by (auto simp: ends_def call_pl_def split: prod.splits)
  have "bound_lib host d \<noteq> Inl OutOfFuel" for d by (auto simp: bound_lib_def load_lib_def split: option.splits)
  then show "ends (call_bound host symb args bufs)" unfolding call_bound_def by (intro ends_intro call)
qed (unfold get_cma_def flush_cma_def, (intro ends_intro | simp)+)

lemma view_phys_no_fuel: "view_phys a h off n \<noteq> Inl OutOfFuel"
  using slab_view_no_fuel [of a h off n]
  by (auto simp: view_phys_def buffer_phys_def bindR_def split: sum.splits prod.splits slab_kind.splits)

lemma ends_run_chunk: "ends (run_chunk env host job col rs rbs dirty)"
proof -
  have "ends (resolve_weights_phys h off n)" for h off n
    unfolding resolve_weights_phys_def by (intro ends_intro) (simp_all add: view_phys_no_fuel)
  then have "ends (run_matmul_dual_stream env host h off n an pa rn q rb df)" for h off n an pa rn q rb df
    unfolding run_matmul_dual_stream_def call_start_def call_wait_def by (intro ends_intro) simp_all
  moreover have "extent_remaining a h off \<noteq> Inl OutOfFuel" for a h off
    by (auto simp: extent_remaining_def tensor_extents_def get_record_def bindR_def split: option.splits)
  moreover have "chunk_dst a h off p n \<noteq> Inl OutOfFuel" for a h off p n
    using view_phys_no_fuel [of a h off p] by (auto simp: chunk_dst_def split: sum.splits)
  ultimately show ?thesis
    unfolding run_chunk_def copy_result_def Let_def by (intro ends_intro) simp_all
qed

lemma ends_chunk_loop:
  assumes "job_ok job"
  shows "at_chunk job rs rbs \<Longrightarrow> nat (jb_rows job - rs) \<le> f \<Longrightarrow> fst (chunk_loop f env host job col rs rbs st w) \<noteq> Inl OutOfFuel"
proof (induction f arbitrary: rs rbs st w)
  case 0
  then show ?case by (cases st) (simp add: chunk_loop.simps)
next
  case (Suc f)
  obtain cy d where st: "st = (cy, d)" by (cases st)
  show ?case
  proof (cases "rs < jb_rows job")
    case False
    then show ?thesis by (simp add: st chunk_loop.simps)
  next
    case True
    obtain r w1 where run: "run_chunk env host job col rs rbs d w = (r, w1)" by (cases "run_chunk env host job col rs rbs d w")
    show ?thesis
    proof (cases r)
      case (Inl e)
      moreover have "e \<noteq> OutOfFuel" using endsD [OF ends_run_chunk] run Inl by blast
      ultimately show ?thesis using run True by (simp add: st chunk_loop.simps [of "Suc f"] py_simps)
    next
      case (Inr x)
      obtain n c cy' d' where x: "x = (n, c, cy', d')" by (cases x)
      from run_chunk_result [of env host job col rs rbs d w n c cy' d' w1] run Inr x obtain b where
        b: "c = chunk_size (jb_max_rowblocks job) (jb_rowblocks job - rbs) b" "n = min (c * jb_rows_per_block job) (jb_rows job - rs)" by auto
      note nx = at_chunk_next [OF assms Suc.prems(1) True b]
      show ?thesis
        using Suc.IH [OF nx(1)] nx(2) Suc.prems(2) run Inr x True by (simp add: st chunk_loop.simps [of "Suc f"] py_simps)
    qed
  qed
qed

end
