(* ===== verification/GlueSpec.thy ===== *)
theory GlueSpec
  imports PsSpec
begin

text \<open>
  The glue kernels refine a function on tensors.  A C function is specified by what it does to
  the bytes its pointers denote (\<open>computes\<close>); the kernel around it then changes the
  destination range to the function of the input ranges and nothing else, whichever path the
  pointers take: zero-copy into the slabs, or copies of ranges that cross extents or lie in a
  slab with no mapping.
\<close>

section \<open>The bytes behind a pointer\<close>

datatype region = RSlab nat | RBuf nat | RScratch string string

definition maps_va :: "slab \<Rightarrow> int \<Rightarrow> int \<Rightarrow> bool" where
  "maps_va s a n \<longleftrightarrow> (case base_va s of None \<Rightarrow> False | Some b \<Rightarrow> b \<le> a \<and> a + n \<le> b + slab_size s)"

fun resolve :: "slab list \<Rightarrow> ptr \<Rightarrow> int \<Rightarrow> (region \<times> int) option" where
  "resolve slabs (PVa a) n =
     map_option (\<lambda>i. (RSlab i, a - the (base_va (slabs ! i)))) (List.find (\<lambda>i. maps_va (slabs ! i) a n) [0..<length slabs])"
| "resolve slabs (PBuf i off) n = Some (RBuf i, off)"
| "resolve slabs (PScratch knl role off) n = Some (RScratch knl role, off)"

fun cells_of :: "cmem \<Rightarrow> region \<Rightarrow> byte list" where
  "cells_of m (RSlab i) = (if i < length (cm_slabs m) then buf (cm_slabs m ! i) else [])"
| "cells_of m (RBuf i) = (if i < length (cm_bufs m) then cm_bufs m ! i else [])"
| "cells_of m (RScratch knl role) = (case map_of (cm_scratch m) (knl, role) of None \<Rightarrow> [] | Some b \<Rightarrow> b)"

fun set_cells :: "region \<Rightarrow> byte list \<Rightarrow> cmem \<Rightarrow> cmem" where
  "set_cells (RSlab i) c m = m\<lparr>cm_slabs := (cm_slabs m)[i := (cm_slabs m ! i)\<lparr>buf := c\<rparr>]\<rparr>"
| "set_cells (RBuf i) c m = m\<lparr>cm_bufs := (cm_bufs m)[i := c]\<rparr>"
| "set_cells (RScratch knl role) c m = m\<lparr>cm_scratch := AList.update (knl, role) c (cm_scratch m)\<rparr>"

definition c_load :: "cmem \<Rightarrow> ptr \<Rightarrow> int \<Rightarrow> byte list option" where
  "c_load m p n =
     (case resolve (cm_slabs m) p n of
        None \<Rightarrow> None
      | Some (r, off) \<Rightarrow>
          if 0 \<le> off \<and> off + n \<le> int (length (cells_of m r)) then Some (py_slice (cells_of m r) off (off + n)) else None)"

definition c_store :: "cmem \<Rightarrow> ptr \<Rightarrow> byte list \<Rightarrow> cmem" where
  "c_store m p bs =
     (case resolve (cm_slabs m) p (int (length bs)) of
        None \<Rightarrow> m
      | Some (r, off) \<Rightarrow> set_cells r (slice_assign (cells_of m r) off (off + int (length bs)) bs) m)"

text \<open>Two ranges that do not overlap, or are the same range.\<close>

definition apart :: "slab list \<Rightarrow> ptr \<Rightarrow> int \<Rightarrow> ptr \<Rightarrow> int \<Rightarrow> bool" where
  "apart slabs p n q k \<longleftrightarrow>
     (case (resolve slabs p n, resolve slabs q k) of
        (Some (r, a), Some (s, b)) \<Rightarrow> r \<noteq> s \<or> a + n \<le> b \<or> b + k \<le> a \<or> a = b \<and> n = k
      | _ \<Rightarrow> False)"

text \<open>
  The contract of an entry point of the library, called with pointers to inputs of the sizes
  \<open>ns\<close> and to an output of size \<open>n\<close>: it stores \<open>F\<close> of the inputs and returns 0, provided
  the output overlaps no input or is in the place of one.
\<close>

definition computes :: "clib \<Rightarrow> string \<Rightarrow> (ptr list \<Rightarrow> ptr \<Rightarrow> carg list) \<Rightarrow> int list \<Rightarrow> int \<Rightarrow> (byte list list \<Rightarrow> byte list) \<Rightarrow> bool" where
  "computes lib symb args ns n F \<longleftrightarrow>
     (\<forall>m ps xs dst. list_all2 (\<lambda>(p, k) x. c_load m p k = Some x) (zip ps ns) xs \<longrightarrow> length ps = length ns \<longrightarrow>
        c_load m dst n \<noteq> None \<longrightarrow> (\<forall>(p, k) \<in> set (zip ps ns). apart (cm_slabs m) p k dst n) \<longrightarrow>
        int (length (F xs)) = n \<and> cl_call lib symb (args ps dst) m = (0, c_store m dst (F xs)))"

text \<open>Slabs are mapped at disjoint addresses.\<close>

definition va_disjoint :: "slab list \<Rightarrow> bool" where
  "va_disjoint slabs \<longleftrightarrow> (\<forall>i j b c. i < length slabs \<longrightarrow> j < length slabs \<longrightarrow> i \<noteq> j \<longrightarrow>
     base_va (slabs ! i) = Some b \<longrightarrow> base_va (slabs ! j) = Some c \<longrightarrow>
     b + slab_size (slabs ! i) \<le> c \<or> c + slab_size (slabs ! j) \<le> b)"

lemma resolve_va:
  assumes "va_disjoint slabs" "i < length slabs" "base_va (slabs ! i) = Some b" "0 \<le> x" "0 < n" "x + n \<le> slab_size (slabs ! i)"
  shows "resolve slabs (PVa (b + x)) n = Some (RSlab i, x)"
proof -
  have m: "maps_va (slabs ! i) (b + x) n" using assms by (simp add: maps_va_def)
  have u: "j = i" if "j < length slabs" "maps_va (slabs ! j) (b + x) n" for j
  proof (rule ccontr)
    assume ji: "j \<noteq> i"
    from that(2) obtain c where c: "base_va (slabs ! j) = Some c" "c \<le> b + x" "b + x + n \<le> c + slab_size (slabs ! j)"
      by (auto simp: maps_va_def split: option.splits)
    from assms(1) that(1) assms(2) ji c(1) assms(3)
    have "c + slab_size (slabs ! j) \<le> b \<or> b + slab_size (slabs ! i) \<le> c" unfolding va_disjoint_def by blast
    with c assms show False by auto
  qed
  have "List.find (\<lambda>i. maps_va (slabs ! i) (b + x) n) [0..<length slabs] = Some i"
  proof (cases "List.find (\<lambda>i. maps_va (slabs ! i) (b + x) n) [0..<length slabs]")
    case None
    with m assms(2) show ?thesis by (auto simp: find_None_iff)
  next
    case (Some j)
    then have "j < length slabs" "maps_va (slabs ! j) (b + x) n" by (auto simp: find_Some_iff)
    with u Some show ?thesis by simp
  qed
  with assms(3) show ?thesis by simp
qed

section \<open>Tensor ranges as pointers\<close>

lemma view_extents_total:
  assumes "\<forall>e \<in> set es. 0 < ext_nbytes e" "cursor \<le> off" "off < cursor + ext_sum es"
  shows "view_extents cursor off n es = Inl ERR_multi \<or> (\<exists>v. view_extents cursor off n es = Inr v)"
  using assms by (induction cursor off n es rule: view_extents.induct) auto

lemma slab_view_total:
  assumes inv: "alloc_inv a" and d: "contents a h = Some d" and rng: "0 \<le> off" "0 < n" "off + n \<le> int (length d)"
  shows "slab_view a h off n = Inl ERR_multi \<or> (\<exists>v. slab_view a h off n = Inr v)"
proof -
  from d obtain r where r: "map_of (al_records a) h = Some r" by (auto simp: contents_Some)
  note ex = record_extents_ok [OF inv r]
  have nb: "tr_nbytes r = int (length d)" using contents_length [OF inv r] d r by (simp add: contents_Some)
  show ?thesis
    using view_extents_total [of "tr_extents r" 0 off n] ex rng nb r
    by (auto simp: slab_view_def get_record_def ext_ok_def)
qed

definition zero_copy :: "allocator \<Rightarrow> int \<Rightarrow> int \<Rightarrow> int \<Rightarrow> ptr \<Rightarrow> bool" where
  "zero_copy a h off n p \<longleftrightarrow> (\<exists>i x b. slab_view a h off n = Inr (i, x, n) \<and> base_va (al_slabs a ! i) = Some b \<and> p = PVa (b + x))"

text \<open>A pointer handed to C stands for a tensor range: in place, or as a copy of its bytes.\<close>

definition stands_for :: "allocator \<Rightarrow> byte list list \<Rightarrow> int \<times> int \<times> byte list \<Rightarrow> ptr \<Rightarrow> bool" where
  "stands_for a bufs = (\<lambda>(h, off, xs) p.
     (\<exists>d. contents a h = Some d \<and> 0 \<le> off \<and> off + int (length xs) \<le> int (length d) \<and> 0 < length xs \<and>
        xs = py_slice d off (off + int (length xs)) \<and>
        (zero_copy a h off (int (length xs)) p \<or> (\<exists>j < length bufs. p = PBuf j 0 \<and> bufs ! j = xs))))"

definition unchanged :: "allocator \<Rightarrow> allocator \<Rightarrow> bool" where
  "unchanged a a' \<longleftrightarrow> same_shape a a' \<and> contents a' = contents a"

lemma unchanged_refl [simp]: "unchanged a a"
  by (simp add: unchanged_def)

lemma unchanged_trans: "unchanged a b \<Longrightarrow> unchanged b c \<Longrightarrow> unchanged a c"
  by (auto simp: unchanged_def intro: same_shape_trans)

lemma unchanged_inv: "unchanged a a' \<Longrightarrow> alloc_inv a \<Longrightarrow> alloc_inv a'"
  by (auto simp: unchanged_def dest: same_shape_inv)

lemma similar_nth: "same_shape a a' \<Longrightarrow> i < length (al_slabs a) \<Longrightarrow> slab_similar (al_slabs a ! i) (al_slabs a' ! i)"
  by (auto simp: same_shape_def list_all2_conv_all_nth)

lemma same_shape_length: "same_shape a a' \<Longrightarrow> length (al_slabs a') = length (al_slabs a)"
  by (auto simp: same_shape_def list_all2_conv_all_nth)

lemma slab_view_same: "same_shape a a' \<Longrightarrow> slab_view a' h off n = slab_view a h off n"
  by (simp add: slab_view_def get_record_def same_shape_def)

lemma slab_view_index:
  "alloc_inv a \<Longrightarrow> slab_view a h off n = Inr (i, x, k) \<Longrightarrow> i < length (al_slabs a)"
  by (erule slab_view_spec)

lemma zero_copy_same:
  assumes "alloc_inv a" "same_shape a a'" "zero_copy a h off n p"
  shows "zero_copy a' h off n p"
proof -
  from assms(3) obtain i x b where v: "slab_view a h off n = Inr (i, x, n)" "base_va (al_slabs a ! i) = Some b" "p = PVa (b + x)"
    by (auto simp: zero_copy_def)
  have "base_va (al_slabs a' ! i) = Some b"
    using similar_nth [OF assms(2) slab_view_index [OF assms(1) v(1)]] v(2) by (simp add: slab_similar_def)
  with v show ?thesis using slab_view_same [OF assms(2)] by (auto simp: zero_copy_def)
qed

lemma stands_for_mono:
  assumes "alloc_inv a" "unchanged a a'" "stands_for a bufs r p"
  shows "stands_for a' (bufs @ extra) r p"
proof -
  obtain h off xs where r: "r = (h, off, xs)" by (cases r)
  note z = zero_copy_same [OF assms(1), of a' h off "int (length xs)" p]
  show ?thesis using assms(2,3) z unfolding r stands_for_def unchanged_def by (auto simp: nth_append)
qed

lemma slab_pointer_cases:
  assumes inv: "alloc_inv a" and d: "contents a h = Some d" and rng: "0 \<le> off" "0 < n" "off + n \<le> int (length d)"
  obtains v where "slab_pointer a h off n = Inr v" "zero_copy a h off n (PVa v)"
  | e where "slab_pointer a h off n = Inl e" "e = ERR_multi \<or> e = ERR_invalid"
proof (cases "slab_view a h off n")
  case (Inl e)
  then have "e = ERR_multi" using slab_view_total [OF inv d rng] by auto
  with Inl that(2) show ?thesis by (simp add: slab_pointer_def)
next
  case (Inr v)
  obtain i x k where v: "v = (i, x, k)" by (cases v)
  from slab_view_spec [OF inv] Inr v have k: "k = n" by blast
  show ?thesis
  proof (cases "base_va (al_slabs a ! i)")
    case None
    with Inr v that(2) show ?thesis by (simp add: slab_pointer_def)
  next
    case (Some b)
    with Inr v k that(1) [of "b + x"] show ?thesis by (simp add: slab_pointer_def zero_copy_def)
  qed
qed

text \<open>The world between the steps of a kernel: only the allocator's caches and the timer have moved.\<close>

definition still :: "'d world \<Rightarrow> 'd world \<Rightarrow> bool" where
  "still w w' \<longleftrightarrow> unchanged (w_alloc w) (w_alloc w') \<and> w_dev w' = w_dev w \<and> w_timer w' = w_timer w"

lemma readable_base_ok:
  assumes inv: "alloc_inv (w_alloc w)" and d: "contents (w_alloc w) h = Some d"
    and rng: "0 \<le> off" "0 < n" "off + n \<le> int (length d)"
  obtains p extra w' where "readable_base h off n bufs w = (Inr (p, bufs @ extra), w')" "still w w'"
    "stands_for (w_alloc w') (bufs @ extra) (h, off, py_slice d off (off + n)) p"
proof -
  let ?a = "w_alloc w" and ?xs = "py_slice d off (off + n)"
  have len: "int (length ?xs) = n" "0 < length ?xs" using rng length_py_slice [of off "off + n" d] by auto
  from inv d rng show ?thesis
  proof (cases rule: slab_pointer_cases)
    case (1 v)
    show ?thesis
    proof (rule that [of "PVa v" "[]" w])
      show "readable_base h off n bufs w = (Inr (PVa v, bufs @ []), w)"
        using 1 by (simp add: readable_base_def get_slab_pointer_def py_simps)
      show "stands_for (w_alloc w) (bufs @ []) (h, off, ?xs) (PVa v)"
        using d rng len 1 by (simp add: stands_for_def)
    qed (simp add: still_def)
  next
    case (2 e)
    from read_tensor_ok [OF inv d rng(1) _ rng(3), of True] rng(2) obtain a' where
      a': "read_tensor h off n True ?a = (Inr ?xs, a')" "same_shape ?a a'" "contents a' = contents ?a" by auto
    let ?w = "w\<lparr>w_alloc := a'\<rparr>"
    show ?thesis
    proof (rule that [of "PBuf (length bufs) 0" "[?xs]" ?w])
      show "readable_base h off n bufs w = (Inr (PBuf (length bufs) 0, bufs @ [?xs]), ?w)"
        using 2 a'(1) by (auto simp: readable_base_def get_slab_pointer_def on_alloc_def py_simps)
      show "stands_for (w_alloc ?w) (bufs @ [?xs]) (h, off, ?xs) (PBuf (length bufs) 0)"
        using d rng len a'(3) by (simp add: stands_for_def)
    qed (simp add: still_def unchanged_def a')
  qed
qed

section \<open>The steps of a glue kernel\<close>

definition arg_range :: "dict \<Rightarrow> (int \<Rightarrow> byte list option) \<Rightarrow> string \<times> string \<times> int \<Rightarrow> (int \<times> int \<times> byte list) option" where
  "arg_range op c = (\<lambda>(handle_field, offset_field, n).
     case (required_int op handle_field, optional_int op offset_field 0) of
       (Inr h, Inr off) \<Rightarrow>
         (case c h of
            None \<Rightarrow> None
          | Some d \<Rightarrow> if 0 < n \<and> off + n \<le> int (length d) then Some (h, off, py_slice d off (off + n)) else None)
     | _ \<Rightarrow> None)"

lemma arg_range_Some:
  assumes "arg_range op c (hf, ofs, n) = Some (h, off, xs)"
  obtains d where "required_int op hf = Inr h" "optional_int op ofs 0 = Inr off" "c h = Some d"
    "0 \<le> off" "0 < n" "off + n \<le> int (length d)" "xs = py_slice d off (off + n)"
  using assms optional_int_nonneg [of op ofs 0 off]
  by (auto simp: arg_range_def split: sum.splits option.splits if_splits)

definition moved :: "int \<Rightarrow> int \<Rightarrow> 'd world \<Rightarrow> 'd world \<Rightarrow> bool" where
  "moved rd wr w w' \<longleftrightarrow> w_dev w' = w_dev w \<and> tm_profile (w_timer w') = tm_profile (w_timer w) \<and>
     tm_bytes_read (w_timer w') = tm_bytes_read (w_timer w) + rd \<and>
     tm_bytes_written (w_timer w') = tm_bytes_written (w_timer w) + wr"

lemma moved_trans: "moved a b u v \<Longrightarrow> moved c d v w \<Longrightarrow> moved (a + c) (b + d) u w"
  by (simp add: moved_def)

lemma moved_quiet: "moved a b w w' \<Longrightarrow> quiet w \<Longrightarrow> quiet w'"
  by (simp add: moved_def quiet_def)

lemma still_moved: "still w w' \<Longrightarrow> moved 0 0 w w'"
  by (simp add: still_def moved_def)

lemma section_quiet: "quiet w \<Longrightarrow> timer_section env nm body w = body w"
  by (simp add: timer_section_def quiet_def py_simps)

lemma timer_add_run:
  obtains w' where "timer_add key v w = (Inr (), w')" "w_alloc w' = w_alloc w"
    "moved (if key = ''bytes_read'' then v else 0) (if key = ''bytes_written'' then v else 0) w w'"
proof -
  have "tm_profile (add_field key v t) = tm_profile t" for t
    by (simp add: add_field_def Let_def split: option.splits)
  then show ?thesis
    by (intro that [of "w\<lparr>w_timer := add_field key v (w_timer w)\<rparr>"])
       (auto simp: timer_add_def upd_timer_def moved_def add_field_counters)
qed

lemma in_field_ok:
  assumes q: "quiet w" and inv: "alloc_inv (w_alloc w)" and r: "arg_range op (contents (w_alloc w)) (hf, ofs, n) = Some r"
  obtains p extra w' where "in_field env op hf ofs n bufs w = (Inr (p, bufs @ extra), w')"
    "unchanged (w_alloc w) (w_alloc w')" "moved n 0 w w'" "stands_for (w_alloc w') (bufs @ extra) r p"
proof -
  obtain h off xs where r': "r = (h, off, xs)" by (cases r)
  from r obtain d where f: "required_int op hf = Inr h" "optional_int op ofs 0 = Inr off"
    and d: "contents (w_alloc w) h = Some d" and rng: "0 \<le> off" "0 < n" "off + n \<le> int (length d)"
    and xs: "xs = py_slice d off (off + n)" unfolding r' by (rule arg_range_Some)
  obtain p extra w1 where b: "readable_base h off n bufs w = (Inr (p, bufs @ extra), w1)" "still w w1"
    "stands_for (w_alloc w1) (bufs @ extra) (h, off, xs) p"
    using readable_base_ok [OF inv d rng, of bufs] xs by metis
  obtain w2 where t: "timer_add ''bytes_read'' n w1 = (Inr (), w2)" "w_alloc w2 = w_alloc w1" "moved n 0 w1 w2"
    by (rule timer_add_run [of "''bytes_read''" n w1]) auto
  show ?thesis
  proof (rule that [of p extra w2])
    show "in_field env op hf ofs n bufs w = (Inr (p, bufs @ extra), w2)"
      using f b(1) t(1) q by (simp add: in_field_def in_ptr_def py_simps section_quiet)
    show "moved n 0 w w2" using moved_trans [OF still_moved [OF b(2)] t(3)] by simp
  qed (use b t r' in \<open>auto simp: still_def\<close>)
qed

lemma in_fields_ok:
  assumes "quiet w" "alloc_inv (w_alloc w)" "those (map (arg_range op (contents (w_alloc w))) ins) = Some rs"
  shows "\<exists>ps extra w'. in_fields env op ins bufs w = (Inr (ps, bufs @ extra), w') \<and> unchanged (w_alloc w) (w_alloc w') \<and>
    moved (\<Sum>(hf, ofs, n)\<leftarrow>ins. n) 0 w w' \<and> list_all2 (stands_for (w_alloc w') (bufs @ extra)) rs ps"
  using assms
proof (induction ins arbitrary: w rs bufs)
  case Nil
  then show ?case by (auto simp: moved_def intro!: exI [of _ "[]"])
next
  case (Cons f ins)
  obtain hf ofs n where f: "f = (hf, ofs, n)" by (cases f)
  from Cons.prems(3) f obtain r rs' where r: "arg_range op (contents (w_alloc w)) (hf, ofs, n) = Some r"
    and rs': "those (map (arg_range op (contents (w_alloc w))) ins) = Some rs'" and rs: "rs = r # rs'"
    by (auto split: option.splits)
  obtain p extra w1 where p: "in_field env op hf ofs n bufs w = (Inr (p, bufs @ extra), w1)"
    "unchanged (w_alloc w) (w_alloc w1)" "moved n 0 w w1" "stands_for (w_alloc w1) (bufs @ extra) r p"
    using in_field_ok [OF Cons.prems(1,2) r] .
  have inv1: "alloc_inv (w_alloc w1)" using p(2) Cons.prems(2) by (rule unchanged_inv)
  have rs1: "those (map (arg_range op (contents (w_alloc w1))) ins) = Some rs'"
    using rs' p(2) by (simp add: unchanged_def)
  obtain ps extra' w2 where q: "in_fields env op ins (bufs @ extra) w1 = (Inr (ps, (bufs @ extra) @ extra'), w2)"
      "unchanged (w_alloc w1) (w_alloc w2)" "moved (\<Sum>(hf, ofs, n)\<leftarrow>ins. n) 0 w1 w2"
      "list_all2 (stands_for (w_alloc w2) ((bufs @ extra) @ extra')) rs' ps"
    using Cons.IH [OF moved_quiet [OF p(3) Cons.prems(1)] inv1 rs1, of "bufs @ extra"] by blast
  have "in_fields env op (f # ins) bufs w = (Inr (p # ps, bufs @ extra @ extra'), w2)"
    using p(1) q(1) by (simp add: f py_simps)
  moreover have "unchanged (w_alloc w) (w_alloc w2)" using p(2) q(2) by (rule unchanged_trans)
  moreover have "moved (\<Sum>(hf, ofs, n)\<leftarrow>f # ins. n) 0 w w2" using moved_trans [OF p(3) q(3)] by (simp add: f)
  moreover have "list_all2 (stands_for (w_alloc w2) (bufs @ extra @ extra')) rs (p # ps)"
    using stands_for_mono [OF inv1 q(2) p(4), of extra'] q(4) rs by simp
  ultimately show ?case by blast
qed

section \<open>Where the ranges lie\<close>

lemma slab_view_addrs:
  assumes inv: "alloc_inv a" and v: "slab_view a h off n = Inr (i, x, k)"
  obtains r where "map_of (al_records a) h = Some r" "take (nat n) (drop (nat off) (addrs (tr_extents r))) = run_addrs i x (nat n)"
proof -
  from v obtain r where r: "map_of (al_records a) h = Some r" and o: "0 \<le> off" "0 \<le> n"
    and ve: "view_extents 0 off n (tr_extents r) = Inr (i, x, k)"
    by (auto simp: slab_view_def get_record_def bindR_def not_less split: option.splits if_splits)
  from view_extents_addrs [OF ve record_extents_ok(1) [OF inv r] o] r show ?thesis by (intro that) auto
qed

lemma disjoint_slices:
  assumes "distinct xs" "a + n \<le> b"
  shows "set (take n (drop a xs)) \<inter> set (take m (drop b xs)) = {}"
proof -
  have "set (take n (drop a xs)) \<subseteq> set (take (a + n) xs)" by (metis add.commute set_drop_subset take_drop)
  moreover have "set (take m (drop b xs)) \<subseteq> set (drop b xs)" by (rule set_take_subset)
  ultimately show ?thesis using set_take_disj_set_drop_if_distinct [OF assms] by blast
qed

text \<open>The ranges a kernel reads and writes: other tensors, no overlap, or in place.\<close>

definition compatible :: "int \<times> int \<Rightarrow> int \<Rightarrow> int \<times> int \<Rightarrow> int \<Rightarrow> bool" where
  "compatible = (\<lambda>(h, off) n (h', off') n'. h \<noteq> h' \<or> off + n \<le> off' \<or> off' + n' \<le> off \<or> off = off' \<and> n = n')"

lemma views_disjoint:
  assumes inv: "alloc_inv a" and v: "slab_view a h off n = Inr (i, x, n)" "slab_view a h' off' n' = Inr (j, y, n')"
    and pos: "0 < n" "0 < n'" and c: "h \<noteq> h' \<or> off + n \<le> off' \<or> off' + n' \<le> off"
  shows "i \<noteq> j \<or> x + n \<le> y \<or> y + n' \<le> x"
proof -
  from slab_view_addrs [OF inv v(1)] obtain r where
    r: "map_of (al_records a) h = Some r" "take (nat n) (drop (nat off) (addrs (tr_extents r))) = run_addrs i x (nat n)" .
  from slab_view_addrs [OF inv v(2)] obtain r' where
    r': "map_of (al_records a) h' = Some r'" "take (nat n') (drop (nat off') (addrs (tr_extents r'))) = run_addrs j y (nat n')" .
  have off: "0 \<le> off" "0 \<le> off'" using v by (auto elim: slab_view_spec [OF inv])
  have "set (run_addrs i x (nat n)) \<inter> set (run_addrs j y (nat n')) = {}"
  proof (cases "h = h'")
    case True
    then have rr: "r' = r" using r r' by simp
    have da: "distinct (addrs (tr_extents r))" using inv r(1) by (rule record_addrs_distinct(1))
    from True c have "nat off + nat n \<le> nat off' \<or> nat off' + nat n' \<le> nat off" using pos off by linarith
    then show ?thesis using disjoint_slices [OF da] unfolding r(2) [symmetric] r'(2) [symmetric] rr by blast
  next
    case neq: False
    have "set (addrs (tr_extents r)) \<inter> set (addrs (tr_extents r')) = {}"
      using record_addrs_distinct(2) [OF inv r(1) r'(1)] neq by blast
    then show ?thesis unfolding r(2) [symmetric] r'(2) [symmetric] by (auto dest!: in_set_takeD in_set_dropD)
  qed
  then have "(i, max x y) \<notin> set (run_addrs i x (nat n)) \<or> (i, max x y) \<notin> set (run_addrs j y (nat n'))" by blast
  then show ?thesis using pos by (auto simp: set_run_addrs)
qed

lemma views_apart:
  assumes "alloc_inv a" "slab_view a h off n = Inr (i, x, n)" "slab_view a h' off' n' = Inr (j, y, n')"
    and "0 < n" "0 < n'" "compatible (h, off) n (h', off') n'"
  shows "i \<noteq> j \<or> x + n \<le> y \<or> y + n' \<le> x \<or> x = y \<and> n = n'"
proof (cases "h = h' \<and> off = off' \<and> n = n'")
  case True
  with assms(2,3) show ?thesis by simp
next
  case False
  with assms(6) have "h \<noteq> h' \<or> off + n \<le> off' \<or> off' + n' \<le> off" by (auto simp: compatible_def)
  from views_disjoint [OF assms(1-5) this] show ?thesis by blast
qed

abbreviation native_mem :: "allocator \<Rightarrow> byte list list \<Rightarrow> (scratch_key \<times> byte list) list \<Rightarrow> cmem" where
  "native_mem a bufs scr \<equiv> \<lparr>cm_slabs = al_slabs a, cm_bufs = bufs, cm_scratch = scr\<rparr>"

lemma zero_copy_resolve:
  assumes inv: "alloc_inv a" and va: "va_disjoint (al_slabs a)" and z: "zero_copy a h off n p" and n: "0 < n"
  obtains i x d b where "slab_view a h off n = Inr (i, x, n)" "resolve (al_slabs a) p n = Some (RSlab i, x)"
    "i < length (al_slabs a)" "0 \<le> x" "x + n \<le> int (length (buf (al_slabs a ! i)))" "contents a h = Some d"
    "py_slice (buf (al_slabs a ! i)) x (x + n) = py_slice d off (off + n)"
proof -
  from z obtain i x b where v: "slab_view a h off n = Inr (i, x, n)" "base_va (al_slabs a ! i) = Some b" "p = PVa (b + x)"
    by (auto simp: zero_copy_def)
  from slab_view_spec [OF inv v(1)] obtain d where
    d: "contents a h = Some d" "i < length (al_slabs a)" "0 \<le> x" "x + n \<le> slab_size (al_slabs a ! i)"
      "py_slice (buf (al_slabs a ! i)) x (x + n) = py_slice d off (off + n)" .
  have "slab_size (al_slabs a ! i) = int (length (buf (al_slabs a ! i)))" using inv d(2) by (simp add: alloc_inv_def slabs_ok_def)
  with v d resolve_va [OF va d(2) v(2) d(3) n d(4)] that show ?thesis by auto
qed

lemma stands_for_load:
  assumes inv: "alloc_inv a" and va: "va_disjoint (al_slabs a)" and s: "stands_for a bufs (h, off, xs) p"
  shows "c_load (native_mem a bufs scr) p (int (length xs)) = Some xs"
proof -
  from s have pos: "0 < int (length xs)" and alt: "zero_copy a h off (int (length xs)) p \<or> (\<exists>j < length bufs. p = PBuf j 0 \<and> bufs ! j = xs)"
    by (auto simp: stands_for_def)
  from alt show ?thesis
  proof
    assume z: "zero_copy a h off (int (length xs)) p"
    from zero_copy_resolve [OF inv va z pos] obtain i x d where
      "resolve (al_slabs a) p (int (length xs)) = Some (RSlab i, x)" "i < length (al_slabs a)" "0 \<le> x"
      "x + int (length xs) \<le> int (length (buf (al_slabs a ! i)))" "contents a h = Some d"
      "py_slice (buf (al_slabs a ! i)) x (x + int (length xs)) = py_slice d off (off + int (length xs))" by metis
    with s show ?thesis by (simp add: c_load_def stands_for_def)
  next
    assume "\<exists>j < length bufs. p = PBuf j 0 \<and> bufs ! j = xs"
    then show ?thesis by (auto simp: c_load_def py_slice_in)
  qed
qed

lemma apart_zero_copy:
  assumes inv: "alloc_inv a" and va: "va_disjoint (al_slabs a)" and s: "stands_for a bufs (h, off, xs) p"
    and z: "zero_copy a h' off' n q" "0 < n" and c: "compatible (h, off) (int (length xs)) (h', off') n"
  shows "apart (al_slabs a) p (int (length xs)) q n"
proof -
  from s have pos: "0 < int (length xs)" and alt: "zero_copy a h off (int (length xs)) p \<or> (\<exists>j. p = PBuf j 0)"
    by (auto simp: stands_for_def)
  from zero_copy_resolve [OF inv va z] obtain j y where
    q: "slab_view a h' off' n = Inr (j, y, n)" "resolve (al_slabs a) q n = Some (RSlab j, y)" by blast
  from alt show ?thesis
  proof
    assume "zero_copy a h off (int (length xs)) p"
    from zero_copy_resolve [OF inv va this pos] obtain i x where
      p: "slab_view a h off (int (length xs)) = Inr (i, x, int (length xs))" "resolve (al_slabs a) p (int (length xs)) = Some (RSlab i, x)" by blast
    from views_apart [OF inv p(1) q(1) pos z(2) c] p q show ?thesis by (auto simp: apart_def)
  next
    assume "\<exists>j. p = PBuf j 0"
    with q show ?thesis by (auto simp: apart_def)
  qed
qed

section \<open>The call and the result\<close>

definition sizes_of :: "(int \<times> int \<times> byte list) list \<Rightarrow> int list" where
  "sizes_of rs = map (\<lambda>(h, off, xs). int (length xs)) rs"

definition bytes_of_args :: "(int \<times> int \<times> byte list) list \<Rightarrow> byte list list" where
  "bytes_of_args rs = map (\<lambda>(h, off, xs). xs) rs"

lemma loads_ok:
  assumes "alloc_inv a" "va_disjoint (al_slabs a)" "list_all2 (stands_for a bufs) rs ps"
  shows "list_all2 (\<lambda>(p, k) x. c_load (native_mem a bufs scr) p k = Some x) (zip ps (sizes_of rs)) (bytes_of_args rs)"
  using assms(3)
  by (induction rs ps rule: list_all2_induct)
     (auto simp: sizes_of_def bytes_of_args_def intro: stands_for_load [OF assms(1,2)])

lemma computesD:
  assumes "computes lib symb args ns n F" "list_all2 (\<lambda>(p, k) x. c_load m p k = Some x) (zip ps ns) xs" "length ps = length ns"
    "c_load m dst n \<noteq> None" "\<forall>(p, k) \<in> set (zip ps ns). apart (cm_slabs m) p k dst n"
  shows "int (length (F xs)) = n \<and> cl_call lib symb (args ps dst) m = (0, c_store m dst (F xs))"
  using assms unfolding computes_def by blast

lemma call_computes:
  assumes inv: "alloc_inv (w_alloc w)" and va: "va_disjoint (al_slabs (w_alloc w))"
    and s: "list_all2 (stands_for (w_alloc w) bufs) rs ps" and lib: "computes lib symb args (sizes_of rs) n F"
    and q: "c_load (native_mem (w_alloc w) bufs (scratch_bufs (w_dev w))) q n \<noteq> None"
    and ap: "\<forall>(p, k) \<in> set (zip ps (sizes_of rs)). apart (al_slabs (w_alloc w)) p k q n"
  defines "m' \<equiv> c_store (native_mem (w_alloc w) bufs (scratch_bufs (w_dev w))) q (F (bytes_of_args rs))"
  shows "int (length (F (bytes_of_args rs))) = n \<and>
    checked_call lib symb (args ps q) bufs w =
      (Inr (cm_bufs m'), w\<lparr>w_alloc := (w_alloc w)\<lparr>al_slabs := cm_slabs m'\<rparr>, w_dev := (w_dev w)\<lparr>scratch_bufs := cm_scratch m'\<rparr>\<rparr>)"
proof -
  let ?m = "native_mem (w_alloc w) bufs (scratch_bufs (w_dev w))"
  have len: "length ps = length (sizes_of rs)" using s by (auto simp: sizes_of_def dest: list_all2_lengthD)
  have "int (length (F (bytes_of_args rs))) = n \<and> cl_call lib symb (args ps q) ?m = (0, m')"
    unfolding m'_def using ap by (intro computesD [OF lib loads_ok [OF inv va s] len q]) simp
  then show ?thesis by (simp add: checked_call_def call_native_def py_simps)
qed

text \<open>Bytes stored in the slab behind a view of a tensor are a slice assignment to the tensor.\<close>

definition store_slab :: "nat \<Rightarrow> int \<Rightarrow> byte list \<Rightarrow> slab list \<Rightarrow> slab list" where
  "store_slab i x out slabs =
     slabs[i := (slabs ! i)\<lparr>buf := slice_assign (buf (slabs ! i)) x (x + int (length out)) out\<rparr>]"

lemma slab_store_contents:
  assumes inv: "alloc_inv a" and v: "slab_view a h off (int (length out)) = Inr (i, x, k)" and d: "contents a h = Some d"
  shows "same_shape a (a\<lparr>al_slabs := store_slab i x out (al_slabs a)\<rparr>) \<and>
    contents (a\<lparr>al_slabs := store_slab i x out (al_slabs a)\<rparr>) =
      (contents a)(h \<mapsto> slice_assign d off (off + int (length out)) out)"
proof -
  let ?s = "(al_slabs a ! i)\<lparr>buf := slice_assign (buf (al_slabs a ! i)) x (x + int (length out)) out\<rparr>"
  let ?a' = "a\<lparr>al_slabs := store_slab i x out (al_slabs a)\<rparr>"
  from slab_view_spec [OF inv v] have
    i: "i < length (al_slabs a)" "0 \<le> x" and sz: "x + int (length out) \<le> slab_size (al_slabs a ! i)" by blast+
  have fits: "x + int (length out) \<le> int (length (buf (al_slabs a ! i)))" using inv i(1) sz by (simp add: alloc_inv_def slabs_ok_def)
  have "slab_similar (al_slabs a ! i) ?s" using length_slice_assign [OF i(2) fits] by (simp add: slab_similar_def)
  then have sh: "same_shape a ?a'" using set_slab_same_shape [OF i(1)] by (simp add: set_slab_def store_slab_def)
  from slab_view_addrs [OF inv v] obtain r where
    r: "map_of (al_records a) h = Some r" "take (nat (int (length out))) (drop (nat off) (addrs (tr_extents r))) = run_addrs i x (nat (int (length out)))" .
  have nb: "0 \<le> off" "off + int (length out) \<le> tr_nbytes r"
    using slab_view_spec [OF inv v] contents_length [OF inv r(1)] r(1) by (auto simp: contents_def)
  have "mem (al_slabs ?a') = upd (mem (al_slabs a)) (run_addrs i x (length out)) out"
    using mem_write_piece [OF i, of out ?s] fits by (simp add: store_slab_def)
  then have "contents ?a' = (contents a)(h \<mapsto> slice_assign d off (off + int (length out)) out)"
    using nb r(2) by (intro contents_upd [OF inv r(1) _ _ _ _ d]) auto
  with sh show ?thesis by blast
qed

lemma call_zero_copy:
  assumes inv: "alloc_inv (w_alloc w)" and va: "va_disjoint (al_slabs (w_alloc w))"
    and s: "list_all2 (stands_for (w_alloc w) bufs) rs ps" and lib: "computes lib symb args (sizes_of rs) n F"
    and z: "zero_copy (w_alloc w) h off n q" "0 < n" and d: "contents (w_alloc w) h = Some d"
    and c: "\<forall>(h', off', xs) \<in> set rs. compatible (h', off') (int (length xs)) (h, off) n"
  obtains w' where "checked_call lib symb (args ps q) bufs w = (Inr bufs, w')"
    "same_shape (w_alloc w) (w_alloc w')" "moved 0 0 w w'"
    "contents (w_alloc w') = (contents (w_alloc w))(h \<mapsto> slice_assign d off (off + n) (F (bytes_of_args rs)))"
proof -
  let ?a = "w_alloc w" and ?out = "F (bytes_of_args rs)"
  from zero_copy_resolve [OF inv va z] obtain i x where
    v: "slab_view ?a h off n = Inr (i, x, n)" "resolve (al_slabs ?a) q n = Some (RSlab i, x)" "i < length (al_slabs ?a)"
      "0 \<le> x" "x + n \<le> int (length (buf (al_slabs ?a ! i)))" by metis
  have "\<forall>(p, k) \<in> set (zip ps (sizes_of rs)). apart (al_slabs ?a) p k q n"
    using s c by (induction rs ps rule: list_all2_induct) (auto simp: sizes_of_def intro: apart_zero_copy [OF inv va _ z])
  from call_computes [OF inv va s lib _ this] v have
    len: "int (length ?out) = n" and call: "checked_call lib symb (args ps q) bufs w =
      (Inr bufs, w\<lparr>w_alloc := ?a\<lparr>al_slabs := (al_slabs ?a)[i := (al_slabs ?a ! i)\<lparr>buf := slice_assign (buf (al_slabs ?a ! i)) x (x + n) ?out\<rparr>]\<rparr>\<rparr>)"
    by (auto simp: c_load_def c_store_def)
  from slab_store_contents [OF inv _ d, of off ?out i x n] v(1) len call show ?thesis
    by (intro that [of "w\<lparr>w_alloc := ?a\<lparr>al_slabs := store_slab i x ?out (al_slabs ?a)\<rparr>\<rparr>"]) (auto simp: moved_def store_slab_def)
qed

lemma call_buffered:
  assumes inv: "alloc_inv (w_alloc w)" and va: "va_disjoint (al_slabs (w_alloc w))"
    and s: "list_all2 (stands_for (w_alloc w) bufs) rs ps" and lib: "computes lib symb args (sizes_of rs) n F" and n: "0 < n"
  shows "int (length (F (bytes_of_args rs))) = n \<and>
    checked_call lib symb (args ps (PBuf (length bufs) 0)) (bufs @ [replicate (nat n) 0]) w =
      (Inr (bufs @ [F (bytes_of_args rs)]), w)"
proof -
  let ?bufs = "bufs @ [replicate (nat n) 0]"
  have s': "list_all2 (stands_for (w_alloc w) ?bufs) rs ps"
    using s by (rule list_all2_mono) (rule stands_for_mono [OF inv unchanged_refl])
  have one: "apart (al_slabs (w_alloc w)) p k (PBuf (length bufs) 0) n" if "stands_for (w_alloc w) bufs (h, off, xs) p" "k = int (length xs)" for p k h off xs
  proof -
    from that consider "zero_copy (w_alloc w) h off k p" "0 < k" | j where "j < length bufs" "p = PBuf j 0"
      by (auto simp: stands_for_def)
    then show ?thesis
    proof cases
      case 1
      from zero_copy_resolve [OF inv va this] obtain i x where "resolve (al_slabs (w_alloc w)) p k = Some (RSlab i, x)" by metis
      then show ?thesis by (simp add: apart_def)
    qed (simp add: apart_def)
  qed
  have ap: "\<forall>(p, k) \<in> set (zip ps (sizes_of rs)). apart (al_slabs (w_alloc w)) p k (PBuf (length bufs) 0) n"
    using s by (induction rs ps rule: list_all2_induct) (auto simp: sizes_of_def intro: one)
  have "c_load (native_mem (w_alloc w) ?bufs (scratch_bufs (w_dev w))) (PBuf (length bufs) 0) n \<noteq> None" using n by (simp add: c_load_def)
  from call_computes [OF inv va s' lib this ap] n show ?thesis
    by (auto simp: c_store_def slice_assign_in)
qed

section \<open>The refinement\<close>

text \<open>What a kernel run leaves: the destination range holds \<open>out\<close>, every other byte of every tensor is as before.\<close>

definition dst_written :: "int \<Rightarrow> int \<Rightarrow> byte list \<Rightarrow> 'd world \<Rightarrow> 'd world \<Rightarrow> bool" where
  "dst_written h off out w w' \<longleftrightarrow> same_shape (w_alloc w) (w_alloc w') \<and>
     (\<exists>d. contents (w_alloc w) h = Some d \<and>
       contents (w_alloc w') = (contents (w_alloc w))(h \<mapsto> slice_assign d off (off + int (length out)) out))"

lemma glue_tail:
  assumes q: "quiet w" and inv: "alloc_inv (w_alloc w)" and va: "va_disjoint (al_slabs (w_alloc w))"
    and s: "list_all2 (stands_for (w_alloc w) bufs) rs ps" and lib: "computes lib symb args (sizes_of rs) n F"
    and dst: "arg_range op (contents (w_alloc w)) (F_DST, F_DST_OFFSET, n) = Some (h, off, old)"
    and c: "\<forall>(h', off', xs) \<in> set rs. compatible (h', off') (int (length xs)) (h, off) n"
  shows "\<exists>w'. py_bind (out_field op n bufs) (\<lambda>(dst, bufs1, finalizers).
      py_bind (timer_section env ''compute'' (checked_call lib symb (args ps dst) bufs1)) (\<lambda>bufs2.
      py_then (run_finalizers env bufs2 finalizers) (timer_add ''bytes_written'' n))) w = (Inr (), w') \<and>
    dst_written h off (F (bytes_of_args rs)) w w' \<and> moved 0 n w w'"
proof -
  let ?a = "w_alloc w" and ?out = "F (bytes_of_args rs)"
  from dst obtain d where f: "required_int op F_DST = Inr h" "optional_int op F_DST_OFFSET 0 = Inr off"
    and d: "contents ?a h = Some d" and rng: "0 \<le> off" "0 < n" "off + n \<le> int (length d)" by (rule arg_range_Some)
  from inv d rng show ?thesis
  proof (cases rule: slab_pointer_cases)
    case (1 v)
    from call_zero_copy [OF inv va s lib 1(2) rng(2) d c] obtain w1 where
      w1: "checked_call lib symb (args ps (PVa v)) bufs w = (Inr bufs, w1)" "same_shape ?a (w_alloc w1)" "moved 0 0 w w1"
        "contents (w_alloc w1) = (contents ?a)(h \<mapsto> slice_assign d off (off + n) ?out)" .
    obtain w2 where w2: "timer_add ''bytes_written'' n w1 = (Inr (), w2)" "w_alloc w2 = w_alloc w1" "moved 0 n w1 w2"
      by (rule timer_add_run [of "''bytes_written''" n w1]) auto
    have "int (length ?out) = n"
      using call_buffered [OF inv va s lib rng(2)] by blast
    then show ?thesis using f 1 w1 w2 d q moved_trans [OF w1(3) w2(3)]
      by (auto simp: out_field_def out_ptr_def writable_base_def get_slab_pointer_def py_simps section_quiet run_finalizers_def dst_written_def)
  next
    case (2 e)
    from call_buffered [OF inv va s lib rng(2)] have len: "int (length ?out) = n" and
      call: "checked_call lib symb (args ps (PBuf (length bufs) 0)) (bufs @ [replicate (nat n) 0]) w = (Inr (bufs @ [?out]), w)" by auto
    from write_tensor_ok [OF inv d rng(1), of ?out False] len rng(3) obtain a' where
      a': "write_tensor h off ?out False ?a = (Inr (), a')" "same_shape ?a a'"
        "contents a' = (contents ?a)(h \<mapsto> slice_assign d off (off + n) ?out)" by auto
    let ?w1 = "w\<lparr>w_alloc := a'\<rparr>"
    have q1: "quiet ?w1" using q by (simp add: quiet_def)
    obtain w2 where w2: "timer_add ''bytes_written'' n ?w1 = (Inr (), w2)" "w_alloc w2 = a'" "moved 0 n ?w1 w2"
      by (rule timer_add_run [of "''bytes_written''" n ?w1]) auto
    have "moved 0 n w w2" using w2(3) by (simp add: moved_def)
    moreover have "get_slab_pointer h off n w = (Inl e, w)" using 2 by (simp add: get_slab_pointer_def py_simps)
    ultimately show ?thesis using f 2(2) call w2 d q a' len rng
      by (auto simp: out_field_def out_ptr_def writable_base_def py_simps section_quiet run_finalizers_def run_finalizer_def
          on_alloc_def dst_written_def)
  qed
qed

lemma glue_quiet:
  assumes q: "quiet w" and inv: "alloc_inv (w_alloc w)" and va: "va_disjoint (al_slabs (w_alloc w))"
    and ins: "those (map (arg_range op (contents (w_alloc w))) inputs) = Some rs"
    and dst: "arg_range op (contents (w_alloc w)) (F_DST, F_DST_OFFSET, n) = Some (h, off, old)"
    and lib: "computes lib symb args (sizes_of rs) n F"
    and c: "\<forall>(h', off', xs) \<in> set rs. compatible (h', off') (int (length xs)) (h, off) n"
  shows "\<exists>w'. glue env lib symb op inputs n args w = (Inr (), w') \<and>
    dst_written h off (F (bytes_of_args rs)) w w' \<and> moved (\<Sum>(hf, ofs, k)\<leftarrow>inputs. k) n w w'"
proof -
  obtain ps bufs w1 where w1: "in_fields env op inputs [] w = (Inr (ps, bufs), w1)" "unchanged (w_alloc w) (w_alloc w1)"
    "moved (\<Sum>(hf, ofs, k)\<leftarrow>inputs. k) 0 w w1" "list_all2 (stands_for (w_alloc w1) bufs) rs ps"
    using in_fields_ok [OF q inv ins, of env "[]"] by auto
  have inv1: "alloc_inv (w_alloc w1)" using w1(2) inv by (rule unchanged_inv)
  have sh: "same_shape (w_alloc w) (w_alloc w1)" and co: "contents (w_alloc w1) = contents (w_alloc w)"
    using w1(2) by (auto simp: unchanged_def)
  have va1: "va_disjoint (al_slabs (w_alloc w1))"
    using va similar_nth [OF sh] same_shape_length [OF sh] unfolding va_disjoint_def slab_similar_def by (metis (no_types, lifting))
  have dst1: "arg_range op (contents (w_alloc w1)) (F_DST, F_DST_OFFSET, n) = Some (h, off, old)" using dst co by simp
  from glue_tail [OF moved_quiet [OF w1(3) q] inv1 va1 w1(4) lib dst1 c, of env] obtain w2 where
    w2: "py_bind (out_field op n bufs) (\<lambda>(dst, bufs1, finalizers).
      py_bind (timer_section env ''compute'' (checked_call lib symb (args ps dst) bufs1)) (\<lambda>bufs2.
      py_then (run_finalizers env bufs2 finalizers) (timer_add ''bytes_written'' n))) w1 = (Inr (), w2)"
      "dst_written h off (F (bytes_of_args rs)) w1 w2" "moved 0 n w1 w2" by blast
  have "glue env lib symb op inputs n args w = (Inr (), w2)"
    using w1(1) w2(1) by (simp add: glue_def py_bind_run [of "in_fields env op inputs []"])
  moreover have "dst_written h off (F (bytes_of_args rs)) w w2"
    using w2(2) sh co by (auto simp: dst_written_def intro: same_shape_trans)
  ultimately show ?thesis using moved_trans [OF w1(3) w2(3)] by auto
qed

text \<open>With profiling on or off: the run is agnostic of it.\<close>

definition counted :: "int \<Rightarrow> int \<Rightarrow> 'd world \<Rightarrow> 'd world \<Rightarrow> bool" where
  "counted rd wr w w' \<longleftrightarrow> w_dev w' = w_dev w \<and> tm_bytes_read (w_timer w') = tm_bytes_read (w_timer w) + rd \<and>
     tm_bytes_written (w_timer w') = tm_bytes_written (w_timer w) + wr"

lemma glue_refines:
  assumes ok: "timer_ok (w_timer w)" and inv: "alloc_inv (w_alloc w)" and va: "va_disjoint (al_slabs (w_alloc w))"
    and ins: "those (map (arg_range op (contents (w_alloc w))) inputs) = Some rs"
    and dst: "arg_range op (contents (w_alloc w)) (F_DST, F_DST_OFFSET, n) = Some (h, off, old)"
    and lib: "computes lib symb args (sizes_of rs) n F"
    and c: "\<forall>(h', off', xs) \<in> set rs. compatible (h', off') (int (length xs)) (h, off) n"
  shows "\<exists>w'. glue env lib symb op inputs n args w = (Inr (), w') \<and>
    dst_written h off (F (bytes_of_args rs)) w w' \<and> counted (\<Sum>(hf, ofs, k)\<leftarrow>inputs. k) n w w'"
proof -
  let ?v = "w\<lparr>w_timer := (w_timer w)\<lparr>tm_profile := False\<rparr>\<rparr>"
  have q: "quiet ?v" by (simp add: quiet_def)
  have sim: "prof_sim ?v w" using ok by (simp add: prof_sim_def timer_ok_def)
  from glue_quiet [OF q, of op inputs rs n h off old lib symb args F env] inv va ins dst lib c obtain v' where
    v: "glue env lib symb op inputs n args ?v = (Inr (), v')" "dst_written h off (F (bytes_of_args rs)) ?v v'"
      "moved (\<Sum>(hf, ofs, k)\<leftarrow>inputs. k) n ?v v'" by auto
  from prof_agnosticD [OF agnostic_glue sim v(1)] obtain w' where
    w': "glue env lib symb op inputs n args w = (Inr (), w')" "prof_sim v' w'" .
  with v(2,3) show ?thesis by (auto simp: dst_written_def counted_def moved_def prof_sim_def)
qed

end
