(* ===== verification/MatmulSpec.thy ===== *)
theory MatmulSpec
  imports PlSpec GlueSpec LayoutSpec
begin

text \<open>
  The PL matmul refines a function on tensors.  The C entry points and the hardware are specified by what
  they do to the bytes behind virtual and physical addresses (\<open>q1a8_device\<close>); the driver then leaves in
  the destination tensor the results of all row blocks of all columns, however the weights, the activations and
  the destination are cut into extents and the column into chunks.
\<close>

section \<open>Memory by address\<close>

datatype place = InSlab nat | InCma pl_role

fun cells_at :: "'h pl_mem \<Rightarrow> place \<Rightarrow> byte list" where
  "cells_at m (InSlab i) = (if i < length (pm_slabs m) then buf (pm_slabs m ! i) else [])"
| "cells_at m (InCma r) = (case map_of (pm_cma m) r of None \<Rightarrow> [] | Some b \<Rightarrow> cb_cells b)"

fun phys_at :: "'h pl_mem \<Rightarrow> place \<Rightarrow> int option" where
  "phys_at m (InSlab i) = (if i < length (pm_slabs m) \<and> kind (pm_slabs m ! i) = PynqSlab then Some (physical_address (pm_slabs m ! i)) else None)"
| "phys_at m (InCma r) = map_option cb_phys (map_of (pm_cma m) r)"

fun va_at :: "'h pl_mem \<Rightarrow> place \<Rightarrow> int option" where
  "va_at m (InSlab i) = (if i < length (pm_slabs m) then base_va (pm_slabs m ! i) else None)"
| "va_at m (InCma r) = map_option cb_va (map_of (pm_cma m) r)"

fun set_at :: "place \<Rightarrow> byte list \<Rightarrow> 'h pl_mem \<Rightarrow> 'h pl_mem" where
  "set_at (InSlab i) c m = m\<lparr>pm_slabs := (pm_slabs m)[i := (pm_slabs m ! i)\<lparr>buf := c\<rparr>]\<rparr>"
| "set_at (InCma r) c m =
     (case map_of (pm_cma m) r of None \<Rightarrow> m | Some b \<Rightarrow> m\<lparr>pm_cma := AList.update r (b\<lparr>cb_cells := c\<rparr>) (pm_cma m)\<rparr>)"

type_synonym 'h base = "'h pl_mem \<Rightarrow> place \<Rightarrow> int option"

definition places :: "'h pl_mem \<Rightarrow> place list" where
  "places m = map InSlab [0..<length (pm_slabs m)] @ map (\<lambda>(r, b). InCma r) (pm_cma m)"

definition holds :: "'h base \<Rightarrow> 'h pl_mem \<Rightarrow> int \<Rightarrow> int \<Rightarrow> place \<Rightarrow> bool" where
  "holds base m a n p \<longleftrightarrow> (case base m p of None \<Rightarrow> False | Some b \<Rightarrow> b \<le> a \<and> a + n \<le> b + int (length (cells_at m p)))"

definition find_place :: "'h base \<Rightarrow> 'h pl_mem \<Rightarrow> int \<Rightarrow> int \<Rightarrow> (place \<times> int) option" where
  "find_place base m a n = map_option (\<lambda>p. (p, a - the (base m p))) (List.find (holds base m a n) (places m))"

definition mem_load :: "'h base \<Rightarrow> 'h pl_mem \<Rightarrow> int \<Rightarrow> int \<Rightarrow> byte list option" where
  "mem_load base m a n = map_option (\<lambda>(p, x). py_slice (cells_at m p) x (x + n)) (find_place base m a n)"

definition mem_store :: "'h base \<Rightarrow> 'h pl_mem \<Rightarrow> int \<Rightarrow> byte list \<Rightarrow> 'h pl_mem" where
  "mem_store base m a bs =
     (case find_place base m a (int (length bs)) of
        None \<Rightarrow> m
      | Some (p, x) \<Rightarrow> set_at p (slice_assign (cells_at m p) x (x + int (length bs)) bs) m)"

text \<open>No two places share an address.\<close>

definition spread :: "'h base \<Rightarrow> 'h pl_mem \<Rightarrow> bool" where
  "spread base m \<longleftrightarrow> (\<forall>p q b c. base m p = Some b \<longrightarrow> base m q = Some c \<longrightarrow> p \<noteq> q \<longrightarrow>
     b + int (length (cells_at m p)) \<le> c \<or> c + int (length (cells_at m q)) \<le> b)"

lemma in_places: "phys_at m p = Some b \<Longrightarrow> p \<in> set (places m)" "va_at m p = Some b \<Longrightarrow> p \<in> set (places m)"
  by (cases p; force simp: places_def split: if_splits dest: map_of_SomeD)+

lemma find_place_at:
  assumes "spread base m" "base m p = Some b" "p \<in> set (places m)" "0 \<le> x" "0 < n" "x + n \<le> int (length (cells_at m p))"
  shows "find_place base m (b + x) n = Some (p, x)"
proof -
  have h: "holds base m (b + x) n p" using assms by (simp add: holds_def)
  have u: "q = p" if "holds base m (b + x) n q" for q
  proof (rule ccontr)
    assume "q \<noteq> p"
    from that obtain c where c: "base m q = Some c" "c \<le> b + x" "b + x + n \<le> c + int (length (cells_at m q))"
      by (auto simp: holds_def split: option.splits)
    with assms(1,2) \<open>q \<noteq> p\<close> have "b + int (length (cells_at m p)) \<le> c \<or> c + int (length (cells_at m q)) \<le> b"
      unfolding spread_def by blast
    with c assms show False by auto
  qed
  have "List.find (holds base m (b + x) n) (places m) = Some p"
  proof (cases "List.find (holds base m (b + x) n) (places m)")
    case None
    with h assms(3) show ?thesis by (auto simp: find_None_iff)
  next
    case (Some q)
    then have "holds base m (b + x) n q" by (auto simp: find_Some_iff)
    with u Some show ?thesis by simp
  qed
  with assms(2) show ?thesis by (simp add: find_place_def)
qed

text \<open>A range of addresses lies in a place.\<close>

definition lies :: "'h base \<Rightarrow> 'h pl_mem \<Rightarrow> int \<Rightarrow> int \<Rightarrow> place \<Rightarrow> int \<Rightarrow> bool" where
  "lies base m a n p x \<longleftrightarrow> p \<in> set (places m) \<and> (\<exists>b. base m p = Some b \<and> a = b + x) \<and> 0 \<le> x \<and> 0 < n \<and>
     x + n \<le> int (length (cells_at m p))"

lemma lies_find: "spread base m \<Longrightarrow> lies base m a n p x \<Longrightarrow> find_place base m a n = Some (p, x)"
  using find_place_at [of base m p] by (auto simp: lies_def)

lemma lies_load: "spread base m \<Longrightarrow> lies base m a n p x \<Longrightarrow> mem_load base m a n = Some (py_slice (cells_at m p) x (x + n))"
  by (simp add: mem_load_def lies_find)

lemma lies_store:
  "spread base m \<Longrightarrow> lies base m a (int (length bs)) p x \<Longrightarrow>
   mem_store base m a bs = set_at p (slice_assign (cells_at m p) x (x + int (length bs)) bs) m"
  by (simp add: mem_store_def lies_find)

lemma lies_apart:
  assumes "spread base m" "lies base m a n p x" "lies base m c k q y" "p \<noteq> q \<or> x + n \<le> y \<or> y + k \<le> x"
  shows "a + n \<le> c \<or> c + k \<le> a"
proof -
  from assms(2) obtain b where b: "base m p = Some b" "a = b + x" "0 \<le> x" "x + n \<le> int (length (cells_at m p))" by (auto simp: lies_def)
  from assms(3) obtain b' where b': "base m q = Some b'" "c = b' + y" "0 \<le> y" "y + k \<le> int (length (cells_at m q))" by (auto simp: lies_def)
  show ?thesis
  proof (cases "p = q")
    case True
    with assms(4) b b' show ?thesis by auto
  next
    case False
    with assms(1) b(1) b'(1) have "b + int (length (cells_at m p)) \<le> b' \<or> b' + int (length (cells_at m q)) \<le> b"
      unfolding spread_def by blast
    with b b' show ?thesis by auto
  qed
qed

section \<open>The device\<close>

text \<open>The results of the row blocks of a run: \<open>G\<close> of the block's packed weights and the activation stream.\<close>

definition rowblocks_out :: "(byte list \<Rightarrow> byte list \<Rightarrow> byte list) \<Rightarrow> int \<Rightarrow> int \<Rightarrow> byte list \<Rightarrow> byte list \<Rightarrow> byte list" where
  "rowblocks_out G pb nrb wb ab = concat (map (\<lambda>i. G (py_slice wb (i * pb) (i * pb + pb)) ab) (py_range nrb))"

definition u32 :: "int \<Rightarrow> bool" where
  "u32 n \<longleftrightarrow> 0 \<le> n \<and> n < 2 ^ 32"

definition quantizes :: "'h pl_lib \<Rightarrow> (byte list \<Rightarrow> byte list \<times> byte list) \<Rightarrow> bool" where
  "quantizes lib Q \<longleftrightarrow> (\<forall>m a k bs. 0 < k \<longrightarrow> u32 k \<longrightarrow> k mod 32 = 0 \<longrightarrow> length (pm_bufs m) = 2 \<longrightarrow> mem_load va_at m a (k * 4) = Some bs \<longrightarrow>
     int (length (fst (Q bs))) = k \<and> int (length (snd (Q bs))) = k div 32 * 2 \<and>
     cl_pl_call lib ''bonsai_quantize_q8_0_pl'' [CPtr (PVa a), c_uint32 k, CPtr (PBuf 0 0), CPtr (PBuf 1 0)] m =
       (0, m\<lparr>pm_bufs := [fst (Q bs), snd (Q bs)]\<rparr>))"

text \<open>\<open>bonsai_q1a8_pack_acts\<close> writes the stream that \<open>q1a8_layout.pack_acts\<close> defines.\<close>

definition packs :: "'h pl_lib \<Rightarrow> bool" where
  "packs lib \<longleftrightarrow> (\<forall>m va k q s out. u32 k \<longrightarrow> pm_bufs m = [q, s] \<longrightarrow> pack_acts q s k = Inr out \<longrightarrow> mem_load va_at m va (int (length out)) \<noteq> None \<longrightarrow>
     cl_pl_call lib ''bonsai_q1a8_pack_acts'' [CPtr (PBuf 0 0), CPtr (PBuf 1 0), c_uint32 k, CPtr (PVa va)] m = (0, mem_store va_at m va out))"

text \<open>
  A start followed by the wait, with the register blocks at \<open>kr\<close>, \<open>wr\<close>, \<open>ar\<close>: the bytes at the result
  address become the results of the row blocks, provided they overlap neither the weights nor the activations.
\<close>

definition runs_chunks :: "'h pl_lib \<Rightarrow> int \<Rightarrow> int \<Rightarrow> int \<Rightarrow> (byte list \<Rightarrow> byte list \<Rightarrow> byte list) \<Rightarrow> bool" where
  "runs_chunks lib kr wr ar G \<longleftrightarrow> (\<forall>x y. length (G x y) = 32) \<and>
     (\<forall>m wpa apa rpa nq nrb wb ab.
        0 < nq \<longrightarrow> 0 < nrb \<longrightarrow> u32 wpa \<longrightarrow> u32 apa \<longrightarrow> u32 rpa \<longrightarrow> u32 (nrb * (nq * 144)) \<longrightarrow> u32 (nq * 160) \<longrightarrow> pm_bufs m = [] \<longrightarrow>
        mem_load phys_at m wpa (nrb * (nq * 144)) = Some wb \<longrightarrow> mem_load phys_at m apa (nq * 160) = Some ab \<longrightarrow>
        mem_load phys_at m rpa (nrb * 32) \<noteq> None \<longrightarrow>
        rpa + nrb * 32 \<le> wpa \<or> wpa + nrb * (nq * 144) \<le> rpa \<longrightarrow> rpa + nrb * 32 \<le> apa \<or> apa + nq * 160 \<le> rpa \<longrightarrow>
        (\<exists>hw1 hw2 cyc.
           cl_pl_call lib ''bonsai_q1a8_start_matmul_chunk''
             [CPtr (PVa kr), CPtr (PVa wr), CPtr (PVa ar), c_uint32 wpa, c_uint32 (nrb * (nq * 144)), c_uint32 apa, c_uint32 (nq * 160),
              c_uint32 rpa, c_uint32 (nrb * 32), c_uint32 nq, c_uint32 nrb] m = (0, m\<lparr>pm_hw := hw1\<rparr>) \<and>
           cl_pl_call lib ''bonsai_q1a8_wait_matmul_chunk''
             [CPtr (PVa kr), CPtr (PVa wr), CPtr (PVa ar), c_uint32 POLL_LIMIT, CPtr (PBuf 0 0)]
             (m\<lparr>pm_hw := hw1, pm_bufs := [[0, 0, 0, 0]]\<rparr>) =
             (0, (mem_store phys_at m rpa (rowblocks_out G (nq * 144) nrb wb ab))\<lparr>pm_hw := hw2, pm_bufs := [cyc]\<rparr>)))"

lemma runs_chunksD:
  assumes "runs_chunks lib kr wr ar G" "0 < nq" "0 < nrb" "u32 wpa" "u32 apa" "u32 rpa" "u32 (nrb * (nq * 144))" "u32 (nq * 160)"
    "pm_bufs m = []" "mem_load phys_at m wpa (nrb * (nq * 144)) = Some wb" "mem_load phys_at m apa (nq * 160) = Some ab"
    "mem_load phys_at m rpa (nrb * 32) \<noteq> None" "rpa + nrb * 32 \<le> wpa \<or> wpa + nrb * (nq * 144) \<le> rpa"
    "rpa + nrb * 32 \<le> apa \<or> apa + nq * 160 \<le> rpa"
  obtains hw1 hw2 cyc where
    "cl_pl_call lib ''bonsai_q1a8_start_matmul_chunk''
       [CPtr (PVa kr), CPtr (PVa wr), CPtr (PVa ar), c_uint32 wpa, c_uint32 (nrb * (nq * 144)), c_uint32 apa, c_uint32 (nq * 160),
        c_uint32 rpa, c_uint32 (nrb * 32), c_uint32 nq, c_uint32 nrb] m = (0, m\<lparr>pm_hw := hw1\<rparr>)"
    "cl_pl_call lib ''bonsai_q1a8_wait_matmul_chunk'' [CPtr (PVa kr), CPtr (PVa wr), CPtr (PVa ar), c_uint32 POLL_LIMIT, CPtr (PBuf 0 0)]
       (m\<lparr>pm_hw := hw1, pm_bufs := [[0, 0, 0, 0]]\<rparr>) =
       (0, (mem_store phys_at m rpa (rowblocks_out G (nq * 144) nrb wb ab))\<lparr>pm_hw := hw2, pm_bufs := [cyc]\<rparr>)"
  using assms unfolding runs_chunks_def by blast

lemma length_rowblocks_out:
  assumes "runs_chunks lib kr wr ar G" "0 \<le> nrb"
  shows "int (length (rowblocks_out G pb nrb wb ab)) = nrb * 32"
  using assms by (simp add: rowblocks_out_def runs_chunks_def length_concat comp_def sum_list_triv py_range_def)

section \<open>The state of a driver that has its buffers\<close>

abbreviation pl_view :: "'h pl_world \<Rightarrow> byte list list \<Rightarrow> 'h pl_mem" where
  "pl_view w bufs \<equiv> \<lparr>pm_slabs = al_slabs (w_alloc w), pm_bufs = bufs, pm_cma = pl_cma (w_dev w), pm_hw = pl_hw (w_dev w)\<rparr>"

abbreviation put_view :: "'h pl_mem \<Rightarrow> 'h pl_world \<Rightarrow> 'h pl_world" where
  "put_view m w \<equiv> w\<lparr>w_alloc := (w_alloc w)\<lparr>al_slabs := pm_slabs m\<rparr>, w_dev := (w_dev w)\<lparr>pl_cma := pm_cma m, pl_hw := pm_hw m\<rparr>\<rparr>"

definition cma_similar :: "cma \<Rightarrow> cma \<Rightarrow> bool" where
  "cma_similar b b' \<longleftrightarrow> cb_phys b' = cb_phys b \<and> cb_va b' = cb_va b \<and> length (cb_cells b') = length (cb_cells b)"

definition same_dev :: "'h pl_state \<Rightarrow> 'h pl_state \<Rightarrow> bool" where
  "same_dev d d' \<longleftrightarrow> pl_bound d' = pl_bound d \<and> pl_kernel_regs d' = pl_kernel_regs d \<and> pl_dma_w_regs d' = pl_dma_w_regs d \<and>
     pl_dma_a_regs d' = pl_dma_a_regs d \<and> pl_sizes d' = pl_sizes d \<and>
     scratch_count d' = scratch_count d \<and> (\<forall>r. rel_option cma_similar (map_of (pl_cma d) r) (map_of (pl_cma d') r))"

definition pl_kept :: "'h pl_world \<Rightarrow> 'h pl_world \<Rightarrow> bool" where
  "pl_kept w w' \<longleftrightarrow> same_shape (w_alloc w) (w_alloc w') \<and> tm_profile (w_timer w') = tm_profile (w_timer w) \<and> same_dev (w_dev w) (w_dev w')"

lemma cma_similar_refl [simp]: "cma_similar b b"
  by (simp add: cma_similar_def)

lemma same_dev_refl [simp]: "same_dev d d"
  by (simp add: same_dev_def option.rel_refl)

lemma same_dev_trans: "same_dev a b \<Longrightarrow> same_dev b c \<Longrightarrow> same_dev a c"
proof -
  have "transp (rel_option cma_similar)" by (intro option.rel_transp transpI) (simp add: cma_similar_def)
  then show "same_dev a b \<Longrightarrow> same_dev b c \<Longrightarrow> same_dev a c" unfolding same_dev_def by (metis transpD)
qed

lemma pl_kept_refl [simp]: "pl_kept w w"
  by (simp add: pl_kept_def)

lemma pl_kept_trans: "pl_kept u v \<Longrightarrow> pl_kept v w \<Longrightarrow> pl_kept u w"
  by (auto simp: pl_kept_def intro: same_shape_trans same_dev_trans)

text \<open>The memory of a board: slabs of the PYNQ allocator and buffers that share no address, all below 4 GiB.\<close>

definition mem_sane :: "'h pl_world \<Rightarrow> bool" where
  "mem_sane w \<longleftrightarrow> quiet w \<and> alloc_inv (w_alloc w) \<and>
     (\<forall>s \<in> set (al_slabs (w_alloc w)). kind s = PynqSlab \<and> base_va s \<noteq> None) \<and>
     spread phys_at (pl_view w []) \<and> spread va_at (pl_view w []) \<and>
     (\<forall>p b. phys_at (pl_view w []) p = Some b \<longrightarrow> 0 < b \<and> b + int (length (cells_at (pl_view w []) p)) \<le> 2 ^ 32)"

definition ready :: "'h pl_host \<Rightarrow> 'h pl_lib \<Rightarrow> int \<Rightarrow> int \<Rightarrow> int \<Rightarrow> 'h pl_world \<Rightarrow> bool" where
  "ready host lib kr wr ar w \<longleftrightarrow> mem_sane w \<and> load_lib (ph_files host) None = Inr lib \<and>
     pl_bound (w_dev w) \<and> pl_kernel_regs (w_dev w) = Some kr \<and> pl_dma_w_regs (w_dev w) = Some wr \<and> pl_dma_a_regs (w_dev w) = Some ar"

lemma ready_mem:
  assumes "ready host lib kr wr ar w"
  shows "quiet w" "alloc_inv (w_alloc w)" "s \<in> set (al_slabs (w_alloc w)) \<Longrightarrow> kind s = PynqSlab \<and> base_va s \<noteq> None"
    "spread phys_at (pl_view w [])" "spread va_at (pl_view w [])"
    "phys_at (pl_view w []) p = Some b \<Longrightarrow> 0 < b \<and> b + int (length (cells_at (pl_view w []) p)) \<le> 2 ^ 32"
  using assms by (auto simp: ready_def mem_sane_def)

lemma view_kept:
  assumes "pl_kept w w'"
  shows "phys_at (pl_view w' c) p = phys_at (pl_view w b) p" "va_at (pl_view w' c) p = va_at (pl_view w b) p"
    "length (cells_at (pl_view w' c) p) = length (cells_at (pl_view w b) p)"
proof -
  have sh: "same_shape (w_alloc w) (w_alloc w')" using assms by (simp add: pl_kept_def)
  have c: "rel_option cma_similar (map_of (pl_cma (w_dev w)) r) (map_of (pl_cma (w_dev w')) r)" for r
    using assms by (simp add: pl_kept_def same_dev_def)
  have "phys_at (pl_view w' c) p = phys_at (pl_view w b) p \<and> va_at (pl_view w' c) p = va_at (pl_view w b) p \<and>
    length (cells_at (pl_view w' c) p) = length (cells_at (pl_view w b) p)"
  proof (cases p)
    case (InSlab i)
    then show ?thesis using similar_nth [OF sh, of i] same_shape_length [OF sh] by (auto simp: slab_similar_def)
  next
    case (InCma r)
    then show ?thesis using c [of r] by (auto simp: rel_option_iff cma_similar_def split: option.splits)
  qed
  then show "phys_at (pl_view w' c) p = phys_at (pl_view w b) p" "va_at (pl_view w' c) p = va_at (pl_view w b) p"
    "length (cells_at (pl_view w' c) p) = length (cells_at (pl_view w b) p)" by auto
qed

lemma spread_kept:
  assumes "pl_kept w w'"
  shows "spread phys_at (pl_view w' c) \<longleftrightarrow> spread phys_at (pl_view w b)" "spread va_at (pl_view w' c) \<longleftrightarrow> spread va_at (pl_view w b)"
  unfolding spread_def view_kept(1,2) [OF assms, of c _ b] view_kept(3) [OF assms, of c _ b] by simp_all

lemma lies_kept:
  assumes "pl_kept w w'"
  shows "lies phys_at (pl_view w b) a n p x \<Longrightarrow> lies phys_at (pl_view w' c) a n p x"
    "lies va_at (pl_view w b) a n p x \<Longrightarrow> lies va_at (pl_view w' c) a n p x"
  using view_kept [OF assms, of c p b] in_places(1) [of "pl_view w' c" p] in_places(2) [of "pl_view w' c" p]
  by (auto simp: lies_def)

lemma mem_sane_kept: "mem_sane w \<Longrightarrow> pl_kept w w' \<Longrightarrow> mem_sane w'"
proof -
  assume r: "mem_sane w" and k: "pl_kept w w'"
  have sh: "same_shape (w_alloc w) (w_alloc w')" using k by (simp add: pl_kept_def)
  have "kind s = PynqSlab \<and> base_va s \<noteq> None" if "s \<in> set (al_slabs (w_alloc w'))" for s
  proof -
    from that obtain i where i: "i < length (al_slabs (w_alloc w'))" "s = al_slabs (w_alloc w') ! i" by (auto simp: in_set_conv_nth)
    then have "al_slabs (w_alloc w) ! i \<in> set (al_slabs (w_alloc w))" using same_shape_length [OF sh] by simp
    with r have "kind (al_slabs (w_alloc w) ! i) = PynqSlab \<and> base_va (al_slabs (w_alloc w) ! i) \<noteq> None" by (auto simp: mem_sane_def)
    with i similar_nth [OF sh, of i] same_shape_length [OF sh] show ?thesis by (simp add: slab_similar_def)
  qed
  moreover have "0 < b \<and> b + int (length (cells_at (pl_view w' []) p)) \<le> 2 ^ 32" if "phys_at (pl_view w' []) p = Some b" for p b
    using that r view_kept [OF k, of "[]" p "[]"] by (simp add: mem_sane_def)
  ultimately show ?thesis
    using r k same_shape_inv [OF sh] spread_kept [OF k, of "[]" "[]"]
    by (auto simp: mem_sane_def pl_kept_def quiet_def)
qed

lemma ready_kept: "ready host lib kr wr ar w \<Longrightarrow> pl_kept w w' \<Longrightarrow> ready host lib kr wr ar w'"
proof -
  assume r: "ready host lib kr wr ar w" and k: "pl_kept w w'"
  have "mem_sane w'" using mem_sane_kept [OF _ k] r by (simp add: ready_def)
  with r k show ?thesis by (simp add: ready_def pl_kept_def same_dev_def)
qed

lemma phys_u32:
  assumes "ready host lib kr wr ar w" "lies phys_at (pl_view w b) a n p x"
  shows "u32 a" "u32 n"
proof -
  have l: "lies phys_at (pl_view w []) a n p x" using lies_kept(1) [OF pl_kept_refl assms(2)] .
  then obtain c where c: "phys_at (pl_view w []) p = Some c" "a = c + x" "0 \<le> x" "0 < n" "x + n \<le> int (length (cells_at (pl_view w []) p))"
    by (auto simp: lies_def)
  with ready_mem(6) [OF assms(1) c(1)] show "u32 a" "u32 n" unfolding u32_def by linarith+
qed

text \<open>A buffer of at least \<open>n\<close> bytes.\<close>

definition has_buf :: "pl_role \<Rightarrow> int \<Rightarrow> 'h pl_state \<Rightarrow> bool" where
  "has_buf role n d \<longleftrightarrow> (\<exists>b. map_of (pl_cma d) role = Some b \<and> n \<le> cma_size role d \<and> cma_size role d \<le> int (length (cb_cells b)))"

lemma has_buf_kept:
  assumes "same_dev d d'" "has_buf role n d"
  shows "has_buf role n d'"
proof -
  have "cma_size role d' = cma_size role d" "rel_option cma_similar (map_of (pl_cma d) role) (map_of (pl_cma d') role)"
    using assms(1) by (auto simp: same_dev_def cma_size_def)
  with assms(2) show ?thesis by (auto simp: has_buf_def option_rel_Some1 cma_similar_def)
qed

lemma call_bound_ready:
  assumes "ready host lib kr wr ar w"
  shows "call_bound host symb args bufs w =
    (case cl_pl_call lib symb args (pl_view w bufs) of (rc, m) \<Rightarrow> (Inr (rc, pm_bufs m), put_view m w))"
  using assms by (simp add: ready_def call_bound_def bound_lib_def call_pl_def py_simps split: prod.splits)

lemma section_ready: "ready host lib kr wr ar w \<Longrightarrow> timer_section env nm body w = body w"
  by (simp add: ready_mem section_quiet)

section \<open>Weights\<close>

lemma map_of_cma_upd: "map_of (pl_cma (cma_upd r f d)) = (map_of (pl_cma d))(r := map_option f (map_of (pl_cma d) r))"
  by (auto simp: cma_upd_def update_conv' split: option.splits)

lemma same_dev_upd:
  assumes "\<And>b. map_of (pl_cma d) r = Some b \<Longrightarrow> cma_similar b (f b)"
  shows "same_dev d (cma_upd r f d)"
proof -
  have "rel_option cma_similar (map_of (pl_cma d) s) (map_of (pl_cma (cma_upd r f d)) s)" for s
    using assms by (cases "map_of (pl_cma d) s") (auto simp: map_of_cma_upd)
  then show ?thesis by (auto simp: same_dev_def cma_upd_def split: option.splits)
qed

lemma cma_fill_similar: "length src \<le> length (cb_cells b) \<Longrightarrow> cma_similar b (cma_fill src b)"
  by (simp add: cma_similar_def cma_fill_def)

lemma cma_cache_similar [simp]: "cma_similar b (cma_cache c b)" "cb_cells (cma_cache c b) = cb_cells b" "cb_phys (cma_cache c b) = cb_phys b"
  by (simp_all add: cma_similar_def cma_cache_def)

lemma cma_fill_simps [simp]: "cb_phys (cma_fill src b) = cb_phys b" "cb_cells (cma_fill src b) = src @ drop (length src) (cb_cells b)"
  by (simp_all add: cma_fill_def)

text \<open>The step changes no buffer but \<open>r\<close>.\<close>

definition only_buf :: "pl_role \<Rightarrow> 'h pl_world \<Rightarrow> 'h pl_world \<Rightarrow> bool" where
  "only_buf r w w' \<longleftrightarrow> (\<forall>s. s \<noteq> r \<longrightarrow> map_of (pl_cma (w_dev w')) s = map_of (pl_cma (w_dev w)) s)"

lemma slab_phys_lies:
  assumes r: "ready host lib kr wr ar w" and v: "slab_view (w_alloc w) h off n = Inr (i, x, k)" and n: "0 < n"
  shows "view_phys (w_alloc w) h off n = Inr (i, x, physical_address (al_slabs (w_alloc w) ! i) + x)"
    "lies phys_at (pl_view w b) (physical_address (al_slabs (w_alloc w) ! i) + x) n (InSlab i) x"
    "contents (w_alloc w) h = Some d \<Longrightarrow> py_slice (cells_at (pl_view w b) (InSlab i)) x (x + n) = py_slice d off (off + n)"
proof -
  have inv: "alloc_inv (w_alloc w)" using ready_mem(2) [OF r] .
  from slab_view_spec [OF inv v] obtain d' where d': "contents (w_alloc w) h = Some d'" "i < length (al_slabs (w_alloc w))" "0 \<le> x"
    "x + n \<le> slab_size (al_slabs (w_alloc w) ! i)" "py_slice (buf (al_slabs (w_alloc w) ! i)) x (x + n) = py_slice d' off (off + n)" .
  have pk: "kind (al_slabs (w_alloc w) ! i) = PynqSlab" using ready_mem(3) [OF r] d'(2) by auto
  have "slab_size (al_slabs (w_alloc w) ! i) = int (length (buf (al_slabs (w_alloc w) ! i)))"
    using inv d'(2) by (simp add: alloc_inv_def slabs_ok_def)
  then show "lies phys_at (pl_view w b) (physical_address (al_slabs (w_alloc w) ! i) + x) n (InSlab i) x"
    using d' pk n by (auto simp: lies_def places_def)
  show "view_phys (w_alloc w) h off n = Inr (i, x, physical_address (al_slabs (w_alloc w) ! i) + x)"
    using v pk by (simp add: view_phys_def buffer_phys_def)
  show "py_slice (cells_at (pl_view w b) (InSlab i)) x (x + n) = py_slice d off (off + n)" if "contents (w_alloc w) h = Some d"
    using that d' by simp
qed

lemma cma_phys_lies:
  assumes "map_of (pl_cma (w_dev w)) role = Some b" "0 < n" "n \<le> int (length (cb_cells b))"
  shows "lies phys_at (pl_view w bufs) (cb_phys b) n (InCma role) 0"
  using assms by (auto simp: lies_def intro: in_places(1))

lemma resolve_weights_ok:
  assumes r: "ready host lib kr wr ar w" and d: "contents (w_alloc w) h = Some d"
    and rng: "0 \<le> off" "0 < n" "off + n \<le> int (length d)" and buf: "has_buf WeightsDmaBuf n (w_dev w)"
  obtains pa p x w' where "resolve_weights_phys h off n w = (Inr pa, w')" "pl_kept w w'" "only_buf WeightsDmaBuf w w'"
    "contents (w_alloc w') = contents (w_alloc w)" "lies phys_at (pl_view w' []) pa n p x"
    "py_slice (cells_at (pl_view w' []) p) x (x + n) = py_slice d off (off + n)"
    "p = InCma WeightsDmaBuf \<or> (\<exists>i. p = InSlab i \<and> slab_view (w_alloc w) h off n = Inr (i, x, n))"
proof -
  have inv: "alloc_inv (w_alloc w)" using ready_mem(2) [OF r] .
  show ?thesis
  proof (cases "slab_view (w_alloc w) h off n")
    case (Inr v)
    obtain i x k where v: "v = (i, x, k)" by (cases v)
    have k: "k = n" using slab_view_spec [OF inv] Inr v by blast
    note sp = slab_phys_lies [OF r Inr [unfolded v] rng(2)]
    show ?thesis
    proof (rule that [of "physical_address (al_slabs (w_alloc w) ! i) + x" w "InSlab i" x])
      show "resolve_weights_phys h off n w = (Inr (physical_address (al_slabs (w_alloc w) ! i) + x), w)"
        by (simp add: resolve_weights_phys_def py_simps sp(1))
    qed (use sp(2) sp(3) [OF d] Inr v k in \<open>auto simp: only_buf_def\<close>)
  next
    case (Inl e)
    then have e: "view_phys (w_alloc w) h off n = Inl ERR_multi" using slab_view_total [OF inv d rng] by (auto simp: view_phys_def)
    from buf obtain b where b: "map_of (pl_cma (w_dev w)) WeightsDmaBuf = Some b" "n \<le> cma_size WeightsDmaBuf (w_dev w)"
      "cma_size WeightsDmaBuf (w_dev w) \<le> int (length (cb_cells b))" by (auto simp: has_buf_def)
    let ?src = "py_slice d off (off + n)"
    have len: "int (length ?src) = n" using rng length_py_slice [of off "off + n" d] by auto
    from read_tensor_ok [OF inv d rng(1) _ rng(3), of True] rng(2) obtain a' where
      a': "read_tensor h off n True (w_alloc w) = (Inr ?src, a')" "same_shape (w_alloc w) a'" "contents a' = contents (w_alloc w)" by auto
    let ?g = "\<lambda>b. cma_cache (Flush 0 (int (length (cb_cells b)))) b"
    let ?d1 = "cma_upd WeightsDmaBuf (cma_fill ?src) (w_dev w)"
    let ?d' = "cma_upd WeightsDmaBuf ?g ?d1"
    let ?w' = "w\<lparr>w_alloc := a', w_dev := ?d'\<rparr>"
    let ?b' = "?g (cma_fill ?src b)"
    have m': "map_of (pl_cma ?d') WeightsDmaBuf = Some ?b'" using b(1) by (simp add: map_of_cma_upd)
    have sd: "same_dev (w_dev w) ?d'"
      using b len by (intro same_dev_trans [OF same_dev_upd same_dev_upd] cma_fill_similar) auto
    show ?thesis
    proof (rule that [of "cb_phys b" ?w' "InCma WeightsDmaBuf" 0])
      show "resolve_weights_phys h off n w = (Inr (cb_phys b), ?w')"
        using e b a'(1) m' by (simp add: resolve_weights_phys_def py_simps get_cma_def flush_cma_def on_alloc_def on_dev_def)
      show "pl_kept w ?w'" using a'(2) sd by (simp add: pl_kept_def)
      show "lies phys_at (pl_view ?w' []) (cb_phys b) n (InCma WeightsDmaBuf) 0"
        using cma_phys_lies [of ?w' WeightsDmaBuf ?b' n "[]"] m' b len rng(2) by simp
      show "py_slice (cells_at (pl_view ?w' []) (InCma WeightsDmaBuf)) 0 (0 + n) = ?src"
        using m' len b by (simp add: py_slice_in)
      show "only_buf WeightsDmaBuf w ?w'" by (simp add: only_buf_def map_of_cma_upd)
    qed (use a'(3) in auto)
  qed
qed

section \<open>One run of the kernel\<close>

text \<open>The world after the kernel has stored \<open>out\<close> at a place.\<close>

definition stored :: "'h pl_world \<Rightarrow> place \<Rightarrow> int \<Rightarrow> byte list \<Rightarrow> 'h \<Rightarrow> 'h pl_world" where
  "stored w q y out hw =
     put_view ((set_at q (slice_assign (cells_at (pl_view w []) q) y (y + int (length out)) out) (pl_view w []))\<lparr>pm_hw := hw\<rparr>) w"

text \<open>The start of a run, and the wait right after it.\<close>

lemma dual_stream_start:
  assumes r: "ready host lib kr wr ar w" and dev: "runs_chunks lib kr wr ar G"
    and d: "contents (w_alloc w) h = Some d" "0 \<le> off" "off + nrb * (nq * 144) \<le> int (length d)"
    and wbuf: "has_buf WeightsDmaBuf (nrb * (nq * 144)) (w_dev w)"
    and acts: "map_of (pl_cma (w_dev w)) ActsBuf = Some ab" "nq * 160 \<le> int (length (cb_cells ab))"
    and pos: "0 < nq" "0 < nrb"
    and res: "lies phys_at (pl_view w []) rpa (nrb * 32) q y" "q \<noteq> InCma ActsBuf" "q \<noteq> InCma WeightsDmaBuf"
    and sep: "\<And>i x. q = InSlab i \<Longrightarrow> slab_view (w_alloc w) h off (nrb * (nq * 144)) = Inr (i, x, nrb * (nq * 144)) \<Longrightarrow>
      x + nrb * (nq * 144) \<le> y \<or> y + nrb * 32 \<le> x"
  defines "out \<equiv> rowblocks_out G (nq * 144) nrb (py_slice d off (off + nrb * (nq * 144))) (py_slice (cb_cells ab) 0 (nq * 160))"
  obtains cyc w1 w2 hw where "run_matmul_dual_stream env host h off (nrb * (nq * 144)) (nq * 160) rpa (nrb * 32) nq nrb True w = (Inr [0, 0, 0, 0], w2)"
    "run_matmul_dual_stream env host h off (nrb * (nq * 144)) (nq * 160) rpa (nrb * 32) nq nrb False w = (Inr cyc, stored w1 q y out hw)"
    "wait_chunk_deferred env host [0, 0, 0, 0] w2 = (Inr (le_value cyc), stored w1 q y out hw)"
    "pl_kept w w1" "only_buf WeightsDmaBuf w w1" "contents (w_alloc w1) = contents (w_alloc w)" "pl_kept w1 w2" "w_alloc w2 = w_alloc w1"
proof -
  let ?wn = "nrb * (nq * 144)" and ?an = "nq * 160"
  have n: "0 < ?wn" "0 < ?an" using pos by simp_all
  obtain wpa p x w1 where w1: "resolve_weights_phys h off ?wn w = (Inr wpa, w1)" "pl_kept w w1" "only_buf WeightsDmaBuf w w1"
    "contents (w_alloc w1) = contents (w_alloc w)" "lies phys_at (pl_view w1 []) wpa ?wn p x"
    "py_slice (cells_at (pl_view w1 []) p) x (x + ?wn) = py_slice d off (off + ?wn)"
    "p = InCma WeightsDmaBuf \<or> (\<exists>i. p = InSlab i \<and> slab_view (w_alloc w) h off ?wn = Inr (i, x, ?wn))"
    using resolve_weights_ok [OF r d(1,2) n(1) d(3) wbuf] .
  have r1: "ready host lib kr wr ar w1" using r w1(2) by (rule ready_kept)
  have sp: "spread phys_at (pl_view w1 [])" using r1 by (simp add: ready_def mem_sane_def)
  have a1: "map_of (pl_cma (w_dev w1)) ActsBuf = Some ab" using w1(3) acts(1) by (simp add: only_buf_def)
  have al: "lies phys_at (pl_view w1 []) (cb_phys ab) ?an (InCma ActsBuf) 0" using cma_phys_lies [OF a1 n(2) acts(2)] .
  have rl: "lies phys_at (pl_view w1 []) rpa (nrb * 32) q y" using lies_kept(1) [OF w1(2) res(1)] .
  have ap1: "rpa + nrb * 32 \<le> wpa \<or> wpa + ?wn \<le> rpa"
    using w1(7) res(3) sep by (intro lies_apart [OF sp rl w1(5)]) auto
  have ap2: "rpa + nrb * 32 \<le> cb_phys ab \<or> cb_phys ab + ?an \<le> rpa"
    using res(2) by (intro lies_apart [OF sp rl al]) auto
  note u = phys_u32 [OF r1 w1(5)] phys_u32 [OF r1 al] phys_u32 [OF r1 rl]
  have lw: "mem_load phys_at (pl_view w1 []) wpa ?wn = Some (py_slice d off (off + ?wn))" using lies_load [OF sp w1(5)] w1(6) by simp
  have la: "mem_load phys_at (pl_view w1 []) (cb_phys ab) ?an = Some (py_slice (cb_cells ab) 0 ?an)" using lies_load [OF sp al] a1 by simp
  have lr: "mem_load phys_at (pl_view w1 []) rpa (nrb * 32) \<noteq> None" using lies_load [OF sp rl] by simp
  have len: "int (length out) = nrb * 32" unfolding out_def using dev pos(2) by (intro length_rowblocks_out) auto
  obtain hw1 hw2 cyc where
    st: "cl_pl_call lib ''bonsai_q1a8_start_matmul_chunk''
        [CPtr (PVa kr), CPtr (PVa wr), CPtr (PVa ar), c_uint32 wpa, c_uint32 ?wn, c_uint32 (cb_phys ab), c_uint32 ?an,
         c_uint32 rpa, c_uint32 (nrb * 32), c_uint32 nq, c_uint32 nrb] (pl_view w1 []) = (0, (pl_view w1 [])\<lparr>pm_hw := hw1\<rparr>)"
    and wt: "cl_pl_call lib ''bonsai_q1a8_wait_matmul_chunk'' [CPtr (PVa kr), CPtr (PVa wr), CPtr (PVa ar), c_uint32 POLL_LIMIT, CPtr (PBuf 0 0)]
        ((pl_view w1 [])\<lparr>pm_hw := hw1, pm_bufs := [[0, 0, 0, 0]]\<rparr>) =
        (0, (mem_store phys_at (pl_view w1 []) rpa out)\<lparr>pm_hw := hw2, pm_bufs := [cyc]\<rparr>)"
    unfolding out_def by (rule runs_chunksD [OF dev pos u(1,3,5,2,4) _ lw la lr ap1 ap2]) simp_all
  let ?w2 = "w1\<lparr>w_dev := (w_dev w1)\<lparr>pl_hw := hw1\<rparr>\<rparr>"
  have k2: "pl_kept w1 ?w2" by (simp add: pl_kept_def same_dev_def option.rel_refl)
  have r2: "ready host lib kr wr ar ?w2" using r1 k2 by (rule ready_kept)
  have regs: "pl_kernel_regs (w_dev w1) = Some kr" "pl_dma_w_regs (w_dev w1) = Some wr" "pl_dma_a_regs (w_dev w1) = Some ar"
    using r1 by (auto simp: ready_def)
  have start: "call_start env host wpa ?wn ?an rpa (nrb * 32) nq nrb w1 = (Inr (), ?w2)"
    using st a1 regs by (simp add: call_start_def get_cma_def py_simps section_ready [OF r1] call_bound_ready [OF r1] void_p_def)
  have wait: "call_wait env host [0, 0, 0, 0] ?w2 = (Inr cyc, stored w1 q y out hw2)"
    using wt regs lies_store [OF sp, of rpa out q y] rl len
    by (simp add: call_wait_def py_simps section_ready [OF r2] call_bound_ready [OF r2] void_p_def stored_def)
  have late: "wait_chunk_deferred env host [0, 0, 0, 0] ?w2 = (Inr (le_value cyc), stored w1 q y out hw2)"
    using wt regs lies_store [OF sp, of rpa out q y] rl len
    by (simp add: wait_chunk_deferred_def py_simps section_ready [OF r2] call_bound_ready [OF r2] void_p_def stored_def)
  have "run_matmul_dual_stream env host h off ?wn ?an rpa (nrb * 32) nq nrb True w = (Inr [0, 0, 0, 0], ?w2)"
    "run_matmul_dual_stream env host h off ?wn ?an rpa (nrb * 32) nq nrb False w = (Inr cyc, stored w1 q y out hw2)"
    using w1(1) acts(1) start wait by (simp_all add: run_matmul_dual_stream_def get_cma_def py_simps section_ready [OF r] section_ready [OF r1])
  from that [OF this late w1(2-4) k2] show ?thesis by simp
qed

lemma dual_stream_ok:
  assumes r: "ready host lib kr wr ar w" and dev: "runs_chunks lib kr wr ar G"
    and d: "contents (w_alloc w) h = Some d" "0 \<le> off" "off + nrb * (nq * 144) \<le> int (length d)"
    and wbuf: "has_buf WeightsDmaBuf (nrb * (nq * 144)) (w_dev w)"
    and acts: "map_of (pl_cma (w_dev w)) ActsBuf = Some ab" "nq * 160 \<le> int (length (cb_cells ab))"
    and pos: "0 < nq" "0 < nrb"
    and res: "lies phys_at (pl_view w []) rpa (nrb * 32) q y" "q \<noteq> InCma ActsBuf" "q \<noteq> InCma WeightsDmaBuf"
    and sep: "\<And>i x. q = InSlab i \<Longrightarrow> slab_view (w_alloc w) h off (nrb * (nq * 144)) = Inr (i, x, nrb * (nq * 144)) \<Longrightarrow>
      x + nrb * (nq * 144) \<le> y \<or> y + nrb * 32 \<le> x"
  defines "out \<equiv> rowblocks_out G (nq * 144) nrb (py_slice d off (off + nrb * (nq * 144))) (py_slice (cb_cells ab) 0 (nq * 160))"
  obtains cyc w1 hw where "run_matmul_dual_stream env host h off (nrb * (nq * 144)) (nq * 160) rpa (nrb * 32) nq nrb False w = (Inr cyc, stored w1 q y out hw)"
    "pl_kept w w1" "only_buf WeightsDmaBuf w w1" "contents (w_alloc w1) = contents (w_alloc w)"
  by (rule dual_stream_start [OF r dev d wbuf acts pos res, where env = env, folded out_def]) (use sep that in auto)

text \<open>A store keeps the shape of everything, and outside its place the cells.\<close>

lemma stored_kept:
  assumes r: "ready host lib kr wr ar w" and l: "lies phys_at (pl_view w []) rpa (int (length out)) q y"
  shows "pl_kept w (stored w q y out hw)"
proof -
  have len: "length (slice_assign (cells_at (pl_view w []) q) y (y + int (length out)) out) = length (cells_at (pl_view w []) q)"
    using l by (intro length_slice_assign) (auto simp: lies_def)
  have inv: "alloc_inv (w_alloc w)" using ready_mem(2) [OF r] .
  show ?thesis
  proof (cases q)
    case (InSlab i)
    with l have i: "i < length (al_slabs (w_alloc w))" by (auto simp: lies_def split: if_splits)
    have "same_shape (w_alloc w) (set_slab i ((al_slabs (w_alloc w) ! i)\<lparr>buf := slice_assign (buf (al_slabs (w_alloc w) ! i)) y (y + int (length out)) out\<rparr>) (w_alloc w))"
      using len i InSlab by (intro set_slab_same_shape [OF i]) (simp add: slab_similar_def)
    then show ?thesis using i InSlab by (simp add: stored_def pl_kept_def set_slab_def same_dev_def option.rel_refl)
  next
    case (InCma role)
    with l obtain b where b: "map_of (pl_cma (w_dev w)) role = Some b" by (auto simp: lies_def)
    have "rel_option cma_similar (map_of (pl_cma (w_dev w)) s) (map_of (AList.update role (b\<lparr>cb_cells := slice_assign (cb_cells b) y (y + int (length out)) out\<rparr>) (pl_cma (w_dev w))) s)" for s
      using len InCma b by (cases "s = role") (auto simp: update_conv' cma_similar_def option.rel_refl)
    then show ?thesis using b InCma by (simp add: stored_def pl_kept_def same_dev_def same_shape_refl)
  qed
qed

section \<open>One chunk\<close>

lemma stored_slab:
  assumes r: "ready host lib kr wr ar w" and v: "slab_view (w_alloc w) h off (int (length out)) = Inr (i, y, k)"
    and d: "contents (w_alloc w) h = Some d"
  shows "contents (w_alloc (stored w (InSlab i) y out hw)) = (contents (w_alloc w))(h \<mapsto> slice_assign d off (off + int (length out)) out)"
    "pl_cma (w_dev (stored w (InSlab i) y out hw)) = pl_cma (w_dev w)"
proof -
  have inv: "alloc_inv (w_alloc w)" using ready_mem(2) [OF r] .
  have "i < length (al_slabs (w_alloc w))" using slab_view_index [OF inv v] .
  then have "w_alloc (stored w (InSlab i) y out hw) = (w_alloc w)\<lparr>al_slabs := store_slab i y out (al_slabs (w_alloc w))\<rparr>"
    by (simp add: stored_def store_slab_def)
  then show "contents (w_alloc (stored w (InSlab i) y out hw)) = (contents (w_alloc w))(h \<mapsto> slice_assign d off (off + int (length out)) out)"
    using slab_store_contents [OF inv v d] by simp
qed (simp add: stored_def)

lemma stored_cma:
  assumes b: "map_of (pl_cma (w_dev w)) role = Some b" and l: "int (length out) \<le> int (length (cb_cells b))"
  shows "only_buf role w (stored w (InCma role) 0 out hw)" "w_alloc (stored w (InCma role) 0 out hw) = w_alloc w"
    "\<exists>b'. map_of (pl_cma (w_dev (stored w (InCma role) 0 out hw))) role = Some b' \<and> cb_cells b' = out @ drop (length out) (cb_cells b)"
  using assms by (auto simp: stored_def only_buf_def update_conv' slice_assign_in)

lemma copy_result_ok:
  assumes r: "ready host lib kr wr ar w" and b: "map_of (pl_cma (w_dev w)) ResultBuf = Some b" "0 \<le> n" "n \<le> int (length (cb_cells b))"
    and d: "contents (w_alloc w) h = Some d" "0 \<le> off" "off + n \<le> int (length d)"
  obtains w' where "copy_result env h off padded n w = (Inr (), w')" "pl_kept w w'" "only_buf ResultBuf w w'"
    "contents (w_alloc w') = (contents (w_alloc w))(h \<mapsto> slice_assign d off (off + n) (py_slice (cb_cells b) 0 n))"
proof -
  have inv: "alloc_inv (w_alloc w)" using ready_mem(2) [OF r] .
  let ?f = "\<lambda>b. cma_cache (Invalidate 0 (min padded (int (length (cb_cells b))))) b"
  let ?w1 = "w\<lparr>w_dev := cma_upd ResultBuf ?f (w_dev w)\<rparr>"
  let ?bs = "py_slice (cb_cells b) 0 n"
  have len: "int (length ?bs) = n" using b length_py_slice [of 0 n "cb_cells b"] by simp
  have k1: "pl_kept w ?w1" by (auto simp: pl_kept_def intro!: same_dev_upd)
  have r1: "ready host lib kr wr ar ?w1" using r k1 by (rule ready_kept)
  from write_tensor_ok [OF inv d(1,2), of ?bs True] len d(3) obtain a' where
    a': "write_tensor h off ?bs True (w_alloc w) = (Inr (), a')" "same_shape (w_alloc w) a'"
      "contents a' = (contents (w_alloc w))(h \<mapsto> slice_assign d off (off + n) ?bs)" by auto
  have "copy_result env h off padded n w = (Inr (), ?w1\<lparr>w_alloc := a'\<rparr>)"
    using b a'(1)
    by (simp add: copy_result_def get_cma_def py_simps section_ready [OF r] section_ready [OF r1] on_dev_def on_alloc_def map_of_cma_upd)
  moreover have "pl_kept w (?w1\<lparr>w_alloc := a'\<rparr>)" using k1 a'(2) by (simp add: pl_kept_def)
  moreover have "only_buf ResultBuf w (?w1\<lparr>w_alloc := a'\<rparr>)" by (simp add: only_buf_def map_of_cma_upd)
  ultimately show ?thesis using a'(3) by (intro that) auto
qed

text \<open>A tensor holds bytes at an offset.\<close>

definition has_range :: "'d world \<Rightarrow> int \<Rightarrow> int \<Rightarrow> byte list \<Rightarrow> bool" where
  "has_range w h off bs \<longleftrightarrow> (\<exists>d. contents (w_alloc w) h = Some d \<and> 0 \<le> off \<and> off + int (length bs) \<le> int (length d) \<and>
     py_slice d off (off + int (length bs)) = bs)"

lemma slice_of_slice:
  assumes "0 \<le> off" "off + n \<le> int (length d)" "0 \<le> a" "0 \<le> m" "a + m \<le> n"
  shows "py_slice (py_slice d off (off + n)) a (a + m) = py_slice d (off + a) (off + a + m)"
proof -
  obtain l i j k where v: "off = int l" "a = int i" "m = int j" "n = int k" using assms by (metis nonneg_int_cases order.trans add_increasing)
  have le: "l + k \<le> length d" "i + j \<le> k" using assms v by simp_all
  have "py_slice d off (off + n) = take k (drop l d)" using le v by (simp add: py_slice_in)
  moreover have "length (take k (drop l d)) = k" using le by simp
  moreover have "py_slice (take k (drop l d)) a (a + m) = take j (drop i (take k (drop l d)))" using le v by (simp add: py_slice_in)
  moreover have "py_slice d (off + a) (off + a + m) = take j (drop (l + i) d)" using le v by (simp add: py_slice_in nat_add_distrib)
  ultimately show ?thesis using le by (simp add: drop_take take_take min_def add.commute)
qed

lemma has_range_sub:
  assumes "has_range w h off bs" "0 \<le> a" "0 \<le> m" "a + m \<le> int (length bs)"
  shows "has_range w h (off + a) (py_slice bs a (a + m))"
proof -
  from assms(1) obtain d where d: "contents (w_alloc w) h = Some d" "0 \<le> off" "off + int (length bs) \<le> int (length d)"
    "py_slice d off (off + int (length bs)) = bs" by (auto simp: has_range_def)
  have "py_slice bs a (a + m) = py_slice d (off + a) (off + a + m)" using slice_of_slice [of off "int (length bs)" d a m] d assms by simp
  moreover have "int (length (py_slice bs a (a + m))) = m" using assms length_py_slice [of a "a + m" bs] by simp
  ultimately show ?thesis using d assms by (auto simp: has_range_def)
qed

text \<open>The destination range and what is written to it.\<close>

definition wrote :: "int \<Rightarrow> int \<Rightarrow> byte list \<Rightarrow> 'd world \<Rightarrow> 'd world \<Rightarrow> bool" where
  "wrote h off out w w' \<longleftrightarrow> (\<exists>d. contents (w_alloc w) h = Some d \<and> 0 \<le> off \<and> off + int (length out) \<le> int (length d) \<and>
     contents (w_alloc w') = (contents (w_alloc w))(h \<mapsto> slice_assign d off (off + int (length out)) out))"

lemma has_range_wrote:
  assumes "has_range w h off bs" "wrote h' off' out w w'" "h \<noteq> h' \<or> off + int (length bs) \<le> off' \<or> off' + int (length out) \<le> off"
  shows "has_range w' h off bs"
proof -
  from assms(1) obtain d where d: "contents (w_alloc w) h = Some d" "0 \<le> off" "off + int (length bs) \<le> int (length d)"
    "py_slice d off (off + int (length bs)) = bs" by (auto simp: has_range_def)
  from assms(2) obtain d' where d': "contents (w_alloc w) h' = Some d'" "0 \<le> off'" "off' + int (length out) \<le> int (length d')"
    "contents (w_alloc w') = (contents (w_alloc w))(h' \<mapsto> slice_assign d' off' (off' + int (length out)) out)" by (auto simp: wrote_def)
  show ?thesis
  proof (cases "h = h'")
    case True
    with d d' assms(3) slice_assign_disjoint [of off' out d' off "off + int (length bs)"] length_slice_assign [OF d'(2,3)]
    show ?thesis by (auto simp: has_range_def)
  next
    case False
    with d d' show ?thesis by (auto simp: has_range_def)
  qed
qed

lemma slice_assign_append:
  assumes "0 \<le> off" "off + int (length xs) + int (length ys) \<le> int (length d)"
  shows "slice_assign (slice_assign d off (off + int (length xs)) xs) (off + int (length xs)) (off + int (length xs) + int (length ys)) ys =
    slice_assign d off (off + int (length (xs @ ys))) (xs @ ys)"
proof -
  obtain l where l: "off = int l" using assms(1) by (metis nonneg_int_cases)
  have le: "l + length xs + length ys \<le> length d" using assms(2) l by simp
  have "slice_assign d off (off + int (length xs)) xs = take l d @ xs @ drop (l + length xs) d"
    using le l by (simp add: slice_assign_in nat_add_distrib)
  moreover have "slice_assign d off (off + int (length (xs @ ys))) (xs @ ys) = take l d @ (xs @ ys) @ drop (l + length xs + length ys) d"
    using le l by (simp add: slice_assign_in nat_add_distrib add.assoc)
  ultimately show ?thesis using le l by (simp add: slice_assign_in nat_add_distrib add.commute add.left_commute)
qed

lemma wrote_append:
  assumes "wrote h off xs u v" "wrote h (off + int (length xs)) ys v w"
  shows "wrote h off (xs @ ys) u w"
proof -
  from assms(1) obtain d where d: "contents (w_alloc u) h = Some d" "0 \<le> off" "off + int (length xs) \<le> int (length d)"
    "contents (w_alloc v) = (contents (w_alloc u))(h \<mapsto> slice_assign d off (off + int (length xs)) xs)" by (auto simp: wrote_def)
  from assms(2) d length_slice_assign [OF d(2,3)] have
    e: "off + int (length xs) + int (length ys) \<le> int (length d)"
      "contents (w_alloc w) = (contents (w_alloc v))(h \<mapsto> slice_assign (slice_assign d off (off + int (length xs)) xs)
        (off + int (length xs)) (off + int (length xs) + int (length ys)) ys)" by (auto simp: wrote_def)
  from e d show ?thesis unfolding wrote_def slice_assign_append [OF d(2) e(1)] by auto
qed

text \<open>The row blocks from \<open>lo\<close> to before \<open>hi\<close>.\<close>

definition block_results :: "(byte list \<Rightarrow> byte list \<Rightarrow> byte list) \<Rightarrow> int \<Rightarrow> byte list \<Rightarrow> byte list \<Rightarrow> int \<Rightarrow> int \<Rightarrow> byte list" where
  "block_results G pb wb stream lo hi = concat (map (\<lambda>i. G (py_slice wb (i * pb) (i * pb + pb)) stream) [lo..hi - 1])"

lemma py_range_upto: "map (\<lambda>i. lo + i) (py_range n) = [lo..lo + n - 1]"
  by (rule nth_equalityI) auto

lemma block_results_rowblocks:
  assumes "0 \<le> lo" "0 \<le> n" "0 \<le> pb" "(lo + n) * pb \<le> int (length wb)"
  shows "rowblocks_out G pb n (py_slice wb (lo * pb) (lo * pb + n * pb)) stream = block_results G pb wb stream lo (lo + n)"
proof -
  have "py_slice (py_slice wb (lo * pb) (lo * pb + n * pb)) (i * pb) (i * pb + pb) = py_slice wb ((lo + i) * pb) ((lo + i) * pb + pb)"
    if "i \<in> set (py_range n)" for i
  proof -
    have "i * pb + pb \<le> n * pb" using that assms(3) mult_right_mono [of "i + 1" n pb] by (simp add: distrib_right)
    moreover have "0 \<le> i * pb" "0 \<le> lo * pb" using that assms by simp_all
    ultimately show ?thesis
      using slice_of_slice [of "lo * pb" "n * pb" wb "i * pb" pb] assms by (simp add: distrib_right)
  qed
  then have "map (\<lambda>i. G (py_slice (py_slice wb (lo * pb) (lo * pb + n * pb)) (i * pb) (i * pb + pb)) stream) (py_range n) =
      map (\<lambda>i. G (py_slice wb (i * pb) (i * pb + pb)) stream) (map (\<lambda>i. lo + i) (py_range n))" by simp
  then show ?thesis by (simp only: rowblocks_out_def block_results_def py_range_upto)
qed

lemma length_block_results:
  assumes "\<And>x y. length (G x y) = 32" "lo \<le> hi"
  shows "int (length (block_results G pb wb stream lo hi)) = (hi - lo) * 32"
  using assms by (simp add: block_results_def length_concat comp_def sum_list_triv)

lemma block_results_split:
  assumes "lo \<le> mid" "mid \<le> hi"
  shows "block_results G pb wb stream lo hi = block_results G pb wb stream lo mid @ block_results G pb wb stream mid hi"
proof -
  have "[lo..hi - 1] = [lo..mid - 1] @ [mid..hi - 1]"
    using assms upto_split1 [of lo mid "hi - 1"] by (cases "mid = hi") simp_all
  then show ?thesis by (simp add: block_results_def)
qed

text \<open>What holds before every chunk.\<close>

definition setting :: "'h pl_host \<Rightarrow> 'h pl_lib \<Rightarrow> int \<Rightarrow> int \<Rightarrow> int \<Rightarrow> int \<Rightarrow> pl_job \<Rightarrow> byte list \<Rightarrow> cma \<Rightarrow> 'h pl_world \<Rightarrow> bool" where
  "setting host lib kr wr ar nq job wb ab w \<longleftrightarrow>
     ready host lib kr wr ar w \<and> job_ok job \<and> jb_rows_per_block job = 8 \<and> jb_packed_bytes job = nq * 144 \<and> jb_acts_nbytes job = nq * 160 \<and>
     jb_k job = nq * 128 \<and> 0 < nq \<and> has_range w (jb_weights job) (jb_weights_offset job) wb \<and>
     int (length wb) = jb_rowblocks job * (nq * 144) \<and>
     has_buf WeightsDmaBuf (jb_max_rowblocks job * (nq * 144)) (w_dev w) \<and> has_buf ResultBuf (jb_max_rowblocks job * 32) (w_dev w) \<and>
     map_of (pl_cma (w_dev w)) ActsBuf = Some ab \<and> nq * 160 \<le> int (length (cb_cells ab)) \<and>
     0 \<le> jb_dst_offset job \<and> (\<exists>d. contents (w_alloc w) (jb_dst job) = Some d \<and> jb_dst_offset job + jb_rows job * jb_cols job * 4 \<le> int (length d)) \<and>
     (jb_weights job \<noteq> jb_dst job \<or> jb_weights_offset job + int (length wb) \<le> jb_dst_offset job \<or>
      jb_dst_offset job + jb_rows job * jb_cols job * 4 \<le> jb_weights_offset job)"

lemma setting_step:
  assumes s: "setting host lib kr wr ar nq job wb ab w" and k: "pl_kept w w'" and w: "wrote (jb_dst job) off out w w'"
    and rng: "jb_dst_offset job \<le> off" "off + int (length out) \<le> jb_dst_offset job + jb_rows job * jb_cols job * 4"
    and ab: "map_of (pl_cma (w_dev w')) ActsBuf = Some ab"
  shows "setting host lib kr wr ar nq job wb ab w'"
proof -
  have dev: "same_dev (w_dev w) (w_dev w')" using k by (simp add: pl_kept_def)
  have "has_range w' (jb_weights job) (jb_weights_offset job) wb"
    using s rng by (intro has_range_wrote [OF _ w]) (auto simp: setting_def)
  moreover have "\<exists>d. contents (w_alloc w') (jb_dst job) = Some d \<and> jb_dst_offset job + jb_rows job * jb_cols job * 4 \<le> int (length d)"
    using s w by (auto simp: setting_def wrote_def length_slice_assign)
  ultimately show ?thesis
    using s ab ready_kept [OF _ k] has_buf_kept [OF dev] unfolding setting_def by blast
qed

text \<open>The place of the chunk's result: the slab of the destination, or the scratch buffer.\<close>

lemma chunk_dst_ok:
  assumes r: "ready host lib kr wr ar w" and d: "contents (w_alloc w) h = Some d" "0 \<le> off" "off + actual \<le> int (length d)" "0 < actual"
  obtains "chunk_dst (w_alloc w) h off padded actual = Inr None"
  | i y where "padded = actual" "slab_view (w_alloc w) h off actual = Inr (i, y, actual)"
    "chunk_dst (w_alloc w) h off padded actual = Inr (Some (i, y, physical_address (al_slabs (w_alloc w) ! i) + y))"
    "lies phys_at (pl_view w []) (physical_address (al_slabs (w_alloc w) ! i) + y) actual (InSlab i) y"
proof (cases "padded = actual")
  case False
  then show ?thesis using that(1) by (simp add: chunk_dst_def)
next
  case True
  have inv: "alloc_inv (w_alloc w)" using ready_mem(2) [OF r] .
  from slab_view_total [OF inv d(1,2,4,3)] show ?thesis
  proof
    assume "slab_view (w_alloc w) h off actual = Inl ERR_multi"
    then show ?thesis using True that(1) by (simp add: chunk_dst_def view_phys_def)
  next
    assume "\<exists>v. slab_view (w_alloc w) h off actual = Inr v"
    then obtain i y k where v: "slab_view (w_alloc w) h off actual = Inr (i, y, k)" by auto
    have k: "k = actual" using slab_view_spec [OF inv v] by blast
    note sp = slab_phys_lies [OF r v d(4)]
    show ?thesis using that(2) True v k sp(1,2) by (simp add: chunk_dst_def)
  qed
qed

text \<open>A chunk changes no buffer but the two it streams through.\<close>

definition other_bufs :: "'h pl_world \<Rightarrow> 'h pl_world \<Rightarrow> bool" where
  "other_bufs w w' \<longleftrightarrow> (\<forall>r. r \<noteq> WeightsDmaBuf \<longrightarrow> r \<noteq> ResultBuf \<longrightarrow> map_of (pl_cma (w_dev w')) r = map_of (pl_cma (w_dev w)) r)"

lemma other_bufs_trans: "other_bufs u v \<Longrightarrow> other_bufs v w \<Longrightarrow> other_bufs u w"
  by (simp add: other_bufs_def)

lemma run_chunk_ok:
  assumes s: "setting host lib kr wr ar nq job wb ab w" and dev: "runs_chunks lib kr wr ar G"
    and at: "at_chunk job rs rbs" "rs < jb_rows job" and col: "0 \<le> col" "col < jb_cols job"
  obtains n c cy dirty' w' where "run_chunk env host job col rs rbs dirty w = (Inr (n, c, cy, dirty'), w')"
    "at_chunk job (rs + n) (rbs + c)" "0 < n" "n = min (c * 8) (jb_rows job - rs)" "1 \<le> c" "rbs + c \<le> jb_rowblocks job"
    "pl_kept w w'" "other_bufs w w'"
    "wrote (jb_dst job) (jb_dst_offset job + (col * jb_rows job + rs) * 4)
       (take (nat (n * 4)) (block_results G (nq * 144) wb (py_slice (cb_cells ab) 0 (nq * 160)) rbs (rbs + c))) w w'"
proof -
  note result = that
  let ?pb = "nq * 144" and ?stream = "py_slice (cb_cells ab) 0 (nq * 160)" and ?rows = "jb_rows job" and ?h = "jb_dst job"
  let ?off = "jb_dst_offset job + (col * ?rows + rs) * 4" and ?ow = "jb_weights_offset job + rbs * ?pb"
  have r: "ready host lib kr wr ar w" and job: "job_ok job" and f: "jb_rows_per_block job = 8" "jb_packed_bytes job = ?pb" "jb_acts_nbytes job = nq * 160"
    "jb_k job div 128 = nq" "0 < nq" and hr: "has_range w (jb_weights job) (jb_weights_offset job) wb" and lw: "int (length wb) = jb_rowblocks job * ?pb"
    and bw: "has_buf WeightsDmaBuf (jb_max_rowblocks job * ?pb) (w_dev w)" and br: "has_buf ResultBuf (jb_max_rowblocks job * 32) (w_dev w)"
    and ab: "map_of (pl_cma (w_dev w)) ActsBuf = Some ab" "nq * 160 \<le> int (length (cb_cells ab))" and do: "0 \<le> jb_dst_offset job"
    and sep: "jb_weights job \<noteq> ?h \<or> jb_weights_offset job + int (length wb) \<le> jb_dst_offset job \<or>
      jb_dst_offset job + ?rows * jb_cols job * 4 \<le> jb_weights_offset job"
    using s by (auto simp: setting_def)
  have inv: "alloc_inv (w_alloc w)" using ready_mem(2) [OF r] .
  from s obtain d where d: "contents (w_alloc w) ?h = Some d" "jb_dst_offset job + ?rows * jb_cols job * 4 \<le> int (length d)"
    by (auto simp: setting_def)
  from hr obtain dw where dw: "contents (w_alloc w) (jb_weights job) = Some dw" "0 \<le> jb_weights_offset job"
    "jb_weights_offset job + int (length wb) \<le> int (length dw)" "py_slice dw (jb_weights_offset job) (jb_weights_offset job + int (length wb)) = wb"
    by (auto simp: has_range_def)
  from dw(1) obtain rec where rec: "map_of (al_records (w_alloc w)) (jb_weights job) = Some rec" by (auto simp: contents_Some)
  define b where "b = remaining_in 0 ?ow (tr_extents rec) div ?pb"
  define c where "c = chunk_size (jb_max_rowblocks job) (jb_rowblocks job - rbs) b"
  define n where "n = min (c * 8) (?rows - rs)"
  note m = at_chunk_more [OF job at]
  have nx: "at_chunk job (rs + n) (rbs + c)" "0 < n"
    using at_chunk_next [OF job at c_def, of n] f(1) by (simp_all add: n_def)
  have c: "1 \<le> c" "rbs + c \<le> jb_rowblocks job" "c \<le> jb_max_rowblocks job"
    using chunk_size_bounds [of "jb_max_rowblocks job" "jb_rowblocks job - rbs" b] job m(1) by (auto simp: c_def job_ok_def)
  have rbs0: "0 \<le> rbs" "0 \<le> rs" using at m(2) f(1) by (auto simp: at_chunk_def)
  have wr: "0 \<le> rbs * ?pb" "rbs * ?pb + c * ?pb \<le> int (length wb)" "0 < c * ?pb"
    using rbs0 c f(5) lw mult_right_mono [of "rbs + c" "jb_rowblocks job" ?pb] by (simp_all add: distrib_right)
  have rp: "0 \<le> ?rows" using job by (simp add: job_ok_def)
  have "(col + 1) * ?rows \<le> jb_cols job * ?rows" using col(2) rp by (intro mult_right_mono) simp_all
  then have colb: "col * ?rows + ?rows \<le> ?rows * jb_cols job" "0 \<le> col * ?rows"
    using col(1) rp by (simp_all add: algebra_simps)
  have nrs: "rs + n \<le> ?rows" "n \<le> c * 8" by (simp_all add: n_def)
  have drng: "0 \<le> ?off" "?off + n * 4 \<le> int (length d)" "jb_dst_offset job \<le> ?off" "?off + n * 4 \<le> jb_dst_offset job + ?rows * jb_cols job * 4"
    using do d(2) colb nrs rbs0 nx(2) by simp_all
  have sepc: "jb_weights job \<noteq> ?h \<or> ?ow + c * ?pb \<le> ?off \<or> ?off + n * 4 \<le> ?ow"
    using sep wr(1,2) drng(3,4) by linarith
  let ?wc = "py_slice dw ?ow (?ow + c * ?pb)"
  have wc: "?wc = py_slice wb (rbs * ?pb) (rbs * ?pb + c * ?pb)"
    using slice_of_slice [of "jb_weights_offset job" "int (length wb)" dw "rbs * ?pb" "c * ?pb"] dw wr by (simp add: add.assoc)
  have out: "rowblocks_out G ?pb c ?wc ?stream = block_results G ?pb wb ?stream rbs (rbs + c)"
    unfolding wc using rbs0 c f(5) wr by (intro block_results_rowblocks) (simp_all add: distrib_right)
  let ?out = "block_results G ?pb wb ?stream rbs (rbs + c)"
  have lo: "int (length ?out) = c * 32"
    using dev c(1) by (subst length_block_results) (auto simp: runs_chunks_def)
  have "c * ?pb \<le> jb_max_rowblocks job * ?pb" using c(3) f(5) by (intro mult_right_mono) simp_all
  then have bw': "has_buf WeightsDmaBuf (c * ?pb) (w_dev w)"
    using bw unfolding has_buf_def by (metis order.trans)
  have ext: "extent_remaining (w_alloc w) (jb_weights job) ?ow = Inr (remaining_in 0 ?ow (tr_extents rec))"
    using rec by (simp add: extent_remaining_def tensor_extents_def get_record_def)
  have wrng: "0 \<le> ?ow" "?ow + c * ?pb \<le> int (length dw)" using dw wr by simp_all
  have cs: "chunk_size (jb_max_rowblocks job) (jb_rowblocks job - rbs) (remaining_in 0 ?ow (tr_extents rec) div ?pb) = c" by (simp add: c_def b_def)
  have fin: thesis if "run_chunk env host job col rs rbs dirty w = (Inr (n, c, cy, dirty'), w')" "pl_kept w w'"
      "other_bufs w w'" "wrote ?h ?off (take (nat (n * 4)) ?out) w w'" for cy dirty' w'
    using that(1) nx n_def c(1,2) that(2-4) by (rule result)
  show thesis
  proof (rule chunk_dst_ok [OF r d(1) drng(1,2), of "c * 32"])
    show "0 < n * 4" using nx(2) by simp
  next
    fix i y assume eq: "c * 32 = n * 4" and v: "slab_view (w_alloc w) ?h ?off (n * 4) = Inr (i, y, n * 4)"
      and cd: "chunk_dst (w_alloc w) ?h ?off (c * 32) (n * 4) = Inr (Some (i, y, physical_address (al_slabs (w_alloc w) ! i) + y))"
      and l: "lies phys_at (pl_view w []) (physical_address (al_slabs (w_alloc w) ! i) + y) (n * 4) (InSlab i) y"
    have sv: "x + c * ?pb \<le> y \<or> y + c * 32 \<le> x" if "slab_view (w_alloc w) (jb_weights job) ?ow (c * ?pb) = Inr (i, x, c * ?pb)" for x
      using views_disjoint [OF inv that v wr(3) _ sepc] nx(2) eq by auto
    obtain cyc w1 hw where w1: "run_matmul_dual_stream env host (jb_weights job) ?ow (c * ?pb) (nq * 160)
        (physical_address (al_slabs (w_alloc w) ! i) + y) (c * 32) nq c False w = (Inr cyc, stored w1 (InSlab i) y ?out hw)"
        "pl_kept w w1" "only_buf WeightsDmaBuf w w1" "contents (w_alloc w1) = contents (w_alloc w)"
      by (rule dual_stream_ok [OF r dev dw(1) wrng(1,2) bw' ab f(5), of "physical_address (al_slabs (w_alloc w) ! i) + y" "InSlab i" y env])
         (use c(1) l [folded eq] sv out in auto)
    have r1: "ready host lib kr wr ar w1" using r w1(2) by (rule ready_kept)
    have sh: "same_shape (w_alloc w) (w_alloc w1)" using w1(2) by (simp add: pl_kept_def)
    have v1: "slab_view (w_alloc w1) ?h ?off (int (length ?out)) = Inr (i, y, n * 4)" using v slab_view_same [OF sh] lo eq by simp
    have l1: "lies phys_at (pl_view w1 []) (physical_address (al_slabs (w_alloc w) ! i) + y) (int (length ?out)) (InSlab i) y"
      using lies_kept(1) [OF w1(2) l] lo eq by simp
    note st = stored_slab [OF r1 v1, of d hw]
    show thesis
    proof (rule fin)
      show "run_chunk env host job col rs rbs dirty w =
          (Inr (n, c, le_value cyc, mark_dirty i y (y + n * 4) dirty), stored w1 (InSlab i) y ?out hw)"
        using cd w1(1) f by (simp add: run_chunk_def Let_def py_simps ext cs mult.commute [of c 32] n_def [symmetric] section_ready [OF r])
      show "pl_kept w (stored w1 (InSlab i) y ?out hw)" using w1(2) stored_kept [OF r1 l1] by (rule pl_kept_trans)
      show "other_bufs w (stored w1 (InSlab i) y ?out hw)"
        using st(2) w1(3,4) d(1) by (simp add: only_buf_def other_bufs_def)
      show "wrote ?h ?off (take (nat (n * 4)) ?out) w (stored w1 (InSlab i) y ?out hw)"
        using st(1) w1(4) d(1) drng lo eq by (auto simp: wrote_def)
    qed
  next
    assume cd: "chunk_dst (w_alloc w) ?h ?off (c * 32) (n * 4) = Inr None"
    from br obtain rb where rb: "map_of (pl_cma (w_dev w)) ResultBuf = Some rb" "jb_max_rowblocks job * 32 \<le> int (length (cb_cells rb))"
      by (auto simp: has_buf_def)
    then have rl: "c * 32 \<le> int (length (cb_cells rb))" using c(3) by simp
    have l: "lies phys_at (pl_view w []) (cb_phys rb) (c * 32) (InCma ResultBuf) 0" using cma_phys_lies [OF rb(1) _ rl] c(1) by simp
    obtain cyc w1 hw where w1: "run_matmul_dual_stream env host (jb_weights job) ?ow (c * ?pb) (nq * 160)
        (cb_phys rb) (c * 32) nq c False w = (Inr cyc, stored w1 (InCma ResultBuf) 0 ?out hw)"
        "pl_kept w w1" "only_buf WeightsDmaBuf w w1" "contents (w_alloc w1) = contents (w_alloc w)"
      by (rule dual_stream_ok [OF r dev dw(1) wrng(1,2) bw' ab f(5), of "cb_phys rb" "InCma ResultBuf" 0 env])
         (use c(1) l out in auto)
    let ?w2 = "stored w1 (InCma ResultBuf) 0 ?out hw"
    have r1: "ready host lib kr wr ar w1" using r w1(2) by (rule ready_kept)
    have k2: "pl_kept w1 ?w2" using stored_kept [OF r1, of "cb_phys rb" ?out "InCma ResultBuf" 0] lies_kept(1) [OF w1(2) l] lo by simp
    have r2: "ready host lib kr wr ar ?w2" using r1 k2 by (rule ready_kept)
    have rb1: "map_of (pl_cma (w_dev w1)) ResultBuf = Some rb" using w1(3) rb(1) by (simp add: only_buf_def)
    from stored_cma [OF rb1, of ?out hw] rl lo obtain b' where
      b': "only_buf ResultBuf w1 ?w2" "w_alloc ?w2 = w_alloc w1" "map_of (pl_cma (w_dev ?w2)) ResultBuf = Some b'"
        "cb_cells b' = ?out @ drop (length ?out) (cb_cells rb)" by auto
    have lt: "int (length (take (nat (n * 4)) ?out)) = n * 4" using lo nrs(2) nx(2) by auto
    have sl: "py_slice (cb_cells b') 0 (n * 4) = take (nat (n * 4)) ?out" using b'(4) lo nrs nx(2) by (simp add: py_slice_in)
    obtain w' where w': "copy_result env ?h ?off (c * 32) (n * 4) ?w2 = (Inr (), w')" "pl_kept ?w2 w'" "only_buf ResultBuf ?w2 w'"
        "contents (w_alloc w') = (contents (w_alloc ?w2))(?h \<mapsto> slice_assign d ?off (?off + n * 4) (py_slice (cb_cells b') 0 (n * 4)))"
      by (rule copy_result_ok [OF r2 b'(3), of "n * 4" ?h d ?off env "c * 32"]) (use b'(2,4) w1(4) d(1) drng nx(2) nrs lo in auto)
    show thesis
    proof (rule fin)
      show "run_chunk env host job col rs rbs dirty w = (Inr (n, c, le_value cyc, dirty), w')"
        using cd w1(1) f rb(1) w'(1)
        by (simp add: run_chunk_def Let_def py_simps ext cs mult.commute [of c 32] n_def [symmetric] section_ready [OF r] get_cma_def)
      show "pl_kept w w'" using pl_kept_trans [OF pl_kept_trans [OF w1(2) k2] w'(2)] .
      show "other_bufs w w'" using w'(3) b'(1) w1(3) by (simp add: only_buf_def other_bufs_def)
      show "wrote ?h ?off (take (nat (n * 4)) ?out) w w'"
        using w'(4) b'(2) w1(4) d(1) drng unfolding sl by (auto simp: wrote_def lt simp del: length_take)
    qed
  qed
qed

end
