(* ===== verification/MatmulRun.thy ===== *)
theory MatmulRun
  imports MatmulSpec
begin

text \<open>
  The loops of the PL matmul: the chunks of a column, the columns, and the whole \<open>run\<close>, each with what it
  leaves in the destination tensor.
\<close>

section \<open>The chunks of a column\<close>

lemma take_block_results:
  assumes "\<And>x y. length (G x y) = 32" "lo \<le> mid" "mid \<le> hi" "0 \<le> n"
  shows "take (nat n) (block_results G pb wb stream lo hi) =
    take (nat (min n ((mid - lo) * 32))) (block_results G pb wb stream lo mid) @
    take (nat (n - (mid - lo) * 32)) (block_results G pb wb stream mid hi)"
proof -
  have "length (block_results G pb wb stream lo mid) = nat ((mid - lo) * 32)"
    using length_block_results [of G lo mid pb wb stream] assms by simp
  then show ?thesis
    using assms(2-4) by (cases "n \<le> (mid - lo) * 32") (simp_all add: block_results_split [OF assms(2,3)] nat_diff_distrib)
qed

lemma wrote_nothing:
  "contents (w_alloc w) h = Some d \<Longrightarrow> 0 \<le> off \<Longrightarrow> off \<le> int (length d) \<Longrightarrow> wrote h off [] w w"
  by (auto simp: wrote_def slice_assign_in)

lemma column_range:
  assumes "job_ok job" "0 \<le> col" "col < jb_cols job"
  shows "0 \<le> col * jb_rows job" "col * jb_rows job + jb_rows job \<le> jb_rows job * jb_cols job"
proof -
  have r: "0 \<le> jb_rows job" using assms(1) by (simp add: job_ok_def)
  then have "(col + 1) * jb_rows job \<le> jb_cols job * jb_rows job" using assms(3) by (intro mult_right_mono) simp_all
  then show "col * jb_rows job + jb_rows job \<le> jb_rows job * jb_cols job" by (simp add: algebra_simps)
  show "0 \<le> col * jb_rows job" using r assms(2) by simp
qed

text \<open>Past the last row the loop ends and nothing is left to write.\<close>

lemma chunk_loop_done:
  assumes s: "setting host lib kr wr ar nq job wb ab w" and at: "at_chunk job rs rbs" and rs: "\<not> rs < jb_rows job"
    and col: "0 \<le> col" "col < jb_cols job"
  shows "chunk_loop fuel env host job col rs rbs st w = (Inr st, w)"
    "wrote (jb_dst job) (jb_dst_offset job + (col * jb_rows job + rs) * 4) (take (nat ((jb_rows job - rs) * 4)) out) w w"
proof -
  have job: "job_ok job" using s by (simp add: setting_def)
  have rs: "rs = jb_rows job" using at rs by (auto simp: at_chunk_def)
  then show "chunk_loop fuel env host job col rs rbs st w = (Inr st, w)" by (cases st) (simp add: chunk_loop.simps py_simps)
  from s obtain d where "contents (w_alloc w) (jb_dst job) = Some d" "jb_dst_offset job + jb_rows job * jb_cols job * 4 \<le> int (length d)"
    "0 \<le> jb_dst_offset job" by (auto simp: setting_def)
  then show "wrote (jb_dst job) (jb_dst_offset job + (col * jb_rows job + rs) * 4) (take (nat ((jb_rows job - rs) * 4)) out) w w"
    using column_range [OF job col] job unfolding rs by (simp add: job_ok_def wrote_nothing)
qed

lemma chunk_loop_ok:
  assumes dev: "runs_chunks lib kr wr ar G" and col: "0 \<le> col" "col < jb_cols job"
  shows "setting host lib kr wr ar nq job wb ab w \<Longrightarrow> at_chunk job rs rbs \<Longrightarrow> nat (jb_rows job - rs) \<le> fuel \<Longrightarrow>
    \<exists>st' w'. chunk_loop fuel env host job col rs rbs st w = (Inr st', w') \<and> pl_kept w w' \<and> other_bufs w w' \<and>
      wrote (jb_dst job) (jb_dst_offset job + (col * jb_rows job + rs) * 4)
        (take (nat ((jb_rows job - rs) * 4)) (block_results G (nq * 144) wb (py_slice (cb_cells ab) 0 (nq * 160)) rbs (jb_rowblocks job))) w w'"
proof (induction fuel arbitrary: rs rbs st w)
  case 0
  then have "\<not> rs < jb_rows job" by simp
  then show ?case using chunk_loop_done [OF 0(1,2) _ col] by (fastforce simp: other_bufs_def)
next
  case (Suc fuel)
  let ?out = "block_results G (nq * 144) wb (py_slice (cb_cells ab) 0 (nq * 160))"
  obtain cy d where st: "st = (cy, d)" by (cases st)
  have job: "job_ok job" using Suc.prems(1) by (simp add: setting_def)
  note cr = column_range [OF job col]
  have g: "length (G x y) = 32" for x y using dev by (simp add: runs_chunks_def)
  show ?case
  proof (cases "rs < jb_rows job")
    case False
    then show ?thesis using chunk_loop_done [OF Suc.prems(1,2) _ col] by (fastforce simp: other_bufs_def)
  next
    case True
    obtain n c cy' d' w1 where w1: "run_chunk env host job col rs rbs d w = (Inr (n, c, cy', d'), w1)"
      "at_chunk job (rs + n) (rbs + c)" "0 < n" "n = min (c * 8) (jb_rows job - rs)" "1 \<le> c" "rbs + c \<le> jb_rowblocks job"
      "pl_kept w w1" "other_bufs w w1"
      "wrote (jb_dst job) (jb_dst_offset job + (col * jb_rows job + rs) * 4) (take (nat (n * 4)) (?out rbs (rbs + c))) w w1"
      using run_chunk_ok [OF Suc.prems(1) dev Suc.prems(2) True col] .
    have rs0: "0 \<le> rs" using Suc.prems(2) job by (auto simp: at_chunk_def job_ok_def)
    have "int (length (?out rbs (rbs + c))) = c * 32" using length_block_results [of G rbs "rbs + c"] g w1(5) by simp
    moreover have le: "n \<le> c * 8" "rs + n \<le> jb_rows job" using w1(4) by simp_all
    ultimately have len: "int (length (take (nat (n * 4)) (?out rbs (rbs + c)))) = n * 4" using w1(3) by simp
    have ab1: "map_of (pl_cma (w_dev w1)) ActsBuf = Some ab" using w1(8) Suc.prems(1) by (simp add: other_bufs_def setting_def)
    have s1: "setting host lib kr wr ar nq job wb ab w1"
      using le rs0 cr by (intro setting_step [OF Suc.prems(1) w1(7,9) _ _ ab1]) (simp_all add: len del: length_take)
    have "nat (jb_rows job - (rs + n)) \<le> fuel" using Suc.prems(3) w1(3) True by simp
    from Suc.IH [OF s1 w1(2) this, of "(cy + cy', d')"] obtain st' w' where
      w': "chunk_loop fuel env host job col (rs + n) (rbs + c) (cy + cy', d') w1 = (Inr st', w')" "pl_kept w1 w'"
        "other_bufs w1 w'"
        "wrote (jb_dst job) (jb_dst_offset job + (col * jb_rows job + (rs + n)) * 4)
          (take (nat ((jb_rows job - (rs + n)) * 4)) (?out (rbs + c) (jb_rowblocks job))) w1 w'" by blast
    have eq: "jb_dst_offset job + (col * jb_rows job + (rs + n)) * 4 = jb_dst_offset job + (col * jb_rows job + rs) * 4 + n * 4" by simp
    have cut: "min ((jb_rows job - rs) * 4) (c * 32) = n * 4" "nat ((jb_rows job - rs) * 4 - c * 32) = nat ((jb_rows job - (rs + n)) * 4)"
      using w1(4) by (auto simp: min_def split: if_splits)
    have ap: "take (nat ((jb_rows job - rs) * 4)) (?out rbs (jb_rowblocks job)) =
        take (nat (n * 4)) (?out rbs (rbs + c)) @ take (nat ((jb_rows job - (rs + n)) * 4)) (?out (rbs + c) (jb_rowblocks job))"
      using take_block_results [of G rbs "rbs + c" "jb_rowblocks job" "(jb_rows job - rs) * 4"] g w1(5,6) True
      by (simp add: cut [simplified])
    have "wrote (jb_dst job) (jb_dst_offset job + (col * jb_rows job + rs) * 4) (take (nat ((jb_rows job - rs) * 4)) (?out rbs (jb_rowblocks job))) w w'"
      using wrote_append [OF w1(9), unfolded len, OF w'(4) [unfolded eq]] ap by simp
    moreover have "chunk_loop (Suc fuel) env host job col rs rbs st w = (Inr st', w')"
      using w1(1) w'(1) True by (simp add: st chunk_loop.simps [of "Suc fuel"] py_simps)
    ultimately show ?thesis using pl_kept_trans [OF w1(7) w'(2)] other_bufs_trans [OF w1(8) w'(3)] by blast
  qed
qed

section \<open>The activations\<close>

text \<open>The address that \<open>read_acts_addr\<close> returns: in the slab of a tensor, or of the copy in the scratch buffer.\<close>

definition acts_at :: "int \<Rightarrow> int \<Rightarrow> byte list \<Rightarrow> int \<Rightarrow> 'h pl_world \<Rightarrow> bool" where
  "acts_at h off bs addr w \<longleftrightarrow>
     (\<exists>i x b. slab_view (w_alloc w) h off (int (length bs)) = Inr (i, x, int (length bs)) \<and> base_va (al_slabs (w_alloc w) ! i) = Some b \<and>
        addr = b + x \<and> has_range w h off bs) \<or>
     (\<exists>sb rest. map_of (pl_cma (w_dev w)) ActsInScratch = Some sb \<and> addr = cb_va sb \<and> cb_cells sb = bs @ rest)"

lemma acts_at_load:
  assumes r: "ready host lib kr wr ar w" and at: "acts_at h off bs addr w" and rng: "0 \<le> a" "0 < m" "a + m \<le> int (length bs)"
  shows "mem_load va_at (pl_view w bufs) (addr + a) m = Some (py_slice bs a (a + m))"
proof -
  have sp: "spread va_at (pl_view w bufs)" using r spread_kept(2) [OF pl_kept_refl, of w bufs "[]"] by (simp add: ready_def mem_sane_def)
  have inv: "alloc_inv (w_alloc w)" using ready_mem(2) [OF r] .
  show ?thesis
    using at unfolding acts_at_def
  proof (elim disjE exE conjE)
    fix i x b assume v: "slab_view (w_alloc w) h off (int (length bs)) = Inr (i, x, int (length bs))"
      and b: "base_va (al_slabs (w_alloc w) ! i) = Some b" "addr = b + x" and hr: "has_range w h off bs"
    from slab_view_spec [OF inv v] obtain d where d: "contents (w_alloc w) h = Some d" "i < length (al_slabs (w_alloc w))" "0 \<le> x"
      "x + int (length bs) \<le> slab_size (al_slabs (w_alloc w) ! i)"
      "py_slice (buf (al_slabs (w_alloc w) ! i)) x (x + int (length bs)) = py_slice d off (off + int (length bs))" .
    have sz: "slab_size (al_slabs (w_alloc w) ! i) = int (length (buf (al_slabs (w_alloc w) ! i)))"
      using inv d(2) by (simp add: alloc_inv_def slabs_ok_def)
    have "lies va_at (pl_view w bufs) (addr + a) m (InSlab i) (x + a)"
      using b d sz rng by (auto simp: lies_def places_def)
    from lies_load [OF sp this] show ?thesis
      using slice_of_slice [of x "int (length bs)" "buf (al_slabs (w_alloc w) ! i)" a m] d sz rng hr by (auto simp: has_range_def)
  next
    fix sb rest assume sb: "map_of (pl_cma (w_dev w)) ActsInScratch = Some sb" "addr = cb_va sb" "cb_cells sb = bs @ rest"
    have "lies va_at (pl_view w bufs) (addr + a) m (InCma ActsInScratch) a"
      using sb rng by (auto simp: lies_def intro: in_places(2))
    from lies_load [OF sp this] show ?thesis using sb rng by (simp add: py_slice_in)
  qed
qed

lemma acts_at_kept:
  assumes "acts_at h off bs addr w" "pl_kept w w'" "map_of (pl_cma (w_dev w')) ActsInScratch = map_of (pl_cma (w_dev w)) ActsInScratch"
    "has_range w h off bs \<Longrightarrow> has_range w' h off bs" "alloc_inv (w_alloc w)"
  shows "acts_at h off bs addr w'"
proof -
  have sh: "same_shape (w_alloc w) (w_alloc w')" using assms(2) by (simp add: pl_kept_def)
  have "base_va (al_slabs (w_alloc w') ! i) = base_va (al_slabs (w_alloc w) ! i)" if "slab_view (w_alloc w) h off n = Inr (i, x, k)" for i x k n
    using similar_nth [OF sh slab_view_index [OF assms(5) that]] by (simp add: slab_similar_def)
  then show ?thesis using assms slab_view_same [OF sh] unfolding acts_at_def by (metis (no_types, lifting))
qed

section \<open>The stream of a column\<close>

definition column_stream :: "(byte list \<Rightarrow> byte list \<times> byte list) \<Rightarrow> int \<Rightarrow> byte list \<Rightarrow> byte list" where
  "column_stream Q k bs = (case pack_acts (fst (Q bs)) (snd (Q bs)) k of Inl e \<Rightarrow> [] | Inr out \<Rightarrow> out)"

lemma quantize_column_ok:
  assumes r: "ready host lib kr wr ar w" and dev: "quantizes lib Q" and k: "0 < k" "u32 k" "k mod 32 = 0"
    and bs: "mem_load va_at (pl_view w [q, s]) addr (k * 4) = Some bs"
  shows "quantize_column env host addr k [q, s] w = (Inr [fst (Q bs), snd (Q bs)], w)"
    "int (length (fst (Q bs))) = k" "int (length (snd (Q bs))) = k div 32 * 2"
proof -
  note c = dev [unfolded quantizes_def, rule_format, OF k, of "pl_view w [q, s]" addr bs]
  show "int (length (fst (Q bs))) = k" "int (length (snd (Q bs))) = k div 32 * 2" using c bs by simp_all
  show "quantize_column env host addr k [q, s] w = (Inr [fst (Q bs), snd (Q bs)], w)"
    using c bs by (simp add: quantize_column_def checked_pl_def section_ready [OF r] call_bound_ready [OF r] py_simps)
qed

lemma pack_column_ok:
  assumes r: "ready host lib kr wr ar w" and dev: "packs lib" and k: "u32 k" and p: "pack_acts q s k = Inr out"
    and b: "map_of (pl_cma (w_dev w)) ActsBuf = Some b" "length out \<le> length (cb_cells b)" "out \<noteq> []"
  obtains b' w' where "pack_column env host (cb_va b) k [q, s] w = (Inr [q, s], w')" "pl_kept w w'" "only_buf ActsBuf w w'"
    "w_alloc w' = w_alloc w" "map_of (pl_cma (w_dev w')) ActsBuf = Some b'" "cb_cells b' = out @ drop (length out) (cb_cells b)" "cb_va b' = cb_va b"
proof -
  let ?m = "pl_view w [q, s]"
  let ?c = "out @ drop (length out) (cb_cells b)"
  let ?w1 = "w\<lparr>w_dev := (w_dev w)\<lparr>pl_cma := AList.update ActsBuf (b\<lparr>cb_cells := ?c\<rparr>) (pl_cma (w_dev w))\<rparr>\<rparr>"
  let ?g = "\<lambda>b. cma_cache (Flush 0 (int (length (cb_cells b)))) b"
  let ?w' = "?w1\<lparr>w_dev := cma_upd ActsBuf ?g (w_dev ?w1)\<rparr>"
  have sp: "spread va_at ?m" using r spread_kept(2) [OF pl_kept_refl, of w "[q, s]" "[]"] by (simp add: ready_def mem_sane_def)
  have l: "lies va_at ?m (cb_va b) (int (length out)) (InCma ActsBuf) 0"
    using b by (auto simp: lies_def intro: in_places(2))
  have "mem_store va_at ?m (cb_va b) out = ?m\<lparr>pm_cma := AList.update ActsBuf (b\<lparr>cb_cells := ?c\<rparr>) (pl_cma (w_dev w))\<rparr>"
    using lies_store [OF sp l] b by (simp add: slice_assign_in)
  moreover have "mem_load va_at ?m (cb_va b) (int (length out)) \<noteq> None" using lies_load [OF sp l] by simp
  ultimately have "cl_pl_call lib ''bonsai_q1a8_pack_acts'' [CPtr (PBuf 0 0), CPtr (PBuf 1 0), c_uint32 k, CPtr (PVa (cb_va b))] ?m =
      (0, ?m\<lparr>pm_cma := AList.update ActsBuf (b\<lparr>cb_cells := ?c\<rparr>) (pl_cma (w_dev w))\<rparr>)"
    using dev k p unfolding packs_def by simp
  then have "pack_column env host (cb_va b) k [q, s] w = (Inr [q, s], ?w')"
    by (simp add: pack_column_def checked_pl_def flush_cma_def on_dev_def section_ready [OF r] call_bound_ready [OF r] py_simps)
  moreover have "pl_kept w ?w1"
    using b by (auto simp: pl_kept_def same_dev_def update_conv' cma_similar_def option.rel_refl same_shape_refl)
  moreover have "pl_kept ?w1 ?w'" by (auto simp: pl_kept_def same_shape_refl intro!: same_dev_upd)
  ultimately show ?thesis
    by (intro that [of ?w' "?g (b\<lparr>cb_cells := ?c\<rparr>)"]) (auto simp: only_buf_def map_of_cma_upd update_conv' cma_cache_def intro: pl_kept_trans)
qed

section \<open>Columns\<close>

definition column_out :: "(byte list \<Rightarrow> byte list \<times> byte list) \<Rightarrow> (byte list \<Rightarrow> byte list \<Rightarrow> byte list) \<Rightarrow> int \<Rightarrow> int \<Rightarrow> int \<Rightarrow> byte list \<Rightarrow> byte list \<Rightarrow> int \<Rightarrow> byte list" where
  "column_out Q G nq rows rowblocks wb acts col =
     (let n = nq * 128 * 4 in
      take (nat (rows * 4)) (block_results G (nq * 144) wb (column_stream Q (nq * 128) (py_slice acts (col * n) (col * n + n))) 0 rowblocks))"

text \<open>What holds before every column: the activations are at their address, apart from the destination.\<close>

definition col_setting :: "'h pl_host \<Rightarrow> 'h pl_lib \<Rightarrow> int \<Rightarrow> int \<Rightarrow> int \<Rightarrow> int \<Rightarrow> pl_job \<Rightarrow> byte list \<Rightarrow> cma \<Rightarrow> int \<Rightarrow> int \<Rightarrow> byte list \<Rightarrow> 'h pl_world \<Rightarrow> bool" where
  "col_setting host lib kr wr ar nq job wb ab h off acts w \<longleftrightarrow>
     setting host lib kr wr ar nq job wb ab w \<and> u32 (nq * 128) \<and> acts_at h off acts (jb_acts_addr job) w \<and>
     int (length acts) = jb_cols job * (nq * 128 * 4) \<and>
     (h \<noteq> jb_dst job \<or> off + int (length acts) \<le> jb_dst_offset job \<or> jb_dst_offset job + jb_rows job * jb_cols job * 4 \<le> off)"

lemma column_stream_ok:
  assumes "int (length (fst (Q bs))) = nq * 128" "int (length (snd (Q bs))) = nq * 128 div 32 * 2" "0 \<le> nq"
  shows "pack_acts (fst (Q bs)) (snd (Q bs)) (nq * 128) = Inr (column_stream Q (nq * 128) bs)"
    "int (length (column_stream Q (nq * 128) bs)) = nq * 160"
proof -
  have b: "blocks_per_row (nq * 128) = Inr nq" by (simp add: blocks_per_row_def)
  have s8: "int (length (snd (Q bs))) = nq * 8" using assms(2) by simp
  note p = pack_acts_spec [OF b assms(1) s8]
  have "acts_ok (fst (Q bs)) (snd (Q bs)) nq" using assms(1,3) s8 by (simp add: acts_ok_def)
  then show "int (length (column_stream Q (nq * 128) bs)) = nq * 160"
    using assms(3) p by (simp add: column_stream_def length_acts_stream)
  show "pack_acts (fst (Q bs)) (snd (Q bs)) (nq * 128) = Inr (column_stream Q (nq * 128) bs)"
    using p by (simp add: column_stream_def)
qed

lemma length_column_out:
  assumes "\<And>x y. length (G x y) = 32" "0 \<le> rows" "rows \<le> rowblocks * 8"
  shows "int (length (column_out Q G nq rows rowblocks wb acts col)) = rows * 4"
proof -
  have "nat (rows * 4) \<le> length (block_results G pb wb stream 0 rowblocks)" for pb stream
    using length_block_results [of G 0 rowblocks pb wb stream] assms by simp
  then show ?thesis using assms(2) by (simp add: column_out_def Let_def min_absorb2)
qed

lemma setting_acts:
  assumes "setting host lib kr wr ar nq job wb ab w" "pl_kept w w'" "w_alloc w' = w_alloc w"
    "map_of (pl_cma (w_dev w')) ActsBuf = Some ab'" "length (cb_cells ab') = length (cb_cells ab)"
  shows "setting host lib kr wr ar nq job wb ab' w'"
proof -
  have dev: "same_dev (w_dev w) (w_dev w')" using assms(2) by (simp add: pl_kept_def)
  have "has_range w' h off bs \<longleftrightarrow> has_range w h off bs" for h off bs using assms(3) by (simp add: has_range_def)
  then show ?thesis using assms ready_kept [OF _ assms(2)] has_buf_kept [OF dev] unfolding setting_def by auto
qed

lemma run_column_ok:
  assumes s: "col_setting host lib kr wr ar nq job wb ab h off acts w"
    and dev: "runs_chunks lib kr wr ar G" "quantizes lib Q" "packs lib" and col: "0 \<le> col" "col < jb_cols job"
  obtains q' s' st' ab' w' where "run_column env host job (cb_va ab) col [q, sc] st w = (Inr ([q', s'], st'), w')"
    "col_setting host lib kr wr ar nq job wb ab' h off acts w'" "cb_va ab' = cb_va ab" "pl_kept w w'"
    "wrote (jb_dst job) (jb_dst_offset job + col * jb_rows job * 4) (column_out Q G nq (jb_rows job) (jb_rowblocks job) wb acts col) w w'"
proof -
  let ?k = "nq * 128" and ?n = "nq * 128 * 4"
  let ?bs = "py_slice acts (col * ?n) (col * ?n + ?n)"
  let ?q = "fst (Q ?bs)" and ?s = "snd (Q ?bs)" and ?stream = "column_stream Q ?k (py_slice acts (col * ?n) (col * ?n + ?n))"
  have s0: "setting host lib kr wr ar nq job wb ab w" and u: "u32 ?k" and at: "acts_at h off acts (jb_acts_addr job) w"
    and la: "int (length acts) = jb_cols job * ?n"
    and sep: "h \<noteq> jb_dst job \<or> off + int (length acts) \<le> jb_dst_offset job \<or> jb_dst_offset job + jb_rows job * jb_cols job * 4 \<le> off"
    using s by (auto simp: col_setting_def)
  have r: "ready host lib kr wr ar w" and job: "job_ok job" and k: "jb_k job = ?k" "0 < nq" and an: "nq * 160 \<le> int (length (cb_cells ab))"
    and ab: "map_of (pl_cma (w_dev w)) ActsBuf = Some ab" using s0 by (auto simp: setting_def)
  have inv: "alloc_inv (w_alloc w)" using ready_mem(2) [OF r] .
  have "(col + 1) * ?n \<le> jb_cols job * ?n" using col(2) k(2) by (intro mult_right_mono) simp_all
  then have rng: "0 \<le> col * ?n" "col * ?n + ?n \<le> int (length acts)" "0 < ?n" using la col k(2) by (simp_all add: algebra_simps)
  have "mem_load va_at (pl_view w [q, sc]) (jb_acts_addr job + col * ?n) (?k * 4) = Some ?bs"
    using acts_at_load [OF r at rng(1,3,2)] by simp
  from quantize_column_ok [OF r dev(2) _ u _ this] k(2) have
    qz: "quantize_column env host (jb_acts_addr job + col * ?n) ?k [q, sc] w = (Inr [?q, ?s], w)"
      "int (length ?q) = ?k" "int (length ?s) = ?k div 32 * 2" by simp_all
  have cs: "pack_acts ?q ?s ?k = Inr ?stream" "int (length ?stream) = nq * 160"
    using column_stream_ok [of Q ?bs nq] qz(2,3) k(2) by simp_all
  have "length ?stream \<le> length (cb_cells ab)" "?stream \<noteq> []" using cs(2) an k(2) by (simp_all flip: length_greater_0_conv)
  then obtain ab' w1 where w1: "pack_column env host (cb_va ab) ?k [?q, ?s] w = (Inr [?q, ?s], w1)" "pl_kept w w1" "only_buf ActsBuf w w1"
      "w_alloc w1 = w_alloc w" "map_of (pl_cma (w_dev w1)) ActsBuf = Some ab'"
      "cb_cells ab' = ?stream @ drop (length ?stream) (cb_cells ab)" "cb_va ab' = cb_va ab"
    using pack_column_ok [OF r dev(3) u cs(1) ab, of env thesis] that by metis
  have s1: "setting host lib kr wr ar nq job wb ab' w1"
    using w1(6) cs(2) an by (intro setting_acts [OF s0 w1(2,4,5)]) simp
  have stream: "py_slice (cb_cells ab') 0 (nq * 160) = ?stream" using w1(6) cs(2) by (simp add: py_slice_in)
  have fuel: "nat (jb_rows job - 0) \<le> nat (jb_rows job)" by simp
  let ?out = "column_out Q G nq (jb_rows job) (jb_rowblocks job) wb acts col"
  from chunk_loop_ok [OF dev(1) col s1 at_chunk_start [OF job] fuel, of env st] obtain st' w' where
    w': "chunk_loop (nat (jb_rows job)) env host job col 0 0 st w1 = (Inr st', w')" "pl_kept w1 w'" "other_bufs w1 w'"
      "wrote (jb_dst job) (jb_dst_offset job + col * jb_rows job * 4) ?out w1 w'"
    unfolding stream by (auto simp: column_out_def Let_def)
  have wr: "wrote (jb_dst job) (jb_dst_offset job + col * jb_rows job * 4) ?out w w'" using w'(4) w1(4) by (simp add: wrote_def)
  have g: "\<And>x y. length (G x y) = 32" using dev(1) by (simp add: runs_chunks_def)
  have lo: "int (length ?out) = jb_rows job * 4"
    using rowblocks_cover(1) [OF job] s0 job by (intro length_column_out g) (auto simp: setting_def job_ok_def)
  note cr = column_range [OF job col]
  have in_dst: "jb_dst_offset job + col * jb_rows job * 4 + int (length ?out) \<le> jb_dst_offset job + jb_rows job * jb_cols job * 4"
    using cr lo by simp
  have k': "pl_kept w w'" using pl_kept_trans [OF w1(2) w'(2)] .
  have abk: "map_of (pl_cma (w_dev w')) ActsBuf = Some ab'" using w'(3) w1(5) by (simp add: other_bufs_def)
  have "setting host lib kr wr ar nq job wb ab' w'" using setting_step [OF s1 w'(2,4) _ in_dst abk] cr(1) by simp
  moreover have "acts_at h off acts (jb_acts_addr job) w'"
  proof (rule acts_at_kept [OF at k' _ _ inv])
    show "map_of (pl_cma (w_dev w')) ActsInScratch = map_of (pl_cma (w_dev w)) ActsInScratch"
      using w'(3) w1(3) by (simp add: other_bufs_def only_buf_def)
    show "has_range w h off acts \<Longrightarrow> has_range w' h off acts"
      using sep cr(1) in_dst by (intro has_range_wrote [OF _ wr]) auto
  qed
  ultimately have "col_setting host lib kr wr ar nq job wb ab' h off acts w'" using u la sep by (simp add: col_setting_def)
  moreover have "run_column env host job (cb_va ab) col [q, sc] st w = (Inr ([?q, ?s], st'), w')"
    using qz(1) w1(1) w'(1) k(1) by (simp add: run_column_def py_simps mult.assoc)
  ultimately show ?thesis using that w1(7) k' wr by blast
qed

lemma run_columns_ok:
  assumes dev: "runs_chunks lib kr wr ar G" "quantizes lib Q" "packs lib"
  shows "col_setting host lib kr wr ar nq job wb ab h off acts w \<Longrightarrow> 0 \<le> c \<Longrightarrow> c \<le> jb_cols job \<Longrightarrow>
    \<exists>st' w'. run_columns env host job (cb_va ab) [c..jb_cols job - 1] [q, sc] st w = (Inr st', w') \<and> pl_kept w w' \<and>
      wrote (jb_dst job) (jb_dst_offset job + c * jb_rows job * 4)
        (concat (map (column_out Q G nq (jb_rows job) (jb_rowblocks job) wb acts) [c..jb_cols job - 1])) w w'"
proof (induction "nat (jb_cols job - c)" arbitrary: c ab q sc st w)
  case 0
  then have c: "c = jb_cols job" by simp
  have s: "setting host lib kr wr ar nq job wb ab w" using 0(2) by (simp add: col_setting_def)
  then obtain d where "contents (w_alloc w) (jb_dst job) = Some d" "jb_dst_offset job + jb_rows job * jb_cols job * 4 \<le> int (length d)"
    "0 \<le> jb_dst_offset job" "0 \<le> jb_rows job" by (auto simp: setting_def job_ok_def)
  then have "wrote (jb_dst job) (jb_dst_offset job + c * jb_rows job * 4) [] w w" using 0(3) c by (intro wrote_nothing) (auto simp: mult.commute)
  then show ?case using c by (auto simp: py_simps)
next
  case (Suc n)
  then have c: "c < jb_cols job" by simp
  let ?f = "column_out Q G nq (jb_rows job) (jb_rowblocks job) wb acts"
  have s: "setting host lib kr wr ar nq job wb ab w" using Suc.prems(1) by (simp add: col_setting_def)
  then have job: "job_ok job" "jb_rows_per_block job = 8" by (simp_all add: setting_def)
  obtain q' s' st1 ab' w1 where w1: "run_column env host job (cb_va ab) c [q, sc] st w = (Inr ([q', s'], st1), w1)"
    "col_setting host lib kr wr ar nq job wb ab' h off acts w1" "cb_va ab' = cb_va ab" "pl_kept w w1"
    "wrote (jb_dst job) (jb_dst_offset job + c * jb_rows job * 4) (?f c) w w1"
    using run_column_ok [OF Suc.prems(1) dev Suc.prems(2) c] .
  have "n = nat (jb_cols job - (c + 1))" "0 \<le> c + 1" "c + 1 \<le> jb_cols job" using Suc.hyps(2) Suc.prems(2) c by simp_all
  from Suc.hyps(1) [OF this(1) w1(2) this(2,3), of q' s' st1] obtain st' w' where
    w': "run_columns env host job (cb_va ab) [c + 1..jb_cols job - 1] [q', s'] st1 w1 = (Inr st', w')" "pl_kept w1 w'"
      "wrote (jb_dst job) (jb_dst_offset job + (c + 1) * jb_rows job * 4) (concat (map ?f [c + 1..jb_cols job - 1])) w1 w'"
    unfolding w1(3) by blast
  have "int (length (?f c)) = jb_rows job * 4"
    using rowblocks_cover(1) [OF job(1)] job dev(1) by (intro length_column_out) (auto simp: job_ok_def runs_chunks_def)
  then have eq: "jb_dst_offset job + (c + 1) * jb_rows job * 4 = jb_dst_offset job + c * jb_rows job * 4 + int (length (?f c))"
    by (simp add: distrib_right)
  have "wrote (jb_dst job) (jb_dst_offset job + c * jb_rows job * 4) (?f c @ concat (map ?f [c + 1..jb_cols job - 1])) w w'"
    by (rule wrote_append [OF w1(5) w'(3) [unfolded eq]])
  moreover have "[c..jb_cols job - 1] = c # [c + 1..jb_cols job - 1]" using c by (simp add: upto_rec1)
  ultimately show ?case using w1(1) w'(1) pl_kept_trans [OF w1(4) w'(2)] by (simp add: py_simps)
qed

section \<open>The loops of run\<close>

definition matmul_out :: "(byte list \<Rightarrow> byte list \<times> byte list) \<Rightarrow> (byte list \<Rightarrow> byte list \<Rightarrow> byte list) \<Rightarrow> int \<Rightarrow> int \<Rightarrow> int \<Rightarrow> byte list \<Rightarrow> byte list \<Rightarrow> byte list" where
  "matmul_out Q G nq rows cols wb acts = concat (map (column_out Q G nq rows ((rows + 7) div 8) wb acts) (py_range cols))"

lemma invalidate_keeps:
  "\<exists>w'. invalidate_dirty dirty w = (Inr (), w') \<and> pl_kept w w' \<and> contents (w_alloc w') = contents (w_alloc w) \<and> w_dev w' = w_dev w"
proof (induction dirty arbitrary: w)
  case Nil
  then show ?case by (simp add: invalidate_dirty_def py_simps)
next
  case (Cons x dirty)
  obtain i lo hi where x: "x = (i, lo, hi)" by (cases x)
  let ?s = "slab_invalidate_range (al_slabs (w_alloc w) ! i) lo (hi - lo)"
  let ?w1 = "w\<lparr>w_alloc := set_slab i ?s (w_alloc w)\<rparr>"
  have b: "buf ?s = buf (al_slabs (w_alloc w) ! i)" "slab_similar (al_slabs (w_alloc w) ! i) ?s"
    by (simp_all add: slab_invalidate_range_def slab_similar_def split: slab_kind.splits)
  have k: "same_shape (w_alloc w) (w_alloc ?w1) \<and> contents (w_alloc ?w1) = contents (w_alloc w)"
  proof (cases "i < length (al_slabs (w_alloc w))")
    case True
    then have "mem ((al_slabs (w_alloc w))[i := ?s]) = mem (al_slabs (w_alloc w))"
      using b(1) by (auto simp: mem_def fun_eq_iff nth_list_update split: prod.splits)
    then show ?thesis using set_slab_same_shape [OF True b(2)] by (auto simp: contents_def set_slab_def)
  next
    case False
    then show ?thesis by (simp add: set_slab_def same_shape_refl list_update_beyond)
  qed
  from Cons.IH [of ?w1] obtain w' where
    w': "invalidate_dirty dirty ?w1 = (Inr (), w')" "pl_kept ?w1 w'" "contents (w_alloc w') = contents (w_alloc ?w1)" "w_dev w' = w_dev w" by auto
  have "invalidate_dirty (x # dirty) w = (Inr (), w')"
    using w'(1) by (simp add: invalidate_dirty_def x invalidate_slab_def on_alloc_def py_simps)
  moreover have "pl_kept w ?w1" using k by (simp add: pl_kept_def)
  ultimately show ?case using w' k pl_kept_trans by metis
qed

text \<open>The counters move, and nothing else.\<close>

definition timed :: "'d world \<Rightarrow> 'd world \<Rightarrow> bool" where
  "timed w w' \<longleftrightarrow> (\<exists>t. w' = w\<lparr>w_timer := t\<rparr> \<and> tm_profile t = tm_profile (w_timer w))"

lemma timed_add: "\<exists>w'. timer_add key v w = (Inr (), w') \<and> timed w w'"
proof -
  have "tm_profile (add_field key v (w_timer w)) = tm_profile (w_timer w)" by (simp add: add_field_def Let_def split: option.splits)
  then show ?thesis by (auto simp: timer_add_def upd_timer_def timed_def)
qed

lemma timed_trans: "timed u v \<Longrightarrow> timed v w \<Longrightarrow> timed u w"
  by (auto simp: timed_def)

lemma timed_then:
  assumes "\<And>w. \<exists>w'. m w = (Inr (), w') \<and> timed w w'" "\<And>w. \<exists>w'. n w = (Inr (), w') \<and> timed w w'"
  shows "\<exists>w'. py_then m n w = (Inr (), w') \<and> timed w w'"
proof -
  obtain w1 where w1: "m w = (Inr (), w1)" "timed w w1" using assms(1) by blast
  obtain w2 where w2: "n w1 = (Inr (), w2)" "timed w1 w2" using assms(2) by blast
  show ?thesis using w1 w2 timed_trans by (fastforce simp: py_simps)
qed

lemma timed_counts:
  "\<exists>w'. add_shape rows cols k w = (Inr (), w') \<and> timed w w'"
  "\<exists>w'. final_counts b c rb wn an rpb cy w = (Inr (), w') \<and> timed w w'"
  unfolding add_shape_def final_counts_def by (intro timed_then timed_add)+

lemma timed_kept:
  assumes "timed w w'"
  shows "pl_kept w w'" "w_alloc w' = w_alloc w" "w_dev w' = w_dev w"
  using assms by (auto simp: timed_def pl_kept_def same_shape_refl)

lemma run_job_ok:
  assumes s: "col_setting host lib kr wr ar nq job wb ab h off acts w"
    and dev: "runs_chunks lib kr wr ar G" "quantizes lib Q" "packs lib" and cols: "0 < jb_cols job"
  obtains w' where "run_job env host job wn w = (Inr (), w')" "pl_kept w w'"
    "wrote (jb_dst job) (jb_dst_offset job) (matmul_out Q G nq (jb_rows job) (jb_cols job) wb acts) w w'"
proof -
  have s0: "setting host lib kr wr ar nq job wb ab w" using s by (simp add: col_setting_def)
  have ab: "map_of (pl_cma (w_dev w)) ActsBuf = Some ab" and r: "ready host lib kr wr ar w" using s0 by (simp_all add: setting_def)
  have rb: "jb_rowblocks job = (jb_rows job + 7) div 8" using s0 by (auto simp: setting_def job_ok_def)
  have rng: "py_range (jb_cols job) = [0..jb_cols job - 1]" using py_range_upto [of 0 "jb_cols job"] by simp
  from run_columns_ok [OF dev s, of 0 env "np_empty host (jb_k job)" "np_empty host (2 * (jb_k job div Q8_BLOCK))" "(0, [])"] cols
  obtain cy dirty w1 where w1: "run_columns env host job (cb_va ab) [0..jb_cols job - 1]
        [np_empty host (jb_k job), np_empty host (2 * (jb_k job div Q8_BLOCK))] (0, []) w = (Inr (cy, dirty), w1)"
      "pl_kept w w1" "wrote (jb_dst job) (jb_dst_offset job) (matmul_out Q G nq (jb_rows job) (jb_cols job) wb acts) w w1"
    by (auto simp: matmul_out_def rb rng)
  have r1: "ready host lib kr wr ar w1" using r w1(2) by (rule ready_kept)
  obtain w2 where w2: "invalidate_dirty dirty w1 = (Inr (), w2)" "pl_kept w1 w2" "contents (w_alloc w2) = contents (w_alloc w1)"
    using invalidate_keeps by blast
  obtain w3 where w3: "final_counts (jb_rows job * jb_cols job * F32_BYTES) (jb_cols job) (jb_rowblocks job) wn (jb_acts_nbytes job)
      (jb_rows_per_block job) cy w2 = (Inr (), w3)" "timed w2 w3" using timed_counts(2) by blast
  note t = timed_kept [OF w3(2)]
  have "run_job env host job wn w = (Inr (), w3)"
    using ab w1(1) w2(1) w3(1)
    by (simp add: run_job_def rng get_cma_def py_simps section_ready [OF r1])
  moreover have "pl_kept w w3" using pl_kept_trans [OF pl_kept_trans [OF w1(2) w2(2)] t(1)] .
  moreover have "wrote (jb_dst job) (jb_dst_offset job) (matmul_out Q G nq (jb_rows job) (jb_cols job) wb acts) w w3"
    using w1(3) w2(3) t(2) by (simp add: wrote_def)
  ultimately show ?thesis by (rule that)
qed

end
