(* ===== verification/MatmulTop.thy ===== *)
theory MatmulTop
  imports MatmulRun
begin

text \<open>
  The whole \<open>run\<close> of the PL matmul, from a cold or a warm driver: the lazy initialisation, the buffers that grow, the
  address of the activations, and the loops.  The state in which a run may start is the state it ends in.
\<close>

section \<open>Allocation of buffers\<close>

definition apart_ranges :: "int \<Rightarrow> int \<Rightarrow> int \<Rightarrow> int \<Rightarrow> bool" where
  "apart_ranges a m b n \<longleftrightarrow> a + m \<le> b \<or> b + n \<le> a"

lemma apart_sym: "apart_ranges a m b n \<longleftrightarrow> apart_ranges b n a m"
  by (auto simp: apart_ranges_def)

text \<open>
  What PYNQ promises of the buffers it is still to hand out: they have the length asked for, lie below 4 GiB and share
  no address with the slabs, with the buffers in use, or with each other.
\<close>

definition fresh_from :: "pynq_allocate \<Rightarrow> 'h pl_world \<Rightarrow> bool" where
  "fresh_from palloc w \<longleftrightarrow> (\<forall>c n pa va cells. scratch_count (w_dev w) \<le> c \<longrightarrow> 0 < n \<longrightarrow> palloc c n = Inr (pa, va, cells) \<longrightarrow>
     int (length cells) = n \<and> 0 < pa \<and> pa + n \<le> 2 ^ 32 \<and>
     (\<forall>p b. phys_at (pl_view w []) p = Some b \<longrightarrow> apart_ranges pa n b (int (length (cells_at (pl_view w []) p)))) \<and>
     (\<forall>p b. va_at (pl_view w []) p = Some b \<longrightarrow> apart_ranges va n b (int (length (cells_at (pl_view w []) p)))) \<and>
     (\<forall>c' n' pa' va' cells'. scratch_count (w_dev w) \<le> c' \<longrightarrow> c' \<noteq> c \<longrightarrow> 0 < n' \<longrightarrow> palloc c' n' = Inr (pa', va', cells') \<longrightarrow>
        apart_ranges pa n pa' n' \<and> apart_ranges va n va' n'))"

text \<open>The invariant of the driver between two runs, but for its bound functions and registers.\<close>

definition pl_sane :: "pynq_allocate \<Rightarrow> 'h pl_world \<Rightarrow> bool" where
  "pl_sane palloc w \<longleftrightarrow> mem_sane w \<and> fresh_from palloc w \<and>
     (\<forall>r b. map_of (pl_cma (w_dev w)) r = Some b \<longrightarrow> cma_size r (w_dev w) \<le> int (length (cb_cells b)))"

lemma pl_sane_kept:
  assumes "pl_sane palloc w" "pl_kept w w'"
  shows "pl_sane palloc w'"
proof -
  have d: "same_dev (w_dev w) (w_dev w')" using assms(2) by (simp add: pl_kept_def)
  have "scratch_count (w_dev w') = scratch_count (w_dev w)" using d by (simp add: same_dev_def)
  then have "fresh_from palloc w' \<longleftrightarrow> fresh_from palloc w"
    unfolding fresh_from_def view_kept [OF assms(2), of "[]" _ "[]"] by (rule ssubst) (rule refl)
  moreover have "cma_size r (w_dev w') \<le> int (length (cb_cells b'))" if b': "map_of (pl_cma (w_dev w')) r = Some b'" for r b'
  proof -
    have "rel_option cma_similar (map_of (pl_cma (w_dev w)) r) (map_of (pl_cma (w_dev w')) r)" "cma_size r (w_dev w') = cma_size r (w_dev w)"
      using d by (auto simp: same_dev_def cma_size_def)
    with b' assms(1) show ?thesis by (auto simp: pl_sane_def option_rel_Some2 cma_similar_def)
  qed
  ultimately show ?thesis using assms mem_sane_kept by (auto simp: pl_sane_def)
qed

text \<open>A step that gives one role a new buffer, or leaves it.\<close>

definition grown :: "pl_role \<Rightarrow> 'h pl_world \<Rightarrow> 'h pl_world \<Rightarrow> bool" where
  "grown role w w' \<longleftrightarrow> w_alloc w' = w_alloc w \<and> w_timer w' = w_timer w \<and> only_buf role w w' \<and>
     (\<forall>r. r \<noteq> role \<longrightarrow> cma_size r (w_dev w') = cma_size r (w_dev w)) \<and>
     scratch_count (w_dev w) \<le> scratch_count (w_dev w') \<and> scratch_count (w_dev w') \<le> Suc (scratch_count (w_dev w)) \<and>
     pl_bound (w_dev w') = pl_bound (w_dev w) \<and> pl_kernel_regs (w_dev w') = pl_kernel_regs (w_dev w) \<and>
     pl_dma_w_regs (w_dev w') = pl_dma_w_regs (w_dev w) \<and> pl_dma_a_regs (w_dev w') = pl_dma_a_regs (w_dev w)"

lemma grown_refl [simp]: "grown role w w"
  by (simp add: grown_def only_buf_def)

lemma spread_set:
  assumes "spread base m" "\<And>p. p \<noteq> q \<Longrightarrow> base m' p = base m p" "\<And>p. p \<noteq> q \<Longrightarrow> length (cells_at m' p) = length (cells_at m p)"
    "base m' q = Some a" "\<And>p b. base m p = Some b \<Longrightarrow> apart_ranges a (int (length (cells_at m' q))) b (int (length (cells_at m p)))"
  shows "spread base m'"
  unfolding spread_def
proof (intro allI impI)
  fix p r b c assume h: "base m' p = Some b" "base m' r = Some c" "p \<noteq> r"
  consider "p = q" "r \<noteq> q" | "p \<noteq> q" "r = q" | "p \<noteq> q" "r \<noteq> q" using h(3) by blast
  then show "b + int (length (cells_at m' p)) \<le> c \<or> c + int (length (cells_at m' r)) \<le> b"
  proof cases
    case 1
    then show ?thesis using h assms(2-4) assms(5) [of r c] by (auto simp: apart_ranges_def)
  next
    case 2
    then show ?thesis using h assms(2-4) assms(5) [of p b] by (auto simp: apart_ranges_def)
  next
    case 3
    then have "b + int (length (cells_at m p)) \<le> c \<or> c + int (length (cells_at m r)) \<le> b"
      using h assms(1,2) unfolding spread_def by metis
    then show ?thesis using 3 assms(3) by simp
  qed
qed

lemma cma_alloc_ok:
  assumes s: "pl_sane palloc w" and n: "0 < n" and p: "palloc (scratch_count (w_dev w)) n = Inr (pa, va, cells)"
  obtains w' where "on_dev (cma_alloc palloc role n) w = (Inr (), w')" "pl_sane palloc w'" "has_buf role n (w_dev w')" "grown role w w'"
proof -
  let ?c = "scratch_count (w_dev w)"
  let ?b = "\<lparr>cb_phys = pa, cb_va = va, cb_cells = cells, cb_ops = []\<rparr>"
  let ?d = "(w_dev w)\<lparr>pl_cma := AList.update role ?b (pl_cma (w_dev w)), pl_sizes := AList.update role n (pl_sizes (w_dev w)), scratch_count := Suc ?c\<rparr>"
  let ?w = "w\<lparr>w_dev := ?d\<rparr>" and ?q = "InCma role"
  define m m' where m: "m = pl_view w []" and m': "m' = pl_view ?w []"
  have ms: "mem_sane w" and fr: "fresh_from palloc w" using s by (simp_all add: pl_sane_def)
  have f: "int (length cells) = n" "0 < pa" "pa + n \<le> 2 ^ 32"
      "\<And>p b. phys_at m p = Some b \<Longrightarrow> apart_ranges pa n b (int (length (cells_at m p)))"
      "\<And>p b. va_at m p = Some b \<Longrightarrow> apart_ranges va n b (int (length (cells_at m p)))"
    using fr [unfolded fresh_from_def m [symmetric], rule_format, OF order.refl n p] by auto
  have sane: "quiet w" "alloc_inv (w_alloc w)" "\<forall>s \<in> set (al_slabs (w_alloc w)). kind s = PynqSlab \<and> base_va s \<noteq> None"
      "spread phys_at m" "spread va_at m" "\<And>p b. phys_at m p = Some b \<Longrightarrow> 0 < b \<and> b + int (length (cells_at m p)) \<le> 2 ^ 32"
    using ms unfolding mem_sane_def m [symmetric] by auto
  have at: "phys_at m' ?q = Some pa" "va_at m' ?q = Some va" "cells_at m' ?q = cells"
    by (simp_all add: m' update_conv')
  have oth: "phys_at m' p = phys_at m p" "va_at m' p = va_at m p"
    "cells_at m' p = cells_at m p" if "p \<noteq> ?q" for p
    using that by (cases p; simp add: m m' update_conv')+
  have "mem_sane ?w"
    unfolding mem_sane_def m' [symmetric]
  proof (intro conjI)
    show "spread phys_at m'" "spread va_at m'"
      by (rule spread_set [OF sane(4) oth(1) _ at(1)] spread_set [OF sane(5) oth(2) _ at(2)]; use oth(3) at(3) f in simp)+
    show "\<forall>p b. phys_at m' p = Some b \<longrightarrow> 0 < b \<and> b + int (length (cells_at m' p)) \<le> 2 ^ 32"
    proof (intro allI)
      fix p b show "phys_at m' p = Some b \<longrightarrow> 0 < b \<and> b + int (length (cells_at m' p)) \<le> 2 ^ 32"
        using sane(6) [of p b] oth [of p] at f(1,2,3) by (cases "p = ?q") auto
    qed
  qed (use sane(1-3) in \<open>simp_all add: quiet_def\<close>)
  moreover have "fresh_from palloc ?w"
    unfolding fresh_from_def m' [symmetric]
  proof (intro allI impI)
    fix c m pa' va' cells' assume h: "scratch_count (w_dev ?w) \<le> c" "0 < m" "palloc c m = Inr (pa', va', cells')"
    then have c: "?c \<le> c" "c \<noteq> ?c" by simp_all
    note g = fr [unfolded fresh_from_def m [symmetric], rule_format, OF c(1) h(2,3)]
    have new: "apart_ranges pa' m pa n" "apart_ranges va' m va n" using g n p c(2) by (metis order.refl)+
    have "apart_ranges pa' m b (int (length (cells_at m' p)))" if "phys_at m' p = Some b" for p b
      using that g new f(1) at oth [of p] by (cases "p = ?q") auto
    moreover have "apart_ranges va' m b (int (length (cells_at m' p)))" if "va_at m' p = Some b" for p b
      using that g new f(1) at oth [of p] by (cases "p = ?q") auto
    ultimately show "int (length cells') = m \<and> 0 < pa' \<and> pa' + m \<le> 2 ^ 32 \<and>
       (\<forall>p b. phys_at m' p = Some b \<longrightarrow> apart_ranges pa' m b (int (length (cells_at m' p)))) \<and>
       (\<forall>p b. va_at m' p = Some b \<longrightarrow> apart_ranges va' m b (int (length (cells_at m' p)))) \<and>
       (\<forall>c' n' pa'' va'' cells''. scratch_count (w_dev ?w) \<le> c' \<longrightarrow> c' \<noteq> c \<longrightarrow> 0 < n' \<longrightarrow> palloc c' n' = Inr (pa'', va'', cells'') \<longrightarrow>
          apart_ranges pa' m pa'' n' \<and> apart_ranges va' m va'' n')"
      using g by (auto dest: Suc_leD)
  qed
  moreover have "cma_size r (w_dev ?w) \<le> int (length (cb_cells b))" if "map_of (pl_cma (w_dev ?w)) r = Some b" for r b
    using that s f(1) by (cases "r = role") (auto simp: pl_sane_def cma_size_def update_conv')
  ultimately have "pl_sane palloc ?w" by (simp add: pl_sane_def)
  moreover have "on_dev (cma_alloc palloc role n) w = (Inr (), ?w)" using p by (simp add: on_dev_def cma_alloc_def)
  moreover have "has_buf role n (w_dev ?w)" using f(1) by (auto simp: has_buf_def cma_size_def update_conv')
  moreover have "grown role w ?w" by (auto simp: grown_def only_buf_def cma_size_def update_conv')
  ultimately show ?thesis using that by blast
qed

text \<open>A buffer is big enough, or PYNQ grants a new one in any of the next allocations before the \<open>lim\<close>-th.\<close>

definition granted :: "pynq_allocate \<Rightarrow> nat \<Rightarrow> pl_role \<Rightarrow> int \<Rightarrow> 'h pl_state \<Rightarrow> bool" where
  "granted palloc lim role n d \<longleftrightarrow> has_buf role n d \<or> (\<forall>c. scratch_count d \<le> c \<longrightarrow> c < lim \<longrightarrow> (\<exists>x. palloc c n = Inr x))"

lemma has_buf_grown: "grown role w w' \<Longrightarrow> r \<noteq> role \<Longrightarrow> has_buf r n (w_dev w) \<Longrightarrow> has_buf r n (w_dev w')"
  by (simp add: grown_def only_buf_def has_buf_def)

lemma granted_grown: "grown role w w' \<Longrightarrow> r \<noteq> role \<Longrightarrow> granted palloc lim r n (w_dev w) \<Longrightarrow> granted palloc lim r n (w_dev w')"
  unfolding granted_def using has_buf_grown by (fastforce simp: grown_def)

lemma granted_kept: "pl_kept w w' \<Longrightarrow> granted palloc lim r n (w_dev w) \<Longrightarrow> granted palloc lim r n (w_dev w')"
  unfolding granted_def using has_buf_kept [of "w_dev w" "w_dev w'"] by (auto simp: pl_kept_def same_dev_def)

lemma ensure_cond:
  assumes "pl_sane palloc w" "0 < n"
  shows "(map_of (pl_cma (w_dev w)) role = None \<or> cma_size role (w_dev w) < n) \<longleftrightarrow> \<not> has_buf role n (w_dev w)"
  using assms by (auto simp: pl_sane_def has_buf_def)

lemma ensure_buffer_ok:
  assumes s: "pl_sane (ph_palloc host) w" and n: "0 < n" and g: "granted (ph_palloc host) lim role n (w_dev w)" "scratch_count (w_dev w) < lim"
  obtains w' where "on_dev (ensure_buffer host role n) w = (Inr (), w')" "pl_sane (ph_palloc host) w'" "has_buf role n (w_dev w')" "grown role w w'"
proof (cases "has_buf role n (w_dev w)")
  case True
  then show ?thesis
    using ensure_cond [OF s n, of role] s by (intro that [of w]) (auto simp: ensure_buffer_def on_dev_def py_simps)
next
  case False
  let ?w1 = "w\<lparr>w_dev := cma_upd role (cma_cache FreeBuffer) (w_dev w)\<rparr>"
  have k: "pl_kept w ?w1" by (auto simp: pl_kept_def same_shape_refl intro!: same_dev_upd)
  have sd: "scratch_count (w_dev ?w1) = scratch_count (w_dev w)" using k by (simp add: pl_kept_def same_dev_def)
  from g False obtain pa va cells where p: "ph_palloc host (scratch_count (w_dev ?w1)) n = Inr (pa, va, cells)"
    unfolding granted_def sd by (metis order.refl prod_cases3)
  obtain w' where w': "on_dev (cma_alloc (ph_palloc host) role n) ?w1 = (Inr (), w')" "pl_sane (ph_palloc host) w'" "has_buf role n (w_dev w')" "grown role ?w1 w'"
    using cma_alloc_ok [OF pl_sane_kept [OF s k] n p] .
  have "on_dev (ensure_buffer host role n) w = (Inr (), w')"
    using False ensure_cond [OF s n, of role] w'(1) by (auto simp: ensure_buffer_def on_dev_def py_simps split: prod.splits)
  moreover have "grown role w ?w1"
    by (auto simp: grown_def only_buf_def cma_upd_def cma_size_def update_conv' split: option.splits)
  then have "grown role w w'" using w'(4) sd by (auto simp: grown_def only_buf_def)
  ultimately show ?thesis using that w'(2,3) by blast
qed

lemma ensure_buffers_ok:
  assumes s: "pl_sane (ph_palloc host) w" and n: "0 < a" "0 < b" "0 < c" and lim: "scratch_count (w_dev w) + 3 \<le> lim"
    and g: "granted (ph_palloc host) lim ActsBuf a (w_dev w)" "granted (ph_palloc host) lim WeightsDmaBuf b (w_dev w)"
      "granted (ph_palloc host) lim ResultBuf c (w_dev w)"
  obtains w' where "on_dev (ensure_buffers host a b c) w = (Inr (), w')" "pl_sane (ph_palloc host) w'"
    "has_buf ActsBuf a (w_dev w')" "has_buf WeightsDmaBuf b (w_dev w')" "has_buf ResultBuf c (w_dev w')"
    "w_alloc w' = w_alloc w" "map_of (pl_cma (w_dev w')) ActsInScratch = map_of (pl_cma (w_dev w)) ActsInScratch"
    "pl_bound (w_dev w') = pl_bound (w_dev w)" "pl_kernel_regs (w_dev w') = pl_kernel_regs (w_dev w)"
    "pl_dma_w_regs (w_dev w') = pl_dma_w_regs (w_dev w)" "pl_dma_a_regs (w_dev w') = pl_dma_a_regs (w_dev w)"
proof -
  obtain w1 where w1: "on_dev (ensure_buffer host ActsBuf a) w = (Inr (), w1)" "pl_sane (ph_palloc host) w1" "has_buf ActsBuf a (w_dev w1)" "grown ActsBuf w w1"
    using ensure_buffer_ok [OF s n(1) g(1)] lim by auto
  have l1: "scratch_count (w_dev w1) < lim" using w1(4) lim by (simp add: grown_def)
  obtain w2 where w2: "on_dev (ensure_buffer host WeightsDmaBuf b) w1 = (Inr (), w2)" "pl_sane (ph_palloc host) w2" "has_buf WeightsDmaBuf b (w_dev w2)" "grown WeightsDmaBuf w1 w2"
    using ensure_buffer_ok [OF w1(2) n(2) granted_grown [OF w1(4) _ g(2)] l1] by auto
  have l2: "scratch_count (w_dev w2) < lim" using w1(4) w2(4) lim by (simp add: grown_def)
  have g3: "granted (ph_palloc host) lim ResultBuf c (w_dev w2)" using granted_grown [OF w2(4) _ granted_grown [OF w1(4) _ g(3)]] by simp
  obtain w3 where w3: "on_dev (ensure_buffer host ResultBuf c) w2 = (Inr (), w3)" "pl_sane (ph_palloc host) w3" "has_buf ResultBuf c (w_dev w3)" "grown ResultBuf w2 w3"
    using ensure_buffer_ok [OF w2(2) n(3) g3 l2] .
  have "on_dev (ensure_buffers host a b c) w = (Inr (), w3)"
    using w1(1) w2(1) w3(1) by (auto simp: ensure_buffers_def on_dev_def py_simps split: prod.splits)
  moreover have "has_buf ActsBuf a (w_dev w3)" using has_buf_grown [OF w3(4) _ has_buf_grown [OF w2(4) _ w1(3)]] by simp
  moreover have "has_buf WeightsDmaBuf b (w_dev w3)" using has_buf_grown [OF w3(4) _ w2(3)] by simp
  ultimately show ?thesis using that w3(2,3) w1(4) w2(4) w3(4) by (simp add: grown_def only_buf_def)
qed

section \<open>The address of the activations\<close>

lemma acts_addr_ok:
  assumes s: "pl_sane (ph_palloc host) w" and d: "contents (w_alloc w) h = Some d" "0 \<le> off" "0 < n" "off + n \<le> int (length d)"
    and g: "granted (ph_palloc host) lim ActsInScratch n (w_dev w)" "scratch_count (w_dev w) < lim"
  obtains addr w1 w' where "resolve_slab_pointer host h off n ''acts'' w = (Inr addr, w')" "grown ActsInScratch w w1" "pl_kept w1 w'"
    "pl_sane (ph_palloc host) w'" "acts_at h off (py_slice d off (off + n)) addr w'" "contents (w_alloc w') = contents (w_alloc w)"
proof -
  have ms: "mem_sane w" using s by (simp add: pl_sane_def)
  have inv: "alloc_inv (w_alloc w)" using ms by (simp add: mem_sane_def)
  let ?bs = "py_slice d off (off + n)"
  have len: "int (length ?bs) = n" using d length_py_slice [of off "off + n" d] by simp
  show ?thesis
  proof (cases "slab_view (w_alloc w) h off n")
    case (Inr v)
    obtain i x k where v: "v = (i, x, k)" by (cases v)
    have i: "i < length (al_slabs (w_alloc w))" "k = n" using slab_view_spec [OF inv] Inr v by blast+
    then have "base_va (al_slabs (w_alloc w) ! i) \<noteq> None" using ms by (simp add: mem_sane_def)
    then obtain b where b: "base_va (al_slabs (w_alloc w) ! i) = Some b" by blast
    have "has_range w h off ?bs" using d len by (simp add: has_range_def)
    then have at: "acts_at h off ?bs (b + x) w" using Inr v i b len by (auto simp: acts_at_def)
    have "resolve_slab_pointer host h off n ''acts'' w = (Inr (b + x), w)"
      using Inr v b by (simp add: resolve_slab_pointer_def get_slab_pointer_def slab_pointer_def py_simps)
    from that [OF this grown_refl pl_kept_refl s at refl] show ?thesis .
  next
    case (Inl e)
    then have e: "slab_pointer (w_alloc w) h off n = Inl ERR_multi" using slab_view_total [OF inv d] by (auto simp: slab_pointer_def)
    have "\<exists>w1. (if map_of (pl_cma (w_dev w)) ActsInScratch = None \<or> cma_size ActsInScratch (w_dev w) < n
          then on_dev (cma_alloc (ph_palloc host) ActsInScratch n) else py_ret ()) w = (Inr (), w1) \<and>
        pl_sane (ph_palloc host) w1 \<and> has_buf ActsInScratch n (w_dev w1) \<and> grown ActsInScratch w w1"
    proof (cases "has_buf ActsInScratch n (w_dev w)")
      case True
      then show ?thesis using ensure_cond [OF s d(3), of ActsInScratch] s by (auto simp: py_simps)
    next
      case False
      then have c: "map_of (pl_cma (w_dev w)) ActsInScratch = None \<or> cma_size ActsInScratch (w_dev w) < n"
        using ensure_cond [OF s d(3), of ActsInScratch] by simp
      from g False obtain pa va cells where p: "ph_palloc host (scratch_count (w_dev w)) n = Inr (pa, va, cells)"
        unfolding granted_def by (metis order.refl prod_cases3)
      show ?thesis unfolding if_P [OF c] by (rule cma_alloc_ok [OF s d(3) p, of ActsInScratch]) blast
    qed
    then obtain w1 where w1: "(if map_of (pl_cma (w_dev w)) ActsInScratch = None \<or> cma_size ActsInScratch (w_dev w) < n
          then on_dev (cma_alloc (ph_palloc host) ActsInScratch n) else py_ret ()) w = (Inr (), w1)"
        "pl_sane (ph_palloc host) w1" "has_buf ActsInScratch n (w_dev w1)" "grown ActsInScratch w w1" by blast
    have a1: "w_alloc w1 = w_alloc w" using w1(4) by (simp add: grown_def)
    from read_tensor_ok [OF inv d(1,2) _ d(4), of True] d(3) obtain a' where
      a': "read_tensor h off n True (w_alloc w) = (Inr ?bs, a')" "same_shape (w_alloc w) a'" "contents a' = contents (w_alloc w)" by auto
    from w1(3) obtain b where b: "map_of (pl_cma (w_dev w1)) ActsInScratch = Some b" "n \<le> int (length (cb_cells b))" by (auto simp: has_buf_def)
    let ?w' = "w1\<lparr>w_alloc := a', w_dev := cma_upd ActsInScratch (cma_fill ?bs) (w_dev w1)\<rparr>"
    have m': "map_of (pl_cma (w_dev ?w')) ActsInScratch = Some (cma_fill ?bs b)" using b by (simp add: map_of_cma_upd)
    have k: "pl_kept w1 ?w'"
      using a' a1 b len by (auto simp: pl_kept_def intro!: same_dev_upd cma_fill_similar)
    have at: "acts_at h off ?bs (cb_va b) ?w'" using m' by (auto simp: acts_at_def cma_fill_def)
    have "resolve_slab_pointer host h off n ''acts'' w = (Inr (cb_va b), ?w')"
      using e w1(1) a'(1) a1 m'
      by (simp add: resolve_slab_pointer_def get_slab_pointer_def copy_to_cma_scratch_def Let_def py_simps on_alloc_def on_dev_def get_cma_def cma_fill_def)
    from that [OF this w1(4) k pl_sane_kept [OF w1(2) k] at] a'(3) show ?thesis by simp
  qed
qed

section \<open>The whole run\<close>

text \<open>The library has the five functions, and the overlay its register blocks and the kernel this driver is for.\<close>

definition overlay_ok :: "'h pl_host \<Rightarrow> 'h pl_lib \<Rightarrow> int \<Rightarrow> int \<Rightarrow> int \<Rightarrow> bool" where
  "overlay_ok host lib kr wr ar \<longleftrightarrow> load_lib (ph_files host) None = Inr lib \<and> bind_native lib = Inr () \<and>
     ov_kernel_mmio (ph_overlay host) = Some kr \<and> open_dma_mmio (ph_overlay host) ''axi_dma_0'' = Inr wr \<and>
     open_dma_mmio (ph_overlay host) ''axi_dma_1'' = Inr ar \<and>
     (\<forall>hw. ov_read (ph_overlay host) REG_ID hw = RegInt EXPECTED_ID \<and> ov_read (ph_overlay host) REG_VERSION hw = RegInt EXPECTED_VERSION \<and>
        ov_read (ph_overlay host) REG_ROWS hw = RegInt ROWS_PER_BLOCK)"

definition driver_ok :: "'h pl_host \<Rightarrow> 'h pl_lib \<Rightarrow> int \<Rightarrow> int \<Rightarrow> int \<Rightarrow> 'h pl_world \<Rightarrow> bool" where
  "driver_ok host lib kr wr ar w \<longleftrightarrow> pl_sane (ph_palloc host) w \<and> overlay_ok host lib kr wr ar \<and>
     (pl_kernel_regs (w_dev w) = None \<or>
      pl_kernel_regs (w_dev w) = Some kr \<and> pl_dma_w_regs (w_dev w) = Some wr \<and> pl_dma_a_regs (w_dev w) = Some ar)"

definition matmul_call :: "dict \<Rightarrow> int \<Rightarrow> int \<Rightarrow> int \<Rightarrow> int \<Rightarrow> int \<Rightarrow> int \<Rightarrow> int \<Rightarrow> int \<Rightarrow> int \<Rightarrow> bool" where
  "matmul_call op rows cols nq wh woff ah aoff dh doff \<longleftrightarrow>
     required_int op F_ROWS = Inr rows \<and> required_int op F_COLS = Inr cols \<and> required_int op F_K = Inr (nq * 128) \<and>
     required_int op F_WEIGHTS = Inr wh \<and> optional_int op F_WEIGHTS_OFFSET 0 = Inr woff \<and>
     required_int op F_ACTS = Inr ah \<and> optional_int op F_ACTS_OFFSET 0 = Inr aoff \<and>
     required_int op F_DST = Inr dh \<and> optional_int op F_DST_OFFSET 0 = Inr doff \<and>
     0 < rows \<and> 0 < cols \<and> 0 < nq \<and> u32 (nq * 128)"

abbreviation inited :: "int \<Rightarrow> int \<Rightarrow> int \<Rightarrow> 'h pl_world \<Rightarrow> 'h pl_world" where
  "inited kr wr ar w \<equiv> w\<lparr>w_dev := (w_dev w)\<lparr>pl_bound := True, pl_kernel_regs := Some kr, pl_dma_w_regs := Some wr, pl_dma_a_regs := Some ar\<rparr>\<rparr>"

lemma init_ok:
  assumes "driver_ok host lib kr wr ar w"
  shows "on_dev (ensure_native host) w = (Inr (), w\<lparr>w_dev := (w_dev w)\<lparr>pl_bound := True\<rparr>\<rparr>)"
    "on_dev (ensure_mmio_pointers host) (w\<lparr>w_dev := (w_dev w)\<lparr>pl_bound := True\<rparr>\<rparr>) = (Inr (), inited kr wr ar w)"
  using assms
  by (cases "pl_bound (w_dev w)"; cases "pl_kernel_regs (w_dev w)";
      auto simp: driver_ok_def overlay_ok_def ensure_native_def ensure_mmio_pointers_def on_dev_def py_simps
        intro!: world.equality pl_state.equality)+

lemma identify_ok:
  assumes "overlay_ok host lib kr wr ar"
  shows "on_dev (check_kernel_id host) w = (Inr (), w)"
    "on_dev (read_rows_per_block host) w = (Inr 8, w\<lparr>w_dev := (w_dev w)\<lparr>pl_rows_per_block := 8\<rparr>\<rparr>)"
  using assms by (simp_all add: overlay_ok_def check_kernel_id_def read_rows_per_block_def on_dev_def py_simps)

lemma pl_sane_fields [simp]:
  "pl_sane palloc (inited kr wr ar w) = pl_sane palloc w"
  "pl_sane palloc (w\<lparr>w_dev := (w_dev w)\<lparr>pl_rows_per_block := n\<rparr>\<rparr>) = pl_sane palloc w"
  "granted palloc lim r m (d\<lparr>pl_bound := True, pl_kernel_regs := x, pl_dma_w_regs := y, pl_dma_a_regs := z\<rparr>) = granted palloc lim r m d"
  "granted palloc lim r m (d\<lparr>pl_rows_per_block := n\<rparr>) = granted palloc lim r m d"
  by (simp_all add: pl_sane_def mem_sane_def fresh_from_def quiet_def cma_size_def granted_def has_buf_def)

text \<open>PYNQ grants the four buffers of a run, as far as they are not there yet.\<close>

definition room :: "'h pl_host \<Rightarrow> int \<Rightarrow> int \<Rightarrow> int \<Rightarrow> 'h pl_state \<Rightarrow> bool" where
  "room host rows cols nq d \<longleftrightarrow>
     (let maxrb = max_rowblocks_per_chunk ((rows + 7) div 8) (nq * 144); ok = granted (ph_palloc host) (scratch_count d + 4) in
      ok ActsInScratch (cols * (nq * 128 * 4)) d \<and> ok ActsBuf (nq * 160) d \<and> ok WeightsDmaBuf (maxrb * (nq * 144)) d \<and>
      ok ResultBuf (maxrb * 32) d)"

lemma max_rowblocks_pos: "0 < rows \<Longrightarrow> 1 \<le> max_rowblocks_per_chunk ((rows + 7) div 8) p"
  by (simp add: max_rowblocks_per_chunk_def)

lemma matmul_prefix_ok:
  assumes drv: "driver_ok host lib kr wr ar w" and call: "matmul_call op rows cols nq wh woff ah aoff dh doff"
    and acts: "has_range w ah aoff acts" "int (length acts) = cols * (nq * 128 * 4)" and rm: "room host rows cols nq (w_dev w)"
  defines "M \<equiv> max_rowblocks_per_chunk ((rows + 7) div 8) (nq * 144)"
  obtains addr wn w' where
    "pl_matmul_run env host op w = run_job env host
        \<lparr>jb_rows = rows, jb_cols = cols, jb_k = nq * 128, jb_weights = wh, jb_weights_offset = woff, jb_dst = dh, jb_dst_offset = doff,
         jb_acts_addr = addr, jb_acts_nbytes = nq * 160, jb_packed_bytes = nq * 144, jb_rows_per_block = 8,
         jb_rowblocks = (rows + 7) div 8, jb_max_rowblocks = M\<rparr> wn w'"
    "ready host lib kr wr ar w'" "pl_sane (ph_palloc host) w'" "acts_at ah aoff acts addr w'" "contents (w_alloc w') = contents (w_alloc w)"
    "has_buf ActsBuf (nq * 160) (w_dev w')" "has_buf WeightsDmaBuf (M * (nq * 144)) (w_dev w')" "has_buf ResultBuf (M * 32) (w_dev w')"
proof -
  have ov: "overlay_ok host lib kr wr ar" and s: "pl_sane (ph_palloc host) w" using drv by (simp_all add: driver_ok_def)
  have c: "required_int op F_ROWS = Inr rows" "required_int op F_COLS = Inr cols" "required_int op F_K = Inr (nq * 128)"
     "required_int op F_WEIGHTS = Inr wh" "optional_int op F_WEIGHTS_OFFSET 0 = Inr woff"
     "required_int op F_ACTS = Inr ah" "optional_int op F_ACTS_OFFSET 0 = Inr aoff"
     "required_int op F_DST = Inr dh" "optional_int op F_DST_OFFSET 0 = Inr doff" and pos: "0 < rows" "0 < cols" "0 < nq"
    using call by (simp_all add: matmul_call_def)
  let ?lim = "scratch_count (w_dev w) + 4"
  define n where "n = cols * (nq * 128 * 4)"
  have g: "granted (ph_palloc host) ?lim ActsInScratch n (w_dev w)" "granted (ph_palloc host) ?lim ActsBuf (nq * 160) (w_dev w)"
      "granted (ph_palloc host) ?lim WeightsDmaBuf (M * (nq * 144)) (w_dev w)" "granted (ph_palloc host) ?lim ResultBuf (M * 32) (w_dev w)"
    using rm by (simp_all add: room_def Let_def M_def n_def)
  have n: "0 < n" using pos by (simp add: n_def)
  have M: "1 \<le> M" unfolding M_def using pos(1) by (rule max_rowblocks_pos)
  then have pn: "0 < nq * 160" "0 < M * (nq * 144)" "0 < M * 32" using pos(3) by simp_all
  obtain w1 where w1: "add_shape rows cols (nq * 128) w = (Inr (), w1)" "timed w w1" using timed_counts(1) by blast
  note t1 = timed_kept [OF w1(2)]
  have drv1: "driver_ok host lib kr wr ar w1" using drv pl_sane_kept [OF s t1(1)] t1(3) by (simp add: driver_ok_def)
  let ?w2 = "inited kr wr ar w1"
  from acts(1) obtain d where d: "contents (w_alloc w) ah = Some d" "0 \<le> aoff" "aoff + n \<le> int (length d)" "py_slice d aoff (aoff + n) = acts"
    unfolding n_def acts(2) [symmetric] by (auto simp: has_range_def)
  have s2: "pl_sane (ph_palloc host) ?w2" using drv1 by (simp add: driver_ok_def)
  have q2: "quiet ?w2" using s2 by (simp only: pl_sane_def mem_sane_def)
  obtain addr w3 w4 where w4: "resolve_slab_pointer host ah aoff n ''acts'' ?w2 = (Inr addr, w4)" "grown ActsInScratch ?w2 w3" "pl_kept w3 w4"
    "pl_sane (ph_palloc host) w4" "acts_at ah aoff acts addr w4" "contents (w_alloc w4) = contents (w_alloc w)"
    by (rule acts_addr_ok [OF s2, of ah d aoff n ?lim]) (use d g(1) t1 n in simp_all)
  obtain w5 where w5: "timer_add ''bytes_read'' ((rows + 7) div 8 * nq * 144 + cols * (nq * 128) * 4) w4 = (Inr (), w5)" "timed w4 w5"
    using timed_add by blast
  note t5 = timed_kept [OF w5(2)]
  let ?w6 = "w5\<lparr>w_dev := (w_dev w5)\<lparr>pl_rows_per_block := 8\<rparr>\<rparr>"
  have s6: "pl_sane (ph_palloc host) ?w6" using pl_sane_kept [OF w4(4) t5(1)] by simp
  have g6: "granted (ph_palloc host) ?lim r m (w_dev ?w6)" if "granted (ph_palloc host) ?lim r m (w_dev w)" "r \<noteq> ActsInScratch" for r m
    using granted_kept [OF pl_kept_trans [OF w4(3) t5(1)] granted_grown [OF w4(2) that(2)]] that(1) t1 by simp
  have lim: "scratch_count (w_dev ?w6) + 3 \<le> ?lim"
    using w4(2,3) t1(3) t5(3) by (simp add: grown_def pl_kept_def same_dev_def)
  obtain w7 where w7: "on_dev (ensure_buffers host (nq * 160) (M * (nq * 144)) (M * 32)) ?w6 = (Inr (), w7)" "pl_sane (ph_palloc host) w7"
    "has_buf ActsBuf (nq * 160) (w_dev w7)" "has_buf WeightsDmaBuf (M * (nq * 144)) (w_dev w7)" "has_buf ResultBuf (M * 32) (w_dev w7)"
    "w_alloc w7 = w_alloc ?w6" "map_of (pl_cma (w_dev w7)) ActsInScratch = map_of (pl_cma (w_dev ?w6)) ActsInScratch"
    "pl_bound (w_dev w7) = pl_bound (w_dev ?w6)" "pl_kernel_regs (w_dev w7) = pl_kernel_regs (w_dev ?w6)"
    "pl_dma_w_regs (w_dev w7) = pl_dma_w_regs (w_dev ?w6)" "pl_dma_a_regs (w_dev w7) = pl_dma_a_regs (w_dev ?w6)"
    by (rule ensure_buffers_ok [OF s6 pn lim g6 [OF g(2)] g6 [OF g(3)] g6 [OF g(4)]]) simp_all
  have ra: "read_acts_addr env host op (cols * (nq * 128) * F32_BYTES) ?w2 = (Inr addr, w4)"
    using w4(1) by (simp add: read_acts_addr_def section_quiet [OF q2] py_simps c n_def mult.assoc)
  have "pl_matmul_run env host op w = run_job env host
        \<lparr>jb_rows = rows, jb_cols = cols, jb_k = nq * 128, jb_weights = wh, jb_weights_offset = woff, jb_dst = dh, jb_dst_offset = doff,
         jb_acts_addr = addr, jb_acts_nbytes = nq * 160, jb_packed_bytes = nq * 144, jb_rows_per_block = 8,
         jb_rowblocks = (rows + 7) div 8, jb_max_rowblocks = M\<rparr> ((rows + 7) div 8 * nq * 144) w7"
    using pos w1(1) ra w5(1) w7(1)
    by (simp add: pl_matmul_run_def py_simps c init_ok [OF drv1] identify_ok [OF ov] packed_bytes_per_rowblock_def packed_nbytes_def
        acts_stream_nbytes_def blocks_per_row_def rowblocks_for_def Let_def M_def add.commute [of rows 7]
        mult.commute [of "max_rowblocks_per_chunk ((7 + rows) div 8) (nq * 144)" 32])
  moreover have "ready host lib kr wr ar w7"
    using w7(2,8-11) ov t5(3) w4(2,3) by (simp add: ready_def pl_sane_def overlay_ok_def grown_def pl_kept_def same_dev_def)
  moreover have "acts_at ah aoff acts addr w7" using w4(5) w7(6,7) t5(2,3) by (simp add: acts_at_def has_range_def)
  moreover have "contents (w_alloc w7) = contents (w_alloc w)" using w7(6) t5(2) w4(6) by simp
  ultimately show ?thesis using that w7(2-5) by blast
qed

text \<open>The ranges of a call: the packed weights, the activations, and a destination apart from both.\<close>

definition matmul_data :: "int \<Rightarrow> int \<Rightarrow> int \<Rightarrow> int \<Rightarrow> int \<Rightarrow> int \<Rightarrow> int \<Rightarrow> int \<Rightarrow> int \<Rightarrow> byte list \<Rightarrow> byte list \<Rightarrow> byte list \<Rightarrow> 'd world \<Rightarrow> bool" where
  "matmul_data rows cols nq wh woff ah aoff dh doff wb acts d w \<longleftrightarrow>
     has_range w wh woff wb \<and> int (length wb) = (rows + 7) div 8 * (nq * 144) \<and>
     has_range w ah aoff acts \<and> int (length acts) = cols * (nq * 128 * 4) \<and>
     contents (w_alloc w) dh = Some d \<and> 0 \<le> doff \<and> doff + rows * cols * 4 \<le> int (length d) \<and>
     (wh \<noteq> dh \<or> apart_ranges woff (int (length wb)) doff (rows * cols * 4)) \<and>
     (ah \<noteq> dh \<or> apart_ranges aoff (int (length acts)) doff (rows * cols * 4))"

lemma matmul_data_alloc: "w_alloc u = w_alloc w \<Longrightarrow> matmul_data rows cols nq wh woff ah aoff dh doff wb acts d u =
    matmul_data rows cols nq wh woff ah aoff dh doff wb acts d w"
  by (simp only: matmul_data_def has_range_def)

lemma matmul_run_ok:
  assumes drv: "driver_ok host lib kr wr ar w" and dev: "quantizes lib Q" "packs lib" "runs_chunks lib kr wr ar G"
    and call: "matmul_call op rows cols nq wh woff ah aoff dh doff"
    and data: "matmul_data rows cols nq wh woff ah aoff dh doff wb acts d w" and rm: "room host rows cols nq (w_dev w)"
  defines "out \<equiv> matmul_out Q G nq rows cols wb acts"
  obtains w' where "pl_matmul_run env host op w = (Inr (), w')" "driver_ok host lib kr wr ar w'"
    "contents (w_alloc w') = (contents (w_alloc w))(dh \<mapsto> slice_assign d doff (doff + int (length out)) out)"
proof -
  let ?M = "max_rowblocks_per_chunk ((rows + 7) div 8) (nq * 144)"
  have pos: "0 < rows" "0 < cols" "0 < nq" and u: "u32 (nq * 128)" using call by (simp_all add: matmul_call_def)
  have da: "has_range w wh woff wb" "int (length wb) = (rows + 7) div 8 * (nq * 144)" "has_range w ah aoff acts" "int (length acts) = cols * (nq * 128 * 4)"
    "contents (w_alloc w) dh = Some d" "0 \<le> doff" "doff + rows * cols * 4 \<le> int (length d)"
    "wh \<noteq> dh \<or> apart_ranges woff (int (length wb)) doff (rows * cols * 4)" "ah \<noteq> dh \<or> apart_ranges aoff (int (length acts)) doff (rows * cols * 4)"
    using data unfolding matmul_data_def by blast+
  obtain addr wn w1 where w1: "pl_matmul_run env host op w = run_job env host
        \<lparr>jb_rows = rows, jb_cols = cols, jb_k = nq * 128, jb_weights = wh, jb_weights_offset = woff, jb_dst = dh, jb_dst_offset = doff,
         jb_acts_addr = addr, jb_acts_nbytes = nq * 160, jb_packed_bytes = nq * 144, jb_rows_per_block = 8,
         jb_rowblocks = (rows + 7) div 8, jb_max_rowblocks = ?M\<rparr> wn w1"
    "ready host lib kr wr ar w1" "pl_sane (ph_palloc host) w1" "acts_at ah aoff acts addr w1" "contents (w_alloc w1) = contents (w_alloc w)"
    "has_buf ActsBuf (nq * 160) (w_dev w1)" "has_buf WeightsDmaBuf (?M * (nq * 144)) (w_dev w1)" "has_buf ResultBuf (?M * 32) (w_dev w1)"
    using matmul_prefix_ok [OF drv call da(3,4) rm] .
  let ?job = "\<lparr>jb_rows = rows, jb_cols = cols, jb_k = nq * 128, jb_weights = wh, jb_weights_offset = woff, jb_dst = dh, jb_dst_offset = doff,
     jb_acts_addr = addr, jb_acts_nbytes = nq * 160, jb_packed_bytes = nq * 144, jb_rows_per_block = 8,
     jb_rowblocks = (rows + 7) div 8, jb_max_rowblocks = ?M\<rparr>"
  from w1(6) obtain ab where ab: "map_of (pl_cma (w_dev w1)) ActsBuf = Some ab" "nq * 160 \<le> int (length (cb_cells ab))" by (auto simp: has_buf_def)
  have "job_ok ?job" using pos(1) max_rowblocks_pos [OF pos(1)] by (simp add: job_ok_def)
  moreover have "has_range w1 wh woff wb" using da(1) w1(5) by (simp add: has_range_def)
  ultimately have "setting host lib kr wr ar nq ?job wb ab w1"
    using w1 ab pos da(2,5-8) by (simp add: setting_def apart_ranges_def)
  then have "col_setting host lib kr wr ar nq ?job wb ab ah aoff acts w1"
    using u w1(4) da(4,9) by (simp add: col_setting_def apart_ranges_def)
  from run_job_ok [OF this dev(3,1,2)] pos(2) obtain w' where
    w': "run_job env host ?job wn w1 = (Inr (), w')" "pl_kept w1 w'" "wrote dh doff out w1 w'" unfolding out_def by auto
  have "driver_ok host lib kr wr ar w'"
    using pl_sane_kept [OF w1(3) w'(2)] drv ready_kept [OF w1(2) w'(2)] by (simp add: driver_ok_def ready_def)
  then show ?thesis using that w1(1,5) w'(1,3) da(5) by (simp add: wrote_def)
qed

lemma length_matmul_out:
  assumes "\<And>x y. length (G x y) = 32" "0 < rows" "0 \<le> cols"
  shows "int (length (matmul_out Q G nq rows cols wb acts)) = rows * cols * 4"
proof -
  have "rows \<le> (rows + 7) div 8 * 8" by simp
  then have "length (column_out Q G nq rows ((rows + 7) div 8) wb acts c) = nat (rows * 4)" for c
    using length_column_out [of G rows "(rows + 7) div 8" Q nq wb acts c] assms(1,2) by simp
  then show ?thesis using assms(2,3) by (simp add: matmul_out_def length_concat comp_def sum_list_triv)
qed

end
