(* ===== verification/GraphSafety.thy ===== *)
theory GraphSafety
  imports GraphSpec
begin

text \<open>
  The protocol of the kernel in flight, checked at run time: \<open>guard\<close> wraps an arbitrary
  kernel so that it raises \<open>AssertionError\<close> when it is called against the protocol.  The
  wrapped registry behaves like the original one, so the scheduler never breaks the protocol.
  The check of the operands uses the byte ranges that the kernels access, not the start offsets the scheduler compares.
\<close>

section \<open>Worlds with a ghost\<close>

definition with_ghost :: "ghost \<Rightarrow> 'd world \<Rightarrow> ('d \<times> ghost) world" where
  "with_ghost g w = \<lparr>w_alloc = w_alloc w, w_timer = w_timer w, w_ticks = w_ticks w, w_sink = w_sink w,
     w_log = w_log w, w_dev = (w_dev w, g)\<rparr>"

definition ghost_of :: "('d \<times> ghost) world \<Rightarrow> ghost" where
  "ghost_of w = snd (w_dev w)"

definition base_of :: "('d \<times> ghost) world \<Rightarrow> 'd world" where
  "base_of w = \<lparr>w_alloc = w_alloc w, w_timer = w_timer w, w_ticks = w_ticks w, w_sink = w_sink w,
     w_log = w_log w, w_dev = fst (w_dev w)\<rparr>"

lemma ghost_simps [simp]:
  "ghost_of (with_ghost g w) = g" "base_of (with_ghost g w) = w"
  "w_timer (with_ghost g w) = w_timer w" "w_sink (with_ghost g w) = w_sink w"
  "w_ticks (with_ghost g w) = w_ticks w" "w_log (with_ghost g w) = w_log w"
  "(with_ghost g w)\<lparr>w_timer := t\<rparr> = with_ghost g (w\<lparr>w_timer := t\<rparr>)"
  "(with_ghost g w)\<lparr>w_ticks := n\<rparr> = with_ghost g (w\<lparr>w_ticks := n\<rparr>)"
  "(with_ghost g w)\<lparr>w_log := l\<rparr> = with_ghost g (w\<lparr>w_log := l\<rparr>)"
  by (simp_all add: with_ghost_def ghost_of_def base_of_def)

definition lift_g :: "('d world, 'a) py \<Rightarrow> (('d \<times> ghost) world, 'a) py" where
  "lift_g m w = (case m (base_of w) of (r, w') \<Rightarrow> (r, with_ghost (ghost_of w) w'))"

definition guard_async :: "(dict \<Rightarrow> ('d world, 'p pending option) py) \<Rightarrow> dict \<Rightarrow> (('d \<times> ghost) world, 'p pending option) py" where
  "guard_async f op w =
     (if ghost_of w \<noteq> None then (Inl AssertionError, w)
      else case f op (base_of w) of
             (Inr (Some p), w') \<Rightarrow> (Inr (Some p), with_ghost (Some (interval p)) w')
           | (r, w') \<Rightarrow> (r, with_ghost None w'))"

definition guard :: "(dict \<Rightarrow> range set) \<Rightarrow> ('d, 'p) kernel \<Rightarrow> ('d \<times> ghost, 'p) kernel" where
  "guard acc k =
     \<lparr>k_name = k_name k, k_backend = k_backend k,
      k_run = (\<lambda>op w. if may_run acc k op (ghost_of w) then lift_g (k_run k op) w else (Inl AssertionError, w)),
      k_run_async = map_option guard_async (k_run_async k),
      k_complete = (\<lambda>p w. if ghost_of w = Some (interval p)
                          then lift_g (k_complete k p) (with_ghost None (base_of w))
                          else (Inl AssertionError, w))\<rparr>"

definition guard_registry :: "(dict \<Rightarrow> range set) \<Rightarrow> ('d, 'p) registry \<Rightarrow> ('d \<times> ghost, 'p) registry" where
  "guard_registry acc reg = map (\<lambda>(n, k). (n, guard acc k)) reg"

definition guard_sched :: "(dict \<Rightarrow> range set) \<Rightarrow> ('d, 'p) sched \<Rightarrow> ('d \<times> ghost, 'p) sched" where
  "guard_sched acc st = \<lparr>sc_in_flight = map_option (\<lambda>(n, k, p). (n, guard acc k, p)) (sc_in_flight st),
     sc_ps = sc_ps st, sc_pl = sc_pl st\<rparr>"

section \<open>Simulation\<close>

text \<open>
  \<open>gsim g m' h g' m\<close>: started with ghost \<open>g\<close>, \<open>m'\<close> does what \<open>m\<close> does; a result
  \<open>x\<close> of \<open>m\<close> is \<open>h x\<close> in \<open>m'\<close> and leaves the ghost \<open>g' x\<close>.
\<close>

definition gsim :: "ghost \<Rightarrow> (('d \<times> ghost) world, 'b) py \<Rightarrow> ('a \<Rightarrow> 'b) \<Rightarrow> ('a \<Rightarrow> ghost) \<Rightarrow> ('d world, 'a) py \<Rightarrow> bool" where
  "gsim g m' h g' m \<longleftrightarrow>
     (\<forall>w. case m w of
        (Inl e, w1) \<Rightarrow> (\<exists>g1. m' (with_ghost g w) = (Inl e, with_ghost g1 w1))
      | (Inr x, w1) \<Rightarrow> m' (with_ghost g w) = (Inr (h x), with_ghost (g' x) w1))"

lemma gsimI:
  assumes "\<And>w e w1. m w = (Inl e, w1) \<Longrightarrow> \<exists>g1. m' (with_ghost g w) = (Inl e, with_ghost g1 w1)"
    and "\<And>w x w1. m w = (Inr x, w1) \<Longrightarrow> m' (with_ghost g w) = (Inr (h x), with_ghost (g' x) w1)"
  shows "gsim g m' h g' m"
  unfolding gsim_def by (auto split: prod.splits sum.splits intro: assms)

lemma gsim_Inl: "gsim g m' h g' m \<Longrightarrow> m w = (Inl e, w1) \<Longrightarrow> \<exists>g1. m' (with_ghost g w) = (Inl e, with_ghost g1 w1)"
  by (auto simp: gsim_def split: prod.splits sum.splits)

lemma gsim_Inr: "gsim g m' h g' m \<Longrightarrow> m w = (Inr x, w1) \<Longrightarrow> m' (with_ghost g w) = (Inr (h x), with_ghost (g' x) w1)"
  by (auto simp: gsim_def split: prod.splits sum.splits)

lemma gsim_bind_if:
  assumes "gsim g m' h g' m" "\<And>x. P x \<Longrightarrow> gsim (g' x) (f' (h x)) h2 g2 (f x)"
    and "\<And>w x w1. m w = (Inr x, w1) \<Longrightarrow> P x"
  shows "gsim g (py_bind m' f') h2 g2 (py_bind m f)"
proof (rule gsimI)
  fix w e w1 assume run: "py_bind m f w = (Inl e, w1)"
  obtain r w0 where m: "m w = (r, w0)" by (cases "m w")
  show "\<exists>g1. py_bind m' f' (with_ghost g w) = (Inl e, with_ghost g1 w1)"
  proof (cases r)
    case (Inl d)
    with run m gsim_Inl [OF assms(1), of w d w0] show ?thesis by (auto simp: py_bind_run)
  next
    case (Inr x)
    with m have "m' (with_ghost g w) = (Inr (h x), with_ghost (g' x) w0)" by (simp add: gsim_Inr [OF assms(1)])
    with Inr run m gsim_Inl [OF assms(2) [OF assms(3)], of w x w0 w0 e w1] show ?thesis by (auto simp: py_bind_run)
  qed
next
  fix w y w1 assume "py_bind m f w = (Inr y, w1)"
  then obtain x w0 where "m w = (Inr x, w0)" "f x w0 = (Inr y, w1)"
    by (auto simp: py_bind_run split: prod.splits sum.splits)
  then show "py_bind m' f' (with_ghost g w) = (Inr (h2 y), with_ghost (g2 y) w1)"
    using gsim_Inr [OF assms(1)] gsim_Inr [OF assms(2) [OF assms(3)]] by (simp add: py_bind_run)
qed

lemma gsim_bind:
  assumes "gsim g m' h g' m" "\<And>x. gsim (g' x) (f' (h x)) h2 g2 (f x)"
  shows "gsim g (py_bind m' f') h2 g2 (py_bind m f)"
  using assms by (rule gsim_bind_if) simp

lemma gsim_ret: "h x = y \<Longrightarrow> g' x = g \<Longrightarrow> gsim g (py_ret y) h g' (py_ret x)"
  by (rule gsimI) auto

lemma gsim_raise: "gsim g (py_raise e) h g' (py_raise e)"
  by (rule gsimI) auto

lemma gsim_lift: "gsim g (py_lift r) (\<lambda>x. x) (\<lambda>_. g) (py_lift r)"
  by (rule gsimI) auto

lemma gsim_then:
  "gsim g m' h (\<lambda>_. g1) m \<Longrightarrow> gsim g1 n' h2 g2 n \<Longrightarrow> gsim g (py_then m' n') h2 g2 (py_then m n)"
  unfolding py_then_def by (rule gsim_bind)

text \<open>Profiler steps do not look at the device.\<close>

lemma gsim_perf: "gsim g (perf_counter_ns env) (\<lambda>x. x) (\<lambda>_. g) (perf_counter_ns env)"
  by (rule gsimI) (auto simp: perf_counter_ns_def)

lemma gsim_us: "gsim g (us_since env n) (\<lambda>x. x) (\<lambda>_. g) (us_since env n)"
  unfolding us_since_def by (rule gsim_bind [OF gsim_perf]) (auto intro: gsim_ret)

lemma gsim_emit: "gsim g (emit env ev kws) (\<lambda>x. x) (\<lambda>_. g) (emit env ev kws)"
  by (rule gsimI) (auto simp: emit_def split: if_splits)

lemma gsim_get_timer: "gsim g (py_get w_timer) (\<lambda>x. x) (\<lambda>_. g) (py_get w_timer)"
  by (rule gsimI) auto

lemma gsim_upd_timer: "gsim g (upd_timer f) (\<lambda>x. x) (\<lambda>_. g) (upd_timer f)"
  by (rule gsimI) (auto simp: upd_timer_def)

lemma gsim_op_end: "gsim g (op_end env sp prev n) (\<lambda>x. x) (\<lambda>_. g) (op_end env sp prev n)"
  unfolding op_end_def Let_def
  by (intro gsim_bind [OF gsim_us] gsim_bind [OF gsim_get_timer] gsim_then [OF gsim_upd_timer] gsim_emit)

lemma gsim_finally:
  assumes b: "gsim g m' h g' m" and f: "\<And>g. gsim g f' (\<lambda>x. x) (\<lambda>_. g) f"
  shows "gsim g (py_finally m' f') h g' (py_finally m f)"
proof (rule gsimI)
  fix w e w1 assume run: "py_finally m f w = (Inl e, w1)"
  obtain r w0 where m: "m w = (r, w0)" by (cases "m w")
  obtain s w2 where fin: "f w0 = (s, w2)" by (cases "f w0")
  obtain r' g0 where m': "m' (with_ghost g w) = (r', with_ghost g0 w0)" "r = Inl d \<Longrightarrow> r' = Inl d" for d
  proof (cases r)
    case (Inl d)
    then show ?thesis using that gsim_Inl [OF b, of w d w0] m by auto
  next
    case (Inr x)
    then show ?thesis using that gsim_Inr [OF b, of w x w0] m by auto
  qed
  show "\<exists>g1. py_finally m' f' (with_ghost g w) = (Inl e, with_ghost g1 w1)"
  proof (cases s)
    case (Inl d)
    with fin gsim_Inl [OF f, of w0 d w2 g0] m' m run show ?thesis by (auto simp: py_finally_run)
  next
    case (Inr u)
    with fin gsim_Inr [OF f, of w0 u w2 g0] m' m run show ?thesis by (auto simp: py_finally_run)
  qed
next
  fix w x w1 assume "py_finally m f w = (Inr x, w1)"
  then obtain w0 u where "m w = (Inr x, w0)" "f w0 = (Inr u, w1)"
    by (auto simp: py_finally_run split: prod.splits sum.splits)
  then show "py_finally m' f' (with_ghost g w) = (Inr (h x), with_ghost (g' x) w1)"
    using gsim_Inr [OF b] gsim_Inr [OF f] by (simp add: py_finally_run)
qed

lemma gsim_op_profiled:
  "gsim g m' h g' m \<Longrightarrow> gsim g (op_profiled env n [] m') h g' (op_profiled env n [] m)"
  unfolding op_profiled_def Let_def
  by (intro gsim_bind [OF gsim_get_timer] gsim_then [OF gsim_upd_timer] gsim_then [OF gsim_emit]
      gsim_bind [OF gsim_perf] gsim_finally gsim_op_end)

lemma gsim_timer_op:
  assumes "gsim g m' h g' m"
  shows "gsim g (timer_op env n [] m') h g' (timer_op env n [] m)"
  unfolding timer_op_def
  using assms gsim_op_profiled [OF assms] by (intro gsim_bind [OF gsim_get_timer]) auto

section \<open>The scheduler keeps to the protocol\<close>

lemma backend_guard [simp]: "backend_of (guard acc k) = backend_of k"
  by (simp add: backend_of_def guard_def)

lemma async_guard [simp]: "k_run_async (guard acc k) = map_option guard_async (k_run_async k)"
  by (simp add: guard_def)

lemma gsim_guard_run:
  "may_run acc k op g \<Longrightarrow> gsim g (k_run (guard acc k) op) (\<lambda>x. x) (\<lambda>_. g) (k_run k op)"
  by (rule gsimI) (auto simp: guard_def lift_g_def)

lemma gsim_guard_async:
  "gsim None (guard_async f op) (\<lambda>x. x) (map_option interval) (f op)"
  by (rule gsimI) (auto simp: guard_async_def split: option.splits)

lemma gsim_guard_complete:
  "gsim (Some (interval p)) (k_complete (guard acc k) p) (\<lambda>x. x) (\<lambda>_. None) (k_complete k p)"
  by (rule gsimI) (auto simp: guard_def lift_g_def)

lemma gsim_complete_pending:
  "gsim (Some (interval (snd (snd f)))) (complete_pending env (case f of (n, k, p) \<Rightarrow> (n, guard acc k, p)))
     (\<lambda>x. x) (\<lambda>_. None) (complete_pending env f)"
proof (cases f)
  case (fields n k p)
  show ?thesis unfolding fields complete_pending_def prod.case snd_conv
    by (intro gsim_timer_op gsim_guard_complete)
qed

lemma needs_barrier_guard: "needs_barrier (guard acc k) op p = needs_barrier k op p"
  by (simp add: needs_barrier_def)

lemma gsim_barrier:
  "gsim (sched_ghost st) (barrier env (guard acc k) op (guard_sched acc st)) (guard_sched acc) sched_ghost (barrier env k op st)"
proof (cases "sc_in_flight st")
  case None
  then show ?thesis by (auto simp: barrier_def guard_sched_def sched_ghost_def intro!: gsim_ret)
next
  case (Some f)
  obtain n k' p where f: "f = (n, k', p)" by (cases f)
  have g: "sched_ghost st = Some (interval (snd (snd f)))" "sc_in_flight (guard_sched acc st) = Some (n, guard acc k', p)"
    using Some by (simp_all add: sched_ghost_def guard_sched_def f)
  have c: "gsim (sched_ghost st) (complete_pending env (n, guard acc k', p)) (\<lambda>x. x) (\<lambda>_. None) (complete_pending env f)"
    using gsim_complete_pending [of f env] unfolding g(1) f prod.case .
  have "gsim (sched_ghost st)
      (py_bind (py_lift (needs_barrier k op p)) (\<lambda>b.
         if b then py_then (complete_pending env (n, guard acc k', p)) (py_ret ((guard_sched acc st)\<lparr>sc_in_flight := None\<rparr>))
         else py_ret (guard_sched acc st)))
      (guard_sched acc) sched_ghost
      (py_bind (py_lift (needs_barrier k op p)) (\<lambda>b.
         if b then py_then (complete_pending env f) (py_ret (st\<lparr>sc_in_flight := None\<rparr>)) else py_ret st))"
  proof (rule gsim_bind [OF gsim_lift])
    fix b
    show "gsim (sched_ghost st)
        (if b then py_then (complete_pending env (n, guard acc k', p)) (py_ret ((guard_sched acc st)\<lparr>sc_in_flight := None\<rparr>))
         else py_ret (guard_sched acc st)) (guard_sched acc) sched_ghost
        (if b then py_then (complete_pending env f) (py_ret (st\<lparr>sc_in_flight := None\<rparr>)) else py_ret st)"
    proof (cases b)
      case True
      have "gsim (sched_ghost st) (py_then (complete_pending env (n, guard acc k', p)) (py_ret ((guard_sched acc st)\<lparr>sc_in_flight := None\<rparr>)))
          (guard_sched acc) sched_ghost (py_then (complete_pending env f) (py_ret (st\<lparr>sc_in_flight := None\<rparr>)))"
        by (rule gsim_then [OF c], rule gsim_ret) (simp_all add: guard_sched_def sched_ghost_def)
      with True show ?thesis by simp
    next
      case False
      show ?thesis unfolding if_not_P [OF False] by (rule gsim_ret) simp_all
    qed
  qed
  then show ?thesis using Some g(2) unfolding f by (simp add: barrier_def needs_barrier_guard)
qed

lemma guard_sched_simps [simp]:
  "sc_in_flight (guard_sched acc st) = map_option (\<lambda>(n, k, p). (n, guard acc k, p)) (sc_in_flight st)"
  "guard_sched acc (count_op k st) = count_op (guard acc k) (guard_sched acc st)"
  "sched_ghost (count_op k st) = sched_ghost st"
  "sc_ps (guard_sched acc st) = sc_ps st" "sc_pl (guard_sched acc st) = sc_pl st"
  by (simp_all add: guard_sched_def count_op_def sched_ghost_def)

lemma gsim_issue_sync:
  assumes "may_run acc k op (sched_ghost st)"
  shows "gsim (sched_ghost st) (py_then (timer_op env n [] (k_run (guard acc k) op)) (py_ret (count_op (guard acc k) (guard_sched acc st))))
    (guard_sched acc) sched_ghost (py_then (timer_op env n [] (k_run k op)) (py_ret (count_op k st)))"
  using assms by (intro gsim_then [OF gsim_timer_op [OF gsim_guard_run]] gsim_ret) auto

lemma gsim_issue:
  assumes "may_run acc k op (sched_ghost st)"
  shows "gsim (sched_ghost st) (issue_op env n (guard acc k) op (guard_sched acc st)) (guard_sched acc) sched_ghost (issue_op env n k op st)"
proof (cases "k_run_async k = None \<or> sc_in_flight st \<noteq> None")
  case True
  then have "issue_op env n k op st = py_then (timer_op env n [] (k_run k op)) (py_ret (count_op k st))"
      "issue_op env n (guard acc k) op (guard_sched acc st) =
        py_then (timer_op env n [] (k_run (guard acc k) op)) (py_ret (count_op (guard acc k) (guard_sched acc st)))"
    by (auto simp: issue_op_def split: option.splits)
  with gsim_issue_sync [OF assms] show ?thesis by simp
next
  case False
  then obtain f where f: "k_run_async k = Some f" by (cases "k_run_async k") auto
  have none: "sc_in_flight st = None" using False by blast
  have a: "gsim (sched_ghost st) (timer_op env n [] (guard_async f op)) (\<lambda>x. x) (map_option interval) (timer_op env n [] (f op))"
    using none gsim_timer_op [OF gsim_guard_async] by (simp add: sched_ghost_def)
  have "gsim (sched_ghost st)
      (py_bind (timer_op env n [] (guard_async f op)) (\<lambda>pending. py_ret (case pending of None \<Rightarrow> count_op (guard acc k) (guard_sched acc st)
         | Some p \<Rightarrow> (count_op (guard acc k) (guard_sched acc st))\<lparr>sc_in_flight := Some (n, guard acc k, p)\<rparr>)))
      (guard_sched acc) sched_ghost
      (py_bind (timer_op env n [] (f op)) (\<lambda>pending. py_ret (case pending of None \<Rightarrow> count_op k st
         | Some p \<Rightarrow> (count_op k st)\<lparr>sc_in_flight := Some (n, k, p)\<rparr>)))"
    by (rule gsim_bind [OF a])
       (auto simp: none sched_ghost_def guard_sched_def count_op_def intro!: gsim_ret split: option.splits)
  then show ?thesis using f none by (simp add: issue_op_def Let_def)
qed

lemma registry_get_guard:
  "registry_get (guard_registry acc reg) n = (case registry_get reg n of Inl e \<Rightarrow> Inl e | Inr k \<Rightarrow> Inr (guard acc k))"
  by (induction reg) (auto simp: registry_get_def guard_registry_def split: option.splits)

context footprints
begin

lemma gsim_run_op:
  assumes "sched_flying pre st" "ops = pre @ op # post"
  shows "gsim (sched_ghost st) (run_op env (guard_registry acc reg) op (guard_sched acc st)) (guard_sched acc) sched_ghost
    (run_op env reg op st)"
proof -
  let ?n = "py_str env (obj_get op F_OP (JStr ''''))"
  have lift: "gsim (sched_ghost st) (py_lift (registry_get (guard_registry acc reg) ?n)) (guard acc) (\<lambda>_. sched_ghost st)
      (py_lift (registry_get reg ?n))"
    by (rule gsimI) (auto simp: registry_get_guard)
  have "gsim (sched_ghost st)
      (py_bind (barrier env (guard acc k) op (guard_sched acc st)) (issue_op env ?n (guard acc k) op)) (guard_sched acc) sched_ghost
      (py_bind (barrier env k op st) (issue_op env ?n k op))" for k
    using barrier_flying [OF assms]
    by (auto intro: gsim_bind_if [where P = "\<lambda>st1. may_run acc k op (sched_ghost st1)", OF gsim_barrier gsim_issue])
  then show ?thesis
    by (auto simp: run_op_def Let_def intro!: gsim_bind [OF lift] gsim_raise)
qed

lemma gsim_run_ops:
  "sched_flying pre st \<Longrightarrow> ops = pre @ todo \<Longrightarrow>
   gsim (sched_ghost st) (run_ops env (guard_registry acc reg) todo (guard_sched acc st)) (guard_sched acc) sched_ghost
     (run_ops env reg todo st)"
proof (induction todo arbitrary: pre st)
  case Nil
  show ?case unfolding run_ops.simps by (rule gsim_ret) simp_all
next
  case (Cons op todo)
  show ?case unfolding run_ops.simps
    using run_op_flying [OF Cons.prems(1,2)] Cons.IH [of "pre @ [op]"] Cons.prems(2)
    by (intro gsim_bind_if [where P = "sched_flying (pre @ [op])", OF gsim_run_op [OF Cons.prems(1,2)]]) auto
qed

end

lemma gsim_drain: "gsim (sched_ghost st) (drain env (guard_sched acc st)) (guard_sched acc) sched_ghost (drain env st)"
proof (cases "sc_in_flight st")
  case None
  then show ?thesis by (auto simp: drain_def intro!: gsim_ret)
next
  case (Some f)
  obtain n k p where f: "f = (n, k, p)" by (cases f)
  have c: "gsim (sched_ghost st) (complete_pending env (n, guard acc k, p)) (\<lambda>x. x) (\<lambda>_. None) (complete_pending env f)"
    using gsim_complete_pending [of f env] Some unfolding f prod.case by (simp add: sched_ghost_def)
  have "gsim (sched_ghost st) (py_then (complete_pending env (n, guard acc k, p)) (py_ret ((guard_sched acc st)\<lparr>sc_in_flight := None\<rparr>)))
      (guard_sched acc) sched_ghost (py_then (complete_pending env f) (py_ret (st\<lparr>sc_in_flight := None\<rparr>)))"
    by (rule gsim_then [OF c], rule gsim_ret) (simp_all add: guard_sched_def sched_ghost_def)
  then show ?thesis using Some by (simp add: drain_def f)
qed

context footprints
begin

lemma gsim_run_schedule:
  "gsim None (run_schedule env (guard_registry acc reg) ops) (guard_sched acc) sched_ghost (run_schedule env reg ops)"
proof -
  let ?s0 = "\<lparr>sc_in_flight = None, sc_ps = 0, sc_pl = 0\<rparr>"
  have g: "sched_ghost ?s0 = None" "guard_sched acc ?s0 = \<lparr>sc_in_flight = None, sc_ps = 0, sc_pl = 0\<rparr>" "sched_flying [] ?s0"
    by (simp_all add: sched_ghost_def guard_sched_def sched_flying_def)
  show ?thesis unfolding run_schedule_def
    using gsim_run_ops [of "[]" ?s0 ops] gsim_drain unfolding g by (intro gsim_bind) (simp_all add: g(3))
qed

end

end
