(* ===== verification/AllocProps.thy ===== *)
theory AllocProps
  imports AllocSpec
begin

text \<open>
  The properties of the slab pools and of the tensor allocator, each over an arbitrary
  sequence of its methods, with the concrete allocator of two 16-byte slabs as witness.
\<close>

section \<open>A concrete allocator\<close>

definition demo_slabs :: "slab list" where
  "demo_slabs =
     [\<lparr>kind = FakeSlab, slab_size = 16, physical_address = 0x10000000, base_va = None,
       buf = replicate 16 0, cache_ops = []\<rparr>,
      \<lparr>kind = PynqSlab, slab_size = 16, physical_address = 0x10001010, base_va = Some 0x40000000,
       buf = replicate 16 0, cache_ops = []\<rparr>]"

definition demo_alloc :: allocator where
  "demo_alloc = \<lparr>al_slabs = demo_slabs, al_free = [[(0, 16)], [(0, 16)]], al_records = [],
     al_next_handle = 1, al_default_alignment = 8\<rparr>"

text \<open>A tensor of 20 bytes does not fit in one slab and gets two extents.\<close>

definition demo_record :: tensor_record where
  "demo_record = \<lparr>tr_handle = 1, tr_nbytes = 20, tr_shape = [5], tr_dtype = ''f32'', tr_usage = ''any'',
     tr_layout = ''ggml'',
     tr_extents = [\<lparr>ext_slab = 0, ext_offset = 0, ext_nbytes = 16\<rparr>,
                   \<lparr>ext_slab = 1, ext_offset = 0, ext_nbytes = 4\<rparr>]\<rparr>"

definition demo_alloc1 :: allocator where
  "demo_alloc1 = demo_alloc\<lparr>al_free := [[], [(4, 12)]], al_next_handle := 2,
     al_records := [(1, demo_record)]\<rparr>"

lemma demo_slabs_ok: "\<forall>s \<in> set demo_slabs. 0 < slab_size s \<and> int (length (buf s)) = slab_size s"
  by (simp add: demo_slabs_def)

lemma demo_new: "new_allocator demo_slabs 8 = Inr demo_alloc"
  by (simp add: new_allocator_def demo_alloc_def demo_slabs_def)

lemma demo_inv: "alloc_inv demo_alloc"
  by (rule new_allocator_inv [OF demo_slabs_ok demo_new])

lemmas fill_slab_unfold = fill_slab.simps [of _ _ _ "numeral _"] fill_slab.simps [of _ _ _ 0]

lemma demo_allocate: "allocate 20 [5] ''f32'' ''any'' ''ggml'' None demo_alloc = (Inr demo_record, demo_alloc1)"
  by (simp add: allocate_def place_def place_single_def place_multi_def demo_alloc_def fill_slab_unfold
      align_up_def split_block_def Let_def add_record_def demo_record_def demo_alloc1_def py_simps)

lemma demo_inv1: "alloc_inv demo_alloc1"
  by (rule allocate_inv [OF demo_inv demo_allocate])

lemma demo_reach1: "alloc_reachable demo_slabs 8 demo_alloc1"
  by (rule reach_step [OF reach_new [OF demo_new] step_allocate [OF demo_allocate]])

section \<open>Properties of the slabs\<close>

text \<open>The range that a PYNQ slab passes to the cache flush or invalidate starts at a cache
  line, covers every byte that was asked for, stays inside the buffer, and adds less than one
  cache line at either end.\<close>

lemma cacheline_bounds_tight:
  assumes "0 < nbytes" "0 \<le> offset" "offset + nbytes \<le> sz"
  shows "\<exists>lo hi. cacheline_bounds offset nbytes sz = Some (lo, hi) \<and>
    0 \<le> lo \<and> lo \<le> offset \<and> offset < lo + CACHELINE \<and> lo mod CACHELINE = 0 \<and>
    offset + nbytes \<le> hi \<and> hi \<le> sz \<and> hi < offset + nbytes + CACHELINE \<and>
    (hi mod CACHELINE = 0 \<or> hi = sz)"
  using cacheline_bounds_covers [OF assms] by metis

theorem cacheline_bounds_tight_witness:
  "\<exists>lo hi. cacheline_bounds 40 50 100 = Some (lo, hi) \<and> 0 \<le> lo \<and> lo \<le> 40 \<and>
    40 < lo + CACHELINE \<and> lo mod CACHELINE = 0 \<and> 40 + 50 \<le> hi \<and> hi \<le> 100 \<and>
    hi < 40 + 50 + CACHELINE \<and> (hi mod CACHELINE = 0 \<or> hi = 100)"
  using cacheline_bounds_tight [of 50 40 100] by simp

text \<open>\<open>fake_slabs\<close> rejects a pool or slab size that is not positive; otherwise it
  returns slabs that add up to the heap size, none larger than the slab size, each backed by a
  buffer of its size, at physical ranges that do not overlap.\<close>

lemma fake_slabs_pool:
  "if heap_bytes \<le> 0 \<or> slab_bytes \<le> 0 then fake_slabs heap_bytes slab_bytes = Inl ValueError
   else \<exists>ss. fake_slabs heap_bytes slab_bytes = Inr ss \<and> sum_list (map slab_size ss) = heap_bytes \<and>
     pool_from 0x10000000 ss \<and> (\<forall>s. s \<in> set ss \<longrightarrow> kind s = FakeSlab \<and> slab_size s \<le> slab_bytes)"
  using fake_slabs_loop_spec [of heap_bytes slab_bytes "0x10000000"] by (auto simp: fake_slabs_def)

lemma fake_slabs_pool_witness:
  "\<exists>ss. fake_slabs 40 16 = Inr ss \<and> sum_list (map slab_size ss) = 40 \<and>
     pool_from 0x10000000 ss \<and> (\<forall>s \<in> set ss. kind s = FakeSlab \<and> slab_size s \<le> 16)"
  using fake_slabs_pool [of 40 16] by auto

text \<open>\<open>pynq_slabs\<close> either returns slabs that add up to the heap size, or it passes on
  the exception of the allocation that failed, after it released every buffer it had made.\<close>

lemma pynq_slabs_release:
  assumes "0 < heap_bytes" "0 < slab_bytes"
  shows "case pynq_slabs alloc heap_bytes slab_bytes of
      (Inr ss, closed) \<Rightarrow> closed = [] \<and> sum_list (map slab_size ss) = heap_bytes \<and>
        (\<forall>s \<in> set ss. kind s = PynqSlab)
    | (Inl e, closed) \<Rightarrow> (\<exists>sz. alloc (length closed) sz = Inl e) \<and>
        (\<forall>s \<in> set closed. kind s = PynqSlab \<and> last (cache_ops s) = FreeBuffer)"
  using pynq_slabs_loop_spec [of heap_bytes slab_bytes "[]" alloc] assms
  by (auto simp: pynq_slabs_def split: sum.splits prod.splits)

theorem pynq_slabs_release_witness:
  "\<exists>closed sz. pynq_slabs (\<lambda>n sz. if n < 2 then Inr (0x1000 * int n, 0, replicate (nat sz) 0)
       else Inl RuntimeError) 48 16 = (Inl RuntimeError, closed) \<and> length closed = 2 \<and>
     (\<forall>s \<in> set closed. last (cache_ops s) = FreeBuffer)"
  using pynq_slabs_release [of 48 16 "\<lambda>n sz. if n < 2 then Inr (0x1000 * int n, 0, replicate (nat sz) 0)
       else Inl RuntimeError"]
  by (simp add: pynq_slabs_def pynq_slabs_loop.simps [of _ _ _ "numeral _"] pynq_slab_def)

section \<open>Properties of the allocator\<close>

text \<open>C1: whatever sequence of allocations, frees, reads and writes a client issues, failing ones
  included, the allocator's invariant holds: free blocks are sorted and coalesced, free blocks
  and live extents divide every slab without overlap, records carry their own handle and size.\<close>

theorem reachable_alloc_inv:
  assumes "alloc_reachable slabs w a"
    and "\<forall>s \<in> set slabs. 0 < slab_size s \<and> int (length (buf s)) = slab_size s"
  shows "alloc_inv a"
  using assms by (rule alloc_reachable_inv)

theorem reachable_alloc_inv_witness: "alloc_inv demo_alloc1"
  by (rule reachable_alloc_inv [OF demo_reach1 demo_slabs_ok])

text \<open>C21: no two live tensors ever share a byte of any slab, and no tensor uses a byte twice.\<close>

theorem tensors_never_overlap:
  assumes "alloc_reachable slabs w a"
    and "\<forall>s \<in> set slabs. 0 < slab_size s \<and> int (length (buf s)) = slab_size s"
    and "get_record a h = Inr r" "get_record a h' = Inr r'" "h \<noteq> h'"
    and "e \<in> set (tr_extents r)" "f \<in> set (tr_extents r')" "ext_slab e = ext_slab f"
  shows "ext_offset e + ext_nbytes e \<le> ext_offset f \<or> ext_offset f + ext_nbytes f \<le> ext_offset e"
proof -
  note inv = alloc_reachable_inv [OF assms(1,2)]
  from assms(3,4) have r: "map_of (al_records a) h = Some r" "map_of (al_records a) h' = Some r'"
    by (simp_all add: get_record_Inr)
  have pos: "0 < ext_nbytes e" "0 < ext_nbytes f"
    using record_extents_ok(3) [OF inv r(1)] record_extents_ok(3) [OF inv r(2)] assms(6,7) by auto
  have "set (addrs (tr_extents r)) \<inter> set (addrs (tr_extents r')) = {}"
    using record_addrs_distinct(2) [OF inv r] assms(5) by simp
  then have "set (ext_addrs e) \<inter> set (ext_addrs f) = {}" using assms(6,7) by (auto simp: addrs_def)
  then have "ext_range e \<inter> ext_range f = {}" using assms(8) pos by (auto simp: set_ext_addrs)
  then have "max (ext_offset e) (ext_offset f) \<notin> ext_range e \<inter> ext_range f" by simp
  then show ?thesis using pos by (auto simp: ext_range_def)
qed

definition demo_record2 :: tensor_record where
  "demo_record2 = \<lparr>tr_handle = 2, tr_nbytes = 3, tr_shape = [3], tr_dtype = ''i8'', tr_usage = ''any'',
     tr_layout = ''ggml'', tr_extents = [\<lparr>ext_slab = 1, ext_offset = 8, ext_nbytes = 3\<rparr>]\<rparr>"

definition demo_alloc2 :: allocator where
  "demo_alloc2 = demo_alloc1\<lparr>al_free := [[], [(4, 4), (11, 5)]], al_next_handle := 3,
     al_records := [(1, demo_record), (2, demo_record2)]\<rparr>"

lemma demo_allocate2: "allocate 3 [3] ''i8'' ''any'' ''ggml'' None demo_alloc1 = (Inr demo_record2, demo_alloc2)"
  by (simp add: allocate_def place_def place_single_def demo_alloc_def demo_alloc1_def align_up_def
      Let_def add_record_def demo_record2_def demo_alloc2_def alloc_take_def set_free_def py_simps)

lemma demo_reach2: "alloc_reachable demo_slabs 8 demo_alloc2"
  by (rule reach_step [OF demo_reach1 step_allocate [OF demo_allocate2]])

lemma demo_inv2: "alloc_inv demo_alloc2"
  by (rule allocate_inv [OF demo_inv1 demo_allocate2])

theorem tensors_never_overlap_witness:
  "(0::int) + 4 \<le> 8 \<or> 8 + 3 \<le> (0::int)"
  using tensors_never_overlap [OF demo_reach2 demo_slabs_ok, of 1 demo_record 2 demo_record2
      "\<lparr>ext_slab = 1, ext_offset = 0, ext_nbytes = 4\<rparr>" "\<lparr>ext_slab = 1, ext_offset = 8, ext_nbytes = 3\<rparr>"]
  by (simp add: demo_alloc2_def get_record_def demo_record_def demo_record2_def)

text \<open>The byte counts that \<open>memory_info\<close> reports are exact: the free bytes and the sizes of
  the live tensors add up to the capacity, which no operation changes.\<close>

lemma memory_accounting:
  assumes "alloc_reachable slabs w a"
    and "\<forall>s \<in> set slabs. 0 < slab_size s \<and> int (length (buf s)) = slab_size s"
  shows "used_bytes a = (\<Sum>(h, r)\<leftarrow>al_records a. tr_nbytes r) \<and>
    free_bytes a + used_bytes a = total_bytes a \<and> 0 \<le> free_bytes a \<and>
    total_bytes a = (\<Sum>s\<leftarrow>slabs. slab_size s)"
proof -
  note inv = alloc_reachable_inv [OF assms]
  have "ext_sum (all_extents a) = (\<Sum>(h, r)\<leftarrow>al_records a. tr_nbytes r)"
    using inv ext_sum_records [of "al_records a" "al_next_handle a"]
    by (simp add: alloc_inv_def all_extents_def)
  with alloc_inv_sizes [OF inv] have "used_bytes a = (\<Sum>(h, r)\<leftarrow>al_records a. tr_nbytes r)"
    by (simp add: used_bytes_def)
  moreover have "free_bytes a + used_bytes a = total_bytes a" by (simp add: used_bytes_def)
  ultimately show ?thesis
    using alloc_reachable_total [OF assms] free_bytes_nonneg [OF inv] by simp
qed

lemma memory_accounting_witness:
  "used_bytes demo_alloc2 = 23 \<and> free_bytes demo_alloc2 = 9"
  using memory_accounting [OF demo_reach2 demo_slabs_ok]
  by (simp add: demo_alloc2_def demo_record_def demo_record2_def demo_slabs_def)

text \<open>C3: an allocation that raises, for whatever reason, leaves the allocator exactly as it was:
  extents that a multi-slab placement had already taken are returned and coalesced.\<close>

theorem failed_allocation_rolls_back:
  assumes "alloc_inv a" "allocate nbytes shape dtype usage layout alignment a = (Inl e, a')"
  shows "a' = a"
  using assms by (rule allocate_error_unchanged)

lemma demo_allocate_fails:
  "allocate 14 [] ''i8'' ''any'' ''ggml'' (Some 1) demo_alloc1 = (Inl ERR_memory, demo_alloc1)"
  by (simp add: allocate_def place_def place_single_def place_multi_def demo_alloc1_def demo_alloc_def
      fill_slab_unfold align_up_def split_block_def Let_def py_simps release_all_def alloc_release_def
      set_free_def release_range_def merge_step_def)

theorem failed_allocation_rolls_back_witness:
  "\<exists>a'. allocate 14 [] ''i8'' ''any'' ''ggml'' (Some 1) demo_alloc1 = (Inl ERR_memory, a') \<and> a' = demo_alloc1"
  using failed_allocation_rolls_back [OF demo_inv1 demo_allocate_fails] demo_allocate_fails by blast

lemma allocate_outcome:
  assumes "alloc_inv a" "0 < effective_alignment a alignment"
    and "allocate nbytes shape dtype usage layout alignment a = (res, a')"
  shows "if nbytes < 0 then res = Inl ERR_invalid
    else if nbytes \<le> total_room (effective_alignment a alignment) (al_free a) then \<exists>r. res = Inr r
    else res = Inl ERR_memory"
proof -
  let ?w = "effective_alignment a alignment"
  obtain p a1 where p: "place nbytes ?w a = (p, a1)" by (cases "place nbytes ?w a")
  show ?thesis
  proof (cases "0 < nbytes")
    case True
    note iff = place_None_iff [OF alloc_inv_partitioned [OF assms(1)] True assms(2) p]
    show ?thesis using assms(3) True p iff
      by (cases p) (auto simp: allocate_unfold add_record_def Let_def not_less split: option.splits)
  next
    case False
    then show ?thesis using assms(3) total_room_nonneg [of ?w "al_free a"]
      by (auto simp: allocate_unfold add_record_def Let_def)
  qed
qed

text \<open>C16: an allocation of \<open>nbytes\<close> with a positive alignment succeeds exactly when the
  aligned room of the free blocks, over all slabs, is at least \<open>nbytes\<close>; else it raises
  \<open>out_of_memory\<close>, and \<open>invalid_request\<close> for a negative size.\<close>

theorem allocation_succeeds_iff_room:
  assumes "alloc_inv a" "0 < effective_alignment a alignment"
    and "allocate nbytes shape dtype usage layout alignment a = (res, a')"
  shows "if nbytes < 0 then res = Inl ERR_invalid
    else if nbytes \<le> total_room (effective_alignment a alignment) (al_free a) then \<exists>r. res = Inr r
    else res = Inl ERR_memory"
  using allocate_outcome [OF assms] .

theorem allocation_succeeds_iff_room_witness:
  "total_room 4 (al_free demo_alloc2) = 8 \<and>
   (\<exists>a'. allocate 9 [] ''i8'' ''any'' ''ggml'' (Some 4) demo_alloc2 = (Inl ERR_memory, a'))"
proof -
  obtain res a' where run: "allocate 9 [] ''i8'' ''any'' ''ggml'' (Some 4) demo_alloc2 = (res, a')"
    by (cases "allocate 9 [] ''i8'' ''any'' ''ggml'' (Some 4) demo_alloc2")
  have w: "effective_alignment demo_alloc2 (Some 4) = 4"
    by (simp add: effective_alignment_def)
  have room: "total_room 4 (al_free demo_alloc2) = 8"
    by (simp add: demo_alloc2_def total_room_def block_room_def align_up_def)
  show ?thesis using allocation_succeeds_iff_room [OF demo_inv2 _ run] run room w by simp
qed

text \<open>A successful allocation returns a handle that was not live, extents that are aligned and
  add up to the requested size, and it adds one tensor of that size to the store while the bytes
  of every other tensor stay as they were.\<close>

lemma allocation_adds_tensor:
  assumes "alloc_inv a" "allocate nbytes shape dtype usage layout alignment a = (Inr r, a')"
  shows "alloc_inv a' \<and> contents a (tr_handle r) = None \<and> tr_nbytes r = nbytes \<and>
    ext_sum (tr_extents r) = nbytes \<and>
    (\<forall>e. e \<in> set (tr_extents r) \<longrightarrow> extent_aligned (effective_alignment a alignment) e) \<and>
    (\<exists>d. int (length d) = nbytes \<and> contents a' = (contents a)(tr_handle r \<mapsto> d))"
proof -
  from allocate_cases [OF assms] obtain es where
    "allocated nbytes (effective_alignment a alignment) es r a a'" by auto
  then show ?thesis using allocate_inv [OF assms] allocate_contents [OF assms] by (auto simp: allocated_def)
qed

lemma allocation_adds_tensor_witness:
  "\<exists>d. length d = 20 \<and> contents demo_alloc1 = (contents demo_alloc)(1 \<mapsto> d)"
  using allocation_adds_tensor [OF demo_inv demo_allocate] by (auto simp: demo_record_def)

text \<open>C28: freeing a tensor right after its allocation returns the record and restores the free
  lists and the live tensors exactly; only the handle counter has moved on, so that no handle
  is used twice.\<close>

theorem free_undoes_allocate:
  assumes "alloc_inv a" "allocate nbytes shape dtype usage layout alignment a = (Inr r, a')"
  shows "free_tensor (tr_handle r) a' = (Inr r, a\<lparr>al_next_handle := al_next_handle a + 1\<rparr>)"
proof -
  from allocate_cases [OF assms] obtain es where
    al: "allocated nbytes (effective_alignment a alignment) es r a a'" by auto
  then have h: "tr_handle r = al_next_handle a" and f: "al_slabs a' = al_slabs a"
      "al_records a' = al_records a @ [(al_next_handle a, r)]" "al_next_handle a' = al_next_handle a + 1"
      "al_default_alignment a' = al_default_alignment a" by (auto simp: allocated_def)
  have inv': "alloc_inv a'" using assms by (rule allocate_inv)
  have fresh: "al_next_handle a \<notin> fst ` set (al_records a)" using assms(1) by (rule fresh_handle)
  have rec: "get_record a' (tr_handle r) = Inr r"
    using fresh by (simp add: get_record_Inr h f map_add_def map_of_eq_None_iff [THEN iffD2])
  obtain res a2 where run: "free_tensor (tr_handle r) a' = (res, a2)" by (cases "free_tensor (tr_handle r) a'")
  note sp = free_tensor_spec [OF inv' rec run]
  let ?b = "a\<lparr>al_next_handle := al_next_handle a + 1\<rparr>"
  have "AList.delete (al_next_handle a) (al_records a) = al_records a"
    using fresh by (force simp: AList.delete_eq intro!: filter_True)
  then have recs: "al_records a2 = al_records a" using sp(4) f(2) h by (simp add: AList.delete_eq)
  have "alloc_inv ?b" using assms(1) by (auto simp: alloc_inv_def record_ok_def all_extents_def split: prod.splits)
  then have "al_free a2 = al_free ?b"
    using sp(2,3) recs f(1) by (intro free_lists_determined) auto
  then have "a2 = ?b" using sp recs f by simp
  with sp(1) run show ?thesis by simp
qed

theorem free_undoes_allocate_witness:
  "free_tensor 1 demo_alloc1 = (Inr demo_record, demo_alloc\<lparr>al_next_handle := 2\<rparr>)"
  using free_undoes_allocate [OF demo_inv demo_allocate] by (simp add: demo_record_def demo_alloc_def)

text \<open>The free lists are a function of the slabs and of the live tensors: two histories of
  allocations and frees that end with the same tensors end with the same free lists, so freeing
  leaves no fragmentation behind.\<close>

lemma free_lists_canonical:
  assumes "alloc_inv a" "alloc_inv b" "al_slabs a = al_slabs b" "al_records a = al_records b"
  shows "al_free a = al_free b"
  using assms by (rule free_lists_determined)

lemma free_lists_canonical_witness:
  "al_free (snd (free_tensor 2 (snd (free_tensor 1 demo_alloc2)))) = al_free demo_alloc"
proof -
  obtain r1 b1 where f1: "free_tensor 1 demo_alloc2 = (r1, b1)" by (cases "free_tensor 1 demo_alloc2")
  obtain r2 b2 where f2: "free_tensor 2 b1 = (r2, b2)" by (cases "free_tensor 2 b1")
  have g1: "get_record demo_alloc2 1 = Inr demo_record" by (simp add: get_record_def demo_alloc2_def)
  note s1 = free_tensor_spec [OF demo_inv2 g1 f1]
  have rec1: "al_records b1 = [(2, demo_record2)]" using s1(4) by (simp add: demo_alloc2_def)
  then have g2: "get_record b1 2 = Inr demo_record2" by (simp add: get_record_def)
  note s2 = free_tensor_spec [OF s1(2) g2 f2]
  show ?thesis
    using free_lists_canonical [OF s2(2) demo_inv] s1(3) s2(3,4) rec1 f1 f2
    by (simp add: demo_alloc2_def demo_alloc1_def demo_alloc_def)
qed

text \<open>C2: \<open>write\<close> refines slice assignment on the abstract store, across extents and slabs and
  with or without cache maintenance: the tensor's bytes at the range become the data, every other
  byte of every tensor keeps its value, and a rejected write changes nothing.\<close>

theorem write_refines_store:
  assumes "alloc_inv a"
  shows "if in_range (contents a) h off (int (length bs)) then
      \<exists>a' d. write_tensor h off bs c a = (Inr (), a') \<and> alloc_inv a' \<and> contents a h = Some d \<and>
        contents a' = (contents a)(h \<mapsto> slice_assign d off (off + int (length bs)) bs)
    else write_tensor h off bs c a = (Inl (range_error (contents a) h off (int (length bs))), a)"
proof (cases "in_range (contents a) h off (int (length bs))")
  case True
  then obtain d where "contents a h = Some d" "0 \<le> off" "off + int (length bs) \<le> int (length d)"
    by (auto simp: in_range_def)
  with True assms write_tensor_ok [OF assms this] show ?thesis by (auto dest: same_shape_inv)
next
  case False
  with assms show ?thesis by (simp add: write_tensor_rejected validate_range_contents)
qed

theorem write_refines_store_witness:
  "write_tensor 1 18 [7, 8, 9] True demo_alloc1 = (Inl ERR_bounds, demo_alloc1)"
  using write_refines_store [OF demo_inv1, of 1 18 "[7, 8, 9]" True]
  by (simp add: in_range_def range_error_def contents_def demo_alloc1_def demo_record_def ext_addrs_def)

text \<open>A read returns the bytes of the last write to its range, and a write to another tensor
  or to a disjoint range of the same tensor does not affect it.\<close>

lemma read_after_write_tensor:
  assumes "alloc_inv a" "write_tensor h off bs True a = (Inr (), a')"
  shows "fst (read_tensor h off (int (length bs)) True a') = Inr bs \<and>
    (h' \<noteq> h \<or> off' + n \<le> off \<or> off + int (length bs) \<le> off' \<longrightarrow>
     fst (read_tensor h' off' n True a') = fst (read_tensor h' off' n True a))"
  using coherent_store.read_after_write [OF assms] coherent_store.read_other_write [OF assms] by blast

lemma read_after_write_tensor_witness:
  "\<exists>a'. write_tensor 1 15 [7, 8, 9] True demo_alloc1 = (Inr (), a') \<and>
     fst (read_tensor 1 15 3 True a') = Inr [7, 8, 9]"
proof -
  have "in_range (contents demo_alloc1) 1 15 3"
    by (simp add: in_range_def contents_def demo_alloc1_def demo_record_def ext_addrs_def)
  then obtain a' where w: "write_tensor 1 15 [7, 8, 9] True demo_alloc1 = (Inr (), a')"
    using coherent_store.swrite_in [OF demo_inv1, of 1 _ 15 "[7, 8, 9]"] by (auto simp: in_range_def)
  with read_after_write_tensor [OF demo_inv1 w] show ?thesis by simp
qed

text \<open>The slab range that \<open>slab_view\<close> gives to a DMA holds the requested bytes of the
  tensor and lies inside the slab; the pointer of \<open>slab_pointer\<close> is that range in the slab's
  mapping.\<close>

lemma slab_view_names_the_bytes:
  assumes "alloc_inv a" "slab_view a h off n = Inr (i, x, k)"
  shows "k = n \<and> i < length (al_slabs a) \<and> 0 \<le> x \<and> x + n \<le> slab_size (al_slabs a ! i) \<and>
    (\<exists>d. contents a h = Some d \<and> off + n \<le> int (length d) \<and>
      py_slice (buf (al_slabs a ! i)) x (x + n) = py_slice d off (off + n)) \<and>
    slab_pointer a h off n =
      (case base_va (al_slabs a ! i) of None \<Rightarrow> Inl ERR_invalid | Some base \<Rightarrow> Inr (base + x))"
  using slab_view_spec [OF assms] assms(2) by (simp add: slab_pointer_def) metis

lemma slab_view_names_the_bytes_witness:
  "slab_view demo_alloc1 1 17 2 = Inr (1, 1, 2) \<and> slab_pointer demo_alloc1 1 17 2 = Inr 0x40000001"
proof -
  have v: "slab_view demo_alloc1 1 17 2 = Inr (1, 1, 2)"
    by (simp add: slab_view_def get_record_def demo_alloc1_def demo_record_def)
  with slab_view_names_the_bytes [OF demo_inv1 v] show ?thesis
    by (simp add: demo_alloc1_def demo_alloc_def demo_slabs_def)
qed

text \<open>\<open>physical\<close> returns the physical address of the tensor's byte at an offset inside the
  tensor; one past the end it returns address 0.\<close>

lemma physical_names_the_byte:
  assumes "alloc_inv a" "contents a h = Some d" "0 \<le> off" "off \<le> int (length d)"
  shows "if off = int (length d) then physical a h off = Inr 0
    else \<exists>i x. i < length (al_slabs a) \<and> 0 \<le> x \<and> x < slab_size (al_slabs a ! i) \<and>
      buf (al_slabs a ! i) ! nat x = d ! nat off \<and>
      physical a h off = Inr (physical_address (al_slabs a ! i) + x)"
  using physical_spec [OF assms] assms(4) by (cases "off = int (length d)") auto

lemma physical_names_the_byte_witness:
  "physical demo_alloc1 1 20 = Inr 0 \<and> physical demo_alloc1 1 18 = Inr 0x10001012"
proof -
  have c: "contents demo_alloc1 1 = Some (map (mem demo_slabs) (addrs (tr_extents demo_record)))"
    by (simp add: contents_def demo_alloc1_def demo_alloc_def)
  have l: "length (addrs (tr_extents demo_record)) = 20" by (simp add: demo_record_def)
  show ?thesis using physical_names_the_byte [OF demo_inv1 c, of 20] l
    by (simp add: physical_def get_record_def demo_alloc1_def demo_alloc_def demo_record_def demo_slabs_def)
qed

end
