(* ===== verification/GraphProps.thy ===== *)
theory GraphProps
  imports GraphSafety PsSpec AllocProps
begin

text \<open>
  The properties of the graph scheduler: what it does with the registry that the daemon builds,
  and what it guarantees to arbitrary kernels.  The witnesses run a small graph, a \<open>COPY\<close>
  between the two tensors of the allocator used for the allocator's witnesses.
\<close>

definition demo_env :: pyenv where
  "demo_env = \<lparr>env_repr = (\<lambda>_. []), env_strtod = (\<lambda>_. None), env_exc_text = (\<lambda>_. ''error''),
     env_perf_ns = (\<lambda>n. int n * 1000), env_time_ns = (\<lambda>n. int n * 1000)\<rparr>"

definition demo_dev :: ps_state where
  "demo_dev = \<lparr>scratch_bufs = [], scratch_sizes = [], scratch_count = 0\<rparr>"

definition demo_world :: "bool \<Rightarrow> ps_state world" where
  "demo_world prof = \<lparr>w_alloc = demo_alloc2, w_timer = new_timer JNull prof, w_ticks = 0, w_sink = prof,
     w_log = [], w_dev = demo_dev\<rparr>"

definition demo_palloc :: pynq_allocate where
  "demo_palloc n sz = Inr (0, 0, replicate (nat sz) 0)"

text \<open>A library that exports every symbol and whose functions do nothing.\<close>

definition idle_lib :: clib where
  "idle_lib = \<lparr>cl_has = (\<lambda>_. True), cl_call = (\<lambda>_ _ m. (0, m))\<rparr>"

definition demo_files :: "string \<Rightarrow> clib option" where
  "demo_files p = (if p = ''libbonsai_ps.so'' then Some idle_lib else None)"

definition demo_registry :: "(ps_state, unit) registry" where
  "demo_registry = ps_registry demo_env demo_palloc idle_lib"

definition demo_copy :: dict where
  "demo_copy = [(F_OP, JStr GOP_COPY), (F_NBYTES, JInt 3), (F_SRC, JInt 1), (F_DST, JInt 2)]"

lemma demo_register: "register_all demo_env demo_palloc demo_files None [] = (Inr (), demo_registry)"
  unfolding demo_registry_def
  by (rule register_all_ok) (simp_all add: load_lib_def demo_files_def idle_lib_def list_all_iff)

lemma idle_lib_shape: "clib_shape idle_lib"
  by (simp add: clib_shape_def idle_lib_def Let_def list_all2_refl)

lemma demo_prof_sim: "prof_sim (demo_world True) (demo_world False)"
  by (simp add: prof_sim_def demo_world_def new_timer_def timer_ok_def)

lemma demo_runs: "\<not> isl (fst (run_schedule demo_env demo_registry [demo_copy] (demo_world False)))"
  by code_simp

lemma demo_run:
  obtains st w' where "run_schedule demo_env demo_registry [demo_copy] (demo_world False) = (Inr st, w')"
  using demo_runs by (cases "run_schedule demo_env demo_registry [demo_copy] (demo_world False)"; cases "fst (run_schedule demo_env demo_registry [demo_copy] (demo_world False))") auto

section \<open>Profiling\<close>

text \<open>C22: profiling is invisible.  With the registry that \<open>register_all\<close> builds, a graph run with
  profiling on and one with profiling off, from worlds that agree on allocator, device and byte
  counters, end in the same outcome, the same exception included, and in worlds that agree again.\<close>

theorem profiling_invisible:
  assumes "register_all env palloc files path [] = (Inr (), reg)" "prof_sim w v"
  shows "fst (run_schedule env reg ops w) = fst (run_schedule env reg ops v) \<and>
    prof_sim (snd (run_schedule env reg ops w)) (snd (run_schedule env reg ops v))"
proof -
  from register_all_registry [OF assms(1)] obtain lib where "reg = ps_registry env palloc lib" by metis
  then have "prof_agnostic (run_schedule env reg ops)" by (simp add: run_schedule_agnostic ps_registry_agnostic)
  with assms(2) show ?thesis by (simp add: prof_agnostic_def)
qed

theorem profiling_invisible_witness:
  "fst (run_schedule demo_env demo_registry [demo_copy] (demo_world True)) =
   fst (run_schedule demo_env demo_registry [demo_copy] (demo_world False))"
  using profiling_invisible [OF demo_register demo_prof_sim] by blast

section \<open>Counting and completion\<close>

text \<open>A graph that ends without an exception has run every op exactly once, the PS and PL
  counters of the response add up to the number of ops, and no op is left in flight.  This holds
  for every registry, of kernels that do whatever they like.\<close>

lemma every_op_counted:
  assumes "run_schedule env reg ops w = (Inr st, w')"
  shows "sc_ps st + sc_pl st = int (length ops) \<and> sc_in_flight st = None"
  using run_schedule_counts [OF assms] by blast

lemma every_op_counted_witness:
  "\<exists>st w'. run_schedule demo_env demo_registry [demo_copy] (demo_world False) = (Inr st, w') \<and>
    sc_ps st + sc_pl st = 1 \<and> sc_in_flight st = None"
proof -
  obtain st w' where "run_schedule demo_env demo_registry [demo_copy] (demo_world False) = (Inr st, w')" by (rule demo_run)
  with every_op_counted [OF this] show ?thesis by auto
qed

section \<open>A registry with something in flight\<close>

text \<open>
  A device of cells, with a PL kernel that doubles two cells and stores the result when it is completed, and a PS
  kernel that copies two cells at once.  In the graph, the first copy runs beside the op in flight, and the second
  one, which reads its result, has to wait for it.
\<close>

type_synonym cells = "int \<times> int \<Rightarrow> int"

definition cell_role :: "dict \<Rightarrow> string \<Rightarrow> string \<Rightarrow> int \<times> int" where
  "cell_role op hf ofs = (case (map_of op hf, map_of op ofs) of (Some (JInt h), Some (JInt a)) \<Rightarrow> (h, a) | _ \<Rightarrow> (0, 0))"

definition get2 :: "int \<times> int \<Rightarrow> cells \<Rightarrow> int \<times> int" where
  "get2 r c = (c r, c (fst r, snd r + 1))"

definition put2 :: "int \<times> int \<Rightarrow> int \<times> int \<Rightarrow> cells \<Rightarrow> cells" where
  "put2 r v c = c(r := fst v, (fst r, snd r + 1) := snd v)"

definition doubled :: "dict \<Rightarrow> cells \<Rightarrow> int \<times> int" where
  "doubled op c = (case get2 (cell_role op F_ACTS F_ACTS_OFFSET) c of (x, y) \<Rightarrow> (2 * x, 2 * y))"

definition on_cells :: "(cells \<Rightarrow> cells) \<Rightarrow> (cells world, unit) py" where
  "on_cells f = py_mod (\<lambda>w. w\<lparr>w_dev := f (w_dev w)\<rparr>)"

definition copy_cells :: "(cells, int \<times> int) kernel" where
  "copy_cells = \<lparr>k_name = ''CP'', k_backend = None,
     k_run = (\<lambda>op. on_cells (\<lambda>c. put2 (cell_role op F_DST F_DST_OFFSET) (get2 (cell_role op F_SRC F_SRC_OFFSET) c) c)),
     k_run_async = None, k_complete = (\<lambda>_. py_ret ())\<rparr>"

definition double_cells :: "(cells, int \<times> int) kernel" where
  "double_cells = \<lparr>k_name = ''MM'', k_backend = Some ''pl'',
     k_run = (\<lambda>op. on_cells (\<lambda>c. put2 (cell_role op F_DST F_DST_OFFSET) (doubled op c) c)),
     k_run_async = Some (\<lambda>op. py_bind (py_get w_dev) (\<lambda>c. case cell_role op F_DST F_DST_OFFSET of (h, a) \<Rightarrow>
       py_ret (Some \<lparr>p_dst_handle = h, p_dst_lo = a, p_dst_hi = a + 2, p_data = doubled op c\<rparr>))),
     k_complete = (\<lambda>p. on_cells (put2 (p_dst_handle p, p_dst_lo p) (p_data p)))\<rparr>"

definition cell_registry :: "(cells, int \<times> int) registry" where
  "cell_registry = [(''MM'', double_cells), (''CP'', copy_cells)]"

definition mm_op :: dict where
  "mm_op = [(F_OP, JStr ''MM''), (F_ACTS, JInt 1), (F_ACTS_OFFSET, JInt 0), (F_DST, JInt 1), (F_DST_OFFSET, JInt 10)]"

definition cp_op :: "int \<Rightarrow> int \<Rightarrow> dict" where
  "cp_op s d = [(F_OP, JStr ''CP''), (F_SRC, JInt 1), (F_SRC_OFFSET, JInt s), (F_DST, JInt 1), (F_DST_OFFSET, JInt d)]"





definition cell_world :: "cells world" where
  "cell_world = \<lparr>w_alloc = demo_alloc2, w_timer = new_timer JNull False, w_ticks = 0, w_sink = False, w_log = [],
     w_dev = (\<lambda>(h, a). a + 1)\<rparr>"













section \<open>The protocol of the op in flight\<close>



text \<open>Without the arena's rule, an op that starts below the result in flight and reaches into it is let through: a
  copy from the bytes \<open>[0, 8)\<close> of a tensor does not touch the bytes \<open>[4, 8)\<close> in flight.\<close>

lemma straddling_op_let_through:
  "op_touches [(F_SRC, JInt 1), (F_SRC_OFFSET, JInt 0), (F_DST, JInt 2)] 1 4 8 = Inr False \<and> ranges_meet (1, 0, 8) (1, 4, 8)"
  by (simp add: op_touches_def TENSOR_ROLES_def obj_get_def ranges_meet_def)

section \<open>References of an op\<close>

text \<open>When the handle and offset fields of an op are numbers, \<open>_op_touches\<close> answers whether one of
  its tensor roles names the given handle at an offset in the interval, a missing offset counting
  as zero; the answer does not depend on the order of the roles.\<close>

lemma op_touches_iff:
  assumes "\<forall>(hf, ofs) \<in> set TENSOR_ROLES. (\<forall>v. map_of op hf = Some v \<longrightarrow> (\<exists>i. py_int v = Inr i)) \<and>
      (\<exists>i. py_int (obj_get op ofs (JInt 0)) = Inr i)"
  shows "op_touches op h lo hi = Inr (\<exists>(hf, ofs) \<in> set TENSOR_ROLES. \<exists>v i. map_of op hf = Some v \<and> py_int v = Inr h \<and>
    py_int (obj_get op ofs (JInt 0)) = Inr i \<and> lo \<le> i \<and> i < hi)"
proof -
  define hit where "hit = (\<lambda>(hf, ofs). \<exists>v i. map_of op hf = Some v \<and> py_int v = Inr h \<and>
      py_int (obj_get op ofs (JInt 0)) = Inr i \<and> lo \<le> i \<and> i < hi)"
  have "touches_roles op h lo hi roles = Inr (\<exists>r \<in> set roles. hit r)"
    if "\<forall>(hf, ofs) \<in> set roles. (\<forall>v. map_of op hf = Some v \<longrightarrow> (\<exists>i. py_int v = Inr i)) \<and>
      (\<exists>i. py_int (obj_get op ofs (JInt 0)) = Inr i)" for roles
    using that
  proof (induction roles)
    case (Cons r roles)
    obtain hf ofs where r: "r = (hf, ofs)" by (cases r)
    from Cons.prems r obtain i where i: "py_int (obj_get op ofs (JInt 0)) = Inr i" by auto
    have IH: "touches_roles op h lo hi roles = Inr (\<exists>r \<in> set roles. hit r)" using Cons by simp
    show ?case
    proof (cases "map_of op hf")
      case None
      then show ?thesis using IH by (simp add: r hit_def)
    next
      case (Some v)
      with Cons.prems r obtain j where "py_int v = Inr j" by auto
      then have "hit r \<longleftrightarrow> j = h \<and> lo \<le> i \<and> i < hi" using Some i by (auto simp: r hit_def)
      with Some i IH \<open>py_int v = Inr j\<close> show ?thesis by (auto simp: r)
    qed
  qed simp
  from this [OF assms] show ?thesis unfolding op_touches_def hit_def by simp
qed

lemma op_touches_iff_witness:
  "op_touches demo_copy 2 0 3 = Inr (\<exists>(hf, ofs) \<in> set TENSOR_ROLES. \<exists>v i. map_of demo_copy hf = Some v \<and> py_int v = Inr 2 \<and>
    py_int (obj_get demo_copy ofs (JInt 0)) = Inr i \<and> 0 \<le> i \<and> i < 3)"
  by (rule op_touches_iff) (simp add: TENSOR_ROLES_def demo_copy_def obj_get_def)

section \<open>The flat walk\<close>



text \<open>After the first copy the op is still in flight.\<close>

lemma cell_overlap: "case fst (run_ops demo_env cell_registry [mm_op, cp_op 0 20] \<lparr>sc_in_flight = None, sc_ps = 0, sc_pl = 0\<rparr> cell_world) of
    Inr st \<Rightarrow> sched_ghost st = Some (1, 10, 12) | Inl _ \<Rightarrow> False"
  by code_simp

text \<open>With the PS registry, a graph that succeeds leaves exactly the world of the flat walk.\<close>

lemma ps_graph_is_flat_walk:
  assumes "register_all env palloc files path [] = (Inr (), reg)" "load_lib files path = Inr lib" "clib_shape lib"
    and "quiet w" "run_schedule env reg ops w = (Inr st, w')"
  shows "flat_walk env reg ops w = (Inr (), w')"
proof -
  from register_all_registry [OF assms(1)] assms(2) have reg: "reg = ps_registry env palloc lib" by (metis sum.inject(2))
  have "agree (=) (run_schedule env reg ops w) (flat_walk env reg ops w)"
    unfolding reg by (rule ps_sched.pipelined_is_flat) (use assms(3,4) in simp)
  from agree_Inr [OF this [unfolded assms(5)]] show ?thesis by auto
qed

end
