(* ===== verification/PsProps.thy ===== *)
theory PsProps
  imports GlueSpec GraphProps
begin

text \<open>
  The properties of the PS kernels.  The witnesses use a library with one working function, an
  addition of bytes, and the allocator of the other witnesses, in which tensor 1 lies in a
  slab without a mapping and in a mapped one, so that the pointers of one op take all paths.
\<close>

section \<open>Registration\<close>

lemma ps_registry_names: "registry_contains n (ps_registry env palloc lib) \<longleftrightarrow> n \<in> set GRAPH_OPS"
  by (simp add: registry_contains_def ps_registry_def ps_kernels_def ps_kernel_def GRAPH_OPS_def)

text \<open>Registration is complete and exact.  When \<open>register_all\<close> returns, the registry serves every
  graph op the wire format defines and no other; it returns exactly when the library file is there and
  exports every symbol the kernels bind.\<close>

lemma registration_complete:
  assumes "register_all env palloc files path [] = (r, reg)"
  shows "(r = Inr () \<longleftrightarrow> (\<exists>lib. load_lib files path = Inr lib \<and> list_all (cl_has lib) ps_symbols)) \<and>
    (r = Inr () \<longrightarrow> (\<forall>n. registry_contains n reg \<longleftrightarrow> n \<in> set GRAPH_OPS))"
proof (cases "load_lib files path")
  case (Inl e)
  with assms show ?thesis by (auto simp: register_all_def py_simps)
next
  case (Inr lib)
  show ?thesis
  proof (cases "list_all (cl_has lib) ps_symbols")
    case True
    have "r = Inr ()" "reg = ps_registry env palloc lib" using assms by (simp_all add: register_all_ok [OF Inr True])
    with True Inr show ?thesis by (simp add: ps_registry_names)
  next
    case False
    have "r = Inl AttributeError" using arg_cong [OF assms, of fst] by (simp add: register_all_missing [OF Inr False])
    with False Inr show ?thesis by simp
  qed
qed

lemma registration_complete_witness: "\<forall>n. registry_contains n demo_registry \<longleftrightarrow> n \<in> set GRAPH_OPS"
  using registration_complete [OF demo_register] by blast

section \<open>The shape of the heap\<close>

text \<open>No PS kernel allocates, frees, resizes or moves anything, whatever op it is given and however
  it ends: the records, the free lists, the handles and the sizes and addresses of the slabs are as before, so the
  allocator's invariant holds after it.\<close>

lemma kernels_keep_heap_shape:
  assumes "register_all env palloc files path [] = (Inr (), reg)" "load_lib files path = Inr lib" "clib_shape lib"
    and "registry_get reg n = Inr k" "alloc_inv (w_alloc w)" "k_run k op w = (r, w')"
  shows "same_shape (w_alloc w) (w_alloc w') \<and> alloc_inv (w_alloc w')"
proof -
  from register_all_registry [OF assms(1)] assms(2) have reg: "reg = ps_registry env palloc lib" by (metis sum.inject(2))
  have "k \<in> snd ` set reg" using assms(4) by (force simp: registry_get_def split: option.splits dest!: map_of_SomeD)
  then have "py_keeps shape_kept (k_run k op)" using ps_kernels_shape [OF assms(3)] unfolding reg ps_registry_kernels by blast
  from py_keepsD [OF this assms(6)] assms(5) show ?thesis using same_shape_inv by (auto simp: shape_kept_def)
qed

lemma kernels_keep_heap_shape_witness:
  "\<exists>k. registry_get demo_registry GOP_COPY = Inr k \<and>
    alloc_inv (w_alloc (snd (k_run k demo_copy (demo_world False))))"
proof -
  have k: "registry_get demo_registry GOP_COPY = Inr (ps_kernel GOP_COPY (copy_run demo_env (Some idle_lib)))"
    by (simp add: registry_get_def demo_registry_def ps_registry_def ps_kernels_def ps_kernel_def)
  have l: "load_lib demo_files None = Inr idle_lib" by (simp add: load_lib_def demo_files_def)
  have i: "alloc_inv (w_alloc (demo_world False))" by (simp add: demo_world_def demo_inv2)
  let ?k = "ps_kernel GOP_COPY (copy_run demo_env (Some idle_lib)) :: (ps_state, unit) kernel"
  obtain r w' where run: "k_run ?k demo_copy (demo_world False) = (r, w')" by (cases "k_run ?k demo_copy (demo_world False)")
  from kernels_keep_heap_shape [OF demo_register l idle_lib_shape k i run] k run show ?thesis by auto
qed

section \<open>Elementwise kernels\<close>

lemma arg_range_length: "arg_range op c (hf, ofs, n) = Some (h, off, xs) \<Longrightarrow> int (length xs) = n"
  by (erule arg_range_Some) (simp add: length_py_slice)

text \<open>C14: the binary kernels refine a function on tensors.  If the entry point of the library stores \<open>F\<close> of
  the bytes behind its input pointers, then \<open>ADD_F32\<close> and \<open>MUL_F32\<close> set the destination range to \<open>F\<close>
  of the two source ranges and change no other byte of any tensor, whether each range is handed to C in place or
  through a buffer, with profiling on or off, and when the destination is one of the sources; the byte
  counters grow by the bytes read and written.\<close>

theorem binary_kernel_refines:
  assumes "timer_ok (w_timer w)" "alloc_inv (w_alloc w)" "va_disjoint (al_slabs (w_alloc w))"
    and "positive_int op F_ROWS = Inr rows" "positive_int op F_COLS = Inr cols"
    and "broadcast \<longleftrightarrow> py_bool (obj_get op F_SRC1_BROADCAST (JBool False))"
    and "n = rows * cols * F32_BYTES" "k = (if broadcast then rows else rows * cols) * F32_BYTES"
    and "arg_range op (contents (w_alloc w)) (F_SRC0, F_SRC0_OFFSET, n) = Some (h0, off0, xs)"
    and "arg_range op (contents (w_alloc w)) (F_SRC1, F_SRC1_OFFSET, k) = Some (h1, off1, ys)"
    and "arg_range op (contents (w_alloc w)) (F_DST, F_DST_OFFSET, n) = Some (h, off, old)"
    and "compatible (h0, off0) n (h, off) n" "compatible (h1, off1) k (h, off) n"
    and "computes lib symb (\<lambda>ps dst. [CPtr (ps ! 0), CPtr (ps ! 1), CPtr dst, c_uint32 rows, c_uint32 cols,
       c_uint32 (if broadcast then 1 else 0)]) [n, k] n F"
  shows "\<exists>w'. binary_run env lib symb op w = (Inr (), w') \<and> dst_written h off (F [xs, ys]) w w' \<and> counted (n + k) n w w'"
proof -
  let ?ins = "[(F_SRC0, F_SRC0_OFFSET, n), (F_SRC1, F_SRC1_OFFSET, k)]"
  let ?rs = "[(h0, off0, xs), (h1, off1, ys)]"
  have len: "int (length xs) = n" "int (length ys) = k" using assms(9,10) by (simp_all add: arg_range_length)
  let ?args = "\<lambda>ps dst. [CPtr (ps ! 0), CPtr (ps ! 1), CPtr dst, c_uint32 rows, c_uint32 cols, c_uint32 (if broadcast then 1 else 0)]"
  have ins: "those (map (arg_range op (contents (w_alloc w))) ?ins) = Some ?rs" using assms(9,10) by simp
  have c: "\<forall>(h', off', zs) \<in> set ?rs. compatible (h', off') (int (length zs)) (h, off) n" using assms(12,13) len by simp
  have lib: "computes lib symb ?args (sizes_of ?rs) n F" using assms(14) len by (simp add: sizes_of_def)
  have "binary_run env lib symb op w = glue env lib symb op ?ins n ?args w"
    using assms(4,5) unfolding binary_run_def assms(6-8) by (simp add: py_bind_run Let_def)
  with glue_refines [OF assms(1-3) ins assms(11) lib c, of env] show ?thesis by (simp add: bytes_of_args_def)
qed

definition demo_lib :: clib where
  "demo_lib = \<lparr>cl_has = (\<lambda>_. True), cl_call = (\<lambda>symb args m.
     case args of
       [CPtr p, CPtr q, CPtr d, _, _, _] \<Rightarrow>
         (case (c_load m p 4, c_load m q 4) of
            (Some x, Some y) \<Rightarrow> (0, c_store m d (map2 (+) x y))
          | _ \<Rightarrow> (1, m))
     | _ \<Rightarrow> (1, m))\<rparr>"

definition demo_add :: dict where
  "demo_add = [(F_OP, JStr GOP_ADD_F32), (F_ROWS, JInt 1), (F_COLS, JInt 1), (F_SRC0, JInt 1), (F_SRC0_OFFSET, JInt 14),
     (F_SRC1, JInt 1), (F_DST, JInt 1)]"

lemma c_load_length: "c_load m p n = Some xs \<Longrightarrow> 0 \<le> n \<Longrightarrow> int (length xs) = n"
  by (auto simp: c_load_def length_py_slice split: option.splits prod.splits if_splits)

lemma demo_lib_computes:
  "computes demo_lib symb (\<lambda>ps dst. [CPtr (ps ! 0), CPtr (ps ! 1), CPtr dst, c_uint32 1, c_uint32 1, c_uint32 0])
     [4, 4] 4 (\<lambda>xs. map2 (+) (xs ! 0) (xs ! 1))"
  unfolding computes_def
proof (intro allI impI)
  fix m ps xs dst
  assume l: "list_all2 (\<lambda>(p, k) x. c_load m p k = Some x) (zip ps [4, 4]) xs" and "length ps = length [4, 4 :: int]"
  then obtain p q where ps: "ps = [p, q]" by (auto simp: length_Suc_conv)
  with l obtain x y where xs: "xs = [x, y]" "c_load m p 4 = Some x" "c_load m q 4 = Some y"
    by (auto simp: list_all2_Cons1)
  then have "length x = 4" "length y = 4" using c_load_length [of m p 4 x] c_load_length [of m q 4 y] by simp_all
  with xs ps show "int (length (map2 (+) (xs ! 0) (xs ! 1))) = 4 \<and>
      cl_call demo_lib symb [CPtr (ps ! 0), CPtr (ps ! 1), CPtr dst, c_uint32 1, c_uint32 1, c_uint32 0] m =
      (0, c_store m dst (map2 (+) (xs ! 0) (xs ! 1)))"
    by (simp add: demo_lib_def)
qed

lemma demo_va: "va_disjoint (al_slabs demo_alloc2)"
  by (auto simp: va_disjoint_def demo_alloc2_def demo_alloc1_def demo_alloc_def demo_slabs_def less_Suc_eq)

lemma demo_contents1: "contents demo_alloc2 1 = Some (replicate 20 0)"
  by code_simp

theorem binary_kernel_refines_witness:
  "\<exists>w'. binary_run demo_env demo_lib ''bonsai_add_f32'' demo_add (demo_world True) = (Inr (), w') \<and>
    dst_written 1 0 [0, 0, 0, 0] (demo_world True) w' \<and> counted 8 4 (demo_world True) w'"
proof -
  have t: "timer_ok (w_timer (demo_world True))" by (simp add: demo_world_def new_timer_def timer_ok_def)
  have a: "w_alloc (demo_world True) = demo_alloc2" by (simp add: demo_world_def)
  have r: "arg_range demo_add (contents demo_alloc2) (F_SRC0, F_SRC0_OFFSET, 4) = Some (1, 14, [0, 0, 0, 0])"
    "arg_range demo_add (contents demo_alloc2) (F_SRC1, F_SRC1_OFFSET, 4) = Some (1, 0, [0, 0, 0, 0])"
    "arg_range demo_add (contents demo_alloc2) (F_DST, F_DST_OFFSET, 4) = Some (1, 0, [0, 0, 0, 0])"
    by code_simp+
  have p: "positive_int demo_add F_ROWS = Inr 1" "positive_int demo_add F_COLS = Inr 1"
    "False \<longleftrightarrow> py_bool (obj_get demo_add F_SRC1_BROADCAST (JBool False))" by code_simp+
  have c: "compatible (1, 14) 4 (1, 0) 4" "compatible (1, 0) 4 (1, 0) 4" by code_simp+
  have "computes demo_lib symb (\<lambda>ps dst. [CPtr (ps ! 0), CPtr (ps ! 1), CPtr dst, c_uint32 1, c_uint32 1,
      c_uint32 (if False then 1 else 0)]) [4, 4] 4 (\<lambda>xs. map2 (+) (xs ! 0) (xs ! 1))" for symb
    using demo_lib_computes [of symb] by simp
  from binary_kernel_refines [of "demo_world True" demo_add 1 1 False 4 4 1 14 "[0, 0, 0, 0]" 1 0 "[0, 0, 0, 0]" 1 0
      "[0, 0, 0, 0]" demo_lib "''bonsai_add_f32''" "\<lambda>xs. map2 (+) (xs ! 0) (xs ! 1)" demo_env] this t a r p c demo_inv2 demo_va
  show ?thesis by simp
qed

section \<open>COPY\<close>

lemma copy_run_moves:
  assumes "timer_ok (w_timer w)" "alloc_inv (w_alloc w)"
    and "\<not> (py_str env (obj_get op F_SRC0_TYPE (JStr '''')) = ''f32'' \<and> py_str env (obj_get op F_DST_TYPE (JStr '''')) = ''f16'')"
    and "required_int op F_NBYTES = Inr n"
    and "arg_range op (contents (w_alloc w)) (F_SRC, F_SRC_OFFSET, n) = Some (h0, off0, xs)"
    and "arg_range op (contents (w_alloc w)) (F_DST, F_DST_OFFSET, n) = Some (h, off, old)"
  shows "\<exists>w'. copy_run env lib op w = (Inr (), w') \<and> dst_written h off xs w w' \<and> counted n n w w'"
proof -
  let ?v = "w\<lparr>w_timer := (w_timer w)\<lparr>tm_profile := False\<rparr>\<rparr>"
  let ?a = "w_alloc w"
  have sim: "prof_sim ?v w" using assms(1) by (simp add: prof_sim_def timer_ok_def)
  have q: "quiet ?v" by (simp add: quiet_def)
  from assms(5) obtain d0 where f0: "required_int op F_SRC = Inr h0" "optional_int op F_SRC_OFFSET 0 = Inr off0"
    and d0: "contents ?a h0 = Some d0" "0 \<le> off0" "0 < n" "off0 + n \<le> int (length d0)" and xs: "xs = py_slice d0 off0 (off0 + n)"
    by (rule arg_range_Some)
  from assms(6) obtain d where f: "required_int op F_DST = Inr h" "optional_int op F_DST_OFFSET 0 = Inr off"
    and d: "contents ?a h = Some d" "0 \<le> off" "off + n \<le> int (length d)" by (rule arg_range_Some)
  have len: "int (length xs) = n" using arg_range_length [OF assms(5)] .
  from read_tensor_ok [OF assms(2) d0(1,2) _ d0(4), of False] d0(3) xs obtain a1 where
    a1: "read_tensor h0 off0 n False ?a = (Inr xs, a1)" "same_shape ?a a1" "contents a1 = contents ?a" by auto
  have inv1: "alloc_inv a1" using a1(2) assms(2) by (rule same_shape_inv)
  from write_tensor_ok [OF inv1, of h d off xs False] d a1(3) len obtain a2 where
    a2: "write_tensor h off xs False a1 = (Inr (), a2)" "same_shape a1 a2"
      "contents a2 = (contents ?a)(h \<mapsto> slice_assign d off (off + n) xs)" by auto
  obtain w1 where w1: "timer_add ''bytes_read'' n (?v\<lparr>w_alloc := a1\<rparr>) = (Inr (), w1)" "w_alloc w1 = a1" "moved n 0 (?v\<lparr>w_alloc := a1\<rparr>) w1"
    by (rule timer_add_run [of "''bytes_read''" n "?v\<lparr>w_alloc := a1\<rparr>"]) auto
  obtain w2 where w2: "timer_add ''bytes_written'' n (w1\<lparr>w_alloc := a2\<rparr>) = (Inr (), w2)" "w_alloc w2 = a2" "moved 0 n (w1\<lparr>w_alloc := a2\<rparr>) w2"
    by (rule timer_add_run [of "''bytes_written''" n "w1\<lparr>w_alloc := a2\<rparr>"]) auto
  have q1: "quiet w1" using w1(3) q by (simp add: moved_def quiet_def)
  have rd: "ps_read env h0 off0 n ?v = (Inr xs, w1)"
    using a1(1) w1(1) q by (simp add: ps_read_def py_simps section_quiet on_alloc_def)
  have wr: "ps_write env h off xs w1 = (Inr (), w2)"
    using a2(1) w1(2) w2(1) q1 len by (simp add: ps_write_def py_simps section_quiet on_alloc_def)
  have "copy_run env lib op ?v = copy_raw env op ?v" using assms(3) by (auto simp: copy_run_def Let_def)
  then have run: "copy_run env lib op ?v = (Inr (), w2)"
    using assms(4) f0 f rd wr by (simp add: copy_raw_def py_simps)
  from prof_agnosticD [OF agnostic_kernels(1) sim run] obtain w' where
    w': "copy_run env lib op w = (Inr (), w')" "prof_sim w2 w'" .
  have "same_shape ?a a2" using a1(2) a2(2) by (rule same_shape_trans)
  with w' w1(3) w2 a2(3) d(1) len show ?thesis by (auto simp: dst_written_def counted_def moved_def prof_sim_def)
qed

text \<open>A raw \<open>COPY\<close> moves the source range to the destination range as one assignment, also when
  the two ranges overlap in one tensor, changes nothing else, and counts its bytes; the ranges may lie in any slabs
  and cross extents.\<close>

lemma copy_moves_bytes:
  assumes "timer_ok (w_timer w)" "alloc_inv (w_alloc w)"
    and "\<not> (py_str env (obj_get op F_SRC0_TYPE (JStr '''')) = ''f32'' \<and> py_str env (obj_get op F_DST_TYPE (JStr '''')) = ''f16'')"
    and "required_int op F_NBYTES = Inr n"
    and "arg_range op (contents (w_alloc w)) (F_SRC, F_SRC_OFFSET, n) = Some (h0, off0, xs)"
    and "arg_range op (contents (w_alloc w)) (F_DST, F_DST_OFFSET, n) = Some (h, off, old)"
  shows "\<exists>w'. copy_run env lib op w = (Inr (), w') \<and> dst_written h off xs w w' \<and> counted n n w w'"
  using copy_run_moves [OF assms] .

lemma copy_moves_bytes_witness:
  "\<exists>w'. copy_run demo_env None demo_copy (demo_world True) = (Inr (), w') \<and>
    dst_written 2 0 [0, 0, 0] (demo_world True) w' \<and> counted 3 3 (demo_world True) w'"
proof -
  have t: "timer_ok (w_timer (demo_world True))" by (simp add: demo_world_def new_timer_def timer_ok_def)
  have i: "alloc_inv (w_alloc (demo_world True))" by (simp add: demo_world_def demo_inv2)
  have ty: "\<not> (py_str demo_env (obj_get demo_copy F_SRC0_TYPE (JStr '''')) = ''f32'' \<and>
      py_str demo_env (obj_get demo_copy F_DST_TYPE (JStr '''')) = ''f16'')" by code_simp
  have n: "required_int demo_copy F_NBYTES = Inr 3" by code_simp
  have s: "arg_range demo_copy (contents (w_alloc (demo_world True))) (F_SRC, F_SRC_OFFSET, 3) = Some (1, 0, [0, 0, 0])"
    and d: "arg_range demo_copy (contents (w_alloc (demo_world True))) (F_DST, F_DST_OFFSET, 3) = Some (2, 0, [0, 0, 0])"
    by code_simp+
  show ?thesis using copy_moves_bytes [OF t i ty n s d] .
qed

section \<open>FLASH_ATTN_EXT\<close>

abbreviation (input) flash_symbol :: string where
  "flash_symbol \<equiv> ''bonsai_flash_attn_ext_f32''"

definition flash_dims :: "string list" where
  "flash_dims = [F_HEAD_DIM_Q, F_HEAD_DIM_V, F_N_HEAD, F_N_HEAD_KV, F_N_KV, F_N_TOKEN]"

text \<open>The op's dimensions survive \<open>c_uint32\<close>.\<close>

definition dims_fit :: "dict \<Rightarrow> bool" where
  "dims_fit op \<longleftrightarrow> list_all (\<lambda>k. case positive_int op k of Inl _ \<Rightarrow> True | Inr n \<Rightarrow> n < 2 ^ 32) flash_dims"

text \<open>The argument words of a call: between 1 and \<open>MAX_FLASH_ATTN_KV\<close> keys and, when \<open>fit\<close>, no empty dimension and a
  number of query heads that is a multiple of that of the KV heads.\<close>

definition call_in_range :: "bool \<Rightarrow> carg list \<Rightarrow> bool" where
  "call_in_range fit args =
     (case drop 14 args of
        [CU32 hq, CU32 hv, CU32 nh, CU32 nhkv, CU32 nkv, CU32 nt, CFloat _] \<Rightarrow>
          0 < nkv \<and> uint nkv \<le> MAX_FLASH_ATTN_KV \<and>
          (fit \<longrightarrow> 0 < hq \<and> 0 < hv \<and> 0 < nh \<and> 0 < nhkv \<and> 0 < nt \<and> nh mod nhkv = 0)
      | _ \<Rightarrow> False)"

definition flash_rejects :: "pyenv \<Rightarrow> dict \<Rightarrow> bool" where
  "flash_rejects env op \<longleftrightarrow>
     list_ex (\<lambda>k. isl (positive_int op k)) flash_dims \<or>
     (case positive_int op F_N_KV of Inl _ \<Rightarrow> False | Inr n \<Rightarrow> MAX_FLASH_ATTN_KV < n) \<or>
     (case (positive_int op F_N_HEAD, positive_int op F_N_HEAD_KV) of (Inr n, Inr m) \<Rightarrow> n mod m \<noteq> 0 | _ \<Rightarrow> False) \<or>
     (case obj_float_or env op F_MAX_BIAS FLOAT_0 of Inl _ \<Rightarrow> True | Inr x \<Rightarrow> \<not> float_is_zero x) \<or>
     (case obj_float_or env op F_LOGIT_SOFTCAP FLOAT_0 of Inl _ \<Rightarrow> True | Inr x \<Rightarrow> \<not> float_is_zero x)"

lemma flash_parse_dims:
  assumes "flash_parse env op = Inr p"
  obtains hq hv nh nhkv nkv nt where "fa_dims p = [hq, hv, nh, nhkv, nkv, nt]"
    "positive_int op F_HEAD_DIM_Q = Inr hq" "positive_int op F_HEAD_DIM_V = Inr hv" "positive_int op F_N_HEAD = Inr nh"
    "positive_int op F_N_HEAD_KV = Inr nhkv" "positive_int op F_N_KV = Inr nkv" "positive_int op F_N_TOKEN = Inr nt"
    "nkv \<le> MAX_FLASH_ATTN_KV" "nh mod nhkv = 0"
    "\<exists>x. obj_float_or env op F_MAX_BIAS FLOAT_0 = Inr x \<and> float_is_zero x"
    "\<exists>x. obj_float_or env op F_LOGIT_SOFTCAP FLOAT_0 = Inr x \<and> float_is_zero x"
  using assms by (auto simp: flash_parse_def flash_layout_def bindR_eq_Inr Let_def split: if_splits)

lemma uint_of_int_word: "0 \<le> n \<Longrightarrow> n < 2 ^ 32 \<Longrightarrow> uint (word_of_int n :: 32 word) = n"
  by (simp add: word_of_int_inverse)

lemma flash_args_in_range:
  assumes "flash_parse env op = Inr p"
  shows "call_in_range (dims_fit op) (flash_args p ps)"
proof -
  from assms obtain hq hv nh nhkv nkv nt where d: "fa_dims p = [hq, hv, nh, nhkv, nkv, nt]"
    and i: "positive_int op F_HEAD_DIM_Q = Inr hq" "positive_int op F_HEAD_DIM_V = Inr hv" "positive_int op F_N_HEAD = Inr nh"
      "positive_int op F_N_HEAD_KV = Inr nhkv" "positive_int op F_N_KV = Inr nkv" "positive_int op F_N_TOKEN = Inr nt"
    and g: "nkv \<le> MAX_FLASH_ATTN_KV" "nh mod nhkv = 0" by (rule flash_parse_dims)
  note pos = i [THEN positive_int_pos]
  have w: "0 < (word_of_int n :: 32 word) \<and> uint (word_of_int n :: 32 word) = n" if "0 < n" "n < 2 ^ 32" for n
    using that by (simp add: word_less_def uint_of_int_word)
  have "dims_fit op \<Longrightarrow> hq < 2 ^ 32 \<and> hv < 2 ^ 32 \<and> nh < 2 ^ 32 \<and> nhkv < 2 ^ 32 \<and> nt < 2 ^ 32"
    using i by (simp add: dims_fit_def flash_dims_def)
  moreover have "(word_of_int nh :: 32 word) mod word_of_int nhkv = 0" if "nh < 2 ^ 32" "nhkv < 2 ^ 32"
    using that g(2) pos w [of nh] w [of nhkv] by (simp add: word_mod_def)
  ultimately show ?thesis
    using w pos g(1) by (simp add: call_in_range_def flash_args_def d MAX_FLASH_ATTN_KV_def)
qed

lemma flash_rejected: "flash_rejects env op \<Longrightarrow> \<exists>e. flash_parse env op = Inl e"
  by (cases "flash_parse env op") (auto elim!: flash_parse_dims simp: flash_rejects_def flash_dims_def)

text \<open>C29: what reaches the attention entry point of the C library.  An op with a dimension that is not positive, more
  than \<open>MAX_FLASH_ATTN_KV\<close> keys, a number of query heads that is not a multiple of that of the KV heads, an ALiBi bias
  or a soft cap raises before a pointer is resolved, and the world is as before.  For every other op, the words that arrive
  in C as arguments have between 1 and 1024 keys; and if the op's dimensions are below \<open>2 ^ 32\<close>, the bound that \<open>c_uint32\<close>
  does not check, no dimension arrives as zero and the query heads are a multiple of the KV heads.  Said of the library: two
  libraries that agree on the calls with such arguments cannot be told apart.\<close>

theorem flash_guards:
  fixes w :: "'e ps_world"
  assumes "\<And>args m. call_in_range (dims_fit op) args \<Longrightarrow> cl_call lib flash_symbol args m = cl_call lib' flash_symbol args m"
  shows "flash_run env palloc lib op w = flash_run env palloc lib' op w \<and>
    (flash_rejects env op \<longrightarrow> (\<exists>e. flash_run env palloc lib op w = (Inl e, w)))"
proof (cases "flash_parse env op")
  case (Inl e)
  then show ?thesis by (simp add: flash_run_def py_simps)
next
  case (Inr p)
  have "checked_call lib flash_symbol (flash_args p ps) bufs = (checked_call lib' flash_symbol (flash_args p ps) bufs :: ('e ps_world, _) py)" for ps bufs
    using assms [OF flash_args_in_range [OF Inr]] by (intro ext) (simp add: checked_call_def call_native_def py_simps)
  moreover have "py_read (Inr p) f = f p" for f :: "flash_params \<Rightarrow> ('e ps_world, unit) py" by (intro ext) (simp add: py_bind_run)
  ultimately show ?thesis using Inr by (auto simp: flash_run_def dest!: flash_rejected)
qed

definition demo_flash :: "int \<Rightarrow> int \<Rightarrow> dict" where
  "demo_flash heads nkv = [(F_HEAD_DIM_Q, JInt 1), (F_HEAD_DIM_V, JInt 1), (F_N_HEAD, JInt heads), (F_N_HEAD_KV, JInt 1), (F_N_KV, JInt nkv),
     (F_N_TOKEN, JInt 1), (F_Q_NB1, JInt 1), (F_Q_NB2, JInt 0), (F_K_NB1, JInt 1), (F_K_NB2, JInt 0), (F_V_NB1, JInt 1), (F_V_NB2, JInt 0),
     (F_DST_NB1, JInt 0), (F_DST_NB2, JInt 1), (F_SRC0, JInt 2), (F_K_TENSOR, JInt 2), (F_V_TENSOR, JInt 2), (F_DST, JInt 2)]"

text \<open>A library that refuses every call but those in range.\<close>

definition strict_lib :: clib where
  "strict_lib = \<lparr>cl_has = (\<lambda>_. True), cl_call = (\<lambda>symb args m. (if call_in_range True args then 0 else - 2, m))\<rparr>"

theorem flash_guards_witness:
  "fst (flash_run demo_env demo_palloc strict_lib (demo_flash 2 3) (demo_world False)) = Inr () \<and>
   (\<exists>e. flash_run demo_env demo_palloc strict_lib (demo_flash 2 1025) (demo_world False) = (Inl e, demo_world False))"
proof -
  have fit: "dims_fit (demo_flash 2 3)" "dims_fit (demo_flash 2 1025)" "flash_rejects demo_env (demo_flash 2 1025)" by code_simp+
  have lib: "cl_call strict_lib flash_symbol args m = cl_call idle_lib flash_symbol args m" if "dims_fit op" "call_in_range (dims_fit op) args" for op args m
    using that by (simp add: strict_lib_def idle_lib_def)
  note use_lib = flash_guards [of _ strict_lib idle_lib demo_env demo_palloc "demo_world False"]
  have "fst (flash_run demo_env demo_palloc idle_lib (demo_flash 2 3) (demo_world False)) = Inr ()" by code_simp
  moreover have "flash_run demo_env demo_palloc strict_lib (demo_flash 2 3) (demo_world False) =
      flash_run demo_env demo_palloc idle_lib (demo_flash 2 3) (demo_world False)"
    using use_lib [OF lib [OF fit(1)]] by blast
  moreover have "\<exists>e. flash_run demo_env demo_palloc strict_lib (demo_flash 2 1025) (demo_world False) = (Inl e, demo_world False)"
    using use_lib [OF lib [OF fit(2)]] fit(3) by blast
  ultimately show ?thesis by simp
qed

text \<open>A number of heads of \<open>2 ^ 32 + 2\<close> passes the guards and arrives in C as two heads.\<close>

lemma flash_heads_wrap:
  "\<exists>p. flash_parse demo_env (demo_flash (2 ^ 32 + 2) 3) = Inr p \<and> fa_dims p ! 2 = 2 ^ 32 + 2 \<and> flash_args p ps ! 16 = CU32 2"
proof -
  have "case flash_parse demo_env (demo_flash (2 ^ 32 + 2) 3) of Inl _ \<Rightarrow> False
    | Inr p \<Rightarrow> fa_dims p = [1, 1, 2 ^ 32 + 2, 1, 3, 1]" by code_simp
  then show ?thesis by (auto simp: flash_args_def split: sum.splits)
qed

end
