(* ===== verification/PlDemo.thy ===== *)
theory PlDemo
  imports MatmulTop PsProps
begin

text \<open>
  A concrete board for the witnesses of the PL drivers: a C library and a kernel that satisfy the device
  contract, one slab with a tensor that holds weights, activations and results, and a driver that has never run.
\<close>

section \<open>A device\<close>

type_synonym demo_hw = "(int \<times> int \<times> int \<times> int \<times> int) option"

definition demo_Q :: "byte list \<Rightarrow> byte list \<times> byte list" where
  "demo_Q bs = (take (length bs div 4) bs, replicate (length bs div 64) 0)"

definition demo_G :: "byte list \<Rightarrow> byte list \<Rightarrow> byte list" where
  "demo_G w a = take 32 (w @ replicate 32 0)"

definition demo_quantize :: "carg list \<Rightarrow> demo_hw pl_mem \<Rightarrow> int \<times> demo_hw pl_mem" where
  "demo_quantize args m =
     (case args of
        [CPtr (PVa a), CU32 k, q, s] \<Rightarrow>
          (case mem_load va_at m a (uint k * 4) of
             None \<Rightarrow> (1, m)
           | Some bs \<Rightarrow> (0, m\<lparr>pm_bufs := [fst (demo_Q bs), snd (demo_Q bs)]\<rparr>))
      | _ \<Rightarrow> (1, m))"

definition demo_pack :: "carg list \<Rightarrow> demo_hw pl_mem \<Rightarrow> int \<times> demo_hw pl_mem" where
  "demo_pack args m =
     (case args of
        [q', s', CU32 k, CPtr (PVa va)] \<Rightarrow>
          (case pm_bufs m of
             [q, s] \<Rightarrow> (case pack_acts q s (uint k) of Inl e \<Rightarrow> (1, m) | Inr out \<Rightarrow> (0, mem_store va_at m va out))
           | _ \<Rightarrow> (1, m))
      | _ \<Rightarrow> (1, m))"

definition demo_start :: "carg list \<Rightarrow> demo_hw pl_mem \<Rightarrow> int \<times> demo_hw pl_mem" where
  "demo_start args m =
     (case args of
        [k, w, a, CU32 wpa, wn, CU32 apa, an, CU32 rpa, rn, CU32 nq, CU32 nrb] \<Rightarrow>
          (0, m\<lparr>pm_hw := Some (uint wpa, uint apa, uint rpa, uint nq, uint nrb)\<rparr>)
      | _ \<Rightarrow> (1, m))"

definition demo_wait :: "demo_hw pl_mem \<Rightarrow> int \<times> demo_hw pl_mem" where
  "demo_wait m =
     (case pm_hw m of
        None \<Rightarrow> (1, m)
      | Some (wpa, apa, rpa, nq, nrb) \<Rightarrow>
          (case (mem_load phys_at m wpa (nrb * (nq * 144)), mem_load phys_at m apa (nq * 160)) of
             (Some wb, Some ab) \<Rightarrow> (0, (mem_store phys_at m rpa (rowblocks_out demo_G (nq * 144) nrb wb ab))\<lparr>pm_hw := None, pm_bufs := [[9, 0, 0, 0]]\<rparr>)
           | _ \<Rightarrow> (1, m)))"

definition demo_pl_lib :: "demo_hw pl_lib" where
  "demo_pl_lib = \<lparr>cl_has = (\<lambda>_. True), cl_call = (\<lambda>_ _ m. (0, m)),
     cl_pl_call = (\<lambda>symb args m.
       if symb = ''bonsai_quantize_q8_0_pl'' then demo_quantize args m
       else if symb = ''bonsai_q1a8_pack_acts'' then demo_pack args m
       else if symb = ''bonsai_q1a8_start_matmul_chunk'' then demo_start args m
       else if symb = ''bonsai_q1a8_wait_matmul_chunk'' then demo_wait m
       else (1, m))\<rparr>"

lemma u32_uint: "u32 n \<Longrightarrow> uint (word_of_int n :: 32 word) = n"
  by (simp add: u32_def uint_word_of_int take_bit_int_eq_self)

text \<open>Addresses do not depend on the buffers of a call or on the hardware.\<close>

lemma mem_hw [simp]:
  "cells_at (m\<lparr>pm_hw := x\<rparr>) p = cells_at m p" "cells_at (m\<lparr>pm_bufs := b\<rparr>) p = cells_at m p"
  "phys_at (m\<lparr>pm_hw := x\<rparr>) p = phys_at m p" "phys_at (m\<lparr>pm_bufs := b\<rparr>) p = phys_at m p"
  "places (m\<lparr>pm_hw := x\<rparr>) = places m" "places (m\<lparr>pm_bufs := b\<rparr>) = places m"
  by (cases p; simp add: places_def)+

lemma holds_hw [simp]:
  "holds phys_at (m\<lparr>pm_hw := x\<rparr>) = holds phys_at m" "holds phys_at (m\<lparr>pm_bufs := b\<rparr>) = holds phys_at m"
  by (simp_all add: holds_def fun_eq_iff split: option.split)

lemma mem_load_hw [simp]:
  "mem_load phys_at (m\<lparr>pm_hw := x\<rparr>) a n = mem_load phys_at m a n" "mem_load phys_at (m\<lparr>pm_bufs := b\<rparr>) a n = mem_load phys_at m a n"
  by (simp_all add: mem_load_def find_place_def)

lemma set_at_hw: "(set_at p c (m\<lparr>pm_hw := x, pm_bufs := b\<rparr>))\<lparr>pm_hw := y, pm_bufs := d\<rparr> = (set_at p c m)\<lparr>pm_hw := y, pm_bufs := d\<rparr>"
  by (cases p) (auto split: option.splits)

lemma mem_store_hw: "(mem_store phys_at (m\<lparr>pm_hw := x, pm_bufs := b\<rparr>) a bs)\<lparr>pm_hw := y, pm_bufs := d\<rparr> =
    (mem_store phys_at m a bs)\<lparr>pm_hw := y, pm_bufs := d\<rparr>"
  by (simp add: mem_store_def find_place_def set_at_hw split: option.splits)

lemma mem_load_length: "mem_load base m a n = Some bs \<Longrightarrow> 0 \<le> n \<Longrightarrow> int (length bs) = n"
proof -
  assume a: "mem_load base m a n = Some bs" "0 \<le> n"
  then obtain p where p: "List.find (holds base m a n) (places m) = Some p" "bs = py_slice (cells_at m p) (a - the (base m p)) (a - the (base m p) + n)"
    by (auto simp: mem_load_def find_place_def)
  then have "holds base m a n p" by (auto simp: find_Some_iff)
  then show ?thesis using p(2) a(2) length_py_slice [of "a - the (base m p)" "a - the (base m p) + n" "cells_at m p"]
    by (auto simp: holds_def split: option.splits)
qed

lemma demo_quantizes: "quantizes demo_pl_lib demo_Q"
  unfolding quantizes_def
proof (intro allI impI)
  fix m :: "demo_hw pl_mem" and a k bs
  assume k: "0 < k" "u32 k" "k mod 32 = 0" and b: "length (pm_bufs m) = 2" and l: "mem_load va_at m a (k * 4) = Some bs"
  have len: "length bs = nat (k * 4)" using mem_load_length [OF l] k(1) by simp
  obtain j where j: "k = 32 * j" using k(3) by (auto simp: mod_eq_0_iff_dvd elim!: dvdE)
  then have "int (length (fst (demo_Q bs))) = k" "int (length (snd (demo_Q bs))) = k div 32 * 2"
    using len k(1) by (simp_all add: demo_Q_def nat_mult_distrib zdiv_int)
  moreover have "cl_pl_call demo_pl_lib ''bonsai_quantize_q8_0_pl'' [CPtr (PVa a), c_uint32 k, CPtr (PBuf 0 0), CPtr (PBuf 1 0)] m =
       (0, m\<lparr>pm_bufs := [fst (demo_Q bs), snd (demo_Q bs)]\<rparr>)"
    using l u32_uint [OF k(2)] by (simp add: demo_pl_lib_def demo_quantize_def)
  ultimately show "int (length (fst (demo_Q bs))) = k \<and> int (length (snd (demo_Q bs))) = k div 32 * 2 \<and>
     cl_pl_call demo_pl_lib ''bonsai_quantize_q8_0_pl'' [CPtr (PVa a), c_uint32 k, CPtr (PBuf 0 0), CPtr (PBuf 1 0)] m =
       (0, m\<lparr>pm_bufs := [fst (demo_Q bs), snd (demo_Q bs)]\<rparr>)" by simp
qed

lemma demo_packs: "packs demo_pl_lib"
  unfolding packs_def by (auto simp: demo_pl_lib_def demo_pack_def u32_uint)

lemma demo_runs_chunks: "runs_chunks demo_pl_lib kr wr ar demo_G"
  unfolding runs_chunks_def
proof (intro conjI allI impI)
  show "length (demo_G x y) = 32" for x y by (simp add: demo_G_def)
  fix m :: "demo_hw pl_mem" and wpa apa rpa nq nrb wb ab
  assume pos: "0 < nq" "0 < nrb" and u: "u32 wpa" "u32 apa" "u32 rpa" "u32 (nrb * (nq * 144))" "u32 (nq * 160)" and b: "pm_bufs m = []"
    and l: "mem_load phys_at m wpa (nrb * (nq * 144)) = Some wb" "mem_load phys_at m apa (nq * 160) = Some ab"
  have "nrb * 1 \<le> nrb * (nq * 144)" using pos by (intro mult_left_mono) simp_all
  then have un: "u32 nrb" "u32 nq" using u(4,5) pos unfolding u32_def by linarith+
  show "\<exists>hw1 hw2 cyc.
     cl_pl_call demo_pl_lib ''bonsai_q1a8_start_matmul_chunk''
       [CPtr (PVa kr), CPtr (PVa wr), CPtr (PVa ar), c_uint32 wpa, c_uint32 (nrb * (nq * 144)), c_uint32 apa, c_uint32 (nq * 160),
        c_uint32 rpa, c_uint32 (nrb * 32), c_uint32 nq, c_uint32 nrb] m = (0, m\<lparr>pm_hw := hw1\<rparr>) \<and>
     cl_pl_call demo_pl_lib ''bonsai_q1a8_wait_matmul_chunk'' [CPtr (PVa kr), CPtr (PVa wr), CPtr (PVa ar), c_uint32 POLL_LIMIT, CPtr (PBuf 0 0)]
       (m\<lparr>pm_hw := hw1, pm_bufs := [[0, 0, 0, 0]]\<rparr>) =
       (0, (mem_store phys_at m rpa (rowblocks_out demo_G (nq * 144) nrb wb ab))\<lparr>pm_hw := hw2, pm_bufs := [cyc]\<rparr>)"
    using l u(1,2,3) un
    by (intro exI [of _ "Some (wpa, apa, rpa, nq, nrb)"] exI [of _ None] exI [of _ "[9, 0, 0, 0]"])
       (simp add: demo_pl_lib_def demo_start_def demo_wait_def u32_uint mem_store_hw)
qed

section \<open>A board\<close>

definition demo_pl_slabs :: "slab list" where
  "demo_pl_slabs =
     [\<lparr>kind = PynqSlab, slab_size = 512, physical_address = 0x10000000, base_va = Some 0x40000000, buf = map word_of_nat [0..<512], cache_ops = []\<rparr>,
      \<lparr>kind = PynqSlab, slab_size = 512, physical_address = 0x10000200, base_va = Some 0x40000200, buf = map word_of_nat [0..<512], cache_ops = []\<rparr>]"

text \<open>One tensor of 688 bytes in two extents: 144 of weights, 512 of activations across the boundary, 32 of results.\<close>

definition demo_pl_record :: tensor_record where
  "demo_pl_record = \<lparr>tr_handle = 1, tr_nbytes = 688, tr_shape = [], tr_dtype = ''i8'', tr_usage = ''any'', tr_layout = ''ggml'',
     tr_extents = [\<lparr>ext_slab = 0, ext_offset = 0, ext_nbytes = 512\<rparr>, \<lparr>ext_slab = 1, ext_offset = 0, ext_nbytes = 176\<rparr>]\<rparr>"

definition demo_pl_empty :: allocator where
  "demo_pl_empty = \<lparr>al_slabs = demo_pl_slabs, al_free = [[(0, 512)], [(0, 512)]], al_records = [], al_next_handle = 1, al_default_alignment = 64\<rparr>"

definition demo_pl_alloc :: allocator where
  "demo_pl_alloc = demo_pl_empty\<lparr>al_free := [[], [(176, 336)]], al_next_handle := 2, al_records := [(1, demo_pl_record)]\<rparr>"

lemma demo_pl_inv: "alloc_inv demo_pl_alloc"
proof -
  have "new_allocator demo_pl_slabs 64 = Inr demo_pl_empty" by (simp add: new_allocator_def demo_pl_empty_def demo_pl_slabs_def)
  then have i: "alloc_inv demo_pl_empty" by (rule new_allocator_inv [rotated]) (simp add: demo_pl_slabs_def)
  have "allocate 688 [] ''i8'' ''any'' ''ggml'' None demo_pl_empty = (Inr demo_pl_record, demo_pl_alloc)"
    by (simp add: allocate_def place_def place_single_def place_multi_def demo_pl_empty_def fill_slab_unfold
      align_up_def split_block_def Let_def add_record_def demo_pl_record_def demo_pl_alloc_def py_simps)
  then show ?thesis by (rule allocate_inv [OF i])
qed

definition demo_pl_bytes :: "byte list" where
  "demo_pl_bytes = map word_of_nat [0..<512] @ map word_of_nat [0..<176]"

lemma map_mem_run: "i < length slabs \<Longrightarrow> n \<le> length (buf (slabs ! i)) \<Longrightarrow> map (mem slabs) (run_addrs i 0 n) = take n (buf (slabs ! i))"
  by (rule nth_equalityI) (simp_all add: run_addrs_nth mem_def)

lemma demo_pl_contents: "contents demo_pl_alloc 1 = Some demo_pl_bytes"
proof -
  have "length demo_pl_slabs = 2" "buf (demo_pl_slabs ! 0) = map word_of_nat [0..<512]" "buf (demo_pl_slabs ! 1) = map word_of_nat [0..<512]"
    by (simp_all add: demo_pl_slabs_def)
  then have "map (mem demo_pl_slabs) (run_addrs 0 0 512) = map word_of_nat [0..<512]"
    "map (mem demo_pl_slabs) (run_addrs 1 0 176) = map word_of_nat [0..<176]"
    using map_mem_run [of 0 demo_pl_slabs 512] map_mem_run [of 1 demo_pl_slabs 176] by (simp_all add: take_map)
  then show ?thesis by (simp add: contents_def demo_pl_alloc_def demo_pl_empty_def demo_pl_record_def ext_addrs_def demo_pl_bytes_def)
qed

definition demo_pl_palloc :: pynq_allocate where
  "demo_pl_palloc c n =
     (if 0 \<le> n \<and> n \<le> 0x100000 \<and> c < 1000
      then Inr (0x20000000 + int c * 0x100000, 0x60000000 + int c * 0x100000, replicate (nat n) 0) else Inl RuntimeError)"

definition demo_overlay :: "demo_hw overlay" where
  "demo_overlay = \<lparr>ov_ip_dict = Some [(''axi_dma_0'', [(''phys_addr'', JInt 0x40400000), (''addr_range'', JInt 65536)]),
        (''axi_dma_1'', [(''phys_addr'', JInt 0x40410000), (''addr_range'', JInt 65536)])],
     ov_attrs = [''axi_dma_0'', ''axi_dma_1'', ''q1a8_kernel_top_0''], ov_kernel_mmio = Some 0x43C00000,
     ov_mmio = (\<lambda>pa rng. case pa of JInt n \<Rightarrow> Inr n | _ \<Rightarrow> Inl TypeError),
     ov_read = (\<lambda>off hw. RegInt (if off = REG_ID then EXPECTED_ID else if off = REG_VERSION then EXPECTED_VERSION else 8)),
     ov_dma = (\<lambda>cmd slabs hw. (Inr (), slabs, hw))\<rparr>"

definition demo_pl_host :: "demo_hw pl_host" where
  "demo_pl_host = \<lparr>ph_palloc = demo_pl_palloc, ph_files = (\<lambda>p. if p = ''libbonsai_ps.so'' then Some demo_pl_lib else None),
     ph_overlay = demo_overlay, ph_uninit = (\<lambda>_. 0)\<rparr>"

definition demo_pl_world :: "bool \<Rightarrow> demo_hw pl_world" where
  "demo_pl_world prof = \<lparr>w_alloc = demo_pl_alloc, w_timer = new_timer JNull prof, w_ticks = 0, w_sink = prof, w_log = [],
     w_dev = new_pl_state None\<rparr>"

definition demo_matmul :: "int \<Rightarrow> dict" where
  "demo_matmul rows = [(F_OP, JStr GOP_MATMUL_Q1A8), (F_ROWS, JInt rows), (F_COLS, JInt 1), (F_K, JInt 128), (F_WEIGHTS, JInt 1),
     (F_ACTS, JInt 1), (F_ACTS_OFFSET, JInt 144), (F_DST, JInt 1), (F_DST_OFFSET, JInt 656)]"

lemma demo_pl_places:
  "phys_at (pl_view (demo_pl_world b) []) p = (case p of InSlab 0 \<Rightarrow> Some 0x10000000 | InSlab (Suc 0) \<Rightarrow> Some 0x10000200 | _ \<Rightarrow> None)"
  "va_at (pl_view (demo_pl_world b) []) p = (case p of InSlab 0 \<Rightarrow> Some 0x40000000 | InSlab (Suc 0) \<Rightarrow> Some 0x40000200 | _ \<Rightarrow> None)"
  "length (cells_at (pl_view (demo_pl_world b) []) p) = (case p of InSlab 0 \<Rightarrow> 512 | InSlab (Suc 0) \<Rightarrow> 512 | _ \<Rightarrow> 0)"
  by (auto simp: demo_pl_world_def demo_pl_alloc_def demo_pl_empty_def demo_pl_slabs_def new_pl_state_def nth_Cons less_Suc_eq split: place.splits nat.splits)

lemma demo_overlay_ok: "overlay_ok demo_pl_host demo_pl_lib 0x43C00000 0x40400000 0x40410000"
  by (simp add: overlay_ok_def demo_pl_host_def load_lib_def bind_native_def pl_symbols_def demo_pl_lib_def demo_overlay_def
      open_dma_mmio_def obj_index_def REG_ID_def REG_VERSION_def REG_ROWS_def)

lemma demo_driver: "driver_ok demo_pl_host demo_pl_lib 0x43C00000 0x40400000 0x40410000 (demo_pl_world False)"
proof -
  have "spread phys_at (pl_view (demo_pl_world False) [])" "spread va_at (pl_view (demo_pl_world False) [])"
    unfolding spread_def demo_pl_places by (auto split: place.splits nat.splits)
  moreover have "\<forall>p b. phys_at (pl_view (demo_pl_world False) []) p = Some b \<longrightarrow>
      0 < b \<and> b + int (length (cells_at (pl_view (demo_pl_world False) []) p)) \<le> 2 ^ 32"
    unfolding demo_pl_places by (auto split: place.splits nat.splits)
  ultimately have "mem_sane (demo_pl_world False)"
    unfolding mem_sane_def using demo_pl_inv
    by (simp add: quiet_def demo_pl_world_def new_timer_def demo_pl_alloc_def demo_pl_empty_def demo_pl_slabs_def)
  moreover have "fresh_from demo_pl_palloc (demo_pl_world False)"
    unfolding fresh_from_def demo_pl_places
    by (auto simp: demo_pl_palloc_def apart_ranges_def split: place.splits nat.splits if_splits)
  moreover have "w_dev (demo_pl_world False) = new_pl_state None" by (simp add: demo_pl_world_def)
  ultimately show ?thesis using demo_overlay_ok by (simp add: driver_ok_def pl_sane_def new_pl_state_def demo_pl_host_def)
qed

end
