(* ===== verification/MatmulAsync.thy ===== *)
theory MatmulAsync
  imports MatmulTop
begin

text \<open>
  The asynchronous matmul: \<open>run_async\<close> either runs the call to its end, or leaves the kernel streaming and returns
  what \<open>complete\<close> needs to finish it.
\<close>

section \<open>The issue\<close>

text \<open>The state after the lazy initialisation.\<close>

definition set_up :: "'h pl_host \<Rightarrow> 'h pl_lib \<Rightarrow> int \<Rightarrow> int \<Rightarrow> int \<Rightarrow> 'h pl_world \<Rightarrow> bool" where
  "set_up host lib kr wr ar w \<longleftrightarrow> pl_sane (ph_palloc host) w \<and> ready host lib kr wr ar w"

lemma set_up_kept: "set_up host lib kr wr ar w \<Longrightarrow> pl_kept w w' \<Longrightarrow> set_up host lib kr wr ar w'"
  by (auto simp: set_up_def intro: pl_sane_kept ready_kept)

lemma set_up_driver: "set_up host lib kr wr ar w \<Longrightarrow> overlay_ok host lib kr wr ar \<Longrightarrow> driver_ok host lib kr wr ar w"
  by (simp add: set_up_def driver_ok_def ready_def)

lemma set_up_grown:
  assumes "set_up host lib kr wr ar w" "pl_sane (ph_palloc host) w'" "grown role w w'"
  shows "set_up host lib kr wr ar w'"
  using assms by (simp add: set_up_def pl_sane_def ready_def grown_def)

text \<open>What \<open>issue_matmul\<close> does up to the start of the kernel: the stream of the only column is in the buffer of the activations.\<close>

lemma issue_prefix_ok:
  assumes su: "set_up host lib kr wr ar w" and dev: "quantizes lib Q" "packs lib"
    and call: "matmul_call op rows 1 nq wh woff ah aoff dh doff"
    and acts: "has_range w ah aoff acts" "int (length acts) = nq * 128 * 4" and rm: "room host rows 1 nq (w_dev w)"
    and one: "max_rowblocks_per_chunk ((rows + 7) div 8) (nq * 144) = (rows + 7) div 8"
  obtains ab wn w' where
    "issue_matmul env host op rows (nq * 128) (nq * 144) 8 ((rows + 7) div 8) wh woff dh doff (i, y, rpa) w =
       py_bind (timer_section env ''compute''
           (run_matmul_dual_stream env host wh woff ((rows + 7) div 8 * (nq * 144)) (nq * 160) rpa (rows * 4) nq ((rows + 7) div 8) True)) (\<lambda>out_cycles.
         py_ret (Some \<lparr>p_dst_handle = dh, p_dst_lo = doff, p_dst_hi = doff + rows * 4,
           p_data = \<lparr>pp_out_cycles = out_cycles, pp_dst_slab = i, pp_dst_abs = y, pp_dst_nbytes = rows * 4, pp_weight_nbytes = wn,
             pp_acts_nbytes = nq * 160, pp_rowblocks = (rows + 7) div 8, pp_rows_per_block = 8\<rparr>\<rparr>)) w'"
    "set_up host lib kr wr ar w'" "same_shape (w_alloc w) (w_alloc w')" "contents (w_alloc w') = contents (w_alloc w)"
    "has_buf WeightsDmaBuf ((rows + 7) div 8 * (nq * 144)) (w_dev w')"
    "map_of (pl_cma (w_dev w')) ActsBuf = Some ab" "nq * 160 \<le> int (length (cb_cells ab))"
    "py_slice (cb_cells ab) 0 (nq * 160) = column_stream Q (nq * 128) acts"
proof -
  let ?n = "nq * 128 * 4" and ?k = "nq * 128" and ?rb = "(rows + 7) div 8"
  have s: "pl_sane (ph_palloc host) w" using su by (simp add: set_up_def)
  have c: "required_int op F_ACTS = Inr ah" "optional_int op F_ACTS_OFFSET 0 = Inr aoff" and pos: "0 < rows" "0 < nq" and u: "u32 ?k"
    using call by (simp_all add: matmul_call_def)
  let ?lim = "scratch_count (w_dev w) + 4"
  have g: "granted (ph_palloc host) ?lim ActsInScratch ?n (w_dev w)" "granted (ph_palloc host) ?lim ActsBuf (nq * 160) (w_dev w)"
      "granted (ph_palloc host) ?lim WeightsDmaBuf (?rb * (nq * 144)) (w_dev w)" "granted (ph_palloc host) ?lim ResultBuf (?rb * 32) (w_dev w)"
    using rm by (simp_all add: room_def Let_def one)
  have pn: "0 < nq * 160" "0 < ?rb * (nq * 144)" "0 < ?rb * 32" using pos max_rowblocks_pos [OF pos(1), of "nq * 144"] one by simp_all
  obtain w1 where w1: "add_shape rows 1 ?k w = (Inr (), w1)" "timed w w1" using timed_counts(1) by blast
  note t1 = timed_kept [OF w1(2)]
  have su1: "set_up host lib kr wr ar w1" using su t1(1) by (rule set_up_kept)
  from acts(1) obtain d where d: "contents (w_alloc w) ah = Some d" "0 \<le> aoff" "aoff + ?n \<le> int (length d)" "py_slice d aoff (aoff + ?n) = acts"
    unfolding acts(2) [symmetric] by (auto simp: has_range_def)
  obtain addr w2 w3 where w3: "resolve_slab_pointer host ah aoff ?n ''acts'' w1 = (Inr addr, w3)" "grown ActsInScratch w1 w2" "pl_kept w2 w3"
    "pl_sane (ph_palloc host) w3" "acts_at ah aoff acts addr w3" "contents (w_alloc w3) = contents (w_alloc w)"
    by (rule acts_addr_ok [of host w1 ah d aoff ?n ?lim]) (use su1 d g(1) t1 pos(2) in \<open>simp_all add: set_up_def\<close>)
  have "w_alloc w2 = w_alloc w1" using w3(2) by (simp add: grown_def)
  then have sh3: "same_shape (w_alloc w) (w_alloc w3)" using w3(3) t1(2) by (simp add: pl_kept_def)
  have r3: "ready host lib kr wr ar w3"
    using su1 w3(2-4) by (simp add: set_up_def ready_def pl_sane_def grown_def pl_kept_def same_dev_def)
  obtain w4 where w4: "timer_add ''bytes_read'' (?rb * nq * 144 + ?k * 4) w3 = (Inr (), w4)" "timed w3 w4" using timed_add by blast
  note t4 = timed_kept [OF w4(2)]
  have s4: "pl_sane (ph_palloc host) w4" using pl_sane_kept [OF w3(4) t4(1)] .
  have g4: "granted (ph_palloc host) ?lim r m (w_dev w4)" if "granted (ph_palloc host) ?lim r m (w_dev w)" "r \<noteq> ActsInScratch" for r m
    using granted_kept [OF pl_kept_trans [OF w3(3) t4(1)] granted_grown [OF w3(2) that(2)]] that(1) t1 by simp
  have lim: "scratch_count (w_dev w4) + 3 \<le> ?lim"
    using w3(2,3) t1(3) t4(3) by (simp add: grown_def pl_kept_def same_dev_def)
  obtain w5 where w5: "on_dev (ensure_buffers host (nq * 160) (?rb * (nq * 144)) (?rb * 32)) w4 = (Inr (), w5)" "pl_sane (ph_palloc host) w5"
    "has_buf ActsBuf (nq * 160) (w_dev w5)" "has_buf WeightsDmaBuf (?rb * (nq * 144)) (w_dev w5)"
    "w_alloc w5 = w_alloc w4" "map_of (pl_cma (w_dev w5)) ActsInScratch = map_of (pl_cma (w_dev w4)) ActsInScratch"
    "pl_bound (w_dev w5) = pl_bound (w_dev w4)" "pl_kernel_regs (w_dev w5) = pl_kernel_regs (w_dev w4)"
    "pl_dma_w_regs (w_dev w5) = pl_dma_w_regs (w_dev w4)" "pl_dma_a_regs (w_dev w5) = pl_dma_a_regs (w_dev w4)"
    by (rule ensure_buffers_ok [OF s4 pn lim g4 [OF g(2)] g4 [OF g(3)] g4 [OF g(4)]]) simp_all
  have r5: "ready host lib kr wr ar w5" using r3 w5(2,7-10) t4(3) by (simp add: ready_def pl_sane_def)
  have at5: "acts_at ah aoff acts addr w5" using w3(5) w5(5,6) t4(2,3) by (simp add: acts_at_def has_range_def)
  from w5(3) obtain b where b: "map_of (pl_cma (w_dev w5)) ActsBuf = Some b" "nq * 160 \<le> int (length (cb_cells b))" by (auto simp: has_buf_def)
  let ?bufs = "[np_empty host ?k, np_empty host (2 * (?k div Q8_BLOCK))]"
  let ?q = "fst (Q acts)" and ?s = "snd (Q acts)" and ?stream = "column_stream Q ?k acts"
  have "py_slice acts 0 ?n = acts" using acts(2) pos by (simp add: py_slice_in)
  then have "mem_load va_at (pl_view w5 ?bufs) addr ?n = Some acts"
    using acts_at_load [OF r5 at5, of 0 ?n ?bufs] acts(2) pos(2) by simp
  from quantize_column_ok [OF r5 dev(1) _ u _ this] pos(2) have
    qz: "quantize_column env host addr ?k ?bufs w5 = (Inr [?q, ?s], w5)" "int (length ?q) = ?k" "int (length ?s) = ?k div 32 * 2" by simp_all
  have cs: "pack_acts ?q ?s ?k = Inr ?stream" "int (length ?stream) = nq * 160"
    using column_stream_ok [of Q acts nq] qz(2,3) pos(2) by simp_all
  have "length ?stream \<le> length (cb_cells b)" "?stream \<noteq> []" using cs(2) b(2) pos(2) by (simp_all flip: length_greater_0_conv)
  then obtain ab w' where w': "pack_column env host (cb_va b) ?k [?q, ?s] w5 = (Inr [?q, ?s], w')" "pl_kept w5 w'" "only_buf ActsBuf w5 w'"
      "w_alloc w' = w_alloc w5" "map_of (pl_cma (w_dev w')) ActsBuf = Some ab"
      "cb_cells ab = ?stream @ drop (length ?stream) (cb_cells b)"
    using pack_column_ok [OF r5 dev(2) u cs(1) b(1), of env thesis] by metis
  have r1: "ready host lib kr wr ar w1" using su1 by (simp add: set_up_def)
  have ra: "read_acts_addr env host op (?k * F32_BYTES) w1 = (Inr addr, w3)"
    using w3(1) by (simp add: read_acts_addr_def section_ready [OF r1] py_simps c)
  have "issue_matmul env host op rows ?k (nq * 144) 8 ?rb wh woff dh doff (i, y, rpa) w =
       py_bind (timer_section env ''compute'' (run_matmul_dual_stream env host wh woff (?rb * (nq * 144)) (nq * 160) rpa (rows * 4) nq ?rb True)) (\<lambda>out_cycles.
         py_ret (Some \<lparr>p_dst_handle = dh, p_dst_lo = doff, p_dst_hi = doff + rows * 4,
           p_data = \<lparr>pp_out_cycles = out_cycles, pp_dst_slab = i, pp_dst_abs = y, pp_dst_nbytes = rows * 4, pp_weight_nbytes = ?rb * nq * 144,
             pp_acts_nbytes = nq * 160, pp_rowblocks = ?rb, pp_rows_per_block = 8\<rparr>\<rparr>)) w'"
    using pos w1(1) ra w4(1) w5(1) b(1) qz(1) w'(1)
    by (simp add: issue_matmul_def Let_def py_simps packed_nbytes_def acts_stream_nbytes_def blocks_per_row_def rowblocks_for_def get_cma_def
        add.commute [of rows 7] mult.commute [of "(7 + rows) div 8" 32])
  moreover have "set_up host lib kr wr ar w'"
    using pl_sane_kept [OF w5(2) w'(2)] ready_kept [OF r5 w'(2)] by (simp add: set_up_def)
  moreover have "same_shape (w_alloc w) (w_alloc w')" "contents (w_alloc w') = contents (w_alloc w)"
    using sh3 w3(6) w'(4) w5(5) t4(2) by simp_all
  moreover have "has_buf WeightsDmaBuf (?rb * (nq * 144)) (w_dev w')"
    using has_buf_kept [of "w_dev w5" "w_dev w'"] w5(4) w'(2) by (simp add: pl_kept_def)
  moreover have "nq * 160 \<le> int (length (cb_cells ab))" "py_slice (cb_cells ab) 0 (nq * 160) = ?stream"
    using w'(6) cs(2) b(2) by (simp_all add: py_slice_in)
  ultimately show ?thesis using that w'(5) by blast
qed


text \<open>The issue and the completion right after it.\<close>

lemma issue_complete_ok:
  assumes su: "set_up host lib kr wr ar w" and ov: "overlay_ok host lib kr wr ar"
    and dev: "quantizes lib Q" "packs lib" "runs_chunks lib kr wr ar G"
    and call: "matmul_call op rows 1 nq wh woff ah aoff dh doff"
    and data: "matmul_data rows 1 nq wh woff ah aoff dh doff wb acts d w" and rm: "room host rows 1 nq (w_dev w)"
    and one: "max_rowblocks_per_chunk ((rows + 7) div 8) (nq * 144) = (rows + 7) div 8" "rows mod 8 = 0"
    and view: "slab_view (w_alloc w) dh doff (rows * 4) = Inr (i, y, k)"
  obtains p w1 w' where
    "issue_matmul env host op rows (nq * 128) (nq * 144) 8 ((rows + 7) div 8) wh woff dh doff
       (i, y, physical_address (al_slabs (w_alloc w) ! i) + y) w = (Inr (Some p), w1)"
    "p_dst_handle p = dh" "p_dst_lo p = doff" "p_dst_hi p = doff + rows * 4" "contents (w_alloc w1) = contents (w_alloc w)"
    "pl_matmul_complete env host p w1 = (Inr (), w')" "driver_ok host lib kr wr ar w'"
    "contents (w_alloc w') = (contents (w_alloc w))(dh \<mapsto> slice_assign d doff (doff + rows * 4) (matmul_out Q G nq rows 1 wb acts))"
proof -
  let ?rb = "(rows + 7) div 8" and ?pb = "nq * 144" and ?rpa = "physical_address (al_slabs (w_alloc w) ! i) + y"
  have pos: "0 < rows" "0 < nq" using call by (simp_all add: matmul_call_def)
  have rb: "?rb * 8 = rows" "0 < ?rb" using one(2) pos(1) by presburger+
  then have r32: "?rb * 32 = rows * 4" by linarith
  have da: "has_range w wh woff wb" "int (length wb) = ?rb * ?pb" "has_range w ah aoff acts" "int (length acts) = nq * 128 * 4"
    "contents (w_alloc w) dh = Some d" "0 \<le> doff" "doff + rows * 4 \<le> int (length d)"
    "wh \<noteq> dh \<or> apart_ranges woff (int (length wb)) doff (rows * 4)"
    using data unfolding matmul_data_def by auto
  obtain ab wn w1 where w1:
    "issue_matmul env host op rows (nq * 128) ?pb 8 ?rb wh woff dh doff (i, y, ?rpa) w =
       py_bind (timer_section env ''compute'' (run_matmul_dual_stream env host wh woff (?rb * ?pb) (nq * 160) ?rpa (rows * 4) nq ?rb True)) (\<lambda>out_cycles.
         py_ret (Some \<lparr>p_dst_handle = dh, p_dst_lo = doff, p_dst_hi = doff + rows * 4,
           p_data = \<lparr>pp_out_cycles = out_cycles, pp_dst_slab = i, pp_dst_abs = y, pp_dst_nbytes = rows * 4, pp_weight_nbytes = wn,
             pp_acts_nbytes = nq * 160, pp_rowblocks = ?rb, pp_rows_per_block = 8\<rparr>\<rparr>)) w1"
    "set_up host lib kr wr ar w1" "same_shape (w_alloc w) (w_alloc w1)" "contents (w_alloc w1) = contents (w_alloc w)"
    "has_buf WeightsDmaBuf (?rb * ?pb) (w_dev w1)" "map_of (pl_cma (w_dev w1)) ActsBuf = Some ab" "nq * 160 \<le> int (length (cb_cells ab))"
    "py_slice (cb_cells ab) 0 (nq * 160) = column_stream Q (nq * 128) acts"
    using issue_prefix_ok [OF su dev(1,2) call da(3,4) rm one(1)] .
  have r1: "ready host lib kr wr ar w1" using w1(2) by (simp add: set_up_def)
  have inv: "alloc_inv (w_alloc w)" using su ready_mem(2) by (auto simp: set_up_def)
  have inv1: "alloc_inv (w_alloc w1)" using ready_mem(2) [OF r1] .
  have ik: "i < length (al_slabs (w_alloc w))" "k = rows * 4" using slab_view_spec [OF inv view] by blast+
  have v1: "slab_view (w_alloc w1) dh doff (rows * 4) = Inr (i, y, rows * 4)" using view ik slab_view_same [OF w1(3)] by simp
  have "physical_address (al_slabs (w_alloc w1) ! i) = physical_address (al_slabs (w_alloc w) ! i)"
    using similar_nth [OF w1(3) ik(1)] by (simp add: slab_similar_def)
  then have l1: "lies phys_at (pl_view w1 []) ?rpa (?rb * 32) (InSlab i) y"
    unfolding r32 using slab_phys_lies(2) [OF r1 v1, of "[]"] pos(1) by simp
  from da(1) obtain dw where dw: "contents (w_alloc w1) wh = Some dw" "0 \<le> woff" "woff + ?rb * ?pb \<le> int (length dw)" "py_slice dw woff (woff + ?rb * ?pb) = wb"
    using w1(4) unfolding da(2) [symmetric] by (auto simp: has_range_def)
  have sep: "x + ?rb * ?pb \<le> y \<or> y + ?rb * 32 \<le> x" if "slab_view (w_alloc w1) wh woff (?rb * ?pb) = Inr (i, x, ?rb * ?pb)" for x
    using views_disjoint [OF inv1 that v1] pos rb da(2,8) r32 by (auto simp: apart_ranges_def)
  let ?out = "rowblocks_out G ?pb ?rb (py_slice dw woff (woff + ?rb * ?pb)) (py_slice (cb_cells ab) 0 (nq * 160))"
  obtain cyc w2 w3 hw where w3: "run_matmul_dual_stream env host wh woff (?rb * ?pb) (nq * 160) ?rpa (?rb * 32) nq ?rb True w1 = (Inr [0, 0, 0, 0], w3)"
    "wait_chunk_deferred env host [0, 0, 0, 0] w3 = (Inr (le_value cyc), stored w2 (InSlab i) y ?out hw)"
    "pl_kept w1 w2" "contents (w_alloc w2) = contents (w_alloc w1)" "w_alloc w3 = w_alloc w2"
    by (rule dual_stream_start [OF r1 dev(3) dw(1-3) w1(5-7) pos(2) rb(2) l1, of env]) (use sep in auto)
  let ?w4 = "stored w2 (InSlab i) y ?out hw"
  have r2: "ready host lib kr wr ar w2" using r1 w3(3) by (rule ready_kept)
  have g: "\<And>x y. length (G x y) = 32" using dev(3) by (simp add: runs_chunks_def)
  have lo: "int (length ?out) = rows * 4" using length_rowblocks_out [OF dev(3), of ?rb] rb(2) r32 by simp
  have bb: "?out = block_results G ?pb wb (column_stream Q (nq * 128) acts) 0 ?rb"
    using block_results_rowblocks [of 0 ?rb ?pb wb G "column_stream Q (nq * 128) acts"] rb(2) pos(2) da(2) dw(4) w1(8) by (simp add: py_slice_in)
  have "py_slice acts 0 (nq * 128 * 4) = acts" using da(4) pos(2) by (simp add: py_slice_in)
  moreover have "length ?out = nat (rows * 4)" using lo by linarith
  ultimately have out: "?out = matmul_out Q G nq rows 1 wb acts"
    using bb by (simp add: matmul_out_def column_out_def Let_def py_range_def)
  have sh2: "same_shape (w_alloc w1) (w_alloc w2)" using w3(3) by (simp add: pl_kept_def)
  have v2: "slab_view (w_alloc w2) dh doff (int (length ?out)) = Inr (i, y, rows * 4)" using v1 slab_view_same [OF sh2] lo by simp
  have c4: "contents (w_alloc ?w4) = (contents (w_alloc w))(dh \<mapsto> slice_assign d doff (doff + rows * 4) ?out)"
    using stored_slab(1) [OF r2 v2, of d hw] w3(4) w1(4) da(5) lo by simp
  have k4: "pl_kept w2 ?w4" using stored_kept [OF r2, of ?rpa ?out "InSlab i" y] lies_kept(1) [OF w3(3) l1] lo r32 by simp
  have r4: "ready host lib kr wr ar ?w4" using r2 k4 by (rule ready_kept)
  obtain w5 where w5: "invalidate_dirty [(i, y, y + rows * 4)] ?w4 = (Inr (), w5)" "pl_kept ?w4 w5" "contents (w_alloc w5) = contents (w_alloc ?w4)"
    using invalidate_keeps by blast
  then have iv: "invalidate_slab i y (rows * 4) ?w4 = (Inr (), w5)" by (auto simp: invalidate_dirty_def py_simps split: prod.splits sum.splits)
  obtain w' where w': "final_counts (rows * 4) 1 ?rb wn (nq * 160) 8 (le_value cyc) w5 = (Inr (), w')" "timed w5 w'" using timed_counts(2) by blast
  note t = timed_kept [OF w'(2)]
  have k': "pl_kept w1 w'" using pl_kept_trans [OF w3(3) pl_kept_trans [OF k4 pl_kept_trans [OF w5(2) t(1)]]] .
  let ?p = "\<lparr>p_dst_handle = dh, p_dst_lo = doff, p_dst_hi = doff + rows * 4,
     p_data = \<lparr>pp_out_cycles = [0, 0, 0, 0], pp_dst_slab = i, pp_dst_abs = y, pp_dst_nbytes = rows * 4, pp_weight_nbytes = wn,
       pp_acts_nbytes = nq * 160, pp_rowblocks = ?rb, pp_rows_per_block = 8\<rparr>\<rparr>"
  show ?thesis
  proof (rule that [of ?p w3 w'])
    show "issue_matmul env host op rows (nq * 128) ?pb 8 ?rb wh woff dh doff (i, y, ?rpa) w = (Inr (Some ?p), w3)"
      using w1(1) w3(1) by (simp add: r32 py_simps section_ready [OF r1])
    show "pl_matmul_complete env host ?p w3 = (Inr (), w')"
      using w3(2) iv w'(1) by (simp add: pl_matmul_complete_def py_simps section_ready [OF r4])
    show "driver_ok host lib kr wr ar w'" using set_up_driver [OF set_up_kept [OF w1(2) k'] ov] .
    show "contents (w_alloc w') = (contents (w_alloc w))(dh \<mapsto> slice_assign d doff (doff + rows * 4) (matmul_out Q G nq rows 1 wb acts))"
      using t(2) w5(3) c4 out by simp
  qed (use w3(4,5) w1(4) in simp_all)
qed

section \<open>The decision\<close>

text \<open>What the caller of \<open>run_async\<close> and then of \<open>complete\<close>, if there is something to complete, has in the end.\<close>

definition async_result :: "pyenv \<Rightarrow> 'h pl_host \<Rightarrow> (int \<rightharpoonup> byte list) \<Rightarrow> int \<Rightarrow> int \<Rightarrow> int \<Rightarrow> pl_pending pending option \<Rightarrow> 'h pl_world \<Rightarrow> 'h pl_world \<Rightarrow> bool" where
  "async_result env host before dh lo hi r w1 w' \<longleftrightarrow>
     (case r of
        None \<Rightarrow> w' = w1
      | Some p \<Rightarrow> p_dst_handle p = dh \<and> p_dst_lo p = lo \<and> p_dst_hi p = hi \<and> contents (w_alloc w1) = before \<and>
          pl_matmul_complete env host p w1 = (Inr (), w'))"

lemma fall_back_ok:
  assumes "driver_ok host lib kr wr ar w" "quantizes lib Q" "packs lib" "runs_chunks lib kr wr ar G"
    "matmul_call op rows cols nq wh woff ah aoff dh doff" "matmul_data rows cols nq wh woff ah aoff dh doff wb acts d w" "room host rows cols nq (w_dev w)"
  shows "\<exists>w'. fall_back env host op w = (Inr None, w') \<and> driver_ok host lib kr wr ar w' \<and>
    contents (w_alloc w') = (contents (w_alloc w))(dh \<mapsto> slice_assign d doff (doff + rows * cols * 4) (matmul_out Q G nq rows cols wb acts))"
proof -
  have "int (length (matmul_out Q G nq rows cols wb acts)) = rows * cols * 4"
    using assms(4,5) by (intro length_matmul_out) (simp_all add: runs_chunks_def matmul_call_def)
  with matmul_run_ok [OF assms, where env = env] obtain w' where "pl_matmul_run env host op w = (Inr (), w')" "driver_ok host lib kr wr ar w'"
    "contents (w_alloc w') = (contents (w_alloc w))(dh \<mapsto> slice_assign d doff (doff + rows * cols * 4) (matmul_out Q G nq rows cols wb acts))"
    by auto
  then show ?thesis by (simp add: fall_back_def py_simps)
qed

lemma async_dst_ok:
  assumes "mem_sane w" "contents (w_alloc w) h = Some d" "0 \<le> off" "0 < n" "off + n \<le> int (length d)"
  obtains "slab_view (w_alloc w) h off n = Inl ERR_multi" "async_dst (w_alloc w) h off n = Inr None"
  | i y k where "slab_view (w_alloc w) h off n = Inr (i, y, k)"
    "async_dst (w_alloc w) h off n = Inr (Some (i, y, physical_address (al_slabs (w_alloc w) ! i) + y))"
proof -
  have inv: "alloc_inv (w_alloc w)" using assms(1) by (simp add: mem_sane_def)
  from slab_view_total [OF inv assms(2-5)] consider "slab_view (w_alloc w) h off n = Inl ERR_multi"
    | i y k where "slab_view (w_alloc w) h off n = Inr (i, y, k)" by auto
  then show ?thesis
  proof cases
    case 1
    then show ?thesis using that(1) by (simp add: async_dst_def)
  next
    case 2
    have "kind (al_slabs (w_alloc w) ! i) = PynqSlab" using assms(1) slab_view_index [OF inv 2] by (simp add: mem_sane_def)
    then show ?thesis using that(2) 2 by (simp add: async_dst_def buffer_phys_def)
  qed
qed

text \<open>The shape that \<open>run_async\<close> documents for pipelining: one column, whole row blocks, weights that are one chunk in
  one extent, and a destination in one extent.\<close>

definition one_extent :: "allocator \<Rightarrow> int \<Rightarrow> int \<Rightarrow> int \<Rightarrow> bool" where
  "one_extent a h off n \<longleftrightarrow> (\<exists>v. slab_view a h off n = Inr v)"

definition pipelined :: "allocator \<Rightarrow> int \<Rightarrow> int \<Rightarrow> int \<Rightarrow> int \<Rightarrow> int \<Rightarrow> int \<Rightarrow> int \<Rightarrow> bool" where
  "pipelined a rows cols nq wh woff dh doff \<longleftrightarrow> cols = 1 \<and> rows mod 8 = 0 \<and>
     (rows = 8 \<or> rows div 8 * (nq * 144) \<le> MAX_WEIGHTS_NBYTES) \<and>
     one_extent a wh woff (rows div 8 * (nq * 144)) \<and> one_extent a dh doff (rows * 4)"

lemma view_extents_remaining:
  "0 < n \<Longrightarrow> (\<exists>v. view_extents cursor off n es = Inr v) \<longleftrightarrow> n \<le> remaining_in cursor off es"
  by (induction cursor off n es rule: view_extents.induct) auto

lemma one_extent_remaining:
  assumes "alloc_inv a" "contents a h = Some d" "map_of (al_records a) h = Some r" "0 \<le> off" "0 < n" "off + n \<le> int (length d)"
  shows "one_extent a h off n \<longleftrightarrow> n \<le> remaining_in 0 off (tr_extents r)"
proof -
  have "tr_nbytes r = int (length d)" using contents_length [OF assms(1,3)] assms(2,3) by (simp add: contents_Some)
  then show ?thesis
    using assms view_extents_remaining [of n 0 off "tr_extents r"] by (simp add: one_extent_def slab_view_def get_record_def)
qed

lemma le_div_int:
  fixes k a b :: int
  assumes "0 < b"
  shows "k \<le> a div b \<longleftrightarrow> k * b \<le> a"
proof
  assume "k \<le> a div b"
  then have "k * b \<le> a div b * b" using assms by simp
  also have "\<dots> \<le> a" using div_mult_mod_eq [of a b] pos_mod_sign [OF assms, of a] by linarith
  finally show "k * b \<le> a" .
next
  assume "k * b \<le> a"
  then show "k \<le> a div b" using zdiv_mono1 [of "k * b" a b] assms by simp
qed

lemma single_chunk:
  assumes "0 < rows" "0 < pb" "rows mod 8 = 0"
  shows "max_rowblocks_per_chunk ((rows + 7) div 8) pb \<ge> (rows + 7) div 8 \<longleftrightarrow> rows = 8 \<or> rows div 8 * pb \<le> MAX_WEIGHTS_NBYTES"
proof -
  have rb: "(rows + 7) div 8 = rows div 8" using assms(3) by presburger
  have eight: "rows div 8 \<le> 1 \<longleftrightarrow> rows = 8" using assms(1,3) by presburger
  have "rows div 8 \<le> MAX_WEIGHTS_NBYTES div pb \<longleftrightarrow> rows div 8 * pb \<le> MAX_WEIGHTS_NBYTES"
    using assms(2) by (rule le_div_int)
  then show ?thesis using eight unfolding max_rowblocks_per_chunk_def rb by (auto simp: le_max_iff_disj)
qed

lemma whole_blocks: "rows mod 8 = 0 \<Longrightarrow> (rows + 7) div 8 = rows div 8" for rows :: int
  by presburger

lemma run_async_ok:
  assumes drv: "driver_ok host lib kr wr ar w" and dev: "quantizes lib Q" "packs lib" "runs_chunks lib kr wr ar G"
    and call: "matmul_call op rows cols nq wh woff ah aoff dh doff"
    and data: "matmul_data rows cols nq wh woff ah aoff dh doff wb acts d w" and rm: "room host rows cols nq (w_dev w)"
  shows "\<exists>r w1 w'. pl_matmul_run_async env host op w = (Inr r, w1) \<and>
    (r \<noteq> None \<longleftrightarrow> pipelined (w_alloc w) rows cols nq wh woff dh doff) \<and>
    async_result env host (contents (w_alloc w)) dh doff (doff + rows * cols * 4) r w1 w' \<and> driver_ok host lib kr wr ar w' \<and>
    contents (w_alloc w') = (contents (w_alloc w))(dh \<mapsto> slice_assign d doff (doff + rows * cols * 4) (matmul_out Q G nq rows cols wb acts))"
    (is "\<exists>r w1 w'. ?res r w1 w'")
proof -
  have ov: "overlay_ok host lib kr wr ar" and s: "pl_sane (ph_palloc host) w" using drv by (simp_all add: driver_ok_def)
  have c: "required_int op F_ROWS = Inr rows" "required_int op F_COLS = Inr cols" "required_int op F_K = Inr (nq * 128)"
     "required_int op F_WEIGHTS = Inr wh" "optional_int op F_WEIGHTS_OFFSET 0 = Inr woff"
     "required_int op F_DST = Inr dh" "optional_int op F_DST_OFFSET 0 = Inr doff" and pos: "0 < rows" "0 < nq"
    using call by (simp_all add: matmul_call_def)
  show ?thesis
  proof (cases "cols = 1")
    case False
    then have "pl_matmul_run_async env host op w = fall_back env host op w" by (simp add: pl_matmul_run_async_def py_simps c)
    then show ?thesis using fall_back_ok [OF assms, of env] False by (auto simp: async_result_def pipelined_def)
  next
    case True
    let ?w = "(inited kr wr ar w)\<lparr>w_dev := (w_dev (inited kr wr ar w))\<lparr>pl_rows_per_block := 8\<rparr>\<rparr>"
    let ?rb = "(rows + 7) div 8"
    have s': "pl_sane (ph_palloc host) ?w" using s by (simp only: pl_sane_fields)
    have drv': "driver_ok host lib kr wr ar ?w" using s' ov by (simp add: driver_ok_def)
    have su: "set_up host lib kr wr ar ?w" using s' ov by (simp add: set_up_def ready_def pl_sane_def overlay_ok_def)
    have data': "matmul_data rows cols nq wh woff ah aoff dh doff wb acts d ?w"
      using data by (subst matmul_data_alloc [of _ w]) simp_all
    have rm': "room host rows cols nq (w_dev ?w)" using rm by (simp add: room_def Let_def)
    from data obtain dw where dw: "contents (w_alloc w) wh = Some dw" "0 \<le> woff" "woff + ?rb * (nq * 144) \<le> int (length dw)"
      by (auto simp: matmul_data_def has_range_def)
    then obtain rec where rec: "map_of (al_records (w_alloc w)) wh = Some rec" by (auto simp: contents_Some)
    have ms: "mem_sane w" using s by (simp add: pl_sane_def)
    then have inv: "alloc_inv (w_alloc w)" by (simp add: mem_sane_def)
    have rb: "0 < ?rb" "0 < nq * 144" using pos by simp_all
    let ?e = "remaining_in 0 woff (tr_extents rec)" and ?one = "max_rowblocks_per_chunk ?rb (nq * 144) \<ge> ?rb"
    have ext: "extent_remaining (w_alloc w) wh woff = Inr ?e" using rec by (simp add: extent_remaining_def tensor_extents_def get_record_def)
    have run: "pl_matmul_run_async env host op w =
        (if \<not> (?one \<and> ?e div (nq * 144) \<ge> ?rb \<and> rows mod 8 = 0) then fall_back env host op ?w
         else py_read (async_dst (w_alloc w) dh doff (rows * 4)) (\<lambda>dst. case dst of None \<Rightarrow> fall_back env host op
           | Some v \<Rightarrow> issue_matmul env host op rows (nq * 128) (nq * 144) 8 ?rb wh woff dh doff v) ?w)"
      using pos by (simp add: pl_matmul_run_async_def py_simps c True init_ok [OF drv] identify_ok [OF ov] packed_bytes_per_rowblock_def
          blocks_per_row_def ext Let_def add.commute [of rows 7] split: sum.split option.split)
    have fb: "\<exists>w'. fall_back env host op ?w = (Inr None, w') \<and> driver_ok host lib kr wr ar w' \<and>
      contents (w_alloc w') = (contents (w_alloc w))(dh \<mapsto> slice_assign d doff (doff + rows * cols * 4) (matmul_out Q G nq rows cols wb acts))"
      using fall_back_ok [OF drv' dev call data' rm', of env] by simp
    have sync: ?thesis if "pl_matmul_run_async env host op w = fall_back env host op ?w" "\<not> pipelined (w_alloc w) rows cols nq wh woff dh doff"
      using that fb by (auto simp: async_result_def)
    have "0 < ?rb * (nq * 144)" using rb by simp
    then have "one_extent (w_alloc w) wh woff (?rb * (nq * 144)) \<longleftrightarrow> ?e div (nq * 144) \<ge> ?rb"
      using one_extent_remaining [OF inv dw(1) rec dw(2) _ dw(3)] le_div_int [OF rb(2)] by simp
    then have pip: "pipelined (w_alloc w) rows cols nq wh woff dh doff \<longleftrightarrow>
        (?one \<and> ?e div (nq * 144) \<ge> ?rb \<and> rows mod 8 = 0) \<and> one_extent (w_alloc w) dh doff (rows * 4)"
      using True single_chunk [OF pos(1) rb(2)] unfolding pipelined_def by (cases "rows mod 8 = 0") (auto simp: whole_blocks)
    show ?thesis
    proof (cases "?one \<and> ?e div (nq * 144) \<ge> ?rb \<and> rows mod 8 = 0")
      case False
      then show ?thesis by (intro sync; (subst run, rule if_P)?) (auto simp: pip)
    next
      case go: True
      then have one: "max_rowblocks_per_chunk ?rb (nq * 144) = ?rb" by (simp add: max_rowblocks_per_chunk_def)
      have dd: "contents (w_alloc w) dh = Some d" "0 \<le> doff" "doff + rows * 4 \<le> int (length d)" using data True by (simp_all add: matmul_data_def)
      have r4: "0 < rows * 4" using pos by simp
      show ?thesis
      proof (rule async_dst_ok [OF ms dd(1,2) r4 dd(3)])
        assume "slab_view (w_alloc w) dh doff (rows * 4) = Inl ERR_multi" "async_dst (w_alloc w) dh doff (rows * 4) = Inr None"
        then show ?thesis using go by (intro sync) (simp_all add: run pip one_extent_def py_simps)
      next
        fix i y k assume v: "slab_view (w_alloc w) dh doff (rows * 4) = Inr (i, y, k)"
          and a: "async_dst (w_alloc w) dh doff (rows * 4) = Inr (Some (i, y, physical_address (al_slabs (w_alloc w) ! i) + y))"
        have v': "slab_view (w_alloc ?w) dh doff (rows * 4) = Inr (i, y, k)" using v by simp
        obtain p w1 w' where w': "issue_matmul env host op rows (nq * 128) (nq * 144) 8 ?rb wh woff dh doff
             (i, y, physical_address (al_slabs (w_alloc ?w) ! i) + y) ?w = (Inr (Some p), w1)"
          "p_dst_handle p = dh" "p_dst_lo p = doff" "p_dst_hi p = doff + rows * 4" "contents (w_alloc w1) = contents (w_alloc ?w)"
          "pl_matmul_complete env host p w1 = (Inr (), w')" "driver_ok host lib kr wr ar w'"
          "contents (w_alloc w') = (contents (w_alloc ?w))(dh \<mapsto> slice_assign d doff (doff + rows * 4) (matmul_out Q G nq rows 1 wb acts))"
          by (rule issue_complete_ok [OF su ov dev _ _ _ one _ v']) (use call data' rm' go True in simp_all)
        have "pl_matmul_run_async env host op w = (Inr (Some p), w1)" using go a w'(1) by (simp add: run py_simps)
        moreover have "pipelined (w_alloc w) rows cols nq wh woff dh doff" using go v by (simp add: pip one_extent_def)
        ultimately show ?thesis using w' True by (auto simp: async_result_def)
      qed
    qed
  qed
qed

end
