(* ===== verification/Framing.thy ===== *)
theory Framing
  imports PyJson Ops
begin

text \<open>
  The wire framing of \<^verbatim>\<open>proto/framing.py\<close>.  A connected socket is the list of bytes that the
  peer has sent and this side has not read, the bytes this side has sent, and the sizes in
  which the network delivers: \<open>recv n\<close> returns between one byte and \<open>n\<close> bytes as the next
  size says, or nothing when the peer has closed.  The JSON encoder and decoder are the two
  functions of the record \<open>codec\<close>.
\<close>

section \<open>Sockets\<close>

record sock =
  rx :: "byte list"
  tx :: "byte list"
  chunk_sizes :: "nat list"

definition sock_recv :: "nat \<Rightarrow> sock \<Rightarrow> byte list \<times> sock" where
  "sock_recv n s =
     (let c = (case chunk_sizes s of [] \<Rightarrow> n | c # _ \<Rightarrow> max 1 c);
          k = min (min c n) (length (rx s))
      in (take k (rx s), s\<lparr>rx := drop k (rx s), chunk_sizes := tl (chunk_sizes s)\<rparr>))"

definition sock_sendall :: "byte list \<Rightarrow> sock \<Rightarrow> sock" where
  "sock_sendall bs s = s\<lparr>tx := tx s @ bs\<rparr>"

record codec =
  cd_dumps :: "json \<Rightarrow> byte list"
  cd_loads :: "byte list \<Rightarrow> json res"

section \<open>Frames\<close>

definition MAGIC :: "byte list" where
  "MAGIC = [0x42, 0x50, 0x4E, 0x51]"

definition VERSION :: int where
  "VERSION = 1"

definition MAX_JSON_BYTES :: int where
  "MAX_JSON_BYTES = 1 * 1024 * 1024"

definition HEADER_size :: nat where
  "HEADER_size = 16"

text \<open>\<open>struct.Struct("!4sHHII")\<close>: packing raises when a number does not fit its field.\<close>

definition pack_header :: "byte list \<Rightarrow> int \<Rightarrow> int \<Rightarrow> int \<Rightarrow> int \<Rightarrow> byte list res" where
  "pack_header magic version flags json_len payload_len =
     (if \<not> (0 \<le> version \<and> version < 2 ^ 16 \<and> 0 \<le> flags \<and> flags < 2 ^ 16 \<and> 0 \<le> json_len \<and> json_len < 2 ^ 32 \<and>
             0 \<le> payload_len \<and> payload_len < 2 ^ 32) then Inl StructError
      else Inr (take 4 (magic @ replicate 4 0) @ be_bytes 2 version @ be_bytes 2 flags @
                be_bytes 4 json_len @ be_bytes 4 payload_len))"

definition unpack_header :: "byte list \<Rightarrow> byte list \<times> int \<times> int \<times> int \<times> int" where
  "unpack_header h =
     (take 4 h, be_value (take 2 (drop 4 h)), be_value (take 2 (drop 6 h)),
      be_value (take 4 (drop 8 h)), be_value (take 4 (drop 12 h)))"

text \<open>The loop of \<open>read_exact\<close>; every round that does not raise adds at least one byte.\<close>

function read_loop :: "nat \<Rightarrow> byte list \<Rightarrow> sock \<Rightarrow> byte list res \<times> sock" where
  "read_loop nbytes chunks s =
     (if length chunks < nbytes then
        (case sock_recv (nbytes - length chunks) s of
           (chunk, s') \<Rightarrow>
             if chunk = [] then (if chunks = [] then (Inl EOFError, s') else (Inl ProtocolError, s'))
             else read_loop nbytes (chunks @ chunk) s')
      else (Inr chunks, s))"
  by pat_completeness auto
termination
  by (relation "measure (\<lambda>(n, cs, s). n - length cs)") (auto simp: length_greater_0_conv [symmetric] simp del: length_greater_0_conv)

declare read_loop.simps [simp del]

definition read_exact :: "int \<Rightarrow> (sock, byte list) py" where
  "read_exact nbytes = read_loop (nat nbytes) []"

definition send_message :: "codec \<Rightarrow> dict \<Rightarrow> byte list \<Rightarrow> (sock, unit) py" where
  "send_message cd metadata payload s =
     (let metadata_bytes = cd_dumps cd (JObj metadata) in
      case pack_header MAGIC VERSION 0 (int (length metadata_bytes)) (int (length payload)) of
        Inl e \<Rightarrow> (Inl e, s)
      | Inr header \<Rightarrow>
          (let s1 = sock_sendall metadata_bytes (sock_sendall header s)
           in (Inr (), if payload \<noteq> [] then sock_sendall payload s1 else s1)))"

definition decode_metadata :: "codec \<Rightarrow> byte list \<Rightarrow> dict res" where
  "decode_metadata cd raw =
     (case cd_loads cd raw of
        Inl JSONDecodeError \<Rightarrow> Inl ProtocolError
      | Inl e \<Rightarrow> Inl e
      | Inr (JObj d) \<Rightarrow> Inr d
      | Inr _ \<Rightarrow> Inl ProtocolError)"

definition recv_message :: "codec \<Rightarrow> (sock, dict \<times> byte list) py" where
  "recv_message cd =
     py_bind (read_exact (int HEADER_size)) (\<lambda>h.
       let (magic, version, flags, json_len, payload_len) = unpack_header h in
       if magic \<noteq> MAGIC then py_raise ProtocolError
       else if version \<noteq> VERSION then py_raise ProtocolError
       else if json_len > MAX_JSON_BYTES then py_raise ProtocolError
       else
         py_bind (read_exact json_len) (\<lambda>metadata_raw.
         py_bind (py_lift (decode_metadata cd metadata_raw)) (\<lambda>metadata.
         py_bind (if payload_len \<noteq> 0 then read_exact payload_len else py_ret []) (\<lambda>payload.
           py_ret (metadata, payload)))))"

section \<open>Reading\<close>

text \<open>However the network cuts the stream, reading gives the next bytes of the stream.\<close>

lemma sock_recv_spec:
  assumes "sock_recv n s = (chunk, s')"
  shows "rx s = chunk @ rx s'" "tx s' = tx s" "length chunk \<le> n" "0 < n \<Longrightarrow> rx s \<noteq> [] \<Longrightarrow> chunk \<noteq> []"
  using assms by (auto simp: sock_recv_def Let_def min_def max_def split: list.splits if_splits)

lemma read_loop_ok:
  assumes "length chunks \<le> n" "n - length chunks \<le> length (rx s)"
  shows "\<exists>cs. read_loop n chunks s =
    (Inr (chunks @ take (n - length chunks) (rx s)), s\<lparr>rx := drop (n - length chunks) (rx s), chunk_sizes := cs\<rparr>)"
  using assms
proof (induction n chunks s rule: read_loop.induct)
  case (1 n chunks s)
  show ?case
  proof (cases "length chunks < n")
    case False
    then have "s = s\<lparr>rx := rx s, chunk_sizes := chunk_sizes s\<rparr>" by simp
    with False "1.prems" show ?thesis by (auto simp: read_loop.simps [of n chunks s] intro: exI [of _ "chunk_sizes s"])
  next
    case True
    obtain chunk s' where r: "sock_recv (n - length chunks) s = (chunk, s')" by (cases "sock_recv (n - length chunks) s")
    note sp = sock_recv_spec [OF r]
    have "rx s \<noteq> []" using True "1.prems"(2) by force
    then have ne: "chunk \<noteq> []" using sp(4) True by simp
    have s': "s' = s\<lparr>rx := rx s', chunk_sizes := chunk_sizes s'\<rparr>"
      using r by (auto simp: sock_recv_def Let_def)
    have len: "length (chunks @ chunk) \<le> n" "n - length (chunks @ chunk) \<le> length (rx s')"
      using sp(1,3) "1.prems" True by auto
    from "1.IH" [OF True r [symmetric] ne len] obtain cs where
      IH: "read_loop n (chunks @ chunk) s' = (Inr ((chunks @ chunk) @ take (n - length (chunks @ chunk)) (rx s')),
        s'\<lparr>rx := drop (n - length (chunks @ chunk)) (rx s'), chunk_sizes := cs\<rparr>)" by blast
    have l: "length chunk \<le> n - length chunks" using sp(3) .
    have e1: "(chunks @ chunk) @ take (n - length (chunks @ chunk)) (rx s') = chunks @ take (n - length chunks) (rx s)"
      using sp(1) l by (simp add: take_append)
    have e2: "drop (n - length (chunks @ chunk)) (rx s') = drop (n - length chunks) (rx s)"
      using sp(1) l by (simp add: drop_append)
    have "s'\<lparr>rx := drop (n - length (chunks @ chunk)) (rx s'), chunk_sizes := cs\<rparr> =
        s\<lparr>rx := drop (n - length chunks) (rx s), chunk_sizes := cs\<rparr>"
      unfolding e2 by (subst s') simp
    with IH e1 True r ne have "read_loop n chunks s = (Inr (chunks @ take (n - length chunks) (rx s)),
        s\<lparr>rx := drop (n - length chunks) (rx s), chunk_sizes := cs\<rparr>)"
      by (simp add: read_loop.simps [of n chunks s])
    then show ?thesis by blast
  qed
qed

lemma read_loop_short:
  assumes "length chunks < n" "length (rx s) < n - length chunks"
  shows "\<exists>cs. read_loop n chunks s =
    (Inl (if chunks = [] \<and> rx s = [] then EOFError else ProtocolError), s\<lparr>rx := [], chunk_sizes := cs\<rparr>)"
  using assms
proof (induction n chunks s rule: read_loop.induct)
  case (1 n chunks s)
  obtain chunk s' where r: "sock_recv (n - length chunks) s = (chunk, s')" by (cases "sock_recv (n - length chunks) s")
  note sp = sock_recv_spec [OF r]
  have s': "s' = s\<lparr>rx := rx s', chunk_sizes := chunk_sizes s'\<rparr>"
    using r by (auto simp: sock_recv_def Let_def)
  show ?case
  proof (cases "chunk = []")
    case True
    then have "rx s = []" using sp(4) "1.prems"(1) by auto
    with True sp(1) have "rx s' = []" by simp
    with s' have "s' = s\<lparr>rx := [], chunk_sizes := chunk_sizes s'\<rparr>" by simp
    with True \<open>rx s = []\<close> r "1.prems"(1) show ?thesis
      by (auto simp: read_loop.simps [of n chunks s] intro: exI [of _ "chunk_sizes s'"])
  next
    case False
    then have ne: "rx s \<noteq> []" using sp(1) by auto
    have len: "length (chunks @ chunk) < n" "length (rx s') < n - length (chunks @ chunk)"
      using sp(1,3) "1.prems" False by auto
    from "1.IH" [OF "1.prems"(1) r [symmetric] False len] False obtain cs where
      "read_loop n (chunks @ chunk) s' = (Inl ProtocolError, s'\<lparr>rx := [], chunk_sizes := cs\<rparr>)" by auto
    moreover have "s'\<lparr>rx := [], chunk_sizes := cs\<rparr> = s\<lparr>rx := [], chunk_sizes := cs\<rparr>" by (subst s') simp
    ultimately show ?thesis using r False "1.prems"(1) ne by (auto simp: read_loop.simps [of n chunks s])
  qed
qed

lemma read_exact_ok:
  assumes "0 \<le> n" "nat n \<le> length (rx s)"
  shows "\<exists>cs. read_exact n s = (Inr (take (nat n) (rx s)), s\<lparr>rx := drop (nat n) (rx s), chunk_sizes := cs\<rparr>)"
  using read_loop_ok [of "[]" "nat n" s] assms by (simp add: read_exact_def)

lemma read_exact_short:
  assumes "length (rx s) < nat n"
  shows "\<exists>cs. read_exact n s = (Inl (if rx s = [] then EOFError else ProtocolError), s\<lparr>rx := [], chunk_sizes := cs\<rparr>)"
  using read_loop_short [of "[]" "nat n" s] assms by (simp add: read_exact_def)

section \<open>A frame that is sent is received\<close>

definition frame :: "codec \<Rightarrow> dict \<Rightarrow> byte list \<Rightarrow> byte list" where
  "frame cd metadata payload =
     MAGIC @ be_bytes 2 VERSION @ be_bytes 2 0 @
     be_bytes 4 (int (length (cd_dumps cd (JObj metadata)))) @ be_bytes 4 (int (length payload)) @
     cd_dumps cd (JObj metadata) @ payload"

lemma below_32: "n < 2 ^ 32 \<Longrightarrow> int n < 2 ^ 32"
  by simp

lemma send_message_frame:
  assumes "length (cd_dumps cd (JObj md)) < 2 ^ 32" "length pl < 2 ^ 32"
  shows "send_message cd md pl s = (Inr (), s\<lparr>tx := tx s @ frame cd md pl\<rparr>)"
proof -
  have "int (length (cd_dumps cd (JObj md))) < 2 ^ 32" "int (length pl) < 2 ^ 32"
    using assms by (simp_all only: below_32)
  then show ?thesis
    by (simp add: send_message_def pack_header_def MAGIC_def VERSION_def sock_sendall_def frame_def Let_def)
qed

lemma send_message_too_long:
  assumes "2 ^ 32 \<le> length (cd_dumps cd (JObj md)) \<or> 2 ^ 32 \<le> length pl"
  shows "send_message cd md pl s = (Inl StructError, s)"
  using assms by (auto simp: send_message_def pack_header_def Let_def)

lemma unpack_pack_header:
  assumes "0 \<le> j" "j < 2 ^ 32" "0 \<le> p" "p < 2 ^ 32"
  shows "unpack_header (MAGIC @ be_bytes 2 VERSION @ be_bytes 2 0 @ be_bytes 4 j @ be_bytes 4 p) = (MAGIC, VERSION, 0, j, p)"
  using assms by (simp add: unpack_header_def MAGIC_def VERSION_def be_value_be_bytes)

lemma recv_header_ok:
  assumes "rx s = MAGIC @ be_bytes 2 VERSION @ be_bytes 2 0 @ be_bytes 4 j @ be_bytes 4 p @ rest"
    and "0 \<le> j" "j < 2 ^ 32" "0 \<le> p" "p < 2 ^ 32"
  shows "\<exists>cs h. read_exact (int HEADER_size) s = (Inr h, s\<lparr>rx := rest, chunk_sizes := cs\<rparr>) \<and>
    unpack_header h = (MAGIC, VERSION, 0, j, p)"
proof -
  let ?h = "MAGIC @ be_bytes 2 VERSION @ be_bytes 2 0 @ be_bytes 4 j @ be_bytes 4 p"
  have l: "length ?h = 16" by (simp add: MAGIC_def)
  have r: "rx s = ?h @ rest" using assms(1) by simp
  then have "take 16 (rx s) = ?h" "drop 16 (rx s) = rest" using l by (simp_all only: take_append drop_append, simp_all)
  then obtain cs where "read_exact 16 s = (Inr ?h, s\<lparr>rx := rest, chunk_sizes := cs\<rparr>)"
    using read_exact_ok [of 16 s] r l by auto
  with unpack_pack_header [OF assms(2-5)] show ?thesis by (auto simp: HEADER_size_def)
qed

lemma recv_message_frame:
  assumes rx: "rx s = frame cd md pl @ rest"
    and sz: "int (length (cd_dumps cd (JObj md))) \<le> MAX_JSON_BYTES" "length pl < 2 ^ 32"
    and codec: "cd_loads cd (cd_dumps cd (JObj md)) = Inr (JObj md')"
  shows "\<exists>cs. recv_message cd s = (Inr (md', pl), s\<lparr>rx := rest, chunk_sizes := cs\<rparr>)"
proof -
  let ?j = "cd_dumps cd (JObj md)"
  have b: "int (length ?j) < 2 ^ 32" "int (length pl) < 2 ^ 32"
    using sz by (simp_all add: MAX_JSON_BYTES_def)
  have "rx s = MAGIC @ be_bytes 2 VERSION @ be_bytes 2 0 @ be_bytes 4 (int (length ?j)) @ be_bytes 4 (int (length pl)) @ (?j @ pl @ rest)"
    using rx by (simp add: frame_def)
  from recv_header_ok [OF this] b obtain c1 h where
    h: "read_exact (int HEADER_size) s = (Inr h, s\<lparr>rx := ?j @ pl @ rest, chunk_sizes := c1\<rparr>)"
      "unpack_header h = (MAGIC, VERSION, 0, int (length ?j), int (length pl))" by auto
  let ?s1 = "s\<lparr>rx := ?j @ pl @ rest, chunk_sizes := c1\<rparr>"
  from read_exact_ok [of "int (length ?j)" ?s1] obtain c2 where
    m: "read_exact (int (length ?j)) ?s1 = (Inr ?j, s\<lparr>rx := pl @ rest, chunk_sizes := c2\<rparr>)" by auto
  let ?s2 = "s\<lparr>rx := pl @ rest, chunk_sizes := c2\<rparr>"
  from read_exact_ok [of "int (length pl)" ?s2] obtain c3 where
    p: "read_exact (int (length pl)) ?s2 = (Inr pl, s\<lparr>rx := rest, chunk_sizes := c3\<rparr>)" by auto
  have d: "decode_metadata cd ?j = Inr md'" using codec by (simp add: decode_metadata_def)
  show ?thesis
  proof (cases "pl = []")
    case True
    with h m d sz(1) show ?thesis by (auto simp: recv_message_def py_simps)
  next
    case False
    with h m d p sz(1) show ?thesis by (auto simp: recv_message_def py_simps)
  qed
qed

lemma recv_message_oversized:
  assumes rx: "rx s = frame cd md pl @ rest"
    and sz: "MAX_JSON_BYTES < int (length (cd_dumps cd (JObj md)))" "length (cd_dumps cd (JObj md)) < 2 ^ 32" "length pl < 2 ^ 32"
  shows "fst (recv_message cd s) = Inl ProtocolError"
proof -
  let ?j = "cd_dumps cd (JObj md)"
  have b: "int (length ?j) < 2 ^ 32" "int (length pl) < 2 ^ 32"
    using sz by (simp_all only: below_32)
  have "rx s = MAGIC @ be_bytes 2 VERSION @ be_bytes 2 0 @ be_bytes 4 (int (length ?j)) @ be_bytes 4 (int (length pl)) @ (?j @ pl @ rest)"
    using rx by (simp add: frame_def)
  from recv_header_ok [OF this] b sz(1) show ?thesis by (auto simp: recv_message_def py_simps)
qed

section \<open>Streams that do not start with a frame\<close>

text \<open>
  \<open>bad_tail cd t e\<close>: what is left of the stream when the peer has closed is not a frame, and \<open>e\<close> says how.  It is
  empty, or ends inside a frame; it has another magic or version, or announces too much metadata; or its metadata is no JSON text,
  not an object, or bytes that the decoder rejects otherwise.  The flags of the header are not looked at.
\<close>

inductive bad_tail :: "codec \<Rightarrow> byte list \<Rightarrow> pyerror \<Rightarrow> bool" for cd where
  closed: "bad_tail cd [] EOFError"
| cut_header: "t \<noteq> [] \<Longrightarrow> length t < 16 \<Longrightarrow> bad_tail cd t ProtocolError"
| bad_magic: "length h = 16 \<Longrightarrow> take 4 h \<noteq> MAGIC \<Longrightarrow> bad_tail cd (h @ rest) ProtocolError"
| bad_version: "length h = 16 \<Longrightarrow> unpack_header h = (MAGIC, v, fl, j, p) \<Longrightarrow> v \<noteq> VERSION \<Longrightarrow> bad_tail cd (h @ rest) ProtocolError"
| too_long: "length h = 16 \<Longrightarrow> unpack_header h = (MAGIC, VERSION, fl, j, p) \<Longrightarrow> MAX_JSON_BYTES < j \<Longrightarrow>
    bad_tail cd (h @ rest) ProtocolError"
| cut_metadata: "length h = 16 \<Longrightarrow> unpack_header h = (MAGIC, VERSION, fl, j, p) \<Longrightarrow> j \<le> MAX_JSON_BYTES \<Longrightarrow> int (length t) < j \<Longrightarrow>
    bad_tail cd (h @ t) (if t = [] then EOFError else ProtocolError)"
| not_json: "length h = 16 \<Longrightarrow> unpack_header h = (MAGIC, VERSION, fl, int (length js), p) \<Longrightarrow> int (length js) \<le> MAX_JSON_BYTES \<Longrightarrow>
    cd_loads cd js = Inl JSONDecodeError \<Longrightarrow> bad_tail cd (h @ js @ rest) ProtocolError"
| not_object: "length h = 16 \<Longrightarrow> unpack_header h = (MAGIC, VERSION, fl, int (length js), p) \<Longrightarrow> int (length js) \<le> MAX_JSON_BYTES \<Longrightarrow>
    cd_loads cd js = Inr v \<Longrightarrow> \<forall>d. v \<noteq> JObj d \<Longrightarrow> bad_tail cd (h @ js @ rest) ProtocolError"
| not_text: "length h = 16 \<Longrightarrow> unpack_header h = (MAGIC, VERSION, fl, int (length js), p) \<Longrightarrow> int (length js) \<le> MAX_JSON_BYTES \<Longrightarrow>
    cd_loads cd js = Inl e \<Longrightarrow> e \<noteq> JSONDecodeError \<Longrightarrow> bad_tail cd (h @ js @ rest) e"
| cut_payload: "length h = 16 \<Longrightarrow> unpack_header h = (MAGIC, VERSION, fl, int (length js), p) \<Longrightarrow> int (length js) \<le> MAX_JSON_BYTES \<Longrightarrow>
    cd_loads cd js = Inr (JObj d) \<Longrightarrow> int (length t) < p \<Longrightarrow> bad_tail cd (h @ js @ t) (if t = [] then EOFError else ProtocolError)"

lemma read_header:
  assumes "rx s = h @ t" "length h = 16"
  shows "\<exists>cs. read_exact (int HEADER_size) s = (Inr h, s\<lparr>rx := t, chunk_sizes := cs\<rparr>)"
  using read_exact_ok [of 16 s] assms by (auto simp: HEADER_size_def)

lemma unpack_magic: "unpack_header h = (m, v, fl, j, p) \<Longrightarrow> m = take 4 h"
  by (simp add: unpack_header_def)

text \<open>The metadata and what is left after it.\<close>

lemma recv_metadata:
  assumes h: "rx s = h @ js @ t" "length h = 16" "unpack_header h = (MAGIC, VERSION, fl, int (length js), p)" "int (length js) \<le> MAX_JSON_BYTES"
  shows "\<exists>cs. recv_message cd s = py_bind (py_lift (decode_metadata cd js)) (\<lambda>metadata.
      py_bind (if p \<noteq> 0 then read_exact p else py_ret []) (\<lambda>payload. py_ret (metadata, payload))) (s\<lparr>rx := t, chunk_sizes := cs\<rparr>)"
proof -
  from read_header [OF h(1,2)] obtain c1 where r: "read_exact (int HEADER_size) s = (Inr h, s\<lparr>rx := js @ t, chunk_sizes := c1\<rparr>)" by auto
  let ?s1 = "s\<lparr>rx := js @ t, chunk_sizes := c1\<rparr>"
  from read_exact_ok [of "int (length js)" ?s1] obtain c2 where
    "read_exact (int (length js)) ?s1 = (Inr js, s\<lparr>rx := t, chunk_sizes := c2\<rparr>)" by auto
  with r h(3,4) show ?thesis by (intro exI [of _ c2]) (simp add: recv_message_def py_simps)
qed

lemma recv_bad_tail:
  assumes "bad_tail cd (rx s) e"
  shows "fst (recv_message cd s) = Inl e"
  using assms
proof (cases rule: bad_tail.cases)
  case closed
  then have "length (rx s) < nat (int HEADER_size)" by (simp add: HEADER_size_def)
  from read_exact_short [OF this] closed show ?thesis by (auto simp: recv_message_def py_simps)
next
  case cut_header
  then have "length (rx s) < nat (int HEADER_size)" by (simp add: HEADER_size_def)
  from read_exact_short [OF this] cut_header show ?thesis by (auto simp: recv_message_def py_simps)
next
  case (bad_magic h rest)
  with read_header [OF bad_magic(1,3)] show ?thesis
    by (auto simp: recv_message_def py_simps unpack_header_def)
next
  case (bad_version h v fl j p rest)
  with read_header [OF bad_version(1,3)] show ?thesis by (auto simp: recv_message_def py_simps)
next
  case (too_long h fl j p rest)
  with read_header [OF too_long(1,3)] show ?thesis by (auto simp: recv_message_def py_simps)
next
  case (cut_metadata h fl j p t)
  from read_header [OF cut_metadata(1,3)] obtain cs where
    r: "read_exact (int HEADER_size) s = (Inr h, s\<lparr>rx := t, chunk_sizes := cs\<rparr>)" by blast
  have "length (rx (s\<lparr>rx := t, chunk_sizes := cs\<rparr>)) < nat j" using cut_metadata by simp
  from read_exact_short [OF this] r cut_metadata show ?thesis by (auto simp: recv_message_def py_simps)
next
  case (not_json h fl js p rest)
  from recv_metadata [OF not_json(1,3-5), of cd] not_json(6) show ?thesis
    using not_json(2) by (auto simp: decode_metadata_def py_simps)
next
  case (not_object h fl js p v rest)
  from recv_metadata [OF not_object(1,3-5), of cd] not_object(6,7) show ?thesis
    using not_object(2) by (auto simp: decode_metadata_def py_simps split: json.split)
next
  case (not_text h fl js p rest)
  from recv_metadata [OF not_text(1,2-4), of cd] not_text(5,6) show ?thesis
    by (auto simp: decode_metadata_def py_simps split: pyerror.split)
next
  case (cut_payload h fl js p d t)
  from recv_metadata [OF cut_payload(1,3-5), of cd] obtain cs where
    r: "recv_message cd s = py_bind (py_lift (decode_metadata cd js)) (\<lambda>metadata.
      py_bind (if p \<noteq> 0 then read_exact p else py_ret []) (\<lambda>payload. py_ret (metadata, payload))) (s\<lparr>rx := t, chunk_sizes := cs\<rparr>)" by blast
  have "length (rx (s\<lparr>rx := t, chunk_sizes := cs\<rparr>)) < nat p" using cut_payload(7) by simp
  from read_exact_short [OF this] r cut_payload(2,6,7) show ?thesis by (auto simp: decode_metadata_def py_simps)
qed

text \<open>There is nothing else: a stream that is no bad tail starts with a frame that is received.\<close>

lemma tail_total:
  assumes "\<And>e. \<not> bad_tail cd t e"
  obtains h fl js pl rest d where "t = h @ js @ pl @ rest" "length h = 16"
    "unpack_header h = (MAGIC, VERSION, fl, int (length js), int (length pl))" "cd_loads cd js = Inr (JObj d)"
proof -
  have "16 \<le> length t" using assms closed [of cd] cut_header [of t cd] by (metis not_le)
  then obtain h u where h: "t = h @ u" "length h = 16" by (metis append_take_drop_id length_take min.absorb2)
  obtain m v fl j p where un: "unpack_header h = (m, v, fl, j, p)" by (cases "unpack_header h")
  have m: "m = MAGIC" using assms bad_magic [OF h(2)] h(1) unpack_magic [OF un] by metis
  have v: "v = VERSION" using assms bad_version [OF h(2) un [unfolded m]] h(1) by metis
  note un' = un [unfolded m v]
  have j: "j \<le> MAX_JSON_BYTES" using assms too_long [OF h(2) un'] h(1) by (metis not_le)
  have nonneg: "0 \<le> j" "0 \<le> p" using un by (auto simp: unpack_header_def be_value_def le_value_bound)
  have "j \<le> int (length u)" using assms cut_metadata [OF h(2) un' j] h(1) by (metis not_le)
  then obtain js w where u: "u = js @ w" "j = int (length js)"
    using nonneg(1) by (intro that [of "take (nat j) u" "drop (nat j) u"]) auto
  note un'' = un' [unfolded u(2)]
  obtain d where d: "cd_loads cd js = Inr (JObj d)"
  proof (cases "cd_loads cd js")
    case (Inl e)
    then show ?thesis using assms not_json [OF h(2) un'' j [unfolded u(2)]] not_text [OF h(2) un'' j [unfolded u(2)]] h(1) u(1) by metis
  next
    case (Inr x)
    then show ?thesis using assms not_object [OF h(2) un'' j [unfolded u(2)] Inr] h(1) u(1) that by metis
  qed
  have "p \<le> int (length w)" using assms cut_payload [OF h(2) un'' j [unfolded u(2)] d] h(1) u(1) by (metis not_le)
  then have "w = take (nat p) w @ drop (nat p) w" "p = int (length (take (nat p) w))" using nonneg(2) by auto
  then show ?thesis using that h u un'' d by metis
qed

section \<open>Every outcome of a receive\<close>

text \<open>A receive consumes a prefix of the stream and never writes; a successful one at least a header.\<close>

definition consumes :: "sock \<Rightarrow> sock \<Rightarrow> bool" where
  "consumes s s' \<longleftrightarrow> tx s' = tx s \<and> (\<exists>p. rx s = p @ rx s')"

lemma consumes_reflp: "reflp consumes" and consumes_transp: "transp consumes"
proof -
  show "reflp consumes" by (simp add: reflp_def consumes_def)
  show "transp consumes"
  proof (rule transpI)
    fix a b c assume "consumes a b" "consumes b c"
    then obtain p q where "rx a = p @ rx b" "rx b = q @ rx c" "tx b = tx a" "tx c = tx b" by (auto simp: consumes_def)
    then show "consumes a c" by (auto simp: consumes_def intro: exI [of _ "p @ q"])
  qed
qed

lemma read_exact_consumes: "py_keeps consumes (read_exact n)"
proof (rule py_keepsI)
  fix s r s' assume run: "read_exact n s = (r, s')"
  show "consumes s s'"
  proof (cases "nat n \<le> length (rx s)")
    case True
    then have "tx s' = tx s" "rx s' = drop (nat n) (rx s)"
      using read_loop_ok [of "[]" "nat n" s] run by (auto simp: read_exact_def)
    then show ?thesis by (auto simp: consumes_def intro: exI [of _ "take (nat n) (rx s)"])
  next
    case False
    then have "length (rx s) < nat n" by simp
    from read_exact_short [OF this] run have "tx s' = tx s" "rx s' = []" by auto
    then show ?thesis by (simp add: consumes_def)
  qed
qed

lemma read_exact_length:
  assumes "read_exact n s = (Inr bs, s')" "0 \<le> n"
  shows "rx s = bs @ rx s'" "int (length bs) = n"
proof -
  have le: "nat n \<le> length (rx s)"
  proof (rule ccontr)
    assume "\<not> nat n \<le> length (rx s)"
    then have "length (rx s) < nat n" by simp
    from read_exact_short [OF this] assms(1) show False by auto
  qed
  from read_exact_ok [OF assms(2) le] assms(1) have "bs = take (nat n) (rx s)" "rx s' = drop (nat n) (rx s)" by auto
  then show "rx s = bs @ rx s'" "int (length bs) = n" using le assms(2) by simp_all
qed

lemma recv_message_consumes: "py_keeps consumes (recv_message cd)"
proof -
  note k = py_keeps_pure [OF consumes_reflp] py_keeps_bind [OF consumes_transp] read_exact_consumes
  show ?thesis unfolding recv_message_def Let_def by (auto intro!: k split: prod.splits)
qed

lemma recv_message_progress:
  assumes "recv_message cd s = (Inr m, s')"
  shows "length (rx s') + 16 \<le> length (rx s)" "tx s' = tx s"
proof -
  from assms obtain h s1 where h: "read_exact (int HEADER_size) s = (Inr h, s1)"
    by (auto simp: recv_message_def py_simps split: sum.splits prod.splits)
  let ?rest = "\<lambda>h. let (magic, version, flags, json_len, payload_len) = unpack_header h in
       if magic \<noteq> MAGIC then py_raise ProtocolError
       else if version \<noteq> VERSION then py_raise ProtocolError
       else if json_len > MAX_JSON_BYTES then py_raise ProtocolError
       else
         py_bind (read_exact json_len) (\<lambda>metadata_raw.
         py_bind (py_lift (decode_metadata cd metadata_raw)) (\<lambda>metadata.
         py_bind (if payload_len \<noteq> 0 then read_exact payload_len else py_ret []) (\<lambda>payload.
           py_ret (metadata, payload))))"
  note k = py_keeps_pure [OF consumes_reflp] py_keeps_bind [OF consumes_transp] read_exact_consumes
  have "py_keeps consumes (?rest h)" unfolding Let_def by (auto intro!: k split: prod.splits)
  moreover have "?rest h s1 = (Inr m, s')" using assms h by (simp add: recv_message_def py_simps Let_def)
  ultimately have "consumes s1 s'" by (rule py_keepsD)
  then have "length (rx s') \<le> length (rx s1)" by (auto simp: consumes_def)
  moreover have "rx s = h @ rx s1" "int (length h) = 16"
    using read_exact_length [OF h] by (simp_all add: HEADER_size_def)
  ultimately show "length (rx s') + 16 \<le> length (rx s)" by simp
  show "tx s' = tx s" using py_keepsD [OF recv_message_consumes assms] by (simp add: consumes_def)
qed

end
