(* ===== verification/Server.thy ===== *)
theory Server
  imports Runtime Framing
begin

text \<open>
  The connection handler of \<^verbatim>\<open>board/daemon/server.py\<close> and the client of
  \<^verbatim>\<open>host/transport/client.py\<close>.  The handler's loop ends because every request it reads
  consumes a header from the connection.
\<close>

section \<open>The handler\<close>

definition send_error :: "codec \<Rightarrow> json \<Rightarrow> string \<Rightarrow> string \<Rightarrow> (sock, unit) py" where
  "send_error cd request_id code msg =
     send_message cd
       [(''id'', request_id), (''ok'', JBool False),
        (''error'', JObj [(''code'', JStr code), (''message'', JStr msg)])] []"

text \<open>The \<open>except\<close> clauses around \<open>dispatch\<close>, in their order.\<close>

definition error_code :: "pyerror \<Rightarrow> string" where
  "error_code e =
     (case e of
        AllocatorError code \<Rightarrow> code
      | _ \<Rightarrow> if e = TypeError \<or> is_value_error e then ''invalid_request'' else ''internal_error'')"

definition reply :: "pyenv \<Rightarrow> codec \<Rightarrow> json \<Rightarrow> (dict \<times> byte list) res \<Rightarrow> (sock, unit) py" where
  "reply env cd request_id outcome =
     (case outcome of
        Inl e \<Rightarrow> send_error cd request_id (error_code e) (env_exc_text env e)
      | Inr (result, response_payload) \<Rightarrow>
          send_message cd [(''id'', request_id), (''ok'', JBool True), (''result'', JObj result)] response_payload)"

lemma send_message_rx: "send_message cd md pl s = (r, s') \<Longrightarrow> rx s' = rx s"
  by (auto simp: send_message_def sock_sendall_def Let_def split: sum.splits)

lemma reply_rx: "reply env cd i out s = (r, s') \<Longrightarrow> rx s' = rx s"
  by (auto simp: reply_def send_error_def split: sum.splits prod.splits dest: send_message_rx)

function handle :: "pyenv \<Rightarrow> codec \<Rightarrow> ('d, 'p) registry \<Rightarrow> string \<Rightarrow> 'd world \<Rightarrow> sock \<Rightarrow> unit res \<times> 'd world \<times> sock" where
  "handle env cd reg overlay_id w s =
     (case recv_message cd s of
        (Inl e, s1) \<Rightarrow>
          (if e = EOFError then (Inr (), w, s1)
           else if e = ProtocolError then
             (case send_error cd JNull ''protocol_error'' (env_exc_text env e) s1 of (r, s2) \<Rightarrow> (r, w, s2))
           else (Inl e, w, s1))
      | (Inr (metadata, payload), s1) \<Rightarrow>
          (case dispatch env reg overlay_id metadata payload w of
             (outcome, w1) \<Rightarrow>
               (case reply env cd (obj_get metadata ''id'' JNull) outcome s1 of
                  (Inl e, s2) \<Rightarrow> (Inl e, w1, s2)
                | (Inr _, s2) \<Rightarrow> handle env cd reg overlay_id w1 s2)))"
  by pat_completeness auto

termination
  by (relation "measure (\<lambda>(env, cd, reg, ov, w, s). length (rx s))")
     (auto dest!: recv_message_progress(1) reply_rx [symmetric, OF sym] dest: sym)

declare handle.simps [simp del]

text \<open>The response of a request, and the responses of a sequence of requests.\<close>

definition error_response :: "pyenv \<Rightarrow> json \<Rightarrow> string \<Rightarrow> pyerror \<Rightarrow> dict \<times> byte list" where
  "error_response env request_id code e =
     ([(''id'', request_id), (''ok'', JBool False),
       (''error'', JObj [(''code'', JStr code), (''message'', JStr (env_exc_text env e))])], [])"

definition response :: "pyenv \<Rightarrow> json \<Rightarrow> (dict \<times> byte list) res \<Rightarrow> dict \<times> byte list" where
  "response env request_id outcome =
     (case outcome of
        Inl e \<Rightarrow> error_response env request_id (error_code e) e
      | Inr (result, bs) \<Rightarrow> ([(''id'', request_id), (''ok'', JBool True), (''result'', JObj result)], bs))"

fun serve :: "pyenv \<Rightarrow> ('d, 'p) registry \<Rightarrow> string \<Rightarrow> (dict \<times> byte list) list \<Rightarrow> 'd world \<Rightarrow> (dict \<times> byte list) list \<times> 'd world" where
  "serve env reg ov [] w = ([], w)"
| "serve env reg ov ((md, pl) # reqs) w =
     (case dispatch env reg ov md pl w of
        (outcome, w1) \<Rightarrow> (case serve env reg ov reqs w1 of
          (rs, w2) \<Rightarrow> (response env (obj_get md ''id'' JNull) outcome # rs, w2)))"

lemma response_id [simp]: "obj_get (fst (response env i out)) ''id'' JNull = i"
  by (auto simp: response_def error_response_def obj_get_def split: sum.splits)

lemma serve_ids:
  "serve env reg ov reqs w = (rs, w') \<Longrightarrow>
   map (\<lambda>r. obj_get (fst r) ''id'' JNull) rs = map (\<lambda>r. obj_get (fst r) ''id'' JNull) reqs"
  by (induction reqs arbitrary: w rs) (auto split: prod.splits)

definition fits :: "codec \<Rightarrow> dict \<times> byte list \<Rightarrow> bool" where
  "fits cd = (\<lambda>(md, pl). length (cd_dumps cd (JObj md)) < 2 ^ 32 \<and> length pl < 2 ^ 32)"

definition request_ok :: "codec \<Rightarrow> dict \<times> byte list \<Rightarrow> dict \<times> byte list \<Rightarrow> bool" where
  "request_ok cd = (\<lambda>(md, pl) (md', pl'). int (length (cd_dumps cd (JObj md))) \<le> MAX_JSON_BYTES \<and> length pl < 2 ^ 32 \<and>
     cd_loads cd (cd_dumps cd (JObj md)) = Inr (JObj md') \<and> pl' = pl)"

lemma reply_response:
  assumes "fits cd (response env i outcome)"
  shows "reply env cd i outcome s = (Inr (), s\<lparr>tx := tx s @ case_prod (frame cd) (response env i outcome)\<rparr>)"
  using assms
  by (auto simp: reply_def response_def error_response_def send_error_def fits_def send_message_frame split: sum.splits prod.splits)

lemma recv_message_eof:
  assumes "rx s = []"
  shows "\<exists>cs. recv_message cd s = (Inl EOFError, s\<lparr>rx := [], chunk_sizes := cs\<rparr>)"
proof -
  from assms have "length (rx s) < nat (int HEADER_size)" by (simp add: HEADER_size_def)
  from read_exact_short [OF this] assms show ?thesis by (auto simp: recv_message_def py_simps)
qed

text \<open>The handler answers the requests it finds in the stream and goes on with what follows them.\<close>

lemma handle_frames:
  assumes "list_all2 (request_ok cd) sent reqs" "rx s = concat (map (case_prod (frame cd)) sent) @ t"
    and "serve env reg ov reqs w = (rs, w')" "list_all (fits cd) rs"
  shows "\<exists>s1. handle env cd reg ov w s = handle env cd reg ov w' s1 \<and> rx s1 = t \<and>
    tx s1 = tx s @ concat (map (case_prod (frame cd)) rs)"
  using assms
proof (induction sent reqs arbitrary: w s rs rule: list_all2_induct)
  case Nil
  then show ?case by (intro exI [of _ s]) simp
next
  case (Cons m ms r reqs)
  obtain md pl where m: "m = (md, pl)" by (cases m)
  obtain md' where r: "r = (md', pl)" and ok: "int (length (cd_dumps cd (JObj md))) \<le> MAX_JSON_BYTES" "length pl < 2 ^ 32"
      "cd_loads cd (cd_dumps cd (JObj md)) = Inr (JObj md')"
    using Cons.hyps(1) m by (cases r) (auto simp: request_ok_def)
  let ?rest = "concat (map (case_prod (frame cd)) ms) @ t"
  have "rx s = frame cd md pl @ ?rest" using Cons.prems(1) m by simp
  from recv_message_frame [OF this ok] obtain cs where
    rv: "recv_message cd s = (Inr (md', pl), s\<lparr>rx := ?rest, chunk_sizes := cs\<rparr>)" by blast
  obtain out w1 where d: "dispatch env reg ov md' pl w = (out, w1)" by (cases "dispatch env reg ov md' pl w")
  obtain rs1 where sv: "serve env reg ov reqs w1 = (rs1, w')" and
    rs: "rs = response env (obj_get md' ''id'' JNull) out # rs1"
    using Cons.prems(2) r d by (auto split: prod.splits)
  have f: "fits cd (response env (obj_get md' ''id'' JNull) out)" "list_all (fits cd) rs1" using Cons.prems(3) rs by auto
  let ?s1 = "s\<lparr>rx := ?rest, chunk_sizes := cs\<rparr>"
  let ?s2 = "?s1\<lparr>tx := tx ?s1 @ case_prod (frame cd) (response env (obj_get md' ''id'' JNull) out)\<rparr>"
  have "handle env cd reg ov w s = handle env cd reg ov w1 ?s2"
    using rv d reply_response [OF f(1), of ?s1] by (simp add: handle.simps [of env cd reg ov w s])
  moreover from Cons.IH [of ?s2 w1 rs1] sv f(2) obtain s' where
    "handle env cd reg ov w1 ?s2 = handle env cd reg ov w' s'" "rx s' = t" "tx s' = tx ?s2 @ concat (map (case_prod (frame cd)) rs1)" by auto
  ultimately show ?case using rs by auto
qed

lemma handle_serves:
  assumes "list_all2 (request_ok cd) sent reqs" "rx s = concat (map (case_prod (frame cd)) sent)"
    and "serve env reg ov reqs w = (rs, w')" "list_all (fits cd) rs"
  shows "\<exists>s'. handle env cd reg ov w s = (Inr (), w', s') \<and> rx s' = [] \<and>
    tx s' = tx s @ concat (map (case_prod (frame cd)) rs)"
proof -
  from handle_frames [OF assms(1) _ assms(3,4), of s "[]"] assms(2) obtain s1 where
    s1: "handle env cd reg ov w s = handle env cd reg ov w' s1" "rx s1 = []" "tx s1 = tx s @ concat (map (case_prod (frame cd)) rs)" by auto
  from recv_message_eof [OF s1(2)] obtain cs where "recv_message cd s1 = (Inl EOFError, s1\<lparr>rx := [], chunk_sizes := cs\<rparr>)" by blast
  then have "handle env cd reg ov w' s1 = (Inr (), w', s1\<lparr>rx := [], chunk_sizes := cs\<rparr>)"
    by (simp add: handle.simps [of env cd reg ov w' s1])
  with s1 show ?thesis by auto
qed

section \<open>Bad connections\<close>

lemma handle_ends:
  assumes "recv_message cd s = (Inl e, s1)" "fits cd (error_response env JNull ''protocol_error'' ProtocolError)"
  shows "\<exists>s'. handle env cd reg ov w s = (if e = EOFError \<or> e = ProtocolError then Inr () else Inl e, w, s') \<and>
    tx s' = tx s1 @ (if e = ProtocolError then case_prod (frame cd) (error_response env JNull ''protocol_error'' ProtocolError) else [])"
  using assms by (auto simp: handle.simps [of env cd reg ov w s] send_error_def error_response_def fits_def send_message_frame)

text \<open>The invariant of the allocator holds whatever a connection sends.\<close>

lemma handle_keeps:
  "registry_keeps reg \<Longrightarrow> handle env cd reg ov w s = (r, w', s') \<Longrightarrow> inv_kept w w'"
proof (induction env cd reg ov w s rule: handle.induct)
  case (1 env cd reg ov w s)
  show ?case
  proof (cases "recv_message cd s")
    case (Pair m s1)
    show ?thesis
    proof (cases m)
      case (Inl e)
      with Pair "1.prems" show ?thesis
        by (auto simp: handle.simps [of env cd reg ov w s] inv_kept_def split: if_splits prod.splits)
    next
      case (Inr mp)
      obtain md pl where mp: "mp = (md, pl)" by (cases mp)
      obtain out w1 where d: "dispatch env reg ov md pl w = (out, w1)" by (cases "dispatch env reg ov md pl w")
      have k: "inv_kept w w1" using py_keepsD [OF dispatch_keeps d] "1.prems"(1) by blast
      obtain q s2 where rp: "reply env cd (obj_get md ''id'' JNull) out s1 = (q, s2)"
        by (cases "reply env cd (obj_get md ''id'' JNull) out s1")
      show ?thesis
      proof (cases q)
        case (Inl e)
        with Pair Inr mp d rp "1.prems" k show ?thesis by (simp add: handle.simps [of env cd reg ov w s])
      next
        case q: (Inr u)
        with Pair Inr mp d rp "1.prems" have "handle env cd reg ov w1 s2 = (r, w', s')"
          by (simp add: handle.simps [of env cd reg ov w s])
        with "1.IH" [OF Pair [symmetric] Inr mp [symmetric] d [symmetric] rp [symmetric] q "1.prems"(1)] k
        show ?thesis by (auto simp: inv_kept_def)
      qed
    qed
  qed
qed

end
