(* ===== verification/Client.thy ===== *)
theory Client
  imports Server
begin

text \<open>
  The RPC client of \<^verbatim>\<open>host/transport/client.py\<close>, and a call that goes through the server's
  handler and back.
\<close>

section \<open>The client\<close>

record client =
  cl_sock :: sock
  cl_next_id :: int

text \<open>Python's \<open>x == n\<close> for an integer \<open>n\<close>: booleans and floats are numbers.\<close>

definition float_is_int :: "64 word \<Rightarrow> int \<Rightarrow> bool" where
  "float_is_int w n \<longleftrightarrow> float_trunc w = Inr n \<and>
     (let e = uint (take_bit 11 (drop_bit 52 w)); m = uint (take_bit 52 w);
          mant = (if e = 0 then m else m + 2 ^ 52); ex = (if e = 0 then 1 else e) - 1075
      in 0 \<le> ex \<or> mant mod 2 ^ nat (- ex) = 0)"

fun json_eq_int :: "json \<Rightarrow> int \<Rightarrow> bool" where
  "json_eq_int (JInt i) n = (i = n)"
| "json_eq_int (JBool b) n = ((if b then 1 else 0) = n)"
| "json_eq_int (JFloat w) n = float_is_int w n"
| "json_eq_int _ n = False"

definition new_client :: "sock \<Rightarrow> client" where
  "new_client s = \<lparr>cl_sock = s, cl_next_id = 1\<rparr>"

definition on_sock :: "(sock, 'a) py \<Rightarrow> (client, 'a) py" where
  "on_sock m c = (case m (cl_sock c) of (r, s) \<Rightarrow> (r, c\<lparr>cl_sock := s\<rparr>))"

definition check_response :: "pyenv \<Rightarrow> int \<Rightarrow> dict \<times> byte list \<Rightarrow> (dict \<times> byte list) res" where
  "check_response env request_id = (\<lambda>(resp, response_payload).
     if \<not> json_eq_int (obj_get resp ''id'' JNull) request_id then Inl ProtocolError
     else if \<not> py_bool (obj_get resp ''ok'' (JBool False)) then
       (case obj_get resp ''error'' (JObj []) of
          JObj err \<Rightarrow> Inl (RpcRemoteError (py_str env (obj_get err ''code'' (JStr ''remote_error''))))
        | _ \<Rightarrow> Inl ProtocolError)
     else Inr (resp, response_payload))"

definition call_metadata :: "int \<Rightarrow> string \<Rightarrow> dict \<Rightarrow> dict" where
  "call_metadata request_id op flds = obj_merge [(''id'', JInt request_id), (''op'', JStr op)] flds"

definition rpc_call :: "pyenv \<Rightarrow> codec \<Rightarrow> string \<Rightarrow> byte list \<Rightarrow> dict \<Rightarrow> (client, dict \<times> byte list) py" where
  "rpc_call env cd op payload flds =
     py_bind (py_get cl_next_id) (\<lambda>request_id.
     py_then (py_mod (\<lambda>c. c\<lparr>cl_next_id := cl_next_id c + 1\<rparr>))
     (py_then (on_sock (send_message cd (call_metadata request_id op flds) payload))
     (py_bind (on_sock (recv_message cd)) (\<lambda>resp. py_lift (check_response env request_id resp)))))"

section \<open>A call and its answer\<close>

lemma rpc_call_answered:
  assumes req: "fits cd (call_metadata (cl_next_id c) op flds, payload)"
    and rx: "rx (cl_sock c) = frame cd resp bs @ rest"
    and sz: "int (length (cd_dumps cd (JObj resp))) \<le> MAX_JSON_BYTES" "length bs < 2 ^ 32"
    and codec: "cd_loads cd (cd_dumps cd (JObj resp)) = Inr (JObj resp')"
  shows "\<exists>cs. rpc_call env cd op payload flds c =
    (check_response env (cl_next_id c) (resp', bs),
     c\<lparr>cl_next_id := cl_next_id c + 1,
       cl_sock := (cl_sock c)\<lparr>tx := tx (cl_sock c) @ frame cd (call_metadata (cl_next_id c) op flds) payload,
         rx := rest, chunk_sizes := cs\<rparr>\<rparr>)"
proof -
  let ?md = "call_metadata (cl_next_id c) op flds"
  let ?s1 = "(cl_sock c)\<lparr>tx := tx (cl_sock c) @ frame cd ?md payload\<rparr>"
  have send: "send_message cd ?md payload (cl_sock c) = (Inr (), ?s1)"
    using req by (intro send_message_frame) (auto simp: fits_def)
  have "rx ?s1 = frame cd resp bs @ rest" using rx by simp
  from recv_message_frame [OF this sz codec] obtain cs where
    "recv_message cd ?s1 = (Inr (resp', bs), ?s1\<lparr>rx := rest, chunk_sizes := cs\<rparr>)" by blast
  with send show ?thesis by (simp add: rpc_call_def py_simps on_sock_def) blast
qed

text \<open>A call that the connection handler answers.\<close>

lemma call_served:
  assumes "md = call_metadata i op flds" "map_of flds ''id'' = None"
    and "request_ok cd (md, payload) (md, payload)"
    and "dispatch env reg ov md payload w = (outcome, w')"
    and "resp = response env (JInt i) outcome" "request_ok cd resp resp"
    and "rx srv = frame cd md payload" "tx srv = []"
  shows "\<exists>s'. handle env cd reg ov w srv = (Inr (), w', s') \<and>
    (\<forall>c. cl_next_id c = i \<and> rx (cl_sock c) = tx s' \<longrightarrow> (\<exists>c'.
       rpc_call env cd op payload flds c =
         (case outcome of Inl e \<Rightarrow> Inl (RpcRemoteError (error_code e)) | Inr (result, bs) \<Rightarrow> Inr (fst resp, bs), c') \<and>
       cl_next_id c' = i + 1 \<and> tx (cl_sock c') = tx (cl_sock c) @ rx srv \<and> rx (cl_sock c') = []))"
proof -
  have id: "obj_get md ''id'' JNull = JInt i"
    using assms(1) by (simp add: obj_get_def call_metadata_def map_of_obj_merge map_add_def map_of_rev_None [THEN iffD2, OF assms(2)])
  obtain rmd rpl where resp: "resp = (rmd, rpl)" by (cases resp)
  have ok: "int (length (cd_dumps cd (JObj rmd))) \<le> MAX_JSON_BYTES" "length rpl < 2 ^ 32"
      "cd_loads cd (cd_dumps cd (JObj rmd)) = Inr (JObj rmd)" "fits cd resp"
    using assms(6) resp by (auto simp: request_ok_def fits_def MAX_JSON_BYTES_def)
  have "serve env reg ov [(md, payload)] w = ([resp], w')" using assms(4,5) id by simp
  from handle_serves [of cd "[(md, payload)]" "[(md, payload)]" srv, OF _ _ this] assms(3,7,8) ok(4) obtain s' where
    s': "handle env cd reg ov w srv = (Inr (), w', s')" "tx s' = frame cd rmd rpl @ []" by (auto simp: resp)
  have chk: "check_response env i (rmd, rpl) =
      (case outcome of Inl e \<Rightarrow> Inl (RpcRemoteError (error_code e)) | Inr (result, bs) \<Rightarrow> Inr (fst resp, bs))"
    using assms(5) resp by (auto simp: check_response_def response_def error_response_def obj_get_def split: sum.splits)
  have "\<exists>c'. rpc_call env cd op payload flds c = (check_response env i (rmd, rpl), c') \<and>
      cl_next_id c' = i + 1 \<and> tx (cl_sock c') = tx (cl_sock c) @ rx srv \<and> rx (cl_sock c') = []"
    if c: "cl_next_id c = i" "rx (cl_sock c) = tx s'" for c
  proof -
    have req: "fits cd (call_metadata (cl_next_id c) op flds, payload)"
      using assms(1,3) c(1) by (auto simp: request_ok_def fits_def MAX_JSON_BYTES_def)
    have "rx (cl_sock c) = frame cd rmd rpl @ []" using c(2) s'(2) by simp
    from rpc_call_answered [OF req this ok(1-3), of env] obtain cs where
      "rpc_call env cd op payload flds c = (check_response env i (rmd, rpl), c\<lparr>cl_next_id := i + 1,
        cl_sock := (cl_sock c)\<lparr>tx := tx (cl_sock c) @ frame cd md payload, rx := [], chunk_sizes := cs\<rparr>\<rparr>)"
      using c(1) assms(1) by auto
    then show ?thesis using assms(7) by simp
  qed
  with s'(1) chk show ?thesis by metis
qed

text \<open>The ids of a client's calls are 1, 2, 3 and so on, whatever the calls return.\<close>

lemma rpc_call_next_id: "cl_next_id (snd (rpc_call env cd op pl flds c)) = cl_next_id c + 1"
  by (auto simp: rpc_call_def py_simps on_sock_def split: sum.splits prod.splits)

end
