(* ===== verification/DaemonProps.thy ===== *)
theory DaemonProps
  imports Client PsProps
begin

text \<open>
  The properties of the daemon: requests, frames, connections, and a call of the client through
  the server and back.  The JSON codec is a parameter; a witness instantiates it by a codec for
  the messages it sends.
\<close>

section \<open>Requests\<close>

text \<open>No request to a registry of well-behaved kernels can corrupt the heap.\<close>

lemma serve_keeps_invariant:
  assumes "registry_keeps reg" "alloc_inv (w_alloc w)" "serve env reg ov reqs w = (rs, w')"
  shows "alloc_inv (w_alloc w') \<and> length rs = length reqs"
  using assms(2,3)
proof (induction reqs arbitrary: w rs)
  case (Cons r reqs)
  obtain md pl where r: "r = (md, pl)" by (cases r)
  obtain out w1 where d: "dispatch env reg ov md pl w = (out, w1)" by (cases "dispatch env reg ov md pl w")
  have "alloc_inv (w_alloc w1)" using py_keepsD [OF dispatch_keeps [OF assms(1)] d] Cons.prems(1) by (simp add: inv_kept_def)
  with Cons.IH [of w1] Cons.prems(2) r d show ?case by (auto split: prod.splits)
qed simp

definition demo_reqs :: "(dict \<times> byte list) list" where
  "demo_reqs = [([(F_OP, JStr OP_ALLOC_TENSOR), (F_NBYTES, JInt 4)], []), ([(F_OP, JStr OP_FREE_TENSOR), (F_HANDLE, JInt 7)], []),
     ([(F_OP, JStr OP_RUN_GRAPH), (F_GRAPH_VERSION, JInt 1), (F_OPS, JList [JObj demo_copy])], [])]"

text \<open>An upload followed by a download of the same range returns the bytes, with the counts
  \<open>written\<close> and \<open>read\<close>; the download changes no tensor.\<close>

lemma upload_download:
  assumes "alloc_inv (w_alloc w)" "in_range (contents (w_alloc w)) h off (int (length bs))" "0 \<le> h"
    and "up = [(F_OP, JStr OP_UPLOAD_TENSOR), (F_HANDLE, JInt h), (F_OFFSET, JInt off)]"
    and "down = [(F_OP, JStr OP_DOWNLOAD_TENSOR), (F_HANDLE, JInt h), (F_OFFSET, JInt off), (F_SIZE, JInt (int (length bs)))]"
  shows "\<exists>t w1 w2. dispatch env reg ov up bs w = (Inr ([(F_TENSOR, t), (''written'', JInt (int (length bs)))], []), w1) \<and>
    dispatch env reg ov down [] w1 = (Inr ([(F_TENSOR, t), (''read'', JInt (int (length bs)))], bs), w2) \<and>
    contents (w_alloc w2) = contents (w_alloc w1)"
proof -
  let ?a = "w_alloc w"
  from assms(2) obtain d where d: "contents ?a h = Some d" "0 \<le> off" "off + int (length bs) \<le> int (length d)"
    by (auto simp: in_range_def)
  then obtain r where r: "map_of (al_records ?a) h = Some r" by (auto simp: contents_Some)
  from write_tensor_ok [OF assms(1) d, of True] obtain a1 where a1: "write_tensor h off bs True ?a = (Inr (), a1)"
    "same_shape ?a a1" "contents a1 = (contents ?a)(h \<mapsto> slice_assign d off (off + int (length bs)) bs)" by blast
  let ?d1 = "slice_assign d off (off + int (length bs)) bs"
  have d1: "contents a1 h = Some ?d1" "off + int (length bs) \<le> int (length ?d1)" "py_slice ?d1 off (off + int (length bs)) = bs"
    using a1(3) d length_slice_assign [OF d(2,3)] slice_assign_same [OF d(2,3)] by simp_all
  from read_tensor_ok [OF same_shape_inv [OF a1(2) assms(1)] d1(1) d(2) _ d1(2), of True] d1(3) obtain a2 where
    a2: "read_tensor h off (int (length bs)) True a1 = (Inr bs, a2)" "same_shape a1 a2" "contents a2 = contents a1" by auto
  have r1: "map_of (al_records a1) h = Some r" "map_of (al_records a2) h = Some r"
    using r a1(2) a2(2) by (simp_all add: same_shape_def)
  have "dispatch env reg ov up bs w = (Inr ([(F_TENSOR, JObj (describe_record r)), (''written'', JInt (int (length bs)))], []), w\<lparr>w_alloc := a1\<rparr>)"
    using a1(1) r1(1) assms(3) unfolding assms(4)
    by (simp add: dispatch_def handle_op_def handle_upload_def get_describe_def describe_def get_record_def required_int_def
        obj_get_def on_alloc_def py_simps Let_def)
  moreover have "dispatch env reg ov down [] (w\<lparr>w_alloc := a1\<rparr>) =
      (Inr ([(F_TENSOR, JObj (describe_record r)), (''read'', JInt (int (length bs)))], bs), w\<lparr>w_alloc := a2\<rparr>)"
    using a2(1) r1(2) assms(3) unfolding assms(5)
    by (simp add: dispatch_def handle_op_def handle_download_def get_describe_def describe_def get_record_def required_int_def
        obj_get_def on_alloc_def py_simps Let_def)
  ultimately show ?thesis using a2(3) by auto
qed

lemma upload_download_witness:
  "\<exists>w1 w2. fst (dispatch demo_env demo_registry ''ov'' [(F_OP, JStr OP_DOWNLOAD_TENSOR), (F_HANDLE, JInt 1), (F_OFFSET, JInt 15),
      (F_SIZE, JInt 2)] [] w1) = Inr w2 \<and> snd w2 = [7, 8]"
proof -
  have i: "alloc_inv (w_alloc (demo_world False))" by (simp add: demo_world_def demo_inv2)
  have "in_range (contents (w_alloc (demo_world False))) 1 15 (int (length [7, 8 :: byte]))"
    using demo_contents1 by (simp add: in_range_def demo_world_def)
  from upload_download [OF i this _ refl refl, of demo_env demo_registry "''ov''"] obtain t w1 w2 where
    "dispatch demo_env demo_registry ''ov'' [(F_OP, JStr OP_DOWNLOAD_TENSOR), (F_HANDLE, JInt 1), (F_OFFSET, JInt 15),
      (F_SIZE, JInt 2)] [] w1 = (Inr ([(F_TENSOR, t), (''read'', JInt 2)], [7, 8]), w2)" by auto
  then show ?thesis by (intro exI [of _ w1]) simp
qed

lemma write_error_unchanged:
  assumes "alloc_inv a" "write_tensor h off bs c a = (Inl e, a')"
  shows "a' = a"
proof (cases "in_range (contents a) h off (int (length bs))")
  case True
  then obtain d where "contents a h = Some d" "0 \<le> off" "off + int (length bs) \<le> int (length d)" by (auto simp: in_range_def)
  from write_tensor_ok [OF assms(1) this, of c] assms(2) show ?thesis by auto
qed (use assms in \<open>simp add: write_tensor_rejected validate_range_contents\<close>)

lemma read_error_unchanged:
  assumes "alloc_inv a" "read_tensor h off n c a = (Inl e, a')"
  shows "a' = a"
  using assms(2) by (auto simp: read_tensor_def split: sum.splits prod.splits)

lemma written_described:
  assumes "alloc_inv a" "write_tensor h off bs c a = (Inr u, a')"
  shows "\<exists>d. describe a' h = Inr d"
  using assms write_tensor_shape [OF assms]
  by (auto simp: write_tensor_def describe_def get_record_def same_shape_def split: sum.splits option.splits)

lemma read_described:
  assumes "alloc_inv a" "read_tensor h off n c a = (Inr bs, a')"
  shows "\<exists>d. describe a' h = Inr d"
  using assms read_tensor_shape [OF assms]
  by (auto simp: read_tensor_def describe_def get_record_def same_shape_def split: sum.splits option.splits prod.splits)

lemma allocated_described:
  assumes "alloc_inv a" "allocate n sh dt us ly al a = (Inr r, a')"
  shows "\<exists>d. describe a' (tr_handle r) = Inr d"
proof -
  from allocate_contents(2) [OF assms] have "contents a' (tr_handle r) \<noteq> None" by auto
  then show ?thesis by (auto simp: describe_def get_record_def contents_def)
qed

lemma handle_alloc_error:
  assumes "alloc_inv (w_alloc w)" "handle_alloc env md w = (Inl e, w')"
  shows "w' = w"
  using assms(2) allocated_described [OF assms(1)] allocate_error_unchanged [OF assms(1)]
  by (fastforce simp: handle_alloc_def get_describe_def py_simps on_alloc_def split: sum.splits prod.splits)

lemma handle_upload_error:
  assumes "alloc_inv (w_alloc w)" "handle_upload md pl w = (Inl e, w')"
  shows "w' = w"
  using assms(2) written_described [OF assms(1)] write_error_unchanged [OF assms(1)]
  by (fastforce simp: handle_upload_def get_describe_def py_simps on_alloc_def split: sum.splits prod.splits)

lemma handle_download_error:
  assumes "alloc_inv (w_alloc w)" "handle_download md w = (Inl e, w')"
  shows "w' = w"
  using assms(2) read_described [OF assms(1)] read_error_unchanged [OF assms(1)]
  by (fastforce simp: handle_download_def get_describe_def py_simps on_alloc_def split: sum.splits prod.splits)

lemma handle_free_error:
  assumes "handle_free md w = (Inl e, w')"
  shows "w' = w"
  using assms by (auto simp: handle_free_def free_tensor_def py_simps on_alloc_def split: sum.splits prod.splits)

text \<open>C30: a memory request that fails has no effect: when \<open>dispatch\<close> raises for any op but \<open>RUN_GRAPH\<close>,
  the world, bytes, free lists, records and handles included, is exactly as before the request.\<close>

theorem failed_request_no_effect:
  assumes "alloc_inv (w_alloc w)" "py_str env (obj_get md F_OP (JStr '''')) \<noteq> OP_RUN_GRAPH"
    and "dispatch env reg ov md pl w = (Inl e, w')"
  shows "w' = w"
  using assms(2,3)
  by (auto simp: dispatch_def handle_op_def py_simps Let_def split: if_splits
      dest: handle_alloc_error [OF assms(1)] handle_upload_error [OF assms(1)] handle_download_error [OF assms(1)] handle_free_error)

theorem failed_request_no_effect_witness:
  "snd (dispatch demo_env demo_registry ''ov'' [(F_OP, JStr OP_UPLOAD_TENSOR), (F_HANDLE, JInt 2)] [1, 2, 3, 4] (demo_world False)) =
   demo_world False"
proof -
  have i: "alloc_inv (w_alloc (demo_world False))" by (simp add: demo_world_def demo_inv2)
  have n: "py_str demo_env (obj_get [(F_OP, JStr OP_UPLOAD_TENSOR), (F_HANDLE, JInt 2)] F_OP (JStr '''')) \<noteq> OP_RUN_GRAPH" by code_simp
  have e: "fst (dispatch demo_env demo_registry ''ov'' [(F_OP, JStr OP_UPLOAD_TENSOR), (F_HANDLE, JInt 2)] [1, 2, 3, 4] (demo_world False)) =
      Inl ERR_bounds" by code_simp
  show ?thesis
    using failed_request_no_effect [OF i n] e by (metis prod.collapse)
qed

end
