(* ===== verification/PlProps.thy ===== *)
theory PlProps
  imports PlDemo MatmulAsync DaemonProps
begin

text \<open>
  The properties of the PL drivers and of the runtime that the daemon builds from a bitstream.
\<close>

section \<open>The matmul\<close>

text \<open>The driver's invariant, with or without profiling.\<close>

abbreviation hushed :: "'d world \<Rightarrow> 'd world" where
  "hushed w \<equiv> w\<lparr>w_timer := (w_timer w)\<lparr>tm_profile := False\<rparr>\<rparr>"

definition driver_inv :: "'h pl_host \<Rightarrow> 'h pl_lib \<Rightarrow> int \<Rightarrow> int \<Rightarrow> int \<Rightarrow> 'h pl_world \<Rightarrow> bool" where
  "driver_inv host lib kr wr ar w \<longleftrightarrow> timer_ok (w_timer w) \<and> driver_ok host lib kr wr ar (hushed w)"

lemma driver_inv_sim:
  assumes "driver_ok host lib kr wr ar v" "prof_sim v w"
  shows "driver_inv host lib kr wr ar w"
proof -
  have e: "w_alloc w = w_alloc v" "w_dev w = w_dev v" "timer_ok (w_timer w)" using assms(2) by (simp_all add: prof_sim_def)
  have s: "pl_sane (ph_palloc host) v" using assms(1) by (simp add: driver_ok_def)
  then have "quiet v" by (simp only: pl_sane_def mem_sane_def)
  then have "pl_kept v (hushed w)" using e by (simp add: pl_kept_def same_shape_refl quiet_def)
  from pl_sane_kept [OF s this] show ?thesis using assms(1) e by (simp add: driver_inv_def driver_ok_def)
qed

lemma hushed_sim: "timer_ok (w_timer w) \<Longrightarrow> prof_sim (hushed w) w"
  by (simp add: prof_sim_def timer_ok_def)

text \<open>C6: the PL matmul refines a function on tensors.  Whatever extents hold the packed weights, the activations and
  the destination, however the columns are cut into chunks, with profiling on or off, from a driver that has never run
  or one that has: \<open>run\<close> returns, the destination range holds for every column the results of all row blocks,
  cut to the number of rows, no other byte of any tensor changes, and the driver's invariant holds again.  The
  C library, the kernel and PYNQ enter by their contracts.\<close>

theorem pl_matmul_refines:
  assumes "driver_inv host lib kr wr ar w" "quantizes lib Q" "packs lib" "runs_chunks lib kr wr ar G"
    and "matmul_call op rows cols nq wh woff ah aoff dh doff"
    and "matmul_data rows cols nq wh woff ah aoff dh doff wb acts d w" "room host rows cols nq (w_dev w)"
  shows "\<exists>w'. pl_matmul_run env host op w = (Inr (), w') \<and> driver_inv host lib kr wr ar w' \<and>
    contents (w_alloc w') =
      (contents (w_alloc w))(dh \<mapsto> slice_assign d doff (doff + rows * cols * 4) (matmul_out Q G nq rows cols wb acts))"
proof -
  have t: "timer_ok (w_timer w)" and d: "driver_ok host lib kr wr ar (hushed w)" using assms(1) by (simp_all add: driver_inv_def)
  have da: "matmul_data rows cols nq wh woff ah aoff dh doff wb acts d (hushed w)" using assms(6) by (simp add: matmul_data_alloc [of "hushed w" w])
  have rm: "room host rows cols nq (w_dev (hushed w))" using assms(7) by simp
  have len: "int (length (matmul_out Q G nq rows cols wb acts)) = rows * cols * 4"
    using assms(4,5) by (intro length_matmul_out) (simp_all add: runs_chunks_def matmul_call_def)
  obtain v where v: "pl_matmul_run env host op (hushed w) = (Inr (), v)" "driver_ok host lib kr wr ar v"
    "contents (w_alloc v) = (contents (w_alloc w))(dh \<mapsto> slice_assign d doff (doff + rows * cols * 4) (matmul_out Q G nq rows cols wb acts))"
    using matmul_run_ok [OF d assms(2,3,4,5) da rm, of env] len by auto
  from prof_agnosticD [OF agnostic_pl_kernels(1) hushed_sim [OF t] v(1)] obtain w' where
    w': "pl_matmul_run env host op w = (Inr (), w')" "prof_sim v w'" .
  show ?thesis using w'(1) driver_inv_sim [OF v(2) w'(2)] v(3) w'(2) by (auto simp: prof_sim_def)
qed

lemma demo_call:
  assumes "1 \<le> n" "n \<le> 8"
  shows "matmul_call (demo_matmul n) n 1 1 1 0 1 144 1 656"
  using assms by (simp add: matmul_call_def demo_matmul_def u32_def required_int_def optional_int_def obj_get_def)

lemma demo_matmul_data:
  assumes "1 \<le> n" "n \<le> 8"
  shows "matmul_data n 1 1 1 0 1 144 1 656 (take 144 demo_pl_bytes) (take 512 (drop 144 demo_pl_bytes)) demo_pl_bytes (demo_pl_world b)"
proof -
  have "length demo_pl_bytes = 688" by (simp add: demo_pl_bytes_def)
  moreover have "(n + 7) div 8 = 1" using assms by simp
  ultimately show ?thesis
    using assms demo_pl_contents by (simp add: matmul_data_def has_range_def demo_pl_world_def apart_ranges_def py_slice_in)
qed

lemma demo_inv_start: "driver_inv demo_pl_host demo_pl_lib 0x43C00000 0x40400000 0x40410000 (demo_pl_world b)"
proof -
  have "prof_sim (demo_pl_world False) (demo_pl_world b)"
    by (simp add: prof_sim_def demo_pl_world_def new_timer_def timer_ok_def)
  with demo_driver show ?thesis by (rule driver_inv_sim)
qed

lemma demo_room:
  assumes "1 \<le> n" "n \<le> 8"
  shows "room demo_pl_host n 1 1 (w_dev (demo_pl_world b))"
proof -
  have "(n + 7) div 8 = 1" using assms by simp
  then show ?thesis
    by (simp add: room_def Let_def granted_def demo_pl_host_def demo_pl_palloc_def demo_pl_world_def new_pl_state_def
        max_rowblocks_per_chunk_def MAX_WEIGHTS_NBYTES_def)
qed

theorem pl_matmul_refines_witness:
  "\<exists>w' d. pl_matmul_run demo_env demo_pl_host (demo_matmul 1) (demo_pl_world True) = (Inr (), w') \<and>
    contents (w_alloc w') 1 = Some d \<and> py_slice d 656 660 = [0, 1, 2, 3]"
proof -
  let ?out = "matmul_out demo_Q demo_G 1 1 1 (take 144 demo_pl_bytes) (take 512 (drop 144 demo_pl_bytes))"
  have len: "length demo_pl_bytes = 688" by (simp add: demo_pl_bytes_def)
  have "take 4 demo_pl_bytes = [0, 1, 2, 3]" by (simp add: demo_pl_bytes_def take_map upt_conv_Cons)
  then have out: "?out = [0, 1, 2, 3]"
    using len by (simp add: matmul_out_def column_out_def block_results_def demo_G_def py_slice_in py_range_def take_append min_def)
  from pl_matmul_refines [OF demo_inv_start demo_quantizes demo_packs demo_runs_chunks demo_call demo_matmul_data demo_room, of 1 demo_env True]
  obtain w' where w': "pl_matmul_run demo_env demo_pl_host (demo_matmul 1) (demo_pl_world True) = (Inr (), w')"
    "contents (w_alloc w') = (contents (w_alloc (demo_pl_world True)))(1 \<mapsto> slice_assign demo_pl_bytes 656 (656 + 1 * 1 * 4) ?out)" by auto
  have "py_slice (slice_assign demo_pl_bytes 656 660 [0, 1, 2, 3]) 656 660 = [0, 1, 2, 3]"
    using slice_assign_same [of 656 "[0, 1, 2, 3 :: byte]" demo_pl_bytes] len by simp
  then show ?thesis using w' out by (intro exI conjI) auto
qed

text \<open>C7: the asynchronous matmul.  \<open>run_async\<close> pipelines exactly the shape its documentation names, one column of
  whole row blocks whose weights are one chunk in one extent and whose destination is one extent, and runs every other call to its
  end.  When it pipelines, the pending object carries exactly the destination range and no tensor has changed yet; after
  \<open>complete\<close>, as after \<open>run\<close>, the destination holds the results and no other byte has changed.\<close>

theorem pl_matmul_async_refines:
  assumes "driver_inv host lib kr wr ar w" "quantizes lib Q" "packs lib" "runs_chunks lib kr wr ar G"
    and "matmul_call op rows cols nq wh woff ah aoff dh doff"
    and "matmul_data rows cols nq wh woff ah aoff dh doff wb acts d w" "room host rows cols nq (w_dev w)"
  shows "\<exists>r w1 w'. pl_matmul_run_async env host op w = (Inr r, w1) \<and>
    (r \<noteq> None \<longleftrightarrow> pipelined (w_alloc w) rows cols nq wh woff dh doff) \<and>
    async_result env host (contents (w_alloc w)) dh doff (doff + rows * cols * 4) r w1 w' \<and> driver_inv host lib kr wr ar w' \<and>
    contents (w_alloc w') =
      (contents (w_alloc w))(dh \<mapsto> slice_assign d doff (doff + rows * cols * 4) (matmul_out Q G nq rows cols wb acts))"
proof -
  have t: "timer_ok (w_timer w)" and d: "driver_ok host lib kr wr ar (hushed w)" using assms(1) by (simp_all add: driver_inv_def)
  have da: "matmul_data rows cols nq wh woff ah aoff dh doff wb acts d (hushed w)" using assms(6) by (simp add: matmul_data_alloc [of "hushed w" w])
  have rm: "room host rows cols nq (w_dev (hushed w))" using assms(7) by simp
  from run_async_ok [OF d assms(2-5) da rm, of env] obtain r v1 v where v:
    "pl_matmul_run_async env host op (hushed w) = (Inr r, v1)" "r \<noteq> None \<longleftrightarrow> pipelined (w_alloc w) rows cols nq wh woff dh doff"
    "async_result env host (contents (w_alloc w)) dh doff (doff + rows * cols * 4) r v1 v" "driver_ok host lib kr wr ar v"
    "contents (w_alloc v) = (contents (w_alloc w))(dh \<mapsto> slice_assign d doff (doff + rows * cols * 4) (matmul_out Q G nq rows cols wb acts))"
    by auto
  from prof_agnosticD [OF agnostic_pl_async hushed_sim [OF t] v(1)] obtain w1 where
    w1: "pl_matmul_run_async env host op w = (Inr r, w1)" "prof_sim v1 w1" .
  have "\<exists>w'. async_result env host (contents (w_alloc w)) dh doff (doff + rows * cols * 4) r w1 w' \<and> prof_sim v w'"
  proof (cases r)
    case None
    then show ?thesis using v(3) w1(2) by (simp add: async_result_def)
  next
    case (Some p)
    then have p: "p_dst_handle p = dh" "p_dst_lo p = doff" "p_dst_hi p = doff + rows * cols * 4" "contents (w_alloc v1) = contents (w_alloc w)"
      "pl_matmul_complete env host p v1 = (Inr (), v)" using v(3) by (simp_all add: async_result_def)
    from prof_agnosticD [OF agnostic_pl_kernels(2) w1(2) p(5)] obtain w' where
      "pl_matmul_complete env host p w1 = (Inr (), w')" "prof_sim v w'" .
    then show ?thesis using Some p(1-4) w1(2) by (auto simp: async_result_def prof_sim_def)
  qed
  then obtain w' where w': "async_result env host (contents (w_alloc w)) dh doff (doff + rows * cols * 4) r w1 w'" "prof_sim v w'" by blast
  then show ?thesis using w1(1) v(2,5) driver_inv_sim [OF v(4) w'(2)] by (auto simp: prof_sim_def)
qed

lemma demo_pipelined: "pipelined demo_pl_alloc 8 1 1 1 0 1 656"
  by (simp add: pipelined_def one_extent_def MAX_WEIGHTS_NBYTES_def slab_view_def get_record_def demo_pl_alloc_def demo_pl_empty_def demo_pl_record_def)

theorem pl_matmul_async_refines_witness:
  "\<exists>p w1 w'. pl_matmul_run_async demo_env demo_pl_host (demo_matmul 8) (demo_pl_world True) = (Inr (Some p), w1) \<and>
    p_dst_lo p = 656 \<and> p_dst_hi p = 688 \<and> contents (w_alloc w1) 1 = Some demo_pl_bytes \<and>
    pl_matmul_complete demo_env demo_pl_host p w1 = (Inr (), w') \<and>
    (\<exists>d. contents (w_alloc w') 1 = Some d \<and> py_slice d 656 688 = take 32 demo_pl_bytes)"
proof -
  let ?out = "matmul_out demo_Q demo_G 1 8 1 (take 144 demo_pl_bytes) (take 512 (drop 144 demo_pl_bytes))"
  have len: "length demo_pl_bytes = 688" by (simp add: demo_pl_bytes_def)
  have out: "?out = take 32 demo_pl_bytes"
    using len by (simp add: matmul_out_def column_out_def block_results_def demo_G_def py_slice_in py_range_def take_append min_def)
  from pl_matmul_async_refines [OF demo_inv_start demo_quantizes demo_packs demo_runs_chunks demo_call demo_matmul_data demo_room, of 8 demo_env True]
    demo_pipelined
  obtain p w1 w' where w': "pl_matmul_run_async demo_env demo_pl_host (demo_matmul 8) (demo_pl_world True) = (Inr (Some p), w1)"
    "async_result demo_env demo_pl_host (contents (w_alloc (demo_pl_world True))) 1 656 688 (Some p) w1 w'"
    "contents (w_alloc w') = (contents (w_alloc (demo_pl_world True)))(1 \<mapsto> slice_assign demo_pl_bytes 656 688 ?out)"
    by (auto simp: demo_pl_world_def)
  have "py_slice (slice_assign demo_pl_bytes 656 688 (take 32 demo_pl_bytes)) 656 688 = take 32 demo_pl_bytes"
    using slice_assign_same [of 656 "take 32 demo_pl_bytes" demo_pl_bytes] len by simp
  then show ?thesis using w' out demo_pl_contents by (auto simp: async_result_def demo_pl_world_def)
qed

section \<open>Termination\<close>

text \<open>The parameters raise Python's exceptions, of which the model's marker for fuel is none.\<close>

definition python_errors :: "'h pl_host \<Rightarrow> bool" where
  "python_errors host \<longleftrightarrow> (\<forall>c n. ph_palloc host c n \<noteq> Inl OutOfFuel) \<and> (\<forall>pa r. ov_mmio (ph_overlay host) pa r \<noteq> Inl OutOfFuel) \<and>
     (\<forall>off hw r. ov_read (ph_overlay host) off hw = RegObject r \<longrightarrow> r \<noteq> Inl OutOfFuel)"

lemma py_int_no_fuel: "py_int v \<noteq> Inl OutOfFuel"
  by (cases v) (simp_all add: float_trunc_def Let_def parse_int_def split: option.split)

lemma ends_requests [ends_intro]: "required_int op k \<noteq> Inl OutOfFuel" "optional_int op k n \<noteq> Inl OutOfFuel"
  "packed_bytes_per_rowblock m \<noteq> Inl OutOfFuel" "packed_nbytes r m \<noteq> Inl OutOfFuel" "acts_stream_nbytes m \<noteq> Inl OutOfFuel"
  using py_int_no_fuel
  by (auto simp: required_int_def optional_int_def packed_bytes_per_rowblock_def packed_nbytes_def acts_stream_nbytes_def blocks_per_row_def
      bindR_def split: option.splits json.splits sum.splits)

lemma ends_counts [ends_intro]: "ends (timer_add key v)" "ends (add_shape r c k)" "ends (final_counts a b c d e f g)" "ends (invalidate_dirty dirty)"
proof -
  show t: "ends (timer_add key v)" for key v by (simp add: ends_def timer_add_def upd_timer_def)
  have "ends (invalidate_slab i a b)" for i a b unfolding invalidate_slab_def by (intro ends_intro)
  then show "ends (invalidate_dirty dirty)" unfolding invalidate_dirty_def by (induction dirty) (auto intro!: ends_intro)
qed (unfold add_shape_def final_counts_def, (intro ends_intro; simp add: ends_def timer_add_def upd_timer_def)+)

lemma ends_bind_rows:
  assumes "python_errors host" "ends (f 8)"
  shows "ends (py_bind (on_dev (read_rows_per_block host)) f)"
proof (rule endsI)
  fix w e w' assume run: "py_bind (on_dev (read_rows_per_block host)) f w = (Inl e, w')"
  obtain r d where rd: "read_rows_per_block host (w_dev w) = (r, d)" by (cases "read_rows_per_block host (w_dev w)")
  then have "r = Inr 8 \<or> (\<exists>e. r = Inl e \<and> e \<noteq> OutOfFuel)"
    using assms(1) by (auto simp: read_rows_per_block_def python_errors_def py_simps split: regval.splits sum.splits if_splits) blast
  then show "e \<noteq> OutOfFuel" using run rd by (auto simp: py_simps on_dev_def dest: endsD [OF assms(2)])
qed

lemma ends_setup [ends_intro]:
  assumes "python_errors host"
  shows "ends (ensure_native host)" "ends (ensure_mmio_pointers host)" "ends (check_kernel_id host)" "ends (ensure_buffers host a b c)"
    "ends (read_acts_addr env host op n)"
proof -
  have l: "load_lib (ph_files host) None \<noteq> Inl OutOfFuel" "bind_native lib \<noteq> Inl OutOfFuel" for lib
    by (auto simp: load_lib_def bind_native_def split: option.splits)
  show "ends (ensure_native host)" unfolding ensure_native_def by (intro ends_intro l)
  have m: "open_dma_mmio (ph_overlay host) nm \<noteq> Inl OutOfFuel" for nm
    using assms by (auto simp: open_dma_mmio_def obj_index_def bindR_def python_errors_def split: option.splits)
  show "ends (ensure_mmio_pointers host)" unfolding ensure_mmio_pointers_def by (intro ends_intro m) simp_all
  show "ends (check_kernel_id host)" by (auto simp: ends_def check_kernel_id_def py_simps split: regval.splits)
  have c: "ends (cma_alloc (ph_palloc host) role k)" for role k
    using assms by (auto simp: ends_def cma_alloc_def python_errors_def split: sum.splits)
  show "ends (ensure_buffers host a b c)" unfolding ensure_buffers_def ensure_buffer_def by (intro ends_intro c)
  have p: "slab_pointer al h off k \<noteq> Inl OutOfFuel" for al h off k
    using slab_view_no_fuel [of al h off k] by (auto simp: slab_pointer_def bindR_def split: sum.splits option.splits prod.splits)
  show "ends (read_acts_addr env host op n)"
    unfolding read_acts_addr_def resolve_slab_pointer_def get_slab_pointer_def copy_to_cma_scratch_def Let_def
    by (intro ends_intro c p) simp_all
qed

lemma ends_columns:
  assumes "\<And>col st. ends (chunk_loop (nat (jb_rows job)) env host job col 0 0 st)"
  shows "ends (run_columns env host job va cols bufs st)"
proof (induction cols arbitrary: bufs st)
  case (Cons c cols)
  have "ends (checked_pl host symb args bufs)" for symb args bufs unfolding checked_pl_def by (intro ends_intro) simp
  then show ?case
    unfolding run_columns.simps run_column_def quantize_column_def pack_column_def by (intro ends_intro assms Cons)
qed (simp add: ends_intro)

lemma ends_matmul_loop:
  assumes "jb_rows_per_block job = 8" "jb_rowblocks job = (jb_rows job + 7) div 8"
    "jb_max_rowblocks job = max_rowblocks_per_chunk (jb_rowblocks job) (jb_packed_bytes job)"
  shows "ends (chunk_loop (nat (jb_rows job)) env host job col 0 0 st)"
proof (cases "0 < jb_rows job")
  case True
  then have job: "job_ok job" using assms max_rowblocks_pos [OF True] by (simp add: job_ok_def)
  show ?thesis unfolding ends_def by (intro allI ends_chunk_loop [OF job at_chunk_start [OF job]]) simp
next
  case False
  then show ?thesis by (cases st) (simp add: ends_def chunk_loop.simps)
qed

text \<open>C18: the loops of the PL matmul end.  Every chunk takes at least one row, so that with the number of rows as
  fuel the model of the chunk loop never stops for lack of it, and more fuel changes nothing: the result of
  \<open>run\<close> is that of the unbounded loops, whatever the request, the tensors, the library and the overlay.\<close>

theorem pl_matmul_terminates:
  assumes "python_errors host"
  shows "fst (pl_matmul_run env host op w) \<noteq> Inl OutOfFuel \<and>
    (job_ok job \<longrightarrow> nat (jb_rows job) \<le> fuel \<longrightarrow>
       chunk_loop fuel env host job col 0 0 st w = chunk_loop (nat (jb_rows job)) env host job col 0 0 st w)"
proof (intro conjI impI)
  have "ends (pl_matmul_run env host op)"
    unfolding pl_matmul_run_def run_job_def Let_def
    by (intro ends_intro ends_bind_rows assms ends_columns ends_matmul_loop) simp_all
  then show "fst (pl_matmul_run env host op w) \<noteq> Inl OutOfFuel" by (simp add: ends_def)
next
  assume "job_ok job" "nat (jb_rows job) \<le> fuel"
  then show "chunk_loop fuel env host job col 0 0 st w = chunk_loop (nat (jb_rows job)) env host job col 0 0 st w"
    by (intro chunk_loop_fuel at_chunk_start) simp_all
qed

theorem pl_matmul_terminates_witness:
  "fst (pl_matmul_run demo_env demo_pl_host (demo_matmul 1) (demo_pl_world False)) \<noteq> Inl OutOfFuel"
proof -
  have "python_errors demo_pl_host"
    by (simp add: python_errors_def demo_pl_host_def demo_pl_palloc_def demo_overlay_def split: json.split)
  from pl_matmul_terminates [OF this] show ?thesis by blast
qed

section \<open>The daemon\<close>

lemma pynq_slabs_loop_ok:
  "\<forall>c n pa va cells. palloc c n = Inr (pa, va, cells) \<longrightarrow> int (length cells) = n \<Longrightarrow>
   \<forall>s \<in> set slabs. 0 < slab_size s \<and> int (length (buf s)) = slab_size s \<Longrightarrow> pynq_slabs_loop palloc sb slabs rem = (Inr ss, cl) \<Longrightarrow>
   \<forall>s \<in> set ss. 0 < slab_size s \<and> int (length (buf s)) = slab_size s"
proof (induction palloc sb slabs rem rule: pynq_slabs_loop.induct)
  case (1 palloc sb slabs rem)
  show ?case
  proof (cases "0 < rem \<and> 0 < sb")
    case True
    show ?thesis
    proof (cases "pynq_slab palloc (length slabs) (min sb rem)")
      case (Inl e)
      then show ?thesis using "1.prems"(3) True by (subst (asm) pynq_slabs_loop.simps) (simp add: Let_def)
    next
      case (Inr s)
      then have nx: "pynq_slabs_loop palloc sb (slabs @ [s]) (rem - min sb rem) = (Inr ss, cl)"
        using "1.prems"(3) True by (subst (asm) pynq_slabs_loop.simps) (simp add: Let_def)
      have "0 < slab_size s \<and> int (length (buf s)) = slab_size s"
        using Inr "1.prems"(1) True by (auto simp: pynq_slab_def bindR_eq_Inr)
      then show ?thesis using "1.prems"(2) by (intro "1.IH" [OF True refl Inr "1.prems"(1) _ nx]) auto
    qed
  next
    case False
    then have "ss = slabs" using "1.prems"(3) by (subst (asm) pynq_slabs_loop.simps) auto
    then show ?thesis using "1.prems"(2) by simp
  qed
qed

lemma pool_from_sizes: "pool_from base ss \<Longrightarrow> \<forall>s \<in> set ss. 0 < slab_size s \<and> int (length (buf s)) = slab_size s"
  by (induction base ss rule: pool_from.induct) auto

lemma make_allocator_inv:
  assumes "make_allocator palloc loader args = Inr (a, ov)" "\<forall>c n pa va cells. palloc c n = Inr (pa, va, cells) \<longrightarrow> int (length cells) = n"
  shows "alloc_inv a"
proof -
  let ?t = "ar_heap_mib args * MIB" and ?b = "ar_slab_mib args * MIB"
  obtain ss where na: "new_allocator ss 64 = Inr a" and ss: "fake_slabs ?t ?b = Inr ss \<or> fst (pynq_slabs palloc ?t ?b) = Inr ss"
    using assms(1) by (auto simp: make_allocator_def Let_def bindR_eq_Inr split: allocator_kind.splits)
  from ss have "\<forall>s \<in> set ss. 0 < slab_size s \<and> int (length (buf s)) = slab_size s"
  proof
    assume f: "fake_slabs ?t ?b = Inr ss"
    then have "0 < ?t" "0 < ?b" by (auto simp: fake_slabs_def split: if_splits)
    then obtain ss' where "fake_slabs_loop ?b 0x10000000 ?t = Inr ss'" "pool_from 0x10000000 ss'"
      using fake_slabs_loop_spec [of ?t ?b] by (meson less_imp_le)
    then show ?thesis using f pool_from_sizes by (auto simp: fake_slabs_def split: if_splits)
  next
    assume "fst (pynq_slabs palloc ?t ?b) = Inr ss"
    then obtain cl where "pynq_slabs_loop palloc ?b [] ?t = (Inr ss, cl)"
      by (cases "pynq_slabs_loop palloc ?b [] ?t") (auto simp: pynq_slabs_def split: if_splits)
    then show ?thesis by (rule pynq_slabs_loop_ok [OF assms(2), rotated]) simp
  qed
  then show ?thesis using na by (rule new_allocator_inv)
qed

text \<open>C17: whatever requests arrive at the runtime that \<open>make_runtime\<close> builds, with the PS kernels alone or with the PL
  kernels of the loaded bitstream, in whatever order and however they fail, the allocator's invariant holds after each of
  them, and every request gets one outcome; the allocator that \<open>make_runtime\<close> returns is itself in the invariant.\<close>

theorem daemon_keeps_invariant:
  assumes "make_runtime env host loader args = Inr (a, reg, oid, ov)"
    and "pl_files_shape host" "\<And>p o'. loader p = Inr o' \<Longrightarrow> overlay_shape o'"
    and "\<forall>c n pa va cells. ph_palloc host c n = Inr (pa, va, cells) \<longrightarrow> int (length cells) = n"
    and "w_alloc w = a" "serve env reg oid reqs w = (rs, w')"
  shows "alloc_inv a \<and> alloc_inv (w_alloc w') \<and> length rs = length reqs"
proof -
  from make_runtime_cases [OF assms(1)] have "make_allocator (ph_palloc host) loader args = Inr (a, ov)" by metis
  then have a: "alloc_inv a" using assms(4) by (rule make_allocator_inv)
  have "registry_keeps reg" using assms(2,3) by (intro make_runtime_registry(2) [OF assms(1)])
  from serve_keeps_invariant [OF this _ assms(6)] show ?thesis using a assms(5) by blast
qed

definition idle_host :: "unit pl_host" where
  "idle_host = \<lparr>ph_palloc = demo_pl_palloc,
     ph_files = (\<lambda>p. if p = ''libbonsai_ps.so'' then Some \<lparr>cl_has = (\<lambda>_. True), cl_call = (\<lambda>_ _ m. (0, m)), cl_pl_call = (\<lambda>_ _ m. (0, m))\<rparr> else None),
     ph_overlay = \<lparr>ov_ip_dict = None, ov_attrs = [''axi_dma_0'', ''axi_dma_1'', ''q1a8_kernel_top_0'', ''axis_loopback_0''], ov_kernel_mmio = None,
       ov_mmio = (\<lambda>_ _. Inl TypeError), ov_read = (\<lambda>_ _. RegInt 0), ov_dma = (\<lambda>_ slabs hw. (Inr (), slabs, hw))\<rparr>,
     ph_uninit = (\<lambda>_. 0)\<rparr>"

definition idle_args :: daemon_args where
  "idle_args = \<lparr>ar_allocator = PynqAllocator, ar_heap_mib = 1, ar_slab_mib = 1, ar_overlay = ''base'', ar_overlay_id = ''ov'',
     ar_bitfile = Some ''q1a8.bit''\<rparr>"

theorem daemon_keeps_invariant_witness:
  "\<exists>a reg. make_runtime demo_env idle_host (\<lambda>_. Inr (ph_overlay idle_host)) idle_args = Inr (a, reg, ''ov'', Some (ph_overlay idle_host)) \<and>
     alloc_inv (w_alloc (snd (serve demo_env reg ''ov'' demo_reqs \<lparr>w_alloc = a, w_timer = new_timer JNull True, w_ticks = 0, w_sink = True,
       w_log = [], w_dev = new_pl_state ()\<rparr>)))"
proof -
  let ?ld = "\<lambda>_. Inr (ph_overlay idle_host)"
  let ?lib = "\<lparr>cl_has = (\<lambda>_. True), cl_call = (\<lambda>_ _ m. (0, m))\<rparr> :: clib"
  have reg: "register_all demo_env (ph_palloc idle_host) (\<lambda>p. map_option clib.truncate (ph_files idle_host p)) None [] =
      (Inr (), ps_registry demo_env (ph_palloc idle_host) ?lib :: (unit pl_state, pl_pending) registry)"
    by (rule register_all_ok) (simp_all add: load_lib_def idle_host_def clib.truncate_def list_all_iff)
  obtain a where a: "make_allocator (ph_palloc idle_host) ?ld idle_args = Inr (a, Some (ph_overlay idle_host))"
    by (simp add: make_allocator_def idle_args_def load_overlay_def pynq_slabs_def pynq_slabs_loop.simps [of _ _ _ "_ * _"] pynq_slab_def
        idle_host_def demo_pl_palloc_def MIB_def new_allocator_def pynq_slabs_loop.simps [of _ _ _ "numeral _"] pynq_slabs_loop.simps [of _ _ _ 0])
  have "fst (pl_register_all demo_env idle_host reg0) = Inr ()" for reg0
    by (simp add: pl_register_all_def py_simps py_when_def overlay_has_def register_kernel_def pl_loopback_kernel_def pl_matmul_kernel_def
        register_def idle_host_def)
  then obtain r where pl: "pl_register_all demo_env idle_host (ps_registry demo_env (ph_palloc idle_host) ?lib) = (Inr (), r)"
    by (metis prod.collapse)
  have r: "make_runtime demo_env idle_host ?ld idle_args = Inr (a, r, ''ov'', Some (ph_overlay idle_host))"
    unfolding make_runtime_def a reg using pl by (simp add: idle_args_def)
  have "pl_files_shape idle_host" "overlay_shape (ph_overlay idle_host)"
    by (auto simp: pl_files_shape_def overlay_shape_def idle_host_def clib_shape_def clib.truncate_def Let_def list_all2_refl split: if_splits)
  moreover have "\<forall>c n pa va cells. ph_palloc idle_host c n = Inr (pa, va, cells) \<longrightarrow> int (length cells) = n"
    by (auto simp: idle_host_def demo_pl_palloc_def split: if_splits)
  ultimately show ?thesis
    using daemon_keeps_invariant [OF r, of "\<lparr>w_alloc = a, w_timer = new_timer JNull True, w_ticks = 0, w_sink = True, w_log = [],
        w_dev = new_pl_state ()\<rparr>" demo_reqs] r by (metis prod.collapse sum.inject(2) world.select_convs(1))
qed

end
