(* ===== verification/Golden.thy ===== *)
theory Golden
  imports Layout
begin

text \<open>
  The reference arithmetic of \<^verbatim>\<open>fpga/bitstreams/matmul_q1a8/bench.py\<close>: the conversions and the truncating
  multiplication and addition of single precision numbers that the kernel implements, on bit patterns held in Python
  integers, the result of a row block computed with them, and the packer of the single-stream layout that the bench and
  \<^verbatim>\<open>board/kernels/pl/matmul_q1a8.py\<close> keep beside the one of \<^verbatim>\<open>proto/q1a8_layout.py\<close>.
\<close>

unbundle bit_operations_syntax

section \<open>Numbers\<close>

text \<open>\<open>int.bit_length\<close> of a number that is not negative, and \<open><<\<close> with its check.\<close>

function bit_length :: "int \<Rightarrow> int" where
  "bit_length n = (if n \<le> 0 then 0 else 1 + bit_length (n div 2))"
  by auto
termination
  by (relation "measure nat") auto

declare bit_length.simps [simp del]

definition py_shl :: "int \<Rightarrow> int \<Rightarrow> int res" where
  "py_shl v n = (if n < 0 then Inl ValueError else Inr (push_bit (nat n) v))"

definition fp16_bits_to_fp32_bits :: "int \<Rightarrow> int" where
  "fp16_bits_to_fp32_bits h =
     (let sgn = drop_bit 15 h AND 1;
          ex = drop_bit 10 h AND 0x1F;
          mant = h AND 0x3FF
      in if ex = 0 then push_bit 31 sgn
         else push_bit 31 sgn OR push_bit 23 (ex + 112) OR push_bit 13 mant)"

definition int_to_fp32_bits :: "int \<Rightarrow> int \<Rightarrow> int res" where
  "int_to_fp32_bits v width =
     (if v = 0 then Inr 0
      else
        let mag_w = width - 1;
            sgn = (if v < 0 then 1 else 0);
            mag = (if v < 0 then - v else v);
            msb_pos = bit_length mag - 1
        in bindR (py_shl mag (mag_w - 1 - msb_pos)) (\<lambda>mag_norm.
           bindR (py_shl 1 (mag_w - 1)) (\<lambda>top.
           bindR (py_shl (mag_norm AND (top - 1)) (23 - (mag_w - 1))) (\<lambda>mantissa.
             Inr (push_bit 31 sgn OR push_bit 23 (127 + msb_pos) OR mantissa)))))"

definition fp32_fields :: "int \<Rightarrow> int \<times> int \<times> int" where
  "fp32_fields a = (drop_bit 31 a AND 1, drop_bit 23 a AND 0xFF, a AND 0x7FFFFF)"

definition fp32_mul_trunc :: "int \<Rightarrow> int \<Rightarrow> int" where
  "fp32_mul_trunc a b =
     (case fp32_fields a of (sa, ea, ma) \<Rightarrow> case fp32_fields b of (sb, eb, mb) \<Rightarrow>
      if ea = 0 \<or> eb = 0 then 0
      else
        let sr = sa XOR sb;
            prod = (push_bit 23 1 OR ma) * (push_bit 23 1 OR mb);
            renorm = drop_bit 47 prod AND 1;
            mr = (if renorm \<noteq> 0 then drop_bit 24 prod AND 0x7FFFFF else drop_bit 23 prod AND 0x7FFFFF);
            er = (if renorm \<noteq> 0 then ea + eb - 127 + 1 else ea + eb - 127)
        in if er \<le> 0 then push_bit 31 sr
           else if er \<ge> 255 then push_bit 31 sr OR push_bit 23 0xFE OR 0x7FFFFF
           else push_bit 31 sr OR push_bit 23 er OR mr)"

text \<open>The normalisation at the end of \<open>fp32_add_trunc\<close>: the sum of the significands at the larger exponent.\<close>

definition fp32_normalize :: "int \<Rightarrow> int \<Rightarrow> int \<Rightarrow> int" where
  "fp32_normalize result_sign exp_big mant_sum =
     (if mant_sum = 0 then 0
      else
        let lead_pos = bit_length mant_sum - 1;
            mant_norm = (if lead_pos > 23 then drop_bit (nat (lead_pos - 23)) mant_sum
                         else if lead_pos < 23 then push_bit (nat (23 - lead_pos)) mant_sum else mant_sum);
            exp_signed = (if lead_pos > 23 then exp_big + (lead_pos - 23)
                          else if lead_pos < 23 then exp_big - (23 - lead_pos) else exp_big)
        in if exp_signed \<le> 0 then push_bit 31 result_sign
           else if exp_signed \<ge> 255 then push_bit 31 result_sign OR push_bit 23 0xFE OR 0x7FFFFF
           else push_bit 31 result_sign OR push_bit 23 exp_signed OR (mant_norm AND 0x7FFFFF))"

text \<open>The operands in the order of their exponents.\<close>

definition fp32_add_ordered :: "int \<Rightarrow> int \<Rightarrow> int \<Rightarrow> int \<Rightarrow> int \<Rightarrow> int \<Rightarrow> int" where
  "fp32_add_ordered sign_big exp_big mant_big sign_small exp_small mant_small =
     (let exp_diff = exp_big - exp_small;
          mant_small_aligned = (if exp_diff > 24 then 0 else drop_bit (nat exp_diff) mant_small)
      in case (if exp_diff = 0 \<and> mant_small_aligned > mant_big then (mant_small_aligned, mant_big, sign_small)
               else (mant_big, mant_small_aligned, sign_big)) of (m1, m2, result_sign) \<Rightarrow>
         fp32_normalize result_sign exp_big (if sign_big = sign_small then m1 + m2 else m1 - m2))"

definition fp32_add_trunc :: "int \<Rightarrow> int \<Rightarrow> int" where
  "fp32_add_trunc a b =
     (case fp32_fields a of (sa, ea, ma) \<Rightarrow> case fp32_fields b of (sb, eb, mb) \<Rightarrow>
      if ea = 0 then b
      else if eb = 0 then a
      else if ea \<ge> eb then fp32_add_ordered sa ea (push_bit 23 1 OR ma) sb eb (push_bit 23 1 OR mb)
      else fp32_add_ordered sb eb (push_bit 23 1 OR mb) sa ea (push_bit 23 1 OR ma))"

section \<open>The result of a row block\<close>

definition signed_sum :: "int \<Rightarrow> int list \<Rightarrow> int res" where
  "signed_sum weight_bits acts =
     foldR (\<lambda>acc i. bindR (py_index acts i) (\<lambda>x.
        Inr (acc + (if drop_bit (nat i) weight_bits AND 1 \<noteq> 0 then x else - x)))) 0 (py_range Q8_BLOCK)"

definition contribution :: "int \<Rightarrow> int list \<Rightarrow> int \<Rightarrow> int \<Rightarrow> int res" where
  "contribution weight_bits acts ws_h as_h =
     bindR (signed_sum weight_bits acts) (\<lambda>sub_sum.
     bindR (int_to_fp32_bits sub_sum 14) (\<lambda>ss_f32.
       Inr (fp32_mul_trunc (fp32_mul_trunc (fp16_bits_to_fp32_bits ws_h) (fp16_bits_to_fp32_bits as_h)) ss_f32)))"

type_synonym weight_row = "(int \<times> int) list"

definition golden_sub :: "int list \<Rightarrow> int list \<Rightarrow> int \<Rightarrow> int \<Rightarrow> int \<Rightarrow> int \<Rightarrow> int \<Rightarrow> int res" where
  "golden_sub acts act_scales ws_h bits128 q1_index acc sub =
     (let q8_local = sub * Q8_BLOCK;
          q8_index = q1_index * 4 + q8_local div Q8_BLOCK;
          act_block = py_slice acts (q8_index * Q8_BLOCK) ((q8_index + 1) * Q8_BLOCK);
          wb = drop_bit (nat q8_local) bits128 AND 0xFFFFFFFF
      in bindR (py_index act_scales q8_index) (\<lambda>as_h.
         bindR (contribution wb act_block ws_h as_h) (\<lambda>c. Inr (fp32_add_trunc acc c))))"

definition golden_row :: "weight_row \<Rightarrow> int list \<Rightarrow> int list \<Rightarrow> int res" where
  "golden_row row acts act_scales =
     foldR (\<lambda>acc (q1_index, ws_h, bits128). foldR (golden_sub acts act_scales ws_h bits128 q1_index) acc (py_range 4))
       0 (zip (py_range (int (length row))) row)"

definition golden_rowblock :: "weight_row list \<Rightarrow> int list \<Rightarrow> int list \<Rightarrow> int list res" where
  "golden_rowblock weight_rows acts act_scales =
     foldR (\<lambda>out row. bindR (py_index weight_rows row) (\<lambda>r. bindR (golden_row r acts act_scales) (\<lambda>acc. Inr (out @ [acc]))))
       [] (py_range ROWS_PER_BLOCK)"

text \<open>The masks of the source as remainders.\<close>

lemma and_masks:
  "n AND 1 = n mod 2" "n AND 0x1F = n mod 32" "n AND 0xFF = n mod 256" "n AND 0x3FF = n mod 1024" "n AND 0x7FFFFF = n mod 8388608"
  "n AND 0xFFFFFFFF = n mod 4294967296" for n :: int
  using take_bit_eq_mask [of 5 n] take_bit_eq_mask [of 8 n] take_bit_eq_mask [of 10 n] take_bit_eq_mask [of 23 n] take_bit_eq_mask [of 32 n]
  by (simp_all add: and_one_eq mask_eq_exp_minus_1 take_bit_eq_mod)

end
