(* ===== verification/GoldenSpec.thy ===== *)
theory GoldenSpec
  imports Golden Complex_Main
begin

text \<open>
  The numbers that the bit patterns of \<open>Golden\<close> stand for, and what its operations do to them.
\<close>

section \<open>Fields\<close>

definition fp32_word :: "int \<Rightarrow> bool" where
  "fp32_word b \<longleftrightarrow> 0 \<le> b \<and> b < 2 ^ 32"

definition fp32_value :: "int \<Rightarrow> real" where
  "fp32_value b = (case fp32_fields b of (s, e, m) \<Rightarrow>
     if e = 0 then 0 else (if s = 0 then 1 else -1) * (2 ^ 23 + of_int m) * 2 powi (e - 150))"

definition fp32_exponent :: "int \<Rightarrow> int" where
  "fp32_exponent b = fst (snd (fp32_fields b))"

lemma fp32_fields_arith: "fp32_fields b = (b div 2147483648 mod 2, b div 8388608 mod 256, b mod 8388608)"
  by (simp add: fp32_fields_def and_masks drop_bit_eq_div)

lemma fp32_fields_range:
  assumes "fp32_fields b = (s, e, m)"
  shows "s = 0 \<or> s = 1" "0 \<le> e" "e < 256" "0 \<le> m" "m < 8388608"
  using assms by (auto simp: fp32_fields_arith)

text \<open>A pattern put together from its fields.\<close>

definition fp32_pack :: "int \<Rightarrow> int \<Rightarrow> int \<Rightarrow> int" where
  "fp32_pack s e m = s * 2147483648 + e * 8388608 + m"

lemma or_pack:
  assumes "0 \<le> e" "e < 256" "0 \<le> m" "m < 8388608"
  shows "push_bit 31 s OR push_bit 23 e OR m = fp32_pack s e m"
proof -
  have em: "push_bit 23 e OR m = m + e * 8388608"
    using or_push_bit [of m 23 e] assms by (simp add: or.commute push_bit_eq_mult)
  moreover have "0 \<le> m + e * 8388608" "m + e * 8388608 < 2147483648" using assms by linarith+
  ultimately show ?thesis
    using or_push_bit [of "m + e * 8388608" 31 s] by (simp add: or.commute [of _ "push_bit 31 s"] or.commute push_bit_eq_mult fp32_pack_def)
qed

lemma pack_zero: "push_bit 31 s = fp32_pack s 0 0" for s :: int
  by (simp add: fp32_pack_def push_bit_eq_mult)

lemma fields_pack:
  assumes "s = 0 \<or> s = 1" "0 \<le> e" "e < 256" "0 \<le> m" "m < 8388608"
  shows "fp32_fields (fp32_pack s e m) = (s, e, m)" "fp32_word (fp32_pack s e m)"
proof -
  have "fp32_pack s e m = m + (s * 256 + e) * 8388608" by (simp add: fp32_pack_def)
  then have "fp32_pack s e m div 8388608 = s * 256 + e" "fp32_pack s e m mod 8388608 = m"
    using assms(4,5) by (simp_all only: div_mult_self1 mod_mult_self1) simp_all
  moreover have "fp32_pack s e m = (e * 8388608 + m) + s * 2147483648" by (simp add: fp32_pack_def)
  then have "fp32_pack s e m div 2147483648 = s" using assms(2-5) by (simp add: div_mult_self1)
  ultimately show "fp32_fields (fp32_pack s e m) = (s, e, m)" using assms by (auto simp: fp32_fields_arith)
  show "fp32_word (fp32_pack s e m)" using assms by (auto simp: fp32_word_def fp32_pack_def)
qed

lemma value_pack:
  assumes "s = 0 \<or> s = 1" "0 < e" "e < 256" "0 \<le> m" "m < 8388608"
  shows "fp32_value (fp32_pack s e m) = (if s = 0 then 1 else -1) * of_int (8388608 + m) * 2 powi (e - 150)"
  using fields_pack(1) [of s e m] assms by (simp add: fp32_value_def)

section \<open>Rounding\<close>

text \<open>
  \<open>truncates x b\<close>: the pattern \<open>b\<close> is the number \<open>x\<close> rounded towards zero to 24 significant bits.  There
  are no subnormal numbers and no infinities: what is too small is zero, what is too large is the largest number.
\<close>

definition truncates :: "real \<Rightarrow> int \<Rightarrow> bool" where
  "truncates x b \<longleftrightarrow> fp32_word b \<and> fp32_exponent b < 255 \<and>
     (if \<bar>x\<bar> < 2 powi -126 then fp32_value b = 0
      else if \<bar>x\<bar> \<ge> 2 ^ 128 then fp32_value b = sgn x * (2 ^ 24 - 1) * 2 powi 104
      else sgn (fp32_value b) = sgn x \<and> \<bar>fp32_value b\<bar> \<le> \<bar>x\<bar> \<and> \<bar>x\<bar> < \<bar>fp32_value b\<bar> + 2 powi (fp32_exponent b - 150))"

definition fp32_encode :: "int \<Rightarrow> int \<Rightarrow> int \<Rightarrow> int" where
  "fp32_encode s e sig = (if e \<le> 0 then fp32_pack s 0 0 else if e \<ge> 255 then fp32_pack s 254 8388607 else fp32_pack s e (sig - 8388608))"

lemma powi_mono: "a \<le> b \<Longrightarrow> (2::real) powi a \<le> 2 powi b" for a b :: int
  by (rule power_int_increasing) simp_all

lemma powi_shift: "(2::real) powi (a + int n) = 2 powi a * 2 ^ n"
  by (simp add: power_int_add)

text \<open>A significand of 24 bits that is at most one unit below the number.\<close>

lemma encode_truncates:
  assumes s: "s = 0 \<or> s = 1" and sig: "8388608 \<le> sig" "sig < 16777216"
    and x: "of_int sig * 2 powi (e - 150) \<le> \<bar>x\<bar>" "\<bar>x\<bar> < of_int (sig + 1) * 2 powi (e - 150)" "sgn x = (if s = 0 then 1 else -1)"
  shows "truncates x (fp32_encode s e sig)"
proof -
  have lo: "2 powi (e - 127) \<le> \<bar>x\<bar>"
  proof -
    have "2 powi (e - 127) = 8388608 * (2::real) powi (e - 150)" using powi_shift [of "e - 150" 23] by simp
    also have "\<dots> \<le> of_int sig * 2 powi (e - 150)" using sig by (intro mult_right_mono) simp_all
    finally show ?thesis using x(1) by simp
  qed
  have hi: "\<bar>x\<bar> < 2 powi (e - 126)"
  proof -
    have "of_int (sig + 1) * (2::real) powi (e - 150) \<le> 16777216 * 2 powi (e - 150)" using sig by (intro mult_right_mono) simp_all
    also have "\<dots> = 2 powi (e - 126)" using powi_shift [of "e - 150" 24] by simp
    finally show ?thesis using x(2) by simp
  qed
  consider "e \<le> 0" | "255 \<le> e" | "0 < e" "e < 255" by linarith
  then show ?thesis
  proof cases
    case 1
    have "2 powi (e - 126) \<le> (2::real) powi -126" using 1 by (intro powi_mono) simp
    then show ?thesis
      using 1 s hi fields_pack [of s 0 0] by (auto simp: truncates_def fp32_encode_def fp32_exponent_def fp32_value_def)
  next
    case 2
    have "(2::real) powi 128 \<le> 2 powi (e - 127)" using 2 by (intro powi_mono) simp
    then have big: "2 ^ 128 \<le> \<bar>x\<bar>" using lo by (simp add: power_int_numeral)
    have "(2::real) powi -126 \<le> 2 powi 128" by (rule powi_mono) simp
    then have "\<not> \<bar>x\<bar> < 2 powi -126" using big by (simp add: power_int_numeral)
    then show ?thesis
      using 2 s big x(3) fields_pack [of s 254 8388607] value_pack [of s 254 8388607]
      by (auto simp: truncates_def fp32_encode_def fp32_exponent_def)
  next
    case 3
    have "(2::real) powi -126 \<le> 2 powi (e - 127)" using 3 by (intro powi_mono) simp
    then have small: "\<not> \<bar>x\<bar> < 2 powi -126" using lo by simp
    have "2 powi (e - 126) \<le> (2::real) powi 128" using 3 by (intro powi_mono) simp
    then have big: "\<not> 2 ^ 128 \<le> \<bar>x\<bar>" using hi by (simp add: power_int_numeral)
    have v: "fp32_value (fp32_encode s e sig) = (if s = 0 then 1 else -1) * of_int sig * 2 powi (e - 150)"
      using 3 s sig value_pack [of s e "sig - 8388608"] by (simp add: fp32_encode_def)
    have pos: "0 < of_int sig * (2::real) powi (e - 150)" using sig by simp
    have "\<bar>fp32_value (fp32_encode s e sig)\<bar> = of_int sig * 2 powi (e - 150)" "sgn (fp32_value (fp32_encode s e sig)) = (if s = 0 then 1 else -1)"
      using v pos s sig by (auto simp: abs_mult sgn_mult)
    moreover have "fp32_exponent (fp32_encode s e sig) = e" "fp32_word (fp32_encode s e sig)"
      using 3 s sig fields_pack [of s e "sig - 8388608"] by (auto simp: fp32_encode_def fp32_exponent_def)
    ultimately show ?thesis using small big x 3 unfolding truncates_def by (simp add: algebra_simps)
  qed
qed

lemma truncates_zero: "truncates 0 0"
  by (simp add: truncates_def fp32_word_def fp32_exponent_def fp32_value_def fp32_fields_arith)

section \<open>Multiplication\<close>

abbreviation fp_sign :: "int \<Rightarrow> real" where
  "fp_sign s \<equiv> (if s = 0 then 1 else -1)"

lemma sign_mag:
  "0 < v \<Longrightarrow> \<bar>fp_sign s * v\<bar> = v" "0 < v \<Longrightarrow> sgn (fp_sign s * v) = fp_sign s"
  by (auto simp: abs_mult sgn_mult)

lemma fields_value:
  "fp32_fields a = (s, e, m) \<Longrightarrow> e \<noteq> 0 \<Longrightarrow> fp32_value a = fp_sign s * of_int (8388608 + m) * 2 powi (e - 150)"
  by (simp add: fp32_value_def)

lemma or_implicit_one: "0 \<le> m \<Longrightarrow> m < 8388608 \<Longrightarrow> push_bit 23 1 OR m = 8388608 + m" for m :: int
  using or_push_bit [of m 23 1] by (simp add: or.commute [of _ m])

lemma encode_pack:
  assumes "8388608 \<le> sig" "sig < 16777216" "s = 0 \<or> s = 1"
  shows "(if e \<le> 0 then push_bit 31 s else if e \<ge> 255 then push_bit 31 s OR push_bit 23 0xFE OR 0x7FFFFF
     else push_bit 31 s OR push_bit 23 e OR (sig AND 0x7FFFFF)) = fp32_encode s e sig"
proof -
  have "sig AND 0x7FFFFF = (sig - 8388608) mod 8388608" by (simp add: and_masks)
  also have "\<dots> = sig - 8388608" using assms by (intro mod_pos_pos_trivial) simp_all
  finally have "sig AND 0x7FFFFF = sig - 8388608" .
  then show ?thesis
    using or_pack [of 254 8388607 s] or_pack [of e "sig - 8388608" s] assms by (simp add: fp32_encode_def pack_zero)
qed

text \<open>The high bits of the product of two significands.\<close>

lemma product_top:
  fixes p :: int
  assumes "2 ^ 46 \<le> p" "p < 2 ^ 48"
  defines "n \<equiv> if 2 ^ 47 \<le> p then 24 else 23"
  shows "drop_bit 47 p AND 1 = (if 2 ^ 47 \<le> p then 1 else 0)" "8388608 \<le> drop_bit n p" "drop_bit n p < 16777216"
    "drop_bit n p * 2 ^ n \<le> p" "p < (drop_bit n p + 1) * 2 ^ n"
proof -
  show "drop_bit 47 p AND 1 = (if 2 ^ 47 \<le> p then 1 else 0)"
    using assms(1,2) by (auto simp: and_masks drop_bit_eq_div)
  show "8388608 \<le> drop_bit n p" "drop_bit n p < 16777216"
    using assms(1,2) unfolding n_def drop_bit_eq_div by (auto simp: not_le)
  show "drop_bit n p * 2 ^ n \<le> p" "p < (drop_bit n p + 1) * 2 ^ n"
    using div_mult_mod_eq [of p "2 ^ n"] pos_mod_bound [of "2 ^ n" p] pos_mod_sign [of "2 ^ n" p] zero_less_power [of "2::int" n]
    unfolding drop_bit_eq_div distrib_right by linarith+
qed

lemma mul_truncates:
  "truncates (fp32_value a * fp32_value b) (fp32_mul_trunc a b)"
proof -
  obtain sa ea ma where fa: "fp32_fields a = (sa, ea, ma)" by (cases "fp32_fields a") auto
  obtain sb eb mb where fb: "fp32_fields b = (sb, eb, mb)" by (cases "fp32_fields b") auto
  note ra = fp32_fields_range [OF fa] and rb = fp32_fields_range [OF fb]
  show ?thesis
  proof (cases "ea = 0 \<or> eb = 0")
    case True
    then have "fp32_value a * fp32_value b = 0" "fp32_mul_trunc a b = 0" using fa fb by (auto simp: fp32_mul_trunc_def fp32_value_def)
    then show ?thesis using truncates_zero by metis
  next
    case False
    let ?A = "8388608 + ma" and ?B = "8388608 + mb" and ?sr = "sa XOR sb"
    define p where "p = ?A * ?B"
    define n :: nat where "n = (if 2 ^ 47 \<le> p then 24 else 23)"
    have "2 ^ 23 * 2 ^ 23 \<le> p" unfolding p_def using ra rb by (intro mult_mono) simp_all
    then have p1: "2 ^ 46 \<le> p" by simp
    have "?A * ?B < 2 ^ 24 * 2 ^ 24" using ra rb by (intro mult_strict_mono) simp_all
    then have p2: "p < 2 ^ 48" by (simp add: p_def)
    note t = product_top [OF p1 p2, folded n_def]
    let ?e = "ea + eb - 150 + int n"
    have sr: "?sr = 0 \<or> ?sr = 1" using ra(1) rb(1) by auto
    have val: "fp32_value a * fp32_value b = fp_sign ?sr * (of_int p * 2 powi (ea + eb - 300))"
    proof -
      have "fp32_value a * fp32_value b = (fp_sign sa * fp_sign sb) * (of_int p * (2 powi (ea - 150) * 2 powi (eb - 150)))"
        using False fields_value [OF fa] fields_value [OF fb] by (simp add: p_def)
      also have "(2::real) powi (ea - 150) * 2 powi (eb - 150) = 2 powi (ea + eb - 300)" by (simp flip: power_int_add)
      also have "fp_sign sa * fp_sign sb = fp_sign ?sr" using ra(1) rb(1) by auto
      finally show ?thesis .
    qed
    have sh: "(2::real) powi (?e - 150) = 2 ^ n * 2 powi (ea + eb - 300)" using powi_shift [of "ea + eb - 300" n] by (simp add: algebra_simps)
    have "0 < of_int p * (2::real) powi (ea + eb - 300)" using p1 by simp
    then have mag: "\<bar>fp32_value a * fp32_value b\<bar> = of_int p * 2 powi (ea + eb - 300)" "sgn (fp32_value a * fp32_value b) = fp_sign ?sr"
      unfolding val by (rule sign_mag)+
    have "truncates (fp32_value a * fp32_value b) (fp32_encode ?sr ?e (drop_bit n p))"
    proof (rule encode_truncates [OF sr t(2,3)])
      have "real_of_int (drop_bit n p * 2 ^ n) \<le> of_int p" using t(4) by linarith
      then show "of_int (drop_bit n p) * 2 powi (?e - 150) \<le> \<bar>fp32_value a * fp32_value b\<bar>" unfolding mag(1) sh by simp
      have "of_int p < real_of_int ((drop_bit n p + 1) * 2 ^ n)" using t(5) by linarith
      then show "\<bar>fp32_value a * fp32_value b\<bar> < of_int (drop_bit n p + 1) * 2 powi (?e - 150)" unfolding mag(1) sh by (simp flip: mult.assoc)
    qed (rule mag(2))
    moreover have "fp32_mul_trunc a b = fp32_encode ?sr ?e (drop_bit n p)"
      unfolding encode_pack [OF t(2,3) sr, symmetric]
      unfolding fp32_mul_trunc_def fa fb prod.case Let_def or_implicit_one [OF ra(4,5)] or_implicit_one [OF rb(4,5)] p_def [symmetric] t(1)
      using False by (cases "2 ^ 47 \<le> p") (simp_all add: n_def)
    ultimately show ?thesis by simp
  qed
qed

section \<open>Addition\<close>

lemma bit_length_bounds:
  assumes "0 < n"
  shows "1 \<le> bit_length n" "2 ^ nat (bit_length n - 1) \<le> n" "n < 2 ^ nat (bit_length n)"
proof -
  have "1 \<le> bit_length n \<and> 2 ^ nat (bit_length n - 1) \<le> n \<and> n < 2 ^ nat (bit_length n)"
    using assms
  proof (induction n rule: bit_length.induct)
    case (1 n)
    show ?case
    proof (cases "n = 1")
      case True
      then show ?thesis by (simp add: bit_length.simps [of 1] bit_length.simps [of 0])
    next
      case False
      then have h: "0 < n div 2" using 1(2) by simp
      then have ih: "1 \<le> bit_length (n div 2)" "2 ^ nat (bit_length (n div 2) - 1) \<le> n div 2" "n div 2 < 2 ^ nat (bit_length (n div 2))"
        using 1 by simp_all
      have b: "bit_length n = 1 + bit_length (n div 2)" using 1(2) by (simp add: bit_length.simps [of n])
      then have "nat (bit_length n - 1) = Suc (nat (bit_length (n div 2) - 1))" "nat (bit_length n) = Suc (nat (bit_length (n div 2)))"
        using ih(1) by simp_all
      moreover have "2 * c \<le> n" if "c \<le> n div 2" for c using that by presburger
      note this [OF ih(2)]
      moreover have "n < 2 * c" if "n div 2 < c" for c using that by presburger
      note this [OF ih(3)]
      ultimately show ?thesis using b ih(1) by simp
    qed
  qed
  then show "1 \<le> bit_length n" "2 ^ nat (bit_length n - 1) \<le> n" "n < 2 ^ nat (bit_length n)" by simp_all
qed

lemma normalize_truncates:
  assumes M: "0 < M" and s: "s = 0 \<or> s = 1"
  shows "truncates (fp_sign s * (of_int M * 2 powi (E - 150))) (fp32_normalize s E M)"
proof -
  let ?x = "fp_sign s * (of_int M * 2 powi (E - 150)) :: real"
  define L where "L = bit_length M - 1"
  note b = bit_length_bounds [OF M]
  have L: "0 \<le> L" "2 ^ nat L \<le> M" "M < 2 * 2 ^ nat L" using b by (simp_all add: L_def nat_diff_distrib' flip: power_Suc)
  define sig where "sig = (if L > 23 then drop_bit (nat (L - 23)) M else if L < 23 then push_bit (nat (23 - L)) M else M)"
  define e where "e = E + (L - 23)"
  have "0 < of_int M * (2::real) powi (E - 150)" using M by simp
  then have mag: "\<bar>?x\<bar> = of_int M * 2 powi (E - 150)" "sgn ?x = fp_sign s" by (rule sign_mag)+
  have key: "8388608 \<le> sig \<and> sig < 16777216 \<and> of_int sig * (2::real) powi (e - 150) \<le> of_int M * 2 powi (E - 150) \<and>
      of_int M * 2 powi (E - 150) < of_int (sig + 1) * (2::real) powi (e - 150)"
  proof (cases "L > 23")
    case True
    define n where "n = nat (L - 23)"
    have nL: "nat L = n + 23" "e - 150 = E - 150 + int n" using True by (simp_all add: n_def e_def)
    have sg: "sig = M div 2 ^ n" using True by (simp add: sig_def n_def drop_bit_eq_div)
    have p: "(0::int) < 2 ^ n" by simp
    have dm: "sig * 2 ^ n \<le> M" "M < (sig + 1) * 2 ^ n"
      using div_mult_mod_eq [of M "2 ^ n"] pos_mod_bound [OF p, of M] pos_mod_sign [OF p, of M] unfolding sg distrib_right by linarith+
    have "8388608 * 2 ^ n \<le> M" "M < 16777216 * 2 ^ n" using L nL by (simp_all add: power_add)
    then have "8388608 * 2 ^ n < (sig + 1) * 2 ^ n" "sig * 2 ^ n < 16777216 * 2 ^ n" using dm by linarith+
    then have "8388608 < sig + 1" "sig < 16777216" using p by simp_all
    moreover have "real_of_int (sig * 2 ^ n) \<le> of_int M" "of_int M < real_of_int ((sig + 1) * 2 ^ n)" using dm by linarith+
    ultimately show ?thesis unfolding nL(2) powi_shift by (simp add: mult.assoc mult.commute [of "2 powi _"] flip: mult.assoc)
  next
    case False
    define n where "n = nat (23 - L)"
    have nL: "nat L + n = 23" "E - 150 = e - 150 + int n" using False L(1) by (simp_all add: n_def e_def)
    have sg: "sig = M * 2 ^ n" using False by (auto simp: sig_def n_def push_bit_eq_mult)
    have "2 ^ nat L * 2 ^ n \<le> sig" "sig < 2 * 2 ^ nat L * 2 ^ n" unfolding sg using L by simp_all
    then have "8388608 \<le> sig" "sig < 16777216" using nL(1) by (simp_all add: mult.assoc flip: power_add)
    then show ?thesis unfolding nL(2) powi_shift sg by (simp add: mult.assoc mult.commute [of "2 powi _"])
  qed
  then have "truncates ?x (fp32_encode s e sig)" using s mag by (intro encode_truncates) auto
  moreover have "fp32_normalize s E M = fp32_encode s e sig"
  proof -
    have "(if L > 23 then E + (L - 23) else if L < 23 then E - (23 - L) else E) = e" by (simp add: e_def)
    then show ?thesis
      unfolding fp32_normalize_def Let_def L_def [symmetric] sig_def [symmetric] using encode_pack [of sig s e] key s M
      by (simp only: if_False less_irrefl less_imp_neq [OF M, symmetric])
  qed
  ultimately show ?thesis by simp
qed

lemma pack_fields:
  assumes "fp32_word b" "fp32_fields b = (s, e, m)"
  shows "b = fp32_pack s e m"
proof -
  have f: "s = b div 2147483648 mod 2" "e = b div 8388608 mod 256" "m = b mod 8388608" using assms(2) by (simp_all add: fp32_fields_arith)
  have "b div 8388608 div 256 = b div 2147483648" by (simp flip: zdiv_zmult2_eq)
  then have "b div 8388608 = b div 2147483648 * 256 + e" using f(2) div_mult_mod_eq [of "b div 8388608" 256] by linarith
  moreover have "b div 2147483648 = s" unfolding f(1) using assms(1) by (intro mod_pos_pos_trivial [symmetric]) (auto simp: fp32_word_def)
  ultimately show ?thesis using div_mult_mod_eq [of b 8388608] f(3) by (simp add: fp32_pack_def)
qed

lemma truncates_self:
  assumes "fp32_word b" "fp32_exponent b < 255"
  shows "truncates (fp32_value b) b"
proof -
  obtain s e m where f: "fp32_fields b = (s, e, m)" by (cases "fp32_fields b") auto
  note r = fp32_fields_range [OF f]
  have b: "b = fp32_pack s e m" using assms(1) f by (rule pack_fields)
  show ?thesis
  proof (cases "e = 0")
    case True
    then have "fp32_value b = 0" using f by (simp add: fp32_value_def)
    then show ?thesis using assms by (simp add: truncates_def)
  next
    case False
    have e: "e < 255" using assms(2) f by (simp add: fp32_exponent_def)
    have v: "fp32_value b = fp_sign s * (of_int (8388608 + m) * 2 powi (e - 150))" using fields_value [OF f False] by simp
    have "0 < of_int (8388608 + m) * (2::real) powi (e - 150)" using r by simp
    then have mag: "\<bar>fp32_value b\<bar> = of_int (8388608 + m) * 2 powi (e - 150)" "sgn (fp32_value b) = fp_sign s"
      unfolding v by (rule sign_mag)+
    have "truncates (fp32_value b) (fp32_encode s e (8388608 + m))"
      by (rule encode_truncates) (use r mag in auto)
    moreover have "fp32_encode s e (8388608 + m) = b" using False r(2) e b by (simp add: fp32_encode_def)
    ultimately show ?thesis by simp
  qed
qed

text \<open>The aligned significand of the smaller operand, in units of the larger one, loses less than one unit.\<close>

lemma aligned_small:
  fixes m d :: int
  assumes "0 \<le> m" "m < 16777216" "0 \<le> d"
  defines "al \<equiv> (if d > 24 then 0 else drop_bit (nat d) m)"
  shows "of_int al * 2 powi u \<le> of_int m * (2::real) powi (u - d)" "of_int m * (2::real) powi (u - d) < of_int (al + 1) * 2 powi u"
    "0 \<le> al" "al \<le> m" "d = 0 \<Longrightarrow> al = m" "0 < d \<Longrightarrow> al < 8388608"
proof -
  let ?n = "nat d"
  have p: "(0::int) < 2 ^ ?n" by simp
  have al: "al = m div 2 ^ ?n"
  proof (cases "d > 24")
    case True
    then have "(2::int) ^ 24 \<le> 2 ^ ?n" by (intro power_increasing) simp_all
    then have "m div 2 ^ ?n = 0" using assms(1,2) by (intro div_pos_pos_trivial) simp_all
    then show ?thesis using True by (simp add: al_def)
  qed (simp add: al_def drop_bit_eq_div)
  have dm: "al * 2 ^ ?n \<le> m" "m < (al + 1) * 2 ^ ?n"
    using div_mult_mod_eq [of m "2 ^ ?n"] pos_mod_bound [OF p, of m] pos_mod_sign [OF p, of m] unfolding al distrib_right by linarith+
  have u: "(2::real) powi u = 2 powi (u - d) * 2 ^ ?n" using powi_shift [of "u - d" ?n] assms(3) by simp
  have "real_of_int (al * 2 ^ ?n) \<le> of_int m" "of_int m < real_of_int ((al + 1) * 2 ^ ?n)" using dm by linarith+
  then have "real_of_int al * 2 ^ ?n * 2 powi (u - d) \<le> of_int m * 2 powi (u - d)"
      "of_int m * 2 powi (u - d) < real_of_int (al + 1) * 2 ^ ?n * 2 powi (u - d)"
    by (intro mult_right_mono mult_strict_right_mono; simp)+
  then show "of_int al * 2 powi u \<le> of_int m * (2::real) powi (u - d)" "of_int m * (2::real) powi (u - d) < of_int (al + 1) * 2 powi u"
    unfolding u by (simp_all add: mult_ac)
  show a0: "0 \<le> al" using assms(1) by (simp add: al pos_imp_zdiv_nonneg_iff)
  have "al * 1 \<le> al * 2 ^ ?n" using a0 by (intro mult_left_mono) simp_all
  then show "al \<le> m" using dm(1) by linarith
  show "d = 0 \<Longrightarrow> al = m" by (simp add: al)
  assume "0 < d"
  then have "(2::int) ^ 1 \<le> 2 ^ ?n" by (intro power_increasing) simp_all
  then have "al * 2 \<le> al * 2 ^ ?n" using a0 by (intro mult_left_mono) simp_all
  then show "al < 8388608" using dm(1) assms(2) by linarith
qed

text \<open>The sum of a big and a small operand, in units of the last place of the big one.\<close>

lemma add_ordered_truncates:
  fixes mB mS E e :: int
  assumes B: "8388608 \<le> mB" "mB < 16777216" and S: "0 \<le> mS" "mS < 16777216" and d: "e \<le> E"
    and s: "sB = 0 \<or> sB = 1" "sS = 0 \<or> sS = 1"
  defines "x \<equiv> fp_sign sB * of_int mB * 2 powi (E - 150) + fp_sign sS * of_int mS * (2::real) powi (e - 150)"
  shows "\<exists>y. truncates y (fp32_add_ordered sB E mB sS e mS) \<and> \<bar>y - x\<bar> < 2 powi (E - 150) \<and> (E = e \<longrightarrow> y = x)"
proof -
  let ?u = "E - 150"
  define d where "d = E - e"
  define al where "al = (if d > 24 then 0 else drop_bit (nat d) mS)"
  define w where "w = of_int mS * (2::real) powi (?u - d)"
  have d: "0 \<le> d" using d by (simp add: d_def)
  note a = aligned_small(1,2) [OF S d, folded al_def, of ?u, folded w_def] aligned_small(3-6) [OF S d, folded al_def]
  have x: "x = fp_sign sB * (of_int mB * 2 powi ?u) + fp_sign sS * w"
    unfolding x_def w_def d_def by (simp add: algebra_simps)
  have run: "fp32_add_ordered sB E mB sS e mS =
      (case (if d = 0 \<and> al > mB then (al, mB, sS) else (mB, al, sB)) of (m1, m2, sr) \<Rightarrow>
       fp32_normalize sr E (if sB = sS then m1 + m2 else m1 - m2))"
    unfolding fp32_add_ordered_def Let_def d_def [symmetric] al_def [symmetric] ..
  have d0: "E = e \<longleftrightarrow> d = 0" by (simp add: d_def)
  have w: "of_int al * 2 powi ?u \<le> w" "w < of_int al * 2 powi ?u + 2 powi ?u" "d = 0 \<longrightarrow> w = of_int al * 2 powi ?u"
    using a(1,2,5) by (auto simp: algebra_simps w_def)
  have norm: "truncates (fp_sign sr * (of_int M * 2 powi ?u)) (fp32_normalize sr E M)" if "0 \<le> M" "sr = 0 \<or> sr = 1" for sr M
  proof (cases "M = 0")
    case True
    then show ?thesis using truncates_zero by (simp add: fp32_normalize_def)
  next
    case False
    then show ?thesis using normalize_truncates [of M sr E] that by simp
  qed
  consider "sB = sS" | "sB \<noteq> sS" "d = 0" "al > mB" | "sB \<noteq> sS" "\<not> (d = 0 \<and> al > mB)" by blast
  then show ?thesis
  proof cases
    case 1
    let ?y = "fp_sign sB * (of_int (mB + al) * 2 powi ?u)"
    have "\<bar>?y - x\<bar> < 2 powi ?u" "d = 0 \<longrightarrow> ?y = x" using w unfolding x 1 by (auto simp: algebra_simps abs_if)
    moreover have "truncates ?y (fp32_normalize sB E (mB + al))" using norm [of "mB + al" sB] B(1) a(3) s by simp
    ultimately show ?thesis using 1 unfolding run d0 by (intro exI [of _ ?y]) (auto simp: add.commute [of al])
  next
    case 2
    let ?y = "fp_sign sS * (of_int (al - mB) * 2 powi ?u)"
    have "?y = x" using w(3) 2 s unfolding x by (auto simp: algebra_simps)
    moreover have "truncates ?y (fp32_normalize sS E (al - mB))" using norm [of "al - mB" sS] 2 s by simp
    ultimately show ?thesis using 2 unfolding run d0 by (intro exI [of _ ?y]) simp
  next
    case 3
    have le: "al \<le> mB" using 3(2) a(6) B(1) d by (cases "d = 0") auto
    let ?y = "fp_sign sB * (of_int (mB - al) * 2 powi ?u)"
    have "\<bar>?y - x\<bar> < 2 powi ?u" "d = 0 \<longrightarrow> ?y = x" using w s 3(1) unfolding x by (auto simp: algebra_simps abs_if)
    moreover have "truncates ?y (fp32_normalize sB E (mB - al))" using norm [of "mB - al" sB] le s by simp
    ultimately show ?thesis using 3 unfolding run d0 by (intro exI [of _ ?y]) auto
  qed
qed

lemma add_truncates:
  assumes "fp32_word a" "fp32_exponent a < 255" "fp32_word b" "fp32_exponent b < 255"
  shows "\<exists>y. truncates y (fp32_add_trunc a b) \<and>
    \<bar>y - (fp32_value a + fp32_value b)\<bar> < 2 powi (max (fp32_exponent a) (fp32_exponent b) - 150) \<and>
    (fp32_exponent a = fp32_exponent b \<longrightarrow> y = fp32_value a + fp32_value b)"
proof -
  obtain sa ea ma where fa: "fp32_fields a = (sa, ea, ma)" by (cases "fp32_fields a") auto
  obtain sb eb mb where fb: "fp32_fields b = (sb, eb, mb)" by (cases "fp32_fields b") auto
  note ra = fp32_fields_range [OF fa] and rb = fp32_fields_range [OF fb]
  have e: "fp32_exponent a = ea" "fp32_exponent b = eb" using fa fb by (simp_all add: fp32_exponent_def)
  note or = or_implicit_one [OF ra(4,5)] or_implicit_one [OF rb(4,5)]
  consider "ea = 0" | "ea \<noteq> 0" "eb = 0" | "ea \<noteq> 0" "eb \<noteq> 0" "ea \<ge> eb" | "ea \<noteq> 0" "eb \<noteq> 0" "ea < eb" by linarith
  then show ?thesis
  proof cases
    case 1
    then have "fp32_value a = 0" "fp32_add_trunc a b = b" using fa fb by (simp_all add: fp32_value_def fp32_add_trunc_def)
    then show ?thesis using truncates_self [OF assms(3,4)] by (intro exI [of _ "fp32_value b"]) simp
  next
    case 2
    then have "fp32_value b = 0" "fp32_add_trunc a b = a" using fa fb by (simp_all add: fp32_value_def fp32_add_trunc_def)
    then show ?thesis using truncates_self [OF assms(1,2)] by (intro exI [of _ "fp32_value a"]) simp
  next
    case 3
    then have "fp32_add_trunc a b = fp32_add_ordered sa ea (8388608 + ma) sb eb (8388608 + mb)"
      by (simp only: fp32_add_trunc_def fa fb prod.case or if_True if_False)
    moreover have "fp32_value a + fp32_value b = fp_sign sa * of_int (8388608 + ma) * 2 powi (ea - 150) + fp_sign sb * of_int (8388608 + mb) * 2 powi (eb - 150)"
      using fields_value [OF fa] fields_value [OF fb] 3 by simp
    ultimately show ?thesis using add_ordered_truncates [of "8388608 + ma" "8388608 + mb" eb ea sa sb] 3 ra rb unfolding e by (simp add: max_absorb1)
  next
    case 4
    then have "fp32_add_trunc a b = fp32_add_ordered sb eb (8388608 + mb) sa ea (8388608 + ma)"
      by (simp only: fp32_add_trunc_def fa fb prod.case or if_True if_False not_le [symmetric])
    moreover have "fp32_value a + fp32_value b = fp_sign sb * of_int (8388608 + mb) * 2 powi (eb - 150) + fp_sign sa * of_int (8388608 + ma) * 2 powi (ea - 150)"
      using fields_value [OF fa] fields_value [OF fb] 4 by simp
    ultimately show ?thesis using add_ordered_truncates [of "8388608 + mb" "8388608 + ma" ea eb sb sa] 4 ra rb unfolding e by (simp add: max_absorb2)
  qed
qed

section \<open>Conversions\<close>

text \<open>A half precision number; its subnormal numbers count as zero, and the largest exponent is an ordinary one.\<close>

definition fp16_value :: "int \<Rightarrow> real" where
  "fp16_value h =
     (let s = h div 2 ^ 15 mod 2; e = h div 2 ^ 10 mod 2 ^ 5; m = h mod 2 ^ 10
      in if e = 0 then 0 else fp_sign s * (2 ^ 10 + of_int m) * 2 powi (e - 25))"

lemma fp16_exact:
  "fp32_value (fp16_bits_to_fp32_bits h) = fp16_value h" "fp32_word (fp16_bits_to_fp32_bits h)" "fp32_exponent (fp16_bits_to_fp32_bits h) < 255"
proof -
  define s e m where d: "s = h div 32768 mod 2" "e = h div 1024 mod 32" "m = h mod 1024"
  have r: "s = 0 \<or> s = 1" "0 \<le> e" "e < 32" "0 \<le> m" "m < 1024" by (auto simp: d)
  have c: "fp16_bits_to_fp32_bits h = (if e = 0 then fp32_pack s 0 0 else fp32_pack s (e + 112) (m * 8192))"
    using or_pack [of "e + 112" "m * 8192" s] r
    by (simp add: fp16_bits_to_fp32_bits_def Let_def and_masks drop_bit_eq_div pack_zero push_bit_eq_mult [of 13] flip: d)
  have "(2::real) powi (e - 25) = 8192 * 2 powi (e - 38)" using powi_shift [of "e - 38" 13] by simp
  then have "fp16_value h = (if e = 0 then 0 else fp_sign s * of_int (8388608 + m * 8192) * 2 powi (e + 112 - 150))"
    by (simp add: fp16_value_def Let_def algebra_simps flip: d)
  moreover have "fp32_value (fp32_pack s 0 0) = 0" using fields_pack(1) [of s 0 0] r(1) by (simp add: fp32_value_def)
  ultimately show "fp32_value (fp16_bits_to_fp32_bits h) = fp16_value h"
    unfolding c using value_pack [of s "e + 112" "m * 8192"] r by simp
  show "fp32_word (fp16_bits_to_fp32_bits h)" "fp32_exponent (fp16_bits_to_fp32_bits h) < 255"
    unfolding c using fields_pack [of s 0 0] fields_pack [of s "e + 112" "m * 8192"] r by (simp_all add: fp32_exponent_def)
qed

lemma int_exact:
  assumes w: "2 \<le> width" "width \<le> 25" and v: "\<bar>v\<bar> < 2 ^ nat (width - 1)"
  obtains b where "int_to_fp32_bits v width = Inr b" "fp32_value b = of_int v" "fp32_word b" "fp32_exponent b < 255"
proof (cases "v = 0")
  case True
  have "fp32_value 0 = 0" "fp32_word 0" "fp32_exponent 0 < 255" using truncates_zero by (simp_all add: truncates_def)
  then show ?thesis using True by (intro that [of 0]) (simp_all add: int_to_fp32_bits_def)
next
  case False
  define mag s where "mag = \<bar>v\<bar>" and "s = (if v < 0 then 1 else 0 :: int)"
  have mag: "(if v < 0 then - v else v) = mag" "0 < mag" using False by (auto simp: mag_def)
  define L where "L = bit_length mag - 1"
  note b = bit_length_bounds [OF mag(2)]
  have L: "0 \<le> L" "2 ^ nat L \<le> mag" "mag < 2 ^ nat (L + 1)" using b by (simp_all add: L_def)
  have "2 ^ nat L < (2::int) ^ nat (width - 1)" using L(2) v unfolding mag_def by (rule order.strict_trans1)
  then have "nat L < nat (width - 1)" by (rule power_less_imp_less_exp [rotated]) simp
  then have Lw: "L \<le> width - 2" using w by simp
  define n k where "n = nat (width - 2 - L)" and "k = nat (25 - width)"
  have nk: "nat L + n = nat (width - 2)" "n + k = nat (23 - L)" "nat (L + 1) + n = nat (width - 1)"
    using L(1) Lw w by (simp_all add: n_def k_def flip: nat_add_distrib)
  let ?t = "(2::int) ^ nat (width - 2)"
  have "2 ^ nat L * 2 ^ n \<le> mag * 2 ^ n" "mag * 2 ^ n < 2 ^ nat (L + 1) * 2 ^ n" using L by simp_all
  then have norm: "?t \<le> mag * 2 ^ n" "mag * 2 ^ n < 2 * ?t"
    unfolding power_add [symmetric] nk using w by (simp_all add: flip: power_Suc) (simp add: Suc_nat_eq_nat_zadd1)
  have "push_bit n mag AND (?t - 1) = (mag * 2 ^ n) mod ?t"
    by (simp add: push_bit_eq_mult take_bit_eq_mod flip: mask_eq_exp_minus_1 take_bit_eq_mask)
  also have "\<dots> = (mag * 2 ^ n - ?t) mod ?t" by simp
  also have "\<dots> = mag * 2 ^ n - ?t" using norm by (intro mod_pos_pos_trivial) simp_all
  finally have top: "push_bit n mag AND (?t - 1) = mag * 2 ^ n - ?t" .
  have "?t * 2 ^ k = 8388608" using w by (simp add: k_def flip: power_add nat_add_distrib)
  then have m: "push_bit k (mag * 2 ^ n - ?t) = mag * 2 ^ nat (23 - L) - 8388608"
    by (simp add: push_bit_eq_mult left_diff_distrib nk(2) [symmetric] power_add mult.assoc)
  let ?m = "mag * 2 ^ nat (23 - L) - 8388608"
  have "2 ^ nat L * 2 ^ nat (23 - L) = (8388608::int)" "2 ^ nat (L + 1) * 2 ^ nat (23 - L) = (16777216::int)"
    using L(1) Lw w by (simp_all flip: power_add nat_add_distrib)
  moreover have "2 ^ nat L * 2 ^ nat (23 - L) \<le> mag * 2 ^ nat (23 - L)" "mag * 2 ^ nat (23 - L) < 2 ^ nat (L + 1) * 2 ^ nat (23 - L)" using L by simp_all
  ultimately have mr: "0 \<le> ?m" "?m < 8388608" by simp_all
  have s: "s = 0 \<or> s = 1" by (simp add: s_def)
  have e: "0 < 127 + L" "127 + L < 255" using L(1) Lw w by simp_all
  have "int_to_fp32_bits v width = Inr (fp32_pack s (127 + L) ?m)"
  proof -
    have "py_shl mag (width - 1 - 1 - L) = Inr (push_bit n mag)" "py_shl 1 (width - 1 - 1) = Inr ?t"
      "py_shl z (23 - (width - 1 - 1)) = Inr (push_bit k z)" for z
      using Lw w by (simp_all add: py_shl_def n_def k_def push_bit_eq_mult diff_diff_eq)
    then have "int_to_fp32_bits v width = Inr (push_bit 31 s OR push_bit 23 (127 + L) OR push_bit k (push_bit n mag AND (?t - 1)))"
      using False by (simp only: int_to_fp32_bits_def Let_def mag(1) L_def [symmetric] s_def [symmetric] bindR_simps if_False)
    then show ?thesis unfolding top m using or_pack [of "127 + L" ?m s] e mr by simp
  qed
  moreover have "fp32_value (fp32_pack s (127 + L) ?m) = of_int v"
  proof -
    have "(2::real) ^ nat (23 - L) * 2 powi (127 + L - 150) = 1" using powi_shift [of "L - 23" "nat (23 - L)"] Lw w by (simp add: mult.commute)
    then have one: "of_int mag * (2::real) ^ nat (23 - L) * 2 powi (127 + L - 150) = of_int mag" by (simp add: mult.assoc)
    have "fp32_value (fp32_pack s (127 + L) ?m) = fp_sign s * (of_int mag * (2::real) ^ nat (23 - L) * 2 powi (127 + L - 150))"
      using value_pack [OF s e(1) _ mr] e by simp
    then show ?thesis unfolding one by (auto simp: s_def mag_def)
  qed
  moreover have "fp32_word (fp32_pack s (127 + L) ?m)" "fp32_exponent (fp32_pack s (127 + L) ?m) < 255"
    using fields_pack [OF s _ _ mr, of "127 + L"] e by (simp_all add: fp32_exponent_def)
  ultimately show ?thesis by (rule that)
qed

section \<open>The result of a row block\<close>

definition fp32_finite :: "int \<Rightarrow> bool" where
  "fp32_finite b \<longleftrightarrow> fp32_word b \<and> fp32_exponent b < 255"

lemma truncates_finite: "truncates x b \<Longrightarrow> fp32_finite b"
  by (simp add: truncates_def fp32_finite_def)

text \<open>The sum of the activations with the signs of the weights.\<close>

definition signed_dot :: "int \<Rightarrow> int list \<Rightarrow> int" where
  "signed_dot w acts = (\<Sum>i<32. if bit w i then acts ! i else - acts ! i)"

lemma foldR_sum:
  assumes "\<And>i. i \<in> set xs \<Longrightarrow> f i = Inr (g i)"
  shows "foldR (\<lambda>acc i. bindR (f i) (\<lambda>x. Inr (acc + h i x))) a xs = Inr (a + (\<Sum>i\<leftarrow>xs. h i (g i)))"
  using assms by (induction xs arbitrary: a) (simp_all add: add.assoc)

lemma signed_sum_dot:
  assumes "32 \<le> length acts"
  shows "signed_sum w acts = Inr (signed_dot w acts)"
proof -
  have "drop_bit n w AND 1 \<noteq> 0 \<longleftrightarrow> bit w n" for n by (simp add: and_one_eq bit_iff_odd_drop_bit mod_2_eq_odd)
  moreover have "py_index acts i = Inr (acts ! nat i)" if "i \<in> set (py_range 32)" for i using that assms by (intro py_index_in) auto
  ultimately have "signed_sum w acts = Inr (\<Sum>i\<leftarrow>py_range 32. if bit w (nat i) then acts ! nat i else - acts ! nat i)"
    unfolding signed_sum_def by (subst foldR_sum) auto
  also have "(\<Sum>i\<leftarrow>py_range 32. if bit w (nat i) then acts ! nat i else - acts ! nat i) = signed_dot w acts"
    by (simp add: signed_dot_def py_range_def comp_def interv_sum_list_conv_sum_set_nat atLeast0LessThan cong: if_cong)
  finally show ?thesis .
qed

text \<open>Activations of eight bits keep the sum within the thirteen bits of its conversion.\<close>

lemma signed_dot_bound:
  assumes "\<And>i. i < 32 \<Longrightarrow> -128 \<le> acts ! i \<and> acts ! i \<le> 127"
  shows "\<bar>signed_dot w acts\<bar> \<le> 4096"
proof -
  have "\<bar>signed_dot w acts\<bar> \<le> (\<Sum>i<32. \<bar>if bit w i then acts ! i else - acts ! i\<bar>)" unfolding signed_dot_def by (rule sum_abs)
  also have "\<dots> \<le> (\<Sum>i<(32::nat). 128)"
  proof (rule sum_mono)
    fix i :: nat assume "i \<in> {..<32}"
    then show "\<bar>if bit w i then acts ! i else - acts ! i\<bar> \<le> 128" using assms [of i] by auto
  qed
  finally show ?thesis by simp
qed

definition int8s :: "int list \<Rightarrow> bool" where
  "int8s acts \<longleftrightarrow> (\<forall>x \<in> set acts. -128 \<le> x \<and> x \<le> 127)"

lemma contribution_ok:
  assumes "32 \<le> length acts" "int8s acts"
  obtains p c where "contribution w acts ws as = Inr c" "truncates (fp16_value ws * fp16_value as) p"
    "truncates (fp32_value p * of_int (signed_dot w acts)) c"
proof -
  have "\<bar>signed_dot w acts\<bar> \<le> 4096" using assms by (intro signed_dot_bound) (simp add: int8s_def)
  then have "\<bar>signed_dot w acts\<bar> < 2 ^ nat (14 - 1)" by simp
  then obtain b where b: "int_to_fp32_bits (signed_dot w acts) 14 = Inr b" "fp32_value b = of_int (signed_dot w acts)"
    by (rule int_exact [rotated 2]) simp_all
  let ?p = "fp32_mul_trunc (fp16_bits_to_fp32_bits ws) (fp16_bits_to_fp32_bits as)"
  show ?thesis
  proof (rule that)
    show "contribution w acts ws as = Inr (fp32_mul_trunc ?p b)"
      using signed_sum_dot [OF assms(1)] b(1) by (simp add: contribution_def)
    show "truncates (fp16_value ws * fp16_value as) ?p"
      using mul_truncates [of "fp16_bits_to_fp32_bits ws" "fp16_bits_to_fp32_bits as"] by (simp add: fp16_exact)
    show "truncates (fp32_value ?p * of_int (signed_dot w acts)) (fp32_mul_trunc ?p b)" using mul_truncates [of ?p b] b(2) by simp
  qed
qed

lemma add_finite: "fp32_finite a \<Longrightarrow> fp32_finite b \<Longrightarrow> fp32_finite (fp32_add_trunc a b)"
  using add_truncates [of a b] truncates_finite by (auto simp: fp32_finite_def)

text \<open>A loop whose steps succeed and keep a property.\<close>

lemma foldR_keeps:
  assumes "\<And>s x. P s \<Longrightarrow> x \<in> set xs \<Longrightarrow> \<exists>s'. f s x = Inr s' \<and> P s'" "P s"
  shows "\<exists>s'. foldR f s xs = Inr s' \<and> P s'"
  using assms
proof (induction xs arbitrary: s)
  case (Cons x xs)
  then obtain s1 where "f s x = Inr s1" "P s1" by (metis list.set_intros(1))
  moreover have "\<exists>s'. foldR f s1 xs = Inr s' \<and> P s'" using Cons.prems(1) calculation(2) by (intro Cons.IH) (auto intro: list.set_intros)
  ultimately show ?case by simp
qed simp

definition bench_input :: "weight_row list \<Rightarrow> int list \<Rightarrow> int list \<Rightarrow> nat \<Rightarrow> bool" where
  "bench_input weight_rows acts act_scales q1_blocks \<longleftrightarrow> length weight_rows = 8 \<and> (\<forall>r \<in> set weight_rows. length r = q1_blocks) \<and>
     length acts = q1_blocks * 128 \<and> int8s acts \<and> length act_scales = q1_blocks * 4"

lemma golden_sub_ok:
  assumes "int8s acts" "length acts = n * 128" "length act_scales = n * 4" "0 \<le> q" "q < int n" "0 \<le> sub" "sub < 4" "fp32_finite acc"
  shows "\<exists>acc'. golden_sub acts act_scales ws bits q acc sub = Inr acc' \<and> fp32_finite acc'"
proof -
  let ?i = "q * 4 + sub"
  let ?a = "py_slice acts (?i * 32) ((?i + 1) * 32)"
  have i: "0 \<le> ?i" "?i < int n * 4" using assms by linarith+
  have "?a = take 32 (drop (nat (?i * 32)) acts)" "length ?a = 32"
    using i assms(2) py_slice_in [of "?i * 32" "(?i + 1) * 32" acts] by (simp_all add: algebra_simps)
  then have "32 \<le> length ?a" "int8s ?a" using assms(1) by (auto simp: int8s_def dest!: in_set_takeD in_set_dropD)
  then obtain c where c: "contribution (drop_bit (nat (sub * 32)) bits AND 0xFFFFFFFF) ?a ws (act_scales ! nat ?i) = Inr c" "fp32_finite c"
    by (metis contribution_ok truncates_finite)
  have "py_index act_scales ?i = Inr (act_scales ! nat ?i)" using i assms(3) by (intro py_index_in) auto
  then show ?thesis using c add_finite [OF assms(8) c(2)] by (simp add: golden_sub_def Let_def)
qed

lemma golden_row_ok:
  assumes "int8s acts" "length acts = n * 128" "length act_scales = n * 4" "length row = n"
  shows "\<exists>acc. golden_row row acts act_scales = Inr acc \<and> fp32_finite acc"
  unfolding golden_row_def
proof (rule foldR_keeps)
  fix acc x assume acc: "fp32_finite acc" and x: "x \<in> set (zip (py_range (int (length row))) row)"
  obtain q ws bits where xe: "x = (q, ws, bits)" by (cases x)
  have q: "0 \<le> q" "q < int n" using x assms(4) by (auto simp: xe dest!: set_zip_leftD)
  have "\<exists>acc'. foldR (golden_sub acts act_scales ws bits q) acc (py_range 4) = Inr acc' \<and> fp32_finite acc'"
    by (rule foldR_keeps [OF golden_sub_ok [OF assms(1-3) q]]) (use acc in auto)
  then show "\<exists>acc'. (\<lambda>(q1_index, ws_h, bits128). foldR (golden_sub acts act_scales ws_h bits128 q1_index) acc (py_range 4)) x = Inr acc' \<and> fp32_finite acc'"
    by (simp add: xe)
qed (use truncates_finite [OF truncates_zero] in simp)

lemma golden_rowblock_ok:
  assumes "bench_input weight_rows acts act_scales n"
  shows "\<exists>out. golden_rowblock weight_rows acts act_scales = Inr out \<and> length out = 8 \<and> list_all fp32_finite out"
proof -
  have b: "length weight_rows = 8" "\<And>r. r \<in> set weight_rows \<Longrightarrow> length r = n" "int8s acts" "length acts = n * 128" "length act_scales = n * 4"
    using assms by (auto simp: bench_input_def)
  let ?g = "\<lambda>i. case golden_row (weight_rows ! nat i) acts act_scales of Inr a \<Rightarrow> a"
  have g: "golden_row (weight_rows ! nat i) acts act_scales = Inr (?g i) \<and> fp32_finite (?g i)" if "i \<in> set (py_range 8)" for i
    using golden_row_ok [OF b(3-5), of "weight_rows ! nat i"] b(1,2) that by (auto simp: sum.case_eq_if)
  have ix: "py_index weight_rows i = Inr (weight_rows ! nat i)" if "i \<in> set (py_range 8)" for i using that b(1) by (intro py_index_in) auto
  have "foldR (\<lambda>out row. bindR (py_index weight_rows row) (\<lambda>r. bindR (golden_row r acts act_scales) (\<lambda>acc. Inr (out @ [acc])))) d xs = Inr (d @ map ?g xs)"
    if "set xs \<subseteq> set (py_range 8)" for d xs
    using that
  proof (induction xs arbitrary: d)
    case (Cons i xs)
    then have i: "i \<in> set (py_range 8)" by simp
    obtain a where "golden_row (weight_rows ! nat i) acts act_scales = Inr a" using g [OF i] by blast
    then show ?case using Cons ix [OF i] by simp
  qed simp
  then have "golden_rowblock weight_rows acts act_scales = Inr (map ?g (py_range 8))" by (simp add: golden_rowblock_def)
  moreover have "list_all fp32_finite (map ?g (py_range 8))" using g by (simp add: list_all_iff)
  ultimately show ?thesis by simp
qed

end
