(* ===== verification/Packers.thy ===== *)
theory Packers
  imports Golden LayoutProps
begin

text \<open>
  The two other packers of the single-stream layout: \<open>_pack_rowblock_into\<close> of
  \<^verbatim>\<open>board/kernels/pl/matmul_q1a8.py\<close>, which fills one row block from the Q1_0 weights, and
  \<open>pack_rowblock\<close> of the bench, which emits 64-bit beats from rows of scales and weight words.  Both are
  proved to emit the row block that \<open>pack_weights\<close> and \<open>merge_acts\<close> of
  \<^verbatim>\<open>proto/q1a8_layout.py\<close> produce.
\<close>

unbundle bit_operations_syntax

section \<open>The packer of the driver\<close>

definition q1_bytes_per_rowblock :: "int \<Rightarrow> int" where
  "q1_bytes_per_rowblock rows_per_block =
     (let scale_beats = (rows_per_block + 3) div 4; wbits_beats = (rows_per_block + 1) div 2
      in (scale_beats + 4 * (5 + wbits_beats)) * 8)"

definition rowblock_nbytes :: "int \<Rightarrow> int \<Rightarrow> int" where
  "rowblock_nbytes k rows_per_block = k div Q1_BLOCK * q1_bytes_per_rowblock rows_per_block"

text \<open>\<open>struct.unpack_from("<H", buf, offset)[0]\<close>.\<close>

definition unpack_from_H :: "byte list \<Rightarrow> int \<Rightarrow> int res" where
  "unpack_from_H buf offset =
     (let p = (if offset < 0 then offset + int (length buf) else offset) in
      if p < 0 \<or> int (length buf) < p + 2 then Inl StructError else Inr (le_value (py_slice buf p (p + 2))))"

definition into_scale :: "byte list \<Rightarrow> int \<Rightarrow> int \<Rightarrow> int \<Rightarrow> int \<Rightarrow> int \<Rightarrow> int res" where
  "into_scale weights row_start row_count weight_row_bytes q1_index lane =
     (if lane < row_count
      then unpack_from_H weights ((row_start + lane) * weight_row_bytes + q1_index * Q1_BLOCK_BYTES)
      else Inr 0)"

definition into_wbits :: "byte list \<Rightarrow> int \<Rightarrow> int \<Rightarrow> int \<Rightarrow> int \<Rightarrow> int \<Rightarrow> int \<Rightarrow> int res" where
  "into_wbits weights row_start row_count weight_row_bytes q1_index q8_local lane =
     Inr (if lane < row_count then
            let block_offset = (row_start + lane) * weight_row_bytes + q1_index * Q1_BLOCK_BYTES;
                bits_offset = block_offset + 2 + q8_local div 8
            in le_value (py_slice weights bits_offset (bits_offset + 4))
          else 0)"

text \<open>The word of a beat: \<open>lanes\<close> fields of \<open>width\<close> bits.\<close>

definition lane_word :: "(int \<Rightarrow> int res) \<Rightarrow> int \<Rightarrow> int \<Rightarrow> int \<Rightarrow> int res" where
  "lane_word bits lanes width beat =
     foldR (\<lambda>word local. bindR (bits (beat * lanes + local)) (\<lambda>b. Inr (word OR push_bit (nat (local * width)) b)))
       0 (py_range lanes)"

definition into_sub :: "byte list \<Rightarrow> int \<Rightarrow> int \<Rightarrow> int \<Rightarrow> int list \<Rightarrow> int list \<Rightarrow> int \<Rightarrow> int \<Rightarrow> cursor_buf \<Rightarrow> int \<Rightarrow> cursor_buf res" where
  "into_sub weights row_start row_count weight_row_bytes act_quants act_scale_bits wbits_beats q1_index st sub =
     (let q8_local = sub * Q8_BLOCK;
          q8_base = q1_index * Q1_BLOCK + q8_local;
          quants = map word_of_int (py_slice act_quants q8_base (q8_base + Q8_BLOCK))
      in bindR (put_beat (py_index act_scale_bits (q8_base div Q8_BLOCK)) (put_bytes quants Q8_BLOCK st)) (\<lambda>st.
         foldR (\<lambda>st beat.
             put_beat (lane_word (into_wbits weights row_start row_count weight_row_bytes q1_index q8_local) 2 32 beat) st)
           st (py_range wbits_beats)))"

definition into_q1_block :: "byte list \<Rightarrow> int \<Rightarrow> int \<Rightarrow> int \<Rightarrow> int list \<Rightarrow> int list \<Rightarrow> int \<Rightarrow> int \<Rightarrow> cursor_buf \<Rightarrow> int \<Rightarrow> cursor_buf res" where
  "into_q1_block weights row_start row_count weight_row_bytes act_quants act_scale_bits scale_beats wbits_beats st q1_index =
     bindR (foldR (\<lambda>st beat.
               put_beat (lane_word (into_scale weights row_start row_count weight_row_bytes q1_index) 4 16 beat) st)
             st (py_range scale_beats)) (\<lambda>st.
       foldR (into_sub weights row_start row_count weight_row_bytes act_quants act_scale_bits wbits_beats q1_index)
         st (py_range 4))"

definition pack_rowblock_into ::
  "byte list \<Rightarrow> byte list \<Rightarrow> int \<Rightarrow> int \<Rightarrow> int \<Rightarrow> int list \<Rightarrow> int list \<Rightarrow> int \<Rightarrow> int \<Rightarrow> byte list res" where
  "pack_rowblock_into out weights row_start row_count weight_row_bytes act_quants act_scale_bits k rows_per_block =
     (if int (length out) \<noteq> rowblock_nbytes k rows_per_block then Inl ValueError
      else if row_count < 1 \<or> row_count > rows_per_block then Inl ValueError
      else
        let scale_beats = (rows_per_block + 3) div 4; wbits_beats = (rows_per_block + 1) div 2 in
        bindR (foldR (into_q1_block weights row_start row_count weight_row_bytes act_quants act_scale_bits scale_beats wbits_beats)
                 (out, 0) (py_range (k div Q1_BLOCK)))
          (\<lambda>st. Inr (fst st)))"

section \<open>The packer of the bench\<close>

definition bench_scale :: "weight_row list \<Rightarrow> int \<Rightarrow> int \<Rightarrow> int res" where
  "bench_scale weight_rows q1_index lane =
     (if lane < ROWS_PER_BLOCK
      then bindR (py_index weight_rows lane) (\<lambda>row. bindR (py_index row q1_index) (\<lambda>b. Inr (fst b)))
      else Inr 0)"

definition bench_wbits :: "weight_row list \<Rightarrow> int \<Rightarrow> int \<Rightarrow> int \<Rightarrow> int res" where
  "bench_wbits weight_rows q1_index q8_local lane =
     (if lane < ROWS_PER_BLOCK
      then bindR (py_index weight_rows lane) (\<lambda>row. bindR (py_index row q1_index) (\<lambda>b.
             Inr (drop_bit (nat q8_local) (snd b) AND 0xFFFFFFFF)))
      else Inr 0)"

definition emit_beat :: "int res \<Rightarrow> int list \<Rightarrow> int list res" where
  "emit_beat word beats = bindR word (\<lambda>w. Inr (beats @ [w]))"

definition bench_sub :: "weight_row list \<Rightarrow> int list \<Rightarrow> int list \<Rightarrow> int \<Rightarrow> int list \<Rightarrow> int \<Rightarrow> int list res" where
  "bench_sub weight_rows acts act_scales q1_index beats sub =
     (let q8_local = sub * Q8_BLOCK;
          q8_index = q1_index * 4 + q8_local div Q8_BLOCK;
          act_block = py_slice acts (q8_index * Q8_BLOCK) ((q8_index + 1) * Q8_BLOCK);
          act_byte = (\<lambda>i. bindR (py_index act_block i) (\<lambda>x. Inr (x AND 0xFF)))
      in bindR (foldR (\<lambda>beats beat. emit_beat (lane_word act_byte 8 8 beat) beats) beats (py_range 4)) (\<lambda>beats.
         bindR (emit_beat (py_index act_scales q8_index) beats) (\<lambda>beats.
         foldR (\<lambda>beats beat. emit_beat (lane_word (bench_wbits weight_rows q1_index q8_local) 2 32 beat) beats)
           beats (py_range WBITS_BEATS))))"

definition bench_q1_block :: "weight_row list \<Rightarrow> int list \<Rightarrow> int list \<Rightarrow> int list \<Rightarrow> int \<Rightarrow> int list res" where
  "bench_q1_block weight_rows acts act_scales beats q1_index =
     bindR (foldR (\<lambda>beats beat. emit_beat (lane_word (bench_scale weight_rows q1_index) 4 16 beat) beats)
             beats (py_range SCALE_BEATS)) (\<lambda>beats.
       foldR (bench_sub weight_rows acts act_scales q1_index) beats (py_range 4))"

definition bench_pack_rowblock :: "weight_row list \<Rightarrow> int list \<Rightarrow> int list \<Rightarrow> int \<Rightarrow> int list res" where
  "bench_pack_rowblock weight_rows acts act_scales q1_blocks =
     foldR (bench_q1_block weight_rows acts act_scales) [] (py_range q1_blocks)"

text \<open>\<open>b"".join(struct.pack("<Q", w) for w in all_beats)\<close>.\<close>

definition pack_Q :: "int \<Rightarrow> byte list res" where
  "pack_Q w = (if w < 0 \<or> 2 ^ 64 \<le> w then Inl StructError else Inr (le_bytes 8 w))"

definition join_beats :: "int list \<Rightarrow> byte list res" where
  "join_beats beats = foldR (\<lambda>out w. bindR (pack_Q w) (\<lambda>b. Inr (out @ b))) [] beats"

section \<open>Lanes and beats\<close>

lemma py_range_mult:
  "concat (map (\<lambda>b. map (\<lambda>i. b * int m + i) (py_range (int m))) (py_range (int c))) = py_range (int c * int m)"
proof (induction c)
  case (Suc c)
  have "py_range (int (Suc c)) = py_range (int c) @ [int c]" by (simp add: py_range_def nat_add_distrib)
  moreover have "py_range (int (Suc c) * int m) = py_range (int c * int m) @ map (\<lambda>i. int c * int m + i) (py_range (int m))"
  proof -
    have n: "nat (int (Suc c) * int m) = c * m + m" "nat (int c * int m) = c * m"
      by (simp_all add: nat_mult_distrib nat_add_distrib algebra_simps flip: of_nat_mult)
    have "[c * m..<c * m + m] = map (\<lambda>i. c * m + i) [0..<m]"
      by (rule nth_equalityI) simp_all
    then show ?thesis unfolding py_range_def n upt_add_eq_append [OF le0] by simp
  qed
  ultimately show ?case using Suc by simp
qed (simp add: py_range_def)

lemma beats_are_lanes:
  "concat (map (\<lambda>b. concat (map (\<lambda>i. g (b * int m + i)) (py_range (int m)))) (py_range (int c))) =
   concat (map g (py_range (int c * int m)))"
proof -
  have "concat (map g (concat (map (\<lambda>b. map (\<lambda>i. b * int m + i) (py_range (int m))) xs))) =
      concat (map (\<lambda>b. concat (map (\<lambda>i. g (b * int m + i)) (py_range (int m)))) xs)" for xs
    by (induction xs) (simp_all add: comp_def)
  from this [of "py_range (int c)"] show ?thesis by (simp only: py_range_mult)
qed

lemma lane_word_value:
  assumes "\<And>i. 0 \<le> i \<Longrightarrow> i < int m \<Longrightarrow> bits (beat * int m + i) = Inr (le_value (g (beat * int m + i)))"
    and "\<And>i. 0 \<le> i \<Longrightarrow> i < int m \<Longrightarrow> length (g (beat * int m + i)) = n"
  shows "lane_word bits (int m) (int (8 * n)) beat =
    Inr (le_value (concat (map (\<lambda>i. g (beat * int m + i)) (py_range (int m)))))"
  using foldR_lanes [of m "\<lambda>i. bits (beat * int m + i)" "\<lambda>i. g (beat * int m + int i)" n] assms
  by (simp add: lane_word_def py_range_def comp_def)

text \<open>
  What the two packers share: a sink of beats.  A state of the sink represents the bytes written so far, and
  a beat of eight bytes extends them as long as they fit.
\<close>

locale beat_sink =
  fixes holds :: "'s \<Rightarrow> byte list \<Rightarrow> bool"
    and emit :: "int res \<Rightarrow> 's \<Rightarrow> 's res"
    and fits :: "nat \<Rightarrow> bool"
  assumes emit: "holds s d \<Longrightarrow> length bs = 8 \<Longrightarrow> fits (length d + 8) \<Longrightarrow>
      \<exists>s'. emit (Inr (le_value bs)) s = Inr s' \<and> holds s' (d @ bs)"
    and fits_down: "fits m \<Longrightarrow> n \<le> m \<Longrightarrow> fits n"
begin

lemma emit_all:
  assumes "\<And>x s d. x \<in> set xs \<Longrightarrow> holds s d \<Longrightarrow> fits (length d + length (f x)) \<Longrightarrow>
      \<exists>s'. step s x = Inr s' \<and> holds s' (d @ f x)"
    and "holds s d" "fits (length d + length (concat (map f xs)))"
  shows "\<exists>s'. foldR step s xs = Inr s' \<and> holds s' (d @ concat (map f xs))"
  using assms
proof (induction xs arbitrary: s d)
  case (Cons x xs)
  have "fits (length d + length (f x))" using Cons.prems(3) by (rule fits_down) simp
  then obtain s' where s': "step s x = Inr s'" "holds s' (d @ f x)" using Cons.prems(1,2) by (meson list.set_intros(1))
  have "fits (length (d @ f x) + length (concat (map f xs)))" using Cons.prems(3) by (simp add: add.assoc)
  then have "\<exists>s''. foldR step s' xs = Inr s'' \<and> holds s'' ((d @ f x) @ concat (map f xs))"
    by (intro Cons.IH [OF _ s'(2)]) (auto intro: Cons.prems(1))
  with s'(1) show ?case by simp
qed simp

lemma emit_lanes:
  assumes "\<And>i. 0 \<le> i \<Longrightarrow> i < int c * int m \<Longrightarrow> bits i = Inr (le_value (g i)) \<and> length (g i) = n"
    and mn: "m * n = 8" and s: "holds s d" and fits: "fits (length d + c * 8)"
  shows "\<exists>s'. foldR (\<lambda>s beat. emit (lane_word bits (int m) (int (8 * n)) beat) s) s (py_range (int c)) = Inr s' \<and>
    holds s' (d @ concat (map g (py_range (int c * int m))))"
proof -
  let ?f = "\<lambda>b. concat (map (\<lambda>i. g (b * int m + i)) (py_range (int m)))"
  have lane: "0 \<le> b * int m + i \<and> b * int m + i < int c * int m" if "0 \<le> b" "b < int c" "0 \<le> i" "i < int m" for b i
    using that mult_right_mono [of "b + 1" "int c" "int m"] by (auto simp: algebra_simps)
  have word: "lane_word bits (int m) (int (8 * n)) b = Inr (le_value (?f b))" if "0 \<le> b" "b < int c" for b
    using assms(1) lane that by (intro lane_word_value) auto
  have len: "length (?f b) = 8" if "0 \<le> b" "b < int c" for b
    using assms(1) lane that mn by (subst length_concat_blocks [of _ _ n]) auto
  have "length (concat (map ?f (py_range (int c)))) = c * 8"
    using len by (subst length_concat_blocks [of _ _ 8]) auto
  then have "\<exists>s'. foldR (\<lambda>s beat. emit (lane_word bits (int m) (int (8 * n)) beat) s) s (py_range (int c)) = Inr s' \<and>
      holds s' (d @ concat (map ?f (py_range (int c))))"
    using fits s word len emit by (intro emit_all) auto
  then show ?thesis by (simp add: beats_are_lanes)
qed

end

text \<open>A buffer whose first bytes are written; the others are what the caller left there.\<close>

definition written :: "byte list \<Rightarrow> byte list \<Rightarrow> cursor_buf" where
  "written out d = (d @ drop (length d) out, int (length d))"

lemma put_bytes_written:
  "int (length bs) = m \<Longrightarrow> length d + length bs \<le> length out \<Longrightarrow> put_bytes bs m (written out d) = written out (d @ bs)"
  by (auto simp: put_bytes_def written_def slice_assign_in nat_add_distrib algebra_simps)

lemma put_beat_written:
  assumes "length bs = 8" "length d + 8 \<le> length out"
  shows "put_beat (Inr (le_value bs)) (written out d) = Inr (written out (d @ bs))"
proof -
  have v: "0 \<le> le_value bs" "le_value bs < 2 ^ 64" using le_value_bound [of bs] assms(1) by auto
  have "put_beat (Inr (le_value bs)) (written out d) = Inr (put_bytes (le_bytes 8 (le_value bs)) 8 (written out d))"
    using assms v by (simp add: put_beat_def put_bytes_def written_def pack_into_Q_def Let_def)
  also have "put_bytes (le_bytes 8 (le_value bs)) 8 (written out d) = written out (d @ bs)"
    unfolding le_bytes_le_value [OF assms(1)] using assms by (intro put_bytes_written) simp_all
  finally show ?thesis .
qed

interpretation buffer: beat_sink "\<lambda>s d. s = written out d" put_beat "\<lambda>m. m \<le> length out" for out
  by unfold_locales (auto simp: put_beat_written)

lemma buffer_emit_all:
  assumes "\<And>x d. x \<in> set xs \<Longrightarrow> length d + length (f x) \<le> length out \<Longrightarrow> step (written out d) x = Inr (written out (d @ f x))"
    and "length d + length (concat (map f xs)) \<le> length out"
  shows "foldR step (written out d) xs = Inr (written out (d @ concat (map f xs)))"
  using buffer.emit_all [of xs out f step "written out d" d] assms by blast

lemma buffer_emit_lanes:
  assumes "\<And>i. 0 \<le> i \<Longrightarrow> i < int c * int m \<Longrightarrow> bits i = Inr (le_value (g i)) \<and> length (g i) = n"
    and "m * n = 8" "length d + c * 8 \<le> length out"
  shows "foldR (\<lambda>s beat. put_beat (lane_word bits (int m) (int (8 * n)) beat) s) (written out d) (py_range (int c)) =
    Inr (written out (d @ concat (map g (py_range (int c * int m)))))"
  using buffer.emit_lanes [of c m bits g n "written out d" out d] assms by blast

lemma join_beats_snoc: "join_beats (beats @ [w]) = bindR (join_beats beats) (\<lambda>d. bindR (pack_Q w) (\<lambda>b. Inr (d @ b)))"
  by (auto simp: join_beats_def foldR_append split: bindR_split)

lemma pack_Q_value: "length bs = 8 \<Longrightarrow> pack_Q (le_value bs) = Inr bs"
  using le_value_bound [of bs] le_bytes_le_value [of bs 8] by (simp add: pack_Q_def)

interpretation stream: beat_sink "\<lambda>beats d. join_beats beats = Inr d" emit_beat "\<lambda>_. True"
  by unfold_locales (auto simp: emit_beat_def join_beats_snoc pack_Q_value)

section \<open>The row block of the merged stream\<close>

definition rowblock_bytes ::
  "(int \<Rightarrow> int \<Rightarrow> byte list) \<Rightarrow> (int \<Rightarrow> byte list) \<Rightarrow> (int \<Rightarrow> int \<Rightarrow> int \<Rightarrow> byte list) \<Rightarrow> int \<Rightarrow> byte list" where
  "rowblock_bytes sc ab wb q1 =
     concat (map (sc q1) (py_range 8)) @
     concat (map (\<lambda>sub. ab (q1 * 4 + sub) @ concat (map (wb q1 sub) (py_range 8))) (py_range 4))"

abbreviation source_block :: "byte list \<Rightarrow> int \<Rightarrow> int \<Rightarrow> int \<Rightarrow> byte list \<Rightarrow> byte list \<Rightarrow> int \<Rightarrow> byte list" where
  "source_block w rows bpr rb quants scales \<equiv>
     rowblock_bytes (\<lambda>q1 lane. scale_bytes w rows bpr q1 (rb * 8 + lane)) (act_block quants scales)
       (\<lambda>q1 sub lane. wbits_bytes w rows bpr q1 sub (rb * 8 + lane))"

lemma packed_block_slices:
  assumes ok: "weights_ok w rows bpr" and q: "0 \<le> rb" "0 \<le> q1" "q1 < bpr"
  shows "py_slice (packed_block w rows bpr rb q1) 0 16 =
      concat (map (\<lambda>lane. scale_bytes w rows bpr q1 (rb * 8 + lane)) (py_range 8))"
    and "0 \<le> sub \<Longrightarrow> sub < 4 \<Longrightarrow> py_slice (packed_block w rows bpr rb q1) (16 + sub * 32) (16 + sub * 32 + 32) =
      concat (map (\<lambda>lane. wbits_bytes w rows bpr q1 sub (rb * 8 + lane)) (py_range 8))"
proof -
  let ?ss = "concat (map (\<lambda>lane. scale_bytes w rows bpr q1 (rb * 8 + lane)) (py_range 8))"
  let ?w1 = "\<lambda>sub. concat (map (\<lambda>lane. wbits_bytes w rows bpr q1 sub (rb * 8 + lane)) (py_range 8))"
  let ?ws = "concat (map ?w1 (py_range 4))"
  have lss: "length ?ss = 16"
    using assms by (subst length_concat_blocks [of _ _ 2]) (auto simp: length_scale_bytes)
  have lw1: "length (?w1 s) = 32" if "0 \<le> s" "s < 4" for s
    using assms that by (subst length_concat_blocks [of _ _ 4]) (auto simp: length_wbits_bytes)
  have lws: "length ?ws = 128" using lw1 by (subst length_concat_blocks [of _ _ 32]) auto
  have blk: "packed_block w rows bpr rb q1 = ?ss @ ?ws" by (simp add: packed_block_def)
  show "py_slice (packed_block w rows bpr rb q1) 0 16 = ?ss"
    using py_slice_append1 [of 0 16 ?ss ?ws] lss py_slice_all [of ?ss 16] by (simp add: blk)
  assume s: "0 \<le> sub" "sub < 4"
  show "py_slice (packed_block w rows bpr rb q1) (16 + sub * 32) (16 + sub * 32 + 32) = ?w1 sub"
    using py_slice_append2 [of "sub * 32" 32 ?ws ?ss] slice_of_blocks [of 4 ?w1 32 sub 0 32] lss lw1 lws s
      py_slice_all [of "?w1 sub" 32] by (simp add: blk)
qed

lemma merged_is_source:
  assumes ok: "weights_ok w rows bpr" and q: "0 \<le> rb" "rb < rowblocks_for rows" "0 \<le> q1" "q1 < bpr"
  shows "merged_block (packed_weights w rows bpr) quants scales ((rb * bpr + q1) * 144) q1 =
    source_block w rows bpr rb quants scales q1"
proof -
  let ?p = "(rb * bpr + q1) * 144"
  have "py_slice (packed_weights w rows bpr) ?p (?p + 16) = py_slice (packed_block w rows bpr rb q1) 0 16"
    using packed_block_at [OF ok q, of 0 16] by simp
  moreover have "py_slice (packed_weights w rows bpr) (?p + 16 + sub * 32) (?p + 16 + sub * 32 + 32) =
      py_slice (packed_block w rows bpr rb q1) (16 + sub * 32) (16 + sub * 32 + 32)" if "0 \<le> sub" "sub < 4" for sub
    using packed_block_at [OF ok q, of "16 + sub * 32" 32] that by (simp add: add.assoc)
  ultimately show ?thesis
    unfolding merged_block_def rowblock_bytes_def using packed_block_slices [OF ok q(1,3,4)]
    by (intro arg_cong2 [where f = "(@)"] arg_cong [where f = concat] map_cong) auto
qed

lemma merged_rowblock:
  assumes ok: "weights_ok w rows bpr" and acts: "acts_ok quants scales bpr" and rb: "0 \<le> rb" "rb < rowblocks_for rows"
  shows "py_slice (merged_stream (packed_weights w rows bpr) quants scales (rowblocks_for rows) bpr)
      (rb * (bpr * 304)) (rb * (bpr * 304) + bpr * 304) =
    concat (map (source_block w rows bpr rb quants scales) (py_range bpr))"
    and "length (concat (map (source_block w rows bpr rb quants scales) (py_range bpr))) = nat (bpr * 304)"
proof -
  let ?b = "\<lambda>rb q1. merged_block (packed_weights w rows bpr) quants scales ((rb * bpr + q1) * 144) q1"
  let ?row = "\<lambda>rb. concat (map (?b rb) (py_range bpr))"
  have bpr: "0 \<le> bpr" using ok by (simp add: weights_ok_def)
  have lb: "length (?b r q) = 304" if "0 \<le> r" "r < rowblocks_for rows" "0 \<le> q" "q < bpr" for r q
    using mult_right_mono [of "r + 1" "rowblocks_for rows" bpr] that ok length_packed_weights [OF ok]
    by (intro length_merged_block [OF acts]) (auto simp: algebra_simps)
  have lrow: "length (?row r) = nat (bpr * 304)" if "0 \<le> r" "r < rowblocks_for rows" for r
    using lb that by (subst length_concat_blocks [of _ _ 304]) (auto simp: nat_mult_distrib)
  have row: "?row rb = concat (map (source_block w rows bpr rb quants scales) (py_range bpr))"
    using merged_is_source [OF ok rb] by (intro arg_cong [where f = concat] map_cong) auto
  show "length (concat (map (source_block w rows bpr rb quants scales) (py_range bpr))) = nat (bpr * 304)"
    using lrow [OF rb] row by simp
  have "py_slice (merged_stream (packed_weights w rows bpr) quants scales (rowblocks_for rows) bpr)
      (rb * int (nat (bpr * 304)) + 0) (rb * int (nat (bpr * 304)) + 0 + bpr * 304) = py_slice (?row rb) 0 (0 + bpr * 304)"
    unfolding merged_stream_def using rb bpr lrow by (intro slice_of_blocks) auto
  then show "py_slice (merged_stream (packed_weights w rows bpr) quants scales (rowblocks_for rows) bpr)
      (rb * (bpr * 304)) (rb * (bpr * 304) + bpr * 304) = concat (map (source_block w rows bpr rb quants scales) (py_range bpr))"
    using bpr lrow [OF rb] py_slice_all [of "?row rb" "bpr * 304"] row by simp
qed

section \<open>Activations as integers\<close>

definition scale_stream :: "int list \<Rightarrow> byte list" where
  "scale_stream act_scale_bits = concat (map (le_bytes 2) act_scale_bits)"

definition quant_stream :: "int list \<Rightarrow> byte list" where
  "quant_stream acts = map word_of_int acts"

definition acts_in :: "int list \<Rightarrow> int list \<Rightarrow> int \<Rightarrow> bool" where
  "acts_in acts act_scales bpr \<longleftrightarrow>
     int (length acts) = bpr * 128 \<and> int (length act_scales) = bpr * 4 \<and> (\<forall>s\<in>set act_scales. 0 \<le> s \<and> s < 65536)"

lemma map_index: "map f xs = map (\<lambda>i. f (xs ! nat i)) (py_range (int (length xs)))"
  by (rule nth_equalityI) simp_all

lemma le_value_le_bytes_mod: "le_value (le_bytes n v) = v mod 256 ^ n"
proof (induction n arbitrary: v)
  case (Suc n)
  then show ?case by (simp add: le_bytes_Suc uint_word_of_int zmod_zmult2_eq)
qed simp

lemma acts_in_ok: "acts_in acts act_scales bpr \<Longrightarrow> acts_ok (quant_stream acts) (scale_stream act_scales) bpr"
  by (simp add: acts_in_def acts_ok_def quant_stream_def scale_stream_def length_concat comp_def sum_list_triv)

lemma act_block_ints:
  assumes "acts_in acts act_scales bpr" "0 \<le> i" "i < bpr * 4"
  shows "act_block (quant_stream acts) (scale_stream act_scales) i =
      map word_of_int (py_slice acts (i * 32) (i * 32 + 32)) @ (le_bytes 2 (act_scales ! nat i) @ replicate 6 0)"
    and "py_index act_scales i = Inr (le_value (le_bytes 2 (act_scales ! nat i) @ replicate 6 0))"
proof -
  have len: "int (length acts) = bpr * 128" "int (length act_scales) = bpr * 4" "nat i < length act_scales"
    using assms by (auto simp: acts_in_def)
  then have "act_scales ! nat i \<in> set act_scales" by simp
  then have "0 \<le> act_scales ! nat i" "act_scales ! nat i < 65536" using assms(1) by (auto simp: acts_in_def)
  then show "py_index act_scales i = Inr (le_value (le_bytes 2 (act_scales ! nat i) @ replicate 6 0))"
    using assms len by (simp add: py_index_in le_value_append le_value_le_bytes_mod)
  have "py_slice (scale_stream act_scales) (i * int 2 + 0) (i * int 2 + 0 + 2) = py_slice (le_bytes 2 (act_scales ! nat i)) 0 (0 + 2)"
    unfolding scale_stream_def map_index [of "le_bytes 2"] using assms len by (intro slice_of_blocks) auto
  then have "py_slice (scale_stream act_scales) (i * 2) (i * 2 + 2) = le_bytes 2 (act_scales ! nat i)"
    using py_slice_all [of "le_bytes 2 (act_scales ! nat i)" 2] by simp
  moreover have "py_slice (quant_stream acts) (i * 32) (i * 32 + 32) = map word_of_int (py_slice acts (i * 32) (i * 32 + 32))"
    using assms len by (simp add: quant_stream_def take_drop_slice take_map drop_map)
  ultimately show "act_block (quant_stream acts) (scale_stream act_scales) i =
      map word_of_int (py_slice acts (i * 32) (i * 32 + 32)) @ (le_bytes 2 (act_scales ! nat i) @ replicate 6 0)"
    by (simp add: act_block_def)
qed

section \<open>The driver's packer writes the row block\<close>

lemma unpack_from_H_in:
  "0 \<le> p \<Longrightarrow> p + 2 \<le> int (length buf) \<Longrightarrow> unpack_from_H buf p = Inr (le_value (py_slice buf p (p + 2)))"
  by (simp add: unpack_from_H_def)

lemma into_scale_value:
  assumes "weights_ok w rows bpr" "0 \<le> rb" "0 \<le> q1" "q1 < bpr" "0 \<le> lane" "lane < 8"
  shows "into_scale w (rb * 8) (min 8 (rows - rb * 8)) (bpr * 18) q1 lane =
    Inr (le_value (scale_bytes w rows bpr q1 (rb * 8 + lane)))"
proof (cases "rb * 8 + lane < rows")
  case True
  then have "0 \<le> (rb * 8 + lane) * (bpr * 18) + q1 * 18" "(rb * 8 + lane) * (bpr * 18) + q1 * 18 + 18 \<le> int (length w)"
    using source_block_in_range [of "rb * 8 + lane" rows q1 bpr "int (length w)"] assms by (auto simp: weights_ok_def)
  then show ?thesis using assms True by (simp add: into_scale_def scale_bytes_def unpack_from_H_in)
qed (use assms in \<open>simp add: into_scale_def scale_bytes_def\<close>)

lemma into_wbits_value:
  assumes "weights_ok w rows bpr" "0 \<le> rb" "0 \<le> q1" "q1 < bpr" "0 \<le> lane" "lane < 8" "0 \<le> sub" "sub < 4"
  shows "into_wbits w (rb * 8) (min 8 (rows - rb * 8)) (bpr * 18) q1 (sub * 32) lane =
    Inr (le_value (wbits_bytes w rows bpr q1 sub (rb * 8 + lane)))"
proof -
  have "(rb * 8 + lane) * (bpr * 18) + q1 * 18 + 2 + sub * 32 div 8 = (rb * 8 + lane) * (bpr * 18) + q1 * 18 + 2 + sub * 4" by simp
  then show ?thesis unfolding into_wbits_def wbits_bytes_def Let_def using assms by (simp only: if_distrib) simp
qed

lemma into_sub_spec:
  assumes ok: "weights_ok w rows bpr" and acts: "acts_in aq sb bpr"
    and q: "0 \<le> rb" "0 \<le> q1" "q1 < bpr" "0 \<le> sub" "sub < 4" and n: "length d + 72 \<le> length out"
  shows "into_sub w (rb * 8) (min 8 (rows - rb * 8)) (bpr * 18) aq sb 4 q1 (written out d) sub =
    Inr (written out (d @ act_block (quant_stream aq) (scale_stream sb) (q1 * 4 + sub) @
      concat (map (\<lambda>lane. wbits_bytes w rows bpr q1 sub (rb * 8 + lane)) (py_range 8))))"
proof -
  let ?i = "q1 * 4 + sub" and ?qs = "map word_of_int (py_slice aq ((q1 * 4 + sub) * 32) ((q1 * 4 + sub) * 32 + 32)) :: byte list"
  let ?s = "le_bytes 2 (sb ! nat (q1 * 4 + sub)) @ replicate 6 0"
  have i: "0 \<le> ?i" "?i < bpr * 4" "q1 * 128 + sub * 32 = ?i * 32" "?i * 32 div 32 = ?i" using q by auto
  note a = act_block_ints [OF acts i(1,2)]
  have "?i * 32 + 32 \<le> int (length aq)" using acts i by (simp add: acts_in_def)
  then have l: "length ?qs = 32" using i length_py_slice [of "?i * 32" "?i * 32 + 32" aq] by simp
  have "put_bytes ?qs 32 (written out d) = written out (d @ ?qs)"
    by (rule put_bytes_written) (use l n in auto)
  then have act: "put_beat (py_index sb ?i) (put_bytes ?qs 32 (written out d)) =
      Inr (written out (d @ act_block (quant_stream aq) (scale_stream sb) ?i))"
    using put_beat_written [of ?s "d @ ?qs" out] l n by (simp add: a)
  let ?d = "d @ act_block (quant_stream aq) (scale_stream sb) ?i"
  have "length ?d = length d + 40" using l by (simp add: a)
  then have "foldR (\<lambda>st beat. put_beat (lane_word (into_wbits w (rb * 8) (min 8 (rows - rb * 8)) (bpr * 18) q1 (sub * 32))
        (int 2) (int (8 * 4)) beat) st) (written out ?d) (py_range (int 4)) =
      Inr (written out (?d @ concat (map (\<lambda>lane. wbits_bytes w rows bpr q1 sub (rb * 8 + lane)) (py_range (int 4 * int 2)))))"
    by (intro buffer_emit_lanes) (use ok q n in \<open>auto simp: into_wbits_value length_wbits_bytes\<close>)
  then show ?thesis unfolding into_sub_def Let_def i(3,4) act bindR_simps by simp
qed

lemma into_q1_block_spec:
  assumes ok: "weights_ok w rows bpr" and acts: "acts_in aq sb bpr"
    and q: "0 \<le> rb" "0 \<le> q1" "q1 < bpr" and n: "length d + 304 \<le> length out"
  shows "into_q1_block w (rb * 8) (min 8 (rows - rb * 8)) (bpr * 18) aq sb 2 4 (written out d) q1 =
    Inr (written out (d @ source_block w rows bpr rb (quant_stream aq) (scale_stream sb) q1))"
proof -
  let ?ss = "concat (map (\<lambda>lane. scale_bytes w rows bpr q1 (rb * 8 + lane)) (py_range 8))"
  let ?f = "\<lambda>sub. act_block (quant_stream aq) (scale_stream sb) (q1 * 4 + sub) @
      concat (map (\<lambda>lane. wbits_bytes w rows bpr q1 sub (rb * 8 + lane)) (py_range 8))"
  have "foldR (\<lambda>st beat. put_beat (lane_word (into_scale w (rb * 8) (min 8 (rows - rb * 8)) (bpr * 18) q1)
        (int 4) (int (8 * 2)) beat) st) (written out d) (py_range (int 2)) =
      Inr (written out (d @ concat (map (\<lambda>lane. scale_bytes w rows bpr q1 (rb * 8 + lane)) (py_range (int 2 * int 4)))))"
    by (intro buffer_emit_lanes) (use ok q n in \<open>auto simp: into_scale_value length_scale_bytes\<close>)
  then have s: "foldR (\<lambda>st beat. put_beat (lane_word (into_scale w (rb * 8) (min 8 (rows - rb * 8)) (bpr * 18) q1) 4 16 beat) st)
      (written out d) (py_range 2) = Inr (written out (d @ ?ss))" by simp
  have ls: "length ?ss = 16" using ok q by (subst length_concat_blocks [of _ _ 2]) (auto simp: length_scale_bytes)
  have lw: "length (concat (map (\<lambda>lane. wbits_bytes w rows bpr q1 sub (rb * 8 + lane)) (py_range 8))) = 32"
    if "0 \<le> sub" "sub < 4" for sub using ok q that by (subst length_concat_blocks [of _ _ 4]) (auto simp: length_wbits_bytes)
  have lf: "length (?f sub) = 72" if "0 \<le> sub" "sub < 4" for sub
    using q lw that length_act_block [OF acts_in_ok [OF acts], of "q1 * 4 + sub"] by simp
  have "length (concat (map ?f (py_range 4))) = 288" using lf by (subst length_concat_blocks [of _ _ 72]) auto
  then have "foldR (into_sub w (rb * 8) (min 8 (rows - rb * 8)) (bpr * 18) aq sb 4 q1) (written out (d @ ?ss)) (py_range 4) =
      Inr (written out ((d @ ?ss) @ concat (map ?f (py_range 4))))"
    by (intro buffer_emit_all) (use ls lf n into_sub_spec [OF ok acts q] in auto)
  with s show ?thesis by (simp add: into_q1_block_def rowblock_bytes_def)
qed

lemma pack_rowblock_into_spec:
  assumes k: "blocks_per_row k = Inr bpr" and ok: "weights_ok w rows bpr" and acts: "acts_in aq sb bpr"
    and rb: "0 \<le> rb" "rb < rowblocks_for rows" and out: "int (length out) = bpr * 304"
  shows "pack_rowblock_into out w (rb * 8) (min 8 (rows - rb * 8)) (bpr * 18) aq sb k 8 =
    Inr (concat (map (source_block w rows bpr rb (quant_stream aq) (scale_stream sb)) (py_range bpr)))"
proof -
  let ?f = "source_block w rows bpr rb (quant_stream aq) (scale_stream sb)"
  have b: "k div 128 = bpr" using k by (auto simp: blocks_per_row_def split: if_splits)
  have n: "int (length out) = rowblock_nbytes k 8" by (simp add: rowblock_nbytes_def q1_bytes_per_rowblock_def b out)
  have c: "1 \<le> min 8 (rows - rb * 8)" using rb by (simp add: rowblocks_for_def)
  have len: "length (concat (map ?f (py_range bpr))) = length out"
    using merged_rowblock(2) [OF ok acts_in_ok [OF acts] rb] out by simp
  have lf: "length (?f q1) = 304" if "0 \<le> q1" "q1 < bpr" for q1
    using merged_is_source [OF ok rb that, of "quant_stream aq" "scale_stream sb"]
      length_merged_block [OF acts_in_ok [OF acts] that, of "(rb * bpr + q1) * 144" "packed_weights w rows bpr"]
      length_packed_weights [OF ok] mult_right_mono [of "rb + 1" "rowblocks_for rows" bpr] that rb
    by (simp add: algebra_simps)
  have "foldR (into_q1_block w (rb * 8) (min 8 (rows - rb * 8)) (bpr * 18) aq sb 2 4) (written out []) (py_range bpr) =
      Inr (written out ([] @ concat (map ?f (py_range bpr))))"
    by (intro buffer_emit_all) (use len lf into_q1_block_spec [OF ok acts rb(1)] in auto)
  then show ?thesis using n c b len by (simp add: pack_rowblock_into_def Let_def written_def)
qed

section \<open>The bench packer emits the row block\<close>

text \<open>The Q1_0 rows that hold the scales and the weight words of the bench.\<close>

definition q1_0_block :: "int \<times> int \<Rightarrow> byte list" where
  "q1_0_block b = le_bytes 2 (fst b) @ le_bytes 16 (snd b)"

definition q1_0_bytes :: "weight_row list \<Rightarrow> byte list" where
  "q1_0_bytes weight_rows = concat (map (\<lambda>row. concat (map q1_0_block row)) weight_rows)"

definition rows_in :: "weight_row list \<Rightarrow> int \<Rightarrow> bool" where
  "rows_in weight_rows bpr \<longleftrightarrow> 0 \<le> bpr \<and> length weight_rows = 8 \<and>
     (\<forall>row \<in> set weight_rows. int (length row) = bpr \<and> (\<forall>b \<in> set row. 0 \<le> fst b \<and> fst b < 65536))"

lemma rows_in_row:
  assumes "rows_in wr bpr" "0 \<le> lane" "lane < 8"
  shows "int (length (wr ! nat lane)) = bpr" "length (concat (map q1_0_block (wr ! nat lane))) = nat (bpr * 18)"
proof -
  have "wr ! nat lane \<in> set wr" using assms by (simp add: rows_in_def)
  then show l: "int (length (wr ! nat lane)) = bpr" using assms(1) by (auto simp: rows_in_def)
  have "length (concat (map q1_0_block (wr ! nat lane))) = length (wr ! nat lane) * 18"
    by (rule length_concat_blocks) (simp add: q1_0_block_def)
  with l show "length (concat (map q1_0_block (wr ! nat lane))) = nat (bpr * 18)" by linarith
qed

lemma rows_in_ok:
  assumes "rows_in wr bpr"
  shows "weights_ok (q1_0_bytes wr) 8 bpr"
proof -
  have l: "int (length wr) = 8" "0 \<le> bpr" using assms by (auto simp: rows_in_def)
  have "length (q1_0_bytes wr) = length (py_range 8) * nat (bpr * 18)"
    unfolding q1_0_bytes_def map_index [of _ wr] l
    by (rule length_concat_blocks) (use rows_in_row(2) [OF assms] in auto)
  with l show ?thesis by (simp add: weights_ok_def)
qed

lemma q1_0_slice:
  assumes "rows_in wr bpr" "0 \<le> lane" "lane < 8" "0 \<le> q1" "q1 < bpr" "0 \<le> j" "0 \<le> n" "j + n \<le> 18"
  shows "py_slice (q1_0_bytes wr) (lane * (bpr * 18) + q1 * 18 + j) (lane * (bpr * 18) + q1 * 18 + j + n) =
    py_slice (q1_0_block (wr ! nat lane ! nat q1)) j (j + n)"
proof -
  let ?row = "\<lambda>lane. concat (map q1_0_block (wr ! nat lane))"
  have l: "int (length wr) = 8" "0 \<le> bpr" using assms(1) by (auto simp: rows_in_def)
  have "q1 * 18 + 18 \<le> bpr * 18" using assms by simp
  then have "py_slice (q1_0_bytes wr) (lane * int (nat (bpr * 18)) + (q1 * 18 + j)) (lane * int (nat (bpr * 18)) + (q1 * 18 + j) + n) =
      py_slice (?row lane) (q1 * 18 + j) (q1 * 18 + j + n)"
    unfolding q1_0_bytes_def map_index [of _ wr] l using assms l rows_in_row(2) [OF assms(1)]
    by (intro slice_of_blocks) auto
  moreover have "py_slice (?row lane) (q1 * int 18 + j) (q1 * int 18 + j + n) =
      py_slice (q1_0_block (wr ! nat lane ! nat q1)) j (j + n)"
    unfolding map_index [of q1_0_block] rows_in_row(1) [OF assms(1-3)] using assms
    by (intro slice_of_blocks) (auto simp: q1_0_block_def)
  ultimately show ?thesis using l by (simp add: add.assoc)
qed

lemma le_bytes_part:
  assumes "m + c \<le> n"
  shows "take c (drop m (le_bytes n v)) = le_bytes c (drop_bit (8 * m) v)"
proof (rule nth_equalityI)
  fix i assume "i < length (take c (drop m (le_bytes n v)))"
  then have "i < c" by simp
  then show "take c (drop m (le_bytes n v)) ! i = le_bytes c (drop_bit (8 * m) v) ! i"
    using assms by (simp add: le_bytes_def drop_bit_eq_div power_add distrib_left flip: zdiv_zmult2_eq)
qed (use assms in simp)

lemma bench_lanes:
  assumes "rows_in wr bpr" "0 \<le> lane" "lane < 8" "0 \<le> q1" "q1 < bpr"
  shows "bench_scale wr q1 lane = Inr (le_value (scale_bytes (q1_0_bytes wr) 8 bpr q1 lane))"
    and "0 \<le> sub \<Longrightarrow> sub < 4 \<Longrightarrow> bench_wbits wr q1 (sub * 32) lane = Inr (le_value (wbits_bytes (q1_0_bytes wr) 8 bpr q1 sub lane))"
proof -
  let ?b = "wr ! nat lane ! nat q1"
  have l: "length wr = 8" "int (length (wr ! nat lane)) = bpr" using assms rows_in_row(1) [OF assms(1-3)] by (auto simp: rows_in_def)
  then have "wr ! nat lane \<in> set wr" "?b \<in> set (wr ! nat lane)" using assms by auto
  then have s: "0 \<le> fst ?b" "fst ?b < 65536" using assms(1) by (auto simp: rows_in_def)
  have ix: "py_index wr lane = Inr (wr ! nat lane)" "py_index (wr ! nat lane) q1 = Inr ?b"
    using assms l by (simp_all add: py_index_in)
  have "scale_bytes (q1_0_bytes wr) 8 bpr q1 lane = le_bytes 2 (fst ?b)"
    using q1_0_slice [OF assms, of 0 2] assms by (simp add: scale_bytes_def q1_0_block_def py_slice_in)
  then show "bench_scale wr q1 lane = Inr (le_value (scale_bytes (q1_0_bytes wr) 8 bpr q1 lane))"
    using assms s ix by (simp add: bench_scale_def le_value_le_bytes_mod)
  assume sub: "0 \<le> sub" "sub < 4"
  have n: "nat (2 + sub * 4) = 2 + nat sub * 4" "8 * (nat sub * 4) = nat (sub * 32)" using sub by auto
  have "wbits_bytes (q1_0_bytes wr) 8 bpr q1 sub lane = py_slice (q1_0_block ?b) (2 + sub * 4) (2 + sub * 4 + 4)"
    using q1_0_slice [OF assms, of "2 + sub * 4" 4] assms sub by (simp add: wbits_bytes_def add.assoc)
  also have "\<dots> = take 4 (drop (nat sub * 4) (le_bytes 16 (snd ?b)))"
    using sub by (subst take_drop_slice) (simp_all add: q1_0_block_def n)
  also have "\<dots> = le_bytes 4 (drop_bit (nat (sub * 32)) (snd ?b))"
    using sub le_bytes_part [of "nat sub * 4" 4 16 "snd ?b"] by (simp add: n)
  finally show "bench_wbits wr q1 (sub * 32) lane = Inr (le_value (wbits_bytes (q1_0_bytes wr) 8 bpr q1 sub lane))"
    using assms ix by (simp add: bench_wbits_def le_value_le_bytes_mod and_masks)
qed

lemma concat_bytes: "concat (map (\<lambda>i. [word_of_int (a ! nat i) :: byte]) (py_range (int (length a)))) = map word_of_int a"
  by (subst map_index [of word_of_int a]) (simp add: concat_map_singleton)

lemma bench_acts:
  assumes "length a = 32" "join_beats beats = Inr d"
  shows "\<exists>beats'. foldR (\<lambda>beats beat. emit_beat (lane_word (\<lambda>i. bindR (py_index a i) (\<lambda>x. Inr (x AND 0xFF))) 8 8 beat) beats)
      beats (py_range 4) = Inr beats' \<and> join_beats beats' = Inr (d @ map word_of_int a)"
proof -
  let ?bits = "\<lambda>i. bindR (py_index a i) (\<lambda>x. Inr (x AND 0xFF))" and ?g = "\<lambda>i. [word_of_int (a ! nat i) :: byte]"
  have "\<exists>s'. foldR (\<lambda>s beat. emit_beat (lane_word ?bits (int 8) (int (8 * 1)) beat) s) beats (py_range (int 4)) = Inr s' \<and>
      join_beats s' = Inr (d @ concat (map ?g (py_range (int 4 * int 8))))"
    by (rule stream.emit_lanes) (use assms in \<open>auto simp: py_index_in and_masks uint_word_of_int\<close>)
  then show ?thesis using concat_bytes [of a] assms(1) by simp
qed

lemma bench_sub_spec:
  assumes rows: "rows_in wr bpr" and acts: "acts_in aq sb bpr"
    and q: "0 \<le> q1" "q1 < bpr" "0 \<le> sub" "sub < 4" and d: "join_beats beats = Inr d"
  shows "\<exists>beats'. bench_sub wr aq sb q1 beats sub = Inr beats' \<and>
    join_beats beats' = Inr (d @ act_block (quant_stream aq) (scale_stream sb) (q1 * 4 + sub) @
      concat (map (wbits_bytes (q1_0_bytes wr) 8 bpr q1 sub) (py_range 8)))"
proof -
  let ?i = "q1 * 4 + sub"
  let ?a = "py_slice aq (?i * 32) (?i * 32 + 32)" and ?s = "le_bytes 2 (sb ! nat ?i) @ replicate 6 0"
  have i: "0 \<le> ?i" "?i < bpr * 4" "q1 * 4 + sub * 32 div 32 = ?i" "(?i + 1) * 32 = ?i * 32 + 32" using q by auto
  note a = act_block_ints [OF acts i(1,2)]
  have "?i * 32 + 32 \<le> int (length aq)" using acts i by (simp add: acts_in_def)
  then have l: "length ?a = 32" using i length_py_slice [of "?i * 32" "?i * 32 + 32" aq] by simp
  obtain b1 where b1: "foldR (\<lambda>beats beat. emit_beat (lane_word (\<lambda>i. bindR (py_index ?a i) (\<lambda>x. Inr (x AND 0xFF))) 8 8 beat) beats)
      beats (py_range 4) = Inr b1" "join_beats b1 = Inr (d @ map word_of_int ?a)"
    using bench_acts [OF l d] by blast
  obtain b2 where b2: "emit_beat (py_index sb ?i) b1 = Inr b2" "join_beats b2 = Inr ((d @ map word_of_int ?a) @ ?s)"
    using stream.emit [OF b1(2), of ?s] unfolding a(2) by auto
  have "\<exists>s'. foldR (\<lambda>s beat. emit_beat (lane_word (bench_wbits wr q1 (sub * 32)) (int 2) (int (8 * 4)) beat) s) b2 (py_range (int 4)) = Inr s' \<and>
      join_beats s' = Inr (((d @ map word_of_int ?a) @ ?s) @ concat (map (wbits_bytes (q1_0_bytes wr) 8 bpr q1 sub) (py_range (int 4 * int 2))))"
    using bench_lanes(2) [OF rows _ _ q(1,2)] length_wbits_bytes [OF rows_in_ok [OF rows] _ q] q b2(2)
    by (intro stream.emit_lanes) auto
  then show ?thesis unfolding bench_sub_def Let_def i(3,4) b1(1) b2(1) bindR_simps a(1) by simp
qed

lemma bench_q1_block_spec:
  assumes rows: "rows_in wr bpr" and acts: "acts_in aq sb bpr" and q: "0 \<le> q1" "q1 < bpr" and d: "join_beats beats = Inr d"
  shows "\<exists>beats'. bench_q1_block wr aq sb beats q1 = Inr beats' \<and>
    join_beats beats' = Inr (d @ source_block (q1_0_bytes wr) 8 bpr 0 (quant_stream aq) (scale_stream sb) q1)"
proof -
  let ?w = "q1_0_bytes wr"
  let ?ss = "concat (map (scale_bytes ?w 8 bpr q1) (py_range 8))"
  have "\<exists>s'. foldR (\<lambda>s beat. emit_beat (lane_word (bench_scale wr q1) (int 4) (int (8 * 2)) beat) s) beats (py_range (int 2)) = Inr s' \<and>
      join_beats s' = Inr (d @ concat (map (scale_bytes ?w 8 bpr q1) (py_range (int 2 * int 4))))"
    using bench_lanes(1) [OF rows _ _ q] length_scale_bytes [OF rows_in_ok [OF rows] _ q] d
    by (intro stream.emit_lanes) auto
  then obtain b where b: "foldR (\<lambda>s beat. emit_beat (lane_word (bench_scale wr q1) 4 16 beat) s) beats (py_range 2) = Inr b"
      "join_beats b = Inr (d @ ?ss)" by auto
  have "\<exists>s'. foldR (bench_sub wr aq sb q1) b (py_range 4) = Inr s' \<and> join_beats s' = Inr ((d @ ?ss) @
      concat (map (\<lambda>sub. act_block (quant_stream aq) (scale_stream sb) (q1 * 4 + sub) @ concat (map (wbits_bytes ?w 8 bpr q1 sub) (py_range 8)))
        (py_range 4)))"
    by (rule stream.emit_all) (use b(2) bench_sub_spec [OF rows acts q] in auto)
  with b(1) show ?thesis by (simp add: bench_q1_block_def rowblock_bytes_def)
qed

lemma bench_pack_rowblock_spec:
  assumes rows: "rows_in wr bpr" and acts: "acts_in aq sb bpr"
  shows "\<exists>beats. bench_pack_rowblock wr aq sb bpr = Inr beats \<and>
    join_beats beats = Inr (concat (map (source_block (q1_0_bytes wr) 8 bpr 0 (quant_stream aq) (scale_stream sb)) (py_range bpr)))"
proof -
  have "\<exists>s'. foldR (bench_q1_block wr aq sb) [] (py_range bpr) = Inr s' \<and> join_beats s' =
      Inr ([] @ concat (map (source_block (q1_0_bytes wr) 8 bpr 0 (quant_stream aq) (scale_stream sb)) (py_range bpr)))"
    by (rule stream.emit_all) (use bench_q1_block_spec [OF rows acts] in \<open>auto simp: join_beats_def\<close>)
  then show ?thesis by (simp add: bench_pack_rowblock_def)
qed

end
