(* ===== verification/GoldenProps.thy ===== *)
theory GoldenProps
  imports GoldenSpec Packers
begin

text \<open>
  The properties of the reference that the bench compares the kernel with: its arithmetic against real
  numbers, and its stream against the one the driver's packers produce.
\<close>

unbundle bit_operations_syntax

section \<open>Properties\<close>

text \<open>C23: the product of two single precision numbers is the product of their values rounded toward
  zero: zero below the smallest normal number, the largest finite number of its sign from \<open>2 ^ 128\<close>
  on, and otherwise a number of its sign that is not larger in magnitude and less than one unit in the last
  place smaller.  It holds for every pair of integers, of which the operation reads the low 32 bits.\<close>

theorem fp32_mul_trunc_rounds_to_zero:
  "truncates (fp32_value a * fp32_value b) (fp32_mul_trunc a b)"
  by (rule mul_truncates)

text \<open>C24: the sum of two finite single precision numbers is the truncation of a number that is less than
  one unit in the last place of the larger operand away from the exact sum, and that is the exact sum when
  the exponents are equal: the error of the alignment and the error of the normalisation, each bounded.\<close>

theorem fp32_add_trunc_error:
  assumes "fp32_finite a" "fp32_finite b"
  shows "\<exists>y. truncates y (fp32_add_trunc a b) \<and>
    \<bar>y - (fp32_value a + fp32_value b)\<bar> < 2 powi (max (fp32_exponent a) (fp32_exponent b) - 150) \<and>
    (fp32_exponent a = fp32_exponent b \<longrightarrow> y = fp32_value a + fp32_value b)"
  using assms by (intro add_truncates) (auto simp: fp32_finite_def)

theorem fp32_add_trunc_error_witness:
  "\<exists>y. truncates y (fp32_add_trunc 0x3FC00000 0x40100000) \<and>
     \<bar>y - (fp32_value 0x3FC00000 + fp32_value 0x40100000)\<bar> < 2 powi (128 - 150)"
proof -
  have "fp32_finite 0x3FC00000" "fp32_finite 0x40100000" "fp32_exponent 0x3FC00000 = 127" "fp32_exponent 0x40100000 = 128"
    by (simp_all add: fp32_finite_def fp32_word_def fp32_exponent_def fp32_fields_arith)
  with fp32_add_trunc_error [of "0x3FC00000" "0x40100000"] show ?thesis by auto
qed

text \<open>C25: the contribution of a sub-block of 32 signed activation bytes is the product of the two scales,
  truncated once, times the exact signed sum of the activations, truncated a second time: the conversions of
  the half precision scales and of the 14-bit sum are exact.\<close>

theorem contribution_rounds_twice:
  assumes "32 \<le> length acts" "int8s acts"
  shows "\<exists>p c. contribution weight_bits acts ws_h as_h = Inr c \<and>
    truncates (fp16_value ws_h * fp16_value as_h) p \<and>
    truncates (fp32_value p * of_int (\<Sum>i<32. if bit weight_bits i then acts ! i else - acts ! i)) c"
  using contribution_ok [OF assms, of weight_bits ws_h as_h] unfolding signed_dot_def by metis

theorem contribution_rounds_twice_witness:
  "\<exists>p c. contribution 0xFF (replicate 32 3) 0x3C00 0x3800 = Inr c \<and> truncates (fp16_value 0x3C00 * fp16_value 0x3800) p"
  using contribution_rounds_twice [of "replicate 32 3" "0xFF" "0x3C00" "0x3800"] by (auto simp: int8s_def)

text \<open>C26: on eight rows of \<open>q1_blocks\<close> blocks, \<open>128 * q1_blocks\<close> signed bytes of activations
  and their scales, whatever the scales and the weights are, \<open>golden_rowblock\<close> raises nothing and returns
  eight words that are all finite single precision numbers.\<close>

theorem golden_rowblock_finite:
  assumes "length weight_rows = 8" "\<forall>row \<in> set weight_rows. length row = q1_blocks"
    and "length acts = q1_blocks * 128" "\<forall>x \<in> set acts. -128 \<le> x \<and> x \<le> 127" "length act_scales = q1_blocks * 4"
  shows "\<exists>out. golden_rowblock weight_rows acts act_scales = Inr out \<and> length out = 8 \<and> list_all fp32_finite out"
  using assms by (intro golden_rowblock_ok [of _ _ _ q1_blocks]) (simp add: bench_input_def int8s_def)

theorem golden_rowblock_finite_witness:
  "\<exists>out. golden_rowblock (replicate 8 [(0x7BFF, 2 ^ 128 - 1)]) (replicate 128 (-128)) (replicate 4 0x7BFF) = Inr out \<and>
     length out = 8 \<and> list_all fp32_finite out"
  by (rule golden_rowblock_finite [of _ 1]) simp_all

text \<open>C27: the two other packers of the single-stream layout agree with \<open>pack_weights\<close> and
  \<open>merge_acts\<close>.  For every row block \<open>rb\<close>, \<open>_pack_rowblock_into\<close> overwrites a buffer of the
  right size, whatever it held, with the bytes of that row block in the merged stream.\<close>

theorem pack_rowblock_into_agrees:
  assumes k: "blocks_per_row k = Inr bpr" and rows: "0 \<le> rows" "0 \<le> bpr" "rows * (bpr * 18) \<le> int (length w)"
    and acts: "int (length act_quants) = k" "int (length act_scale_bits) = bpr * 4"
      "\<forall>s \<in> set act_scale_bits. 0 \<le> s \<and> s < 65536"
    and rb: "0 \<le> rb" "rb < rowblocks_for rows" and out: "int (length out) = bpr * 304"
  shows "\<exists>packed merged. pack_weights w rows k = Inr packed \<and>
    merge_acts packed (quant_stream act_quants) (scale_stream act_scale_bits) rows k = Inr merged \<and>
    pack_rowblock_into out w (rb * 8) (min 8 (rows - rb * 8)) (bpr * 18) act_quants act_scale_bits k 8 =
      Inr (py_slice merged (rb * (bpr * 304)) (rb * (bpr * 304) + bpr * 304))"
proof -
  have ok: "weights_ok w rows bpr" using rows by (simp add: weights_ok_def)
  have kb: "k = bpr * 128" using k by (auto simp: blocks_per_row_def split: if_splits)
  have ai: "acts_in act_quants act_scale_bits bpr" using acts kb by (simp add: acts_in_def)
  note ao = acts_in_ok [OF ai, unfolded acts_ok_def]
  show ?thesis
    using pack_weights_spec [OF k ok] merge_acts_spec(1) [OF k rows(1) length_packed_weights [OF ok]] ao kb
      pack_rowblock_into_spec [OF k ok ai rb out] merged_rowblock(1) [OF ok acts_in_ok [OF ai] rb] by simp
qed

theorem pack_rowblock_into_agrees_witness:
  "\<exists>packed merged. pack_weights (replicate 180 7) 10 128 = Inr packed \<and>
    merge_acts packed (quant_stream (replicate 128 (-5))) (scale_stream (replicate 4 0x3C00)) 10 128 = Inr merged \<and>
    pack_rowblock_into (replicate 304 9) (replicate 180 7) 8 2 18 (replicate 128 (-5)) (replicate 4 0x3C00) 128 8 =
      Inr (py_slice merged 304 608)"
proof -
  have b: "blocks_per_row 128 = Inr 1" by (simp add: blocks_per_row_def)
  have "(1::int) < rowblocks_for 10" by (simp add: rowblocks_for_def)
  with pack_rowblock_into_agrees [OF b, of 10 "replicate 180 7" "replicate 128 (-5)" "replicate 4 0x3C00" 1 "replicate 304 9"]
  show ?thesis by simp
qed

text \<open>The stream that the bench sends for a row block, the beats of its packer packed little-endian, is
  the stream that \<open>pack_weights\<close> and \<open>merge_acts\<close> produce for the Q1_0 rows with the same scales
  and weight words: what the bench checks on the hardware is the layout that the host uses.\<close>

lemma bench_stream_agrees:
  assumes k: "blocks_per_row k = Inr bpr"
    and rows: "0 \<le> bpr" "length weight_rows = 8"
      "\<forall>row \<in> set weight_rows. int (length row) = bpr \<and> (\<forall>b \<in> set row. 0 \<le> fst b \<and> fst b < 65536)"
    and acts: "int (length acts) = k" "int (length act_scales) = bpr * 4" "\<forall>s \<in> set act_scales. 0 \<le> s \<and> s < 65536"
  shows "\<exists>beats packed stream. bench_pack_rowblock weight_rows acts act_scales bpr = Inr beats \<and>
    pack_weights (q1_0_bytes weight_rows) 8 k = Inr packed \<and>
    merge_acts packed (quant_stream acts) (scale_stream act_scales) 8 k = Inr stream \<and>
    join_beats beats = Inr stream"
proof -
  have ri: "rows_in weight_rows bpr" using rows by (simp add: rows_in_def)
  note ok = rows_in_ok [OF ri]
  have kb: "k = bpr * 128" using k by (auto simp: blocks_per_row_def split: if_splits)
  have ai: "acts_in acts act_scales bpr" using acts kb by (simp add: acts_in_def)
  note ao = acts_in_ok [OF ai, unfolded acts_ok_def]
  have one: "rowblocks_for 8 = 1" by (simp add: rowblocks_for_def)
  let ?m = "merged_stream (packed_weights (q1_0_bytes weight_rows) 8 bpr) (quant_stream acts) (scale_stream act_scales) (rowblocks_for 8) bpr"
  have m: "merge_acts (packed_weights (q1_0_bytes weight_rows) 8 bpr) (quant_stream acts) (scale_stream act_scales) 8 k = Inr ?m"
      "length ?m = nat (rowblocks_for 8 * bpr * 304)"
    using merge_acts_spec [OF k _ length_packed_weights [OF ok]] ao kb by simp_all
  have "py_slice ?m 0 (bpr * 304) = ?m" using m(2) rows(1) one by (intro py_slice_all) simp
  then have "?m = concat (map (source_block (q1_0_bytes weight_rows) 8 bpr 0 (quant_stream acts) (scale_stream act_scales)) (py_range bpr))"
    using merged_rowblock(1) [OF ok acts_in_ok [OF ai], of 0] one by simp
  with m(1) bench_pack_rowblock_spec [OF ri ai] pack_weights_spec [OF k ok] show ?thesis by auto
qed

lemma bench_stream_agrees_witness:
  "\<exists>beats packed stream. bench_pack_rowblock (replicate 8 [(0x3C00, 0xF0F0)]) (replicate 128 (-5)) (replicate 4 0x3C00) 1 = Inr beats \<and>
    pack_weights (q1_0_bytes (replicate 8 [(0x3C00, 0xF0F0)])) 8 128 = Inr packed \<and>
    merge_acts packed (quant_stream (replicate 128 (-5))) (scale_stream (replicate 4 0x3C00)) 8 128 = Inr stream \<and>
    join_beats beats = Inr stream"
proof -
  have b: "blocks_per_row 128 = Inr 1" by (simp add: blocks_per_row_def)
  show ?thesis by (rule bench_stream_agrees [OF b]) simp_all
qed

end
