(* ===== verification/Chip.thy ===== *)
theory Chip
  imports Prelude
begin

text \<open>
  The TinyTapeout chip of \<^verbatim>\<open>src/src/rtl\<close>: one record of registers per module, one definition
  per clocked block and per combinational output, composed in \<open>clock\<close> the way \<^verbatim>\<open>project.v\<close>
  wires them.  Registers are two-valued; a module's next state is computed from the registers before
  the edge, as non-blocking assignments do.  The array and the row are chains over lists; the tile has
  two rows and two columns, the local parameters of \<^verbatim>\<open>project.v\<close>.
\<close>

unbundle bit_operations_syntax

section \<open>Processing elements\<close>

record pe =
  weight_q :: bool
  act_out :: "8 word"
  psum_out :: "16 word"
  valid_out :: bool

definition contrib_ext :: "bool \<Rightarrow> 8 word \<Rightarrow> 16 word" where
  "contrib_ext w act_in =
     (let act_ext = (scast act_in :: 9 word);
          contrib = (if w then act_ext else - act_ext)
      in scast contrib)"

definition pe_step :: "bool \<Rightarrow> bool \<Rightarrow> bool \<Rightarrow> bool \<Rightarrow> 8 word \<Rightarrow> 16 word \<Rightarrow> bool \<Rightarrow> pe \<Rightarrow> pe" where
  "pe_step rst_n clear weight_load weight_in act_in psum_in valid_in p =
     (if \<not> rst_n then \<lparr>weight_q = False, act_out = 0, psum_out = 0, valid_out = False\<rparr>
      else if clear then p\<lparr>act_out := 0, psum_out := 0, valid_out := False\<rparr>
      else if weight_load then \<lparr>weight_q = weight_in, act_out = 0, psum_out = 0, valid_out = False\<rparr>
      else p\<lparr>act_out := act_in,
             psum_out := (if valid_in then psum_in + contrib_ext (weight_q p) act_in else 0),
             valid_out := valid_in\<rparr>)"

text \<open>A row: weights, partial sums and valid bits move from each element to the next.\<close>

fun row_step :: "bool \<Rightarrow> bool \<Rightarrow> bool \<Rightarrow> bool \<Rightarrow> 16 word \<Rightarrow> bool \<Rightarrow> (8 word \<times> pe) list \<Rightarrow> pe list" where
  "row_step rst_n clear weight_load weight_in psum_in valid_in [] = []"
| "row_step rst_n clear weight_load weight_in psum_in valid_in ((act_in, p) # ps) =
     pe_step rst_n clear weight_load weight_in act_in psum_in valid_in p #
     row_step rst_n clear weight_load (weight_q p) (psum_out p) (valid_out p) ps"

text \<open>The array: activations move from each row to the next.\<close>

fun array_step :: "bool \<Rightarrow> bool \<Rightarrow> bool \<Rightarrow> 8 word list \<Rightarrow> (bool \<times> 16 word \<times> bool \<times> pe list) list \<Rightarrow> pe list list" where
  "array_step rst_n clear weight_load act_in [] = []"
| "array_step rst_n clear weight_load act_in ((weight_in, psum_in, valid_in, row) # rows) =
     row_step rst_n clear weight_load weight_in psum_in valid_in (zip act_in row) #
     array_step rst_n clear weight_load (map act_out row) rows"

section \<open>Command decoder\<close>

abbreviation (input) CMD_STATUS :: int where "CMD_STATUS \<equiv> 0"
abbreviation (input) CMD_CLEAR :: int where "CMD_CLEAR \<equiv> 1"
abbreviation (input) CMD_LDW :: int where "CMD_LDW \<equiv> 2"
abbreviation (input) CMD_LDA :: int where "CMD_LDA \<equiv> 3"
abbreviation (input) CMD_SEED :: int where "CMD_SEED \<equiv> 4"
abbreviation (input) CMD_START :: int where "CMD_START \<equiv> 5"
abbreviation (input) CMD_RDP :: int where "CMD_RDP \<equiv> 6"
abbreviation (input) CMD_NOP :: int where "CMD_NOP \<equiv> 7"

definition cmd_of :: "8 word \<Rightarrow> int" where
  "cmd_of ui_in = uint (take_bit 3 ui_in)"

definition arg_of :: "8 word \<Rightarrow> 5 word" where
  "arg_of ui_in = ucast (drop_bit 3 ui_in)"

section \<open>Tile controller\<close>

abbreviation (input) ROWS :: nat where "ROWS \<equiv> 2"
abbreviation (input) COLS :: nat where "COLS \<equiv> 2"

record tile_ctrl =
  state_q :: "2 word"
  step_q :: "2 word"
  done_latched_q :: bool
  weight_done_q :: bool

definition idle :: "tile_ctrl \<Rightarrow> bool" where "idle t \<longleftrightarrow> state_q t = 0"
definition load_phase :: "tile_ctrl \<Rightarrow> bool" where "load_phase t \<longleftrightarrow> state_q t = 1"
definition run_phase :: "tile_ctrl \<Rightarrow> bool" where "run_phase t \<longleftrightarrow> state_q t = 2"

definition ctrl_step :: "bool \<Rightarrow> bool \<Rightarrow> bool \<Rightarrow> bool \<Rightarrow> tile_ctrl \<Rightarrow> tile_ctrl" where
  "ctrl_step rst_n clear cmd_start all_rows_done t =
     (if \<not> rst_n \<or> clear then \<lparr>state_q = 0, step_q = 0, done_latched_q = False, weight_done_q = False\<rparr>
      else if idle t then
        (if cmd_start then \<lparr>state_q = 1, step_q = 0, done_latched_q = False, weight_done_q = False\<rparr> else t)
      else if load_phase t then
        (if step_q t = of_nat (COLS - 1) then t\<lparr>state_q := 2, step_q := 0, weight_done_q := True\<rparr>
         else t\<lparr>step_q := step_q t + 1\<rparr>)
      else if run_phase t then
        (let last = of_nat (ROWS + COLS - 1);
             t1 = (if step_q t < last then t\<lparr>step_q := step_q t + 1\<rparr> else t)
         in if step_q t \<ge> last \<and> all_rows_done then t1\<lparr>state_q := 0, done_latched_q := True\<rparr> else t1)
      else t\<lparr>state_q := 0\<rparr>)"

section \<open>Scratchpads\<close>

definition arg_row :: "5 word \<Rightarrow> nat" where "arg_row arg = unat (take_bit 1 arg)"
definition arg_col :: "5 word \<Rightarrow> nat" where "arg_col arg = unat (take_bit 1 arg)"
definition arg_byte :: "5 word \<Rightarrow> nat" where "arg_byte arg = unat (take_bit 1 (drop_bit 1 arg))"

definition weight_mem_step :: "bool \<Rightarrow> bool \<Rightarrow> 5 word \<Rightarrow> 8 word \<Rightarrow> bool list list \<Rightarrow> bool list list" where
  "weight_mem_step rst_n we arg wdata mem =
     (if \<not> rst_n then replicate ROWS (replicate COLS False)
      else if we \<and> arg_row arg < ROWS then mem[arg_row arg := map (bit wdata) [0..<COLS]]
      else mem)"

definition weight_col_out :: "bool \<Rightarrow> 2 word \<Rightarrow> bool list list \<Rightarrow> nat \<Rightarrow> bool" where
  "weight_col_out weight_load step mem r =
     (let read_col = unat (take_bit 1 (of_nat (COLS - 1) - step)) in weight_load \<and> mem ! r ! read_col)"

definition act_mem_step :: "bool \<Rightarrow> bool \<Rightarrow> bool \<Rightarrow> 5 word \<Rightarrow> 8 word \<Rightarrow> 8 word list \<Rightarrow> 8 word list" where
  "act_mem_step rst_n clear we arg wdata mem =
     (if \<not> rst_n \<or> clear then replicate COLS 0
      else if we \<and> arg_col arg < COLS then mem[arg_col arg := wdata]
      else mem)"

definition array_act_in :: "bool \<Rightarrow> 2 word \<Rightarrow> 8 word list \<Rightarrow> nat \<Rightarrow> 8 word" where
  "array_act_in run step mem c = (if run \<and> unat step = c then mem ! c else 0)"

definition put_byte :: "16 word \<Rightarrow> nat \<Rightarrow> 8 word \<Rightarrow> 16 word" where
  "put_byte v b d = (v AND NOT (push_bit (8 * b) 0xFF)) OR push_bit (8 * b) (ucast d)"

definition get_byte :: "16 word \<Rightarrow> nat \<Rightarrow> 8 word" where
  "get_byte v b = ucast (drop_bit (8 * b) v)"

definition acc_q_step :: "bool \<Rightarrow> bool \<Rightarrow> bool \<Rightarrow> 5 word \<Rightarrow> 8 word \<Rightarrow> (bool \<times> 16 word) list \<Rightarrow> 16 word list \<Rightarrow> 16 word list" where
  "acc_q_step rst_n clear we_seed arg wdata capture acc =
     (if \<not> rst_n \<or> clear then replicate ROWS 0
      else
        let captured = map2 (\<lambda>(v, p) a. if v then p else a) capture acc in
        if we_seed \<and> arg_row arg < ROWS
        then captured[arg_row arg := put_byte (captured ! arg_row arg) (arg_byte arg) wdata]
        else captured)"

definition acc_done_step :: "bool \<Rightarrow> bool \<Rightarrow> bool \<Rightarrow> (bool \<times> 16 word) list \<Rightarrow> bool list \<Rightarrow> bool list" where
  "acc_done_step rst_n clear start_pulse capture done_q =
     (if \<not> rst_n \<or> clear \<or> start_pulse then replicate ROWS False
      else map2 (\<lambda>(v, p) d. v \<or> d) capture done_q)"

definition array_psum_in :: "bool \<Rightarrow> 2 word \<Rightarrow> 16 word list \<Rightarrow> nat \<Rightarrow> 16 word" where
  "array_psum_in run step acc r = (if run \<and> unat step = r then acc ! r else 0)"

definition array_valid_in :: "bool \<Rightarrow> 2 word \<Rightarrow> nat \<Rightarrow> bool" where
  "array_valid_in run step r \<longleftrightarrow> run \<and> unat step = r"

definition result_byte :: "5 word \<Rightarrow> 16 word list \<Rightarrow> 8 word" where
  "result_byte arg acc = (if arg_row arg \<ge> ROWS then 0 else get_byte (acc ! arg_row arg) (arg_byte arg))"

section \<open>The chip\<close>

record chip =
  ctrl :: tile_ctrl
  weight_mem :: "bool list list"
  act_mem :: "8 word list"
  acc_q :: "16 word list"
  acc_done_q :: "bool list"
  pe_rows :: "pe list list"
  error_latched :: bool

definition all_rows_done :: "chip \<Rightarrow> bool" where
  "all_rows_done c = list_all (\<lambda>d. d) (acc_done_q c)"

definition capture :: "chip \<Rightarrow> (bool \<times> 16 word) list" where
  "capture c = map (\<lambda>row. (valid_out (last row), psum_out (last row))) (pe_rows c)"

definition clock :: "bool \<Rightarrow> 8 word \<Rightarrow> 8 word \<Rightarrow> chip \<Rightarrow> chip" where
  "clock rst_n ui_in uio_in c =
     (let cmd = cmd_of ui_in; arg = arg_of ui_in;
          cmd_clear = (cmd = CMD_CLEAR);
          t = ctrl c; step = step_q t; load = load_phase t; run = run_phase t;
          we_w = (cmd = CMD_LDW \<and> idle t);
          we_a = (cmd = CMD_LDA \<and> idle t);
          we_s = (cmd = CMD_SEED \<and> idle t);
          start_pulse = (idle t \<and> cmd = CMD_START);
          err = (we_w \<and> arg_row arg \<ge> ROWS \<or> we_a \<and> arg_col arg \<ge> COLS \<or> we_s \<and> arg_row arg \<ge> ROWS)
      in \<lparr>ctrl = ctrl_step rst_n cmd_clear (cmd = CMD_START) (all_rows_done c) t,
          weight_mem = weight_mem_step rst_n we_w arg uio_in (weight_mem c),
          act_mem = act_mem_step rst_n cmd_clear we_a arg uio_in (act_mem c),
          acc_q = acc_q_step rst_n cmd_clear we_s arg uio_in (capture c) (acc_q c),
          acc_done_q = acc_done_step rst_n cmd_clear start_pulse (capture c) (acc_done_q c),
          pe_rows = array_step rst_n cmd_clear load (map (array_act_in run step (act_mem c)) [0..<COLS])
            (map (\<lambda>(r, row). (weight_col_out load step (weight_mem c) r, array_psum_in run step (acc_q c) r,
                array_valid_in run step r, row)) (zip [0..<ROWS] (pe_rows c))),
          error_latched = (if \<not> rst_n \<or> cmd_clear then False else if err then True else error_latched c)\<rparr>)"

definition status_byte :: "chip \<Rightarrow> 8 word" where
  "status_byte c =
     push_bit 0 (of_bool (\<not> idle (ctrl c))) OR push_bit 1 (of_bool (done_latched_q (ctrl c))) OR
     push_bit 2 (of_bool (weight_done_q (ctrl c))) OR push_bit 3 (of_bool (all_rows_done c)) OR
     push_bit 4 (of_bool (idle (ctrl c))) OR push_bit 5 (of_bool (idle (ctrl c))) OR
     push_bit 6 (of_bool (error_latched c))"

definition uo_out :: "8 word \<Rightarrow> chip \<Rightarrow> 8 word" where
  "uo_out ui_in c = (if cmd_of ui_in = CMD_RDP then result_byte (arg_of ui_in) (acc_q c) else status_byte c)"

text \<open>One cycle as the streamer drives it: the pins are set, the clock rises, the output is sampled while the
  pins still hold the command.\<close>

definition chip_cycle :: "bool \<Rightarrow> 8 word \<Rightarrow> 8 word \<Rightarrow> chip \<Rightarrow> 8 word \<times> chip" where
  "chip_cycle rst_n ui uio c = (let c' = clock rst_n ui uio c in (uo_out ui c', c'))"

end
