(* ===== verification/Streamer.thy ===== *)
theory Streamer
  imports Chip
begin

text \<open>
  The rp_streamer: the firmware that clocks the chip (\<^verbatim>\<open>tools/rp_streamer/firmware/main.c\<close>, the requests that
  reach the chip) and the host side (\<^verbatim>\<open>tools/rp_streamer/host/protocol.py\<close> and \<^verbatim>\<open>cli.py\<close>).  The bulk transfers
  of the USB library are arguments of the host's functions, \<open>dev_write\<close> and \<open>dev_read\<close>, over a
  state of their own; messages on the terminal are not modelled, except that \<open>debug\<close> returns what it prints.
\<close>

unbundle bit_operations_syntax

section \<open>Firmware\<close>

record device =
  rst_pin :: bool
  chip_of_device :: chip

text \<open>\<open>batch\<close> chip cycles, one byte of answer for each pair of pins.\<close>

fun run_pairs :: "byte list \<Rightarrow> device \<Rightarrow> byte list \<times> device" where
  "run_pairs (ui # uio # body) dev =
     (case chip_cycle (rst_pin dev) ui uio (chip_of_device dev) of (out, c) \<Rightarrow>
      case run_pairs body (dev\<lparr>chip_of_device := c\<rparr>) of (outs, dev') \<Rightarrow> (out # outs, dev'))"
| "run_pairs _ dev = ([], dev)"

abbreviation (input) CHUNK :: nat where "CHUNK \<equiv> 64"

function x_loop :: "nat \<Rightarrow> byte list \<Rightarrow> device \<Rightarrow> byte list \<times> device" where
  "x_loop remaining body dev =
     (if remaining = 0 then ([], dev)
      else
        let batch = (if remaining < CHUNK then remaining else CHUNK) in
        case run_pairs (take (2 * batch) body) dev of (out_buf, dev') \<Rightarrow>
        case x_loop (remaining - batch) (drop (2 * batch) body) dev' of (outs, dev'') \<Rightarrow> (out_buf @ outs, dev''))"
  by auto
termination
  by (relation "measure fst") (auto split: if_splits)

declare x_loop.simps [simp del]

definition fw_pack_ui :: "8 word \<Rightarrow> 8 word \<Rightarrow> 8 word" where
  "fw_pack_ui cmd arg = (cmd AND 7) OR push_bit 3 (arg AND 0x1F)"

text \<open>The pins of one tile, in the order of \<open>run_tile_macro\<close>: before the read-back and the read-back itself.\<close>

definition row_byte_args :: "8 word list" where
  "row_byte_args = [r OR push_bit 1 b. r \<leftarrow> [0, 1], b \<leftarrow> [0, 1]]"

definition tile_pins :: "bool \<Rightarrow> 8 word \<Rightarrow> 8 word \<Rightarrow> 8 word \<Rightarrow> 8 word \<Rightarrow> (8 word \<times> 8 word) list" where
  "tile_pins starts_run pw0 pw1 a0 a1 =
     (if starts_run then [(fw_pack_ui 1 0, 0), (fw_pack_ui 7 0, 0)] else []) @
     [(fw_pack_ui 2 0, pw0), (fw_pack_ui 2 1, pw1), (fw_pack_ui 3 0, a0), (fw_pack_ui 3 1, a1)] @
     (if starts_run then map (\<lambda>arg. (fw_pack_ui 4 arg, 0)) row_byte_args else []) @
     [(fw_pack_ui 5 0, 0), (fw_pack_ui 7 0, 0)] @ replicate 6 (fw_pack_ui 7 0, 0)"

definition readback_pins :: "(8 word \<times> 8 word) list" where
  "readback_pins = map (\<lambda>arg. (fw_pack_ui 6 arg, 0)) row_byte_args"

definition drive :: "(8 word \<times> 8 word) list \<Rightarrow> device \<Rightarrow> byte list \<times> device" where
  "drive pins dev = run_pairs (concat (map (\<lambda>(ui, uio). [ui, uio]) pins)) dev"

definition run_tile_macro :: "8 word \<Rightarrow> 8 word \<Rightarrow> 8 word \<Rightarrow> 8 word \<Rightarrow> 8 word \<Rightarrow> device \<Rightarrow> byte list \<times> device" where
  "run_tile_macro flags pw0 pw1 a0 a1 dev =
     (let starts_run = flags AND 1 \<noteq> 0; ends_run = flags AND 2 \<noteq> 0;
          dev1 = snd (drive (tile_pins starts_run pw0 pw1 a0 a1) dev)
      in if ends_run then drive readback_pins dev1 else ([], dev1))"

text \<open>The descriptors of a batch of an \<open>M\<close> request.\<close>

fun m_tiles :: "byte list \<Rightarrow> device \<Rightarrow> byte list \<times> device" where
  "m_tiles (a0 # a1 # packed # body) dev =
     (let pw0 = packed AND 3; pw1 = drop_bit 2 packed AND 3; flags = drop_bit 4 packed AND 3 in
      case run_tile_macro flags pw0 pw1 a0 a1 dev of (out, dev') \<Rightarrow>
      case m_tiles body dev' of (outs, dev'') \<Rightarrow> (out @ outs, dev''))"
| "m_tiles _ dev = ([], dev)"

abbreviation (input) M_CHUNK :: nat where "M_CHUNK \<equiv> 32"

function m_loop :: "nat \<Rightarrow> byte list \<Rightarrow> device \<Rightarrow> byte list \<times> device" where
  "m_loop remaining body dev =
     (if remaining = 0 then ([], dev)
      else
        let batch = (if remaining < M_CHUNK then remaining else M_CHUNK) in
        case m_tiles (take (batch * 3) body) dev of (out_buf, dev') \<Rightarrow>
        case m_loop (remaining - batch) (drop (batch * 3) body) dev' of (outs, dev'') \<Rightarrow> (out_buf @ outs, dev''))"
  by auto
termination
  by (relation "measure fst") (auto split: if_splits)

declare m_loop.simps [simp del]

text \<open>
  One request: the answer and the device after it, \<open>None\<close> while the firmware waits for more bytes.
  \<open>other\<close> stands for the requests that reboot, flash or load the FPGA and for the modes that are not known.
\<close>

definition fw_request :: "(8 word \<Rightarrow> byte list \<Rightarrow> device \<Rightarrow> (byte list \<times> device) option) \<Rightarrow> byte list \<Rightarrow> device \<Rightarrow> (byte list \<times> device) option" where
  "fw_request other data dev =
     (if length data < 5 then None
      else
        let mode = data ! 0; n = nat (le_value (take 4 (drop 1 data))); body = drop 5 data in
        if mode = 97 then Some ([], dev\<lparr>rst_pin := False\<rparr>)
        else if mode = 100 then Some ([], dev\<lparr>rst_pin := True\<rparr>)
        else if mode = 88 then (if length body < 2 * n then None else Some (x_loop n body dev))
        else if mode = 77 then (if length body < 3 * n then None else Some (m_loop n body dev))
        else other mode data dev)"

section \<open>Host: encoders\<close>

abbreviation (input) PSUM_BYTES :: int where "PSUM_BYTES \<equiv> 2"
abbreviation (input) S_DONE :: "8 word" where "S_DONE \<equiv> 2"
abbreviation (input) S_ALL_VALID :: "8 word" where "S_ALL_VALID \<equiv> 8"
abbreviation (input) S_START_READY :: "8 word" where "S_START_READY \<equiv> 16"
abbreviation (input) S_ERROR :: "8 word" where "S_ERROR \<equiv> 64"

definition pack_ui :: "int \<Rightarrow> int \<Rightarrow> int" where
  "pack_ui cmd arg = (cmd AND 0x7) OR push_bit 3 (arg AND 0x1F)"

definition to_signed16 :: "int \<Rightarrow> int" where
  "to_signed16 raw = (let raw = raw AND 0xFFFF in if raw AND 0x8000 \<noteq> 0 then raw - 0x10000 else raw)"

section \<open>Host: frames\<close>

type_synonym pins = "(int \<times> int) list"

definition x_body :: "pins \<Rightarrow> byte list" where
  "x_body pairs = concat (map (\<lambda>(ui, uio). [word_of_int ui, word_of_int uio]) pairs)"

definition pack_I :: "int \<Rightarrow> byte list res" where
  "pack_I n = (if n < 0 \<or> 2 ^ 32 \<le> n then Inl StructError else Inr (le_bytes 4 n))"

definition x_frame :: "(byte list \<Rightarrow> ('s, unit) py) \<Rightarrow> (int \<Rightarrow> ('s, byte list) py) \<Rightarrow> pins \<Rightarrow> ('s, byte list) py" where
  "x_frame dev_write dev_read pairs =
     (let n = int (length pairs) in
      py_bind (py_lift (pack_I n)) (\<lambda>hdr. py_then (dev_write (88 # hdr @ x_body pairs)) (dev_read n)))"

definition reset_assert :: "(byte list \<Rightarrow> ('s, unit) py) \<Rightarrow> ('s, unit) py" where
  "reset_assert dev_write = dev_write (97 # replicate 4 0)"

definition reset_release :: "(byte list \<Rightarrow> ('s, unit) py) \<Rightarrow> ('s, unit) py" where
  "reset_release dev_write = dev_write (100 # replicate 4 0)"

definition reset_chip :: "(byte list \<Rightarrow> ('s, unit) py) \<Rightarrow> (int \<Rightarrow> ('s, byte list) py) \<Rightarrow> ('s, unit) py" where
  "reset_chip dev_write dev_read =
     py_then (reset_assert dev_write)
     (py_then (x_frame dev_write dev_read (replicate 8 (pack_ui CMD_NOP 0, 0)))
     (py_then (reset_release dev_write)
     (py_then (x_frame dev_write dev_read (replicate 4 (pack_ui CMD_NOP 0, 0))) (py_ret ()))))"

section \<open>Host: one tile\<close>

definition packed_row :: "int list list \<Rightarrow> int \<Rightarrow> int res" where
  "packed_row w r =
     foldR (\<lambda>acc c. bindR (py_index w r) (\<lambda>row. bindR (py_index row c) (\<lambda>v. Inr (acc + push_bit (nat c) (v AND 1))))) 0 (py_range 2)"

definition ldw_pairs :: "int list list \<Rightarrow> pins res" where
  "ldw_pairs w = mapR (\<lambda>r. bindR (packed_row w r) (\<lambda>packed. Inr (pack_ui CMD_LDW r, packed))) (py_range 2)"

definition lda_pairs :: "int list \<Rightarrow> pins res" where
  "lda_pairs a = mapR (\<lambda>c. bindR (py_index a c) (\<lambda>v. Inr (pack_ui CMD_LDA c, v AND 0xFF))) (py_range 2)"

definition seed_pairs :: "int list \<Rightarrow> pins res" where
  "seed_pairs seeds =
     bindR (mapR (\<lambda>r. bindR (py_index seeds r) (\<lambda>v.
         let sraw = v AND 0xFFFF in
         Inr (map (\<lambda>b. (pack_ui CMD_SEED (r OR push_bit 1 b), drop_bit (nat (8 * b)) sraw AND 0xFF)) (py_range PSUM_BYTES))))
       (py_range 2)) (\<lambda>ps. Inr (concat ps))"

definition setup_frame :: "int list list \<Rightarrow> int list \<Rightarrow> int list \<Rightarrow> pins res" where
  "setup_frame w a seeds =
     bindR (ldw_pairs w) (\<lambda>ldw. bindR (lda_pairs a) (\<lambda>lda. bindR (seed_pairs seeds) (\<lambda>seed.
       Inr ([(pack_ui CMD_CLEAR 0, 0), (pack_ui CMD_NOP 0, 0)] @ ldw @ lda @ seed @ [(pack_ui CMD_STATUS 0, 0)]))))"

definition expected_psums :: "int list list \<Rightarrow> int list \<Rightarrow> int list \<Rightarrow> int list res" where
  "expected_psums w a seeds =
     mapR (\<lambda>r. bindR (py_index seeds r) (\<lambda>s.
       foldR (\<lambda>v c. bindR (py_index w r) (\<lambda>row. bindR (py_index row c) (\<lambda>wv. bindR (py_index a c) (\<lambda>av.
         Inr (v + (if wv \<noteq> 0 then av else - av)))))) s (py_range 2))) (py_range 2)"

definition rdp_pairs :: pins where
  "rdp_pairs = concat (map (\<lambda>r. map (\<lambda>b. (pack_ui CMD_RDP (r OR push_bit 1 b), 0)) (py_range PSUM_BYTES)) (py_range 2))"

text \<open>The psums of the bytes that RDP returned.\<close>

definition decode_psums :: "byte list \<Rightarrow> int list res" where
  "decode_psums rdp_resp =
     mapR (\<lambda>r. bindR (foldR (\<lambda>raw b. bindR (py_index rdp_resp (r * PSUM_BYTES + b)) (\<lambda>x.
         Inr (raw OR push_bit (nat (8 * b)) (uint x)))) 0 (py_range PSUM_BYTES))
       (\<lambda>raw. Inr (to_signed16 raw))) (py_range 2)"

text \<open>The outcome of \<open>run_one\<close>: the psums, or a message with the status byte it shows.\<close>

datatype run_result =
    Psums "int list"
  | PreStartError byte
  | NotReady byte
  | NoDone byte
  | PollError byte
  | NotAllValid byte

definition run_one :: "(byte list \<Rightarrow> ('s, unit) py) \<Rightarrow> (int \<Rightarrow> ('s, byte list) py) \<Rightarrow>
    int list list \<Rightarrow> int list \<Rightarrow> int list \<Rightarrow> int \<Rightarrow> ('s, run_result) py" where
  "run_one dev_write dev_read w a seeds polls =
     py_then (reset_chip dev_write dev_read)
     (py_bind (py_lift (setup_frame w a seeds)) (\<lambda>setup.
      py_bind (x_frame dev_write dev_read setup) (\<lambda>setup_resp.
      py_bind (py_lift (py_index setup_resp (-1))) (\<lambda>pre.
      if pre AND S_ERROR \<noteq> 0 then py_ret (PreStartError pre)
      else if pre AND S_START_READY = 0 then py_ret (NotReady pre)
      else
        py_bind (x_frame dev_write dev_read ([(pack_ui CMD_START 0, 0), (pack_ui CMD_NOP 0, 0)] @
            replicate (nat polls) (pack_ui CMD_STATUS 0, 0) @ rdp_pairs)) (\<lambda>resp.
        let poll_resp = py_slice resp 2 (2 + polls);
            rdp_resp = py_slice resp (2 + polls) (int (length resp))
        in if \<not> list_ex (\<lambda>st. st AND S_DONE \<noteq> 0) poll_resp
           then py_bind (py_lift (py_index poll_resp (-1))) (\<lambda>st. py_ret (NoDone st))
           else py_bind (py_lift (py_index poll_resp (-1))) (\<lambda>last_poll.
             if last_poll AND S_ERROR \<noteq> 0 then py_ret (PollError last_poll)
             else if last_poll AND S_ALL_VALID = 0 then py_ret (NotAllValid last_poll)
             else py_bind (py_lift (decode_psums rdp_resp)) (\<lambda>psums. py_ret (Psums psums))))))))"

section \<open>Host: subcommands\<close>

definition SMOKE_CASES :: "(int list list \<times> int list \<times> int list) list" where
  "SMOKE_CASES = [([[1, 1], [1, 1]], [10, 20], [0, 0]), ([[1, 0], [1, 1]], [3, 5], [0, 0]),
     ([[1, 0], [0, 1]], [4, -3], [11, -13])]"

fun smoke_loop :: "(byte list \<Rightarrow> ('s, unit) py) \<Rightarrow> (int \<Rightarrow> ('s, byte list) py) \<Rightarrow>
    (int list list \<times> int list \<times> int list) list \<Rightarrow> int \<Rightarrow> ('s, int) py" where
  "smoke_loop dev_write dev_read [] ok = py_ret ok"
| "smoke_loop dev_write dev_read ((w, a, seeds) # cases) ok =
     py_bind (py_lift (expected_psums w a seeds)) (\<lambda>expected.
     py_bind (run_one dev_write dev_read w a seeds 16) (\<lambda>result.
       smoke_loop dev_write dev_read cases (if result = Psums expected then ok + 1 else ok)))"

definition cmd_smoke :: "(byte list \<Rightarrow> ('s, unit) py) \<Rightarrow> (int \<Rightarrow> ('s, byte list) py) \<Rightarrow> ('s, int) py" where
  "cmd_smoke dev_write dev_read =
     py_bind (smoke_loop dev_write dev_read SMOKE_CASES 0) (\<lambda>ok.
       py_ret (if ok = int (length SMOKE_CASES) then 0 else 1))"

definition rdp_sweep :: "(byte list \<Rightarrow> ('s, unit) py) \<Rightarrow> (int \<Rightarrow> ('s, byte list) py) \<Rightarrow> ('s, int list) py" where
  "rdp_sweep dev_write dev_read =
     py_bind (x_frame dev_write dev_read (rdp_pairs @ [(pack_ui CMD_NOP 0, 0)])) (\<lambda>resp.
       py_lift (decode_psums (py_slice resp 0 (2 * PSUM_BYTES))))"

definition cmd_debug :: "(byte list \<Rightarrow> ('s, unit) py) \<Rightarrow> (int \<Rightarrow> ('s, byte list) py) \<Rightarrow> ('s, int list list) py" where
  "cmd_debug dev_write dev_read =
     (let w = [[1, 0], [0, 1]]; a = [4, -3]; seeds = [11, -13]; nop = (pack_ui CMD_NOP 0, 0) in
      py_then (reset_chip dev_write dev_read)
      (py_bind (py_lift (ldw_pairs w)) (\<lambda>ldw. py_bind (py_lift (lda_pairs a)) (\<lambda>lda.
       py_then (x_frame dev_write dev_read ([(pack_ui CMD_CLEAR 0, 0), nop] @ ldw @ lda @ [nop]))
       (py_bind (rdp_sweep dev_write dev_read) (\<lambda>pre_seed.
        py_bind (py_lift (seed_pairs seeds)) (\<lambda>seed.
        py_then (x_frame dev_write dev_read (seed @ [nop]))
        (py_bind (rdp_sweep dev_write dev_read) (\<lambda>post_seed.
         py_then (x_frame dev_write dev_read [(pack_ui CMD_STATUS 0, 0), nop])
         (py_then (x_frame dev_write dev_read ([(pack_ui CMD_START 0, 0), nop] @ replicate 16 (pack_ui CMD_STATUS 0, 0) @ [nop]))
         (py_bind (rdp_sweep dev_write dev_read) (\<lambda>post_start.
           py_ret [pre_seed, post_seed, post_start]))))))))))))"

text \<open>The upload of a bitstream: the exit code of the command.\<close>

definition cmd_flash_bitstream :: "(byte list \<Rightarrow> ('s, unit) py) \<Rightarrow> (int \<Rightarrow> ('s, byte list) py) \<Rightarrow> byte list \<Rightarrow> ('s, int) py" where
  "cmd_flash_bitstream dev_write dev_read bits =
     py_bind (py_lift (pack_I (int (length bits)))) (\<lambda>hdr.
     py_then (dev_write (70 # hdr @ bits))
     (py_bind (dev_read 1) (\<lambda>rc. py_ret (if rc = [] then 1 else if rc ! 0 = 0 then 0 else 1))))"

end
