(* ===== verification/ChipSpec.thy ===== *)
theory ChipSpec
  imports Chip
begin

text \<open>
  What the chip does: the invariant of its registers over any sequence of cycles, the effect of each
  command on an idle chip, and the run that a START begins, which ignores every command but CLEAR and
  leaves in each accumulator its seed plus the signed sum of the activations.
\<close>

unbundle bit_operations_syntax

section \<open>The invariant\<close>

definition chip_shape :: "chip \<Rightarrow> bool" where
  "chip_shape c \<longleftrightarrow> length (weight_mem c) = 2 \<and> list_all (\<lambda>r. length r = 2) (weight_mem c) \<and> length (act_mem c) = 2 \<and>
     length (acc_q c) = 2 \<and> length (acc_done_q c) = 2 \<and> length (pe_rows c) = 2 \<and> list_all (\<lambda>r. length r = 2) (pe_rows c)"

definition valids :: "chip \<Rightarrow> bool list list" where
  "valids c = map (map valid_out) (pe_rows c)"

abbreviation quiet_pattern :: "bool list list" where
  "quiet_pattern \<equiv> [[False, False], [False, False]]"

text \<open>The number of cycles to the end of the run, with the valid bits and the done flags that go with it.\<close>

definition stage :: "chip \<Rightarrow> nat option" where
  "stage c =
     (let s = state_q (ctrl c); n = step_q (ctrl c); v = valids c; d = acc_done_q c in
      if s = 0 \<and> v = quiet_pattern then Some 0
      else if s = 1 \<and> n = 0 \<and> v = quiet_pattern \<and> d = [False, False] then Some 7
      else if s = 1 \<and> n = 1 \<and> v = quiet_pattern \<and> d = [False, False] then Some 6
      else if s = 2 \<and> n = 0 \<and> v = quiet_pattern \<and> d = [False, False] then Some 5
      else if s = 2 \<and> n = 1 \<and> v = [[True, False], [False, False]] \<and> d = [False, False] then Some 4
      else if s = 2 \<and> n = 2 \<and> v = [[False, True], [True, False]] \<and> d = [False, False] then Some 3
      else if s = 2 \<and> n = 3 \<and> v = [[False, False], [False, True]] \<and> d = [True, False] then Some 2
      else if s = 2 \<and> n = 3 \<and> v = quiet_pattern \<and> d = [True, True] then Some 1
      else None)"

definition chip_inv :: "chip \<Rightarrow> bool" where
  "chip_inv c \<longleftrightarrow> chip_shape c \<and> stage c \<noteq> None"

lemma length2: "length xs = 2 \<longleftrightarrow> (\<exists>x y. xs = [x, y])"
  by (cases xs rule: list.exhaust; cases "tl xs" rule: list.exhaust; cases "tl (tl xs)" rule: list.exhaust) auto

text \<open>The registers of a chip of the right shape, spelled out.\<close>

definition chip_of ::
  "2 word \<Rightarrow> 2 word \<Rightarrow> bool \<Rightarrow> bool \<Rightarrow> bool list list \<Rightarrow> 8 word list \<Rightarrow> 16 word list \<Rightarrow> bool list \<Rightarrow> pe list list \<Rightarrow> bool \<Rightarrow> chip" where
  "chip_of s n d wd w a x f p e =
     \<lparr>ctrl = \<lparr>state_q = s, step_q = n, done_latched_q = d, weight_done_q = wd\<rparr>, weight_mem = w, act_mem = a, acc_q = x,
      acc_done_q = f, pe_rows = p, error_latched = e\<rparr>"

lemma chip_of_fields:
  "c = chip_of (state_q (ctrl c)) (step_q (ctrl c)) (done_latched_q (ctrl c)) (weight_done_q (ctrl c)) (weight_mem c) (act_mem c)
     (acc_q c) (acc_done_q c) (pe_rows c) (error_latched c)"
  by (simp add: chip_of_def)

lemma chip_shapeE:
  assumes "chip_shape c"
  obtains s n d wd w00 w01 w10 w11 a0 a1 x0 x1 f0 f1 p00 p01 p10 p11 e where
    "c = chip_of s n d wd [[w00, w01], [w10, w11]] [a0, a1] [x0, x1] [f0, f1] [[p00, p01], [p10, p11]] e"
proof -
  obtain w0 w1 where w: "weight_mem c = [w0, w1]" "length w0 = 2" "length w1 = 2"
    using assms by (auto simp: chip_shape_def length2)
  obtain p0 p1 where p: "pe_rows c = [p0, p1]" "length p0 = 2" "length p1 = 2"
    using assms by (auto simp: chip_shape_def length2)
  obtain a0 a1 where a: "act_mem c = [a0, a1]" using assms by (auto simp: chip_shape_def length2)
  obtain x0 x1 where x: "acc_q c = [x0, x1]" using assms by (auto simp: chip_shape_def length2)
  obtain f0 f1 where f: "acc_done_q c = [f0, f1]" using assms by (auto simp: chip_shape_def length2)
  from w(2,3) p(2,3) obtain w00 w01 w10 w11 p00 p01 p10 p11 where
    "w0 = [w00, w01]" "w1 = [w10, w11]" "p0 = [p00, p01]" "p1 = [p10, p11]" unfolding length2 by blast
  then show thesis using that chip_of_fields [of c] unfolding w(1) p(1) a x f by metis
qed

section \<open>One cycle, by phase\<close>

lemmas chip_parts = ctrl_step_def idle_def load_phase_def run_phase_def weight_mem_step_def weight_col_out_def
  act_mem_step_def array_act_in_def acc_q_step_def acc_done_step_def array_psum_in_def array_valid_in_def capture_def
  all_rows_done_def pe_step_def Let_def

lemma range2: "[0..<2] = [0, 1 :: nat]"
  by (simp add: upt_rec)

lemma arg_in_range: "arg_row g < 2" "arg_col g < 2" "arg_byte g < 2"
  by (simp_all add: arg_row_def arg_col_def arg_byte_def take_bit_eq_mod unat_mod)


abbreviation rest_pe :: "bool \<Rightarrow> pe" where
  "rest_pe w \<equiv> \<lparr>weight_q = w, act_out = 0, psum_out = 0, valid_out = False\<rparr>"

text \<open>The accumulators and the done flags after the capture at the right edge of the array.\<close>

abbreviation captured :: "pe \<Rightarrow> 16 word \<Rightarrow> 16 word" where
  "captured p x \<equiv> (if valid_out p then psum_out p else x)"

lemma clock_load:
  assumes "cmd_of ui \<noteq> 1" "n = 0 \<or> n = 1"
  shows "clock True ui uio (chip_of 1 n d wd [[w00, w01], [w10, w11]] [a0, a1] [x0, x1] [f0, f1] [[p00, p01], [p10, p11]] e) =
    chip_of (if n = 1 then 2 else 1) (1 - n) d (n = 1 \<or> wd) [[w00, w01], [w10, w11]] [a0, a1]
      [captured p01 x0, captured p11 x1] [valid_out p01 \<or> f0, valid_out p11 \<or> f1]
      [[rest_pe (if n = 1 then w00 else w01), rest_pe (weight_q p00)],
       [rest_pe (if n = 1 then w10 else w11), rest_pe (weight_q p10)]] e"
  using assms by (auto simp: clock_def chip_of_def chip_parts range2)

lemma clock_run:
  assumes "cmd_of ui \<noteq> 1"
  shows "clock True ui uio (chip_of 2 n d wd [[w00, w01], [w10, w11]] [a0, a1] [x0, x1] [f0, f1] [[p00, p01], [p10, p11]] e) =
    chip_of (if n \<ge> 3 \<and> f0 \<and> f1 then 0 else 2) (if n < 3 then n + 1 else n) (n \<ge> 3 \<and> f0 \<and> f1 \<or> d) wd
      [[w00, w01], [w10, w11]] [a0, a1] [captured p01 x0, captured p11 x1] [valid_out p01 \<or> f0, valid_out p11 \<or> f1]
      [[\<lparr>weight_q = weight_q p00, act_out = (if n = 0 then a0 else 0),
          psum_out = (if n = 0 then x0 + contrib_ext (weight_q p00) a0 else 0), valid_out = (n = 0)\<rparr>,
        \<lparr>weight_q = weight_q p01, act_out = (if n = 1 then a1 else 0),
          psum_out = (if valid_out p00 then psum_out p00 + contrib_ext (weight_q p01) (if n = 1 then a1 else 0) else 0),
          valid_out = valid_out p00\<rparr>],
       [\<lparr>weight_q = weight_q p10, act_out = act_out p00,
          psum_out = (if n = 1 then x1 + contrib_ext (weight_q p10) (act_out p00) else 0), valid_out = (n = 1)\<rparr>,
        \<lparr>weight_q = weight_q p11, act_out = act_out p01,
          psum_out = (if valid_out p10 then psum_out p10 + contrib_ext (weight_q p11) (act_out p01) else 0),
          valid_out = valid_out p10\<rparr>]] e"
proof -
  have "unat n = 0 \<longleftrightarrow> n = 0" "unat n = Suc 0 \<longleftrightarrow> n = 1" by (simp_all add: word_unat_eq_iff)
  then show ?thesis using assms by (cases "n = 0"; cases "n = 1") (auto simp: clock_def chip_of_def chip_parts range2)
qed

lemma clock_reset:
  "clock False ui uio (chip_of s n d wd [[w00, w01], [w10, w11]] [a0, a1] [x0, x1] [f0, f1] [[p00, p01], [p10, p11]] e) =
    chip_of 0 0 False False [[False, False], [False, False]] [0, 0] [0, 0] [False, False]
      [[rest_pe False, rest_pe False], [rest_pe False, rest_pe False]] False"
  by (simp add: clock_def chip_of_def chip_parts range2 numeral_2_eq_2)

lemma clock_clear:
  assumes "cmd_of ui = 1"
  shows "clock True ui uio (chip_of s n d wd [[w00, w01], [w10, w11]] [a0, a1] [x0, x1] [f0, f1] [[p00, p01], [p10, p11]] e) =
    chip_of 0 0 False False [[w00, w01], [w10, w11]] [0, 0] [0, 0] [False, False]
      [[rest_pe (weight_q p00), rest_pe (weight_q p01)], [rest_pe (weight_q p10), rest_pe (weight_q p11)]] False"
  using assms by (simp add: clock_def chip_of_def chip_parts range2 numeral_2_eq_2)

lemma clock_idle:
  assumes "cmd_of ui \<noteq> 1" and q: "\<not> valid_out p00" "\<not> valid_out p01" "\<not> valid_out p10" "\<not> valid_out p11"
  shows "clock True ui uio (chip_of 0 n d wd [[w00, w01], [w10, w11]] [a0, a1] [x0, x1] [f0, f1] [[p00, p01], [p10, p11]] e) =
    chip_of (if cmd_of ui = 5 then 1 else 0) (if cmd_of ui = 5 then 0 else n) (cmd_of ui \<noteq> 5 \<and> d) (cmd_of ui \<noteq> 5 \<and> wd)
      (if cmd_of ui = 2 then [[w00, w01], [w10, w11]][arg_row (arg_of ui) := [bit uio 0, bit uio 1]] else [[w00, w01], [w10, w11]])
      (if cmd_of ui = 3 then [a0, a1][arg_col (arg_of ui) := uio] else [a0, a1])
      (if cmd_of ui = 4 then [x0, x1][arg_row (arg_of ui) := put_byte ([x0, x1] ! arg_row (arg_of ui)) (arg_byte (arg_of ui)) uio] else [x0, x1])
      (if cmd_of ui = 5 then [False, False] else [f0, f1])
      [[rest_pe (weight_q p00), rest_pe (weight_q p01)],
       [\<lparr>weight_q = weight_q p10, act_out = act_out p00, psum_out = 0, valid_out = False\<rparr>,
        \<lparr>weight_q = weight_q p11, act_out = act_out p01, psum_out = 0, valid_out = False\<rparr>]] e"
  using assms arg_in_range [of "arg_of ui"] by (auto simp: clock_def chip_of_def chip_parts range2 numeral_2_eq_2)

section \<open>A run\<close>

definition cycles :: "bool \<Rightarrow> (8 word \<times> 8 word) list \<Rightarrow> chip \<Rightarrow> chip" where
  "cycles rst_n pins c = fold (\<lambda>(ui, uio). clock rst_n ui uio) pins c"

lemma cycles_simps [simp]:
  "cycles r [] c = c" "cycles r (p # ps) c = cycles r ps (clock r (fst p) (snd p) c)"
  "cycles r (ps @ qs) c = cycles r qs (cycles r ps c)"
  by (simp_all add: cycles_def case_prod_beta)

lemma length7: "length xs = 7 \<longleftrightarrow> (\<exists>a b c d e f g. xs = [a, b, c, d, e, f, g])"
  by (auto simp: eval_nat_numeral length_Suc_conv)

text \<open>From the START on, every command but CLEAR is ignored for seven cycles.\<close>

lemma run_from_start:
  assumes "cmd_of u0 = 5" "length pins = 7" "list_all (\<lambda>p. cmd_of (fst p) \<noteq> 1) pins"
    and q: "\<not> valid_out p00" "\<not> valid_out p01" "\<not> valid_out p10" "\<not> valid_out p11"
  shows "cycles True ((u0, v0) # pins)
      (chip_of 0 n d wd [[w00, w01], [w10, w11]] [a0, a1] [x0, x1] [f0, f1] [[p00, p01], [p10, p11]] e) =
    chip_of 0 3 True True [[w00, w01], [w10, w11]] [a0, a1]
      [x0 + contrib_ext w00 a0 + contrib_ext w01 a1, x1 + contrib_ext w10 a0 + contrib_ext w11 a1] [True, True]
      [[rest_pe w00, rest_pe w01], [rest_pe w10, rest_pe w11]] e"
proof -
  obtain b1 b2 b3 b4 b5 b6 b7 where p: "pins = [b1, b2, b3, b4, b5, b6, b7]" using assms(2) unfolding length7 by blast
  show ?thesis using assms(1,3) q unfolding p
    by (simp add: clock_idle clock_load clock_run cong del: if_weak_cong)
qed

section \<open>Reachable states\<close>

text \<open>The chip after power-up: registers of any value, one cycle in reset, then cycles of any kind.\<close>

inductive reachable :: "chip \<Rightarrow> bool" where
  power_up: "chip_shape c \<Longrightarrow> reachable (clock False ui uio c)"
| cycle: "reachable c \<Longrightarrow> reachable (clock rst_n ui uio c)"

lemma shape_chip_of: "chip_shape (chip_of s n d wd [[w00, w01], [w10, w11]] [a0, a1] [x0, x1] [f0, f1] [[p00, p01], [p10, p11]] e)"
  by (simp add: chip_shape_def chip_of_def)

lemma stage_chip_of:
  "stage (chip_of s n d wd W A X F P e) =
     (let v = map (map valid_out) P in
      if s = 0 \<and> v = quiet_pattern then Some 0
      else if s = 1 \<and> n = 0 \<and> v = quiet_pattern \<and> F = [False, False] then Some 7
      else if s = 1 \<and> n = 1 \<and> v = quiet_pattern \<and> F = [False, False] then Some 6
      else if s = 2 \<and> n = 0 \<and> v = quiet_pattern \<and> F = [False, False] then Some 5
      else if s = 2 \<and> n = 1 \<and> v = [[True, False], [False, False]] \<and> F = [False, False] then Some 4
      else if s = 2 \<and> n = 2 \<and> v = [[False, True], [True, False]] \<and> F = [False, False] then Some 3
      else if s = 2 \<and> n = 3 \<and> v = [[False, False], [False, True]] \<and> F = [True, False] then Some 2
      else if s = 2 \<and> n = 3 \<and> v = quiet_pattern \<and> F = [True, True] then Some 1
      else None)"
  by (simp add: stage_def chip_of_def valids_def)

lemma update2: "length xs = 2 \<Longrightarrow> \<exists>x y. xs[i := v] = [x, y]"
  by (metis length2 length_list_update)

text \<open>One cycle of a chip that satisfies the invariant, stage by stage.\<close>

lemma stage_reset:
  assumes "chip_shape c" "\<not> r \<or> cmd_of ui = 1"
  shows "chip_shape (clock r ui uio c)" "stage (clock r ui uio c) = Some 0"
  using assms
  by (cases r; (elim chip_shapeE; simp add: clock_reset clock_clear shape_chip_of stage_chip_of))+

lemma stage_idle:
  assumes "chip_shape c" "stage c = Some 0" "cmd_of ui \<noteq> 1"
  shows "chip_shape (clock True ui uio c)" "stage (clock True ui uio c) = Some (if cmd_of ui = 5 then 7 else 0)"
proof -
  obtain s n d wd w00 w01 w10 w11 a0 a1 x0 x1 f0 f1 p00 p01 p10 p11 e where
    c: "c = chip_of s n d wd [[w00, w01], [w10, w11]] [a0, a1] [x0, x1] [f0, f1] [[p00, p01], [p10, p11]] e"
    using assms(1) by (rule chip_shapeE)
  have q: "s = 0" "\<not> valid_out p00" "\<not> valid_out p01" "\<not> valid_out p10" "\<not> valid_out p11"
    using assms(2) unfolding c by (auto simp: stage_chip_of Let_def split: if_splits)
  let ?i = "arg_row (arg_of ui)"
  have i: "?i = 0 \<or> ?i = 1" "arg_col (arg_of ui) = 0 \<or> arg_col (arg_of ui) = 1" using arg_in_range [of "arg_of ui"] by linarith+
  show "stage (clock True ui uio c) = Some (if cmd_of ui = 5 then 7 else 0)"
    unfolding c q(1) clock_idle [OF assms(3) q(2-5)] by (simp add: stage_chip_of)
  show "chip_shape (clock True ui uio c)"
    unfolding c q(1) clock_idle [OF assms(3) q(2-5)] using i by (auto simp: chip_shape_def chip_of_def)
qed

lemma stage_busy:
  assumes "chip_shape c" "stage c = Some (Suc k)" "cmd_of ui \<noteq> 1"
  shows "chip_shape (clock True ui uio c)" "stage (clock True ui uio c) = Some k"
proof -
  obtain s n d wd w00 w01 w10 w11 a0 a1 x0 x1 f0 f1 p00 p01 p10 p11 e where
    c: "c = chip_of s n d wd [[w00, w01], [w10, w11]] [a0, a1] [x0, x1] [f0, f1] [[p00, p01], [p10, p11]] e"
    using assms(1) by (rule chip_shapeE)
  have s: "s = 1 \<and> (n = 0 \<or> n = 1) \<or> s = 2" using assms(2) unfolding c by (auto simp: stage_chip_of Let_def split: if_splits)
  then show "chip_shape (clock True ui uio c)"
    unfolding c by (auto simp: clock_load [OF assms(3)] clock_run [OF assms(3)] shape_chip_of)
  show "stage (clock True ui uio c) = Some k"
  proof (cases "s = 1")
    case True
    then show ?thesis using assms(2) s unfolding c
      by (auto simp: clock_load [OF assms(3)] stage_chip_of Let_def split: if_splits)
  next
    case False
    then have "s = 2" using s by simp
    then show ?thesis using assms(2) unfolding c
      by (auto simp: clock_run [OF assms(3)] stage_chip_of Let_def split: if_splits)
  qed
qed

lemma chip_inv_clock:
  assumes "chip_inv c"
  shows "chip_inv (clock r ui uio c)"
proof (cases "r \<and> cmd_of ui \<noteq> 1")
  case True
  obtain k where k: "chip_shape c" "stage c = Some k" using assms by (auto simp: chip_inv_def)
  show ?thesis
  proof (cases k)
    case 0
    then show ?thesis using stage_idle [of c ui uio] k True by (auto simp: chip_inv_def)
  next
    case (Suc j)
    then show ?thesis using stage_busy [of c j ui uio] k True by (auto simp: chip_inv_def)
  qed
next
  case False
  then show ?thesis using stage_reset [of c r ui uio] assms by (auto simp: chip_inv_def)
qed

lemma reachable_inv: "reachable c \<Longrightarrow> chip_inv c"
  by (induction rule: reachable.induct) (auto simp: stage_reset chip_inv_clock, auto simp: chip_inv_def stage_reset)

lemma stage_zero_iff: "chip_inv c \<Longrightarrow> stage c = Some 0 \<longleftrightarrow> idle (ctrl c)"
  by (auto simp: chip_inv_def stage_def Let_def idle_def split: if_splits)

lemma reachable_cycles: "reachable c \<Longrightarrow> reachable (cycles r pins c)"
  by (induction pins arbitrary: c) (auto intro: reachable.cycle)

text \<open>The run ends: after as many cycles as the stage says the chip is idle, whatever the other commands.\<close>

lemma stage_counts_down:
  assumes "chip_inv c" "stage c = Some (length pins)" "list_all (\<lambda>p. cmd_of (fst p) \<noteq> 1) pins"
  shows "idle (ctrl (cycles True pins c))"
  using assms
proof (induction pins arbitrary: c)
  case Nil
  then show ?case using stage_zero_iff [of c] by simp
next
  case (Cons p ps)
  have "stage (clock True (fst p) (snd p) c) = Some (length ps)"
    using Cons.prems by (intro stage_busy(2)) (auto simp: chip_inv_def)
  with Cons show ?case by (simp add: chip_inv_clock)
qed

lemma stage_bound: "stage c = Some k \<Longrightarrow> k \<le> 7"
  by (auto simp: stage_def Let_def split: if_splits)

text \<open>The run of any reachable idle chip.\<close>

lemma reachable_run:
  assumes "reachable c" "idle (ctrl c)" "cmd_of u0 = 5" "length pins = 7" "list_all (\<lambda>p. cmd_of (fst p) \<noteq> 1) pins"
  shows "let c' = cycles True ((u0, v0) # pins) c in
    idle (ctrl c') \<and> done_latched_q (ctrl c') \<and> all_rows_done c' \<and> error_latched c' = error_latched c \<and>
    weight_mem c' = weight_mem c \<and> act_mem c' = act_mem c \<and>
    acc_q c' = map (\<lambda>r. acc_q c ! r + (\<Sum>k<2. contrib_ext (weight_mem c ! r ! k) (act_mem c ! k))) [0..<2]"
proof -
  have inv: "chip_inv c" using assms(1) by (rule reachable_inv)
  then have st: "chip_shape c" "stage c = Some 0" using assms(2) stage_zero_iff [of c] by (auto simp: chip_inv_def)
  obtain s n d wd w00 w01 w10 w11 a0 a1 x0 x1 f0 f1 p00 p01 p10 p11 e where
    c: "c = chip_of s n d wd [[w00, w01], [w10, w11]] [a0, a1] [x0, x1] [f0, f1] [[p00, p01], [p10, p11]] e"
    using st(1) by (rule chip_shapeE)
  have q: "s = 0" "\<not> valid_out p00" "\<not> valid_out p01" "\<not> valid_out p10" "\<not> valid_out p11"
    using st(2) unfolding c by (auto simp: stage_chip_of Let_def split: if_splits)
  have "cycles True ((u0, v0) # pins) c = chip_of 0 3 True True [[w00, w01], [w10, w11]] [a0, a1]
      [x0 + contrib_ext w00 a0 + contrib_ext w01 a1, x1 + contrib_ext w10 a0 + contrib_ext w11 a1] [True, True]
      [[rest_pe w00, rest_pe w01], [rest_pe w10, rest_pe w11]] e"
    unfolding c q(1) by (rule run_from_start) (use assms q in auto)
  then show ?thesis unfolding c
    by (simp add: chip_of_def idle_def all_rows_done_def range2 lessThan_Suc numeral_2_eq_2 algebra_simps)
qed

end
