(* ===== verification/StreamerSpec.thy ===== *)
theory StreamerSpec
  imports Streamer ChipSpec
begin

text \<open>
  The host, the firmware and the chip together: what a frame does to the chip, the interface through which
  the host sees the firmware, and the value that every step of \<open>run_one\<close>, \<open>debug\<close> and the tile
  macro computes.
\<close>

unbundle bit_operations_syntax

section \<open>Frames as cycles of the chip\<close>

fun answers :: "bool \<Rightarrow> (8 word \<times> 8 word) list \<Rightarrow> chip \<Rightarrow> byte list" where
  "answers r [] c = []"
| "answers r (p # ps) c = (let c' = clock r (fst p) (snd p) c in uo_out (fst p) c' # answers r ps c')"

lemma answers_append [simp]: "answers r (ps @ qs) c = answers r ps c @ answers r qs (cycles r ps c)"
  by (induction ps arbitrary: c) (simp_all add: Let_def)

lemma length_answers [simp]: "length (answers r ps c) = length ps"
  by (induction ps arbitrary: c) (simp_all add: Let_def)

abbreviation flat :: "(8 word \<times> 8 word) list \<Rightarrow> byte list" where
  "flat pins \<equiv> concat (map (\<lambda>(ui, uio). [ui, uio]) pins)"

abbreviation after :: "(8 word \<times> 8 word) list \<Rightarrow> device \<Rightarrow> device" where
  "after pins dev \<equiv> dev\<lparr>chip_of_device := cycles (rst_pin dev) pins (chip_of_device dev)\<rparr>"

lemma run_pairs_flat: "run_pairs (flat pins) dev = (answers (rst_pin dev) pins (chip_of_device dev), after pins dev)"
  by (induction pins arbitrary: dev) (auto simp: chip_cycle_def Let_def split: prod.splits)

lemma drive_eq: "drive pins dev = (answers (rst_pin dev) pins (chip_of_device dev), after pins dev)"
  by (simp add: drive_def run_pairs_flat)

lemma length_flat [simp]: "length (flat pins) = 2 * length pins"
  by (induction pins) auto

lemma take_flat: "take (2 * n) (flat pins) = flat (take n pins)"
proof (induction pins arbitrary: n)
  case (Cons p pins)
  then show ?case by (cases n; cases p) simp_all
qed simp

lemma drop_flat: "drop (2 * n) (flat pins) = flat (drop n pins)"
proof (induction pins arbitrary: n)
  case (Cons p pins)
  then show ?case by (cases n; cases p) simp_all
qed simp

text \<open>The batches of the firmware make no difference to the answer.\<close>

lemma x_loop_flat:
  "x_loop (length pins) (flat pins) dev = (answers (rst_pin dev) pins (chip_of_device dev), after pins dev)"
proof (induction "length pins" arbitrary: pins dev rule: less_induct)
  case less
  let ?b = "if length pins < 64 then length pins else 64"
  show ?case
  proof (cases "pins = []")
    case True
    then show ?thesis by (simp add: x_loop.simps)
  next
    case False
    have l: "length pins - ?b = length (drop ?b pins)" "length (drop ?b pins) < length pins" using False by auto
    have "x_loop (length pins) (flat pins) dev =
        (case run_pairs (flat (take ?b pins)) dev of (out_buf, dev') \<Rightarrow>
         case x_loop (length (drop ?b pins)) (flat (drop ?b pins)) dev' of (outs, dev'') \<Rightarrow> (out_buf @ outs, dev''))"
      using False by (subst x_loop.simps) (simp only: take_flat drop_flat l Let_def, simp)
    also have "\<dots> = (answers (rst_pin dev) (take ?b pins @ drop ?b pins) (chip_of_device dev), after (take ?b pins @ drop ?b pins) dev)"
      unfolding run_pairs_flat prod.case less [OF l(2)] by (simp del: append_take_drop_id)
    finally show ?thesis by (simp only: append_take_drop_id)
  qed
qed

section \<open>The link\<close>

definition pins_of :: "pins \<Rightarrow> (8 word \<times> 8 word) list" where
  "pins_of pairs = map (\<lambda>(ui, uio). (word_of_int ui, word_of_int uio)) pairs"

lemma pins_of_simps [simp]:
  "pins_of [] = []" "pins_of (p # ps) = (word_of_int (fst p), word_of_int (snd p)) # pins_of ps"
  "pins_of (ps @ qs) = pins_of ps @ pins_of qs" "pins_of (replicate n p) = replicate n (word_of_int (fst p), word_of_int (snd p))"
  "length (pins_of ps) = length ps"
  by (simp_all add: pins_of_def case_prod_beta)

lemma x_body_flat: "x_body pairs = flat (pins_of pairs)"
  by (induction pairs) (auto simp: x_body_def)

lemma fw_x_request:
  assumes "length pairs < 2 ^ 32"
  shows "fw_request other (88 # le_bytes 4 (int (length pairs)) @ x_body pairs) dev =
    Some (answers (rst_pin dev) (pins_of pairs) (chip_of_device dev), after (pins_of pairs) dev)"
proof -
  have "int (length pairs) < 256 ^ 4" using assms by simp
  then have "nat (le_value (le_bytes 4 (int (length pairs)))) = length (pins_of pairs)" by (simp add: le_value_le_bytes)
  then show ?thesis using x_loop_flat [of "pins_of pairs" dev] by (simp add: fw_request_def x_body_flat Let_def)
qed

lemma fw_reset_requests:
  "fw_request other (97 # replicate 4 0) dev = Some ([], dev\<lparr>rst_pin := False\<rparr>)"
  "fw_request other (100 # replicate 4 0) dev = Some ([], dev\<lparr>rst_pin := True\<rparr>)"
  by (simp_all add: fw_request_def)

text \<open>
  What the host relies on: a request that is written reaches the firmware, and when the firmware
  answers it, a read of the length of the answer returns the answer.  \<open>holds s dev\<close> says that the link is
  idle in state \<open>s\<close> with the device in state \<open>dev\<close>.
\<close>

locale streamer_link =
  fixes dev_write :: "byte list \<Rightarrow> ('s, unit) py"
    and dev_read :: "int \<Rightarrow> ('s, byte list) py"
    and holds :: "'s \<Rightarrow> device \<Rightarrow> bool"
    and other :: "8 word \<Rightarrow> byte list \<Rightarrow> device \<Rightarrow> (byte list \<times> device) option"
  assumes request: "holds s dev \<Longrightarrow> fw_request other data dev = Some (reply, dev') \<Longrightarrow>
      \<exists>s1. dev_write data s = (Inr (), s1) \<and>
        (if reply = [] then holds s1 dev' else \<exists>s2. dev_read (int (length reply)) s1 = (Inr reply, s2) \<and> holds s2 dev')"
begin

lemma x_frame_ok:
  assumes "holds s dev" "pairs \<noteq> []" "length pairs < 2 ^ 32"
  shows "\<exists>s'. x_frame dev_write dev_read pairs s = (Inr (answers (rst_pin dev) (pins_of pairs) (chip_of_device dev)), s') \<and>
    holds s' (after (pins_of pairs) dev)"
proof -
  let ?a = "answers (rst_pin dev) (pins_of pairs) (chip_of_device dev)"
  have "length ?a = length pairs" by simp
  then have ne: "?a \<noteq> []" using assms(2) by fastforce
  obtain s1 where s1: "dev_write (88 # le_bytes 4 (int (length pairs)) @ x_body pairs) s = (Inr (), s1)"
      "\<exists>s2. dev_read (int (length ?a)) s1 = (Inr ?a, s2) \<and> holds s2 (after (pins_of pairs) dev)"
    using request [OF assms(1) fw_x_request [OF assms(3)]] ne by auto
  then show ?thesis using assms(3) by (auto simp: x_frame_def pack_I_def py_bind_run py_then_run Let_def)
qed

lemma reset_pins_ok:
  assumes "holds s dev"
  shows "\<exists>s'. reset_assert dev_write s = (Inr (), s') \<and> holds s' (dev\<lparr>rst_pin := False\<rparr>)"
    and "\<exists>s'. reset_release dev_write s = (Inr (), s') \<and> holds s' (dev\<lparr>rst_pin := True\<rparr>)"
  using request [OF assms fw_reset_requests(1)] request [OF assms fw_reset_requests(2)]
  by (simp_all add: reset_assert_def reset_release_def)

end

text \<open>The link as a pipe: a request runs the firmware at once, its answer waits until it is read.\<close>

definition pipe_write :: "(8 word \<Rightarrow> byte list \<Rightarrow> device \<Rightarrow> (byte list \<times> device) option) \<Rightarrow> byte list \<Rightarrow> (device \<times> byte list, unit) py" where
  "pipe_write other data = (\<lambda>(dev, q).
     case fw_request other data dev of None \<Rightarrow> (Inl OSError, (dev, q)) | Some (reply, dev') \<Rightarrow> (Inr (), (dev', q @ reply)))"

definition pipe_read :: "int \<Rightarrow> (device \<times> byte list, byte list) py" where
  "pipe_read n = (\<lambda>(dev, q). if int (length q) < n then (Inl OSError, (dev, q)) else (Inr (take (nat n) q), (dev, drop (nat n) q)))"

interpretation pipe: streamer_link "pipe_write other" pipe_read "\<lambda>s dev. s = (dev, [])" other for other
  by unfold_locales (auto simp: pipe_write_def pipe_read_def)

section \<open>Pins, decoded\<close>

lemma pack_ui_table:
  "pack_ui 7 0 = 7" "pack_ui 1 0 = 1" "pack_ui 0 0 = 0" "pack_ui 5 0 = 5"
  "pack_ui 2 0 = 2" "pack_ui 2 1 = 10" "pack_ui 3 0 = 3" "pack_ui 3 1 = 11"
  "pack_ui 4 0 = 4" "pack_ui 4 1 = 12" "pack_ui 4 2 = 20" "pack_ui 4 3 = 28"
  "pack_ui 6 0 = 6" "pack_ui 6 1 = 14" "pack_ui 6 2 = 22" "pack_ui 6 3 = 30"
  by (simp_all add: pack_ui_def)

lemma cmd_table:
  "cmd_of 7 = 7" "cmd_of 1 = 1" "cmd_of 0 = 0" "cmd_of 5 = 5" "cmd_of 2 = 2" "cmd_of 10 = 2" "cmd_of 3 = 3" "cmd_of 11 = 3"
  "cmd_of 4 = 4" "cmd_of 12 = 4" "cmd_of 20 = 4" "cmd_of 28 = 4" "cmd_of 6 = 6" "cmd_of 14 = 6" "cmd_of 22 = 6" "cmd_of 30 = 6"
  by (simp_all add: cmd_of_def take_bit_eq_mod)

lemma arg_table:
  "arg_row (arg_of 2) = 0" "arg_row (arg_of 10) = 1" "arg_col (arg_of 3) = 0" "arg_col (arg_of 11) = 1"
  "arg_row (arg_of 4) = 0" "arg_row (arg_of 12) = 1" "arg_row (arg_of 20) = 0" "arg_row (arg_of 28) = 1"
  "arg_byte (arg_of 4) = 0" "arg_byte (arg_of 12) = 0" "arg_byte (arg_of 20) = 1" "arg_byte (arg_of 28) = 1"
  "arg_row (arg_of 6) = 0" "arg_row (arg_of 14) = 1" "arg_row (arg_of 22) = 0" "arg_row (arg_of 30) = 1"
  "arg_byte (arg_of 6) = 0" "arg_byte (arg_of 14) = 0" "arg_byte (arg_of 22) = 1" "arg_byte (arg_of 30) = 1"
  by (simp_all add: arg_of_def arg_row_def arg_col_def arg_byte_def take_bit_eq_mod drop_bit_eq_div)

section \<open>Numbers at their widths\<close>

lemma contrib_ext_int: "contrib_ext w a = word_of_int (if w then sint a else - sint a)"
proof -
  have r: "- 128 \<le> sint a" "sint a < 128" using sint_range_size [of a] by (simp_all add: word_size)
  have 0: "scast a = (word_of_int (sint a) :: 9 word)" by simp
  have 1: "sint (word_of_int (sint a) :: 9 word) = sint a" "sint (word_of_int (- sint a) :: 9 word) = - sint a"
    unfolding sint_sbintrunc' using r by (simp_all add: signed_take_bit_int_eq_self)
  have "contrib_ext w a = (if w then word_of_int (sint (word_of_int (sint a) :: 9 word)) else word_of_int (sint (word_of_int (- sint a) :: 9 word)))"
    unfolding contrib_ext_def Let_def 0 by simp
  then show ?thesis by (simp only: 1) simp
qed

lemma to_signed16_eq: "to_signed16 v = sint (word_of_int v :: 16 word)"
proof -
  have "v AND 0xFFFF = v mod 65536" using take_bit_eq_mask [of 16 v] by (simp add: mask_eq_exp_minus_1 take_bit_eq_mod)
  moreover have "n AND 0x8000 \<noteq> 0 \<longleftrightarrow> bit n 15" for n :: int
    using and_exp_eq_0_iff_not_bit [of n 15] by simp
  moreover have "v mod 65536 div 32768 = v div 32768 mod 2" using zmod_zmult2_eq [of 2 v 32768] by simp
  ultimately show ?thesis
    by (simp add: to_signed16_def Let_def sint_sbintrunc' signed_take_bit_eq_take_bit_minus take_bit_eq_mod bit_iff_odd)
qed

lemma seed_bytes:
  "put_byte (put_byte 0 0 (word_of_int ((v AND 0xFFFF) AND 0xFF))) 1 (word_of_int (drop_bit 8 (v AND 0xFFFF) AND 0xFF)) = word_of_int v"
proof -
  have m: "(0xFFFF :: int) = mask 16" "(0xFF :: int) = mask 8" "(0xFF :: 16 word) = mask 8" by (simp_all add: mask_eq_exp_minus_1)
  show ?thesis unfolding put_byte_def m by (rule bit_word_eqI) (auto simp: bit_simps)
qed

lemma psum_bytes:
  "uint (get_byte x 0) OR push_bit 8 (uint (get_byte x (Suc 0))) = uint x"
  by (rule bit_eqI) (auto simp: get_byte_def bit_simps dest: bit_imp_le_length)

section \<open>Frames of the host on the chip\<close>

abbreviation rest_array :: "bool \<Rightarrow> bool \<Rightarrow> bool \<Rightarrow> bool \<Rightarrow> pe list list" where
  "rest_array w00 w01 w10 w11 \<equiv> [[rest_pe w00, rest_pe w01], [rest_pe w10, rest_pe w11]]"

abbreviation zero_chip :: chip where
  "zero_chip \<equiv> chip_of 0 0 False False [[False, False], [False, False]] [0, 0] [0, 0] [False, False] (rest_array False False False False) False"

lemma zero_shape: "chip_shape zero_chip"
  by (rule shape_chip_of)

lemma clock_still:
  assumes "cmd_of ui \<in> {0, 6, 7}"
  shows "clock True ui uio (chip_of 0 n d wd [[w00, w01], [w10, w11]] [a0, a1] [x0, x1] [f0, f1] (rest_array q00 q01 q10 q11) e) =
    chip_of 0 n d wd [[w00, w01], [w10, w11]] [a0, a1] [x0, x1] [f0, f1] (rest_array q00 q01 q10 q11) e"
  using assms by (subst clock_idle) auto

lemma cycles_still:
  assumes "list_all (\<lambda>p. cmd_of (fst p) \<in> {0, 6, 7}) pins"
  shows "cycles True pins (chip_of 0 n d wd [[w00, w01], [w10, w11]] [a0, a1] [x0, x1] [f0, f1] (rest_array q00 q01 q10 q11) e) =
    chip_of 0 n d wd [[w00, w01], [w10, w11]] [a0, a1] [x0, x1] [f0, f1] (rest_array q00 q01 q10 q11) e"
  using assms by (induction pins) (simp_all add: clock_still)

lemma answers_still:
  assumes "list_all (\<lambda>p. cmd_of (fst p) \<in> {0, 6, 7}) pins"
  shows "answers True pins (chip_of 0 n d wd [[w00, w01], [w10, w11]] [a0, a1] [x0, x1] [f0, f1] (rest_array q00 q01 q10 q11) e) =
    map (\<lambda>p. uo_out (fst p) (chip_of 0 n d wd [[w00, w01], [w10, w11]] [a0, a1] [x0, x1] [f0, f1] (rest_array q00 q01 q10 q11) e)) pins"
  using assms by (induction pins) (simp_all add: clock_still Let_def)

lemma cycles_reset:
  assumes "chip_shape c"
  shows "cycles False (replicate (Suc n) (ui, uio)) c = zero_chip"
  using assms
proof (induction n arbitrary: c)
  case 0
  then show ?case by (elim chip_shapeE) (simp add: clock_reset)
next
  case (Suc n)
  have "cycles False (replicate (Suc (Suc n)) (ui, uio)) c = cycles False (replicate (Suc n) (ui, uio)) (clock False ui uio c)" by simp
  also have "\<dots> = zero_chip" by (rule Suc.IH [OF stage_reset(1) [OF Suc.prems]]) simp
  finally show ?case .
qed

lemma range_two: "py_range 2 = [0, 1]"
  by (simp add: py_range_def upt_rec)

lemma index_two: "py_index [x, y] 0 = Inr x" "py_index [x, y] 1 = Inr y"
  by (simp_all add: py_index_def)

lemma setup_frame_value:
  "setup_frame [[w00, w01], [w10, w11]] [a0, a1] [s0, s1] = Inr
     [(1, 0), (7, 0), (2, (w00 AND 1) + push_bit 1 (w01 AND 1)), (10, (w10 AND 1) + push_bit 1 (w11 AND 1)),
      (3, a0 AND 0xFF), (11, a1 AND 0xFF),
      (4, (s0 AND 0xFFFF) AND 0xFF), (20, drop_bit 8 (s0 AND 0xFFFF) AND 0xFF),
      (12, (s1 AND 0xFFFF) AND 0xFF), (28, drop_bit 8 (s1 AND 0xFFFF) AND 0xFF), (0, 0)]"
  by (simp add: setup_frame_def ldw_pairs_def lda_pairs_def seed_pairs_def packed_row_def range_two index_two pack_ui_table)

lemma weight_bits:
  fixes v u :: int
  defines "k \<equiv> (v AND 1) + push_bit 1 (u AND 1)"
  shows "bit (word_of_int k :: 8 word) 0 = odd v" "bit (word_of_int k :: 8 word) 1 = odd u"
proof -
  have "k = v mod 2 + 2 * (u mod 2)" by (simp add: k_def and_one_eq push_bit_eq_mult)
  then have "odd k = odd v" "odd (k div 2) = odd u" by presburger+
  then show "bit (word_of_int k :: 8 word) 0 = odd v" "bit (word_of_int k :: 8 word) 1 = odd u"
    unfolding bit_word_of_int_iff by (simp_all add: bit_iff_odd)
qed

lemma act_byte: "word_of_int (v AND 0xFF) = (word_of_int v :: 8 word)"
proof -
  have m: "(0xFF :: int) = mask 8" by (simp add: mask_eq_exp_minus_1)
  show ?thesis unfolding m by (rule bit_word_eqI) (auto simp: bit_simps)
qed

text \<open>The chip after the setup frame, whatever it held before.\<close>

lemma setup_cycles:
  assumes "chip_shape c"
  shows "\<exists>q00 q01 q10 q11. cycles True [(1, 0), (7, 0), (2, k0), (10, k1), (3, b0), (11, b1), (4, y00), (20, y01), (12, y10), (28, y11), (0, 0)] c =
    chip_of 0 0 False False [[bit k0 0, bit k0 1], [bit k1 0, bit k1 1]] [b0, b1]
      [put_byte (put_byte 0 0 y00) 1 y01, put_byte (put_byte 0 0 y10) 1 y11] [False, False] (rest_array q00 q01 q10 q11) False"
proof -
  obtain s n d wd v00 v01 v10 v11 b0 b1 x0 x1 f0 f1 p00 p01 p10 p11 e where
    c: "c = chip_of s n d wd [[v00, v01], [v10, v11]] [b0, b1] [x0, x1] [f0, f1] [[p00, p01], [p10, p11]] e"
    using assms by (rule chip_shapeE)
  show ?thesis unfolding c
    by (rule exI [of _ "weight_q p00"], rule exI [of _ "weight_q p01"], rule exI [of _ "weight_q p10"], rule exI [of _ "weight_q p11"])
      (simp add: clock_clear clock_idle cmd_table arg_table)
qed

lemma rdp_pairs_value: "rdp_pairs = [(6, 0), (22, 0), (14, 0), (30, 0)]"
  by (simp add: rdp_pairs_def range_two pack_ui_table)

lemma index_four: "py_index [x, y, u, v] 0 = Inr x" "py_index [x, y, u, v] 1 = Inr y" "py_index [x, y, u, v] 2 = Inr u" "py_index [x, y, u, v] 3 = Inr v"
  by (simp_all add: py_index_def)

lemma decode_psums_value:
  "decode_psums [get_byte x0 0, get_byte x0 1, get_byte x1 0, get_byte x1 1] = Inr [sint x0, sint x1]"
  by (simp add: decode_psums_def range_two index_four to_signed16_eq psum_bytes)

text \<open>The chip when a run has ended.\<close>

abbreviation done_chip :: "bool \<Rightarrow> bool \<Rightarrow> bool \<Rightarrow> bool \<Rightarrow> 8 word \<Rightarrow> 8 word \<Rightarrow> 16 word \<Rightarrow> 16 word \<Rightarrow> bool \<Rightarrow> chip" where
  "done_chip w00 w01 w10 w11 a0 a1 x0 x1 e \<equiv>
     chip_of 0 3 True True [[w00, w01], [w10, w11]] [a0, a1]
       [x0 + contrib_ext w00 a0 + contrib_ext w01 a1, x1 + contrib_ext w10 a0 + contrib_ext w11 a1] [True, True]
       (rest_array w00 w01 w10 w11) e"

lemma status_done: "status_byte (done_chip w00 w01 w10 w11 a0 a1 x0 x1 False) = 62"
  by (simp add: status_byte_def chip_of_def idle_def all_rows_done_def)

lemma status_idle:
  "status_byte (chip_of 0 n False False W A X [False, False] P False) = 48"
  by (simp add: status_byte_def chip_of_def idle_def all_rows_done_def)

lemma run_cycles:
  assumes "6 \<le> polls" "list_all (\<lambda>p. cmd_of (fst p) \<in> {0, 6, 7}) pins"
  shows "cycles True ((5, 0) # (7, 0) # replicate polls (0, 0) @ pins)
      (chip_of 0 n d wd [[w00, w01], [w10, w11]] [a0, a1] [x0, x1] [f0, f1] (rest_array q00 q01 q10 q11) e) =
    done_chip w00 w01 w10 w11 a0 a1 x0 x1 e"
proof -
  have p: "(5, 0) # (7, 0) # replicate polls (0, 0) @ pins =
      ((5, 0) # (7, 0) # replicate 6 (0, 0)) @ (replicate (polls - 6) (0, 0) @ pins :: (8 word \<times> 8 word) list)"
    using assms(1) by (simp flip: replicate_add)
  have "cycles True ((5, 0) # (7, 0) # replicate 6 (0, 0))
      (chip_of 0 n d wd [[w00, w01], [w10, w11]] [a0, a1] [x0, x1] [f0, f1] (rest_array q00 q01 q10 q11) e) =
    done_chip w00 w01 w10 w11 a0 a1 x0 x1 e"
    by (rule run_from_start) (simp_all add: cmd_table list_all_iff)
  moreover have "cycles True (replicate (polls - 6) (0, 0) @ pins) (done_chip w00 w01 w10 w11 a0 a1 x0 x1 e) = done_chip w00 w01 w10 w11 a0 a1 x0 x1 e"
    by (rule cycles_still) (use assms(2) in \<open>auto simp: cmd_table list_all_iff\<close>)
  ultimately show ?thesis unfolding p cycles_simps(3) by simp
qed

lemma last_answer: "pins \<noteq> [] \<Longrightarrow> last (answers r pins c) = uo_out (fst (last pins)) (cycles r pins c)"
  by (induction pins rule: rev_induct) (simp_all add: Let_def)

text \<open>The answer to the run frame: two bytes, the polls, of which the last shows DONE, and the accumulators.\<close>

lemma run_answers:
  assumes "6 \<le> polls"
  shows "\<exists>pre poll. answers True ((5, 0) # (7, 0) # replicate polls (0, 0) @ [(6, 0), (22, 0), (14, 0), (30, 0)])
      (chip_of 0 n d wd [[w00, w01], [w10, w11]] [a0, a1] [x0, x1] [f0, f1] (rest_array q00 q01 q10 q11) False) =
    pre @ (poll @ [62]) @ [get_byte (x0 + contrib_ext w00 a0 + contrib_ext w01 a1) 0, get_byte (x0 + contrib_ext w00 a0 + contrib_ext w01 a1) 1,
      get_byte (x1 + contrib_ext w10 a0 + contrib_ext w11 a1) 0, get_byte (x1 + contrib_ext w10 a0 + contrib_ext w11 a1) 1] \<and>
    length pre = 2 \<and> length (poll @ [62]) = polls"
proof -
  let ?c = "chip_of 0 n d wd [[w00, w01], [w10, w11]] [a0, a1] [x0, x1] [f0, f1] (rest_array q00 q01 q10 q11) False"
  let ?D = "done_chip w00 w01 w10 w11 a0 a1 x0 x1 False"
  let ?c2 = "cycles True [(5, 0), (7, 0)] ?c"
  let ?P = "answers True (replicate polls (0, 0)) ?c2" and ?r = "[(6, 0), (22, 0), (14, 0), (30, 0)] :: (8 word \<times> 8 word) list"
  have D: "cycles True (replicate polls (0, 0)) ?c2 = ?D"
    using run_cycles [OF assms, of "[]" n d wd w00 w01 w10 w11 a0 a1 x0 x1 f0 f1 q00 q01 q10 q11 False] by simp
  define P where "P = ?P"
  have "last P = 62"
    unfolding P_def using last_answer [of "replicate polls (0, 0)" True ?c2] assms D by (simp add: uo_out_def cmd_table status_done)
  moreover have l: "length P = polls" by (simp add: P_def)
  moreover have "P \<noteq> []" using l assms by auto
  ultimately have P: "butlast P @ [62] = P" using append_butlast_last_id [of P] by simp
  have R: "answers True ?r ?D = [get_byte (x0 + contrib_ext w00 a0 + contrib_ext w01 a1) 0, get_byte (x0 + contrib_ext w00 a0 + contrib_ext w01 a1) 1,
      get_byte (x1 + contrib_ext w10 a0 + contrib_ext w11 a1) 0, get_byte (x1 + contrib_ext w10 a0 + contrib_ext w11 a1) 1]"
    by (subst answers_still) (simp_all add: cmd_table uo_out_def result_byte_def arg_table chip_of_def)
  have "(5, 0) # (7, 0) # replicate polls (0, 0) @ ?r = [(5, 0), (7, 0)] @ replicate polls (0, 0) @ ?r" by simp
  then have "answers True ((5, 0) # (7, 0) # replicate polls (0, 0) @ ?r) ?c = answers True [(5, 0), (7, 0)] ?c @ P @ answers True ?r ?D"
    by (simp only: answers_append D P_def)
  then show ?thesis unfolding R
    by (intro exI [of _ "answers True [(5, 0), (7, 0)] ?c"] exI [of _ "butlast P"]) (simp only: P l length_answers, simp)
qed

section \<open>The host on any link\<close>

lemma psum_value:
  assumes "-128 \<le> a0" "a0 \<le> 127" "-128 \<le> a1" "a1 \<le> 127"
  shows "word_of_int s + contrib_ext w0 (word_of_int a0) + contrib_ext w1 (word_of_int a1) =
    word_of_int (s + (if w0 then a0 else - a0) + (if w1 then a1 else - a1))"
proof -
  have "sint (word_of_int a0 :: 8 word) = a0" "sint (word_of_int a1 :: 8 word) = a1"
    unfolding sint_sbintrunc' using assms by (simp_all add: signed_take_bit_int_eq_self)
  then show ?thesis by (simp add: contrib_ext_int)
qed

lemma expected_psums_value:
  "expected_psums [[w00, w01], [w10, w11]] [a0, a1] [s0, s1] =
    Inr [s0 + (if w00 \<noteq> 0 then a0 else - a0) + (if w01 \<noteq> 0 then a1 else - a1),
         s1 + (if w10 \<noteq> 0 then a0 else - a0) + (if w11 \<noteq> 0 then a1 else - a1)]"
  by (simp add: expected_psums_def range_two index_two)

text \<open>The bytes of the run frame's answer, sliced as the host slices them.\<close>

lemma slices_of_answer:
  assumes "length pre = 2" "length poll = nat polls" "0 \<le> polls"
  shows "py_slice (pre @ poll @ rdp) 2 (2 + polls) = poll"
    "py_slice (pre @ poll @ rdp) (2 + polls) (int (length (pre @ poll @ rdp))) = rdp"
  using assms by (simp_all add: py_slice_in nat_add_distrib)

lemma py_index_last: "xs \<noteq> [] \<Longrightarrow> py_index xs (-1) = Inr (last xs)"
  by (cases xs rule: rev_cases) (simp_all add: py_index_def nth_append zmod_minus1)

abbreviation ready_chip :: "int \<Rightarrow> int \<Rightarrow> int \<Rightarrow> int \<Rightarrow> int \<Rightarrow> int \<Rightarrow> int \<Rightarrow> int \<Rightarrow> bool \<Rightarrow> bool \<Rightarrow> bool \<Rightarrow> bool \<Rightarrow> chip" where
  "ready_chip w00 w01 w10 w11 a0 a1 s0 s1 q00 q01 q10 q11 \<equiv>
     chip_of 0 0 False False [[odd w00, odd w01], [odd w10, odd w11]] [word_of_int a0, word_of_int a1]
       [word_of_int s0, word_of_int s1] [False, False] (rest_array q00 q01 q10 q11) False"

lemma setup_ok:
  assumes "chip_shape c"
  shows "\<exists>frame q00 q01 q10 q11. setup_frame [[w00, w01], [w10, w11]] [a0, a1] [s0, s1] = Inr frame \<and> frame \<noteq> [] \<and> length frame < 2 ^ 32 \<and>
    last (answers True (pins_of frame) c) = 48 \<and> cycles True (pins_of frame) c = ready_chip w00 w01 w10 w11 a0 a1 s0 s1 q00 q01 q10 q11"
proof -
  let ?frame = "[(1, 0), (7, 0), (2, (w00 AND 1) + push_bit 1 (w01 AND 1)), (10, (w10 AND 1) + push_bit 1 (w11 AND 1)),
      (3, a0 AND 0xFF), (11, a1 AND 0xFF), (4, (s0 AND 0xFFFF) AND 0xFF), (20, drop_bit 8 (s0 AND 0xFFFF) AND 0xFF),
      (12, (s1 AND 0xFFFF) AND 0xFF), (28, drop_bit 8 (s1 AND 0xFFFF) AND 0xFF), (0, 0)]"
  obtain q00 q01 q10 q11 where c: "cycles True (pins_of ?frame) c = ready_chip w00 w01 w10 w11 a0 a1 s0 s1 q00 q01 q10 q11"
    using setup_cycles [OF assms, of "word_of_int ((w00 AND 1) + push_bit 1 (w01 AND 1))" "word_of_int ((w10 AND 1) + push_bit 1 (w11 AND 1))"
        "word_of_int (a0 AND 0xFF)" "word_of_int (a1 AND 0xFF)" "word_of_int ((s0 AND 0xFFFF) AND 0xFF)" "word_of_int (drop_bit 8 (s0 AND 0xFFFF) AND 0xFF)"
        "word_of_int ((s1 AND 0xFFFF) AND 0xFF)" "word_of_int (drop_bit 8 (s1 AND 0xFFFF) AND 0xFF)"]
    unfolding weight_bits seed_bytes unfolding act_byte pins_of_simps fst_conv snd_conv of_int_numeral of_int_0 of_int_1 by blast
  have l: "pins_of ?frame \<noteq> []" "fst (last (pins_of ?frame)) = 0" by simp_all
  have "last (answers True (pins_of ?frame) c) = 48"
    unfolding last_answer [OF l(1)] l(2) c by (simp add: uo_out_def cmd_table status_idle)
  moreover have "?frame \<noteq> []" "length ?frame < 2 ^ 32" by simp_all
  ultimately show ?thesis using c setup_frame_value [of w00 w01 w10 w11 a0 a1 s0 s1] by blast
qed

text \<open>The control flow of \<open>run_one\<close> when the status bytes are those of an idle and of a finished chip.\<close>

lemma run_one_steps:
  assumes "reset_chip dw dr s = (Inr (), t1)" "setup_frame w a seeds = Inr frame" "x_frame dw dr frame t1 = (Inr resp1, t2)"
    and "py_index resp1 (-1) = Inr 48"
    and "x_frame dw dr ((5, 0) # (7, 0) # replicate (nat polls) (0, 0) @ [(6, 0), (22, 0), (14, 0), (30, 0)]) t2 = (Inr (pr @ (poll @ [62]) @ rdp), t3)"
    and l: "length pr = 2" "length (poll @ [62]) = nat polls" "0 \<le> polls" and d: "decode_psums rdp = Inr ps"
  shows "run_one dw dr w a seeds polls s = (Inr (Psums ps), t3)"
proof -
  define P where "P = poll @ [62 :: byte]"
  have P: "py_index P (-1) = Inr 62" "list_ex (\<lambda>st. st AND 2 \<noteq> 0) P"
    using py_index_last [of P] by (simp_all add: P_def)
  have sl: "py_slice (pr @ P @ rdp) 2 (2 + polls) = P" "py_slice (pr @ P @ rdp) (2 + polls) (int (length (pr @ P @ rdp))) = rdp"
    using slices_of_answer [OF l(1), of P polls rdp] l by (simp_all add: P_def)
  note st = assms(1-5) [folded P_def]
  show ?thesis
    unfolding run_one_def py_then_run py_bind_run pack_ui_table rdp_pairs_value Let_def append_Cons append_Nil
    by (simp add: st sl P d py_bind_run del: append_assoc length_append)
qed

lemma device_fields:
  "dev\<lparr>chip_of_device := c, rst_pin := r\<rparr> = \<lparr>rst_pin = r, chip_of_device = c\<rparr>" for dev :: device
  by simp

context streamer_link
begin

lemma reset_chip_ok:
  assumes "holds s dev" "chip_shape (chip_of_device dev)"
  shows "\<exists>s'. reset_chip dev_write dev_read s = (Inr (), s') \<and> holds s' \<lparr>rst_pin = True, chip_of_device = zero_chip\<rparr>"
proof -
  obtain s1 where s1: "reset_assert dev_write s = (Inr (), s1)" "holds s1 (dev\<lparr>rst_pin := False\<rparr>)"
    using reset_pins_ok(1) [OF assms(1)] by blast
  obtain s2 where s2: "x_frame dev_write dev_read (replicate 8 (7, 0)) s1 =
      (Inr (answers False (replicate 8 (7, 0)) (chip_of_device dev)), s2)"
      "holds s2 (dev\<lparr>rst_pin := False, chip_of_device := cycles False (replicate 8 (7, 0)) (chip_of_device dev)\<rparr>)"
    using x_frame_ok [OF s1(2), of "replicate 8 (7, 0)"] by (simp del: cycles_simps) blast
  have z: "cycles False (replicate 8 (7, 0)) (chip_of_device dev) = zero_chip"
    using cycles_reset [OF assms(2), of 7 7 0] by simp
  obtain s3 where s3: "reset_release dev_write s2 = (Inr (), s3)" "holds s3 \<lparr>rst_pin = True, chip_of_device = zero_chip\<rparr>"
    using reset_pins_ok(2) [OF s2(2)] by (auto simp: z device_fields)
  have f: "cycles True (replicate 4 (7, 0)) zero_chip = zero_chip" by (rule cycles_still) (simp add: cmd_table list_all_iff)
  obtain s4 where s4: "x_frame dev_write dev_read (replicate 4 (7, 0)) s3 = (Inr (answers True (replicate 4 (7, 0)) zero_chip), s4)"
      "holds s4 \<lparr>rst_pin = True, chip_of_device = zero_chip\<rparr>"
    using x_frame_ok [OF s3(2), of "replicate 4 (7, 0)"] by (simp add: f del: cycles_simps) blast
  show ?thesis using s1(1) s2(1) s3(1) s4 by (simp add: reset_chip_def py_then_run pack_ui_table)
qed

lemma run_one_ok:
  assumes link: "holds s dev" "chip_shape (chip_of_device dev)" and polls: "6 \<le> polls" "polls < 2 ^ 31"
    and a: "-128 \<le> a0" "a0 \<le> 127" "-128 \<le> a1" "a1 \<le> 127"
  shows "\<exists>s' dev'. run_one dev_write dev_read [[w00, w01], [w10, w11]] [a0, a1] [s0, s1] polls s =
      (Inr (Psums [to_signed16 (s0 + (if odd w00 then a0 else - a0) + (if odd w01 then a1 else - a1)),
         to_signed16 (s1 + (if odd w10 then a0 else - a0) + (if odd w11 then a1 else - a1))]), s') \<and>
    holds s' dev' \<and> chip_shape (chip_of_device dev')"
proof -
  obtain t1 where t1: "reset_chip dev_write dev_read s = (Inr (), t1)" "holds t1 \<lparr>rst_pin = True, chip_of_device = zero_chip\<rparr>"
    using reset_chip_ok [OF link] by blast
  obtain frame q00 q01 q10 q11 where su: "setup_frame [[w00, w01], [w10, w11]] [a0, a1] [s0, s1] = Inr frame" "frame \<noteq> []" "length frame < 2 ^ 32"
      "last (answers True (pins_of frame) zero_chip) = 48"
      "cycles True (pins_of frame) zero_chip = ready_chip w00 w01 w10 w11 a0 a1 s0 s1 q00 q01 q10 q11"
    using setup_ok [OF zero_shape, of w00 w01 w10 w11 a0 a1 s0 s1] by blast
  let ?c = "ready_chip w00 w01 w10 w11 a0 a1 s0 s1 q00 q01 q10 q11"
  let ?D = "done_chip (odd w00) (odd w01) (odd w10) (odd w11) (word_of_int a0) (word_of_int a1) (word_of_int s0) (word_of_int s1) False"
  let ?run = "(5, 0) # (7, 0) # replicate (nat polls) (0, 0) @ [(6, 0), (22, 0), (14, 0), (30, 0)]"
  let ?x0 = "s0 + (if odd w00 then a0 else - a0) + (if odd w01 then a1 else - a1)"
  let ?x1 = "s1 + (if odd w10 then a0 else - a0) + (if odd w11 then a1 else - a1)"
  obtain t2 where t2: "x_frame dev_write dev_read frame t1 = (Inr (answers True (pins_of frame) zero_chip), t2)"
      "holds t2 \<lparr>rst_pin = True, chip_of_device = ?c\<rparr>"
    using x_frame_ok [OF t1(2) su(2,3)] by (auto simp: su(5))
  have pre: "py_index (answers True (pins_of frame) zero_chip) (-1) = Inr 48"
    using su(2,4) py_index_last [of "answers True (pins_of frame) zero_chip"] length_answers [of True "pins_of frame" zero_chip] by fastforce
  have p6: "6 \<le> nat polls" and len: "nat polls < 4294967290" using polls by simp_all
  have pins: "pins_of ?run = (5, 0) # (7, 0) # replicate (nat polls) (0, 0) @ [(6, 0), (22, 0), (14, 0), (30, 0)]" by simp
  obtain t3 where t3: "x_frame dev_write dev_read ?run t2 = (Inr (answers True (pins_of ?run) ?c), t3)"
      "holds t3 \<lparr>rst_pin = True, chip_of_device = cycles True (pins_of ?run) ?c\<rparr>"
    using x_frame_ok [OF t2(2), of ?run] len by (simp del: pins_of_simps cycles_simps) blast
  have D: "cycles True (pins_of ?run) ?c = ?D"
    unfolding pins by (rule run_cycles [OF p6]) (simp add: cmd_table)
  obtain pr poll where an: "answers True (pins_of ?run) ?c = pr @ (poll @ [62]) @
      [get_byte (word_of_int ?x0) 0, get_byte (word_of_int ?x0) 1, get_byte (word_of_int ?x1) 0, get_byte (word_of_int ?x1) 1]"
      "length pr = 2" "length (poll @ [62]) = nat polls"
    using run_answers [OF p6, of 0 False False "odd w00" "odd w01" "odd w10" "odd w11" "word_of_int a0" "word_of_int a1" "word_of_int s0" "word_of_int s1"
        False False q00 q01 q10 q11] unfolding pins psum_value [OF a] by blast
  have "run_one dev_write dev_read [[w00, w01], [w10, w11]] [a0, a1] [s0, s1] polls s = (Inr (Psums [sint (word_of_int ?x0 :: 16 word), sint (word_of_int ?x1 :: 16 word)]), t3)"
    by (rule run_one_steps [OF t1(1) su(1) t2(1) pre t3(1) [unfolded an(1)] an(2,3) _ decode_psums_value]) (use polls in simp)
  then show ?thesis using t3(2) unfolding D to_signed16_eq
    by (intro exI [of _ t3] exI [of _ "\<lparr>rst_pin = True, chip_of_device = ?D\<rparr>"]) (simp add: shape_chip_of)
qed

lemma sweep_ok:
  assumes "holds s \<lparr>rst_pin = True, chip_of_device = chip_of 0 n d wd [[w00, w01], [w10, w11]] [a0, a1] [x0, x1] [f0, f1] (rest_array q00 q01 q10 q11) e\<rparr>"
  shows "\<exists>s'. rdp_sweep dev_write dev_read s = (Inr [sint x0, sint x1], s') \<and>
    holds s' \<lparr>rst_pin = True, chip_of_device = chip_of 0 n d wd [[w00, w01], [w10, w11]] [a0, a1] [x0, x1] [f0, f1] (rest_array q00 q01 q10 q11) e\<rparr>"
proof -
  let ?c = "chip_of 0 n d wd [[w00, w01], [w10, w11]] [a0, a1] [x0, x1] [f0, f1] (rest_array q00 q01 q10 q11) e"
  let ?f = "[(6, 0), (22, 0), (14, 0), (30, 0), (7, 0)]"
  have p: "pins_of ?f = [(6, 0), (22, 0), (14, 0), (30, 0), (7, 0)]" by simp
  have c: "cycles True (pins_of ?f) ?c = ?c" unfolding p by (rule cycles_still) (simp add: cmd_table)
  have a: "answers True (pins_of ?f) ?c = [get_byte x0 0, get_byte x0 1, get_byte x1 0, get_byte x1 1, status_byte ?c]"
    unfolding p by (subst answers_still) (simp_all add: cmd_table uo_out_def result_byte_def arg_table, simp_all add: chip_of_def)
  obtain s' where s': "x_frame dev_write dev_read ?f s = (Inr (answers True (pins_of ?f) ?c), s')" "holds s' \<lparr>rst_pin = True, chip_of_device = ?c\<rparr>"
    using x_frame_ok [OF assms, of ?f] c by (auto simp del: pins_of_simps cycles_simps)
  have "py_slice [get_byte x0 0, get_byte x0 1, get_byte x1 0, get_byte x1 1, status_byte ?c] 0 4 = [get_byte x0 0, get_byte x0 1, get_byte x1 0, get_byte x1 1]"
    by (simp add: py_slice_in)
  then have "rdp_sweep dev_write dev_read s = (Inr [sint x0, sint x1], s')"
    using s'(1) decode_psums_value [of x0 x1] unfolding a rdp_sweep_def rdp_pairs_value pack_ui_table append_Cons append_Nil py_bind_run
    by simp
  with s'(2) show ?thesis by blast
qed

end

section \<open>The subcommands\<close>

lemma signed16_id: "-32768 \<le> v \<Longrightarrow> v < 32768 \<Longrightarrow> to_signed16 v = v"
  unfolding to_signed16_eq sint_sbintrunc' by (simp add: signed_take_bit_int_eq_self)

context streamer_link
begin

lemma smoke_case:
  assumes "holds s dev" "chip_shape (chip_of_device dev)"
    and w: "w00 \<in> {0, 1}" "w01 \<in> {0, 1}" "w10 \<in> {0, 1}" "w11 \<in> {0, 1}" and a: "-128 \<le> a0" "a0 \<le> 127" "-128 \<le> a1" "a1 \<le> 127"
    and s: "-32512 \<le> s0" "s0 < 32512" "-32512 \<le> s1" "s1 < 32512"
  shows "\<exists>s' dev'. smoke_loop dev_write dev_read (([[w00, w01], [w10, w11]], [a0, a1], [s0, s1]) # cases) ok s =
      smoke_loop dev_write dev_read cases (ok + 1) s' \<and> holds s' dev' \<and> chip_shape (chip_of_device dev')"
proof -
  let ?p = "\<lambda>s0 w00 w01. s0 + (if odd w00 then a0 else - a0) + (if odd w01 then a1 else - a1)"
  have "to_signed16 (?p s0 w00 w01) = ?p s0 w00 w01" "to_signed16 (?p s1 w10 w11) = ?p s1 w10 w11"
    using a s by (auto intro!: signed16_id)
  moreover have "expected_psums [[w00, w01], [w10, w11]] [a0, a1] [s0, s1] = Inr [?p s0 w00 w01, ?p s1 w10 w11]"
    unfolding expected_psums_value using w by auto
  ultimately show ?thesis
    using run_one_ok [OF assms(1,2) _ _ a, of 16 w00 w01 w10 w11 s0 s1] by (auto simp: py_bind_run)
qed

lemma cmd_smoke_ok:
  assumes "holds s dev" "chip_shape (chip_of_device dev)"
  shows "\<exists>s' dev'. cmd_smoke dev_write dev_read s = (Inr 0, s') \<and> holds s' dev' \<and> chip_shape (chip_of_device dev')"
proof -
  let ?l = "smoke_loop dev_write dev_read"
  obtain s1 d1 where 1: "?l SMOKE_CASES 0 s = ?l (tl SMOKE_CASES) 1 s1" "holds s1 d1" "chip_shape (chip_of_device d1)"
    using smoke_case [OF assms, of 1 1 1 1 10 20 0 0 "tl SMOKE_CASES" 0] by (auto simp: SMOKE_CASES_def)
  obtain s2 d2 where 2: "?l (tl SMOKE_CASES) 1 s1 = ?l (tl (tl SMOKE_CASES)) 2 s2" "holds s2 d2" "chip_shape (chip_of_device d2)"
    using smoke_case [OF 1(2,3), of 1 0 1 1 3 5 0 0 "tl (tl SMOKE_CASES)" 1] by (auto simp: SMOKE_CASES_def)
  obtain s3 d3 where 3: "?l (tl (tl SMOKE_CASES)) 2 s2 = ?l [] 3 s3" "holds s3 d3" "chip_shape (chip_of_device d3)"
    using smoke_case [OF 2(2,3), of 1 0 0 1 4 "-3" 11 "-13" "[]" 2] by (auto simp: SMOKE_CASES_def)
  show ?thesis using 1(1) 2(1) 3 by (auto simp: cmd_smoke_def py_bind_run SMOKE_CASES_def)
qed

end

section \<open>The tile macro\<close>

lemma fw_pack_ui_table:
  "fw_pack_ui 1 0 = 1" "fw_pack_ui 7 0 = 7" "fw_pack_ui 2 0 = 2" "fw_pack_ui 2 1 = 10" "fw_pack_ui 3 0 = 3" "fw_pack_ui 3 1 = 11"
  "fw_pack_ui 5 0 = 5" "fw_pack_ui 4 0 = 4" "fw_pack_ui 4 1 = 12" "fw_pack_ui 4 2 = 20" "fw_pack_ui 4 3 = 28"
  "fw_pack_ui 6 0 = 6" "fw_pack_ui 6 1 = 14" "fw_pack_ui 6 2 = 22" "fw_pack_ui 6 3 = 30"
  by (simp_all add: fw_pack_ui_def)

lemma row_byte_args_value: "row_byte_args = [0, 2, 1, 3]"
  by (simp add: row_byte_args_def)

lemma seed_zero: "put_byte 0 b 0 = 0"
  by (simp add: put_byte_def)

text \<open>A chip that is not running: idle, with nothing in the pipelines.\<close>

definition resting :: "16 word \<Rightarrow> 16 word \<Rightarrow> bool \<Rightarrow> chip \<Rightarrow> bool" where
  "resting x0 x1 e c \<longleftrightarrow> (\<exists>n d wd w00 w01 w10 w11 a0 a1 f0 f1 q00 q01 q10 q11.
     c = chip_of 0 n d wd [[w00, w01], [w10, w11]] [a0, a1] [x0, x1] [f0, f1] (rest_array q00 q01 q10 q11) e)"

lemma resting_shape: "resting x0 x1 e c \<Longrightarrow> chip_shape c"
  by (auto simp: resting_def shape_chip_of)

lemma load_and_run:
  assumes "resting x0 x1 e c"
  shows "cycles True ([(2, pw0), (10, pw1), (3, a0), (11, a1)] @ (5, 0) # (7, 0) # replicate 6 (7, 0)) c =
    done_chip (bit pw0 0) (bit pw0 1) (bit pw1 0) (bit pw1 1) a0 a1 x0 x1 e"
proof -
  obtain n d wd w00 w01 w10 w11 b0 b1 f0 f1 q00 q01 q10 q11 where
    c: "c = chip_of 0 n d wd [[w00, w01], [w10, w11]] [b0, b1] [x0, x1] [f0, f1] (rest_array q00 q01 q10 q11) e"
    using assms unfolding resting_def by blast
  have l: "cycles True [(2, pw0), (10, pw1), (3, a0), (11, a1)] c =
      chip_of 0 n d wd [[bit pw0 0, bit pw0 1], [bit pw1 0, bit pw1 1]] [a0, a1] [x0, x1] [f0, f1] (rest_array q00 q01 q10 q11) e"
    unfolding c by (simp add: clock_idle cmd_table arg_table)
  show ?thesis unfolding cycles_simps(3) l
    by (rule run_from_start) (simp_all add: cmd_table list_all_iff)
qed

lemma tile_cycles_next:
  assumes "resting x0 x1 e c"
  shows "cycles True (tile_pins False pw0 pw1 a0 a1) c = done_chip (bit pw0 0) (bit pw0 1) (bit pw1 0) (bit pw1 1) a0 a1 x0 x1 e"
  using load_and_run [OF assms, of pw0 pw1 a0 a1] by (simp add: tile_pins_def fw_pack_ui_table del: cycles_simps)

lemma tile_cycles_first:
  assumes "chip_shape c"
  shows "cycles True (tile_pins True pw0 pw1 a0 a1) c = done_chip (bit pw0 0) (bit pw0 1) (bit pw1 0) (bit pw1 1) a0 a1 0 0 False"
proof -
  obtain s n d wd v00 v01 v10 v11 b0 b1 x0 x1 f0 f1 p00 p01 p10 p11 e where
    c: "c = chip_of s n d wd [[v00, v01], [v10, v11]] [b0, b1] [x0, x1] [f0, f1] [[p00, p01], [p10, p11]] e"
    using assms by (rule chip_shapeE)
  have p: "tile_pins True pw0 pw1 a0 a1 =
      [(1, 0), (7, 0), (2, pw0), (10, pw1), (3, a0), (11, a1), (4, 0), (20, 0), (12, 0), (28, 0)] @ (5, 0) # (7, 0) # replicate 6 (7, 0)"
    by (simp add: tile_pins_def fw_pack_ui_table row_byte_args_value)
  have l: "cycles True [(1, 0), (7, 0), (2, pw0), (10, pw1), (3, a0), (11, a1), (4, 0), (20, 0), (12, 0), (28, 0)] c =
      chip_of 0 0 False False [[bit pw0 0, bit pw0 1], [bit pw1 0, bit pw1 1]] [a0, a1] [0, 0] [False, False]
        (rest_array (weight_q p00) (weight_q p01) (weight_q p10) (weight_q p11)) False"
    unfolding c by (simp add: clock_clear clock_idle cmd_table arg_table seed_zero)
  show ?thesis unfolding p cycles_simps(3) l
    by (rule run_from_start) (simp_all add: cmd_table list_all_iff)
qed

lemma done_resting: "resting (x0 + contrib_ext w00 a0 + contrib_ext w01 a1) (x1 + contrib_ext w10 a0 + contrib_ext w11 a1) e (done_chip w00 w01 w10 w11 a0 a1 x0 x1 e)"
  unfolding resting_def by blast

lemma readback:
  assumes "resting x0 x1 e c"
  shows "drive readback_pins \<lparr>rst_pin = True, chip_of_device = c\<rparr> =
    ([get_byte x0 0, get_byte x0 1, get_byte x1 0, get_byte x1 1], \<lparr>rst_pin = True, chip_of_device = c\<rparr>)"
proof -
  obtain n d wd w00 w01 w10 w11 b0 b1 f0 f1 q00 q01 q10 q11 where
    c: "c = chip_of 0 n d wd [[w00, w01], [w10, w11]] [b0, b1] [x0, x1] [f0, f1] (rest_array q00 q01 q10 q11) e"
    using assms unfolding resting_def by blast
  have p: "readback_pins = [(6, 0), (22, 0), (14, 0), (30, 0)]" by (simp add: readback_pins_def row_byte_args_value fw_pack_ui_table)
  have l: "list_all (\<lambda>p. cmd_of (fst p) \<in> {0, 6, 7}) readback_pins" by (simp add: p cmd_table)
  have "cycles True readback_pins c = c" unfolding c by (rule cycles_still [OF l])
  moreover have "answers True readback_pins c = [get_byte x0 0, get_byte x0 1, get_byte x1 0, get_byte x1 1]"
    unfolding c by (simp only: answers_still [OF l]) (simp add: p uo_out_def cmd_table result_byte_def arg_table chip_of_def)
  ultimately show ?thesis by (simp add: drive_eq)
qed

text \<open>A descriptor: two activations and a byte with the weights in bits 0 to 3, \<open>starts_run\<close> in bit 4 and
  \<open>ends_run\<close> in bit 5.\<close>

type_synonym descriptor = "8 word \<times> 8 word \<times> 8 word"

definition tile_sum :: "nat \<Rightarrow> descriptor \<Rightarrow> 16 word" where
  "tile_sum r t = (case t of (a0, a1, packed) \<Rightarrow> contrib_ext (bit packed (2 * r)) a0 + contrib_ext (bit packed (2 * r + 1)) a1)"

abbreviation descriptor_bytes :: "descriptor list \<Rightarrow> byte list" where
  "descriptor_bytes ts \<equiv> concat (map (\<lambda>(a0, a1, packed). [a0, a1, packed]) ts)"

lemma flag_bits:
  fixes p :: "8 word"
  shows "bit (p AND 3) 0 = bit p 0" "bit (p AND 3) 1 = bit p 1" "bit (drop_bit 2 p AND 3) 0 = bit p 2" "bit (drop_bit 2 p AND 3) 1 = bit p 3"
    "(drop_bit 4 p AND 3) AND 1 \<noteq> 0 \<longleftrightarrow> bit p 4" "(drop_bit 4 p AND 3) AND 2 \<noteq> 0 \<longleftrightarrow> bit p 5"
proof -
  have m: "(3 :: 8 word) = mask 2" by (simp add: mask_eq_exp_minus_1)
  show "bit (p AND 3) 0 = bit p 0" "bit (p AND 3) 1 = bit p 1" "bit (drop_bit 2 p AND 3) 0 = bit p 2" "bit (drop_bit 2 p AND 3) 1 = bit p 3"
    unfolding m bit_and_iff bit_mask_iff bit_drop_bit_eq by (simp_all add: comp_def numeral_2_eq_2 numeral_3_eq_3)
  have "(drop_bit 4 p AND 3) AND 2 ^ 0 = 0 \<longleftrightarrow> \<not> bit (drop_bit 4 p AND 3) 0" "(drop_bit 4 p AND 3) AND 2 ^ 1 = 0 \<longleftrightarrow> \<not> bit (drop_bit 4 p AND 3) 1"
    by (rule and_exp_eq_0_iff_not_bit)+
  then show "(drop_bit 4 p AND 3) AND 1 \<noteq> 0 \<longleftrightarrow> bit p 4" "(drop_bit 4 p AND 3) AND 2 \<noteq> 0 \<longleftrightarrow> bit p 5"
    unfolding m bit_and_iff bit_mask_iff bit_drop_bit_eq by (simp_all add: comp_def)
qed

lemma tile_step:
  assumes "bit p 4 \<and> chip_shape c \<and> x0 = 0 \<and> x1 = 0 \<and> \<not> e \<or> \<not> bit p 4 \<and> resting x0 x1 e c"
  shows "\<exists>c'. resting (x0 + tile_sum 0 (a0, a1, p)) (x1 + tile_sum 1 (a0, a1, p)) e c' \<and>
    run_tile_macro (drop_bit 4 p AND 3) (p AND 3) (drop_bit 2 p AND 3) a0 a1 \<lparr>rst_pin = True, chip_of_device = c\<rparr> =
      (if bit p 5 then [get_byte (x0 + tile_sum 0 (a0, a1, p)) 0, get_byte (x0 + tile_sum 0 (a0, a1, p)) 1,
         get_byte (x1 + tile_sum 1 (a0, a1, p)) 0, get_byte (x1 + tile_sum 1 (a0, a1, p)) 1] else [],
       \<lparr>rst_pin = True, chip_of_device = c'\<rparr>)"
proof -
  let ?D = "done_chip (bit p 0) (bit p 1) (bit p 2) (bit p 3) a0 a1 x0 x1 e"
  have c: "cycles True (tile_pins (bit p 4) (p AND 3) (drop_bit 2 p AND 3) a0 a1) c = ?D"
    using assms tile_cycles_first [of c "p AND 3" "drop_bit 2 p AND 3" a0 a1] tile_cycles_next [of x0 x1 e c "p AND 3" "drop_bit 2 p AND 3" a0 a1]
    unfolding flag_bits(3,4) unfolding flag_bits(1,2) by auto
  have t: "x0 + tile_sum 0 (a0, a1, p) = x0 + contrib_ext (bit p 0) a0 + contrib_ext (bit p 1) a1"
      "x1 + tile_sum 1 (a0, a1, p) = x1 + contrib_ext (bit p 2) a0 + contrib_ext (bit p 3) a1"
    by (simp_all add: tile_sum_def add.assoc)
  have r: "resting (x0 + tile_sum 0 (a0, a1, p)) (x1 + tile_sum 1 (a0, a1, p)) e ?D" unfolding t by (rule done_resting)
  show ?thesis
    by (rule exI [of _ ?D]) (use r readback [OF r] in \<open>simp add: run_tile_macro_def flag_bits drive_eq c Let_def\<close>)
qed

definition run_reply :: "16 word \<Rightarrow> 16 word \<Rightarrow> byte list" where
  "run_reply x0 x1 = [get_byte x0 0, get_byte x0 1, get_byte x1 0, get_byte x1 1]"

lemma m_tiles_rest:
  assumes "resting x0 x1 e c" "list_all (\<lambda>(a0, a1, p). \<not> bit p 4) ts" "list_all (\<lambda>(a0, a1, p). \<not> bit p 5) (butlast ts)"
    and "ts = [] \<or> bit (snd (snd (last ts))) 5"
  shows "\<exists>c'. resting (x0 + sum_list (map (tile_sum 0) ts)) (x1 + sum_list (map (tile_sum 1) ts)) e c' \<and>
    m_tiles (descriptor_bytes ts) \<lparr>rst_pin = True, chip_of_device = c\<rparr> =
      (if ts = [] then [] else run_reply (x0 + sum_list (map (tile_sum 0) ts)) (x1 + sum_list (map (tile_sum 1) ts)),
       \<lparr>rst_pin = True, chip_of_device = c'\<rparr>)"
  using assms
proof (induction ts arbitrary: x0 x1 c)
  case (Cons t ts)
  obtain a0 a1 p where t: "t = (a0, a1, p)" by (cases t)
  have p4: "\<not> bit p 4" using Cons.prems(2) by (simp add: t)
  obtain c1 where c1: "resting (x0 + tile_sum 0 t) (x1 + tile_sum 1 t) e c1"
      "run_tile_macro (drop_bit 4 p AND 3) (p AND 3) (drop_bit 2 p AND 3) a0 a1 \<lparr>rst_pin = True, chip_of_device = c\<rparr> =
       (if bit p 5 then run_reply (x0 + tile_sum 0 t) (x1 + tile_sum 1 t) else [], \<lparr>rst_pin = True, chip_of_device = c1\<rparr>)"
    using tile_step [of p c x0 x1 e a0 a1] Cons.prems(1) p4 unfolding t run_reply_def by blast
  have p5: "bit p 5 \<longleftrightarrow> ts = []" using Cons.prems(3,4) by (cases ts) (auto simp: t)
  obtain c2 where c2: "resting (x0 + tile_sum 0 t + sum_list (map (tile_sum 0) ts)) (x1 + tile_sum 1 t + sum_list (map (tile_sum 1) ts)) e c2"
      "m_tiles (descriptor_bytes ts) \<lparr>rst_pin = True, chip_of_device = c1\<rparr> =
      (if ts = [] then [] else run_reply (x0 + tile_sum 0 t + sum_list (map (tile_sum 0) ts)) (x1 + tile_sum 1 t + sum_list (map (tile_sum 1) ts)),
       \<lparr>rst_pin = True, chip_of_device = c2\<rparr>)"
    using Cons.IH [OF c1(1)] Cons.prems(2-4) by (cases ts) auto
  show ?case by (rule exI [of _ c2]) (use c1(2) c2 p5 in \<open>auto simp: t Let_def add.assoc\<close>)
qed auto

lemma m_tiles_run:
  assumes "chip_shape c" "ts \<noteq> []" "bit (snd (snd (hd ts))) 4" "list_all (\<lambda>(a0, a1, p). \<not> bit p 4) (tl ts)"
    "list_all (\<lambda>(a0, a1, p). \<not> bit p 5) (butlast ts)" "bit (snd (snd (last ts))) 5"
  shows "\<exists>c'. resting (sum_list (map (tile_sum 0) ts)) (sum_list (map (tile_sum 1) ts)) False c' \<and>
    m_tiles (descriptor_bytes ts) \<lparr>rst_pin = True, chip_of_device = c\<rparr> =
      (run_reply (sum_list (map (tile_sum 0) ts)) (sum_list (map (tile_sum 1) ts)), \<lparr>rst_pin = True, chip_of_device = c'\<rparr>)"
proof -
  obtain a0 a1 p us where t: "ts = (a0, a1, p) # us" using assms(2) by (metis list.exhaust prod_cases3)
  have p4: "bit p 4" using assms(3) by (simp add: t)
  obtain c1 where c1: "resting (tile_sum 0 (a0, a1, p)) (tile_sum 1 (a0, a1, p)) False c1"
      "run_tile_macro (drop_bit 4 p AND 3) (p AND 3) (drop_bit 2 p AND 3) a0 a1 \<lparr>rst_pin = True, chip_of_device = c\<rparr> =
       (if bit p 5 then run_reply (tile_sum 0 (a0, a1, p)) (tile_sum 1 (a0, a1, p)) else [], \<lparr>rst_pin = True, chip_of_device = c1\<rparr>)"
    using tile_step [of p c 0 0 False a0 a1] assms(1) p4 unfolding run_reply_def by auto
  have p5: "bit p 5 \<longleftrightarrow> us = []" using assms(5,6) by (cases us) (auto simp: t)
  obtain c2 where c2: "resting (tile_sum 0 (a0, a1, p) + sum_list (map (tile_sum 0) us)) (tile_sum 1 (a0, a1, p) + sum_list (map (tile_sum 1) us)) False c2"
      "m_tiles (descriptor_bytes us) \<lparr>rst_pin = True, chip_of_device = c1\<rparr> =
      (if us = [] then [] else run_reply (tile_sum 0 (a0, a1, p) + sum_list (map (tile_sum 0) us)) (tile_sum 1 (a0, a1, p) + sum_list (map (tile_sum 1) us)),
       \<lparr>rst_pin = True, chip_of_device = c2\<rparr>)"
    using m_tiles_rest [OF c1(1), of us] assms(4-6) unfolding t by (cases us) auto
  show ?thesis by (rule exI [of _ c2]) (use c1(2) c2 p5 in \<open>auto simp: t Let_def\<close>)
qed

section \<open>The debug subcommand\<close>

abbreviation debug_chip :: "16 word \<Rightarrow> 16 word \<Rightarrow> chip" where
  "debug_chip x0 x1 \<equiv> chip_of 0 0 False False [[True, False], [False, True]] [4, 253] [x0, x1] [False, False] (rest_array False False False False) False"

lemma debug_frames:
  "cycles True (pins_of [(1, 0), (7, 0), (2, 1), (10, 2), (3, 4), (11, 253), (7, 0)]) zero_chip = debug_chip 0 0"
  "cycles True (pins_of [(4, 11), (20, 0), (12, 243), (28, 255), (7, 0)]) (debug_chip 0 0) = debug_chip 11 65523"
  "cycles True (pins_of [(0, 0), (7, 0)]) (debug_chip 11 65523) = debug_chip 11 65523"
  "cycles True (pins_of ((5, 0) # (7, 0) # replicate 16 (0, 0) @ [(7, 0)])) (debug_chip 11 65523) =
     done_chip True False False True 4 253 11 65523 False"
proof -
  show "cycles True (pins_of [(1, 0), (7, 0), (2, 1), (10, 2), (3, 4), (11, 253), (7, 0)]) zero_chip = debug_chip 0 0"
    by (simp add: clock_clear clock_idle cmd_table arg_table bit_iff_odd)
  show "cycles True (pins_of [(4, 11), (20, 0), (12, 243), (28, 255), (7, 0)]) (debug_chip 0 0) = debug_chip 11 65523"
    by (simp add: clock_idle cmd_table arg_table put_byte_def)
  show "cycles True (pins_of [(0, 0), (7, 0)]) (debug_chip 11 65523) = debug_chip 11 65523"
    by (rule cycles_still) (simp add: cmd_table)
  show "cycles True (pins_of ((5, 0) # (7, 0) # replicate 16 (0, 0) @ [(7, 0)])) (debug_chip 11 65523) =
     done_chip True False False True 4 253 11 65523 False"
    using run_cycles [of 16 "[(7, 0)]" 0 False False True False False True 4 253 11 65523 False False False False False False False]
    by (simp add: cmd_table del: cycles_simps)
qed

lemma debug_pairs:
  "ldw_pairs [[1, 0], [0, 1]] = Inr [(2, 1), (10, 2)]" "lda_pairs [4, -3] = Inr [(3, 4), (11, 253)]"
  "seed_pairs [11, -13] = Inr [(4, 11), (20, 0), (12, 243), (28, 255)]"
  by (simp_all add: ldw_pairs_def lda_pairs_def seed_pairs_def packed_row_def range_two index_two pack_ui_table)

context streamer_link
begin

lemma cmd_debug_ok:
  assumes "holds s dev" "chip_shape (chip_of_device dev)"
  shows "fst (cmd_debug dev_write dev_read s) = Inr [[0, 0], [11, -13], [18, -20]]"
proof -
  let ?d = "\<lambda>c. \<lparr>rst_pin = True, chip_of_device = c\<rparr>" and ?D = "done_chip True False False True 4 253 11 65523 False"
  have frame: "\<exists>s2 r. x_frame dev_write dev_read f s1 = (Inr r, s2) \<and> holds s2 (?d c')"
    if "holds s1 (?d c)" "cycles True (pins_of f) c = c'" "f \<noteq> []" "length f < 2 ^ 32" for s1 c f c'
    using x_frame_ok [OF that(1,3,4)] that(2) by auto
  obtain t1 where t1: "reset_chip dev_write dev_read s = (Inr (), t1)" "holds t1 (?d zero_chip)" using reset_chip_ok [OF assms] by blast
  obtain t2 r2 where t2: "x_frame dev_write dev_read [(1, 0), (7, 0), (2, 1), (10, 2), (3, 4), (11, 253), (7, 0)] t1 = (Inr r2, t2)" "holds t2 (?d (debug_chip 0 0))"
    using frame [OF t1(2) debug_frames(1)] by auto
  obtain t3 where t3: "rdp_sweep dev_write dev_read t2 = (Inr [sint (0 :: 16 word), sint (0 :: 16 word)], t3)" "holds t3 (?d (debug_chip 0 0))"
    using sweep_ok [OF t2(2)] by blast
  obtain t4 r4 where t4: "x_frame dev_write dev_read [(4, 11), (20, 0), (12, 243), (28, 255), (7, 0)] t3 = (Inr r4, t4)" "holds t4 (?d (debug_chip 11 65523))"
    using frame [OF t3(2) debug_frames(2)] by auto
  obtain t5 where t5: "rdp_sweep dev_write dev_read t4 = (Inr [sint (11 :: 16 word), sint (65523 :: 16 word)], t5)" "holds t5 (?d (debug_chip 11 65523))"
    using sweep_ok [OF t4(2)] by blast
  obtain t6 r6 where t6: "x_frame dev_write dev_read [(0, 0), (7, 0)] t5 = (Inr r6, t6)" "holds t6 (?d (debug_chip 11 65523))"
    using frame [OF t5(2) debug_frames(3)] by auto
  obtain t7 r7 where t7: "x_frame dev_write dev_read ((5, 0) # (7, 0) # replicate 16 (0, 0) @ [(7, 0)]) t6 = (Inr r7, t7)" "holds t7 (?d ?D)"
    using frame [OF t6(2) debug_frames(4)] by auto
  obtain t8 where t8: "rdp_sweep dev_write dev_read t7 = (Inr [18, -20], t8)"
    using sweep_ok [OF t7(2)] by (auto simp: contrib_ext_int)
  show ?thesis using t1(1) t2(1) t3(1) t4(1) t5(1) t6(1) t7(1) t8
    by (simp add: cmd_debug_def py_then_run py_bind_run debug_pairs pack_ui_table Let_def)
qed

end

end
