(* ===== verification/StreamerProps.thy ===== *)
theory StreamerProps
  imports StreamerSpec
begin

text \<open>
  The properties of the chip and of the host that drives it: the run of a tile ends and computes the signed
  sums from every reachable state, and the host's \<open>run_one\<close> and \<open>smoke\<close> and the firmware's tile macro
  return them.
\<close>

unbundle bit_operations_syntax

section \<open>Sums as integers\<close>

lemma tile_sum_int:
  "tile_sum 0 (a0, a1, p) = word_of_int ((if bit p 0 then sint a0 else - sint a0) + (if bit p 1 then sint a1 else - sint a1))"
  "tile_sum 1 (a0, a1, p) = word_of_int ((if bit p 2 then sint a0 else - sint a0) + (if bit p 3 then sint a1 else - sint a1))"
  by (simp_all add: tile_sum_def contrib_ext_int)

lemma sum_tiles_int:
  assumes "\<And>t. f t = word_of_int (g t)"
  shows "sum_list (map f ts) = word_of_int (sum_list (map g ts))"
  using assms by (induction ts) simp_all

lemma length_descriptor_bytes: "length (descriptor_bytes ts) = 3 * length ts"
  by (induction ts) auto

lemma take_descriptor_bytes: "take (n * 3) (descriptor_bytes ts) = descriptor_bytes (take n ts)"
proof (induction ts arbitrary: n)
  case (Cons t ts)
  then show ?case by (cases n; cases t) (simp_all add: numeral_3_eq_3)
qed simp

lemma drop_descriptor_bytes: "drop (n * 3) (descriptor_bytes ts) = descriptor_bytes (drop n ts)"
proof (induction ts arbitrary: n)
  case (Cons t ts)
  then show ?case by (cases n; cases t) (simp_all add: numeral_3_eq_3)
qed simp

lemma m_tiles_append:
  "m_tiles (descriptor_bytes (ts @ us)) dev =
     (case m_tiles (descriptor_bytes ts) dev of (out, dev') \<Rightarrow> case m_tiles (descriptor_bytes us) dev' of (outs, dev'') \<Rightarrow> (out @ outs, dev''))"
  by (induction ts arbitrary: dev) (auto simp: Let_def split: prod.splits)

text \<open>The batches of the firmware make no difference to the answer.\<close>

lemma m_loop_tiles: "m_loop (length ts) (descriptor_bytes ts) dev = m_tiles (descriptor_bytes ts) dev"
proof (induction "length ts" arbitrary: ts dev rule: less_induct)
  case less
  let ?b = "if length ts < 32 then length ts else 32"
  show ?case
  proof (cases "ts = []")
    case True
    then show ?thesis by (simp add: m_loop.simps)
  next
    case False
    have l: "length ts - ?b = length (drop ?b ts)" "length (drop ?b ts) < length ts" using False by auto
    have "m_loop (length ts) (descriptor_bytes ts) dev =
        (case m_tiles (descriptor_bytes (take ?b ts)) dev of (out_buf, dev') \<Rightarrow>
         case m_tiles (descriptor_bytes (drop ?b ts)) dev' of (outs, dev'') \<Rightarrow> (out_buf @ outs, dev''))"
      using False by (subst m_loop.simps) (simp only: take_descriptor_bytes drop_descriptor_bytes l less [OF l(2)] Let_def, simp)
    also have "\<dots> = m_tiles (descriptor_bytes (take ?b ts @ drop ?b ts)) dev" by (rule m_tiles_append [symmetric])
    finally show ?thesis by (simp only: append_take_drop_id)
  qed
qed

lemma fw_m_request:
  assumes "length ts < 2 ^ 32"
  shows "fw_request other (77 # le_bytes 4 (int (length ts)) @ descriptor_bytes ts) dev = Some (m_tiles (descriptor_bytes ts) dev)"
proof -
  have "int (length ts) < 256 ^ 4" using assms by simp
  then show ?thesis by (simp add: fw_request_def Let_def le_value_le_bytes length_descriptor_bytes m_loop_tiles)
qed

section \<open>Properties\<close>

text \<open>C10: every run of the chip ends.  In each state that the chip reaches after power-up, whatever commands and
  resets it went through, there is a number of at most seven cycles after which it is idle, for all commands on the
  pins in those cycles other than CLEAR.\<close>

theorem chip_run_ends:
  assumes "reachable c"
  shows "\<exists>k \<le> 7. \<forall>pins. length pins = k \<and> list_all (\<lambda>p. cmd_of (fst p) \<noteq> 1) pins \<longrightarrow> idle (ctrl (cycles True pins c))"
proof -
  have inv: "chip_inv c" using assms by (rule reachable_inv)
  then obtain k where k: "stage c = Some k" by (auto simp: chip_inv_def)
  then show ?thesis using stage_bound [OF k] stage_counts_down [OF inv] by auto
qed

theorem chip_run_ends_witness:
  "\<exists>k \<le> 7. \<forall>pins. length pins = k \<and> list_all (\<lambda>p. cmd_of (fst p) \<noteq> 1) pins \<longrightarrow>
     idle (ctrl (cycles True pins (clock True 5 0 (clock False 0 0 zero_chip))))"
  by (intro chip_run_ends reachable.intros zero_shape)

text \<open>C9: from every reachable idle state, a START and seven cycles with any commands but CLEAR leave the chip idle with DONE and
  ALL_VALID, and in each accumulator its old value plus the sum over the columns of the activation, or its negation where the weight
  bit is 0, modulo \<open>2 ^ 16\<close>; the weights, the activations and the error flag are unchanged.\<close>

theorem chip_run_computes:
  assumes "reachable c" "idle (ctrl c)" "cmd_of u0 = 5" "length pins = 7" "list_all (\<lambda>p. cmd_of (fst p) \<noteq> 1) pins"
  shows "let c' = cycles True ((u0, v0) # pins) c in
    idle (ctrl c') \<and> done_latched_q (ctrl c') \<and> all_rows_done c' \<and> error_latched c' = error_latched c \<and>
    weight_mem c' = weight_mem c \<and> act_mem c' = act_mem c \<and>
    acc_q c' = map (\<lambda>r. acc_q c ! r +
      word_of_int (\<Sum>k<2. if weight_mem c ! r ! k then sint (act_mem c ! k) else - sint (act_mem c ! k))) [0..<2]"
  using reachable_run [OF assms, of v0] by (simp only: contrib_ext_int of_int_sum)

theorem chip_run_computes_witness:
  "let c = clock False 0 0 zero_chip; c' = cycles True ((5, 0) # replicate 7 (2, 3)) c in
    idle (ctrl c') \<and> done_latched_q (ctrl c') \<and> weight_mem c' = weight_mem c"
proof -
  have z: "clock False 0 0 zero_chip = zero_chip" by (rule clock_reset)
  have "reachable zero_chip" using reachable.power_up [OF zero_shape, of 0 0] z by simp
  moreover have "idle (ctrl zero_chip)" by (simp add: chip_of_def idle_def)
  ultimately show ?thesis
    using chip_run_computes [of zero_chip 5 "replicate 7 (2, 3)" 0]
    by (simp add: z cmd_table list_all_iff Let_def del: cycles_simps)
qed

text \<open>C8: over any link that carries requests to the firmware and answers back, from any state of the chip and with at least six
  polls, \<open>run_one\<close> returns without an error the partial sums that \<open>expected_psums\<close> computes, reduced to signed
  16-bit numbers, for weights 0 and 1 and signed bytes of activations.\<close>

theorem run_one_computes:
  assumes "streamer_link dev_write dev_read holds other" "holds s dev" "chip_shape (chip_of_device dev)" "6 \<le> polls" "polls < 2 ^ 31"
    and w: "\<forall>w \<in> {w00, w01, w10, w11}. w = 0 \<or> w = 1" and a: "\<forall>a \<in> {a0, a1}. -128 \<le> a \<and> a \<le> 127"
  shows "\<exists>ps s' dev'. expected_psums [[w00, w01], [w10, w11]] [a0, a1] [s0, s1] = Inr ps \<and>
    run_one dev_write dev_read [[w00, w01], [w10, w11]] [a0, a1] [s0, s1] polls s = (Inr (Psums (map to_signed16 ps)), s') \<and>
    holds s' dev' \<and> chip_shape (chip_of_device dev')"
proof -
  have o: "odd w00 \<longleftrightarrow> w00 \<noteq> 0" "odd w01 \<longleftrightarrow> w01 \<noteq> 0" "odd w10 \<longleftrightarrow> w10 \<noteq> 0" "odd w11 \<longleftrightarrow> w11 \<noteq> 0" using w by auto
  from streamer_link.run_one_ok [OF assms(1-5), of a0 a1 w00 w01 w10 w11 s0 s1] show ?thesis
    using a unfolding expected_psums_value o by auto
qed

theorem run_one_computes_witness:
  "\<exists>ps s' dev'. expected_psums [[1, 0], [0, 1]] [4, -3] [11, -13] = Inr ps \<and>
    run_one (pipe_write (\<lambda>_ _ _. None)) pipe_read [[1, 0], [0, 1]] [4, -3] [11, -13] 16 (\<lparr>rst_pin = False, chip_of_device = zero_chip\<rparr>, []) =
      (Inr (Psums (map to_signed16 ps)), s') \<and> s' = (dev', []) \<and> chip_shape (chip_of_device dev')"
  by (rule run_one_computes [OF pipe.streamer_link_axioms, where dev = "\<lparr>rst_pin = False, chip_of_device = zero_chip\<rparr>"])
    (simp_all add: zero_shape)

text \<open>Over any such link and from any state of the chip, \<open>smoke\<close> passes all its cases and exits with 0.\<close>

lemma smoke_passes:
  assumes "streamer_link dev_write dev_read holds other" "holds s dev" "chip_shape (chip_of_device dev)"
  shows "fst (cmd_smoke dev_write dev_read s) = Inr 0"
  using streamer_link.cmd_smoke_ok [OF assms] by auto

lemma smoke_passes_witness:
  "fst (cmd_smoke (pipe_write (\<lambda>_ _ _. None)) pipe_read (\<lparr>rst_pin = True, chip_of_device = zero_chip\<rparr>, [])) = Inr 0"
  by (rule smoke_passes [OF pipe.streamer_link_axioms, where dev = "\<lparr>rst_pin = True, chip_of_device = zero_chip\<rparr>"])
    (simp_all add: zero_shape)

text \<open>C11: the firmware's tile macro computes dot products of any length.  A request with the descriptors of one run, the first marked
  \<open>starts_run\<close> and the last \<open>ends_run\<close>, is answered with four bytes, from any state of the chip out of reset: the sums over
  all tiles of the signed activations of each row, modulo \<open>2 ^ 16\<close>.\<close>

theorem tile_macro_accumulates:
  assumes "chip_shape c" "ts \<noteq> []" "length ts < 2 ^ 32"
    and "bit (snd (snd (hd ts))) 4" "list_all (\<lambda>(a0, a1, p). \<not> bit p 4) (tl ts)"
    and "list_all (\<lambda>(a0, a1, p). \<not> bit p 5) (butlast ts)" "bit (snd (snd (last ts))) 5"
  shows "\<exists>c'. fw_request other (77 # le_bytes 4 (int (length ts)) @ descriptor_bytes ts) \<lparr>rst_pin = True, chip_of_device = c\<rparr> =
    Some (run_reply
        (word_of_int (\<Sum>(a0, a1, p)\<leftarrow>ts. (if bit p 0 then sint a0 else - sint a0) + (if bit p 1 then sint a1 else - sint a1)))
        (word_of_int (\<Sum>(a0, a1, p)\<leftarrow>ts. (if bit p 2 then sint a0 else - sint a0) + (if bit p 3 then sint a1 else - sint a1))),
      \<lparr>rst_pin = True, chip_of_device = c'\<rparr>)"
proof -
  let ?g0 = "\<lambda>(a0, a1, p). (if bit p 0 then sint a0 else - sint a0) + (if bit p 1 then sint a1 else - sint a1)"
  let ?g1 = "\<lambda>(a0, a1, p). (if bit p 2 then sint a0 else - sint a0) + (if bit p 3 then sint a1 else - sint a1)"
  have "sum_list (map (tile_sum 0) ts) = word_of_int (sum_list (map ?g0 ts))" "sum_list (map (tile_sum 1) ts) = word_of_int (sum_list (map ?g1 ts))"
    by (rule sum_tiles_int, simp only: split_paired_all tile_sum_int prod.case)+
  with m_tiles_run [OF assms(1,2,4-7)] show ?thesis unfolding fw_m_request [OF assms(3)] by auto
qed

theorem tile_macro_accumulates_witness:
  "\<exists>c'. fw_request (\<lambda>_ _ _. None) (77 # le_bytes 4 2 @ [10, 20, 0x1F, 3, 253, 0x26]) \<lparr>rst_pin = True, chip_of_device = zero_chip\<rparr> =
    Some (run_reply (word_of_int 24) (word_of_int 36), \<lparr>rst_pin = True, chip_of_device = c'\<rparr>)"
  using tile_macro_accumulates [OF zero_shape, of "[(10, 20, 0x1F), (3, 253, 0x26)]" "\<lambda>_ _ _. None"] by simp

end
