(* ===== verification/BringUp.thy ===== *)
theory BringUp
  imports Streamer
begin

text \<open>
  The bring-up program of \<^verbatim>\<open>rp_streamer/host/scaffold/matmul_smoke.py\<close>, which runs on the microcontroller of the demo board
  and drives the pins of the chip one by one.  The board's SDK, its pins, clock and reset, is a parameter: the record
  \<open>tt_board\<close>.
\<close>

unbundle bit_operations_syntax

record 's tt_board =
  tt_write_ui :: "int \<Rightarrow> ('s, unit) py"
  tt_write_uio :: "int \<Rightarrow> ('s, unit) py"
  tt_read_uo :: "('s, int) py"
  tt_clock_once :: "('s, unit) py"
  tt_reset_project :: "bool \<Rightarrow> ('s, unit) py"

definition BRING_UP_CASES :: "(int list list \<times> int list \<times> int list) list" where
  "BRING_UP_CASES =
     [([[1, 1], [1, 1]], [10, 20], [0, 0]),
      ([[1, 0], [1, 1]], [3, 5], [0, 0]),
      ([[1, 0], [0, 1]], [4, -3], [11, -13])]"

definition send :: "'s tt_board \<Rightarrow> int \<Rightarrow> int \<Rightarrow> int \<Rightarrow> ('s, unit) py" where
  "send tt c data arg =
     (let ui = (c AND 0x7) OR push_bit 3 (arg AND 0x1F) in
      py_then (tt_write_ui tt ui) (py_then (tt_write_uio tt (data AND 0xFF)) (tt_clock_once tt)))"

definition read_status :: "'s tt_board \<Rightarrow> ('s, int) py" where
  "read_status tt = py_then (send tt CMD_STATUS 0 0) (tt_read_uo tt)"

definition board_to_signed16 :: "int \<Rightarrow> int" where
  "board_to_signed16 raw = (let raw = raw AND 0xFFFF in if raw AND 0x8000 \<noteq> 0 then raw - 0x10000 else raw)"

definition to_u8 :: "int \<Rightarrow> int" where
  "to_u8 v = v AND 0xFF"

definition board_reset_chip :: "'s tt_board \<Rightarrow> ('s, unit) py" where
  "board_reset_chip tt =
     py_then (tt_reset_project tt True)
     (py_then (py_for (replicate 8 ()) (\<lambda>_. tt_clock_once tt))
     (py_then (tt_reset_project tt False)
     (py_for (replicate 2 ()) (\<lambda>_. tt_clock_once tt))))"

section \<open>One case\<close>

definition board_packed_row :: "int list list \<Rightarrow> int \<Rightarrow> int res" where
  "board_packed_row weights r =
     foldR (\<lambda>packed c. bindR (py_index weights r) (\<lambda>row. bindR (py_index row c) (\<lambda>v. Inr (packed OR push_bit (nat c) (v AND 1))))) 0 (py_range 2)"

definition send_weights :: "'s tt_board \<Rightarrow> int list list \<Rightarrow> ('s, unit) py" where
  "send_weights tt weights =
     py_for (py_range 2) (\<lambda>r. py_bind (py_lift (board_packed_row weights r)) (\<lambda>packed. send tt CMD_LDW packed r))"

definition send_acts :: "'s tt_board \<Rightarrow> int list \<Rightarrow> ('s, unit) py" where
  "send_acts tt acts =
     py_for (py_range 2) (\<lambda>c. py_bind (py_lift (py_index acts c)) (\<lambda>v. send tt CMD_LDA (to_u8 v) c))"

definition send_seeds :: "'s tt_board \<Rightarrow> int list \<Rightarrow> ('s, unit) py" where
  "send_seeds tt seeds =
     py_for (py_range 2) (\<lambda>r. py_bind (py_lift (py_index seeds r)) (\<lambda>v.
       let sraw = v AND 0xFFFF in
       py_for (py_range PSUM_BYTES) (\<lambda>b. send tt CMD_SEED (drop_bit (nat (8 * b)) sraw AND 0xFF) (r OR push_bit 1 b))))"

text \<open>The outcome of a case: the sums, or one of the failures with the status byte of its message.\<close>

datatype board_result =
    BoardOk "int list"
  | MissingStartReady int
  | PrecondError int
  | RunError int
  | NoDoneWithin int
  | DoneWithoutAllValid int

text \<open>The polls: \<open>break\<close> on DONE, the \<open>else\<close> clause of the loop when there was none.\<close>

fun poll_done :: "'s tt_board \<Rightarrow> nat \<Rightarrow> int \<Rightarrow> ('s, board_result + int) py" where
  "poll_done tt 0 st = py_ret (Inl (NoDoneWithin st))"
| "poll_done tt (Suc n) st =
     py_bind (read_status tt) (\<lambda>st.
       if st AND 64 \<noteq> 0 then py_ret (Inl (RunError st))
       else if st AND 2 \<noteq> 0 then py_ret (Inr st)
       else poll_done tt n st)"

definition read_psum :: "'s tt_board \<Rightarrow> int \<Rightarrow> ('s, int) py" where
  "read_psum tt r =
     py_bind (py_then (send tt CMD_RDP 0 (r OR push_bit 1 0)) (tt_read_uo tt)) (\<lambda>lo.
     py_bind (py_then (send tt CMD_RDP 0 (r OR push_bit 1 1)) (tt_read_uo tt)) (\<lambda>hi.
       py_ret (board_to_signed16 (push_bit 0 lo OR push_bit 8 hi))))"

definition read_psums :: "'s tt_board \<Rightarrow> ('s, int list) py" where
  "read_psums tt = py_bind (read_psum tt 0) (\<lambda>p0. py_bind (read_psum tt 1) (\<lambda>p1. py_ret [p0, p1]))"

definition board_run_one :: "'s tt_board \<Rightarrow> int list list \<Rightarrow> int list \<Rightarrow> int list \<Rightarrow> ('s, board_result) py" where
  "board_run_one tt weights acts seeds =
     py_then (board_reset_chip tt)
     (py_then (send tt CMD_CLEAR 0 0) (py_then (send tt CMD_NOP 0 0)
     (py_then (send_weights tt weights) (py_then (send_acts tt acts) (py_then (send_seeds tt seeds)
     (py_bind (read_status tt) (\<lambda>pre.
       if pre AND 16 = 0 then py_ret (MissingStartReady pre)
       else if pre AND 64 \<noteq> 0 then py_ret (PrecondError pre)
       else
         py_then (send tt CMD_START 0 0) (py_then (send tt CMD_NOP 0 0)
         (py_bind (poll_done tt 64 0) (\<lambda>polled.
           case polled of
             Inl failure \<Rightarrow> py_ret failure
           | Inr st \<Rightarrow>
               if st AND 8 = 0 then py_ret (DoneWithoutAllValid st)
               else py_bind (read_psums tt) (\<lambda>out. py_ret (BoardOk out))))))))))))"

section \<open>All cases\<close>

definition dot_ref :: "int list list \<Rightarrow> int list \<Rightarrow> int list \<Rightarrow> int list res" where
  "dot_ref w a s =
     mapR (\<lambda>r. bindR (py_index s r) (\<lambda>v.
       foldR (\<lambda>v c. bindR (py_index w r) (\<lambda>row. bindR (py_index row c) (\<lambda>wv. bindR (py_index a c) (\<lambda>av.
         Inr (v + (if wv \<noteq> 0 then av else - av)))))) v (py_range 2))) (py_range 2)"

fun case_loop :: "'s tt_board \<Rightarrow> (int list list \<times> int list \<times> int list) list \<Rightarrow> int \<Rightarrow> ('s, int) py" where
  "case_loop tt [] ok = py_ret ok"
| "case_loop tt ((w, a, s) # cases) ok =
     py_bind (py_lift (dot_ref w a s)) (\<lambda>expected.
     py_bind (board_run_one tt w a s) (\<lambda>result.
       case_loop tt cases (if result = BoardOk expected then ok + 1 else ok)))"

text \<open>The program from the write-back probe on: the number of cases that passed.\<close>

definition bring_up :: "'s tt_board \<Rightarrow> ('s, int) py" where
  "bring_up tt =
     py_then (tt_write_ui tt 0xA5) (py_then (tt_write_uio tt 0x5A) (case_loop tt BRING_UP_CASES 0))"

end
