(* ===== verification/BringUpProps.thy ===== *)
theory BringUpProps
  imports BringUp StreamerSpec
begin

text \<open>
  What the bring-up program computes on a board whose SDK drives the pins of the chip: triples of total correctness for
  the operations, and the sums of every case.
\<close>

unbundle bit_operations_syntax

section \<open>Triples\<close>

text \<open>From every state that \<open>H\<close> relates to \<open>c\<close>, \<open>m\<close> returns \<open>x\<close> in a state that \<open>H\<close> relates to \<open>c'\<close>.\<close>

definition yields :: "('s \<Rightarrow> 'c \<Rightarrow> bool) \<Rightarrow> ('s, 'a) py \<Rightarrow> 'c \<Rightarrow> 'a \<Rightarrow> 'c \<Rightarrow> bool" where
  "yields H m c x c' \<longleftrightarrow> (\<forall>s. H s c \<longrightarrow> (\<exists>s'. m s = (Inr x, s') \<and> H s' c'))"

lemma yieldsD: "yields H m c x c' \<Longrightarrow> H s c \<Longrightarrow> \<exists>s'. m s = (Inr x, s') \<and> H s' c'"
  by (simp add: yields_def)

lemma yields_ret: "yields H (py_ret x) c x c"
  by (simp add: yields_def)

lemma yields_bind:
  assumes "yields H m c x c1" "yields H (f x) c1 y c2"
  shows "yields H (py_bind m f) c y c2"
  using assms unfolding yields_def py_bind_run by fastforce

lemma yields_then: "yields H m c x c1 \<Longrightarrow> yields H n c1 y c2 \<Longrightarrow> yields H (py_then m n) c y c2"
  unfolding py_then_def by (rule yields_bind)

lemma yields_lift: "r = Inr x \<Longrightarrow> yields H (f x) c y c' \<Longrightarrow> yields H (py_bind (py_lift r) f) c y c'"
  by (simp add: yields_def py_bind_run)

lemma py_bind_then: "py_bind (py_then m n) f = py_then m (py_bind n f)"
  by (rule ext) (simp add: py_simps split: prod.splits sum.splits)

section \<open>Bytes\<close>

lemma pack_ui_byte: "0 \<le> pack_ui cmd arg" "pack_ui cmd arg < 256"
proof -
  have m: "(0x7 :: int) = mask 3" "(0x1F :: int) = mask 5" by (simp_all add: mask_eq_exp_minus_1)
  have "take_bit 8 (pack_ui cmd arg) = pack_ui cmd arg"
    unfolding pack_ui_def m by (rule bit_eqI) (auto simp: bit_simps)
  then show "0 \<le> pack_ui cmd arg" "pack_ui cmd arg < 256"
    using take_bit_nonnegative [of 8 "pack_ui cmd arg"] take_bit_int_less_exp [of 8 "pack_ui cmd arg"] by simp_all
qed

lemma and_byte: "0 \<le> v AND 0xFF" "v AND 0xFF < (256 :: int)"
  using take_bit_eq_mask [of 8 v] by (simp_all add: mask_eq_exp_minus_1 take_bit_eq_mod)

lemma or_push_one: "(v AND 1) OR push_bit 1 (u AND 1) = (v AND 1) + push_bit 1 (u AND (1 :: int))"
  by (cases "even v"; cases "even u") (simp_all add: and_one_eq mod_2_eq_odd push_bit_eq_mult)

lemma board_packed_row_value:
  "board_packed_row [[w00, w01], [w10, w11]] 0 = Inr ((w00 AND 1) + push_bit 1 (w01 AND 1))"
  "board_packed_row [[w00, w01], [w10, w11]] 1 = Inr ((w10 AND 1) + push_bit 1 (w11 AND 1))"
  using or_push_one [of w00 w01] or_push_one [of w10 w11] by (simp_all add: board_packed_row_def range_two index_two)

lemma board_to_signed16_eq: "board_to_signed16 v = sint (word_of_int v :: 16 word)"
  using to_signed16_eq [of v] by (simp add: to_signed16_def board_to_signed16_def)

lemma status_bits:
  "uint (status_byte c) AND 2 \<noteq> 0 \<longleftrightarrow> done_latched_q (ctrl c)" "uint (status_byte c) AND 64 \<noteq> 0 \<longleftrightarrow> error_latched c"
proof -
  have "bit (status_byte c) 1 = done_latched_q (ctrl c)" "bit (status_byte c) 6 = error_latched c"
    by (auto simp: status_byte_def bit_simps)
  moreover have "n AND 2 ^ k \<noteq> 0 \<longleftrightarrow> bit n k" for n :: int and k by (simp add: and_exp_eq_0_iff_not_bit)
  from this [of "uint (status_byte c)" 1] this [of "uint (status_byte c)" 6]
  have "uint (status_byte c) AND 2 \<noteq> 0 \<longleftrightarrow> bit (status_byte c) 1" "uint (status_byte c) AND 64 \<noteq> 0 \<longleftrightarrow> bit (status_byte c) 6"
    by (simp_all add: bit_uint_iff)
  ultimately show "uint (status_byte c) AND 2 \<noteq> 0 \<longleftrightarrow> done_latched_q (ctrl c)" "uint (status_byte c) AND 64 \<noteq> 0 \<longleftrightarrow> error_latched c" by simp_all
qed

lemma chip_flags: "done_latched_q (ctrl (chip_of s n d wd w a x f p e)) = d" "error_latched (chip_of s n d wd w a x f p e) = e"
  by (simp_all add: chip_of_def)

lemma replicate_few: "replicate 3 x = [x, x, x]" "replicate 4 x = [x, x, x, x]" "replicate 5 x = [x, x, x, x, x]"
  by (simp_all add: eval_nat_numeral)

text \<open>While a run is on, neither DONE nor ERROR shows; it ends at the sixth poll.\<close>

lemma run_statuses:
  fixes w00 w01 w10 w11 a0 a1 x0 x1 q00 q01 q10 q11
  defines "c \<equiv> cycles True [(5, 0), (7, 0)] (chip_of 0 0 False False [[w00, w01], [w10, w11]] [a0, a1] [x0, x1] [False, False] (rest_array q00 q01 q10 q11) False)"
  shows "j < 5 \<Longrightarrow> \<not> done_latched_q (ctrl (cycles True (replicate (Suc j) (0, 0)) c)) \<and> \<not> error_latched (cycles True (replicate (Suc j) (0, 0)) c)"
    and "cycles True (replicate (Suc 5) (0, 0)) c = done_chip w00 w01 w10 w11 a0 a1 x0 x1 False"
proof -
  assume "j < 5"
  then have "j = 0 \<or> j = 1 \<or> j = 2 \<or> j = 3 \<or> j = 4" by auto
  then show "\<not> done_latched_q (ctrl (cycles True (replicate (Suc j) (0, 0)) c)) \<and> \<not> error_latched (cycles True (replicate (Suc j) (0, 0)) c)"
    unfolding c_def
    by (elim disjE) (simp_all add: clock_idle clock_load clock_run cmd_table chip_flags replicate_few cong del: if_weak_cong)
next
  show "cycles True (replicate (Suc 5) (0, 0)) c = done_chip w00 w01 w10 w11 a0 a1 x0 x1 False"
    unfolding c_def using run_cycles [of 6 "[]" 0 False False w00 w01 w10 w11 a0 a1 x0 x1 False False q00 q01 q10 q11 False] by simp
qed

lemma dot_ref_value:
  "dot_ref [[w00, w01], [w10, w11]] [a0, a1] [s0, s1] =
    Inr [s0 + (if w00 \<noteq> 0 then a0 else - a0) + (if w01 \<noteq> 0 then a1 else - a1),
         s1 + (if w10 \<noteq> 0 then a0 else - a0) + (if w11 \<noteq> 0 then a1 else - a1)]"
  by (simp add: dot_ref_def range_two index_two)

section \<open>The board\<close>

text \<open>
  What the program relies on of the SDK: a pin keeps what was last written to it, a pulse of the clock is a cycle of the chip
  with these pins, the output pins show the chip's output.
\<close>

locale tt_pins =
  fixes tt :: "'s tt_board"
    and holds :: "'s \<Rightarrow> bool \<Rightarrow> 8 word \<Rightarrow> 8 word \<Rightarrow> chip \<Rightarrow> bool"
  assumes write_ui: "holds s r ui uio c \<Longrightarrow> 0 \<le> v \<Longrightarrow> v < 256 \<Longrightarrow>
      \<exists>s'. tt_write_ui tt v s = (Inr (), s') \<and> holds s' r (word_of_int v) uio c"
    and write_uio: "holds s r ui uio c \<Longrightarrow> 0 \<le> v \<Longrightarrow> v < 256 \<Longrightarrow>
      \<exists>s'. tt_write_uio tt v s = (Inr (), s') \<and> holds s' r ui (word_of_int v) c"
    and read_uo: "holds s r ui uio c \<Longrightarrow> \<exists>s'. tt_read_uo tt s = (Inr (uint (uo_out ui c)), s') \<and> holds s' r ui uio c"
    and clock_once: "holds s r ui uio c \<Longrightarrow> \<exists>s'. tt_clock_once tt s = (Inr (), s') \<and> holds s' r ui uio (clock r ui uio c)"
    and reset_project: "holds s r ui uio c \<Longrightarrow> \<exists>s'. tt_reset_project tt b s = (Inr (), s') \<and> holds s' (\<not> b) ui uio c"
begin

text \<open>Out of reset, with the command on the pins and the state of the chip.\<close>

abbreviation running :: "'s \<Rightarrow> 8 word \<times> chip \<Rightarrow> bool" where
  "running s x \<equiv> \<exists>uio. holds s True (fst x) uio (snd x)"

lemma send_yields:
  "yields running (send tt cmd data arg) (u, c) ()
     (word_of_int (pack_ui cmd arg), clock True (word_of_int (pack_ui cmd arg)) (word_of_int data) c)"
  unfolding yields_def
proof (intro allI impI, elim exE)
  fix s uio assume "holds s True (fst (u, c)) uio (snd (u, c))"
  then have h: "holds s True u uio c" by simp
  let ?ui = "word_of_int (pack_ui cmd arg) :: 8 word"
  obtain s1 where s1: "tt_write_ui tt (pack_ui cmd arg) s = (Inr (), s1)" "holds s1 True ?ui uio c"
    using write_ui [OF h pack_ui_byte] by blast
  obtain s2 where s2: "tt_write_uio tt (data AND 0xFF) s1 = (Inr (), s2)" "holds s2 True ?ui (word_of_int data) c"
    using write_uio [OF s1(2) and_byte, of data] by (auto simp: act_byte)
  show "\<exists>s'. send tt cmd data arg s = (Inr (), s') \<and> (\<exists>uio. holds s' True (fst (?ui, clock True ?ui (word_of_int data) c)) uio (snd (?ui, clock True ?ui (word_of_int data) c)))"
    using clock_once [OF s2(2)] s1(1) s2(1) by (auto simp: send_def py_then_run pack_ui_def Let_def)
qed

lemma read_yields: "yields running (tt_read_uo tt) (u, c) (uint (uo_out u c)) (u, c)"
  unfolding yields_def using read_uo by fastforce

lemma read_status_yields: "yields running (read_status tt) (u, c) (uint (status_byte (clock True 0 0 c))) (0, clock True 0 0 c)"
  unfolding read_status_def using yields_then [OF send_yields read_yields, of 0 0 0 u c]
  by (simp add: pack_ui_table uo_out_def cmd_table)

lemma poll_next:
  assumes "uint (status_byte (clock True 0 0 c)) = v" "v AND 64 = 0" "v AND 2 = 0"
    and "yields running (poll_done tt n v) (0, clock True 0 0 c) x y"
  shows "yields running (poll_done tt (Suc n) st) (u, c) x y"
  unfolding poll_done.simps by (rule yields_bind [OF read_status_yields]) (use assms in simp)

lemma poll_stop:
  assumes "uint (status_byte (clock True 0 0 c)) = v" "v AND 64 = 0" "v AND 2 \<noteq> 0"
  shows "yields running (poll_done tt (Suc n) st) (u, c) (Inr v) (0, clock True 0 0 c)"
  unfolding poll_done.simps by (rule yields_bind [OF read_status_yields]) (use assms in \<open>simp add: yields_ret\<close>)

lemma clocks_yields:
  "holds s r ui uio c \<Longrightarrow>
   \<exists>s'. py_for (replicate n ()) (\<lambda>_. tt_clock_once tt) s = (Inr (), s') \<and> holds s' r ui uio (cycles r (replicate n (ui, uio)) c)"
proof (induction n arbitrary: s c)
  case (Suc n)
  from clock_once [OF Suc.prems] obtain s1 where s1: "tt_clock_once tt s = (Inr (), s1)" "holds s1 r ui uio (clock r ui uio c)" by blast
  from Suc.IH [OF s1(2)] s1(1) show ?case by (simp add: py_then_run)
qed simp

text \<open>After the reset the chip has seen two cycles with whatever command was left on the pins.\<close>

lemma board_reset_ok:
  assumes "holds s r ui uio c" "chip_shape c"
  shows "\<exists>s' c'. board_reset_chip tt s = (Inr (), s') \<and> running s' (ui, c') \<and> chip_shape c'"
proof -
  obtain s1 where s1: "tt_reset_project tt True s = (Inr (), s1)" "holds s1 False ui uio c" using reset_project [OF assms(1), of True] by auto
  obtain s2 where s2: "py_for (replicate 8 ()) (\<lambda>_. tt_clock_once tt) s1 = (Inr (), s2)" "holds s2 False ui uio zero_chip"
    using clocks_yields [OF s1(2), of 8] cycles_reset [OF assms(2), of 7 ui uio] by auto
  obtain s3 where s3: "tt_reset_project tt False s2 = (Inr (), s3)" "holds s3 True ui uio zero_chip" using reset_project [OF s2(2), of False] by auto
  let ?c = "cycles True (replicate 2 (ui, uio)) zero_chip"
  obtain s4 where s4: "py_for (replicate 2 ()) (\<lambda>_. tt_clock_once tt) s3 = (Inr (), s4)" "holds s4 True ui uio ?c"
    using clocks_yields [OF s3(2), of 2] by blast
  have "reachable zero_chip" using reachable.power_up [OF zero_shape, of 0 0] clock_reset by simp
  then have "chip_inv ?c" by (intro reachable_inv reachable_cycles)
  then have "chip_shape ?c" by (simp add: chip_inv_def)
  moreover have "board_reset_chip tt s = (Inr (), s4)" using s1(1) s2(1) s3(1) s4(1) by (simp only: board_reset_chip_def py_then_run prod.case sum.case)
  ultimately show ?thesis using s4(2) by auto
qed

text \<open>Loading: CLEAR, NOP, two rows of weights, two activations, four bytes of seeds, STATUS.\<close>

lemmas load_rules = yields_then yields_lift yields_ret board_packed_row_value index_two send_yields

lemma send_weights_yields:
  "yields running (send_weights tt [[w00, w01], [w10, w11]]) (u, c) ()
    (10, cycles True [(2, word_of_int ((w00 AND 1) + push_bit 1 (w01 AND 1))), (10, word_of_int ((w10 AND 1) + push_bit 1 (w11 AND 1)))] c)"
proof -
  let ?k0 = "(w00 AND 1) + push_bit 1 (w01 AND 1)" and ?k1 = "(w10 AND 1) + push_bit 1 (w11 AND 1)"
  have "yields running (send_weights tt [[w00, w01], [w10, w11]]) (u, c) () (word_of_int (pack_ui 2 1),
      clock True (word_of_int (pack_ui 2 1)) (word_of_int ?k1) (clock True (word_of_int (pack_ui 2 0)) (word_of_int ?k0) c))"
    unfolding send_weights_def range_two py_for.simps by (rule load_rules)+
  then show ?thesis by (simp only: pack_ui_table of_int_numeral cycles_simps fst_conv snd_conv)
qed

lemma send_acts_yields:
  "yields running (send_acts tt [a0, a1]) (u, c) () (11, cycles True [(3, word_of_int a0), (11, word_of_int a1)] c)"
proof -
  have "yields running (send_acts tt [a0, a1]) (u, c) () (word_of_int (pack_ui 3 1),
      clock True (word_of_int (pack_ui 3 1)) (word_of_int (to_u8 a1)) (clock True (word_of_int (pack_ui 3 0)) (word_of_int (to_u8 a0)) c))"
    unfolding send_acts_def range_two py_for.simps by (rule load_rules)+
  then show ?thesis by (simp only: pack_ui_table of_int_numeral cycles_simps fst_conv snd_conv to_u8_def act_byte)
qed

lemma send_seeds_yields:
  "yields running (send_seeds tt [s0, s1]) (u, c) () (28, cycles True
    [(4, word_of_int ((s0 AND 0xFFFF) AND 0xFF)), (20, word_of_int (drop_bit 8 (s0 AND 0xFFFF) AND 0xFF)),
     (12, word_of_int ((s1 AND 0xFFFF) AND 0xFF)), (28, word_of_int (drop_bit 8 (s1 AND 0xFFFF) AND 0xFF))] c)"
proof -
  let ?b = "\<lambda>v. drop_bit (nat (8 * 0)) (v AND 0xFFFF) AND (0xFF :: int)" and ?h = "\<lambda>v. drop_bit (nat (8 * 1)) (v AND 0xFFFF) AND (0xFF :: int)"
  let ?u = "\<lambda>r b. word_of_int (pack_ui 4 (r OR push_bit 1 b)) :: 8 word"
  have "yields running (send_seeds tt [s0, s1]) (u, c) () (?u 1 1,
      clock True (?u 1 1) (word_of_int (?h s1)) (clock True (?u 1 0) (word_of_int (?b s1))
      (clock True (?u 0 1) (word_of_int (?h s0)) (clock True (?u 0 0) (word_of_int (?b s0)) c))))"
    unfolding send_seeds_def range_two py_for.simps Let_def by (rule load_rules)+
  then show ?thesis by (simp add: pack_ui_table)
qed

lemma load_yields:
  assumes "chip_shape c"
  shows "\<exists>q00 q01 q10 q11.
    yields running (py_then (send tt CMD_CLEAR 0 0) (py_then (send tt CMD_NOP 0 0) (py_then (send_weights tt [[w00, w01], [w10, w11]])
      (py_then (send_acts tt [a0, a1]) (py_then (send_seeds tt [s0, s1]) (read_status tt)))))) (u, c) 48
      (0, ready_chip w00 w01 w10 w11 a0 a1 s0 s1 q00 q01 q10 q11)"
proof -
  let ?b = "\<lambda>v. word_of_int ((v AND 0xFFFF) AND 0xFF) :: 8 word" and ?h = "\<lambda>v. word_of_int (drop_bit 8 (v AND 0xFFFF) AND 0xFF) :: 8 word"
  let ?k0 = "word_of_int ((w00 AND 1) + push_bit 1 (w01 AND 1)) :: 8 word" and ?k1 = "word_of_int ((w10 AND 1) + push_bit 1 (w11 AND 1)) :: 8 word"
  let ?c' = "clock True 0 0 (cycles True [(4, ?b s0), (20, ?h s0), (12, ?b s1), (28, ?h s1)]
    (cycles True [(3, word_of_int a0), (11, word_of_int a1)] (cycles True [(2, ?k0), (10, ?k1)]
    (clock True (word_of_int (pack_ui 7 0)) (word_of_int 0) (clock True (word_of_int (pack_ui 1 0)) (word_of_int 0) c)))))"
  obtain q00 q01 q10 q11 where c: "?c' = ready_chip w00 w01 w10 w11 a0 a1 s0 s1 q00 q01 q10 q11"
    using setup_cycles [OF assms, of ?k0 ?k1 "word_of_int a0" "word_of_int a1" "?b s0" "?h s0" "?b s1" "?h s1"]
    unfolding weight_bits seed_bytes pack_ui_table of_int_numeral of_int_1 of_int_0 cycles_simps fst_conv snd_conv by blast
  have "yields running (py_then (send tt CMD_CLEAR 0 0) (py_then (send tt CMD_NOP 0 0) (py_then (send_weights tt [[w00, w01], [w10, w11]])
      (py_then (send_acts tt [a0, a1]) (py_then (send_seeds tt [s0, s1]) (read_status tt)))))) (u, c) (uint (status_byte ?c')) (0, ?c')"
    by (rule yields_then send_yields send_weights_yields send_acts_yields send_seeds_yields read_status_yields)+
  then show ?thesis unfolding c status_idle by auto
qed

lemma poll_until:
  assumes "\<And>j. j < m \<Longrightarrow> \<not> done_latched_q (ctrl (cycles True (replicate (Suc j) (0, 0)) c)) \<and> \<not> error_latched (cycles True (replicate (Suc j) (0, 0)) c)"
    and "cycles True (replicate (Suc m) (0, 0)) c = c'" "done_latched_q (ctrl c')" "\<not> error_latched c'" "m < n"
  shows "yields running (poll_done tt n st) (u, c) (Inr (uint (status_byte c'))) (0, c')"
  using assms
proof (induction m arbitrary: c n st u)
  case 0
  then obtain k where n: "n = Suc k" by (cases n) auto
  have c': "clock True 0 0 c = c'" using 0(2) by simp
  show ?case unfolding n by (rule poll_stop [of c, unfolded c', OF refl]) (use 0(3,4) status_bits [of c'] in auto)
next
  case (Suc m)
  then obtain k where n: "n = Suc k" by (cases n) auto
  have "yields running (poll_done tt k (uint (status_byte (clock True 0 0 c)))) (0, clock True 0 0 c) (Inr (uint (status_byte c'))) (0, c')"
    by (rule Suc.IH) (use Suc.prems n in \<open>force+\<close>)
  with Suc.prems(1) [of 0] status_bits [of "clock True 0 0 c"] show ?case unfolding n by (intro poll_next [OF refl]) auto
qed

lemma read_psum_yields:
  assumes k: "word_of_int (pack_ui 6 (r OR push_bit 1 0)) = k" "clock True k 0 c = c" "uo_out k c = get_byte x 0"
    and l: "word_of_int (pack_ui 6 (r OR push_bit 1 1)) = l" "clock True l 0 c = c" "uo_out l c = get_byte x 1"
  shows "yields running (read_psum tt r) (v, c) (sint x) (l, c)"
proof -
  have rd: "yields running (py_then (send tt 6 0 arg) (tt_read_uo tt)) (v, c) (uint (uo_out k c)) (k, c)"
    if "word_of_int (pack_ui 6 arg) = k" "clock True k 0 c = c" for arg v and k :: "8 word"
    using yields_then [OF send_yields read_yields, of 6 0 arg v c] that by simp
  have word: "board_to_signed16 (push_bit 0 (uint (get_byte x 0)) OR push_bit 8 (uint (get_byte x 1))) = sint x"
    by (simp add: board_to_signed16_eq psum_bytes)
  show ?thesis unfolding read_psum_def
    by (rule yields_bind [OF rd [OF k(1,2)]], rule yields_bind [OF rd [OF l(1,2)]]) (unfold k(3) l(3) word, rule yields_ret)
qed

lemma read_psums_yields:
  assumes "list_all (\<lambda>ui. clock True ui 0 c = c) [6, 22, 14, 30]" "acc_q c = [x0, x1]"
  shows "yields running (read_psums tt) (u, c) [sint x0, sint x1] (30, c)"
proof -
  have out: "uo_out 6 c = get_byte x0 0" "uo_out 22 c = get_byte x0 1" "uo_out 14 c = get_byte x1 0" "uo_out 30 c = get_byte x1 1"
    using assms(2) by (simp_all add: uo_out_def cmd_table arg_table result_byte_def)
  have p: "yields running (read_psum tt 0) (v, c) (sint x0) (22, c)" "yields running (read_psum tt 1) (v, c) (sint x1) (30, c)" for v
    using assms(1) out read_psum_yields [of 0 6 c x0 22 v] read_psum_yields [of 1 14 c x1 30 v] by (simp_all add: pack_ui_table)
  show ?thesis unfolding read_psums_def by (rule yields_bind [OF p(1)], rule yields_bind [OF p(2)], rule yields_ret)
qed

text \<open>One case, from any pins and any state of the chip.\<close>

lemma board_run_one_ok:
  assumes h: "holds s r ui uio c" "chip_shape c" and a: "-128 \<le> a0" "a0 \<le> 127" "-128 \<le> a1" "a1 \<le> 127"
  shows "\<exists>s' c'. board_run_one tt [[w00, w01], [w10, w11]] [a0, a1] [s0, s1] s =
      (Inr (BoardOk [to_signed16 (s0 + (if odd w00 then a0 else - a0) + (if odd w01 then a1 else - a1)),
         to_signed16 (s1 + (if odd w10 then a0 else - a0) + (if odd w11 then a1 else - a1))]), s') \<and>
    running s' (30, c') \<and> chip_shape c'"
proof -
  let ?sums = "[to_signed16 (s0 + (if odd w00 then a0 else - a0) + (if odd w01 then a1 else - a1)),
     to_signed16 (s1 + (if odd w10 then a0 else - a0) + (if odd w11 then a1 else - a1))]"
  let ?D = "done_chip (odd w00) (odd w01) (odd w10) (odd w11) (word_of_int a0) (word_of_int a1) (word_of_int s0) (word_of_int s1) False"
  obtain s1' c1 where s1: "board_reset_chip tt s = (Inr (), s1')" "running s1' (ui, c1)" "chip_shape c1" using board_reset_ok [OF h] by blast
  obtain q00 q01 q10 q11 where load: "yields running (py_then (send tt CMD_CLEAR 0 0) (py_then (send tt CMD_NOP 0 0) (py_then (send_weights tt [[w00, w01], [w10, w11]])
      (py_then (send_acts tt [a0, a1]) (py_then (send_seeds tt [s0, s1]) (read_status tt)))))) (ui, c1) 48
      (0, ready_chip w00 w01 w10 w11 a0 a1 s0 s1 q00 q01 q10 q11)" using load_yields [OF s1(3)] by blast
  let ?R = "ready_chip w00 w01 w10 w11 a0 a1 s0 s1 q00 q01 q10 q11"
  have "yields running (poll_done tt 64 0) (7, cycles True [(5, 0), (7, 0)] ?R) (Inr (uint (status_byte ?D))) (0, ?D)"
    by (rule poll_until [OF run_statuses]) (simp_all add: chip_flags)
  then have poll: "yields running (poll_done tt 64 0) (7, cycles True [(5, 0), (7, 0)] ?R) (Inr 62) (0, ?D)" by (simp add: status_done)
  have still: "list_all (\<lambda>ui. clock True ui 0 ?D = ?D) [6, 22, 14, 30]" by (simp add: clock_still cmd_table)
  have read: "yields running (read_psums tt) (0, ?D) ?sums (30, ?D)"
    using read_psums_yields [OF still] a by (simp add: chip_of_def psum_value to_signed16_eq)
  have run: "yields running (py_then (send tt CMD_START 0 0) (py_then (send tt CMD_NOP 0 0) (poll_done tt 64 0))) (0, ?R) (Inr 62) (0, ?D)"
    using poll send_yields [of 5 0 0 0 ?R] send_yields [of 7 0 0 5] by (auto simp: pack_ui_table intro: yields_then)
  have tail: "yields running (py_bind (read_psums tt) (\<lambda>out. py_ret (BoardOk out))) (0, ?D) (BoardOk ?sums) (30, ?D)"
    by (rule yields_bind [OF read]) (rule yields_ret)
  let ?K = "py_bind (py_then (send tt CMD_START 0 0) (py_then (send tt CMD_NOP 0 0) (poll_done tt 64 0))) (\<lambda>polled.
      case polled of Inl failure \<Rightarrow> py_ret failure
      | Inr st \<Rightarrow> if st AND 8 = 0 then py_ret (DoneWithoutAllValid st) else py_bind (read_psums tt) (\<lambda>out. py_ret (BoardOk out)))"
  have rest: "yields running ?K (0, ?R) (BoardOk ?sums) (30, ?D)" by (rule yields_bind [OF run]) (use tail in simp)
  have "yields running (py_bind (py_then (send tt CMD_CLEAR 0 0) (py_then (send tt CMD_NOP 0 0) (py_then (send_weights tt [[w00, w01], [w10, w11]])
      (py_then (send_acts tt [a0, a1]) (py_then (send_seeds tt [s0, s1]) (read_status tt)))))) (\<lambda>pre.
       if pre AND 16 = 0 then py_ret (MissingStartReady pre) else if pre AND 64 \<noteq> 0 then py_ret (PrecondError pre) else ?K))
      (ui, c1) (BoardOk ?sums) (30, ?D)"
    by (rule yields_bind [OF load]) (use rest in simp)
  from yieldsD [OF this s1(2)] obtain s2 where "board_run_one tt [[w00, w01], [w10, w11]] [a0, a1] [s0, s1] s = (Inr (BoardOk ?sums), s2)" "running s2 (30, ?D)"
    using s1(1) unfolding py_bind_then board_run_one_def by (auto simp: py_then_run)
  then show ?thesis by (intro exI [of _ s2] exI [of _ ?D]) (simp add: shape_chip_of)
qed

lemma bring_up_ok:
  assumes "holds s r ui uio c" "chip_shape c"
  shows "fst (bring_up tt s) = Inr 3"
proof -
  obtain s1 where s1: "tt_write_ui tt 0xA5 s = (Inr (), s1)" "holds s1 r (word_of_int 0xA5) uio c" using write_ui [OF assms(1), of "0xA5"] by auto
  obtain s2 where s2: "tt_write_uio tt 0x5A s1 = (Inr (), s2)" "holds s2 r (word_of_int 0xA5) (word_of_int 0x5A) c" using write_uio [OF s1(2), of "0x5A"] by auto
  obtain s3 c3 uio3 where s3: "board_run_one tt [[1, 1], [1, 1]] [10, 20] [0, 0] s2 = (Inr (BoardOk [30, 30]), s3)" "holds s3 True 30 uio3 c3" "chip_shape c3"
    using board_run_one_ok [OF s2(2) assms(2), of 10 20 1 1 1 1 0 0] by (auto simp: to_signed16_def)
  obtain s4 c4 uio4 where s4: "board_run_one tt [[1, 0], [1, 1]] [3, 5] [0, 0] s3 = (Inr (BoardOk [-2, 8]), s4)" "holds s4 True 30 uio4 c4" "chip_shape c4"
    using board_run_one_ok [OF s3(2,3), of 3 5 1 0 1 1 0 0] by (auto simp: to_signed16_def)
  obtain s5 where s5: "board_run_one tt [[1, 0], [0, 1]] [4, -3] [11, -13] s4 = (Inr (BoardOk [18, -20]), s5)"
    using board_run_one_ok [OF s4(2,3), of 4 "-3" 1 0 0 1 11 "-13"] by (auto simp: to_signed16_def)
  show ?thesis using s1(1) s2(1) s3(1) s4(1) s5 by (simp add: bring_up_def BRING_UP_CASES_def dot_ref_value py_simps)
qed

end

text \<open>A board whose state is its pins and the chip.\<close>

type_synonym board_state = "bool \<times> 8 word \<times> 8 word \<times> chip"

definition pin_board :: "board_state tt_board" where
  "pin_board =
     \<lparr>tt_write_ui = (\<lambda>v (r, ui, uio, c). (Inr (), (r, word_of_int v, uio, c))),
      tt_write_uio = (\<lambda>v (r, ui, uio, c). (Inr (), (r, ui, word_of_int v, c))),
      tt_read_uo = (\<lambda>(r, ui, uio, c). (Inr (uint (uo_out ui c)), (r, ui, uio, c))),
      tt_clock_once = (\<lambda>(r, ui, uio, c). (Inr (), (r, ui, uio, clock r ui uio c))),
      tt_reset_project = (\<lambda>b (r, ui, uio, c). (Inr (), (\<not> b, ui, uio, c)))\<rparr>"

interpretation pin_board: tt_pins pin_board "\<lambda>s r ui uio c. s = (r, ui, uio, c)"
  by unfold_locales (auto simp: pin_board_def)

section \<open>The property\<close>

text \<open>C12: the bring-up program computes the sums.  On any board whose SDK drives the pins as documented, whatever the pins and the chip hold
  (a START left on the pins through the reset included), a case with weights 0 and 1 and signed bytes of activations ends with DONE after fewer than the
  64 polls and returns the sums of the reference as signed 16-bit numbers; and the whole program, which first writes a probe pattern that
  the chip reads as a START, passes its three cases.\<close>

theorem bring_up_computes:
  assumes "tt_pins tt holds" "holds s r ui uio c" "chip_shape c"
    and w: "\<forall>w \<in> {w00, w01, w10, w11}. w = 0 \<or> w = 1" and a: "\<forall>a \<in> {a0, a1}. -128 \<le> a \<and> a \<le> 127"
  shows "(\<exists>ps. dot_ref [[w00, w01], [w10, w11]] [a0, a1] [s0, s1] = Inr ps \<and>
      fst (board_run_one tt [[w00, w01], [w10, w11]] [a0, a1] [s0, s1] s) = Inr (BoardOk (map to_signed16 ps))) \<and>
    fst (bring_up tt s) = Inr 3"
proof -
  have bits: "odd w00 \<longleftrightarrow> w00 \<noteq> 0" "odd w01 \<longleftrightarrow> w01 \<noteq> 0" "odd w10 \<longleftrightarrow> w10 \<noteq> 0" "odd w11 \<longleftrightarrow> w11 \<noteq> 0" using w by auto
  from tt_pins.board_run_one_ok [OF assms(1-3), of a0 a1 w00 w01 w10 w11 s0 s1] tt_pins.bring_up_ok [OF assms(1-3)] a
  show ?thesis unfolding dot_ref_value bits by auto
qed

theorem bring_up_computes_witness:
  "(\<exists>ps. dot_ref [[1, 0], [0, 1]] [4, -3] [32760, -13] = Inr ps \<and>
      fst (board_run_one pin_board [[1, 0], [0, 1]] [4, -3] [32760, -13] (True, 5, 0, zero_chip)) = Inr (BoardOk (map to_signed16 ps))) \<and>
    fst (bring_up pin_board (True, 5, 0, zero_chip)) = Inr 3"
  by (rule bring_up_computes [OF pin_board.tt_pins_axioms, where r = True and ui = 5 and uio = 0 and c = zero_chip]) (simp_all add: zero_shape)

end
