(* ===== verification/Pynqctl.thy ===== *)
theory Pynqctl
  imports Client
begin

text \<open>
  The command line of the host, \<^verbatim>\<open>host/cli/pynqctl.py\<close>: the parsers of sizes, shapes and handles, a
  remote call on a connection of its own, the commands and the exit codes.  The network with the
  daemon behind it is a parameter: what connecting does, and what comes back for the bytes that
  a client sends.  \<open>daemon_net\<close> is the network whose peer is the connection handler of \<^verbatim>\<open>Server\<close>.
  The options of \<open>argparse\<close> are the arguments of the commands.
\<close>

section \<open>Integer literals: \<open>int(text, 0)\<close>\<close>

definition digit_val :: "char \<Rightarrow> int option" where
  "digit_val c =
     (let n = (of_char c :: nat) in
      if 48 \<le> n \<and> n \<le> 57 then Some (int n - 48)
      else if 97 \<le> n \<and> n \<le> 122 then Some (int n - 87)
      else if 65 \<le> n \<and> n \<le> 90 then Some (int n - 55)
      else None)"

fun parse_base :: "int \<Rightarrow> int \<Rightarrow> bool \<Rightarrow> string \<Rightarrow> int option" where
  "parse_base b acc after [] = (if after then Some acc else None)"
| "parse_base b acc after (c # cs) =
     (case digit_val c of
        Some d \<Rightarrow> if d < b then parse_base b (acc * b + d) True cs else None
      | None \<Rightarrow> if c = CHR ''_'' \<and> after then parse_base b acc False cs else None)"

text \<open>One underscore may stand between the prefix and the first digit.\<close>

fun skip_underscore :: "string \<Rightarrow> string" where
  "skip_underscore [] = []"
| "skip_underscore (c # cs) = (if c = CHR ''_'' then cs else c # cs)"

text \<open>A literal that starts with a zero and has no prefix must be zero.\<close>

definition zero_only :: "int option \<Rightarrow> int option" where
  "zero_only r = (case r of Some v \<Rightarrow> if v = 0 then Some 0 else None | None \<Rightarrow> None)"

definition parse_unsigned0 :: "string \<Rightarrow> int option" where
  "parse_unsigned0 s =
     (case s of
        [] \<Rightarrow> None
      | c # cs \<Rightarrow>
          if c \<noteq> CHR ''0'' then parse_base 10 0 False s
          else (case cs of
              [] \<Rightarrow> Some 0
            | p # ds \<Rightarrow>
                if p = CHR ''x'' \<or> p = CHR ''X'' then parse_base 16 0 False (skip_underscore ds)
                else if p = CHR ''o'' \<or> p = CHR ''O'' then parse_base 8 0 False (skip_underscore ds)
                else if p = CHR ''b'' \<or> p = CHR ''B'' then parse_base 2 0 False (skip_underscore ds)
                else zero_only (parse_base 10 0 False s)))"

definition parse_int0 :: "string \<Rightarrow> int res" where
  "parse_int0 text =
     (case (case strip text of
              [] \<Rightarrow> None
            | c # cs \<Rightarrow> if c = CHR ''-'' then map_option uminus (parse_unsigned0 cs)
                       else if c = CHR ''+'' then parse_unsigned0 cs
                       else parse_unsigned0 (c # cs)) of
        None \<Rightarrow> Inl ValueError
      | Some v \<Rightarrow> Inr v)"

section \<open>The parsers of arguments\<close>

definition SIZE_SUFFIXES :: "(string \<times> int) list" where
  "SIZE_SUFFIXES =
     [(''b'', 1), (''k'', 1024), (''kb'', 1024), (''kib'', 1024),
      (''m'', 1024 * 1024), (''mb'', 1024 * 1024), (''mib'', 1024 * 1024),
      (''g'', 1024 * 1024 * 1024), (''gb'', 1024 * 1024 * 1024), (''gib'', 1024 * 1024 * 1024)]"

definition is_alpha :: "char \<Rightarrow> bool" where
  "is_alpha c \<longleftrightarrow> (let n = (of_char c :: nat) in 97 \<le> n \<and> n \<le> 122 \<or> 65 \<le> n \<and> n \<le> 90)"

text \<open>The loop that looks for the start of the suffix, from the end of the text.\<close>

fun suffix_start :: "string \<Rightarrow> nat \<Rightarrow> nat" where
  "suffix_start v 0 = 0"
| "suffix_start v (Suc i) = (if is_alpha (v ! i) then suffix_start v i else Suc i)"

definition parse_size :: "string \<Rightarrow> int res" where
  "parse_size text =
     (let v = filter (\<lambda>c. c \<noteq> CHR ''_'') (map lower_char (strip text));
          split_at = suffix_start v (length v);
          number = take split_at v;
          suffix = (if drop split_at v = [] then ''b'' else drop split_at v)
      in if number = [] then Inl ArgumentTypeError
         else (case map_of SIZE_SUFFIXES suffix of
             None \<Rightarrow> Inl ArgumentTypeError
           | Some mult \<Rightarrow>
               (case parse_int0 number of
                  Inl e \<Rightarrow> Inl ArgumentTypeError
                | Inr n \<Rightarrow> if n * mult < 0 then Inl ArgumentTypeError else Inr (n * mult))))"

text \<open>\<open>text.split(",")\<close>: the pieces between the commas, empty ones included.\<close>

fun split_commas :: "string \<Rightarrow> string \<Rightarrow> string list" where
  "split_commas piece [] = [piece]"
| "split_commas piece (c # cs) = (if c = CHR '','' then piece # split_commas [] cs else split_commas (piece @ [c]) cs)"

definition parse_shape :: "string \<Rightarrow> int list res" where
  "parse_shape text =
     (if text = [] then Inr []
      else
        let dims = split_commas [] (map (\<lambda>c. if c = CHR ''x'' then CHR '','' else c) text)
        in (case mapR parse_int0 (filter (\<lambda>d. d \<noteq> []) dims) of
              Inl e \<Rightarrow> Inl ArgumentTypeError
            | Inr shape \<Rightarrow> if list_ex (\<lambda>d. d < 0) shape then Inl ArgumentTypeError else Inr shape))"

definition parse_handle :: "string \<Rightarrow> int res" where
  "parse_handle text =
     (case parse_int0 text of
        Inl e \<Rightarrow> Inl ArgumentTypeError
      | Inr h \<Rightarrow> if h < 0 then Inl ArgumentTypeError else Inr h)"

section \<open>A remote call\<close>

text \<open>
  A network: connecting succeeds or raises, and for the bytes that the client sends on its connection the
  peer answers with bytes, which arrive in pieces of some sizes.
\<close>

record 'n network =
  nt_connect :: "('n, unit) py"
  nt_exchange :: "byte list \<Rightarrow> 'n \<Rightarrow> byte list \<times> nat list \<times> 'n"

definition fresh_sock :: "byte list \<Rightarrow> nat list \<Rightarrow> sock" where
  "fresh_sock bs sizes = \<lparr>rx = bs, tx = [], chunk_sizes = sizes\<rparr>"

text \<open>
  A call sends before it receives, so what it sends is what it sends on a socket that delivers nothing.
\<close>

definition sent_by_call :: "pyenv \<Rightarrow> codec \<Rightarrow> string \<Rightarrow> byte list \<Rightarrow> dict \<Rightarrow> byte list" where
  "sent_by_call env cd op payload flds =
     tx (cl_sock (snd (rpc_call env cd op payload flds (new_client (fresh_sock [] [])))))"

definition check_result :: "dict \<times> byte list \<Rightarrow> (dict \<times> byte list) res" where
  "check_result = (\<lambda>(resp, response_payload).
     case obj_get resp ''result'' (JObj []) of
       JObj result \<Rightarrow> Inr (result, response_payload)
     | _ \<Rightarrow> Inl ProtocolError)"

definition exchange_call :: "'n network \<Rightarrow> pyenv \<Rightarrow> codec \<Rightarrow> string \<Rightarrow> byte list \<Rightarrow> dict \<Rightarrow> ('n, dict \<times> byte list) py" where
  "exchange_call net env cd op payload flds s =
     (case nt_exchange net (sent_by_call env cd op payload flds) s of
        (answer, sizes, s') \<Rightarrow>
          (fst (rpc_call env cd op payload flds (new_client (fresh_sock answer sizes))), s'))"

definition call_runtime :: "'n network \<Rightarrow> pyenv \<Rightarrow> codec \<Rightarrow> string \<Rightarrow> byte list \<Rightarrow> dict \<Rightarrow> ('n, dict \<times> byte list) py" where
  "call_runtime net env cd op payload flds =
     py_then (nt_connect net)
       (py_bind (exchange_call net env cd op payload flds) (\<lambda>resp. py_lift (check_result resp)))"

section \<open>The process\<close>

text \<open>
  What a command sees and changes: the network, files, standard input, and what it has written to standard
  output, JSON texts and raw bytes.
\<close>

datatype stdout_item = Printed json | Raw "byte list"

record 'n ctl =
  ct_net :: 'n
  ct_files :: "string \<Rightarrow> byte list option"
  ct_writable :: "string \<Rightarrow> bool"
  ct_stdin :: "byte list"
  ct_out :: "stdout_item list"

type_synonym 'n caller = "string \<Rightarrow> byte list \<Rightarrow> dict \<Rightarrow> ('n, dict \<times> byte list) py"

definition on_net :: "('n, 'a) py \<Rightarrow> ('n ctl, 'a) py" where
  "on_net m c = (case m (ct_net c) of (r, s) \<Rightarrow> (r, c\<lparr>ct_net := s\<rparr>))"

definition emit_out :: "stdout_item \<Rightarrow> ('n ctl, unit) py" where
  "emit_out x = py_mod (\<lambda>c. c\<lparr>ct_out := ct_out c @ [x]\<rparr>)"

definition print_json :: "dict \<Rightarrow> ('n ctl, unit) py" where
  "print_json d = emit_out (Printed (JObj d))"

definition read_payload :: "string \<Rightarrow> ('n ctl, byte list) py" where
  "read_payload path c =
     (if path = ''-'' then (Inr (ct_stdin c), c\<lparr>ct_stdin := []\<rparr>)
      else (case ct_files c path of None \<Rightarrow> (Inl FileNotFoundError, c) | Some bs \<Rightarrow> (Inr bs, c)))"

definition write_payload :: "string \<Rightarrow> byte list \<Rightarrow> ('n ctl, unit) py" where
  "write_payload path payload c =
     (if path = ''-'' then emit_out (Raw payload) c
      else if ct_writable c path then (Inr (), c\<lparr>ct_files := (ct_files c)(path \<mapsto> payload)\<rparr>)
      else (Inl OSError, c))"

definition deterministic_bytes :: "int \<Rightarrow> byte list" where
  "deterministic_bytes nbytes = map (\<lambda>index. word_of_int ((index * 17 + 3) mod 251)) (py_range nbytes)"

definition tensor_handle :: "dict \<Rightarrow> int res" where
  "tensor_handle alloc_result =
     (case obj_get alloc_result ''tensor'' JNull of
        JObj tensor \<Rightarrow> bindR (obj_index tensor ''handle'') py_int
      | _ \<Rightarrow> Inl ProtocolError)"

section \<open>The commands\<close>

definition cmd_hello :: "'n caller \<Rightarrow> ('n ctl, int) py" where
  "cmd_hello call =
     py_bind (on_net (call ''HELLO'' [] [])) (\<lambda>(result, _). py_then (print_json result) (py_ret 0))"

definition cmd_memory :: "'n caller \<Rightarrow> ('n ctl, int) py" where
  "cmd_memory call =
     py_bind (on_net (call ''MEMORY'' [] [])) (\<lambda>(result, _). py_then (print_json result) (py_ret 0))"

definition cmd_alloc :: "'n caller \<Rightarrow> int \<Rightarrow> int list \<Rightarrow> string \<Rightarrow> string \<Rightarrow> string \<Rightarrow> int \<Rightarrow> ('n ctl, int) py" where
  "cmd_alloc call nbytes shape dtype usage layout alignment =
     py_bind (on_net (call ''ALLOC_TENSOR'' []
       [(''nbytes'', JInt nbytes), (''shape'', JList (map JInt shape)), (''dtype'', JStr dtype),
        (''usage'', JStr usage), (''layout'', JStr layout), (''alignment'', JInt alignment)]))
       (\<lambda>(result, _). py_then (print_json result) (py_ret 0))"

definition cmd_free :: "'n caller \<Rightarrow> int \<Rightarrow> ('n ctl, int) py" where
  "cmd_free call h =
     py_bind (on_net (call ''FREE_TENSOR'' [] [(''handle'', JInt h)])) (\<lambda>(result, _). py_then (print_json result) (py_ret 0))"

definition cmd_upload :: "'n caller \<Rightarrow> int \<Rightarrow> string \<Rightarrow> int \<Rightarrow> ('n ctl, int) py" where
  "cmd_upload call h path offset =
     py_bind (read_payload path) (\<lambda>data.
     py_bind (on_net (call ''UPLOAD_TENSOR'' data [(''handle'', JInt h), (''offset'', JInt offset)])) (\<lambda>(result, _).
     py_then (print_json (obj_merge result [(''path'', JStr path), (''bytes'', JInt (int (length data)))])) (py_ret 0)))"

definition cmd_download :: "'n caller \<Rightarrow> int \<Rightarrow> string \<Rightarrow> int \<Rightarrow> int \<Rightarrow> ('n ctl, int) py" where
  "cmd_download call h path nbytes offset =
     py_bind (on_net (call ''DOWNLOAD_TENSOR'' [] [(''handle'', JInt h), (''offset'', JInt offset), (''size'', JInt nbytes)]))
       (\<lambda>(result, payload).
     py_then (write_payload path payload)
       (if path = ''-'' then py_ret 0
        else py_then (print_json (obj_merge result [(''path'', JStr path), (''bytes'', JInt (int (length payload)))])) (py_ret 0)))"

text \<open>The request of an allocation that the two smoke tests make.\<close>

definition smoke_alloc :: "int \<Rightarrow> string \<Rightarrow> dict" where
  "smoke_alloc nbytes usage =
     [(''nbytes'', JInt nbytes), (''shape'', JList [JInt nbytes]), (''dtype'', JStr ''u8''), (''usage'', JStr usage),
      (''layout'', JStr ''raw'')]"

text \<open>The \<open>try\<close> block of \<open>cmd_smoke\<close>.\<close>

definition smoke_transfer :: "'n caller \<Rightarrow> int \<Rightarrow> byte list \<Rightarrow> int \<Rightarrow> ('n ctl, dict \<times> dict) py" where
  "smoke_transfer call nbytes source h =
     py_bind (on_net (call ''UPLOAD_TENSOR'' source [(''handle'', JInt h), (''offset'', JInt 0)])) (\<lambda>(upload_result, _).
     py_bind (on_net (call ''DOWNLOAD_TENSOR'' [] [(''handle'', JInt h), (''offset'', JInt 0), (''size'', JInt nbytes)]))
       (\<lambda>(download_result, payload).
     if payload \<noteq> source then py_raise CliError else py_ret (upload_result, download_result)))"

text \<open>
  \<open>try: body finally: cleanup\<close>, where the code after the statement uses what both computed.
\<close>

definition py_try_finally :: "('s, 'a) py \<Rightarrow> ('s, 'b) py \<Rightarrow> ('s, 'a \<times> 'b) py" where
  "py_try_finally body cleanup s =
     (case body s of (r, s1) \<Rightarrow> (case cleanup s1 of
        (Inl e, s2) \<Rightarrow> (Inl e, s2)
      | (Inr y, s2) \<Rightarrow> (case r of Inl e \<Rightarrow> (Inl e, s2) | Inr x \<Rightarrow> (Inr (x, y), s2))))"

definition ctl_smoke :: "'n caller \<Rightarrow> int \<Rightarrow> ('n ctl, int) py" where
  "ctl_smoke call nbytes =
     (let source = deterministic_bytes nbytes in
      py_bind (on_net (call ''ALLOC_TENSOR'' [] (smoke_alloc nbytes ''smoke''))) (\<lambda>(alloc_result, _).
      py_bind (py_lift (tensor_handle alloc_result)) (\<lambda>h.
      py_bind (py_try_finally (smoke_transfer call nbytes source h)
        (on_net (call ''FREE_TENSOR'' [] [(''handle'', JInt h)]))) (\<lambda>((upload_result, download_result), (free_result, _)).
      py_then (print_json
        [(''ok'', JBool True), (''nbytes'', JInt nbytes), (''handle'', JInt h), (''upload'', JObj upload_result),
         (''download'', JObj download_result), (''free'', JObj free_result)])
        (py_ret 0)))))"

text \<open>
  The \<open>try\<close> block of \<open>cmd_graph_copy_smoke\<close>.  It returns the handles that the \<open>finally\<close> clause frees along with
  its outcome: the second allocation may fail.
\<close>

definition graph_copy_transfer :: "'n caller \<Rightarrow> int \<Rightarrow> byte list \<Rightarrow> int \<Rightarrow> int \<Rightarrow> ('n ctl, dict \<times> dict \<times> dict) py" where
  "graph_copy_transfer call nbytes source src_handle dst_handle =
     py_bind (on_net (call ''UPLOAD_TENSOR'' source [(''handle'', JInt src_handle), (''offset'', JInt 0)])) (\<lambda>(upload_result, _).
     py_bind (on_net (call ''RUN_GRAPH'' []
       [(''graph_version'', JInt 1),
        (''ops'', JList [JObj [(''op'', JStr ''COPY''), (''src'', JInt src_handle), (''dst'', JInt dst_handle), (''nbytes'', JInt nbytes)]]),
        (''outputs'', JList [JInt dst_handle])])) (\<lambda>(graph_result, _).
     py_bind (on_net (call ''DOWNLOAD_TENSOR'' [] [(''handle'', JInt dst_handle), (''offset'', JInt 0), (''size'', JInt nbytes)]))
       (\<lambda>(download_result, payload).
     if payload \<noteq> source then py_raise CliError else py_ret (upload_result, graph_result, download_result))))"

definition graph_copy_try :: "'n caller \<Rightarrow> int \<Rightarrow> byte list \<Rightarrow> int \<Rightarrow> 'n ctl \<Rightarrow> (dict \<times> dict \<times> dict \<times> dict) res \<times> int list \<times> 'n ctl" where
  "graph_copy_try call nbytes source src_handle c =
     (case py_bind (on_net (call ''ALLOC_TENSOR'' [] (smoke_alloc nbytes ''graph-copy-dst'')))
             (\<lambda>(dst_result, _). py_bind (py_lift (tensor_handle dst_result)) (\<lambda>h. py_ret (dst_result, h))) c of
        (Inl e, c1) \<Rightarrow> (Inl e, [src_handle], c1)
      | (Inr (dst_result, dst_handle), c1) \<Rightarrow>
          (case graph_copy_transfer call nbytes source src_handle dst_handle c1 of
             (r, c2) \<Rightarrow> (bindR r (\<lambda>res. Inr (dst_result, res)), [src_handle, dst_handle], c2)))"

fun free_all :: "'n caller \<Rightarrow> int list \<Rightarrow> ('n ctl, dict list) py" where
  "free_all call [] = py_ret []"
| "free_all call (h # hs) =
     py_bind (on_net (call ''FREE_TENSOR'' [] [(''handle'', JInt h)])) (\<lambda>(result, _).
     py_bind (free_all call hs) (\<lambda>results. py_ret (result # results)))"

definition graph_copy_guarded :: "'n caller \<Rightarrow> int \<Rightarrow> byte list \<Rightarrow> int \<Rightarrow> ('n ctl, (dict \<times> dict \<times> dict \<times> dict) \<times> dict list) py" where
  "graph_copy_guarded call nbytes source src_handle c =
     (case graph_copy_try call nbytes source src_handle c of
        (r, handles, c1) \<Rightarrow> py_try_finally (\<lambda>c. (r, c)) (free_all call (rev handles)) c1)"

definition cmd_graph_copy_smoke :: "'n caller \<Rightarrow> int \<Rightarrow> ('n ctl, int) py" where
  "cmd_graph_copy_smoke call nbytes =
     (let source = deterministic_bytes nbytes in
      py_bind (on_net (call ''ALLOC_TENSOR'' [] (smoke_alloc nbytes ''graph-copy-src''))) (\<lambda>(src_result, _).
      py_bind (py_lift (tensor_handle src_result)) (\<lambda>src_handle.
      py_bind (graph_copy_guarded call nbytes source src_handle)
        (\<lambda>((dst_result, upload_result, graph_result, download_result), free_results).
      py_then (print_json
        [(''ok'', JBool True), (''nbytes'', JInt nbytes), (''source'', JObj src_result), (''destination'', JObj dst_result),
         (''upload'', JObj upload_result), (''graph'', JObj graph_result), (''download'', JObj download_result),
         (''free'', JList (map JObj free_results))])
        (py_ret 0)))))"

section \<open>Exit codes\<close>

datatype command =
    Hello
  | Memory
  | Alloc int "int list" string string string int
  | Upload int string int
  | Download int string int int
  | Free int
  | Smoke int
  | GraphCopySmoke int

fun run_command :: "'n caller \<Rightarrow> command \<Rightarrow> ('n ctl, int) py" where
  "run_command call Hello = cmd_hello call"
| "run_command call Memory = cmd_memory call"
| "run_command call (Alloc n sh dt us ly al) = cmd_alloc call n sh dt us ly al"
| "run_command call (Upload h path off) = cmd_upload call h path off"
| "run_command call (Download h path n off) = cmd_download call h path n off"
| "run_command call (Free h) = cmd_free call h"
| "run_command call (Smoke n) = ctl_smoke call n"
| "run_command call (GraphCopySmoke n) = cmd_graph_copy_smoke call n"

text \<open>\<open>FileNotFoundError\<close> is a subclass of \<open>OSError\<close>; \<open>EOFError\<close> and \<open>struct.error\<close> are not.\<close>

definition exit_code :: "pyerror \<Rightarrow> int option" where
  "exit_code e =
     (case e of
        RpcRemoteError code \<Rightarrow> Some 2
      | _ \<Rightarrow> if e = CliError \<or> e = OSError \<or> e = FileNotFoundError \<or> e = ProtocolError then Some 1 else None)"

definition ctl_main :: "'n caller \<Rightarrow> command \<Rightarrow> ('n ctl, int) py" where
  "ctl_main call cmd =
     py_catch (run_command call cmd) (\<lambda>e. case exit_code e of None \<Rightarrow> py_raise e | Some n \<Rightarrow> py_ret n)"

end
