(* ===== verification/PynqctlSpec.thy ===== *)
theory PynqctlSpec
  imports Pynqctl DaemonProps
begin

text \<open>
  What the commands of \<^verbatim>\<open>pynqctl\<close> do over a network with the daemon behind it.  The locale \<open>remote_runtime\<close> is the
  contract of \<open>call_runtime\<close>: a request that the link carries is served once on the state behind the link and its outcome
  comes back.  It is interpreted for the network whose peer is the connection handler.  The lemmas
  on the four memory requests and on a graph of one \<open>COPY\<close> give the outcome of the smoke tests.
\<close>

section \<open>The network with the daemon\<close>

definition daemon_net :: "pyenv \<Rightarrow> codec \<Rightarrow> ('d, 'p) registry \<Rightarrow> string \<Rightarrow> nat list \<Rightarrow> nat list \<Rightarrow> 'd world network" where
  "daemon_net env cd reg ov up down =
     \<lparr>nt_connect = py_ret (),
      nt_exchange = (\<lambda>bs w. case handle env cd reg ov w (fresh_sock bs up) of (_, w', s) \<Rightarrow> (tx s, down, w'))\<rparr>"

text \<open>What the caller sees of the outcome of a request.\<close>

definition client_view :: "(dict \<times> byte list) res \<Rightarrow> (dict \<times> byte list) res" where
  "client_view outcome = (case outcome of Inl e \<Rightarrow> Inl (RpcRemoteError (error_code e)) | Inr x \<Rightarrow> Inr x)"

lemma client_view_simps [simp]:
  "client_view (Inl e) = Inl (RpcRemoteError (error_code e))" "client_view (Inr x) = Inr x"
  by (simp_all add: client_view_def)

text \<open>The codec and the length fields carry a request and its response.\<close>

definition carried :: "pyenv \<Rightarrow> codec \<Rightarrow> ('d, 'p) registry \<Rightarrow> string \<Rightarrow> dict \<Rightarrow> byte list \<Rightarrow> 'd world \<Rightarrow> bool" where
  "carried env cd reg ov md pl w \<longleftrightarrow> request_ok cd (md, pl) (md, pl) \<and>
     (let resp = response env (JInt 1) (fst (dispatch env reg ov md pl w)) in request_ok cd resp resp)"

locale remote_runtime =
  fixes call :: "'n caller"
    and served :: "dict \<Rightarrow> byte list \<Rightarrow> ('n, dict \<times> byte list) py"
    and link_ok :: "dict \<Rightarrow> byte list \<Rightarrow> 'n \<Rightarrow> bool"
  assumes call_law: "map_of flds ''id'' = None \<Longrightarrow> link_ok (call_metadata 1 op flds) pl s \<Longrightarrow>
    served (call_metadata 1 op flds) pl s = (outcome, s') \<Longrightarrow> call op pl flds s = (client_view outcome, s')"

lemma sent_by_call_frame:
  assumes "fits cd (call_metadata 1 op flds, pl)"
  shows "sent_by_call env cd op pl flds = frame cd (call_metadata 1 op flds) pl"
proof -
  let ?md = "call_metadata 1 op flds"
  let ?s = "(fresh_sock [] [])\<lparr>tx := frame cd ?md pl\<rparr>"
  have send: "send_message cd ?md pl (fresh_sock [] []) = (Inr (), ?s)"
    using assms send_message_frame [of cd ?md pl "fresh_sock [] []"] by (simp add: fits_def fresh_sock_def)
  have "rx ?s = []" by (simp add: fresh_sock_def)
  from recv_message_eof [OF this, of cd] obtain cs where "recv_message cd ?s = (Inl EOFError, ?s\<lparr>rx := [], chunk_sizes := cs\<rparr>)" by blast
  with send show ?thesis by (simp add: sent_by_call_def rpc_call_def new_client_def py_simps on_sock_def)
qed

lemma call_runtime_daemon:
  assumes "map_of flds ''id'' = None" "carried env cd reg ov (call_metadata 1 op flds) pl w"
    and "dispatch env reg ov (call_metadata 1 op flds) pl w = (outcome, w')"
  shows "call_runtime (daemon_net env cd reg ov up down) env cd op pl flds w = (client_view outcome, w')"
proof -
  let ?md = "call_metadata 1 op flds"
  let ?srv = "fresh_sock (frame cd ?md pl) up"
  have rq: "request_ok cd (?md, pl) (?md, pl)" and rs: "request_ok cd (response env (JInt 1) outcome) (response env (JInt 1) outcome)"
    using assms(2,3) by (auto simp: carried_def Let_def)
  have sent: "sent_by_call env cd op pl flds = frame cd ?md pl"
    using rq by (intro sent_by_call_frame) (auto simp: request_ok_def fits_def MAX_JSON_BYTES_def)
  from call_served [OF refl assms(1) rq assms(3) refl rs, of ?srv] obtain s' where
    h: "handle env cd reg ov w ?srv = (Inr (), w', s')"
    and c: "\<And>c. cl_next_id c = 1 \<Longrightarrow> rx (cl_sock c) = tx s' \<Longrightarrow> fst (rpc_call env cd op pl flds c) =
      (case outcome of Inl e \<Rightarrow> Inl (RpcRemoteError (error_code e)) | Inr (result, bs) \<Rightarrow> Inr (fst (response env (JInt 1) outcome), bs))"
    by (fastforce simp: fresh_sock_def)
  have "fst (rpc_call env cd op pl flds (new_client (fresh_sock (tx s') down))) =
      (case outcome of Inl e \<Rightarrow> Inl (RpcRemoteError (error_code e)) | Inr (result, bs) \<Rightarrow> Inr (fst (response env (JInt 1) outcome), bs))"
    by (rule c) (simp_all add: new_client_def fresh_sock_def)
  with h sent show ?thesis
    by (cases outcome) (auto simp: call_runtime_def exchange_call_def daemon_net_def py_simps check_result_def response_def obj_get_def)
qed

interpretation daemon: remote_runtime "call_runtime (daemon_net env cd reg ov up down) env cd" "dispatch env reg ov" "carried env cd reg ov"
  by unfold_locales (rule call_runtime_daemon)

section \<open>The commands over the contract\<close>

text \<open>The requests of the smoke tests.\<close>

type_synonym ctl_request = "string \<times> byte list \<times> dict"

definition rq_alloc :: "int \<Rightarrow> string \<Rightarrow> ctl_request" where
  "rq_alloc n usage = (''ALLOC_TENSOR'', [], smoke_alloc n usage)"

definition rq_upload :: "int \<Rightarrow> byte list \<Rightarrow> ctl_request" where
  "rq_upload h bs = (''UPLOAD_TENSOR'', bs, [(''handle'', JInt h), (''offset'', JInt 0)])"

definition rq_download :: "int \<Rightarrow> int \<Rightarrow> ctl_request" where
  "rq_download h n = (''DOWNLOAD_TENSOR'', [], [(''handle'', JInt h), (''offset'', JInt 0), (''size'', JInt n)])"

definition rq_free :: "int \<Rightarrow> ctl_request" where
  "rq_free h = (''FREE_TENSOR'', [], [(''handle'', JInt h)])"

definition rq_copy :: "int \<Rightarrow> int \<Rightarrow> int \<Rightarrow> ctl_request" where
  "rq_copy src dst n = (''RUN_GRAPH'', [],
     [(''graph_version'', JInt 1),
      (''ops'', JList [JObj [(''op'', JStr ''COPY''), (''src'', JInt src), (''dst'', JInt dst), (''nbytes'', JInt n)]]),
      (''outputs'', JList [JInt dst])])"

lemmas rq_defs = rq_alloc_def rq_upload_def rq_download_def rq_free_def rq_copy_def smoke_alloc_def

text \<open>
  A request that the link carries, with its outcome; a list of requests, each on a connection of its own, none of
  which fails.
\<close>

definition answers :: "(dict \<Rightarrow> byte list \<Rightarrow> ('n, dict \<times> byte list) py) \<Rightarrow> (dict \<Rightarrow> byte list \<Rightarrow> 'n \<Rightarrow> bool) \<Rightarrow>
    ctl_request \<Rightarrow> 'n \<Rightarrow> (dict \<times> byte list) res \<Rightarrow> 'n \<Rightarrow> bool" where
  "answers served link_ok rq s outcome s' \<longleftrightarrow> (case rq of (op, pl, flds) \<Rightarrow> map_of flds ''id'' = None \<and>
     link_ok (call_metadata 1 op flds) pl s \<and> served (call_metadata 1 op flds) pl s = (outcome, s'))"

fun session :: "(dict \<Rightarrow> byte list \<Rightarrow> ('n, dict \<times> byte list) py) \<Rightarrow> (dict \<Rightarrow> byte list \<Rightarrow> 'n \<Rightarrow> bool) \<Rightarrow>
    ctl_request list \<Rightarrow> 'n \<Rightarrow> (dict \<times> byte list) list \<Rightarrow> 'n \<Rightarrow> bool" where
  "session served link_ok [] s rs s' = (rs = [] \<and> s' = s)"
| "session served link_ok (rq # reqs) s [] s' = False"
| "session served link_ok (rq # reqs) s (r # rs) s' = (\<exists>s1. answers served link_ok rq s (Inr r) s1 \<and> session served link_ok reqs s1 rs s')"

context remote_runtime
begin

lemma on_net_call:
  "answers served link_ok (op, pl, flds) s outcome s' \<Longrightarrow> on_net (call op pl flds) (c\<lparr>ct_net := s\<rparr>) = (client_view outcome, c\<lparr>ct_net := s'\<rparr>)"
  using call_law [of flds op pl s outcome s'] by (auto simp: answers_def on_net_def)

lemma smoke_refused:
  assumes "answers served link_ok (rq_alloc n ''smoke'') s (Inl e) s'"
  shows "ctl_main call (Smoke n) (c\<lparr>ct_net := s\<rparr>) = (Inr 2, c\<lparr>ct_net := s'\<rparr>)"
  using on_net_call [OF assms [unfolded rq_alloc_def]]
  by (simp add: ctl_main_def ctl_smoke_def Let_def py_simps exit_code_def)

lemma smoke_completes:
  assumes "session served link_ok [rq_alloc n ''smoke''] s [(r0, p0)] s1" "tensor_handle r0 = Inr h"
    and "session served link_ok [rq_upload h (deterministic_bytes n), rq_download h n, rq_free h] s1
      [(r1, p1), (r2, deterministic_bytes n), (r3, p3)] s2"
  shows "ctl_main call (Smoke n) (c\<lparr>ct_net := s\<rparr>) = (Inr 0, c\<lparr>ct_net := s2, ct_out := ct_out c @ [Printed (JObj
    [(''ok'', JBool True), (''nbytes'', JInt n), (''handle'', JInt h), (''upload'', JObj r1), (''download'', JObj r2), (''free'', JObj r3)])]\<rparr>)"
  using assms
  by (auto simp: ctl_main_def ctl_smoke_def smoke_transfer_def Let_def py_simps rq_defs py_try_finally_def print_json_def emit_out_def
      dest!: on_net_call [where c = c])

text \<open>Whatever comes back for the transfers, the tensor is freed: the last request is the free of its handle.\<close>

lemma smoke_always_frees:
  assumes "session served link_ok [rq_alloc n ''smoke''] s [(r0, p0)] s1" "tensor_handle r0 = Inr h"
    and "answers served link_ok (rq_upload h (deterministic_bytes n)) s1 (Inl e) s2" "answers served link_ok (rq_free h) s2 outcome s3"
  shows "ctl_main call (Smoke n) (c\<lparr>ct_net := s\<rparr>) = (Inr 2, c\<lparr>ct_net := s3\<rparr>)"
  using assms
  by (auto simp: ctl_main_def ctl_smoke_def smoke_transfer_def Let_def py_simps rq_defs py_try_finally_def exit_code_def
      client_view_def split: sum.splits dest!: on_net_call [where c = c])

text \<open>The same for the copy of a tensor by a graph.\<close>

lemma graph_copy_refused:
  assumes "answers served link_ok (rq_alloc n ''graph-copy-src'') s (Inl e) s'"
  shows "ctl_main call (GraphCopySmoke n) (c\<lparr>ct_net := s\<rparr>) = (Inr 2, c\<lparr>ct_net := s'\<rparr>)"
  using on_net_call [OF assms [unfolded rq_alloc_def]]
  by (simp add: ctl_main_def cmd_graph_copy_smoke_def Let_def py_simps exit_code_def)

lemma graph_copy_half:
  assumes "session served link_ok [rq_alloc n ''graph-copy-src''] s [(r0, p0)] s1" "tensor_handle r0 = Inr h"
    and "answers served link_ok (rq_alloc n ''graph-copy-dst'') s1 (Inl e) s2" "session served link_ok [rq_free h] s2 [r] s3"
  shows "ctl_main call (GraphCopySmoke n) (c\<lparr>ct_net := s\<rparr>) = (Inr 2, c\<lparr>ct_net := s3\<rparr>)"
  using assms
  by (cases r) (auto simp: ctl_main_def cmd_graph_copy_smoke_def graph_copy_guarded_def graph_copy_try_def Let_def py_simps rq_defs py_try_finally_def
      exit_code_def dest!: on_net_call [where c = c])

lemma graph_copy_completes:
  assumes "session served link_ok [rq_alloc n ''graph-copy-src''] s [(r0, p0)] s1" "tensor_handle r0 = Inr h"
    and "session served link_ok [rq_alloc n ''graph-copy-dst''] s1 [(r1, p1)] s2" "tensor_handle r1 = Inr k"
    and "session served link_ok [rq_upload h (deterministic_bytes n), rq_copy h k n, rq_download k n, rq_free k, rq_free h] s2
      [(r2, p2), (r3, p3), (r4, deterministic_bytes n), (r5, p5), (r6, p6)] s3"
  shows "ctl_main call (GraphCopySmoke n) (c\<lparr>ct_net := s\<rparr>) = (Inr 0, c\<lparr>ct_net := s3, ct_out := ct_out c @ [Printed (JObj
    [(''ok'', JBool True), (''nbytes'', JInt n), (''source'', JObj r0), (''destination'', JObj r1), (''upload'', JObj r2),
     (''graph'', JObj r3), (''download'', JObj r4), (''free'', JList [JObj r5, JObj r6])])]\<rparr>)"
  using assms
  by (auto simp: ctl_main_def cmd_graph_copy_smoke_def graph_copy_guarded_def graph_copy_try_def graph_copy_transfer_def Let_def py_simps
      rq_defs py_try_finally_def print_json_def emit_out_def dest!: on_net_call [where c = c])

end

section \<open>The memory requests\<close>

text \<open>\<open>a'\<close> is \<open>a\<close> but for the bytes of no tensor and the counter of handles.\<close>

definition heap_restored :: "allocator \<Rightarrow> allocator \<Rightarrow> bool" where
  "heap_restored a a' \<longleftrightarrow> alloc_inv a' \<and> al_records a' = al_records a \<and> al_free a' = al_free a \<and> contents a' = contents a"

definition slabs_sim :: "allocator \<Rightarrow> allocator \<Rightarrow> bool" where
  "slabs_sim a b \<longleftrightarrow> list_all2 slab_similar (al_slabs a) (al_slabs b)"

lemma slabs_sim_refl: "al_slabs b = al_slabs a \<Longrightarrow> slabs_sim a b"
  by (simp add: slabs_sim_def list_all2_same)

lemma slabs_sim_trans: "slabs_sim a b \<Longrightarrow> slabs_sim b c \<Longrightarrow> slabs_sim a c"
  unfolding slabs_sim_def by (rule list_all2_trans [OF slab_similar_trans])

lemma free_lists_by_records:
  assumes "alloc_inv a" "alloc_inv b" "slabs_sim a b" "al_records b = al_records a"
  shows "al_free b = al_free a"
proof -
  let ?c = "a\<lparr>al_slabs := al_slabs b\<rparr>"
  have "same_shape a ?c" using assms(3) by (simp add: same_shape_def slabs_sim_def)
  then have "alloc_inv ?c" using assms(1) by (rule same_shape_inv)
  from free_lists_determined [OF assms(2) this] assms(4) show ?thesis by simp
qed

lemmas request_defs = call_metadata_def obj_merge_def obj_set_def dispatch_def handle_op_def get_describe_def describe_def
  get_record_def required_int_def obj_get_def on_alloc_def py_simps Let_def

definition smoke_allocate :: "int \<Rightarrow> string \<Rightarrow> (allocator, tensor_record) py" where
  "smoke_allocate n usage = allocate n [n] ''u8'' usage ''raw'' (Some 64)"

lemma served_alloc_error:
  assumes "alloc_inv (w_alloc w)" "0 \<le> n" "smoke_allocate n us (w_alloc w) = (Inl e, a')"
  shows "dispatch env reg ov (call_metadata 1 ''ALLOC_TENSOR'' (smoke_alloc n us)) [] w = (Inl e, w)"
  using allocate_error_unchanged [OF assms(1)] assms(2,3)
  by (simp add: request_defs smoke_alloc_def handle_alloc_def optional_list_def smoke_allocate_def)

lemma smoke_allocated:
  assumes "alloc_inv a" "smoke_allocate n us a = (Inr r, a')"
  shows "tr_handle r = al_next_handle a" "al_records a' = al_records a @ [(al_next_handle a, r)]" "al_slabs a' = al_slabs a"
    "alloc_inv a'" "map_of (al_records a) (al_next_handle a) = None" "al_next_handle a' = al_next_handle a + 1"
    "\<exists>d. int (length d) = n \<and> contents a' = (contents a)(al_next_handle a \<mapsto> d)"
proof -
  note run = assms(2) [unfolded smoke_allocate_def]
  from allocate_cases [OF assms(1) run] obtain es where al: "allocated n (effective_alignment a (Some 64)) es r a a'" by auto
  then show h: "tr_handle r = al_next_handle a" "al_records a' = al_records a @ [(al_next_handle a, r)]" "al_slabs a' = al_slabs a"
    "al_next_handle a' = al_next_handle a + 1" by (auto simp: allocated_def)
  show "alloc_inv a'" using allocate_inv [OF assms(1) run] .
  show "map_of (al_records a) (al_next_handle a) = None" using fresh_handle [OF assms(1)] by (simp add: map_of_eq_None_iff)
  show "\<exists>d. int (length d) = n \<and> contents a' = (contents a)(al_next_handle a \<mapsto> d)"
    using allocate_contents(2) [OF assms(1) run] h(1) by simp
qed

lemma served_alloc:
  assumes "alloc_inv (w_alloc w)" "0 \<le> n" "smoke_allocate n us (w_alloc w) = (Inr r, a')"
  shows "dispatch env reg ov (call_metadata 1 ''ALLOC_TENSOR'' (smoke_alloc n us)) [] w =
    (Inr ([(F_TENSOR, JObj (describe_record r))], []), w\<lparr>w_alloc := a'\<rparr>)"
proof -
  have "map_of (al_records a') (tr_handle r) = Some r"
    using smoke_allocated [OF assms(1,3)] by (simp add: map_add_def)
  then show ?thesis using assms(2,3)
    by (simp add: request_defs smoke_alloc_def handle_alloc_def optional_list_def smoke_allocate_def)
qed

lemma describe_record_handle: "tensor_handle [(F_TENSOR, JObj (describe_record r))] = Inr (tr_handle r)"
  by (simp add: tensor_handle_def describe_record_def obj_get_def obj_index_def)

lemma served_upload:
  assumes "alloc_inv (w_alloc w)" "contents (w_alloc w) h = Some d" "length bs = length d" "0 \<le> h"
  shows "\<exists>a' res. dispatch env reg ov (call_metadata 1 ''UPLOAD_TENSOR'' [(''handle'', JInt h), (''offset'', JInt 0)]) bs w =
      (Inr (res, []), w\<lparr>w_alloc := a'\<rparr>) \<and> same_shape (w_alloc w) a' \<and> contents a' = (contents (w_alloc w))(h \<mapsto> bs)"
proof -
  from assms(2) obtain r where r: "map_of (al_records (w_alloc w)) h = Some r" by (auto simp: contents_Some)
  have all: "slice_assign d 0 (int (length bs)) bs = bs" using assms(3) by (simp add: slice_assign_in)
  from write_tensor_ok [OF assms(1,2), of 0 bs True] assms(3) all obtain a' where
    a': "write_tensor h 0 bs True (w_alloc w) = (Inr (), a')" "same_shape (w_alloc w) a'" "contents a' = (contents (w_alloc w))(h \<mapsto> bs)" by auto
  have "map_of (al_records a') h = Some r" using r a'(2) by (simp add: same_shape_def)
  with a' assms(4) show ?thesis by (intro exI [of _ a']) (simp add: request_defs handle_upload_def)
qed

lemma served_download:
  assumes "alloc_inv (w_alloc w)" "contents (w_alloc w) h = Some d" "int (length d) = n" "0 \<le> h"
  shows "\<exists>a' res. dispatch env reg ov (call_metadata 1 ''DOWNLOAD_TENSOR'' [(''handle'', JInt h), (''offset'', JInt 0), (''size'', JInt n)]) [] w =
      (Inr (res, d), w\<lparr>w_alloc := a'\<rparr>) \<and> same_shape (w_alloc w) a' \<and> contents a' = contents (w_alloc w)"
proof -
  from assms(2) obtain r where r: "map_of (al_records (w_alloc w)) h = Some r" by (auto simp: contents_Some)
  have all: "py_slice d 0 n = d" using assms(3) by (auto simp: py_slice_in)
  from read_tensor_ok [OF assms(1,2), of 0 n True] assms(3) all obtain a' where
    a': "read_tensor h 0 n True (w_alloc w) = (Inr d, a')" "same_shape (w_alloc w) a'" "contents a' = contents (w_alloc w)" by auto
  have "map_of (al_records a') h = Some r" using r a'(2) by (simp add: same_shape_def)
  with a' assms(3,4) show ?thesis by (intro exI [of _ a']) (auto simp: request_defs handle_download_def)
qed

lemma served_free:
  assumes "alloc_inv (w_alloc w)" "map_of (al_records (w_alloc w)) h = Some r" "0 \<le> h"
  shows "\<exists>a' res. dispatch env reg ov (call_metadata 1 ''FREE_TENSOR'' [(''handle'', JInt h)]) [] w = (Inr (res, []), w\<lparr>w_alloc := a'\<rparr>) \<and>
      alloc_inv a' \<and> al_slabs a' = al_slabs (w_alloc w) \<and> al_records a' = AList.delete h (al_records (w_alloc w)) \<and>
      contents a' = (contents (w_alloc w))(h := None)"
proof -
  have g: "get_record (w_alloc w) h = Inr r" using assms(2) by (simp add: get_record_def)
  obtain res a' where run: "free_tensor h (w_alloc w) = (res, a')" by (cases "free_tensor h (w_alloc w)")
  note sp = free_tensor_spec [OF assms(1) g run]
  show ?thesis using sp(2-4) run sp(1) free_tensor_contents(1) [OF assms(1), of h r a'] assms(3)
    by (intro exI [of _ a']) (simp add: request_defs handle_free_def)
qed

section \<open>A heap with the tensors of the test\<close>

text \<open>\<open>a'\<close> is \<open>a\<close> with the tensors \<open>rs\<close> more; what these hold is free.\<close>

definition extended :: "allocator \<Rightarrow> (int \<times> tensor_record) list \<Rightarrow> allocator \<Rightarrow> bool" where
  "extended a rs a' \<longleftrightarrow> alloc_inv a' \<and> slabs_sim a a' \<and> al_records a' = al_records a @ rs \<and>
     (\<forall>h. h \<notin> fst ` set rs \<longrightarrow> contents a' h = contents a h)"

lemma extended_start: "alloc_inv a \<Longrightarrow> extended a [] a"
  by (simp add: extended_def slabs_sim_refl)

lemma extended_end: "alloc_inv a \<Longrightarrow> extended a [] a' \<Longrightarrow> heap_restored a a'"
  by (auto simp: extended_def heap_restored_def free_lists_by_records)

lemma extended_alloc:
  assumes "extended a rs a1" "smoke_allocate n us a1 = (Inr r, a2)"
  shows "extended a (rs @ [(al_next_handle a1, r)]) a2"
proof -
  have "alloc_inv a1" using assms(1) by (simp add: extended_def)
  note al = smoke_allocated [OF this assms(2)]
  from al(7) assms(1) al(2,4) slabs_sim_trans [OF _ slabs_sim_refl [OF al(3)], of a] show ?thesis
    by (auto simp: extended_def)
qed

lemma extended_write:
  assumes "extended a rs a1" "same_shape a1 a2" "contents a2 = (contents a1)(h := v)" "h \<in> fst ` set rs"
  shows "extended a rs a2"
proof -
  have "slabs_sim a1 a2" using assms(2) by (simp add: same_shape_def slabs_sim_def)
  with assms same_shape_inv [OF assms(2)] show ?thesis
    by (auto simp: extended_def same_shape_def intro: slabs_sim_trans)
qed

lemma extended_read:
  assumes "extended a rs a1" "same_shape a1 a2" "contents a2 = contents a1"
  shows "extended a rs a2"
proof -
  have "slabs_sim a1 a2" using assms(2) by (simp add: same_shape_def slabs_sim_def)
  with assms same_shape_inv [OF assms(2)] show ?thesis
    by (auto simp: extended_def same_shape_def intro: slabs_sim_trans)
qed

lemma extended_free:
  assumes "extended a (rs @ [(h, r)]) a1" "alloc_inv a2" "al_slabs a2 = al_slabs a1"
    and "al_records a2 = AList.delete h (al_records a1)" "contents a2 = (contents a1)(h := None)"
  shows "extended a rs a2"
proof -
  have d: "distinct (map fst (al_records a1))" using assms(1) unfolding extended_def alloc_inv_def by blast
  have rec: "al_records a1 = al_records a @ rs @ [(h, r)]" using assms(1) by (simp add: extended_def)
  with d have fresh: "h \<notin> fst ` set (al_records a)" "h \<notin> fst ` set rs" by (auto simp: image_iff)
  have "filter (\<lambda>p. h \<noteq> fst p) (al_records a @ rs) = al_records a @ rs"
    using fresh by (intro filter_True) force
  then have "al_records a2 = al_records a @ rs" using assms(4) rec by (simp add: AList.delete_eq case_prod_beta')
  moreover have "slabs_sim a a2" using assms(1,3) slabs_sim_trans slabs_sim_refl by (auto simp: extended_def)
  moreover have "contents a h = None" using fresh by (simp add: contents_def map_of_eq_None_iff)
  ultimately show ?thesis using assms(1,2,5) by (auto simp: extended_def)
qed

section \<open>A graph of one copy\<close>

lemma ps_copy_kernel: "registry_get (ps_registry env palloc lib) ''COPY'' = Inr (ps_kernel ''COPY'' (copy_run env (Some lib)))"
  by (simp add: registry_get_def ps_registry_def ps_kernels_def ps_kernel_def)

lemma copy_schedule:
  fixes w :: "'e ps_world" and reg :: "('e ps_state_scheme, 'p) registry"
  assumes "timer_ok (w_timer w)" "alloc_inv (w_alloc w)" "contents (w_alloc w) h = Some d" "contents (w_alloc w) k = Some d'"
    and "int (length d) = n" "int (length d') = n" "0 < n" "0 \<le> h" "0 \<le> k"
    and "op = [(''op'', JStr ''COPY''), (''src'', JInt h), (''dst'', JInt k), (''nbytes'', JInt n)]"
    and "reg = ps_registry env palloc lib"
  shows "\<exists>st w'. run_schedule env reg [op] w = (Inr st, w') \<and> timer_ok (w_timer w') \<and>
    same_shape (w_alloc w) (w_alloc w') \<and> contents (w_alloc w') = (contents (w_alloc w))(k \<mapsto> d)"
proof -
  let ?v = "w\<lparr>w_timer := (w_timer w)\<lparr>tm_profile := False\<rparr>\<rparr>"
  have sim: "prof_sim ?v w" using assms(1) by (simp add: prof_sim_def timer_ok_def)
  have agn: "registry_agnostic reg" unfolding assms(11) by (rule ps_registry_agnostic)
  have q: "quiet ?v" by (simp add: quiet_def)
  have full: "py_slice d 0 n = d" "slice_assign d' 0 (int (length d)) d = d"
    using assms(5,6) by (auto simp: py_slice_in slice_assign_in)
  have src: "arg_range op (contents (w_alloc ?v)) (F_SRC, F_SRC_OFFSET, n) = Some (h, 0, d)"
    and dst: "arg_range op (contents (w_alloc ?v)) (F_DST, F_DST_OFFSET, n) = Some (k, 0, py_slice d' 0 n)"
    and nb: "required_int op F_NBYTES = Inr n"
    using assms(3-10) full by (simp_all add: arg_range_def required_int_def optional_int_def)
  have ty: "\<not> (py_str env (obj_get op F_SRC0_TYPE (JStr '''')) = ''f32'' \<and> py_str env (obj_get op F_DST_TYPE (JStr '''')) = ''f16'')"
    using assms(10) by (simp add: obj_get_def)
  have "timer_ok (w_timer ?v)" "alloc_inv (w_alloc ?v)" using assms(1,2) by (simp_all add: timer_ok_def)
  from copy_run_moves [OF this ty nb src dst, of "Some lib"] obtain v' where
    v': "copy_run env (Some lib) op ?v = (Inr (), v')" "dst_written k 0 d ?v v'" by blast
  have "py_str env (obj_get op F_OP (JStr '''')) = ''COPY''" using assms(10) by (simp add: obj_get_def)
  then have run: "run_schedule env reg [op] ?v = (Inr (count_op (ps_kernel ''COPY'' (copy_run env (Some lib)))
      \<lparr>sc_in_flight = None, sc_ps = 0, sc_pl = 0\<rparr>), v')"
    using v'(1) q by (simp add: run_schedule_def run_op_def py_simps assms(11) ps_copy_kernel barrier_def issue_op_def ps_kernel_def timer_op_quiet
        drain_def Let_def)
  from prof_agnosticD [OF run_schedule_agnostic [OF agn] sim run] obtain w' where
    w': "run_schedule env reg [op] w =
      (Inr (count_op (ps_kernel ''COPY'' (copy_run env (Some lib))) \<lparr>sc_in_flight = None, sc_ps = 0, sc_pl = 0\<rparr>), w')" "prof_sim v' w'" .
  from v'(2) w'(2) assms(4) full(2) have "same_shape (w_alloc w) (w_alloc w')"
    "contents (w_alloc w') = (contents (w_alloc w))(k \<mapsto> d)" "timer_ok (w_timer w')" by (auto simp: dst_written_def prof_sim_def)
  with w'(1) show ?thesis by blast
qed

text \<open>The profiler around the schedule keeps the outcome and the heap.\<close>

lemma section_of:
  assumes "prof_agnostic body" "n \<noteq> ''total''" "body w = (Inr st, w')" "timer_ok (w_timer w)"
  obtains w2 where "timer_section env n body w = (Inr st, w2)" "w_alloc w2 = w_alloc w'" "timer_ok (w_timer w2)"
proof -
  have sim: "prof_sim w w" using assms(4) by (rule prof_sim_refl)
  show thesis
  proof (cases "tm_profile (w_timer w)")
    case True
    from agnostic_section_body [OF assms(1,2) sim assms(3), of env] obtain w2 where
      "section_profiled env n body w = (Inr st, w2)" "prof_sim w2 w'" by blast
    with True show thesis by (intro that [of w2]) (auto simp: timer_section_def py_simps prof_sim_def)
  next
    case False
    from prof_agnosticD [OF assms(1) sim assms(3)] obtain v where "body w = (Inr st, v)" "prof_sim w' v" .
    with False assms(3) show thesis by (intro that [of w']) (auto simp: timer_section_def py_simps prof_sim_def)
  qed
qed

lemma served_copy:
  fixes w :: "'e ps_world" and reg :: "('e ps_state_scheme, 'p) registry"
  assumes "alloc_inv (w_alloc w)" "contents (w_alloc w) h = Some d" "contents (w_alloc w) k = Some d'"
    and "int (length d) = n" "int (length d') = n" "0 < n" "0 \<le> h" "0 \<le> k" "rq_copy h k n = (op, pl, flds)"
    and "reg = ps_registry env palloc lib"
  shows "\<exists>w' res. dispatch env reg ov (call_metadata 1 op flds) pl w = (Inr (res, []), w') \<and>
    same_shape (w_alloc w) (w_alloc w') \<and> contents (w_alloc w') = (contents (w_alloc w))(k \<mapsto> d)"
proof -
  let ?op = "[(''op'', JStr ''COPY''), (''src'', JInt h), (''dst'', JInt k), (''nbytes'', JInt n)]"
  let ?w0 = "w\<lparr>w_timer := new_timer (JInt 1) (w_sink w)\<rparr>"
  have agn: "registry_agnostic reg" unfolding assms(10) by (rule ps_registry_agnostic)
  have ok0: "timer_ok (w_timer ?w0)" by (simp add: timer_ok_def new_timer_def)
  from prof_silentD [OF silent_emit ok0, of "[(''req_id'', JInt 1), (''op_count'', JInt 1)]" env "''graph_begin''"] obtain w1 where
    w1: "emit env ''graph_begin'' [(''req_id'', JInt 1), (''op_count'', JInt 1)] ?w0 = (Inr (), w1)" "prof_sim w1 ?w0" by auto
  then have "timer_ok (w_timer w1)" by (simp add: prof_sim_def)
  from prof_silentD [OF silent_perf this] obtain t0 w2 where w2: "perf_counter_ns env w1 = (Inr t0, w2)" "prof_sim w2 w1" .
  have a2: "w_alloc w2 = w_alloc w" "timer_ok (w_timer w2)" using w1(2) w2(2) by (auto simp: prof_sim_def)
  from copy_schedule [of w2 h d k d' n, OF a2(2), unfolded a2(1), OF assms(1-8) refl assms(10)] obtain st w3 where
    w3: "run_schedule env reg [?op] w2 = (Inr st, w3)" "same_shape (w_alloc w) (w_alloc w3)"
      "contents (w_alloc w3) = (contents (w_alloc w))(k \<mapsto> d)" by blast
  from section_of [OF run_schedule_agnostic [OF agn] _ w3(1) a2(2), of "''graph''" env] obtain w4 where
    w4: "timer_section env ''graph'' (run_schedule env reg [?op]) w2 = (Inr st, w4)" "w_alloc w4 = w_alloc w3" "timer_ok (w_timer w4)" by auto
  from prof_silentD [OF silent_us_since w4(3)] obtain us w5 where w5: "us_since env t0 w4 = (Inr us, w5)" "prof_sim w5 w4" .
  then have a5: "w_alloc w5 = w_alloc w3" "timer_ok (w_timer w5)" using w4 by (auto simp: prof_sim_def)
  let ?cs = "graph_counters st (w_timer w5) us"
  have "distinct (''kind'' # map fst ((''req_id'', JInt 1) # ?cs))" by (simp add: graph_counters_def)
  from prof_silentD [OF silent_emit [OF this] a5(2), of env "''graph_end''"] obtain w6 where
    w6: "emit env ''graph_end'' ((''req_id'', JInt 1) # ?cs) w5 = (Inr (), w6)" "prof_sim w6 w5" by auto
  then have a6: "w_alloc w6 = w_alloc w3" using a5(1) by (simp add: prof_sim_def)
  obtain r where "map_of (al_records (w_alloc w3)) k = Some r"
    using w3(3) by (metis contents_Some fun_upd_same)
  then have body: "graph_body env reg (JInt 1) 1 [?op] [k] w = (Inr [(F_GRAPH_VERSION, JInt 1), (F_OP_COUNT, JInt 1),
      (F_OUTPUTS, JList [JInt k]), (F_COUNTERS, JObj ?cs)], w6)"
    using w1(1) w2(1) w4(1) w5(1) w6(1) a5(1)
    by (simp add: graph_body_def py_simps check_outputs_def describe_def get_record_def Let_def)
  let ?md = "[(''id'', JInt 1), (''op'', JStr ''RUN_GRAPH''), (''graph_version'', JInt 1), (''ops'', JList [JObj ?op]), (''outputs'', JList [JInt k])]"
  have md: "call_metadata 1 op flds = ?md" "pl = []"
    using assms(9) by (auto simp: rq_copy_def call_metadata_def obj_merge_def obj_set_def)
  have "graph_required_int ?md F_GRAPH_VERSION = Inr 1" "required_ops ?md = Inr [?op]" "optional_int_list ?md F_OUTPUTS = Inr [k]"
    "obj_get ?md F_ID JNull = JInt 1"
    using assms(8) by (simp_all add: graph_required_int_def non_negative_int_def required_ops_def optional_int_list_def obj_get_def)
  with body have run: "run_graph env reg ?md w = (Inr [(F_GRAPH_VERSION, JInt 1), (F_OP_COUNT, JInt 1),
      (F_OUTPUTS, JList [JInt k]), (F_COUNTERS, JObj ?cs)], w6)" unfolding run_graph_def py_bind_run by (simp add: py_bind_run)
  have "dispatch env reg ov ?md pl = py_bind (run_graph env reg ?md) (\<lambda>d. py_ret (d, []))"
    by (simp add: dispatch_def handle_op_def obj_get_def Let_def)
  with run md have "dispatch env reg ov (call_metadata 1 op flds) pl w =
      (Inr ([(F_GRAPH_VERSION, JInt 1), (F_OP_COUNT, JInt 1), (F_OUTPUTS, JList [JInt k]), (F_COUNTERS, JObj ?cs)], []), w6)"
    by (simp only: py_simps) simp
  with w3(2,3) a6 show ?thesis by auto
qed

section \<open>The tests from the first request to the last\<close>

fun trace_carried :: "pyenv \<Rightarrow> codec \<Rightarrow> ('d, 'p) registry \<Rightarrow> string \<Rightarrow> ctl_request list \<Rightarrow> 'd world \<Rightarrow> bool" where
  "trace_carried env cd reg ov [] w = True"
| "trace_carried env cd reg ov ((op, pl, flds) # rqs) w =
     (carried env cd reg ov (call_metadata 1 op flds) pl w \<and>
      trace_carried env cd reg ov rqs (snd (dispatch env reg ov (call_metadata 1 op flds) pl w)))"

definition without_id :: "ctl_request \<Rightarrow> bool" where
  "without_id rq \<longleftrightarrow> map_of (snd (snd rq)) ''id'' = None"

lemma without_id_rq [simp]:
  "without_id (rq_alloc n us)" "without_id (rq_upload h bs)" "without_id (rq_download h n)" "without_id (rq_free h)"
  "without_id (rq_copy h k n)"
  by (simp_all add: without_id_def rq_defs)

definition dispatch_rq :: "pyenv \<Rightarrow> ('d, 'p) registry \<Rightarrow> string \<Rightarrow> ctl_request \<Rightarrow> ('d world, dict \<times> byte list) py" where
  "dispatch_rq env reg ov rq = (case rq of (op, pl, flds) \<Rightarrow> dispatch env reg ov (call_metadata 1 op flds) pl)"

lemma trace_step:
  assumes "trace_carried env cd reg ov (rq # rqs) w" "without_id rq" "dispatch_rq env reg ov rq w = (outcome, w1)"
  shows "answers (dispatch env reg ov) (carried env cd reg ov) rq w outcome w1" "trace_carried env cd reg ov rqs w1"
  using assms by (cases rq; simp add: answers_def without_id_def dispatch_rq_def)+

lemma trace_session:
  assumes "trace_carried env cd reg ov (rq # rqs) w" "without_id rq" "dispatch_rq env reg ov rq w = (Inr r, w1)"
    and "trace_carried env cd reg ov rqs w1 \<Longrightarrow> session (dispatch env reg ov) (carried env cd reg ov) rqs w1 rs w2"
  shows "session (dispatch env reg ov) (carried env cd reg ov) (rq # rqs) w (r # rs) w2"
  using trace_step [OF assms(1-3)] assms(4) by auto

lemma dispatch_rq_simps [simp]:
  "dispatch_rq env reg ov (rq_alloc n us) = dispatch env reg ov (call_metadata 1 ''ALLOC_TENSOR'' (smoke_alloc n us)) []"
  "dispatch_rq env reg ov (rq_upload h bs) =
     dispatch env reg ov (call_metadata 1 ''UPLOAD_TENSOR'' [(''handle'', JInt h), (''offset'', JInt 0)]) bs"
  "dispatch_rq env reg ov (rq_download h n) =
     dispatch env reg ov (call_metadata 1 ''DOWNLOAD_TENSOR'' [(''handle'', JInt h), (''offset'', JInt 0), (''size'', JInt n)]) []"
  "dispatch_rq env reg ov (rq_free h) = dispatch env reg ov (call_metadata 1 ''FREE_TENSOR'' [(''handle'', JInt h)]) []"
  by (simp_all add: dispatch_rq_def rq_alloc_def rq_upload_def rq_download_def rq_free_def)

text \<open>One request of a test on a heap that has the tensors \<open>rs\<close> more.\<close>

lemma step_upload:
  assumes "extended a rs (w_alloc w)" "(h, r) \<in> set rs" "0 \<le> h" "contents (w_alloc w) h = Some d" "length bs = length d"
  obtains res w' where "dispatch_rq env reg ov (rq_upload h bs) w = (Inr (res, []), w')" "extended a rs (w_alloc w')"
    "contents (w_alloc w') = (contents (w_alloc w))(h \<mapsto> bs)"
proof -
  have inv: "alloc_inv (w_alloc w)" using assms(1) by (simp add: extended_def)
  have h: "h \<in> fst ` set rs" using assms(2) by force
  from served_upload [OF inv assms(4,5,3), of env reg ov] obtain a' res where
    a': "dispatch_rq env reg ov (rq_upload h bs) w = (Inr (res, []), w\<lparr>w_alloc := a'\<rparr>)" "same_shape (w_alloc w) a'"
      "contents a' = (contents (w_alloc w))(h \<mapsto> bs)" by auto
  with extended_write [OF assms(1) a'(2,3) h] show thesis by (intro that [of res "w\<lparr>w_alloc := a'\<rparr>"]) auto
qed

lemma step_download:
  assumes "extended a rs (w_alloc w)" "0 \<le> h" "contents (w_alloc w) h = Some d" "int (length d) = n"
  obtains res w' where "dispatch_rq env reg ov (rq_download h n) w = (Inr (res, d), w')" "extended a rs (w_alloc w')"
    "contents (w_alloc w') = contents (w_alloc w)"
proof -
  have inv: "alloc_inv (w_alloc w)" using assms(1) by (simp add: extended_def)
  from served_download [OF inv assms(3,4,2), of env reg ov] obtain a' res where
    a': "dispatch_rq env reg ov (rq_download h n) w = (Inr (res, d), w\<lparr>w_alloc := a'\<rparr>)" "same_shape (w_alloc w) a'"
      "contents a' = contents (w_alloc w)" by auto
  with extended_read [OF assms(1) a'(2,3)] show thesis by (intro that [of res "w\<lparr>w_alloc := a'\<rparr>"]) auto
qed

lemma step_free:
  assumes "extended a (rs @ [(h, r)]) (w_alloc w)" "0 \<le> h"
  obtains res w' where "dispatch_rq env reg ov (rq_free h) w = (Inr (res, []), w')" "extended a rs (w_alloc w')"
proof -
  have inv: "alloc_inv (w_alloc w)" and rec: "al_records (w_alloc w) = al_records a @ rs @ [(h, r)]"
    using assms(1) by (simp_all add: extended_def)
  then have "distinct (map fst (al_records a @ rs @ [(h, r)]))" by (metis alloc_inv_def)
  then have "map_of (al_records (w_alloc w)) h = Some r" unfolding rec by (intro map_of_is_SomeI) auto
  from served_free [OF inv this assms(2), of env reg ov] obtain a' res where
    a': "dispatch_rq env reg ov (rq_free h) w = (Inr (res, []), w\<lparr>w_alloc := a'\<rparr>)" "alloc_inv a'" "al_slabs a' = al_slabs (w_alloc w)"
      "al_records a' = AList.delete h (al_records (w_alloc w))" "contents a' = (contents (w_alloc w))(h := None)" by auto
  with extended_free [OF assms(1) a'(2-5)] show thesis by (intro that [of res "w\<lparr>w_alloc := a'\<rparr>"]) auto
qed

lemma step_alloc:
  assumes "extended a rs (w_alloc w)" "0 \<le> n" "smoke_allocate n us (w_alloc w) = (Inr r, a')"
  shows "dispatch_rq env reg ov (rq_alloc n us) w = (Inr ([(F_TENSOR, JObj (describe_record r))], []), w\<lparr>w_alloc := a'\<rparr>)"
    "extended a (rs @ [(tr_handle r, r)]) a'" "0 \<le> tr_handle r"
    "\<exists>d. int (length d) = n \<and> contents a' = (contents (w_alloc w))(tr_handle r \<mapsto> d)"
    "contents (w_alloc w) (tr_handle r) = None" "al_next_handle a' = tr_handle r + 1"
proof -
  have inv: "alloc_inv (w_alloc w)" using assms(1) by (simp add: extended_def)
  note al = smoke_allocated [OF inv assms(3)]
  show "dispatch_rq env reg ov (rq_alloc n us) w = (Inr ([(F_TENSOR, JObj (describe_record r))], []), w\<lparr>w_alloc := a'\<rparr>)"
    using served_alloc [OF inv assms(2,3)] by simp
  show "extended a (rs @ [(tr_handle r, r)]) a'" using extended_alloc [OF assms(1,3)] al(1) by simp
  show "0 \<le> tr_handle r" using inv al(1) by (simp add: alloc_inv_def)
  show "\<exists>d. int (length d) = n \<and> contents a' = (contents (w_alloc w))(tr_handle r \<mapsto> d)" using al(1,7) by simp
  show "contents (w_alloc w) (tr_handle r) = None" "al_next_handle a' = tr_handle r + 1" using al(1,5,6) by (simp_all add: contents_def)
qed

lemma length_deterministic_bytes [simp]: "length (deterministic_bytes n) = nat n"
  by (simp add: deterministic_bytes_def)

text \<open>The requests that \<open>smoke\<close> makes on a heap, and its outcome.\<close>

definition smoke_trace :: "int \<Rightarrow> allocator \<Rightarrow> ctl_request list" where
  "smoke_trace n a =
     (case smoke_allocate n ''smoke'' a of
        (Inl e, a') \<Rightarrow> [rq_alloc n ''smoke'']
      | (Inr r, a') \<Rightarrow>
          [rq_alloc n ''smoke'', rq_upload (tr_handle r) (deterministic_bytes n), rq_download (tr_handle r) n, rq_free (tr_handle r)])"

lemma smoke_ends:
  assumes "alloc_inv (w_alloc w)" "0 \<le> n" "trace_carried env cd reg ov (smoke_trace n (w_alloc w)) w"
  defines "ok \<equiv> n \<le> total_room 64 (al_free (w_alloc w))"
  shows "\<exists>w' out. ctl_main (call_runtime (daemon_net env cd reg ov up down) env cd) (Smoke n) (c\<lparr>ct_net := w\<rparr>) =
      (Inr (if ok then 0 else 2), c\<lparr>ct_net := w', ct_out := ct_out c @ out\<rparr>) \<and> heap_restored (w_alloc w) (w_alloc w') \<and>
      (if ok then \<exists>d. out = [Printed (JObj ((''ok'', JBool True) # d))] else out = [])"
proof -
  obtain res a' where run: "smoke_allocate n ''smoke'' (w_alloc w) = (res, a')" by (cases "smoke_allocate n ''smoke'' (w_alloc w)")
  have "effective_alignment (w_alloc w) (Some 64) = 64" by (simp add: effective_alignment_def)
  with allocate_outcome [OF assms(1) _ run [unfolded smoke_allocate_def]] assms(2)
  have iff: "if ok then \<exists>r. res = Inr r else res = Inl ERR_memory" by (simp add: ok_def)
  show ?thesis
  proof (cases res)
    case (Inl e)
    with iff have "\<not> ok" by (auto split: if_splits)
    have tr: "trace_carried env cd reg ov [rq_alloc n ''smoke''] w" using assms(3) run Inl by (simp add: smoke_trace_def)
    have "dispatch_rq env reg ov (rq_alloc n ''smoke'') w = (Inl e, w)"
      using served_alloc_error [OF assms(1,2)] run Inl by simp
    from daemon.smoke_refused [OF trace_step(1) [OF tr _ this], of up down c] \<open>\<not> ok\<close> show ?thesis
      using extended_end [OF assms(1) extended_start [OF assms(1)]] by (intro exI [of _ w] exI [of _ "[]"]) simp
  next
    case (Inr r)
    with iff have "ok" by (auto split: if_splits)
    let ?h = "tr_handle r" and ?src = "deterministic_bytes n"
    note al = step_alloc [OF extended_start [OF assms(1)] assms(2) run [unfolded Inr]]
    let ?w1 = "w\<lparr>w_alloc := a'\<rparr>"
    from al(4) obtain d where d: "int (length d) = n" "contents (w_alloc ?w1) ?h = Some d" by auto
    have e1: "extended (w_alloc w) [(?h, r)] (w_alloc ?w1)" using al(2) by simp
    have len: "length ?src = length d" "int (length ?src) = n" using d(1) assms(2) by simp_all
    from step_upload [OF e1 list.set_intros(1) al(3) d(2) len(1)] obtain r1 w2 where
      w2: "dispatch_rq env reg ov (rq_upload ?h ?src) ?w1 = (Inr (r1, []), w2)" "extended (w_alloc w) [(?h, r)] (w_alloc w2)"
        "contents (w_alloc w2) = (contents (w_alloc ?w1))(?h \<mapsto> ?src)" .
    then have c2: "contents (w_alloc w2) ?h = Some ?src" by simp
    from step_download [OF w2(2) al(3) c2 len(2)] obtain r2 w3 where
      w3: "dispatch_rq env reg ov (rq_download ?h n) w2 = (Inr (r2, ?src), w3)" "extended (w_alloc w) [(?h, r)] (w_alloc w3)"
        "contents (w_alloc w3) = contents (w_alloc w2)" .
    from step_free [OF _ al(3), of "w_alloc w" "[]" r w3 env reg ov] w3(2) obtain r3 w4 where
      w4: "dispatch_rq env reg ov (rq_free ?h) w3 = (Inr (r3, []), w4)" "extended (w_alloc w) [] (w_alloc w4)" by auto
    have tr: "trace_carried env cd reg ov [rq_alloc n ''smoke'', rq_upload ?h ?src, rq_download ?h n, rq_free ?h] w"
      using assms(3) run Inr by (simp add: smoke_trace_def)
    note t1 = trace_step [OF tr _ al(1)]
    have s1: "session (dispatch env reg ov) (carried env cd reg ov) [rq_alloc n ''smoke''] w [([(F_TENSOR, JObj (describe_record r))], [])] ?w1"
      using t1(1) by simp
    have s2: "session (dispatch env reg ov) (carried env cd reg ov) [rq_upload ?h ?src, rq_download ?h n, rq_free ?h] ?w1
        [(r1, []), (r2, ?src), (r3, [])] w4"
      using t1(2) by (intro trace_session [OF _ _ w2(1)] trace_session [OF _ _ w3(1)] trace_session [OF _ _ w4(1)]) simp_all
    from daemon.smoke_completes [OF s1 describe_record_handle s2, of up down c] \<open>ok\<close> extended_end [OF assms(1) w4(2)]
    show ?thesis by auto
  qed
qed

text \<open>The same for \<open>graph-copy-smoke\<close>: both allocations may fail.\<close>

definition two_fit :: "int \<Rightarrow> allocator \<Rightarrow> bool" where
  "two_fit n a =
     (case smoke_allocate n ''graph-copy-src'' a of
        (Inl e, a1) \<Rightarrow> False
      | (Inr r, a1) \<Rightarrow> \<not> isl (fst (smoke_allocate n ''graph-copy-dst'' a1)))"

definition graph_copy_tail :: "int \<Rightarrow> int \<Rightarrow> int \<Rightarrow> ctl_request list" where
  "graph_copy_tail n h k =
     [rq_upload h (deterministic_bytes n), rq_copy h k n, rq_download k n, rq_free k, rq_free h]"

definition graph_copy_trace :: "int \<Rightarrow> allocator \<Rightarrow> ctl_request list" where
  "graph_copy_trace n a = rq_alloc n ''graph-copy-src'' #
     (case smoke_allocate n ''graph-copy-src'' a of
        (Inl e, a1) \<Rightarrow> []
      | (Inr r, a1) \<Rightarrow> rq_alloc n ''graph-copy-dst'' #
          (case smoke_allocate n ''graph-copy-dst'' a1 of
             (Inl e, a2) \<Rightarrow> [rq_free (tr_handle r)]
           | (Inr r', a2) \<Rightarrow> graph_copy_tail n (tr_handle r) (tr_handle r')))"

lemma step_copy:
  fixes w :: "'e ps_world" and reg :: "('e ps_state_scheme, 'p) registry"
  assumes "extended a rs (w_alloc w)" "(k, r) \<in> set rs" "contents (w_alloc w) h = Some d" "contents (w_alloc w) k = Some d'"
    and "int (length d) = n" "int (length d') = n" "0 < n" "0 \<le> h" "0 \<le> k" "reg = ps_registry env palloc lib"
  obtains res w' where "dispatch_rq env reg ov (rq_copy h k n) w = (Inr (res, []), w')" "extended a rs (w_alloc w')"
    "contents (w_alloc w') = (contents (w_alloc w))(k \<mapsto> d)"
proof -
  have inv: "alloc_inv (w_alloc w)" using assms(1) by (simp add: extended_def)
  have k: "k \<in> fst ` set rs" using assms(2) by force
  obtain op pl flds where rq: "rq_copy h k n = (op, pl, flds)" by (cases "rq_copy h k n")
  from served_copy [OF inv assms(3-9) rq assms(10), of ov] obtain w' res where
    w': "dispatch env reg ov (call_metadata 1 op flds) pl w = (Inr (res, []), w')" "same_shape (w_alloc w) (w_alloc w')"
      "contents (w_alloc w') = (contents (w_alloc w))(k \<mapsto> d)" by blast
  from extended_write [OF assms(1) w'(2,3) k] w'(1,3) show thesis by (intro that [of res w']) (simp_all add: dispatch_rq_def rq)
qed

lemma graph_copy_session:
  fixes w :: "'e ps_world" and reg :: "('e ps_state_scheme, 'p) registry"
  assumes ext: "extended a [(h, r), (k, r')] (w_alloc w)" and hk: "0 \<le> h" "0 \<le> k" "h \<noteq> k"
    and cont: "contents (w_alloc w) h = Some d" "contents (w_alloc w) k = Some d'" "int (length d) = n" "int (length d') = n" "0 < n"
    and reg: "reg = ps_registry env palloc lib" and tr: "trace_carried env cd reg ov (graph_copy_tail n h k) w"
  obtains r2 r3 r4 r5 r6 w' where
    "session (dispatch env reg ov) (carried env cd reg ov) (graph_copy_tail n h k) w
       [(r2, []), (r3, []), (r4, deterministic_bytes n), (r5, []), (r6, [])] w'" "extended a [] (w_alloc w')"
proof -
  let ?src = "deterministic_bytes n"
  have len: "length ?src = length d" "int (length ?src) = n" using cont(3,5) by simp_all
  from step_upload [OF ext list.set_intros(1) hk(1) cont(1) len(1)] obtain r2 w2 where
    w2: "dispatch_rq env reg ov (rq_upload h ?src) w = (Inr (r2, []), w2)" "extended a [(h, r), (k, r')] (w_alloc w2)"
      "contents (w_alloc w2) = (contents (w_alloc w))(h \<mapsto> ?src)" .
  have mem: "(k, r') \<in> set [(h, r), (k, r')]" by simp
  have c2: "contents (w_alloc w2) h = Some ?src" "contents (w_alloc w2) k = Some d'" using w2(3) cont(2) hk(3) by simp_all
  from step_copy [OF w2(2) mem c2 len(2) cont(4,5) hk(1,2) reg] obtain r3 w3 where
    w3: "dispatch_rq env reg ov (rq_copy h k n) w2 = (Inr (r3, []), w3)" "extended a [(h, r), (k, r')] (w_alloc w3)"
      "contents (w_alloc w3) = (contents (w_alloc w2))(k \<mapsto> ?src)" .
  then have c3: "contents (w_alloc w3) k = Some ?src" by simp
  from step_download [OF w3(2) hk(2) c3 len(2)] obtain r4 w4 where
    w4: "dispatch_rq env reg ov (rq_download k n) w3 = (Inr (r4, ?src), w4)" "extended a [(h, r), (k, r')] (w_alloc w4)" .
  from step_free [OF _ hk(2), of a "[(h, r)]" r' w4 env reg ov] w4(2) obtain r5 w5 where
    w5: "dispatch_rq env reg ov (rq_free k) w4 = (Inr (r5, []), w5)" "extended a [(h, r)] (w_alloc w5)" by auto
  from step_free [OF _ hk(1), of a "[]" r w5 env reg ov] w5(2) obtain r6 w6 where
    w6: "dispatch_rq env reg ov (rq_free h) w5 = (Inr (r6, []), w6)" "extended a [] (w_alloc w6)" by auto
  have "session (dispatch env reg ov) (carried env cd reg ov) (graph_copy_tail n h k) w
       [(r2, []), (r3, []), (r4, ?src), (r5, []), (r6, [])] w6"
    using tr unfolding graph_copy_tail_def
    by (intro trace_session [OF _ _ w2(1)] trace_session [OF _ _ w3(1)] trace_session [OF _ _ w4(1)] trace_session [OF _ _ w5(1)]
        trace_session [OF _ _ w6(1)]) simp_all
  then show thesis using w6(2) by (rule that)
qed

lemma graph_copy_none:
  assumes "alloc_inv (w_alloc w)" "0 \<le> n" "smoke_allocate n ''graph-copy-src'' (w_alloc w) = (Inl e, a1)"
    and "trace_carried env cd reg ov (graph_copy_trace n (w_alloc w)) w"
  shows "ctl_main (call_runtime (daemon_net env cd reg ov up down) env cd) (GraphCopySmoke n) (c\<lparr>ct_net := w\<rparr>) = (Inr 2, c\<lparr>ct_net := w\<rparr>) \<and>
    heap_restored (w_alloc w) (w_alloc w)"
proof -
  have tr: "trace_carried env cd reg ov [rq_alloc n ''graph-copy-src''] w" using assms(3,4) by (simp add: graph_copy_trace_def)
  have "dispatch_rq env reg ov (rq_alloc n ''graph-copy-src'') w = (Inl e, w)" using served_alloc_error [OF assms(1-3)] by simp
  from daemon.graph_copy_refused [OF trace_step(1) [OF tr _ this], of up down c] show ?thesis
    using extended_end [OF assms(1) extended_start [OF assms(1)]] by simp
qed

lemma first_alloc:
  assumes "alloc_inv (w_alloc w)" "0 \<le> n" "smoke_allocate n us (w_alloc w) = (Inr r, a1)"
    and "trace_carried env cd reg ov (rq_alloc n us # rqs) w"
  shows "session (dispatch env reg ov) (carried env cd reg ov) [rq_alloc n us] w [([(F_TENSOR, JObj (describe_record r))], [])] (w\<lparr>w_alloc := a1\<rparr>)"
    "trace_carried env cd reg ov rqs (w\<lparr>w_alloc := a1\<rparr>)" "extended (w_alloc w) [(tr_handle r, r)] a1" "0 \<le> tr_handle r"
    "\<exists>d. int (length d) = n \<and> contents a1 (tr_handle r) = Some d"
proof -
  note al = step_alloc [OF extended_start [OF assms(1)] assms(2,3)]
  from trace_step [OF assms(4) _ al(1)]
  show "session (dispatch env reg ov) (carried env cd reg ov) [rq_alloc n us] w [([(F_TENSOR, JObj (describe_record r))], [])] (w\<lparr>w_alloc := a1\<rparr>)"
    "trace_carried env cd reg ov rqs (w\<lparr>w_alloc := a1\<rparr>)" by simp_all
  show "extended (w_alloc w) [(tr_handle r, r)] a1" "0 \<le> tr_handle r" using al(2,3) by simp_all
  show "\<exists>d. int (length d) = n \<and> contents a1 (tr_handle r) = Some d" using al(4) by auto
qed

lemma graph_copy_one:
  assumes inv: "alloc_inv (w_alloc w)" and n: "0 \<le> n" and run: "smoke_allocate n ''graph-copy-src'' (w_alloc w) = (Inr r, a1)"
    and run2: "smoke_allocate n ''graph-copy-dst'' a1 = (Inl e, a2)"
    and tr: "trace_carried env cd reg ov (graph_copy_trace n (w_alloc w)) w"
  shows "\<exists>w'. ctl_main (call_runtime (daemon_net env cd reg ov up down) env cd) (GraphCopySmoke n) (c\<lparr>ct_net := w\<rparr>) =
      (Inr 2, c\<lparr>ct_net := w'\<rparr>) \<and> heap_restored (w_alloc w) (w_alloc w')"
proof -
  let ?w1 = "w\<lparr>w_alloc := a1\<rparr>" and ?h = "tr_handle r"
  have "trace_carried env cd reg ov (rq_alloc n ''graph-copy-src'' # [rq_alloc n ''graph-copy-dst'', rq_free ?h]) w"
    using tr run run2 by (simp add: graph_copy_trace_def)
  note f = first_alloc [OF inv n run this]
  have inv1: "alloc_inv (w_alloc ?w1)" using f(3) by (simp add: extended_def)
  have d: "dispatch_rq env reg ov (rq_alloc n ''graph-copy-dst'') ?w1 = (Inl e, ?w1)" using served_alloc_error [OF inv1 n] run2 by simp
  from step_free [OF _ f(4), of "w_alloc w" "[]" r ?w1 env reg ov] f(3) obtain r3 w4 where
    w4: "dispatch_rq env reg ov (rq_free ?h) ?w1 = (Inr (r3, []), w4)" "extended (w_alloc w) [] (w_alloc w4)" by auto
  have "session (dispatch env reg ov) (carried env cd reg ov) [rq_free ?h] ?w1 [(r3, [])] w4"
    using trace_step(2) [OF f(2) _ d] by (intro trace_session [OF _ _ w4(1)]) simp_all
  from daemon.graph_copy_half [OF f(1) describe_record_handle trace_step(1) [OF f(2) _ d] this, of up down c] show ?thesis
    using extended_end [OF inv w4(2)] by auto
qed

lemma graph_copy_two:
  fixes w :: "'e ps_world" and reg :: "('e ps_state_scheme, 'p) registry"
  assumes inv: "alloc_inv (w_alloc w)" and n: "0 < n" and reg: "reg = ps_registry env palloc lib"
    and run: "smoke_allocate n ''graph-copy-src'' (w_alloc w) = (Inr r, a1)" and run2: "smoke_allocate n ''graph-copy-dst'' a1 = (Inr r', a2)"
    and tr: "trace_carried env cd reg ov (graph_copy_trace n (w_alloc w)) w"
  shows "\<exists>w' d. ctl_main (call_runtime (daemon_net env cd reg ov up down) env cd) (GraphCopySmoke n) (c\<lparr>ct_net := w\<rparr>) =
      (Inr 0, c\<lparr>ct_net := w', ct_out := ct_out c @ [Printed (JObj ((''ok'', JBool True) # d))]\<rparr>) \<and> heap_restored (w_alloc w) (w_alloc w')"
proof -
  let ?w1 = "w\<lparr>w_alloc := a1\<rparr>" and ?h = "tr_handle r" and ?k = "tr_handle r'"
  let ?w2 = "?w1\<lparr>w_alloc := a2\<rparr>"
  have "trace_carried env cd reg ov (rq_alloc n ''graph-copy-src'' # rq_alloc n ''graph-copy-dst'' # graph_copy_tail n ?h ?k) w"
    using tr run run2 by (simp add: graph_copy_trace_def)
  note f = first_alloc [OF inv less_imp_le [OF n] run this]
  have e1: "extended (w_alloc w) [(?h, r)] (w_alloc ?w1)" "smoke_allocate n ''graph-copy-dst'' (w_alloc ?w1) = (Inr r', a2)"
    using f(3) run2 by simp_all
  note al2 = step_alloc [OF e1(1) less_imp_le [OF n] e1(2)]
  have e2: "extended (w_alloc w) [(?h, r), (?k, r')] (w_alloc ?w2)" using al2(2) by simp
  from f(5) obtain d where d: "int (length d) = n" "contents (w_alloc ?w1) ?h = Some d" by auto
  from al2(4) obtain d' where d': "int (length d') = n" "contents a2 = (contents (w_alloc ?w1))(?k \<mapsto> d')" by auto
  have hk: "?h \<noteq> ?k" using al2(5) d(2) by auto
  then have c2: "contents (w_alloc ?w2) ?h = Some d" "contents (w_alloc ?w2) ?k = Some d'" using d(2) d'(2) by simp_all
  note t2 = trace_step [OF f(2) _ al2(1)]
  have s2: "session (dispatch env reg ov) (carried env cd reg ov) [rq_alloc n ''graph-copy-dst''] ?w1
      [([(F_TENSOR, JObj (describe_record r'))], [])] ?w2" using t2(1) by simp
  have t3: "trace_carried env cd reg ov (graph_copy_tail n ?h ?k) ?w2" using t2(2) by simp
  obtain r2 r3 r4 r5 r6 w' where s3: "session (dispatch env reg ov) (carried env cd reg ov) (graph_copy_tail n ?h ?k) ?w2
      [(r2, []), (r3, []), (r4, deterministic_bytes n), (r5, []), (r6, [])] w'" "extended (w_alloc w) [] (w_alloc w')"
    by (rule graph_copy_session [OF e2 f(4) al2(3) hk c2 d(1) d'(1) n reg t3])
  from daemon.graph_copy_completes [OF f(1) describe_record_handle s2 describe_record_handle s3(1) [unfolded graph_copy_tail_def], of up down c]
  show ?thesis using extended_end [OF inv s3(2)] by blast
qed

end
