(* ===== verification/WireProps.thy ===== *)
theory WireProps
  imports DaemonProps
begin

text \<open>
  The properties of the wire: frames under any fragmentation, truncated and oversized frames, the
  connection handler, and a remote call end to end.
\<close>

section \<open>Frames\<close>

text \<open>C20: what is sent is received.  \<open>send_message\<close> writes one frame; a receiver that has this frame and
  then anything else to read, delivered in chunks of any sizes, gets the metadata as the codec reads it
  back and the payload, and has exactly the rest left.\<close>

theorem frame_round_trip:
  assumes "int (length (cd_dumps cd (JObj md))) \<le> MAX_JSON_BYTES" "length pl < 2 ^ 32"
    and "cd_loads cd (cd_dumps cd (JObj md)) = Inr (JObj md')"
  shows "\<exists>out. send_message cd md pl s = (Inr (), s\<lparr>tx := tx s @ out\<rparr>) \<and>
    (\<forall>r rest. rx r = out @ rest \<longrightarrow> (\<exists>cs. recv_message cd r = (Inr (md', pl), r\<lparr>rx := rest, chunk_sizes := cs\<rparr>)))"
proof -
  have "length (cd_dumps cd (JObj md)) < 2 ^ 32" using assms(1) by (simp add: MAX_JSON_BYTES_def)
  then have "send_message cd md pl s = (Inr (), s\<lparr>tx := tx s @ frame cd md pl\<rparr>)"
    using assms(2) by (rule send_message_frame)
  moreover have "\<exists>cs. recv_message cd r = (Inr (md', pl), r\<lparr>rx := rest, chunk_sizes := cs\<rparr>)" if "rx r = frame cd md pl @ rest" for r rest
    using that assms by (rule recv_message_frame)
  ultimately show ?thesis by blast
qed

text \<open>A codec for the empty object, enough to put a frame on the wire.\<close>

definition empty_codec :: codec where
  "empty_codec = \<lparr>cd_dumps = (\<lambda>_. [0x7B, 0x7D]),
     cd_loads = (\<lambda>bs. if bs = [0x7B, 0x7D] then Inr (JObj []) else Inl JSONDecodeError)\<rparr>"

theorem frame_round_trip_witness:
  "\<exists>out. send_message empty_codec [] [1, 2, 3] \<lparr>rx = [], tx = [], chunk_sizes = []\<rparr> =
     (Inr (), \<lparr>rx = [], tx = out, chunk_sizes = []\<rparr>) \<and>
   (\<exists>cs. recv_message empty_codec \<lparr>rx = out, tx = [], chunk_sizes = [1, 5, 2]\<rparr> =
     (Inr ([], [1, 2, 3]), \<lparr>rx = [], tx = [], chunk_sizes = cs\<rparr>))"
proof -
  have "int (length (cd_dumps empty_codec (JObj []))) \<le> MAX_JSON_BYTES" "length [1, 2, 3 :: byte] < 2 ^ 32"
    "cd_loads empty_codec (cd_dumps empty_codec (JObj [])) = Inr (JObj [])" by (simp_all add: empty_codec_def MAX_JSON_BYTES_def)
  from frame_round_trip [OF this, of "\<lparr>rx = [], tx = [], chunk_sizes = []\<rparr>"] obtain out where
    s: "send_message empty_codec [] [1, 2, 3] \<lparr>rx = [], tx = [], chunk_sizes = []\<rparr> = (Inr (), \<lparr>rx = [], tx = out, chunk_sizes = []\<rparr>)"
    and r: "\<And>r rest. rx r = out @ rest \<Longrightarrow> \<exists>cs. recv_message empty_codec r = (Inr ([], [1, 2, 3]), r\<lparr>rx := rest, chunk_sizes := cs\<rparr>)"
    by auto
  from s r [of "\<lparr>rx = out, tx = [], chunk_sizes = [1, 5, 2]\<rparr>" "[]"] show ?thesis by auto
qed

text \<open>C33: a connection that closes inside a frame.  The receive fails with \<open>ProtocolError\<close> unless the
  cut falls on the start of a frame, on the end of the header, or between metadata and payload, where it
  is reported as \<open>EOFError\<close>, like a connection that closes between two requests.\<close>

theorem truncated_frame:
  assumes "int (length (cd_dumps cd (JObj md))) \<le> MAX_JSON_BYTES" "cd_dumps cd (JObj md) \<noteq> []" "length pl < 2 ^ 32"
    and "cd_loads cd (cd_dumps cd (JObj md)) = Inr (JObj md')"
    and "k < length (frame cd md pl)" "rx s = take k (frame cd md pl)"
  shows "fst (recv_message cd s) =
    Inl (if k = 0 \<or> k = 16 \<or> k = 16 + length (cd_dumps cd (JObj md)) then EOFError else ProtocolError)"
proof -
  let ?j = "cd_dumps cd (JObj md)"
  let ?h = "MAGIC @ be_bytes 2 VERSION @ be_bytes 2 0 @ be_bytes 4 (int (length ?j)) @ be_bytes 4 (int (length pl))"
  have lh: "length ?h = 16" by (simp add: MAGIC_def)
  have fr: "frame cd md pl = ?h @ ?j @ pl" by (simp add: frame_def)
  have b: "int (length ?j) < 2 ^ 32" "int (length pl) < 2 ^ 32" using assms(1,3) by (simp_all add: MAX_JSON_BYTES_def)
  show ?thesis
  proof (cases "k < 16")
    case True
    then have short: "length (rx s) < nat (int HEADER_size)" using assms(6) by (simp add: HEADER_size_def)
    have "rx s = [] \<longleftrightarrow> k = 0" using assms(5,6) by auto
    with read_exact_short [OF short] True show ?thesis by (auto simp: recv_message_def py_simps)
  next
    case False
    then have "rx s = ?h @ take (k - 16) (?j @ pl)" using assms(6) fr lh by (simp add: take_append)
    then have "rx s = MAGIC @ be_bytes 2 VERSION @ be_bytes 2 0 @ be_bytes 4 (int (length ?j)) @ be_bytes 4 (int (length pl)) @ take (k - 16) (?j @ pl)"
      by simp
    from recv_header_ok [OF this] b obtain c1 h where
      h: "read_exact (int HEADER_size) s = (Inr h, s\<lparr>rx := take (k - 16) (?j @ pl), chunk_sizes := c1\<rparr>)"
        "unpack_header h = (MAGIC, VERSION, 0, int (length ?j), int (length pl))" by auto
    let ?s1 = "s\<lparr>rx := take (k - 16) (?j @ pl), chunk_sizes := c1\<rparr>"
    show ?thesis
    proof (cases "k - 16 < length ?j")
      case True
      then have "length (rx ?s1) < nat (int (length ?j))" by simp
      from read_exact_short [OF this] True False assms(1,2) h show ?thesis
        by (auto simp: recv_message_def py_simps)
    next
      case long: False
      then have rx1: "rx ?s1 = ?j @ take (k - 16 - length ?j) pl" by (simp add: take_append)
      from read_exact_ok [of "int (length ?j)" ?s1] rx1 obtain c2 where
        m: "read_exact (int (length ?j)) ?s1 = (Inr ?j, s\<lparr>rx := take (k - 16 - length ?j) pl, chunk_sizes := c2\<rparr>)" by auto
      let ?s2 = "s\<lparr>rx := take (k - 16 - length ?j) pl, chunk_sizes := c2\<rparr>"
      have kp: "k - 16 - length ?j < length pl" using assms(5) fr lh False long by simp
      then have "length (rx ?s2) < nat (int (length pl))" by simp
      from read_exact_short [OF this] kp m h assms(1,4) False long show ?thesis
        by (auto simp: recv_message_def py_simps decode_metadata_def)
    qed
  qed
qed

theorem truncated_frame_witness:
  "fst (recv_message empty_codec \<lparr>rx = take 16 (frame empty_codec [] []), tx = [], chunk_sizes = []\<rparr>) = Inl EOFError"
proof -
  have "fst (recv_message empty_codec \<lparr>rx = take 16 (frame empty_codec [] []), tx = [], chunk_sizes = []\<rparr>) =
      Inl (if 16 = (0::nat) \<or> 16 = (16::nat) \<or> 16 = 16 + length (cd_dumps empty_codec (JObj [])) then EOFError else ProtocolError)"
    by (rule truncated_frame [where md = "[]" and pl = "[]" and md' = "[]"]) (simp_all add: empty_codec_def MAX_JSON_BYTES_def frame_def MAGIC_def)
  then show ?thesis by simp
qed

text \<open>C34: the limit on metadata is the receiver's alone.  \<open>send_message\<close> puts a frame with metadata of
  more than \<open>MAX_JSON_BYTES\<close> bytes on the wire without an error, and every receiver of this protocol
  rejects that frame with \<open>ProtocolError\<close>.\<close>

theorem oversized_metadata:
  assumes "MAX_JSON_BYTES < int (length (cd_dumps cd (JObj md)))" "length (cd_dumps cd (JObj md)) < 2 ^ 32" "length pl < 2 ^ 32"
  shows "\<exists>out. send_message cd md pl s = (Inr (), s\<lparr>tx := tx s @ out\<rparr>) \<and>
    (\<forall>r rest. rx r = out @ rest \<longrightarrow> fst (recv_message cd r) = Inl ProtocolError)"
  using send_message_frame [OF assms(2,3)] recv_message_oversized [OF _ assms] by blast

definition verbose_codec :: codec where
  "verbose_codec = \<lparr>cd_dumps = (\<lambda>_. replicate (2 ^ 20 + 1) 0x20), cd_loads = (\<lambda>_. Inr (JObj []))\<rparr>"

theorem oversized_metadata_witness:
  "\<exists>out. send_message verbose_codec [] [] \<lparr>rx = [], tx = [], chunk_sizes = []\<rparr> = (Inr (), \<lparr>rx = [], tx = out, chunk_sizes = []\<rparr>) \<and>
    fst (recv_message verbose_codec \<lparr>rx = out, tx = [], chunk_sizes = []\<rparr>) = Inl ProtocolError"
proof -
  have "MAX_JSON_BYTES < int (length (cd_dumps verbose_codec (JObj [])))" "length (cd_dumps verbose_codec (JObj [])) < 2 ^ 32"
    "length ([] :: byte list) < 2 ^ 32" by (simp_all add: verbose_codec_def MAX_JSON_BYTES_def)
  from oversized_metadata [OF this, of "\<lparr>rx = [], tx = [], chunk_sizes = []\<rparr>"] obtain out where
    s: "send_message verbose_codec [] [] \<lparr>rx = [], tx = [], chunk_sizes = []\<rparr> = (Inr (), \<lparr>rx = [], tx = out, chunk_sizes = []\<rparr>)"
    and r: "\<And>r rest. rx r = out @ rest \<Longrightarrow> fst (recv_message verbose_codec r) = Inl ProtocolError" by auto
  from s r [of "\<lparr>rx = out, tx = [], chunk_sizes = []\<rparr>" "[]"] show ?thesis by auto
qed

section \<open>The connection handler\<close>

text \<open>C31: a connection is served in order.  When a client sends any number of requests and closes, the
  handler dispatches them in the order they were sent, each on the state the one before it left, sends
  back one response per request in that order, with the request's own id, and ends without an error.\<close>

theorem handler_serves_in_order:
  assumes "list_all2 (request_ok cd) sent reqs" "rx s = concat (map (case_prod (frame cd)) sent)"
    and "serve env reg ov reqs w = (rs, w')" "list_all (fits cd) rs"
  shows "(\<exists>s'. handle env cd reg ov w s = (Inr (), w', s') \<and> rx s' = [] \<and>
      tx s' = tx s @ concat (map (case_prod (frame cd)) rs)) \<and>
    map (\<lambda>r. obj_get (fst r) ''id'' JNull) rs = map (\<lambda>r. obj_get (fst r) ''id'' JNull) reqs"
  using handle_serves [OF assms] serve_ids [OF assms(3)] by blast

text \<open>A codec that knows a table of messages, the \<open>i\<close>-th of them being the one byte \<open>i\<close> on the wire.\<close>

fun table_dumps :: "json list \<Rightarrow> byte \<Rightarrow> json \<Rightarrow> byte list" where
  "table_dumps [] b j = [255]"
| "table_dumps (k # ks) b j = (if j = k then [b] else table_dumps ks (b + 1) j)"

fun table_loads :: "json list \<Rightarrow> byte list \<Rightarrow> json res" where
  "table_loads ks [b] = (if unat b < length ks then Inr (ks ! unat b) else Inl UnicodeDecodeError)"
| "table_loads ks _ = Inl JSONDecodeError"

definition table_codec :: "json list \<Rightarrow> codec" where
  "table_codec ks = \<lparr>cd_dumps = table_dumps ks 0, cd_loads = table_loads ks\<rparr>"

lemma table_dumps_length [simp]: "length (table_dumps ks b j) = 1"
  by (induction ks b j rule: table_dumps.induct) simp_all

lemma table_fits [simp]: "fits (table_codec ks) (md, [])"
  by (simp add: fits_def table_codec_def)

definition demo_memory :: dict where
  "demo_memory = [(''id'', JInt 1), (F_OP, JStr OP_MEMORY)]"

definition demo_bogus :: dict where
  "demo_bogus = [(''id'', JInt 2), (F_OP, JStr ''bogus'')]"

definition demo_codec :: codec where
  "demo_codec = table_codec [JObj demo_memory, JObj demo_bogus, JObj (fst (response demo_env (JInt 1) (Inr ([(F_MEMORY, JObj (memory_info demo_alloc2))], []))))]"

theorem handler_serves_in_order_witness:
  "map (\<lambda>r. obj_get (fst r) ''id'' JNull)
     (fst (serve demo_env demo_registry ''ov'' [(demo_memory, []), (demo_bogus, [])] (demo_world False))) = [JInt 1, JInt 2] \<and>
   (\<exists>s'. handle demo_env demo_codec demo_registry ''ov'' (demo_world False)
       \<lparr>rx = frame demo_codec demo_memory [] @ frame demo_codec demo_bogus [], tx = [], chunk_sizes = [3]\<rparr> = (Inr (), demo_world False, s'))"
proof -
  let ?reqs = "[(demo_memory, []), (demo_bogus, [] :: byte list)]"
  have ok: "list_all2 (request_ok demo_codec) ?reqs ?reqs"
    by (simp add: request_ok_def demo_codec_def table_codec_def MAX_JSON_BYTES_def demo_memory_def demo_bogus_def)
  have w: "snd (serve demo_env demo_registry ''ov'' ?reqs (demo_world False)) = demo_world False"
    by (simp add: demo_memory_def demo_bogus_def dispatch_def handle_op_def obj_get_def py_simps Let_def)
  have f: "list_all (fits demo_codec) (fst (serve demo_env demo_registry ''ov'' ?reqs (demo_world False)))"
    by (simp add: demo_memory_def demo_bogus_def dispatch_def handle_op_def obj_get_def py_simps Let_def response_def error_response_def demo_codec_def)
  have "serve demo_env demo_registry ''ov'' ?reqs (demo_world False) =
      (fst (serve demo_env demo_registry ''ov'' ?reqs (demo_world False)), demo_world False)" using w by (metis prod.collapse)
  from handler_serves_in_order [OF ok _ this f, of "\<lparr>rx = frame demo_codec demo_memory [] @ frame demo_codec demo_bogus [], tx = [], chunk_sizes = [3]\<rparr>"]
  show ?thesis by (auto simp: demo_memory_def demo_bogus_def obj_get_def)
qed

text \<open>C32: a connection that ends badly.  The stream holds any number of requests and then a tail that is no frame: it is
  empty, it ends inside a frame, it has another magic, another version or too long metadata, or its metadata is no JSON text, no
  object or no text at all.  Delivered in chunks of any sizes, the requests are dispatched and answered in order all the same.  Then the
  handler ends without another byte if the peer closed at the start of a frame, of its metadata or of its payload; it
  sends exactly one \<open>protocol_error\<close> with a null id and ends if the tail breaks the protocol; and if the decoder
  raises anything but \<open>JSONDecodeError\<close>, a \<open>UnicodeDecodeError\<close> being one, that exception leaves the handler with no answer.
  The world is the one that the last request left.\<close>

theorem bad_frames:
  assumes "list_all2 (request_ok cd) sent reqs" "rx s = concat (map (case_prod (frame cd)) sent) @ t" "bad_tail cd t e"
    and "serve env reg ov reqs w = (rs, w')" "list_all (fits cd) rs" "fits cd (error_response env JNull ''protocol_error'' ProtocolError)"
  shows "\<exists>s'. handle env cd reg ov w s = (if e = EOFError \<or> e = ProtocolError then Inr () else Inl e, w', s') \<and>
    tx s' = tx s @ concat (map (case_prod (frame cd)) rs) @
      (if e = ProtocolError then case_prod (frame cd) (error_response env JNull ''protocol_error'' ProtocolError) else [])"
proof -
  from handle_frames [OF assms(1,2,4,5)] obtain s1 where
    s1: "handle env cd reg ov w s = handle env cd reg ov w' s1" "rx s1 = t" "tx s1 = tx s @ concat (map (case_prod (frame cd)) rs)" by blast
  have "fst (recv_message cd s1) = Inl e" using recv_bad_tail assms(3) s1(2) by blast
  then obtain s2 where r: "recv_message cd s1 = (Inl e, s2)" by (cases "recv_message cd s1") auto
  have "tx s2 = tx s1" using py_keepsD [OF recv_message_consumes r] by (simp add: consumes_def)
  with handle_ends [OF r assms(6), of reg ov w'] s1 show ?thesis by auto
qed

text \<open>A request, and then a complete frame whose metadata is a byte that the table codec does not know.\<close>

theorem bad_frames_witness:
  "\<exists>s'. handle demo_env demo_codec demo_registry ''ov'' (demo_world False)
     \<lparr>rx = frame demo_codec demo_bogus [] @ frame demo_codec [] [], tx = [], chunk_sizes = [2, 7]\<rparr> =
       (Inl UnicodeDecodeError, demo_world False, s') \<and>
     tx s' = case_prod (frame demo_codec) (error_response demo_env (JInt 2) ''unsupported_op'' (AllocatorError ''unsupported_op''))"
proof -
  let ?s = "\<lparr>rx = frame demo_codec demo_bogus [] @ frame demo_codec [] [], tx = [], chunk_sizes = [2, 7]\<rparr>"
  let ?r = "error_response demo_env (JInt 2) ''unsupported_op'' (AllocatorError ''unsupported_op'')"
  have ok: "list_all2 (request_ok demo_codec) [(demo_bogus, [])] [(demo_bogus, [])]"
    by (simp add: request_ok_def demo_codec_def table_codec_def MAX_JSON_BYTES_def demo_memory_def demo_bogus_def)
  have sv: "serve demo_env demo_registry ''ov'' [(demo_bogus, [])] (demo_world False) = ([?r], demo_world False)"
    by (simp add: demo_bogus_def dispatch_def handle_op_def obj_get_def py_simps Let_def response_def error_code_def)
  have f: "list_all (fits demo_codec) [?r]" "fits demo_codec (error_response demo_env JNull ''protocol_error'' ProtocolError)"
    by (simp_all add: demo_codec_def error_response_def)
  let ?h = "take 16 (frame demo_codec [] [])"
  have u: "unpack_header ?h = (MAGIC, VERSION, 0, int (length [255 :: byte]), 0)" "frame demo_codec [] [] = ?h @ [255] @ []" "length ?h = 16"
    by code_simp+
  have "bad_tail demo_codec (?h @ [255] @ []) UnicodeDecodeError"
    by (rule not_text [OF u(3,1)]) (simp_all add: MAX_JSON_BYTES_def demo_codec_def table_codec_def)
  then have bt: "bad_tail demo_codec (frame demo_codec [] []) UnicodeDecodeError" using u(2) by simp
  from bad_frames [OF ok _ bt sv f, of ?s] show ?thesis by simp
qed

section \<open>A remote call\<close>

text \<open>C15: a remote call returns what the daemon computed.  The client's request is dispatched once on the
  daemon's world; if the dispatch raises, the call raises \<open>RpcRemoteError\<close> with the code the handler
  gives that exception, and otherwise it returns the response with the result and the payload.  The
  daemon's world is the one the dispatch left, and the client's next id is one more.\<close>

theorem remote_call:
  assumes "md = call_metadata i op flds" "map_of flds ''id'' = None"
    and "request_ok cd (md, payload) (md, payload)"
    and "dispatch env reg ov md payload w = (outcome, w')"
    and "resp = response env (JInt i) outcome" "request_ok cd resp resp"
    and "rx srv = frame cd md payload" "tx srv = []"
  shows "\<exists>s'. handle env cd reg ov w srv = (Inr (), w', s') \<and>
    (\<forall>c. cl_next_id c = i \<and> rx (cl_sock c) = tx s' \<longrightarrow> (\<exists>c'.
       rpc_call env cd op payload flds c =
         (case outcome of Inl e \<Rightarrow> Inl (RpcRemoteError (error_code e)) | Inr (result, bs) \<Rightarrow> Inr (fst resp, bs), c') \<and>
       cl_next_id c' = i + 1 \<and> tx (cl_sock c') = tx (cl_sock c) @ rx srv \<and> rx (cl_sock c') = []))"
  using call_served [OF assms] .

theorem remote_call_witness:
  "\<exists>s'. handle demo_env demo_codec demo_registry ''ov'' (demo_world False)
      \<lparr>rx = frame demo_codec demo_memory [], tx = [], chunk_sizes = []\<rparr> = (Inr (), demo_world False, s') \<and>
    fst (rpc_call demo_env demo_codec OP_MEMORY [] [] (new_client \<lparr>rx = tx s', tx = [], chunk_sizes = []\<rparr>)) =
      Inr ([(''id'', JInt 1), (''ok'', JBool True), (''result'', JObj [(F_MEMORY, JObj (memory_info demo_alloc2))])], [])"
proof -
  let ?out = "Inr ([(F_MEMORY, JObj (memory_info demo_alloc2))], []) :: (dict \<times> byte list) res"
  let ?srv = "\<lparr>rx = frame demo_codec demo_memory [], tx = [], chunk_sizes = []\<rparr>"
  have md: "demo_memory = call_metadata 1 OP_MEMORY []" by (simp add: demo_memory_def call_metadata_def obj_merge_def)
  have rq: "request_ok demo_codec (demo_memory, []) (demo_memory, [])"
    by (simp add: request_ok_def demo_codec_def table_codec_def MAX_JSON_BYTES_def)
  have dp: "dispatch demo_env demo_registry ''ov'' demo_memory [] (demo_world False) = (?out, demo_world False)"
    by (simp add: demo_memory_def dispatch_def handle_op_def obj_get_def py_simps Let_def demo_world_def)
  have rs: "request_ok demo_codec (response demo_env (JInt 1) ?out) (response demo_env (JInt 1) ?out)"
    by (simp add: request_ok_def demo_codec_def table_codec_def MAX_JSON_BYTES_def response_def demo_memory_def demo_bogus_def)
  from remote_call [OF md _ rq dp refl rs, of ?srv] obtain s' where
    h: "handle demo_env demo_codec demo_registry ''ov'' (demo_world False) ?srv = (Inr (), demo_world False, s')"
    and c: "\<And>c. cl_next_id c = 1 \<Longrightarrow> rx (cl_sock c) = tx s' \<Longrightarrow>
      fst (rpc_call demo_env demo_codec OP_MEMORY [] [] c) = Inr (fst (response demo_env (JInt 1) ?out), [])" by fastforce
  from h c [of "new_client \<lparr>rx = tx s', tx = [], chunk_sizes = []\<rparr>"] show ?thesis by (auto simp: new_client_def response_def)
qed

end
