(* ===== verification/PynqctlProps.thy ===== *)
theory PynqctlProps
  imports PynqctlSpec WireProps
begin

text \<open>
  The properties of the command line of the host: the copy of a tensor by a graph from the command to the
  heap of the board and back, sizes on the command line, exit codes.
\<close>

section \<open>The graph copy test\<close>

text \<open>C13: \<open>graph-copy-smoke\<close> through the whole system: command, client, frames, connection handler, requests, allocator,
  scheduler and \<open>COPY\<close> kernel.  Over a link that carries its requests it exits with 0 and prints an \<open>ok\<close> object when the two
  tensors fit in the free memory, and exits with 2 and prints nothing when they do not; in both cases the tensors, the
  free lists and the bytes of every tensor of the board are as before, also when only the second allocation fails.\<close>

theorem graph_copy_smoke_end_to_end:
  fixes w :: "'e ps_world" and reg :: "('e ps_state_scheme, 'p) registry"
  assumes "alloc_inv (w_alloc w)" "0 < n" "reg = ps_registry env palloc lib"
    and "trace_carried env cd reg ov (graph_copy_trace n (w_alloc w)) w"
  shows "\<exists>w' out. ctl_main (call_runtime (daemon_net env cd reg ov up down) env cd) (GraphCopySmoke n) (c\<lparr>ct_net := w\<rparr>) =
      (Inr (if two_fit n (w_alloc w) then 0 else 2), c\<lparr>ct_net := w', ct_out := ct_out c @ out\<rparr>) \<and>
      heap_restored (w_alloc w) (w_alloc w') \<and>
      (if two_fit n (w_alloc w) then \<exists>d. out = [Printed (JObj ((''ok'', JBool True) # d))] else out = [])"
proof -
  let ?a = "w_alloc w" and ?src = "''graph-copy-src''" and ?dst = "''graph-copy-dst''"
  obtain res a1 where run: "smoke_allocate n ?src ?a = (res, a1)" by (cases "smoke_allocate n ?src ?a")
  obtain res2 a2 where run2: "smoke_allocate n ?dst a1 = (res2, a2)" by (cases "smoke_allocate n ?dst a1")
  consider (none) e where "res = Inl e" | (half) r e where "res = Inr r" "res2 = Inl e" | (both) r r' where "res = Inr r" "res2 = Inr r'"
    by (cases res; cases res2) auto
  then show ?thesis
  proof cases
    case none
    then have "\<not> two_fit n ?a" using run by (simp add: two_fit_def)
    with graph_copy_none [OF assms(1) _ run [unfolded none] assms(4), of up down c] assms(2) show ?thesis by (intro exI [of _ w] exI [of _ "[]"]) simp
  next
    case half
    then have "\<not> two_fit n ?a" using run run2 by (simp add: two_fit_def)
    with graph_copy_one [OF assms(1) _ run [unfolded half] run2 [unfolded half] assms(4), of up down c] assms(2) show ?thesis by auto
  next
    case both
    then have "two_fit n ?a" using run run2 by (simp add: two_fit_def)
    with graph_copy_two [OF assms(1-3) run [unfolded both] run2 [unfolded both] assms(4), of up down c] show ?thesis by auto
  qed
qed

text \<open>A codec that knows the messages of a list of requests.\<close>

fun trace_messages :: "pyenv \<Rightarrow> ('d, 'p) registry \<Rightarrow> string \<Rightarrow> ctl_request list \<Rightarrow> 'd world \<Rightarrow> json list" where
  "trace_messages env reg ov [] w = []"
| "trace_messages env reg ov ((op, pl, flds) # rqs) w =
     (case dispatch env reg ov (call_metadata 1 op flds) pl w of
        (outcome, w') \<Rightarrow> JObj (call_metadata 1 op flds) # JObj (fst (response env (JInt 1) outcome)) # trace_messages env reg ov rqs w')"

definition empty_world :: "ps_state world" where
  "empty_world = (demo_world False)\<lparr>w_alloc := demo_alloc\<rparr>"

lemma table_dumps_index:
  assumes "j \<in> set ks"
  shows "\<exists>i < length ks. table_dumps ks b j = [b + of_nat i] \<and> ks ! i = j"
  using assms
proof (induction ks arbitrary: b)
  case (Cons k ks)
  show ?case
  proof (cases "j = k")
    case True
    then show ?thesis by (intro exI [of _ 0]) simp
  next
    case False
    with Cons.prems have "j \<in> set ks" by simp
    from Cons.IH [OF this, of "b + 1"] obtain i where "i < length ks" "table_dumps ks (b + 1) j = [b + 1 + of_nat i]" "ks ! i = j" by blast
    with False show ?thesis by (intro exI [of _ "Suc i"]) (simp add: algebra_simps)
  qed
qed simp

lemma table_round_trip:
  assumes "j \<in> set ks" "length ks \<le> 255"
  shows "cd_loads (table_codec ks) (cd_dumps (table_codec ks) j) = Inr j"
proof -
  from table_dumps_index [OF assms(1), of 0] obtain i where i: "i < length ks" "table_dumps ks 0 j = [of_nat i]" "ks ! i = j" by auto
  have "unat (of_nat i :: byte) = i" using i(1) assms(2) by (simp add: unat_of_nat)
  with i show ?thesis by (simp add: table_codec_def)
qed

fun payloads_within :: "nat \<Rightarrow> pyenv \<Rightarrow> ('d, 'p) registry \<Rightarrow> string \<Rightarrow> ctl_request list \<Rightarrow> 'd world \<Rightarrow> bool" where
  "payloads_within k env reg ov [] w = True"
| "payloads_within k env reg ov ((op, pl, flds) # rqs) w =
     (case dispatch env reg ov (call_metadata 1 op flds) pl w of
        (outcome, w') \<Rightarrow> length pl \<le> k \<and> length (snd (response env (JInt 1) outcome)) \<le> k \<and> payloads_within k env reg ov rqs w')"

lemma trace_carried_table:
  assumes "set (trace_messages env reg ov rqs w) \<subseteq> set ks" "length ks \<le> 255" "payloads_within k env reg ov rqs w" "k < 2 ^ 32"
  shows "trace_carried env (table_codec ks) reg ov rqs w"
  using assms(1,3)
proof (induction rqs arbitrary: w)
  case (Cons rq rqs)
  obtain op pl flds where rq: "rq = (op, pl, flds)" by (cases rq)
  obtain outcome w' where d: "dispatch env reg ov (call_metadata 1 op flds) pl w = (outcome, w')"
    by (cases "dispatch env reg ov (call_metadata 1 op flds) pl w")
  have ok: "request_ok (table_codec ks) (md, p) (md, p)" if "JObj md \<in> set ks" "length p \<le> k" for md p
    using table_round_trip [OF that(1) assms(2)] that(2) assms(4) by (simp add: request_ok_def MAX_JSON_BYTES_def table_codec_def)
  obtain rmd rpl where r: "response env (JInt 1) outcome = (rmd, rpl)" by (cases "response env (JInt 1) outcome")
  have "carried env (table_codec ks) reg ov (call_metadata 1 op flds) pl w"
    unfolding carried_def Let_def d fst_conv r using Cons.prems rq d r by (auto intro!: ok)
  with Cons rq d show ?case by auto
qed simp

lemma length_trace_messages: "length (trace_messages env reg ov rqs w) = 2 * length rqs"
  by (induction env reg ov rqs w rule: trace_messages.induct) (auto split: prod.splits)

definition copy_codec :: codec where
  "copy_codec = table_codec (trace_messages demo_env demo_registry ''ov'' (graph_copy_trace 3 demo_alloc) empty_world)"

definition fresh_ctl :: "ps_state world ctl" where
  "fresh_ctl = \<lparr>ct_net = empty_world, ct_files = (\<lambda>_. None), ct_writable = (\<lambda>_. False), ct_stdin = [], ct_out = []\<rparr>"

theorem graph_copy_smoke_end_to_end_witness:
  "\<exists>w' d. ctl_main (call_runtime (daemon_net demo_env copy_codec demo_registry ''ov'' [] [1, 2]) demo_env copy_codec) (GraphCopySmoke 3) fresh_ctl =
     (Inr 0, fresh_ctl\<lparr>ct_net := w', ct_out := [Printed (JObj ((''ok'', JBool True) # d))]\<rparr>) \<and> al_records (w_alloc w') = []"
proof -
  have a: "w_alloc empty_world = demo_alloc" by (simp add: empty_world_def)
  have fit: "two_fit 3 demo_alloc" by code_simp
  have tr: "trace_carried demo_env copy_codec demo_registry ''ov'' (graph_copy_trace 3 (w_alloc empty_world)) empty_world"
  proof -
    have "length (graph_copy_trace 3 demo_alloc) = 7" by code_simp
    moreover have "payloads_within 3 demo_env demo_registry ''ov'' (graph_copy_trace 3 demo_alloc) empty_world" by code_simp
    ultimately show ?thesis unfolding a copy_codec_def
      by (intro trace_carried_table [where k = 3]) (simp_all add: length_trace_messages)
  qed
  have "fresh_ctl\<lparr>ct_net := empty_world\<rparr> = fresh_ctl" "ct_out fresh_ctl = []" "al_records demo_alloc = []"
    by (simp_all add: fresh_ctl_def demo_alloc_def)
  with graph_copy_smoke_end_to_end [OF _ _ demo_registry_def tr, of "[]" "[1, 2]" fresh_ctl] demo_inv fit a
  show ?thesis by (auto simp: heap_restored_def)
qed

section \<open>Sizes on the command line\<close>

lemma show_nat_digits: "c \<in> set (show_nat n) \<Longrightarrow> \<exists>d < 10. c = char_of (48 + d :: nat)"
proof (induction n arbitrary: c rule: show_nat.induct)
  case (1 n)
  show ?case
  proof (cases "n < 10")
    case True
    with "1.prems" show ?thesis by (auto simp: show_nat.simps [of n])
  next
    case False
    have m: "n mod 10 < 10" by simp
    from False "1.prems" have "c \<in> set (show_nat (n div 10)) \<or> c = char_of (48 + n mod 10)" by (auto simp: show_nat.simps [of n])
    with "1.IH" [OF False] m show ?thesis by blast
  qed
qed

lemma show_nat_nonempty [simp]: "show_nat n \<noteq> []"
  by (simp add: show_nat.simps [of n])

lemma digit_char:
  assumes "c \<in> set (show_nat n)"
  shows "\<not> is_space c" "\<not> is_alpha c" "lower_char c = c" "c \<noteq> CHR ''_''" "c \<noteq> CHR ''-''" "c \<noteq> CHR ''+''"
proof -
  from show_nat_digits [OF assms] obtain d :: nat where d: "d < 10" "c = char_of (48 + d)" by blast
  then have v: "(of_char c :: nat) = 48 + d" by simp
  show "\<not> is_space c" "\<not> is_alpha c" "lower_char c = c" using d(1) v by (simp_all add: is_space_def is_alpha_def lower_char_def Let_def)
  show "c \<noteq> CHR ''_''" "c \<noteq> CHR ''-''" "c \<noteq> CHR ''+''" using d(1) v by auto
qed

lemma parse_base_append:
  "parse_base 10 acc after (show_nat n @ cs) = parse_base 10 (acc * 10 ^ length (show_nat n) + int n) True cs"
proof (induction n arbitrary: acc after cs rule: show_nat.induct)
  case (1 n)
  have dg: "digit_val (char_of (48 + d :: nat)) = Some (int d)" if "d < 10" for d using that by (simp add: digit_val_def)
  show ?case
  proof (cases "n < 10")
    case True
    then show ?thesis by (simp add: show_nat.simps [of n] dg)
  next
    case False
    have "n mod 10 < 10" "int n = int (n div 10) * 10 + int (n mod 10)" by (simp, presburger)
    with False "1.IH" [OF False] show ?thesis by (simp add: show_nat.simps [of n] dg algebra_simps)
  qed
qed

lemma show_nat_head: "0 < n \<Longrightarrow> hd (show_nat n) \<noteq> CHR ''0''"
proof (induction n rule: show_nat.induct)
  case (1 n)
  show ?case
  proof (cases "n < 10")
    case True
    then have "(of_char (hd (show_nat n)) :: nat) = 48 + n" by (simp add: show_nat.simps [of n])
    then show ?thesis using "1.prems" by auto
  next
    case False
    then show ?thesis using "1.IH" [OF False] by (simp add: show_nat.simps [of n] hd_append)
  qed
qed

lemma strip_idem: "s \<noteq> [] \<Longrightarrow> \<not> is_space (hd s) \<Longrightarrow> \<not> is_space (last s) \<Longrightarrow> strip s = s"
proof -
  assume s: "s \<noteq> []" "\<not> is_space (hd s)" "\<not> is_space (last s)"
  have "dropWhile is_space s = s" using s(1,2) by (cases s) auto
  moreover have "dropWhile is_space (rev s) = rev s" using s(1,3) by (cases s rule: rev_cases) auto
  ultimately show "strip s = s" by (simp add: strip_def)
qed

lemma strip_show_nat: "strip (show_nat n) = show_nat n"
  using digit_char(1) [of "hd (show_nat n)" n] digit_char(1) [of "last (show_nat n)" n] by (intro strip_idem) auto

lemma parse_unsigned0_show: "parse_unsigned0 (show_nat n) = Some (int n)"
proof (cases "n = 0")
  case True
  have "char_of (48 :: nat) = CHR ''0''" by code_simp
  with True show ?thesis by (simp add: parse_unsigned0_def show_nat.simps [of 0])
next
  case False
  then obtain c cs where c: "show_nat n = c # cs" "c \<noteq> CHR ''0''" using show_nat_head [of n] by (cases "show_nat n") auto
  have "parse_base 10 0 False (show_nat n) = Some (int n)" using parse_base_append [of 0 False n "[]"] by simp
  with c show ?thesis by (simp add: parse_unsigned0_def)
qed

lemma parse_int0_show: "parse_int0 (show_nat n) = Inr (int n)"
proof -
  obtain c cs where c: "show_nat n = c # cs" by (cases "show_nat n") auto
  have "c \<noteq> CHR ''-''" "c \<noteq> CHR ''+''" using digit_char(5,6) [of c n] c by auto
  with c show ?thesis using strip_show_nat [of n] parse_unsigned0_show [of n] by (simp add: parse_int0_def)
qed

lemma suffix_start_append:
  assumes "ds \<noteq> []" "\<not> is_alpha (last ds)" "\<forall>c \<in> set sfx. is_alpha c" "k \<le> length sfx"
  shows "suffix_start (ds @ sfx) (length ds + k) = length ds"
  using assms(4)
proof (induction k)
  case 0
  have "ds ! (length ds - 1) = last ds" using assms(1) by (simp add: last_conv_nth)
  with assms(1,2) show ?case by (cases "length ds") (auto simp: nth_append)
next
  case (Suc k)
  then have "is_alpha (sfx ! k)" using assms(3) by (simp add: Suc_le_eq)
  with Suc show ?case by (simp add: nth_append)
qed

lemma lower_alpha: "is_alpha (lower_char c) \<longleftrightarrow> is_alpha c" "is_alpha c \<Longrightarrow> \<not> is_space c" "is_alpha c \<Longrightarrow> lower_char c \<noteq> CHR ''_''"
proof -
  show a: "is_alpha (lower_char c) \<longleftrightarrow> is_alpha c" "is_alpha c \<Longrightarrow> \<not> is_space c"
    by (auto simp: is_alpha_def lower_char_def is_space_def Let_def split: if_splits)
  have "\<not> is_alpha (CHR ''_'')" by (simp add: is_alpha_def)
  then show "is_alpha c \<Longrightarrow> lower_char c \<noteq> CHR ''_''" using a(1) by metis
qed

lemma suffix_letters: "map_of SIZE_SUFFIXES sfx = Some m \<Longrightarrow> \<forall>c \<in> set sfx. is_alpha c"
  by (auto simp: SIZE_SUFFIXES_def is_alpha_def split: if_splits)

lemma parse_size_split:
  assumes "\<forall>c \<in> set sfx. is_alpha c"
  shows "parse_size (show_nat n @ sfx) =
    (case map_of SIZE_SUFFIXES (if sfx = [] then ''b'' else map lower_char sfx) of
       None \<Rightarrow> Inl ArgumentTypeError
     | Some m \<Rightarrow> if int n * m < 0 then Inl ArgumentTypeError else Inr (int n * m))"
proof -
  let ?t = "show_nat n @ sfx" and ?s = "map lower_char sfx"
  have "last ?t \<in> set (show_nat n) \<or> last ?t \<in> set sfx" by (cases "sfx = []") auto
  then have "\<not> is_space (last ?t)" using digit_char(1) assms lower_alpha(2) by blast
  moreover have "\<not> is_space (hd ?t)" using digit_char(1) [of "hd ?t" n] by (simp add: hd_append)
  ultimately have st: "strip ?t = ?t" by (intro strip_idem) auto
  have lo: "map lower_char ?t = show_nat n @ ?s" by (simp add: map_idI digit_char(3))
  have us: "filter (\<lambda>c. c \<noteq> CHR ''_'') (show_nat n @ ?s) = show_nat n @ ?s"
  proof (rule filter_True, rule ballI)
    fix c assume "c \<in> set (show_nat n @ ?s)"
    then consider "c \<in> set (show_nat n)" | d where "d \<in> set sfx" "c = lower_char d" by auto
    then show "c \<noteq> CHR ''_''"
    proof cases
      case 1
      then show ?thesis by (rule digit_char(4))
    next
      case 2
      with assms lower_alpha(3) [of d] show ?thesis by simp
    qed
  qed
  have cut: "suffix_start (show_nat n @ ?s) (length (show_nat n @ ?s)) = length (show_nat n)"
    using digit_char(2) [of "last (show_nat n)" n] assms lower_alpha(1) suffix_start_append [of "show_nat n" ?s "length ?s"] by simp
  have td: "take (length (show_nat n)) (show_nat n @ ?s) = show_nat n" "drop (length (show_nat n)) (show_nat n @ ?s) = ?s" by simp_all
  show ?thesis
    unfolding parse_size_def st lo us Let_def cut td by (simp add: parse_int0_show split: option.splits)
qed

text \<open>A size on the command line is a number and a unit.  A decimal number, followed by nothing or by one of the units \<open>b\<close>, \<open>k\<close>,
  \<open>kb\<close>, \<open>kib\<close>, \<open>m\<close> and so on in any case of letters, is parsed as the number times the unit; a decimal number
  followed by any other letters is rejected.\<close>

lemma parse_size_reads:
  assumes "\<forall>c \<in> set sfx. is_alpha c"
  shows "parse_size (show_nat n @ sfx) =
    (if sfx = [] then Inr (int n)
     else case map_of SIZE_SUFFIXES (map lower_char sfx) of None \<Rightarrow> Inl ArgumentTypeError | Some m \<Rightarrow> Inr (int n * m))"
proof -
  have pos: "0 < m" if "map_of SIZE_SUFFIXES s = Some m" for s m
    using that by (auto simp: SIZE_SUFFIXES_def split: if_splits)
  have b: "map_of SIZE_SUFFIXES ''b'' = Some 1" by (simp add: SIZE_SUFFIXES_def)
  show ?thesis unfolding parse_size_split [OF assms] using b pos
    by (auto simp: mult_less_0_iff split: option.splits dest: order.strict_trans)
qed

lemma parse_size_reads_witness: "parse_size ''64KiB'' = Inr 65536 \<and> parse_size ''64x'' = Inl ArgumentTypeError"
proof -
  have n: "show_nat 64 = ''64''" by code_simp
  have k: "map lower_char ''KiB'' = ''kib''" "map lower_char ''x'' = ''x''" by code_simp+
  have "parse_size (show_nat 64 @ ''KiB'') = Inr (64 * 1024)"
    by (subst parse_size_reads) (simp_all only: k, simp_all add: is_alpha_def SIZE_SUFFIXES_def)
  moreover have "parse_size (show_nat 64 @ ''x'') = Inl ArgumentTypeError"
    by (subst parse_size_reads) (simp_all only: k, simp_all add: is_alpha_def SIZE_SUFFIXES_def)
  ultimately show ?thesis by (simp add: n)
qed

text \<open>
  A hexadecimal size loses its last digits when they are letters: \<open>int\<close> would read \<open>0x1b\<close> as 27, the parser takes the \<open>b\<close> for the unit
  and reads 1; \<open>0x1f\<close> has an unknown unit.
\<close>

lemma parse_size_hexadecimal:
  "parse_int0 ''0x1b'' = Inr 27" "parse_size ''0x1b'' = Inr 1" "parse_size ''0x1f'' = Inl ArgumentTypeError"
  by code_simp+

section \<open>A daemon that hangs up\<close>

text \<open>
  When the peer closes the connection without an answer, the call raises \<open>EOFError\<close>, which \<open>main\<close> does not
  catch: the command ends with a traceback and not with an exit code.
\<close>

lemma hang_up_not_caught:
  assumes "nt_connect net = py_ret ()" "\<And>bs s. nt_exchange net bs s = ([], [], s)" "fits cd (call_metadata 1 ''MEMORY'' [], [])"
  shows "fst (ctl_main (call_runtime net env cd) Memory c) = Inl EOFError"
proof -
  let ?md = "call_metadata 1 ''MEMORY'' []"
  let ?s = "(fresh_sock [] [])\<lparr>tx := frame cd ?md []\<rparr>"
  have send: "send_message cd ?md [] (fresh_sock [] []) = (Inr (), ?s)"
    using assms(3) send_message_frame [of cd ?md "[]" "fresh_sock [] []"] by (simp add: fits_def fresh_sock_def)
  have "rx ?s = []" by (simp add: fresh_sock_def)
  from recv_message_eof [OF this, of cd] obtain cs where "recv_message cd ?s = (Inl EOFError, ?s\<lparr>rx := [], chunk_sizes := cs\<rparr>)" by blast
  with send have "fst (rpc_call env cd ''MEMORY'' [] [] (new_client (fresh_sock [] []))) = Inl EOFError"
    by (simp add: rpc_call_def new_client_def py_simps on_sock_def)
  with assms(1,2) show ?thesis
    by (simp add: ctl_main_def cmd_memory_def py_simps on_net_def call_runtime_def exchange_call_def exit_code_def)
qed

end
