(* ===== verification/Profile.thy ===== *)
theory Profile
  imports Client
begin

text \<open>
  The reporter of profiles, \<^verbatim>\<open>host/cli/pynq-profile.py\<close>: it reads the event logs that the host and the daemon
  write, groups their events by request, and adds up durations and bytes per operation, or lays the
  operations out one after the other for a flame graph.  A file is a list of lines; \<open>json.loads\<close> is a
  parameter.  A report is its numbers, in the order they are printed; the layout of the text is not modelled.
\<close>

section \<open>Reading\<close>

text \<open>\<open>iter_events\<close>: blank lines are skipped, and lines that are not JSON with a warning.\<close>

fun file_events :: "(string \<Rightarrow> json res) \<Rightarrow> string list \<Rightarrow> json list res" where
  "file_events loads [] = Inr []"
| "file_events loads (raw # lines) =
     (if strip raw = [] then file_events loads lines
      else (case loads (strip raw) of
          Inl JSONDecodeError \<Rightarrow> file_events loads lines
        | Inl e \<Rightarrow> Inl e
        | Inr ev \<Rightarrow> bindR (file_events loads lines) (\<lambda>evs. Inr (ev # evs))))"

fun iter_events :: "(string \<Rightarrow> json res) \<Rightarrow> (string \<Rightarrow> string list option) \<Rightarrow> string list \<Rightarrow> json list res" where
  "iter_events loads files [] = Inr []"
| "iter_events loads files (path # paths) =
     (case files path of
        None \<Rightarrow> Inl FileNotFoundError
      | Some lines \<Rightarrow> bindR (file_events loads lines) (\<lambda>evs. bindR (iter_events loads files paths) (\<lambda>rest. Inr (evs @ rest))))"

section \<open>Dictionaries with JSON values as keys\<close>

text \<open>
  Two keys are the same when they compare equal: \<open>1\<close>, \<open>1.0\<close> and \<open>True\<close> are one key, a NaN is the key of no
  other value.  Lists and objects have no hash.
\<close>

datatype key = KInt int | KFloat "64 word" | KStr string | KNone

definition float_key :: "64 word \<Rightarrow> key" where
  "float_key w = (case float_trunc w of Inr n \<Rightarrow> if float_is_int w n then KInt n else KFloat w | Inl _ \<Rightarrow> KFloat w)"

fun py_key :: "json \<Rightarrow> key res" where
  "py_key JNull = Inr KNone"
| "py_key (JBool b) = Inr (KInt (if b then 1 else 0))"
| "py_key (JInt i) = Inr (KInt i)"
| "py_key (JFloat w) = Inr (float_key w)"
| "py_key (JStr s) = Inr (KStr s)"
| "py_key _ = Inl TypeError"

fun key_eq :: "key \<Rightarrow> key \<Rightarrow> bool" where
  "key_eq (KFloat w) k = (k = KFloat w \<and> float_trunc w \<noteq> Inl ValueError)"
| "key_eq k k' = (k = k')"

fun key_find :: "key \<Rightarrow> (key \<times> 'v) list \<Rightarrow> 'v option" where
  "key_find k [] = None"
| "key_find k ((k', v) # d) = (if key_eq k k' then Some v else key_find k d)"

text \<open>\<open>d[k] = v\<close>: in place, or at the end for a new key.\<close>

fun key_set :: "key \<Rightarrow> 'v \<Rightarrow> (key \<times> 'v) list \<Rightarrow> (key \<times> 'v) list" where
  "key_set k v [] = [(k, v)]"
| "key_set k v ((k', v') # d) = (if key_eq k k' then (k', v) # d else (k', v') # key_set k v d)"

section \<open>Correlation\<close>

record rpc_entry =
  rc_req_id :: json
  rc_op :: json
  rc_send_us :: "int option"
  rc_recv_us :: "int option"
  rc_send_bytes :: int
  rc_recv_bytes :: int
  rc_graph_us :: "int option"
  rc_bytes_read :: int
  rc_bytes_written :: int
  rc_spans :: "dict list"

definition new_entry :: "json \<Rightarrow> json \<Rightarrow> rpc_entry" where
  "new_entry req_id op =
     \<lparr>rc_req_id = req_id, rc_op = op, rc_send_us = None, rc_recv_us = None, rc_send_bytes = 0, rc_recv_bytes = 0,
      rc_graph_us = None, rc_bytes_read = 0, rc_bytes_written = 0, rc_spans = []\<rparr>"

definition round_trip_us :: "rpc_entry \<Rightarrow> int option" where
  "round_trip_us c =
     (case (rc_send_us c, rc_recv_us c) of (Some s, Some r) \<Rightarrow> Some (r - s) | _ \<Rightarrow> None)"

definition rpc_overhead_us :: "rpc_entry \<Rightarrow> int option" where
  "rpc_overhead_us c =
     (case (round_trip_us c, rc_graph_us c) of (Some rt, Some g) \<Rightarrow> Some (max 0 (rt - g)) | _ \<Rightarrow> None)"

type_synonym calls = "(key \<times> rpc_entry) list"

text \<open>\<open>get\<close>: the entry of a request, made when it is new, its operation filled in when it was not known.\<close>

definition hinted :: "json \<Rightarrow> rpc_entry \<Rightarrow> rpc_entry" where
  "hinted op_hint c = (if op_hint \<noteq> JStr ''?'' \<and> rc_op c = JStr ''?'' then c\<lparr>rc_op := op_hint\<rparr> else c)"

definition get_entry :: "key \<Rightarrow> json \<Rightarrow> json \<Rightarrow> calls \<Rightarrow> rpc_entry" where
  "get_entry k req_id op_hint calls =
     hinted op_hint (case key_find k calls of None \<Rightarrow> new_entry req_id op_hint | Some c \<Rightarrow> c)"

definition int_field :: "dict \<Rightarrow> string \<Rightarrow> int res" where
  "int_field d f = py_int (obj_get d f (JInt 0))"

text \<open>What one event does to the entry of its request.\<close>

definition note_event :: "dict \<Rightarrow> int \<Rightarrow> rpc_entry \<Rightarrow> rpc_entry res" where
  "note_event ev t_us c =
     (let knd = obj_get ev ''kind'' JNull in
      if knd = JStr ''rpc_send'' then
        bindR (int_field ev ''bytes'') (\<lambda>n. Inr (c\<lparr>rc_send_us := Some t_us, rc_send_bytes := n\<rparr>))
      else if knd = JStr ''rpc_recv'' then
        bindR (int_field ev ''bytes'') (\<lambda>n. Inr (c\<lparr>rc_recv_us := Some t_us, rc_recv_bytes := n\<rparr>))
      else if knd = JStr ''graph_end'' then
        bindR (int_field ev ''elapsed_us'') (\<lambda>g.
        bindR (int_field ev ''bytes_read'') (\<lambda>r.
        bindR (int_field ev ''bytes_written'') (\<lambda>w.
          Inr (c\<lparr>rc_graph_us := Some g, rc_bytes_read := r, rc_bytes_written := w\<rparr>))))
      else Inr (c\<lparr>rc_spans := rc_spans c @ [ev]\<rparr>))"

definition noted_kinds :: "json list" where
  "noted_kinds = [JStr ''rpc_send'', JStr ''rpc_recv'', JStr ''graph_end'', JStr ''op_end'']"

definition event_hint :: "dict \<Rightarrow> json" where
  "event_hint ev = (if obj_get ev ''kind'' JNull = JStr ''rpc_send'' then obj_get ev ''op'' (JStr ''?'') else JStr ''?'')"

fun correlate_event :: "json \<Rightarrow> calls \<Rightarrow> calls res" where
  "correlate_event (JObj ev) calls =
     (let req_id = obj_get ev ''req_id'' JNull in
      if req_id = JNull then Inr calls
      else
        bindR (int_field ev ''t_us'') (\<lambda>t_us.
        if obj_get ev ''kind'' JNull \<notin> set noted_kinds then Inr calls
        else
          bindR (py_key req_id) (\<lambda>k.
          bindR (note_event ev t_us (get_entry k req_id (event_hint ev) calls)) (\<lambda>c. Inr (key_set k c calls)))))"
| "correlate_event _ calls = Inl AttributeError"

definition correlate :: "json list \<Rightarrow> calls res" where
  "correlate events = foldR (\<lambda>calls ev. correlate_event ev calls) [] events"

section \<open>Summary\<close>

text \<open>The dictionaries per operation, which have the same keys in the same order, as one dictionary of records.\<close>

record op_stat =
  os_total :: int
  os_calls :: int
  os_durations :: "int list"
  os_bytes :: int

type_synonym sections = "(string \<times> int) list"

record op_tables =
  ot_ops :: "(string \<times> op_stat) list"
  ot_sections :: "(string \<times> sections) list"

definition zero_stat :: op_stat where
  "zero_stat = \<lparr>os_total = 0, os_calls = 0, os_durations = [], os_bytes = 0\<rparr>"

definition default_get :: "'v \<Rightarrow> (string \<times> 'v) list \<Rightarrow> string \<Rightarrow> 'v" where
  "default_get v d k = (case map_of d k of None \<Rightarrow> v | Some x \<Rightarrow> x)"

definition add_stat :: "string \<Rightarrow> int \<Rightarrow> int \<Rightarrow> (string \<times> op_stat) list \<Rightarrow> (string \<times> op_stat) list" where
  "add_stat name us nbytes d =
     (let o0 = default_get zero_stat d name in
      AList.update name \<lparr>os_total = os_total o0 + us, os_calls = os_calls o0 + 1, os_durations = os_durations o0 @ [us],
        os_bytes = os_bytes o0 + nbytes\<rparr> d)"

text \<open>
  \<open>op_sections[name][key[:-3]] += int(value)\<close>: the two subscripts are evaluated, and make their entries, before
  the conversion that may raise.
\<close>

definition add_section :: "string \<Rightarrow> string \<Rightarrow> int \<Rightarrow> (string \<times> sections) list \<Rightarrow> (string \<times> sections) list" where
  "add_section name key v d =
     (let inner = default_get [] d name in AList.update name (AList.update key (default_get 0 inner key + v) inner) d)"

fun span_sections :: "string \<Rightarrow> dict \<Rightarrow> (string \<times> sections) list \<Rightarrow> (string \<times> sections) list res" where
  "span_sections name [] d = Inr d"
| "span_sections name ((key, v) # items) d =
     (if key = ''total_us'' \<or> key = ''t_us'' \<or> \<not> us_suffix key then span_sections name items d
      else
        (let section = take (length key - 3) key in
         case py_int v of
           Inr n \<Rightarrow> span_sections name items (add_section name section n d)
         | Inl e \<Rightarrow> if e = TypeError \<or> is_value_error e then span_sections name items (add_section name section 0 d) else Inl e))"

definition add_span :: "pyenv \<Rightarrow> op_tables \<Rightarrow> dict \<Rightarrow> op_tables res" where
  "add_span env t span =
     (let name = py_str env (obj_get span ''op'' (JStr ''?'')) in
      bindR (int_field span ''total_us'') (\<lambda>us.
      bindR (int_field span ''bytes_read'') (\<lambda>r.
      bindR (int_field span ''bytes_written'') (\<lambda>w.
      bindR (span_sections name span (ot_sections t)) (\<lambda>secs.
        Inr \<lparr>ot_ops = add_stat name us (r + w) (ot_ops t), ot_sections = secs\<rparr>)))))"

definition all_spans :: "calls \<Rightarrow> dict list" where
  "all_spans calls = concat (map (\<lambda>(k, c). rc_spans c) calls)"

definition op_tables_of :: "pyenv \<Rightarrow> calls \<Rightarrow> op_tables res" where
  "op_tables_of env calls = foldR (add_span env) \<lparr>ot_ops = [], ot_sections = []\<rparr> (all_spans calls)"

text \<open>\<open>sum(int(s.get(f, 0)) for ...)\<close>\<close>

definition sum_field :: "string \<Rightarrow> dict list \<Rightarrow> int res" where
  "sum_field f spans = bindR (mapR (\<lambda>s. int_field s f) spans) (\<lambda>ns. Inr (sum_list ns))"

definition or_zero :: "int option \<Rightarrow> int" where
  "or_zero x = (case x of None \<Rightarrow> 0 | Some v \<Rightarrow> v)"

text \<open>The table of the requests by operation.\<close>

record rpc_stat =
  rs_op :: json
  rs_total :: int
  rs_calls :: int
  rs_bytes :: int

definition add_rpc :: "(key \<times> rpc_stat) list \<Rightarrow> rpc_entry \<Rightarrow> (key \<times> rpc_stat) list res" where
  "add_rpc d c =
     (case round_trip_us c of
        None \<Rightarrow> Inr d
      | Some rt \<Rightarrow> bindR (py_key (rc_op c)) (\<lambda>k.
          let r = (case key_find k d of None \<Rightarrow> \<lparr>rs_op = rc_op c, rs_total = 0, rs_calls = 0, rs_bytes = 0\<rparr> | Some r \<Rightarrow> r)
          in Inr (key_set k (r\<lparr>rs_total := rs_total r + rt, rs_calls := rs_calls r + 1,
                    rs_bytes := rs_bytes r + (rc_send_bytes c + rc_recv_bytes c)\<rparr>) d)))"

text \<open>\<open>sorted(items, key, reverse=True)\<close> keeps the order of items with the same key.\<close>

definition sorted_desc :: "('a \<Rightarrow> int) \<Rightarrow> 'a list \<Rightarrow> 'a list" where
  "sorted_desc f xs = sort_key (\<lambda>x. - f x) xs"

text \<open>
  \<open>int(0.99 * n)\<close>: the float 0.99 is \<open>8917127262193582 / 2 ^ 53\<close>, and the product is rounded to 53 bits, ties to even.
\<close>

definition round53 :: "nat \<Rightarrow> nat" where
  "round53 p =
     (let l = bit_length_nat p in
      if l \<le> 53 then p
      else
        let sh = l - 53; q = p div 2 ^ sh; r = p mod 2 ^ sh; half = 2 ^ (sh - 1)
        in (if half < r \<or> r = half \<and> odd q then q + 1 else q) * 2 ^ sh)"

definition p99_index :: "nat \<Rightarrow> nat" where
  "p99_index n = nat (max 0 (int (round53 (8917127262193582 * n) div 2 ^ 53) - 1))"

definition p99_of :: "int list \<Rightarrow> int res" where
  "p99_of durations =
     (let durs = sort durations in
      if durs = [] then Inr 0 else py_index durs (int (p99_index (length durs))))"

record op_row =
  or_name :: string
  or_calls :: int
  or_total :: int
  or_avg :: int
  or_p99 :: int
  or_bytes :: int

definition op_row_of :: "string \<times> op_stat \<Rightarrow> op_row res" where
  "op_row_of = (\<lambda>(name, o1). bindR (p99_of (os_durations o1)) (\<lambda>p.
     Inr \<lparr>or_name = name, or_calls = os_calls o1, or_total = os_total o1,
       or_avg = (if os_calls o1 \<noteq> 0 then os_total o1 div os_calls o1 else 0), or_p99 = p, or_bytes = os_bytes o1\<rparr>))"

record summary =
  sm_calls :: nat
  sm_rt :: int
  sm_compute :: int
  sm_memory :: int
  sm_rpc :: int
  sm_by_rpc :: "rpc_stat list"
  sm_by_op :: "op_row list"
  sm_sections :: "(string \<times> int \<times> int \<times> sections) list"

text \<open>Which operations have a section breakdown, and its lines.\<close>

definition section_rows :: "op_tables \<Rightarrow> (string \<times> op_stat) list \<Rightarrow> (string \<times> int \<times> int \<times> sections) list" where
  "section_rows t ordered =
     map (\<lambda>(name, o1). (name, os_calls o1, os_total o1, sorted_desc snd (default_get [] (ot_sections t) name)))
       (filter (\<lambda>(name, o1). length (default_get [] (ot_sections t) name) > 1) ordered)"

definition summarize :: "pyenv \<Rightarrow> calls \<Rightarrow> summary res" where
  "summarize env calls =
     (let total_rt = sum_list (map (\<lambda>(k, c). or_zero (round_trip_us c)) calls);
          total_rpc = sum_list (map (\<lambda>(k, c). or_zero (rpc_overhead_us c)) calls) in
      bindR (op_tables_of env calls) (\<lambda>t.
      bindR (sum_field ''compute_us'' (all_spans calls)) (\<lambda>compute.
      bindR (sum_field ''read_us'' (all_spans calls)) (\<lambda>rd.
      bindR (sum_field ''write_us'' (all_spans calls)) (\<lambda>wr.
      bindR (foldR (\<lambda>d (k, c). add_rpc d c) [] calls) (\<lambda>rpcs.
      let ordered = sorted_desc (\<lambda>(name, o1). os_total o1) (ot_ops t) in
      bindR (mapR op_row_of ordered) (\<lambda>rows.
        Inr \<lparr>sm_calls = length calls, sm_rt = total_rt, sm_compute = compute, sm_memory = rd + wr, sm_rpc = total_rpc,
          sm_by_rpc = sorted_desc rs_total (map snd rpcs), sm_by_op = rows, sm_sections = section_rows t ordered\<rparr>)))))))"

definition cmd_summary :: "pyenv \<Rightarrow> (string \<Rightarrow> json res) \<Rightarrow> (string \<Rightarrow> string list option) \<Rightarrow> string list \<Rightarrow> (int \<times> summary option) res" where
  "cmd_summary env loads files paths =
     bindR (iter_events loads files paths) (\<lambda>evs.
     bindR (correlate evs) (\<lambda>calls.
       if calls = [] then Inr (1, None) else bindR (summarize env calls) (\<lambda>s. Inr (0, Some s))))"

section \<open>Speedscope\<close>

record frames =
  fr_index :: "(key \<times> nat) list"
  fr_shared :: "json list"

definition frame_id :: "json \<Rightarrow> frames \<Rightarrow> (nat \<times> frames) res" where
  "frame_id name f =
     bindR (py_key name) (\<lambda>k.
       case key_find k (fr_index f) of
         Some i \<Rightarrow> Inr (i, f)
       | None \<Rightarrow> Inr (length (fr_shared f),
           \<lparr>fr_index = key_set k (length (fr_shared f)) (fr_index f), fr_shared = fr_shared f @ [name]\<rparr>))"

fun place_spans :: "dict list \<Rightarrow> frames \<Rightarrow> ((int \<times> nat) list \<times> frames) res" where
  "place_spans [] f = Inr ([], f)"
| "place_spans (span # spans) f =
     bindR (int_field span ''total_us'') (\<lambda>dur.
       if dur \<le> 0 then place_spans spans f
       else
         bindR (frame_id (obj_get span ''op'' (JStr ''?'')) f) (\<lambda>(i, f1).
         bindR (place_spans spans f1) (\<lambda>(rest, f2). Inr ((dur, i) # rest, f2))))"

datatype flame_event = OpenFrame int nat | CloseFrame int nat

fun flame_events :: "int \<Rightarrow> (int \<times> nat) list \<Rightarrow> flame_event list \<times> int" where
  "flame_events cursor [] = ([], cursor)"
| "flame_events cursor ((dur, i) # spans) =
     (case flame_events (cursor + dur) spans of
        (evs, stop) \<Rightarrow> (OpenFrame cursor i # CloseFrame (cursor + dur) i # evs, stop))"

record flame =
  fl_frames :: "json list"
  fl_events :: "flame_event list"
  fl_end :: int

definition speedscope :: "calls \<Rightarrow> flame res" where
  "speedscope calls =
     (let ordered = sort_key (\<lambda>(k, c). or_zero (rc_send_us c)) calls in
      bindR (place_spans (all_spans ordered) \<lparr>fr_index = [], fr_shared = []\<rparr>) (\<lambda>(spans, f).
        case flame_events 0 spans of
          (evs, stop) \<Rightarrow> Inr \<lparr>fl_frames = fr_shared f, fl_events = evs, fl_end = stop\<rparr>))"

definition cmd_speedscope :: "(string \<Rightarrow> json res) \<Rightarrow> (string \<Rightarrow> string list option) \<Rightarrow> string list \<Rightarrow> (int \<times> flame) res" where
  "cmd_speedscope loads files paths =
     bindR (iter_events loads files paths) (\<lambda>evs.
     bindR (correlate evs) (\<lambda>calls. bindR (speedscope calls) (\<lambda>f. Inr (0, f))))"

end
