(* ===== verification/ProfileProps.thy ===== *)
theory ProfileProps
  imports Profile "HOL-Library.Multiset"
begin

text \<open>
  The properties of the reporter of profiles: the order of the log files does not matter, the totals of the
  summary account for every span, and the flame graph is well formed.
\<close>

section \<open>Events with integer request ids\<close>

definition same_entries :: "calls \<Rightarrow> calls \<Rightarrow> bool" where
  "same_entries c d \<longleftrightarrow> (\<forall>k. key_find k c = key_find k d)"

fun int_event :: "json \<Rightarrow> bool" where
  "int_event (JObj ev) = (case obj_get ev ''req_id'' JNull of JInt i \<Rightarrow> True | JNull \<Rightarrow> True | _ \<Rightarrow> False)"
| "int_event _ = False"

fun event_kind :: "json \<Rightarrow> json" where
  "event_kind (JObj ev) = obj_get ev ''kind'' JNull"
| "event_kind _ = JNull"

definition host_event :: "json \<Rightarrow> bool" where
  "host_event e \<longleftrightarrow> int_event e \<and> event_kind e \<in> set [JStr ''rpc_send'', JStr ''rpc_recv'', JStr ''rpc_error'']"

definition board_event :: "json \<Rightarrow> bool" where
  "board_event e \<longleftrightarrow> int_event e \<and> event_kind e \<notin> set [JStr ''rpc_send'', JStr ''rpc_recv'']"

text \<open>What an event does to the entry of its request, when it has one and is noted.\<close>

definition entry_step :: "dict \<Rightarrow> int \<Rightarrow> int \<Rightarrow> rpc_entry option \<Rightarrow> rpc_entry res" where
  "entry_step ev i t_us o1 =
     note_event ev t_us (hinted (event_hint ev) (case o1 of None \<Rightarrow> new_entry (JInt i) (event_hint ev) | Some c \<Rightarrow> c))"

lemma key_find_set_int: "key_find k (key_set (KInt i) v d) = (if k = KInt i then Some v else key_find k d)"
proof (induction d)
  case Nil
  show ?case by (cases k) auto
next
  case (Cons p d)
  obtain k' v' where p: "p = (k', v')" by (cases p)
  show ?case using Cons by (cases k) (auto simp: p)
qed

lemma int_event_cases:
  assumes "int_event e"
  obtains (quiet_event) r where "\<And>c. correlate_event e c = (case r of None \<Rightarrow> Inr c | Some x \<Rightarrow> Inl x)"
  | (noted) ev i t where "e = JObj ev" "obj_get ev ''kind'' JNull \<in> set noted_kinds"
      "\<And>c. correlate_event e c = bindR (entry_step ev i t (key_find (KInt i) c)) (\<lambda>x. Inr (key_set (KInt i) x c))"
proof -
  from assms obtain ev where e: "e = JObj ev" by (cases e) auto
  show thesis
  proof (cases "obj_get ev ''req_id'' JNull = JNull")
    case True
    then show thesis by (intro quiet_event [of None]) (simp add: e)
  next
    case False
    with assms e obtain i where i: "obj_get ev ''req_id'' JNull = JInt i" by (auto split: json.splits)
    show thesis
    proof (cases "int_field ev ''t_us''")
      case (Inl x)
      with i show thesis by (intro quiet_event [of "Some x"]) (simp add: e)
    next
      case (Inr t)
      show thesis
      proof (cases "obj_get ev ''kind'' JNull \<in> set noted_kinds")
        case True
        with i Inr show thesis by (intro noted [of ev i t]) (simp_all add: e entry_step_def get_entry_def)
      next
        case False
        with i Inr show thesis by (intro quiet_event [of None]) (simp add: e)
      qed
    qed
  qed
qed

lemma event_respects:
  assumes "int_event e" "same_entries c d" "correlate_event e c = Inr c'"
  shows "\<exists>d'. correlate_event e d = Inr d' \<and> same_entries c' d'"
  using assms(1)
proof (cases rule: int_event_cases)
  case (quiet_event r)
  with assms(2,3) show ?thesis by (cases r) auto
next
  case (noted ev i t)
  have eq: "key_find (KInt i) d = key_find (KInt i) c" using assms(2) by (simp add: same_entries_def)
  from assms(3) noted(3) obtain x where x: "entry_step ev i t (key_find (KInt i) c) = Inr x" "c' = key_set (KInt i) x c"
    by (auto simp: bindR_eq_Inr)
  then have "correlate_event e d = Inr (key_set (KInt i) x d)" using noted(3) eq by simp
  with x(2) assms(2) show ?thesis by (auto simp: same_entries_def key_find_set_int)
qed

lemma entry_steps_commute:
  assumes "obj_get e ''kind'' JNull \<in> set [JStr ''rpc_send'', JStr ''rpc_recv'']"
    and "obj_get f ''kind'' JNull \<in> set noted_kinds" "obj_get f ''kind'' JNull \<notin> set [JStr ''rpc_send'', JStr ''rpc_recv'']"
    and "entry_step e i s o1 = Inr x" "entry_step f i t (Some x) = Inr y"
  shows "\<exists>x'. entry_step f i t o1 = Inr x' \<and> entry_step e i s (Some x') = Inr y"
  using assms
  by (cases o1) (auto simp: entry_step_def note_event_def noted_kinds_def event_hint_def hinted_def new_entry_def Let_def bindR_eq_Inr
      split: if_splits)

lemma events_swap:
  assumes "host_event e" "board_event f" "correlate_event e c = Inr x" "correlate_event f x = Inr y"
  shows "\<exists>x' y'. correlate_event f c = Inr x' \<and> correlate_event e x' = Inr y' \<and> same_entries y y'"
proof -
  have ie: "int_event e" and jf: "int_event f" using assms(1,2) by (simp_all add: host_event_def board_event_def)
  have ke: "event_kind e \<in> set [JStr ''rpc_send'', JStr ''rpc_recv'', JStr ''rpc_error'']" and kf: "event_kind f \<notin> set [JStr ''rpc_send'', JStr ''rpc_recv'']"
    using assms(1,2) by (simp_all add: host_event_def board_event_def)
  from ie show ?thesis
  proof (cases rule: int_event_cases)
    case (quiet_event r)
    with assms(3,4) show ?thesis by (cases r) (auto simp: same_entries_def)
  next
    case e: (noted ev i s)
    from jf show ?thesis
    proof (cases rule: int_event_cases)
      case (quiet_event r)
      with assms(3,4) show ?thesis by (cases r) (auto simp: same_entries_def)
    next
      case f: (noted fv j t)
      from assms(3) e(3) obtain a where a: "entry_step ev i s (key_find (KInt i) c) = Inr a" "x = key_set (KInt i) a c"
        by (auto simp: bindR_eq_Inr)
      from assms(4) f(3) obtain b where b: "entry_step fv j t (key_find (KInt j) x) = Inr b" "y = key_set (KInt j) b x"
        by (auto simp: bindR_eq_Inr)
      show ?thesis
      proof (cases "i = j")
        case True
        have "entry_step fv i t (Some a) = Inr b" using b(1) a(2) True by (simp add: key_find_set_int)
        from entry_steps_commute [OF _ f(2) _ a(1) this] ke kf e(1,2) f(1) obtain a' where
          "entry_step fv i t (key_find (KInt i) c) = Inr a'" "entry_step ev i s (Some a') = Inr b" by (auto simp: noted_kinds_def)
        with True a b e(3) f(3) show ?thesis by (auto simp: key_find_set_int same_entries_def)
      next
        case False
        with a b e(3) f(3) show ?thesis by (auto simp: key_find_set_int same_entries_def)
      qed
    qed
  qed
qed

definition correlate_from :: "calls \<Rightarrow> json list \<Rightarrow> calls res" where
  "correlate_from = foldR (\<lambda>calls ev. correlate_event ev calls)"

lemma correlate_from_simps [simp]:
  "correlate_from c [] = Inr c" "correlate_from c (e # es) = bindR (correlate_event e c) (\<lambda>c'. correlate_from c' es)"
  "correlate_from c (es @ fs) = bindR (correlate_from c es) (\<lambda>c'. correlate_from c' fs)"
  by (simp_all add: correlate_from_def foldR_append)

lemma same_entries_trans: "same_entries a b \<Longrightarrow> same_entries b c \<Longrightarrow> same_entries a c"
  by (simp add: same_entries_def)

lemma events_respect:
  assumes "list_all int_event es" "same_entries c d" "correlate_from c es = Inr c'"
  shows "\<exists>d'. correlate_from d es = Inr d' \<and> same_entries c' d'"
  using assms
proof (induction es arbitrary: c d)
  case (Cons e es)
  from Cons.prems(3) obtain c1 where c1: "correlate_event e c = Inr c1" "correlate_from c1 es = Inr c'" by (auto simp: bindR_eq_Inr)
  from event_respects [OF _ Cons.prems(2) c1(1)] Cons.prems(1) obtain d1 where "correlate_event e d = Inr d1" "same_entries c1 d1" by auto
  with Cons.IH [OF _ this(2) c1(2)] Cons.prems(1) show ?case by auto
qed simp

lemma event_past_block:
  assumes "host_event e" "list_all board_event bs" "correlate_from c (e # bs) = Inr y"
  shows "\<exists>y'. correlate_from c (bs @ [e]) = Inr y' \<and> same_entries y y'"
  using assms(2,3)
proof (induction bs arbitrary: c y)
  case Nil
  then show ?case by (auto simp: same_entries_def)
next
  case (Cons b bs)
  from Cons.prems(2) obtain x z where "correlate_event e c = Inr x" "correlate_event b x = Inr z" and z: "correlate_from z bs = Inr y"
    by (auto simp: bindR_eq_Inr)
  from events_swap [OF assms(1) _ this(1,2)] Cons.prems(1) obtain x' z' where
    sw: "correlate_event b c = Inr x'" "correlate_event e x' = Inr z'" "same_entries z z'" by auto
  have ib: "list_all int_event bs" using Cons.prems(1) by (auto simp: board_event_def list_all_iff)
  from events_respect [OF ib sw(3) z] obtain y1 where y1: "correlate_from z' bs = Inr y1" "same_entries y y1" by blast
  with sw(2) have "correlate_from x' (e # bs) = Inr y1" by simp
  with Cons.IH [of x' y1] Cons.prems(1) obtain y' where y': "correlate_from x' (bs @ [e]) = Inr y'" "same_entries y1 y'" by auto
  then have "correlate_from c ((b # bs) @ [e]) = Inr y'" using sw(1) by (simp only: correlate_from_simps append_Cons bindR_simps)
  with same_entries_trans [OF y1(2) y'(2)] show ?case by blast
qed

lemma blocks_swap:
  assumes "list_all host_event hs" "list_all board_event bs" "correlate_from c (hs @ bs) = Inr y"
  shows "\<exists>y'. correlate_from c (bs @ hs) = Inr y' \<and> same_entries y y'"
  using assms(1,3)
proof (induction hs arbitrary: c y)
  case Nil
  then show ?case by (auto simp: same_entries_def)
next
  case (Cons e hs)
  from Cons.prems(2) obtain x where x: "correlate_event e c = Inr x" "correlate_from x (hs @ bs) = Inr y" by (auto simp: bindR_eq_Inr)
  from Cons.IH [OF _ x(2)] Cons.prems(1) obtain y1 where y1: "correlate_from x (bs @ hs) = Inr y1" "same_entries y y1" by auto
  then obtain z where z: "correlate_from x bs = Inr z" "correlate_from z hs = Inr y1" by (auto simp: bindR_eq_Inr)
  have "correlate_from c (e # bs) = Inr z" using x(1) z(1) by simp
  from event_past_block [OF _ assms(2) this] Cons.prems(1) obtain z' where
    z': "correlate_from c (bs @ [e]) = Inr z'" "same_entries z z'" by auto
  have "list_all int_event hs" using Cons.prems(1) by (auto simp: host_event_def list_all_iff)
  from events_respect [OF this z'(2) z(2)] obtain y' where y': "correlate_from z' hs = Inr y'" "same_entries y1 y'" by blast
  have "correlate_from c (bs @ e # hs) = correlate_from c ((bs @ [e]) @ hs)" by simp
  also have "\<dots> = Inr y'" using z'(1) y'(1) by (simp only: correlate_from_simps(3) bindR_simps)
  finally show ?case using same_entries_trans [OF y1(2) y'(2)] by blast
qed

text \<open>C35: the order of the log files does not matter.  When the events of the host and the events of the board have integer
  request ids, reading the host's log before the board's or after it gives the same entry, with all its fields, for
  every request; if one order raises nothing, neither does the other.\<close>

theorem correlate_file_order:
  assumes "list_all host_event hs" "list_all board_event bs" "correlate (hs @ bs) = Inr c"
  shows "\<exists>d. correlate (bs @ hs) = Inr d \<and> same_entries c d"
  using blocks_swap [OF assms(1,2), of "[]" c] assms(3) by (simp add: correlate_def correlate_from_def)

definition demo_host_log :: "json list" where
  "demo_host_log = [JObj [(''kind'', JStr ''rpc_send''), (''req_id'', JInt 1), (''t_us'', JInt 10), (''op'', JStr ''RUN_GRAPH''), (''bytes'', JInt 90)],
     JObj [(''kind'', JStr ''rpc_recv''), (''req_id'', JInt 1), (''t_us'', JInt 35), (''bytes'', JInt 60)]]"

definition demo_board_log :: "json list" where
  "demo_board_log = [JObj [(''kind'', JStr ''op_end''), (''req_id'', JInt 1), (''op'', JStr ''COPY''), (''total_us'', JInt 7), (''read_us'', JInt 4)],
     JObj [(''kind'', JStr ''graph_end''), (''req_id'', JInt 1), (''elapsed_us'', JInt 9), (''bytes_read'', JInt 3)]]"

theorem correlate_file_order_witness:
  "\<exists>c d. correlate (demo_host_log @ demo_board_log) = Inr c \<and> correlate (demo_board_log @ demo_host_log) = Inr d \<and>
     same_entries c d \<and> map_option rpc_overhead_us (key_find (KInt 1) c) = Some (Some 16)"
proof -
  have ok: "list_all host_event demo_host_log" "list_all board_event demo_board_log" by code_simp+
  have e: "(case correlate (demo_host_log @ demo_board_log) of Inl x \<Rightarrow> None | Inr c \<Rightarrow> map_option rpc_overhead_us (key_find (KInt 1) c)) =
      Some (Some 16)" by code_simp
  then obtain c where "correlate (demo_host_log @ demo_board_log) = Inr c" "map_option rpc_overhead_us (key_find (KInt 1) c) = Some (Some 16)"
    by (auto split: sum.splits)
  with correlate_file_order [OF ok this(1)] show ?thesis by blast
qed

section \<open>The flame graph\<close>

text \<open>A flame of one level: frames open where the one before closed, each closes later, and their numbers are below \<open>n\<close>.\<close>

fun flat_flame :: "nat \<Rightarrow> int \<Rightarrow> flame_event list \<Rightarrow> int \<Rightarrow> bool" where
  "flat_flame n t [] stop = (t = stop)"
| "flat_flame n t (OpenFrame a i # CloseFrame b j # evs) stop = (a = t \<and> i = j \<and> i < n \<and> a < b \<and> flat_flame n b evs stop)"
| "flat_flame n t _ stop = False"

definition span_us :: "dict \<Rightarrow> int" where
  "span_us span = (case int_field span ''total_us'' of Inr d \<Rightarrow> max 0 d | Inl _ \<Rightarrow> 0)"

lemma flame_events_flat:
  assumes "flame_events t spans = (evs, stop)" "\<forall>(d, i) \<in> set spans. 0 < d \<and> i < n"
  shows "flat_flame n t evs stop \<and> stop = t + sum_list (map fst spans) \<and> length evs = 2 * length spans"
  using assms by (induction t spans arbitrary: evs rule: flame_events.induct) (auto split: prod.splits)

definition frames_ok :: "frames \<Rightarrow> bool" where
  "frames_ok f \<longleftrightarrow> (\<forall>(k, i) \<in> set (fr_index f). i < length (fr_shared f)) \<and>
     map snd (fr_index f) = [0..<length (fr_shared f)] \<and> map (\<lambda>(k, i). Inr k) (fr_index f) = map py_key (fr_shared f) \<and>
     (\<forall>a b. a < b \<and> b < length (fr_index f) \<longrightarrow> \<not> key_eq (fst (fr_index f ! b)) (fst (fr_index f ! a)))"

lemma key_find_mem: "key_find k d = Some v \<Longrightarrow> \<exists>k'. (k', v) \<in> set d \<and> key_eq k k'"
  by (induction k d rule: key_find.induct) (auto split: if_splits)

lemma key_find_None: "key_find k d = None \<Longrightarrow> (\<forall>(k', v) \<in> set d. \<not> key_eq k k') \<and> key_set k v' d = d @ [(k, v')]"
  by (induction k d rule: key_find.induct) (auto split: if_splits)

lemma frame_id_ok:
  assumes "frames_ok f" "frame_id name f = Inr (i, f')"
  shows "frames_ok f' \<and> i < length (fr_shared f') \<and> length (fr_shared f) \<le> length (fr_shared f')"
proof -
  from assms(2) obtain k where k: "py_key name = Inr k" by (auto simp: frame_id_def bindR_eq_Inr)
  show ?thesis
  proof (cases "key_find k (fr_index f)")
    case None
    note nf = key_find_None [OF None, of "length (fr_shared f)"]
    then have "\<not> key_eq k (fst (fr_index f ! a))" if "a < length (fr_index f)" for a using that nth_mem [OF that] by (auto simp: case_prod_beta)
    moreover have "f' = \<lparr>fr_index = fr_index f @ [(k, length (fr_shared f))], fr_shared = fr_shared f @ [name]\<rparr>" "i = length (fr_shared f)"
      using assms(2) k None nf by (auto simp: frame_id_def)
    ultimately show ?thesis using assms(1) k by (auto simp: frames_ok_def nth_append less_Suc_eq)
  next
    case (Some j)
    with assms(2) k have e: "i = j" "f' = f" by (auto simp: frame_id_def)
    from key_find_mem [OF Some] obtain k' where "(k', j) \<in> set (fr_index f)" by blast
    with assms(1) e show ?thesis by (auto simp: frames_ok_def)
  qed
qed

lemma place_spans_ok:
  assumes "frames_ok f" "place_spans spans f = Inr (ps, f')"
  shows "frames_ok f' \<and> length (fr_shared f) \<le> length (fr_shared f') \<and> (\<forall>(d, i) \<in> set ps. 0 < d \<and> i < length (fr_shared f')) \<and>
    sum_list (map fst ps) = sum_list (map span_us spans)"
  using assms
proof (induction spans arbitrary: f ps)
  case (Cons span spans)
  from Cons.prems(2) obtain dur where dur: "int_field span ''total_us'' = Inr dur" by (auto simp: bindR_eq_Inr)
  show ?case
  proof (cases "dur \<le> 0")
    case True
    with Cons dur show ?thesis by (auto simp: span_us_def)
  next
    case False
    from Cons.prems(2) dur False obtain i f1 rest where f1: "frame_id (obj_get span ''op'' (JStr ''?'')) f = Inr (i, f1)"
      and r: "place_spans spans f1 = Inr (rest, f')" "ps = (dur, i) # rest" by (auto simp: bindR_eq_Inr)
    from frame_id_ok [OF Cons.prems(1) f1] have g: "frames_ok f1" "i < length (fr_shared f1)" "length (fr_shared f) \<le> length (fr_shared f1)" by auto
    from Cons.IH [OF g(1) r(1)] g(2,3) r(2) dur False show ?thesis by (auto simp: span_us_def)
  qed
qed simp

lemma mset_all_spans: "mset c = mset d \<Longrightarrow> mset (all_spans c) = mset (all_spans d)"
proof -
  assume m: "mset c = mset d"
  have "mset (all_spans c) = sum_mset (image_mset (\<lambda>(k, c). mset (rc_spans c)) (mset c))" for c
    by (induction c) (auto simp: all_spans_def)
  with m show ?thesis by simp
qed

lemma sum_span_us_perm: "mset xs = mset ys \<Longrightarrow> sum_list (map span_us xs) = sum_list (map span_us ys)"
  by (metis mset_map sum_mset_sum_list)

text \<open>The flame graph accounts for the time of every operation.  Its events open and close one frame after the other without a gap or an
  overlap, each frame closes after it opened and is one of the shared frames, no two shared frames have the same name, and the
  profile ends at the sum of the positive durations of all spans, whatever the order of the requests.\<close>

lemma speedscope_well_formed:
  assumes "speedscope calls = Inr f"
  shows "flat_flame (length (fl_frames f)) 0 (fl_events f) (fl_end f) \<and> fl_end f = sum_list (map span_us (all_spans calls)) \<and>
    (\<forall>a b k l. a < b \<and> b < length (fl_frames f) \<and> py_key (fl_frames f ! a) = Inr k \<and> py_key (fl_frames f ! b) = Inr l \<longrightarrow> \<not> key_eq l k)"
proof -
  let ?ordered = "sort_key (\<lambda>(k, c). or_zero (rc_send_us c)) calls" and ?f0 = "\<lparr>fr_index = [], fr_shared = []\<rparr>"
  from assms obtain spans g where pl: "place_spans (all_spans ?ordered) ?f0 = Inr (spans, g)"
    and fl: "(case flame_events 0 spans of (evs, stop) \<Rightarrow> Inr \<lparr>fl_frames = fr_shared g, fl_events = evs, fl_end = stop\<rparr>) = (Inr f :: flame res)"
    by (auto simp: speedscope_def Let_def bindR_eq_Inr)
  obtain evs stop where fe: "flame_events 0 spans = (evs, stop)" by (cases "flame_events 0 spans")
  with fl have f: "f = \<lparr>fl_frames = fr_shared g, fl_events = evs, fl_end = stop\<rparr>" by simp
  have "frames_ok ?f0" by (simp add: frames_ok_def)
  from place_spans_ok [OF this pl] have g: "frames_ok g" "\<forall>(d, i) \<in> set spans. 0 < d \<and> i < length (fr_shared g)"
    "sum_list (map fst spans) = sum_list (map span_us (all_spans ?ordered))" by auto
  have "mset ?ordered = mset calls" by simp
  from sum_span_us_perm [OF mset_all_spans [OF this]] g(3) flame_events_flat [OF fe g(2)]
  have "flat_flame (length (fr_shared g)) 0 evs stop" "stop = sum_list (map span_us (all_spans calls))" by auto
  moreover have "\<not> key_eq l k" if "a < b" "b < length (fr_shared g)" "py_key (fr_shared g ! a) = Inr k" "py_key (fr_shared g ! b) = Inr l" for a b k l
  proof -
    have len: "length (fr_index g) = length (fr_shared g)" using g(1) unfolding frames_ok_def by (metis length_map)
    have "Inr (fst (fr_index g ! j)) = py_key (fr_shared g ! j)" if "j < length (fr_shared g)" for j
      using g(1) that len unfolding frames_ok_def by (metis (no_types, lifting) nth_map case_prod_beta)
    from this [of a] this [of b] that g(1) len show ?thesis by (auto simp: frames_ok_def)
  qed
  ultimately show ?thesis by (auto simp: f)
qed

lemma speedscope_well_formed_witness:
  "\<exists>c f. correlate demo_board_log = Inr c \<and> speedscope c = Inr f \<and> fl_end f = 7 \<and> flat_flame 1 0 (fl_events f) 7"
proof -
  have e: "(case correlate demo_board_log of Inl x \<Rightarrow> None | Inr c \<Rightarrow> (case speedscope c of Inl x \<Rightarrow> None |
      Inr f \<Rightarrow> Some (length (fl_frames f), sum_list (map span_us (all_spans c))))) = Some (1, 7)" by code_simp
  then obtain c f where "correlate demo_board_log = Inr c" "speedscope c = Inr f" "length (fl_frames f) = 1" "sum_list (map span_us (all_spans c)) = 7"
    by (auto split: sum.splits)
  with speedscope_well_formed [OF this(2)] show ?thesis by auto
qed

section \<open>The summary\<close>

text \<open>The product with 0.99 is rounded by less than one part in \<open>2 ^ 52\<close>, so the index of the percentile is in range.\<close>

lemma bit_length_nat_lower: "0 < n \<Longrightarrow> 2 ^ (bit_length_nat n - 1) \<le> n"
proof (induction n rule: bit_length_nat.induct)
  case (1 n)
  show ?case
  proof (cases "n = 1")
    case True
    then show ?thesis by (simp add: bit_length_nat.simps [of "Suc 0"] bit_length_nat.simps [of 0])
  next
    case False
    with "1.prems" have h: "0 < n div 2" by auto
    then have "2 ^ (bit_length_nat (n div 2) - 1) \<le> n div 2" using "1.IH" "1.prems" by simp
    moreover have "0 < bit_length_nat (n div 2)" using h by (simp add: bit_length_nat.simps [of "n div 2"])
    ultimately show ?thesis using "1.prems"
      by (cases "bit_length_nat (n div 2)") (auto simp: bit_length_nat.simps [of n])
  qed
qed

lemma round53_upper: "round53 p * 2 ^ 52 \<le> p * (2 ^ 52 + 1)"
proof (cases "bit_length_nat p \<le> 53")
  case True
  then show ?thesis by (simp add: round53_def Let_def)
next
  case False
  let ?sh = "bit_length_nat p - 53" and ?q = "p div 2 ^ (bit_length_nat p - 53)"
  have "0 < p" using False by (cases p) (auto simp: bit_length_nat.simps [of 0])
  from bit_length_nat_lower [OF this] have "2 ^ (?sh + 52) \<le> p" using False by simp
  then have sh: "2 ^ ?sh * 2 ^ 52 \<le> p" by (simp add: power_add)
  have "round53 p \<le> (?q + 1) * 2 ^ ?sh" using False by (simp add: round53_def Let_def)
  also have "\<dots> \<le> p + 2 ^ ?sh" by simp
  finally have "round53 p * 2 ^ 52 \<le> (p + 2 ^ ?sh) * 2 ^ 52" by (rule mult_le_mono1)
  also have "\<dots> \<le> p * (2 ^ 52 + 1)" using sh by (simp add: algebra_simps)
  finally show ?thesis .
qed

lemma p99_index_in_range: "0 < n \<Longrightarrow> p99_index n < n"
proof -
  assume n: "0 < n"
  have "round53 (8917127262193582 * n) * 2 ^ 52 \<le> 8917127262193582 * n * (2 ^ 52 + 1)" by (rule round53_upper)
  also have "\<dots> < 2 ^ 53 * n * 2 ^ 52" using n by simp
  finally have "round53 (8917127262193582 * n) < 2 ^ 53 * n" by simp
  then have "round53 (8917127262193582 * n) div 2 ^ 53 < n" by (simp add: div_less_iff_less_mult mult.commute)
  with n show ?thesis by (auto simp: p99_index_def)
qed

lemma round53_lower: "p * 2 ^ 52 \<le> round53 p * 2 ^ 52 + p"
proof (cases "bit_length_nat p \<le> 53")
  case True
  then show ?thesis by (simp add: round53_def Let_def)
next
  case False
  let ?sh = "bit_length_nat p - 53" and ?q = "p div 2 ^ (bit_length_nat p - 53)"
  have "0 < p" using False by (cases p) (auto simp: bit_length_nat.simps [of 0])
  from bit_length_nat_lower [OF this] have "2 ^ (?sh + 52) \<le> p" using False by simp
  then have sh: "2 ^ ?sh * 2 ^ 52 \<le> p" by (simp add: power_add)
  have "p = ?q * 2 ^ ?sh + p mod 2 ^ ?sh" by (rule div_mult_mod_eq [symmetric])
  also have "\<dots> \<le> round53 p + 2 ^ ?sh" using False by (intro add_mono) (simp_all add: round53_def Let_def less_imp_le)
  finally have "p * 2 ^ 52 \<le> (round53 p + 2 ^ ?sh) * 2 ^ 52" by (rule mult_le_mono1)
  also have "\<dots> \<le> round53 p * 2 ^ 52 + p" using sh by (simp add: algebra_simps)
  finally show ?thesis .
qed

text \<open>For up to \<open>2 ^ 40\<close> durations, the value taken is the smallest one, or its rank is 99 % of their number, rounded down.\<close>

lemma p99_rank:
  assumes "n < 2 ^ 40"
  shows "99 * n \<le> 100 * (p99_index n + 2)" "p99_index n = 0 \<or> 100 * (p99_index n + 1) \<le> 99 * n"
proof -
  define x m where "x = round53 (8917127262193582 * n)" and "m = x div 2 ^ 53"
  have up: "x * 2 ^ 52 \<le> 8917127262193582 * n * (2 ^ 52 + 1)" unfolding x_def by (rule round53_upper)
  have lo: "8917127262193582 * n * 2 ^ 52 \<le> x * 2 ^ 52 + 8917127262193582 * n" unfolding x_def by (rule round53_lower)
  have m: "m * 2 ^ 53 \<le> x" "x < (m + 1) * 2 ^ 53" by (simp_all add: m_def div_times_less_eq_dividend dividend_less_div_times)
  have i: "p99_index n = m - 1" by (simp add: p99_index_def x_def m_def nat_diff_distrib' max_def)
  have "100 * m \<le> 99 * n" using up m(1) assms by simp
  moreover have "99 * n \<le> 100 * (m + 1)" using lo m(2) assms by simp
  ultimately show "99 * n \<le> 100 * (p99_index n + 2)" "p99_index n = 0 \<or> 100 * (p99_index n + 1) \<le> 99 * n" unfolding i by auto
qed

lemma p99_of_value:
  assumes "ds \<noteq> []"
  shows "p99_of ds = Inr (sort ds ! p99_index (length ds))" "p99_index (length ds) < length ds"
proof -
  show lt: "p99_index (length ds) < length ds" using assms by (intro p99_index_in_range) simp
  then have "py_index (sort ds) (int (p99_index (length ds))) = Inr (sort ds ! p99_index (length ds))" by (simp add: py_index_in)
  moreover have "sort ds \<noteq> []" using assms by (metis length_sort length_0_conv)
  ultimately show "p99_of ds = Inr (sort ds ! p99_index (length ds))" by (simp add: p99_of_def Let_def)
qed

definition span_dur :: "dict \<Rightarrow> int" where
  "span_dur span = (case int_field span ''total_us'' of Inr d \<Rightarrow> d | Inl _ \<Rightarrow> 0)"

definition span_name :: "pyenv \<Rightarrow> dict \<Rightarrow> string" where
  "span_name env span = py_str env (obj_get span ''op'' (JStr ''?''))"

definition durations_of :: "pyenv \<Rightarrow> dict list \<Rightarrow> string \<Rightarrow> int list" where
  "durations_of env spans n = map span_dur (filter (\<lambda>s. span_name env s = n) spans)"

definition stat_ok :: "pyenv \<Rightarrow> dict list \<Rightarrow> string \<times> op_stat \<Rightarrow> bool" where
  "stat_ok env spans = (\<lambda>(n, o1). os_durations o1 = durations_of env spans n \<and> os_durations o1 \<noteq> [] \<and>
     os_total o1 = sum_list (os_durations o1) \<and> os_calls o1 = int (length (os_durations o1)))"

definition tables_ok :: "pyenv \<Rightarrow> dict list \<Rightarrow> (string \<times> op_stat) list \<Rightarrow> bool" where
  "tables_ok env spans d \<longleftrightarrow> distinct (map fst d) \<and> list_all (stat_ok env spans) d \<and> span_name env ` set spans = fst ` set d \<and>
     sum_list (map (\<lambda>(n, o1). os_total o1) d) = sum_list (map span_dur spans) \<and>
     sum_list (map (\<lambda>(n, o1). os_calls o1) d) = int (length spans)"

lemma set_update_distinct:
  assumes "distinct (map fst d)"
  shows "p \<in> set (AList.update k v d) \<longleftrightarrow> p = (k, v) \<or> p \<in> set d \<and> fst p \<noteq> k"
  using assms by (induction d) (auto simp: image_iff)

lemma sum_update:
  fixes g :: "'v \<Rightarrow> int"
  assumes "distinct (map fst d)"
  shows "sum_list (map (\<lambda>(n, x). g x) (AList.update k v d)) =
    sum_list (map (\<lambda>(n, x). g x) d) + g v - (case map_of d k of None \<Rightarrow> 0 | Some x \<Rightarrow> g x)"
  using assms
proof (induction d)
  case (Cons p d)
  obtain k' x where p: "p = (k', x)" by (cases p)
  have "map_of d k = None" if "k = k'" using that Cons.prems p by (auto simp: map_of_eq_None_iff)
  with Cons show ?case by (auto simp: p split: option.splits)
qed simp

lemma add_stat_ok:
  assumes "tables_ok env spans d" "n = span_name env span" "us = span_dur span"
  shows "tables_ok env (spans @ [span]) (add_stat n us b d)"
proof -
  let ?o = "default_get zero_stat d n"
  let ?v = "\<lparr>os_total = os_total ?o + us, os_calls = os_calls ?o + 1, os_durations = os_durations ?o @ [us], os_bytes = os_bytes ?o + b\<rparr>"
  have up: "add_stat n us b d = AList.update n ?v d" by (simp add: add_stat_def Let_def)
  have dist: "distinct (map fst d)" using assms(1) by (simp add: tables_ok_def)
  have old: "os_durations ?o = durations_of env spans n \<and> os_total ?o = sum_list (os_durations ?o) \<and>
      os_calls ?o = int (length (os_durations ?o))"
  proof (cases "map_of d n")
    case None
    then have "n \<notin> fst ` set d" by (simp add: map_of_eq_None_iff)
    then have "n \<notin> span_name env ` set spans" using assms(1) by (simp add: tables_ok_def)
    then have "durations_of env spans n = []" by (auto simp: durations_of_def filter_empty_conv)
    with None show ?thesis by (simp add: default_get_def zero_stat_def)
  next
    case (Some o1)
    then have "(n, o1) \<in> set d" by (rule map_of_SomeD)
    with assms(1) have "stat_ok env spans (n, o1)" by (auto simp: tables_ok_def list_all_iff)
    with Some show ?thesis by (simp add: default_get_def stat_ok_def)
  qed
  have new: "stat_ok env (spans @ [span]) (n, ?v)" using old assms(2,3) by (simp add: stat_ok_def durations_of_def)
  have "stat_ok env (spans @ [span]) (n', x)" if "(n', x) \<in> set d" "n' \<noteq> n" for n' x
    using assms(1,2) that by (auto simp: tables_ok_def list_all_iff stat_ok_def durations_of_def)
  then have all: "list_all (stat_ok env (spans @ [span])) (AList.update n ?v d)"
  proof -
    assume old_ok: "\<And>n' x. (n', x) \<in> set d \<Longrightarrow> n' \<noteq> n \<Longrightarrow> stat_ok env (spans @ [span]) (n', x)"
    have "stat_ok env (spans @ [span]) p" if "p \<in> set (AList.update n ?v d)" for p
      using iffD1 [OF set_update_distinct [OF dist] that] new old_ok by (cases p) auto
    then show ?thesis by (simp add: list_all_iff)
  qed
  have nm: "span_name env ` set (spans @ [span]) = fst ` set (AList.update n ?v d)"
    using assms(1,2) by (simp add: tables_ok_def dom_update)
  have "g ?o = (case map_of d n of None \<Rightarrow> 0 | Some x \<Rightarrow> g x)" if "g zero_stat = (0 :: int)" for g
    using that by (simp add: default_get_def split: option.splits)
  from this [of os_total] this [of os_calls] sum_update [OF dist, of os_total n ?v] sum_update [OF dist, of os_calls n ?v]
  have "sum_list (map (\<lambda>(n, o1). os_total o1) (AList.update n ?v d)) = sum_list (map (\<lambda>(n, o1). os_total o1) d) + us"
    "sum_list (map (\<lambda>(n, o1). os_calls o1) (AList.update n ?v d)) = sum_list (map (\<lambda>(n, o1). os_calls o1) d) + 1"
    by (simp_all add: zero_stat_def)
  with all nm assms(1,3) AList.distinct_update [OF dist, of n ?v] show ?thesis unfolding up tables_ok_def by simp
qed

lemma op_tables_ok:
  assumes "foldR (add_span env) t spans = Inr t'" "tables_ok env sofar (ot_ops t)"
  shows "tables_ok env (sofar @ spans) (ot_ops t')"
  using assms
proof (induction spans arbitrary: t sofar)
  case (Cons span spans)
  from Cons.prems(1) obtain t1 where t1: "add_span env t span = Inr t1" "foldR (add_span env) t1 spans = Inr t'" by (auto simp: bindR_eq_Inr)
  then obtain us b where us: "int_field span ''total_us'' = Inr us" "ot_ops t1 = add_stat (span_name env span) us b (ot_ops t)"
    by (auto simp: add_span_def Let_def bindR_eq_Inr span_name_def)
  have "us = span_dur span" using us(1) by (simp add: span_dur_def)
  from add_stat_ok [OF Cons.prems(2) refl this, of b] us(2) have "tables_ok env (sofar @ [span]) (ot_ops t1)" by simp
  from Cons.IH [OF t1(2) this] show ?case by simp
qed simp

lemma op_row_of_stat:
  assumes "stat_ok env spans (n, o1)" "op_row_of (n, o1) = Inr row"
  shows "or_name row = n \<and> or_total row = sum_list (durations_of env spans n) \<and> or_calls row = int (length (durations_of env spans n)) \<and>
    or_avg row = or_total row div or_calls row \<and> durations_of env spans n \<noteq> [] \<and>
    or_p99 row = sort (durations_of env spans n) ! p99_index (length (durations_of env spans n))"
  using assms p99_of_value [of "os_durations o1"] by (auto simp: stat_ok_def op_row_of_def bindR_eq_Inr)

lemma op_row_fields:
  "op_row_of x = Inr y \<Longrightarrow> or_name y = fst x \<and> or_total y = os_total (snd x) \<and> or_calls y = os_calls (snd x)"
  by (cases x) (auto simp: op_row_of_def bindR_eq_Inr)

lemma mapR_forall2: "mapR f xs = Inr ys \<Longrightarrow> list_all2 (\<lambda>x y. f x = Inr y) xs ys"
  by (induction xs arbitrary: ys) (auto simp: bindR_eq_Inr)

text \<open>The percentile of a list of durations: a value at an index in range, whose rank is 99 % of their number.\<close>

definition is_p99 :: "int list \<Rightarrow> int \<Rightarrow> bool" where
  "is_p99 ds v \<longleftrightarrow> (\<exists>i < length ds. v = sort ds ! i \<and>
     (length ds < 2 ^ 40 \<longrightarrow> 99 * length ds \<le> 100 * (i + 2) \<and> (i = 0 \<or> 100 * (i + 1) \<le> 99 * length ds)))"

lemma p99_index_is_p99: "ds \<noteq> [] \<Longrightarrow> is_p99 ds (sort ds ! p99_index (length ds))"
  unfolding is_p99_def using p99_of_value(2) p99_rank by blast

lemma summary_rows:
  assumes "summarize env calls = Inr s"
  defines "spans \<equiv> all_spans calls"
  shows "distinct (map or_name (sm_by_op s)) \<and> set (map or_name (sm_by_op s)) = span_name env ` set spans \<and>
    sum_list (map or_total (sm_by_op s)) = sum_list (map span_dur spans) \<and> sum_list (map or_calls (sm_by_op s)) = int (length spans) \<and>
    sorted_wrt (\<lambda>r r'. or_total r' \<le> or_total r) (sm_by_op s) \<and>
    (\<forall>row \<in> set (sm_by_op s). let ds = durations_of env spans (or_name row) in
       or_total row = sum_list ds \<and> or_calls row = int (length ds) \<and> or_avg row = sum_list ds div int (length ds) \<and> is_p99 ds (or_p99 row))"
proof -
  from assms(1) obtain t where t: "op_tables_of env calls = Inr t"
    and rows: "mapR op_row_of (sorted_desc (\<lambda>(name, o1). os_total o1) (ot_ops t)) = Inr (sm_by_op s)"
    by (auto simp: summarize_def Let_def bindR_eq_Inr)
  let ?ord = "sorted_desc (\<lambda>(name, o1). os_total o1) (ot_ops t)"
  have "tables_ok env [] (ot_ops \<lparr>ot_ops = [], ot_sections = []\<rparr>)" by (simp add: tables_ok_def)
  from op_tables_ok [OF t [unfolded op_tables_of_def] this] have ok: "tables_ok env spans (ot_ops t)" by (simp add: spans_def)
  have ms: "mset ?ord = mset (ot_ops t)" by (simp add: sorted_desc_def)
  then have st: "set ?ord = set (ot_ops t)" by (rule mset_eq_setD)
  have l2: "list_all2 (\<lambda>x y. op_row_of x = Inr y) ?ord (sm_by_op s)" using rows by (rule mapR_forall2)
  have row: "or_name y = fst x \<and> or_total y = os_total (snd x) \<and> or_calls y = os_calls (snd x) \<and> stat_ok env spans x \<and> op_row_of x = Inr y"
    if "x \<in> set ?ord" "op_row_of x = Inr y" for x y
    using op_row_fields [OF that(2)] that ok st by (simp add: tables_ok_def list_all_iff)
  have l3: "list_all2 (\<lambda>x y. or_name y = fst x \<and> or_total y = os_total (snd x) \<and> or_calls y = os_calls (snd x) \<and> stat_ok env spans x \<and> op_row_of x = Inr y)
      ?ord (sm_by_op s)"
    using l2 row by (auto simp: list_all2_conv_all_nth)
  then have maps: "map or_name (sm_by_op s) = map fst ?ord" "map or_total (sm_by_op s) = map (\<lambda>(n, o1). os_total o1) ?ord"
    "map or_calls (sm_by_op s) = map (\<lambda>(n, o1). os_calls o1) ?ord"
    by (auto simp: list_all2_conv_all_nth list_eq_iff_nth_eq case_prod_beta)
  have sums: "sum_list (map g ?ord) = sum_list (map g (ot_ops t))" for g :: "_ \<Rightarrow> int"
    using ms by (metis mset_map sum_mset_sum_list)
  have dist: "distinct (map fst ?ord)" using ok ms by (metis mset_eq_imp_distinct_iff mset_map tables_ok_def)
  have "sorted (map (\<lambda>x. - (case x of (n, o1) \<Rightarrow> os_total o1)) ?ord)" unfolding sorted_desc_def by (rule sorted_sort_key)
  then have srt: "sorted_wrt (\<lambda>r r'. or_total r' \<le> or_total r) (sm_by_op s)"
  proof -
    assume "sorted (map (\<lambda>x. - (case x of (n, o1) \<Rightarrow> os_total o1)) ?ord)"
    then have "sorted (map uminus (map or_total (sm_by_op s)))" unfolding maps(2) by (simp add: comp_def)
    then show ?thesis by (simp add: sorted_wrt_map)
  qed
  have each: "let ds = durations_of env spans (or_name y) in or_total y = sum_list ds \<and> or_calls y = int (length ds) \<and>
      or_avg y = sum_list ds div int (length ds) \<and> is_p99 ds (or_p99 y)" if "y \<in> set (sm_by_op s)" for y
  proof -
    from that obtain i where "i < length (sm_by_op s)" "y = sm_by_op s ! i" by (auto simp: in_set_conv_nth)
    with list_all2_nthD2 [OF l3 this(1)] obtain x where "op_row_of x = Inr y" "stat_ok env spans x" by blast
    with op_row_of_stat [of env spans "fst x" "snd x" y] show ?thesis by (auto simp: Let_def p99_index_is_p99)
  qed
  show ?thesis using maps sums dist srt each ok st by (auto simp: tables_ok_def)
qed

text \<open>The summary raises nothing that its conversions of fields do not raise: the percentile is never out of range.\<close>

lemma mapR_total: "(\<And>x. \<exists>y. f x = Inr y) \<Longrightarrow> \<exists>ys. mapR f xs = Inr ys"
proof (induction xs)
  case (Cons x xs)
  then obtain y ys where "f x = Inr y" "mapR f xs = Inr ys" by blast
  then show ?case by simp
qed simp

lemma foldR_total: "(\<And>t x. x \<in> set xs \<Longrightarrow> \<exists>t'. f t x = Inr t') \<Longrightarrow> \<exists>t'. foldR f t xs = Inr t'"
proof (induction xs arbitrary: t)
  case (Cons x xs)
  then obtain t1 where "f t x = Inr t1" by force
  with Cons show ?case by simp
qed simp

text \<open>
  What the summary asks of a log: the six numeric fields of a span convert, no other time is an infinite number, and the operation of
  a request with a round trip can be a key of a dict.
\<close>

definition span_readable :: "dict \<Rightarrow> bool" where
  "span_readable span \<longleftrightarrow>
     list_all (\<lambda>f. \<not> isl (int_field span f)) [''total_us'', ''bytes_read'', ''bytes_written'', ''compute_us'', ''read_us'', ''write_us''] \<and>
     list_all (\<lambda>(k, v). us_suffix k \<longrightarrow> py_int v \<noteq> Inl OverflowError) span"

definition calls_readable :: "calls \<Rightarrow> bool" where
  "calls_readable calls \<longleftrightarrow> list_all span_readable (all_spans calls) \<and>
     list_all (\<lambda>(k, c). round_trip_us c \<noteq> None \<longrightarrow> \<not> isl (py_key (rc_op c))) calls"

lemma not_isl_Inr: "\<not> isl r \<longleftrightarrow> (\<exists>x. r = Inr x)"
  by (cases r) auto

lemma py_int_errors: "py_int v = Inl e \<Longrightarrow> e = TypeError \<or> is_value_error e \<or> e = OverflowError"
  by (cases v) (auto simp: float_trunc_def parse_int_def Let_def split: if_splits option.splits)

lemma span_sections_total:
  "list_all (\<lambda>(k, v). us_suffix k \<longrightarrow> py_int v \<noteq> Inl OverflowError) items \<Longrightarrow> \<exists>d'. span_sections name items d = Inr d'"
proof (induction items arbitrary: d)
  case (Cons kv items)
  then show ?case using py_int_errors by (cases kv) (auto simp: Let_def split: sum.split)
qed simp

lemma sum_field_total:
  "list_all span_readable spans \<Longrightarrow> f \<in> set [''compute_us'', ''read_us'', ''write_us''] \<Longrightarrow> \<exists>n. sum_field f spans = Inr n"
proof -
  assume "list_all span_readable spans" "f \<in> set [''compute_us'', ''read_us'', ''write_us'']"
  then have "\<forall>s \<in> set spans. \<exists>n. int_field s f = Inr n" by (auto simp: list_all_iff span_readable_def not_isl_Inr)
  then have "\<exists>ns. mapR (\<lambda>s. int_field s f) spans = Inr ns" by (induction spans) (auto simp: bindR_def)
  then show ?thesis by (auto simp: sum_field_def)
qed

lemma summarize_ends:
  assumes "calls_readable calls"
  shows "\<exists>s. summarize env calls = Inr s"
proof -
  have sp: "list_all span_readable (all_spans calls)" using assms by (simp add: calls_readable_def)
  have "\<exists>t'. add_span env t span = Inr t'" if "span \<in> set (all_spans calls)" for t span
  proof -
    have r: "span_readable span" using that sp by (simp add: list_all_iff)
    obtain d where "span_sections (py_str env (obj_get span ''op'' (JStr ''?''))) span (ot_sections t) = Inr d"
      using span_sections_total r unfolding span_readable_def by blast
    with r show ?thesis by (auto simp: span_readable_def not_isl_Inr add_span_def)
  qed
  then obtain t where t: "op_tables_of env calls = Inr t"
    using foldR_total [of "all_spans calls" "add_span env"] unfolding op_tables_of_def by blast
  have "\<exists>d'. (\<lambda>d (k, c). add_rpc d c) d x = Inr d'" if "x \<in> set calls" for d x
    using that assms by (auto simp: calls_readable_def list_all_iff not_isl_Inr add_rpc_def Let_def split: option.split)
  then obtain rpcs where rpcs: "foldR (\<lambda>d (k, c). add_rpc d c) [] calls = Inr rpcs"
    using foldR_total [of calls "\<lambda>d (k, c). add_rpc d c"] by blast
  have "\<exists>y. op_row_of x = Inr y" for x
  proof -
    obtain n o1 where x: "x = (n, o1)" by (cases x)
    obtain p where "p99_of (os_durations o1) = Inr p"
      using p99_of_value(1) [of "os_durations o1"] by (cases "os_durations o1 = []") (auto simp: p99_of_def)
    with x show ?thesis by (simp add: op_row_of_def)
  qed
  from mapR_total [of op_row_of "sorted_desc (\<lambda>(name, o1). os_total o1) (ot_ops t)", OF this] obtain rows where
    "mapR op_row_of (sorted_desc (\<lambda>(name, o1). os_total o1) (ot_ops t)) = Inr rows" by blast
  moreover obtain x y z where "sum_field ''compute_us'' (all_spans calls) = Inr x" "sum_field ''read_us'' (all_spans calls) = Inr y"
      "sum_field ''write_us'' (all_spans calls) = Inr z"
    using sum_field_total [OF sp, of "''compute_us''"] sum_field_total [OF sp, of "''read_us''"] sum_field_total [OF sp, of "''write_us''"] by auto
  ultimately show ?thesis using t rpcs by (simp add: summarize_def Let_def)
qed

text \<open>C36: the table of operations accounts for every span, and the summary never fails on a log whose fields convert: the index of
  the percentile is in range for every number of durations.  Each name has one row, with the sum, the number and the mean rounded down of
  the durations of its spans, and as the percentile the duration whose rank is 99 % of their number, rounded down (the smallest one when
  that is below two); the rows are in descending order of their totals, which add up to the durations of all spans, as the counts do to
  their number.\<close>

theorem summary_accounts_for_spans:
  assumes "calls_readable calls"
  defines "spans \<equiv> all_spans calls"
  shows "\<exists>s. summarize env calls = Inr s \<and>
    distinct (map or_name (sm_by_op s)) \<and> set (map or_name (sm_by_op s)) = span_name env ` set spans \<and>
    sum_list (map or_total (sm_by_op s)) = sum_list (map span_dur spans) \<and> sum_list (map or_calls (sm_by_op s)) = int (length spans) \<and>
    sorted_wrt (\<lambda>r r'. or_total r' \<le> or_total r) (sm_by_op s) \<and>
    (\<forall>row \<in> set (sm_by_op s). let ds = durations_of env spans (or_name row) in
       or_total row = sum_list ds \<and> or_calls row = int (length ds) \<and> or_avg row = sum_list ds div int (length ds) \<and> is_p99 ds (or_p99 row))"
proof -
  from summarize_ends [OF assms(1)] obtain s where s: "summarize env calls = Inr s" by blast
  with summary_rows [OF s] show ?thesis unfolding spans_def by blast
qed

definition report_env :: pyenv where
  "report_env = \<lparr>env_repr = (\<lambda>_. []), env_strtod = (\<lambda>_. None), env_exc_text = (\<lambda>_. []), env_perf_ns = int, env_time_ns = int\<rparr>"

theorem summary_accounts_for_spans_witness:
  "\<exists>c s. correlate demo_board_log = Inr c \<and> summarize report_env c = Inr s \<and> sum_list (map or_total (sm_by_op s)) = 7 \<and>
     map or_name (sm_by_op s) = [''COPY'']"
proof -
  let ?sp = "[(''kind'', JStr ''op_end''), (''req_id'', JInt 1), (''op'', JStr ''COPY''), (''total_us'', JInt 7), (''read_us'', JInt 4)]"
  have "(case correlate demo_board_log of Inl x \<Rightarrow> None | Inr c \<Rightarrow> Some (all_spans c, map (\<lambda>(k, c). round_trip_us c) c)) = Some ([?sp], [None])"
    by code_simp
  then obtain c where c: "correlate demo_board_log = Inr c" "all_spans c = [?sp]" "map (\<lambda>(k, c). round_trip_us c) c = [None]"
    by (auto split: sum.splits)
  have sp: "span_name report_env ?sp = ''COPY''" "span_dur ?sp = 7" by (simp_all add: span_name_def span_dur_def int_field_def obj_get_def)
  have "list_all (\<lambda>(k, c). round_trip_us c = None) c" using c(3) by auto
  moreover have "span_readable ?sp" by code_simp
  ultimately have "calls_readable c" unfolding calls_readable_def c(2) by (auto simp: list_all_iff)
  from summary_accounts_for_spans [OF this, of report_env] obtain s where s: "summarize report_env c = Inr s" and
    acc: "distinct (map or_name (sm_by_op s))" "set (map or_name (sm_by_op s)) = span_name report_env ` set [?sp]"
      "sum_list (map or_total (sm_by_op s)) = sum_list (map span_dur [?sp])" unfolding c(2) by blast
  have n: "distinct (map or_name (sm_by_op s))" "set (map or_name (sm_by_op s)) = {''COPY''}"
    and total: "sum_list (map or_total (sm_by_op s)) = 7" using acc sp by simp_all
  have "length (map or_name (sm_by_op s)) = Suc 0" using distinct_card [OF n(1)] unfolding n(2) by simp
  then have "map or_name (sm_by_op s) = [''COPY'']" using n(2) by (cases "map or_name (sm_by_op s)") simp_all
  with c(1) s total show ?thesis by (intro exI [of _ c] exI [of _ s]) simp
qed

end
