(* ===== verification/Deploy.thy ===== *)
theory Deploy
  imports Timer Ops
begin

text \<open>
  The deployment command line, \<^verbatim>\<open>host/cli/deploy.py\<close>: the command lines for \<^verbatim>\<open>rsync\<close> and \<^verbatim>\<open>ssh\<close>, with the quoting of
  \<open>shlex\<close>, and the three commands.  Running a command line is a parameter, a function from its arguments to a return code
  on some state; so are the environment and the directory of the sources.
\<close>

section \<open>Quoting\<close>

abbreviation (input) squote :: char where
  "squote \<equiv> CHR 0x27"

abbreviation (input) dquote :: char where
  "dquote \<equiv> CHR 0x22"

text \<open>The characters that \<open>shlex.quote\<close> leaves as they are: letters, digits and a few signs.\<close>

definition safe_char :: "char \<Rightarrow> bool" where
  "safe_char c \<longleftrightarrow> (let n = (of_char c :: nat) in 48 \<le> n \<and> n \<le> 57 \<or> 65 \<le> n \<and> n \<le> 90 \<or> 97 \<le> n \<and> n \<le> 122) \<or>
     c \<in> set ''_@%+=:,./-''"

definition quote_char :: "char \<Rightarrow> string" where
  "quote_char c = (if c = squote then [squote, dquote, squote, dquote, squote] else [c])"

definition shlex_quote :: "string \<Rightarrow> string" where
  "shlex_quote s =
     (if s = [] then [squote, squote]
      else if list_all safe_char s then s
      else [squote] @ concat (map quote_char s) @ [squote])"

fun join_words :: "string list \<Rightarrow> string" where
  "join_words [] = []"
| "join_words [w] = w"
| "join_words (w # ws) = w @ '' '' @ join_words ws"

definition shlex_join :: "string list \<Rightarrow> string" where
  "shlex_join ws = join_words (map shlex_quote ws)"

section \<open>Configuration\<close>

definition DEFAULT_BOARD_HOST :: string where
  "DEFAULT_BOARD_HOST = ''pynq''"

definition DEFAULT_REMOTE_DIR :: string where
  "DEFAULT_REMOTE_DIR = ''/home/xilinx/pynqz1''"

definition DEFAULT_BOARD_PYTHON :: string where
  "DEFAULT_BOARD_PYTHON = ''/usr/local/share/pynq-venv/bin/python''"

definition BOARD_PACKAGES :: "string list" where
  "BOARD_PACKAGES = [''board'', ''proto'']"

definition FORWARDED_ENV :: "string list" where
  "FORWARDED_ENV = [''PYNQ_PROFILE'']"

record board_config =
  bc_board_host :: string
  bc_ssh_user :: string
  bc_remote_dir :: string
  bc_board_python :: string
  bc_port :: int
  bc_heap_mib :: int
  bc_slab_mib :: int
  bc_overlay :: string
  bc_overlay_id :: string
  bc_bitfile :: "string option"

definition ssh_target :: "board_config \<Rightarrow> string" where
  "ssh_target cfg = bc_ssh_user cfg @ ''@'' @ bc_board_host cfg"

text \<open>
  The arguments after parsing: the options of the daemon are there for \<open>daemon\<close> only, \<open>--no-sync\<close> for \<open>daemon\<close>
  and \<open>build-native\<close>.
\<close>

record deploy_daemon_args =
  da_heap_mib :: int
  da_slab_mib :: int
  da_overlay :: string
  da_overlay_id :: string
  da_bitfile :: "string option"

record deploy_args =
  dp_board_host :: string
  dp_ssh_user :: string
  dp_port :: int
  dp_remote_dir :: string
  dp_board_python :: string
  dp_no_sync :: bool
  dp_daemon :: "deploy_daemon_args option"

text \<open>\<open>add_daemon_args\<close> and \<open>add_common_args\<close>: the defaults.\<close>

definition default_daemon_args :: deploy_daemon_args where
  "default_daemon_args = \<lparr>da_heap_mib = 64, da_slab_mib = 32, da_overlay = ''base'', da_overlay_id = ''pynq-base'', da_bitfile = None\<rparr>"

definition default_args :: "(string \<Rightarrow> string option) \<Rightarrow> deploy_args res" where
  "default_args environ =
     bindR (case environ ''PYNQ_PORT'' of None \<Rightarrow> Inr DEFAULT_PORT | Some v \<Rightarrow> parse_int v) (\<lambda>port.
       Inr \<lparr>dp_board_host = (case environ ''PYNQ_HOST'' of None \<Rightarrow> DEFAULT_BOARD_HOST | Some h \<Rightarrow> h), dp_ssh_user = ''xilinx'',
         dp_port = port, dp_remote_dir = DEFAULT_REMOTE_DIR, dp_board_python = DEFAULT_BOARD_PYTHON, dp_no_sync = False, dp_daemon = None\<rparr>)"

definition config_from_args :: "deploy_args \<Rightarrow> board_config" where
  "config_from_args args =
     \<lparr>bc_board_host = dp_board_host args, bc_ssh_user = dp_ssh_user args, bc_remote_dir = dp_remote_dir args,
      bc_board_python = dp_board_python args, bc_port = dp_port args,
      bc_heap_mib = (case dp_daemon args of None \<Rightarrow> 0 | Some d \<Rightarrow> da_heap_mib d),
      bc_slab_mib = (case dp_daemon args of None \<Rightarrow> 0 | Some d \<Rightarrow> da_slab_mib d),
      bc_overlay = (case dp_daemon args of None \<Rightarrow> [] | Some d \<Rightarrow> da_overlay d),
      bc_overlay_id = (case dp_daemon args of None \<Rightarrow> [] | Some d \<Rightarrow> da_overlay_id d),
      bc_bitfile = (case dp_daemon args of None \<Rightarrow> None | Some d \<Rightarrow> da_bitfile d)\<rparr>"

section \<open>Command lines\<close>

definition path_join :: "string \<Rightarrow> string \<Rightarrow> string" where
  "path_join base pkg = (if base = ''/'' then base @ pkg else base @ ''/'' @ pkg)"

definition rsync_packages_command :: "string \<Rightarrow> board_config \<Rightarrow> string list" where
  "rsync_packages_command root cfg =
     [''rsync'', ''-a'', ''--chmod=ug+w'', ''--exclude=__pycache__''] @ map (path_join root) BOARD_PACKAGES @
     [ssh_target cfg @ '':'' @ bc_remote_dir cfg @ ''/'']"

definition forwarded_env :: "(string \<Rightarrow> string option) \<Rightarrow> string list" where
  "forwarded_env environ =
     concat (map (\<lambda>name. case environ name of
         None \<Rightarrow> []
       | Some v \<Rightarrow> if map lower_char v \<in> set ['''', ''0'', ''false'', ''no'', ''off''] then [] else [name @ ''='' @ v]) FORWARDED_ENV)"

definition daemon_argv :: "(string \<Rightarrow> string option) \<Rightarrow> board_config \<Rightarrow> string list" where
  "daemon_argv environ cfg =
     [''sudo'', ''env'', ''XILINX_XRT=/usr'', ''PYNQ_PYTHON=python3.10'', ''PYTHONPATH='' @ bc_remote_dir cfg] @ forwarded_env environ @
     [bc_board_python cfg, ''-m'', ''board.daemon'', ''--host'', ''0.0.0.0'', ''--port'', show_int (bc_port cfg), ''--allocator'', ''pynq'',
      ''--heap-mib'', show_int (bc_heap_mib cfg), ''--slab-mib'', show_int (bc_slab_mib cfg), ''--overlay'', bc_overlay cfg,
      ''--overlay-id'', bc_overlay_id cfg] @
     (case bc_bitfile cfg of None \<Rightarrow> [] | Some b \<Rightarrow> [''--bitfile'', b])"

definition remote_daemon_command :: "(string \<Rightarrow> string option) \<Rightarrow> board_config \<Rightarrow> string" where
  "remote_daemon_command environ cfg =
     ''cd '' @ shlex_quote (bc_remote_dir cfg) @ '' && exec '' @ shlex_join (daemon_argv environ cfg)"

definition native_cflags :: string where
  "native_cflags = ''-O3 -mcpu=cortex-a9 -mfpu=neon-fp16 -mfloat-abi=hard -mfp16-format=ieee -std=c99 -fPIC''"

definition remote_native_build_command :: "board_config \<Rightarrow> string" where
  "remote_native_build_command cfg =
     ''cd '' @ shlex_quote (bc_remote_dir cfg) @ ''/board/kernels/ps && '' @
     ''make OUT_DIR=. clean && CFLAGS='' @ shlex_quote native_cflags @ '' make OUT_DIR=.''"

definition ssh_daemon_command :: "(string \<Rightarrow> string option) \<Rightarrow> board_config \<Rightarrow> string list" where
  "ssh_daemon_command environ cfg = [''ssh'', ''-tt'', ssh_target cfg, remote_daemon_command environ cfg]"

definition ssh_native_build_command :: "board_config \<Rightarrow> string list" where
  "ssh_native_build_command cfg = [''ssh'', ''-tt'', ssh_target cfg, remote_native_build_command cfg]"

section \<open>The commands\<close>

type_synonym 's runner = "string list \<Rightarrow> ('s, int) py"

definition cmd_sync :: "'s runner \<Rightarrow> string \<Rightarrow> deploy_args \<Rightarrow> ('s, int) py" where
  "cmd_sync run_command root args = run_command (rsync_packages_command root (config_from_args args))"

definition synced :: "'s runner \<Rightarrow> string \<Rightarrow> deploy_args \<Rightarrow> string list \<Rightarrow> ('s, int) py" where
  "synced run_command root args command =
     (if dp_no_sync args then run_command command
      else py_bind (run_command (rsync_packages_command root (config_from_args args))) (\<lambda>rc.
        if rc \<noteq> 0 then py_ret rc else run_command command))"

definition cmd_daemon :: "'s runner \<Rightarrow> string \<Rightarrow> (string \<Rightarrow> string option) \<Rightarrow> deploy_args \<Rightarrow> ('s, int) py" where
  "cmd_daemon run_command root environ args =
     synced run_command root args (ssh_daemon_command environ (config_from_args args))"

definition cmd_build_native :: "'s runner \<Rightarrow> string \<Rightarrow> deploy_args \<Rightarrow> ('s, int) py" where
  "cmd_build_native run_command root args =
     synced run_command root args (ssh_native_build_command (config_from_args args))"

datatype deploy_command = Sync | Daemon | BuildNative

definition deploy_main :: "'s runner \<Rightarrow> string \<Rightarrow> (string \<Rightarrow> string option) \<Rightarrow> deploy_command \<Rightarrow> deploy_args \<Rightarrow> ('s, int) py" where
  "deploy_main run_command root environ cmd args =
     py_catch (case cmd of
         Sync \<Rightarrow> cmd_sync run_command root args
       | Daemon \<Rightarrow> cmd_daemon run_command root environ args
       | BuildNative \<Rightarrow> cmd_build_native run_command root args)
       (\<lambda>e. if e = OSError \<or> e = FileNotFoundError then py_ret 1 else py_raise e)"

end
