(* ===== verification/DeployProps.thy ===== *)
theory DeployProps
  imports Deploy
begin

text \<open>
  The properties of the deployment command line: the remote shell reads the words that the program put
  together, whatever characters the configuration has, and nothing runs on the board after a failed copy.
\<close>

section \<open>The words of a command line\<close>

text \<open>
  How a POSIX shell reads a line of words: characters between single quotes stand for themselves, between double quotes all but
  \<open>$\<close>, \<open>`\<close>, \<open>!\<close> and the backslash, blanks separate words and \<open>&&\<close> commands.  Any other character outside quotes that
  \<open>shlex\<close> does not call safe could be special: the reader gives up.
\<close>

datatype shell_mode = Plain | Single | Double

definition end_word :: "string option \<Rightarrow> string list \<Rightarrow> string list" where
  "end_word cur ws = (case cur of None \<Rightarrow> ws | Some w \<Rightarrow> ws @ [w])"

definition extend :: "string option \<Rightarrow> char \<Rightarrow> string option" where
  "extend cur c = Some ((case cur of None \<Rightarrow> [] | Some w \<Rightarrow> w) @ [c])"

definition begun :: "string option \<Rightarrow> string option" where
  "begun cur = Some (case cur of None \<Rightarrow> [] | Some w \<Rightarrow> w)"

fun shell_scan :: "shell_mode \<Rightarrow> string option \<Rightarrow> string list \<Rightarrow> string list list \<Rightarrow> string \<Rightarrow> string list list option" where
  "shell_scan Plain cur ws cmds [] = Some (cmds @ [end_word cur ws])"
| "shell_scan md cur ws cmds [] = None"
| "shell_scan Single cur ws cmds (c # cs) =
     (if c = squote then shell_scan Plain cur ws cmds cs else shell_scan Single (extend cur c) ws cmds cs)"
| "shell_scan Double cur ws cmds (c # cs) =
     (if c = dquote then shell_scan Plain cur ws cmds cs
      else if c \<in> set [CHR ''$'', CHR 0x60, CHR ''!'', CHR 0x5C] then None
      else shell_scan Double (extend cur c) ws cmds cs)"
| "shell_scan Plain cur ws cmds (c # cs) =
     (if c = CHR '' '' then shell_scan Plain None (end_word cur ws) cmds cs
      else if c = squote then shell_scan Single (begun cur) ws cmds cs
      else if c = dquote then shell_scan Double (begun cur) ws cmds cs
      else if safe_char c then shell_scan Plain (extend cur c) ws cmds cs
      else if c = CHR ''&'' then
        (case cs of
           d # ds \<Rightarrow> if d = CHR ''&'' then shell_scan Plain None [] (cmds @ [end_word cur ws]) ds else None
         | [] \<Rightarrow> None)
      else None)"

definition shell_commands :: "string \<Rightarrow> string list list option" where
  "shell_commands line = shell_scan Plain None [] [] line"

lemma safe_char_plain: "safe_char c \<Longrightarrow> c \<noteq> CHR '' '' \<and> c \<noteq> squote \<and> c \<noteq> dquote"
  by (auto simp: safe_char_def Let_def)

lemma scan_safe:
  "list_all safe_char s \<Longrightarrow>
   shell_scan Plain cur ws cmds (s @ rest) =
   shell_scan Plain (if s = [] then cur else Some ((case cur of None \<Rightarrow> [] | Some w \<Rightarrow> w) @ s)) ws cmds rest"
proof (induction s arbitrary: cur)
  case (Cons c s)
  then have "safe_char c" by simp
  with Cons safe_char_plain [OF this] show ?case by (cases "s = []") (auto simp: extend_def)
qed simp

lemma scan_quoted:
  "shell_scan Single (Some w) ws cmds (concat (map quote_char s) @ squote # rest) = shell_scan Plain (Some (w @ s)) ws cmds rest"
  by (induction s arbitrary: w) (auto simp: quote_char_def extend_def begun_def)

lemma scan_quote:
  "shell_scan Plain cur ws cmds (shlex_quote s @ rest) =
   shell_scan Plain (Some ((case cur of None \<Rightarrow> [] | Some w \<Rightarrow> w) @ s)) ws cmds rest"
proof (cases "s = []")
  case True
  then show ?thesis by (simp add: shlex_quote_def begun_def)
next
  case False
  show ?thesis
  proof (cases "list_all safe_char s")
    case True
    with False show ?thesis by (simp add: shlex_quote_def scan_safe)
  next
    case unsafe: False
    with False show ?thesis by (simp add: shlex_quote_def begun_def scan_quoted)
  qed
qed

lemma scan_join:
  assumes "args \<noteq> []"
  shows "shell_scan Plain None ws cmds (shlex_join args) = Some (cmds @ [ws @ args])"
  using assms unfolding shlex_join_def
proof (induction args arbitrary: ws rule: join_words.induct)
  case (2 w)
  then show ?case using scan_quote [of None ws cmds w "[]"] by (simp add: end_word_def)
next
  case (3 w v vs)
  then show ?case by (simp add: scan_quote end_word_def)
qed simp

lemma scan_word:
  assumes "list_all safe_char s" "s \<noteq> []"
  shows "shell_scan Plain None ws cmds (s @ CHR '' '' # rest) = shell_scan Plain None (ws @ [s]) cmds rest"
  using assms by (simp add: scan_safe end_word_def)

lemma scan_and:
  "shell_scan Plain (Some w) ws cmds ('' && '' @ rest) = shell_scan Plain None [] (cmds @ [ws @ [w]]) rest"
  by (simp add: end_word_def safe_char_def Let_def)

lemma safe_char_and: "\<not> safe_char (CHR ''&'')"
  by (simp add: safe_char_def)

text \<open>C39: the remote shell runs what was meant.  Whatever strings the configuration and the forwarded environment hold, blanks, quotes, semicolons
  and dollar signs included, the shell reads the line of the daemon as two commands: \<open>cd\<close> to the remote directory, and \<open>exec\<close> of
  exactly the words of the argument list; and the line of the native build as \<open>cd\<close>, \<open>make clean\<close> and \<open>make\<close> with
  the flags as one word.\<close>

theorem remote_commands_read_back:
  "shell_commands (remote_daemon_command environ cfg) =
     Some [[''cd'', bc_remote_dir cfg], ''exec'' # daemon_argv environ cfg] \<and>
   shell_commands (remote_native_build_command cfg) =
     Some [[''cd'', bc_remote_dir cfg @ ''/board/kernels/ps''], [''make'', ''OUT_DIR=.'', ''clean''],
       [''CFLAGS='' @ native_cflags, ''make'', ''OUT_DIR=.'']]"
proof -
  have safe: "list_all safe_char ''cd''" "list_all safe_char ''exec''" "list_all safe_char ''/board/kernels/ps''" "list_all safe_char ''make''"
    "list_all safe_char ''OUT_DIR=.''" "list_all safe_char ''clean''" "list_all safe_char ''CFLAGS=''" by code_simp+
  have ne: "daemon_argv environ cfg \<noteq> []" by (simp add: daemon_argv_def)
  note words = safe [THEN scan_word, OF list.distinct(2)]
  have d: "remote_daemon_command environ cfg = ''cd'' @ CHR '' '' # shlex_quote (bc_remote_dir cfg) @ '' && '' @ ''exec'' @ CHR '' '' #
      shlex_join (daemon_argv environ cfg)" by (simp add: remote_daemon_command_def)
  have "shell_commands (remote_daemon_command environ cfg) = Some [[''cd'', bc_remote_dir cfg], ''exec'' # daemon_argv environ cfg]"
    unfolding shell_commands_def d words scan_quote scan_and scan_join [OF ne] by simp
  moreover have n: "remote_native_build_command cfg = ''cd'' @ CHR '' '' # shlex_quote (bc_remote_dir cfg) @ ''/board/kernels/ps'' @ '' && '' @
      ''make'' @ CHR '' '' # ''OUT_DIR=.'' @ CHR '' '' # ''clean'' @ '' && '' @ ''CFLAGS='' @ shlex_quote native_cflags @ CHR '' '' #
      ''make'' @ CHR '' '' # ''OUT_DIR=.'' @ []" by (simp add: remote_native_build_command_def)
  have "shell_commands (remote_native_build_command cfg) =
     Some [[''cd'', bc_remote_dir cfg @ ''/board/kernels/ps''], [''make'', ''OUT_DIR=.'', ''clean''],
       [''CFLAGS='' @ native_cflags, ''make'', ''OUT_DIR=.'']]"
    using safe by (simp add: shell_commands_def n scan_quote end_word_def extend_def scan_and [simplified] safe_char_and)
  ultimately show ?thesis by blast
qed

text \<open>Nothing runs on the board after a copy that failed: the command ends with the return code of the copy.\<close>

lemma failed_sync_stops:
  assumes "\<not> dp_no_sync args" "run_command (rsync_packages_command root (config_from_args args)) s = (Inr rc, s')" "rc \<noteq> 0"
  shows "deploy_main run_command root environ cmd args s = (Inr rc, s')"
  using assms by (cases cmd) (simp_all add: deploy_main_def cmd_sync_def cmd_daemon_def cmd_build_native_def synced_def py_simps)

end
