(* ===== verification/AllocProbe.thy ===== *)
theory AllocProbe
  imports Prelude
begin

text \<open>
  The probe of \<^verbatim>\<open>board/tools/alloc_probe.py\<close>: how much memory PYNQ's \<open>allocate\<close> can reserve, in one buffer and in
  chunks.  The allocator, the writes that touch a buffer and the release of a buffer are the record \<open>pool\<close> on some
  state; what is printed is the result of the functions.
\<close>

section \<open>Reading \<open>/proc/meminfo\<close>\<close>

definition WANTED :: "string list" where
  "WANTED = [''MemTotal'', ''MemFree'', ''MemAvailable'', ''Buffers'', ''Cached'', ''CmaTotal'', ''CmaFree'']"

fun split_colon :: "string \<Rightarrow> string \<Rightarrow> (string \<times> string) option" where
  "split_colon piece [] = None"
| "split_colon piece (c # cs) = (if c = CHR '':'' then Some (piece, cs) else split_colon (piece @ [c]) cs)"

text \<open>\<open>rest.strip().split()[0]\<close>: the first word, if there is one; \<open>to_int\<close> is \<open>int\<close> of a text.\<close>

definition blank :: "char \<Rightarrow> bool" where
  "blank c \<longleftrightarrow> (let n = (of_char c :: nat) in n = 32 \<or> 9 \<le> n \<and> n \<le> 13 \<or> 28 \<le> n \<and> n \<le> 31)"

definition first_word :: "string \<Rightarrow> string option" where
  "first_word s = (let w = takeWhile (\<lambda>c. \<not> blank c) (dropWhile blank s) in if w = [] then None else Some w)"

fun read_meminfo :: "(string \<Rightarrow> int res) \<Rightarrow> string list \<Rightarrow> (string \<times> int) list \<Rightarrow> (string \<times> int) list res" where
  "read_meminfo to_int [] out = Inr out"
| "read_meminfo to_int (line # lines) out =
     (case split_colon [] line of
        None \<Rightarrow> Inl ValueError
      | Some (key, rest) \<Rightarrow>
          if key \<in> set WANTED then
            (case first_word rest of
               None \<Rightarrow> Inl IndexError
             | Some w \<Rightarrow> bindR (to_int w) (\<lambda>n. read_meminfo to_int lines (AList.update key (n * 1024) out)))
          else read_meminfo to_int lines out)"

section \<open>Probing\<close>

definition PROBE_MIB :: int where
  "PROBE_MIB = 1024 * 1024"

record ('s, 'b) pool =
  po_allocate :: "int \<Rightarrow> ('s, 'b) py"
  po_touch :: "'b \<Rightarrow> int \<Rightarrow> ('s, unit) py"
  po_free :: "'b \<Rightarrow> ('s, unit) py"

definition try_alloc :: "('s, 'b) pool \<Rightarrow> bool \<Rightarrow> int \<Rightarrow> ('s, 'b) py" where
  "try_alloc po touch size_mib =
     (let nbytes = size_mib * PROBE_MIB in
      py_bind (po_allocate po nbytes) (\<lambda>buf.
        py_catch (py_then (py_when touch (po_touch po buf nbytes)) (py_ret buf))
          (\<lambda>e. py_then (po_free po buf) (py_raise e))))"

text \<open>
  One round of a loop: whether the buffer could be allocated, whether the round raised (the release is inside the
  \<open>try\<close> as well), and the state.
\<close>

definition probe_once :: "('s, 'b) pool \<Rightarrow> bool \<Rightarrow> int \<Rightarrow> 's \<Rightarrow> bool \<times> bool \<times> 's" where
  "probe_once po touch size_mib s =
     (case try_alloc po touch size_mib s of
        (Inl e, s1) \<Rightarrow> (False, True, s1)
      | (Inr buf, s1) \<Rightarrow> (case po_free po buf s1 of (Inl e, s2) \<Rightarrow> (True, True, s2) | (Inr _, s2) \<Rightarrow> (True, False, s2)))"

text \<open>The loop in steps, with fuel: a step of zero never ends.  It returns the last size that worked and the size it stopped at.\<close>

fun step_loop :: "nat \<Rightarrow> ('s, 'b) pool \<Rightarrow> bool \<Rightarrow> int \<Rightarrow> int \<Rightarrow> int \<Rightarrow> int \<Rightarrow> 's \<Rightarrow> (int \<times> int) res \<times> 's" where
  "step_loop 0 po touch max_mib step_mib last_ok sz s = (Inl OutOfFuel, s)"
| "step_loop (Suc fuel) po touch max_mib step_mib last_ok sz s =
     (if sz \<le> max_mib then
        (case probe_once po touch sz s of
           (ok, raised, s1) \<Rightarrow>
             (let last_ok1 = (if ok then sz else last_ok) in
              if raised then (Inr (last_ok1, sz), s1)
              else step_loop fuel po touch max_mib step_mib last_ok1 (sz + step_mib) s1))
      else (Inr (last_ok, sz), s))"

text \<open>Every round moves one of the bounds to the middle: a round that neither allocates nor raises does not exist.\<close>

lemma probe_once_moves: "probe_once po touch n s = (ok, raised, s1) \<Longrightarrow> ok \<or> raised"
  by (auto simp: probe_once_def split: prod.splits sum.splits)

function bisect_loop :: "('s, 'b) pool \<Rightarrow> bool \<Rightarrow> int \<Rightarrow> int \<Rightarrow> 's \<Rightarrow> int \<times> 's" where
  "bisect_loop po touch lo hi s =
     (if hi - lo > 1 then
        (let mid = (lo + hi) div 2 in
         case probe_once po touch mid s of
           (ok, raised, s1) \<Rightarrow>
             bisect_loop po touch (if ok then mid else lo) (if raised then mid else hi) s1)
      else (lo, s))"
  by pat_completeness auto
termination
  by (relation "measure (\<lambda>(po, touch, lo, hi, s). nat (hi - lo))")
     (auto dest!: probe_once_moves [OF sym] split: if_splits)

declare bisect_loop.simps [simp del]

definition find_max_single :: "nat \<Rightarrow> ('s, 'b) pool \<Rightarrow> int \<Rightarrow> int \<Rightarrow> bool \<Rightarrow> ('s, int) py" where
  "find_max_single fuel po max_mib step_mib touch s =
     (case step_loop fuel po touch max_mib step_mib 0 step_mib s of
        (Inl e, s1) \<Rightarrow> (Inl e, s1)
      | (Inr (last_ok, sz), s1) \<Rightarrow>
          (case bisect_loop po touch last_ok (min sz max_mib) s1 of (lo, s2) \<Rightarrow> (Inr lo, s2)))"

text \<open>The chunks: the list of buffers at the end of the loop, then the \<open>finally\<close> clause.\<close>

fun probe_chunks :: "('s, 'b) pool \<Rightarrow> bool \<Rightarrow> int \<Rightarrow> nat \<Rightarrow> 'b list \<Rightarrow> 's \<Rightarrow> 'b list \<times> 's" where
  "probe_chunks po touch chunk_mib 0 bufs s = (bufs, s)"
| "probe_chunks po touch chunk_mib (Suc n) bufs s =
     (case try_alloc po touch chunk_mib s of
        (Inl e, s1) \<Rightarrow> (bufs, s1)
      | (Inr buf, s1) \<Rightarrow> probe_chunks po touch chunk_mib n (bufs @ [buf]) s1)"

definition find_chunked_total :: "('s, 'b) pool \<Rightarrow> int \<Rightarrow> int \<Rightarrow> bool \<Rightarrow> ('s, int) py" where
  "find_chunked_total po chunk_mib max_chunks touch s =
     (case probe_chunks po touch chunk_mib (nat max_chunks) [] s of
        (bufs, s1) \<Rightarrow> py_then (py_for bufs (po_free po)) (py_ret (int (length bufs) * chunk_mib)) s1)"

end
