(* ===== verification/AllocProbeProps.thy ===== *)
theory AllocProbeProps
  imports AllocProbe
begin

text \<open>What the memory probe finds on a pool that can give out one buffer of up to some size, and back its pages up to another.\<close>

definition pool_limit :: "('s, 'b) pool \<Rightarrow> bool \<Rightarrow> int \<Rightarrow> 's \<Rightarrow> bool" where
  "pool_limit po touch limit s \<longleftrightarrow> (\<forall>n > 0. if n \<le> limit
     then \<exists>buf s1. try_alloc po touch n s = (Inr buf, s1) \<and> po_free po buf s1 = (Inr (), s)
     else \<exists>e. try_alloc po touch n s = (Inl e, s))"

lemma probe_once_limit:
  assumes "pool_limit po touch limit s" "0 < n"
  shows "probe_once po touch n s = (n \<le> limit, \<not> n \<le> limit, s)"
proof (cases "n \<le> limit")
  case True
  with assms obtain buf s1 where "try_alloc po touch n s = (Inr buf, s1)" "po_free po buf s1 = (Inr (), s)" unfolding pool_limit_def by metis
  with True show ?thesis by (simp add: probe_once_def)
next
  case False
  with assms obtain e where "try_alloc po touch n s = (Inl e, s)" unfolding pool_limit_def by metis
  with False show ?thesis by (simp add: probe_once_def)
qed

lemma step_loop_limit:
  assumes "pool_limit po touch limit s" "0 < step" "0 \<le> good" "good \<le> limit" "good \<le> max_mib" "step dvd good" "nat (max_mib - good) < fuel"
  shows "\<exists>good' sz. step_loop fuel po touch max_mib step good (good + step) s = (Inr (good', sz), s) \<and> sz = good' + step \<and>
    step dvd good' \<and> 0 \<le> good' \<and> good' \<le> limit \<and> good' \<le> max_mib \<and> (limit < sz \<or> max_mib < sz)"
  using assms(3-7)
proof (induction fuel arbitrary: good)
  case (Suc fuel)
  let ?sz = "good + step"
  show ?case
  proof (cases "?sz \<le> max_mib \<and> ?sz \<le> limit")
    case True
    have "nat (max_mib - ?sz) < fuel" using Suc.prems(5) True assms(2) by auto
    with Suc.IH [of ?sz] Suc.prems True assms(2) show ?thesis
      using probe_once_limit [OF assms(1), of ?sz] by (simp add: Let_def add.assoc)
  next
    case False
    with Suc.prems assms(2) show ?thesis using probe_once_limit [OF assms(1), of ?sz] by (auto simp: Let_def)
  qed
qed simp

lemma bisect_limit:
  assumes "pool_limit po touch limit s" "0 \<le> lo" "lo \<le> limit"
  shows "bisect_loop po touch lo hi s = (if limit < hi then limit else if lo < hi then hi - 1 else lo, s)"
  using assms
proof (induction po touch lo hi s rule: bisect_loop.induct)
  case (1 po touch lo hi s)
  show ?case
  proof (cases "hi - lo > 1")
    case False
    with "1.prems"(3) show ?thesis by (auto simp: bisect_loop.simps [of po touch lo hi s])
  next
    case True
    let ?mid = "(lo + hi) div 2"
    have mid: "lo < ?mid" "?mid < hi" using True by auto
    have p: "probe_once po touch ?mid s = (?mid \<le> limit, \<not> ?mid \<le> limit, s)"
      using "1.prems"(1,2) mid(1) by (intro probe_once_limit) auto
    have "bisect_loop po touch lo hi s = bisect_loop po touch (if ?mid \<le> limit then ?mid else lo) (if \<not> ?mid \<le> limit then ?mid else hi) s"
      using True p by (simp add: bisect_loop.simps [of po touch lo hi s] Let_def)
    also have "\<dots> = (if limit < (if \<not> ?mid \<le> limit then ?mid else hi) then limit
        else if (if ?mid \<le> limit then ?mid else lo) < (if \<not> ?mid \<le> limit then ?mid else hi) then (if \<not> ?mid \<le> limit then ?mid else hi) - 1
        else (if ?mid \<le> limit then ?mid else lo), s)"
      using "1.prems" mid by (intro "1.IH" [OF True refl p [symmetric] refl]) (auto split: if_splits)
    also have "\<dots> = (if limit < hi then limit else if lo < hi then hi - 1 else lo, s)" using mid "1.prems"(3) by (simp split: if_splits)
    finally show ?thesis .
  qed
qed

section \<open>The pool\<close>

text \<open>
  The contract of the three operations, from a state \<open>s0\<close> in which nothing is out: \<open>allocate\<close> gives a buffer of up to \<open>cap\<close> bytes
  and otherwise fails without effect; touching a buffer works up to \<open>backed\<close> bytes and otherwise fails late, with the
  buffer still out; \<open>freebuffer\<close> of the buffer that is out leads back to \<open>s0\<close>.
\<close>

locale single_pool =
  fixes po :: "('s, 'b) pool"
    and s0 :: 's
    and out :: "'b \<Rightarrow> int \<Rightarrow> 's \<Rightarrow> bool"
    and cap backed :: int
  assumes allocate_ok: "0 < n \<Longrightarrow> n \<le> cap \<Longrightarrow> \<exists>b s1. po_allocate po n s0 = (Inr b, s1) \<and> out b n s1"
    and allocate_fails: "cap < n \<Longrightarrow> \<exists>e. po_allocate po n s0 = (Inl e, s0)"
    and touch_ok: "out b n s \<Longrightarrow> n \<le> backed \<Longrightarrow> \<exists>s1. po_touch po b n s = (Inr (), s1) \<and> out b n s1"
    and touch_fails: "out b n s \<Longrightarrow> backed < n \<Longrightarrow> \<exists>e s1. po_touch po b n s = (Inl e, s1) \<and> out b n s1"
    and free_out: "out b n s \<Longrightarrow> po_free po b s = (Inr (), s0)"
begin

text \<open>So \<open>try_alloc\<close> either leaves the one buffer out or, through its handler, nothing.\<close>

lemma try_alloc_limit: "pool_limit po touch ((if touch then min cap backed else cap) div PROBE_MIB) s0"
  unfolding pool_limit_def
proof (intro allI impI)
  fix n :: int assume n: "0 < n"
  let ?n = "n * PROBE_MIB"
  have pos: "0 < ?n" and le: "n \<le> x div PROBE_MIB \<longleftrightarrow> ?n \<le> x" for x using n by (auto simp: PROBE_MIB_def)
  show "if n \<le> (if touch then min cap backed else cap) div PROBE_MIB
      then \<exists>buf s1. try_alloc po touch n s0 = (Inr buf, s1) \<and> po_free po buf s1 = (Inr (), s0)
      else \<exists>e. try_alloc po touch n s0 = (Inl e, s0)"
  proof (cases "?n \<le> cap")
    case False
    then obtain e where "po_allocate po ?n s0 = (Inl e, s0)" using allocate_fails [of ?n] by auto
    with False show ?thesis unfolding le by (auto simp: try_alloc_def Let_def py_simps)
  next
    case True
    then obtain b s1 where a: "po_allocate po ?n s0 = (Inr b, s1)" "out b ?n s1" using allocate_ok [OF pos] by blast
    show ?thesis
    proof (cases "touch \<and> backed < ?n")
      case late: True
      then obtain e s2 where "po_touch po b ?n s1 = (Inl e, s2)" "out b ?n s2" using touch_fails [OF a(2)] by blast
      with late a(1) free_out show ?thesis unfolding le by (auto simp: try_alloc_def Let_def py_simps)
    next
      case False
      then obtain s2 where "py_when touch (po_touch po b ?n) s1 = (Inr (), s2)" "out b ?n s2"
        using touch_ok [OF a(2)] a(2) by (cases touch) (auto simp: py_simps)
      with False True a(1) free_out show ?thesis unfolding le by (auto simp: try_alloc_def Let_def py_simps)
    qed
  qed
qed

end

text \<open>C40: on a pool whose \<open>allocate\<close> gives buffers of up to \<open>cap\<close> bytes, of which the first \<open>backed\<close> bytes can be touched, the single-buffer probe
  ends, gives back all it took, also the buffers whose pages turned out to be missing, and reports the greatest number of MiB that can be allocated, and
  touched if asked to, when it is below \<open>max_mib\<close>.  When it is not below \<open>max_mib\<close> the probe reports \<open>max_mib\<close> only if that is a multiple of the
  step: otherwise the search takes \<open>max_mib\<close>, which it never tried, for a size that fails, and reports one MiB less.\<close>

theorem probe_finds_limit:
  fixes touch :: bool
  assumes "single_pool po s0 out cap backed" "0 < step" "0 \<le> max_mib" "0 \<le> cap" "0 \<le> backed" "nat max_mib < fuel"
  defines "limit \<equiv> (if touch then min cap backed else cap) div PROBE_MIB"
  shows "find_max_single fuel po max_mib step touch s0 =
    (Inr (if limit < max_mib then limit else if step dvd max_mib then max_mib else max_mib - 1), s0)"
proof -
  have lim: "pool_limit po touch limit s0" unfolding limit_def using single_pool.try_alloc_limit [OF assms(1)] .
  have "0 \<le> limit" using assms(4,5) by (auto simp: limit_def PROBE_MIB_def pos_imp_zdiv_nonneg_iff)
  with step_loop_limit [OF lim assms(2), of 0 max_mib fuel] assms(3,6) obtain good sz where
    sl: "step_loop fuel po touch max_mib step 0 step s0 = (Inr (good, sz), s0)" and sz: "sz = good + step" "step dvd good" "0 \<le> good"
      "good \<le> limit" "good \<le> max_mib" "limit < sz \<or> max_mib < sz" by auto
  have same: "good = max_mib" if "step dvd max_mib" "max_mib < sz"
  proof -
    have "step dvd max_mib - good" using that(1) sz(2) by simp
    moreover have "max_mib - good < step" "0 \<le> max_mib - good" using that(2) sz(1,5) by auto
    ultimately show ?thesis using zdvd_imp_le by fastforce
  qed
  have low: "good < max_mib" if "\<not> step dvd max_mib" using that sz(2,5) by (cases "good = max_mib") auto
  note b = bisect_limit [OF lim sz(3,4), of "min sz max_mib"]
  show ?thesis using sl b sz same low by (auto simp: find_max_single_def min_def)
qed

text \<open>A pool of one buffer: the state is the size of the buffer that is out, negative once it has been touched.\<close>

definition demo_pool :: "int \<Rightarrow> int \<Rightarrow> (int, unit) pool" where
  "demo_pool cap backed = \<lparr>po_allocate = (\<lambda>n s. if s = 0 \<and> n \<le> cap then (Inr (), n) else (Inl RuntimeError, s)),
     po_touch = (\<lambda>_ n s. (if n \<le> backed then Inr () else Inl RuntimeError, - n)), po_free = (\<lambda>_ s. (Inr (), 0))\<rparr>"

interpretation demo_pool: single_pool "demo_pool cap backed" 0 "\<lambda>_ n s. s = n \<or> s = - n" cap backed for cap backed
  by unfold_locales (auto simp: demo_pool_def)

text \<open>128 MiB of address space, of which 41 MiB have pages.\<close>

theorem probe_finds_limit_witness:
  "find_max_single 200 (demo_pool (128 * PROBE_MIB) (41 * PROBE_MIB)) 100 32 False 0 = (Inr 99, 0) \<and>
   find_max_single 200 (demo_pool (128 * PROBE_MIB) (41 * PROBE_MIB)) 96 32 False 0 = (Inr 96, 0) \<and>
   find_max_single 200 (demo_pool (128 * PROBE_MIB) (41 * PROBE_MIB)) 100 32 True 0 = (Inr 41, 0)"
  using probe_finds_limit [OF demo_pool.single_pool_axioms, where step = 32 and max_mib = 100 and cap = "128 * PROBE_MIB" and backed = "41 * PROBE_MIB" and fuel = 200 and touch = False]
    probe_finds_limit [OF demo_pool.single_pool_axioms, where step = 32 and max_mib = 96 and cap = "128 * PROBE_MIB" and backed = "41 * PROBE_MIB" and fuel = 200 and touch = False]
    probe_finds_limit [OF demo_pool.single_pool_axioms, where step = 32 and max_mib = 100 and cap = "128 * PROBE_MIB" and backed = "41 * PROBE_MIB" and fuel = 200 and touch = True] by (simp add: PROBE_MIB_def)

section \<open>Chunks\<close>

text \<open>The chunked probe reports at most what it was asked to try.\<close>

lemma probe_chunks_bufs: "probe_chunks po touch k n bufs s = (bufs', s') \<Longrightarrow> \<exists>more. bufs' = bufs @ more \<and> length more \<le> n"
  by (induction n arbitrary: bufs s) (fastforce split: prod.splits sum.splits)+

lemma chunked_total_bounds:
  assumes "find_chunked_total po k m touch s = (Inr total_mib, s')" "0 \<le> k" "0 \<le> m"
  shows "0 \<le> total_mib \<and> total_mib \<le> m * k"
proof -
  obtain bufs s1 where c: "probe_chunks po touch k (nat m) [] s = (bufs, s1)" by (cases "probe_chunks po touch k (nat m) [] s")
  with assms(1) have t: "total_mib = int (length bufs) * k" by (auto simp: find_chunked_total_def py_simps split: prod.splits sum.splits)
  have "int (length bufs) \<le> m" using probe_chunks_bufs [OF c] assms(3) by auto
  with t assms(2) show ?thesis by (simp add: mult_right_mono)
qed

end
