(* ===== verification/AxiProbe.thy ===== *)
theory AxiProbe
  imports Prelude "HOL-Library.Word"
begin

text \<open>
  The control-plane probe, \<^verbatim>\<open>fpga/bitstreams/benchmarks/axi_lite_probe/bench.py\<close>, and the register file that it probes,
  \<^verbatim>\<open>rtl/axi_lite_regs.v\<close>: one clock of the AXI-Lite slave, and the checks of the program over reads, writes and
  pauses that are a parameter.
\<close>

unbundle bit_operations_syntax

section \<open>The register file\<close>

record axi_regs =
  scratch_q :: "32 word"
  ctrl_q :: "32 word"
  counter_q :: "32 word"
  awready_q :: bool
  wready_q :: bool
  bvalid_q :: bool
  awaddr_q :: "8 word"
  arready_q :: bool
  rvalid_q :: bool
  rdata_q :: "32 word"

record axi_in =
  awaddr :: "8 word"
  awvalid :: bool
  wdata :: "32 word"
  wstrb :: "4 word"
  wvalid :: bool
  bready :: bool
  araddr :: "8 word"
  arvalid :: bool
  rready :: bool

definition ID_VALUE :: "32 word" where "ID_VALUE = 0xCAFE0001"
definition VERSION_VALUE :: "32 word" where "VERSION_VALUE = 1"

definition write_accept :: "axi_in \<Rightarrow> axi_regs \<Rightarrow> bool" where
  "write_accept i q \<longleftrightarrow> \<not> awready_q q \<and> \<not> wready_q q \<and> awvalid i \<and> wvalid i \<and> \<not> bvalid_q q"

definition write_commit :: "axi_regs \<Rightarrow> bool" where
  "write_commit q \<longleftrightarrow> awready_q q \<and> wready_q q"

definition read_accept :: "axi_in \<Rightarrow> axi_regs \<Rightarrow> bool" where
  "read_accept i q \<longleftrightarrow> \<not> arready_q q \<and> arvalid i \<and> \<not> rvalid_q q"

definition apply_wstrb :: "32 word \<Rightarrow> 32 word \<Rightarrow> 4 word \<Rightarrow> 32 word" where
  "apply_wstrb current data strb =
     (let pick = (\<lambda>k. take_bit 8 (drop_bit (8 * k) (if bit strb k then data else current))) in
      push_bit 24 (pick 3) OR push_bit 16 (pick 2) OR push_bit 8 (pick 1) OR pick 0)"

definition counter_clear_strobe :: "axi_in \<Rightarrow> axi_regs \<Rightarrow> bool" where
  "counter_clear_strobe i q \<longleftrightarrow> write_commit q \<and> take_bit 5 (awaddr_q q) = 0x0C \<and> bit (wdata i) 1 \<and> bit (wstrb i) 0"

definition read_mux :: "8 word \<Rightarrow> axi_regs \<Rightarrow> 32 word" where
  "read_mux addr q =
     (let sel = take_bit 5 addr in
      if sel = 0x00 then ID_VALUE else if sel = 0x04 then VERSION_VALUE else if sel = 0x08 then scratch_q q
      else if sel = 0x0C then ctrl_q q else if sel = 0x10 then counter_q q else 0)"

text \<open>One rising edge: the reset, and the four blocks of registers.\<close>

definition axi_clock :: "bool \<Rightarrow> axi_in \<Rightarrow> axi_regs \<Rightarrow> axi_regs" where
  "axi_clock aresetn i q =
     (if \<not> aresetn then
        \<lparr>scratch_q = 0, ctrl_q = 0, counter_q = 0, awready_q = False, wready_q = False, bvalid_q = False, awaddr_q = 0,
         arready_q = False, rvalid_q = False, rdata_q = 0\<rparr>
      else
        \<lparr>scratch_q = (if write_commit q \<and> take_bit 5 (awaddr_q q) = 0x08 then apply_wstrb (scratch_q q) (wdata i) (wstrb i) else scratch_q q),
         ctrl_q = (if write_commit q \<and> take_bit 5 (awaddr_q q) = 0x0C then apply_wstrb (ctrl_q q) (wdata i) (wstrb i) else ctrl_q q),
         counter_q = (if counter_clear_strobe i q then 0 else if bit (ctrl_q q) 0 then counter_q q + 1 else counter_q q),
         awready_q = write_accept i q,
         wready_q = write_accept i q,
         bvalid_q = (if write_commit q then True else if bvalid_q q \<and> bready i then False else bvalid_q q),
         awaddr_q = (if write_accept i q then awaddr i else awaddr_q q),
         arready_q = read_accept i q,
         rvalid_q = (if read_accept i q then True else if rvalid_q q \<and> rready i then False else rvalid_q q),
         rdata_q = (if read_accept i q then read_mux (araddr i) q else rdata_q q)\<rparr>)"

section \<open>The probe\<close>

text \<open>The registers through PYNQ's MMIO, and \<open>time.sleep\<close> in microseconds.\<close>

record 's probe_board =
  pb_read :: "int \<Rightarrow> ('s, int) py"
  pb_write :: "int \<Rightarrow> int \<Rightarrow> ('s, unit) py"
  pb_sleep :: "int \<Rightarrow> ('s, unit) py"

abbreviation (input) PROBE_REG_ID :: int where "PROBE_REG_ID \<equiv> 0x00"
abbreviation (input) PROBE_REG_VERSION :: int where "PROBE_REG_VERSION \<equiv> 0x04"
abbreviation (input) PROBE_REG_SCRATCH :: int where "PROBE_REG_SCRATCH \<equiv> 0x08"
abbreviation (input) PROBE_REG_CTRL :: int where "PROBE_REG_CTRL \<equiv> 0x0C"
abbreviation (input) PROBE_REG_COUNTER :: int where "PROBE_REG_COUNTER \<equiv> 0x10"

definition CTRL_RUN :: int where "CTRL_RUN = push_bit 0 1"
definition CTRL_RESET :: int where "CTRL_RESET = push_bit 1 1"

definition PROBE_EXPECTED_ID :: int where "PROBE_EXPECTED_ID = 0xCAFE0001"
definition PROBE_EXPECTED_VERSION :: int where "PROBE_EXPECTED_VERSION = 1"
definition PROBE_EXPECTED_HZ :: int where "PROBE_EXPECTED_HZ = 100000000"

definition check_value :: "int \<Rightarrow> int \<Rightarrow> int" where
  "check_value got want = (if got = want then 0 else 1)"

definition check_pred :: "bool \<Rightarrow> int" where
  "check_pred ok = (if ok then 0 else 1)"

definition check_reg :: "'s probe_board \<Rightarrow> int \<Rightarrow> int \<Rightarrow> ('s, int) py" where
  "check_reg regs off want = py_bind (pb_read regs off) (\<lambda>got. py_ret (check_value got want))"

definition probe_constants :: "'s probe_board \<Rightarrow> ('s, int) py" where
  "probe_constants regs =
     py_bind (check_reg regs PROBE_REG_ID PROBE_EXPECTED_ID) (\<lambda>f1.
     py_bind (check_reg regs PROBE_REG_VERSION PROBE_EXPECTED_VERSION) (\<lambda>f2. py_ret (f1 + f2)))"

definition PATTERNS :: "int list" where
  "PATTERNS = [0xDEADBEEF, 0x12345678, 0xFFFFFFFF, 0, 0xA5A55A5A]"

fun probe_scratch :: "'s probe_board \<Rightarrow> int list \<Rightarrow> int \<Rightarrow> ('s, int) py" where
  "probe_scratch regs [] failures = py_ret failures"
| "probe_scratch regs (pattern # rest) failures =
     py_then (pb_write regs PROBE_REG_SCRATCH pattern)
     (py_bind (check_reg regs PROBE_REG_SCRATCH pattern) (\<lambda>f. probe_scratch regs rest (failures + f)))"

definition probe_read_only :: "'s probe_board \<Rightarrow> ('s, int) py" where
  "probe_read_only regs =
     py_then (pb_write regs PROBE_REG_SCRATCH 0xCAFEBABE)
     (py_then (pb_write regs PROBE_REG_ID 0x11111111)
     (py_then (pb_write regs PROBE_REG_VERSION 0x22222222)
     (py_bind (check_reg regs PROBE_REG_ID PROBE_EXPECTED_ID) (\<lambda>f1.
      py_bind (check_reg regs PROBE_REG_VERSION PROBE_EXPECTED_VERSION) (\<lambda>f2.
      py_bind (check_reg regs PROBE_REG_SCRATCH 0xCAFEBABE) (\<lambda>f3. py_ret (f1 + f2 + f3)))))))"

definition probe_halted :: "'s probe_board \<Rightarrow> ('s, int) py" where
  "probe_halted regs =
     py_then (pb_write regs PROBE_REG_CTRL CTRL_RESET)
     (py_then (pb_sleep regs 1000)
     (py_bind (pb_read regs PROBE_REG_COUNTER) (\<lambda>a.
      py_then (pb_sleep regs 10000)
      (py_bind (pb_read regs PROBE_REG_COUNTER) (\<lambda>b. py_ret (check_pred (a = b)))))))"

text \<open>The bounds of the rate: \<open>int(EXPECTED_HZ * 0.050)\<close> and 75 and 125 per cent of it, which the floating point numbers hit exactly.\<close>

definition probe_rate :: "'s probe_board \<Rightarrow> ('s, int) py" where
  "probe_rate regs =
     py_then (pb_write regs PROBE_REG_CTRL (CTRL_RESET OR CTRL_RUN))
     (py_bind (pb_read regs PROBE_REG_COUNTER) (\<lambda>a.
      py_then (pb_sleep regs 50000)
      (py_bind (pb_read regs PROBE_REG_COUNTER) (\<lambda>b.
       let delta = (b - a) AND 0xFFFFFFFF; expected = PROBE_EXPECTED_HZ * 50 div 1000;
           lo = expected * 75 div 100; hi = expected * 125 div 100
       in py_ret (check_pred (lo \<le> delta \<and> delta \<le> hi))))))"

definition probe_strobe :: "'s probe_board \<Rightarrow> ('s, int) py" where
  "probe_strobe regs =
     py_then (pb_write regs PROBE_REG_CTRL (CTRL_RESET OR CTRL_RUN))
     (py_then (pb_sleep regs 1000)
     (py_bind (pb_read regs PROBE_REG_COUNTER) (\<lambda>c. py_ret (check_pred (c < PROBE_EXPECTED_HZ div 100)))))"

definition probe_ctrl :: "'s probe_board \<Rightarrow> ('s, int) py" where
  "probe_ctrl regs =
     py_then (pb_write regs PROBE_REG_CTRL CTRL_RUN)
     (py_bind (pb_read regs PROBE_REG_CTRL) (\<lambda>c1.
      py_then (pb_write regs PROBE_REG_CTRL 0)
      (py_bind (pb_read regs PROBE_REG_CTRL) (\<lambda>c2. py_ret (check_pred (c1 = CTRL_RUN) + check_pred (c2 = 0))))))"

definition axi_probe :: "'s probe_board \<Rightarrow> ('s, int) py" where
  "axi_probe regs =
     py_bind (probe_constants regs) (\<lambda>f1.
     py_bind (probe_scratch regs PATTERNS 0) (\<lambda>f2.
     py_bind (probe_read_only regs) (\<lambda>f3.
     py_bind (probe_halted regs) (\<lambda>f4.
     py_bind (probe_rate regs) (\<lambda>f5.
     py_bind (probe_strobe regs) (\<lambda>f6.
     py_bind (probe_ctrl regs) (\<lambda>f7.
       py_ret (if f1 + f2 + f3 + f4 + f5 + f6 + f7 \<noteq> 0 then 1 else 0))))))))"

end
