(* ===== verification/AxiProbeProps.thy ===== *)
theory AxiProbeProps
  imports AxiProbe
begin

text \<open>
  What the control-plane probe finds on the register file, through a master that follows the AXI-Lite handshakes.
\<close>

unbundle bit_operations_syntax

section \<open>Bus traffic\<close>

definition bus :: "axi_in list \<Rightarrow> axi_regs \<Rightarrow> axi_regs" where
  "bus ins q = fold (axi_clock True) ins q"

lemma bus_simps [simp]: "bus [] q = q" "bus (i # ins) q = bus ins (axi_clock True i q)" "bus (xs @ ys) q = bus ys (bus xs q)"
  by (simp_all add: bus_def)









section \<open>What the traffic does to the registers\<close>


























section \<open>The master\<close>












section \<open>The property\<close>



end
