(* ===== verification/DmaBench.thy ===== *)
theory DmaBench
  imports Prelude "HOL-Library.Word"
begin

text \<open>
  The two DMA benches, \<^verbatim>\<open>fpga/bitstreams/benchmarks/dma_loopback/bench.py\<close> and \<^verbatim>\<open>dma_dual_loopback/bench.py\<close>: buffers that are
  filled, sent through the programmable logic and compared.  PYNQ's buffers and DMA engines are a parameter, the record
  \<open>dma_board\<close>; what is measured and printed is not modelled.
\<close>

record ('s, 'b) dma_board =
  dm_allocate :: "int \<Rightarrow> ('s, 'b) py"
  dm_fill :: "'b \<Rightarrow> byte list \<Rightarrow> ('s, unit) py"
  dm_bytes :: "'b \<Rightarrow> ('s, byte list) py"
  dm_flush :: "'b \<Rightarrow> ('s, unit) py"
  dm_invalidate :: "'b \<Rightarrow> ('s, unit) py"
  dm_free :: "'b \<Rightarrow> ('s, unit) py"
  dm_send :: "int \<Rightarrow> 'b \<Rightarrow> ('s, unit) py"
  dm_recv :: "int \<Rightarrow> 'b \<Rightarrow> ('s, unit) py"
  dm_wait_send :: "int \<Rightarrow> ('s, unit) py"
  dm_wait_recv :: "int \<Rightarrow> ('s, unit) py"

definition BENCH_MIB :: int where
  "BENCH_MIB = 1024 * 1024"

text \<open>\<open>np.array_equal\<close> of the two buffers.\<close>

definition buffers_equal :: "('s, 'b) dma_board \<Rightarrow> 'b \<Rightarrow> 'b \<Rightarrow> ('s, bool) py" where
  "buffers_equal b src dst =
     py_bind (dm_bytes b src) (\<lambda>x. py_bind (dm_bytes b dst) (\<lambda>y. py_ret (x = y)))"

section \<open>One engine\<close>

definition loop_round_trip :: "('s, 'b) dma_board \<Rightarrow> 'b \<Rightarrow> 'b \<Rightarrow> ('s, unit) py" where
  "loop_round_trip b src dst =
     py_then (dm_flush b src)
     (py_then (dm_send b 0 src) (py_then (dm_recv b 0 dst)
     (py_then (dm_wait_send b 0) (py_then (dm_wait_recv b 0) (dm_invalidate b dst)))))"

text \<open>\<open>np.arange(nbytes, dtype=np.uint8)\<close>, which wraps at 256.\<close>

definition loop_pattern :: "int \<Rightarrow> byte list" where
  "loop_pattern nbytes = map (\<lambda>i. word_of_int (int i)) [0..<nat nbytes]"

definition loop_alloc_pair :: "('s, 'b) dma_board \<Rightarrow> int \<Rightarrow> ('s, 'b \<times> 'b) py" where
  "loop_alloc_pair b nbytes =
     py_bind (dm_allocate b nbytes) (\<lambda>src. py_bind (dm_allocate b nbytes) (\<lambda>dst.
       py_then (dm_fill b src (loop_pattern nbytes)) (py_ret (src, dst))))"

definition loop_verify :: "('s, 'b) dma_board \<Rightarrow> int \<Rightarrow> ('s, int) py" where
  "loop_verify b nbytes =
     py_bind (loop_alloc_pair b nbytes) (\<lambda>(src, dst).
       py_finally
         (py_then (loop_round_trip b src dst)
           (py_bind (buffers_equal b src dst) (\<lambda>same. py_ret (if \<not> same then 1 else 0))))
         (py_for [src, dst] (dm_free b)))"

fun loop_bench :: "('s, 'b) dma_board \<Rightarrow> int list \<Rightarrow> ('s, int) py" where
  "loop_bench b [] = py_ret 0"
| "loop_bench b (size_mib # sizes) =
     py_bind (loop_alloc_pair b (size_mib * BENCH_MIB)) (\<lambda>(src, dst).
     py_bind
       (py_finally
         (py_then (loop_round_trip b src dst)
           (py_then (py_for (replicate 5 ()) (\<lambda>_. loop_round_trip b src dst)) (buffers_equal b src dst)))
         (py_for [src, dst] (dm_free b)))
       (\<lambda>same. if \<not> same then py_ret 1 else loop_bench b sizes))"

section \<open>Two engines\<close>

text \<open>\<open>(np.arange(nbytes, dtype=np.uint32) + seed).astype(np.uint8)\<close>.\<close>

definition seed_pattern :: "int \<Rightarrow> int \<Rightarrow> byte list" where
  "seed_pattern nbytes seed = map (\<lambda>i. word_of_int ((int i + seed) mod 2 ^ 32)) [0..<nat nbytes]"

definition dual_alloc_pair :: "('s, 'b) dma_board \<Rightarrow> int \<Rightarrow> int \<Rightarrow> ('s, 'b \<times> 'b) py" where
  "dual_alloc_pair b nbytes seed =
     py_bind (dm_allocate b nbytes) (\<lambda>src. py_bind (dm_allocate b nbytes) (\<lambda>dst.
       py_then (dm_fill b src (seed_pattern nbytes seed)) (py_ret (src, dst))))"

definition round_trip_single :: "('s, 'b) dma_board \<Rightarrow> int \<Rightarrow> 'b \<Rightarrow> 'b \<Rightarrow> ('s, unit) py" where
  "round_trip_single b dma src dst =
     py_then (dm_flush b src)
     (py_then (dm_send b dma src) (py_then (dm_recv b dma dst)
     (py_then (dm_wait_send b dma) (py_then (dm_wait_recv b dma) (dm_invalidate b dst)))))"

definition round_trip_both :: "('s, 'b) dma_board \<Rightarrow> 'b \<Rightarrow> 'b \<Rightarrow> 'b \<Rightarrow> 'b \<Rightarrow> ('s, unit) py" where
  "round_trip_both b src0 dst0 src1 dst1 =
     py_then (dm_flush b src0) (py_then (dm_flush b src1)
     (py_then (dm_send b 0 src0) (py_then (dm_recv b 0 dst0) (py_then (dm_send b 1 src1) (py_then (dm_recv b 1 dst1)
     (py_then (dm_wait_send b 0) (py_then (dm_wait_recv b 0) (py_then (dm_wait_send b 1) (py_then (dm_wait_recv b 1)
     (py_then (dm_invalidate b dst0) (dm_invalidate b dst1)))))))))))"

definition verify_buffers :: "('s, 'b) dma_board \<Rightarrow> 'b \<Rightarrow> 'b \<Rightarrow> ('s, int) py" where
  "verify_buffers b src dst = py_bind (buffers_equal b src dst) (\<lambda>same. py_ret (if same then 0 else 1))"

text \<open>The concurrent pass of \<open>verify\<close>: fresh fills, cleared destinations, both engines at once.\<close>

definition concurrent_pass :: "('s, 'b) dma_board \<Rightarrow> int \<Rightarrow> 'b \<Rightarrow> 'b \<Rightarrow> 'b \<Rightarrow> 'b \<Rightarrow> ('s, int) py" where
  "concurrent_pass b nbytes src0 dst0 src1 dst1 =
     py_then (dm_fill b src0 (seed_pattern nbytes 0x3000)) (py_then (dm_fill b src1 (seed_pattern nbytes 0x4000))
     (py_then (dm_fill b dst0 (replicate (nat nbytes) 0)) (py_then (dm_fill b dst1 (replicate (nat nbytes) 0))
     (py_then (round_trip_both b src0 dst0 src1 dst1)
     (py_bind (verify_buffers b src0 dst0) (\<lambda>rc. if rc \<noteq> 0 then py_ret rc else verify_buffers b src1 dst1))))))"

definition dual_verify :: "('s, 'b) dma_board \<Rightarrow> int \<Rightarrow> ('s, int) py" where
  "dual_verify b nbytes =
     py_bind (dual_alloc_pair b nbytes 0x1000) (\<lambda>(src0, dst0).
     py_bind (dual_alloc_pair b nbytes 0x2000) (\<lambda>(src1, dst1).
       py_finally
         (py_then (round_trip_single b 0 src0 dst0)
           (py_bind (verify_buffers b src0 dst0) (\<lambda>rc0. if rc0 \<noteq> 0 then py_ret rc0
            else py_then (round_trip_single b 1 src1 dst1)
              (py_bind (verify_buffers b src1 dst1) (\<lambda>rc1. if rc1 \<noteq> 0 then py_ret rc1
               else concurrent_pass b nbytes src0 dst0 src1 dst1)))))
         (py_for [src0, dst0, src1, dst1] (dm_free b))))"

text \<open>The sweep: a size that does not fit is skipped.  The result is the list of sizes that were measured.\<close>

definition dual_reps :: "('s, 'b) dma_board \<Rightarrow> 'b \<Rightarrow> 'b \<Rightarrow> 'b \<Rightarrow> 'b \<Rightarrow> ('s, unit) py" where
  "dual_reps b src0 dst0 src1 dst1 =
     py_for (replicate 6 ()) (\<lambda>_.
       py_then (round_trip_single b 0 src0 dst0) (py_then (round_trip_single b 1 src1 dst1)
         (round_trip_both b src0 dst0 src1 dst1)))"

fun dual_bench :: "('s, 'b) dma_board \<Rightarrow> int list \<Rightarrow> ('s, int list) py" where
  "dual_bench b [] = py_ret []"
| "dual_bench b (size_mib # sizes) =
     (let nbytes = size_mib * BENCH_MIB in
      py_bind
        (py_catch
          (py_bind (dual_alloc_pair b nbytes 0x1000) (\<lambda>p0. py_bind (dual_alloc_pair b nbytes 0x2000) (\<lambda>p1. py_ret (Some (p0, p1)))))
          (\<lambda>e. if e = MemoryError \<or> e = RuntimeError then py_ret None else py_raise e))
        (\<lambda>pairs. case pairs of
           None \<Rightarrow> dual_bench b sizes
         | Some ((src0, dst0), (src1, dst1)) \<Rightarrow>
             py_then (py_finally (dual_reps b src0 dst0 src1 dst1) (py_for [src0, dst0, src1, dst1] (dm_free b)))
               (py_bind (dual_bench b sizes) (\<lambda>ms. py_ret (size_mib # ms)))))"

end
