(* ===== verification/DmaBenchProps.thy ===== *)
theory DmaBenchProps
  imports DmaBench
begin

text \<open>
  What the verification of the dual-engine bench can see: it passes on a board that loops every stream back, and its concurrent
  pass also passes on a board that crosses the two streams, because all its fills are the same bytes.
\<close>

section \<open>The fills\<close>

lemma word_of_int_mod: "(word_of_int (x mod 4294967296) :: byte) = word_of_int x"
proof -
  have "word_of_int (take_bit 32 x) = (word_of_int x :: byte)" by (rule bit_word_eqI) (auto simp: bit_simps)
  then show ?thesis by (simp add: take_bit_eq_mod)
qed

lemma seed_pattern_low_byte: "seed mod 256 = 0 \<Longrightarrow> seed_pattern n seed = loop_pattern n"
proof -
  assume "seed mod 256 = 0"
  then have "(word_of_int seed :: byte) = 0" by (simp add: word_of_int_eq_0_iff mod_eq_0_iff_dvd)
  then show "seed_pattern n seed = loop_pattern n" by (simp add: seed_pattern_def loop_pattern_def word_of_int_mod)
qed

lemma fills_equal:
  "seed_pattern n 0x1000 = loop_pattern n" "seed_pattern n 0x2000 = loop_pattern n" "seed_pattern n 0x3000 = loop_pattern n" "seed_pattern n 0x4000 = loop_pattern n"
  by (simp_all add: seed_pattern_low_byte)

lemma length_loop_pattern [simp]: "length (loop_pattern n) = nat n"
  by (simp add: loop_pattern_def)

section \<open>The board\<close>

text \<open>
  The buffers that are allocated, each with the bytes that the program sees through the cache and the bytes in memory, the streams that were
  sent and not yet received, and the buffers that wait for a stream.  The engines see memory only: a fill reaches it with \<open>flush\<close>,
  and what an engine has received is seen after \<open>invalidate\<close>.  \<open>route\<close> tells whose stream reaches an engine.
\<close>

record 'b dma_dev =
  dd_mem :: "'b \<Rightarrow> (byte list \<times> byte list) option"
  dd_tx :: "int \<Rightarrow> byte list option"
  dd_rx :: "int \<Rightarrow> 'b option"

locale dma_link =
  fixes b :: "('s, 'b) dma_board"
    and holds :: "'s \<Rightarrow> 'b dma_dev \<Rightarrow> bool"
    and route :: "int \<Rightarrow> int"
    and limit :: int
  assumes allocate: "holds s d \<Longrightarrow> 0 \<le> n \<Longrightarrow> n \<le> limit \<Longrightarrow>
      \<exists>buf x u s'. dm_allocate b n s = (Inr buf, s') \<and> dd_mem d buf = None \<and> length x = nat n \<and> length u = nat n \<and>
        holds s' (d\<lparr>dd_mem := (dd_mem d)(buf \<mapsto> (x, u))\<rparr>)"
    and fill: "holds s d \<Longrightarrow> dd_mem d buf = Some (y, u) \<Longrightarrow> length x = length y \<Longrightarrow>
      \<exists>s'. dm_fill b buf x s = (Inr (), s') \<and> holds s' (d\<lparr>dd_mem := (dd_mem d)(buf \<mapsto> (x, u))\<rparr>)"
    and bytes: "holds s d \<Longrightarrow> dd_mem d buf = Some (x, u) \<Longrightarrow> \<exists>s'. dm_bytes b buf s = (Inr x, s') \<and> holds s' d"
    and flush: "holds s d \<Longrightarrow> dd_mem d buf = Some (x, u) \<Longrightarrow>
      \<exists>s'. dm_flush b buf s = (Inr (), s') \<and> holds s' (d\<lparr>dd_mem := (dd_mem d)(buf \<mapsto> (x, x))\<rparr>)"
    and invalidate: "holds s d \<Longrightarrow> dd_mem d buf = Some (x, u) \<Longrightarrow>
      \<exists>s'. dm_invalidate b buf s = (Inr (), s') \<and> holds s' (d\<lparr>dd_mem := (dd_mem d)(buf \<mapsto> (u, u))\<rparr>)"
    and free: "holds s d \<Longrightarrow> dd_mem d buf = Some c \<Longrightarrow> \<exists>s'. dm_free b buf s = (Inr (), s') \<and> holds s' (d\<lparr>dd_mem := (dd_mem d)(buf := None)\<rparr>)"
    and send: "holds s d \<Longrightarrow> dd_mem d buf = Some (x, u) \<Longrightarrow> dd_tx d i = None \<Longrightarrow>
      \<exists>s'. dm_send b i buf s = (Inr (), s') \<and> holds s' (d\<lparr>dd_tx := (dd_tx d)(i \<mapsto> u)\<rparr>)"
    and recv: "holds s d \<Longrightarrow> dd_mem d buf = Some c \<Longrightarrow> dd_rx d i = None \<Longrightarrow>
      \<exists>s'. dm_recv b i buf s = (Inr (), s') \<and> holds s' (d\<lparr>dd_rx := (dd_rx d)(i \<mapsto> buf)\<rparr>)"
    and wait_send: "holds s d \<Longrightarrow> dd_rx d i = Some buf \<Longrightarrow> \<exists>s'. dm_wait_send b i s = (Inr (), s') \<and> holds s' d"
    and wait_recv: "holds s d \<Longrightarrow> dd_rx d i = Some buf \<Longrightarrow> dd_mem d buf = Some (y, u) \<Longrightarrow> dd_tx d (route i) = Some x \<Longrightarrow> length x = length u \<Longrightarrow>
      \<exists>s'. dm_wait_recv b i s = (Inr (), s') \<and>
        holds s' (d\<lparr>dd_mem := (dd_mem d)(buf \<mapsto> (y, x)), dd_tx := (dd_tx d)(route i := None), dd_rx := (dd_rx d)(i := None)\<rparr>)"
begin

text \<open>No stream under way, and the buffers.\<close>

definition settled :: "'s \<Rightarrow> ('b \<Rightarrow> (byte list \<times> byte list) option) \<Rightarrow> bool" where
  "settled s m \<longleftrightarrow> holds s \<lparr>dd_mem = m, dd_tx = (\<lambda>_. None), dd_rx = (\<lambda>_. None)\<rparr>"

lemma single_ok:
  assumes st: "settled s m" and m: "m src = Some (x, u)" "m dst = Some (y, v)" "length x = length v" "src \<noteq> dst" and r: "route i = i"
  shows "\<exists>s'. round_trip_single b i src dst s = (Inr (), s') \<and> settled s' (m(src \<mapsto> (x, x), dst \<mapsto> (x, x)))"
proof -
  let ?d = "\<lparr>dd_mem = m, dd_tx = (\<lambda>_. None), dd_rx = (\<lambda>_. None)\<rparr>" and ?m = "m(src \<mapsto> (x, x))"
  have h: "holds s ?d" using st by (simp add: settled_def)
  obtain s1 where 1: "dm_flush b src s = (Inr (), s1)" "holds s1 (?d\<lparr>dd_mem := ?m\<rparr>)" using flush [OF h, of src] m by auto
  obtain s2 where 2: "dm_send b i src s1 = (Inr (), s2)" "holds s2 (?d\<lparr>dd_mem := ?m, dd_tx := [i \<mapsto> x]\<rparr>)" using send [OF 1(2), of src x x i] m by auto
  obtain s3 where 3: "dm_recv b i dst s2 = (Inr (), s3)" "holds s3 (?d\<lparr>dd_mem := ?m, dd_tx := [i \<mapsto> x], dd_rx := [i \<mapsto> dst]\<rparr>)"
    using recv [OF 2(2), of dst "(y, v)" i] m by auto
  obtain s4 where 4: "dm_wait_send b i s3 = (Inr (), s4)" "holds s4 (?d\<lparr>dd_mem := ?m, dd_tx := [i \<mapsto> x], dd_rx := [i \<mapsto> dst]\<rparr>)"
    using wait_send [OF 3(2), of i dst] by auto
  obtain s5 where 5: "dm_wait_recv b i s4 = (Inr (), s5)" "settled s5 (?m(dst \<mapsto> (y, x)))"
    using wait_recv [OF 4(2), of i dst y v x] m r by (auto simp: settled_def fun_upd_idem)
  obtain s6 where 6: "dm_invalidate b dst s5 = (Inr (), s6)" "settled s6 (?m(dst \<mapsto> (x, x)))"
    using invalidate [OF 5(2) [unfolded settled_def], of dst y x] by (auto simp: settled_def)
  show ?thesis using 1(1) 2(1) 3(1) 4(1) 5(1) 6 by (simp add: round_trip_single_def py_then_run)
qed

text \<open>With both engines at work a buffer gets the stream of its own engine or, crossed, of the other one.\<close>

lemma both_ok:
  assumes st: "settled s m" and m: "m src0 = Some (x0, u0)" "m dst0 = Some (y0, v0)" "m src1 = Some (x1, u1)" "m dst1 = Some (y1, v1)"
    and l: "length x0 = n" "length x1 = n" "length v0 = n" "length v1 = n" and ne: "distinct [src0, dst0, src1, dst1]"
    and r: "route 0 = 0 \<and> route 1 = 1 \<or> route 0 = 1 \<and> route 1 = 0"
  defines "z0 \<equiv> if route 0 = 0 then x0 else x1" and "z1 \<equiv> if route 0 = 0 then x1 else x0"
  shows "\<exists>s'. round_trip_both b src0 dst0 src1 dst1 s = (Inr (), s') \<and>
    settled s' (m(src0 \<mapsto> (x0, x0), src1 \<mapsto> (x1, x1), dst0 \<mapsto> (z0, z0), dst1 \<mapsto> (z1, z1)))"
proof -
  let ?m1 = "m(src0 \<mapsto> (x0, x0))"
  let ?m = "m(src0 \<mapsto> (x0, x0), src1 \<mapsto> (x1, x1))"
  let ?d = "\<lparr>dd_mem = m, dd_tx = (\<lambda>_. None), dd_rx = (\<lambda>_. None)\<rparr>"
  let ?e = "\<lparr>dd_mem = ?m, dd_tx = (\<lambda>_. None), dd_rx = (\<lambda>_. None)\<rparr>"
  have q: "?m src0 = Some (x0, x0)" "?m dst0 = Some (y0, v0)" "?m src1 = Some (x1, x1)" "?m dst1 = Some (y1, v1)" using m ne by auto
  have h: "holds s ?d" using st by (simp add: settled_def)
  obtain s1 where 1: "dm_flush b src0 s = (Inr (), s1)" "holds s1 (?d\<lparr>dd_mem := ?m1\<rparr>)" using flush [OF h, of src0] m by auto
  obtain s2 where 2: "dm_flush b src1 s1 = (Inr (), s2)" "holds s2 ?e" using flush [OF 1(2), of src1 x1 u1] m ne by auto
  obtain s3 where 3: "dm_send b 0 src0 s2 = (Inr (), s3)" "holds s3 (?e\<lparr>dd_tx := [0 \<mapsto> x0]\<rparr>)" using send [OF 2(2), of src0 x0 x0 0] q by auto
  obtain s4 where 4: "dm_recv b 0 dst0 s3 = (Inr (), s4)" "holds s4 (?e\<lparr>dd_tx := [0 \<mapsto> x0], dd_rx := [0 \<mapsto> dst0]\<rparr>)" using recv [OF 3(2), of dst0 _ 0] q by auto
  obtain s5 where 5: "dm_send b 1 src1 s4 = (Inr (), s5)" "holds s5 (?e\<lparr>dd_tx := [0 \<mapsto> x0, 1 \<mapsto> x1], dd_rx := [0 \<mapsto> dst0]\<rparr>)" using send [OF 4(2), of src1 x1 x1 1] q by auto
  obtain s6 where 6: "dm_recv b 1 dst1 s5 = (Inr (), s6)" "holds s6 (?e\<lparr>dd_tx := [0 \<mapsto> x0, 1 \<mapsto> x1], dd_rx := [0 \<mapsto> dst0, 1 \<mapsto> dst1]\<rparr>)"
    using recv [OF 5(2), of dst1 _ 1] q by auto
  obtain s7 where 7: "dm_wait_send b 0 s6 = (Inr (), s7)" "holds s7 (?e\<lparr>dd_tx := [0 \<mapsto> x0, 1 \<mapsto> x1], dd_rx := [0 \<mapsto> dst0, 1 \<mapsto> dst1]\<rparr>)"
    using wait_send [OF 6(2), of 0 dst0] by auto
  let ?d8 = "?e\<lparr>dd_mem := ?m(dst0 \<mapsto> (y0, z0)), dd_tx := [0 \<mapsto> x0, 1 \<mapsto> x1](route 0 := None), dd_rx := [0 \<mapsto> dst0, 1 \<mapsto> dst1](0 := None)\<rparr>"
  obtain s8 where 8: "dm_wait_recv b 0 s7 = (Inr (), s8)" "holds s8 ?d8"
    using wait_recv [OF 7(2), of 0 dst0 y0 v0 z0] q l r by (auto simp: z0_def)
  obtain s9 where 9: "dm_wait_send b 1 s8 = (Inr (), s9)" "holds s9 ?d8" using wait_send [OF 8(2), of 1 dst1] by auto
  have e: "?d8\<lparr>dd_mem := (dd_mem ?d8)(dst1 \<mapsto> (y1, z1)), dd_tx := (dd_tx ?d8)(route 1 := None), dd_rx := (dd_rx ?d8)(1 := None)\<rparr> =
      ?e\<lparr>dd_mem := ?m(dst0 \<mapsto> (y0, z0), dst1 \<mapsto> (y1, z1))\<rparr>" using r by (auto simp: fun_eq_iff)
  have p: "dd_rx ?d8 1 = Some dst1" "dd_mem ?d8 dst1 = Some (y1, v1)" "dd_tx ?d8 (route 1) = Some z1" "length z1 = length v1" using m l r ne by (auto simp: z1_def)
  obtain t where t: "dm_wait_recv b 1 s9 = (Inr (), t)" "settled t (?m(dst0 \<mapsto> (y0, z0), dst1 \<mapsto> (y1, z1)))"
    using wait_recv [OF 9(2) p] unfolding e settled_def by auto
  have c: "(?m(dst0 \<mapsto> (y0, z0), dst1 \<mapsto> (y1, z1)))(dst0 \<mapsto> (z0, z0), dst1 \<mapsto> (z1, z1)) = ?m(dst0 \<mapsto> (z0, z0), dst1 \<mapsto> (z1, z1))"
    by (auto simp: fun_eq_iff)
  obtain t1 where t1: "dm_invalidate b dst0 t = (Inr (), t1)" "settled t1 ((?m(dst0 \<mapsto> (y0, z0), dst1 \<mapsto> (y1, z1)))(dst0 \<mapsto> (z0, z0)))"
    using invalidate [OF t(2) [unfolded settled_def], of dst0 y0 z0] ne by (auto simp: settled_def)
  obtain t2 where t2: "dm_invalidate b dst1 t1 = (Inr (), t2)" "settled t2 (?m(dst0 \<mapsto> (z0, z0), dst1 \<mapsto> (z1, z1)))"
    using invalidate [OF t1(2) [unfolded settled_def], of dst1 y1 z1] ne c by (auto simp: settled_def)
  show ?thesis using 1(1) 2(1) 3(1) 4(1) 5(1) 6(1) 7(1) 8(1) 9(1) t(1) t1(1) t2 by (simp add: round_trip_both_def py_then_run)
qed

lemma fill_ok: "settled s m \<Longrightarrow> m buf = Some (y, u) \<Longrightarrow> length x = length y \<Longrightarrow>
    \<exists>s'. dm_fill b buf x s = (Inr (), s') \<and> settled s' (m(buf \<mapsto> (x, u)))"
  using fill [of s _ buf y u x] unfolding settled_def by fastforce

lemma verify_ok: "settled s m \<Longrightarrow> m src = Some (x, u) \<Longrightarrow> m dst = Some (y, v) \<Longrightarrow>
    \<exists>s'. verify_buffers b src dst s = (Inr (if x = y then 0 else 1), s') \<and> settled s' m"
  unfolding settled_def
proof -
  let ?d = "\<lparr>dd_mem = m, dd_tx = (\<lambda>_. None), dd_rx = (\<lambda>_. None)\<rparr>"
  assume h: "holds s ?d" "m src = Some (x, u)" "m dst = Some (y, v)"
  obtain s1 where 1: "dm_bytes b src s = (Inr x, s1)" "holds s1 ?d" using bytes [OF h(1), of src x] h(2) by auto
  obtain s2 where 2: "dm_bytes b dst s1 = (Inr y, s2)" "holds s2 ?d" using bytes [OF 1(2), of dst y] h(3) by auto
  show "\<exists>s'. verify_buffers b src dst s = (Inr (if x = y then 0 else 1), s') \<and> holds s' ?d"
    using 1(1) 2 by (simp add: verify_buffers_def buffers_equal_def py_bind_run)
qed

lemma concurrent_ok:
  assumes st: "settled s m" and m: "m src0 = Some (x0, u0)" "m dst0 = Some (y0, v0)" "m src1 = Some (x1, u1)" "m dst1 = Some (y1, v1)"
    and l: "length x0 = nat n" "length x1 = nat n" "length y0 = nat n" "length y1 = nat n" "length v0 = nat n" "length v1 = nat n"
    and ne: "distinct [src0, dst0, src1, dst1]" and r: "route 0 = 0 \<and> route 1 = 1 \<or> route 0 = 1 \<and> route 1 = 0"
  defines "pp \<equiv> (loop_pattern n, loop_pattern n)"
  shows "\<exists>s'. concurrent_pass b n src0 dst0 src1 dst1 s = (Inr 0, s') \<and> settled s' (m(src0 \<mapsto> pp, src1 \<mapsto> pp, dst0 \<mapsto> pp, dst1 \<mapsto> pp))"
proof -
  let ?p = "loop_pattern n" and ?z = "replicate (nat n) (0 :: byte)"
  obtain s1 where 1: "dm_fill b src0 ?p s = (Inr (), s1)" "settled s1 (m(src0 \<mapsto> (?p, u0)))" using fill_ok [OF st m(1), of ?p] l by auto
  obtain s2 where 2: "dm_fill b src1 ?p s1 = (Inr (), s2)" "settled s2 (m(src0 \<mapsto> (?p, u0), src1 \<mapsto> (?p, u1)))"
    using fill_ok [OF 1(2), of src1 x1 u1 ?p] m l ne by auto
  obtain s3 where 3: "dm_fill b dst0 ?z s2 = (Inr (), s3)" "settled s3 (m(src0 \<mapsto> (?p, u0), src1 \<mapsto> (?p, u1), dst0 \<mapsto> (?z, v0)))"
    using fill_ok [OF 2(2), of dst0 y0 v0 ?z] m l ne by auto
  let ?m4 = "m(src0 \<mapsto> (?p, u0), src1 \<mapsto> (?p, u1), dst0 \<mapsto> (?z, v0), dst1 \<mapsto> (?z, v1))"
  obtain s4 where 4: "dm_fill b dst1 ?z s3 = (Inr (), s4)" "settled s4 ?m4"
    using fill_ok [OF 3(2), of dst1 y1 v1 ?z] m l ne by auto
  let ?m = "m(src0 \<mapsto> pp, src1 \<mapsto> pp, dst0 \<mapsto> pp, dst1 \<mapsto> pp)"
  have e: "?m4(src0 \<mapsto> pp, src1 \<mapsto> pp, dst0 \<mapsto> pp, dst1 \<mapsto> pp) = ?m" using ne by (auto simp: fun_eq_iff)
  have q: "?m4 src0 = Some (?p, u0)" "?m4 dst0 = Some (?z, v0)" "?m4 src1 = Some (?p, u1)" "?m4 dst1 = Some (?z, v1)" using ne by auto
  obtain s5 where 5: "round_trip_both b src0 dst0 src1 dst1 s4 = (Inr (), s5)" "settled s5 ?m"
    using both_ok [OF 4(2) q length_loop_pattern length_loop_pattern l(5,6) ne r] unfolding if_cancel pp_def [symmetric] e by blast
  obtain s6 where 6: "verify_buffers b src0 dst0 s5 = (Inr 0, s6)" "settled s6 ?m" using verify_ok [OF 5(2), of src0 ?p ?p dst0 ?p ?p] ne by (auto simp: pp_def)
  obtain s7 where 7: "verify_buffers b src1 dst1 s6 = (Inr 0, s7)" "settled s7 ?m" using verify_ok [OF 6(2), of src1 ?p ?p dst1 ?p ?p] ne by (auto simp: pp_def)
  show ?thesis using 1(1) 2(1) 3(1) 4(1) 5(1) 6(1) 7 by (simp add: concurrent_pass_def fills_equal py_simps)
qed

lemma pair_ok:
  assumes "settled s m" "0 \<le> n" "n \<le> limit" "seed mod 256 = 0"
  shows "\<exists>src dst u y v s'. dual_alloc_pair b n seed s = (Inr (src, dst), s') \<and> m src = None \<and> m dst = None \<and> src \<noteq> dst \<and>
    length y = nat n \<and> length v = nat n \<and> settled s' (m(src \<mapsto> (loop_pattern n, u), dst \<mapsto> (y, v)))"
proof -
  let ?d = "\<lambda>m. \<lparr>dd_mem = m, dd_tx = (\<lambda>_. None), dd_rx = (\<lambda>_. None)\<rparr>"
  obtain src x u s1 where 1: "dm_allocate b n s = (Inr src, s1)" "m src = None" "length x = nat n" "settled s1 (m(src \<mapsto> (x, u)))"
    using allocate [OF _ assms(2,3), of s "?d m"] assms(1) by (auto simp: settled_def)
  obtain dst y v s2 where 2: "dm_allocate b n s1 = (Inr dst, s2)" "(m(src \<mapsto> (x, u))) dst = None" "length y = nat n" "length v = nat n"
      "settled s2 (m(src \<mapsto> (x, u), dst \<mapsto> (y, v)))"
    using allocate [OF _ assms(2,3), of s1 "?d (m(src \<mapsto> (x, u)))"] 1(4) by (auto simp: settled_def)
  have ne: "src \<noteq> dst" "m dst = None" using 2(2) by (auto split: if_splits)
  have e: "(m(src \<mapsto> (x, u), dst \<mapsto> (y, v)))(src \<mapsto> (loop_pattern n, u)) = m(src \<mapsto> (loop_pattern n, u), dst \<mapsto> (y, v))" using ne by (auto simp: fun_eq_iff)
  obtain s3 where 3: "dm_fill b src (loop_pattern n) s2 = (Inr (), s3)" "settled s3 (m(src \<mapsto> (loop_pattern n, u), dst \<mapsto> (y, v)))"
    using fill_ok [OF 2(5), of src x u "loop_pattern n"] ne 1(3) e by auto
  show ?thesis using 1(1,2) 2(1,3,4) 3 ne seed_pattern_low_byte [OF assms(4), of n]
    by (intro exI [of _ src] exI [of _ dst] exI [of _ u] exI [of _ y] exI [of _ v] exI [of _ s3]) (simp add: dual_alloc_pair_def py_simps)
qed

lemma frees_ok: "settled s m \<Longrightarrow> distinct bufs \<Longrightarrow> (\<forall>x \<in> set bufs. m x \<noteq> None) \<Longrightarrow>
    \<exists>s'. py_for bufs (dm_free b) s = (Inr (), s') \<and> settled s' (\<lambda>x. if x \<in> set bufs then None else m x)"
proof (induction bufs arbitrary: s m)
  case (Cons x xs)
  let ?d = "\<lparr>dd_mem = m, dd_tx = (\<lambda>_. None), dd_rx = (\<lambda>_. None)\<rparr>"
  obtain v where "m x = Some v" using Cons.prems(3) by auto
  then obtain s1 where 1: "dm_free b x s = (Inr (), s1)" "settled s1 (m(x := None))"
    using free [of s ?d x v] Cons.prems(1) by (auto simp: settled_def)
  have e: "(\<lambda>y. if y \<in> set xs then None else (m(x := None)) y) = (\<lambda>y. if y \<in> set (x # xs) then None else m y)" by (auto simp: fun_eq_iff)
  have live: "\<forall>y \<in> set xs. (m(x := None)) y \<noteq> None" "distinct xs" using Cons.prems(2,3) by auto
  show ?case using Cons.IH [OF 1(2) live(2,1)] 1(1) unfolding e by (simp add: py_then_run)
qed simp

lemma dual_verify_ok:
  assumes st: "settled s m" and n: "0 \<le> n" "n \<le> limit" and r: "route 0 = 0" "route 1 = 1"
  shows "\<exists>s'. dual_verify b n s = (Inr 0, s') \<and> settled s' m"
proof -
  let ?p = "loop_pattern n"
  obtain src0 dst0 u0 y0 v0 s1 where 1: "dual_alloc_pair b n 0x1000 s = (Inr (src0, dst0), s1)" "m src0 = None" "m dst0 = None" "src0 \<noteq> dst0"
      "length y0 = nat n" "length v0 = nat n" "settled s1 (m(src0 \<mapsto> (?p, u0), dst0 \<mapsto> (y0, v0)))" using pair_ok [OF st n, of "0x1000"] by auto
  let ?m1 = "m(src0 \<mapsto> (?p, u0), dst0 \<mapsto> (y0, v0))"
  obtain src1 dst1 u1 y1 v1 s2 where 2: "dual_alloc_pair b n 0x2000 s1 = (Inr (src1, dst1), s2)" "?m1 src1 = None" "?m1 dst1 = None"
      "src1 \<noteq> dst1" "length y1 = nat n" "length v1 = nat n" "settled s2 (?m1(src1 \<mapsto> (?p, u1), dst1 \<mapsto> (y1, v1)))" using pair_ok [OF 1(7) n, of "0x2000"] by auto
  have ne: "distinct [src0, dst0, src1, dst1]" and new: "m src1 = None" "m dst1 = None" using 1(4) 2(2-4) by (auto split: if_splits)
  let ?m2 = "?m1(src1 \<mapsto> (?p, u1), dst1 \<mapsto> (y1, v1))"
  let ?m3 = "?m2(src0 \<mapsto> (?p, ?p), dst0 \<mapsto> (?p, ?p))"
  let ?m4 = "?m3(src1 \<mapsto> (?p, ?p), dst1 \<mapsto> (?p, ?p))"
  obtain s3 where 3: "round_trip_single b 0 src0 dst0 s2 = (Inr (), s3)" "settled s3 ?m3"
    using single_ok [OF 2(7), of src0 ?p u0 dst0 y0 v0 0] r ne 1(6) by auto
  obtain s4 where 4: "verify_buffers b src0 dst0 s3 = (Inr 0, s4)" "settled s4 ?m3" using verify_ok [OF 3(2), of src0 ?p ?p dst0 ?p ?p] ne by auto
  obtain s5 where 5: "round_trip_single b 1 src1 dst1 s4 = (Inr (), s5)" "settled s5 ?m4"
    using single_ok [OF 4(2), of src1 ?p u1 dst1 y1 v1 1] r ne 2(6) by auto
  obtain s6 where 6: "verify_buffers b src1 dst1 s5 = (Inr 0, s6)" "settled s6 ?m4" using verify_ok [OF 5(2), of src1 ?p ?p dst1 ?p ?p] ne by auto
  let ?m = "?m4(src0 \<mapsto> (?p, ?p), src1 \<mapsto> (?p, ?p), dst0 \<mapsto> (?p, ?p), dst1 \<mapsto> (?p, ?p))"
  have q: "?m4 src0 = Some (?p, ?p)" "?m4 dst0 = Some (?p, ?p)" "?m4 src1 = Some (?p, ?p)" "?m4 dst1 = Some (?p, ?p)" using ne by auto
  obtain s7 where 7: "concurrent_pass b n src0 dst0 src1 dst1 s6 = (Inr 0, s7)" "settled s7 ?m"
    using concurrent_ok [OF 6(2) q length_loop_pattern length_loop_pattern length_loop_pattern length_loop_pattern length_loop_pattern length_loop_pattern ne disjI1 [OF conjI [OF r]]] by blast
  have live: "\<forall>x \<in> set [src0, dst0, src1, dst1]. ?m x \<noteq> None" by auto
  have e: "(\<lambda>x. if x \<in> set [src0, dst0, src1, dst1] then None else ?m x) = m" using 1(2,3) new by (auto simp: fun_eq_iff)
  obtain s8 where 8: "py_for [src0, dst0, src1, dst1] (dm_free b) s7 = (Inr (), s8)" "settled s8 m" using frees_ok [OF 7(2) ne live] unfolding e by blast
  show ?thesis using 1(1) 2(1) 3(1) 4(1) 5(1) 6(1) 7(1) 8 by (simp add: dual_verify_def py_simps del: py_for.simps)
qed

end

text \<open>A board with numbered buffers.\<close>

type_synonym bench_state = "nat \<times> nat dma_dev"

definition live_buf :: "nat \<Rightarrow> (bench_state, 'a) py \<Rightarrow> (bench_state, 'a) py" where
  "live_buf buf act s = (if dd_mem (snd s) buf = None then (Inl RuntimeError, s) else act s)"

definition set_buf :: "nat \<Rightarrow> (byte list \<times> byte list) option \<Rightarrow> bench_state \<Rightarrow> bench_state" where
  "set_buf buf v = (\<lambda>(k, d). (k, d\<lparr>dd_mem := (dd_mem d)(buf := v)\<rparr>))"

definition bench_board :: "(int \<Rightarrow> int) \<Rightarrow> (bench_state, nat) dma_board" where
  "bench_board route =
     \<lparr>dm_allocate = (\<lambda>n (k, d). (Inr k, (Suc k, d\<lparr>dd_mem := (dd_mem d)(k \<mapsto> (replicate (nat n) 0, replicate (nat n) 0))\<rparr>))),
      dm_fill = (\<lambda>buf x. live_buf buf (\<lambda>s. (Inr (), set_buf buf (Some (x, snd (the (dd_mem (snd s) buf)))) s))),
      dm_bytes = (\<lambda>buf. live_buf buf (\<lambda>s. (Inr (fst (the (dd_mem (snd s) buf))), s))),
      dm_flush = (\<lambda>buf. live_buf buf (\<lambda>s. (Inr (), set_buf buf (map_option (\<lambda>(x, u). (x, x)) (dd_mem (snd s) buf)) s))),
      dm_invalidate = (\<lambda>buf. live_buf buf (\<lambda>s. (Inr (), set_buf buf (map_option (\<lambda>(x, u). (u, u)) (dd_mem (snd s) buf)) s))),
      dm_free = (\<lambda>buf s. (Inr (), set_buf buf None s)),
      dm_send = (\<lambda>i buf. live_buf buf (\<lambda>(k, d). (Inr (), (k, d\<lparr>dd_tx := (dd_tx d)(i := map_option snd (dd_mem d buf))\<rparr>)))),
      dm_recv = (\<lambda>i buf. live_buf buf (\<lambda>(k, d). (Inr (), (k, d\<lparr>dd_rx := (dd_rx d)(i \<mapsto> buf)\<rparr>)))),
      dm_wait_send = (\<lambda>i s. (Inr (), s)),
      dm_wait_recv = (\<lambda>i (k, d). case (dd_rx d i, dd_tx d (route i)) of
           (Some buf, Some x) \<Rightarrow> (Inr (), (k, d\<lparr>dd_mem := (dd_mem d)(buf := map_option (\<lambda>(y, u). (y, x)) (dd_mem d buf)),
              dd_tx := (dd_tx d)(route i := None), dd_rx := (dd_rx d)(i := None)\<rparr>))
         | _ \<Rightarrow> (Inl RuntimeError, (k, d)))\<rparr>"

definition bench_holds :: "bench_state \<Rightarrow> nat dma_dev \<Rightarrow> bool" where
  "bench_holds s d \<longleftrightarrow> snd s = d \<and> (\<forall>k \<ge> fst s. dd_mem d k = None)"

interpretation bench_board: dma_link "bench_board route" bench_holds route limit for route limit
proof unfold_locales
  fix s d and n :: int
  assume "bench_holds s d"
  then show "\<exists>buf x u s'. dm_allocate (bench_board route) n s = (Inr buf, s') \<and> dd_mem d buf = None \<and> length x = nat n \<and> length u = nat n \<and>
      bench_holds s' (d\<lparr>dd_mem := (dd_mem d)(buf \<mapsto> (x, u))\<rparr>)"
    by (cases s) (rule exI [of _ "fst s"], rule exI [of _ "replicate (nat n) 0"], rule exI [of _ "replicate (nat n) 0"],
      auto simp: bench_board_def bench_holds_def)
qed (auto simp: bench_board_def bench_holds_def live_buf_def set_buf_def not_less_eq_eq split: prod.splits option.splits)

section \<open>The property\<close>

text \<open>C38: what \<open>verify\<close> of the dual bench tells.  On a board that loops each stream back to its own engine it exits with 0 and frees every buffer.
  The engines read and write memory and the program compares what it sees through the cache, so the flushes and invalidations of the round trips are needed.
  Its fills are meant to differ, so that a crossing of the two streams shows in the comparison; but the seeds differ only above the low byte, and the
  bytes are the same.  On a board that crosses the streams the comparison of the concurrent pass finds nothing.\<close>

theorem dual_verify_cannot_see_crossing:
  assumes "dma_link b holds route limit" "holds s d" "dd_tx d = (\<lambda>_. None)" "dd_rx d = (\<lambda>_. None)" "0 \<le> n" "n \<le> limit"
  shows "(route 0 = 0 \<and> route 1 = 1 \<longrightarrow> (\<exists>s'. dual_verify b n s = (Inr 0, s') \<and> holds s' d)) \<and>
    (route 0 = 1 \<and> route 1 = 0 \<and> distinct [src0, dst0, src1, dst1] \<and> 
       (\<forall>buf \<in> {src0, dst0, src1, dst1}. \<exists>x u. dd_mem d buf = Some (x, u) \<and> length x = nat n \<and> length u = nat n) \<longrightarrow>
      fst (concurrent_pass b n src0 dst0 src1 dst1 s) = Inr 0)"
proof -
  have d: "\<lparr>dd_mem = dd_mem d, dd_tx = (\<lambda>_. None), dd_rx = (\<lambda>_. None)\<rparr> = d" using assms(3,4) by (cases d) simp
  have st: "dma_link.settled holds s (dd_mem d)" unfolding dma_link.settled_def [OF assms(1)] d by (rule assms(2))
  have "fst (concurrent_pass b n src0 dst0 src1 dst1 s) = Inr 0"
    if r: "route 0 = 1" "route 1 = 0" and ne: "distinct [src0, dst0, src1, dst1]" and live: "\<forall>buf \<in> {src0, dst0, src1, dst1}. \<exists>x u. dd_mem d buf = Some (x, u) \<and> length x = nat n \<and> length u = nat n"
  proof -
    obtain x0 u0 y0 v0 x1 u1 y1 v1 where "dd_mem d src0 = Some (x0, u0)" "dd_mem d dst0 = Some (y0, v0)" "dd_mem d src1 = Some (x1, u1)"
        "dd_mem d dst1 = Some (y1, v1)" "length x0 = nat n" "length x1 = nat n" "length y0 = nat n" "length y1 = nat n" "length v0 = nat n"
        "length v1 = nat n" using live by auto
    from dma_link.concurrent_ok [OF assms(1) st this ne] r show ?thesis by auto
  qed
  moreover have "\<exists>s'. dual_verify b n s = (Inr 0, s') \<and> holds s' d" if "route 0 = 0" "route 1 = 1"
    using dma_link.dual_verify_ok [OF assms(1) st assms(5,6) that] unfolding dma_link.settled_def [OF assms(1)] d .
  ultimately show ?thesis by blast
qed

definition demo_dev :: "nat dma_dev" where
  "demo_dev = \<lparr>dd_mem = (\<lambda>k. if k < 4 then Some ([1, 2, 3], [0, 0, 0]) else None), dd_tx = (\<lambda>_. None), dd_rx = (\<lambda>_. None)\<rparr>"

lemma demo_dev_holds: "bench_holds (4, demo_dev) demo_dev"
  by (simp add: bench_holds_def demo_dev_def)

theorem dual_verify_cannot_see_crossing_witness:
  "(\<exists>s'. dual_verify (bench_board id) 3 (4, demo_dev) = (Inr 0, s') \<and> bench_holds s' demo_dev) \<and>
   fst (concurrent_pass (bench_board (\<lambda>i. 1 - i)) 3 0 1 2 3 (4, demo_dev)) = Inr 0"
proof -
  have t: "dd_tx demo_dev = (\<lambda>_. None)" "dd_rx demo_dev = (\<lambda>_. None)" "(0 :: int) \<le> 3" "(3 :: int) \<le> 8" by (simp_all add: demo_dev_def)
  have "\<forall>buf \<in> {0, 1, 2, 3 :: nat}. \<exists>x u. dd_mem demo_dev buf = Some (x, u) \<and> length x = nat 3 \<and> length u = nat 3" by (simp add: demo_dev_def)
  then show ?thesis
    using dual_verify_cannot_see_crossing [OF bench_board.dma_link_axioms demo_dev_holds t, of id 0 1 2 3]
      dual_verify_cannot_see_crossing [OF bench_board.dma_link_axioms demo_dev_holds t, of "\<lambda>i. 1 - i" 0 1 2 3] by simp
qed

end
