(* ===== verification/Spec2Isabelle.thy ===== *)
theory Spec2Isabelle
  imports LayoutProps PlProps GoldenProps StreamerProps BringUpProps PynqctlProps ProfileProps DeployProps
    AllocProbeProps AxiProbeProps DmaBenchProps
begin

text \<open>
  Verification of the Python side of the 1-bit TPU: the runtime on the PYNQ-Z1 board and its host
  (\<^verbatim>\<open>src/tools/pynqz1\<close>), and the TinyTapeout chip with the program that streams to it
  (\<^verbatim>\<open>src/src/rtl\<close>, \<^verbatim>\<open>src/tools/rp_streamer\<close>).

  \<^bold>\<open>The program.\<close>  A daemon on the board owns the memory that the processor and the programmable logic share.  A host
  allocates tensors in it, uploads and downloads their bytes, and sends graphs: lists of operations on
  tensors.  The parts, from the bottom to the top:

  \<^item> \<^verbatim>\<open>board/memory/slabs.py\<close>: contiguous buffers, with the cache maintenance that the hardware needs;
  \<^item> \<^verbatim>\<open>board/memory/allocator.py\<close>: tensors as lists of extents of slabs, free lists, handles;
  \<^item> \<^verbatim>\<open>proto/ops.py\<close>, \<^verbatim>\<open>proto/q1a8_layout.py\<close>: names of requests, operations and fields; the byte streams the matmul
    kernel reads;
  \<^item> \<^verbatim>\<open>board/profiling\<close>: a timer of nested spans and an event log;
  \<^item> \<^verbatim>\<open>board/kernels/ps/native.py\<close>: one class per operation, each resolving tensors to pointers and calling a C function;
  \<^item> \<^verbatim>\<open>board/kernels/pl\<close>: the drivers of the matmul and of the loopback in the programmable logic;
  \<^item> \<^verbatim>\<open>board/kernels/interface.py\<close>, \<^verbatim>\<open>registry.py\<close>, \<^verbatim>\<open>board/daemon/graph.py\<close>: the scheduler, which overlaps one
    asynchronous operation with the ones after it;
  \<^item> \<^verbatim>\<open>board/daemon/runtime.py\<close>, \<^verbatim>\<open>server.py\<close>, \<^verbatim>\<open>__main__.py\<close>: requests, connections, construction of the runtime;
  \<^item> \<^verbatim>\<open>proto/framing.py\<close>, \<^verbatim>\<open>host/transport/client.py\<close>: frames on the socket and the client;
  \<^item> \<^verbatim>\<open>host/cli/pynqctl.py\<close>: the command line of the host, one connection per request;
  \<^item> \<^verbatim>\<open>host/cli/pynq-profile.py\<close>: reads the event logs of host and board, matches them by request and reports;
  \<^item> \<^verbatim>\<open>host/cli/deploy.py\<close>: copies the packages to the board and starts the daemon there, over \<^verbatim>\<open>rsync\<close> and \<^verbatim>\<open>ssh\<close>;
  \<^item> \<^verbatim>\<open>board/tools/alloc_probe.py\<close>: finds how large a buffer PYNQ can allocate;
  \<^item> \<^verbatim>\<open>fpga/bitstreams/matmul_q1a8/bench.py\<close>: a bit-level reference of the kernel's arithmetic and its own packers;
  \<^item> \<^verbatim>\<open>fpga/bitstreams/benchmarks\<close>: small bitstreams and the programs that check them: a register file behind AXI-Lite, and DMA engines
    whose streams are looped back.

  The chip is a tile of one-bit multipliers behind eight input and eight output pins.  \<^verbatim>\<open>rp_streamer/firmware/main.c\<close> drives the pins
  for a host that sends requests over USB, and \<^verbatim>\<open>rp_streamer/host\<close> (\<^verbatim>\<open>protocol.py\<close>, \<^verbatim>\<open>cli.py\<close>) encodes the commands and checks the sums.
  Before that firmware is there, \<^verbatim>\<open>rp_streamer/host/scaffold/matmul_smoke.py\<close> runs a program on the board that sets the pins one by one.

  \<^bold>\<open>How it is modelled.\<close>  A Python method that may raise and mutates objects is a function from a state to a result and a state
  (\<^verbatim>\<open>py\<close> of Prelude); an exception is a value of \<^verbatim>\<open>error\<close>, an \<^verbatim>\<open>AllocatorError\<close> with its code.  Python integers are \<^verbatim>\<open>int\<close>, bytes
  are \<^verbatim>\<open>8 word\<close>, a request is a JSON value, and \<^verbatim>\<open>PyJson\<close> has Python's conversions of such values.  The state of the daemon is the record
  \<^verbatim>\<open>world\<close> of \<^verbatim>\<open>Timer\<close>: the allocator, the timer with the clock, the event log and the state of the devices.

  Code that is not Python of this repository is a parameter: the C library of the PS kernels (a function from a symbol, arguments and a
  memory to a return code and a memory), the C runner and the hardware of the PL kernel, PYNQ's allocator and overlay, the JSON codec, the clock
  and the environment.  What a theorem needs of them is a named hypothesis: \<^verbatim>\<open>computes\<close> (a C function sets the bytes of its last pointer to a function of
  the bytes of the others), \<^verbatim>\<open>quantizes\<close>, \<^verbatim>\<open>packs\<close> and \<^verbatim>\<open>runs_chunks\<close> (the entry points of the C runner, the last with the hardware behind it),
  \<^verbatim>\<open>granted\<close> and \<^verbatim>\<open>room\<close> (PYNQ's allocator hands out memory that is not in use), a codec that reads back what it
  wrote (\<^verbatim>\<open>request_ok\<close>, and \<^verbatim>\<open>trace_carried\<close> for all messages of a command).  The witnesses instantiate all of them.

  \<^bold>\<open>The theories.\<close>

  \<^item> \<^verbatim>\<open>Prelude\<close>: exceptions, the monad, slices, little-endian words, lists.  \<^verbatim>\<open>PyJson\<close>: JSON values and conversions.
  \<^item> \<^verbatim>\<open>Slabs\<close>: the slab classes; the locale \<^verbatim>\<open>byte_region\<close> is their contract, interpreted for coherent and incoherent writes.
  \<^item> \<^verbatim>\<open>FreeList\<close>, \<^verbatim>\<open>Allocator\<close>: the free list of a slab and the methods of the allocator.  \<^verbatim>\<open>AllocInv\<close>, \<^verbatim>\<open>AllocOps\<close>: free blocks and live extents divide every
    slab, and every method keeps that.  \<^verbatim>\<open>TensorStore\<close>, \<^verbatim>\<open>AllocSpec\<close>: the abstract store, a map from handles to byte strings, with the locale
    \<^verbatim>\<open>tensor_store\<close> and its two interpretations.  \<^verbatim>\<open>AllocProps\<close>: the properties.
  \<^item> \<^verbatim>\<open>Timer\<close>, \<^verbatim>\<open>Ops\<close>: spans, sections, counters, events; names.
  \<^item> \<^verbatim>\<open>Graph\<close>: kernels, the registry, \<^verbatim>\<open>run_graph\<close>.  \<^verbatim>\<open>GraphSpec\<close>: the scheduler is agnostic of profiling; the locale \<^verbatim>\<open>footprints\<close>
    has the byte ranges that operations access and the arena's rule about them, and \<^verbatim>\<open>async_kernels\<close> extends it by the laws of the kernels under which the schedule
    computes what the flat walk computes.  \<^verbatim>\<open>GraphSafety\<close>: the protocol of the operation in flight, checked against those byte ranges.  \<^verbatim>\<open>GraphProps\<close>: the
    properties, for any registry; the witness has a kernel that really is in flight.
  \<^item> \<^verbatim>\<open>Layout\<close>, \<^verbatim>\<open>LayoutSpec\<close>, \<^verbatim>\<open>LayoutProps\<close>: the packers, their output as blocks, the properties.
  \<^item> \<^verbatim>\<open>NativeCall\<close>, \<^verbatim>\<open>PsKernels\<close>: calls into C and the kernels of \<^verbatim>\<open>native.py\<close>.  \<^verbatim>\<open>PsSpec\<close>: they keep the invariant and do not look
    at profiling; \<^verbatim>\<open>async_kernels\<close> is interpreted for their registry.  \<^verbatim>\<open>GlueSpec\<close>: they refine functions on tensors.  \<^verbatim>\<open>PsProps\<close>: the properties.
  \<^item> \<^verbatim>\<open>PlDevice\<close>, \<^verbatim>\<open>PlMatmul\<close>, \<^verbatim>\<open>PlKernels\<close>: overlay, register blocks and DMA buffers; the matmul driver; loopback, registration and \<^verbatim>\<open>make_runtime\<close>.
    \<^verbatim>\<open>PlSpec\<close>: what the drivers keep, and \<^verbatim>\<open>footprints\<close> for the registry of \<^verbatim>\<open>make_runtime\<close>, of which only the arena's rule remains to be assumed.
    \<^verbatim>\<open>MatmulSpec\<close>, \<^verbatim>\<open>MatmulRun\<close>, \<^verbatim>\<open>MatmulTop\<close>: the contract of the device and the matmul from one chunk to the whole
    call.  \<^verbatim>\<open>MatmulAsync\<close>: the same for the call that is issued and completed in two steps.  \<^verbatim>\<open>PlDemo\<close>, \<^verbatim>\<open>PlProps\<close>: a concrete board and the properties.
  \<^item> \<^verbatim>\<open>Framing\<close>, \<^verbatim>\<open>Runtime\<close>, \<^verbatim>\<open>Server\<close>, \<^verbatim>\<open>Client\<close>: frames, request handlers, connection handler, client; \<^verbatim>\<open>bad_tail\<close> classifies the bytes that are no
    frame by the exception they cause.  \<^verbatim>\<open>DaemonProps\<close>, \<^verbatim>\<open>WireProps\<close>: the properties.
  \<^item> \<^verbatim>\<open>Pynqctl\<close>: the parsers of arguments, the commands and the exit codes, over a network that is a parameter.  \<^verbatim>\<open>PynqctlSpec\<close>: the locale
    \<^verbatim>\<open>remote_runtime\<close>, what a command relies on of a remote call, interpreted for the network whose peer is the connection handler; the requests
    of the smoke tests step by step.  \<^verbatim>\<open>PynqctlProps\<close>: the properties, among them a graph copy from the command line to the heap of the board and back.
  \<^item> \<^verbatim>\<open>Profile\<close>, \<^verbatim>\<open>ProfileProps\<close>: the reporter.  The order of the log files does not matter, the summary accounts for every span, the flame graph is well formed.
  \<^item> \<^verbatim>\<open>Deploy\<close>, \<^verbatim>\<open>DeployProps\<close>: configuration, command lines, commands.  A reader of POSIX shell lines finds in the remote command lines exactly the words
    that were meant, and nothing runs on the board after a failed copy.
  \<^item> \<^verbatim>\<open>AllocProbe\<close>, \<^verbatim>\<open>AllocProbeProps\<close>: the step loop, the binary search and the chunked probe over a pool that is a parameter; the locale \<^verbatim>\<open>single_pool\<close>
    is the contract of its three operations.
  \<^item> \<^verbatim>\<open>AxiProbe\<close>, \<^verbatim>\<open>AxiProbeProps\<close>: the register file of \<^verbatim>\<open>axi_lite_regs.v\<close> clock by clock and the probe over it; the locale \<^verbatim>\<open>axi_master\<close> is the
    bus between them, handshakes with bounded latency in which address and data may come in any order.
  \<^item> \<^verbatim>\<open>DmaBench\<close>, \<^verbatim>\<open>DmaBenchProps\<close>: the DMA benches over the locale \<^verbatim>\<open>dma_link\<close>, with the route of the streams as a parameter and a cache between the program
    and the engines.
  \<^item> \<^verbatim>\<open>Golden\<close>, \<^verbatim>\<open>Packers\<close>: the arithmetic of the bench and the packers of the bench and of the driver's reference; \<^verbatim>\<open>beat_sink\<close> is what the packers share, with
    a buffer and a stream as its interpretations.  \<^verbatim>\<open>GoldenSpec\<close>, \<^verbatim>\<open>GoldenProps\<close>: the arithmetic against the real numbers, the packers against \<^verbatim>\<open>Layout\<close>.
  \<^item> \<^verbatim>\<open>Chip\<close>: one clock of the tile, module by module.  \<^verbatim>\<open>ChipSpec\<close>: the reachable states, a run from \<open>START\<close> to the sums.  \<^verbatim>\<open>Streamer\<close>: the requests of the firmware and the
    host.  \<^verbatim>\<open>StreamerSpec\<close>: the locale \<^verbatim>\<open>streamer_link\<close> between them and its interpretation.  \<^verbatim>\<open>StreamerProps\<close>: the properties.
    \<^verbatim>\<open>BringUp\<close>, \<^verbatim>\<open>BringUpProps\<close>: the bring-up program over the board's SDK, whose contract is the locale \<^verbatim>\<open>tt_pins\<close>, and the sums it reads.

  \<^bold>\<open>Bounds and fuel.\<close>  Loops over lists and ranges are structural.  The loop over the chunks of a column has the number of rows as fuel, and
  \<^verbatim>\<open>pl_matmul_terminates\<close> shows that it never runs out.  The loop of \<^verbatim>\<open>read_exact\<close> consumes the stream, and the connection handler
  consumes a frame per round.  The step loop of the allocation probe has fuel, since a step of zero never ends; \<^verbatim>\<open>probe_finds_limit\<close> shows that more than
  \<^verbatim>\<open>max_mib\<close> is enough for a positive step.

  \<^bold>\<open>Not modelled.\<close>  The C kernels, the Verilog of the matmul bitstream and the C++ backend are other languages; what Python relies on of them is a
  hypothesis.  Of the firmware, the requests that flash or boot the board.  \<^verbatim>\<open>argparse\<close> is the standard library: the commands take their options as
  arguments.  Subprocesses, the serial port and the SDK of the demo board are parameters or left out; \<^verbatim>\<open>mem_bandwidth.py\<close> and the commands of the
  matmul bench that drive the board measure time on the hardware and print it; the layout of printed text is not modelled anywhere.  Threads: a request holds the runtime's lock from beginning to end, so requests are a sequence.

  \<^bold>\<open>Limits of the contracts.\<close>  In the contract \<^verbatim>\<open>runs_chunks\<close> of the matmul device, processor and DMA share one memory: the cache maintenance of the driver is recorded as a
  trace and has no effect there, and neither the 16-bit counts of the kernel's registers nor the length field of the DMA engine bound a chunk.  The contract \<^verbatim>\<open>async_kernels\<close> is
  interpreted for the registry of the PS kernels; for the PL matmul, that issuing and completing is running is shown in \<^verbatim>\<open>MatmulAsync\<close>, while its exchange with the C kernels stays
  an assumption about the C library.  In \<^verbatim>\<open>Golden\<close> a subnormal half counts as zero and the exponent 31 as an ordinary one, as in the kernel.
\<close>

end
